(* ===== verification/Mmal_Prelude.thy ===== *)
theory Mmal_Prelude
  imports Main "HOL-Library.Word"
begin

text \<open>
  Shared types and lemmas: status codes of MMAL and VCOS, pointers, machine integers
  (\<open>uint32_t\<close> is \<open>32 word\<close>; signed arithmetic whose overflow is undefined in C is done on
  \<open>int\<close> under an explicit range check), counting semaphores, and the lemma collections the
  component theories add to.
\<close>

unbundle bit_operations_syntax

named_theorems repr_intros \<open>rules that establish a representation relation after an operation\<close>
named_theorems inv_intros \<open>rules that re-establish a component's invariant after an operation\<close>
named_theorems op_simps \<open>equations of operations on the states where their guards hold\<close>

section \<open>Pointers and machine integers\<close>

type_synonym addr = nat
type_synonym ptr = "addr option" \<comment> \<open>\<open>None\<close> is the null pointer\<close>
type_synonym u32 = "32 word"
type_synonym u64 = "64 word"

text \<open>Signed integers: an operation whose exact result leaves the type is undefined in C.\<close>

definition in_i32 :: "int \<Rightarrow> bool" where
  "in_i32 x \<longleftrightarrow> - (2 ^ 31) \<le> x \<and> x < 2 ^ 31"

definition in_i64 :: "int \<Rightarrow> bool" where
  "in_i64 x \<longleftrightarrow> - (2 ^ 63) \<le> x \<and> x < 2 ^ 63"

definition i32 :: "int \<Rightarrow> int option" where
  "i32 x = (if in_i32 x then Some x else None)"

definition i64 :: "int \<Rightarrow> int option" where
  "i64 x = (if in_i64 x then Some x else None)"

lemma i32_Some_iff [simp]: "i32 x = Some y \<longleftrightarrow> in_i32 x \<and> y = x"
  by (auto simp: i32_def)

lemma i64_Some_iff [simp]: "i64 x = Some y \<longleftrightarrow> in_i64 x \<and> y = x"
  by (auto simp: i64_def)

text \<open>C's integer division truncates towards zero.\<close>

definition c_div :: "int \<Rightarrow> int \<Rightarrow> int" where
  "c_div a b = sgn a * sgn b * (\<bar>a\<bar> div \<bar>b\<bar>)"

lemma c_div_exact: "b \<noteq> 0 \<Longrightarrow> b dvd a \<Longrightarrow> c_div a b * b = a"
proof -
  assume "b \<noteq> 0" and "b dvd a"
  then obtain k where a: "a = b * k" by blast
  have "\<bar>b * k\<bar> div \<bar>b\<bar> = \<bar>k\<bar>"
    using \<open>b \<noteq> 0\<close> by (simp add: abs_mult)
  moreover have "sgn (b * k) * sgn b * \<bar>k\<bar> = k"
  proof -
    have "sgn (b * k) * sgn b * \<bar>k\<bar> = (sgn b * sgn b) * (sgn k * \<bar>k\<bar>)"
      by (simp add: sgn_mult ac_simps)
    also have "sgn b * sgn b = 1" using \<open>b \<noteq> 0\<close> by (simp add: sgn_if)
    also have "sgn k * \<bar>k\<bar> = k" by (rule sgn_mult_abs)
    finally show ?thesis by simp
  qed
  ultimately show ?thesis by (simp add: c_div_def a mult.commute)
qed

lemma c_div_mult: "b \<noteq> 0 \<Longrightarrow> c_div (b * k) b = k"
  using c_div_exact [of b "b * k"] by simp

lemma c_div_1 [simp]: "c_div a 1 = a"
  by (simp add: c_div_def abs_sgn mult.commute)

text \<open>The rounding macro of \<^verbatim>\<open>core/mmal_buffer.c\<close> and \<^verbatim>\<open>core/mmal_pool.c\<close>, at the width of
  \<open>unsigned long\<close> (32 bits on the Raspberry Pi): round down, then add one alignment step.\<close>

definition ROUND_UP :: "u32 \<Rightarrow> u32 \<Rightarrow> u32" where
  "ROUND_UP s align = (s AND NOT (align - 1)) + align"

text \<open>\<open>VCOS_BLOCKPOOL_ROUND_UP\<close> of \<^verbatim>\<open>vcos_generic_blockpool.h\<close>.\<close>

definition BLOCKPOOL_ROUND_UP :: "u32 \<Rightarrow> u32 \<Rightarrow> u32" where
  "BLOCKPOOL_ROUND_UP x s = (x + (s - 1)) AND NOT (s - 1)"

lemma and_not_mask: "(s :: 'a::len word) AND NOT (mask n) = push_bit n (drop_bit n s)"
  by (rule bit_word_eqI) (auto simp: bit_simps)

lemma ROUND_UP_8: "unat s + 8 < 2 ^ 32 \<Longrightarrow> unat (ROUND_UP s 8) = unat s div 8 * 8 + 8"
proof -
  assume le: "unat s + 8 < 2 ^ 32"
  have "s AND NOT 7 = push_bit 3 (drop_bit 3 s)"
    using and_not_mask [of s 3] by (simp add: mask_eq_exp_minus_1)
  moreover have "unat (push_bit 3 (drop_bit 3 s)) = unat s div 8 * 8"
  proof -
    have d: "unat (drop_bit 3 s) = unat s div 8"
      by (simp add: drop_bit_eq_div unat_div_distrib)
    have "unat s div 8 * 8 < 2 ^ 32"
      using le by (auto intro: le_less_trans [OF div_times_less_eq_dividend])
    then show ?thesis
      by (simp add: push_bit_eq_mult unat_word_ariths d mult.commute)
  qed
  ultimately have m: "unat (s AND NOT 7) = unat s div 8 * 8" by simp
  have "unat s div 8 * 8 + 8 < 2 ^ 32"
    using le div_times_less_eq_dividend [of "unat s" 8] by linarith
  with m show ?thesis by (simp add: ROUND_UP_def unat_word_ariths)
qed

lemma ROUND_UP_8_bounds:
  assumes "unat s + 8 < 2 ^ 32"
  shows "unat s < unat (ROUND_UP s 8)" and "unat (ROUND_UP s 8) \<le> unat s + 8"
    and "8 dvd unat (ROUND_UP s 8)"
proof -
  have e: "unat (ROUND_UP s 8) = unat s div 8 * 8 + 8" by (rule ROUND_UP_8 [OF assms])
  show "unat s < unat (ROUND_UP s 8)" and "unat (ROUND_UP s 8) \<le> unat s + 8"
    using e by presburger+
  show "8 dvd unat (ROUND_UP s 8)" using e by simp
qed

section \<open>Status codes\<close>

text \<open>\<open>MMAL_STATUS_T\<close> of \<^verbatim>\<open>mmal_types.h\<close>, in the order of the enumeration.\<close>

datatype mmal_status =
    MMAL_SUCCESS | MMAL_ENOMEM | MMAL_ENOSPC | MMAL_EINVAL | MMAL_ENOSYS | MMAL_ENOENT
  | MMAL_ENXIO | MMAL_EIO | MMAL_ESPIPE | MMAL_ECORRUPT | MMAL_ENOTREADY | MMAL_ECONFIG
  | MMAL_EISCONN | MMAL_ENOTCONN | MMAL_EAGAIN | MMAL_EFAULT

fun mmal_status_code :: "mmal_status \<Rightarrow> nat" where
  "mmal_status_code MMAL_SUCCESS = 0"
| "mmal_status_code MMAL_ENOMEM = 1"
| "mmal_status_code MMAL_ENOSPC = 2"
| "mmal_status_code MMAL_EINVAL = 3"
| "mmal_status_code MMAL_ENOSYS = 4"
| "mmal_status_code MMAL_ENOENT = 5"
| "mmal_status_code MMAL_ENXIO = 6"
| "mmal_status_code MMAL_EIO = 7"
| "mmal_status_code MMAL_ESPIPE = 8"
| "mmal_status_code MMAL_ECORRUPT = 9"
| "mmal_status_code MMAL_ENOTREADY = 10"
| "mmal_status_code MMAL_ECONFIG = 11"
| "mmal_status_code MMAL_EISCONN = 12"
| "mmal_status_code MMAL_ENOTCONN = 13"
| "mmal_status_code MMAL_EAGAIN = 14"
| "mmal_status_code MMAL_EFAULT = 15"

lemma mmal_status_code_inj: "mmal_status_code s = mmal_status_code t \<longleftrightarrow> s = t"
  by (cases s; cases t) simp_all

text \<open>C compares enumeration constants by their values; the type gets that order.\<close>

instantiation mmal_status :: linorder
begin

definition less_eq_mmal_status :: "mmal_status \<Rightarrow> mmal_status \<Rightarrow> bool" where
  "less_eq_mmal_status s t \<longleftrightarrow> mmal_status_code s \<le> mmal_status_code t"

definition less_mmal_status :: "mmal_status \<Rightarrow> mmal_status \<Rightarrow> bool" where
  "less_mmal_status s t \<longleftrightarrow> mmal_status_code s < mmal_status_code t"

instance
  by standard
    (auto simp: less_eq_mmal_status_def less_mmal_status_def mmal_status_code_inj [symmetric])

end

text \<open>\<open>VCOS_STATUS_T\<close> of \<^verbatim>\<open>vcos_types.h\<close>.\<close>

datatype vcos_status =
    VCOS_SUCCESS | VCOS_EAGAIN | VCOS_ENOENT | VCOS_ENOSPC | VCOS_EINVAL | VCOS_EACCESS
  | VCOS_ENOMEM | VCOS_ENOSYS | VCOS_EEXIST | VCOS_ENXIO | VCOS_EINTR

section \<open>Outcomes of a call\<close>

text \<open>A call returns, blocks for ever unless another thread acts, or faults (a null dereference
  or a failed \<open>vcos_demand\<close>).\<close>

datatype 'a run = Returns 'a | Blocks | Faults

fun returned :: "'a run \<Rightarrow> 'a option" where
  "returned (Returns x) = Some x"
| "returned _ = None"

text \<open>Where a loop may also run for ever, the outcome is \<open>None\<close> when it does. \<open>andthen\<close>
  sequences two calls.\<close>

type_synonym 'a outcome = "'a run option"

abbreviation ret :: "'a \<Rightarrow> 'a outcome" where "ret x \<equiv> Some (Returns x)"

definition andthen :: "'a outcome \<Rightarrow> ('a \<Rightarrow> 'b outcome) \<Rightarrow> 'b outcome" where
  "andthen r f = Option.bind r (\<lambda>x. case x of
     Returns a \<Rightarrow> f a | Blocks \<Rightarrow> Some Blocks | Faults \<Rightarrow> Some Faults)"

lemma andthen_simps [simp]:
  "andthen (Some (Returns a)) f = f a" "andthen (Some Blocks) f = Some Blocks"
  "andthen (Some Faults) f = Some Faults" "andthen None f = None"
  by (simp_all add: andthen_def)

lemma andthen_ret [simp]: "andthen r (\<lambda>x. ret x) = r"
proof (cases r)
  case (Some x)
  then show ?thesis by (cases x) simp_all
qed simp

lemma andthen_ret_iff:
  "andthen r f = ret y \<longleftrightarrow> (\<exists>a. r = ret a \<and> f a = ret y)"
proof (cases r)
  case (Some x)
  then show ?thesis by (cases x) simp_all
qed simp

lemma andthen_mono [partial_function_mono]:
  assumes "mono_option B" and "\<And>y. mono_option (\<lambda>f. C y f)"
  shows "mono_option (\<lambda>f. andthen (B f) (\<lambda>y. C y f))"
proof -
  have "mono_option (\<lambda>f. case y of Returns a \<Rightarrow> C a f | Blocks \<Rightarrow> Some Blocks | Faults \<Rightarrow> Some Faults)" for y
    using assms(2) by (cases y) (simp_all add: option.const_mono)
  then show ?thesis unfolding andthen_def by (intro bind_mono assms(1)) 
qed

text \<open>Results of calls that use \<open>None\<close> for blocking, and for a null dereference.\<close>

definition or_blocks :: "'a option \<Rightarrow> 'a outcome" where
  "or_blocks r = Some (case r of None \<Rightarrow> Blocks | Some x \<Rightarrow> Returns x)"

definition or_faults :: "'a option \<Rightarrow> 'a outcome" where
  "or_faults r = Some (case r of None \<Rightarrow> Faults | Some x \<Rightarrow> Returns x)"

lemma or_simps [simp]:
  "or_blocks (Some x) = ret x" "or_blocks None = Some Blocks"
  "or_faults (Some x) = ret x" "or_faults None = Some Faults"
  by (simp_all add: or_blocks_def or_faults_def)

section \<open>Counting semaphores\<close>

text \<open>
  A semaphore is its count. \<open>sem_wait\<close> is \<open>None\<close> when the calling thread would block.
\<close>

definition sem_wait :: "nat \<Rightarrow> nat option" where
  "sem_wait n = (if n = 0 then None else Some (n - 1))"

definition sem_post :: "nat \<Rightarrow> nat" where
  "sem_post n = Suc n"

lemma sem_wait_Suc [simp]: "sem_wait (Suc n) = Some n"
  and sem_wait_0 [simp]: "sem_wait 0 = None"
  by (simp_all add: sem_wait_def)

lemma sem_wait_Some_iff: "sem_wait n = Some m \<longleftrightarrow> n = Suc m"
  by (cases n) auto

end
