(* ===== verification/Mmal_Rational.thy ===== *)
theory Mmal_Rational
  imports Complex_Main Mmal_Prelude
begin

text \<open>
  Rational numbers (\<^verbatim>\<open>util/mmal_util_rational.c\<close>): the division-free greatest common divisor,
  the arithmetic on reduced fractions, and the conversions to and from Q16 fixed point. Numerators
  and denominators are \<open>int32_t\<close>: a step whose exact result leaves the type is \<open>None\<close>.
\<close>

section \<open>The greatest common divisor\<close>

record mmal_rational =
  num :: int
  den :: int

text \<open>\<open>while (!(x & 0x01)) x >>= 1;\<close> does not end for 0, which is \<open>None\<close>.\<close>

partial_function (option) strip_twos :: "int \<Rightarrow> int option" where
  "strip_twos x = (if x AND 1 = 0 then strip_twos (drop_bit 1 x) else Some x)"

partial_function (option) shift_loop :: "int \<Rightarrow> int \<Rightarrow> nat \<Rightarrow> (int \<times> int \<times> nat) option" where
  "shift_loop a b shift =
     (if (a OR b) AND 1 = 0 then shift_loop (drop_bit 1 a) (drop_bit 1 b) (shift + 1)
      else Some (a, b, shift))"

partial_function (option) gcd_loop :: "int \<Rightarrow> int \<Rightarrow> int option" where
  "gcd_loop a b =
     (if a > 0 then
        Option.bind (strip_twos a) (\<lambda>a. Option.bind (strip_twos b) (\<lambda>b.
          if a \<ge> b then gcd_loop (drop_bit 1 (a - b)) b else gcd_loop a (drop_bit 1 (b - a))))
      else Some b)"

definition gcd32 :: "int \<Rightarrow> int \<Rightarrow> int option" where
  "gcd32 a b =
     (if a = 0 \<or> b = 0 then Some 1
      else Option.bind (i32 \<bar>a\<bar>) (\<lambda>a. Option.bind (i32 \<bar>b\<bar>) (\<lambda>b.
        Option.bind (shift_loop a b 0) (\<lambda>(a, b, shift).
        Option.bind (gcd_loop a b) (\<lambda>b. i32 (push_bit shift b))))))"

section \<open>Arithmetic\<close>

definition mul32 :: "int \<Rightarrow> int \<Rightarrow> int option" where
  "mul32 a b = i32 (a * b)"

definition mmal_rational_add :: "mmal_rational \<Rightarrow> mmal_rational \<Rightarrow> mmal_rational option" where
  "mmal_rational_add a b =
     Option.bind (gcd32 (den a) (den b)) (\<lambda>g.
     let aden = c_div (den a) g in
     Option.bind (mul32 (num a) (c_div (den b) g)) (\<lambda>t1.
     Option.bind (mul32 (num b) aden) (\<lambda>t2.
     Option.bind (i32 (t1 + t2)) (\<lambda>anum.
     Option.bind (gcd32 anum g) (\<lambda>g.
     Option.bind (mul32 aden (c_div (den b) g)) (\<lambda>d.
     Some \<lparr>num = c_div anum g, den = d\<rparr>))))))"

definition mmal_rational_subtract :: "mmal_rational \<Rightarrow> mmal_rational \<Rightarrow> mmal_rational option" where
  "mmal_rational_subtract a b =
     Option.bind (i32 (- num b)) (\<lambda>n. mmal_rational_add a (b\<lparr>num := n\<rparr>))"

definition mmal_rational_multiply :: "mmal_rational \<Rightarrow> mmal_rational \<Rightarrow> mmal_rational option" where
  "mmal_rational_multiply a b =
     Option.bind (gcd32 (num a) (den b)) (\<lambda>gcd1.
     Option.bind (gcd32 (num b) (den a)) (\<lambda>gcd2.
     Option.bind (mul32 (c_div (num a) gcd1) (c_div (num b) gcd2)) (\<lambda>n.
     Option.bind (mul32 (c_div (den a) gcd2) (c_div (den b) gcd1)) (\<lambda>d.
     Some \<lparr>num = n, den = d\<rparr>))))"

definition mmal_rational_divide :: "mmal_rational \<Rightarrow> mmal_rational \<Rightarrow> mmal_rational option" where
  "mmal_rational_divide a b =
     (if num b = 0 then Some a
      else if num a = 0 then Some a
      else
        Option.bind (gcd32 (num a) (num b)) (\<lambda>gcd1.
        Option.bind (gcd32 (den b) (den a)) (\<lambda>gcd2.
        Option.bind (mul32 (c_div (num a) gcd1) (c_div (den b) gcd2)) (\<lambda>n.
        Option.bind (mul32 (c_div (den a) gcd2) (c_div (num b) gcd1)) (\<lambda>d.
        Some \<lparr>num = n, den = d\<rparr>)))))"

definition INT_MAX :: int where "INT_MAX = 2 ^ 31 - 1"
definition INT_MIN :: int where "INT_MIN = - (2 ^ 31)"
definition Q16_ONE :: int where "Q16_ONE = 2 ^ 16"

definition mmal_rational_to_fixed_16_16 :: "mmal_rational \<Rightarrow> int" where
  "mmal_rational_to_fixed_16_16 r =
     (let result = num r * 2 ^ 16;
          result = (if den r \<noteq> 0 then c_div result (den r) else result)
      in if result > INT_MAX then INT_MAX
         else if result < INT_MIN then INT_MIN
         else result)"

definition mmal_rational_simplify :: "mmal_rational \<Rightarrow> mmal_rational option" where
  "mmal_rational_simplify r =
     Option.bind (gcd32 (num r) (den r)) (\<lambda>g. Some (r\<lparr>num := c_div (num r) g, den := c_div (den r) g\<rparr>))"

definition mmal_rational_from_fixed_16_16 :: "int \<Rightarrow> mmal_rational option" where
  "mmal_rational_from_fixed_16_16 fixed = mmal_rational_simplify \<lparr>num = fixed, den = Q16_ONE\<rparr>"

text \<open>The products are computed in \<open>int64_t\<close>.\<close>

definition mmal_rational_equal :: "mmal_rational \<Rightarrow> mmal_rational \<Rightarrow> bool" where
  "mmal_rational_equal a b =
     (if num a \<noteq> num b \<and> num a * num b = 0 then False
      else num a * den b = num b * den a)"

section \<open>The greatest common divisor is computed\<close>

lemma gcd_double_left: "odd b \<Longrightarrow> gcd (2 * a) b = gcd a b" for a b :: int
  by (simp add: gcd_mult_left_left_cancel)

lemma strip_twos_odd [simp]: "odd x \<Longrightarrow> strip_twos x = Some x"
  by (subst strip_twos.simps) (simp add: and_one_eq odd_iff_mod_2_eq_one)

lemma strip_twos_even: "even x \<Longrightarrow> strip_twos x = strip_twos (x div 2)"
  by (subst strip_twos.simps) (simp add: and_one_eq even_iff_mod_2_eq_zero drop_bit_Suc)

lemma strip_twos_Some:
  "0 < x \<Longrightarrow> \<exists>y. strip_twos x = Some y \<and> 0 < y \<and> y \<le> x \<and> odd y
      \<and> (\<forall>b. odd b \<longrightarrow> gcd x b = gcd y b)"
proof (induction "nat x" arbitrary: x rule: less_induct)
  case less
  show ?case
  proof (cases "odd x")
    case True
    with less.prems show ?thesis by auto
  next
    case False
    then obtain k where k: "x = 2 * k" by blast
    with less.prems less.hyps [of k] obtain y where "strip_twos k = Some y" "0 < y" "y \<le> k" "odd y"
      "\<forall>b. odd b \<longrightarrow> gcd k b = gcd y b" by auto
    then show ?thesis
      using k less.prems strip_twos_even [of x] gcd_double_left [of _ k] by auto
  qed
qed

lemma gcd_loop_zero [simp]: "gcd_loop 0 b = Some b"
  by (subst gcd_loop.simps) simp

lemma gcd_half_diff:
  fixes x y :: int
  assumes "odd x" and "odd y"
  shows "gcd ((x - y) div 2) y = gcd x y"
proof -
  have "gcd ((x - y) div 2) y = gcd (2 * ((x - y) div 2)) y"
    using gcd_double_left [OF assms(2)] by simp
  also have "2 * ((x - y) div 2) = x - y" using assms by simp
  finally show ?thesis by (simp add: gcd_diff1)
qed

lemma gcd_loop_correct:
  "0 \<le> a \<Longrightarrow> 0 < b \<Longrightarrow> odd a \<or> odd b \<Longrightarrow> gcd_loop a b = Some (gcd a b)"
proof (induction "nat (a + b)" arbitrary: a b rule: less_induct)
  case less
  show ?case
  proof (cases "a = 0")
    case True
    with less.prems show ?thesis by simp
  next
    case False
    with less.prems have "0 < a" by simp
    from strip_twos_Some [OF this] obtain x where x: "strip_twos a = Some x" "0 < x" "x \<le> a" "odd x"
      "\<And>c. odd c \<Longrightarrow> gcd a c = gcd x c" by blast
    from strip_twos_Some [OF less.prems(2)] obtain y where y: "strip_twos b = Some y" "0 < y" "y \<le> b"
      "odd y" "\<And>c. odd c \<Longrightarrow> gcd b c = gcd y c" by blast
    have g: "gcd a b = gcd x y"
      using less.prems(3) x y by (metis gcd.commute)
    show ?thesis
    proof (cases "y \<le> x")
      case True
      have "gcd_loop ((x - y) div 2) y = Some (gcd ((x - y) div 2) y)"
        using x y True by (intro less.hyps) auto
      then show ?thesis
        using True x y \<open>0 < a\<close> g gcd_half_diff [of x y]
        by (subst gcd_loop.simps) (simp add: drop_bit_Suc)
    next
      case False
      have "0 < (y - x) div 2" using False x y by (auto elim!: oddE)
      then have "gcd_loop x ((y - x) div 2) = Some (gcd x ((y - x) div 2))"
        using x y False by (intro less.hyps) auto
      then show ?thesis
        using False x y \<open>0 < a\<close> g gcd_half_diff [of y x]
        by (subst gcd_loop.simps) (simp add: drop_bit_Suc gcd.commute)
    qed
  qed
qed

lemma shift_loop_correct:
  "0 < a \<Longrightarrow> 0 < b \<Longrightarrow> \<exists>x y k. shift_loop a b s = Some (x, y, s + k) \<and> 0 < x \<and> 0 < y
      \<and> (odd x \<or> odd y) \<and> a = x * 2 ^ k \<and> b = y * 2 ^ k"
proof (induction "nat a" arbitrary: a b s rule: less_induct)
  case less
  show ?case
  proof (cases "odd a \<or> odd b")
    case True
    then have "(a OR b) AND 1 \<noteq> 0" by (auto simp: and_one_eq even_or_iff simp flip: even_iff_mod_2_eq_zero)
    then have "shift_loop a b s = Some (a, b, s + 0)" by (subst shift_loop.simps) simp
    then show ?thesis using True less.prems by (intro exI [of _ a] exI [of _ b] exI [of _ 0]) simp
  next
    case False
    then have e: "(a OR b) AND 1 = 0" by (simp add: and_one_eq even_or_iff flip: even_iff_mod_2_eq_zero)
    from False obtain a' b' where ab: "a = 2 * a'" "b = 2 * b'" by (auto elim!: evenE)
    with less.hyps [of a' b' "Suc s"] less.prems obtain x y k
      where "shift_loop a' b' (Suc s) = Some (x, y, Suc s + k)" "0 < x" "0 < y" "odd x \<or> odd y"
        "a' = x * 2 ^ k" "b' = y * 2 ^ k" by auto
    then show ?thesis
      using ab e by (intro exI [of _ x] exI [of _ y] exI [of _ "Suc k"])
        (subst shift_loop.simps, simp add: drop_bit_Suc)
  qed
qed

lemma gcd32_eval:
  assumes "a \<noteq> 0" and "b \<noteq> 0"
  shows "gcd32 a b = (if in_i32 \<bar>a\<bar> \<and> in_i32 \<bar>b\<bar> then Some (gcd a b) else None)"
proof -
  obtain x y k where s: "shift_loop \<bar>a\<bar> \<bar>b\<bar> 0 = Some (x, y, k)" "0 < x" "0 < y" "odd x \<or> odd y"
    "\<bar>a\<bar> = x * 2 ^ k" "\<bar>b\<bar> = y * 2 ^ k"
    using shift_loop_correct [of "\<bar>a\<bar>" "\<bar>b\<bar>" 0] assms by auto
  have l: "gcd_loop x y = Some (gcd x y)" using s by (intro gcd_loop_correct) auto
  have g: "gcd x y * 2 ^ k = gcd a b"
    using gcd_mult_distrib_int [of "2 ^ k" x y] s(5,6)
    by (simp add: mult.commute) (metis gcd_abs1_int gcd_abs2_int)
  have "gcd a b \<le> \<bar>a\<bar>" using assms by (intro zdvd_imp_le) auto
  then have "in_i32 \<bar>a\<bar> \<Longrightarrow> in_i32 (gcd a b)"
    using gcd_ge_0_int [of a b] unfolding in_i32_def by linarith
  then show ?thesis using assms s(1) l g by (simp add: gcd32_def i32_def push_bit_eq_mult)
qed

lemma gcd32_correct:
  assumes "in_i32 a" and "in_i32 b" and "a \<noteq> INT_MIN" and "b \<noteq> INT_MIN" and "a \<noteq> 0" and "b \<noteq> 0"
  shows "gcd32 a b = Some (gcd a b)"
  using assms by (auto simp: gcd32_eval in_i32_def INT_MIN_def)

lemma gcd32_zero [simp]: "gcd32 0 b = Some 1" "gcd32 a 0 = Some 1"
  by (simp_all add: gcd32_def)

lemma gcd32_Some:
  assumes "gcd32 a b = Some g"
  shows "0 < g" and "g dvd a" and "g dvd b" and "a \<noteq> 0 \<Longrightarrow> b \<noteq> 0 \<Longrightarrow> g = gcd a b"
  using assms gcd32_eval [of a b] by (cases "a = 0 \<or> b = 0"; auto split: if_splits)+

section \<open>The operations compute on rationals\<close>

definition rval :: "mmal_rational \<Rightarrow> rat" where
  "rval r = of_int (num r) / of_int (den r)"

definition reduced :: "mmal_rational \<Rightarrow> bool" where
  "reduced r \<longleftrightarrow> den r \<noteq> 0 \<and> coprime (num r) (den r)"

lemma mul32_Some [simp]: "mul32 a b = Some c \<longleftrightarrow> in_i32 (a * b) \<and> c = a * b"
  by (auto simp: mul32_def)

text \<open>The factors that \<open>mmal_rational_add\<close> works with.\<close>

definition add_shape ::
  "mmal_rational \<Rightarrow> mmal_rational \<Rightarrow> mmal_rational \<Rightarrow> int \<Rightarrow> int \<Rightarrow> int \<Rightarrow> int \<Rightarrow> int \<Rightarrow> int \<Rightarrow> bool" where
  "add_shape a b r g p q g' t h \<longleftrightarrow>
     den a = g * p \<and> den b = g * q \<and> g = gcd (den a) (den b) \<and> g \<noteq> 0
     \<and> num a * q + num b * p = g' * t \<and> g = g' * h \<and> g' \<noteq> 0
     \<and> (num a * q + num b * p \<noteq> 0 \<longrightarrow> g' = gcd (num a * q + num b * p) g)
     \<and> num r = t \<and> den r = p * (h * q)"

lemma add_factors:
  assumes "mmal_rational_add a b = Some r" and "den a \<noteq> 0" and "den b \<noteq> 0"
  shows "\<exists>g p q g' t h. add_shape a b r g p q g' t h"
proof -
  from assms(1) obtain g g' where g: "gcd32 (den a) (den b) = Some g"
    and g': "gcd32 (num a * c_div (den b) g + num b * c_div (den a) g) g = Some g'"
    and r: "r = \<lparr>num = c_div (num a * c_div (den b) g + num b * c_div (den a) g) g',
                den = c_div (den a) g * c_div (den b) g'\<rparr>"
    by (auto simp: mmal_rational_add_def Let_def bind_eq_Some_conv)
  note G = gcd32_Some [OF g] and G' = gcd32_Some [OF g']
  from G obtain p q where p: "den a = g * p" and q: "den b = g * q" by (auto elim!: dvdE)
  from G(1) have g0: "g \<noteq> 0" by simp
  have cp: "c_div (den a) g = p" "c_div (den b) g = q" using c_div_mult [OF g0] p q by simp_all
  from G' obtain t h where t: "num a * q + num b * p = g' * t" and h: "g = g' * h"
    unfolding cp by (auto elim!: dvdE)
  from G'(1) have g0': "g' \<noteq> 0" by simp
  have "den b = g' * (h * q)" using q h by (simp add: mult.assoc)
  then have b: "c_div (den b) g' = h * q" using c_div_mult [OF g0'] by simp
  have n: "c_div (num a * q + num b * p) g' = t" using c_div_mult [OF g0'] t by simp
  have e: "num r = t" "den r = p * (h * q)" unfolding r cp b n by simp_all
  have gg: "g = gcd (den a) (den b)" using G(4) assms(2,3) by blast
  have gg': "num a * q + num b * p \<noteq> 0 \<longrightarrow> g' = gcd (num a * q + num b * p) g"
    using G'(4) g0 unfolding cp by blast
  show ?thesis unfolding add_shape_def using p q gg g0 t h g0' gg' e by blast
qed

lemma add_value:
  assumes "mmal_rational_add a b = Some r" and "den a \<noteq> 0" and "den b \<noteq> 0"
  shows "rval r = rval a + rval b" and "den r \<noteq> 0"
proof -
  obtain g p q g' t h where f: "den a = g * p" "den b = g * q" "g \<noteq> 0"
    "num a * q + num b * p = g' * t" "g = g' * h" "g' \<noteq> 0" "num r = t" "den r = p * (h * q)"
    using add_factors [OF assms] unfolding add_shape_def by blast
  have nz: "p \<noteq> 0" "q \<noteq> 0" "h \<noteq> 0" using f assms by auto
  then show "den r \<noteq> 0" using f by simp
  have e: "(of_int (num a) * of_int q + of_int (num b) * of_int p :: rat) = of_int g' * of_int t"
    using f(4) by (metis of_int_add of_int_mult)
  have "rval a + rval b
      = (of_int (num a) * of_int q + of_int (num b) * of_int p) / (of_int g * of_int p * of_int q)"
    using nz f(3) by (simp add: rval_def f(1,2) field_simps)
  also have "\<dots> = of_int g' * of_int t / (of_int (g' * h) * of_int p * of_int q)"
    unfolding e f(5) by (rule refl)
  also have "\<dots> = rval r" using nz f(6) by (simp add: rval_def f(7,8) field_simps)
  finally show "rval r = rval a + rval b" by simp
qed

text \<open>Sums of reduced fractions come out reduced.\<close>

lemma add_reduced:
  assumes "mmal_rational_add a b = Some r" and "reduced a" and "reduced b" and "num r \<noteq> 0"
  shows "reduced r"
proof -
  have d: "den a \<noteq> 0" "den b \<noteq> 0" using assms by (simp_all add: reduced_def)
  obtain g p q g' t h where f: "den a = g * p" "den b = g * q" "g = gcd (den a) (den b)" "g \<noteq> 0"
    "num a * q + num b * p = g' * t" "g = g' * h" "g' \<noteq> 0"
    "num a * q + num b * p \<noteq> 0 \<longrightarrow> g' = gcd (num a * q + num b * p) g"
    "num r = t" "den r = p * (h * q)"
    using add_factors [OF assms(1) d] unfolding add_shape_def by blast
  have "num a * q + num b * p \<noteq> 0" unfolding f(5) using f(7,9) assms(4) by simp
  then have e: "g' = gcd (num a * q + num b * p) g" using f(8) by blast
  have "g' = gcd (g' * t) (g' * h)" by (rule trans [OF e arg_cong2 [OF f(5,6), of gcd]])
  also have "\<dots> = \<bar>g'\<bar> * gcd t h" by (rule gcd_mult_distrib_int [symmetric])
  finally have m: "g' = \<bar>g'\<bar> * gcd t h" .
  have "0 \<le> g'" using e gcd_ge_0_int [of "num a * q + num b * p" g] by linarith
  with m f(7) have th: "coprime t h" by (simp add: coprime_iff_gcd_eq_1)
  have pq: "coprime p q"
  proof -
    have "g = gcd (g * p) (g * q)" by (rule trans [OF f(3) arg_cong2 [OF f(1,2), of gcd]])
    also have "\<dots> = \<bar>g\<bar> * gcd p q" by (rule gcd_mult_distrib_int [symmetric])
    finally have "g = \<bar>g\<bar> * gcd p q" .
    moreover have "0 \<le> g" using f(3) gcd_ge_0_int [of "den a" "den b"] by linarith
    ultimately show ?thesis using f(4) by (simp add: coprime_iff_gcd_eq_1)
  qed
  have na: "coprime (num a) p" and nb: "coprime (num b) q"
    using assms(2,3) f(1,2) by (simp_all add: reduced_def)
  have "coprime p (num a * q)" using na pq by (simp add: coprime_commute)
  then have "coprime (num a * q + num b * p) p"
    using gcd_add_mult [of p "num b" "num a * q"] by (simp add: coprime_iff_gcd_eq_1 ac_simps)
  moreover have "coprime q (num b * p)" using nb pq by (simp add: coprime_commute)
  then have "coprime (num a * q + num b * p) q"
    using gcd_add_mult [of q "num a" "num b * p"] by (simp add: coprime_iff_gcd_eq_1 ac_simps)
  ultimately have "coprime t p" "coprime t q" using f(5) by (simp_all add: coprime_mult_left_iff)
  then show ?thesis
    using th f(9,10) add_value(2) [OF assms(1) d]
    by (simp add: reduced_def coprime_mult_right_iff)
qed

lemma subtract_value:
  assumes "mmal_rational_subtract a b = Some r" and "den a \<noteq> 0" and "den b \<noteq> 0"
  shows "rval r = rval a - rval b" and "den r \<noteq> 0"
proof -
  from assms(1) have r: "mmal_rational_add a (b\<lparr>num := - num b\<rparr>) = Some r"
    by (auto simp: mmal_rational_subtract_def bind_eq_Some_conv)
  have "rval (b\<lparr>num := - num b\<rparr>) = - rval b" by (simp add: rval_def)
  with add_value [OF r] assms(2,3) show "rval r = rval a - rval b" and "den r \<noteq> 0" by simp_all
qed

text \<open>Cross-cancelled products, the shape of multiplication and division.\<close>

lemma cross_cancel:
  assumes "gcd32 x v = Some g1" and "gcd32 y u = Some g2" and "u \<noteq> 0" and "v \<noteq> 0"
  shows "(of_int (c_div x g1 * c_div y g2) / of_int (c_div u g2 * c_div v g1) :: rat)
      = of_int (x * y) / of_int (u * v)"
    and "c_div u g2 * c_div v g1 \<noteq> 0"
    and "coprime x u \<Longrightarrow> coprime y v \<Longrightarrow> x \<noteq> 0 \<Longrightarrow> y \<noteq> 0 \<Longrightarrow>
      coprime (c_div x g1 * c_div y g2) (c_div u g2 * c_div v g1)"
proof -
  note G1 = gcd32_Some [OF assms(1)] and G2 = gcd32_Some [OF assms(2)]
  from G1 obtain x' v' where x: "x = g1 * x'" and v: "v = g1 * v'" by (auto elim!: dvdE)
  from G2 obtain y' u' where y: "y = g2 * y'" and u: "u = g2 * u'" by (auto elim!: dvdE)
  have nz: "g1 \<noteq> 0" "g2 \<noteq> 0" "u' \<noteq> 0" "v' \<noteq> 0" using G1(1) G2(1) assms(3,4) u v by auto
  have c: "c_div x g1 = x'" "c_div v g1 = v'" "c_div y g2 = y'" "c_div u g2 = u'"
    using c_div_mult nz x v y u by simp_all
  show "(of_int (c_div x g1 * c_div y g2) / of_int (c_div u g2 * c_div v g1) :: rat)
      = of_int (x * y) / of_int (u * v)"
    unfolding c unfolding x y u v using nz by (simp add: field_simps)
  show "c_div u g2 * c_div v g1 \<noteq> 0" unfolding c using nz by simp
  assume co: "coprime x u" "coprime y v" and ne: "x \<noteq> 0" "y \<noteq> 0"
  have g: "g1 = gcd (g1 * x') (g1 * v')" "g2 = gcd (g2 * y') (g2 * u')"
    using G1(4) G2(4) ne assms(3,4) x v y u by metis+
  have "g1 = g1 * gcd x' v'" "g2 = g2 * gcd y' u'"
    using trans [OF g(1) gcd_mult_distrib_int [symmetric]] trans [OF g(2) gcd_mult_distrib_int [symmetric]]
      G1(1) G2(1) by simp_all
  then have "coprime x' v'" "coprime y' u'" using nz by (simp_all add: coprime_iff_gcd_eq_1)
  moreover have "coprime x' u'" "coprime y' v'" using co unfolding x y u v by simp_all
  ultimately show "coprime (c_div x g1 * c_div y g2) (c_div u g2 * c_div v g1)"
    unfolding c by (simp add: coprime_mult_left_iff coprime_mult_right_iff)
qed

lemma multiply_value:
  assumes "mmal_rational_multiply a b = Some r" and "den a \<noteq> 0" and "den b \<noteq> 0"
  shows "rval r = rval a * rval b" and "den r \<noteq> 0"
    and "reduced a \<Longrightarrow> reduced b \<Longrightarrow> num r \<noteq> 0 \<Longrightarrow> reduced r"
proof -
  from assms(1) obtain g1 g2 where g: "gcd32 (num a) (den b) = Some g1" "gcd32 (num b) (den a) = Some g2"
    and r: "r = \<lparr>num = c_div (num a) g1 * c_div (num b) g2, den = c_div (den a) g2 * c_div (den b) g1\<rparr>"
    by (auto simp: mmal_rational_multiply_def bind_eq_Some_conv)
  note c = cross_cancel [OF g assms(2,3)]
  show "rval r = rval a * rval b" using c(1) by (simp add: rval_def r)
  show "den r \<noteq> 0" using c(2) by (simp add: r)
  assume red: "reduced a" "reduced b" and "num r \<noteq> 0"
  have "num a \<noteq> 0" "num b \<noteq> 0" using \<open>num r \<noteq> 0\<close> by (auto simp: r c_div_def)
  with c(2,3) red show "reduced r" by (simp add: r reduced_def)
qed

lemma divide_value:
  assumes "mmal_rational_divide a b = Some r" and "den a \<noteq> 0" and "den b \<noteq> 0" and "num b \<noteq> 0"
  shows "rval r = rval a / rval b" and "den r \<noteq> 0"
proof -
  have "rval r = rval a / rval b \<and> den r \<noteq> 0"
  proof (cases "num a = 0")
    case True
    with assms show ?thesis by (simp add: mmal_rational_divide_def rval_def)
  next
    case False
    with assms(1,4) obtain g1 g2 where g: "gcd32 (num a) (num b) = Some g1" "gcd32 (den b) (den a) = Some g2"
      and r: "r = \<lparr>num = c_div (num a) g1 * c_div (den b) g2, den = c_div (den a) g2 * c_div (num b) g1\<rparr>"
      by (auto simp: mmal_rational_divide_def bind_eq_Some_conv)
    show ?thesis
      using cross_cancel(1,2) [OF g assms(2,4)] by (simp add: rval_def r)
  qed
  then show "rval r = rval a / rval b" and "den r \<noteq> 0" by simp_all
qed

lemma simplify_value:
  assumes "mmal_rational_simplify r = Some r'" and "den r \<noteq> 0"
  shows "rval r' = rval r" and "num r \<noteq> 0 \<Longrightarrow> reduced r'"
proof -
  from assms(1) obtain g where g: "gcd32 (num r) (den r) = Some g"
    and r': "r' = r\<lparr>num := c_div (num r) g, den := c_div (den r) g\<rparr>"
    by (auto simp: mmal_rational_simplify_def bind_eq_Some_conv)
  note G = gcd32_Some [OF g]
  from G obtain n d where n: "num r = g * n" and d: "den r = g * d" by (auto elim!: dvdE)
  have g0: "g \<noteq> 0" using G(1) by simp
  have c: "c_div (num r) g = n" "c_div (den r) g = d" using c_div_mult [OF g0] n d by simp_all
  show "rval r' = rval r" unfolding rval_def r' c using g0 by (simp add: c n d)
  assume "num r \<noteq> 0"
  then have "g = gcd (g * n) (g * d)" using G(4) assms(2) n d by metis
  then have "g = g * gcd n d" using trans [OF _ gcd_mult_distrib_int [symmetric]] G(1) by fastforce
  moreover have "num r' = n" "den r' = d" by (simp_all add: r' c)
  ultimately show "reduced r'" using g0 assms(2) d by (simp add: reduced_def coprime_iff_gcd_eq_1)
qed

lemma equal_iff:
  assumes "den a \<noteq> 0" and "den b \<noteq> 0"
  shows "mmal_rational_equal a b \<longleftrightarrow> rval a = rval b"
proof -
  have "rval a = rval b \<longleftrightarrow> (of_int (num a * den b) :: rat) = of_int (num b * den a)"
    using assms by (simp add: rval_def frac_eq_eq)
  also have "\<dots> \<longleftrightarrow> num a * den b = num b * den a" by (rule of_int_eq_iff)
  finally show ?thesis using assms by (auto simp: mmal_rational_equal_def)
qed

section \<open>Fixed point\<close>

lemma to_fixed_range: "in_i32 (mmal_rational_to_fixed_16_16 r)"
  by (simp add: mmal_rational_to_fixed_16_16_def Let_def in_i32_def INT_MAX_def INT_MIN_def)

text \<open>The conversion from fixed point is inverted exactly.\<close>

lemma fixed_roundtrip:
  assumes "in_i32 x" and "x \<noteq> INT_MIN"
  shows "\<exists>r. mmal_rational_from_fixed_16_16 x = Some r \<and> mmal_rational_to_fixed_16_16 r = x"
proof (cases "x = 0")
  case True
  then show ?thesis
    by (simp add: mmal_rational_from_fixed_16_16_def mmal_rational_simplify_def
        mmal_rational_to_fixed_16_16_def Q16_ONE_def c_div_def INT_MAX_def INT_MIN_def)
next
  case False
  let ?g = "gcd x Q16_ONE"
  have g: "gcd32 x Q16_ONE = Some ?g"
    using assms False by (intro gcd32_correct) (auto simp: Q16_ONE_def in_i32_def INT_MIN_def)
  obtain n d where n: "x = ?g * n" and d: "Q16_ONE = ?g * d" by (meson dvdE gcd_dvd1 gcd_dvd2)
  have g0: "?g \<noteq> 0" and d0: "d \<noteq> 0" using False d by (auto simp: Q16_ONE_def)
  have c: "c_div x ?g = n" "c_div Q16_ONE ?g = d"
    using c_div_mult [OF g0, of n] c_div_mult [OF g0, of d] n d by metis+
  have "n * 2 ^ 16 = d * x"
    using n d by (metis Q16_ONE_def mult.assoc mult.commute)
  then have "c_div (n * 2 ^ 16) d = x" using c_div_mult [OF d0] by simp
  then show ?thesis
    using g c d0 assms
    by (auto simp: mmal_rational_from_fixed_16_16_def mmal_rational_simplify_def in_i32_def
        mmal_rational_to_fixed_16_16_def Let_def INT_MAX_def INT_MIN_def)
qed

section \<open>Sums of small fractions do not overflow\<close>

definition small_fraction :: "mmal_rational \<Rightarrow> bool" where
  "small_fraction r \<longleftrightarrow> \<bar>num r\<bar> < 2 ^ 15 \<and> 0 < den r \<and> den r < 2 ^ 15"

lemma c_div_bound: "\<bar>c_div a b\<bar> \<le> \<bar>a\<bar>"
proof -
  have "\<bar>sgn a * sgn b\<bar> \<le> 1" by (simp add: abs_mult sgn_if)
  have "int (nat \<bar>a\<bar> div nat \<bar>b\<bar>) \<le> int (nat \<bar>a\<bar>)" by (simp only: zle_int div_le_dividend)
  then have le: "\<bar>a\<bar> div \<bar>b\<bar> \<le> \<bar>a\<bar>" by (simp add: zdiv_int)
  moreover have "0 \<le> \<bar>a\<bar> div \<bar>b\<bar>" by (cases "b = 0") (simp_all add: pos_imp_zdiv_nonneg_iff)
  ultimately have "\<bar>sgn a * sgn b\<bar> * \<bar>\<bar>a\<bar> div \<bar>b\<bar>\<bar> \<le> 1 * \<bar>a\<bar>"
    using le \<open>\<bar>sgn a * sgn b\<bar> \<le> 1\<close> by (intro mult_mono) simp_all
  then show ?thesis by (simp add: c_div_def abs_mult)
qed

lemma gcd32_total: "in_i32 \<bar>a\<bar> \<Longrightarrow> in_i32 \<bar>b\<bar> \<Longrightarrow> \<exists>g. gcd32 a b = Some g"
  by (cases "a = 0"; cases "b = 0") (simp_all add: gcd32_eval)

lemma abs_mult_bound:
  fixes a b :: int
  assumes "\<bar>a\<bar> < 2 ^ 15" and "\<bar>b\<bar> < 2 ^ 15"
  shows "\<bar>a * b\<bar> \<le> 2 ^ 30 - 1"
proof -
  have "\<bar>a\<bar> * \<bar>b\<bar> \<le> (2 ^ 15 - 1) * (2 ^ 15 - 1)"
    using assms by (intro mult_mono) simp_all
  then show ?thesis by (simp add: abs_mult)
qed

lemma add_total:
  assumes "small_fraction a" and "small_fraction b"
  shows "\<exists>r. mmal_rational_add a b = Some r"
proof -
  have i: "in_i32 \<bar>den a\<bar>" "in_i32 \<bar>den b\<bar>" "\<bar>den a\<bar> < 2 ^ 15" "\<bar>den b\<bar> < 2 ^ 15"
    using assms by (simp_all add: small_fraction_def in_i32_def)
  obtain g where g: "gcd32 (den a) (den b) = Some g" using gcd32_total [OF i(1,2)] by blast
  have gb: "0 < g" "g \<le> den a"
    using gcd32_Some(1,2) [OF g] assms by (simp_all add: small_fraction_def zdvd_imp_le)
  let ?p = "c_div (den a) g" and ?q = "c_div (den b) g"
  have pq: "\<bar>?p\<bar> < 2 ^ 15" "\<bar>?q\<bar> < 2 ^ 15"
    using c_div_bound [of "den a" g] c_div_bound [of "den b" g] i by linarith+
  have n: "\<bar>num a\<bar> < 2 ^ 15" "\<bar>num b\<bar> < 2 ^ 15" using assms by (simp_all add: small_fraction_def)
  note t = abs_mult_bound [OF n(1) pq(2)] abs_mult_bound [OF n(2) pq(1)]
  let ?s = "num a * ?q + num b * ?p"
  have s: "\<bar>?s\<bar> < 2 ^ 31" using t by (simp add: abs_le_iff abs_less_iff)
  have ig: "in_i32 \<bar>g\<bar>" using gb i(3) by (simp add: in_i32_def)
  have "in_i32 \<bar>?s\<bar>" using s by (simp add: in_i32_def)
  then obtain g' where g': "gcd32 ?s g = Some g'" using gcd32_total ig by blast
  have "\<bar>c_div (den b) g'\<bar> < 2 ^ 15" using c_div_bound [of "den b" g'] i(4) by linarith
  note d = abs_mult_bound [OF pq(1) this]
  have r: "in_i32 (num a * ?q)" "in_i32 (num b * ?p)" "in_i32 ?s" "in_i32 (?p * c_div (den b) g')"
    using t s d by (simp_all add: in_i32_def abs_le_iff abs_less_iff)
  show ?thesis
    using g g' r by (simp add: mmal_rational_add_def mul32_def i32_def Let_def)
qed

section \<open>Properties\<close>

text \<open>C28. The division-free loops of \<open>gcd\<close> compute the greatest common divisor: for all nonzero
  \<open>int32_t\<close> arguments other than \<open>INT_MIN\<close> they end, without overflow, with the mathematical gcd.\<close>

theorem gcd_is_gcd:
  assumes "in_i32 a" and "in_i32 b" and "a \<noteq> INT_MIN" and "b \<noteq> INT_MIN" and "a \<noteq> 0" and "b \<noteq> 0"
  shows "gcd32 a b = Some (gcd a b)"
  using gcd32_correct [OF assms] .

theorem gcd_is_gcd_witness: "gcd32 (- 84) 36 = Some 12"
  using gcd_is_gcd [of "- 84" 36] by (simp add: in_i32_def INT_MIN_def eval_nat_numeral gcd_non_0_int)

text \<open>C29. \<open>mmal_rational_add\<close> on fractions with positive denominators and parts below \<open>2 ^ 15\<close>: no
  intermediate overflows, the result is the exact sum, and a sum of reduced fractions that is not zero is reduced (a
  zero sum keeps the common denominator: \<open>1/2 + -1/2\<close> is \<open>0/2\<close>).\<close>

theorem rational_add_exact:
  assumes "small_fraction a" and "small_fraction b"
  shows "\<exists>r. mmal_rational_add a b = Some r \<and> rval r = rval a + rval b \<and> den r \<noteq> 0
    \<and> (reduced a \<and> reduced b \<and> num r \<noteq> 0 \<longrightarrow> reduced r)"
proof -
  obtain r where r: "mmal_rational_add a b = Some r" using add_total [OF assms] by blast
  have "den a \<noteq> 0" "den b \<noteq> 0" using assms by (auto simp: small_fraction_def)
  from add_value [OF r this] add_reduced [OF r] r show ?thesis by blast
qed

theorem rational_add_exact_witness:
  "\<exists>r. mmal_rational_add \<lparr>num = 1, den = 6\<rparr> \<lparr>num = 3, den = 10\<rparr> = Some r
     \<and> rval r = 7 / 15 \<and> reduced r"
proof -
  have "small_fraction \<lparr>num = 1, den = 6\<rparr>" and "small_fraction \<lparr>num = 3, den = 10\<rparr>"
    by (simp_all add: small_fraction_def)
  from rational_add_exact [OF this]
  obtain r where r: "mmal_rational_add \<lparr>num = 1, den = 6\<rparr> \<lparr>num = 3, den = 10\<rparr> = Some r"
    "rval r = rval \<lparr>num = 1, den = 6\<rparr> + rval \<lparr>num = 3, den = 10\<rparr>"
    and c: "reduced \<lparr>num = 1, den = 6\<rparr> \<and> reduced \<lparr>num = 3, den = 10\<rparr> \<and> num r \<noteq> 0 \<longrightarrow> reduced r"
    by blast
  have v: "rval r = 7 / 15" using r(2) by (simp add: rval_def)
  then have "num r \<noteq> 0" by (auto simp: rval_def)
  moreover have "gcd 3 (10 :: int) = 1" by (simp add: gcd_non_0_int)
  ultimately have "reduced r" using c by (simp add: reduced_def coprime_iff_gcd_eq_1)
  with r v show ?thesis by blast
qed

text \<open>\<open>mmal_rational_equal\<close> decides equality of the fractions' values, whatever their representation.\<close>

lemma rational_equal_decides:
  assumes "den a \<noteq> 0" and "den b \<noteq> 0"
  shows "mmal_rational_equal a b \<longleftrightarrow> rval a = rval b"
  using equal_iff [OF assms] .

lemma rational_equal_decides_witness:
  "mmal_rational_equal \<lparr>num = 2, den = 6\<rparr> \<lparr>num = -1, den = -3\<rparr> \<and> rval \<lparr>num = 2, den = 6\<rparr> = rval \<lparr>num = -1, den = -3\<rparr>"
  using rational_equal_decides [of "\<lparr>num = 2, den = 6\<rparr>" "\<lparr>num = -1, den = -3\<rparr>"]
  by (simp add: mmal_rational_equal_def)

text \<open>Q16 fixed point: every \<open>int32_t\<close> other than \<open>INT_MIN\<close> survives the conversion to a rational
  and back, and the conversion of any rational stays in \<open>int32_t\<close> (it saturates).\<close>

lemma fixed_point_roundtrip:
  assumes "in_i32 x" and "x \<noteq> INT_MIN"
  shows "(\<exists>r. mmal_rational_from_fixed_16_16 x = Some r \<and> mmal_rational_to_fixed_16_16 r = x)
    \<and> in_i32 (mmal_rational_to_fixed_16_16 a)"
  using fixed_roundtrip [OF assms] to_fixed_range by blast

lemma fixed_point_roundtrip_witness:
  "\<exists>r. mmal_rational_from_fixed_16_16 98304 = Some r \<and> mmal_rational_to_fixed_16_16 r = 98304"
  using fixed_point_roundtrip [of 98304] by (simp add: in_i32_def INT_MIN_def)

end
