(* ===== verification/Mmal_Format.thy ===== *)
theory Mmal_Format
  imports Mmal_Rational
begin

text \<open>
  Elementary stream formats (\<^verbatim>\<open>core/mmal_format.c\<close>, \<^verbatim>\<open>mmal_format.h\<close>): the public structure and the
  private part behind it, the type-specific union, shallow and full copies, comparison, and the
  extradata buffer. The store keeps the formats, the unions and the allocated blocks by address;
  an access outside a block is \<open>None\<close>.
\<close>

section \<open>The structures\<close>

datatype es_type =
    MMAL_ES_TYPE_UNKNOWN | MMAL_ES_TYPE_CONTROL | MMAL_ES_TYPE_AUDIO | MMAL_ES_TYPE_VIDEO
  | MMAL_ES_TYPE_SUBPICTURE

text \<open>Where a pointer to extradata bytes points: into the private \<open>buffer\<close> of a format, or to a block.\<close>

datatype bytes_ptr = NullBytes | BufferOf addr | BlockAt addr

record es_format =
  ef_type :: es_type
  ef_encoding :: u32
  ef_encoding_variant :: u32
  ef_es :: addr
  ef_bitrate :: u32
  ef_flags :: u32
  ef_extradata_size :: u32
  ef_extradata :: bytes_ptr

record format_private =
  fp_magic :: u32
  fp_extradata_size :: u32
  fp_extradata :: ptr
  fp_buffer :: "8 word list"

text \<open>
  The union \<open>MMAL_ES_SPECIFIC_FORMAT_T\<close> is the sequence of its 32-bit words; the members of the
  video format are words 0 to 10.
\<close>

type_synonym es_specific = "u32 list"

record format_store =
  fs_format :: "addr \<Rightarrow> es_format"
  fs_private :: "addr \<Rightarrow> format_private"
  fs_es :: "addr \<Rightarrow> es_specific"
  fs_blocks :: "addr \<Rightarrow> 8 word list option"

definition MMAL_FOURCC :: "8 word \<Rightarrow> 8 word \<Rightarrow> 8 word \<Rightarrow> 8 word \<Rightarrow> u32" where
  "MMAL_FOURCC a b c d = ucast a OR push_bit 8 (ucast b) OR push_bit 16 (ucast c) OR push_bit 24 (ucast d)"

definition MMAL_ES_FORMAT_MAGIC :: u32 where
  "MMAL_ES_FORMAT_MAGIC = MMAL_FOURCC 0x6d 0x61 0x67 0x66"

definition EXTRADATA_SIZE_DEFAULT :: u32 where "EXTRADATA_SIZE_DEFAULT = 32"
definition EXTRADATA_SIZE_MAX :: u32 where "EXTRADATA_SIZE_MAX = 10 * 1024"
definition SIZEOF_ES :: nat where "SIZEOF_ES = 11"

definition upd_fmt :: "addr \<Rightarrow> (es_format \<Rightarrow> es_format) \<Rightarrow> format_store \<Rightarrow> format_store" where
  "upd_fmt f g st = st\<lparr>fs_format := (fs_format st)(f := g (fs_format st f))\<rparr>"

definition upd_priv :: "addr \<Rightarrow> (format_private \<Rightarrow> format_private) \<Rightarrow> format_store \<Rightarrow> format_store" where
  "upd_priv f g st = st\<lparr>fs_private := (fs_private st)(f := g (fs_private st f))\<rparr>"

lemma upd_fmt_simps [simp]:
  "fs_format (upd_fmt f g st) a = (if a = f then g (fs_format st f) else fs_format st a)"
  "fs_private (upd_fmt f g st) = fs_private st" "fs_es (upd_fmt f g st) = fs_es st"
  "fs_blocks (upd_fmt f g st) = fs_blocks st"
  by (simp_all add: upd_fmt_def)

lemma upd_priv_simps [simp]:
  "fs_private (upd_priv f g st) a = (if a = f then g (fs_private st f) else fs_private st a)"
  "fs_format (upd_priv f g st) = fs_format st" "fs_es (upd_priv f g st) = fs_es st"
  "fs_blocks (upd_priv f g st) = fs_blocks st"
  by (simp_all add: upd_priv_def)

section \<open>Memory accesses\<close>

fun block_bytes :: "format_store \<Rightarrow> bytes_ptr \<Rightarrow> 8 word list option" where
  "block_bytes st NullBytes = None"
| "block_bytes st (BufferOf f) = Some (fp_buffer (fs_private st f))"
| "block_bytes st (BlockAt a) = fs_blocks st a"

definition read_bytes :: "format_store \<Rightarrow> bytes_ptr \<Rightarrow> nat \<Rightarrow> 8 word list option" where
  "read_bytes st p n =
     (if n = 0 then Some []
      else Option.bind (block_bytes st p) (\<lambda>bs. if n \<le> length bs then Some (take n bs) else None))"

fun put_block :: "bytes_ptr \<Rightarrow> 8 word list \<Rightarrow> format_store \<Rightarrow> format_store" where
  "put_block NullBytes bs st = st"
| "put_block (BufferOf f) bs st = upd_priv f (\<lambda>p. p\<lparr>fp_buffer := bs\<rparr>) st"
| "put_block (BlockAt a) bs st = st\<lparr>fs_blocks := (fs_blocks st)(a \<mapsto> bs)\<rparr>"

definition write_bytes :: "bytes_ptr \<Rightarrow> 8 word list \<Rightarrow> format_store \<Rightarrow> format_store option" where
  "write_bytes p bs st =
     (if bs = [] then Some st
      else Option.bind (block_bytes st p) (\<lambda>old.
        if length bs \<le> length old then Some (put_block p (bs @ drop (length bs) old) st) else None))"

section \<open>Operations\<close>

text \<open>The first argument is what \<open>vcos_malloc\<close> returned.\<close>

definition mmal_format_alloc :: "ptr \<Rightarrow> format_store \<Rightarrow> ptr \<times> format_store" where
  "mmal_format_alloc mem st =
     (case mem of
        None \<Rightarrow> (None, st)
      | Some f \<Rightarrow>
          (Some f,
           st\<lparr>fs_format := (fs_format st)(f :=
                 \<lparr>ef_type = MMAL_ES_TYPE_UNKNOWN, ef_encoding = 0, ef_encoding_variant = 0, ef_es = f,
                  ef_bitrate = 0, ef_flags = 0, ef_extradata_size = 0, ef_extradata = NullBytes\<rparr>),
              fs_private := (fs_private st)(f :=
                 \<lparr>fp_magic = MMAL_ES_FORMAT_MAGIC, fp_extradata_size = EXTRADATA_SIZE_DEFAULT,
                  fp_extradata = None, fp_buffer = replicate (unat EXTRADATA_SIZE_DEFAULT) 0\<rparr>),
              fs_es := (fs_es st)(f := replicate SIZEOF_ES 0)\<rparr>))"

text \<open>The blocks that \<open>mmal_format_free\<close> gives back: the extradata and the format itself.\<close>

definition mmal_format_free :: "addr \<Rightarrow> format_store \<Rightarrow> addr list \<times> format_store" where
  "mmal_format_free f st =
     (case fp_extradata (fs_private st f) of
        None \<Rightarrow> ([f], st)
      | Some b \<Rightarrow> ([b, f], st\<lparr>fs_blocks := (fs_blocks st)(b := None)\<rparr>))"

definition mmal_format_copy :: "addr \<Rightarrow> addr \<Rightarrow> format_store \<Rightarrow> format_store" where
  "mmal_format_copy dst src st =
     (let backup = ef_es (fs_format st dst);
          st1 = st\<lparr>fs_es := (fs_es st)(backup := fs_es st (ef_es (fs_format st src)))\<rparr>;
          st2 = upd_fmt dst (\<lambda>_. fs_format st1 src) st1
      in upd_fmt dst (\<lambda>d. d\<lparr>ef_es := backup, ef_extradata := NullBytes, ef_extradata_size := 0\<rparr>) st2)"

text \<open>\<open>mem\<close>: the block that \<open>vcos_malloc\<close> returned, with its bytes.\<close>

definition mmal_format_extradata_alloc ::
  "(addr \<times> 8 word list) option \<Rightarrow> addr \<Rightarrow> u32 \<Rightarrow> format_store \<Rightarrow> mmal_status \<times> format_store" where
  "mmal_format_extradata_alloc mem f sz st =
     (if sz > EXTRADATA_SIZE_MAX then (MMAL_EINVAL, st)
      else
        let (st1, ok) =
          (if fp_extradata_size (fs_private st f) < sz then
             let st0 = (case fp_extradata (fs_private st f) of
                   None \<Rightarrow> st | Some b \<Rightarrow> st\<lparr>fs_blocks := (fs_blocks st)(b := None)\<rparr>)
             in (case mem of
                   None \<Rightarrow> (upd_priv f (\<lambda>p. p\<lparr>fp_extradata := None\<rparr>) st0, False)
                 | Some (b, bs) \<Rightarrow>
                     (upd_priv f (\<lambda>p. p\<lparr>fp_extradata := Some b, fp_extradata_size := sz\<rparr>)
                        (st0\<lparr>fs_blocks := (fs_blocks st0)(b \<mapsto> bs)\<rparr>), True))
           else (st, True))
        in if \<not> ok then (MMAL_ENOMEM, st1)
           else (MMAL_SUCCESS,
                 upd_fmt f (\<lambda>d. d\<lparr>ef_extradata := (case fp_extradata (fs_private st1 f) of
                    Some b \<Rightarrow> BlockAt b | None \<Rightarrow> BufferOf f)\<rparr>) st1))"

definition mmal_format_full_copy ::
  "(addr \<times> 8 word list) option \<Rightarrow> addr \<Rightarrow> addr \<Rightarrow> format_store \<Rightarrow> (mmal_status \<times> format_store) option" where
  "mmal_format_full_copy mem dst src st =
     (let st1 = mmal_format_copy dst src st in
      if ef_extradata_size (fs_format st1 src) \<noteq> 0 then
        (case mmal_format_extradata_alloc mem dst (ef_extradata_size (fs_format st1 src)) st1 of
           (status, st2) \<Rightarrow>
             if status \<noteq> MMAL_SUCCESS then Some (status, st2)
             else
               let st3 = upd_fmt dst (\<lambda>d. d\<lparr>ef_extradata_size := ef_extradata_size (fs_format st2 src)\<rparr>) st2
               in Option.bind (read_bytes st3 (ef_extradata (fs_format st3 src))
                                 (unat (ef_extradata_size (fs_format st3 src)))) (\<lambda>bs.
                  map_option (Pair MMAL_SUCCESS) (write_bytes (ef_extradata (fs_format st3 dst)) bs st3)))
      else Some (MMAL_SUCCESS, st1))"

section \<open>Comparison\<close>

definition FLAG_TYPE :: u32 where "FLAG_TYPE = 0x01"
definition FLAG_ENCODING :: u32 where "FLAG_ENCODING = 0x02"
definition FLAG_BITRATE :: u32 where "FLAG_BITRATE = 0x04"
definition FLAG_FLAGS :: u32 where "FLAG_FLAGS = 0x08"
definition FLAG_EXTRADATA :: u32 where "FLAG_EXTRADATA = 0x10"
definition FLAG_VIDEO_RESOLUTION :: u32 where "FLAG_VIDEO_RESOLUTION = 0x0100"
definition FLAG_VIDEO_CROPPING :: u32 where "FLAG_VIDEO_CROPPING = 0x0200"
definition FLAG_VIDEO_FRAME_RATE :: u32 where "FLAG_VIDEO_FRAME_RATE = 0x0400"
definition FLAG_VIDEO_ASPECT_RATIO :: u32 where "FLAG_VIDEO_ASPECT_RATIO = 0x0800"
definition FLAG_VIDEO_COLOR_SPACE :: u32 where "FLAG_VIDEO_COLOR_SPACE = 0x1000"
definition FLAG_ES_OTHER :: u32 where "FLAG_ES_OTHER = 0x10000000"

lemmas compare_flag_defs =
  FLAG_TYPE_def FLAG_ENCODING_def FLAG_BITRATE_def FLAG_FLAGS_def FLAG_EXTRADATA_def
  FLAG_VIDEO_RESOLUTION_def FLAG_VIDEO_CROPPING_def FLAG_VIDEO_FRAME_RATE_def
  FLAG_VIDEO_ASPECT_RATIO_def FLAG_VIDEO_COLOR_SPACE_def FLAG_ES_OTHER_def

definition flag_if :: "bool \<Rightarrow> u32 \<Rightarrow> u32" where
  "flag_if b f = (if b then f else 0)"

definition es_frame_rate :: "es_specific \<Rightarrow> mmal_rational" where
  "es_frame_rate es = \<lparr>num = sint (es ! 6), den = sint (es ! 7)\<rparr>"

definition es_par :: "es_specific \<Rightarrow> mmal_rational" where
  "es_par es = \<lparr>num = sint (es ! 8), den = sint (es ! 9)\<rparr>"

definition es_crop :: "es_specific \<Rightarrow> u32 list" where
  "es_crop es = take 4 (drop 2 es)"

definition compare_extradata :: "format_store \<Rightarrow> es_format \<Rightarrow> es_format \<Rightarrow> bool option" where
  "compare_extradata st f1 f2 =
     (if ef_extradata_size f1 \<noteq> ef_extradata_size f2 then Some True
      else if ef_extradata_size f1 \<noteq> 0 \<and> (ef_extradata f1 = NullBytes \<or> ef_extradata f2 = NullBytes)
      then Some True
      else Option.bind (read_bytes st (ef_extradata f1) (unat (ef_extradata_size f1))) (\<lambda>b1.
           Option.bind (read_bytes st (ef_extradata f2) (unat (ef_extradata_size f1))) (\<lambda>b2.
           Some (b1 \<noteq> b2))))"

definition compare_es :: "es_type \<Rightarrow> es_specific \<Rightarrow> es_specific \<Rightarrow> u32" where
  "compare_es t v1 v2 =
     (case t of
        MMAL_ES_TYPE_VIDEO \<Rightarrow>
          flag_if (v1 ! 0 \<noteq> v2 ! 0 \<or> v1 ! 1 \<noteq> v2 ! 1) FLAG_VIDEO_RESOLUTION
          OR flag_if (es_crop v1 \<noteq> es_crop v2) FLAG_VIDEO_CROPPING
          OR flag_if (\<not> mmal_rational_equal (es_par v1) (es_par v2)) FLAG_VIDEO_ASPECT_RATIO
          OR flag_if (\<not> mmal_rational_equal (es_frame_rate v1) (es_frame_rate v2)) FLAG_VIDEO_FRAME_RATE
          OR flag_if (v1 ! 10 \<noteq> v2 ! 10) FLAG_VIDEO_COLOR_SPACE
          OR flag_if (drop 11 v1 \<noteq> drop 11 v2) FLAG_ES_OTHER
      | MMAL_ES_TYPE_AUDIO \<Rightarrow> flag_if (take 4 v1 \<noteq> take 4 v2) FLAG_ES_OTHER
      | MMAL_ES_TYPE_SUBPICTURE \<Rightarrow> flag_if (take 2 v1 \<noteq> take 2 v2) FLAG_ES_OTHER
      | _ \<Rightarrow> 0)"

definition mmal_format_compare :: "format_store \<Rightarrow> addr \<Rightarrow> addr \<Rightarrow> u32 option" where
  "mmal_format_compare st a1 a2 =
     (let f1 = fs_format st a1; f2 = fs_format st a2 in
      if ef_type f1 \<noteq> ef_type f2 then Some FLAG_TYPE
      else Option.bind (compare_extradata st f1 f2) (\<lambda>x.
        Some (flag_if (ef_encoding f1 \<noteq> ef_encoding f2) FLAG_ENCODING
              OR flag_if (ef_bitrate f1 \<noteq> ef_bitrate f2) FLAG_BITRATE
              OR flag_if (ef_flags f1 \<noteq> ef_flags f2) FLAG_FLAGS
              OR flag_if x FLAG_EXTRADATA
              OR compare_es (ef_type f1) (fs_es st (ef_es f1)) (fs_es st (ef_es f2)))))"

section \<open>Extradata stays inside its buffer\<close>

text \<open>
  The private extradata buffer of a format has the size that \<open>extradata_size\<close> records: the
  built-in buffer of 32 bytes, or an allocated block.
\<close>

definition extradata_inv :: "format_store \<Rightarrow> addr \<Rightarrow> bool" where
  "extradata_inv st f \<longleftrightarrow> length (fp_buffer (fs_private st f)) = 32 \<and>
     (case fp_extradata (fs_private st f) of
        None \<Rightarrow> fp_extradata_size (fs_private st f) = 32
      | Some b \<Rightarrow> \<exists>bs. fs_blocks st b = Some bs \<and> length bs = unat (fp_extradata_size (fs_private st f)))"

lemma extradata_inv_alloc [inv_intros]:
  "extradata_inv (snd (mmal_format_alloc (Some f) st)) f"
  by (simp add: mmal_format_alloc_def extradata_inv_def EXTRADATA_SIZE_DEFAULT_def)

lemma extradata_inv_copy [inv_intros]:
  "extradata_inv st f \<Longrightarrow> extradata_inv (mmal_format_copy dst src st) f"
  by (simp add: extradata_inv_def mmal_format_copy_def Let_def split: option.splits)

text \<open>A successful request leaves a buffer with room for what was asked for.\<close>

lemma extradata_alloc_room:
  assumes "extradata_inv st f" and "mmal_format_extradata_alloc mem f sz st = (MMAL_SUCCESS, st')"
    and "\<And>b bs. mem = Some (b, bs) \<Longrightarrow> length bs = unat sz"
  shows "extradata_inv st' f"
    and "\<exists>bs. block_bytes st' (ef_extradata (fs_format st' f)) = Some bs \<and> unat sz \<le> length bs"
proof -
  have "extradata_inv st' f \<and>
      (\<exists>bs. block_bytes st' (ef_extradata (fs_format st' f)) = Some bs \<and> unat sz \<le> length bs)"
  proof (cases "fp_extradata_size (fs_private st f) < sz")
    case True
    with assms show ?thesis
      by (cases "fp_extradata (fs_private st f)"; cases mem)
        (auto simp: mmal_format_extradata_alloc_def extradata_inv_def Let_def split: if_splits)
  next
    case False
    then have le: "unat sz \<le> unat (fp_extradata_size (fs_private st f))"
      by (simp add: word_less_nat_alt)
    from False assms(2) have st': "st' = upd_fmt f (\<lambda>d. d\<lparr>ef_extradata := (case fp_extradata (fs_private st f) of
                    Some b \<Rightarrow> BlockAt b | None \<Rightarrow> BufferOf f)\<rparr>) st"
      by (simp add: mmal_format_extradata_alloc_def Let_def split: if_splits)
    show ?thesis
      using assms(1) le by (auto simp: st' extradata_inv_def split: option.splits)
  qed
  then show "extradata_inv st' f"
    and "\<exists>bs. block_bytes st' (ef_extradata (fs_format st' f)) = Some bs \<and> unat sz \<le> length bs" by blast+
qed

text \<open>After a failed allocation the recorded size exceeds the built-in buffer.\<close>

lemma extradata_alloc_enomem:
  assumes "fp_extradata_size (fs_private st f) < sz" and "sz \<le> EXTRADATA_SIZE_MAX"
  shows "\<exists>st'. mmal_format_extradata_alloc None f sz st = (MMAL_ENOMEM, st')
    \<and> fp_extradata (fs_private st' f) = None
    \<and> fp_extradata_size (fs_private st' f) = fp_extradata_size (fs_private st f)
    \<and> fp_buffer (fs_private st' f) = fp_buffer (fs_private st f)"
  using assms
  by (auto simp: mmal_format_extradata_alloc_def Let_def not_less split: option.split)

text \<open>The next request that fits the recorded size gets the built-in buffer, whatever that size is.\<close>

lemma extradata_alloc_reuse:
  assumes "fp_extradata (fs_private st f) = None" and "sz \<le> fp_extradata_size (fs_private st f)"
    and "sz \<le> EXTRADATA_SIZE_MAX"
  shows "mmal_format_extradata_alloc mem f sz st =
    (MMAL_SUCCESS, upd_fmt f (\<lambda>d. d\<lparr>ef_extradata := BufferOf f\<rparr>) st)"
  using assms by (simp add: mmal_format_extradata_alloc_def leD)

section \<open>Copies compare equal\<close>

lemma flag_if_or_zero: "flag_if b f OR g = 0 \<longleftrightarrow> (b \<longrightarrow> f = 0) \<and> g = 0"
proof -
  have "x OR y = 0 \<longleftrightarrow> x = 0 \<and> y = 0" for x y :: u32
    by (auto simp: bit_eq_iff bit_or_iff)
  then show ?thesis by (simp add: flag_if_def)
qed

lemma flag_if_zero: "flag_if b f = 0 \<longleftrightarrow> (b \<longrightarrow> f = 0)"
  by (simp add: flag_if_def)

lemma equal_refl [simp]: "mmal_rational_equal r r"
  by (simp add: mmal_rational_equal_def)

lemma compare_es_refl [simp]: "compare_es t es es = 0"
  by (cases t) (simp_all add: compare_es_def flag_if_def)

text \<open>The parts of two formats of the same type that a zero result says are equal.\<close>

lemma compare_zero:
  assumes "mmal_format_compare st a1 a2 = Some 0"
  shows "ef_type (fs_format st a1) = ef_type (fs_format st a2)"
    and "ef_encoding (fs_format st a1) = ef_encoding (fs_format st a2)"
    and "ef_bitrate (fs_format st a1) = ef_bitrate (fs_format st a2)"
    and "ef_flags (fs_format st a1) = ef_flags (fs_format st a2)"
    and "compare_extradata st (fs_format st a1) (fs_format st a2) = Some False"
    and "compare_es (ef_type (fs_format st a1)) (fs_es st (ef_es (fs_format st a1)))
           (fs_es st (ef_es (fs_format st a2))) = 0"
  using assms
  by (auto simp: mmal_format_compare_def Let_def bind_eq_Some_conv flag_if_or_zero compare_flag_defs
      split: if_splits)

lemma compare_zeroI:
  assumes "ef_type (fs_format st a1) = ef_type (fs_format st a2)"
    and "ef_encoding (fs_format st a1) = ef_encoding (fs_format st a2)"
    and "ef_bitrate (fs_format st a1) = ef_bitrate (fs_format st a2)"
    and "ef_flags (fs_format st a1) = ef_flags (fs_format st a2)"
    and "compare_extradata st (fs_format st a1) (fs_format st a2) = Some False"
    and "fs_es st (ef_es (fs_format st a1)) = fs_es st (ef_es (fs_format st a2))"
  shows "mmal_format_compare st a1 a2 = Some 0"
  using assms by (simp add: mmal_format_compare_def Let_def flag_if_def)

lemma read_write_same:
  assumes "write_bytes p bs st = Some st'"
  shows "read_bytes st' p (length bs) = Some bs"
  using assms
  by (cases p) (auto simp: write_bytes_def read_bytes_def bind_eq_Some_conv split: if_splits)

lemma write_bytes_frame:
  assumes "write_bytes p bs st = Some st'"
  shows "fs_format st' = fs_format st" and "fs_es st' = fs_es st"
  using assms by (cases p; auto simp: write_bytes_def bind_eq_Some_conv split: if_splits)+

lemma read_other_block:
  assumes "write_bytes p bs st = Some st'" and "q \<noteq> p"
  shows "read_bytes st' q n = read_bytes st q n"
  using assms
  by (cases p; cases q) (auto simp: write_bytes_def read_bytes_def bind_eq_Some_conv split: if_splits)

lemma extradata_alloc_frame:
  assumes "mmal_format_extradata_alloc mem f sz st = (status, st')"
  shows "fs_es st' = fs_es st" and "a \<noteq> f \<Longrightarrow> fs_format st' a = fs_format st a"
    and "\<exists>x. fs_format st' f = (fs_format st f)\<lparr>ef_extradata := x\<rparr>"
proof -
  have "fs_es st' = fs_es st \<and> (a \<noteq> f \<longrightarrow> fs_format st' a = fs_format st a)
      \<and> fs_format st' f = (fs_format st f)\<lparr>ef_extradata := ef_extradata (fs_format st' f)\<rparr>"
    using assms unfolding mmal_format_extradata_alloc_def Let_def
    by (cases mem; cases "fp_extradata (fs_private st f)") (auto split: if_splits)
  then show "fs_es st' = fs_es st" and "a \<noteq> f \<Longrightarrow> fs_format st' a = fs_format st a"
    and "\<exists>x. fs_format st' f = (fs_format st f)\<lparr>ef_extradata := x\<rparr>" by blast+
qed

lemma copy_simps:
  assumes "dst \<noteq> src"
  shows "fs_format (mmal_format_copy dst src st) src = fs_format st src"
    and "fs_format (mmal_format_copy dst src st) dst = (fs_format st src)\<lparr>ef_es := ef_es (fs_format st dst),
           ef_extradata := NullBytes, ef_extradata_size := 0\<rparr>"
    and "fs_es (mmal_format_copy dst src st) (ef_es (fs_format st dst)) = fs_es st (ef_es (fs_format st src))"
    and "fs_es (mmal_format_copy dst src st) (ef_es (fs_format st src)) = fs_es st (ef_es (fs_format st src))"
  using assms by (simp_all add: mmal_format_copy_def Let_def)

text \<open>A full copy that succeeds compares equal to its source.\<close>

lemma full_copy_compare:
  assumes "dst \<noteq> src" and copy: "mmal_format_full_copy mem dst src st = Some (MMAL_SUCCESS, st')"
    and sep: "\<And>f. ef_extradata (fs_format st src) = BufferOf f \<Longrightarrow> f \<noteq> dst"
      "\<And>a. ef_extradata (fs_format st src) = BlockAt a \<Longrightarrow>
        Some a \<noteq> map_option fst mem \<and> Some a \<noteq> fp_extradata (fs_private st dst)"
  shows "mmal_format_compare st' dst src = Some 0"
proof -
  let ?st1 = "mmal_format_copy dst src st"
  note c = copy_simps [OF assms(1), of st]
  show ?thesis
  proof (cases "ef_extradata_size (fs_format st src) = 0")
    case True
    then have "st' = ?st1" using copy c(1) by (simp add: mmal_format_full_copy_def)
    then show ?thesis
      using True c by (intro compare_zeroI) (simp_all add: compare_extradata_def read_bytes_def)
  next
    case False
    let ?n = "ef_extradata_size (fs_format st src)"
    obtain st2 where al: "mmal_format_extradata_alloc mem dst ?n ?st1 = (MMAL_SUCCESS, st2)"
      and rest: "Option.bind (read_bytes (upd_fmt dst (\<lambda>d. d\<lparr>ef_extradata_size := ?n\<rparr>) st2)
            (ef_extradata (fs_format st src)) (unat ?n)) (\<lambda>bs. map_option (Pair MMAL_SUCCESS)
          (write_bytes (ef_extradata (fs_format st2 dst)) bs (upd_fmt dst (\<lambda>d. d\<lparr>ef_extradata_size := ?n\<rparr>) st2)))
        = Some (MMAL_SUCCESS, st')"
      using copy False c(1) assms(1) extradata_alloc_frame(2) [of mem dst ?n ?st1]
      by (cases "mmal_format_extradata_alloc mem dst ?n ?st1")
        (auto simp: mmal_format_full_copy_def Let_def split: if_splits)
    let ?st3 = "upd_fmt dst (\<lambda>d. d\<lparr>ef_extradata_size := ?n\<rparr>) st2"
    let ?p = "ef_extradata (fs_format st2 dst)"
    obtain bs where bs: "read_bytes ?st3 (ef_extradata (fs_format st src)) (unat ?n) = Some bs"
      and w: "write_bytes ?p bs ?st3 = Some st'"
      using rest by (auto simp: bind_eq_Some_conv)
    have len: "length bs = unat ?n"
      using bs by (auto simp: read_bytes_def bind_eq_Some_conv split: if_splits)
    note fr = extradata_alloc_frame [OF al] and wf = write_bytes_frame [OF w]
    have src: "fs_format st' src = fs_format st src" using fr(2) [of src] assms(1) c(1) wf by simp
    obtain x where x: "fs_format st2 dst = (fs_format ?st1 dst)\<lparr>ef_extradata := x\<rparr>" using fr(3) by blast
    have p: "?p = (case fp_extradata (fs_private st2 dst) of Some b \<Rightarrow> BlockAt b | None \<Rightarrow> BufferOf dst)
        \<and> (fp_extradata (fs_private st2 dst) = fp_extradata (fs_private st dst)
          \<or> fp_extradata (fs_private st2 dst) = map_option fst mem)"
      using al unfolding mmal_format_extradata_alloc_def Let_def
      by (cases mem; cases "fp_extradata (fs_private st dst)")
        (auto simp: mmal_format_copy_def Let_def split: if_splits)
    have ne: "ef_extradata (fs_format st src) \<noteq> ?p"
      using p sep by (auto split: option.splits)
    have np: "?p \<noteq> NullBytes" using p by (auto split: option.splits)
    have r1: "read_bytes st' ?p (unat ?n) = Some bs" using read_write_same [OF w] len by simp
    have r2: "read_bytes st' (ef_extradata (fs_format st src)) (unat ?n) = Some bs"
      using read_other_block [OF w ne] bs by simp
    have nn: "ef_extradata (fs_format st src) \<noteq> NullBytes"
      using bs False by (auto simp: read_bytes_def unat_eq_0 split: if_splits)
    have dst: "fs_format st' dst = (fs_format st src)\<lparr>ef_es := ef_es (fs_format st dst),
        ef_extradata := ?p, ef_extradata_size := ?n\<rparr>"
      using wf x c(2) by simp
    show ?thesis
    proof (rule compare_zeroI)
      show "compare_extradata st' (fs_format st' dst) (fs_format st' src) = Some False"
        using r1 r2 nn np by (simp add: compare_extradata_def dst src)
      show "fs_es st' (ef_es (fs_format st' dst)) = fs_es st' (ef_es (fs_format st' src))"
        using wf(2) fr(1) c(3,4) by (simp add: dst src)
    qed (simp_all add: dst src)
  qed
qed

section \<open>Properties\<close>

text \<open>Extradata stays inside its buffer: a successful \<open>mmal_format_extradata_alloc\<close> leaves the
  format with an extradata pointer to a buffer of at least the requested size, and keeps the record of
  the private buffer's size right.\<close>

lemma extradata_fits:
  assumes "extradata_inv st f" and "mmal_format_extradata_alloc mem f sz st = (MMAL_SUCCESS, st')"
    and "\<forall>b bs. mem = Some (b, bs) \<longrightarrow> length bs = unat sz"
  shows "extradata_inv st' f \<and> unat sz \<le> 10240
    \<and> (\<exists>bs. block_bytes st' (ef_extradata (fs_format st' f)) = Some bs \<and> unat sz \<le> length bs)"
proof -
  have "sz \<le> EXTRADATA_SIZE_MAX"
    using assms(2) by (auto simp: mmal_format_extradata_alloc_def split: if_splits)
  then have "unat sz \<le> 10240" by (simp add: EXTRADATA_SIZE_MAX_def word_le_nat_alt)
  with extradata_alloc_room [OF assms(1,2)] assms(3) show ?thesis by blast
qed

definition blank_store :: format_store where
  "blank_store = \<lparr>fs_format = (\<lambda>_. undefined), fs_private = (\<lambda>_. undefined), fs_es = (\<lambda>_. []),
     fs_blocks = (\<lambda>_. None)\<rparr>"

lemma extradata_fits_witness:
  "\<exists>st'. mmal_format_extradata_alloc (Some (900, replicate 100 0)) 40 100
      (snd (mmal_format_alloc (Some 40) blank_store)) = (MMAL_SUCCESS, st')
    \<and> (\<exists>bs. block_bytes st' (ef_extradata (fs_format st' 40)) = Some bs \<and> 100 \<le> length bs)"
proof -
  let ?st = "snd (mmal_format_alloc (Some 40) blank_store)"
  have "fst (mmal_format_extradata_alloc (Some (900, replicate 100 0)) 40 100 ?st) = MMAL_SUCCESS"
    by (simp add: mmal_format_extradata_alloc_def EXTRADATA_SIZE_MAX_def mmal_format_alloc_def
        EXTRADATA_SIZE_DEFAULT_def Let_def)
  then obtain st' where s: "mmal_format_extradata_alloc (Some (900, replicate 100 0)) 40 100 ?st = (MMAL_SUCCESS, st')"
    by (metis prod.collapse)
  have "\<forall>b bs. Some (900 :: addr, replicate 100 (0 :: 8 word)) = Some (b, bs) \<longrightarrow> length bs = unat (100 :: u32)"
    by auto
  from extradata_fits [OF extradata_inv_alloc s this] s show ?thesis by auto
qed

text \<open>The failing path of \<open>mmal_format_extradata_alloc\<close> breaks this: after an allocation failure
  on a format whose extradata had been enlarged, the recorded size is kept while the pointer is
  null, so that a later request up to that size succeeds with the built-in 32-byte buffer.\<close>

lemma extradata_failure_then_overflow:
  assumes "extradata_inv st f" and "32 < unat sz2"
    and "sz2 \<le> fp_extradata_size (fs_private st f)" and "fp_extradata_size (fs_private st f) < sz1"
    and "sz1 \<le> EXTRADATA_SIZE_MAX"
  shows "\<exists>st1 st2 bs. mmal_format_extradata_alloc None f sz1 st = (MMAL_ENOMEM, st1)
    \<and> mmal_format_extradata_alloc mem f sz2 st1 = (MMAL_SUCCESS, st2)
    \<and> block_bytes st2 (ef_extradata (fs_format st2 f)) = Some bs \<and> length bs < unat sz2"
proof -
  obtain st1 where 1: "mmal_format_extradata_alloc None f sz1 st = (MMAL_ENOMEM, st1)"
    "fp_extradata (fs_private st1 f) = None"
    "fp_extradata_size (fs_private st1 f) = fp_extradata_size (fs_private st f)"
    "fp_buffer (fs_private st1 f) = fp_buffer (fs_private st f)"
    using extradata_alloc_enomem [OF assms(4,5)] by blast
  have "sz2 \<le> fp_extradata_size (fs_private st1 f)" and "sz2 \<le> EXTRADATA_SIZE_MAX"
    using assms(3-5) 1(3) by auto
  note 2 = extradata_alloc_reuse [OF 1(2) this, of mem]
  have "length (fp_buffer (fs_private st1 f)) < unat sz2"
    using assms(1,2) 1(4) by (simp add: extradata_inv_def)
  with 1(1) 2 show ?thesis by simp
qed

lemma extradata_failure_then_overflow_witness:
  "\<exists>st st1 st2 bs. extradata_inv st 40 \<and> mmal_format_extradata_alloc None 40 200 st = (MMAL_ENOMEM, st1)
    \<and> mmal_format_extradata_alloc None 40 100 st1 = (MMAL_SUCCESS, st2)
    \<and> block_bytes st2 (ef_extradata (fs_format st2 40)) = Some bs \<and> length bs < 100"
proof -
  let ?st = "snd (mmal_format_extradata_alloc (Some (900, replicate 100 0)) 40 100
    (snd (mmal_format_alloc (Some 40) blank_store)))"
  have st: "fp_extradata (fs_private ?st 40) = Some 900" "fp_extradata_size (fs_private ?st 40) = 100"
    "fs_blocks ?st 900 = Some (replicate 100 0)" "length (fp_buffer (fs_private ?st 40)) = 32"
    by (simp_all add: mmal_format_extradata_alloc_def EXTRADATA_SIZE_MAX_def mmal_format_alloc_def
        EXTRADATA_SIZE_DEFAULT_def Let_def)
  have inv: "extradata_inv ?st 40" by (simp add: extradata_inv_def st)
  have a: "32 < unat (100 :: u32)" "100 \<le> fp_extradata_size (fs_private ?st 40)"
    "fp_extradata_size (fs_private ?st 40) < 200" "(200 :: u32) \<le> EXTRADATA_SIZE_MAX"
    by (simp_all add: st EXTRADATA_SIZE_MAX_def)
  have "unat (100 :: u32) = 100" by simp
  with extradata_failure_then_overflow [OF inv a, of None] inv show ?thesis by metis
qed

text \<open>A full copy that succeeds compares equal to its source in every respect
  \<open>mmal_format_compare\<close> looks at, extradata included, when the source's extradata does not share the
  destination's storage.\<close>

theorem full_copy_compares_equal:
  assumes "dst \<noteq> src" and "mmal_format_full_copy mem dst src st = Some (MMAL_SUCCESS, st')"
    and "\<And>f. ef_extradata (fs_format st src) = BufferOf f \<Longrightarrow> f \<noteq> dst"
    and "\<And>a. ef_extradata (fs_format st src) = BlockAt a \<Longrightarrow>
        Some a \<noteq> map_option fst mem \<and> Some a \<noteq> fp_extradata (fs_private st dst)"
  shows "mmal_format_compare st' dst src = Some 0"
  using full_copy_compare [OF assms] .

theorem full_copy_compares_equal_witness:
  "\<exists>st st'. mmal_format_full_copy None 40 80 st = Some (MMAL_SUCCESS, st')
     \<and> ef_extradata_size (fs_format st 80) = 3 \<and> mmal_format_compare st' 40 80 = Some 0"
proof -
  let ?st0 = "snd (mmal_format_alloc (Some 80) (snd (mmal_format_alloc (Some 40) blank_store)))"
  let ?st = "upd_fmt 80 (\<lambda>d. d\<lparr>ef_type := MMAL_ES_TYPE_VIDEO, ef_extradata := BufferOf 80,
    ef_extradata_size := 3\<rparr>) ?st0"
  have e: "ef_extradata (fs_format ?st 80) = BufferOf 80" by simp
  have "\<exists>st'. mmal_format_full_copy None 40 80 ?st = Some (MMAL_SUCCESS, st')"
    by (simp add: mmal_format_full_copy_def mmal_format_copy_def mmal_format_extradata_alloc_def
        mmal_format_alloc_def EXTRADATA_SIZE_MAX_def EXTRADATA_SIZE_DEFAULT_def Let_def read_bytes_def
        write_bytes_def)
  then obtain st' where s: "mmal_format_full_copy None 40 80 ?st = Some (MMAL_SUCCESS, st')" by blast
  have "mmal_format_compare st' 40 80 = Some 0"
    by (rule full_copy_compares_equal [OF _ s]) (simp_all add: e)
  with s show ?thesis by (intro exI [of _ ?st] exI [of _ st']) simp
qed

end
