(* ===== verification/Heap_List.thy ===== *)
theory Heap_List
  imports Mmal_Prelude
begin

text \<open>
  Singly linked lists in a heap of \<open>next\<close> pointers, shared by the buffer queues, the message
  queues and the free lists: the path relation and how single pointer writes change it.
\<close>

text \<open>A pointer to a pointer of a list: to the list's head field, or to a cell's \<open>next\<close> field.\<close>

datatype slot = SlotFirst | SlotNext addr

fun lpath :: "(addr \<Rightarrow> ptr) \<Rightarrow> ptr \<Rightarrow> addr list \<Rightarrow> ptr \<Rightarrow> bool" where
  "lpath h p [] q \<longleftrightarrow> p = q"
| "lpath h p (x # xs) q \<longleftrightarrow> p = Some x \<and> lpath h (h x) xs q"

lemma lpath_None [simp]: "lpath h None xs q \<longleftrightarrow> xs = [] \<and> q = None"
  by (cases xs) auto

lemma lpath_append [simp]:
  "lpath h p (xs @ ys) q \<longleftrightarrow> (\<exists>r. lpath h p xs r \<and> lpath h r ys q)"
  by (induction xs arbitrary: p) auto

lemma lpath_upd [simp]: "a \<notin> set xs \<Longrightarrow> lpath (h(a := v)) p xs q = lpath h p xs q"
  by (induction xs arbitrary: p) auto

lemma lpath_cong: "(\<And>a. a \<in> set xs \<Longrightarrow> h a = h' a) \<Longrightarrow> lpath h p xs q = lpath h' p xs q"
  by (induction xs arbitrary: p) auto

lemma lpath_Some_Cons:
  "lpath h (Some a) xs None \<Longrightarrow> \<exists>ys. xs = a # ys \<and> lpath h (h a) ys None"
  by (cases xs) auto

lemma lpath_head: "lpath h p xs None \<Longrightarrow> p = (if xs = [] then None else Some (hd xs))"
  by (cases xs) auto

lemma lpath_unique: "lpath h p xs None \<Longrightarrow> lpath h p ys None \<Longrightarrow> xs = ys"
proof (induction xs arbitrary: p ys)
  case Nil
  then show ?case by (cases ys) auto
next
  case (Cons x xs)
  then show ?case by (cases ys) auto
qed

text \<open>Linking a fresh cell behind the last one, the write \<open>*last = cell\<close> of a tail queue.\<close>

lemma lpath_snoc:
  assumes "lpath h p xs None" and "distinct xs" and "xs \<noteq> []" and "b \<notin> set xs"
  shows "lpath (h(last xs := Some b, b := None)) p (xs @ [b]) None"
proof -
  obtain ys y where xs: "xs = ys @ [y]" using \<open>xs \<noteq> []\<close> by (cases xs rule: rev_cases) auto
  have "lpath h p ys (Some y)" using assms(1) xs by auto
  moreover have "y \<notin> set ys" and "b \<notin> set ys" and "y \<noteq> b" using assms xs by auto
  ultimately show ?thesis by (simp add: xs)
qed

lemma lpath_Cons_front:
  "lpath h p xs None \<Longrightarrow> b \<notin> set xs \<Longrightarrow> lpath (h(b := p)) (Some b) (b # xs) None"
  by simp

end
