(* ===== verification/Fifo.thy ===== *)
theory Fifo
  imports Mmal_Prelude
begin

text \<open>
  The contract of a queue, stated over a representation relation to the sequence of queued
  elements: \<open>put\<close> appends, \<open>get\<close> takes the head and never blocks. The buffer queue of MMAL and
  the message queue of VCOS both provide it.
\<close>

section \<open>The FIFO contract\<close>

locale fifo =
  fixes repr :: "'s \<Rightarrow> 'b list \<Rightarrow> bool"
    and put :: "'s \<Rightarrow> 'b \<Rightarrow> 's"
    and get :: "'s \<Rightarrow> ('b option \<times> 's) option"
  assumes repr_distinct: "repr s xs \<Longrightarrow> distinct xs"
    and repr_put: "repr s xs \<Longrightarrow> b \<notin> set xs \<Longrightarrow> repr (put s b) (xs @ [b])"
    and get_Nil: "repr s [] \<Longrightarrow> get s = Some (None, s)"
    and get_Cons: "repr s (b # xs) \<Longrightarrow> \<exists>s'. get s = Some (Some b, s') \<and> repr s' xs"
begin

lemmas fifo_laws = repr_distinct repr_put get_Nil get_Cons

text \<open>\<open>get_n\<close>: that many \<open>get\<close>s in a row, collecting what they return.\<close>

primrec get_n :: "nat \<Rightarrow> 's \<Rightarrow> ('b list \<times> 's) option" where
  "get_n 0 s = Some ([], s)"
| "get_n (Suc n) s =
     (case get s of
        None \<Rightarrow> None
      | Some (None, s') \<Rightarrow> get_n n s'
      | Some (Some b, s') \<Rightarrow> map_option (\<lambda>(bs, s''). (b # bs, s'')) (get_n n s'))"

lemma repr_put_all:
  "repr s xs \<Longrightarrow> distinct (xs @ bs) \<Longrightarrow> repr (fold (\<lambda>b s. put s b) bs s) (xs @ bs)"
proof (induction bs arbitrary: s xs)
  case Nil
  then show ?case by simp
next
  case (Cons b bs)
  have "repr (put s b) (xs @ [b])" using Cons.prems by (auto intro: repr_put)
  then show ?case using Cons.IH [of "put s b" "xs @ [b]"] Cons.prems by simp
qed

lemma get_n_repr:
  "repr s xs \<Longrightarrow> \<exists>s'. get_n n s = Some (take n xs, s') \<and> repr s' (drop n xs)"
proof (induction n arbitrary: s xs)
  case 0
  then show ?case by simp
next
  case (Suc n)
  show ?case
  proof (cases xs)
    case Nil
    with Suc show ?thesis by (fastforce simp: get_Nil)
  next
    case (Cons b ys)
    with Suc.prems obtain s1 where "get s = Some (Some b, s1)" and "repr s1 ys"
      using get_Cons by blast
    with Suc.IH [of s1 ys] Cons show ?thesis by auto
  qed
qed

lemma put_all_get_n:
  assumes "repr s []" and "distinct bs"
  shows "\<exists>s'. get_n (length bs) (fold (\<lambda>b s. put s b) bs s) = Some (bs, s') \<and> repr s' []"
proof -
  have "repr (fold (\<lambda>b s. put s b) bs s) bs"
    using repr_put_all [of s "[]" bs] assms by simp
  from get_n_repr [OF this, of "length bs"] show ?thesis by simp
qed

end

text \<open>A queue to whose front an element can be returned, as \<open>mmal_queue_put_back\<close> does.\<close>

locale fifo_put_back = fifo +
  fixes put_back :: "'a \<Rightarrow> 'b \<Rightarrow> 'a"
  assumes repr_put_back: "repr s xs \<Longrightarrow> b \<notin> set xs \<Longrightarrow> repr (put_back s b) (b # xs)"
begin

text \<open>Putting back what was just taken restores the sequence.\<close>

lemma get_put_back:
  assumes "repr s (b # xs)"
  shows "\<exists>s'. get s = Some (Some b, s') \<and> repr (put_back s' b) (b # xs)"
proof -
  obtain s' where s': "get s = Some (Some b, s')" "repr s' xs" using get_Cons [OF assms] by blast
  moreover have "b \<notin> set xs" using repr_distinct [OF assms] by simp
  ultimately show ?thesis using repr_put_back by blast
qed

lemma put_back_get:
  "repr s xs \<Longrightarrow> b \<notin> set xs \<Longrightarrow>
   \<exists>s'. get (put_back s b) = Some (Some b, s') \<and> repr s' xs"
  using get_Cons repr_put_back by blast

end

end
