(* ===== verification/Mmal_Buffer.thy ===== *)
theory Mmal_Buffer
  imports Mmal_Prelude
begin

text \<open>
  Buffer headers (\<^verbatim>\<open>core/mmal_buffer.c\<close>, \<^verbatim>\<open>mmal_buffer.h\<close>,
  \<^verbatim>\<open>core/mmal_buffer_private.h\<close>): the header structure with its private part, the
  reference-counting protocol, replication, and the layout of an initialised header.
  Headers live in a store \<open>bufs\<close>; the callbacks stored in a header are identifiers that the
  operations interpret through their arguments \<open>pre\<close> and \<open>rel\<close>.
\<close>

section \<open>The structures\<close>

record video_specific =
  vs_planes :: u32
  vs_offset :: "u32 list"
  vs_pitch :: "u32 list"
  vs_flags :: u32

record mmal_header =
  bh_next :: ptr
  bh_cmd :: u32
  bh_data :: ptr
  bh_alloc_size :: u32
  bh_length :: u32
  bh_offset :: u32
  bh_flags :: u32
  bh_pts :: int
  bh_dts :: int
  bh_type :: video_specific
  bh_user_data :: ptr
  \<comment> \<open>\<open>MMAL_BUFFER_HEADER_PRIVATE_T\<close>\<close>
  bh_pf_pre_release :: "nat option"
  bh_pre_release_userdata :: ptr
  bh_pf_release :: "nat option"
  bh_owner :: ptr
  bh_refcount :: int
  bh_reference :: ptr
  bh_pf_payload_free :: "nat option"
  bh_payload :: ptr
  bh_payload_context :: ptr
  bh_payload_size :: u32
  bh_component_data :: ptr
  bh_payload_handle :: ptr
  bh_driver_area :: "8 word list"

definition MMAL_TIME_UNKNOWN :: int where
  "MMAL_TIME_UNKNOWN = - (2 ^ 63)"

definition MMAL_DRIVER_BUFFER_SIZE :: nat where
  "MMAL_DRIVER_BUFFER_SIZE = 32"

text \<open>The header that \<open>memset(mem, 0, header_size)\<close> leaves.\<close>

definition zero_header :: mmal_header where
  "zero_header = \<lparr>bh_next = None, bh_cmd = 0, bh_data = None, bh_alloc_size = 0, bh_length = 0,
     bh_offset = 0, bh_flags = 0, bh_pts = 0, bh_dts = 0,
     bh_type = \<lparr>vs_planes = 0, vs_offset = replicate 4 0, vs_pitch = replicate 4 0, vs_flags = 0\<rparr>,
     bh_user_data = None, bh_pf_pre_release = None, bh_pre_release_userdata = None,
     bh_pf_release = None, bh_owner = None, bh_refcount = 0, bh_reference = None,
     bh_pf_payload_free = None, bh_payload = None, bh_payload_context = None,
     bh_payload_size = 0, bh_component_data = None, bh_payload_handle = None,
     bh_driver_area = replicate MMAL_DRIVER_BUFFER_SIZE 0\<rparr>"

record mmal_mem =
  bufs :: "addr \<Rightarrow> mmal_header"

definition upd_buf :: "addr \<Rightarrow> (mmal_header \<Rightarrow> mmal_header) \<Rightarrow> 'a mmal_mem_scheme \<Rightarrow> 'a mmal_mem_scheme" where
  "upd_buf a f m = m\<lparr>bufs := (bufs m)(a := f (bufs m a))\<rparr>"

lemma bufs_upd_buf [simp]: "bufs (upd_buf a f m) b = (if b = a then f (bufs m a) else bufs m b)"
  by (simp add: upd_buf_def)

lemma more_upd_buf [simp]: "mmal_mem.more (upd_buf a f m) = mmal_mem.more m"
  by (simp add: upd_buf_def)

lemma upd_buf_twice [simp]: "upd_buf a g (upd_buf a f m) = upd_buf a (g \<circ> f) m"
  by (simp add: upd_buf_def)

section \<open>Reference counting and recycling\<close>

definition mmal_buffer_header_acquire :: "addr \<Rightarrow> 'a mmal_mem_scheme \<Rightarrow> 'a mmal_mem_scheme" where
  "mmal_buffer_header_acquire header m =
     upd_buf header (\<lambda>b. b\<lparr>bh_refcount := bh_refcount b + 1\<rparr>) m"

definition reset_fields :: "mmal_header \<Rightarrow> mmal_header" where
  "reset_fields b = b\<lparr>bh_length := 0, bh_offset := 0, bh_flags := 0,
     bh_pts := MMAL_TIME_UNKNOWN, bh_dts := MMAL_TIME_UNKNOWN\<rparr>"

definition mmal_buffer_header_reset :: "addr \<Rightarrow> 'a mmal_mem_scheme \<Rightarrow> 'a mmal_mem_scheme" where
  "mmal_buffer_header_reset header m = upd_buf header reset_fields m"

text \<open>
  \<open>pre cb header userdata\<close> is the pre-release callback \<open>cb\<close> (true: delay the release),
  \<open>rel f header\<close> the release callback \<open>f\<close>; both may change the state. Calling a null
  release callback has no result. The recursion follows the chain of replicated headers; a run
  that never ends is \<open>None\<close>. The body of \<open>mmal_buffer_header_release_continue\<close> is
  the last branch.
\<close>

partial_function (option) mmal_buffer_header_release ::
  "(nat \<Rightarrow> addr \<Rightarrow> ptr \<Rightarrow> 'a mmal_mem_scheme \<Rightarrow> bool \<times> 'a mmal_mem_scheme) \<Rightarrow>
   (nat \<Rightarrow> addr \<Rightarrow> 'a mmal_mem_scheme \<Rightarrow> 'a mmal_mem_scheme option) \<Rightarrow>
   addr \<Rightarrow> 'a mmal_mem_scheme \<Rightarrow> 'a mmal_mem_scheme option" where
  "mmal_buffer_header_release pre rel header m =
     (let m1 = upd_buf header (\<lambda>b. b\<lparr>bh_refcount := bh_refcount b - 1\<rparr>) m in
      if bh_refcount (bufs m1 header) \<noteq> 0 then Some m1
      else let (delay, m2) =
             (case bh_pf_pre_release (bufs m1 header) of
                None \<Rightarrow> (False, m1)
              | Some cb \<Rightarrow> pre cb header (bh_pre_release_userdata (bufs m1 header)) m1)
           in if delay then Some m2
              else let m3 = mmal_buffer_header_reset header m2 in
                Option.bind
                  (case bh_reference (bufs m3 header) of
                     None \<Rightarrow> Some m3
                   | Some r \<Rightarrow> mmal_buffer_header_release pre rel r m3)
                  (\<lambda>m4. let m5 = upd_buf header (\<lambda>b. b\<lparr>bh_reference := None\<rparr>) m4 in
                     case bh_pf_release (bufs m5 header) of
                       None \<Rightarrow> None
                     | Some f \<Rightarrow> rel f header m5))"

definition mmal_buffer_header_release_continue ::
  "(nat \<Rightarrow> addr \<Rightarrow> ptr \<Rightarrow> 'a mmal_mem_scheme \<Rightarrow> bool \<times> 'a mmal_mem_scheme) \<Rightarrow>
   (nat \<Rightarrow> addr \<Rightarrow> 'a mmal_mem_scheme \<Rightarrow> 'a mmal_mem_scheme option) \<Rightarrow>
   addr \<Rightarrow> 'a mmal_mem_scheme \<Rightarrow> 'a mmal_mem_scheme option" where
  "mmal_buffer_header_release_continue pre rel header m =
     (let m3 = mmal_buffer_header_reset header m in
      Option.bind
        (case bh_reference (bufs m3 header) of
           None \<Rightarrow> Some m3
         | Some r \<Rightarrow> mmal_buffer_header_release pre rel r m3)
        (\<lambda>m4. let m5 = upd_buf header (\<lambda>b. b\<lparr>bh_reference := None\<rparr>) m4 in
           case bh_pf_release (bufs m5 header) of
             None \<Rightarrow> None
           | Some f \<Rightarrow> rel f header m5))"

text \<open>The two functions as the source splits them.\<close>

lemma release_unfold:
  "mmal_buffer_header_release pre rel header m =
     (let m1 = upd_buf header (\<lambda>b. b\<lparr>bh_refcount := bh_refcount b - 1\<rparr>) m in
      if bh_refcount (bufs m1 header) \<noteq> 0 then Some m1
      else let (delay, m2) =
             (case bh_pf_pre_release (bufs m1 header) of
                None \<Rightarrow> (False, m1)
              | Some cb \<Rightarrow> pre cb header (bh_pre_release_userdata (bufs m1 header)) m1)
           in if delay then Some m2 else mmal_buffer_header_release_continue pre rel header m2)"
  unfolding mmal_buffer_header_release_continue_def
  by (rule mmal_buffer_header_release.simps)

lemma release_shared [op_simps]:
  "bh_refcount (bufs m h) \<noteq> 1 \<Longrightarrow>
   mmal_buffer_header_release pre rel h m =
     Some (upd_buf h (\<lambda>b. b\<lparr>bh_refcount := bh_refcount b - 1\<rparr>) m)"
  by (simp add: release_unfold Let_def)

lemma release_last [op_simps]:
  "bh_refcount (bufs m h) = 1 \<Longrightarrow> bh_pf_pre_release (bufs m h) = None \<Longrightarrow>
   mmal_buffer_header_release pre rel h m =
     mmal_buffer_header_release_continue pre rel h
       (upd_buf h (\<lambda>b. b\<lparr>bh_refcount := bh_refcount b - 1\<rparr>) m)"
  by (simp add: release_unfold Let_def)

lemma release_last_pre:
  "bh_refcount (bufs m h) = 1 \<Longrightarrow> bh_pf_pre_release (bufs m h) = Some cb \<Longrightarrow>
   mmal_buffer_header_release pre rel h m =
     (case pre cb h (bh_pre_release_userdata (bufs m h))
             (upd_buf h (\<lambda>b. b\<lparr>bh_refcount := bh_refcount b - 1\<rparr>) m) of
        (delay, m2) \<Rightarrow>
          if delay then Some m2 else mmal_buffer_header_release_continue pre rel h m2)"
  by (simp add: release_unfold Let_def)

lemma continue_no_reference [op_simps]:
  "bh_reference (bufs m h) = None \<Longrightarrow> bh_pf_release (bufs m h) = Some f \<Longrightarrow>
   mmal_buffer_header_release_continue pre rel h m =
     rel f h (upd_buf h (\<lambda>b. (reset_fields b)\<lparr>bh_reference := None\<rparr>) m)"
  by (simp add: mmal_buffer_header_release_continue_def mmal_buffer_header_reset_def Let_def
      reset_fields_def o_def)

section \<open>Replication\<close>

definition copy_public :: "mmal_header \<Rightarrow> mmal_header \<Rightarrow> mmal_header" where
  "copy_public s d = d\<lparr>bh_cmd := bh_cmd s, bh_alloc_size := bh_alloc_size s, bh_data := bh_data s,
     bh_offset := bh_offset s, bh_length := bh_length s, bh_flags := bh_flags s,
     bh_pts := bh_pts s, bh_dts := bh_dts s, bh_type := bh_type s\<rparr>"

definition mmal_buffer_header_replicate ::
  "ptr \<Rightarrow> ptr \<Rightarrow> 'a mmal_mem_scheme \<Rightarrow> mmal_status \<times> 'a mmal_mem_scheme" where
  "mmal_buffer_header_replicate dest src m =
     (case (dest, src) of
        (Some d, Some s) \<Rightarrow>
          if bh_reference (bufs m d) \<noteq> None then (MMAL_EINVAL, m)
          else let m1 = mmal_buffer_header_acquire s m;
                   m2 = upd_buf d (\<lambda>b. b\<lparr>bh_reference := Some s\<rparr>) m1
               in (MMAL_SUCCESS, upd_buf d (copy_public (bufs m2 s)) m2)
      | _ \<Rightarrow> (MMAL_EINVAL, m))"

definition mmal_buffer_header_reference :: "addr \<Rightarrow> 'a mmal_mem_scheme \<Rightarrow> ptr" where
  "mmal_buffer_header_reference header m = bh_reference (bufs m header)"

definition mmal_buffer_header_pre_release_cb_set ::
  "addr \<Rightarrow> nat option \<Rightarrow> ptr \<Rightarrow> 'a mmal_mem_scheme \<Rightarrow> 'a mmal_mem_scheme" where
  "mmal_buffer_header_pre_release_cb_set header cb userdata m =
     upd_buf header (\<lambda>b. b\<lparr>bh_pf_pre_release := cb, bh_pre_release_userdata := userdata\<rparr>) m"

text \<open>\<open>mmal_buffer_header_copy_header\<close> of \<^verbatim>\<open>util/mmal_util.c\<close>: metadata only.\<close>

definition mmal_buffer_header_copy_header :: "addr \<Rightarrow> addr \<Rightarrow> 'a mmal_mem_scheme \<Rightarrow> 'a mmal_mem_scheme" where
  "mmal_buffer_header_copy_header dest src m =
     upd_buf dest (\<lambda>d. d\<lparr>bh_cmd := bh_cmd (bufs m src), bh_offset := bh_offset (bufs m src),
       bh_length := bh_length (bufs m src), bh_flags := bh_flags (bufs m src),
       bh_pts := bh_pts (bufs m src), bh_dts := bh_dts (bufs m src),
       bh_type := bh_type (bufs m src)\<rparr>) m"

lemma replicate_success:
  "bh_reference (bufs m d) = None \<Longrightarrow> d \<noteq> s \<Longrightarrow>
   mmal_buffer_header_replicate (Some d) (Some s) m =
     (MMAL_SUCCESS,
      upd_buf d (\<lambda>b. copy_public (bufs m s) (b\<lparr>bh_reference := Some s\<rparr>))
        (mmal_buffer_header_acquire s m))"
  by (simp add: mmal_buffer_header_replicate_def mmal_buffer_header_acquire_def Let_def o_def
      copy_public_def)

lemma replicate_bufs:
  assumes "bh_reference (bufs m d) = None" and "d \<noteq> s"
    and "mmal_buffer_header_replicate (Some d) (Some s) m = (st, m')"
  shows "st = MMAL_SUCCESS"
    and "bufs m' s = (bufs m s)\<lparr>bh_refcount := bh_refcount (bufs m s) + 1\<rparr>"
    and "bufs m' d = copy_public (bufs m s) ((bufs m d)\<lparr>bh_reference := Some s\<rparr>)"
    and "\<And>a. a \<noteq> d \<Longrightarrow> a \<noteq> s \<Longrightarrow> bufs m' a = bufs m a"
  using assms by (auto simp: replicate_success mmal_buffer_header_acquire_def)

text \<open>Dropping the last reference to a replica drops the reference it holds on its source.\<close>

lemma release_replica:
  assumes "bh_refcount (bufs m d) = 1" and "bh_pf_pre_release (bufs m d) = None"
    and "bh_reference (bufs m d) = Some s" and "d \<noteq> s"
    and "bh_refcount (bufs m s) \<noteq> 1" and "bh_pf_release (bufs m d) = Some f"
  shows "mmal_buffer_header_release pre rel d m =
    rel f d (upd_buf d (\<lambda>b. (reset_fields (b\<lparr>bh_refcount := 0\<rparr>))\<lparr>bh_reference := None\<rparr>)
              (upd_buf s (\<lambda>b. b\<lparr>bh_refcount := bh_refcount b - 1\<rparr>) m))"
proof -
  have c: "upd_buf d f (upd_buf s g m) = upd_buf s g (upd_buf d f m)" for f g
    using \<open>d \<noteq> s\<close> by (simp add: upd_buf_def fun_upd_twist)
  show ?thesis
    using assms
    by (simp add: release_last mmal_buffer_header_release_continue_def mmal_buffer_header_reset_def
        Let_def reset_fields_def release_shared o_def c)
      (simp add: upd_buf_def fun_upd_twist)
qed

section \<open>Chains of replicas\<close>

text \<open>
  \<open>ref_chain m h hs\<close>: \<open>h\<close> and the headers it replicates, transitively, end after \<open>hs\<close>.
  On such a chain the release terminates whatever the callbacks do to other parts of the state:
  \<open>rel_local\<close> says that every release callback returns and leaves the release callbacks of the headers
  alone, \<open>pre_local\<close> that the pre-release callbacks leave these and the references alone.
\<close>

fun ref_chain :: "'a mmal_mem_scheme \<Rightarrow> ptr \<Rightarrow> addr list \<Rightarrow> bool" where
  "ref_chain m p [] \<longleftrightarrow> p = None"
| "ref_chain m p (h # hs) \<longleftrightarrow>
     p = Some h \<and> h \<notin> set hs \<and> bh_pf_release (bufs m h) \<noteq> None \<and> ref_chain m (bh_reference (bufs m h)) hs"

definition rel_local :: "(nat \<Rightarrow> addr \<Rightarrow> 'a mmal_mem_scheme \<Rightarrow> 'a mmal_mem_scheme option) \<Rightarrow> bool" where
  "rel_local rel \<longleftrightarrow> (\<forall>f h m. \<exists>m'. rel f h m = Some m' \<and>
     (\<forall>a. bh_pf_release (bufs m' a) = bh_pf_release (bufs m a)))"

definition pre_local ::
  "(nat \<Rightarrow> addr \<Rightarrow> ptr \<Rightarrow> 'a mmal_mem_scheme \<Rightarrow> bool \<times> 'a mmal_mem_scheme) \<Rightarrow> bool" where
  "pre_local pre \<longleftrightarrow> (\<forall>cb h u m a. bh_pf_release (bufs (snd (pre cb h u m)) a) = bh_pf_release (bufs m a)
     \<and> bh_reference (bufs (snd (pre cb h u m)) a) = bh_reference (bufs m a))"

lemma ref_chain_cong:
  "(\<And>a. a \<in> set hs \<Longrightarrow> bh_pf_release (bufs m' a) = bh_pf_release (bufs m a)
      \<and> bh_reference (bufs m' a) = bh_reference (bufs m a)) \<Longrightarrow>
   ref_chain m' p hs = ref_chain m p hs"
  by (induction hs arbitrary: p) auto

lemma ref_chain_upd_other:
  "h \<notin> set hs \<Longrightarrow> ref_chain (upd_buf h f m) p hs = ref_chain m p hs"
  by (rule ref_chain_cong) auto

text \<open>What the pre-release callback of the last reference leads to: the header stays with whoever
  delayed it, or the release goes on from a state with the same chain.\<close>

lemma release_last_cases:
  assumes pre: "pre_local pre" and one: "bh_refcount (bufs m h) = 1"
  shows "\<exists>m2. (mmal_buffer_header_release pre rel h m = Some m2
        \<or> mmal_buffer_header_release pre rel h m = mmal_buffer_header_release_continue pre rel h m2)
      \<and> (\<forall>a. bh_pf_release (bufs m2 a) = bh_pf_release (bufs m a)
            \<and> bh_reference (bufs m2 a) = bh_reference (bufs m a))"
proof (cases "bh_pf_pre_release (bufs m h)")
  case None
  then show ?thesis
    using one by (intro exI [of _ "upd_buf h (\<lambda>b. b\<lparr>bh_refcount := bh_refcount b - 1\<rparr>) m"])
      (simp_all add: release_last)
next
  case (Some cb)
  let ?m1 = "upd_buf h (\<lambda>b. b\<lparr>bh_refcount := bh_refcount b - 1\<rparr>) m"
  obtain delay m2 where d: "pre cb h (bh_pre_release_userdata (bufs m h)) ?m1 = (delay, m2)" by fastforce
  then have "bh_pf_release (bufs m2 a) = bh_pf_release (bufs ?m1 a)"
      "bh_reference (bufs m2 a) = bh_reference (bufs ?m1 a)" for a
    using pre unfolding pre_local_def by (metis snd_conv)+
  then show ?thesis
    using one Some d by (intro exI [of _ m2]) (simp add: release_last_pre)
qed

lemma release_chain_terminates:
  assumes rel: "rel_local rel" and pre: "pre_local pre"
  shows "ref_chain m (Some h) (h # hs) \<Longrightarrow>
    \<exists>m'. mmal_buffer_header_release pre rel h m = Some m' \<and>
      (\<forall>a. bh_pf_release (bufs m' a) = bh_pf_release (bufs m a))"
proof (induction hs arbitrary: h m)
  case (Nil h m)
  show ?case
  proof (cases "bh_refcount (bufs m h) = 1")
    case False
    then show ?thesis by (simp add: release_shared)
  next
    case True
    obtain m2 where c: "mmal_buffer_header_release pre rel h m = Some m2
        \<or> mmal_buffer_header_release pre rel h m = mmal_buffer_header_release_continue pre rel h m2"
      and same: "\<And>a. bh_pf_release (bufs m2 a) = bh_pf_release (bufs m a)"
        "\<And>a. bh_reference (bufs m2 a) = bh_reference (bufs m a)"
      using release_last_cases [OF pre True, of rel] by blast
    obtain f where f: "bh_pf_release (bufs m h) = Some f" using Nil by auto
    let ?m5 = "upd_buf h (\<lambda>b. (reset_fields b)\<lparr>bh_reference := None\<rparr>) m2"
    obtain m' where "rel f h ?m5 = Some m'" "\<forall>a. bh_pf_release (bufs m' a) = bh_pf_release (bufs ?m5 a)"
      using rel unfolding rel_local_def by blast
    with Nil f c same show ?thesis
      by (auto simp: continue_no_reference reset_fields_def)
  qed
next
  case (Cons r hs h m)
  from Cons.prems obtain f where f: "bh_pf_release (bufs m h) = Some f"
    and ref: "bh_reference (bufs m h) = Some r"
    and chain: "ref_chain m (Some r) (r # hs)" and h: "h \<notin> set (r # hs)" by auto
  show ?case
  proof (cases "bh_refcount (bufs m h) = 1")
    case False
    then show ?thesis by (simp add: release_shared)
  next
    case True
    obtain m2 where c: "mmal_buffer_header_release pre rel h m = Some m2
        \<or> mmal_buffer_header_release pre rel h m = mmal_buffer_header_release_continue pre rel h m2"
      and same: "\<And>a. bh_pf_release (bufs m2 a) = bh_pf_release (bufs m a)"
        "\<And>a. bh_reference (bufs m2 a) = bh_reference (bufs m a)"
      using release_last_cases [OF pre True, of rel] by blast
    let ?m3 = "mmal_buffer_header_reset h m2"
    have "ref_chain m2 (Some r) (r # hs)" using chain ref_chain_cong [of "r # hs" m2 m] same by blast
    then have "ref_chain ?m3 (Some r) (r # hs)"
      using ref_chain_upd_other [OF h] unfolding mmal_buffer_header_reset_def by blast
    then obtain m4 where m4: "mmal_buffer_header_release pre rel r ?m3 = Some m4"
      and same4: "\<forall>a. bh_pf_release (bufs m4 a) = bh_pf_release (bufs ?m3 a)"
      using Cons.IH by blast
    let ?m5 = "upd_buf h (\<lambda>b. b\<lparr>bh_reference := None\<rparr>) m4"
    have f5: "bh_pf_release (bufs ?m5 h) = Some f"
      using same4 same f by (simp add: mmal_buffer_header_reset_def reset_fields_def)
    from rel obtain m' where m': "rel f h ?m5 = Some m'"
      "\<forall>a. bh_pf_release (bufs m' a) = bh_pf_release (bufs ?m5 a)"
      unfolding rel_local_def by blast
    have "mmal_buffer_header_release_continue pre rel h m2 = Some m'"
      using same ref m4 f5 m'(1)
      by (simp add: mmal_buffer_header_release_continue_def Let_def
          mmal_buffer_header_reset_def reset_fields_def)
    moreover have "\<forall>a. bh_pf_release (bufs m' a) = bh_pf_release (bufs m a)"
      using m'(2) same4 same by (auto simp: mmal_buffer_header_reset_def reset_fields_def)
    ultimately show ?thesis using c same by metis
  qed
qed

section \<open>Layout of an initialised header\<close>

text \<open>
  The sizes of the C structures depend on the target; they are a record of parameters, with
  the values of the 32-bit ARM ABI as the instance \<open>arm32\<close>.
\<close>

record abi =
  sizeof_ptr :: u32
  sizeof_header :: u32
  sizeof_type :: u32
  sizeof_priv :: u32
  sizeof_pool_private :: u32
  sizeof_queue :: u32

definition arm32 :: abi where
  "arm32 = \<lparr>sizeof_ptr = 4, sizeof_header = 56, sizeof_type = 40, sizeof_priv = 80,
            sizeof_pool_private = 48, sizeof_queue = 52\<rparr>"

definition DEFAULT_COMMAND_SIZE :: u32 where
  "DEFAULT_COMMAND_SIZE = 256"

definition mmal_buffer_header_size :: "abi \<Rightarrow> u32" where
  "mmal_buffer_header_size c =
     ROUND_UP (sizeof_header c) 8 + ROUND_UP (sizeof_type c) 8
     + ROUND_UP DEFAULT_COMMAND_SIZE 8 + ROUND_UP (sizeof_priv c) 8"

text \<open>The pointers \<open>header->type = &header[1]\<close> and \<open>header->priv = &header->type[1]\<close>.\<close>

definition header_type_addr :: "abi \<Rightarrow> addr \<Rightarrow> addr" where
  "header_type_addr c mem = mem + unat (sizeof_header c)"

definition header_priv_addr :: "abi \<Rightarrow> addr \<Rightarrow> addr" where
  "header_priv_addr c mem = header_type_addr c mem + unat (sizeof_type c)"

definition mmal_buffer_header_initialise ::
  "abi \<Rightarrow> addr \<Rightarrow> u32 \<Rightarrow> 'a mmal_mem_scheme \<Rightarrow> ptr \<times> 'a mmal_mem_scheme" where
  "mmal_buffer_header_initialise c mem len m =
     (if len < mmal_buffer_header_size c then (None, m)
      else (Some mem, upd_buf mem (\<lambda>_. zero_header) m))"

lemma header_size_arm32: "mmal_buffer_header_size arm32 = 464"
  by (simp add: mmal_buffer_header_size_def arm32_def ROUND_UP_def DEFAULT_COMMAND_SIZE_def)

definition abi_ok :: "abi \<Rightarrow> bool" where
  "abi_ok c \<longleftrightarrow> 0 < sizeof_ptr c \<and> sizeof_ptr c \<le> 8 \<and> sizeof_header c < 1024
     \<and> sizeof_type c < 1024 \<and> sizeof_priv c < 1024 \<and> sizeof_pool_private c < 1024"

lemma abi_ok_arm32: "abi_ok arm32"
  by (simp add: abi_ok_def arm32_def)

lemma header_size_covers:
  assumes "abi_ok c"
  shows "unat (sizeof_header c) + unat (sizeof_type c) + unat (sizeof_priv c) + 256
           < unat (mmal_buffer_header_size c)"
    and "unat (mmal_buffer_header_size c) < 4096"
proof -
  have lt: "unat (sizeof_header c) < 1024" "unat (sizeof_type c) < 1024" "unat (sizeof_priv c) < 1024"
    using assms by (simp_all add: abi_ok_def word_less_nat_alt)
  have cmd: "ROUND_UP DEFAULT_COMMAND_SIZE 8 = 264"
    by (simp add: ROUND_UP_def DEFAULT_COMMAND_SIZE_def)
  note b = ROUND_UP_8_bounds
  have h: "unat (sizeof_header c) < unat (ROUND_UP (sizeof_header c) 8)"
      "unat (ROUND_UP (sizeof_header c) 8) \<le> 1032"
    using b(1,2) [of "sizeof_header c"] lt by simp_all
  have t: "unat (sizeof_type c) < unat (ROUND_UP (sizeof_type c) 8)"
      "unat (ROUND_UP (sizeof_type c) 8) \<le> 1032"
    using b(1,2) [of "sizeof_type c"] lt by simp_all
  have p: "unat (sizeof_priv c) < unat (ROUND_UP (sizeof_priv c) 8)"
      "unat (ROUND_UP (sizeof_priv c) 8) \<le> 1032"
    using b(1,2) [of "sizeof_priv c"] lt by simp_all
  have e: "unat (mmal_buffer_header_size c) = unat (ROUND_UP (sizeof_header c) 8)
      + unat (ROUND_UP (sizeof_type c) 8) + 264 + unat (ROUND_UP (sizeof_priv c) 8)"
    using h t p by (simp add: mmal_buffer_header_size_def cmd unat_word_ariths)
  show "unat (sizeof_header c) + unat (sizeof_type c) + unat (sizeof_priv c) + 256
          < unat (mmal_buffer_header_size c)"
    and "unat (mmal_buffer_header_size c) < 4096"
    using e h t p by linarith+
qed

section \<open>Properties\<close>

text \<open>C26. Replicating a header into an idle one, to which one reference exists, takes one reference on
  the source, links the replica to it and copies the command, the allocated size, the data pointer, the
  offset, the length, the flags, both timestamps and the type, changing no other field and no other
  header; dropping the last reference to the replica, which has no pre-release callback, gives the
  reference on the source back, clears the replica's link and hands it to its release callback, with no
  other header touched.\<close>

theorem replicate_release_roundtrip:
  assumes "bh_reference (bufs m d) = None" and "d \<noteq> s" and "0 < bh_refcount (bufs m s)"
    and "bh_refcount (bufs m d) = 1" and "bh_pf_pre_release (bufs m d) = None"
    and "bh_pf_release (bufs m d) = Some f"
    and "mmal_buffer_header_replicate (Some d) (Some s) m = (st, m1)"
  shows "st = MMAL_SUCCESS \<and> bufs m1 s = (bufs m s)\<lparr>bh_refcount := bh_refcount (bufs m s) + 1\<rparr>
    \<and> (let S = bufs m s in bufs m1 d = (bufs m d)\<lparr>bh_reference := Some s, bh_cmd := bh_cmd S,
         bh_alloc_size := bh_alloc_size S, bh_data := bh_data S, bh_offset := bh_offset S,
         bh_length := bh_length S, bh_flags := bh_flags S, bh_pts := bh_pts S, bh_dts := bh_dts S,
         bh_type := bh_type S\<rparr>)
    \<and> (\<forall>a. a \<noteq> d \<longrightarrow> a \<noteq> s \<longrightarrow> bufs m1 a = bufs m a)
    \<and> (\<exists>m2. mmal_buffer_header_release pre rel d m1 = rel f d m2 \<and> bufs m2 s = bufs m s
         \<and> bh_reference (bufs m2 d) = None \<and> bh_refcount (bufs m2 d) = 0
         \<and> bh_length (bufs m2 d) = 0 \<and> bh_pts (bufs m2 d) = MMAL_TIME_UNKNOWN
         \<and> (\<forall>a. a \<noteq> d \<longrightarrow> a \<noteq> s \<longrightarrow> bufs m2 a = bufs m a))"
proof -
  note r = replicate_bufs [OF assms(1,2,7)]
  have d: "bufs m1 d = copy_public (bufs m s) ((bufs m d)\<lparr>bh_reference := Some s\<rparr>)" by (rule r(3))
  let ?m2 = "upd_buf d (\<lambda>b. (reset_fields (b\<lparr>bh_refcount := 0\<rparr>))\<lparr>bh_reference := None\<rparr>)
              (upd_buf s (\<lambda>b. b\<lparr>bh_refcount := bh_refcount b - 1\<rparr>) m1)"
  have "mmal_buffer_header_release pre rel d m1 = rel f d ?m2"
    by (rule release_replica) (use assms r d in \<open>simp_all add: copy_public_def\<close>)
  moreover have "bufs ?m2 s = bufs m s" using r(2) assms(2) by simp
  moreover have "bh_reference (bufs ?m2 d) = None \<and> bh_refcount (bufs ?m2 d) = 0
      \<and> bh_length (bufs ?m2 d) = 0 \<and> bh_pts (bufs ?m2 d) = MMAL_TIME_UNKNOWN"
    using assms(2) by (simp add: reset_fields_def)
  moreover have "\<forall>a. a \<noteq> d \<longrightarrow> a \<noteq> s \<longrightarrow> bufs ?m2 a = bufs m a" using r(4) by simp
  ultimately have "\<exists>m2. mmal_buffer_header_release pre rel d m1 = rel f d m2 \<and> bufs m2 s = bufs m s
         \<and> bh_reference (bufs m2 d) = None \<and> bh_refcount (bufs m2 d) = 0
         \<and> bh_length (bufs m2 d) = 0 \<and> bh_pts (bufs m2 d) = MMAL_TIME_UNKNOWN
         \<and> (\<forall>a. a \<noteq> d \<longrightarrow> a \<noteq> s \<longrightarrow> bufs m2 a = bufs m a)"
    by (intro exI [of _ ?m2]) blast
  with r(1,2,4) d show ?thesis by (simp add: copy_public_def Let_def)
qed

theorem replicate_release_roundtrip_witness:
  "\<exists>m1 m2. mmal_buffer_header_replicate (Some 9) (Some 4)
      \<lparr>bufs = (\<lambda>a. zero_header\<lparr>bh_refcount := 1, bh_pf_release := Some 0, bh_length := of_nat a,
                bh_data := Some (100 * a)\<rparr>)\<rparr> = (MMAL_SUCCESS, m1)
    \<and> bh_refcount (bufs m1 4) = 2 \<and> bh_data (bufs m1 9) = Some 400 \<and> bh_length (bufs m1 9) = 4
    \<and> mmal_buffer_header_release (\<lambda>_ _ _ m. (False, m)) (\<lambda>_ _. Some) 9 m1 = Some m2
    \<and> bh_refcount (bufs m2 4) = 1 \<and> bh_reference (bufs m2 9) = None \<and> bh_refcount (bufs m2 9) = 0"
proof -
  let ?m = "\<lparr>bufs = (\<lambda>a. zero_header\<lparr>bh_refcount := 1, bh_pf_release := Some 0,
    bh_length := of_nat a, bh_data := Some (100 * a)\<rparr>)\<rparr>"
  obtain st m1 where r: "mmal_buffer_header_replicate (Some 9) (Some 4) ?m = (st, m1)" by fastforce
  show ?thesis
    using replicate_release_roundtrip [OF _ _ _ _ _ _ r, of 0 "\<lambda>_ _ _ m. (False, m)" "\<lambda>_ _. Some"] r
    by (auto simp: zero_header_def)
qed

text \<open>C25. Releasing a header terminates on every chain of replicas, whatever the reference counts and
  whether or not pre-release callbacks delay it: if each header of the chain has a release callback,
  the release callbacks return and leave the headers' release callbacks in place (\<open>rel_local\<close>), and the
  pre-release callbacks leave those and the references in place (\<open>pre_local\<close>), then
  \<open>mmal_buffer_header_release\<close> returns, and no header has lost its callback.\<close>

theorem release_returns:
  assumes "rel_local rel" and "pre_local pre" and "ref_chain m (Some h) (h # hs)"
  shows "\<exists>m'. mmal_buffer_header_release pre rel h m = Some m' \<and>
    (\<forall>a. bh_pf_release (bufs m' a) = bh_pf_release (bufs m a))"
  using release_chain_terminates [OF assms] .

theorem release_returns_witness:
  "\<exists>m'. mmal_buffer_header_release (\<lambda>cb _ _ m. (cb = 7, m)) (\<lambda>_ _. Some) 3
     \<lparr>bufs = (\<lambda>a. zero_header\<lparr>bh_refcount := 1, bh_pf_release := Some 0,
        bh_pf_pre_release := (if a = 1 then Some 7 else None),
        bh_reference := if a = 0 then None else Some (a - 1)\<rparr>)\<rparr> = Some m'"
proof -
  let ?m = "\<lparr>bufs = (\<lambda>a. zero_header\<lparr>bh_refcount := 1, bh_pf_release := Some 0,
        bh_pf_pre_release := (if a = 1 then Some 7 else None),
        bh_reference := if a = 0 then None else Some (a - 1)\<rparr>)\<rparr>"
  have "rel_local (\<lambda>(_::nat) (_::addr) (m :: mmal_mem). Some m)" by (simp add: rel_local_def)
  moreover have "pre_local (\<lambda>(cb::nat) (_::addr) (_::ptr) (m :: mmal_mem). (cb = 7, m))"
    by (simp add: pre_local_def)
  moreover have "ref_chain ?m (Some 3) [3, 2, 1, 0]" by (simp add: zero_header_def)
  ultimately show ?thesis
    using release_returns [of "\<lambda>_ _. Some" "\<lambda>cb _ _ m. (cb = 7, m)" ?m 3 "[2, 1, 0]"] by blast
qed

end
