(* ===== verification/Mmal_Queue.thy ===== *)
theory Mmal_Queue
  imports Heap_List Fifo Mmal_Buffer
begin

text \<open>
  Queues of buffer headers (\<^verbatim>\<open>core/mmal_queue.c\<close>): a singly linked list threaded through the
  headers' \<open>next\<close> fields, with \<open>last\<close> the address of the pointer that ends the list and a
  semaphore that counts the queued headers. The queue is an instance of the locales
  \<open>fifo\<close> and \<open>fifo_put_back\<close> (interpretation \<open>mq\<close>).
\<close>

section \<open>The queue and its operations\<close>

record mmal_queue =
  q_length :: u32
  q_first :: ptr
  q_last :: slot
  q_sema :: nat
  q_block :: ptr   \<comment> \<open>the heap block of the structure, where the heap is modelled\<close>

type_synonym 'a queue_state = "mmal_queue option \<times> 'a mmal_mem_scheme"

definition set_next :: "addr \<Rightarrow> ptr \<Rightarrow> 'a mmal_mem_scheme \<Rightarrow> 'a mmal_mem_scheme" where
  "set_next a p m = upd_buf a (\<lambda>b. b\<lparr>bh_next := p\<rparr>) m"

text \<open>\<open>*queue->last = p\<close>\<close>

fun write_slot :: "slot \<Rightarrow> ptr \<Rightarrow> mmal_queue \<times> 'a mmal_mem_scheme \<Rightarrow> mmal_queue \<times> 'a mmal_mem_scheme" where
  "write_slot SlotFirst p (q, m) = (q\<lparr>q_first := p\<rparr>, m)"
| "write_slot (SlotNext a) p (q, m) = (q, set_next a p m)"

text \<open>The arguments of \<open>mmal_queue_create\<close> are the outcomes of the allocation, of the mutex and
  of the semaphore creation.\<close>

definition mmal_queue_create :: "bool \<Rightarrow> vcos_status \<Rightarrow> vcos_status \<Rightarrow> mmal_queue option" where
  "mmal_queue_create malloc_ok mutex_st sema_st =
     (if \<not> malloc_ok then None
      else if mutex_st \<noteq> VCOS_SUCCESS then None
      else if sema_st \<noteq> VCOS_SUCCESS then None
      else Some \<lparr>q_length = 0, q_first = None, q_last = SlotFirst, q_sema = 0, q_block = None\<rparr>)"

fun mmal_queue_put :: "'a queue_state \<Rightarrow> ptr \<Rightarrow> 'a queue_state" where
  "mmal_queue_put (Some q, m) (Some b) =
     (let q1 = q\<lparr>q_length := q_length q + 1\<rparr>;
          (q2, m2) = write_slot (q_last q1) (Some b) (q1, m);
          m3 = set_next b None m2;
          q3 = q2\<lparr>q_last := SlotNext b\<rparr>
      in (Some (q3\<lparr>q_sema := sem_post (q_sema q3)\<rparr>), m3))"
| "mmal_queue_put s _ = s"

fun mmal_queue_put_back :: "'a queue_state \<Rightarrow> ptr \<Rightarrow> 'a queue_state" where
  "mmal_queue_put_back (Some q, m) (Some b) =
     (let q1 = q\<lparr>q_length := q_length q + 1\<rparr>;
          m2 = set_next b (q_first q1) m;
          q2 = q1\<lparr>q_first := Some b\<rparr>;
          q3 = (if q_last q2 = SlotFirst then q2\<lparr>q_last := SlotNext b\<rparr> else q2)
      in (Some (q3\<lparr>q_sema := sem_post (q_sema q3)\<rparr>), m2))"
| "mmal_queue_put_back s _ = s"

text \<open>\<open>None\<close>: the thread blocks in \<open>vcos_semaphore_wait\<close>, inside the critical section.\<close>

fun mmal_queue_get :: "'a queue_state \<Rightarrow> (ptr \<times> 'a queue_state) option" where
  "mmal_queue_get (None, m) = Some (None, (None, m))"
| "mmal_queue_get (Some q, m) =
     (case q_first q of
        None \<Rightarrow> Some (None, (Some q, m))
      | Some b \<Rightarrow>
          (case sem_wait (q_sema q) of
             None \<Rightarrow> None
           | Some n \<Rightarrow>
               let q1 = q\<lparr>q_sema := n, q_first := bh_next (bufs m b)\<rparr>;
                   q2 = (if q_first q1 = None then q1\<lparr>q_last := SlotFirst\<rparr> else q1)
               in Some (Some b, (Some (q2\<lparr>q_length := q_length q2 - 1\<rparr>), m))))"

fun mmal_queue_wait :: "'a queue_state \<Rightarrow> (ptr \<times> 'a queue_state) option" where
  "mmal_queue_wait (None, m) = Some (None, (None, m))"
| "mmal_queue_wait (Some q, m) =
     (case sem_wait (q_sema q) of
        None \<Rightarrow> None
      | Some n \<Rightarrow> mmal_queue_get (Some (q\<lparr>q_sema := sem_post n\<rparr>), m))"

text \<open>\<open>vcos_semaphore_wait_timeout\<close> fails when the count stays 0 until the timeout.\<close>

fun mmal_queue_timedwait :: "'a queue_state \<Rightarrow> (ptr \<times> 'a queue_state) option" where
  "mmal_queue_timedwait (None, m) = Some (None, (None, m))"
| "mmal_queue_timedwait (Some q, m) =
     (case sem_wait (q_sema q) of
        None \<Rightarrow> Some (None, (Some q, m))
      | Some n \<Rightarrow> mmal_queue_get (Some (q\<lparr>q_sema := sem_post n\<rparr>), m))"

fun mmal_queue_length :: "'a queue_state \<Rightarrow> u32" where
  "mmal_queue_length (None, m) = 0"
| "mmal_queue_length (Some q, m) = q_length q"

section \<open>Representation of a sequence of headers\<close>

definition nexts :: "'a mmal_mem_scheme \<Rightarrow> addr \<Rightarrow> ptr" where
  "nexts m a = bh_next (bufs m a)"

lemma nexts_set_next [simp]: "nexts (set_next a p m) = (nexts m)(a := p)"
  by (auto simp: nexts_def set_next_def)

definition queue_list :: "mmal_queue \<Rightarrow> 'a mmal_mem_scheme \<Rightarrow> addr list \<Rightarrow> bool" where
  "queue_list q m xs \<longleftrightarrow>
     lpath (nexts m) (q_first q) xs None \<and> distinct xs
     \<and> q_last q = (if xs = [] then SlotFirst else SlotNext (last xs))
     \<and> q_length q = of_nat (length xs)"

fun queue_repr :: "'a queue_state \<Rightarrow> addr list \<Rightarrow> bool" where
  "queue_repr (None, m) xs \<longleftrightarrow> False"
| "queue_repr (Some q, m) xs \<longleftrightarrow> queue_list q m xs \<and> q_sema q = length xs"

lemma queue_repr_Some: "queue_repr s xs \<Longrightarrow> \<exists>q m. s = (Some q, m)"
  by (cases s; cases "fst s") auto

lemma queue_list_put:
  assumes "queue_list q m xs" and "b \<notin> set xs"
  shows "\<exists>q' m'. mmal_queue_put (Some q, m) (Some b) = (Some q', m')
    \<and> queue_list q' m' (xs @ [b]) \<and> q_sema q' = Suc (q_sema q)"
proof (cases "xs = []")
  case True
  with assms show ?thesis by (simp add: sem_post_def queue_list_def)
next
  case False
  with assms lpath_snoc [of "nexts m" "q_first q" xs b] show ?thesis
    by (simp add: sem_post_def queue_list_def)
qed

lemma queue_list_put_back:
  assumes "queue_list q m xs" and "b \<notin> set xs"
  shows "\<exists>q' m'. mmal_queue_put_back (Some q, m) (Some b) = (Some q', m')
    \<and> queue_list q' m' (b # xs) \<and> q_sema q' = Suc (q_sema q)"
  using assms by (cases xs) (auto simp: Let_def sem_post_def queue_list_def)

lemma queue_list_get_Nil: "queue_list q m [] \<Longrightarrow> mmal_queue_get (Some q, m) = Some (None, (Some q, m))"
  by (simp add: queue_list_def)

lemma queue_list_get_Cons:
  assumes "queue_list q m (b # xs)"
  shows "mmal_queue_get (Some q, m) = None \<and> q_sema q = 0
    \<or> (\<exists>q' n. q_sema q = Suc n \<and> mmal_queue_get (Some q, m) = Some (Some b, (Some q', m))
         \<and> queue_list q' m xs \<and> q_sema q' = n)"
  using assms
  by (cases xs; cases "q_sema q") (auto simp: Let_def nexts_def queue_list_def)

lemma queue_repr_distinct: "queue_repr s xs \<Longrightarrow> distinct xs"
  using queue_repr_Some by (fastforce simp: queue_list_def)

lemma queue_repr_create [repr_intros]:
  "mmal_queue_create ok mst sst = Some q \<Longrightarrow> queue_repr (Some q, m) []"
  by (auto simp: mmal_queue_create_def queue_list_def split: if_splits)

lemma queue_repr_put [repr_intros]:
  assumes "queue_repr s xs" and "b \<notin> set xs"
  shows "queue_repr (mmal_queue_put s (Some b)) (xs @ [b])"
proof -
  obtain q m where s: "s = (Some q, m)" using queue_repr_Some [OF assms(1)] by blast
  with assms queue_list_put [of q m xs b] show ?thesis by auto
qed

lemma queue_repr_put_back [repr_intros]:
  assumes "queue_repr s xs" and "b \<notin> set xs"
  shows "queue_repr (mmal_queue_put_back s (Some b)) (b # xs)"
proof -
  obtain q m where s: "s = (Some q, m)" using queue_repr_Some [OF assms(1)] by blast
  with assms queue_list_put_back [of q m xs b] show ?thesis by auto
qed

lemma queue_get_empty [op_simps]: "queue_repr s [] \<Longrightarrow> mmal_queue_get s = Some (None, s)"
  using queue_repr_Some by (fastforce simp: queue_list_def)

lemma queue_get_Cons:
  assumes "queue_repr s (b # xs)"
  shows "\<exists>q'. mmal_queue_get s = Some (Some b, (Some q', snd s)) \<and> queue_repr (Some q', snd s) xs"
proof -
  obtain q m where s: "s = (Some q, m)" using queue_repr_Some [OF assms] by blast
  with assms queue_list_get_Cons [of q m b xs] show ?thesis by auto
qed

lemma queue_length_repr: "queue_repr s xs \<Longrightarrow> mmal_queue_length s = of_nat (length xs)"
  using queue_repr_Some by (fastforce simp: queue_list_def)

lemma queue_repr_nonempty_sema:
  "queue_repr (Some q, m) xs \<Longrightarrow> q_sema q = 0 \<longleftrightarrow> xs = []"
  by auto

lemma queue_wait_get:
  assumes "queue_repr s xs" and "xs \<noteq> []"
  shows "mmal_queue_wait s = mmal_queue_get s" and "mmal_queue_timedwait s = mmal_queue_get s"
proof -
  obtain q m where s: "s = (Some q, m)" using assms(1) by (cases s; cases "fst s") auto
  obtain n where n: "q_sema q = Suc n" using assms s by (cases xs) auto
  have e: "q\<lparr>q_sema := Suc n\<rparr> = q" using n by simp
  have "mmal_queue_get (Some (q\<lparr>q_sema := Suc n\<rparr>), m) = mmal_queue_get (Some q, m)"
    by (simp only: e)
  then show "mmal_queue_wait s = mmal_queue_get s" and "mmal_queue_timedwait s = mmal_queue_get s"
    by (simp_all add: s n sem_post_def del: mmal_queue_get.simps)
qed

lemma queue_repr_mem_cong:
  assumes "queue_repr (qo, m) xs" and "\<And>a. a \<in> set xs \<Longrightarrow> bh_next (bufs m' a) = bh_next (bufs m a)"
  shows "queue_repr (qo, m') xs"
proof (cases qo)
  case None
  with assms show ?thesis by simp
next
  case (Some q)
  have "lpath (nexts m') (q_first q) xs None = lpath (nexts m) (q_first q) xs None"
    by (rule lpath_cong) (simp add: nexts_def assms(2))
  with assms Some show ?thesis by (simp add: queue_list_def)
qed

text \<open>Frame: the queue operations write nothing of a header but its \<open>next\<close> field.\<close>

definition same_but_next :: "'a mmal_mem_scheme \<Rightarrow> 'a mmal_mem_scheme \<Rightarrow> bool" where
  "same_but_next m m' \<longleftrightarrow> mmal_mem.more m' = mmal_mem.more m
     \<and> (\<forall>a. (bufs m' a)\<lparr>bh_next := None\<rparr> = (bufs m a)\<lparr>bh_next := None\<rparr>)"

lemma same_but_next_refl [simp]: "same_but_next m m"
  by (simp add: same_but_next_def)

lemma same_but_next_trans: "same_but_next m m' \<Longrightarrow> same_but_next m' m'' \<Longrightarrow> same_but_next m m''"
  by (simp add: same_but_next_def)

lemma same_but_next_set_next [simp]: "same_but_next m (set_next a p m)"
  by (simp add: same_but_next_def set_next_def)

lemma same_but_next_fields:
  assumes "same_but_next m m'"
  shows "bh_refcount (bufs m' a) = bh_refcount (bufs m a)"
    and "bh_reference (bufs m' a) = bh_reference (bufs m a)"
    and "bh_owner (bufs m' a) = bh_owner (bufs m a)"
    and "bh_pf_release (bufs m' a) = bh_pf_release (bufs m a)"
    and "bh_pf_pre_release (bufs m' a) = bh_pf_pre_release (bufs m a)"
    and "bh_data (bufs m' a) = bh_data (bufs m a)"
    and "bh_payload (bufs m' a) = bh_payload (bufs m a)"
    and "bh_length (bufs m' a) = bh_length (bufs m a)"
proof -
  have e: "(bufs m' a)\<lparr>bh_next := None\<rparr> = (bufs m a)\<lparr>bh_next := None\<rparr>"
    using assms by (simp add: same_but_next_def)
  note c = arg_cong [OF e]
  show "bh_refcount (bufs m' a) = bh_refcount (bufs m a)" using c [of bh_refcount] by simp
  show "bh_reference (bufs m' a) = bh_reference (bufs m a)" using c [of bh_reference] by simp
  show "bh_owner (bufs m' a) = bh_owner (bufs m a)" using c [of bh_owner] by simp
  show "bh_pf_release (bufs m' a) = bh_pf_release (bufs m a)" using c [of bh_pf_release] by simp
  show "bh_pf_pre_release (bufs m' a) = bh_pf_pre_release (bufs m a)"
    using c [of bh_pf_pre_release] by simp
  show "bh_data (bufs m' a) = bh_data (bufs m a)" using c [of bh_data] by simp
  show "bh_payload (bufs m' a) = bh_payload (bufs m a)" using c [of bh_payload] by simp
  show "bh_length (bufs m' a) = bh_length (bufs m a)" using c [of bh_length] by simp
qed

lemma write_slot_frame: "same_but_next m (snd (write_slot sl p (q, m)))"
  by (cases sl) auto

lemma queue_put_frame: "same_but_next m (snd (mmal_queue_put (qo, m) b))"
proof (cases qo; cases b)
  fix q a
  assume q: "qo = Some q" and b: "b = Some a"
  obtain q2 m2 where w: "write_slot (q_last q) (Some a) (q\<lparr>q_length := q_length q + 1\<rparr>, m) = (q2, m2)"
    by fastforce
  have "same_but_next m m2"
    using write_slot_frame [of m "q_last q" "Some a" "q\<lparr>q_length := q_length q + 1\<rparr>"]
    by (simp add: w)
  then show ?thesis
    using same_but_next_trans [OF _ same_but_next_set_next] by (simp add: q b w)
qed auto

section \<open>The queue is a fifo\<close>

definition queue_put_addr :: "'a queue_state \<Rightarrow> addr \<Rightarrow> 'a queue_state" where
  "queue_put_addr s b = mmal_queue_put s (Some b)"

definition queue_put_back_addr :: "'a queue_state \<Rightarrow> addr \<Rightarrow> 'a queue_state" where
  "queue_put_back_addr s b = mmal_queue_put_back s (Some b)"

interpretation mq: fifo_put_back queue_repr queue_put_addr mmal_queue_get queue_put_back_addr
proof unfold_locales
  fix s :: "'c queue_state" and xs b
  show "queue_repr s xs \<Longrightarrow> distinct xs" by (rule queue_repr_distinct)
  show "queue_repr s xs \<Longrightarrow> b \<notin> set xs \<Longrightarrow> queue_repr (queue_put_addr s b) (xs @ [b])"
    unfolding queue_put_addr_def by (rule queue_repr_put)
  show "queue_repr s [] \<Longrightarrow> mmal_queue_get s = Some (None, s)" by (rule queue_get_empty)
  show "queue_repr s (b # xs) \<Longrightarrow>
      \<exists>s'. mmal_queue_get s = Some (Some b, s') \<and> queue_repr s' xs"
    using queue_get_Cons by blast
  show "queue_repr s xs \<Longrightarrow> b \<notin> set xs \<Longrightarrow> queue_repr (queue_put_back_addr s b) (b # xs)"
    unfolding queue_put_back_addr_def by (rule queue_repr_put_back)
qed

section \<open>Sequences of operations\<close>

datatype queue_op = OpPut addr | OpPutBack addr | OpGet | OpTimedwait | OpLength

datatype queue_ret = RVoid | RHeader ptr | RLength u32

fun queue_call :: "'a queue_state \<Rightarrow> queue_op \<Rightarrow> (queue_ret \<times> 'a queue_state) option" where
  "queue_call s (OpPut b) = Some (RVoid, mmal_queue_put s (Some b))"
| "queue_call s (OpPutBack b) = Some (RVoid, mmal_queue_put_back s (Some b))"
| "queue_call s OpGet = map_option (\<lambda>(p, s'). (RHeader p, s')) (mmal_queue_get s)"
| "queue_call s OpTimedwait = map_option (\<lambda>(p, s'). (RHeader p, s')) (mmal_queue_timedwait s)"
| "queue_call s OpLength = Some (RLength (mmal_queue_length s), s)"

fun queue_run :: "'a queue_state \<Rightarrow> queue_op list \<Rightarrow> (queue_ret list \<times> 'a queue_state) option" where
  "queue_run s [] = Some ([], s)"
| "queue_run s (c # cs) =
     (case queue_call s c of
        None \<Rightarrow> None
      | Some (r, s') \<Rightarrow> map_option (\<lambda>(rs, s''). (r # rs, s'')) (queue_run s' cs))"

text \<open>The abstract queue is the sequence of its headers.\<close>

fun list_pop :: "addr list \<Rightarrow> queue_ret \<times> addr list" where
  "list_pop [] = (RHeader None, [])"
| "list_pop (x # xs) = (RHeader (Some x), xs)"

fun list_call :: "addr list \<Rightarrow> queue_op \<Rightarrow> queue_ret \<times> addr list" where
  "list_call xs (OpPut b) = (RVoid, xs @ [b])"
| "list_call xs (OpPutBack b) = (RVoid, b # xs)"
| "list_call xs OpLength = (RLength (of_nat (length xs)), xs)"
| "list_call xs OpGet = list_pop xs"
| "list_call xs OpTimedwait = list_pop xs"

fun list_run :: "addr list \<Rightarrow> queue_op list \<Rightarrow> queue_ret list \<times> addr list" where
  "list_run xs [] = ([], xs)"
| "list_run xs (c # cs) =
     (let (r, ys) = list_call xs c; (rs, zs) = list_run ys cs in (r # rs, zs))"

text \<open>The caller's obligation: a header that is queued is not queued again.\<close>

fun not_queued :: "addr list \<Rightarrow> queue_op \<Rightarrow> bool" where
  "not_queued xs (OpPut b) = (b \<notin> set xs)"
| "not_queued xs (OpPutBack b) = (b \<notin> set xs)"
| "not_queued xs _ = True"

fun puts_fresh :: "addr list \<Rightarrow> queue_op list \<Rightarrow> bool" where
  "puts_fresh xs [] = True"
| "puts_fresh xs (c # cs) = (not_queued xs c \<and> puts_fresh (snd (list_call xs c)) cs)"

lemma queue_pop_simulates:
  assumes "queue_repr s xs"
  shows "\<exists>p s'. mmal_queue_get s = Some (p, s') \<and> mmal_queue_timedwait s = Some (p, s')
    \<and> fst (list_pop xs) = RHeader p \<and> queue_repr s' (snd (list_pop xs))"
proof (cases xs)
  case Nil
  obtain q m where s: "s = (Some q, m)" using queue_repr_Some [OF assms] by blast
  have "q_sema q = 0" using assms Nil s by simp
  then have "mmal_queue_timedwait s = Some (None, s)" by (simp add: s)
  moreover have "mmal_queue_get s = Some (None, s)" using assms Nil queue_get_empty by blast
  ultimately show ?thesis using assms Nil by auto
next
  case (Cons b ys)
  then show ?thesis
    using queue_get_Cons [of s b ys] queue_wait_get [of s xs] assms by auto
qed

lemma queue_call_simulates:
  assumes "queue_repr s xs" and "not_queued xs c"
  shows "\<exists>s'. queue_call s c = Some (fst (list_call xs c), s') \<and> queue_repr s' (snd (list_call xs c))"
  using assms queue_pop_simulates [OF assms(1)]
  by (cases c) (auto simp: queue_length_repr intro: queue_repr_put queue_repr_put_back)

lemma queue_run_simulates:
  "queue_repr s xs \<Longrightarrow> puts_fresh xs cs \<Longrightarrow>
   \<exists>s'. queue_run s cs = Some (fst (list_run xs cs), s') \<and> queue_repr s' (snd (list_run xs cs))"
proof (induction cs arbitrary: s xs)
  case Nil
  then show ?case by simp
next
  case (Cons c cs)
  have "not_queued xs c" using Cons.prems(2) by simp
  from queue_call_simulates [OF Cons.prems(1) this]
  obtain s1 where "queue_call s c = Some (fst (list_call xs c), s1)"
    and "queue_repr s1 (snd (list_call xs c))" by blast
  with Cons.IH [of s1 "snd (list_call xs c)"] Cons.prems(2) show ?case
    by (auto simp: split_def Let_def)
qed

section \<open>Properties\<close>

text \<open>C1. A buffer queue is a sequence of headers: from a freshly created queue, every sequence of
  \<open>mmal_queue_put\<close>, \<open>mmal_queue_put_back\<close>, \<open>mmal_queue_get\<close>, \<open>mmal_queue_timedwait\<close> and
  \<open>mmal_queue_length\<close> calls that does not queue a queued header completes without blocking,
  returns what the same calls on a list return, and leaves the queue representing that list.\<close>

theorem queue_refines_list:
  assumes "mmal_queue_create ok mutex_st sema_st = Some q" and "puts_fresh [] cs"
  shows "\<exists>s'. queue_run (Some q, m) cs = Some (fst (list_run [] cs), s')
    \<and> queue_repr s' (snd (list_run [] cs))"
  using queue_run_simulates [OF queue_repr_create [OF assms(1)] assms(2)] .

theorem queue_refines_list_witness:
  "\<exists>q s'. mmal_queue_create True VCOS_SUCCESS VCOS_SUCCESS = Some q \<and>
     queue_run (Some q, \<lparr>bufs = (\<lambda>_. zero_header)\<rparr>)
       [OpPut 3, OpPut 5, OpPutBack 1, OpLength, OpGet, OpTimedwait, OpPut 1, OpGet, OpGet, OpGet]
     = Some ([RVoid, RVoid, RVoid, RLength 3, RHeader (Some 1), RHeader (Some 3), RVoid,
              RHeader (Some 5), RHeader (Some 1), RHeader None], s')"
proof -
  let ?cs = "[OpPut 3, OpPut 5, OpPutBack 1, OpLength, OpGet, OpTimedwait, OpPut 1, OpGet, OpGet, OpGet]"
  have "\<exists>q. mmal_queue_create True VCOS_SUCCESS VCOS_SUCCESS = Some q"
    by (simp add: mmal_queue_create_def)
  then obtain q where q: "mmal_queue_create True VCOS_SUCCESS VCOS_SUCCESS = Some q" by blast
  have f: "puts_fresh [] ?cs" by simp
  from queue_refines_list [OF q f, of "\<lparr>bufs = (\<lambda>_. zero_header)\<rparr>"] q show ?thesis by auto
qed

end
