(* ===== verification/Mmal_Pool.thy ===== *)
theory Mmal_Pool
  imports Mmal_Queue
begin

text \<open>
  Pools of buffer headers (\<^verbatim>\<open>core/mmal_pool.c\<close>): the block that holds the pointer array and the
  headers, the payload allocator, creation, destruction, resizing, and the release callback that
  recycles a header into the pool's queue.
\<close>

section \<open>State\<close>

record mmal_pool =
  pl_queue :: "mmal_queue option"
  pl_headers_num :: nat
  pl_base :: ptr                    \<comment> \<open>\<open>pool->header\<close>: the block with the array and the headers\<close>
  pl_header :: "nat \<Rightarrow> addr"        \<comment> \<open>\<open>pool->header[i]\<close>\<close>
  pl_cb :: "nat option"
  pl_userdata :: ptr
  pl_allocator_alloc :: "nat option"
  pl_allocator_free :: "nat option"
  pl_allocator_context :: ptr
  pl_header_size :: u32
  pl_payload_size :: u32
  pl_headers_alloc_num :: u32

text \<open>All pools and headers, and the state of the memory allocators.\<close>

record 'e pstate = mmal_mem +
  ps_pool :: "addr \<Rightarrow> mmal_pool"
  ps_env :: 'e

text \<open>
  What the code calls through pointers, and the C allocator: \<open>op_alloc\<close> and \<open>op_pfree\<close>
  interpret the allocator functions stored in a pool or header, \<open>op_cb\<close> its release callback.
\<close>

record 'e pool_ops =
  op_abi :: abi
  op_malloc :: "u32 \<Rightarrow> 'e \<Rightarrow> ptr \<times> 'e"
  op_free :: "addr \<Rightarrow> 'e \<Rightarrow> 'e"
  op_alloc :: "nat \<Rightarrow> ptr \<Rightarrow> u32 \<Rightarrow> 'e \<Rightarrow> ptr \<times> 'e"
  op_pfree :: "nat \<Rightarrow> ptr \<Rightarrow> addr \<Rightarrow> 'e \<Rightarrow> 'e"
  op_cb :: "nat \<Rightarrow> addr \<Rightarrow> addr \<Rightarrow> ptr \<Rightarrow> 'e pstate \<Rightarrow> bool \<times> 'e pstate"

definition upd_pool :: "addr \<Rightarrow> (mmal_pool \<Rightarrow> mmal_pool) \<Rightarrow> 'e pstate \<Rightarrow> 'e pstate" where
  "upd_pool p f s = s\<lparr>ps_pool := (ps_pool s)(p := f (ps_pool s p))\<rparr>"

lemma upd_pool_simps [simp]:
  "ps_pool (upd_pool p f s) q = (if q = p then f (ps_pool s p) else ps_pool s q)"
  "bufs (upd_pool p f s) = bufs s" "ps_env (upd_pool p f s) = ps_env s"
  by (simp_all add: upd_pool_def)

lemma upd_buf_pstate [simp]:
  "ps_pool (upd_buf a f s) = ps_pool s" "ps_env (upd_buf a f s) = ps_env s"
  by (simp_all add: upd_buf_def)

text \<open>The pool's queue operations, on the queue stored in the pool.\<close>

definition pool_queue_put :: "addr \<Rightarrow> addr \<Rightarrow> 'e pstate \<Rightarrow> 'e pstate" where
  "pool_queue_put p h s =
     (case mmal_queue_put (pl_queue (ps_pool s p), s) (Some h) of
        (q', s') \<Rightarrow> upd_pool p (\<lambda>P. P\<lparr>pl_queue := q'\<rparr>) s')"

definition pool_queue_get :: "addr \<Rightarrow> 'e pstate \<Rightarrow> (ptr \<times> 'e pstate) option" where
  "pool_queue_get p s =
     (case mmal_queue_get (pl_queue (ps_pool s p), s) of
        None \<Rightarrow> None
      | Some (r, (q', s')) \<Rightarrow> Some (r, upd_pool p (\<lambda>P. P\<lparr>pl_queue := q'\<rparr>) s'))"

section \<open>Initialising the headers\<close>

text \<open>Identifier of \<open>mmal_pool_buffer_header_release\<close> in a header's \<open>pf_release\<close>.\<close>

definition POOL_RELEASE :: nat where "POOL_RELEASE = 0"

definition fill_header :: "addr \<Rightarrow> mmal_pool \<Rightarrow> ptr \<Rightarrow> mmal_header \<Rightarrow> mmal_header" where
  "fill_header pool P payload b = b\<lparr>bh_data := payload, bh_alloc_size := pl_payload_size P,
     bh_pf_release := Some POOL_RELEASE, bh_owner := Some pool, bh_refcount := 1,
     bh_payload := payload, bh_payload_context := pl_allocator_context P,
     bh_pf_payload_free := pl_allocator_free P, bh_payload_size := pl_payload_size P\<rparr>"

definition free_payload :: "'e pool_ops \<Rightarrow> mmal_header \<Rightarrow> 'e \<Rightarrow> 'e" where
  "free_payload c b e =
     (case (bh_pf_payload_free b, bh_payload b) of
        (Some f, Some p) \<Rightarrow> if bh_payload_size b \<noteq> 0 then op_pfree c f (bh_payload_context b) p e else e
      | _ \<Rightarrow> e)"

text \<open>
  The loop of \<open>mmal_pool_initialise_buffer_headers\<close>, from index \<open>i\<close> with \<open>n\<close> headers to go.
  \<open>None\<close>: the code dereferences the null pointer that
  \<open>mmal_buffer_header_initialise\<close> returns for a header size that is too small.
\<close>

fun init_headers_loop ::
  "'e pool_ops \<Rightarrow> addr \<Rightarrow> bool \<Rightarrow> nat \<Rightarrow> nat \<Rightarrow> addr \<Rightarrow> 'e pstate \<Rightarrow> (mmal_status \<times> 'e pstate) option" where
  "init_headers_loop c pool reinit 0 i header s = Some (MMAL_SUCCESS, s)"
| "init_headers_loop c pool reinit (Suc n) i header s =
     (let P = ps_pool s pool;
          (hp, s1) = (if reinit
             then mmal_buffer_header_initialise (op_abi c) header (pl_header_size P) s
             else (Some header, s))
      in case hp of
           None \<Rightarrow> None
         | Some h \<Rightarrow>
             let (payload, ok, s2) =
               (if pl_payload_size P \<noteq> 0 \<and> pl_allocator_alloc P \<noteq> None
                then (case op_alloc c (the (pl_allocator_alloc P)) (pl_allocator_context P)
                              (pl_payload_size P) (ps_env s1) of
                        (pp, e') \<Rightarrow> (pp, pp \<noteq> None, s1\<lparr>ps_env := e'\<rparr>))
                else (None, True, s1\<lparr>ps_env := free_payload c (bufs s1 h) (ps_env s1)\<rparr>))
             in if \<not> ok then Some (MMAL_ENOMEM, s2)
                else let s3 = upd_buf h (fill_header pool P payload) s2;
                         s4 = upd_pool pool (\<lambda>P. P\<lparr>pl_header := (pl_header P)(i := h),
                                                   pl_headers_num := i + 1\<rparr>) s3
                     in init_headers_loop c pool reinit n (i + 1) (h + unat (pl_header_size P)) s4)"

definition first_header :: "'e pool_ops \<Rightarrow> mmal_pool \<Rightarrow> u32 \<Rightarrow> addr" where
  "first_header c P headers =
     (case pl_base P of None \<Rightarrow> 0 | Some b \<Rightarrow> b) + unat (ROUND_UP (sizeof_ptr (op_abi c) * headers) 8)"

definition mmal_pool_initialise_buffer_headers ::
  "'e pool_ops \<Rightarrow> addr \<Rightarrow> u32 \<Rightarrow> bool \<Rightarrow> 'e pstate \<Rightarrow> (mmal_status \<times> 'e pstate) option" where
  "mmal_pool_initialise_buffer_headers c pool headers reinit s =
     init_headers_loop c pool reinit (unat headers) 0 (first_header c (ps_pool s pool) headers) s"

section \<open>Destruction, creation, resizing\<close>

fun put_headers :: "addr \<Rightarrow> nat \<Rightarrow> nat \<Rightarrow> 'e pstate \<Rightarrow> 'e pstate" where
  "put_headers pool 0 i s = s"
| "put_headers pool (Suc n) i s =
     put_headers pool n (i + 1) (pool_queue_put pool (pl_header (ps_pool s pool) i) s)"

fun free_payloads :: "'e pool_ops \<Rightarrow> addr \<Rightarrow> nat \<Rightarrow> nat \<Rightarrow> 'e pstate \<Rightarrow> 'e pstate" where
  "free_payloads c pool 0 i s = s"
| "free_payloads c pool (Suc n) i s =
     free_payloads c pool n (i + 1)
       (s\<lparr>ps_env := free_payload c (bufs s (pl_header (ps_pool s pool) i)) (ps_env s)\<rparr>)"

text \<open>\<open>mmal_queue_create\<close> with the block of the queue on the heap: \<open>mutex_st\<close> and \<open>sema_st\<close> are the
  outcomes of creating its lock and its semaphore; the block is given back when one of them fails.
  A queue whose block is not tracked has \<open>q_block = None\<close>.\<close>

definition queue_create_on_heap ::
  "'e pool_ops \<Rightarrow> vcos_status \<Rightarrow> vcos_status \<Rightarrow> 'e \<Rightarrow> mmal_queue option \<times> 'e" where
  "queue_create_on_heap c mutex_st sema_st e =
     (case op_malloc c (sizeof_queue (op_abi c)) e of
        (None, e1) \<Rightarrow> (mmal_queue_create False mutex_st sema_st, e1)
      | (Some b, e1) \<Rightarrow>
          (case mmal_queue_create True mutex_st sema_st of
             None \<Rightarrow> (None, op_free c b e1)
           | Some q \<Rightarrow> (Some (q\<lparr>q_block := Some b\<rparr>), e1)))"

definition mmal_queue_destroy :: "'e pool_ops \<Rightarrow> mmal_queue option \<Rightarrow> 'e \<Rightarrow> 'e" where
  "mmal_queue_destroy c queue e =
     (case queue of
        None \<Rightarrow> e
      | Some q \<Rightarrow> (case q_block q of None \<Rightarrow> e | Some b \<Rightarrow> op_free c b e))"

fun mmal_pool_destroy :: "'e pool_ops \<Rightarrow> ptr \<Rightarrow> 'e pstate \<Rightarrow> 'e pstate" where
  "mmal_pool_destroy c None s = s"
| "mmal_pool_destroy c (Some pool) s =
     (let s1 = free_payloads c pool (pl_headers_num (ps_pool s pool)) 0 s;
          s2 = (case pl_base (ps_pool s1 pool) of
                  None \<Rightarrow> s1
                | Some b \<Rightarrow> s1\<lparr>ps_env := op_free c b (ps_env s1)\<rparr>);
          s3 = upd_pool pool (\<lambda>P. P\<lparr>pl_queue := None\<rparr>)
                 (s2\<lparr>ps_env := mmal_queue_destroy c (pl_queue (ps_pool s2 pool)) (ps_env s2)\<rparr>)
      in s3\<lparr>ps_env := op_free c pool (ps_env s3)\<rparr>)"

definition DEFAULT_ALLOCATOR :: nat where "DEFAULT_ALLOCATOR = 0"

definition new_pool ::
  "mmal_queue \<Rightarrow> addr \<Rightarrow> u32 \<Rightarrow> u32 \<Rightarrow> u32 \<Rightarrow> nat option \<Rightarrow> nat option \<Rightarrow> ptr \<Rightarrow> mmal_pool" where
  "new_pool queue array header_size payload_size headers aalloc afree acontext =
     (let default = aalloc = None \<or> afree = None in
      \<lparr>pl_queue = Some queue, pl_headers_num = 0, pl_base = Some array, pl_header = (\<lambda>_. 0),
       pl_cb = None, pl_userdata = None,
       pl_allocator_alloc = (if default then Some DEFAULT_ALLOCATOR else aalloc),
       pl_allocator_free = (if default then Some DEFAULT_ALLOCATOR else afree),
       pl_allocator_context = (if default then None else acontext),
       pl_header_size = header_size, pl_payload_size = payload_size,
       pl_headers_alloc_num = headers\<rparr>)"

text \<open>\<open>queue\<close> is what \<open>mmal_queue_create\<close> returned; \<open>pool_create_with_queue\<close> below calls it.\<close>

fun mmal_pool_create_with_allocator ::
  "'e pool_ops \<Rightarrow> mmal_queue option \<Rightarrow> u32 \<Rightarrow> u32 \<Rightarrow> ptr \<Rightarrow> nat option \<Rightarrow> nat option \<Rightarrow>
   'e pstate \<Rightarrow> (ptr \<times> 'e pstate) option" where
  "mmal_pool_create_with_allocator c None headers payload_size acontext aalloc afree s = Some (None, s)"
| "mmal_pool_create_with_allocator c (Some queue) headers payload_size acontext aalloc afree s =
     (let pool_size = ROUND_UP (sizeof_pool_private (op_abi c)) 8;
          headers_array_size = ROUND_UP (sizeof_ptr (op_abi c) * headers) 8;
          header_size = ROUND_UP (mmal_buffer_header_size (op_abi c)) 8;
          (private, e1) = op_malloc c pool_size (ps_env s);
          (array, e2) = op_malloc c (headers_array_size + header_size * headers) e1
      in case (private, array) of
           (Some pool, Some arr) \<Rightarrow>
             let s1 = upd_pool pool
                   (\<lambda>_. new_pool queue arr header_size payload_size headers aalloc afree acontext)
                   (s\<lparr>ps_env := e2\<rparr>)
             in (case mmal_pool_initialise_buffer_headers c pool headers True s1 of
                   None \<Rightarrow> None
                 | Some (st, s2) \<Rightarrow>
                     if st \<noteq> MMAL_SUCCESS then Some (None, mmal_pool_destroy c (Some pool) s2)
                     else Some (Some pool, put_headers pool (pl_headers_num (ps_pool s2 pool)) 0 s2))
         | _ \<Rightarrow>
             let e3 = (case private of None \<Rightarrow> e2 | Some p \<Rightarrow> op_free c p e2);
                 e4 = (case array of None \<Rightarrow> e3 | Some a \<Rightarrow> op_free c a e3)
             in Some (None, s\<lparr>ps_env := mmal_queue_destroy c (Some queue) e4\<rparr>))"

text \<open>The whole function, from the creation of its queue on.\<close>

definition pool_create_with_queue ::
  "'e pool_ops \<Rightarrow> vcos_status \<Rightarrow> vcos_status \<Rightarrow> u32 \<Rightarrow> u32 \<Rightarrow> ptr \<Rightarrow> nat option \<Rightarrow> nat option \<Rightarrow>
   'e pstate \<Rightarrow> (ptr \<times> 'e pstate) option" where
  "pool_create_with_queue c mutex_st sema_st headers payload_size acontext aalloc afree s =
     (case queue_create_on_heap c mutex_st sema_st (ps_env s) of
        (queue, e1) \<Rightarrow> mmal_pool_create_with_allocator c queue headers payload_size acontext aalloc afree
                        (s\<lparr>ps_env := e1\<rparr>))"

definition mmal_pool_create ::
  "'e pool_ops \<Rightarrow> mmal_queue option \<Rightarrow> u32 \<Rightarrow> u32 \<Rightarrow> 'e pstate \<Rightarrow> (ptr \<times> 'e pstate) option" where
  "mmal_pool_create c queue headers payload_size s =
     mmal_pool_create_with_allocator c queue headers payload_size None
       (Some DEFAULT_ALLOCATOR) (Some DEFAULT_ALLOCATOR) s"

fun get_headers :: "addr \<Rightarrow> nat \<Rightarrow> 'e pstate \<Rightarrow> 'e pstate option" where
  "get_headers pool 0 s = Some s"
| "get_headers pool (Suc n) s =
     (case pool_queue_get pool s of None \<Rightarrow> None | Some (_, s') \<Rightarrow> get_headers pool n s')"

definition resize_block :: "'e pool_ops \<Rightarrow> addr \<Rightarrow> u32 \<Rightarrow> 'e pstate \<Rightarrow> mmal_status \<times> 'e pstate" where
  "resize_block c pool headers s =
     (if headers > pl_headers_alloc_num (ps_pool s pool) then
        let s1 = upd_pool pool (\<lambda>P. P\<lparr>pl_headers_alloc_num := 0\<rparr>) s;
            s2 = (case pl_base (ps_pool s1 pool) of
                    None \<Rightarrow> s1 | Some b \<Rightarrow> s1\<lparr>ps_env := op_free c b (ps_env s1)\<rparr>);
            (array, e') = op_malloc c (pl_header_size (ps_pool s2 pool) * headers
                            + ROUND_UP (sizeof_ptr (op_abi c) * headers) 8) (ps_env s2);
            s3 = upd_pool pool (\<lambda>P. P\<lparr>pl_base := array, pl_header := (\<lambda>_. 0)\<rparr>) (s2\<lparr>ps_env := e'\<rparr>)
        in if array = None then (MMAL_ENOMEM, s3)
           else (MMAL_SUCCESS, upd_pool pool (\<lambda>P. P\<lparr>pl_headers_alloc_num := headers\<rparr>) s3)
      else (MMAL_SUCCESS, s))"

fun mmal_pool_resize ::
  "'e pool_ops \<Rightarrow> ptr \<Rightarrow> u32 \<Rightarrow> u32 \<Rightarrow> 'e pstate \<Rightarrow> (mmal_status \<times> 'e pstate) option" where
  "mmal_pool_resize c None headers payload_size s = Some (MMAL_EINVAL, s)"
| "mmal_pool_resize c (Some pool) headers payload_size s =
     (let P = ps_pool s pool in
      if headers = 0 then Some (MMAL_EINVAL, s)
      else if headers = of_nat (pl_headers_num P) \<and> payload_size = pl_payload_size P
      then Some (MMAL_SUCCESS, s)
      else
        Option.bind (get_headers pool (pl_headers_num P) s) (\<lambda>s1.
        let s2 = upd_pool pool (\<lambda>P. P\<lparr>pl_payload_size := 0\<rparr>) s1 in
        Option.bind
          (mmal_pool_initialise_buffer_headers c pool (of_nat (pl_headers_num (ps_pool s2 pool))) False s2)
          (\<lambda>(_, s3).
        let s4 = upd_pool pool (\<lambda>P. P\<lparr>pl_headers_num := 0\<rparr>) s3;
            (st, s5) = resize_block c pool headers s4 in
        if st \<noteq> MMAL_SUCCESS then Some (st, s5)
        else let s6 = upd_pool pool (\<lambda>P. P\<lparr>pl_payload_size := payload_size\<rparr>) s5 in
        Option.bind (mmal_pool_initialise_buffer_headers c pool headers True s6) (\<lambda>(_, s7).
        Some (MMAL_SUCCESS, put_headers pool (pl_headers_num (ps_pool s7 pool)) 0 s7)))))"

section \<open>Recycling\<close>

definition mmal_pool_buffer_header_release :: "'e pool_ops \<Rightarrow> addr \<Rightarrow> 'e pstate \<Rightarrow> 'e pstate option" where
  "mmal_pool_buffer_header_release c header s =
     (case bh_owner (bufs s header) of
        None \<Rightarrow> None
      | Some pool \<Rightarrow>
          let s1 = upd_buf header (\<lambda>b. b\<lparr>bh_refcount := 1\<rparr>) s;
              (queue_buffer, s2) =
                (case pl_cb (ps_pool s1 pool) of
                   None \<Rightarrow> (True, s1)
                 | Some cb \<Rightarrow> op_cb c cb pool header (pl_userdata (ps_pool s1 pool)) s1)
          in Some (if queue_buffer then pool_queue_put pool header s2 else s2))"

definition mmal_pool_callback_set :: "addr \<Rightarrow> nat option \<Rightarrow> ptr \<Rightarrow> 'e pstate \<Rightarrow> 'e pstate" where
  "mmal_pool_callback_set pool cb userdata s =
     upd_pool pool (\<lambda>P. P\<lparr>pl_cb := cb, pl_userdata := userdata\<rparr>) s"

fun pre_release_loop :: "addr \<Rightarrow> nat option \<Rightarrow> ptr \<Rightarrow> nat \<Rightarrow> addr \<Rightarrow> 'e pstate \<Rightarrow> 'e pstate" where
  "pre_release_loop pool cb userdata 0 header s = s"
| "pre_release_loop pool cb userdata (Suc n) header s =
     pre_release_loop pool cb userdata n (header + unat (pl_header_size (ps_pool s pool)))
       (mmal_buffer_header_pre_release_cb_set header cb userdata s)"

definition mmal_pool_pre_release_callback_set ::
  "'e pool_ops \<Rightarrow> addr \<Rightarrow> nat option \<Rightarrow> ptr \<Rightarrow> 'e pstate \<Rightarrow> 'e pstate" where
  "mmal_pool_pre_release_callback_set c pool cb userdata s =
     (let P = ps_pool s pool in
      pre_release_loop pool cb userdata (pl_headers_num P)
        (first_header c P (of_nat (pl_headers_num P))) s)"

text \<open>Releasing a header of a pool: the reference-counting protocol of \<open>Mmal_Buffer\<close> with the pool's
  release callback; \<open>pre\<close> interprets the pre-release callbacks.\<close>

definition pool_rel :: "'e pool_ops \<Rightarrow> nat \<Rightarrow> addr \<Rightarrow> 'e pstate \<Rightarrow> 'e pstate option" where
  "pool_rel c f header s =
     (if f = POOL_RELEASE then mmal_pool_buffer_header_release c header s else None)"

definition pool_header_release ::
  "'e pool_ops \<Rightarrow> (nat \<Rightarrow> addr \<Rightarrow> ptr \<Rightarrow> 'e pstate \<Rightarrow> bool \<times> 'e pstate) \<Rightarrow> addr \<Rightarrow>
   'e pstate \<Rightarrow> 'e pstate option" where
  "pool_header_release c pre header s = mmal_buffer_header_release pre (pool_rel c) header s"

end
