(* ===== verification/Mmal_Util.thy ===== *)
theory Mmal_Util
  imports Mmal_Format Mmal_Pool
begin

text \<open>
  The utility functions of \<^verbatim>\<open>util/mmal_util.c\<close> and \<^verbatim>\<open>util/mmal_util_params.c\<close>: names of
  statuses and port types, the pitch table, port lookup, four-character codes, and the helpers that
  build a parameter and send it to a port. How the port handles the parameter is an argument.
\<close>

section \<open>Names\<close>

definition status_to_string_map :: "(mmal_status \<times> string) list" where
  "status_to_string_map =
     [(MMAL_SUCCESS, ''SUCCESS''), (MMAL_ENOMEM, ''ENOMEM''), (MMAL_ENOSPC, ''ENOSPC''),
      (MMAL_EINVAL, ''EINVAL''), (MMAL_ENOSYS, ''ENOSYS''), (MMAL_ENOENT, ''ENOENT''),
      (MMAL_ENXIO, ''ENXIO''), (MMAL_EIO, ''EIO''), (MMAL_ESPIPE, ''ESPIPE''),
      (MMAL_ECORRUPT, ''ECORRUPT''), (MMAL_ENOTREADY, ''ENOTREADY''), (MMAL_ECONFIG, ''ECONFIG'')]"

fun find_status :: "(mmal_status \<times> string) list \<Rightarrow> mmal_status \<Rightarrow> string option" where
  "find_status [] status = None"
| "find_status ((s, str) # m) status = (if s = status then Some str else find_status m status)"

definition mmal_status_to_string :: "mmal_status \<Rightarrow> string" where
  "mmal_status_to_string status =
     (case find_status status_to_string_map status of Some str \<Rightarrow> str | None \<Rightarrow> ''UNKNOWN'')"

datatype port_type =
    MMAL_PORT_TYPE_UNKNOWN | MMAL_PORT_TYPE_CONTROL | MMAL_PORT_TYPE_INPUT | MMAL_PORT_TYPE_OUTPUT
  | MMAL_PORT_TYPE_CLOCK

fun mmal_port_type_to_string :: "port_type \<Rightarrow> string" where
  "mmal_port_type_to_string MMAL_PORT_TYPE_INPUT = ''in''"
| "mmal_port_type_to_string MMAL_PORT_TYPE_OUTPUT = ''out''"
| "mmal_port_type_to_string MMAL_PORT_TYPE_CLOCK = ''clk''"
| "mmal_port_type_to_string MMAL_PORT_TYPE_CONTROL = ''ctr''"
| "mmal_port_type_to_string _ = ''invalid''"

section \<open>Strides\<close>

definition fourcc :: "string \<Rightarrow> u32" where
  "fourcc s = MMAL_FOURCC (of_nat (of_char (s ! 0))) (of_nat (of_char (s ! 1)))
                (of_nat (of_char (s ! 2))) (of_nat (of_char (s ! 3)))"

definition MMAL_ENCODING_UNKNOWN :: u32 where "MMAL_ENCODING_UNKNOWN = 0"

definition pixel_pitch :: "(u32 \<times> u32 \<times> u32) list" where
  "pixel_pitch =
     [(fourcc ''I420'', 1, 1), (fourcc ''YV12'', 1, 1), (fourcc ''I422'', 1, 1), (fourcc ''NV21'', 1, 1),
      (fourcc ''NV12'', 1, 1), (fourcc ''ARGB'', 4, 1), (fourcc ''RGBA'', 4, 1), (fourcc ''RGB4'', 4, 1),
      (fourcc ''ABGR'', 4, 1), (fourcc ''BGRA'', 4, 1), (fourcc ''BGR4'', 4, 1), (fourcc ''RGB2'', 2, 1),
      (fourcc ''RGB3'', 3, 1), (fourcc ''BGR2'', 2, 1), (fourcc ''BGR3'', 3, 1), (fourcc ''YUYV'', 2, 1),
      (fourcc ''YVYU'', 2, 1), (fourcc ''UYVY'', 2, 1), (fourcc ''VYUY'', 2, 1),
      (MMAL_ENCODING_UNKNOWN, 0, 0)]"

text \<open>The search loop, up to the sentinel.\<close>

fun find_pitch :: "(u32 \<times> u32 \<times> u32) list \<Rightarrow> u32 \<Rightarrow> (u32 \<times> u32) option" where
  "find_pitch [] e = None"
| "find_pitch ((e', n, d) # t) e =
     (if e' = MMAL_ENCODING_UNKNOWN then None
      else if e' = e then Some (n, d) else find_pitch t e)"

definition mmal_encoding_stride_to_width :: "u32 \<Rightarrow> u32 \<Rightarrow> u32" where
  "mmal_encoding_stride_to_width encoding stride =
     (case find_pitch pixel_pitch encoding of None \<Rightarrow> 0 | Some (n, d) \<Rightarrow> (d * stride) div n)"

definition mmal_encoding_width_to_stride :: "u32 \<Rightarrow> u32 \<Rightarrow> u32" where
  "mmal_encoding_width_to_stride encoding width =
     (case find_pitch pixel_pitch encoding of None \<Rightarrow> 0 | Some (n, d) \<Rightarrow> (n * width) div d)"

lemma find_pitch_range: "find_pitch pixel_pitch e = Some (n, d) \<Longrightarrow> d = 1 \<and> n \<in> {1, 2, 3, 4}"
proof -
  have "find_pitch t e = Some (n, d) \<Longrightarrow> (e, n, d) \<in> set t" for t
    by (induction t e rule: find_pitch.induct) (auto split: if_splits)
  then show "find_pitch pixel_pitch e = Some (n, d) \<Longrightarrow> d = 1 \<and> n \<in> {1, 2, 3, 4}"
    by (fastforce simp: pixel_pitch_def split: if_splits)
qed

text \<open>Converting a width to a stride and back is exact while the stride fits in 32 bits.\<close>

lemma width_stride_roundtrip:
  assumes "find_pitch pixel_pitch e = Some (n, d)" and "4 * unat w < 2 ^ 32"
  shows "mmal_encoding_stride_to_width e (mmal_encoding_width_to_stride e w) = w"
    and "unat (mmal_encoding_width_to_stride e w) = unat n * unat w"
proof -
  have nd: "d = 1" "unat n \<in> {1, 2, 3, 4}" using find_pitch_range [OF assms(1)] by auto
  then have u: "unat (n * w) = unat n * unat w" using assms(2) by (auto simp: unat_word_ariths)
  have nz: "0 < unat n" using nd by auto
  have "unat ((n * w) div n) = unat w" using nz by (simp add: unat_div u)
  then have "(n * w) div n = w" by (simp add: word_unat_eq_iff)
  then show "mmal_encoding_stride_to_width e (mmal_encoding_width_to_stride e w) = w"
    and "unat (mmal_encoding_width_to_stride e w) = unat n * unat w"
    using assms(1) nd(1) u
    by (simp_all add: mmal_encoding_stride_to_width_def mmal_encoding_width_to_stride_def)
qed

section \<open>Ports and four-character codes\<close>

record component_ports =
  cp_input :: "addr list"
  cp_output :: "addr list"
  cp_clock :: "addr list"
  cp_control :: addr

fun port_list :: "component_ports \<Rightarrow> port_type \<Rightarrow> addr list option" where
  "port_list c MMAL_PORT_TYPE_INPUT = Some (cp_input c)"
| "port_list c MMAL_PORT_TYPE_OUTPUT = Some (cp_output c)"
| "port_list c MMAL_PORT_TYPE_CLOCK = Some (cp_clock c)"
| "port_list c MMAL_PORT_TYPE_CONTROL = Some [cp_control c]"
| "port_list c _ = None"

definition mmal_util_get_port :: "component_ports \<Rightarrow> port_type \<Rightarrow> nat \<Rightarrow> ptr" where
  "mmal_util_get_port c t index =
     (case port_list c t of
        None \<Rightarrow> None
      | Some list \<Rightarrow> if index < length list then Some (list ! index) else None)"

text \<open>The bytes of the buffer that \<open>mmal_4cc_to_string\<close> writes, with the terminator.\<close>

definition mmal_4cc_to_string :: "nat \<Rightarrow> u32 \<Rightarrow> 8 word list" where
  "mmal_4cc_to_string len cc =
     (if len < 5 then [0]
      else if cc \<noteq> 0 then
        [ucast cc, ucast (drop_bit 8 cc), ucast (drop_bit 16 cc), ucast (drop_bit 24 cc), 0]
      else [0x3c, 0x30, 0x3e, 0])"

lemma fourcc_bytes:
  "ucast (MMAL_FOURCC a b c d) = a"
  "ucast (drop_bit 8 (MMAL_FOURCC a b c d)) = b"
  "ucast (drop_bit 16 (MMAL_FOURCC a b c d)) = c"
  "ucast (drop_bit 24 (MMAL_FOURCC a b c d)) = d"
  by (rule bit_word_eqI; auto simp: MMAL_FOURCC_def bit_simps dest: bit_imp_le_length)+

lemma fourcc_string:
  assumes "MMAL_FOURCC a b c d \<noteq> 0" and "5 \<le> len"
  shows "mmal_4cc_to_string len (MMAL_FOURCC a b c d) = [a, b, c, d, 0]"
  using assms by (simp add: mmal_4cc_to_string_def fourcc_bytes)

section \<open>Parameters\<close>

text \<open>A parameter: the header and the 32-bit words behind it.\<close>

record parameter =
  pm_id :: u32
  pm_size :: u32
  pm_data :: "u32 list"

definition SIZEOF_PARAMETER_HEADER :: u32 where "SIZEOF_PARAMETER_HEADER = 8"

text \<open>What \<open>mmal_port_parameter_set\<close> and \<open>mmal_port_parameter_get\<close> do with it.\<close>

type_synonym 's set_op = "parameter \<Rightarrow> 's \<Rightarrow> mmal_status \<times> 's"
type_synonym 's get_op = "parameter \<Rightarrow> 's \<Rightarrow> mmal_status \<times> parameter \<times> 's"

definition words_param :: "u32 \<Rightarrow> u32 list \<Rightarrow> parameter" where
  "words_param i ws = \<lparr>pm_id = i, pm_size = SIZEOF_PARAMETER_HEADER + 4 * of_nat (length ws), pm_data = ws\<rparr>"

definition words_of_u64 :: "u64 \<Rightarrow> u32 list" where
  "words_of_u64 v = [ucast v, ucast (drop_bit 32 v)]"

fun u64_of_words :: "u32 list \<Rightarrow> u64" where
  "u64_of_words (lo # hi # _) = ucast lo OR push_bit 32 (ucast hi)"
| "u64_of_words _ = 0"

lemma u64_words_roundtrip [simp]: "u64_of_words (words_of_u64 v) = v"
  by (rule bit_word_eqI) (auto simp: words_of_u64_def bit_simps)

definition mmal_port_parameter_set_uint32 :: "'s set_op \<Rightarrow> u32 \<Rightarrow> u32 \<Rightarrow> 's \<Rightarrow> mmal_status \<times> 's" where
  "mmal_port_parameter_set_uint32 pset i v s = pset (words_param i [v]) s"

definition mmal_port_parameter_get_uint32 ::
  "'s get_op \<Rightarrow> u32 \<Rightarrow> u32 \<Rightarrow> 's \<Rightarrow> mmal_status \<times> u32 \<times> 's" where
  "mmal_port_parameter_get_uint32 pget i v s =
     (case pget (words_param i [0]) s of
        (st, p, s') \<Rightarrow> (st, if st = MMAL_SUCCESS then pm_data p ! 0 else v, s'))"

definition mmal_port_parameter_set_int32 :: "'s set_op \<Rightarrow> u32 \<Rightarrow> int \<Rightarrow> 's \<Rightarrow> mmal_status \<times> 's" where
  "mmal_port_parameter_set_int32 pset i v s = pset (words_param i [word_of_int v]) s"

definition mmal_port_parameter_get_int32 ::
  "'s get_op \<Rightarrow> u32 \<Rightarrow> int \<Rightarrow> 's \<Rightarrow> mmal_status \<times> int \<times> 's" where
  "mmal_port_parameter_get_int32 pget i v s =
     (case pget (words_param i [0]) s of
        (st, p, s') \<Rightarrow> (st, if st = MMAL_SUCCESS then sint (pm_data p ! 0) else v, s'))"

text \<open>\<open>MMAL_BOOL_T\<close> is an \<open>int32_t\<close>.\<close>

definition mmal_port_parameter_set_boolean :: "'s set_op \<Rightarrow> u32 \<Rightarrow> int \<Rightarrow> 's \<Rightarrow> mmal_status \<times> 's" where
  "mmal_port_parameter_set_boolean pset i v s = pset (words_param i [word_of_int v]) s"

definition mmal_port_parameter_get_boolean ::
  "'s get_op \<Rightarrow> u32 \<Rightarrow> int \<Rightarrow> 's \<Rightarrow> mmal_status \<times> int \<times> 's" where
  "mmal_port_parameter_get_boolean pget i v s =
     (case pget (words_param i [0]) s of
        (st, p, s') \<Rightarrow> (st, if st = MMAL_SUCCESS then sint (pm_data p ! 0) else v, s'))"

definition mmal_port_parameter_set_uint64 :: "'s set_op \<Rightarrow> u32 \<Rightarrow> u64 \<Rightarrow> 's \<Rightarrow> mmal_status \<times> 's" where
  "mmal_port_parameter_set_uint64 pset i v s = pset (words_param i (words_of_u64 v)) s"

definition mmal_port_parameter_get_uint64 ::
  "'s get_op \<Rightarrow> u32 \<Rightarrow> u64 \<Rightarrow> 's \<Rightarrow> mmal_status \<times> u64 \<times> 's" where
  "mmal_port_parameter_get_uint64 pget i v s =
     (case pget (words_param i [0, 0]) s of
        (st, p, s') \<Rightarrow> (st, if st = MMAL_SUCCESS then u64_of_words (pm_data p) else v, s'))"

definition mmal_port_parameter_set_int64 :: "'s set_op \<Rightarrow> u32 \<Rightarrow> int \<Rightarrow> 's \<Rightarrow> mmal_status \<times> 's" where
  "mmal_port_parameter_set_int64 pset i v s = pset (words_param i (words_of_u64 (word_of_int v))) s"

definition mmal_port_parameter_get_int64 ::
  "'s get_op \<Rightarrow> u32 \<Rightarrow> int \<Rightarrow> 's \<Rightarrow> mmal_status \<times> int \<times> 's" where
  "mmal_port_parameter_get_int64 pget i v s =
     (case pget (words_param i [0, 0]) s of
        (st, p, s') \<Rightarrow> (st, if st = MMAL_SUCCESS then sint (u64_of_words (pm_data p)) else v, s'))"

definition mmal_port_parameter_set_rational ::
  "'s set_op \<Rightarrow> u32 \<Rightarrow> mmal_rational \<Rightarrow> 's \<Rightarrow> mmal_status \<times> 's" where
  "mmal_port_parameter_set_rational pset i v s =
     pset (words_param i [word_of_int (num v), word_of_int (den v)]) s"

definition mmal_port_parameter_get_rational ::
  "'s get_op \<Rightarrow> u32 \<Rightarrow> mmal_rational \<Rightarrow> 's \<Rightarrow> mmal_status \<times> mmal_rational \<times> 's" where
  "mmal_port_parameter_get_rational pget i v s =
     (case pget (words_param i [0, 0]) s of
        (st, p, s') \<Rightarrow> (st, if st = MMAL_SUCCESS
           then \<lparr>num = sint (pm_data p ! 0), den = sint (pm_data p ! 1)\<rparr> else v, s'))"

text \<open>A byte parameter: the header and the bytes behind it. \<open>calloc_ok\<close>: whether \<open>calloc\<close> succeeds;
  the copy is freed in any case.\<close>

record bytes_parameter =
  bp_id :: u32
  bp_size :: u32
  bp_data :: "8 word list"

definition mmal_port_parameter_set_bytes ::
  "(bytes_parameter \<Rightarrow> 's \<Rightarrow> mmal_status \<times> 's) \<Rightarrow> bool \<Rightarrow> u32 \<Rightarrow> 8 word list \<Rightarrow> 's \<Rightarrow> mmal_status \<times> 's" where
  "mmal_port_parameter_set_bytes pset calloc_ok i bs s =
     (if \<not> calloc_ok then (MMAL_ENOMEM, s)
      else pset \<lparr>bp_id = i, bp_size = SIZEOF_PARAMETER_HEADER + of_nat (length bs), bp_data = bs\<rparr> s)"

text \<open>The value is a C string, without its terminator.\<close>

definition mmal_port_parameter_set_string ::
  "(bytes_parameter \<Rightarrow> 's \<Rightarrow> mmal_status \<times> 's) \<Rightarrow> bool \<Rightarrow> u32 \<Rightarrow> 8 word list \<Rightarrow> 's \<Rightarrow> mmal_status \<times> 's" where
  "mmal_port_parameter_set_string pset calloc_ok i str s =
     (if \<not> calloc_ok then (MMAL_ENOMEM, s)
      else pset \<lparr>bp_id = i, bp_size = SIZEOF_PARAMETER_HEADER + of_nat (length str) + 1,
                 bp_data = str @ [0]\<rparr> s)"

text \<open>
  \<open>mmal_port_parameter_alloc_get\<close>: the outcomes of the two \<open>vcos_calloc\<close>s are arguments.
  The results are the parameter, the status, the number of blocks that are still allocated, and the
  port's state.
\<close>

definition mmal_port_parameter_alloc_get ::
  "'s get_op \<Rightarrow> bool \<Rightarrow> bool \<Rightarrow> u32 \<Rightarrow> u32 \<Rightarrow> 's \<Rightarrow> parameter option \<times> mmal_status \<times> nat \<times> 's" where
  "mmal_port_parameter_alloc_get pget calloc1 calloc2 i sz s =
     (let sz = (if sz < SIZEOF_PARAMETER_HEADER then SIZEOF_PARAMETER_HEADER else sz);
          zeros = (\<lambda>sz. replicate (unat (sz - SIZEOF_PARAMETER_HEADER) div 4) 0)
      in if \<not> calloc1 then (None, MMAL_ENOMEM, 0, s)
         else
           (case pget \<lparr>pm_id = i, pm_size = sz, pm_data = zeros sz\<rparr> s of
              (status, p, s1) \<Rightarrow>
                if status = MMAL_ENOSPC then
                  if \<not> calloc2 then (None, MMAL_ENOMEM, 0, s1)
                  else
                    (case pget \<lparr>pm_id = i, pm_size = pm_size p, pm_data = zeros (pm_size p)\<rparr> s1 of
                       (status, p, s2) \<Rightarrow>
                         if status \<noteq> MMAL_SUCCESS then (None, status, 0, s2) else (Some p, status, 1, s2))
                else if status \<noteq> MMAL_SUCCESS then (None, status, 0, s1)
                else (Some p, status, 1, s1)))"

lemma parameter_alloc_get_result:
  assumes "mmal_port_parameter_alloc_get pget c1 c2 i sz s = (r, status, blocks, s')"
  shows "r \<noteq> None \<longleftrightarrow> status = MMAL_SUCCESS" and "blocks = (if r = None then 0 else 1)"
  using assms
  by (auto simp: mmal_port_parameter_alloc_get_def Let_def split: prod.splits if_splits)

section \<open>Ports that store parameters\<close>

text \<open>\<open>stores pset pget\<close>: what was set is what a get of the same parameter and size returns.\<close>

definition stores :: "'s set_op \<Rightarrow> 's get_op \<Rightarrow> bool" where
  "stores pset pget \<longleftrightarrow> (\<forall>p q s s'. pset p s = (MMAL_SUCCESS, s') \<longrightarrow> pm_id q = pm_id p \<longrightarrow>
     pm_size q = pm_size p \<longrightarrow> pget q s' = (MMAL_SUCCESS, p, s'))"

lemma storesD:
  "stores pset pget \<Longrightarrow> pset (words_param i ws) s = (MMAL_SUCCESS, s') \<Longrightarrow> length vs = length ws \<Longrightarrow>
   pget (words_param i vs) s' = (MMAL_SUCCESS, words_param i ws, s')"
  by (simp add: stores_def words_param_def)

lemma words_param_data [simp]: "pm_data (words_param i ws) = ws"
  by (simp add: words_param_def)

lemma sint_i32 [simp]: "in_i32 v \<Longrightarrow> sint (word_of_int v :: u32) = v"
  by (simp add: in_i32_def signed_of_int signed_take_bit_int_eq_self)

lemma uint32_roundtrip:
  assumes "stores pset pget" and "mmal_port_parameter_set_uint32 pset i v s = (MMAL_SUCCESS, s')"
  shows "mmal_port_parameter_get_uint32 pget i w s' = (MMAL_SUCCESS, v, s')"
  using storesD [OF assms(1), of i "[v]" s s' "[0]"] assms(2)
  by (simp add: mmal_port_parameter_set_uint32_def mmal_port_parameter_get_uint32_def)

lemma uint64_roundtrip:
  assumes "stores pset pget" and "mmal_port_parameter_set_uint64 pset i v s = (MMAL_SUCCESS, s')"
  shows "mmal_port_parameter_get_uint64 pget i w s' = (MMAL_SUCCESS, v, s')"
proof -
  have "length [0, 0] = length (words_of_u64 v)" by (simp add: words_of_u64_def)
  from storesD [OF assms(1) _ this] assms(2) show ?thesis
    by (simp add: mmal_port_parameter_set_uint64_def mmal_port_parameter_get_uint64_def)
qed

lemma int64_roundtrip:
  assumes "stores pset pget" and "in_i64 v"
    and "mmal_port_parameter_set_int64 pset i v s = (MMAL_SUCCESS, s')"
  shows "mmal_port_parameter_get_int64 pget i w s' = (MMAL_SUCCESS, v, s')"
proof -
  have v: "sint (word_of_int v :: u64) = v"
    using assms(2) by (simp add: in_i64_def signed_of_int signed_take_bit_int_eq_self)
  have "length [0, 0] = length (words_of_u64 (word_of_int v))" by (simp add: words_of_u64_def)
  from storesD [OF assms(1) _ this] assms(3) v show ?thesis
    by (simp add: mmal_port_parameter_set_int64_def mmal_port_parameter_get_int64_def)
qed

lemma rational_roundtrip:
  assumes "stores pset pget" and "in_i32 (num v)" and "in_i32 (den v)"
    and "mmal_port_parameter_set_rational pset i v s = (MMAL_SUCCESS, s')"
  shows "mmal_port_parameter_get_rational pget i w s' = (MMAL_SUCCESS, v, s')"
  using storesD [OF assms(1), of i "[word_of_int (num v), word_of_int (den v)]" s s' "[0, 0]"] assms
  by (simp add: mmal_port_parameter_set_rational_def mmal_port_parameter_get_rational_def)

section \<open>Properties\<close>

text \<open>Parameters round trip: over any port that returns what was stored, the typed getters
  return exactly what the typed setters sent, for 32- and 64-bit words, signed 64-bit integers and
  rationals, though the parameter's payload is laid out in 32-bit words.\<close>

theorem parameter_roundtrip:
  assumes "stores pset pget" and "in_i64 v" and "in_i32 (num r)" and "in_i32 (den r)"
    and "mmal_port_parameter_set_uint32 pset i1 u s0 = (MMAL_SUCCESS, s1)"
    and "mmal_port_parameter_set_uint64 pset i2 w s0 = (MMAL_SUCCESS, s2)"
    and "mmal_port_parameter_set_int64 pset i3 v s0 = (MMAL_SUCCESS, s3)"
    and "mmal_port_parameter_set_rational pset i4 r s0 = (MMAL_SUCCESS, s4)"
  shows "mmal_port_parameter_get_uint32 pget i1 x1 s1 = (MMAL_SUCCESS, u, s1)
    \<and> mmal_port_parameter_get_uint64 pget i2 x2 s2 = (MMAL_SUCCESS, w, s2)
    \<and> mmal_port_parameter_get_int64 pget i3 x3 s3 = (MMAL_SUCCESS, v, s3)
    \<and> mmal_port_parameter_get_rational pget i4 x4 s4 = (MMAL_SUCCESS, r, s4)"
  using uint32_roundtrip [OF assms(1,5)] uint64_roundtrip [OF assms(1,6)]
    int64_roundtrip [OF assms(1,2,7)] rational_roundtrip [OF assms(1,3,4,8)] by blast

definition map_set :: "(u32 \<rightharpoonup> parameter) set_op" where
  "map_set p s = (MMAL_SUCCESS, s(pm_id p \<mapsto> p))"

definition map_get :: "(u32 \<rightharpoonup> parameter) get_op" where
  "map_get q s = (case s (pm_id q) of
     None \<Rightarrow> (MMAL_EINVAL, q, s)
   | Some p \<Rightarrow> if pm_size p = pm_size q then (MMAL_SUCCESS, p, s) else (MMAL_ENOSPC, q, s))"

theorem parameter_roundtrip_witness:
  "\<exists>s1 s2. mmal_port_parameter_set_int64 map_set 7 (- 5000000000) Map.empty = (MMAL_SUCCESS, s1)
     \<and> mmal_port_parameter_get_int64 map_get 7 0 s1 = (MMAL_SUCCESS, - 5000000000, s1)
     \<and> mmal_port_parameter_set_rational map_set 8 \<lparr>num = - 3, den = 4\<rparr> Map.empty = (MMAL_SUCCESS, s2)
     \<and> mmal_port_parameter_get_rational map_get 8 \<lparr>num = 0, den = 1\<rparr> s2
         = (MMAL_SUCCESS, \<lparr>num = - 3, den = 4\<rparr>, s2)"
proof -
  have st: "stores map_set map_get" by (simp add: stores_def map_set_def map_get_def)
  have r: "in_i64 (- 5000000000)" "in_i32 (num \<lparr>num = - 3, den = 4\<rparr>)" "in_i32 (den \<lparr>num = - 3, den = 4\<rparr>)"
    by (simp_all add: in_i64_def in_i32_def)
  let ?s = "\<lambda>p. [pm_id p \<mapsto> p]"
  have e: "mmal_port_parameter_set_uint32 map_set 5 9 Map.empty = (MMAL_SUCCESS, ?s (words_param 5 [9]))"
    "mmal_port_parameter_set_uint64 map_set 6 9 Map.empty = (MMAL_SUCCESS, ?s (words_param 6 (words_of_u64 9)))"
    "mmal_port_parameter_set_int64 map_set 7 (- 5000000000) Map.empty
       = (MMAL_SUCCESS, ?s (words_param 7 (words_of_u64 (word_of_int (- 5000000000)))))"
    "mmal_port_parameter_set_rational map_set 8 \<lparr>num = - 3, den = 4\<rparr> Map.empty
       = (MMAL_SUCCESS, ?s (words_param 8 [word_of_int (- 3), word_of_int 4]))"
    by (simp_all add: mmal_port_parameter_set_uint32_def mmal_port_parameter_set_uint64_def
        mmal_port_parameter_set_int64_def mmal_port_parameter_set_rational_def map_set_def)
  from parameter_roundtrip [OF st r e] e(3,4) show ?thesis by blast
qed

text \<open>For every encoding of the pitch table, converting a width to a stride and back is exact as
  long as the stride fits in 32 bits; for unknown encodings both conversions give 0.\<close>

lemma width_stride_inverse:
  assumes "4 * unat w < 2 ^ 32"
  shows "(case find_pitch pixel_pitch e of
      None \<Rightarrow> mmal_encoding_width_to_stride e w = 0 \<and> mmal_encoding_stride_to_width e w = 0
    | Some (n, d) \<Rightarrow> mmal_encoding_stride_to_width e (mmal_encoding_width_to_stride e w) = w
        \<and> unat (mmal_encoding_width_to_stride e w) = unat n * unat w)"
proof (cases "find_pitch pixel_pitch e")
  case None
  then show ?thesis
    by (simp add: mmal_encoding_width_to_stride_def mmal_encoding_stride_to_width_def)
next
  case (Some nd)
  then show ?thesis using width_stride_roundtrip [of e "fst nd" "snd nd" w] assms
    by (cases nd) simp
qed

lemma width_stride_inverse_witness:
  "mmal_encoding_stride_to_width (fourcc ''RGB3'') (mmal_encoding_width_to_stride (fourcc ''RGB3'') 641) = 641"
proof -
  have "find_pitch pixel_pitch (fourcc ''RGB3'') = Some (3, 1)" by code_simp
  with width_stride_inverse [of 641 "fourcc ''RGB3''"] show ?thesis by simp
qed

text \<open>\<open>mmal_port_parameter_alloc_get\<close> never leaks: over every port and every outcome of the two
  allocations, it returns a parameter exactly when its status is success, and exactly that
  parameter's block is still allocated.\<close>

lemma parameter_alloc_get_leaks_nothing:
  assumes "mmal_port_parameter_alloc_get pget calloc1 calloc2 i sz s = (r, status, blocks, s')"
  shows "(r \<noteq> None \<longleftrightarrow> status = MMAL_SUCCESS) \<and> blocks = (if r = None then 0 else 1)
    \<and> (calloc1 \<and> (\<exists>q s1. pget \<lparr>pm_id = i, pm_size = max sz 8,
          pm_data = replicate (unat (max sz 8 - 8) div 4) 0\<rparr> s = (MMAL_SUCCESS, q, s1))
        \<longrightarrow> status = MMAL_SUCCESS)"
  using parameter_alloc_get_result [OF assms] assms
  by (auto simp: mmal_port_parameter_alloc_get_def SIZEOF_PARAMETER_HEADER_def Let_def max_def
      split: if_splits)

lemma parameter_alloc_get_leaks_nothing_witness:
  "mmal_port_parameter_alloc_get map_get True True 7 16 [7 \<mapsto> words_param 7 [1, 2, 3]]
     = (None, MMAL_ENOSPC, 0, [7 \<mapsto> words_param 7 [1, 2, 3]])"
proof -
  let ?s = "[7 \<mapsto> words_param 7 [1, 2, 3]]"
  obtain r status blocks s' where e: "mmal_port_parameter_alloc_get map_get True True 7 16 ?s
      = (r, status, blocks, s')" by (metis prod_cases3 surj_pair)
  have "status = MMAL_ENOSPC \<and> s' = ?s"
    using e by (auto simp: mmal_port_parameter_alloc_get_def map_get_def words_param_def
        SIZEOF_PARAMETER_HEADER_def Let_def split: if_splits)
  with parameter_alloc_get_leaks_nothing [OF e] e show ?thesis by auto
qed

end
