(* ===== verification/Mmal_List.thy ===== *)
theory Mmal_List
  imports Mmal_Prelude
begin

text \<open>
  Doubly linked lists (\<^verbatim>\<open>util/mmal_list.c\<close>): elements linked through \<open>next\<close> and
  \<open>prev\<close> in a heap, and the operations on both ends and in the middle. The list's lock makes each
  operation atomic. The clock keeps its pending requests in such a list.
\<close>

section \<open>The list and its operations\<close>

record mmal_list_element =
  le_next :: ptr
  le_prev :: ptr

type_synonym elements = "addr \<Rightarrow> mmal_list_element"

record mmal_list =
  ml_length :: u32
  ml_first :: ptr
  ml_last :: ptr

type_synonym list_state = "mmal_list \<times> elements"

definition set_le_next :: "addr \<Rightarrow> ptr \<Rightarrow> elements \<Rightarrow> elements" where
  "set_le_next a p h = h(a := (h a)\<lparr>le_next := p\<rparr>)"

definition set_le_prev :: "addr \<Rightarrow> ptr \<Rightarrow> elements \<Rightarrow> elements" where
  "set_le_prev a p h = h(a := (h a)\<lparr>le_prev := p\<rparr>)"

definition mmal_list_create :: "bool \<Rightarrow> vcos_status \<Rightarrow> mmal_list option" where
  "mmal_list_create malloc_ok mutex_st =
     (if \<not> malloc_ok \<or> mutex_st \<noteq> VCOS_SUCCESS then None
      else Some \<lparr>ml_length = 0, ml_first = None, ml_last = None\<rparr>)"

fun mmal_list_pop_back :: "list_state \<Rightarrow> ptr \<times> list_state" where
  "mmal_list_pop_back (l, h) =
     (case ml_last l of
        None \<Rightarrow> (None, (l, h))
      | Some e \<Rightarrow>
          let l1 = l\<lparr>ml_length := ml_length l - 1, ml_last := le_prev (h e)\<rparr>;
              (l2, h2) = (case ml_last l1 of
                 Some b \<Rightarrow> (l1, set_le_next b None h)
               | None \<Rightarrow> (l1\<lparr>ml_first := None\<rparr>, h))
          in (Some e, (l2, set_le_next e None (set_le_prev e None h2))))"

fun mmal_list_pop_front :: "list_state \<Rightarrow> ptr \<times> list_state" where
  "mmal_list_pop_front (l, h) =
     (case ml_first l of
        None \<Rightarrow> (None, (l, h))
      | Some e \<Rightarrow>
          let l1 = l\<lparr>ml_length := ml_length l - 1, ml_first := le_next (h e)\<rparr>;
              (l2, h2) = (case ml_first l1 of
                 Some b \<Rightarrow> (l1, set_le_prev b None h)
               | None \<Rightarrow> (l1\<lparr>ml_last := None\<rparr>, h))
          in (Some e, (l2, set_le_next e None (set_le_prev e None h2))))"

fun mmal_list_push_front :: "list_state \<Rightarrow> addr \<Rightarrow> list_state" where
  "mmal_list_push_front (l, h) element =
     (let l1 = l\<lparr>ml_length := ml_length l + 1\<rparr>;
          h1 = set_le_next element (ml_first l1) (set_le_prev element None h);
          (l2, h2) = (case ml_first l1 of
             Some f \<Rightarrow> (l1, set_le_prev f (Some element) h1)
           | None \<Rightarrow> (l1\<lparr>ml_last := Some element\<rparr>, h1))
      in (l2\<lparr>ml_first := Some element\<rparr>, h2))"

fun mmal_list_push_back :: "list_state \<Rightarrow> addr \<Rightarrow> list_state" where
  "mmal_list_push_back (l, h) element =
     (let l1 = l\<lparr>ml_length := ml_length l + 1\<rparr>;
          h1 = set_le_prev element (ml_last l1) (set_le_next element None h);
          (l2, h2) = (case ml_last l1 of
             Some b \<Rightarrow> (l1, set_le_next b (Some element) h1)
           | None \<Rightarrow> (l1\<lparr>ml_first := Some element\<rparr>, h1))
      in (l2\<lparr>ml_last := Some element\<rparr>, h2))"

text \<open>
  The loop of \<open>mmal_list_insert\<close>; a walk that never ends is \<open>None\<close>, as is following the null
  \<open>prev\<close> of an element that is not the first.
\<close>

partial_function (option) insert_loop ::
  "(addr \<Rightarrow> addr \<Rightarrow> bool) \<Rightarrow> addr \<Rightarrow> ptr \<Rightarrow> list_state \<Rightarrow> list_state option" where
  "insert_loop compare element cur s =
     (case cur of
        None \<Rightarrow> Some (mmal_list_push_back s element)
      | Some c \<Rightarrow>
          if compare element c then
            let (l, h) = s; l1 = l\<lparr>ml_length := ml_length l + 1\<rparr> in
            Option.bind
              (if ml_first l1 = Some c then Some (l1\<lparr>ml_first := Some element\<rparr>, h)
               else map_option (\<lambda>p. (l1, set_le_next p (Some element) h)) (le_prev (h c)))
              (\<lambda>(l2, h2).
                 let h3 = set_le_prev element (le_prev (h2 c)) h2;
                     h4 = set_le_next element (Some c) h3
                 in Some (l2, set_le_prev c (Some element) h4))
          else insert_loop compare element (le_next (snd s c)) s)"

definition mmal_list_insert ::
  "(addr \<Rightarrow> addr \<Rightarrow> bool) \<Rightarrow> list_state \<Rightarrow> addr \<Rightarrow> list_state option" where
  "mmal_list_insert compare s element =
     (if ml_first (fst s) = None then Some (mmal_list_push_front s element)
      else insert_loop compare element (ml_first (fst s)) s)"

section \<open>Representation\<close>

text \<open>\<open>dseg h pv p xs e nx\<close>: from \<open>p\<close>, whose predecessor is \<open>pv\<close>, the elements
  \<open>xs\<close> up to the last one \<open>e\<close>, followed by \<open>nx\<close>.\<close>

fun dseg :: "elements \<Rightarrow> ptr \<Rightarrow> ptr \<Rightarrow> addr list \<Rightarrow> ptr \<Rightarrow> ptr \<Rightarrow> bool" where
  "dseg h pv p [] e nx \<longleftrightarrow> p = nx \<and> e = pv"
| "dseg h pv p (x # xs) e nx \<longleftrightarrow> p = Some x \<and> le_prev (h x) = pv \<and> dseg h (Some x) (le_next (h x)) xs e nx"

definition list_repr :: "list_state \<Rightarrow> addr list \<Rightarrow> bool" where
  "list_repr s xs \<longleftrightarrow> dseg (snd s) None (ml_first (fst s)) xs (ml_last (fst s)) None \<and> distinct xs
     \<and> ml_length (fst s) = of_nat (length xs)"

lemma dseg_append [simp]:
  "dseg h pv p (xs @ ys) e nx \<longleftrightarrow> (\<exists>m r. dseg h pv p xs m r \<and> dseg h m r ys e nx)"
  by (induction xs arbitrary: pv p) auto

lemma dseg_cong:
  "(\<And>a. a \<in> set xs \<Longrightarrow> h' a = h a) \<Longrightarrow> dseg h' pv p xs e nx = dseg h pv p xs e nx"
  by (induction xs arbitrary: pv p) auto

lemma dseg_other [simp]: "a \<notin> set xs \<Longrightarrow> dseg (h(a := v)) pv p xs e nx = dseg h pv p xs e nx"
  by (rule dseg_cong) auto

lemma dseg_None_iff: "dseg h pv p xs e None \<Longrightarrow> p = None \<longleftrightarrow> xs = []"
  by (cases xs) auto

lemma dseg_last_None: "dseg h None p xs e nx \<Longrightarrow> e = None \<longleftrightarrow> xs = []"
  by (cases xs rule: rev_cases) auto

lemma dseg_last: "dseg h pv p xs e nx \<Longrightarrow> xs \<noteq> [] \<Longrightarrow> e = Some (last xs)"
  by (cases xs rule: rev_cases) auto

lemmas le_upd_defs = set_le_next_def set_le_prev_def

lemma list_repr_create [repr_intros]: "mmal_list_create ok st = Some l \<Longrightarrow> list_repr (l, h) []"
  by (auto simp: mmal_list_create_def list_repr_def split: if_splits)

lemma list_repr_distinct: "list_repr s xs \<Longrightarrow> distinct xs"
  by (simp add: list_repr_def)

lemma list_repr_push_front [repr_intros]:
  assumes "list_repr s xs" and "e \<notin> set xs"
  shows "list_repr (mmal_list_push_front s e) (e # xs)"
proof -
  obtain l h where s: "s = (l, h)" by force
  show ?thesis
  proof (cases xs)
    case Nil
    with assms s show ?thesis by (simp add: list_repr_def le_upd_defs)
  next
    case (Cons x ys)
    with assms s show ?thesis by (auto simp: list_repr_def le_upd_defs)
  qed
qed

lemma list_repr_push_back [repr_intros]:
  assumes "list_repr s xs" and "e \<notin> set xs"
  shows "list_repr (mmal_list_push_back s e) (xs @ [e])"
proof -
  obtain l h where s: "s = (l, h)" by force
  show ?thesis
  proof (cases xs rule: rev_cases)
    case Nil
    with assms s show ?thesis by (simp add: list_repr_def le_upd_defs)
  next
    case (snoc ys y)
    with assms s show ?thesis by (auto simp: list_repr_def le_upd_defs)
  qed
qed

lemma list_pop_front_Nil: "list_repr s [] \<Longrightarrow> mmal_list_pop_front s = (None, s)"
  by (cases s) (simp add: list_repr_def)

lemma list_pop_back_Nil: "list_repr s [] \<Longrightarrow> mmal_list_pop_back s = (None, s)"
  by (cases s) (simp add: list_repr_def)

lemma list_pop_front_Cons:
  assumes "list_repr s (x # xs)"
  shows "\<exists>s'. mmal_list_pop_front s = (Some x, s') \<and> list_repr s' xs"
proof -
  obtain l h where s: "s = (l, h)" by force
  show ?thesis
  proof (cases xs)
    case Nil
    with assms s show ?thesis by (simp add: list_repr_def le_upd_defs)
  next
    case (Cons y ys)
    with assms s show ?thesis by (auto simp: list_repr_def le_upd_defs)
  qed
qed

lemma list_pop_back_snoc:
  assumes "list_repr s (xs @ [x])"
  shows "\<exists>s'. mmal_list_pop_back s = (Some x, s') \<and> list_repr s' xs"
proof -
  obtain l h where s: "s = (l, h)" by force
  show ?thesis
  proof (cases xs rule: rev_cases)
    case Nil
    with assms s show ?thesis by (simp add: list_repr_def le_upd_defs)
  next
    case (snoc ys y)
    with assms s show ?thesis by (auto simp: list_repr_def le_upd_defs)
  qed
qed

section \<open>Insertion\<close>

text \<open>The specification of the insertion: in front of the first element that is larger.\<close>

definition insert_before :: "(addr \<Rightarrow> addr \<Rightarrow> bool) \<Rightarrow> addr \<Rightarrow> addr list \<Rightarrow> addr list" where
  "insert_before compare e xs =
     takeWhile (\<lambda>x. \<not> compare e x) xs @ e # dropWhile (\<lambda>x. \<not> compare e x) xs"

lemma insert_loop_at:
  assumes "list_repr (l, h) (xs @ x # ys)" and "e \<notin> set (xs @ x # ys)" and "cmp e x"
  shows "\<exists>s'. insert_loop cmp e (Some x) (l, h) = Some s' \<and> list_repr s' (xs @ e # x # ys)"
proof (cases xs rule: rev_cases)
  case Nil
  with assms show ?thesis
    by (subst insert_loop.simps) (auto simp: list_repr_def le_upd_defs)
next
  case (snoc zs z)
  with assms have "ml_first l \<noteq> Some x" by (cases zs) (auto simp: list_repr_def)
  with assms snoc show ?thesis
    by (subst insert_loop.simps) (auto simp: list_repr_def le_upd_defs)
qed

lemma insert_loop_repr:
  assumes "list_repr s (xs @ ys)" and "e \<notin> set (xs @ ys)"
    and "cur = (case ys of [] \<Rightarrow> None | y # _ \<Rightarrow> Some y)"
  shows "\<exists>s'. insert_loop cmp e cur s = Some s' \<and> list_repr s' (xs @ insert_before cmp e ys)"
  using assms
proof (induction ys arbitrary: xs cur)
  case Nil
  then show ?case
    using list_repr_push_back [of s xs e]
    by (subst insert_loop.simps) (simp add: insert_before_def)
next
  case (Cons y ys)
  obtain l h where s: "s = (l, h)" by force
  show ?case
  proof (cases "cmp e y")
    case True
    with insert_loop_at [of l h xs y ys e cmp] Cons.prems s show ?thesis
      by (simp add: insert_before_def)
  next
    case False
    have "le_next (h y) = (case ys of [] \<Rightarrow> None | z # _ \<Rightarrow> Some z)"
      using Cons.prems(1) s by (cases ys) (auto simp: list_repr_def)
    then have "\<exists>s'. insert_loop cmp e (le_next (h y)) s = Some s'
        \<and> list_repr s' ((xs @ [y]) @ insert_before cmp e ys)"
      using Cons.prems by (intro Cons.IH) auto
    with False Cons.prems(3) s show ?thesis
      by (subst insert_loop.simps) (simp add: insert_before_def)
  qed
qed

lemma list_insert_repr:
  assumes "list_repr s xs" and "e \<notin> set xs"
  shows "\<exists>s'. mmal_list_insert cmp s e = Some s' \<and> list_repr s' (insert_before cmp e xs)"
proof (cases xs)
  case Nil
  with assms list_repr_push_front [of s xs e] show ?thesis
    by (auto simp: mmal_list_insert_def insert_before_def list_repr_def)
next
  case (Cons y ys)
  then have "ml_first (fst s) = Some y" using assms(1) by (simp add: list_repr_def)
  with insert_loop_repr [of s "[]" xs e "Some y" cmp] assms Cons show ?thesis
    by (simp add: mmal_list_insert_def)
qed

text \<open>\<open>in_order cmp\<close>: no element is smaller than one before it. Insertion keeps the order when
  \<open>cmp\<close> is a strict weak order, and puts the element behind those it does not precede.\<close>

definition in_order :: "(addr \<Rightarrow> addr \<Rightarrow> bool) \<Rightarrow> addr list \<Rightarrow> bool" where
  "in_order cmp xs \<longleftrightarrow> sorted_wrt (\<lambda>x y. \<not> cmp y x) xs"

definition weak_order :: "(addr \<Rightarrow> addr \<Rightarrow> bool) \<Rightarrow> bool" where
  "weak_order cmp \<longleftrightarrow> (\<forall>x y. cmp x y \<longrightarrow> \<not> cmp y x) \<and>
     (\<forall>x y z. \<not> cmp x y \<longrightarrow> \<not> cmp y z \<longrightarrow> \<not> cmp x z)"

lemma set_insert_before [simp]: "set (insert_before cmp e xs) = insert e (set xs)"
proof -
  have "set xs = set (takeWhile (\<lambda>x. \<not> cmp e x) xs @ dropWhile (\<lambda>x. \<not> cmp e x) xs)" by simp
  also have "\<dots> = set (takeWhile (\<lambda>x. \<not> cmp e x) xs) \<union> set (dropWhile (\<lambda>x. \<not> cmp e x) xs)"
    by (rule set_append)
  finally show ?thesis by (simp add: insert_before_def)
qed

lemma in_order_insert_before:
  assumes "weak_order cmp" and "in_order cmp xs"
  shows "in_order cmp (insert_before cmp e xs)"
  using assms(2)
proof (induction xs)
  case Nil
  then show ?case by (simp add: in_order_def insert_before_def)
next
  case (Cons x xs)
  show ?case
  proof (cases "cmp e x")
    case True
    have x: "\<not> cmp x e" using assms(1) True unfolding weak_order_def by blast
    have "\<not> cmp y e" if "y \<in> set xs" for y
    proof -
      have "\<not> cmp y x" using Cons.prems that by (simp add: in_order_def)
      with x assms(1) show ?thesis unfolding weak_order_def by blast
    qed
    with x have "\<not> cmp y e" if "y \<in> set (x # xs)" for y using that by auto
    with True Cons.prems show ?thesis by (simp add: insert_before_def in_order_def)
  next
    case False
    have "in_order cmp (insert_before cmp e xs)" using Cons by (simp add: in_order_def)
    moreover have "insert_before cmp e (x # xs) = x # insert_before cmp e xs"
      using False by (simp add: insert_before_def)
    ultimately show ?thesis using False Cons.prems by (auto simp: in_order_def)
  qed
qed

lemma list_insert_sorted:
  assumes "weak_order cmp" and "in_order cmp xs" and "list_repr s xs" and "e \<notin> set xs"
  shows "\<exists>s' ys. mmal_list_insert cmp s e = Some s' \<and> list_repr s' ys \<and> in_order cmp ys
    \<and> set ys = insert e (set xs) \<and> length ys = Suc (length xs)"
proof -
  obtain s' where s': "mmal_list_insert cmp s e = Some s'" "list_repr s' (insert_before cmp e xs)"
    using list_insert_repr [OF assms(3,4)] by blast
  moreover have "length (insert_before cmp e xs) = Suc (length xs)"
    using arg_cong [OF takeWhile_dropWhile_id, of length "\<lambda>x. \<not> cmp e x" xs]
    by (simp add: insert_before_def del: takeWhile_dropWhile_id)
  ultimately show ?thesis using in_order_insert_before [OF assms(1,2)] set_insert_before by blast
qed

section \<open>Frames\<close>

text \<open>Two lists may share the heap of elements: an operation on one writes only its own elements.\<close>

lemma list_repr_frame:
  "list_repr (l, h) xs \<Longrightarrow> (\<And>a. a \<in> set xs \<Longrightarrow> h' a = h a) \<Longrightarrow> list_repr (l, h') xs"
  using dseg_cong [of xs h' h] by (simp add: list_repr_def)

lemma dseg_first_in: "dseg h pv p xs e nx \<Longrightarrow> p = Some a \<Longrightarrow> nx = None \<Longrightarrow> a \<in> set xs"
  by (cases xs) auto

lemma dseg_last_in: "dseg h None p xs (Some a) nx \<Longrightarrow> a \<in> set xs"
  by (cases xs rule: rev_cases) auto

lemma push_front_frame:
  "list_repr s xs \<Longrightarrow> a \<noteq> e \<Longrightarrow> a \<notin> set xs \<Longrightarrow> snd (mmal_list_push_front s e) a = snd s a"
  by (cases s) (auto simp: list_repr_def le_upd_defs Let_def dest: dseg_first_in split: option.split)

lemma push_back_frame:
  "list_repr s xs \<Longrightarrow> a \<noteq> e \<Longrightarrow> a \<notin> set xs \<Longrightarrow> snd (mmal_list_push_back s e) a = snd s a"
  by (cases s) (auto simp: list_repr_def le_upd_defs Let_def dest: dseg_last_in split: option.split)

lemma pop_front_frame:
  assumes "list_repr s xs" and "a \<notin> set xs"
  shows "snd (snd (mmal_list_pop_front s)) a = snd s a"
proof -
  obtain l h where s: "s = (l, h)" by force
  show ?thesis
  proof (cases xs)
    case Nil
    with assms s show ?thesis by (simp add: list_repr_def)
  next
    case (Cons y ys)
    then show ?thesis using assms s by (cases ys) (auto simp: list_repr_def le_upd_defs)
  qed
qed

lemma insert_loop_frame:
  assumes "list_repr s (xs @ ys)" and "a \<notin> set (xs @ ys)" and "a \<noteq> e"
    and "cur = (case ys of [] \<Rightarrow> None | y # _ \<Rightarrow> Some y)" and "insert_loop cmp e cur s = Some s'"
  shows "snd s' a = snd s a"
  using assms
proof (induction ys arbitrary: xs cur)
  case Nil
  then show ?case using push_back_frame [of s xs a e]
    by (subst (asm) insert_loop.simps) simp
next
  case (Cons y ys)
  obtain l h where s: "s = (l, h)" by force
  show ?case
  proof (cases "cmp e y")
    case True
    have "le_prev (h y) = (if xs = [] then None else Some (last xs))"
      using Cons.prems(1) s by (cases xs rule: rev_cases) (auto simp: list_repr_def)
    moreover have "xs \<noteq> [] \<Longrightarrow> last xs \<in> set xs" by simp
    ultimately show ?thesis using Cons.prems True s
      by (subst (asm) insert_loop.simps) (auto simp: le_upd_defs Let_def split: if_splits)
  next
    case False
    have "le_next (h y) = (case ys of [] \<Rightarrow> None | z # _ \<Rightarrow> Some z)"
      using Cons.prems(1) s by (cases ys) (auto simp: list_repr_def)
    moreover have "insert_loop cmp e (le_next (h y)) s = Some s'"
      using Cons.prems(4,5) False s by (subst (asm) insert_loop.simps) simp
    ultimately show ?thesis using Cons.IH [of "xs @ [y]"] Cons.prems by simp
  qed
qed

lemma list_insert_frame:
  assumes "list_repr s xs" and "a \<notin> set xs" and "a \<noteq> e" and "mmal_list_insert cmp s e = Some s'"
  shows "snd s' a = snd s a"
proof (cases xs)
  case Nil
  then have "ml_first (fst s) = None" using assms(1) by (simp add: list_repr_def)
  with assms(4) push_front_frame [OF assms(1,3,2)] show ?thesis by (auto simp: mmal_list_insert_def)
next
  case (Cons y ys)
  then have "ml_first (fst s) = Some y" using assms(1) by (simp add: list_repr_def)
  with insert_loop_frame [of s "[]" xs a e "Some y"] assms Cons show ?thesis
    by (simp add: mmal_list_insert_def)
qed

section \<open>Properties\<close>

text \<open>Inserting into an ordered list, for any strict weak order as comparison: the walk of
  \<open>mmal_list_insert\<close> ends without following a null pointer, and the list then holds the old elements
  and the new one, in order, with \<open>next\<close>, \<open>prev\<close>, \<open>first\<close>, \<open>last\<close> and \<open>length\<close> consistent; popping
  from the front then returns the smallest element.\<close>

lemma list_insert_keeps_order:
  assumes "weak_order cmp" and "in_order cmp xs" and "list_repr s xs" and "e \<notin> set xs"
  shows "\<exists>s' y ys. mmal_list_insert cmp s e = Some s' \<and> list_repr s' (y # ys) \<and> in_order cmp (y # ys)
    \<and> set (y # ys) = insert e (set xs) \<and> length ys = length xs
    \<and> fst (mmal_list_pop_front s') = Some y \<and> (\<forall>x \<in> insert e (set xs). \<not> cmp x y)"
proof -
  obtain s' zs where z: "mmal_list_insert cmp s e = Some s'" "list_repr s' zs" "in_order cmp zs"
    "set zs = insert e (set xs)" "length zs = Suc (length xs)"
    using list_insert_sorted [OF assms] by blast
  obtain y ys where zs: "zs = y # ys" using z(5) by (cases zs) auto
  have "\<not> cmp y y" using assms(1) unfolding weak_order_def by blast
  then have "\<forall>x \<in> insert e (set xs). \<not> cmp x y"
    using z(3) unfolding z(4) [symmetric] zs by (auto simp: in_order_def)
  moreover have "fst (mmal_list_pop_front s') = Some y"
    using list_pop_front_Cons [of s' y ys] z(2) unfolding zs by (metis fst_conv)
  moreover have "length ys = length xs" using z(5) zs by simp
  ultimately show ?thesis
    using z(1-4) unfolding zs by (intro exI [of _ s'] exI [of _ y] exI [of _ ys] conjI)
qed

lemma list_insert_keeps_order_witness:
  "\<exists>s y ys. list_repr s [2, 5, 9] \<and> (\<exists>s'. mmal_list_insert (<) s 7 = Some s' \<and> list_repr s' (y # ys))
     \<and> set (y # ys) = {2, 5, 7, 9}"
proof -
  obtain l where "mmal_list_create True VCOS_SUCCESS = Some l" by (simp add: mmal_list_create_def)
  then have 0: "list_repr (l, \<lambda>_. \<lparr>le_next = None, le_prev = None\<rparr>) []" by (rule list_repr_create)
  have r: "list_repr (fold (\<lambda>e s. mmal_list_push_back s e) [2, 5, 9]
      (l, \<lambda>_. \<lparr>le_next = None, le_prev = None\<rparr>)) [2, 5, 9]" (is "list_repr ?s _")
    using list_repr_push_back [OF list_repr_push_back [OF list_repr_push_back [OF 0]], of 2 5 9]
    by (simp del: mmal_list_push_back.simps)
  have w: "weak_order ((<) :: addr \<Rightarrow> addr \<Rightarrow> bool)" "in_order (<) [2, 5, 9 :: addr]"
    by (auto simp: weak_order_def in_order_def)
  have "7 \<notin> set [2, 5, 9 :: addr]" by simp
  from list_insert_keeps_order [OF w r this]
  obtain s' y ys where "mmal_list_insert (<) ?s 7 = Some s'" "list_repr s' (y # ys)"
    "set (y # ys) = insert 7 (set [2, 5, 9])" by blast
  moreover have "insert 7 (set [2, 5, 9 :: addr]) = {2, 5, 7, 9}" by auto
  ultimately show ?thesis using r by metis
qed

end
