(* ===== verification/Mmal_Clock.thy ===== *)
theory Mmal_Clock
  imports Mmal_List Mmal_Rational Mmal_Buffer
begin

text \<open>
  The clock (\<^verbatim>\<open>core/mmal_clock.c\<close>): a media time that advances at a scale of the real time, and
  requests of the client, kept in a list ordered by media time and serviced by a worker thread. The
  32 request slots of the structure are the elements 0 to 31 of a heap of list elements. The lock of
  the clock makes every public function one step; the callbacks of the client run under that lock.
  The constants are those of a build without the RTOS timer.
\<close>

section \<open>State\<close>

definition MIN_TIMER_DELAY :: int where "MIN_TIMER_DELAY = 10000"
definition CLOCK_REQUEST_SLOTS :: nat where "CLOCK_REQUEST_SLOTS = 32"
definition CLOCK_TARGET_OFFSET :: int where "CLOCK_TARGET_OFFSET = 20"
definition CLOCK_WAIT_TIME :: int where "CLOCK_WAIT_TIME = 200000"
definition CLOCK_UPDATE_THRESHOLD_LOWER :: int where "CLOCK_UPDATE_THRESHOLD_LOWER = 8000"
definition CLOCK_UPDATE_THRESHOLD_UPPER :: int where "CLOCK_UPDATE_THRESHOLD_UPPER = 50000"
definition CLOCK_DISCONT_THRESHOLD :: int where "CLOCK_DISCONT_THRESHOLD = 1000000"
definition CLOCK_DISCONT_DURATION :: int where "CLOCK_DISCONT_DURATION = 1000000"

text \<open>Function pointers and the client's data are numbers.\<close>

record clock_request =
  cq_priv :: nat
  cq_cb :: nat
  cq_cb_data :: nat
  cq_media_time :: int
  cq_media_time_adj :: int

text \<open>
  The semaphore and the timer are \<open>None\<close> before they are created and after they are deleted; an armed
  timer has its delay in milliseconds. \<open>ck_lists\<close> holds the lists that are allocated; the links and
  the contents of the request slots are separate maps. \<open>ck_env\<close> is the rest of the world; the record
  without it is what a clock port keeps.
\<close>

record clock_core =
  ck_is_active :: bool
  ck_scheduling :: bool
  ck_stop_thread :: bool
  ck_event :: "nat option"
  ck_thread :: bool
  ck_timer :: "u32 option option"
  ck_scale :: int
  ck_scale_inv :: int
  ck_scale_rational :: mmal_rational
  ck_average_ref_diff :: int
  ck_media_time :: int
  ck_media_time_frac :: u32
  ck_wall_time :: int
  ck_rtc_at_update :: u32
  ck_media_time_at_timer :: int
  ck_discont_expiry :: int
  ck_discont_start :: int
  ck_discont_end :: int
  ck_discont_threshold :: int
  ck_discont_duration :: int
  ck_request_threshold :: int
  ck_request_threshold_enable :: bool
  ck_update_threshold_lower :: int
  ck_update_threshold_upper :: int
  ck_list_free :: ptr
  ck_list_pending :: ptr
  ck_pool :: "addr \<Rightarrow> clock_request"
  ck_links :: elements
  ck_lists :: "addr \<Rightarrow> mmal_list option"

record 'x mmal_clock = clock_core +
  ck_env :: 'x

text \<open>\<open>vcos_getmicrosecs\<close> reads the real time; the callback of a request is told the media time.\<close>

record 'x clock_ops =
  ko_now :: "'x \<Rightarrow> u32 \<times> 'x"
  ko_callback :: "clock_request \<Rightarrow> int \<Rightarrow> 'x \<Rightarrow> 'x outcome"

type_synonym 'x clock_step = "'x mmal_clock \<Rightarrow> 'x mmal_clock outcome"

text \<open>Signed arithmetic outside its type is undefined, like following a dangling pointer.\<close>

definition as_i64 :: "int \<Rightarrow> int outcome" where "as_i64 x = or_faults (i64 x)"
definition as_i32 :: "int \<Rightarrow> int outcome" where "as_i32 x = or_faults (i32 x)"

lemma as_int_simps [simp]: "in_i64 x \<Longrightarrow> as_i64 x = ret x" "in_i32 x \<Longrightarrow> as_i32 x = ret x"
  by (simp_all add: as_i64_def as_i32_def i64_def i32_def)

text \<open>An operation on an allocated list; one that does not end is \<open>None\<close>.\<close>

definition on_list :: "ptr \<Rightarrow> (list_state \<Rightarrow> ('a \<times> list_state) option) \<Rightarrow> 'x mmal_clock \<Rightarrow> ('a \<times> 'x mmal_clock) outcome" where
  "on_list p f s =
     (case p of
        None \<Rightarrow> Some Faults
      | Some a \<Rightarrow>
          case ck_lists s a of
            None \<Rightarrow> Some Faults
          | Some l \<Rightarrow> map_option (\<lambda>(r, l', h'). Returns (r, s\<lparr>ck_lists := (ck_lists s)(a \<mapsto> l'), ck_links := h'\<rparr>))
                        (f (l, ck_links s)))"

definition mmal_list_destroy :: "ptr \<Rightarrow> 'x clock_step" where
  "mmal_list_destroy p s =
     (case p of
        None \<Rightarrow> Some Faults
      | Some a \<Rightarrow> if ck_lists s a = None then Some Faults
                  else ret (s\<lparr>ck_lists := (ck_lists s)(a := None)\<rparr>))"

definition list_length :: "ptr \<Rightarrow> 'x mmal_clock \<Rightarrow> u32 outcome" where
  "list_length p s = or_faults (Option.bind p (\<lambda>a. map_option ml_length (ck_lists s a)))"

definition pop_front :: "ptr \<Rightarrow> 'x mmal_clock \<Rightarrow> (ptr \<times> 'x mmal_clock) outcome" where
  "pop_front p = on_list p (\<lambda>l. Some (mmal_list_pop_front l))"

definition push_front :: "ptr \<Rightarrow> addr \<Rightarrow> 'x clock_step" where
  "push_front p e s = andthen (on_list p (\<lambda>l. Some ((), mmal_list_push_front l e)) s) (\<lambda>(_, s1). ret s1)"

definition push_back :: "ptr \<Rightarrow> addr \<Rightarrow> 'x clock_step" where
  "push_back p e s = andthen (on_list p (\<lambda>l. Some ((), mmal_list_push_back l e)) s) (\<lambda>(_, s1). ret s1)"

section \<open>Media time\<close>

definition mmal_clock_update_local_time_locked :: "'x clock_ops \<Rightarrow> 'x clock_step" where
  "mmal_clock_update_local_time_locked c s =
     (let (time_now, e) = ko_now c (ck_env s);
          time_diff = (if ck_rtc_at_update s < time_now then time_now - ck_rtc_at_update s else 0)
      in andthen (as_i64 (ck_wall_time s + uint time_diff)) (\<lambda>wall.
         andthen (as_i32 (ck_scale s * 2 ^ 8)) (\<lambda>k.
         andthen (as_i64 (uint time_diff * k)) (\<lambda>p.
         andthen (as_i64 (p + uint (ck_media_time_frac s))) (\<lambda>media_diff.
         andthen (as_i64 (ck_media_time s + drop_bit 24 media_diff)) (\<lambda>media.
         ret (s\<lparr>ck_wall_time := wall, ck_media_time := media,
                ck_media_time_frac := of_int (media_diff AND (2 ^ 24 - 1)),
                ck_rtc_at_update := time_now, ck_env := e\<rparr>)))))))"

definition mmal_clock_media_time_get_locked :: "'x clock_ops \<Rightarrow> 'x mmal_clock \<Rightarrow> (int \<times> 'x mmal_clock) outcome" where
  "mmal_clock_media_time_get_locked c s =
     andthen (mmal_clock_update_local_time_locked c s) (\<lambda>s1. ret (ck_media_time s1, s1))"

definition mmal_clock_wake_thread :: "'x clock_step" where
  "mmal_clock_wake_thread s =
     (if ck_scheduling s
      then case ck_event s of
             None \<Rightarrow> Some Faults | Some n \<Rightarrow> ret (s\<lparr>ck_event := Some (sem_post n)\<rparr>)
      else ret s)"

section \<open>Requests\<close>

definition mmal_clock_request_compare_pos :: "'x mmal_clock \<Rightarrow> addr \<Rightarrow> addr \<Rightarrow> bool" where
  "mmal_clock_request_compare_pos s lhs rhs \<longleftrightarrow>
     cq_media_time_adj (ck_pool s lhs) < cq_media_time_adj (ck_pool s rhs)"

definition mmal_clock_request_compare_neg :: "'x mmal_clock \<Rightarrow> addr \<Rightarrow> addr \<Rightarrow> bool" where
  "mmal_clock_request_compare_neg s lhs rhs \<longleftrightarrow>
     cq_media_time_adj (ck_pool s lhs) > cq_media_time_adj (ck_pool s rhs)"

definition mmal_clock_request_insert :: "addr \<Rightarrow> 'x mmal_clock \<Rightarrow> (bool \<times> 'x mmal_clock) outcome" where
  "mmal_clock_request_insert request s =
     (if ck_stop_thread s then ret (False, s)
      else case Option.bind (ck_list_pending s) (ck_lists s) of
        None \<Rightarrow> Some Faults
      | Some list \<Rightarrow>
          let adj = (\<lambda>r. cq_media_time_adj (ck_pool s r)); p = ck_list_pending s in
          if ml_length list = 0 then andthen (push_front p request s) (\<lambda>s1. ret (True, s1))
          else case ml_last list of
            None \<Rightarrow> Some Faults
          | Some pending \<Rightarrow>
              if ck_scale s \<ge> 0 \<and> adj request \<ge> adj pending \<or> ck_scale s < 0 \<and> adj request \<le> adj pending
              then andthen (push_back p request s) (\<lambda>s1. ret (True, s1))
              else
                let cmp = (if ck_scale s \<ge> 0 then mmal_clock_request_compare_pos s
                           else mmal_clock_request_compare_neg s)
                in andthen (on_list p (\<lambda>l. map_option (Pair ()) (mmal_list_insert cmp l request)) s)
                     (\<lambda>(_, s1). ret (True, s1)))"

definition call_request :: "'x clock_ops \<Rightarrow> addr \<Rightarrow> int \<Rightarrow> 'x clock_step" where
  "call_request c r media_time s =
     andthen (ko_callback c (ck_pool s r) media_time (ck_env s)) (\<lambda>e. ret (s\<lparr>ck_env := e\<rparr>))"

partial_function (option) flush_requests :: "'x clock_ops \<Rightarrow> int \<Rightarrow> 'x clock_step" where
  "flush_requests c media_time s =
     andthen (pop_front (ck_list_pending s) s) (\<lambda>r.
       case fst r of
         None \<Rightarrow> ret (snd r)
       | Some request \<Rightarrow>
           andthen (call_request c request media_time (snd r)) (\<lambda>s2.
           andthen (push_back (ck_list_free s2) request s2) (\<lambda>s3. flush_requests c media_time s3)))"

definition mmal_clock_request_flush_locked :: "'x clock_ops \<Rightarrow> int \<Rightarrow> 'x clock_step" where
  "mmal_clock_request_flush_locked c media_time s =
     andthen (flush_requests c media_time s) (\<lambda>s1. ret (s1\<lparr>ck_media_time_at_timer := 0\<rparr>))"

definition mmal_clock_timer_set :: "int \<Rightarrow> 'x clock_step" where
  "mmal_clock_timer_set delay_us s =
     (case ck_timer s of
        None \<Rightarrow> Some Faults | Some _ \<Rightarrow> ret (s\<lparr>ck_timer := Some (Some (of_int (c_div delay_us 1000)))\<rparr>))"

definition mmal_clock_timer_cancel :: "'x clock_step" where
  "mmal_clock_timer_cancel s =
     (case ck_timer s of None \<Rightarrow> Some Faults | Some _ \<Rightarrow> ret (s\<lparr>ck_timer := Some None\<rparr>))"

section \<open>Servicing requests\<close>

text \<open>The detection of a jump of the media time backwards.\<close>

definition detect_discontinuity :: "'x clock_ops \<Rightarrow> 'x clock_step" where
  "detect_discontinuity c s =
     (if ck_media_time_at_timer s = 0 then ret s
      else andthen (mmal_clock_media_time_get_locked c s) (\<lambda>(media_time_now, s1).
        if \<not> ck_scale s1 > 0 then ret s1
        else andthen (as_i64 (media_time_now + ck_discont_threshold s1)) (\<lambda>t.
          if \<not> t < ck_media_time_at_timer s1 then ret s1
          else andthen (as_i64 (ck_media_time_at_timer s1 + ck_discont_duration s1)) (\<lambda>d_end.
               andthen (as_i64 (ck_wall_time s1 + ck_discont_duration s1)) (\<lambda>expiry.
               mmal_clock_request_flush_locked c media_time_now
                 (s1\<lparr>ck_discont_start := ck_media_time_at_timer s1, ck_discont_end := d_end,
                     ck_discont_expiry := expiry\<rparr>))))))"

definition request_due :: "int \<Rightarrow> int \<Rightarrow> 'x mmal_clock \<Rightarrow> bool outcome" where
  "request_due media_time_now adj s =
     (if ck_discont_expiry s \<noteq> 0 \<and> adj \<ge> ck_discont_start s \<and> adj < ck_discont_end s then ret True
      else if ck_scale s > 0 then andthen (as_i64 (media_time_now + MIN_TIMER_DELAY)) (\<lambda>t. ret (t \<ge> adj))
      else if ck_scale s < 0 then andthen (as_i64 (media_time_now - MIN_TIMER_DELAY)) (\<lambda>t. ret (t \<le> adj))
      else ret False)"

text \<open>The next request is in the future: put it back and set the timer.\<close>

definition reschedule :: "addr \<Rightarrow> int \<Rightarrow> 'x clock_step" where
  "reschedule r media_time_now s =
     andthen (as_i64 (media_time_now - cq_media_time_adj (ck_pool s r))) (\<lambda>d.
     andthen (as_i64 \<bar>d\<bar>) (\<lambda>media_time_delay.
     andthen (as_i64 (ck_scale_inv s * media_time_delay)) (\<lambda>p.
     let wall_time_delay = (if ck_scale s = 0 then CLOCK_WAIT_TIME else \<bar>drop_bit 16 p\<bar>)
     in andthen (push_front (ck_list_pending s) r s) (\<lambda>s1.
        mmal_clock_timer_set wall_time_delay (s1\<lparr>ck_media_time_at_timer := media_time_now\<rparr>)))))"

definition expire_discontinuity :: "'x mmal_clock \<Rightarrow> 'x mmal_clock" where
  "expire_discontinuity s =
     (if ck_discont_expiry s \<noteq> 0 \<and> ck_wall_time s > ck_discont_expiry s then s\<lparr>ck_discont_expiry := 0\<rparr> else s)"

partial_function (option) process_loop :: "'x clock_ops \<Rightarrow> 'x clock_step" where
  "process_loop c s =
     andthen (pop_front (ck_list_pending s) s) (\<lambda>r.
       case fst r of
         None \<Rightarrow> ret (snd r)
       | Some request \<Rightarrow>
           andthen (mmal_clock_media_time_get_locked c (snd r)) (\<lambda>t.
             let s2 = expire_discontinuity (snd t) in
             andthen (request_due (fst t) (cq_media_time_adj (ck_pool s2 request)) s2) (\<lambda>due.
               if due then
                 andthen (call_request c request (fst t) s2) (\<lambda>s3.
                 andthen (push_back (ck_list_free s3) request s3) (\<lambda>s4. process_loop c s4))
               else reschedule request (fst t) s2)))"

definition mmal_clock_process_requests :: "'x clock_ops \<Rightarrow> 'x clock_step" where
  "mmal_clock_process_requests c s =
     andthen (list_length (ck_list_pending s) s) (\<lambda>n.
       if n = 0 \<or> \<not> ck_is_active s then ret s
       else andthen (detect_discontinuity c s) (\<lambda>s1. process_loop c s1))"

text \<open>One round of the worker thread; the result is whether it goes on.\<close>

definition mmal_clock_worker_thread :: "'x clock_ops \<Rightarrow> 'x mmal_clock \<Rightarrow> (bool \<times> 'x mmal_clock) outcome" where
  "mmal_clock_worker_thread c s =
     (case ck_event s of
        None \<Rightarrow> Some Faults
      | Some n \<Rightarrow>
          andthen (or_blocks (sem_wait n)) (\<lambda>m.
          andthen (mmal_clock_timer_cancel (s\<lparr>ck_event := Some m\<rparr>)) (\<lambda>s1.
            if ck_stop_thread s1 then ret (False, s1)
            else andthen (mmal_clock_process_requests c s1) (\<lambda>s2. ret (True, s2)))))"

text \<open>The callback of the timer: an armed timer that expires is idle again.\<close>

definition mmal_clock_timer_cb :: "'x clock_step" where
  "mmal_clock_timer_cb s =
     (case ck_timer s of
        Some (Some _) \<Rightarrow> mmal_clock_wake_thread (s\<lparr>ck_timer := Some None\<rparr>)
      | _ \<Rightarrow> ret s)"

section \<open>Scheduling resources\<close>

text \<open>What the calls that acquire a resource return.\<close>

record sched_results =
  sr_timer :: vcos_status
  sr_event :: vcos_status
  sr_list_free :: ptr
  sr_free_mutex :: vcos_status
  sr_list_pending :: ptr
  sr_pending_mutex :: vcos_status
  sr_thread :: vcos_status

text \<open>\<open>mmal_list_create\<close>: the block comes from the allocator and is returned when the mutex fails.\<close>

definition list_create :: "ptr \<Rightarrow> vcos_status \<Rightarrow> 'x mmal_clock \<Rightarrow> ptr \<times> 'x mmal_clock" where
  "list_create block st s =
     (case (block, mmal_list_create (block \<noteq> None) st) of
        (Some a, Some l) \<Rightarrow> (Some a, s\<lparr>ck_lists := (ck_lists s)(a \<mapsto> l)\<rparr>)
      | _ \<Rightarrow> (None, s))"

definition destroy_if :: "ptr \<Rightarrow> 'x clock_step" where
  "destroy_if p s = (if p \<noteq> None then mmal_list_destroy p s else ret s)"

text \<open>The label \<open>error\<close> of \<open>mmal_clock_create_scheduling\<close>; the pointers to the lists are those of the
  structure.\<close>

definition scheduling_error :: "bool \<Rightarrow> vcos_status \<Rightarrow> 'x mmal_clock \<Rightarrow> (mmal_status \<times> 'x mmal_clock) outcome" where
  "scheduling_error timer_status event_status s =
     (let s1 = (if event_status = VCOS_SUCCESS then s\<lparr>ck_event := None\<rparr> else s);
          s2 = (if timer_status then s1\<lparr>ck_timer := None\<rparr> else s1)
      in andthen (destroy_if (ck_list_free s2) s2) (\<lambda>s3.
         andthen (destroy_if (ck_list_pending s3) s3) (\<lambda>s4. ret (MMAL_ENOSPC, s4))))"

fun push_slots :: "nat list \<Rightarrow> 'x clock_step" where
  "push_slots [] s = ret s"
| "push_slots (i # is) s = andthen (push_back (ck_list_free s) i s) (push_slots is)"

definition mmal_clock_create_scheduling :: "sched_results \<Rightarrow> 'x mmal_clock \<Rightarrow> (mmal_status \<times> 'x mmal_clock) outcome" where
  "mmal_clock_create_scheduling r s =
     (if sr_timer r \<noteq> VCOS_SUCCESS then scheduling_error False VCOS_EINVAL s
      else let s1 = s\<lparr>ck_timer := Some None\<rparr> in
      if sr_event r \<noteq> VCOS_SUCCESS then scheduling_error True (sr_event r) s1
      else let s2 = s1\<lparr>ck_event := Some 0\<rparr>;
               (lf, s3) = list_create (sr_list_free r) (sr_free_mutex r) s2;
               (lp, s4) = list_create (sr_list_pending r) (sr_pending_mutex r) (s3\<lparr>ck_list_free := lf\<rparr>);
               s5 = s4\<lparr>ck_list_pending := lp\<rparr>
           in if lf = None \<or> lp = None then scheduling_error True VCOS_SUCCESS s5
              else andthen (push_slots [0..<CLOCK_REQUEST_SLOTS] s5) (\<lambda>s6.
                if sr_thread r \<noteq> VCOS_SUCCESS then scheduling_error True VCOS_SUCCESS s6
                else ret (MMAL_SUCCESS, s6\<lparr>ck_thread := True, ck_scheduling := True\<rparr>)))"

text \<open>Joining the worker thread returns when a round of it ends the thread.\<close>

definition thread_join :: "'x clock_ops \<Rightarrow> 'x clock_step" where
  "thread_join c s =
     andthen (mmal_clock_worker_thread c s) (\<lambda>(goes_on, s1).
       if goes_on then Some Blocks else ret (s1\<lparr>ck_thread := False\<rparr>))"

definition mmal_clock_stop_thread :: "'x clock_ops \<Rightarrow> 'x clock_step" where
  "mmal_clock_stop_thread c s =
     andthen (mmal_clock_wake_thread (s\<lparr>ck_stop_thread := True\<rparr>)) (thread_join c)"

definition mmal_clock_request_flush :: "'x clock_ops \<Rightarrow> 'x clock_step" where
  "mmal_clock_request_flush c s =
     (if ck_scheduling s then mmal_clock_request_flush_locked c MMAL_TIME_UNKNOWN s else ret s)"

definition mmal_clock_destroy_scheduling :: "'x clock_ops \<Rightarrow> 'x clock_step" where
  "mmal_clock_destroy_scheduling c s =
     andthen (mmal_clock_stop_thread c s) (\<lambda>s1.
     andthen (mmal_clock_request_flush c s1) (\<lambda>s2.
     andthen (mmal_list_destroy (ck_list_free s2) s2) (\<lambda>s3.
     andthen (mmal_list_destroy (ck_list_pending s3) s3) (\<lambda>s4.
     ret (s4\<lparr>ck_event := None, ck_timer := None\<rparr>)))))"

section \<open>Public functions\<close>

definition mmal_clock_active_set :: "bool \<Rightarrow> 'x clock_step" where
  "mmal_clock_active_set active s = mmal_clock_wake_thread (s\<lparr>ck_is_active := active\<rparr>)"

definition mmal_clock_is_paused :: "'x mmal_clock \<Rightarrow> bool" where
  "mmal_clock_is_paused s \<longleftrightarrow> ck_scale s = 0"

definition mmal_clock_scale_set :: "'x clock_ops \<Rightarrow> mmal_rational \<Rightarrow> 'x clock_step" where
  "mmal_clock_scale_set c scale s =
     andthen (mmal_clock_update_local_time_locked c s) (\<lambda>s1.
     let k = mmal_rational_to_fixed_16_16 scale;
         inv = (if k \<noteq> 0 then signed_take_bit 31 (c_div (2 ^ 32) k) else Q16_ONE)
     in mmal_clock_wake_thread (s1\<lparr>ck_scale_rational := scale, ck_scale := k, ck_scale_inv := inv\<rparr>))"

definition zero_clock :: "'x \<Rightarrow> 'x mmal_clock" where
  "zero_clock e = \<lparr>ck_is_active = False, ck_scheduling = False, ck_stop_thread = False, ck_event = None,
     ck_thread = False, ck_timer = None, ck_scale = 0, ck_scale_inv = 0,
     ck_scale_rational = \<lparr>num = 0, den = 0\<rparr>, ck_average_ref_diff = 0, ck_media_time = 0,
     ck_media_time_frac = 0, ck_wall_time = 0, ck_rtc_at_update = 0, ck_media_time_at_timer = 0,
     ck_discont_expiry = 0, ck_discont_start = 0, ck_discont_end = 0, ck_discont_threshold = 0,
     ck_discont_duration = 0, ck_request_threshold = 0, ck_request_threshold_enable = False,
     ck_update_threshold_lower = 0, ck_update_threshold_upper = 0, ck_list_free = None,
     ck_list_pending = None,
     ck_pool = (\<lambda>_. \<lparr>cq_priv = 0, cq_cb = 0, cq_cb_data = 0, cq_media_time = 0, cq_media_time_adj = 0\<rparr>),
     ck_links = (\<lambda>_. \<lparr>le_next = None, le_prev = None\<rparr>), ck_lists = (\<lambda>_. None), ck_env = e\<rparr>"

text \<open>\<open>given\<close>: the caller passed a place for the clock.\<close>

definition mmal_clock_create ::
  "'x clock_ops \<Rightarrow> bool \<Rightarrow> bool \<Rightarrow> vcos_status \<Rightarrow> 'x \<Rightarrow> (mmal_status \<times> 'x mmal_clock option) outcome" where
  "mmal_clock_create c given calloc_ok mutex_st e =
     (if \<not> given then ret (MMAL_EINVAL, None)
      else if \<not> calloc_ok then ret (MMAL_ENOMEM, None)
      else if mutex_st \<noteq> VCOS_SUCCESS then ret (MMAL_ENOSPC, None)
      else andthen (mmal_clock_scale_set c \<lparr>num = 1, den = 1\<rparr>
             ((zero_clock e)\<lparr>ck_update_threshold_lower := CLOCK_UPDATE_THRESHOLD_LOWER,
                ck_update_threshold_upper := CLOCK_UPDATE_THRESHOLD_UPPER,
                ck_discont_threshold := CLOCK_DISCONT_THRESHOLD,
                ck_discont_duration := CLOCK_DISCONT_DURATION,
                ck_request_threshold := 0, ck_request_threshold_enable := False\<rparr>))
             (\<lambda>s. ret (MMAL_SUCCESS, Some s)))"

text \<open>\<open>mmal_clock_destroy\<close> returns what is left of the resources when the structure is freed.\<close>

definition mmal_clock_destroy :: "'x clock_ops \<Rightarrow> 'x clock_step" where
  "mmal_clock_destroy c s = (if ck_scheduling s then mmal_clock_destroy_scheduling c s else ret s)"

text \<open>The part of \<open>mmal_clock_request_add\<close> after the resources exist.\<close>

definition place_request :: "int \<Rightarrow> nat \<Rightarrow> nat \<Rightarrow> nat \<Rightarrow> 'x mmal_clock \<Rightarrow> (mmal_status \<times> 'x mmal_clock) outcome" where
  "place_request media_time cb cb_data priv s2 =
     andthen (pop_front (ck_list_free s2) s2) (\<lambda>(slot, s3).
     case slot of
       None \<Rightarrow> ret (MMAL_ENOSPC, s3)
     | Some request \<Rightarrow>
         andthen (as_i32 (ck_scale s3 * CLOCK_TARGET_OFFSET)) (\<lambda>p.
         andthen (as_i64 (media_time - drop_bit 16 p)) (\<lambda>adj.
         let s4 = s3\<lparr>ck_pool := (ck_pool s3)(request :=
                    \<lparr>cq_priv = priv, cq_cb = cb, cq_cb_data = cb_data, cq_media_time = media_time,
                     cq_media_time_adj = adj\<rparr>)\<rparr>
         in andthen (mmal_clock_request_insert request s4) (\<lambda>(inserted, s5).
            andthen (if inserted \<and> ck_is_active s5 then mmal_clock_wake_thread s5 else ret s5) (\<lambda>s6.
            ret (MMAL_SUCCESS, s6))))))"

definition mmal_clock_request_add ::
  "'x clock_ops \<Rightarrow> sched_results \<Rightarrow> int \<Rightarrow> nat \<Rightarrow> nat \<Rightarrow> nat \<Rightarrow> 'x mmal_clock \<Rightarrow> (mmal_status \<times> 'x mmal_clock) outcome" where
  "mmal_clock_request_add c res media_time cb cb_data priv s =
     andthen (mmal_clock_media_time_get_locked c s) (\<lambda>(media_time_now, s1).
     andthen (if ck_request_threshold_enable s1
              then andthen (as_i64 (media_time_now + ck_request_threshold s1)) (\<lambda>t. ret (media_time > t))
              else ret False) (\<lambda>drop.
     if drop then ret (MMAL_ECORRUPT, s1)
     else andthen (if ck_scheduling s1 then ret (MMAL_SUCCESS, s1) else mmal_clock_create_scheduling res s1) (\<lambda>(st, s2).
     if st \<noteq> MMAL_SUCCESS then ret (MMAL_ENOSPC, s2)
     else place_request media_time cb cb_data priv s2)))"

text \<open>\<open>x > t || x < -t\<close>\<close>

definition beyond :: "int \<Rightarrow> int \<Rightarrow> bool outcome" where
  "beyond t x = (if x > t then ret True else andthen (as_i64 (- t)) (\<lambda>n. ret (x < n)))"

definition mmal_clock_media_time_set :: "'x clock_ops \<Rightarrow> int \<Rightarrow> 'x clock_step" where
  "mmal_clock_media_time_set c media_time s =
     (if \<not> ck_is_active s
      then let (time_now, e) = ko_now c (ck_env s)
           in ret (s\<lparr>ck_wall_time := uint time_now, ck_media_time := media_time, ck_media_time_frac := 0,
                     ck_rtc_at_update := time_now, ck_env := e\<rparr>)
      else if mmal_clock_is_paused s then ret s
      else andthen (mmal_clock_update_local_time_locked c s) (\<lambda>s1.
        andthen (as_i64 (ck_media_time s1 - media_time)) (\<lambda>time_diff.
        andthen (beyond (ck_update_threshold_upper s1) time_diff) (\<lambda>far.
        if far
        then mmal_clock_wake_thread (s1\<lparr>ck_media_time := media_time, ck_average_ref_diff := 0\<rparr>)
        else
          andthen (as_i64 (ck_average_ref_diff s1 * 2 ^ 6)) (\<lambda>p.
          andthen (as_i64 (p - ck_average_ref_diff s1)) (\<lambda>q.
          andthen (as_i64 (q + time_diff)) (\<lambda>w.
          let avg = drop_bit 6 w; s2 = s1\<lparr>ck_average_ref_diff := avg\<rparr> in
          andthen (beyond (ck_update_threshold_lower s2) avg) (\<lambda>drifted.
          if drifted
          then andthen (as_i64 (ck_media_time s2 - avg)) (\<lambda>m.
               mmal_clock_wake_thread (s2\<lparr>ck_media_time := m, ck_average_ref_diff := 0\<rparr>))
          else ret s2))))))))"

definition mmal_clock_scale_get :: "'x mmal_clock \<Rightarrow> mmal_rational" where
  "mmal_clock_scale_get s = ck_scale_rational s"

definition mmal_clock_media_time_get :: "'x clock_ops \<Rightarrow> 'x mmal_clock \<Rightarrow> (int \<times> 'x mmal_clock) outcome" where
  "mmal_clock_media_time_get c s = mmal_clock_media_time_get_locked c s"

definition mmal_clock_is_active :: "'x mmal_clock \<Rightarrow> bool" where
  "mmal_clock_is_active s = ck_is_active s"

definition mmal_clock_update_threshold_get :: "'x mmal_clock \<Rightarrow> int \<times> int" where
  "mmal_clock_update_threshold_get s = (ck_update_threshold_lower s, ck_update_threshold_upper s)"

definition mmal_clock_update_threshold_set :: "int \<times> int \<Rightarrow> 'x mmal_clock \<Rightarrow> 'x mmal_clock" where
  "mmal_clock_update_threshold_set t s =
     s\<lparr>ck_update_threshold_lower := fst t, ck_update_threshold_upper := snd t\<rparr>"

definition mmal_clock_discont_threshold_get :: "'x mmal_clock \<Rightarrow> int \<times> int" where
  "mmal_clock_discont_threshold_get s = (ck_discont_threshold s, ck_discont_duration s)"

definition mmal_clock_discont_threshold_set :: "int \<times> int \<Rightarrow> 'x mmal_clock \<Rightarrow> 'x mmal_clock" where
  "mmal_clock_discont_threshold_set t s =
     s\<lparr>ck_discont_threshold := fst t, ck_discont_duration := snd t\<rparr>"

definition mmal_clock_request_threshold_get :: "'x mmal_clock \<Rightarrow> int \<times> bool" where
  "mmal_clock_request_threshold_get s = (ck_request_threshold s, ck_request_threshold_enable s)"

definition mmal_clock_request_threshold_set :: "int \<times> bool \<Rightarrow> 'x mmal_clock \<Rightarrow> 'x mmal_clock" where
  "mmal_clock_request_threshold_set t s =
     s\<lparr>ck_request_threshold := fst t, ck_request_threshold_enable := snd t\<rparr>"

end
