(* ===== verification/Mmal_World.thy ===== *)
theory Mmal_World
  imports Mmal_Util Mmal_Clock
begin

text \<open>
  Ports and components as data (\<^verbatim>\<open>mmal_port.h\<close>, \<^verbatim>\<open>core/mmal_port_private.h\<close>,
  \<^verbatim>\<open>core/mmal_port.c\<close>, \<^verbatim>\<open>mmal_component.h\<close>, \<^verbatim>\<open>core/mmal_component_private.h\<close>,
  \<^verbatim>\<open>core/mmal_component.c\<close>): the structures, the stores that hold them, and the interface through
  which the core calls a component and its client. Stored function pointers are identifiers;
  \<open>port_ops\<close> interprets them.
\<close>

section \<open>Clock ports\<close>

text \<open>
  \<open>MMAL_CLOCK_EVENT_T\<close> of \<^verbatim>\<open>mmal_clock.h\<close>. The union of the data is its six 32-bit words, the largest
  member being three 64-bit integers.
\<close>

record clock_event =
  ce_id :: u32
  ce_magic :: u32
  ce_buffer :: ptr
  ce_data :: "u32 list"

text \<open>
  \<open>MMAL_PORT_CLOCK_T\<close> of \<^verbatim>\<open>core/mmal_port_clock.c\<close>. The clock has the block of its structure.
  \<open>cp_busy\<close>: a thread holds the lock of the clock while it runs a callback of the client;
  \<open>cp_calls\<close> are the calls of \<open>mmal_clock_active_set\<close>, which takes no lock, made in the meantime.
\<close>

record clock_port =
  cp_event_cb :: "nat option"
  cp_queue :: "mmal_queue option"
  cp_clock :: "(addr \<times> clock_core) option"
  cp_busy :: bool
  cp_calls :: "bool list"
  cp_is_reference :: u32
  cp_buffer_info_reporting :: u32

section \<open>Ports\<close>

record core_stats =
  cs_buffer_count :: u32
  cs_first_buffer_time :: u32
  cs_last_buffer_time :: u32
  cs_max_delay :: u32

record mmal_port =
  po_name :: string
  po_type :: port_type
  po_index :: "16 word"
  po_index_all :: "16 word"
  po_is_enabled :: bool
  po_format :: ptr
  po_buffer_num_min :: u32
  po_buffer_size_min :: u32
  po_buffer_alignment_min :: u32
  po_buffer_num_recommended :: u32
  po_buffer_size_recommended :: u32
  po_buffer_num :: u32
  po_buffer_size :: u32
  po_component :: addr
  po_userdata :: ptr
  po_capabilities :: u32
  \<comment> \<open>\<open>MMAL_PORT_PRIVATE_T\<close>\<close>
  po_pf_set_format :: "nat option"
  po_pf_enable :: "nat option"
  po_pf_disable :: "nat option"
  po_pf_send :: "nat option"
  po_pf_flush :: "nat option"
  po_pf_parameter_set :: "nat option"
  po_pf_parameter_get :: "nat option"
  po_pf_connect :: "nat option"
  po_pf_payload_alloc :: "nat option"
  po_pf_payload_free :: "nat option"
  \<comment> \<open>\<open>MMAL_PORT_PRIVATE_CORE_T\<close>; the locks are not state: a model operation is a critical section\<close>
  po_callback :: "nat option"
  po_transit :: int
  po_transit_sema :: nat
  po_format_copy :: ptr
  po_connected :: ptr
  po_core_owns_connection :: bool
  po_pool_for_connection :: ptr
  po_is_paused :: bool
  po_queue_first :: ptr
  po_queue_last :: slot
  po_stats_rx :: core_stats
  po_stats_tx :: core_stats
  po_name_size :: nat
  \<comment> \<open>the module data of the components that queue buffers (\<open>MMAL_PORT_MODULE_T\<close>)\<close>
  po_module_queue :: "mmal_queue option"
  po_needs_configuring :: bool
  po_last_ts :: int
  \<comment> \<open>the context of a clock port\<close>
  po_clock :: "clock_port option"

definition zero_stats :: core_stats where
  "zero_stats = \<lparr>cs_buffer_count = 0, cs_first_buffer_time = 0, cs_last_buffer_time = 0, cs_max_delay = 0\<rparr>"

text \<open>The port that \<open>vcos_calloc\<close> leaves.\<close>

definition zero_port :: mmal_port where
  "zero_port = \<lparr>po_name = [], po_type = MMAL_PORT_TYPE_UNKNOWN, po_index = 0, po_index_all = 0,
     po_is_enabled = False, po_format = None, po_buffer_num_min = 0, po_buffer_size_min = 0,
     po_buffer_alignment_min = 0, po_buffer_num_recommended = 0, po_buffer_size_recommended = 0,
     po_buffer_num = 0, po_buffer_size = 0, po_component = 0, po_userdata = None, po_capabilities = 0,
     po_pf_set_format = None, po_pf_enable = None, po_pf_disable = None, po_pf_send = None,
     po_pf_flush = None, po_pf_parameter_set = None, po_pf_parameter_get = None,
     po_pf_connect = None, po_pf_payload_alloc = None, po_pf_payload_free = None,
     po_callback = None, po_transit = 0, po_transit_sema = 0, po_format_copy = None,
     po_connected = None, po_core_owns_connection = False, po_pool_for_connection = None,
     po_is_paused = False, po_queue_first = None, po_queue_last = SlotFirst,
     po_stats_rx = zero_stats, po_stats_tx = zero_stats, po_name_size = 0,
     po_module_queue = None, po_needs_configuring = False, po_last_ts = 0, po_clock = None\<rparr>"

definition CAPABILITY_PASSTHROUGH :: u32 where "CAPABILITY_PASSTHROUGH = 1"
definition CAPABILITY_ALLOCATION :: u32 where "CAPABILITY_ALLOCATION = 2"
definition CAPABILITY_SUPPORTS_EVENT_FORMAT_CHANGE :: u32 where
  "CAPABILITY_SUPPORTS_EVENT_FORMAT_CHANGE = 4"

section \<open>Components\<close>

text \<open>A port array with its count is a list; \<open>_base\<close> is the address of the array.\<close>

record mmal_component =
  co_name :: string
  co_is_enabled :: bool
  co_control :: ptr
  co_input_base :: ptr
  co_input :: "addr list"
  co_output_base :: ptr
  co_output :: "addr list"
  co_clock_base :: ptr
  co_clock :: "addr list"
  co_port_base :: ptr
  co_port :: "addr list"
  co_id :: u32
  \<comment> \<open>\<open>MMAL_COMPONENT_PRIVATE_T\<close>\<close>
  co_module :: ptr
  co_pf_enable :: "nat option"
  co_pf_disable :: "nat option"
  co_pf_destroy :: "nat option"
  co_event_pool :: ptr
  co_refcount :: int
  co_refcount_ports :: int
  \<comment> \<open>\<open>MMAL_COMPONENT_CORE_PRIVATE_T\<close>\<close>
  co_pf_action :: "nat option"
  co_action_event :: bool
  co_action_quit :: bool
  co_destruction_pending :: bool
  \<comment> \<open>\<open>MMAL_COMPONENT_MODULE_T\<close>\<close>
  co_status :: mmal_status
  co_error :: bool
  co_enabled_flags :: u32
  co_sent_flags :: u32

definition zero_component :: mmal_component where
  "zero_component = \<lparr>co_name = [], co_is_enabled = False, co_control = None,
     co_input_base = None, co_input = [], co_output_base = None, co_output = [],
     co_clock_base = None, co_clock = [], co_port_base = None, co_port = [], co_id = 0,
     co_module = None, co_pf_enable = None, co_pf_disable = None, co_pf_destroy = None, co_event_pool = None, co_refcount = 0,
     co_refcount_ports = 0, co_pf_action = None, co_action_event = False, co_action_quit = False,
     co_destruction_pending = False, co_status = MMAL_SUCCESS,
     co_error = False, co_enabled_flags = 0, co_sent_flags = 0\<rparr>"

section \<open>Connections\<close>

text \<open>\<open>MMAL_CONNECTION_T\<close> of \<^verbatim>\<open>util/mmal_connection.h\<close> with its private part.\<close>

record mmal_connection =
  cx_callback :: "nat option"
  cx_is_enabled :: bool
  cx_flags :: u32
  cx_in :: addr
  cx_out :: addr
  cx_pool :: ptr
  cx_queue :: "mmal_queue option"
  cx_name :: string
  cx_time_setup :: int
  cx_time_enable :: int
  cx_time_disable :: int
  cx_pool_port :: ptr
  cx_refcount :: int

section \<open>Events\<close>

text \<open>\<open>MMAL_EVENT_FORMAT_CHANGED_T\<close> and the other contents of an event buffer's data.\<close>

record format_changed =
  fc_buffer_size_min :: u32
  fc_buffer_num_min :: u32
  fc_buffer_size_recommended :: u32
  fc_buffer_num_recommended :: u32
  fc_format :: ptr

datatype event_data =
    EventBytes | EventError mmal_status | EventEos port_type "16 word" | EventFormat format_changed
  | EventClock clock_event | EventParameter parameter

definition MMAL_EVENT_ERROR :: u32 where "MMAL_EVENT_ERROR = fourcc ''ERRO''"
definition MMAL_EVENT_EOS :: u32 where "MMAL_EVENT_EOS = fourcc ''EEOS''"
definition MMAL_EVENT_FORMAT_CHANGED :: u32 where "MMAL_EVENT_FORMAT_CHANGED = fourcc ''EFCH''"
definition MMAL_EVENT_PARAMETER_CHANGED :: u32 where "MMAL_EVENT_PARAMETER_CHANGED = fourcc ''EPCH''"

section \<open>The whole state\<close>

text \<open>
  Everything behind the pools and headers: ports, components, formats, event data, the bytes of
  the payloads, the counters of the core, and \<open>w_env\<close>, the state of the system and the client.
\<close>

record 'x world =
  w_port :: "addr \<Rightarrow> mmal_port"
  w_comp :: "addr \<Rightarrow> mmal_component"
  w_fmt :: format_store
  w_event :: "addr \<Rightarrow> event_data"
  w_bytes :: "addr \<Rightarrow> 8 word"
  w_core_refcount :: u32
  w_instance_count :: u32
  w_suppliers :: "(string \<times> nat) list"
  w_conn :: "addr \<Rightarrow> mmal_connection"
  w_env :: 'x

type_synonym 'x pst = "'x world pstate"

definition upd_world :: "('x world \<Rightarrow> 'x world) \<Rightarrow> 'x pst \<Rightarrow> 'x pst" where
  "upd_world f s = s\<lparr>ps_env := f (ps_env s)\<rparr>"

abbreviation port_of :: "'x pst \<Rightarrow> addr \<Rightarrow> mmal_port" where
  "port_of s p \<equiv> w_port (ps_env s) p"

abbreviation comp_of :: "'x pst \<Rightarrow> addr \<Rightarrow> mmal_component" where
  "comp_of s a \<equiv> w_comp (ps_env s) a"

definition upd_port :: "addr \<Rightarrow> (mmal_port \<Rightarrow> mmal_port) \<Rightarrow> 'x pst \<Rightarrow> 'x pst" where
  "upd_port p f = upd_world (\<lambda>w. w\<lparr>w_port := (w_port w)(p := f (w_port w p))\<rparr>)"

definition upd_comp :: "addr \<Rightarrow> (mmal_component \<Rightarrow> mmal_component) \<Rightarrow> 'x pst \<Rightarrow> 'x pst" where
  "upd_comp a f = upd_world (\<lambda>w. w\<lparr>w_comp := (w_comp w)(a := f (w_comp w a))\<rparr>)"

definition upd_conn :: "addr \<Rightarrow> (mmal_connection \<Rightarrow> mmal_connection) \<Rightarrow> 'x pst \<Rightarrow> 'x pst" where
  "upd_conn a f = upd_world (\<lambda>w. w\<lparr>w_conn := (w_conn w)(a := f (w_conn w a))\<rparr>)"

abbreviation conn_of :: "'x pst \<Rightarrow> addr \<Rightarrow> mmal_connection" where
  "conn_of s a \<equiv> w_conn (ps_env s) a"

definition upd_env :: "('x \<Rightarrow> 'x) \<Rightarrow> 'x pst \<Rightarrow> 'x pst" where
  "upd_env f = upd_world (\<lambda>w. w\<lparr>w_env := f (w_env w)\<rparr>)"

lemma upd_world_simps [simp]:
  "ps_env (upd_world f s) = f (ps_env s)" "bufs (upd_world f s) = bufs s"
  "ps_pool (upd_world f s) = ps_pool s"
  "upd_world f (upd_world g s) = upd_world (f \<circ> g) s"
  by (simp_all add: upd_world_def)

lemma upd_port_simps [simp]:
  "port_of (upd_port p f s) q = (if q = p then f (port_of s p) else port_of s q)"
  "bufs (upd_port p f s) = bufs s" "ps_pool (upd_port p f s) = ps_pool s"
  "w_comp (ps_env (upd_port p f s)) = w_comp (ps_env s)"
  "w_conn (ps_env (upd_port p f s)) = w_conn (ps_env s)"
  "w_fmt (ps_env (upd_port p f s)) = w_fmt (ps_env s)"
  "w_event (ps_env (upd_port p f s)) = w_event (ps_env s)"
  "w_bytes (ps_env (upd_port p f s)) = w_bytes (ps_env s)"
  "w_core_refcount (ps_env (upd_port p f s)) = w_core_refcount (ps_env s)"
  "w_env (ps_env (upd_port p f s)) = w_env (ps_env s)"
  by (simp_all add: upd_port_def)

lemma upd_comp_simps [simp]:
  "comp_of (upd_comp a g s) b = (if b = a then g (comp_of s a) else comp_of s b)"
  "bufs (upd_comp a g s) = bufs s" "ps_pool (upd_comp a g s) = ps_pool s"
  "w_port (ps_env (upd_comp a g s)) = w_port (ps_env s)"
  "w_conn (ps_env (upd_comp a g s)) = w_conn (ps_env s)"
  "w_fmt (ps_env (upd_comp a g s)) = w_fmt (ps_env s)"
  "w_event (ps_env (upd_comp a g s)) = w_event (ps_env s)"
  "w_bytes (ps_env (upd_comp a g s)) = w_bytes (ps_env s)"
  "w_core_refcount (ps_env (upd_comp a g s)) = w_core_refcount (ps_env s)"
  "w_env (ps_env (upd_comp a g s)) = w_env (ps_env s)"
  by (simp_all add: upd_comp_def)

lemma upd_conn_simps [simp]:
  "conn_of (upd_conn a k s) b = (if b = a then k (conn_of s a) else conn_of s b)"
  "bufs (upd_conn a k s) = bufs s" "ps_pool (upd_conn a k s) = ps_pool s"
  "w_port (ps_env (upd_conn a k s)) = w_port (ps_env s)"
  "w_comp (ps_env (upd_conn a k s)) = w_comp (ps_env s)"
  "w_fmt (ps_env (upd_conn a k s)) = w_fmt (ps_env s)"
  "w_event (ps_env (upd_conn a k s)) = w_event (ps_env s)"
  "w_bytes (ps_env (upd_conn a k s)) = w_bytes (ps_env s)"
  "w_core_refcount (ps_env (upd_conn a k s)) = w_core_refcount (ps_env s)"
  "w_env (ps_env (upd_conn a k s)) = w_env (ps_env s)"
  by (simp_all add: upd_conn_def)

lemma upd_env_simps [simp]:
  "w_env (ps_env (upd_env h s)) = h (w_env (ps_env s))"
  "bufs (upd_env h s) = bufs s" "ps_pool (upd_env h s) = ps_pool s"
  "w_port (ps_env (upd_env h s)) = w_port (ps_env s)"
  "w_comp (ps_env (upd_env h s)) = w_comp (ps_env s)"
  "w_conn (ps_env (upd_env h s)) = w_conn (ps_env s)"
  "w_fmt (ps_env (upd_env h s)) = w_fmt (ps_env s)"
  "w_event (ps_env (upd_env h s)) = w_event (ps_env s)"
  "w_bytes (ps_env (upd_env h s)) = w_bytes (ps_env s)"
  "w_core_refcount (ps_env (upd_env h s)) = w_core_refcount (ps_env s)"
  by (simp_all add: upd_env_def)

section \<open>What the core calls\<close>

text \<open>Sizes of the structures, which the compiler fixes.\<close>

record port_sizes =
  sizeof_port :: u32                \<comment> \<open>the port with its private and core parts\<close>
  sizeof_event_format_changed :: u32
  sizeof_es_format :: u32
  sizeof_es_format_private :: u32
  sizeof_es_specific :: u32
  sizeof_component :: u32           \<comment> \<open>with its private part\<close>
  sizeof_module :: u32
  sizeof_port_module :: u32

type_synonym 'x status_op = "'x pst \<Rightarrow> (mmal_status \<times> 'x pst) outcome"

text \<open>
  The functions of a component and of the client by identifier, the creation of a mutex, semaphore,
  event or thread (\<open>pp_sync\<close>), the microsecond clock, the release callbacks of buffer headers,
  and the content of fresh blocks.
\<close>

record 'x port_ops =
  pp_pools :: "'x world pool_ops"
  pp_sizes :: port_sizes
  pp_sync :: "'x \<Rightarrow> bool \<times> 'x"
  pp_time :: "'x \<Rightarrow> u32 \<times> 'x"
  pp_junk :: "addr \<Rightarrow> nat \<Rightarrow> 8 word list"
  pp_collect_stats :: bool
  pp_pre :: "nat \<Rightarrow> addr \<Rightarrow> ptr \<Rightarrow> 'x pst \<Rightarrow> bool \<times> 'x pst"
  pp_cb :: "nat \<Rightarrow> addr \<Rightarrow> addr \<Rightarrow> 'x pst \<Rightarrow> 'x pst outcome"
  pp_set_format :: "nat \<Rightarrow> addr \<Rightarrow> 'x status_op"
  pp_enable :: "nat \<Rightarrow> addr \<Rightarrow> nat option \<Rightarrow> 'x status_op"
  pp_disable :: "nat \<Rightarrow> addr \<Rightarrow> 'x status_op"
  pp_send :: "nat \<Rightarrow> addr \<Rightarrow> addr \<Rightarrow> 'x status_op"
  pp_flush :: "nat \<Rightarrow> addr \<Rightarrow> 'x status_op"
  pp_parameter_set :: "nat \<Rightarrow> addr \<Rightarrow> parameter \<Rightarrow> 'x status_op"
  pp_parameter_get :: "nat \<Rightarrow> addr \<Rightarrow> parameter \<Rightarrow> 'x pst \<Rightarrow> (mmal_status \<times> parameter \<times> 'x pst) outcome"
  pp_connect :: "nat \<Rightarrow> addr \<Rightarrow> ptr \<Rightarrow> 'x status_op"
  pp_comp :: "nat \<Rightarrow> addr \<Rightarrow> 'x status_op"         \<comment> \<open>a component's enable, disable and destroy\<close>
  pp_connection_cb :: "nat \<Rightarrow> addr \<Rightarrow> 'x pst \<Rightarrow> 'x pst outcome"
  pp_construct :: "nat \<Rightarrow> string \<Rightarrow> addr \<Rightarrow> 'x status_op"
  pp_action :: "nat \<Rightarrow> addr \<Rightarrow> 'x pst \<Rightarrow> 'x pst outcome"
  pp_payload_alloc :: "nat \<Rightarrow> addr \<Rightarrow> u32 \<Rightarrow> 'x pst \<Rightarrow> (ptr \<times> 'x pst) outcome"
  pp_payload_free :: "nat \<Rightarrow> addr \<Rightarrow> addr \<Rightarrow> 'x pst \<Rightarrow> 'x pst outcome"

definition vcos_sync_create :: "'x port_ops \<Rightarrow> 'x pst \<Rightarrow> bool \<times> 'x pst" where
  "vcos_sync_create c s =
     (case pp_sync c (w_env (ps_env s)) of (ok, e) \<Rightarrow> (ok, upd_env (\<lambda>_. e) s))"

definition vcos_getmicrosecs :: "'x port_ops \<Rightarrow> 'x pst \<Rightarrow> u32 \<times> 'x pst" where
  "vcos_getmicrosecs c s =
     (case pp_time c (w_env (ps_env s)) of (t, e) \<Rightarrow> (t, upd_env (\<lambda>_. e) s))"

definition vcos_malloc :: "'x port_ops \<Rightarrow> u32 \<Rightarrow> 'x pst \<Rightarrow> ptr \<times> 'x pst" where
  "vcos_malloc c sz s =
     (case op_malloc (pp_pools c) sz (ps_env s) of (p, w) \<Rightarrow> (p, upd_world (\<lambda>_. w) s))"

definition vcos_free :: "'x port_ops \<Rightarrow> addr \<Rightarrow> 'x pst \<Rightarrow> 'x pst" where
  "vcos_free c a s = upd_world (op_free (pp_pools c) a) s"

definition world_queue_create :: "'x port_ops \<Rightarrow> 'x pst \<Rightarrow> mmal_queue option \<times> 'x pst" where
  "world_queue_create c s =
     (let (mem, s1) = vcos_sync_create c s;
          (mutex, s2) = (if mem then vcos_sync_create c s1 else (False, s1));
          (sema, s3) = (if mutex then vcos_sync_create c s2 else (False, s2))
      in (mmal_queue_create mem (if mutex then VCOS_SUCCESS else VCOS_ENOMEM)
            (if sema then VCOS_SUCCESS else VCOS_ENOMEM), s3))"

text \<open>Formats: the operations of \<open>Mmal_Format\<close> on the world, with their allocations. The block of
  the extradata is replaced when the recorded size is too small.\<close>

definition on_fmt :: "format_store \<Rightarrow> 'x pst \<Rightarrow> 'x pst" where
  "on_fmt st = upd_world (\<lambda>w. w\<lparr>w_fmt := st\<rparr>)"

definition world_format_alloc :: "'x port_ops \<Rightarrow> 'x pst \<Rightarrow> ptr \<times> 'x pst" where
  "world_format_alloc c s =
     (let (mem, s1) = vcos_malloc c (sizeof_es_format_private (pp_sizes c)) s;
          (f, st) = mmal_format_alloc mem (w_fmt (ps_env s1))
      in (f, on_fmt st s1))"

definition world_format_free :: "'x port_ops \<Rightarrow> addr \<Rightarrow> 'x pst \<Rightarrow> 'x pst" where
  "world_format_free c f s =
     (let (blocks, st) = mmal_format_free f (w_fmt (ps_env s))
      in fold (vcos_free c) blocks (on_fmt st s))"

definition extradata_grows :: "addr \<Rightarrow> addr \<Rightarrow> format_store \<Rightarrow> bool" where
  "extradata_grows dst src st =
     (let n = ef_extradata_size (fs_format (mmal_format_copy dst src st) src)
      in n \<noteq> 0 \<and> n \<le> EXTRADATA_SIZE_MAX \<and> fp_extradata_size (fs_private st dst) < n)"

definition world_format_full_copy ::
  "'x port_ops \<Rightarrow> addr \<Rightarrow> addr \<Rightarrow> 'x pst \<Rightarrow> (mmal_status \<times> 'x pst) outcome" where
  "world_format_full_copy c dst src s =
     (let n = ef_extradata_size (fs_format (w_fmt (ps_env s)) src);
          grows = extradata_grows dst src (w_fmt (ps_env s));
          s1 = (case fp_extradata (fs_private (w_fmt (ps_env s)) dst) of
                  Some b \<Rightarrow> if grows then vcos_free c b s else s | None \<Rightarrow> s);
          (mem, s2) = (if grows then vcos_malloc c n s1 else (None, s1))
      in andthen (or_faults (mmal_format_full_copy (map_option (\<lambda>a. (a, pp_junk c a (unat n))) mem)
                               dst src (w_fmt (ps_env s2))))
           (\<lambda>(st, fmt). ret (st, on_fmt fmt s2)))"

text \<open>A release that does not return (a null release callback, an endless chain of replicas) is a
  fault.\<close>

definition header_release :: "'x port_ops \<Rightarrow> addr \<Rightarrow> 'x pst \<Rightarrow> 'x pst outcome" where
  "header_release c b s = or_faults (pool_header_release (pp_pools c) (pp_pre c) b s)"

section \<open>An empty world\<close>

text \<open>For examples: nothing allocated, every field zero.\<close>

definition blank_pool :: mmal_pool where
  "blank_pool = \<lparr>pl_queue = None, pl_headers_num = 0, pl_base = None, pl_header = (\<lambda>_. 0), pl_cb = None,
     pl_userdata = None, pl_allocator_alloc = None, pl_allocator_free = None, pl_allocator_context = None,
     pl_header_size = 0, pl_payload_size = 0, pl_headers_alloc_num = 0\<rparr>"

definition blank_connection :: mmal_connection where
  "blank_connection = \<lparr>cx_callback = None, cx_is_enabled = False, cx_flags = 0, cx_in = 0, cx_out = 0,
     cx_pool = None, cx_queue = None, cx_name = [], cx_time_setup = 0, cx_time_enable = 0,
     cx_time_disable = 0, cx_pool_port = None, cx_refcount = 0\<rparr>"

definition blank_format :: es_format where
  "blank_format = \<lparr>ef_type = MMAL_ES_TYPE_UNKNOWN, ef_encoding = 0, ef_encoding_variant = 0, ef_es = 0,
     ef_bitrate = 0, ef_flags = 0, ef_extradata_size = 0, ef_extradata = NullBytes\<rparr>"

definition empty_world :: "unit pst" where
  "empty_world = \<lparr>bufs = (\<lambda>_. zero_header), ps_pool = (\<lambda>_. blank_pool),
     ps_env = \<lparr>w_port = (\<lambda>_. zero_port), w_comp = (\<lambda>_. zero_component),
       w_fmt = \<lparr>fs_format = (\<lambda>_. blank_format),
         fs_private = (\<lambda>_. \<lparr>fp_magic = 0, fp_extradata_size = 0, fp_extradata = None, fp_buffer = []\<rparr>),
         fs_es = (\<lambda>_. []), fs_blocks = (\<lambda>_. None)\<rparr>,
       w_event = (\<lambda>_. EventBytes), w_bytes = (\<lambda>_. 0), w_core_refcount = 0, w_instance_count = 0,
       w_suppliers = [], w_conn = (\<lambda>_. blank_connection), w_env = ()\<rparr>\<rparr>"

end
