(* ===== verification/Mmal_Port.thy ===== *)
theory Mmal_Port
  imports Mmal_World
begin

text \<open>
  The operations of a single port (\<^verbatim>\<open>core/mmal_port.c\<close>): allocation, format commit, enabling and
  disabling, sending and returning buffer headers with the count of headers in transit, flushing
  and pausing, parameters and statistics.
\<close>

section \<open>Names\<close>

fun decimal :: "nat \<Rightarrow> string" where
  "decimal n = (if n < 10 then [char_of (48 + n)] else decimal (n div 10) @ [char_of (48 + n mod 10)])"

declare decimal.simps [simp del]

text \<open>The conversion \<open>%4.4s\<close> of the encoding: at most four characters, padded on the left.\<close>

definition encoding_chars :: "u32 \<Rightarrow> string" where
  "encoding_chars e =
     (let cs = map (char_of \<circ> unat) (takeWhile (\<lambda>b. b \<noteq> 0)
        [ucast e :: 8 word, ucast (drop_bit 8 e), ucast (drop_bit 16 e), ucast (drop_bit 24 e)])
      in replicate (4 - length cs) (CHR 0x20) @ cs)"

definition SIZEOF_PORT_NAME_FORMAT :: nat where "SIZEOF_PORT_NAME_FORMAT = 22"

text \<open>Without an encoding the name ends at the null character printed for \<open>%c\<close>.\<close>

definition port_full_name :: "string \<Rightarrow> port_type \<Rightarrow> 16 word \<Rightarrow> u32 \<Rightarrow> string" where
  "port_full_name cname t index encoding =
     cname @ '':'' @ mmal_port_type_to_string t @ '':'' @ decimal (unat index)
       @ (if encoding \<noteq> 0 then ''('' @ encoding_chars encoding @ '')'' else [])"

definition mmal_port_name_update :: "addr \<Rightarrow> 'x pst \<Rightarrow> 'x pst" where
  "mmal_port_name_update p s =
     (let P = port_of s p;
          enc = (case po_format P of None \<Rightarrow> 0 | Some f \<Rightarrow> ef_encoding (fs_format (w_fmt (ps_env s)) f))
      in upd_port p (\<lambda>P. P\<lparr>po_name := take (po_name_size P - 2)
           (port_full_name (co_name (comp_of s (po_component P))) (po_type P) (po_index P) enc)\<rparr>) s)"

section \<open>Allocation\<close>

definition CONNECT_DEFAULT :: nat where "CONNECT_DEFAULT = 0"

definition fresh_port :: "addr \<Rightarrow> port_type \<Rightarrow> nat \<Rightarrow> mmal_port" where
  "fresh_port component t name_size =
     zero_port\<lparr>po_type := t, po_component := component, po_name_size := name_size,
       po_queue_last := SlotFirst, po_pf_connect := Some CONNECT_DEFAULT\<rparr>"

definition mmal_port_alloc ::
  "'x port_ops \<Rightarrow> addr \<Rightarrow> port_type \<Rightarrow> u32 \<Rightarrow> 'x pst \<Rightarrow> ptr \<times> 'x pst" where
  "mmal_port_alloc c component t extra_size s =
     (let name_size = length (co_name (comp_of s component)) + SIZEOF_PORT_NAME_FORMAT;
          (port, s1) = vcos_malloc c (sizeof_port (pp_sizes c) + of_nat name_size + extra_size) s
      in case port of
           None \<Rightarrow> (None, s1)
         | Some p \<Rightarrow>
             let s2 = mmal_port_name_update p (upd_port p (\<lambda>_. fresh_port component t name_size) s1);
                 (lock, s3) = vcos_sync_create c s2;
                 (lock_send, s4) = vcos_sync_create c s3;
                 (lock_transit, s5) = vcos_sync_create c s4;
                 (sema_transit, s6) = vcos_sync_create c s5;
                 (lock_stats, s7) = vcos_sync_create c s6;
                 (lock_connection, s8) = vcos_sync_create c s7;
                 s9 = (if sema_transit then upd_port p (\<lambda>P. P\<lparr>po_transit_sema := 1\<rparr>) s8 else s8)
             in if \<not> lock \<or> \<not> lock_send \<or> \<not> lock_transit \<or> \<not> sema_transit \<or> \<not> lock_stats
                   \<or> \<not> lock_connection
                then (None, vcos_free c p s9)
                else case world_format_alloc c s9 of
                       (None, s10) \<Rightarrow> (None, vcos_free c p s10)
                     | (Some f, s10) \<Rightarrow>
                         (Some p, upd_port p (\<lambda>P. P\<lparr>po_format := Some f, po_format_copy := Some f\<rparr>) s10))"

definition mmal_port_free :: "'x port_ops \<Rightarrow> ptr \<Rightarrow> 'x pst \<Rightarrow> 'x pst outcome" where
  "mmal_port_free c port s =
     (case port of
        None \<Rightarrow> ret s
      | Some p \<Rightarrow>
          (case po_format_copy (port_of s p) of
             None \<Rightarrow> Some Faults
           | Some f \<Rightarrow> ret (vcos_free c p (world_format_free c f s))))"

fun ports_free_loop :: "'x port_ops \<Rightarrow> addr list \<Rightarrow> 'x pst \<Rightarrow> 'x pst outcome" where
  "ports_free_loop c [] s = ret s"
| "ports_free_loop c (p # ps) s = andthen (mmal_port_free c (Some p) s) (ports_free_loop c ps)"

text \<open>The loop of \<open>mmal_ports_alloc\<close>, with \<open>n\<close> ports to go; the flag says whether all were allocated.\<close>

fun ports_alloc_loop ::
  "'x port_ops \<Rightarrow> addr \<Rightarrow> port_type \<Rightarrow> u32 \<Rightarrow> nat \<Rightarrow> addr list \<Rightarrow> 'x pst \<Rightarrow> bool \<times> addr list \<times> 'x pst" where
  "ports_alloc_loop c component t extra 0 ports s = (True, ports, s)"
| "ports_alloc_loop c component t extra (Suc n) ports s =
     (case mmal_port_alloc c component t extra s of
        (None, s1) \<Rightarrow> (False, ports, s1)
      | (Some p, s1) \<Rightarrow>
          ports_alloc_loop c component t extra n (ports @ [p])
            (mmal_port_name_update p (upd_port p (\<lambda>P. P\<lparr>po_index := of_nat (length ports)\<rparr>) s1)))"

definition mmal_ports_alloc ::
  "'x port_ops \<Rightarrow> addr \<Rightarrow> u32 \<Rightarrow> port_type \<Rightarrow> u32 \<Rightarrow> 'x pst \<Rightarrow> ((addr \<times> addr list) option \<times> 'x pst) outcome" where
  "mmal_ports_alloc c component ports_num t extra s =
     (let (base, s1) = vcos_malloc c (sizeof_ptr (op_abi (pp_pools c)) * ports_num) s in
      case base of
        None \<Rightarrow> ret (None, s1)
      | Some a \<Rightarrow>
          (case ports_alloc_loop c component t extra (unat ports_num) [] s1 of
             (ok, ports, s2) \<Rightarrow>
               if ok then ret (Some (a, ports), s2)
               else andthen (ports_free_loop c ports s2) (\<lambda>s3. ret (None, vcos_free c a s3))))"

definition mmal_ports_free :: "'x port_ops \<Rightarrow> addr \<Rightarrow> addr list \<Rightarrow> 'x pst \<Rightarrow> 'x pst outcome" where
  "mmal_ports_free c base ports s =
     andthen (ports_free_loop c ports s) (\<lambda>s1. ret (vcos_free c base s1))"

section \<open>Statistics and parameters\<close>

definition update_stats :: "u32 \<Rightarrow> core_stats \<Rightarrow> core_stats" where
  "update_stats stc st =
     (let st1 = st\<lparr>cs_buffer_count := cs_buffer_count st + 1\<rparr>
      in if cs_first_buffer_time st1 = 0
         then st1\<lparr>cs_first_buffer_time := stc, cs_last_buffer_time := stc\<rparr>
         else st1\<lparr>cs_max_delay := max (cs_max_delay st1) (stc - cs_last_buffer_time st1),
                  cs_last_buffer_time := stc\<rparr>)"

definition mmal_port_update_port_stats :: "'x port_ops \<Rightarrow> addr \<Rightarrow> bool \<Rightarrow> 'x pst \<Rightarrow> 'x pst" where
  "mmal_port_update_port_stats c p rx s =
     (let (stc, s1) = vcos_getmicrosecs c s
      in upd_port p (\<lambda>P. if rx then P\<lparr>po_stats_rx := update_stats stc (po_stats_rx P)\<rparr>
                         else P\<lparr>po_stats_tx := update_stats stc (po_stats_tx P)\<rparr>) s1)"

definition MMAL_PARAMETER_CORE_STATISTICS :: u32 where "MMAL_PARAMETER_CORE_STATISTICS = 7"
definition MMAL_CORE_STATS_RX :: u32 where "MMAL_CORE_STATS_RX = 0"

text \<open>The words of the parameter: direction, reset flag, and the four counters.\<close>

definition mmal_port_get_core_stats ::
  "addr \<Rightarrow> parameter \<Rightarrow> 'x pst \<Rightarrow> mmal_status \<times> parameter \<times> 'x pst" where
  "mmal_port_get_core_stats p param s =
     (let rx = pm_data param ! 0 = MMAL_CORE_STATS_RX;
          src = (if rx then po_stats_rx (port_of s p) else po_stats_tx (port_of s p));
          param' = param\<lparr>pm_data := take 2 (pm_data param) @ [cs_buffer_count src,
             cs_first_buffer_time src, cs_last_buffer_time src, cs_max_delay src]\<rparr>
      in (MMAL_SUCCESS, param',
          if pm_data param ! 1 \<noteq> 0
          then upd_port p (\<lambda>P. if rx then P\<lparr>po_stats_rx := zero_stats\<rparr> else P\<lparr>po_stats_tx := zero_stats\<rparr>) s
          else s))"

definition mmal_port_private_parameter_get ::
  "addr \<Rightarrow> parameter \<Rightarrow> 'x pst \<Rightarrow> mmal_status \<times> parameter \<times> 'x pst" where
  "mmal_port_private_parameter_get p param s =
     (if pm_id param = MMAL_PARAMETER_CORE_STATISTICS then mmal_port_get_core_stats p param s
      else (MMAL_ENOSYS, param, s))"

definition mmal_port_private_parameter_set :: "addr \<Rightarrow> parameter \<Rightarrow> mmal_status" where
  "mmal_port_private_parameter_set p param = MMAL_ENOSYS"

definition mmal_port_parameter_set ::
  "'x port_ops \<Rightarrow> ptr \<Rightarrow> parameter option \<Rightarrow> 'x status_op" where
  "mmal_port_parameter_set c port param s =
     (case (port, param) of
        (Some p, Some pm) \<Rightarrow>
          andthen (case po_pf_parameter_set (port_of s p) of
                     None \<Rightarrow> ret (MMAL_ENOSYS, s)
                   | Some f \<Rightarrow> pp_parameter_set c f p pm s)
            (\<lambda>(st, s1). ret (if st = MMAL_ENOSYS then mmal_port_private_parameter_set p pm else st, s1))
      | _ \<Rightarrow> ret (MMAL_EINVAL, s))"

definition mmal_port_parameter_get ::
  "'x port_ops \<Rightarrow> ptr \<Rightarrow> parameter \<Rightarrow> 'x pst \<Rightarrow> (mmal_status \<times> parameter \<times> 'x pst) outcome" where
  "mmal_port_parameter_get c port pm s =
     (case port of
        None \<Rightarrow> ret (MMAL_EINVAL, pm, s)
      | Some p \<Rightarrow>
          andthen (case po_pf_parameter_get (port_of s p) of
                     None \<Rightarrow> ret (MMAL_ENOSYS, pm, s)
                   | Some f \<Rightarrow> pp_parameter_get c f p pm s)
            (\<lambda>(st, pm1, s1). ret (if st = MMAL_ENOSYS then mmal_port_private_parameter_get p pm1 s1
                                 else (st, pm1, s1))))"

section \<open>Headers in transit\<close>

definition in_transit_increment :: "addr \<Rightarrow> 'x pst \<Rightarrow> 'x pst outcome" where
  "in_transit_increment p s =
     (let n = po_transit (port_of s p); s1 = upd_port p (\<lambda>P. P\<lparr>po_transit := n + 1\<rparr>) s
      in if n = 0
         then andthen (or_blocks (sem_wait (po_transit_sema (port_of s1 p))))
                (\<lambda>k. ret (upd_port p (\<lambda>P. P\<lparr>po_transit_sema := k\<rparr>) s1))
         else ret s1)"

definition in_transit_decrement :: "addr \<Rightarrow> 'x pst \<Rightarrow> 'x pst" where
  "in_transit_decrement p s =
     (let n = po_transit (port_of s p) - 1
      in upd_port p (\<lambda>P. P\<lparr>po_transit := n,
           po_transit_sema := (if n = 0 then sem_post (po_transit_sema P) else po_transit_sema P)\<rparr>) s)"

definition in_transit_wait :: "addr \<Rightarrow> 'x pst \<Rightarrow> 'x pst outcome" where
  "in_transit_wait p s =
     andthen (or_blocks (sem_wait (po_transit_sema (port_of s p))))
       (\<lambda>k. ret (upd_port p (\<lambda>P. P\<lparr>po_transit_sema := sem_post k\<rparr>) s))"

definition mmal_port_buffer_header_callback :: "'x port_ops \<Rightarrow> addr \<Rightarrow> addr \<Rightarrow> 'x pst \<Rightarrow> 'x pst outcome" where
  "mmal_port_buffer_header_callback c p b s =
     (let s1 = (if pp_collect_stats c then mmal_port_update_port_stats c p False s else s)
      in case po_callback (port_of s1 p) of
           None \<Rightarrow> Some Faults
         | Some f \<Rightarrow> andthen (pp_cb c f p b s1) (\<lambda>s2. ret (in_transit_decrement p s2)))"

definition mmal_port_event_send :: "'x port_ops \<Rightarrow> addr \<Rightarrow> addr \<Rightarrow> 'x pst \<Rightarrow> 'x pst outcome" where
  "mmal_port_event_send c p b s =
     (case po_callback (port_of s p) of
        Some f \<Rightarrow> pp_cb c f p b s
      | None \<Rightarrow> header_release c b s)"

text \<open>\<open>while (buffer) { next = buffer->next; callback; buffer = next; }\<close>\<close>

partial_function (option) flush_loop :: "'x port_ops \<Rightarrow> addr \<Rightarrow> ptr \<Rightarrow> 'x pst \<Rightarrow> 'x pst outcome" where
  "flush_loop c p buffer s =
     (case buffer of
        None \<Rightarrow> ret s
      | Some b \<Rightarrow>
          let next = bh_next (bufs s b)
          in andthen (mmal_port_buffer_header_callback c p b s) (\<lambda>s1. flush_loop c p next s1))"

text \<open>\<open>*port->priv->core->queue_last = b\<close>\<close>

definition port_queue_write :: "addr \<Rightarrow> addr \<Rightarrow> 'x pst \<Rightarrow> 'x pst" where
  "port_queue_write p b s =
     (case po_queue_last (port_of s p) of
        SlotFirst \<Rightarrow> upd_port p (\<lambda>P. P\<lparr>po_queue_first := Some b\<rparr>) s
      | SlotNext a \<Rightarrow> set_next a (Some b) s)"

definition port_queue_reset :: "addr \<Rightarrow> 'x pst \<Rightarrow> 'x pst" where
  "port_queue_reset p = upd_port p (\<lambda>P. P\<lparr>po_queue_first := None, po_queue_last := SlotFirst\<rparr>)"

section \<open>Sending, flushing, pausing\<close>

definition mmal_port_send_buffer :: "'x port_ops \<Rightarrow> ptr \<Rightarrow> addr \<Rightarrow> 'x status_op" where
  "mmal_port_send_buffer c port b s =
     (case port of
        None \<Rightarrow> ret (MMAL_EINVAL, s)
      | Some p \<Rightarrow>
          if bh_data (bufs s b) = None \<and> po_capabilities (port_of s p) AND CAPABILITY_PASSTHROUGH = 0
          then ret (MMAL_EINVAL, s)
          else case po_pf_send (port_of s p) of
            None \<Rightarrow> ret (MMAL_ENOSYS, s)
          | Some f \<Rightarrow>
              if \<not> po_is_enabled (port_of s p) then ret (MMAL_EINVAL, s)
              else
                let s1 = (if po_type (port_of s p) = MMAL_PORT_TYPE_OUTPUT \<and> bh_length (bufs s b) \<noteq> 0
                          then upd_buf b (\<lambda>B. B\<lparr>bh_length := 0\<rparr>) s else s)
                in andthen (in_transit_increment p s1) (\<lambda>s2.
                   andthen
                     (if po_is_paused (port_of s2 p)
                      then let s3 = port_queue_write p b (set_next b None s2)
                           in ret (MMAL_SUCCESS, upd_port p (\<lambda>P. P\<lparr>po_queue_last := SlotNext b\<rparr>) s3)
                      else pp_send c f p b s2)
                     (\<lambda>(st, s3). ret (st, if st \<noteq> MMAL_SUCCESS then in_transit_decrement p s3
                                          else mmal_port_update_port_stats c p True s3))))"

definition mmal_port_flush :: "'x port_ops \<Rightarrow> ptr \<Rightarrow> 'x status_op" where
  "mmal_port_flush c port s =
     (case port of
        None \<Rightarrow> ret (MMAL_EINVAL, s)
      | Some p \<Rightarrow>
          case po_pf_flush (port_of s p) of
            None \<Rightarrow> ret (MMAL_ENOSYS, s)
          | Some f \<Rightarrow>
              if \<not> po_is_enabled (port_of s p) then ret (MMAL_SUCCESS, s)
              else andthen (pp_flush c f p s) (\<lambda>(st, s1).
                let buffer = (if st = MMAL_SUCCESS then po_queue_first (port_of s1 p) else None);
                    s2 = (if st = MMAL_SUCCESS then port_queue_reset p s1 else s1)
                in andthen (flush_loop c p buffer s2) (\<lambda>s3. ret (st, s3))))"

text \<open>The loop of \<open>mmal_port_pause\<close>; the result has the first header that was not sent.\<close>

partial_function (option) pause_loop ::
  "'x port_ops \<Rightarrow> addr \<Rightarrow> ptr \<Rightarrow> 'x pst \<Rightarrow> (mmal_status \<times> ptr \<times> 'x pst) outcome" where
  "pause_loop c p buffer s =
     (case buffer of
        None \<Rightarrow> ret (MMAL_SUCCESS, None, s)
      | Some b \<Rightarrow>
          (case po_pf_send (port_of s p) of
             None \<Rightarrow> Some Faults
           | Some f \<Rightarrow>
               let next = bh_next (bufs s b)
               in andthen (pp_send c f p b s) (\<lambda>r.
                  if fst r \<noteq> MMAL_SUCCESS then ret (fst r, Some b, set_next b next (snd r))
                  else pause_loop c p next (snd r))))"

definition mmal_port_pause :: "'x port_ops \<Rightarrow> addr \<Rightarrow> bool \<Rightarrow> 'x status_op" where
  "mmal_port_pause c p pause s =
     andthen
       (if \<not> pause \<and> po_is_enabled (port_of s p)
        then andthen (pause_loop c p (po_queue_first (port_of s p)) s) (\<lambda>(st, buffer, s1).
               ret (st, if st \<noteq> MMAL_SUCCESS then upd_port p (\<lambda>P. P\<lparr>po_queue_first := buffer\<rparr>) s1
                        else port_queue_reset p s1))
        else ret (MMAL_SUCCESS, s))
       (\<lambda>(st, s1). ret (st, if st = MMAL_SUCCESS then upd_port p (\<lambda>P. P\<lparr>po_is_paused := pause\<rparr>) s1
                            else s1))"

section \<open>Enabling, disabling, committing a format\<close>

definition mmal_port_enable_internal :: "'x port_ops \<Rightarrow> addr \<Rightarrow> nat option \<Rightarrow> 'x status_op" where
  "mmal_port_enable_internal c p cb s =
     (let P = port_of s p in
      if po_is_enabled P then ret (MMAL_SUCCESS, s)
      else if po_buffer_num P < po_buffer_num_min P then ret (MMAL_EINVAL, s)
      else if po_buffer_size P < po_buffer_size_min P then ret (MMAL_EINVAL, s)
      else let s1 = upd_port p (\<lambda>P. P\<lparr>po_callback := cb\<rparr>) s
           in case po_pf_enable P of
                None \<Rightarrow> Some Faults
              | Some f \<Rightarrow>
                  andthen (pp_enable c f p cb s1) (\<lambda>(st, s2).
                    ret (st, if st \<noteq> MMAL_SUCCESS then s2
                             else upd_port p (\<lambda>P. P\<lparr>po_is_enabled := True\<rparr>) s2)))"

definition mmal_port_disable_internal :: "'x port_ops \<Rightarrow> addr \<Rightarrow> 'x status_op" where
  "mmal_port_disable_internal c p s =
     (if \<not> po_is_enabled (port_of s p) then ret (MMAL_SUCCESS, s)
      else
        let s1 = upd_port p (\<lambda>P. P\<lparr>po_is_enabled := False\<rparr>) s;
            s2 = (case po_pool_for_connection (port_of s1 p) of
                    None \<Rightarrow> s1 | Some pool \<Rightarrow> mmal_pool_callback_set pool None None s1)
        in case po_pf_disable (port_of s2 p) of
             None \<Rightarrow> Some Faults
           | Some f \<Rightarrow>
               andthen (pp_disable c f p s2) (\<lambda>(st, s3).
                 if st \<noteq> MMAL_SUCCESS then ret (st, upd_port p (\<lambda>P. P\<lparr>po_is_enabled := True\<rparr>) s3)
                 else
                   andthen (flush_loop c p (po_queue_first (port_of s3 p)) s3) (\<lambda>s4.
                   andthen (in_transit_wait p (port_queue_reset p s4)) (\<lambda>s5.
                   ret (MMAL_SUCCESS, upd_port p (\<lambda>P. P\<lparr>po_callback := None\<rparr>) s5)))))"

definition sensible_buffers :: "addr \<Rightarrow> 'x pst \<Rightarrow> 'x pst" where
  "sensible_buffers p = upd_port p (\<lambda>P. P\<lparr>
     po_buffer_size := (if po_buffer_size P < po_buffer_size_min P then po_buffer_size_min P else po_buffer_size P),
     po_buffer_num := (if po_buffer_num P < po_buffer_num_min P then po_buffer_num_min P else po_buffer_num P)\<rparr>)"

definition mmal_port_format_commit :: "'x port_ops \<Rightarrow> ptr \<Rightarrow> 'x status_op" where
  "mmal_port_format_commit c port s =
     (case port of
        None \<Rightarrow> ret (MMAL_EINVAL, s)
      | Some p \<Rightarrow>
          let P = port_of s p in
          if po_format P \<noteq> po_format_copy P
          then ret (MMAL_EFAULT, upd_port p (\<lambda>P. P\<lparr>po_format := po_format_copy P\<rparr>) s)
          else case po_pf_set_format P of
            None \<Rightarrow> ret (MMAL_ENOSYS, s)
          | Some f \<Rightarrow>
              andthen (pp_set_format c f p s) (\<lambda>(st, s1).
                let s2 = sensible_buffers p (mmal_port_name_update p s1)
                in ret (st, if po_type (port_of s2 p) = MMAL_PORT_TYPE_INPUT
                            then fold sensible_buffers (co_output (comp_of s2 (po_component (port_of s2 p)))) s2
                            else s2)))"

definition mmal_port_is_connected :: "addr \<Rightarrow> 'x pst \<Rightarrow> bool" where
  "mmal_port_is_connected p s \<longleftrightarrow> po_connected (port_of s p) \<noteq> None"

end
