(* ===== verification/Mmal_Events.thy ===== *)
theory Mmal_Events
  imports Mmal_Port
begin

text \<open>
  Event buffers (\<^verbatim>\<open>core/mmal_events.c\<close>, \<open>mmal_port_event_get\<close> of \<^verbatim>\<open>core/mmal_port.c\<close>): taking a
  header from the component's event pool, the layout of a format-changed event, and the error and
  end-of-stream events sent on the control port.
\<close>

section \<open>The format-changed event in a buffer\<close>

definition event_format_size :: "'x port_ops \<Rightarrow> u32" where
  "event_format_size c =
     sizeof_event_format_changed (pp_sizes c) + sizeof_es_format (pp_sizes c) + sizeof_es_specific (pp_sizes c)"

text \<open>Addresses inside the data: the format behind the event, the specific part behind the format,
  the extradata behind that.\<close>

definition event_format_addr :: "'x port_ops \<Rightarrow> addr \<Rightarrow> addr" where
  "event_format_addr c d = d + unat (sizeof_event_format_changed (pp_sizes c))"

definition event_es_addr :: "'x port_ops \<Rightarrow> addr \<Rightarrow> addr" where
  "event_es_addr c d = event_format_addr c d + unat (sizeof_es_format (pp_sizes c))"

definition event_extradata_addr :: "'x port_ops \<Rightarrow> addr \<Rightarrow> addr" where
  "event_extradata_addr c d = event_es_addr c d + unat (sizeof_es_specific (pp_sizes c))"

definition set_event :: "addr \<Rightarrow> event_data \<Rightarrow> 'x pst \<Rightarrow> 'x pst" where
  "set_event d e = upd_world (\<lambda>w. w\<lparr>w_event := (w_event w)(d := e)\<rparr>)"

definition zero_event :: format_changed where
  "zero_event = \<lparr>fc_buffer_size_min = 0, fc_buffer_num_min = 0, fc_buffer_size_recommended = 0,
     fc_buffer_num_recommended = 0, fc_format = None\<rparr>"

text \<open>The event structure that the data holds, read as \<open>MMAL_EVENT_FORMAT_CHANGED_T\<close>.\<close>

fun as_format_event :: "event_data \<Rightarrow> format_changed" where
  "as_format_event (EventFormat e) = e"
| "as_format_event _ = zero_event"

text \<open>\<open>memset(data, 0, size)\<close> over an event with its format.\<close>

definition clear_format_event :: "'x port_ops \<Rightarrow> addr \<Rightarrow> 'x pst \<Rightarrow> 'x pst" where
  "clear_format_event c d s =
     (let st = w_fmt (ps_env s);
          f = event_format_addr c d; es = event_es_addr c d
      in set_event d (EventFormat zero_event)
           (on_fmt (st\<lparr>fs_format := (fs_format st)(f :=
                \<lparr>ef_type = MMAL_ES_TYPE_UNKNOWN, ef_encoding = 0, ef_encoding_variant = 0, ef_es = 0,
                 ef_bitrate = 0, ef_flags = 0, ef_extradata_size = 0, ef_extradata = NullBytes\<rparr>),
              fs_es := (fs_es st)(es := replicate SIZEOF_ES 0)\<rparr>) s))"

text \<open>The result is the address of the event, that is, of the data.\<close>

definition mmal_event_format_changed_get :: "'x port_ops \<Rightarrow> ptr \<Rightarrow> 'x pst \<Rightarrow> (ptr \<times> 'x pst) outcome" where
  "mmal_event_format_changed_get c buffer s =
     (case buffer of
        None \<Rightarrow> ret (None, s)
      | Some b \<Rightarrow>
          if bh_cmd (bufs s b) \<noteq> MMAL_EVENT_FORMAT_CHANGED \<or> bh_length (bufs s b) < event_format_size c
          then ret (None, s)
          else case bh_data (bufs s b) of
            None \<Rightarrow> Some Faults
          | Some d \<Rightarrow>
              let st = w_fmt (ps_env s);
                  f = event_format_addr c d;
                  e = (as_format_event (w_event (ps_env s) d))\<lparr>fc_format := Some f\<rparr>;
                  st' = upd_fmt f (\<lambda>F. F\<lparr>ef_es := event_es_addr c d,
                      ef_extradata := BlockAt (event_extradata_addr c d),
                      ef_extradata_size := bh_length (bufs s b) - event_format_size c\<rparr>) st
              in ret (Some d, set_event d (EventFormat e) (on_fmt st' s)))"

section \<open>Taking and sending events\<close>

definition mmal_port_event_get ::
  "'x port_ops \<Rightarrow> ptr \<Rightarrow> u32 \<Rightarrow> 'x pst \<Rightarrow> (mmal_status \<times> ptr \<times> 'x pst) outcome" where
  "mmal_port_event_get c port event s =
     (case port of
        None \<Rightarrow> ret (MMAL_EINVAL, None, s)
      | Some p \<Rightarrow>
          (case co_event_pool (comp_of s (po_component (port_of s p))) of
             None \<Rightarrow> Some Faults
           | Some pool \<Rightarrow>
               andthen (or_blocks (pool_queue_get pool s)) (\<lambda>(buffer, s1).
                 case buffer of
                   None \<Rightarrow> ret (MMAL_ENOSPC, None, s1)
                 | Some b \<Rightarrow>
                     let s2 = upd_buf b (\<lambda>B. B\<lparr>bh_cmd := event, bh_length := 0\<rparr>) s1 in
                     if event = MMAL_EVENT_FORMAT_CHANGED then
                       (if bh_alloc_size (bufs s2 b) < event_format_size c
                        then andthen (header_release c b s2) (\<lambda>s3. ret (MMAL_ENOSPC, None, s3))
                        else case bh_data (bufs s2 b) of
                          None \<Rightarrow> Some Faults
                        | Some d \<Rightarrow>
                            ret (MMAL_SUCCESS, Some b,
                                 upd_buf b (\<lambda>B. B\<lparr>bh_length := event_format_size c\<rparr>) (clear_format_event c d s2)))
                     else ret (MMAL_SUCCESS, Some b, s2))))"

definition SIZEOF_STATUS :: u32 where "SIZEOF_STATUS = 4"
definition SIZEOF_EVENT_EOS :: u32 where "SIZEOF_EVENT_EOS = 8"

text \<open>Filling an event and sending it on the control port.\<close>

definition write_event :: "addr \<Rightarrow> u32 \<Rightarrow> event_data \<Rightarrow> 'x pst \<Rightarrow> 'x pst outcome" where
  "write_event b len e s =
     (case bh_data (bufs s b) of
        None \<Rightarrow> Some Faults
      | Some d \<Rightarrow> ret (set_event d e (upd_buf b (\<lambda>B. B\<lparr>bh_length := len\<rparr>) s)))"

definition mmal_event_error_send :: "'x port_ops \<Rightarrow> ptr \<Rightarrow> mmal_status \<Rightarrow> 'x status_op" where
  "mmal_event_error_send c component error_status s =
     (case component of
        None \<Rightarrow> ret (MMAL_EINVAL, s)
      | Some a \<Rightarrow>
          andthen (mmal_port_event_get c (co_control (comp_of s a)) MMAL_EVENT_ERROR s) (\<lambda>(st, event, s1).
            if st \<noteq> MMAL_SUCCESS then ret (st, s1)
            else case (event, co_control (comp_of s1 a)) of
              (Some b, Some ctl) \<Rightarrow>
                andthen (write_event b SIZEOF_STATUS (EventError error_status) s1) (\<lambda>s2.
                andthen (mmal_port_event_send c ctl b s2) (\<lambda>s3. ret (MMAL_SUCCESS, s3)))
            | _ \<Rightarrow> Some Faults))"

definition mmal_event_eos_send :: "'x port_ops \<Rightarrow> ptr \<Rightarrow> 'x status_op" where
  "mmal_event_eos_send c port s =
     (case port of
        None \<Rightarrow> ret (MMAL_EINVAL, s)
      | Some p \<Rightarrow>
          let a = po_component (port_of s p) in
          andthen (mmal_port_event_get c (co_control (comp_of s a)) MMAL_EVENT_EOS s) (\<lambda>(st, buffer, s1).
            if st \<noteq> MMAL_SUCCESS then ret (st, s1)
            else case (buffer, co_control (comp_of s1 a)) of
              (Some b, Some ctl) \<Rightarrow>
                andthen (write_event b SIZEOF_EVENT_EOS
                           (EventEos (po_type (port_of s1 p)) (po_index (port_of s1 p))) s1) (\<lambda>s2.
                andthen (mmal_port_event_send c ctl b s2) (\<lambda>s3. ret (MMAL_SUCCESS, s3)))
            | _ \<Rightarrow> Some Faults))"

section \<open>Forwarding an event\<close>

text \<open>\<open>memcpy\<close> between payloads.\<close>

definition copy_bytes :: "ptr \<Rightarrow> ptr \<Rightarrow> nat \<Rightarrow> nat \<Rightarrow> 'x pst \<Rightarrow> 'x pst outcome" where
  "copy_bytes dst src off n s =
     (if n = 0 then ret s
      else case (dst, src) of
        (Some d, Some a) \<Rightarrow>
          ret (upd_world (\<lambda>w. w\<lparr>w_bytes := (\<lambda>x. if d \<le> x \<and> x < d + n then w_bytes w (a + off + (x - d))
                                                else w_bytes w x)\<rparr>) s)
      | _ \<Rightarrow> Some Faults)"

text \<open>
  What \<open>memcpy\<close> does to the contents of an event, which are values: a format-changed event takes the
  format, its specific part and its extradata along; its pointers still point into the original until
  \<open>mmal_event_format_changed_get\<close> sets them again.
\<close>

definition copy_contents :: "'x port_ops \<Rightarrow> addr \<Rightarrow> addr \<Rightarrow> u32 \<Rightarrow> 'x pst \<Rightarrow> 'x pst" where
  "copy_contents c dst src n s =
     (let e = w_event (ps_env s) src; st = w_fmt (ps_env s);
          f = event_format_addr c; es = event_es_addr c; x = event_extradata_addr c
      in if n = 0 then s
         else case e of
           EventFormat _ \<Rightarrow>
             if n < event_format_size c then set_event dst EventBytes s
             else set_event dst e (on_fmt (st\<lparr>fs_format := (fs_format st)(f dst := fs_format st (f src)),
                    fs_es := (fs_es st)(es dst := fs_es st (es src)),
                    fs_blocks := (fs_blocks st)(x dst := fs_blocks st (x src))\<rparr>) s)
         | _ \<Rightarrow> set_event dst e s)"

definition mmal_event_forward :: "'x port_ops \<Rightarrow> addr \<Rightarrow> ptr \<Rightarrow> 'x status_op" where
  "mmal_event_forward c event port s =
     (case port of
        None \<Rightarrow> ret (MMAL_EINVAL, s)
      | Some p \<Rightarrow>
          let a = po_component (port_of s p) in
          if po_type (port_of s p) \<noteq> MMAL_PORT_TYPE_OUTPUT then ret (MMAL_EINVAL, s)
          else andthen (mmal_port_event_get c (co_control (comp_of s a)) (bh_cmd (bufs s event)) s) (\<lambda>(st, buffer, s1).
            if st \<noteq> MMAL_SUCCESS then ret (st, s1)
            else case (buffer, co_control (comp_of s1 a)) of
              (Some b, Some ctl) \<Rightarrow>
                let E = bufs s1 event in
                if bh_alloc_size (bufs s1 b) < bh_length E
                then andthen (header_release c b s1) (\<lambda>s2. ret (MMAL_ENOSPC, s2))
                else andthen (copy_bytes (bh_data (bufs s1 b)) (bh_data E) 0 (unat (bh_length E)) s1) (\<lambda>s2.
                     let s3 = (case (bh_data (bufs s1 b), bh_data E) of
                                 (Some d, Some d0) \<Rightarrow> copy_contents c d d0 (bh_length E) s2 | _ \<Rightarrow> s2);
                         s4 = upd_buf b (\<lambda>B. B\<lparr>bh_length := bh_length E, bh_offset := bh_offset E,
                                bh_flags := bh_flags E, bh_pts := bh_pts E\<rparr>) s3
                     in andthen (mmal_port_event_send c ctl b s4) (\<lambda>s5. ret (MMAL_SUCCESS, s5)))
            | _ \<Rightarrow> Some Faults))"

end
