(* ===== verification/Mmal_Port_Connect.thy ===== *)
theory Mmal_Port_Connect
  imports Mmal_Events
begin

text \<open>
  Connections that the core handles (\<^verbatim>\<open>core/mmal_port.c\<close>, and \<open>mmal_port_pool_create\<close> of
  \<^verbatim>\<open>util/mmal_util.c\<close>): connecting and disconnecting two ports, enabling and disabling a connected
  pair with the pool between them, and the callbacks that move headers from one port to the other.
\<close>

section \<open>Identifiers of the core's callbacks\<close>

definition CONNECTED_INPUT_CB :: nat where "CONNECTED_INPUT_CB = 0"
definition CONNECTED_OUTPUT_CB :: nat where "CONNECTED_OUTPUT_CB = 1"
definition CONNECTED_POOL_CB :: nat where "CONNECTED_POOL_CB = 0"
definition PORT_PAYLOAD_ALLOC :: nat where "PORT_PAYLOAD_ALLOC = 1"
definition PORT_PAYLOAD_FREE :: nat where "PORT_PAYLOAD_FREE = 1"

section \<open>Pools of a port\<close>

definition mmal_port_pool_create ::
  "'x port_ops \<Rightarrow> ptr \<Rightarrow> u32 \<Rightarrow> u32 \<Rightarrow> 'x pst \<Rightarrow> (ptr \<times> 'x pst) outcome" where
  "mmal_port_pool_create c port headers payload_size s =
     (case port of
        None \<Rightarrow> ret (None, s)
      | Some p \<Rightarrow>
          let (queue, s1) = world_queue_create c s
          in or_faults (mmal_pool_create_with_allocator (pp_pools c) queue headers payload_size (Some p)
               (Some PORT_PAYLOAD_ALLOC) (Some PORT_PAYLOAD_FREE) s1))"

text \<open>A loop over at most \<open>buffer_num\<close> headers of the pool.\<close>

partial_function (option) populate_loop ::
  "'x port_ops \<Rightarrow> addr \<Rightarrow> addr \<Rightarrow> u32 \<Rightarrow> 'x pst \<Rightarrow> (mmal_status \<times> 'x pst) outcome" where
  "populate_loop c p pool idx s =
     (if \<not> idx < po_buffer_num (port_of s p) then ret (MMAL_SUCCESS, s)
      else
        andthen (or_blocks (pool_queue_get pool s)) (\<lambda>r.
          case fst r of
            None \<Rightarrow> ret (MMAL_ENOMEM, snd r)
          | Some b \<Rightarrow>
              andthen (mmal_port_send_buffer c (Some p) b (snd r)) (\<lambda>r2.
                if fst r2 \<noteq> MMAL_SUCCESS
                then andthen (header_release c b (snd r2)) (\<lambda>s3. ret (fst r2, s3))
                else populate_loop c p pool (idx + 1) (snd r2))))"

definition mmal_port_populate_from_pool :: "'x port_ops \<Rightarrow> addr \<Rightarrow> ptr \<Rightarrow> 'x status_op" where
  "mmal_port_populate_from_pool c p pool s =
     (if po_pf_send (port_of s p) = None then ret (MMAL_ENOSYS, s)
      else case pool of
        None \<Rightarrow> if po_buffer_num (port_of s p) = 0 then ret (MMAL_SUCCESS, s) else Some Faults
      | Some pl \<Rightarrow> populate_loop c p pl 0 s)"

text \<open>The loop over a pair of clock ports, sending to the first and to the second in turn.\<close>

partial_function (option) populate_clock_loop ::
  "'x port_ops \<Rightarrow> addr \<Rightarrow> addr \<Rightarrow> addr \<Rightarrow> mmal_status \<Rightarrow> 'x pst \<Rightarrow> (mmal_status \<times> 'x pst) outcome" where
  "populate_clock_loop c p q pool status s =
     andthen (or_blocks (pool_queue_get pool s)) (\<lambda>r.
       case fst r of
         None \<Rightarrow> ret (status, snd r)
       | Some b \<Rightarrow>
           andthen (mmal_port_send_buffer c (Some p) b (snd r)) (\<lambda>r2.
             if fst r2 \<noteq> MMAL_SUCCESS
             then andthen (header_release c b (snd r2)) (\<lambda>s3. ret (fst r2, s3))
             else populate_clock_loop c q p pool (fst r2) (snd r2)))"

definition mmal_port_populate_clock_ports :: "'x port_ops \<Rightarrow> addr \<Rightarrow> addr \<Rightarrow> ptr \<Rightarrow> 'x status_op" where
  "mmal_port_populate_clock_ports c output inp pool s =
     (if po_pf_send (port_of s output) = None \<or> po_pf_send (port_of s inp) = None then ret (MMAL_ENOSYS, s)
      else case pool of
        None \<Rightarrow> Some Faults
      | Some pl \<Rightarrow> populate_clock_loop c output inp pl MMAL_SUCCESS s)"

section \<open>The pool between two ports\<close>

definition is_output :: "addr \<Rightarrow> 'x pst \<Rightarrow> bool" where
  "is_output p s \<longleftrightarrow> po_type (port_of s p) = MMAL_PORT_TYPE_OUTPUT"

definition is_input :: "addr \<Rightarrow> 'x pst \<Rightarrow> bool" where
  "is_input p s \<longleftrightarrow> po_type (port_of s p) = MMAL_PORT_TYPE_INPUT"

definition output_of :: "addr \<Rightarrow> addr \<Rightarrow> 'x pst \<Rightarrow> addr" where
  "output_of p q s = (if is_output p s then p else q)"

definition input_of :: "addr \<Rightarrow> addr \<Rightarrow> 'x pst \<Rightarrow> addr" where
  "input_of p q s = (if is_input q s then q else p)"

definition connection_pool :: "addr \<Rightarrow> addr \<Rightarrow> 'x pst \<Rightarrow> ptr" where
  "connection_pool p q s =
     (case po_pool_for_connection (port_of s p) of
        Some pool \<Rightarrow> Some pool | None \<Rightarrow> po_pool_for_connection (port_of s q))"

definition mmal_port_connection_enable :: "'x port_ops \<Rightarrow> addr \<Rightarrow> addr \<Rightarrow> 'x status_op" where
  "mmal_port_connection_enable c p q s =
     (let output = output_of p q s; inp = input_of p q s;
          pool_port = (if po_capabilities (port_of s output) AND CAPABILITY_ALLOCATION \<noteq> 0
                       then output else inp);
          buffer_num = max (po_buffer_num (port_of s p)) (po_buffer_num (port_of s q));
          buffer_size = max (po_buffer_size (port_of s p)) (po_buffer_size (port_of s q));
          put = (\<lambda>P. P\<lparr>po_buffer_num := buffer_num, po_buffer_size := buffer_size\<rparr>);
          s1 = upd_port p put (upd_port q put s);
          size' = (if po_capabilities (port_of s1 output) AND CAPABILITY_PASSTHROUGH \<noteq> 0
                   then 0 else buffer_size)
      in if \<not> po_core_owns_connection (port_of s1 p) then ret (MMAL_SUCCESS, s1)
         else andthen (mmal_port_pool_create c (Some pool_port) buffer_num size' s1) (\<lambda>(pool, s2).
           case pool of
             None \<Rightarrow> ret (MMAL_ENOMEM, s2)
           | Some pl \<Rightarrow>
               ret (MMAL_SUCCESS,
                 mmal_pool_callback_set pl (Some CONNECTED_POOL_CB) (Some output)
                   (upd_port pool_port (\<lambda>P. P\<lparr>po_pool_for_connection := Some pl\<rparr>) s2))))"

definition mmal_port_connection_disable :: "'x port_ops \<Rightarrow> addr \<Rightarrow> addr \<Rightarrow> 'x pst \<Rightarrow> mmal_status \<times> 'x pst" where
  "mmal_port_connection_disable c p q s =
     (let s1 = mmal_pool_destroy (pp_pools c) (connection_pool p q s) s;
          clear = (\<lambda>P. P\<lparr>po_pool_for_connection := None\<rparr>)
      in (MMAL_SUCCESS, upd_port p clear (upd_port q clear s1)))"

definition mmal_port_connection_start :: "'x port_ops \<Rightarrow> addr \<Rightarrow> addr \<Rightarrow> 'x status_op" where
  "mmal_port_connection_start c p q s =
     (let output = output_of p q s; inp = input_of p q s; pool = connection_pool p q s
      in if po_type (port_of s output) = MMAL_PORT_TYPE_CLOCK \<and> po_type (port_of s inp) = MMAL_PORT_TYPE_CLOCK
         then mmal_port_populate_clock_ports c output inp pool s
         else mmal_port_populate_from_pool c output pool s)"

section \<open>Enabling and disabling\<close>

text \<open>Continue with \<open>k\<close> after a call that succeeded, with \<open>h\<close> after one that failed.\<close>

definition or_else ::
  "(mmal_status \<times> 's) outcome \<Rightarrow> ('s \<Rightarrow> 'b outcome) \<Rightarrow> (mmal_status \<Rightarrow> 's \<Rightarrow> 'b outcome) \<Rightarrow> 'b outcome" where
  "or_else r k h = andthen r (\<lambda>(st, s). if st = MMAL_SUCCESS then k s else h st s)"

lemma or_else_simps [simp]:
  "or_else (ret (MMAL_SUCCESS, s)) k h = k s"
  "st \<noteq> MMAL_SUCCESS \<Longrightarrow> or_else (ret (st, s)) k h = h st s"
  "or_else (Some Blocks) k h = Some Blocks" "or_else (Some Faults) k h = Some Faults"
  "or_else None k h = None"
  by (simp_all add: or_else_def)

text \<open>The label \<open>error\<close> of \<open>mmal_port_enable\<close>.\<close>

definition enable_error :: "'x port_ops \<Rightarrow> addr \<Rightarrow> ptr \<Rightarrow> mmal_status \<Rightarrow> 'x status_op" where
  "enable_error c p conn status s =
     andthen (case conn of
                Some q \<Rightarrow> if po_is_enabled (port_of s q) then mmal_port_disable_internal c q s
                          else ret (MMAL_SUCCESS, s)
              | None \<Rightarrow> ret (MMAL_SUCCESS, s)) (\<lambda>(_, s1).
     andthen (if po_is_enabled (port_of s1 p) then mmal_port_disable_internal c p s1
              else ret (MMAL_SUCCESS, s1)) (\<lambda>(_, s2).
     ret (status, case conn of
                    Some q \<Rightarrow> snd (mmal_port_connection_disable c p q s2) | None \<Rightarrow> s2)))"

definition enable_connected :: "'x port_ops \<Rightarrow> addr \<Rightarrow> addr \<Rightarrow> 'x status_op" where
  "enable_connected c p q s =
     (let err = enable_error c p (Some q) in
      or_else (mmal_port_connection_enable c p q s)
        (\<lambda>s1. let cb = (if is_input q s1 then CONNECTED_OUTPUT_CB else CONNECTED_INPUT_CB) in
           or_else (if is_input q s1 then mmal_port_enable_internal c q (Some CONNECTED_INPUT_CB) s1
                    else ret (MMAL_SUCCESS, s1))
             (\<lambda>s2. or_else (mmal_port_enable_internal c p (Some cb) s2)
                (\<lambda>s3. or_else (if \<not> is_input q s3 then mmal_port_enable_internal c q (Some CONNECTED_OUTPUT_CB) s3
                               else ret (MMAL_SUCCESS, s3))
                   (\<lambda>s4. or_else (if po_core_owns_connection (port_of s4 p)
                                  then mmal_port_connection_start c p q s4 else ret (MMAL_SUCCESS, s4))
                      (\<lambda>s5. ret (MMAL_SUCCESS, s5)) err)
                   err)
                err)
             err)
        (\<lambda>st s1. ret (st, s1)))"

definition mmal_port_enable :: "'x port_ops \<Rightarrow> ptr \<Rightarrow> nat option \<Rightarrow> 'x status_op" where
  "mmal_port_enable c port cb s =
     (case port of
        None \<Rightarrow> ret (MMAL_EINVAL, s)
      | Some p \<Rightarrow>
          if po_pf_enable (port_of s p) = None then ret (MMAL_ENOSYS, s)
          else if po_is_enabled (port_of s p) then ret (MMAL_EINVAL, s)
          else case po_connected (port_of s p) of
            None \<Rightarrow> or_else (mmal_port_enable_internal c p cb s)
                      (\<lambda>s1. ret (MMAL_SUCCESS, s1)) (enable_error c p None)
          | Some q \<Rightarrow> if cb \<noteq> None then ret (MMAL_EINVAL, s) else enable_connected c p q s)"

definition disable_connected :: "'x port_ops \<Rightarrow> addr \<Rightarrow> addr \<Rightarrow> 'x status_op" where
  "disable_connected c p q s =
     (let stop = (\<lambda>st s. ret (st, s)) in
      or_else (if \<not> is_input q s then mmal_port_disable_internal c q s else ret (MMAL_SUCCESS, s))
        (\<lambda>s1. or_else (mmal_port_disable_internal c p s1)
           (\<lambda>s2. or_else (if is_input q s2 then mmal_port_disable_internal c q s2 else ret (MMAL_SUCCESS, s2))
              (\<lambda>s3. ret (mmal_port_connection_disable c p q s3))
              stop)
           stop)
        stop)"

definition mmal_port_disable :: "'x port_ops \<Rightarrow> ptr \<Rightarrow> 'x status_op" where
  "mmal_port_disable c port s =
     (case port of
        None \<Rightarrow> ret (MMAL_EINVAL, s)
      | Some p \<Rightarrow>
          if po_pf_disable (port_of s p) = None then ret (MMAL_ENOSYS, s)
          else if \<not> po_is_enabled (port_of s p) then ret (MMAL_EINVAL, s)
          else case po_connected (port_of s p) of
            None \<Rightarrow> mmal_port_disable_internal c p s
          | Some q \<Rightarrow> disable_connected c p q s)"

section \<open>Connecting and disconnecting\<close>

definition mmal_port_connect_default :: "addr \<Rightarrow> ptr \<Rightarrow> 'x status_op" where
  "mmal_port_connect_default port other s = ret (MMAL_ENOSYS, s)"

definition set_owner :: "addr \<Rightarrow> addr \<Rightarrow> bool \<Rightarrow> 'x pst \<Rightarrow> 'x pst" where
  "set_owner p q core s =
     upd_port q (\<lambda>P. P\<lparr>po_core_owns_connection := core\<rparr>)
       (upd_port p (\<lambda>P. P\<lparr>po_core_owns_connection := core\<rparr>) s)"

definition mmal_port_connect :: "'x port_ops \<Rightarrow> ptr \<Rightarrow> ptr \<Rightarrow> 'x status_op" where
  "mmal_port_connect c port other s =
     (case (port, other) of
        (Some p, Some q) \<Rightarrow>
          let P = port_of s p; Q = port_of s q in
          if po_type P = MMAL_PORT_TYPE_CLOCK \<and> po_type P \<noteq> po_type Q then ret (MMAL_EINVAL, s)
          else if po_pf_connect P = None \<or> po_pf_connect Q = None then ret (MMAL_ENOSYS, s)
          else if po_connected P \<noteq> None then ret (MMAL_EISCONN, s)
          else if po_is_enabled P then ret (MMAL_EINVAL, s)
          else if po_connected Q \<noteq> None then ret (MMAL_EISCONN, s)
          else if po_is_enabled Q then ret (MMAL_EINVAL, s)
          else
            let s1 = upd_port q (\<lambda>Q. Q\<lparr>po_connected := Some p\<rparr>)
                       (upd_port p (\<lambda>P. P\<lparr>po_connected := Some q\<rparr>) s);
                s2 = set_owner p q False s1;
                f = the (po_pf_connect (port_of s2 (output_of p q s2)))
            in or_else (pp_connect c f p (Some q) s2)
                 (\<lambda>s3. ret (MMAL_SUCCESS, s3))
                 (\<lambda>_ s3. ret (MMAL_SUCCESS, set_owner p q True s3))
      | _ \<Rightarrow> ret (MMAL_EINVAL, s))"

text \<open>The end of \<open>mmal_port_disconnect\<close>, after the ports have been disabled.\<close>

definition finish_disconnect :: "'x port_ops \<Rightarrow> addr \<Rightarrow> addr \<Rightarrow> mmal_status \<Rightarrow> 'x status_op" where
  "finish_disconnect c p q status s =
     (let clear = (\<lambda>st s. ret (st, upd_port q (\<lambda>Q. Q\<lparr>po_connected := None\<rparr>)
                                    (upd_port p (\<lambda>P. P\<lparr>po_connected := None\<rparr>) s)))
      in if \<not> po_core_owns_connection (port_of s p)
         then case po_pf_connect (port_of s p) of
                None \<Rightarrow> Some Faults
              | Some f \<Rightarrow> or_else (pp_connect c f p None s) (clear MMAL_SUCCESS) (\<lambda>st s1. ret (st, s1))
         else clear status s)"

definition mmal_port_disconnect :: "'x port_ops \<Rightarrow> ptr \<Rightarrow> 'x status_op" where
  "mmal_port_disconnect c port s =
     (case port of
        None \<Rightarrow> ret (MMAL_EINVAL, s)
      | Some p \<Rightarrow>
          (case po_connected (port_of s p) of
             None \<Rightarrow> ret (MMAL_ENOTCONN, s)
           | Some q \<Rightarrow>
               if po_is_enabled (port_of s p) then
                 let stop = (\<lambda>st s. ret (st, s)); output = output_of p q s; inp = input_of p q s in
                 or_else (mmal_port_disable_internal c output s)
                   (\<lambda>s1. or_else (mmal_port_disable_internal c inp s1)
                      (\<lambda>s2. case mmal_port_connection_disable c p q s2 of
                               (st, s3) \<Rightarrow> finish_disconnect c p q st s3)
                      stop)
                   stop
               else finish_disconnect c p q MMAL_SUCCESS s))"

section \<open>The callbacks of connected ports\<close>

definition mmal_port_connected_input_cb :: "'x port_ops \<Rightarrow> addr \<Rightarrow> addr \<Rightarrow> 'x pst \<Rightarrow> 'x pst outcome" where
  "mmal_port_connected_input_cb c p b s =
     (if po_type (port_of s p) = MMAL_PORT_TYPE_CLOCK \<and> bh_length (bufs s b) \<noteq> 0
      then andthen (mmal_port_send_buffer c (po_connected (port_of s p)) b s) (\<lambda>(_, s1). ret s1)
      else header_release c b s)"

definition forward_format_event :: "'x port_ops \<Rightarrow> addr \<Rightarrow> ptr \<Rightarrow> addr \<Rightarrow> addr \<Rightarrow> 'x pst \<Rightarrow> 'x pst outcome" where
  "forward_format_event c p conn d b s =
     (let fail = (\<lambda>st s. andthen (mmal_event_error_send c (Some (po_component (port_of s p))) st s)
                    (\<lambda>(_, s'). header_release c b s'))
      in case (po_format (port_of s p), fc_format (as_format_event (w_event (ps_env s) d))) of
           (Some dst, Some src) \<Rightarrow>
             or_else (or_else (or_else (world_format_full_copy c dst src s)
                                  (mmal_port_format_commit c (Some p)) (\<lambda>st s. ret (st, s)))
                        (mmal_port_send_buffer c conn b) (\<lambda>st s. ret (st, s)))
               (\<lambda>s1. ret s1) fail
         | _ \<Rightarrow> Some Faults)"

definition mmal_port_connected_output_cb :: "'x port_ops \<Rightarrow> addr \<Rightarrow> addr \<Rightarrow> 'x pst \<Rightarrow> 'x pst outcome" where
  "mmal_port_connected_output_cb c p b s =
     (let conn = po_connected (port_of s p) in
      if bh_cmd (bufs s b) \<noteq> 0 then
        andthen (mmal_event_format_changed_get c (Some b) s) (\<lambda>(event, s1).
          case event of
            Some d \<Rightarrow> forward_format_event c p conn d b s1
          | None \<Rightarrow> header_release c b s1)
      else if po_is_enabled (port_of s p) then
        or_else (mmal_port_send_buffer c conn b s) (\<lambda>s1. ret s1) (\<lambda>_ s1. header_release c b s1)
      else header_release c b s)"

text \<open>True: the pool queues the header.\<close>

definition mmal_port_connected_pool_cb :: "'x port_ops \<Rightarrow> addr \<Rightarrow> addr \<Rightarrow> ptr \<Rightarrow> 'x pst \<Rightarrow> (bool \<times> 'x pst) outcome" where
  "mmal_port_connected_pool_cb c pool b userdata s =
     andthen (mmal_port_send_buffer c userdata b s) (\<lambda>(st, s1). ret (st \<noteq> MMAL_SUCCESS, s1))"

end
