(* ===== verification/Mmal_Component.thy ===== *)
theory Mmal_Component
  imports Mmal_Port_Connect
begin

text \<open>
  Components (\<^verbatim>\<open>core/mmal_component.c\<close>): creation around a constructor, the two reference counts
  and the destruction they control, enabling and disabling, the action thread, the supplier list,
  and the payload memory of ports, which takes port references.
\<close>

section \<open>The core\<close>

definition mmal_core_init :: "'x pst \<Rightarrow> 'x pst" where
  "mmal_core_init = upd_world (\<lambda>w. w\<lparr>w_core_refcount := w_core_refcount w + 1\<rparr>)"

definition mmal_core_deinit :: "'x pst \<Rightarrow> 'x pst" where
  "mmal_core_deinit = upd_world (\<lambda>w.
     if w_core_refcount w = 0 then w else w\<lparr>w_core_refcount := w_core_refcount w - 1\<rparr>)"

section \<open>Suppliers\<close>

definition SUPPLIER_PREFIX_LEN :: nat where "SUPPLIER_PREFIX_LEN = 32"

text \<open>\<open>mem_ok\<close>: the outcome of the allocation.\<close>

definition mmal_component_supplier_register :: "bool \<Rightarrow> string \<Rightarrow> nat \<Rightarrow> 'x pst \<Rightarrow> 'x pst" where
  "mmal_component_supplier_register mem_ok prefix create s =
     (if mem_ok
      then upd_world (\<lambda>w. w\<lparr>w_suppliers := (take (SUPPLIER_PREFIX_LEN - 1) prefix, create) # w_suppliers w\<rparr>) s
      else s)"

fun supplier_loop ::
  "'x port_ops \<Rightarrow> string \<Rightarrow> addr \<Rightarrow> string \<Rightarrow> (string \<times> nat) list \<Rightarrow> mmal_status \<Rightarrow> 'x status_op" where
  "supplier_loop c name a key [] status s = ret (status, s)"
| "supplier_loop c name a key ((prefix, create) # sups) status s =
     (if prefix = key
      then or_else (pp_construct c create name a s)
             (\<lambda>s1. ret (MMAL_SUCCESS, s1)) (\<lambda>st s1. supplier_loop c name a key sups st s1)
      else supplier_loop c name a key sups status s)"

text \<open>The part of the name before the first dot selects the suppliers.\<close>

definition mmal_component_supplier_create :: "'x port_ops \<Rightarrow> string \<Rightarrow> addr \<Rightarrow> 'x status_op" where
  "mmal_component_supplier_create c name a s =
     supplier_loop c name a (takeWhile (\<lambda>x. x \<noteq> CHR ''.'') name) (w_suppliers (ps_env s)) MMAL_ENOSYS s"

section \<open>The action thread\<close>

definition mmal_component_action_register :: "'x port_ops \<Rightarrow> addr \<Rightarrow> nat \<Rightarrow> 'x pst \<Rightarrow> mmal_status \<times> 'x pst" where
  "mmal_component_action_register c a pf_action s =
     (if co_pf_action (comp_of s a) \<noteq> None then (MMAL_EINVAL, s)
      else
        let (event, s1) = vcos_sync_create c s in
        if \<not> event then (MMAL_ENOMEM, s1)
        else let (mutex, s2) = vcos_sync_create c s1 in
          if \<not> mutex then (MMAL_ENOMEM, s2)
          else let (thread, s3) = vcos_sync_create c s2 in
            if \<not> thread then (MMAL_ENOMEM, s3)
            else (MMAL_SUCCESS, upd_comp a (\<lambda>C. C\<lparr>co_pf_action := Some pf_action, co_action_event := False\<rparr>) s3))"

text \<open>Deregistering waits for the thread, which sees \<open>action_quit\<close> and ends.\<close>

definition mmal_component_action_deregister :: "addr \<Rightarrow> 'x pst \<Rightarrow> mmal_status \<times> 'x pst" where
  "mmal_component_action_deregister a s =
     (if co_pf_action (comp_of s a) = None then (MMAL_EINVAL, s)
      else (MMAL_SUCCESS, upd_comp a (\<lambda>C. C\<lparr>co_pf_action := None, co_action_event := False,
              co_action_quit := False\<rparr>) s))"

definition mmal_component_action_trigger :: "addr \<Rightarrow> 'x pst \<Rightarrow> mmal_status \<times> 'x pst" where
  "mmal_component_action_trigger a s =
     (if co_pf_action (comp_of s a) = None then (MMAL_EINVAL, s)
      else (MMAL_SUCCESS, upd_comp a (\<lambda>C. C\<lparr>co_action_event := True\<rparr>) s))"

text \<open>One turn of the thread's loop: it blocks until the event is signalled.\<close>

definition action_thread_step :: "'x port_ops \<Rightarrow> addr \<Rightarrow> 'x pst \<Rightarrow> 'x pst outcome" where
  "action_thread_step c a s =
     (case co_pf_action (comp_of s a) of
        None \<Rightarrow> Some Blocks
      | Some f \<Rightarrow>
          if \<not> co_action_event (comp_of s a) then Some Blocks
          else pp_action c f a (upd_comp a (\<lambda>C. C\<lparr>co_action_event := False\<rparr>) s))"

section \<open>Destruction\<close>

definition free_opt :: "'x port_ops \<Rightarrow> ptr \<Rightarrow> 'x pst \<Rightarrow> 'x pst" where
  "free_opt c p s = (case p of None \<Rightarrow> s | Some a \<Rightarrow> vcos_free c a s)"

definition mmal_component_destroy_internal :: "'x port_ops \<Rightarrow> addr \<Rightarrow> 'x status_op" where
  "mmal_component_destroy_internal c a s =
     (let s1 = snd (mmal_component_action_deregister a s) in
      or_else (case co_pf_destroy (comp_of s1 a) of None \<Rightarrow> ret (MMAL_SUCCESS, s1) | Some f \<Rightarrow> pp_comp c f a s1)
        (\<lambda>s2.
           let s3 = (case co_event_pool (comp_of s2 a) of
                       None \<Rightarrow> s2 | Some pool \<Rightarrow> mmal_pool_destroy (pp_pools c) (Some pool) s2)
           in andthen (mmal_port_free c (co_control (comp_of s3 a)) s3) (\<lambda>s4.
              let s5 = free_opt c (co_port_base (comp_of s4 a)) s4
              in ret (MMAL_SUCCESS, mmal_core_deinit (vcos_free c a s5))))
        (\<lambda>st s2. ret (st, s2)))"

fun disable_ports :: "'x port_ops \<Rightarrow> addr list \<Rightarrow> 'x pst \<Rightarrow> 'x pst outcome" where
  "disable_ports c [] s = ret s"
| "disable_ports c (p # ps) s =
     andthen (if po_is_enabled (port_of s p) then mmal_port_disable c (Some p) s else ret (MMAL_SUCCESS, s))
       (\<lambda>(_, s1). disable_ports c ps s1)"

fun disconnect_ports :: "'x port_ops \<Rightarrow> addr list \<Rightarrow> 'x pst \<Rightarrow> 'x pst outcome" where
  "disconnect_ports c [] s = ret s"
| "disconnect_ports c (p # ps) s =
     andthen (mmal_port_disconnect c (Some p) s) (\<lambda>(_, s1). disconnect_ports c ps s1)"

definition list_of_ptr :: "ptr \<Rightarrow> addr list" where
  "list_of_ptr p = (case p of None \<Rightarrow> [] | Some a \<Rightarrow> [a])"

text \<open>The three parts of \<open>mmal_component_release_internal\<close> between which it holds no lock: dropping
  the reference, stopping the ports, and deciding about the destruction.\<close>

definition drop_reference :: "addr \<Rightarrow> 'x pst \<Rightarrow> bool \<times> 'x pst" where
  "drop_reference a s =
     (let s1 = upd_comp a (\<lambda>C. C\<lparr>co_refcount := co_refcount C - 1\<rparr>) s in
      if co_refcount (comp_of s1 a) \<noteq> 0 then (False, s1)
      else (True, upd_comp a (\<lambda>C. C\<lparr>co_destruction_pending := True\<rparr>) s1))"

definition stop_ports :: "'x port_ops \<Rightarrow> addr \<Rightarrow> 'x pst \<Rightarrow> 'x pst outcome" where
  "stop_ports c a s =
     (let C = comp_of s a; ports = co_input C @ co_output C @ co_clock C in
      andthen (disable_ports c (ports @ list_of_ptr (co_control C)) s) (disconnect_ports c ports))"

definition delay_destruction :: "addr \<Rightarrow> 'x pst \<Rightarrow> bool \<times> 'x pst" where
  "delay_destruction a s =
     (if co_refcount_ports (comp_of s a) \<noteq> 0
      then (True, upd_comp a (\<lambda>C. C\<lparr>co_destruction_pending := False\<rparr>) s)
      else (False, s))"

definition mmal_component_release_internal :: "'x port_ops \<Rightarrow> addr \<Rightarrow> 'x status_op" where
  "mmal_component_release_internal c a s =
     (if \<not> 0 < co_refcount (comp_of s a) then ret (MMAL_EINVAL, s)
      else case drop_reference a s of
        (False, s1) \<Rightarrow> ret (MMAL_SUCCESS, s1)
      | (True, s1) \<Rightarrow>
          andthen (stop_ports c a s1) (\<lambda>s2.
            case delay_destruction a s2 of
              (True, s3) \<Rightarrow> ret (MMAL_SUCCESS, s3)
            | (False, s3) \<Rightarrow> mmal_component_destroy_internal c a s3))"

definition mmal_component_destroy :: "'x port_ops \<Rightarrow> ptr \<Rightarrow> 'x status_op" where
  "mmal_component_destroy c component s =
     (case component of None \<Rightarrow> ret (MMAL_EINVAL, s) | Some a \<Rightarrow> mmal_component_release_internal c a s)"

definition mmal_component_acquire :: "addr \<Rightarrow> 'x pst \<Rightarrow> 'x pst" where
  "mmal_component_acquire a = upd_comp a (\<lambda>C. C\<lparr>co_refcount := co_refcount C + 1\<rparr>)"

definition mmal_component_release :: "'x port_ops \<Rightarrow> ptr \<Rightarrow> 'x status_op" where
  "mmal_component_release c component s =
     (case component of None \<Rightarrow> ret (MMAL_EINVAL, s) | Some a \<Rightarrow> mmal_component_release_internal c a s)"

section \<open>References of ports\<close>

definition acquire_port_ref :: "addr \<Rightarrow> 'x pst \<Rightarrow> 'x pst" where
  "acquire_port_ref a = upd_comp a (\<lambda>C. C\<lparr>co_refcount_ports := co_refcount_ports C + 1\<rparr>)"

definition mmal_port_acquire :: "addr \<Rightarrow> 'x pst \<Rightarrow> 'x pst" where
  "mmal_port_acquire p s = acquire_port_ref (po_component (port_of s p)) s"

text \<open>The critical section of \<open>mmal_port_release\<close>; true: the caller destroys the component.\<close>

definition drop_port_ref :: "addr \<Rightarrow> 'x pst \<Rightarrow> bool \<times> 'x pst" where
  "drop_port_ref a s =
     (let s1 = upd_comp a (\<lambda>C. C\<lparr>co_refcount_ports := co_refcount_ports C - 1\<rparr>) s; C = comp_of s1 a
      in (\<not> (co_refcount_ports C \<noteq> 0 \<or> co_refcount C \<noteq> 0 \<or> co_destruction_pending C), s1))"

definition mmal_port_release :: "'x port_ops \<Rightarrow> addr \<Rightarrow> 'x status_op" where
  "mmal_port_release c p s =
     (let a = po_component (port_of s p) in
      if \<not> 0 < co_refcount_ports (comp_of s a) then ret (MMAL_EINVAL, s)
      else case drop_port_ref a s of
        (False, s1) \<Rightarrow> ret (MMAL_SUCCESS, s1)
      | (True, s1) \<Rightarrow> mmal_component_destroy_internal c a s1)"

definition mmal_port_payload_alloc :: "'x port_ops \<Rightarrow> ptr \<Rightarrow> u32 \<Rightarrow> 'x pst \<Rightarrow> (ptr \<times> 'x pst) outcome" where
  "mmal_port_payload_alloc c port payload_size s =
     (case port of
        None \<Rightarrow> ret (None, s)
      | Some p \<Rightarrow>
          if payload_size = 0 then ret (None, s)
          else andthen
            (case po_pf_payload_alloc (port_of s p) of
               None \<Rightarrow> ret (vcos_malloc c payload_size s)
             | Some f \<Rightarrow> pp_payload_alloc c f p payload_size s)
            (\<lambda>(mem, s1). ret (mem, if mem \<noteq> None then mmal_port_acquire p s1 else s1)))"

definition mmal_port_payload_free :: "'x port_ops \<Rightarrow> ptr \<Rightarrow> addr \<Rightarrow> 'x pst \<Rightarrow> 'x pst outcome" where
  "mmal_port_payload_free c port payload s =
     (case port of
        None \<Rightarrow> ret s
      | Some p \<Rightarrow>
          andthen
            (if po_pf_payload_alloc (port_of s p) = None then ret (vcos_free c payload s)
             else case po_pf_payload_free (port_of s p) of
               None \<Rightarrow> Some Faults
             | Some f \<Rightarrow> pp_payload_free c f p payload s)
            (\<lambda>s1. andthen (mmal_port_release c p s1) (\<lambda>(_, s2). ret s2)))"

section \<open>Enabling and disabling\<close>

fun pause_ports :: "'x port_ops \<Rightarrow> bool \<Rightarrow> addr list \<Rightarrow> 'x status_op" where
  "pause_ports c pause [] s = ret (MMAL_SUCCESS, s)"
| "pause_ports c pause (p # ps) s =
     or_else (mmal_port_pause c p pause s) (pause_ports c pause ps) (\<lambda>st s1. ret (st, s1))"

definition mmal_component_enable :: "'x port_ops \<Rightarrow> ptr \<Rightarrow> 'x status_op" where
  "mmal_component_enable c component s =
     (case component of
        None \<Rightarrow> ret (MMAL_EINVAL, s)
      | Some a \<Rightarrow>
          if co_is_enabled (comp_of s a) then ret (MMAL_SUCCESS, s)
          else andthen (case co_pf_enable (comp_of s a) of
                          None \<Rightarrow> ret (MMAL_ENOSYS, s) | Some f \<Rightarrow> pp_comp c f a s) (\<lambda>(st, s1).
            or_else (if st = MMAL_ENOSYS
                     then pause_ports c False (co_input (comp_of s1 a) @ co_output (comp_of s1 a)) s1
                     else ret (st, s1))
              (\<lambda>s2. ret (MMAL_SUCCESS, upd_comp a (\<lambda>C. C\<lparr>co_is_enabled := True\<rparr>) s2))
              (\<lambda>st s2. ret (st, s2))))"

definition mmal_component_disable :: "'x port_ops \<Rightarrow> ptr \<Rightarrow> 'x status_op" where
  "mmal_component_disable c component s =
     (case component of
        None \<Rightarrow> ret (MMAL_EINVAL, s)
      | Some a \<Rightarrow>
          if \<not> co_is_enabled (comp_of s a) then ret (MMAL_SUCCESS, s)
          else andthen (case co_pf_disable (comp_of s a) of
                          None \<Rightarrow> ret (MMAL_ENOSYS, s) | Some f \<Rightarrow> pp_comp c f a s) (\<lambda>(st, s1).
            or_else (if st = MMAL_ENOSYS
                     then pause_ports c True (co_input (comp_of s1 a) @ co_output (comp_of s1 a)) s1
                     else ret (st, s1))
              (\<lambda>s2. ret (MMAL_SUCCESS, upd_comp a (\<lambda>C. C\<lparr>co_is_enabled := False\<rparr>) s2))
              (\<lambda>st s2. ret (st, s2))))"

section \<open>Creation\<close>

definition MMAL_CONTROL_PORT_BUFFERS_MIN :: u32 where "MMAL_CONTROL_PORT_BUFFERS_MIN = 4"
definition CONTROL_PORT_ENABLE :: nat where "CONTROL_PORT_ENABLE = 0"
definition CONTROL_PORT_DISABLE :: nat where "CONTROL_PORT_DISABLE = 0"
definition CONTROL_PARAMETER_SET :: nat where "CONTROL_PARAMETER_SET = 0"
definition CONTROL_PARAMETER_GET :: nat where "CONTROL_PARAMETER_GET = 0"

definition mmal_component_enable_control_port :: "addr \<Rightarrow> nat option \<Rightarrow> 'x status_op" where
  "mmal_component_enable_control_port p cb s = ret (MMAL_SUCCESS, s)"

definition mmal_component_disable_control_port :: "addr \<Rightarrow> 'x status_op" where
  "mmal_component_disable_control_port p s = ret (MMAL_SUCCESS, s)"

definition mmal_component_parameter_set :: "addr \<Rightarrow> parameter \<Rightarrow> 'x status_op" where
  "mmal_component_parameter_set p param s = ret (MMAL_ENOSYS, s)"

definition mmal_component_parameter_get ::
  "addr \<Rightarrow> parameter \<Rightarrow> 'x pst \<Rightarrow> (mmal_status \<times> parameter \<times> 'x pst) outcome" where
  "mmal_component_parameter_get p param s = ret (MMAL_ENOSYS, param, s)"

definition mmal_component_init_control_port :: "'x port_ops \<Rightarrow> addr \<Rightarrow> 'x pst \<Rightarrow> 'x pst" where
  "mmal_component_init_control_port c p s =
     (let st = w_fmt (ps_env s);
          s1 = (case po_format (port_of s p) of
                  None \<Rightarrow> s
                | Some f \<Rightarrow> on_fmt (upd_fmt f (\<lambda>F. F\<lparr>ef_type := MMAL_ES_TYPE_CONTROL\<rparr>) st) s);
          sz = sizeof_es_format (pp_sizes c) + sizeof_es_specific (pp_sizes c)
      in upd_port p (\<lambda>P. P\<lparr>po_buffer_num_min := MMAL_CONTROL_PORT_BUFFERS_MIN,
           po_buffer_num := MMAL_CONTROL_PORT_BUFFERS_MIN, po_buffer_size_min := sz, po_buffer_size := sz,
           po_pf_enable := Some CONTROL_PORT_ENABLE, po_pf_disable := Some CONTROL_PORT_DISABLE,
           po_pf_parameter_set := Some CONTROL_PARAMETER_SET,
           po_pf_parameter_get := Some CONTROL_PARAMETER_GET\<rparr>) s1)"

definition fresh_component :: "string \<Rightarrow> mmal_component" where
  "fresh_component name = zero_component\<lparr>co_name := name, co_refcount := 1\<rparr>"

text \<open>Types and indexes of the ports of one array; \<open>index_all\<close> over all ports; buffer sizes.\<close>

fun number_ports :: "port_type \<Rightarrow> nat \<Rightarrow> addr list \<Rightarrow> 'x pst \<Rightarrow> 'x pst" where
  "number_ports t i [] s = s"
| "number_ports t i (p # ps) s =
     number_ports t (i + 1) ps (upd_port p (\<lambda>P. P\<lparr>po_type := t, po_index := of_nat i\<rparr>) s)"

fun number_all :: "nat \<Rightarrow> addr list \<Rightarrow> 'x pst \<Rightarrow> 'x pst" where
  "number_all i [] s = s"
| "number_all i (p # ps) s = number_all (i + 1) ps (upd_port p (\<lambda>P. P\<lparr>po_index_all := of_nat i\<rparr>) s)"

definition control_requirements :: "'x port_ops \<Rightarrow> addr \<Rightarrow> 'x pst \<Rightarrow> 'x pst" where
  "control_requirements c p =
     upd_port p (\<lambda>P. P\<lparr>
       po_buffer_size_min := (if po_buffer_size_min P < event_format_size c then event_format_size c
                              else po_buffer_size_min P),
       po_buffer_num_min := (if po_buffer_num_min P < MMAL_CONTROL_PORT_BUFFERS_MIN
                             then MMAL_CONTROL_PORT_BUFFERS_MIN else po_buffer_num_min P)\<rparr>)"

text \<open>The end of a successful creation, from the list of all ports on; \<open>base\<close> is its array.\<close>

definition list_ports :: "addr \<Rightarrow> addr \<Rightarrow> addr \<Rightarrow> 'x pst \<Rightarrow> 'x pst" where
  "list_ports a ctl base s =
     (let C = comp_of s a;
          ports = ctl # co_input C @ co_output C @ co_clock C;
          s1 = number_all 0 ports (upd_comp a (\<lambda>C. C\<lparr>co_port_base := Some base, co_port := ports\<rparr>) s);
          s2 = upd_port ctl (\<lambda>P. P\<lparr>po_type := MMAL_PORT_TYPE_CONTROL, po_index := 0\<rparr>) s1;
          s3 = number_ports MMAL_PORT_TYPE_INPUT 0 (co_input C) s2;
          s4 = number_ports MMAL_PORT_TYPE_OUTPUT 0 (co_output C) s3;
          s5 = number_ports MMAL_PORT_TYPE_CLOCK 0 (co_clock C) s4
      in fold sensible_buffers ports s5)"

definition create_error :: "'x port_ops \<Rightarrow> addr \<Rightarrow> mmal_status \<Rightarrow> 'x pst \<Rightarrow> (mmal_status \<times> ptr \<times> 'x pst) outcome" where
  "create_error c a status s =
     andthen (mmal_component_destroy_internal c a s) (\<lambda>(_, s1). ret (status, None, s1))"

text \<open>After the constructor: event pool and list of ports.\<close>

definition finish_create :: "'x port_ops \<Rightarrow> addr \<Rightarrow> addr \<Rightarrow> 'x pst \<Rightarrow> (mmal_status \<times> ptr \<times> 'x pst) outcome" where
  "finish_create c a ctl s =
     (let s1 = control_requirements c ctl s; (queue, s2) = world_queue_create c s1 in
      andthen (or_faults (mmal_pool_create (pp_pools c) queue (po_buffer_num_min (port_of s2 ctl))
                            (po_buffer_size_min (port_of s2 ctl)) s2)) (\<lambda>(pool, s3).
        case pool of
          None \<Rightarrow> create_error c a MMAL_ENOMEM s3
        | Some pl \<Rightarrow>
            let s4 = upd_comp a (\<lambda>C. C\<lparr>co_event_pool := Some pl\<rparr>) s3;
                C = comp_of s4 a;
                port_num = of_nat (length (co_input C) + length (co_output C) + length (co_clock C) + 1);
                (base, s5) = vcos_malloc c (port_num * sizeof_ptr (op_abi (pp_pools c))) s4
            in case base of
                 None \<Rightarrow> create_error c a MMAL_ENOMEM s5
               | Some b \<Rightarrow> ret (MMAL_SUCCESS, Some a, list_ports a ctl b s5)))"

text \<open>\<open>given\<close>: the caller wants the component.\<close>

definition mmal_component_create_core ::
  "'x port_ops \<Rightarrow> string \<Rightarrow> nat option \<Rightarrow> ptr \<Rightarrow> bool \<Rightarrow> 'x pst \<Rightarrow> (mmal_status \<times> ptr \<times> 'x pst) outcome" where
  "mmal_component_create_core c name constr modul given s =
     (if \<not> given then ret (MMAL_EINVAL, None, s)
      else let s1 = mmal_core_init s;
          (component, s2) = vcos_malloc c (sizeof_component (pp_sizes c) + of_nat (length name + 1)) s1
      in case component of
           None \<Rightarrow> ret (MMAL_ENOMEM, None, s2)
         | Some a \<Rightarrow>
             let (lock, s3) = vcos_sync_create c (upd_comp a (\<lambda>_. fresh_component name) s2) in
             if \<not> lock then ret (MMAL_ENOMEM, Some a, vcos_free c a s3)
             else
               let s4 = upd_world (\<lambda>w. w\<lparr>w_instance_count := w_instance_count w + 1\<rparr>)
                          (upd_comp a (\<lambda>C. C\<lparr>co_id := w_instance_count (ps_env s3)\<rparr>) s3);
                   (control, s5) = mmal_port_alloc c a MMAL_PORT_TYPE_CONTROL 0 s4;
                   s6 = upd_comp a (\<lambda>C. C\<lparr>co_control := control\<rparr>) s5
               in case control of
                    None \<Rightarrow> create_error c a MMAL_ENOMEM s6
                  | Some ctl \<Rightarrow>
                      let s7 = upd_comp a (\<lambda>C. C\<lparr>co_module := modul\<rparr>)
                                 (mmal_component_init_control_port c ctl s6)
                      in or_else (case constr of
                                    None \<Rightarrow> mmal_component_supplier_create c name a s7
                                  | Some f \<Rightarrow> pp_construct c f name a s7)
                           (finish_create c a ctl) (create_error c a))"

definition mmal_component_create ::
  "'x port_ops \<Rightarrow> string \<Rightarrow> bool \<Rightarrow> 'x pst \<Rightarrow> (mmal_status \<times> ptr \<times> 'x pst) outcome" where
  "mmal_component_create c name given s = mmal_component_create_core c name None None given s"

definition mmal_component_create_with_constructor ::
  "'x port_ops \<Rightarrow> string \<Rightarrow> nat option \<Rightarrow> ptr \<Rightarrow> bool \<Rightarrow> 'x pst \<Rightarrow> (mmal_status \<times> ptr \<times> 'x pst) outcome" where
  "mmal_component_create_with_constructor c name constr modul given s =
     mmal_component_create_core c name constr modul given s"

end
