(* ===== verification/Mmal_Component_Life.thy ===== *)
theory Mmal_Component_Life
  imports Mmal_Component
begin

text \<open>
  Who destroys a component: the two reference counts of \<^verbatim>\<open>core/mmal_component.c\<close> under every
  interleaving of the critical sections of \<open>mmal_component_release_internal\<close> and
  \<open>mmal_port_release\<close>. Between dropping the last reference and deciding about the destruction a
  thread holds no lock; in that time other threads, and the thread itself through the pools it
  destroys, drop references of ports.
\<close>

section \<open>Threads at the reference counts\<close>

datatype life_pc = Outside | Stopping | Destroying

record 'x life =
  li_state :: "'x pst"
  li_pc :: "nat \<Rightarrow> life_pc"
  li_destroyed :: nat

abbreviation refs :: "addr \<Rightarrow> 'x life \<Rightarrow> int" where
  "refs a l \<equiv> co_refcount (comp_of (li_state l) a)"

abbreviation port_refs :: "addr \<Rightarrow> 'x life \<Rightarrow> int" where
  "port_refs a l \<equiv> co_refcount_ports (comp_of (li_state l) a)"

abbreviation pending :: "addr \<Rightarrow> 'x life \<Rightarrow> bool" where
  "pending a l \<equiv> co_destruction_pending (comp_of (li_state l) a)"

text \<open>A thread uses the component, or drops a reference, only while there is one to use or drop.\<close>

inductive life_step :: "addr \<Rightarrow> 'x life \<Rightarrow> 'x life \<Rightarrow> bool" for a :: addr where
  acquire: "0 < refs a l \<Longrightarrow> life_step a l (l\<lparr>li_state := mmal_component_acquire a (li_state l)\<rparr>)"
| release: "li_pc l t = Outside \<Longrightarrow> 0 < refs a l \<Longrightarrow> drop_reference a (li_state l) = (lst, s) \<Longrightarrow>
    life_step a l (l\<lparr>li_state := s, li_pc := (li_pc l)(t := if lst then Stopping else Outside)\<rparr>)"
| decide: "li_pc l t = Stopping \<Longrightarrow> delay_destruction a (li_state l) = (delayed, s) \<Longrightarrow>
    life_step a l (l\<lparr>li_state := s, li_pc := (li_pc l)(t := if delayed then Outside else Destroying)\<rparr>)"
| port_acquire: "0 < refs a l \<or> 0 < port_refs a l \<Longrightarrow>
    life_step a l (l\<lparr>li_state := acquire_port_ref a (li_state l)\<rparr>)"
| port_release: "li_pc l t \<noteq> Destroying \<Longrightarrow> 0 < port_refs a l \<Longrightarrow> drop_port_ref a (li_state l) = (lst, s) \<Longrightarrow>
    life_step a l (l\<lparr>li_state := s, li_pc := (if lst then (li_pc l)(t := Destroying) else li_pc l)\<rparr>)"
| destroy: "li_pc l t = Destroying \<Longrightarrow>
    life_step a l (l\<lparr>li_pc := (li_pc l)(t := Outside), li_destroyed := li_destroyed l + 1\<rparr>)"

inductive life_reach :: "addr \<Rightarrow> 'x life \<Rightarrow> 'x life \<Rightarrow> bool" for a :: addr and l0 :: "'x life" where
  start: "life_reach a l0 l0"
| step: "life_reach a l0 l \<Longrightarrow> life_step a l l' \<Longrightarrow> life_reach a l0 l'"

text \<open>A component as \<open>mmal_component_create_core\<close> leaves it: one reference, no thread at it.\<close>

definition created :: "addr \<Rightarrow> 'x life \<Rightarrow> bool" where
  "created a l \<longleftrightarrow> refs a l = 1 \<and> port_refs a l = 0 \<and> \<not> pending a l \<and> li_pc l = (\<lambda>_. Outside) \<and> li_destroyed l = 0"

section \<open>The invariant\<close>

definition life_inv :: "addr \<Rightarrow> 'x life \<Rightarrow> bool" where
  "life_inv a l \<longleftrightarrow> 0 \<le> refs a l \<and> 0 \<le> port_refs a l
     \<and> (\<forall>t u. li_pc l t \<noteq> Outside \<longrightarrow> li_pc l u \<noteq> Outside \<longrightarrow> t = u)
     \<and> ((\<exists>t. li_pc l t = Stopping) \<longrightarrow> refs a l = 0 \<and> pending a l \<and> li_destroyed l = 0)
     \<and> ((\<exists>t. li_pc l t = Destroying) \<longrightarrow> refs a l = 0 \<and> port_refs a l = 0 \<and> li_destroyed l = 0)
     \<and> li_destroyed l \<le> 1
     \<and> (0 < li_destroyed l \<longrightarrow> refs a l = 0 \<and> port_refs a l = 0 \<and> (\<forall>t. li_pc l t = Outside))
     \<and> ((\<forall>t. li_pc l t = Outside) \<longrightarrow> refs a l = 0 \<longrightarrow> port_refs a l = 0 \<longrightarrow> 0 < li_destroyed l)
     \<and> ((\<forall>t. li_pc l t \<noteq> Stopping) \<longrightarrow> 0 < refs a l \<or> 0 < port_refs a l \<longrightarrow> \<not> pending a l)"

lemma life_inv_created: "created a l \<Longrightarrow> life_inv a l"
  by (simp add: created_def life_inv_def)

lemma life_inv_one: "life_inv a l \<Longrightarrow> li_pc l t \<noteq> Outside \<Longrightarrow> li_pc l u \<noteq> Outside \<Longrightarrow> t = u"
  unfolding life_inv_def by (elim conjE) (drule spec, drule spec, drule mp, assumption, drule mp, assumption)

lemma life_inv_stopping:
  "life_inv a l \<Longrightarrow> li_pc l t = Stopping \<Longrightarrow> refs a l = 0 \<and> pending a l \<and> li_destroyed l = 0"
  unfolding life_inv_def by (elim conjE) blast

lemma life_inv_live:
  "life_inv a l \<Longrightarrow> 0 < refs a l \<or> 0 < port_refs a l \<Longrightarrow> (\<forall>t. li_pc l t \<noteq> Destroying) \<and> li_destroyed l = 0"
  unfolding life_inv_def by (elim conjE) (metis gr0I less_irrefl)

lemmas counts_defs = mmal_component_acquire_def drop_reference_def delay_destruction_def
  acquire_port_ref_def drop_port_ref_def Let_def

lemma life_inv_step:
  assumes "life_step a l l'" and inv: "life_inv a l"
  shows "life_inv a l'"
  using assms(1)
proof cases
  case acquire
  with inv show ?thesis unfolding life_inv_def by (simp add: counts_defs)
next
  case (release t lst s)
  note l = release(1)
  have all: "li_pc l u = Outside" for u
    using inv release(2,3) unfolding life_inv_def by (metis less_irrefl life_pc.exhaust)
  have z: "li_destroyed l = 0" "\<not> pending a l" using inv release(3) all unfolding life_inv_def by auto
  show ?thesis
  proof (cases "refs a l = 1")
    case True
    then have "lst" and s: "s = upd_comp a (\<lambda>C. C\<lparr>co_destruction_pending := True\<rparr>)
        (upd_comp a (\<lambda>C. C\<lparr>co_refcount := co_refcount C - 1\<rparr>) (li_state l))"
      using release(4) by (simp_all add: drop_reference_def Let_def)
    then show ?thesis using inv True all z unfolding life_inv_def l by auto
  next
    case False
    then have "\<not> lst" and s: "s = upd_comp a (\<lambda>C. C\<lparr>co_refcount := co_refcount C - 1\<rparr>) (li_state l)"
      using release(4) by (auto simp: drop_reference_def Let_def)
    then show ?thesis using inv False all z release(3) unfolding life_inv_def l by auto
  qed
next
  case (decide t delayed s)
  note l = decide(1)
  have o: "u \<noteq> t \<Longrightarrow> li_pc l u = Outside" for u
  proof (rule ccontr)
    assume ne: "u \<noteq> t" and u: "li_pc l u \<noteq> Outside"
    have "li_pc l t \<noteq> Outside" by (simp add: decide(2))
    from life_inv_one [OF inv u this] ne show False by contradiction
  qed
  have r: "refs a l = 0" "pending a l" "li_destroyed l = 0" using life_inv_stopping [OF inv decide(2)] by blast+
  show ?thesis
  proof (cases "port_refs a l = 0")
    case True
    then have "\<not> delayed" "s = li_state l" using decide(3) by (simp_all add: delay_destruction_def)
    then show ?thesis using inv True o r unfolding life_inv_def l by auto
  next
    case False
    then have "delayed" "s = upd_comp a (\<lambda>C. C\<lparr>co_destruction_pending := False\<rparr>) (li_state l)"
      using decide(3) by (simp_all add: delay_destruction_def)
    then show ?thesis using inv False o r unfolding life_inv_def l by auto
  qed
next
  case port_acquire
  note l = port_acquire(1)
  have nd: "li_pc l u \<noteq> Destroying" for u using life_inv_live [OF inv port_acquire(2)] by blast
  have x: "li_destroyed l = 0" using life_inv_live [OF inv port_acquire(2)] by blast
  have p: "(\<forall>t. li_pc l t \<noteq> Stopping) \<longrightarrow> \<not> pending a l" using inv port_acquire(2) unfolding life_inv_def by blast
  show ?thesis using inv nd x p unfolding life_inv_def l by (simp add: acquire_port_ref_def)
next
  case (port_release t lst s)
  note l = port_release(1)
  note live = life_inv_live [OF inv disjI2 [OF port_release(3)]]
  have nd: "li_pc l u \<noteq> Destroying" for u using live by blast
  have x: "li_destroyed l = 0" using live by blast
  have s: "s = upd_comp a (\<lambda>C. C\<lparr>co_refcount_ports := co_refcount_ports C - 1\<rparr>) (li_state l)"
    and lst: "lst \<longleftrightarrow> port_refs a l = 1 \<and> refs a l = 0 \<and> \<not> pending a l"
    using port_release(4) by (auto simp: drop_port_ref_def Let_def)
  have st: "lst \<Longrightarrow> li_pc l u = Outside" for u
  proof -
    assume "lst"
    then have "li_pc l u \<noteq> Stopping" using lst life_inv_stopping [OF inv, of u] by blast
    with nd [of u] show "li_pc l u = Outside" by (cases "li_pc l u") simp_all
  qed
  show ?thesis
  proof (cases lst)
    case True
    have "li_pc l = (\<lambda>_. Outside)" using st [OF True] by (rule ext)
    with True lst x show ?thesis unfolding life_inv_def l s by simp
  next
    case False
    have np: "(\<forall>t. li_pc l t \<noteq> Stopping) \<longrightarrow> \<not> pending a l"
      using inv port_release(3) unfolding life_inv_def by (elim conjE) blast
    have out: "(\<forall>t. li_pc l t = Outside) \<longrightarrow> (\<forall>t. li_pc l t \<noteq> Stopping)" by simp
    have z: "(\<forall>t. li_pc l t = Outside) \<longrightarrow> refs a l = 0 \<longrightarrow> port_refs a l \<noteq> 1" using lst False np out by blast
    have one: "\<forall>t u. li_pc l t \<noteq> Outside \<longrightarrow> li_pc l u \<noteq> Outside \<longrightarrow> t = u"
      using life_inv_one [OF inv] by blast
    have stp: "(\<exists>t. li_pc l t = Stopping) \<longrightarrow> refs a l = 0 \<and> pending a l \<and> li_destroyed l = 0"
      using life_inv_stopping [OF inv] by blast
    have pos: "0 \<le> refs a l" using inv unfolding life_inv_def by (rule conjunct1)
    have same: "refs a l' = refs a l" "port_refs a l' = port_refs a l - 1" "pending a l' = pending a l"
      "li_pc l' = li_pc l" "li_destroyed l' = li_destroyed l"
      using False by (simp_all add: l s)
    show ?thesis unfolding life_inv_def same
    proof (intro conjI)
      show "0 \<le> port_refs a l - 1" using port_release(3) by simp
      show "(\<exists>t. li_pc l t = Destroying) \<longrightarrow> refs a l = 0 \<and> port_refs a l - 1 = 0 \<and> li_destroyed l = 0"
        using nd by blast
      show "li_destroyed l \<le> 1" using x by simp
      show "0 < li_destroyed l \<longrightarrow> refs a l = 0 \<and> port_refs a l - 1 = 0 \<and> (\<forall>t. li_pc l t = Outside)" using x by simp
      show "(\<forall>t. li_pc l t = Outside) \<longrightarrow> refs a l = 0 \<longrightarrow> port_refs a l - 1 = 0 \<longrightarrow> 0 < li_destroyed l"
        using z by simp
      show "(\<forall>t. li_pc l t \<noteq> Stopping) \<longrightarrow> 0 < refs a l \<or> 0 < port_refs a l - 1 \<longrightarrow> \<not> pending a l"
        using np by simp
    qed (fact pos one stp)+
  qed
next
  case (destroy t)
  note l = destroy(1)
  have o: "u \<noteq> t \<Longrightarrow> li_pc l u = Outside" for u
    using life_inv_one [OF inv, of u t] destroy(2) by auto
  have r: "refs a l = 0" "port_refs a l = 0" "li_destroyed l = 0"
    using inv destroy(2) unfolding life_inv_def by (elim conjE, blast)+
  show ?thesis unfolding life_inv_def l using o r by simp
qed

lemma life_inv_reach: "life_reach a l0 l \<Longrightarrow> created a l0 \<Longrightarrow> life_inv a l"
  by (induction rule: life_reach.induct) (simp_all add: life_inv_created life_inv_step)

lemma life_inv_destroyed_once:
  assumes inv: "life_inv a l"
  shows "li_destroyed l \<le> 1"
    and "li_pc l t = Destroying \<Longrightarrow> refs a l = 0 \<and> port_refs a l = 0 \<and> li_destroyed l = 0"
    and "0 < refs a l \<or> 0 < port_refs a l \<Longrightarrow> li_destroyed l = 0 \<and> li_pc l t \<noteq> Destroying"
    and "\<forall>t. li_pc l t = Outside \<Longrightarrow> refs a l = 0 \<Longrightarrow> port_refs a l = 0 \<Longrightarrow> li_destroyed l = 1"
proof -
  show one: "li_destroyed l \<le> 1" using inv unfolding life_inv_def by (elim conjE)
  show "refs a l = 0 \<and> port_refs a l = 0 \<and> li_destroyed l = 0" if "li_pc l t = Destroying"
    using inv that unfolding life_inv_def by (elim conjE) blast
  show "li_destroyed l = 0 \<and> li_pc l t \<noteq> Destroying" if "0 < refs a l \<or> 0 < port_refs a l"
    using life_inv_live [OF inv that] by blast
  show "li_destroyed l = 1" if "\<forall>t. li_pc l t = Outside" "refs a l = 0" "port_refs a l = 0"
  proof -
    have "0 < li_destroyed l" using inv that unfolding life_inv_def by (elim conjE) blast
    with one show ?thesis by simp
  qed
qed

section \<open>A component is destroyed once, by the last to leave\<close>

text \<open>C4. A component created with one reference is destroyed exactly once, whatever the interleaving of
  the threads that acquire and release it and its ports (the ports through the headers of their pools
  that are still about). Nobody is about to destroy it while a reference of the component or of one of
  its ports exists, and nobody holds one afterwards; once both counts are zero and no thread is on its
  way through \<open>mmal_component_release_internal\<close>, it has been destroyed: the flag for a pending destruction
  hands the work to exactly one of the two paths.\<close>

theorem component_destroyed_once:
  assumes "created a l0" "life_reach a l0 l"
  shows "li_destroyed l \<le> 1
    \<and> (\<forall>t. li_pc l t = Destroying \<longrightarrow> refs a l = 0 \<and> port_refs a l = 0 \<and> li_destroyed l = 0)
    \<and> (0 < refs a l \<or> 0 < port_refs a l \<longrightarrow> li_destroyed l = 0)
    \<and> ((\<forall>t. li_pc l t = Outside) \<longrightarrow> refs a l = 0 \<longrightarrow> port_refs a l = 0 \<longrightarrow> li_destroyed l = 1)"
proof -
  note inv = life_inv_reach [OF assms(2,1)]
  show ?thesis
    using life_inv_destroyed_once [OF inv] by blast
qed

text \<open>A run in which a header of a pool outlives the user's reference: the release leaves the destruction
  to the release of the port.\<close>

definition newborn :: "unit life" where
  "newborn = \<lparr>li_state = upd_comp 5 (\<lambda>C. C\<lparr>co_refcount := 1\<rparr>) empty_world, li_pc = (\<lambda>_. Outside), li_destroyed = 0\<rparr>"

definition outlived :: "unit life \<Rightarrow> unit life" where
  "outlived l =
     (let s1 = acquire_port_ref 5 (li_state l); s2 = snd (drop_reference 5 s1);
          s3 = snd (delay_destruction 5 s2); s4 = snd (drop_port_ref 5 s3)
      in l\<lparr>li_state := s4, li_pc := ((li_pc l)(0 := Outside))(1 := Outside), li_destroyed := li_destroyed l + 1\<rparr>)"

lemma newborn_created: "created 5 newborn"
  by (simp add: created_def newborn_def empty_world_def zero_component_def)

lemma newborn_counts: "refs 5 newborn = 1" "port_refs 5 newborn = 0" "\<not> pending 5 newborn" "li_pc newborn t = Outside"
  using newborn_created by (simp_all add: created_def)

lemma outlived_reached: "life_reach 5 newborn (outlived newborn)"
proof -
  define l1 where "l1 = newborn\<lparr>li_state := acquire_port_ref 5 (li_state newborn)\<rparr>"
  define l2 where "l2 = l1\<lparr>li_state := snd (drop_reference 5 (li_state l1)), li_pc := (li_pc l1)(0 := Stopping)\<rparr>"
  define l3 where "l3 = l2\<lparr>li_state := snd (delay_destruction 5 (li_state l2)), li_pc := (li_pc l2)(0 := Outside)\<rparr>"
  define l4 where "l4 = l3\<lparr>li_state := snd (drop_port_ref 5 (li_state l3)), li_pc := (li_pc l3)(1 := Destroying)\<rparr>"
  have c1: "refs 5 l1 = 1" "port_refs 5 l1 = 1" "\<not> pending 5 l1" "\<And>t. li_pc l1 t = Outside"
    using newborn_counts by (simp_all add: l1_def acquire_port_ref_def)
  have d2: "drop_reference 5 (li_state l1) = (True, li_state l2)"
    using c1 by (simp add: l2_def drop_reference_def Let_def)
  have c2: "refs 5 l2 = 0" "port_refs 5 l2 = 1" "pending 5 l2" "li_pc l2 = (\<lambda>_. Outside)(0 := Stopping)"
    using c1 by (simp_all add: l2_def drop_reference_def Let_def fun_eq_iff)
  have d3: "delay_destruction 5 (li_state l2) = (True, li_state l3)"
    using c2 by (simp add: l3_def delay_destruction_def)
  have c3: "refs 5 l3 = 0" "port_refs 5 l3 = 1" "\<not> pending 5 l3" "li_pc l3 = (\<lambda>_. Outside)"
    using c2 by (simp_all add: l3_def delay_destruction_def fun_eq_iff)
  have d4: "drop_port_ref 5 (li_state l3) = (True, li_state l4)"
    using c3 by (simp add: l4_def drop_port_ref_def Let_def)
  have st1: "life_step 5 newborn l1" unfolding l1_def by (rule life_step.port_acquire) (simp add: newborn_counts)
  have st2: "life_step 5 l1 l2"
    using life_step.release [of l1 0 5, OF _ _ d2] c1 by (simp add: l2_def)
  have st3: "life_step 5 l2 l3"
    using life_step.decide [of l2 0 5, OF _ d3] c2 by (simp add: l3_def)
  have st4: "life_step 5 l3 l4"
    using life_step.port_release [of l3 1 5, OF _ _ d4] c3 by (simp add: l4_def)
  have st5: "life_step 5 l4 (outlived newborn)"
  proof -
    have at: "li_pc l4 1 = Destroying" by (simp add: l4_def)
    have eq: "outlived newborn = l4\<lparr>li_pc := (li_pc l4)(1 := Outside), li_destroyed := li_destroyed l4 + 1\<rparr>"
      by (simp add: outlived_def l4_def l3_def l2_def l1_def Let_def)
    show ?thesis unfolding eq by (rule life_step.destroy) (rule at)
  qed
  show ?thesis
    by (rule life_reach.step [OF life_reach.step [OF life_reach.step [OF life_reach.step [OF
      life_reach.step [OF life_reach.start st1] st2] st3] st4] st5])
qed

theorem component_destroyed_once_witness:
  "life_reach 5 newborn (outlived newborn) \<and> li_destroyed (outlived newborn) = 1"
proof -
  have "refs 5 (outlived newborn) = 0" "port_refs 5 (outlived newborn) = 0"
    using newborn_counts by (simp_all add: outlived_def Let_def drop_port_ref_def delay_destruction_def
      drop_reference_def acquire_port_ref_def)
  moreover have "\<forall>t. li_pc (outlived newborn) t = Outside"
    using newborn_counts(4) by (simp add: outlived_def Let_def)
  ultimately have "li_destroyed (outlived newborn) = 1"
    using component_destroyed_once [OF newborn_created outlived_reached] by (elim conjE) (drule (1) mp)+
  with outlived_reached show ?thesis by (rule conjI)
qed

end
