(* ===== verification/Mmal_Connection.thy ===== *)
theory Mmal_Connection
  imports Mmal_Component
begin

text \<open>
  Connections on the client side (\<^verbatim>\<open>util/mmal_connection.c\<close>): an output and an input port with a
  pool and a queue between them, or a tunnel that the core runs; reference counting, enabling and
  disabling, the callbacks, and the handling of format-changed events.
\<close>

section \<open>Flags, names and the record\<close>

definition FLAG_TUNNELLING :: u32 where "FLAG_TUNNELLING = 1"
definition FLAG_ALLOCATION_ON_INPUT :: u32 where "FLAG_ALLOCATION_ON_INPUT = 2"
definition FLAG_ALLOCATION_ON_OUTPUT :: u32 where "FLAG_ALLOCATION_ON_OUTPUT = 4"
definition FLAG_KEEP_BUFFER_REQUIREMENTS :: u32 where "FLAG_KEEP_BUFFER_REQUIREMENTS = 8"

definition CONNECTION_BH_IN_CB :: nat where "CONNECTION_BH_IN_CB = 2"
definition CONNECTION_BH_OUT_CB :: nat where "CONNECTION_BH_OUT_CB = 3"
definition CONNECTION_BH_RELEASE_CB :: nat where "CONNECTION_BH_RELEASE_CB = 1"

definition tunnelled :: "addr \<Rightarrow> 'x pst \<Rightarrow> bool" where
  "tunnelled x s \<longleftrightarrow> cx_flags (conn_of s x) AND FLAG_TUNNELLING \<noteq> 0"

definition port_label :: "addr \<Rightarrow> 'x pst \<Rightarrow> string" where
  "port_label p s =
     co_name (comp_of s (po_component (port_of s p))) @ '':''
       @ mmal_port_type_to_string (po_type (port_of s p)) @ '':'' @ decimal (unat (po_index (port_of s p)))"

definition SIZEOF_CONNECTION_NAME_FORMAT :: nat where "SIZEOF_CONNECTION_NAME_FORMAT = 28"

definition connection_name_size :: "addr \<Rightarrow> addr \<Rightarrow> 'x pst \<Rightarrow> nat" where
  "connection_name_size out inp s =
     length (co_name (comp_of s (po_component (port_of s out))))
     + length (co_name (comp_of s (po_component (port_of s inp)))) + SIZEOF_CONNECTION_NAME_FORMAT"

section \<open>Callbacks\<close>

definition connection_notify :: "'x port_ops \<Rightarrow> addr \<Rightarrow> 'x pst \<Rightarrow> 'x pst outcome" where
  "connection_notify c x s =
     (case cx_callback (conn_of s x) of None \<Rightarrow> ret s | Some f \<Rightarrow> pp_connection_cb c f x s)"

definition mmal_connection_bh_in_cb :: "'x port_ops \<Rightarrow> addr \<Rightarrow> addr \<Rightarrow> 'x pst \<Rightarrow> 'x pst outcome" where
  "mmal_connection_bh_in_cb c p b s = header_release c b s"

definition connection_queue_put :: "addr \<Rightarrow> addr \<Rightarrow> 'x pst \<Rightarrow> 'x pst" where
  "connection_queue_put x b s =
     (case mmal_queue_put (cx_queue (conn_of s x), s) (Some b) of
        (q', s') \<Rightarrow> upd_conn x (\<lambda>X. X\<lparr>cx_queue := q'\<rparr>) s')"

definition connection_queue_get :: "addr \<Rightarrow> 'x pst \<Rightarrow> (ptr \<times> 'x pst) outcome" where
  "connection_queue_get x s =
     or_blocks (map_option (\<lambda>(r, (q', s')). (r, upd_conn x (\<lambda>X. X\<lparr>cx_queue := q'\<rparr>) s'))
       (mmal_queue_get (cx_queue (conn_of s x), s)))"

definition mmal_connection_bh_out_cb :: "'x port_ops \<Rightarrow> addr \<Rightarrow> addr \<Rightarrow> 'x pst \<Rightarrow> 'x pst outcome" where
  "mmal_connection_bh_out_cb c p b s =
     (case po_userdata (port_of s p) of
        None \<Rightarrow> Some Faults
      | Some x \<Rightarrow> connection_notify c x (connection_queue_put x b s))"

text \<open>False: the pool does not queue the header again.\<close>

definition mmal_connection_bh_release_cb ::
  "'x port_ops \<Rightarrow> addr \<Rightarrow> addr \<Rightarrow> ptr \<Rightarrow> 'x pst \<Rightarrow> (bool \<times> 'x pst) outcome" where
  "mmal_connection_bh_release_cb c pool b userdata s =
     (case userdata of
        None \<Rightarrow> Some Faults
      | Some x \<Rightarrow> andthen (connection_notify c x (pool_queue_put pool b s)) (\<lambda>s1. ret (False, s1)))"

section \<open>Enabling and disabling\<close>

definition recommended_buffers :: "mmal_port \<Rightarrow> mmal_port" where
  "recommended_buffers P = P\<lparr>
     po_buffer_num := (if po_buffer_num_recommended P \<noteq> 0 then po_buffer_num_recommended P else po_buffer_num P),
     po_buffer_size := (if po_buffer_size_recommended P \<noteq> 0 then po_buffer_size_recommended P
                        else po_buffer_size P)\<rparr>"

text \<open>The loop that hands the pool's headers to two clock ports in turn, whatever the sends return.\<close>

partial_function (option) connection_populate_loop ::
  "'x port_ops \<Rightarrow> addr \<Rightarrow> addr \<Rightarrow> addr \<Rightarrow> 'x pst \<Rightarrow> 'x pst outcome" where
  "connection_populate_loop c p q pool s =
     andthen (or_blocks (pool_queue_get pool s)) (\<lambda>r.
       case fst r of
         None \<Rightarrow> ret (snd r)
       | Some b \<Rightarrow>
           andthen (mmal_port_send_buffer c (Some p) b (snd r)) (\<lambda>r2.
             connection_populate_loop c q p pool (snd r2)))"

definition enable_untunnelled :: "'x port_ops \<Rightarrow> addr \<Rightarrow> addr \<Rightarrow> addr \<Rightarrow> 'x status_op" where
  "enable_untunnelled c x out inp s =
     (let stop = (\<lambda>st s. ret (st, s));
          num = max (po_buffer_num (port_of s out)) (po_buffer_num (port_of s inp));
          sz = max (po_buffer_size (port_of s out)) (po_buffer_size (port_of s inp));
          put = (\<lambda>P. P\<lparr>po_buffer_num := num, po_buffer_size := sz\<rparr>);
          s1 = upd_port out put (upd_port inp put s);
          payload = (if po_capabilities (port_of s1 out) AND CAPABILITY_PASSTHROUGH \<noteq> 0 then 0 else sz)
      in or_else (or_faults (mmal_pool_resize (pp_pools c) (cx_pool (conn_of s1 x)) num payload s1))
           (\<lambda>s2. or_else (mmal_port_enable c (Some out) (Some CONNECTION_BH_OUT_CB) s2)
              (\<lambda>s3. or_else (mmal_port_enable c (Some inp) (Some CONNECTION_BH_IN_CB) s3)
                 (\<lambda>s4. if po_type (port_of s4 out) = MMAL_PORT_TYPE_CLOCK
                          \<and> po_type (port_of s4 inp) = MMAL_PORT_TYPE_CLOCK
                       then case cx_pool (conn_of s4 x) of
                              None \<Rightarrow> Some Faults
                            | Some pool \<Rightarrow> andthen (connection_populate_loop c out inp pool s4)
                                             (\<lambda>s5. ret (MMAL_SUCCESS, s5))
                       else ret (MMAL_SUCCESS, s4))
                 (\<lambda>st s4. andthen (mmal_port_disable c (Some out) s4) (\<lambda>(_, s5). ret (st, s5))))
              stop)
           stop)"

definition mmal_connection_enable :: "'x port_ops \<Rightarrow> addr \<Rightarrow> 'x status_op" where
  "mmal_connection_enable c x s =
     (if cx_is_enabled (conn_of s x) then ret (MMAL_SUCCESS, s)
      else
        let out = cx_out (conn_of s x); inp = cx_in (conn_of s x);
            (t, s1) = vcos_getmicrosecs c s;
            s2 = upd_conn x (\<lambda>X. X\<lparr>cx_time_enable := uint t\<rparr>) s1;
            s3 = (if cx_flags (conn_of s2 x) AND FLAG_KEEP_BUFFER_REQUIREMENTS = 0
                  then upd_port inp recommended_buffers (upd_port out recommended_buffers s2) else s2)
        in andthen (if tunnelled x s3 then mmal_port_enable c (Some out) None s3
                    else enable_untunnelled c x out inp s3) (\<lambda>(st, s4).
           let (t', s5) = vcos_getmicrosecs c s4
           in ret (st, upd_conn x (\<lambda>X. X\<lparr>cx_time_enable := uint t' - cx_time_enable X,
                          cx_is_enabled := (st = MMAL_SUCCESS)\<rparr>) s5)))"

partial_function (option) connection_flush_loop :: "'x port_ops \<Rightarrow> addr \<Rightarrow> 'x pst \<Rightarrow> 'x pst outcome" where
  "connection_flush_loop c x s =
     andthen (connection_queue_get x s) (\<lambda>r.
       case fst r of
         None \<Rightarrow> ret (snd r)
       | Some b \<Rightarrow> andthen (header_release c b (snd r)) (connection_flush_loop c x))"

definition disable_untunnelled :: "'x port_ops \<Rightarrow> addr \<Rightarrow> 'x status_op" where
  "disable_untunnelled c x s =
     (let stop = (\<lambda>st s. ret (st, s)) in
      or_else (mmal_port_disable c (Some (cx_in (conn_of s x))) s)
        (\<lambda>s1. or_else (mmal_port_disable c (Some (cx_out (conn_of s1 x))) s1)
           (\<lambda>s2. andthen (connection_flush_loop c x s2) (\<lambda>s3. ret (MMAL_SUCCESS, s3)))
           stop)
        stop)"

definition mmal_connection_disable :: "'x port_ops \<Rightarrow> addr \<Rightarrow> 'x status_op" where
  "mmal_connection_disable c x s =
     (if \<not> cx_is_enabled (conn_of s x) then ret (MMAL_SUCCESS, s)
      else
        let (t, s1) = vcos_getmicrosecs c s;
            s2 = upd_conn x (\<lambda>X. X\<lparr>cx_time_disable := uint t\<rparr>) s1
        in andthen (if tunnelled x s2 then mmal_port_disable c (Some (cx_out (conn_of s2 x))) s2
                    else disable_untunnelled c x s2) (\<lambda>(st, s3).
           let (t', s4) = vcos_getmicrosecs c s3
           in ret (st, upd_conn x (\<lambda>X. X\<lparr>cx_time_disable := uint t' - cx_time_disable X,
                          cx_is_enabled := \<not> (st = MMAL_SUCCESS)\<rparr>) s4)))"

section \<open>Destruction and reference counting\<close>

definition mmal_connection_destroy_internal :: "'x port_ops \<Rightarrow> addr \<Rightarrow> 'x status_op" where
  "mmal_connection_destroy_internal c x s =
     or_else (if cx_is_enabled (conn_of s x) then mmal_connection_disable c x s else ret (MMAL_SUCCESS, s))
       (\<lambda>s1. andthen (if tunnelled x s1 then mmal_port_disconnect c (Some (cx_out (conn_of s1 x))) s1
                      else ret (MMAL_SUCCESS, s1)) (\<lambda>(_, s2).
          let s3 = mmal_pool_destroy (pp_pools c) (cx_pool (conn_of s2 x)) s2;
              s4 = upd_conn x (\<lambda>X. X\<lparr>cx_queue := None\<rparr>) s3
          in ret (MMAL_SUCCESS, vcos_free c x s4)))
       (\<lambda>st s1. ret (st, s1))"

definition drop_connection :: "addr \<Rightarrow> 'x pst \<Rightarrow> 'x pst" where
  "drop_connection x = upd_conn x (\<lambda>X. X\<lparr>cx_refcount := cx_refcount X - 1\<rparr>)"

definition mmal_connection_destroy :: "'x port_ops \<Rightarrow> addr \<Rightarrow> 'x status_op" where
  "mmal_connection_destroy c x s =
     (let s1 = drop_connection x s
      in if cx_refcount (conn_of s1 x) \<noteq> 0 then ret (MMAL_SUCCESS, s1)
         else mmal_connection_destroy_internal c x s1)"

definition mmal_connection_release :: "'x port_ops \<Rightarrow> addr \<Rightarrow> 'x status_op" where
  "mmal_connection_release c x s =
     (let s1 = drop_connection x s
      in if cx_refcount (conn_of s1 x) \<noteq> 0 then ret (MMAL_SUCCESS, s1)
         else mmal_connection_destroy_internal c x s1)"

definition mmal_connection_acquire :: "addr \<Rightarrow> 'x pst \<Rightarrow> 'x pst" where
  "mmal_connection_acquire x = upd_conn x (\<lambda>X. X\<lparr>cx_refcount := cx_refcount X + 1\<rparr>)"

section \<open>Creation\<close>

definition MMAL_PARAMETER_BUFFER_REQUIREMENTS :: u32 where "MMAL_PARAMETER_BUFFER_REQUIREMENTS = 5"

text \<open>Passing the buffer requirements of the input port on to a pass-through output port.\<close>

definition propagate_requirements :: "'x port_ops \<Rightarrow> addr \<Rightarrow> addr \<Rightarrow> 'x status_op" where
  "propagate_requirements c out inp s =
     (if po_capabilities (port_of s out) AND CAPABILITY_PASSTHROUGH = 0 then ret (MMAL_SUCCESS, s)
      else
        let I = port_of s inp;
            param = words_param MMAL_PARAMETER_BUFFER_REQUIREMENTS
              [po_buffer_num_min I, po_buffer_size_min I, po_buffer_alignment_min I,
               po_buffer_num_recommended I, po_buffer_size_recommended I]
        in andthen (mmal_port_parameter_set c (Some out) (Some param) s) (\<lambda>(st, s1).
           ret (if st = MMAL_ENOSYS then MMAL_SUCCESS else st, s1)))"

definition fresh_connection :: "string \<Rightarrow> addr \<Rightarrow> addr \<Rightarrow> u32 \<Rightarrow> int \<Rightarrow> mmal_connection" where
  "fresh_connection name out inp flags t =
     \<lparr>cx_callback = None, cx_is_enabled = False, cx_flags = flags, cx_in = inp, cx_out = out,
      cx_pool = None, cx_queue = None, cx_name = name, cx_time_setup = t, cx_time_enable = 0,
      cx_time_disable = 0, cx_pool_port = None, cx_refcount = 1\<rparr>"

definition choose_pool_port :: "addr \<Rightarrow> addr \<Rightarrow> u32 \<Rightarrow> 'x pst \<Rightarrow> addr" where
  "choose_pool_port out inp flags s =
     (if flags AND FLAG_ALLOCATION_ON_OUTPUT \<noteq> 0 then out
      else if flags AND FLAG_ALLOCATION_ON_INPUT \<noteq> 0 then inp
      else if po_capabilities (port_of s inp) AND CAPABILITY_ALLOCATION \<noteq> 0 then inp else out)"

text \<open>The labels \<open>done\<close> and \<open>error\<close> of \<open>mmal_connection_create\<close>.\<close>

definition connection_done ::
  "'x port_ops \<Rightarrow> addr \<Rightarrow> addr \<Rightarrow> addr \<Rightarrow> mmal_status \<Rightarrow> 'x pst \<Rightarrow> (mmal_status \<times> ptr \<times> 'x pst) outcome" where
  "connection_done c x out inp st s =
     (let set = (\<lambda>P. P\<lparr>po_userdata := Some x\<rparr>);
          (t, s1) = vcos_getmicrosecs c (upd_port inp set (upd_port out set s))
      in ret (st, Some x, upd_conn x (\<lambda>X. X\<lparr>cx_time_setup := uint t - cx_time_setup X\<rparr>) s1))"

definition connection_error ::
  "'x port_ops \<Rightarrow> addr \<Rightarrow> mmal_status \<Rightarrow> 'x pst \<Rightarrow> (mmal_status \<times> ptr \<times> 'x pst) outcome" where
  "connection_error c x st s =
     andthen (mmal_connection_destroy_internal c x s) (\<lambda>(_, s1).
       ret (if st = MMAL_SUCCESS then MMAL_ENOMEM else st, None, s1))"

definition connection_resources ::
  "'x port_ops \<Rightarrow> addr \<Rightarrow> addr \<Rightarrow> addr \<Rightarrow> u32 \<Rightarrow> 'x pst \<Rightarrow> (mmal_status \<times> ptr \<times> 'x pst) outcome" where
  "connection_resources c x out inp flags s =
     (let pp = choose_pool_port out inp flags s;
          s1 = upd_conn x (\<lambda>X. X\<lparr>cx_pool_port := Some pp\<rparr>) s
      in andthen (mmal_port_pool_create c (Some pp) 0 0 s1) (\<lambda>(pool, s2).
         let s3 = upd_conn x (\<lambda>X. X\<lparr>cx_pool := pool\<rparr>) s2 in
         case pool of
           None \<Rightarrow> connection_error c x MMAL_SUCCESS s3
         | Some pl \<Rightarrow>
             let (queue, s4) = world_queue_create c
                   (mmal_pool_callback_set pl (Some CONNECTION_BH_RELEASE_CB) (Some x) s3);
                 s5 = upd_conn x (\<lambda>X. X\<lparr>cx_queue := queue\<rparr>) s4
             in if queue = None then connection_error c x MMAL_SUCCESS s5
                else connection_done c x out inp MMAL_SUCCESS s5))"

text \<open>\<open>sz\<close> is the size of the private connection structure, \<open>given\<close> whether the caller wants the result.\<close>

definition mmal_connection_create ::
  "'x port_ops \<Rightarrow> u32 \<Rightarrow> bool \<Rightarrow> addr \<Rightarrow> addr \<Rightarrow> u32 \<Rightarrow> 'x pst \<Rightarrow> (mmal_status \<times> ptr \<times> 'x pst) outcome" where
  "mmal_connection_create c sz given out inp flags s =
     (let name_size = connection_name_size out inp s in
      if \<not> given then ret (MMAL_EINVAL, None, s)
      else case vcos_malloc c (sz + of_nat name_size) s of
        (None, s1) \<Rightarrow> ret (MMAL_ENOMEM, None, s1)
      | (Some x, s1) \<Rightarrow>
          let name = take (name_size - 2) (port_label out s1 @ ''/'' @ port_label inp s1);
              (t, s2) = vcos_getmicrosecs c s1;
              s3 = upd_conn x (\<lambda>_. fresh_connection name out inp flags (uint t)) s2;
              err = connection_error c x
          in (case (po_format (port_of s3 inp), po_format (port_of s3 out)) of
                (Some fi, Some fo) \<Rightarrow>
                  or_else (or_else (world_format_full_copy c fi fo s3)
                             (mmal_port_format_commit c (Some inp)) (\<lambda>st s. ret (st, s)))
                    (\<lambda>s4. or_else (propagate_requirements c out inp s4)
                       (\<lambda>s5. if flags AND FLAG_TUNNELLING \<noteq> 0
                             then andthen (mmal_port_connect c (Some out) (Some inp) s5)
                                    (\<lambda>(st, s6). connection_done c x out inp st s6)
                             else connection_resources c x out inp flags s5)
                       err)
                    err
              | _ \<Rightarrow> Some Faults))"

section \<open>Format changes\<close>

text \<open>Copying a format into a port and committing it.\<close>

definition copy_and_commit :: "'x port_ops \<Rightarrow> addr \<Rightarrow> ptr \<Rightarrow> 'x status_op" where
  "copy_and_commit c p fmt s =
     (case (po_format (port_of s p), fmt) of
        (Some dst, Some src) \<Rightarrow>
          or_else (world_format_full_copy c dst src s)
            (mmal_port_format_commit c (Some p)) (\<lambda>st s. ret (st, s))
      | _ \<Rightarrow> Some Faults)"

definition mmal_connection_reconfigure :: "'x port_ops \<Rightarrow> addr \<Rightarrow> ptr \<Rightarrow> 'x status_op" where
  "mmal_connection_reconfigure c x fmt s =
     (let stop = (\<lambda>st s. ret (st, s)) in
      or_else (mmal_connection_disable c x s)
        (\<lambda>s1. or_else (copy_and_commit c (cx_out (conn_of s1 x)) fmt s1)
           (\<lambda>s2. or_else (copy_and_commit c (cx_in (conn_of s2 x)) (po_format (port_of s2 (cx_out (conn_of s2 x)))) s2)
              (mmal_connection_enable c x)
              stop)
           stop)
        stop)"

text \<open>Forwarding the event when the buffers need not be recreated.\<close>

definition forward_event :: "'x port_ops \<Rightarrow> addr \<Rightarrow> addr \<Rightarrow> ptr \<Rightarrow> 'x status_op" where
  "forward_event c x b fmt s =
     or_else (copy_and_commit c (cx_out (conn_of s x)) fmt s)
       (\<lambda>s1. or_else (mmal_port_send_buffer c (Some (cx_in (conn_of s1 x))) b (mmal_buffer_header_acquire b s1))
          (\<lambda>s2. ret (MMAL_SUCCESS, s2))
          (\<lambda>st s2. andthen (header_release c b s2) (\<lambda>s3. ret (st, s3))))
       (\<lambda>st s1. ret (st, s1))"

definition mmal_connection_event_format_changed :: "'x port_ops \<Rightarrow> addr \<Rightarrow> addr \<Rightarrow> 'x status_op" where
  "mmal_connection_event_format_changed c x b s =
     (if bh_cmd (bufs s b) \<noteq> MMAL_EVENT_FORMAT_CHANGED then ret (MMAL_EINVAL, s)
      else andthen (mmal_event_format_changed_get c (Some b) s) (\<lambda>(event, s1).
        case event of
          None \<Rightarrow> ret (MMAL_EINVAL, s1)
        | Some d \<Rightarrow>
            let e = as_format_event (w_event (ps_env s1) d); X = conn_of s1 x
            in if po_capabilities (port_of s1 (cx_in X)) AND CAPABILITY_SUPPORTS_EVENT_FORMAT_CHANGE \<noteq> 0
                  \<and> fc_buffer_size_min e \<le> po_buffer_size (port_of s1 (cx_out X))
                  \<and> fc_buffer_num_min e \<le> po_buffer_num (port_of s1 (cx_out X))
               then forward_event c x b (fc_format e) s1
               else mmal_connection_reconfigure c x (fc_format e) s1))"

end
