(* ===== verification/Mmal_Port_Links.thy ===== *)
theory Mmal_Port_Links
  imports Mmal_Connection
begin

text \<open>
  The links between connected ports (\<open>connected_port\<close> in \<^verbatim>\<open>core/mmal_port.c\<close>) under every sequence of
  connects and disconnects, and what becomes of a disconnection that the ports refuse.
\<close>

text \<open>What a call that returns leaves.\<close>

definition yields :: "'a outcome \<Rightarrow> ('a \<Rightarrow> bool) \<Rightarrow> bool" where
  "yields r Q \<longleftrightarrow> (\<forall>y. r = ret y \<longrightarrow> Q y)"

lemma yields_simps [simp]:
  "yields (ret y) Q = Q y" "yields (Some Blocks) Q" "yields (Some Faults) Q" "yields None Q"
  by (simp_all add: yields_def)

lemma yields_andthen: "yields r Q \<Longrightarrow> (\<And>a. Q a \<Longrightarrow> yields (f a) R) \<Longrightarrow> yields (andthen r f) R"
  unfolding yields_def andthen_ret_iff by blast

lemma yields_andthen_pair:
  "yields r (\<lambda>(a, s). Q s) \<Longrightarrow> (\<And>a s. Q s \<Longrightarrow> yields (f (a, s)) R) \<Longrightarrow> yields (andthen r f) R"
  by (erule yields_andthen) auto

lemma yields_or_else:
  "yields r (\<lambda>(st, s). Q s) \<Longrightarrow> (\<And>s. Q s \<Longrightarrow> yields (k s) R) \<Longrightarrow> (\<And>st s. Q s \<Longrightarrow> yields (h st s) R) \<Longrightarrow>
    yields (or_else r k h) R"
  unfolding or_else_def by (erule yields_andthen) (auto split: prod.splits)

lemma yieldsD: "yields r Q \<Longrightarrow> r = ret y \<Longrightarrow> Q y"
  by (simp add: yields_def)

section \<open>Calls that leave the links alone\<close>

definition links :: "'x pst \<Rightarrow> addr \<Rightarrow> ptr" where
  "links s p = po_connected (port_of s p)"

definition world_links :: "'x world \<Rightarrow> addr \<Rightarrow> ptr" where
  "world_links w p = po_connected (w_port w p)"

lemma world_links [simp]: "world_links (ps_env s) = links s"
  by (rule ext) (simp add: links_def world_links_def)

text \<open>Components, clients and the allocator do not write the field of the core's private structure.\<close>

definition keeps_links :: "'x port_ops \<Rightarrow> bool" where
  "keeps_links c \<longleftrightarrow>
     (\<forall>f p q s st s'. pp_connect c f p q s = ret (st, s') \<longrightarrow> links s' = links s)
   \<and> (\<forall>f p s st s'. pp_disable c f p s = ret (st, s') \<longrightarrow> links s' = links s)
   \<and> (\<forall>f p b s s'. pp_cb c f p b s = ret s' \<longrightarrow> links s' = links s)
   \<and> (\<forall>a w. world_links (op_free (pp_pools c) a w) = world_links w)
   \<and> (\<forall>f x a w. world_links (op_pfree (pp_pools c) f x a w) = world_links w)"

lemma keeps_links_connect:
  "keeps_links c \<Longrightarrow> links s = L \<Longrightarrow> yields (pp_connect c f p q s) (\<lambda>(st, s'). links s' = L)"
  by (auto simp: keeps_links_def yields_def)

lemma keeps_links_disable:
  "keeps_links c \<Longrightarrow> links s = L \<Longrightarrow> yields (pp_disable c f p s) (\<lambda>(st, s'). links s' = L)"
  by (auto simp: keeps_links_def yields_def)

lemma keeps_links_cb: "keeps_links c \<Longrightarrow> links s = L \<Longrightarrow> yields (pp_cb c f p b s) (\<lambda>s'. links s' = L)"
  by (auto simp: keeps_links_def yields_def)

lemma keeps_links_free:
  assumes "keeps_links c"
  shows "world_links (op_free (pp_pools c) a w) = world_links w"
    and "world_links (op_pfree (pp_pools c) g x a w) = world_links w"
  using assms by (simp_all add: keeps_links_def)

lemma links_upd [simp]:
  "(\<And>P. po_connected (f P) = po_connected P) \<Longrightarrow> links (upd_port p f s) = links s"
  "links (upd_comp a g s) = links s" "links (upd_env h s) = links s" "links (upd_pool pl k s) = links s"
  "links (upd_buf b l s) = links s"
  by (simp_all add: links_def fun_eq_iff)

lemma links_time [simp]: "vcos_getmicrosecs c s = (t, s') \<Longrightarrow> links s' = links s"
  by (auto simp: vcos_getmicrosecs_def split: prod.splits)

lemma links_stats [simp]: "links (mmal_port_update_port_stats c p rx s) = links s"
  by (simp add: mmal_port_update_port_stats_def split: prod.split)

lemma links_callback:
  assumes "keeps_links c" and "links s = L"
  shows "yields (mmal_port_buffer_header_callback c p b s) (\<lambda>s'. links s' = L)"
proof -
  have call: "yields (case r of None \<Rightarrow> Some Faults
      | Some f \<Rightarrow> andthen (pp_cb c f p b s1) (\<lambda>s2. ret (in_transit_decrement p s2))) (\<lambda>s'. links s' = L)"
    if "links s1 = L" for r s1
    by (cases r) (auto intro!: yields_andthen [OF keeps_links_cb [OF assms(1) that]] simp: in_transit_decrement_def Let_def)
  show ?thesis
    unfolding mmal_port_buffer_header_callback_def Let_def by (rule call) (simp add: assms(2))
qed

lemma links_flush_loop:
  assumes k: "keeps_links c" and l: "links s = L"
  shows "yields (flush_loop c p buffer s) (\<lambda>s'. links s' = L)"
proof -
  have "keeps_links c \<longrightarrow> links s = L \<longrightarrow> yields (Some r) (\<lambda>s'. links s' = L)"
    if "flush_loop c p buffer s = Some r" for r
  proof (rule flush_loop.raw_induct [OF _ that], intro impI)
    fix loop :: "'a port_ops \<Rightarrow> nat \<Rightarrow> ptr \<Rightarrow> 'a pst \<Rightarrow> 'a pst outcome" and c p buffer s r
    assume IH: "\<And>c p buffer s r. loop c p buffer s = Some r \<Longrightarrow>
        keeps_links c \<longrightarrow> links s = L \<longrightarrow> yields (Some r) (\<lambda>s'. links s' = L)"
      and body: "(case buffer of None \<Rightarrow> ret s
          | Some b \<Rightarrow> let next = bh_next (bufs s b) in
              andthen (mmal_port_buffer_header_callback c p b s) (loop c p next)) = Some r"
      and k: "keeps_links c" and l: "links s = L"
    have all: "yields (loop c p n s1) (\<lambda>s'. links s' = L)" if "links s1 = L" for n s1
      using IH [of c p n s1] k that by (cases "loop c p n s1") auto
    have "yields (case buffer of None \<Rightarrow> ret s
          | Some b \<Rightarrow> let next = bh_next (bufs s b) in
              andthen (mmal_port_buffer_header_callback c p b s) (loop c p next)) (\<lambda>s'. links s' = L)"
    proof (cases buffer)
      case (Some b)
      show ?thesis unfolding Some option.case Let_def
        by (rule yields_andthen [OF links_callback [OF k l]]) (rule all)
    qed (simp add: l)
    then show "yields (Some r) (\<lambda>s'. links s' = L)" unfolding body .
  qed
  then show ?thesis using assms by (cases "flush_loop c p buffer s") simp_all
qed

lemma links_pool_destroy: "keeps_links c \<Longrightarrow> links (mmal_pool_destroy (pp_pools c) pool s) = links s"
proof -
  assume k: "keeps_links c"
  have env: "links (s\<lparr>ps_env := w\<rparr>) = world_links w" for w s
    by (simp add: links_def world_links_def fun_eq_iff)
  have "links (free_payloads (pp_pools c) pl n i s) = links s" for pl n i s
    by (induction n arbitrary: i s)
      (simp_all add: env free_payload_def keeps_links_free [OF k] split: option.split)
  then show ?thesis
    by (cases pool) (simp_all add: Let_def env mmal_queue_destroy_def keeps_links_free [OF k] split: option.split)
qed

lemma links_disable_internal:
  assumes k: "keeps_links c" and l: "links s = L"
  shows "yields (mmal_port_disable_internal c p s) (\<lambda>(st, s'). links s' = L)"
proof -
  have drain: "yields (andthen (flush_loop c p b s3) (\<lambda>s4.
      andthen (in_transit_wait p (port_queue_reset p s4)) (\<lambda>s5.
        ret (MMAL_SUCCESS, upd_port p (\<lambda>P. P\<lparr>po_callback := None\<rparr>) s5)))) (\<lambda>(st, s'). links s' = L)"
    if "links s3 = L" for b s3
    by (rule yields_andthen [OF links_flush_loop [OF k that]])
      (auto simp: in_transit_wait_def port_queue_reset_def yields_def andthen_ret_iff)
  have stop: "yields (case r of None \<Rightarrow> Some Faults | Some f \<Rightarrow> andthen (pp_disable c f p s2) (\<lambda>(st, s3).
      if st \<noteq> MMAL_SUCCESS then ret (st, upd_port p (\<lambda>P. P\<lparr>po_is_enabled := True\<rparr>) s3)
      else andthen (flush_loop c p (po_queue_first (port_of s3 p)) s3) (\<lambda>s4.
        andthen (in_transit_wait p (port_queue_reset p s4)) (\<lambda>s5.
        ret (MMAL_SUCCESS, upd_port p (\<lambda>P. P\<lparr>po_callback := None\<rparr>) s5)))))
      (\<lambda>(st, s'). links s' = L)" if "links s2 = L" for r s2
  proof (cases r)
    case (Some f)
    show ?thesis unfolding Some option.case
      by (rule yields_andthen_pair [OF keeps_links_disable [OF k that]]) (simp add: drain)
  qed simp
  define s1 where "s1 = upd_port p (\<lambda>P. P\<lparr>po_is_enabled := False\<rparr>) s"
  have "links (case po_pool_for_connection (port_of s1 p) of
      None \<Rightarrow> s1 | Some pool \<Rightarrow> mmal_pool_callback_set pool None None s1) = L"
    using l by (simp add: s1_def mmal_pool_callback_set_def split: option.split)
  note stop [OF this]
  then show ?thesis
    using l unfolding mmal_port_disable_internal_def Let_def s1_def by (cases "po_is_enabled (port_of s p)") simp_all
qed

section \<open>Connecting and disconnecting\<close>

lemma links_pair_upd:
  assumes "\<And>P. po_connected (f P) = x" and "\<And>P. po_connected (g P) = y"
  shows "links (upd_port q g (upd_port p f s)) = (links s)(p := x, q := y)"
  using assms by (simp add: links_def fun_eq_iff)

lemma links_connect:
  assumes k: "keeps_links c"
  shows "yields (mmal_port_connect c (Some p) (Some q) s) (\<lambda>(st, s').
    (st \<noteq> MMAL_SUCCESS \<and> s' = s)
    \<or> (st = MMAL_SUCCESS \<and> links s p = None \<and> links s q = None \<and> links s' = (links s)(p := Some q, q := Some p)))"
proof -
  define s2 where "s2 = set_owner p q False
    (upd_port q (\<lambda>Q. Q\<lparr>po_connected := Some p\<rparr>) (upd_port p (\<lambda>P. P\<lparr>po_connected := Some q\<rparr>) s))"
  have l2: "links s2 = (links s)(p := Some q, q := Some p)"
    by (simp add: s2_def set_owner_def links_pair_upd)
  have own: "yields (or_else (pp_connect c f p (Some q) s2) (\<lambda>s3. ret (MMAL_SUCCESS, s3))
      (\<lambda>_ s3. ret (MMAL_SUCCESS, set_owner p q True s3)))
      (\<lambda>(st, s'). st = MMAL_SUCCESS \<and> links s' = (links s)(p := Some q, q := Some p))" for f
    by (rule yields_or_else [OF keeps_links_connect [OF k l2]]) (simp_all add: set_owner_def)
  have "yields (or_else (pp_connect c f p (Some q) s2) (\<lambda>s3. ret (MMAL_SUCCESS, s3))
      (\<lambda>_ s3. ret (MMAL_SUCCESS, set_owner p q True s3))) (\<lambda>(st, s').
    (st \<noteq> MMAL_SUCCESS \<and> s' = s) \<or> (st = MMAL_SUCCESS \<and> links s p = None \<and> links s q = None
      \<and> links s' = (links s)(p := Some q, q := Some p)))" if "links s p = None" "links s q = None" for f
    using own [of f] that unfolding yields_def by auto
  then show ?thesis
    unfolding mmal_port_connect_def Let_def prod.case option.case s2_def [symmetric]
    by (simp add: links_def)
qed

lemma links_finish_disconnect:
  assumes k: "keeps_links c" and l: "links s = L"
  shows "yields (finish_disconnect c p q st0 s) (\<lambda>(st, s'). links s' = L \<or> links s' = L(p := None, q := None))"
proof -
  have "yields (or_else (pp_connect c f p None s)
      (\<lambda>s. ret (MMAL_SUCCESS, upd_port q (\<lambda>Q. Q\<lparr>po_connected := None\<rparr>) (upd_port p (\<lambda>P. P\<lparr>po_connected := None\<rparr>) s)))
      (\<lambda>st s1. ret (st, s1))) (\<lambda>(st, s'). links s' = L \<or> links s' = L(p := None, q := None))" for f
    by (rule yields_or_else [OF keeps_links_connect [OF k l]]) (simp_all add: links_pair_upd)
  then show ?thesis
    using l unfolding finish_disconnect_def Let_def by (simp add: links_pair_upd split: option.split)
qed

lemma links_disconnect:
  assumes k: "keeps_links c" and q: "links s p = Some q"
  shows "yields (mmal_port_disconnect c (Some p) s)
    (\<lambda>(st, s'). links s' = links s \<or> links s' = (links s)(p := None, q := None))"
proof -
  define L where "L = links s"
  have fin: "yields (finish_disconnect c p q st s1) (\<lambda>(st, s'). links s' = L \<or> links s' = L(p := None, q := None))"
    if "links s1 = L" for st s1
    by (rule links_finish_disconnect [OF k that])
  have pool: "links (snd (mmal_port_connection_disable c p q s1)) = L" if "links s1 = L" for s1
    using that by (simp add: mmal_port_connection_disable_def Let_def links_pool_destroy [OF k])
  have l: "links s = L" by (simp add: L_def)
  have inner: "yields (or_else (mmal_port_disable_internal c i s1)
      (\<lambda>s2. case mmal_port_connection_disable c p q s2 of (st, s3) \<Rightarrow> finish_disconnect c p q st s3)
      (\<lambda>st s. ret (st, s))) (\<lambda>(st, s'). links s' = L \<or> links s' = L(p := None, q := None))"
    if "links s1 = L" for i s1
    by (rule yields_or_else [OF links_disable_internal [OF k that]])
      (use pool fin in \<open>auto simp: mmal_port_connection_disable_def Let_def\<close>)
  have "yields (or_else (mmal_port_disable_internal c out s)
      (\<lambda>s1. or_else (mmal_port_disable_internal c i s1)
        (\<lambda>s2. case mmal_port_connection_disable c p q s2 of (st, s3) \<Rightarrow> finish_disconnect c p q st s3)
        (\<lambda>st s. ret (st, s)))
      (\<lambda>st s. ret (st, s))) (\<lambda>(st, s'). links s' = L \<or> links s' = L(p := None, q := None))" for out i
    by (rule yields_or_else [OF links_disable_internal [OF k l]]) (simp_all add: inner)
  then have "yields (mmal_port_disconnect c (Some p) s) (\<lambda>(st, s'). links s' = L \<or> links s' = L(p := None, q := None))"
    using q fin [OF l] unfolding mmal_port_disconnect_def links_def Let_def by simp
  then show ?thesis by (simp add: L_def)
qed

section \<open>Sequences of connects and disconnects\<close>

text \<open>Between them anything may happen that leaves the links alone.\<close>

inductive link_step :: "'x port_ops \<Rightarrow> 'x pst \<Rightarrow> 'x pst \<Rightarrow> bool" for c :: "'x port_ops" where
  connect: "mmal_port_connect c (Some p) (Some q) s = ret (st, s') \<Longrightarrow> link_step c s s'"
| disconnect: "mmal_port_disconnect c (Some p) s = ret (st, s') \<Longrightarrow> link_step c s s'"
| other: "links s' = links s \<Longrightarrow> link_step c s s'"

inductive link_run :: "'x port_ops \<Rightarrow> 'x pst \<Rightarrow> 'x pst \<Rightarrow> bool" for c :: "'x port_ops" and s0 :: "'x pst" where
  start: "link_run c s0 s0"
| step: "link_run c s0 s \<Longrightarrow> link_step c s s' \<Longrightarrow> link_run c s0 s'"

definition paired :: "(addr \<Rightarrow> ptr) \<Rightarrow> bool" where
  "paired L \<longleftrightarrow> (\<forall>p q. L p = Some q \<longrightarrow> L q = Some p)"

lemma pairedD: "paired L \<Longrightarrow> L p = Some q \<Longrightarrow> L q = Some p"
  unfolding paired_def by blast

lemma paired_join:
  assumes "paired L" and "L p = None" and "L q = None"
  shows "paired (L(p := Some q, q := Some p))"
  unfolding paired_def
proof (intro allI impI)
  fix a b assume ab: "(L(p := Some q, q := Some p)) a = Some b"
  show "(L(p := Some q, q := Some p)) b = Some a"
  proof (cases "a = p \<or> a = q")
    case False
    with ab have "L a = Some b" by simp
    from pairedD [OF assms(1) this] have "L b = Some a" .
    with assms(2,3) False show ?thesis by auto
  qed (use ab in \<open>auto split: if_splits\<close>)
qed

lemma paired_part:
  assumes "paired L" and "L p = Some q"
  shows "paired (L(p := None, q := None))"
  unfolding paired_def
proof (intro allI impI)
  fix a b assume "(L(p := None, q := None)) a = Some b"
  then have a: "a \<noteq> p" "a \<noteq> q" "L a = Some b" by (simp_all split: if_splits)
  from pairedD [OF assms(1) a(3)] have b: "L b = Some a" .
  with assms(2) pairedD [OF assms] a(1,2) have "b \<noteq> p" "b \<noteq> q" by auto
  with b show "(L(p := None, q := None)) b = Some a" by simp
qed

lemma paired_step:
  assumes k: "keeps_links c" and "link_step c s s'" and pr: "paired (links s)"
  shows "paired (links s')"
  using assms(2)
proof cases
  case (connect p q st)
  from yieldsD [OF links_connect [OF k] this] pr paired_join show ?thesis by auto
next
  case (disconnect p st)
  show ?thesis
  proof (cases "links s p")
    case None
    then have "s' = s" using disconnect by (simp add: mmal_port_disconnect_def links_def)
    with pr show ?thesis by simp
  next
    case (Some q)
    from yieldsD [OF links_disconnect [OF k Some] disconnect] pr paired_part [OF pr Some] show ?thesis by auto
  qed
next
  case other
  with pr show ?thesis by simp
qed

lemma paired_run: "link_run c s0 s \<Longrightarrow> keeps_links c \<Longrightarrow> paired (links s0) \<Longrightarrow> paired (links s)"
  by (induction rule: link_run.induct) (auto dest: paired_step)

text \<open>C8. Connections are pairs: after any sequence of \<open>mmal_port_connect\<close> and \<open>mmal_port_disconnect\<close>
  calls, successful or not, on ports that were not connected, a port's peer is connected to that port
  and to no other. The components' functions and callbacks only have to leave the field of the core's
  private structure alone.\<close>

theorem connected_ports_stay_paired:
  assumes "keeps_links c" and "link_run c s0 s" and "\<forall>r. po_connected (port_of s0 r) = None"
  shows "po_connected (port_of s p) = Some q \<longleftrightarrow> po_connected (port_of s q) = Some p"
proof -
  have "paired (links s0)" using assms(3) by (simp add: paired_def links_def)
  with assms have "paired (links s)" using paired_run by blast
  then have "links s a = Some b \<Longrightarrow> links s b = Some a" for a b by (rule pairedD)
  from this [of p q] this [of q p] show ?thesis unfolding links_def by blast
qed

text \<open>Components that connect through the core, and an allocator without side effects.\<close>

definition quiet_ops :: "'x port_ops \<Rightarrow> 'x port_ops" where
  "quiet_ops base = base\<lparr>pp_connect := (\<lambda>f. mmal_port_connect_default),
     pp_disable := (\<lambda>f p s. ret (MMAL_SUCCESS, s)), pp_cb := (\<lambda>f p b s. ret s),
     pp_pools := (pp_pools base)\<lparr>op_free := (\<lambda>a w. w), op_pfree := (\<lambda>f x a w. w)\<rparr>\<rparr>"

lemma quiet_ops_keep: "keeps_links (quiet_ops base)"
  by (simp add: keeps_links_def quiet_ops_def mmal_port_connect_default_def)

definition two_ports :: "unit pst" where
  "two_ports = upd_port 20 (\<lambda>P. P\<lparr>po_type := MMAL_PORT_TYPE_INPUT, po_pf_connect := Some CONNECT_DEFAULT\<rparr>)
     (upd_port 10 (\<lambda>P. P\<lparr>po_type := MMAL_PORT_TYPE_OUTPUT, po_pf_connect := Some CONNECT_DEFAULT\<rparr>) empty_world)"

lemma two_ports_connect:
  "\<exists>s. mmal_port_connect (quiet_ops base) (Some 10) (Some 20) two_ports = ret (MMAL_SUCCESS, s)
    \<and> po_connected (port_of s 10) = Some 20"
  by (simp add: mmal_port_connect_def two_ports_def empty_world_def zero_port_def quiet_ops_def set_owner_def
      mmal_port_connect_default_def Let_def)

theorem connected_ports_stay_paired_witness:
  "\<forall>base. \<exists>s. mmal_port_connect (quiet_ops base) (Some 10) (Some 20) two_ports = ret (MMAL_SUCCESS, s)
    \<and> po_connected (port_of s 20) = Some 10"
proof
  fix base :: "unit port_ops"
  have unlinked: "\<forall>r. po_connected (port_of two_ports r) = None"
    by (simp add: two_ports_def empty_world_def zero_port_def)
  obtain s where s: "mmal_port_connect (quiet_ops base) (Some 10) (Some 20) two_ports = ret (MMAL_SUCCESS, s)"
      "po_connected (port_of s 10) = Some 20"
    using two_ports_connect by blast
  have "link_run (quiet_ops base) two_ports s"
    by (rule link_run.step [OF link_run.start link_step.connect [OF s(1)]])
  from connected_ports_stay_paired [OF quiet_ops_keep this unlinked, of 10 20] s
  show "\<exists>s. mmal_port_connect (quiet_ops base) (Some 10) (Some 20) two_ports = ret (MMAL_SUCCESS, s)
    \<and> po_connected (port_of s 20) = Some 10" by blast
qed

section \<open>Disconnecting from the other side\<close>

text \<open>When the output port's component manages a connection itself, only the output port can end it.
  \<open>mmal_port_connect\<close> asks the output port, whichever side it was called on; \<open>mmal_port_disconnect\<close> asks the
  port it was called on. An input port with the core's default then refuses: the call fails with
  \<open>MMAL_ENOSYS\<close> and both ports stay connected, also when the input port's component is being destroyed
  and ignores the failure. From the output port the same call succeeds.\<close>

lemma disconnect_depends_on_side:
  assumes "pp_connect c CONNECT_DEFAULT = mmal_port_connect_default"
    and "\<forall>p q s. pp_connect c f p q s = ret (MMAL_SUCCESS, s)"
    and "out \<noteq> inp" "po_connected (port_of s out) = None" "po_connected (port_of s inp) = None"
    and "\<not> po_is_enabled (port_of s out)" "\<not> po_is_enabled (port_of s inp)"
    and "po_type (port_of s out) = MMAL_PORT_TYPE_OUTPUT" "po_pf_connect (port_of s out) = Some f"
    and "po_type (port_of s inp) = MMAL_PORT_TYPE_INPUT" "po_pf_connect (port_of s inp) = Some CONNECT_DEFAULT"
  shows "\<exists>s1. mmal_port_connect c (Some inp) (Some out) s = ret (MMAL_SUCCESS, s1)
    \<and> po_connected (port_of s1 inp) = Some out \<and> po_connected (port_of s1 out) = Some inp
    \<and> mmal_port_disconnect c (Some inp) s1 = ret (MMAL_ENOSYS, s1)
    \<and> (\<exists>s2. mmal_port_disconnect c (Some out) s1 = ret (MMAL_SUCCESS, s2)
        \<and> po_connected (port_of s2 inp) = None \<and> po_connected (port_of s2 out) = None)"
  using assms
  by (simp add: mmal_port_connect_def mmal_port_disconnect_def finish_disconnect_def output_of_def is_output_def
      set_owner_def mmal_port_connect_default_def Let_def)

definition own_connect :: "'x port_ops \<Rightarrow> 'x port_ops" where
  "own_connect base = base\<lparr>pp_connect := (\<lambda>f. if f = CONNECT_DEFAULT then mmal_port_connect_default
     else (\<lambda>p q s. ret (MMAL_SUCCESS, s)))\<rparr>"

lemma disconnect_depends_on_side_witness:
  "\<forall>base. \<exists>s1. mmal_port_connect (own_connect base) (Some 20) (Some 10)
          (upd_port 10 (\<lambda>P. P\<lparr>po_pf_connect := Some 7\<rparr>) two_ports) = ret (MMAL_SUCCESS, s1)
    \<and> mmal_port_disconnect (own_connect base) (Some 20) s1 = ret (MMAL_ENOSYS, s1)"
proof
  fix base :: "unit port_ops"
  note side = disconnect_depends_on_side [of "own_connect base" 7 10 20
      "upd_port 10 (\<lambda>P. P\<lparr>po_pf_connect := Some 7\<rparr>) two_ports"]
  have "pp_connect (own_connect base) CONNECT_DEFAULT = mmal_port_connect_default"
    "\<forall>p q s. pp_connect (own_connect base) 7 p q s = ret (MMAL_SUCCESS, s)"
    by (simp_all add: own_connect_def CONNECT_DEFAULT_def)
  note side [OF this]
  then show "\<exists>s1. mmal_port_connect (own_connect base) (Some 20) (Some 10)
          (upd_port 10 (\<lambda>P. P\<lparr>po_pf_connect := Some 7\<rparr>) two_ports) = ret (MMAL_SUCCESS, s1)
    \<and> mmal_port_disconnect (own_connect base) (Some 20) s1 = ret (MMAL_ENOSYS, s1)"
    unfolding two_ports_def empty_world_def zero_port_def by simp blast
qed

end
