(* ===== verification/Mmal_Connection_Facts.thy ===== *)
theory Mmal_Connection_Facts
  imports Mmal_Port_Links
begin

text \<open>Properties of \<^verbatim>\<open>util/mmal_connection.c\<close>: its reference count, and a destruction that is tried again.\<close>

section \<open>A destruction that is tried again\<close>

lemma conn_time [simp]:
  "vcos_getmicrosecs c s = (t, s') \<Longrightarrow> w_conn (ps_env s') = w_conn (ps_env s)"
  "vcos_getmicrosecs c s = (t, s') \<Longrightarrow> w_port (ps_env s') = w_port (ps_env s)"
  by (auto simp: vcos_getmicrosecs_def split: prod.splits)

text \<open>The port that \<open>mmal_connection_disable\<close> disables first.\<close>

definition first_port :: "addr \<Rightarrow> 'x pst \<Rightarrow> addr" where
  "first_port x s = (if tunnelled x s then cx_out (conn_of s x) else cx_in (conn_of s x))"

lemma disable_of_idle_port:
  assumes "po_pf_disable (port_of s p) \<noteq> None" and "\<not> po_is_enabled (port_of s p)"
  shows "mmal_port_disable c (Some p) s = ret (MMAL_EINVAL, s)"
  using assms by (auto simp: mmal_port_disable_def)

lemma connection_disable_fails:
  assumes "cx_is_enabled (conn_of s x)"
    and "po_pf_disable (port_of s (first_port x s)) \<noteq> None" and "\<not> po_is_enabled (port_of s (first_port x s))"
  shows "\<exists>s1. mmal_connection_disable c x s = ret (MMAL_EINVAL, s1) \<and> cx_is_enabled (conn_of s1 x)
    \<and> cx_refcount (conn_of s1 x) = cx_refcount (conn_of s x)"
proof -
  obtain t s1 where t: "vcos_getmicrosecs c s = (t, s1)" by (cases "vcos_getmicrosecs c s")
  define s2 where "s2 = upd_conn x (\<lambda>X. X\<lparr>cx_time_disable := uint t\<rparr>) s1"
  have same: "tunnelled x s2 = tunnelled x s" "cx_out (conn_of s2 x) = cx_out (conn_of s x)"
    "cx_in (conn_of s2 x) = cx_in (conn_of s x)" "w_port (ps_env s2) = w_port (ps_env s)"
    "cx_refcount (conn_of s2 x) = cx_refcount (conn_of s x)"
    using t by (simp_all add: s2_def tunnelled_def)
  have out: "tunnelled x s2 \<Longrightarrow> mmal_port_disable c (Some (cx_out (conn_of s2 x))) s2 = ret (MMAL_EINVAL, s2)"
    and inp: "\<not> tunnelled x s2 \<Longrightarrow> mmal_port_disable c (Some (cx_in (conn_of s2 x))) s2 = ret (MMAL_EINVAL, s2)"
    using assms(2,3) by (simp_all add: same first_port_def disable_of_idle_port)
  obtain t' s3 where t': "vcos_getmicrosecs c s2 = (t', s3)" by (cases "vcos_getmicrosecs c s2")
  have "mmal_connection_disable c x s = ret (MMAL_EINVAL, upd_conn x (\<lambda>X. X\<lparr>cx_time_disable := uint t' - cx_time_disable X,
      cx_is_enabled := True\<rparr>) s3)"
    using assms(1) out inp t' by (simp add: mmal_connection_disable_def Let_def t s2_def [symmetric] disable_untunnelled_def)
  then show ?thesis using t' same(5) by simp
qed

text \<open>C34. The reference is given up before it is known whether the connection can be disabled. If the
  client has already disabled the port that \<open>mmal_connection_disable\<close> starts with, destroying the
  connection fails with \<open>MMAL_EINVAL\<close> and leaves it enabled; the client's second attempt brings the
  count to minus one, returns \<open>MMAL_SUCCESS\<close> and does nothing else: the connection, its queue and its pool
  are never freed.\<close>

theorem connection_destroy_retry:
  assumes "cx_refcount (conn_of s x) = 1" and "cx_is_enabled (conn_of s x)"
    and "po_pf_disable (port_of s (first_port x s)) \<noteq> None" and "\<not> po_is_enabled (port_of s (first_port x s))"
  shows "\<exists>s1. mmal_connection_destroy c x s = ret (MMAL_EINVAL, s1) \<and> cx_is_enabled (conn_of s1 x)
    \<and> mmal_connection_destroy c x s1 = ret (MMAL_SUCCESS, upd_conn x (\<lambda>X. X\<lparr>cx_refcount := -1\<rparr>) s1)"
proof -
  define s0 where "s0 = drop_connection x s"
  have s0: "cx_refcount (conn_of s0 x) = 0" "cx_is_enabled (conn_of s0 x)" "first_port x s0 = first_port x s"
    "w_port (ps_env s0) = w_port (ps_env s)"
    using assms(1,2) by (simp_all add: s0_def drop_connection_def first_port_def tunnelled_def)
  obtain s1 where s1: "mmal_connection_disable c x s0 = ret (MMAL_EINVAL, s1)" "cx_is_enabled (conn_of s1 x)"
      "cx_refcount (conn_of s1 x) = 0"
    using connection_disable_fails [of s0 x c] assms(3,4) s0 by auto
  have "mmal_connection_destroy c x s = ret (MMAL_EINVAL, s1)"
    using s0(1,2) s1(1) by (simp add: mmal_connection_destroy_def Let_def s0_def [symmetric] mmal_connection_destroy_internal_def)
  moreover have drop: "drop_connection x s1 = upd_conn x (\<lambda>X. X\<lparr>cx_refcount := -1\<rparr>) s1"
    using s1(3) by (simp add: drop_connection_def upd_conn_def upd_world_def)
  then have "mmal_connection_destroy c x s1 = ret (MMAL_SUCCESS, upd_conn x (\<lambda>X. X\<lparr>cx_refcount := -1\<rparr>) s1)"
    unfolding mmal_connection_destroy_def Let_def drop by simp
  ultimately show ?thesis using s1(2) by blast
qed

definition idle_connection :: "unit pst" where
  "idle_connection = upd_conn 30 (\<lambda>X. X\<lparr>cx_refcount := 1, cx_is_enabled := True, cx_in := 20, cx_out := 10\<rparr>)
     (upd_port 20 (\<lambda>P. P\<lparr>po_pf_disable := Some 1\<rparr>) empty_world)"

theorem connection_destroy_retry_witness:
  "\<forall>c. \<exists>s1. mmal_connection_destroy c 30 idle_connection = ret (MMAL_EINVAL, s1)"
proof
  fix c :: "unit port_ops"
  show "\<exists>s1. mmal_connection_destroy c 30 idle_connection = ret (MMAL_EINVAL, s1)"
    using connection_destroy_retry [of idle_connection 30 c]
    by (auto simp: idle_connection_def first_port_def tunnelled_def empty_world_def blank_connection_def zero_port_def)
qed

end
