(* ===== verification/Mmal_Module_Queue.thy ===== *)
theory Mmal_Module_Queue
  imports Mmal_Component
begin

text \<open>
  What the copy and pass-through components share: the queue of headers in a port's module data,
  the loop that flushes it, and the null sink (\<^verbatim>\<open>components/null_sink.c\<close>), which keeps no queue.
\<close>

section \<open>The queue of a port's module\<close>

definition module_queue_put :: "addr \<Rightarrow> addr \<Rightarrow> 'x pst \<Rightarrow> 'x pst" where
  "module_queue_put p b s =
     (case mmal_queue_put (po_module_queue (port_of s p), s) (Some b) of
        (q', s') \<Rightarrow> upd_port p (\<lambda>P. P\<lparr>po_module_queue := q'\<rparr>) s')"

definition module_queue_put_back :: "addr \<Rightarrow> addr \<Rightarrow> 'x pst \<Rightarrow> 'x pst" where
  "module_queue_put_back p b s =
     (case mmal_queue_put_back (po_module_queue (port_of s p), s) (Some b) of
        (q', s') \<Rightarrow> upd_port p (\<lambda>P. P\<lparr>po_module_queue := q'\<rparr>) s')"

definition module_queue_get :: "addr \<Rightarrow> 'x pst \<Rightarrow> (ptr \<times> 'x pst) outcome" where
  "module_queue_get p s =
     or_blocks (map_option (\<lambda>(r, (q', s')). (r, upd_port p (\<lambda>P. P\<lparr>po_module_queue := q'\<rparr>) s'))
       (mmal_queue_get (po_module_queue (port_of s p), s)))"

text \<open>\<open>cb\<close> gives a header back: \<open>mmal_port_buffer_header_callback\<close> on the port.\<close>

partial_function (option) flush_module_loop ::
  "(addr \<Rightarrow> 'x pst \<Rightarrow> 'x pst outcome) \<Rightarrow> addr \<Rightarrow> 'x pst \<Rightarrow> 'x pst outcome" where
  "flush_module_loop cb p s =
     andthen (module_queue_get p s) (\<lambda>r.
       case fst r of
         None \<Rightarrow> ret (snd r)
       | Some b \<Rightarrow> andthen (cb b (snd r)) (flush_module_loop cb p))"

text \<open>Destroying the module queues of a list of ports.\<close>

definition destroy_module_queues :: "addr list \<Rightarrow> 'x pst \<Rightarrow> 'x pst" where
  "destroy_module_queues ps = fold (\<lambda>p. upd_port p (\<lambda>P. P\<lparr>po_module_queue := None\<rparr>)) ps"

definition free_ports_of :: "'x port_ops \<Rightarrow> ptr \<Rightarrow> addr list \<Rightarrow> 'x pst \<Rightarrow> 'x pst outcome" where
  "free_ports_of c base ports s =
     (if ports = [] then ret s
      else case base of None \<Rightarrow> Some Faults | Some a \<Rightarrow> mmal_ports_free c a ports s)"

section \<open>The null sink\<close>

definition NULL_SINK :: nat where "NULL_SINK = 1"
definition BUFFER_FLAG_EOS :: u32 where "BUFFER_FLAG_EOS = 1"

definition null_sink_component_destroy :: "'x port_ops \<Rightarrow> addr \<Rightarrow> 'x status_op" where
  "null_sink_component_destroy c a s =
     andthen (free_ports_of c (co_input_base (comp_of s a)) (co_input (comp_of s a)) s)
       (\<lambda>s1. ret (MMAL_SUCCESS, s1))"

definition null_sink_port_enable :: "addr \<Rightarrow> nat option \<Rightarrow> 'x status_op" where
  "null_sink_port_enable p cb s = ret (MMAL_SUCCESS, s)"

definition null_sink_port_flush :: "addr \<Rightarrow> 'x status_op" where
  "null_sink_port_flush p s = ret (MMAL_SUCCESS, s)"

definition null_sink_port_disable :: "addr \<Rightarrow> 'x status_op" where
  "null_sink_port_disable p s = ret (MMAL_SUCCESS, s)"

definition null_sink_port_send :: "'x port_ops \<Rightarrow> addr \<Rightarrow> addr \<Rightarrow> 'x status_op" where
  "null_sink_port_send c p b s =
     (let eos = bh_flags (bufs s b) AND BUFFER_FLAG_EOS \<noteq> 0 in
      andthen (mmal_port_buffer_header_callback c p b (upd_buf b (\<lambda>B. B\<lparr>bh_length := 0\<rparr>) s)) (\<lambda>s1.
        if eos then mmal_event_eos_send c (Some p) s1 else ret (MMAL_SUCCESS, s1)))"

definition null_sink_port_format_commit :: "addr \<Rightarrow> 'x status_op" where
  "null_sink_port_format_commit p s = ret (MMAL_SUCCESS, s)"

definition null_sink_port :: "mmal_port \<Rightarrow> mmal_port" where
  "null_sink_port P = P\<lparr>po_pf_enable := Some NULL_SINK, po_pf_disable := Some NULL_SINK,
     po_pf_flush := Some NULL_SINK, po_pf_send := Some NULL_SINK, po_pf_set_format := Some NULL_SINK,
     po_buffer_num_min := 1, po_buffer_num_recommended := 1\<rparr>"

definition mmal_component_create_null_sink :: "'x port_ops \<Rightarrow> addr \<Rightarrow> 'x status_op" where
  "mmal_component_create_null_sink c a s =
     (let s1 = upd_comp a (\<lambda>C. C\<lparr>co_pf_destroy := Some NULL_SINK\<rparr>) s in
      andthen (mmal_ports_alloc c a 1 MMAL_PORT_TYPE_INPUT 0 s1) (\<lambda>(ports, s2).
        case ports of
          None \<Rightarrow> andthen (null_sink_component_destroy c a s2) (\<lambda>(_, s3). ret (MMAL_ENOMEM, s3))
        | Some (base, ps) \<Rightarrow>
            ret (MMAL_SUCCESS, fold (\<lambda>p. upd_port p null_sink_port) ps
                   (upd_comp a (\<lambda>C. C\<lparr>co_input_base := Some base, co_input := ps\<rparr>) s2))))"

end
