(* ===== verification/Mmal_Copy.thy ===== *)
theory Mmal_Copy
  imports Mmal_Module_Queue
begin

text \<open>
  The copy component (\<^verbatim>\<open>components/copy.c\<close>): headers sent to its two ports are queued; the action
  thread pairs an input with an output header, copies the payload and gives both back.
\<close>

section \<open>Processing\<close>

definition copy_header :: "mmal_header \<Rightarrow> mmal_header \<Rightarrow> mmal_header" where
  "copy_header i o' = o'\<lparr>bh_length := bh_length i, bh_offset := 0, bh_flags := bh_flags i,
     bh_pts := bh_pts i, bh_dts := bh_dts i, bh_type := bh_type i\<rparr>"

definition set_status :: "addr \<Rightarrow> mmal_status \<Rightarrow> 'x pst \<Rightarrow> 'x pst" where
  "set_status a st = upd_comp a (\<lambda>C. C\<lparr>co_status := st\<rparr>)"

text \<open>An event received on the input port.\<close>

definition copy_event :: "'x port_ops \<Rightarrow> addr \<Rightarrow> addr \<Rightarrow> addr \<Rightarrow> 'x pst \<Rightarrow> (bool \<times> 'x pst) outcome" where
  "copy_event c a port_in inb s =
     andthen (mmal_event_format_changed_get c (Some inb) s) (\<lambda>(event, s1).
     andthen
       (case event of
          None \<Rightarrow> ret s1
        | Some d \<Rightarrow>
            (case (po_format (port_of s1 port_in), fc_format (as_format_event (w_event (ps_env s1) d))) of
               (Some dst, Some src) \<Rightarrow>
                 andthen (world_format_full_copy c dst src s1) (\<lambda>(st, s2).
                 andthen (if st = MMAL_SUCCESS
                          then case po_pf_set_format (port_of s2 port_in) of
                                 None \<Rightarrow> Some Faults
                               | Some f \<Rightarrow> pp_set_format c f port_in s2
                          else ret (st, s2)) (\<lambda>(st, s3).
                 if st = MMAL_SUCCESS then ret (set_status a st s3)
                 else andthen (mmal_event_error_send c (Some a) st (set_status a st s3)) (\<lambda>(_, s4). ret s4)))
             | _ \<Rightarrow> Some Faults))
       (\<lambda>s5. andthen (mmal_port_buffer_header_callback c port_in inb
                        (upd_buf inb (\<lambda>B. B\<lparr>bh_length := 0\<rparr>) s5)) (\<lambda>s6. ret (True, s6))))"

text \<open>True: the action thread goes on.\<close>

definition copy_do_processing :: "'x port_ops \<Rightarrow> addr \<Rightarrow> 'x pst \<Rightarrow> (bool \<times> 'x pst) outcome" where
  "copy_do_processing c a s =
     (let port_in = co_input (comp_of s a) ! 0; port_out = co_output (comp_of s a) ! 0 in
      if po_needs_configuring (port_of s port_out) then ret (False, s)
      else andthen (module_queue_get port_in s) (\<lambda>(i, s1).
        case i of
          None \<Rightarrow> ret (False, s1)
        | Some inb \<Rightarrow>
            if bh_cmd (bufs s1 inb) \<noteq> 0 then copy_event c a port_in inb s1
            else if co_status (comp_of s1 a) \<noteq> MMAL_SUCCESS
            then ret (False, module_queue_put_back port_in inb s1)
            else andthen (module_queue_get port_out s1) (\<lambda>(o', s2).
              case o' of
                None \<Rightarrow> ret (False, module_queue_put_back port_in inb s2)
              | Some outb \<Rightarrow>
                  if bh_alloc_size (bufs s2 outb) < bh_length (bufs s2 inb)
                  then andthen (mmal_event_error_send c (Some a) MMAL_EINVAL (set_status a MMAL_EINVAL s2))
                         (\<lambda>(_, s3). ret (False, s3))
                  else
                    andthen (copy_bytes (bh_data (bufs s2 outb)) (bh_data (bufs s2 inb))
                        (unat (bh_offset (bufs s2 inb))) (unat (bh_length (bufs s2 inb))) s2) (\<lambda>s3.
                    let s4 = upd_buf outb (copy_header (bufs s3 inb)) s3;
                        s5 = upd_buf inb (\<lambda>B. B\<lparr>bh_length := 0\<rparr>) s4
                    in andthen (mmal_port_buffer_header_callback c port_in inb s5) (\<lambda>s6.
                       andthen (mmal_port_buffer_header_callback c port_out outb s6) (\<lambda>s7.
                       ret (True, s7)))))))"

partial_function (option) copy_do_processing_loop :: "'x port_ops \<Rightarrow> addr \<Rightarrow> 'x pst \<Rightarrow> 'x pst outcome" where
  "copy_do_processing_loop c a s =
     andthen (copy_do_processing c a s) (\<lambda>r.
       if fst r then copy_do_processing_loop c a (snd r) else ret (snd r))"

section \<open>The functions of the ports\<close>

definition copy_port_flush :: "'x port_ops \<Rightarrow> addr \<Rightarrow> 'x status_op" where
  "copy_port_flush c p s =
     andthen (flush_module_loop (mmal_port_buffer_header_callback c p) p s) (\<lambda>s1. ret (MMAL_SUCCESS, s1))"

definition copy_port_disable :: "'x port_ops \<Rightarrow> addr \<Rightarrow> 'x status_op" where
  "copy_port_disable c p s = copy_port_flush c p s"

definition copy_port_send :: "addr \<Rightarrow> addr \<Rightarrow> 'x status_op" where
  "copy_port_send p b s =
     (let s1 = module_queue_put p b s
      in ret (MMAL_SUCCESS, snd (mmal_component_action_trigger (po_component (port_of s1 p)) s1)))"

definition copy_port_enable :: "'x port_ops \<Rightarrow> addr \<Rightarrow> nat option \<Rightarrow> 'x status_op" where
  "copy_port_enable c p cb s =
     (if po_type (port_of s p) = MMAL_PORT_TYPE_INPUT
      then case po_pf_set_format (port_of s p) of
             None \<Rightarrow> Some Faults | Some f \<Rightarrow> pp_set_format c f p s
      else ret (MMAL_SUCCESS, s))"

text \<open>The format-changed event of the output port.\<close>

definition copy_send_format_event :: "'x port_ops \<Rightarrow> addr \<Rightarrow> addr \<Rightarrow> 'x status_op" where
  "copy_send_format_event c inp out s =
     andthen (mmal_port_event_get c (Some out) MMAL_EVENT_FORMAT_CHANGED s) (\<lambda>(st, buffer, s1).
       if st \<noteq> MMAL_SUCCESS then ret (st, s1)
       else andthen (mmal_event_format_changed_get c buffer s1) (\<lambda>(event, s2).
         case (buffer, event) of
           (Some b, Some d) \<Rightarrow>
             let e = as_format_event (w_event (ps_env s2) d);
                 s3 = (case (fc_format e, po_format (port_of s2 inp)) of
                         (Some f, Some g) \<Rightarrow> on_fmt (mmal_format_copy f g (w_fmt (ps_env s2))) s2 | _ \<Rightarrow> s2);
                 I = port_of s3 inp; O' = port_of s3 out;
                 sz = max (po_buffer_size_min I) (po_buffer_size I);
                 s4 = set_event d (EventFormat (e\<lparr>fc_buffer_num_min := po_buffer_num_min O',
                        fc_buffer_num_recommended := po_buffer_num_recommended O',
                        fc_buffer_size_min := sz, fc_buffer_size_recommended := sz\<rparr>)) s3;
                 s5 = upd_port out (\<lambda>P. P\<lparr>po_needs_configuring := True\<rparr>) s4
             in andthen (mmal_port_event_send c out b s5) (\<lambda>s6. ret (MMAL_SUCCESS, s6))
         | _ \<Rightarrow> Some Faults))"

definition copy_input_port_format_commit :: "'x port_ops \<Rightarrow> addr \<Rightarrow> 'x status_op" where
  "copy_input_port_format_commit c inp s =
     (let out = co_output (comp_of s (po_component (port_of s inp))) ! 0;
          I = port_of s inp; O' = port_of s out
      in case (po_format I, po_format O') of
           (Some fi, Some fo) \<Rightarrow>
             andthen (or_faults (mmal_format_compare (w_fmt (ps_env s)) fi fo)) (\<lambda>diff.
               if diff = 0 \<and> po_buffer_size_min O' = po_buffer_size_recommended O'
                  \<and> po_buffer_size_min O' = max (po_buffer_size_min I) (po_buffer_size I)
               then ret (MMAL_SUCCESS, s)
               else if \<not> po_is_enabled O' then
                 let sz = max (po_buffer_size I) (po_buffer_size_min I)
                 in world_format_full_copy c fo fi
                      (upd_port out (\<lambda>P. P\<lparr>po_buffer_size_min := sz, po_buffer_size_recommended := sz\<rparr>) s)
               else copy_send_format_event c inp out s)
         | _ \<Rightarrow> Some Faults)"

definition copy_output_port_format_commit :: "addr \<Rightarrow> 'x status_op" where
  "copy_output_port_format_commit out s =
     (let a = po_component (port_of s out); inp = co_input (comp_of s a) ! 0
      in case (po_format (port_of s out), po_format (port_of s inp)) of
           (Some fo, Some fi) \<Rightarrow>
             andthen (or_faults (mmal_format_compare (w_fmt (ps_env s)) fo fi)) (\<lambda>diff.
               if diff \<noteq> 0 then ret (MMAL_EINVAL, s)
               else ret (MMAL_SUCCESS, snd (mmal_component_action_trigger a
                      (upd_port out (\<lambda>P. P\<lparr>po_needs_configuring := False\<rparr>) s))))
         | _ \<Rightarrow> Some Faults)"

section \<open>Creation and destruction\<close>

definition COPY :: nat where "COPY = 2"
definition COPY_OUTPUT_FORMAT :: nat where "COPY_OUTPUT_FORMAT = 3"

definition copy_component_destroy :: "'x port_ops \<Rightarrow> addr \<Rightarrow> 'x status_op" where
  "copy_component_destroy c a s =
     andthen (free_ports_of c (co_input_base (comp_of s a)) (co_input (comp_of s a))
                (destroy_module_queues (co_input (comp_of s a)) s)) (\<lambda>s1.
     andthen (free_ports_of c (co_output_base (comp_of s1 a)) (co_output (comp_of s1 a))
                (destroy_module_queues (co_output (comp_of s1 a)) s1)) (\<lambda>s2.
     ret (MMAL_SUCCESS, free_opt c (co_module (comp_of s2 a)) s2)))"

definition copy_port :: "nat \<Rightarrow> mmal_port \<Rightarrow> mmal_port" where
  "copy_port fmt P = P\<lparr>po_pf_enable := Some COPY, po_pf_disable := Some COPY, po_pf_flush := Some COPY,
     po_pf_send := Some COPY, po_pf_set_format := Some fmt, po_buffer_num_min := 1,
     po_buffer_num_recommended := 0\<rparr>"

text \<open>Giving a new port its functions and its queue; false: no queue.\<close>

definition setup_port :: "'x port_ops \<Rightarrow> (mmal_port \<Rightarrow> mmal_port) \<Rightarrow> addr \<Rightarrow> 'x pst \<Rightarrow> bool \<times> 'x pst" where
  "setup_port c init p s =
     (let (queue, s1) = world_queue_create c (upd_port p init s)
      in (queue \<noteq> None, upd_port p (\<lambda>P. P\<lparr>po_module_queue := queue\<rparr>) s1))"

definition create_copy_error :: "'x port_ops \<Rightarrow> addr \<Rightarrow> mmal_status \<Rightarrow> 'x status_op" where
  "create_copy_error c a status s =
     andthen (copy_component_destroy c a s) (\<lambda>(_, s1). ret (status, s1))"

definition create_copy_output :: "'x port_ops \<Rightarrow> addr \<Rightarrow> 'x status_op" where
  "create_copy_output c a s =
     andthen (mmal_ports_alloc c a 1 MMAL_PORT_TYPE_OUTPUT (sizeof_port_module (pp_sizes c)) s) (\<lambda>(ports, s1).
       case ports of
         None \<Rightarrow> create_copy_error c a MMAL_ENOMEM s1
       | Some (base, ps) \<Rightarrow>
           (case setup_port c (copy_port COPY_OUTPUT_FORMAT) (ps ! 0)
                   (upd_comp a (\<lambda>C. C\<lparr>co_output_base := Some base, co_output := ps\<rparr>) s1) of
              (False, s2) \<Rightarrow> create_copy_error c a MMAL_ENOMEM s2
            | (True, s2) \<Rightarrow>
                (case mmal_component_action_register c a COPY s2 of
                   (st, s3) \<Rightarrow> if st \<noteq> MMAL_SUCCESS then create_copy_error c a st s3
                                else ret (MMAL_SUCCESS, s3))))"

definition mmal_component_create_copy :: "'x port_ops \<Rightarrow> addr \<Rightarrow> 'x status_op" where
  "mmal_component_create_copy c a s =
     (let (modul, s1) = vcos_malloc c (sizeof_module (pp_sizes c)) s;
          s2 = upd_comp a (\<lambda>C. C\<lparr>co_module := modul\<rparr>) s1
      in if modul = None then ret (MMAL_ENOMEM, s2)
         else andthen (mmal_ports_alloc c a 1 MMAL_PORT_TYPE_INPUT (sizeof_port_module (pp_sizes c))
                (upd_comp a (\<lambda>C. C\<lparr>co_status := MMAL_SUCCESS, co_pf_destroy := Some COPY\<rparr>) s2)) (\<lambda>(ports, s3).
           case ports of
             None \<Rightarrow> create_copy_error c a MMAL_ENOMEM s3
           | Some (base, ps) \<Rightarrow>
               (case setup_port c (copy_port COPY) (ps ! 0)
                       (upd_comp a (\<lambda>C. C\<lparr>co_input_base := Some base, co_input := ps\<rparr>) s3) of
                  (False, s4) \<Rightarrow> create_copy_error c a MMAL_ENOMEM s4
                | (True, s4) \<Rightarrow> create_copy_output c a s4)))"

end
