(* ===== verification/Mmal_Passthrough.thy ===== *)
theory Mmal_Passthrough
  imports Mmal_Copy Mmal_Connection
begin

text \<open>
  The pass-through component (\<^verbatim>\<open>components/passthrough.c\<close>): a header sent to one port is paired
  at once with a header that waits on the matching port; the output header becomes a replica of
  the input header.
\<close>

section \<open>The functions of the ports\<close>

definition matching_in :: "addr \<Rightarrow> 'x pst \<Rightarrow> addr" where
  "matching_in p s = co_input (comp_of s (po_component (port_of s p))) ! unat (po_index (port_of s p))"

definition matching_out :: "addr \<Rightarrow> 'x pst \<Rightarrow> addr" where
  "matching_out p s = co_output (comp_of s (po_component (port_of s p))) ! unat (po_index (port_of s p))"

definition passthrough_port_enable :: "addr \<Rightarrow> nat option \<Rightarrow> 'x status_op" where
  "passthrough_port_enable p cb s = ret (MMAL_SUCCESS, s)"

definition passthrough_port_flush :: "'x port_ops \<Rightarrow> addr \<Rightarrow> 'x status_op" where
  "passthrough_port_flush c p s =
     andthen (flush_module_loop (mmal_port_buffer_header_callback c p) p s) (\<lambda>s1. ret (MMAL_SUCCESS, s1))"

definition passthrough_port_disable :: "'x port_ops \<Rightarrow> addr \<Rightarrow> 'x status_op" where
  "passthrough_port_disable c p s = passthrough_port_flush c p s"

text \<open>The label \<open>error\<close> of \<open>passthrough_port_send\<close>.\<close>

definition passthrough_error ::
  "'x port_ops \<Rightarrow> addr \<Rightarrow> addr \<Rightarrow> addr \<Rightarrow> addr \<Rightarrow> addr \<Rightarrow> mmal_status \<Rightarrow> 'x status_op" where
  "passthrough_error c a in_port inb out_port outb st s =
     andthen (mmal_event_error_send c (Some a) st
                (module_queue_put out_port outb (module_queue_put in_port inb s))) (\<lambda>(st', s1).
       if st' \<noteq> MMAL_SUCCESS then ret (MMAL_SUCCESS, s1)
       else ret (MMAL_SUCCESS, upd_comp a (\<lambda>C. C\<lparr>co_error := True\<rparr>) s1))"

definition passthrough_port_send :: "'x port_ops \<Rightarrow> addr \<Rightarrow> addr \<Rightarrow> 'x status_op" where
  "passthrough_port_send c p b s =
     (let a = po_component (port_of s p) in
      if co_error (comp_of s a) then ret (MMAL_SUCCESS, module_queue_put p b s)
      else
        let in_port = matching_in p s; out_port = matching_out p s;
            from_input = is_input p s;
            other = (if from_input then out_port else in_port)
        in andthen (module_queue_get other s) (\<lambda>(r, s1).
           case r of
             None \<Rightarrow> ret (MMAL_SUCCESS, module_queue_put p b s1)
           | Some o' \<Rightarrow>
               let inb = (if from_input then b else o'); outb = (if from_input then o' else b)
               in case mmal_buffer_header_replicate (Some outb) (Some inb) s1 of
                    (st, s2) \<Rightarrow>
                      if st \<noteq> MMAL_SUCCESS then passthrough_error c a in_port inb out_port outb st s2
                      else
                        andthen (mmal_port_buffer_header_callback c in_port inb
                                   (upd_buf inb (\<lambda>B. B\<lparr>bh_length := 0\<rparr>) s2)) (\<lambda>s3.
                        andthen (mmal_port_buffer_header_callback c out_port outb s3) (\<lambda>s4.
                        ret (MMAL_SUCCESS, s4)))))"

definition passthrough_port_format_commit :: "'x port_ops \<Rightarrow> addr \<Rightarrow> 'x status_op" where
  "passthrough_port_format_commit c p s =
     (if is_output p s then ret (MMAL_EINVAL, s)
      else case (po_format (port_of s (matching_out p s)), po_format (port_of s p)) of
             (Some dst, Some src) \<Rightarrow> world_format_full_copy c dst src s
           | _ \<Rightarrow> Some Faults)"

definition require :: "u32 list \<Rightarrow> mmal_port \<Rightarrow> mmal_port" where
  "require ws P = P\<lparr>po_buffer_num_min := ws ! 0, po_buffer_num_recommended := ws ! 1,
     po_buffer_size_min := ws ! 2, po_buffer_size_recommended := ws ! 3\<rparr>"

text \<open>The parameter's words: minimum number, minimum size, alignment, recommended number and size.\<close>

definition passthrough_port_parameter_set :: "addr \<Rightarrow> parameter \<Rightarrow> 'x status_op" where
  "passthrough_port_parameter_set p param s =
     (let inp = matching_in p s; out = matching_in p s; P = port_of s p; d = pm_data param in
      if pm_id param = MMAL_PARAMETER_BUFFER_REQUIREMENTS then
        let ws = [max (po_buffer_num_min P) (d ! 0), max (po_buffer_num_recommended P) (d ! 3),
                  max (po_buffer_size_min P) (d ! 1), max (po_buffer_size_recommended P) (d ! 4)]
        in ret (MMAL_SUCCESS, upd_port out (require ws) (upd_port inp (require ws) s))
      else ret (MMAL_ENOSYS, s))"

section \<open>Creation and destruction\<close>

definition PASSTHROUGH :: nat where "PASSTHROUGH = 4"

definition passthrough_component_destroy :: "'x port_ops \<Rightarrow> addr \<Rightarrow> 'x status_op" where
  "passthrough_component_destroy c a s =
     andthen (free_ports_of c (co_input_base (comp_of s a)) (co_input (comp_of s a))
                (destroy_module_queues (co_input (comp_of s a)) s)) (\<lambda>s1.
     andthen (free_ports_of c (co_output_base (comp_of s1 a)) (co_output (comp_of s1 a))
                (destroy_module_queues (co_output (comp_of s1 a)) s1)) (\<lambda>s2.
     ret (MMAL_SUCCESS, free_opt c (co_module (comp_of s2 a)) s2)))"

definition passthrough_port :: "u32 \<Rightarrow> mmal_port \<Rightarrow> mmal_port" where
  "passthrough_port caps P = P\<lparr>po_pf_enable := Some PASSTHROUGH, po_pf_disable := Some PASSTHROUGH,
     po_pf_flush := Some PASSTHROUGH, po_pf_send := Some PASSTHROUGH,
     po_pf_set_format := Some PASSTHROUGH, po_pf_parameter_set := Some PASSTHROUGH,
     po_buffer_num_min := 1, po_buffer_num_recommended := 0, po_capabilities := caps\<rparr>"

definition create_passthrough_error :: "'x port_ops \<Rightarrow> addr \<Rightarrow> 'x status_op" where
  "create_passthrough_error c a s =
     andthen (passthrough_component_destroy c a s) (\<lambda>(_, s1). ret (MMAL_ENOMEM, s1))"

definition create_passthrough_output :: "'x port_ops \<Rightarrow> addr \<Rightarrow> 'x status_op" where
  "create_passthrough_output c a s =
     andthen (mmal_ports_alloc c a 1 MMAL_PORT_TYPE_OUTPUT (sizeof_port_module (pp_sizes c)) s) (\<lambda>(ports, s1).
       case ports of
         None \<Rightarrow> create_passthrough_error c a s1
       | Some (base, ps) \<Rightarrow>
           (case setup_port c (passthrough_port CAPABILITY_PASSTHROUGH) (ps ! 0)
                   (upd_comp a (\<lambda>C. C\<lparr>co_output_base := Some base, co_output := ps\<rparr>) s1) of
              (False, s2) \<Rightarrow> create_passthrough_error c a s2
            | (True, s2) \<Rightarrow> ret (MMAL_SUCCESS, s2)))"

definition mmal_component_create_passthrough :: "'x port_ops \<Rightarrow> addr \<Rightarrow> 'x status_op" where
  "mmal_component_create_passthrough c a s =
     (let (modul, s1) = vcos_malloc c (sizeof_module (pp_sizes c)) s;
          s2 = upd_comp a (\<lambda>C. C\<lparr>co_module := modul\<rparr>) s1
      in if modul = None then ret (MMAL_ENOMEM, s2)
         else andthen (mmal_ports_alloc c a 1 MMAL_PORT_TYPE_INPUT (sizeof_port_module (pp_sizes c))
                (upd_comp a (\<lambda>C. C\<lparr>co_error := False, co_pf_destroy := Some PASSTHROUGH\<rparr>) s2)) (\<lambda>(ports, s3).
           case ports of
             None \<Rightarrow> create_passthrough_error c a s3
           | Some (base, ps) \<Rightarrow>
               (case setup_port c (passthrough_port 0) (ps ! 0)
                       (upd_comp a (\<lambda>C. C\<lparr>co_input_base := Some base, co_input := ps\<rparr>) s3) of
                  (False, s4) \<Rightarrow> create_passthrough_error c a s4
                | (True, s4) \<Rightarrow> create_passthrough_output c a s4)))"

end
