(* ===== verification/Mmal_Port_Frames.thy ===== *)
theory Mmal_Port_Frames
  imports Mmal_Passthrough
begin

text \<open>
  Frames for the operations on a port: what they leave of the port and of the headers, and the
  queue in a port's module data as a sequence of headers.
\<close>

section \<open>Frames\<close>

text \<open>What an operation on port \<open>p\<close> leaves alone: every port field but the transit count, the
  statistics and the module data; \<open>same_bufs A\<close>: the headers outside \<open>A\<close>.\<close>

definition rest_of :: "mmal_port \<Rightarrow> mmal_port" where
  "rest_of P = P\<lparr>po_transit := 0, po_transit_sema := 0, po_stats_rx := zero_stats, po_stats_tx := zero_stats,
     po_module_queue := None, po_needs_configuring := False\<rparr>"

definition same_bufs :: "addr set \<Rightarrow> 'x pst \<Rightarrow> 'x pst \<Rightarrow> bool" where
  "same_bufs A s s' \<longleftrightarrow> (\<forall>h. h \<notin> A \<longrightarrow> bufs s' h = bufs s h)"

lemma rest_of_fields:
  assumes "rest_of P = rest_of Q"
  shows "po_callback P = po_callback Q" "po_is_enabled P = po_is_enabled Q"
    "po_is_paused P = po_is_paused Q" "po_queue_first P = po_queue_first Q"
    "po_queue_last P = po_queue_last Q" "po_pf_send P = po_pf_send Q"
    "po_pf_flush P = po_pf_flush Q" "po_pf_disable P = po_pf_disable Q"
    "po_capabilities P = po_capabilities Q" "po_userdata P = po_userdata Q"
    "po_component P = po_component Q" "po_type P = po_type Q"
    "po_pool_for_connection P = po_pool_for_connection Q" "po_connected P = po_connected Q"
proof -
  note c = arg_cong [OF assms]
  show "po_callback P = po_callback Q" using c [of po_callback] by (simp add: rest_of_def)
  show "po_is_enabled P = po_is_enabled Q" using c [of po_is_enabled] by (simp add: rest_of_def)
  show "po_is_paused P = po_is_paused Q" using c [of po_is_paused] by (simp add: rest_of_def)
  show "po_queue_first P = po_queue_first Q" using c [of po_queue_first] by (simp add: rest_of_def)
  show "po_queue_last P = po_queue_last Q" using c [of po_queue_last] by (simp add: rest_of_def)
  show "po_pf_send P = po_pf_send Q" using c [of po_pf_send] by (simp add: rest_of_def)
  show "po_pf_flush P = po_pf_flush Q" using c [of po_pf_flush] by (simp add: rest_of_def)
  show "po_pf_disable P = po_pf_disable Q" using c [of po_pf_disable] by (simp add: rest_of_def)
  show "po_capabilities P = po_capabilities Q" using c [of po_capabilities] by (simp add: rest_of_def)
  show "po_userdata P = po_userdata Q" using c [of po_userdata] by (simp add: rest_of_def)
  show "po_component P = po_component Q" using c [of po_component] by (simp add: rest_of_def)
  show "po_type P = po_type Q" using c [of po_type] by (simp add: rest_of_def)
  show "po_connected P = po_connected Q" using c [of po_connected] by (simp add: rest_of_def)
  show "po_pool_for_connection P = po_pool_for_connection Q"
    using c [of po_pool_for_connection] by (simp add: rest_of_def)
qed

lemma rest_of_upd [simp]:
  "rest_of (P\<lparr>po_transit := n\<rparr>) = rest_of P" "rest_of (P\<lparr>po_transit_sema := k\<rparr>) = rest_of P"
  "rest_of (P\<lparr>po_stats_rx := r\<rparr>) = rest_of P" "rest_of (P\<lparr>po_stats_tx := r\<rparr>) = rest_of P"
  "rest_of (P\<lparr>po_module_queue := q\<rparr>) = rest_of P"
  by (simp_all add: rest_of_def)

lemma rest_of_reset:
  assumes "rest_of P = rest_of Q"
  shows "rest_of (P\<lparr>po_queue_first := q, po_queue_last := l\<rparr>) = rest_of (Q\<lparr>po_queue_first := q, po_queue_last := l\<rparr>)"
proof -
  have "rest_of (R\<lparr>po_queue_first := q, po_queue_last := l\<rparr>) = (rest_of R)\<lparr>po_queue_first := q, po_queue_last := l\<rparr>" for R
    by (simp add: rest_of_def)
  with assms show ?thesis by simp
qed

lemma same_bufs_refl [simp]: "same_bufs A s s"
  and same_bufs_trans: "same_bufs A s s' \<Longrightarrow> same_bufs B s' s'' \<Longrightarrow> same_bufs (A \<union> B) s s''"
  and same_bufs_mono: "same_bufs A s s' \<Longrightarrow> A \<subseteq> B \<Longrightarrow> same_bufs B s s'"
  by (auto simp: same_bufs_def)

lemma same_bufs_upds [simp]:
  "same_bufs A s (upd_port p f s') = same_bufs A s s'" "same_bufs A s (upd_comp a g s') = same_bufs A s s'"
  "same_bufs A s (upd_env h s') = same_bufs A s s'"
  by (simp_all add: same_bufs_def)

lemma queue_put_same_bufs:
  assumes "queue_repr (qo, m) xs" and "mmal_queue_put (qo, m) (Some b) = (q', m')"
  shows "h \<notin> insert b (set xs) \<Longrightarrow> bufs m' h = bufs m h"
    and "mmal_mem.more m' = mmal_mem.more m"
proof -
  obtain q where q: "qo = Some q" using assms(1) by (cases qo) auto
  show "h \<notin> insert b (set xs) \<Longrightarrow> bufs m' h = bufs m h"
    using assms by (cases "xs = []") (auto simp: q Let_def queue_list_def set_next_def split: prod.splits)
  show "mmal_mem.more m' = mmal_mem.more m"
    using queue_put_frame [of m qo "Some b"] assms(2) by (simp add: same_but_next_def)
qed

lemma pstate_more: "mmal_mem.more s' = mmal_mem.more (s :: 'x pst) \<Longrightarrow> ps_env s' = ps_env s \<and> ps_pool s' = ps_pool s"
  by (cases s; cases s') simp

section \<open>The queue of a port's module, as a sequence\<close>

definition module_holds :: "addr \<Rightarrow> 'x pst \<Rightarrow> addr list \<Rightarrow> bool" where
  "module_holds p s hs \<longleftrightarrow> queue_repr (po_module_queue (port_of s p), s) hs"

lemma module_holds_frame:
  assumes "module_holds p s hs" and "po_module_queue (port_of s' p) = po_module_queue (port_of s p)"
    and "\<And>h. h \<in> set hs \<Longrightarrow> bufs s' h = bufs s h"
  shows "module_holds p s' hs"
proof -
  have "queue_repr (po_module_queue (port_of s p), s') hs"
    by (rule queue_repr_mem_cong [where m = s]) (use assms in \<open>auto simp: module_holds_def\<close>)
  then show ?thesis using assms(2) by (simp add: module_holds_def)
qed

lemma module_put:
  assumes "module_holds p s hs" and "b \<notin> set hs"
  shows "module_holds p (module_queue_put p b s) (hs @ [b])"
    and "same_bufs (insert b (set hs)) s (module_queue_put p b s)"
    and "rest_of (port_of (module_queue_put p b s) p) = rest_of (port_of s p)"
    and "po_transit (port_of (module_queue_put p b s) p) = po_transit (port_of s p)"
    and "po_transit_sema (port_of (module_queue_put p b s) p) = po_transit_sema (port_of s p)"
    and "ps_env (module_queue_put p b s) = (ps_env s)\<lparr>w_port := (w_port (ps_env s))(p :=
           (port_of s p)\<lparr>po_module_queue := po_module_queue (port_of (module_queue_put p b s) p)\<rparr>)\<rparr>"
proof -
  obtain q' s1 where put: "mmal_queue_put (po_module_queue (port_of s p), s) (Some b) = (q', s1)" by fastforce
  note q = assms(1) [unfolded module_holds_def]
  note fr = queue_put_same_bufs [OF q put]
  have e: "ps_env s1 = ps_env s" using pstate_more [OF fr(2)] by simp
  have r: "queue_repr (q', s1) (hs @ [b])" using queue_repr_put [OF q assms(2)] put by simp
  have d: "module_queue_put p b s = upd_port p (\<lambda>P. P\<lparr>po_module_queue := q'\<rparr>) s1"
    by (simp add: module_queue_put_def put)
  have "queue_repr (q', upd_port p (\<lambda>P. P\<lparr>po_module_queue := q'\<rparr>) s1) (hs @ [b])"
    by (rule queue_repr_mem_cong [OF r]) simp
  then show "module_holds p (module_queue_put p b s) (hs @ [b])" by (simp add: module_holds_def d)
  show "same_bufs (insert b (set hs)) s (module_queue_put p b s)" using fr(1) by (simp add: d same_bufs_def)
  show "rest_of (port_of (module_queue_put p b s) p) = rest_of (port_of s p)"
    and "po_transit (port_of (module_queue_put p b s) p) = po_transit (port_of s p)"
    and "po_transit_sema (port_of (module_queue_put p b s) p) = po_transit_sema (port_of s p)"
    by (simp_all add: d e)
  show "ps_env (module_queue_put p b s) = (ps_env s)\<lparr>w_port := (w_port (ps_env s))(p :=
           (port_of s p)\<lparr>po_module_queue := po_module_queue (port_of (module_queue_put p b s) p)\<rparr>)\<rparr>"
    by (simp add: d e upd_port_def)
qed

lemma module_get_Nil: "module_holds p s [] \<Longrightarrow> module_queue_get p s = ret (None, s)"
proof -
  assume "module_holds p s []"
  then have "mmal_queue_get (po_module_queue (port_of s p), s) = Some (None, (po_module_queue (port_of s p), s))"
    by (simp add: module_holds_def queue_get_empty)
  moreover have "upd_port p (\<lambda>P. P\<lparr>po_module_queue := po_module_queue (port_of s p)\<rparr>) s = s"
    by (simp add: upd_port_def upd_world_def fun_upd_idem)
  ultimately show ?thesis by (simp add: module_queue_get_def)
qed

lemma module_get_Cons:
  assumes "module_holds p s (b # hs)"
  shows "\<exists>q'. module_queue_get p s = ret (Some b, upd_port p (\<lambda>P. P\<lparr>po_module_queue := q'\<rparr>) s)
    \<and> module_holds p (upd_port p (\<lambda>P. P\<lparr>po_module_queue := q'\<rparr>) s) hs"
proof -
  obtain q' where g: "mmal_queue_get (po_module_queue (port_of s p), s) = Some (Some b, (Some q', s))"
    and r: "queue_repr (Some q', s) hs"
    using queue_get_Cons [OF assms [unfolded module_holds_def]] by auto
  have "queue_repr (Some q', upd_port p (\<lambda>P. P\<lparr>po_module_queue := Some q'\<rparr>) s) hs"
    by (rule queue_repr_mem_cong [OF r]) simp
  with g show ?thesis by (auto simp: module_queue_get_def module_holds_def simp del: queue_repr.simps)
qed

end
