(* ===== verification/Mmal_Port_Client.thy ===== *)
theory Mmal_Port_Client
  imports Mmal_Port_Frames
begin

text \<open>
  The contract between a port and its client. The locale \<open>port_client\<close> states what the core relies
  on when it calls the client's callback; \<open>copy_port_client\<close> adds the functions of a queueing
  component. Inside them: what sending, flushing, pausing, resuming and disabling do to the headers
  under way, as a refinement of a queue with a list of returned headers.
\<close>

section \<open>Sequences of calls on a port\<close>

text \<open>What a round of the copy component's processing does to one of its ports (\<^verbatim>\<open>copy_do_processing\<close>): it takes
  the first header waiting there, writes its content (\<open>g\<close>) and gives it back; nothing when none is waiting.\<close>

definition process_first :: "'x port_ops \<Rightarrow> addr \<Rightarrow> (mmal_header \<Rightarrow> mmal_header) \<Rightarrow> 'x status_op" where
  "process_first c p g s =
     andthen (module_queue_get p s) (\<lambda>(b, s1). case b of
        None \<Rightarrow> ret (MMAL_SUCCESS, s1)
      | Some b \<Rightarrow> andthen (mmal_port_buffer_header_callback c p b (upd_buf b g s1)) (\<lambda>s2. ret (MMAL_SUCCESS, s2)))"

datatype port_call = CallSend addr | CallFlush | CallPause | CallResume | CallProcess "mmal_header \<Rightarrow> mmal_header"

fun run_call :: "'x port_ops \<Rightarrow> addr \<Rightarrow> port_call \<Rightarrow> 'x status_op" where
  "run_call c p (CallSend b) s = mmal_port_send_buffer c (Some p) b s"
| "run_call c p CallFlush s = mmal_port_flush c (Some p) s"
| "run_call c p CallPause s = mmal_port_pause c p True s"
| "run_call c p CallResume s = mmal_port_pause c p False s"
| "run_call c p (CallProcess g) s = process_first c p g s"

fun port_calls :: "'x port_ops \<Rightarrow> addr \<Rightarrow> port_call list \<Rightarrow> 'x pst \<Rightarrow> (mmal_status list \<times> 'x pst) outcome" where
  "port_calls c p [] s = ret ([], s)"
| "port_calls c p (x # xs) s =
     andthen (run_call c p x s) (\<lambda>(st, s1).
     andthen (port_calls c p xs s1) (\<lambda>(sts, s2). ret (st # sts, s2)))"

fun sent :: "port_call list \<Rightarrow> addr list" where
  "sent [] = []"
| "sent (CallSend b # xs) = b # sent xs"
| "sent (_ # xs) = sent xs"

section \<open>The client of a port\<close>

text \<open>What the core relies on when it calls the client's callback: the client appends the header to
  those it holds, and touches neither the port nor a header it does not hold.\<close>

locale port_client =
  fixes c :: "'x port_ops" and p :: addr and cbid :: nat and client :: "'x pst \<Rightarrow> addr list \<Rightarrow> bool"
  assumes client_cb: "client s cs \<Longrightarrow> b \<notin> set cs \<Longrightarrow>
      \<exists>s'. pp_cb c cbid p b s = ret s' \<and> client s' (cs @ [b]) \<and> port_of s' p = port_of s p
        \<and> same_bufs (insert b (set cs)) s s'"
    and client_port: "client s cs \<Longrightarrow> (\<And>P. po_userdata (f P) = po_userdata P) \<Longrightarrow> client (upd_port p f s) cs"
    and client_comp: "client s cs \<Longrightarrow> client (upd_comp a g s) cs"
    and client_bufs: "client s cs \<Longrightarrow> b \<notin> set cs \<Longrightarrow> client (upd_buf b h s) cs"
    and client_time: "client s cs \<Longrightarrow> client (snd (vcos_getmicrosecs c s)) cs"
begin

definition transit_ok :: "'x pst \<Rightarrow> nat \<Rightarrow> bool" where
  "transit_ok s n \<longleftrightarrow> po_transit (port_of s p) = int n \<and> po_transit_sema (port_of s p) = (if n = 0 then 1 else 0)"

lemma transit_ok_upd [simp]:
  "(\<And>P. po_transit (f P) = po_transit P) \<Longrightarrow> (\<And>P. po_transit_sema (f P) = po_transit_sema P) \<Longrightarrow>
   transit_ok (upd_port p f s) n = transit_ok s n"
  by (simp add: transit_ok_def)

lemma stats_frame:
  assumes "client s cs"
  shows "client (mmal_port_update_port_stats c p rx s) cs"
    and "rest_of (port_of (mmal_port_update_port_stats c p rx s) p) = rest_of (port_of s p)"
    and "transit_ok (mmal_port_update_port_stats c p rx s) n = transit_ok s n"
    and "po_module_queue (port_of (mmal_port_update_port_stats c p rx s) p) = po_module_queue (port_of s p)"
    and "bufs (mmal_port_update_port_stats c p rx s) = bufs s"
proof -
  obtain t s1 where t: "vcos_getmicrosecs c s = (t, s1)" by fastforce
  have s1: "client s1 cs" using client_time [OF assms] t by simp
  have e: "port_of s1 p = port_of s p" "bufs s1 = bufs s"
    using t by (auto simp: vcos_getmicrosecs_def split: prod.splits)
  show "client (mmal_port_update_port_stats c p rx s) cs"
    unfolding mmal_port_update_port_stats_def t by (cases rx) (simp_all add: client_port s1)
  show "rest_of (port_of (mmal_port_update_port_stats c p rx s) p) = rest_of (port_of s p)"
    and "transit_ok (mmal_port_update_port_stats c p rx s) n = transit_ok s n"
    and "po_module_queue (port_of (mmal_port_update_port_stats c p rx s) p) = po_module_queue (port_of s p)"
    and "bufs (mmal_port_update_port_stats c p rx s) = bufs s"
    by (cases rx; simp add: mmal_port_update_port_stats_def t e transit_ok_def)+
qed

text \<open>One header given back.\<close>

lemma callback_spec:
  assumes "client s cs" and "b \<notin> set cs" and "po_callback (port_of s p) = Some cbid" and "transit_ok s (Suc n)"
  shows "\<exists>s'. mmal_port_buffer_header_callback c p b s = ret s' \<and> client s' (cs @ [b]) \<and> transit_ok s' n
    \<and> rest_of (port_of s' p) = rest_of (port_of s p)
    \<and> po_module_queue (port_of s' p) = po_module_queue (port_of s p) \<and> same_bufs (insert b (set cs)) s s'"
proof -
  define s1 where "s1 = (if pp_collect_stats c then mmal_port_update_port_stats c p False s else s)"
  have s1: "client s1 cs" "rest_of (port_of s1 p) = rest_of (port_of s p)" "transit_ok s1 (Suc n)"
    "po_module_queue (port_of s1 p) = po_module_queue (port_of s p)" "bufs s1 = bufs s"
    using stats_frame [OF assms(1), of False] assms by (simp_all add: s1_def)
  have cb: "po_callback (port_of s1 p) = Some cbid" using rest_of_fields(1) [OF s1(2)] assms(3) by simp
  obtain s2 where s2: "pp_cb c cbid p b s1 = ret s2" "client s2 (cs @ [b])" "port_of s2 p = port_of s1 p"
      "same_bufs (insert b (set cs)) s1 s2"
    using client_cb [OF s1(1) assms(2)] by blast
  let ?s = "in_transit_decrement p s2"
  have r: "mmal_port_buffer_header_callback c p b s = ret ?s"
    unfolding mmal_port_buffer_header_callback_def s1_def [symmetric] Let_def by (simp add: cb s2(1))
  have "client ?s (cs @ [b])" by (simp add: in_transit_decrement_def Let_def client_port s2(2))
  moreover have "transit_ok ?s n" using s1(3) s2(3)
    by (simp add: in_transit_decrement_def transit_ok_def Let_def sem_post_def)
  moreover have "rest_of (port_of ?s p) = rest_of (port_of s p)"
    using s1(2) s2(3) by (simp add: in_transit_decrement_def Let_def rest_of_def)
  moreover have "po_module_queue (port_of ?s p) = po_module_queue (port_of s p)"
    using s1(4) s2(3) by (simp add: in_transit_decrement_def Let_def)
  moreover have "same_bufs (insert b (set cs)) s ?s"
    using s2(4) s1(5) by (simp add: in_transit_decrement_def Let_def same_bufs_def)
  ultimately show ?thesis using r by blast
qed

text \<open>The core's own queue, and the module's queue, given back in order.\<close>

lemma flush_loop_spec:
  assumes "lpath (nexts s) buffer qs None" and "distinct (cs @ qs)" and "client s cs"
    and "po_callback (port_of s p) = Some cbid" and "transit_ok s (length qs + n)"
  shows "\<exists>s'. flush_loop c p buffer s = ret s' \<and> client s' (cs @ qs) \<and> transit_ok s' n
    \<and> rest_of (port_of s' p) = rest_of (port_of s p)
    \<and> po_module_queue (port_of s' p) = po_module_queue (port_of s p) \<and> same_bufs (set cs \<union> set qs) s s'"
  using assms
proof (induction qs arbitrary: s buffer cs)
  case Nil
  then have "flush_loop c p buffer s = ret s" by (subst flush_loop.simps) simp
  with Nil show ?case by auto
next
  case (Cons b qs)
  have bf: "buffer = Some b" using Cons.prems(1) by simp
  obtain s1 where s1: "mmal_port_buffer_header_callback c p b s = ret s1" "client s1 (cs @ [b])"
      "transit_ok s1 (length qs + n)" "rest_of (port_of s1 p) = rest_of (port_of s p)"
      "po_module_queue (port_of s1 p) = po_module_queue (port_of s p)" "same_bufs (insert b (set cs)) s s1"
    using callback_spec [OF Cons.prems(3) _ Cons.prems(4), of b "length qs + n"] Cons.prems(2,5) by auto
  have nb: "bh_next (bufs s b) = nexts s b" by (simp add: nexts_def)
  have "lpath (nexts s1) (nexts s b) qs None = lpath (nexts s) (nexts s b) qs None"
    by (rule lpath_cong) (use s1(6) Cons.prems(2) in \<open>auto simp: nexts_def same_bufs_def\<close>)
  then have path: "lpath (nexts s1) (nexts s b) qs None" using Cons.prems(1) by simp
  have cb: "po_callback (port_of s1 p) = Some cbid" using rest_of_fields(1) [OF s1(4)] Cons.prems(4) by simp
  obtain s2 where s2: "flush_loop c p (nexts s b) s1 = ret s2" "client s2 ((cs @ [b]) @ qs)"
      "transit_ok s2 n" "rest_of (port_of s2 p) = rest_of (port_of s1 p)"
      "po_module_queue (port_of s2 p) = po_module_queue (port_of s1 p)" "same_bufs (set (cs @ [b]) \<union> set qs) s1 s2"
    using Cons.IH [OF path _ s1(2) cb s1(3)] Cons.prems(2) by auto
  have "flush_loop c p buffer s = ret s2" by (subst flush_loop.simps) (simp add: bf nb s1(1) s2(1))
  moreover have "same_bufs (set cs \<union> set (b # qs)) s s2"
    by (rule same_bufs_mono [OF same_bufs_trans [OF s1(6) s2(6)]]) auto
  ultimately show ?case using s2 s1(4,5) by auto
qed

lemma flush_module_spec:
  assumes "module_holds p s hs" and "distinct (cs @ hs)" and "client s cs"
    and "po_callback (port_of s p) = Some cbid" and "transit_ok s (length hs + n)"
  shows "\<exists>s'. flush_module_loop (mmal_port_buffer_header_callback c p) p s = ret s' \<and> module_holds p s' []
    \<and> client s' (cs @ hs) \<and> transit_ok s' n \<and> rest_of (port_of s' p) = rest_of (port_of s p)
    \<and> same_bufs (set cs \<union> set hs) s s'"
  using assms
proof (induction hs arbitrary: s cs)
  case Nil
  then have "flush_module_loop (mmal_port_buffer_header_callback c p) p s = ret s"
    by (subst flush_module_loop.simps) (simp add: module_get_Nil)
  with Nil show ?case by auto
next
  case (Cons b hs)
  obtain q' where g: "module_queue_get p s = ret (Some b, upd_port p (\<lambda>P. P\<lparr>po_module_queue := q'\<rparr>) s)"
      and h: "module_holds p (upd_port p (\<lambda>P. P\<lparr>po_module_queue := q'\<rparr>) s) hs"
    using module_get_Cons [OF Cons.prems(1)] by blast
  define s0 where "s0 = upd_port p (\<lambda>P. P\<lparr>po_module_queue := q'\<rparr>) s"
  have s0: "client s0 cs" "po_callback (port_of s0 p) = Some cbid" "transit_ok s0 (Suc (length hs + n))"
    "rest_of (port_of s0 p) = rest_of (port_of s p)" "same_bufs {} s s0"
    using Cons.prems(3-5) by (simp_all add: s0_def client_port)
  obtain s1 where s1: "mmal_port_buffer_header_callback c p b s0 = ret s1" "client s1 (cs @ [b])"
      "transit_ok s1 (length hs + n)" "rest_of (port_of s1 p) = rest_of (port_of s0 p)"
      "po_module_queue (port_of s1 p) = po_module_queue (port_of s0 p)" "same_bufs (insert b (set cs)) s0 s1"
    using callback_spec [OF s0(1) _ s0(2,3)] Cons.prems(2) by auto
  have m: "module_holds p s1 hs"
    by (rule module_holds_frame [OF h [folded s0_def] s1(5)])
      (use s1(6) Cons.prems(2) in \<open>auto simp: same_bufs_def\<close>)
  have cb: "po_callback (port_of s1 p) = Some cbid" using rest_of_fields(1) [OF s1(4)] s0(2) by simp
  obtain s2 where s2: "flush_module_loop (mmal_port_buffer_header_callback c p) p s1 = ret s2"
      "module_holds p s2 []" "client s2 ((cs @ [b]) @ hs)" "transit_ok s2 n"
      "rest_of (port_of s2 p) = rest_of (port_of s1 p)" "same_bufs (set (cs @ [b]) \<union> set hs) s1 s2"
    using Cons.IH [OF m _ s1(2) cb s1(3)] Cons.prems(2) by auto
  have "flush_module_loop (mmal_port_buffer_header_callback c p) p s = ret s2"
    by (subst flush_module_loop.simps) (simp add: g s0_def [symmetric] s1(1) s2(1))
  moreover have "same_bufs (set cs \<union> set (b # hs)) s s2"
    by (rule same_bufs_mono [OF same_bufs_trans [OF s0(5) same_bufs_trans [OF s1(6) s2(6)]]]) auto
  ultimately show ?case using s2 s1(4) s0(4) by auto
qed

text \<open>The state of an enabled port of a copy component: \<open>qs\<close> in the core's queue, \<open>hs\<close> with the
  component, \<open>cs\<close> back with the client.\<close>

definition port_shape :: "'x pst \<Rightarrow> addr list \<Rightarrow> addr list \<Rightarrow> addr list \<Rightarrow> bool" where
  "port_shape s qs hs cs \<longleftrightarrow> distinct (qs @ hs @ cs) \<and> client s cs \<and> module_holds p s hs
     \<and> lpath (nexts s) (po_queue_first (port_of s p)) qs None
     \<and> po_queue_last (port_of s p) = (if qs = [] then SlotFirst else SlotNext (last qs))
     \<and> (po_is_paused (port_of s p) \<or> qs = [])
     \<and> po_is_enabled (port_of s p) \<and> po_callback (port_of s p) = Some cbid
     \<and> po_pf_send (port_of s p) = Some COPY \<and> po_pf_flush (port_of s p) = Some COPY
     \<and> po_pf_disable (port_of s p) = Some COPY \<and> po_pool_for_connection (port_of s p) = None
     \<and> po_connected (port_of s p) = None"

definition port_inv :: "'x pst \<Rightarrow> addr list \<Rightarrow> addr list \<Rightarrow> addr list \<Rightarrow> bool" where
  "port_inv s qs hs cs \<longleftrightarrow> port_shape s qs hs cs \<and> transit_ok s (length qs + length hs)"

lemma shape_frame:
  assumes "port_shape s qs hs cs" and "client s' cs" and "rest_of (port_of s' p) = rest_of (port_of s p)"
    and "po_module_queue (port_of s' p) = po_module_queue (port_of s p)"
    and "\<And>h. h \<in> set qs \<union> set hs \<Longrightarrow> bufs s' h = bufs s h"
  shows "port_shape s' qs hs cs"
proof -
  have "module_holds p s' hs"
    by (rule module_holds_frame [of p s]) (use assms in \<open>auto simp: port_shape_def\<close>)
  moreover have "lpath (nexts s') (po_queue_first (port_of s p)) qs None
      = lpath (nexts s) (po_queue_first (port_of s p)) qs None"
    by (rule lpath_cong) (use assms(5) in \<open>auto simp: nexts_def\<close>)
  ultimately show ?thesis
    using assms(1,2) by (simp add: port_shape_def rest_of_fields [OF assms(3)])
qed

lemma client_set_next: "client s cs \<Longrightarrow> b \<notin> set cs \<Longrightarrow> client (set_next b q s) cs"
  by (simp add: set_next_def client_bufs)

lemma client_module_put:
  assumes "module_holds p s hs" and "client s cs" and "b \<notin> set cs" and "set hs \<inter> set cs = {}"
  shows "client (module_queue_put p b s) cs"
proof -
  obtain q where q: "po_module_queue (port_of s p) = Some q"
    using assms(1) by (cases "po_module_queue (port_of s p)") (auto simp: module_holds_def)
  have l: "hs \<noteq> [] \<Longrightarrow> last hs \<notin> set cs" using assms(4) last_in_set by blast
  have sl: "q_last q = (if hs = [] then SlotFirst else SlotNext (last hs))"
    using assms(1) q by (simp add: module_holds_def queue_list_def)
  show ?thesis
  proof (cases "hs = []")
    case True
    then show ?thesis using sl
      by (simp add: module_queue_put_def q Let_def client_port client_set_next assms)
  next
    case False
    then show ?thesis using sl l
      by (simp add: module_queue_put_def q Let_def client_port client_set_next assms)
  qed
qed

lemma copy_send_spec:
  assumes "module_holds p s hs" and "client s cs" and "b \<notin> set hs" and "b \<notin> set cs"
    and "set hs \<inter> set cs = {}"
  shows "\<exists>s'. copy_port_send p b s = ret (MMAL_SUCCESS, s') \<and> module_holds p s' (hs @ [b]) \<and> client s' cs
    \<and> (\<forall>n. transit_ok s' n = transit_ok s n) \<and> rest_of (port_of s' p) = rest_of (port_of s p)
    \<and> same_bufs (insert b (set hs)) s s'"
proof -
  let ?s1 = "module_queue_put p b s"
  note m = module_put [OF assms(1,3)]
  let ?s2 = "snd (mmal_component_action_trigger (po_component (port_of ?s1 p)) ?s1)"
  have e: "bufs ?s2 = bufs ?s1" "port_of ?s2 p = port_of ?s1 p"
    by (simp_all add: mmal_component_action_trigger_def)
  have "client ?s2 cs" using client_module_put [OF assms(1,2,4,5)]
    by (simp add: mmal_component_action_trigger_def client_comp)
  moreover have "module_holds p ?s2 (hs @ [b])" by (rule module_holds_frame [OF m(1)]) (simp_all add: e)
  moreover have "\<forall>n. transit_ok ?s2 n = transit_ok s n" by (simp add: transit_ok_def e m(4,5))
  moreover have "rest_of (port_of ?s2 p) = rest_of (port_of s p)" by (simp add: e m(3))
  moreover have "same_bufs (insert b (set hs)) s ?s2" using m(2) by (simp add: same_bufs_def e)
  ultimately show ?thesis by (simp add: copy_port_send_def Let_def)
qed

lemma increment_spec:
  assumes "transit_ok s n" and "client s cs"
  shows "\<exists>s'. in_transit_increment p s = ret s' \<and> transit_ok s' (Suc n) \<and> client s' cs
    \<and> rest_of (port_of s' p) = rest_of (port_of s p)
    \<and> po_module_queue (port_of s' p) = po_module_queue (port_of s p) \<and> bufs s' = bufs s"
  using assms by (auto simp: in_transit_increment_def transit_ok_def Let_def client_port rest_of_def)

text \<open>Appending to the core's queue.\<close>

lemma port_queue_append:
  assumes "lpath (nexts s) (po_queue_first (port_of s p)) qs None" and "distinct qs" and "b \<notin> set qs"
    and "po_queue_last (port_of s p) = (if qs = [] then SlotFirst else SlotNext (last qs))"
    and "client s cs" and "b \<notin> set cs" and "set qs \<inter> set cs = {}"
  shows "\<exists>s'. s' = upd_port p (\<lambda>P. P\<lparr>po_queue_last := SlotNext b\<rparr>) (port_queue_write p b (set_next b None s))
    \<and> lpath (nexts s') (po_queue_first (port_of s' p)) (qs @ [b]) None
    \<and> po_queue_last (port_of s' p) = SlotNext b \<and> client s' cs
    \<and> (\<forall>n. transit_ok s' n = transit_ok s n) \<and> same_bufs (insert b (set qs)) s s'
    \<and> rest_of ((port_of s' p)\<lparr>po_queue_first := None, po_queue_last := SlotFirst\<rparr>)
      = rest_of ((port_of s p)\<lparr>po_queue_first := None, po_queue_last := SlotFirst\<rparr>)
    \<and> po_module_queue (port_of s' p) = po_module_queue (port_of s p)"
proof (cases "qs = []")
  case True
  then show ?thesis using assms
    by (auto simp: port_queue_write_def set_next_def transit_ok_def same_bufs_def nexts_def rest_of_def
        intro!: client_port client_bufs)
next
  case False
  have sn: "port_of (set_next x y t) = port_of t" for x y and t :: "'x pst" by (simp add: set_next_def upd_buf_pstate)
  have l: "last qs \<notin> set cs" "last qs \<noteq> b" using assms(3,7) False last_in_set by blast+
  have "lpath ((nexts s)(last qs := Some b, b := None)) (po_queue_first (port_of s p)) (qs @ [b]) None"
    by (rule lpath_snoc [OF assms(1,2) False assms(3)])
  moreover have "(nexts s)(last qs := Some b, b := None) = (nexts s)(b := None, last qs := Some b)"
    using l by auto
  ultimately have path: "lpath ((nexts s)(b := None, last qs := Some b)) (po_queue_first (port_of s p)) (qs @ [b]) None"
    by simp
  let ?s = "upd_port p (\<lambda>P. P\<lparr>po_queue_last := SlotNext b\<rparr>) (set_next (last qs) (Some b) (set_next b None s))"
  have w: "upd_port p (\<lambda>P. P\<lparr>po_queue_last := SlotNext b\<rparr>) (port_queue_write p b (set_next b None s)) = ?s"
    using assms(4) False by (simp add: port_queue_write_def sn)
  have n: "nexts ?s = (nexts s)(b := None, last qs := Some b)" by (simp add: nexts_def set_next_def fun_eq_iff)
  have "client ?s cs" using l by (simp add: client_port client_set_next assms)
  moreover have "same_bufs (insert b (set qs)) s ?s" using False by (auto simp: same_bufs_def set_next_def)
  ultimately show ?thesis unfolding w using path
    by (simp add: n sn transit_ok_def rest_of_def)
qed

end

locale copy_port_client = port_client +
  assumes send_op: "pp_send c COPY = copy_port_send" and flush_op: "pp_flush c COPY = copy_port_flush c"
    and disable_op: "pp_disable c COPY = copy_port_disable c"
begin

lemma send_running:
  assumes "port_shape s [] hs cs" and "transit_ok s (length hs)" and "b \<notin> set hs" and "b \<notin> set cs"
  shows "\<exists>s'. andthen (in_transit_increment p s) (\<lambda>s2. andthen (pp_send c COPY p b s2)
      (\<lambda>(st, s3). ret (st, if st \<noteq> MMAL_SUCCESS then in_transit_decrement p s3
                          else mmal_port_update_port_stats c p True s3))) = ret (MMAL_SUCCESS, s')
    \<and> port_inv s' [] (hs @ [b]) cs \<and> rest_of (port_of s' p) = rest_of (port_of s p)
    \<and> same_bufs (insert b (set hs)) s s'"
proof -
  have sh: "client s cs" "module_holds p s hs" "set hs \<inter> set cs = {}" "distinct (hs @ cs)"
    using assms(1) by (auto simp: port_shape_def)
  obtain s2 where s2: "in_transit_increment p s = ret s2" "transit_ok s2 (Suc (length hs))" "client s2 cs"
      "rest_of (port_of s2 p) = rest_of (port_of s p)"
      "po_module_queue (port_of s2 p) = po_module_queue (port_of s p)" "bufs s2 = bufs s"
    using increment_spec [OF assms(2) sh(1)] by blast
  have m2: "module_holds p s2 hs" by (rule module_holds_frame [OF sh(2) s2(5)]) (simp add: s2(6))
  obtain s3 where s3: "copy_port_send p b s2 = ret (MMAL_SUCCESS, s3)" "module_holds p s3 (hs @ [b])"
      "client s3 cs" "\<forall>n. transit_ok s3 n = transit_ok s2 n" "rest_of (port_of s3 p) = rest_of (port_of s2 p)"
      "same_bufs (insert b (set hs)) s2 s3"
    using copy_send_spec [OF m2 s2(3) assms(3,4) sh(3)] by blast
  let ?s = "mmal_port_update_port_stats c p True s3"
  note st = stats_frame [OF s3(3), of True]
  have r: "rest_of (port_of ?s p) = rest_of (port_of s p)" using st(2) s3(5) s2(4) by simp
  have "module_holds p ?s (hs @ [b])" by (rule module_holds_frame [OF s3(2) st(4)]) (simp add: st(5))
  then have "port_shape ?s [] (hs @ [b]) cs"
    using assms(1,3,4) st(1) by (simp add: port_shape_def rest_of_fields [OF r])
  moreover have "transit_ok ?s (length (hs @ [b]))" using s2(2) s3(4) st(3) by simp
  moreover have "same_bufs (insert b (set hs)) s ?s" using s3(6) by (simp add: same_bufs_def s2(6) st(5))
  ultimately show ?thesis using r by (auto simp: s2(1) send_op s3(1) port_inv_def)
qed

lemma send_paused:
  assumes "port_shape s qs hs cs" and "transit_ok s (length qs + length hs)"
    and "b \<notin> set qs" and "b \<notin> set hs" and "b \<notin> set cs" and "po_is_paused (port_of s p)"
  shows "\<exists>s'. andthen (in_transit_increment p s) (\<lambda>s2.
      ret (MMAL_SUCCESS, mmal_port_update_port_stats c p True
        (upd_port p (\<lambda>P. P\<lparr>po_queue_last := SlotNext b\<rparr>) (port_queue_write p b (set_next b None s2)))))
      = ret (MMAL_SUCCESS, s')
    \<and> port_inv s' (qs @ [b]) hs cs \<and> po_is_paused (port_of s' p) \<and> same_bufs (insert b (set qs)) s s'"
proof -
  have sh: "client s cs" "set qs \<inter> set cs = {}" "distinct qs" using assms(1) by (auto simp: port_shape_def)
  obtain s2 where s2: "in_transit_increment p s = ret s2" "transit_ok s2 (Suc (length qs + length hs))"
      "client s2 cs" "rest_of (port_of s2 p) = rest_of (port_of s p)"
      "po_module_queue (port_of s2 p) = po_module_queue (port_of s p)" "bufs s2 = bufs s"
    using increment_spec [OF assms(2) sh(1)] by blast
  have sh2: "port_shape s2 qs hs cs"
    by (rule shape_frame [OF assms(1) s2(3,4,5)]) (simp add: s2(6))
  define s3 where "s3 = upd_port p (\<lambda>P. P\<lparr>po_queue_last := SlotNext b\<rparr>) (port_queue_write p b (set_next b None s2))"
  have s3: "lpath (nexts s3) (po_queue_first (port_of s3 p)) (qs @ [b]) None"
      "po_queue_last (port_of s3 p) = SlotNext b" "client s3 cs" "\<forall>n. transit_ok s3 n = transit_ok s2 n"
      "same_bufs (insert b (set qs)) s2 s3"
      "rest_of ((port_of s3 p)\<lparr>po_queue_first := None, po_queue_last := SlotFirst\<rparr>)
       = rest_of ((port_of s2 p)\<lparr>po_queue_first := None, po_queue_last := SlotFirst\<rparr>)"
      "po_module_queue (port_of s3 p) = po_module_queue (port_of s2 p)"
    using port_queue_append [of s2 qs b cs] sh2 assms(3,5) sh(2) unfolding s3_def port_shape_def by auto
  note rf = rest_of_fields [OF s3(6)]
  have m3: "module_holds p s3 hs"
    by (rule module_holds_frame [of p s2]) (use sh2 s3(5,7) assms(4) in \<open>auto simp: port_shape_def same_bufs_def\<close>)
  have sh3: "port_shape s3 (qs @ [b]) hs cs"
    using sh2 s3(1,2,3) m3 rf assms(3-6) rest_of_fields(3) [OF s2(4)] by (auto simp: port_shape_def)
  let ?s = "mmal_port_update_port_stats c p True s3"
  note st = stats_frame [OF s3(3), of True]
  have "port_shape ?s (qs @ [b]) hs cs" by (rule shape_frame [OF sh3 st(1,2,4)]) (simp add: st(5))
  moreover have "transit_ok ?s (length (qs @ [b]) + length hs)" using s2(2) s3(4) st(3) by simp
  moreover have "po_is_paused (port_of ?s p)"
    using rest_of_fields(3) [OF st(2)] rf(3) rest_of_fields(3) [OF s2(4)] assms(6) by simp
  moreover have "same_bufs (insert b (set qs)) s ?s" using s3(5) by (simp add: same_bufs_def s2(6) st(5))
  ultimately show ?thesis by (simp add: s2(1) s3_def [symmetric] port_inv_def)
qed

text \<open>Sending appends to the headers under way, in whichever of the two queues.\<close>

lemma send_spec:
  assumes inv: "port_inv s qs hs cs" and fresh: "b \<notin> set (qs @ hs @ cs)" and data: "bh_data (bufs s b) \<noteq> None"
  shows "\<exists>s' qs' hs'. mmal_port_send_buffer c (Some p) b s = ret (MMAL_SUCCESS, s') \<and> port_inv s' qs' hs' cs
    \<and> hs' @ qs' = hs @ qs @ [b] \<and> same_bufs (insert b (set qs \<union> set hs)) s s'"
proof -
  define s1 where "s1 = (if po_type (port_of s p) = MMAL_PORT_TYPE_OUTPUT \<and> bh_length (bufs s b) \<noteq> 0
                          then upd_buf b (\<lambda>B. B\<lparr>bh_length := 0\<rparr>) s else s)"
  have f: "b \<notin> set qs" "b \<notin> set hs" "b \<notin> set cs" using fresh by auto
  have e: "port_of s1 p = port_of s p" by (simp add: s1_def)
  have cl1: "client s1 cs" using inv f by (simp add: s1_def port_inv_def port_shape_def client_bufs)
  have b1: "h \<in> set qs \<union> set hs \<Longrightarrow> bufs s1 h = bufs s h" for h using f by (auto simp: s1_def)
  have "port_shape s qs hs cs" using inv by (simp add: port_inv_def)
  then have sh: "port_shape s1 qs hs cs" by (rule shape_frame [OF _ cl1]) (simp_all add: e b1)
  have t: "transit_ok s1 (length qs + length hs)" using inv by (simp add: port_inv_def transit_ok_def e)
  have fl: "po_is_enabled (port_of s p)" "po_pf_send (port_of s p) = Some COPY"
    using inv by (simp_all add: port_inv_def port_shape_def)
  have g: "mmal_port_send_buffer c (Some p) b s = andthen (in_transit_increment p s1) (\<lambda>s2.
                   andthen
                     (if po_is_paused (port_of s2 p)
                      then ret (MMAL_SUCCESS, upd_port p (\<lambda>P. P\<lparr>po_queue_last := SlotNext b\<rparr>)
                             (port_queue_write p b (set_next b None s2)))
                      else pp_send c COPY p b s2)
                     (\<lambda>(st, s3). ret (st, if st \<noteq> MMAL_SUCCESS then in_transit_decrement p s3
                                          else mmal_port_update_port_stats c p True s3)))"
    unfolding mmal_port_send_buffer_def s1_def Let_def by (simp add: fl data del: not_None_eq)
  have cl: "client s1 cs" using sh by (simp add: port_shape_def)
  obtain s2 where s2: "in_transit_increment p s1 = ret s2" "rest_of (port_of s2 p) = rest_of (port_of s1 p)"
    using increment_spec [OF t cl] by blast
  have sb: "same_bufs {b} s s1" by (simp add: same_bufs_def s1_def)
  show ?thesis
  proof (cases "po_is_paused (port_of s p)")
    case True
    then have p2: "po_is_paused (port_of s2 p)" using rest_of_fields(3) [OF s2(2)] e by simp
    have "po_is_paused (port_of s1 p)" using True e by simp
    from send_paused [OF sh t f this] p2
    obtain s' where s': "mmal_port_send_buffer c (Some p) b s = ret (MMAL_SUCCESS, s')"
        "port_inv s' (qs @ [b]) hs cs" "same_bufs (insert b (set qs)) s1 s'" by (auto simp: g s2(1))
    have "same_bufs (insert b (set qs \<union> set hs)) s s'"
      by (rule same_bufs_mono [OF same_bufs_trans [OF sb s'(3)]]) auto
    with s' show ?thesis by fastforce
  next
    case False
    then have p2: "\<not> po_is_paused (port_of s2 p)" using rest_of_fields(3) [OF s2(2)] e by simp
    have q: "qs = []" using sh False e by (simp add: port_shape_def)
    with send_running [of s1 hs cs b] sh t f p2
    obtain s' where s': "mmal_port_send_buffer c (Some p) b s = ret (MMAL_SUCCESS, s')"
        "port_inv s' [] (hs @ [b]) cs" "same_bufs (insert b (set hs)) s1 s'" by (auto simp: g s2(1))
    have "same_bufs (insert b (set qs \<union> set hs)) s s'"
      by (rule same_bufs_mono [OF same_bufs_trans [OF sb s'(3)]]) auto
    with s' q show ?thesis by fastforce
  qed
qed

text \<open>The component gives back what it holds, then the core its own queue.\<close>

lemma flush_module_first:
  assumes "port_shape s qs hs cs" and "transit_ok s (length qs + length hs)"
  shows "\<exists>s1. copy_port_flush c p s = ret (MMAL_SUCCESS, s1) \<and> client s1 (cs @ hs) \<and> module_holds p s1 []
    \<and> transit_ok s1 (length qs) \<and> rest_of (port_of s1 p) = rest_of (port_of s p)
    \<and> lpath (nexts s1) (po_queue_first (port_of s1 p)) qs None \<and> same_bufs (set cs \<union> set hs) s s1"
proof -
  have sh: "client s cs" "module_holds p s hs" "distinct (cs @ hs)" "po_callback (port_of s p) = Some cbid"
    "set qs \<inter> (set hs \<union> set cs) = {}" "lpath (nexts s) (po_queue_first (port_of s p)) qs None"
    using assms(1) by (auto simp: port_shape_def)
  have t: "transit_ok s (length hs + length qs)" using assms(2) by (simp add: add.commute)
  obtain s1 where s1: "flush_module_loop (mmal_port_buffer_header_callback c p) p s = ret s1"
      "module_holds p s1 []" "client s1 (cs @ hs)" "transit_ok s1 (length qs)"
      "rest_of (port_of s1 p) = rest_of (port_of s p)" "same_bufs (set cs \<union> set hs) s s1"
    using flush_module_spec [OF sh(2,3,1,4) t] by blast
  have "lpath (nexts s1) (po_queue_first (port_of s p)) qs None = lpath (nexts s) (po_queue_first (port_of s p)) qs None"
    by (rule lpath_cong) (use s1(6) sh(5) in \<open>auto simp: nexts_def same_bufs_def\<close>)
  then show ?thesis using s1 sh(6) rest_of_fields(4) [OF s1(5)] by (auto simp: copy_port_flush_def)
qed

text \<open>Then the core's own queue, after resetting it (\<open>mmal_port_flush\<close>) or before
  (\<open>mmal_port_disable\<close>).\<close>

lemma flush_queue_rest:
  assumes "client s cs" and "module_holds p s []" and "transit_ok s (length qs)"
    and "lpath (nexts s) first qs None" and "distinct (cs @ qs)" and "po_callback (port_of s p) = Some cbid"
  shows "\<exists>s2. flush_loop c p first s = ret s2 \<and> client s2 (cs @ qs) \<and> transit_ok s2 0
    \<and> module_holds p s2 [] \<and> rest_of (port_of s2 p) = rest_of (port_of s p)
    \<and> same_bufs (set cs \<union> set qs) s s2"
proof -
  have t: "transit_ok s (length qs + 0)" using assms(3) by simp
  obtain s2 where s2: "flush_loop c p first s = ret s2" "client s2 (cs @ qs)" "transit_ok s2 0"
      "rest_of (port_of s2 p) = rest_of (port_of s p)"
      "po_module_queue (port_of s2 p) = po_module_queue (port_of s p)" "same_bufs (set cs \<union> set qs) s s2"
    using flush_loop_spec [OF assms(4,5,1,6) t] by blast
  moreover have "module_holds p s2 []" by (rule module_holds_frame [OF assms(2) s2(5)]) simp
  ultimately show ?thesis by blast
qed

lemma port_queue_reset_frame:
  assumes "client s cs" and "module_holds p s hs"
  shows "client (port_queue_reset p s) cs" and "module_holds p (port_queue_reset p s) hs"
    and "transit_ok (port_queue_reset p s) n = transit_ok s n"
    and "nexts (port_queue_reset p s) = nexts s"
    and "po_callback (port_of (port_queue_reset p s) p) = po_callback (port_of s p)"
proof -
  show "client (port_queue_reset p s) cs" by (simp add: port_queue_reset_def client_port assms(1))
  show "module_holds p (port_queue_reset p s) hs"
    by (rule module_holds_frame [OF assms(2)]) (simp_all add: port_queue_reset_def)
  show "transit_ok (port_queue_reset p s) n = transit_ok s n" by (simp add: port_queue_reset_def)
  show "nexts (port_queue_reset p s) = nexts s" by (simp add: port_queue_reset_def nexts_def fun_eq_iff)
  show "po_callback (port_of (port_queue_reset p s) p) = po_callback (port_of s p)"
    by (simp add: port_queue_reset_def)
qed

lemma flush_spec:
  assumes inv: "port_inv s qs hs cs"
  shows "\<exists>s'. mmal_port_flush c (Some p) s = ret (MMAL_SUCCESS, s') \<and> port_inv s' [] [] (cs @ hs @ qs)
    \<and> same_bufs (set (cs @ hs @ qs)) s s'"
proof -
  have sh: "port_shape s qs hs cs" "transit_ok s (length qs + length hs)" using inv by (simp_all add: port_inv_def)
  have d: "distinct ((cs @ hs) @ qs)" using sh(1) by (auto simp: port_shape_def)
  obtain s1 where s1: "copy_port_flush c p s = ret (MMAL_SUCCESS, s1)" "client s1 (cs @ hs)" "module_holds p s1 []"
      "transit_ok s1 (length qs)" "rest_of (port_of s1 p) = rest_of (port_of s p)"
      "lpath (nexts s1) (po_queue_first (port_of s1 p)) qs None" "same_bufs (set cs \<union> set hs) s s1"
    using flush_module_first [OF sh] by blast
  note rs = port_queue_reset_frame [OF s1(2,3)]
  have cb: "po_callback (port_of (port_queue_reset p s1) p) = Some cbid"
    using sh(1) rest_of_fields(1) [OF s1(5)] rs(5) by (simp add: port_shape_def)
  obtain s2 where s2: "flush_loop c p (po_queue_first (port_of s1 p)) (port_queue_reset p s1) = ret s2"
      "client s2 ((cs @ hs) @ qs)" "transit_ok s2 0" "module_holds p s2 []"
      "rest_of (port_of s2 p) = rest_of (port_of (port_queue_reset p s1) p)"
      "same_bufs (set (cs @ hs) \<union> set qs) (port_queue_reset p s1) s2"
    using flush_queue_rest [OF rs(1,2) _ _ d cb, of "po_queue_first (port_of s1 p)"] s1(4,6) rs(3,4) by auto
  have fl: "po_is_enabled (port_of s p)" "po_pf_flush (port_of s p) = Some COPY"
    using sh(1) by (simp_all add: port_shape_def)
  have "mmal_port_flush c (Some p) s = ret (MMAL_SUCCESS, s2)"
    by (simp add: mmal_port_flush_def fl flush_op s1(1) s2(1))
  moreover have r2: "rest_of (port_of s2 p) = rest_of ((port_of s1 p)\<lparr>po_queue_first := None, po_queue_last := SlotFirst\<rparr>)"
    using s2(5) by (simp add: port_queue_reset_def)
  have "distinct (cs @ hs @ qs)" using d by simp
  then have "port_shape s2 [] [] (cs @ hs @ qs)"
    using sh(1) s2(2,4) by (simp add: port_shape_def rest_of_fields [OF s1(5)] rest_of_fields [OF r2])
  moreover have "same_bufs (set (cs @ hs @ qs)) s s2"
    using s1(7) s2(6) by (auto simp: same_bufs_def port_queue_reset_def)
  ultimately show ?thesis using s2(3) by (simp add: port_inv_def)
qed

lemma disable_spec:
  assumes inv: "port_inv s qs hs cs"
  shows "\<exists>s'. mmal_port_disable c (Some p) s = ret (MMAL_SUCCESS, s') \<and> client s' (cs @ hs @ qs)
    \<and> po_transit (port_of s' p) = 0 \<and> module_holds p s' [] \<and> po_queue_first (port_of s' p) = None
    \<and> \<not> po_is_enabled (port_of s' p) \<and> po_callback (port_of s' p) = None"
proof -
  define s0 where "s0 = upd_port p (\<lambda>P. P\<lparr>po_is_enabled := False\<rparr>) s"
  have sh: "client s0 cs" "module_holds p s hs" "distinct (cs @ hs)" "po_callback (port_of s0 p) = Some cbid"
    "set qs \<inter> (set hs \<union> set cs) = {}" "lpath (nexts s) (po_queue_first (port_of s p)) qs None"
    "po_is_enabled (port_of s p)" "po_pf_disable (port_of s p) = Some COPY" "distinct ((cs @ hs) @ qs)"
    "po_pool_for_connection (port_of s p) = None" "po_connected (port_of s p) = None"
    using inv by (auto simp: port_inv_def port_shape_def s0_def client_port)
  have m0: "module_holds p s0 hs" by (rule module_holds_frame [OF sh(2)]) (simp_all add: s0_def)
  have t0: "transit_ok s0 (length hs + length qs)" using inv by (simp add: port_inv_def s0_def add.commute)
  obtain s1 where s1: "flush_module_loop (mmal_port_buffer_header_callback c p) p s0 = ret s1"
      "module_holds p s1 []" "client s1 (cs @ hs)" "transit_ok s1 (length qs)"
      "rest_of (port_of s1 p) = rest_of (port_of s0 p)" "same_bufs (set cs \<union> set hs) s0 s1"
    using flush_module_spec [OF m0 sh(3,1,4) t0] by blast
  have "lpath (nexts s1) (po_queue_first (port_of s p)) qs None = lpath (nexts s) (po_queue_first (port_of s p)) qs None"
    by (rule lpath_cong) (use s1(6) sh(5) in \<open>auto simp: nexts_def same_bufs_def s0_def\<close>)
  then have path: "lpath (nexts s1) (po_queue_first (port_of s1 p)) qs None"
    using sh(6) rest_of_fields(4) [OF s1(5)] by (simp add: s0_def)
  have cb: "po_callback (port_of s1 p) = Some cbid" using sh(4) rest_of_fields(1) [OF s1(5)] by simp
  obtain s2 where s2: "flush_loop c p (po_queue_first (port_of s1 p)) s1 = ret s2" "client s2 ((cs @ hs) @ qs)"
      "transit_ok s2 0" "module_holds p s2 []" "rest_of (port_of s2 p) = rest_of (port_of s1 p)"
    using flush_queue_rest [OF s1(3,2,4) path sh(9) cb] by blast
  define s3 where "s3 = port_queue_reset p s2"
  have t3: "transit_ok s3 0" using port_queue_reset_frame(3) [OF s2(2,4)] s2(3) by (simp add: s3_def)
  define s4 where "s4 = upd_port p (\<lambda>P. P\<lparr>po_transit_sema := 1\<rparr>) s3"
  have w: "in_transit_wait p s3 = ret s4"
    using t3 by (simp add: in_transit_wait_def transit_ok_def sem_wait_def sem_post_def s4_def)
  let ?s = "upd_port p (\<lambda>P. P\<lparr>po_callback := None\<rparr>) s4"
  have en: "\<not> po_is_enabled (port_of s2 p)"
    using rest_of_fields(2) [OF s2(5)] rest_of_fields(2) [OF s1(5)] by (simp add: s0_def)
  have "mmal_port_disable_internal c p s = ret (MMAL_SUCCESS, ?s)"
    using sh(7,8,10) by (simp add: mmal_port_disable_internal_def Let_def disable_op copy_port_disable_def
        copy_port_flush_def s1(1) [unfolded s0_def] s2(1) s3_def [symmetric] w)
  then have "mmal_port_disable c (Some p) s = ret (MMAL_SUCCESS, ?s)"
    using sh(7,8,11) by (simp add: mmal_port_disable_def)
  moreover have "client ?s (cs @ hs @ qs)"
    using port_queue_reset_frame(1) [OF s2(2,4)] by (simp add: s4_def s3_def client_port)
  moreover have "module_holds p ?s []"
    by (rule module_holds_frame [OF port_queue_reset_frame(2) [OF s2(2,4)]]) (simp_all add: s4_def s3_def)
  ultimately show ?thesis using t3 en by (simp add: s4_def s3_def port_queue_reset_def transit_ok_def)
qed

text \<open>Pausing keeps the headers where they are; resuming hands the queued ones to the component.\<close>

lemma pause_loop_spec:
  assumes "lpath (nexts s) buffer qs None" and "module_holds p s hs" and "client s cs"
    and "distinct (qs @ hs @ cs)" and "po_pf_send (port_of s p) = Some COPY"
  shows "\<exists>s'. pause_loop c p buffer s = ret (MMAL_SUCCESS, None, s') \<and> module_holds p s' (hs @ qs)
    \<and> client s' cs \<and> (\<forall>n. transit_ok s' n = transit_ok s n) \<and> rest_of (port_of s' p) = rest_of (port_of s p)
    \<and> same_bufs (set qs \<union> set hs) s s'"
  using assms
proof (induction qs arbitrary: s buffer hs)
  case Nil
  then have "pause_loop c p buffer s = ret (MMAL_SUCCESS, None, s)" by (subst pause_loop.simps) simp
  with Nil show ?case by auto
next
  case (Cons b qs)
  have bf: "buffer = Some b" using Cons.prems(1) by simp
  have nb: "bh_next (bufs s b) = nexts s b" by (simp add: nexts_def)
  obtain s1 where s1: "copy_port_send p b s = ret (MMAL_SUCCESS, s1)" "module_holds p s1 (hs @ [b])"
      "client s1 cs" "\<forall>n. transit_ok s1 n = transit_ok s n" "rest_of (port_of s1 p) = rest_of (port_of s p)"
      "same_bufs (insert b (set hs)) s s1"
    using copy_send_spec [OF Cons.prems(2,3), of b] Cons.prems(4) by auto
  have "lpath (nexts s1) (nexts s b) qs None = lpath (nexts s) (nexts s b) qs None"
    by (rule lpath_cong) (use s1(6) Cons.prems(4) in \<open>auto simp: nexts_def same_bufs_def\<close>)
  then have path: "lpath (nexts s1) (nexts s b) qs None" using Cons.prems(1) by simp
  have f: "po_pf_send (port_of s1 p) = Some COPY" using rest_of_fields(6) [OF s1(5)] Cons.prems(5) by simp
  have d: "distinct (qs @ (hs @ [b]) @ cs)" using Cons.prems(4) by auto
  obtain s2 where s2: "pause_loop c p (nexts s b) s1 = ret (MMAL_SUCCESS, None, s2)"
      "module_holds p s2 ((hs @ [b]) @ qs)" "client s2 cs" "\<forall>n. transit_ok s2 n = transit_ok s1 n"
      "rest_of (port_of s2 p) = rest_of (port_of s1 p)" "same_bufs (set qs \<union> set (hs @ [b])) s1 s2"
    using Cons.IH [OF path s1(2,3) d f] by blast
  have "pause_loop c p buffer s = ret (MMAL_SUCCESS, None, s2)"
    by (subst pause_loop.simps) (simp add: bf Cons.prems(5) send_op s1(1) nb s2(1))
  moreover have "same_bufs (set (b # qs) \<union> set hs) s s2"
    by (rule same_bufs_mono [OF same_bufs_trans [OF s1(6) s2(6)]]) auto
  ultimately show ?case using s2 s1(4,5) by auto
qed

lemma set_paused:
  assumes "port_inv s qs hs cs" and "b \<or> qs = []"
  shows "port_inv (upd_port p (\<lambda>P. P\<lparr>po_is_paused := b\<rparr>) s) qs hs cs"
proof -
  let ?s = "upd_port p (\<lambda>P. P\<lparr>po_is_paused := b\<rparr>) s"
  have "module_holds p ?s hs"
    by (rule module_holds_frame [of p s]) (use assms(1) in \<open>auto simp: port_inv_def port_shape_def\<close>)
  moreover have "nexts ?s = nexts s" by (simp add: nexts_def fun_eq_iff)
  ultimately show ?thesis using assms by (simp add: port_inv_def port_shape_def client_port)
qed

lemma pause_spec:
  assumes "port_inv s qs hs cs"
  shows "\<exists>s'. mmal_port_pause c p True s = ret (MMAL_SUCCESS, s') \<and> port_inv s' qs hs cs \<and> same_bufs {} s s'"
  using set_paused [OF assms, of True] by (simp add: mmal_port_pause_def)

lemma resume_spec:
  assumes inv: "port_inv s qs hs cs"
  shows "\<exists>s'. mmal_port_pause c p False s = ret (MMAL_SUCCESS, s') \<and> port_inv s' [] (hs @ qs) cs
    \<and> same_bufs (set qs \<union> set hs) s s'"
proof -
  have sh: "port_shape s qs hs cs" "transit_ok s (length qs + length hs)" using inv by (simp_all add: port_inv_def)
  obtain s1 where s1: "pause_loop c p (po_queue_first (port_of s p)) s = ret (MMAL_SUCCESS, None, s1)"
      "module_holds p s1 (hs @ qs)" "client s1 cs" "\<forall>n. transit_ok s1 n = transit_ok s n"
      "rest_of (port_of s1 p) = rest_of (port_of s p)" "same_bufs (set qs \<union> set hs) s s1"
    using pause_loop_spec [of s "po_queue_first (port_of s p)" qs hs cs] sh(1) unfolding port_shape_def by blast
  note rs = port_queue_reset_frame [OF s1(3,2)]
  let ?s = "port_queue_reset p s1"
  have r: "rest_of (port_of ?s p) = rest_of ((port_of s p)\<lparr>po_queue_first := None, po_queue_last := SlotFirst\<rparr>)"
    using rest_of_reset [OF s1(5)] by (simp add: port_queue_reset_def)
  have d: "distinct ((hs @ qs) @ cs)" using sh(1) by (auto simp: port_shape_def)
  have t: "transit_ok ?s (length (hs @ qs))" using sh(2) s1(4) rs(3) by (simp add: add.commute)
  have "port_inv ?s [] (hs @ qs) cs"
    using sh(1) rs(1,2) d t by (simp add: port_inv_def port_shape_def rest_of_fields [OF r])
  then have "port_inv (upd_port p (\<lambda>P. P\<lparr>po_is_paused := False\<rparr>) ?s) [] (hs @ qs) cs" by (rule set_paused) simp
  moreover have "mmal_port_pause c p False s
      = ret (MMAL_SUCCESS, upd_port p (\<lambda>P. P\<lparr>po_is_paused := False\<rparr>) ?s)"
    using sh(1) by (simp add: mmal_port_pause_def port_shape_def s1(1))
  moreover have "same_bufs (set qs \<union> set hs) s (upd_port p (\<lambda>P. P\<lparr>po_is_paused := False\<rparr>) ?s)"
    using s1(6) by (simp add: port_queue_reset_def)
  ultimately show ?thesis by blast
qed

text \<open>The component's own step.\<close>

lemma process_spec:
  assumes inv: "port_inv s qs hs cs"
  shows "\<exists>s' hs' cs'. process_first c p g s = ret (MMAL_SUCCESS, s') \<and> port_inv s' qs hs' cs' \<and> cs' @ hs' = cs @ hs
    \<and> same_bufs (set hs \<union> set cs) s s'"
proof (cases hs)
  case Nil
  have m: "module_holds p s []" using inv Nil by (simp add: port_inv_def port_shape_def)
  then have "process_first c p g s = ret (MMAL_SUCCESS, s)" by (simp add: process_first_def module_get_Nil)
  then show ?thesis using inv by auto
next
  case (Cons b hs1)
  have sh: "port_shape s qs (b # hs1) cs" "transit_ok s (length qs + length (b # hs1))"
    using inv Cons by (simp_all add: port_inv_def)
  then have m: "module_holds p s (b # hs1)" and cl: "client s cs" and b: "b \<notin> set cs" "b \<notin> set hs1" "b \<notin> set qs"
    and cb: "po_callback (port_of s p) = Some cbid" by (auto simp: port_shape_def)
  obtain q' where g: "module_queue_get p s = ret (Some b, upd_port p (\<lambda>P. P\<lparr>po_module_queue := q'\<rparr>) s)"
      and h: "module_holds p (upd_port p (\<lambda>P. P\<lparr>po_module_queue := q'\<rparr>) s) hs1"
    using module_get_Cons [OF m] by blast
  define s1 where "s1 = upd_buf b g (upd_port p (\<lambda>P. P\<lparr>po_module_queue := q'\<rparr>) s)"
  have s1: "client s1 cs" "po_callback (port_of s1 p) = Some cbid" "transit_ok s1 (Suc (length qs + length hs1))"
      "rest_of (port_of s1 p) = rest_of (port_of s p)" "same_bufs {b} s s1"
    using cl cb sh(2) b(1)
    by (simp_all add: s1_def client_bufs client_port transit_ok_def) (simp add: same_bufs_def)
  have h1: "module_holds p s1 hs1" by (rule module_holds_frame [OF h]) (use b(2) in \<open>auto simp: s1_def\<close>)
  obtain s2 where s2: "mmal_port_buffer_header_callback c p b s1 = ret s2" "client s2 (cs @ [b])"
      "transit_ok s2 (length qs + length hs1)" "rest_of (port_of s2 p) = rest_of (port_of s1 p)"
      "po_module_queue (port_of s2 p) = po_module_queue (port_of s1 p)" "same_bufs (insert b (set cs)) s1 s2"
    using callback_spec [OF s1(1) b(1) s1(2,3)] by blast
  have f: "bufs s2 x = bufs s x" if "x \<in> set qs" for x
    using that s1(5) s2(6) sh(1) by (auto simp: same_bufs_def port_shape_def)
  have "module_holds p s2 hs1"
    by (rule module_holds_frame [OF h1 s2(5)]) (use s2(6) sh(1) in \<open>auto simp: same_bufs_def port_shape_def\<close>)
  moreover have "lpath (nexts s2) (po_queue_first (port_of s p)) qs None = lpath (nexts s) (po_queue_first (port_of s p)) qs None"
    by (rule lpath_cong) (use f in \<open>auto simp: nexts_def\<close>)
  moreover have "rest_of (port_of s2 p) = rest_of (port_of s p)" using s2(4) s1(4) by simp
  moreover have "distinct (qs @ hs1 @ cs @ [b])" using sh(1) by (auto simp: port_shape_def)
  ultimately have "port_inv s2 qs hs1 (cs @ [b])"
    using sh(1) s2(2,3) by (simp add: port_inv_def port_shape_def rest_of_fields [of "port_of s2 p" "port_of s p"])
  moreover have "process_first c p g s = ret (MMAL_SUCCESS, s2)"
    using s2(1) by (simp add: process_first_def g s1_def)
  moreover have "same_bufs (set hs \<union> set cs) s s2"
    by (rule same_bufs_mono [OF same_bufs_trans [OF s1(5) s2(6)]]) (auto simp: Cons)
  ultimately show ?thesis
    using Cons by (intro exI [of _ s2] exI [of _ hs1] exI [of _ "cs @ [b]"]) simp
qed

text \<open>One call, and a sequence of calls, keep the order in which the headers were sent: those given back, with
  the component and in the core's queue.\<close>

lemma call_spec:
  assumes inv: "port_inv s qs hs cs" and fresh: "\<And>b. x = CallSend b \<Longrightarrow> b \<notin> set (qs @ hs @ cs) \<and> bh_data (bufs s b) \<noteq> None"
  shows "\<exists>s' qs' hs' cs'. run_call c p x s = ret (MMAL_SUCCESS, s') \<and> port_inv s' qs' hs' cs'
    \<and> cs' @ hs' @ qs' = (cs @ hs @ qs) @ sent [x] \<and> same_bufs (set (sent [x]) \<union> set (qs @ hs @ cs)) s s'"
proof (cases x)
  case (CallSend b)
  then obtain s' qs' hs' where *: "mmal_port_send_buffer c (Some p) b s = ret (MMAL_SUCCESS, s')"
      "port_inv s' qs' hs' cs" "hs' @ qs' = hs @ qs @ [b]" "same_bufs (insert b (set qs \<union> set hs)) s s'"
    using send_spec [OF inv, of b] fresh by blast
  have "same_bufs (set (sent [x]) \<union> set (qs @ hs @ cs)) s s'"
    by (rule same_bufs_mono [OF *(4)]) (auto simp: CallSend)
  with * show ?thesis by (auto simp: CallSend)
next
  case CallFlush
  obtain s' where *: "mmal_port_flush c (Some p) s = ret (MMAL_SUCCESS, s')" "port_inv s' [] [] (cs @ hs @ qs)"
      "same_bufs (set (cs @ hs @ qs)) s s'"
    using flush_spec [OF inv] by blast
  have "same_bufs (set (sent [x]) \<union> set (qs @ hs @ cs)) s s'" by (rule same_bufs_mono [OF *(3)]) auto
  with * show ?thesis by (auto simp: CallFlush)
next
  case CallPause
  obtain s' where *: "mmal_port_pause c p True s = ret (MMAL_SUCCESS, s')" "port_inv s' qs hs cs" "same_bufs {} s s'"
    using pause_spec [OF inv] by blast
  have "same_bufs (set (sent [x]) \<union> set (qs @ hs @ cs)) s s'" by (rule same_bufs_mono [OF *(3)]) auto
  with * show ?thesis by (auto simp: CallPause)
next
  case CallResume
  obtain s' where *: "mmal_port_pause c p False s = ret (MMAL_SUCCESS, s')" "port_inv s' [] (hs @ qs) cs"
      "same_bufs (set qs \<union> set hs) s s'"
    using resume_spec [OF inv] by blast
  have "same_bufs (set (sent [x]) \<union> set (qs @ hs @ cs)) s s'" by (rule same_bufs_mono [OF *(3)]) auto
  with * show ?thesis by (auto simp: CallResume)
next
  case (CallProcess g)
  obtain s' hs' cs' where *: "process_first c p g s = ret (MMAL_SUCCESS, s')" "port_inv s' qs hs' cs'" "cs' @ hs' = cs @ hs"
      "same_bufs (set hs \<union> set cs) s s'"
    using process_spec [OF inv] by blast
  have "same_bufs (set (sent [x]) \<union> set (qs @ hs @ cs)) s s'" by (rule same_bufs_mono [OF *(4)]) auto
  moreover have "cs' @ hs' @ qs = (cs @ hs) @ qs" by (simp flip: *(3))
  ultimately show ?thesis using *(1,2)
    by (intro exI [of _ s'] exI [of _ qs] exI [of _ hs'] exI [of _ cs']) (simp add: CallProcess)
qed

lemma sent_Cons: "sent (x # xs) = sent [x] @ sent xs"
  by (cases x) auto

lemma calls_spec:
  assumes "port_inv s qs hs cs" and "distinct (sent xs)" and "set (sent xs) \<inter> set (qs @ hs @ cs) = {}"
    and "\<forall>b\<in>set (sent xs). bh_data (bufs s b) \<noteq> None"
  shows "\<exists>s' qs' hs' cs'. port_calls c p xs s = ret (replicate (length xs) MMAL_SUCCESS, s')
    \<and> port_inv s' qs' hs' cs' \<and> cs' @ hs' @ qs' = (cs @ hs @ qs) @ sent xs"
  using assms
proof (induction xs arbitrary: s qs hs cs)
  case Nil
  then show ?case by auto
next
  case (Cons x xs)
  have f: "\<And>b. x = CallSend b \<Longrightarrow> b \<notin> set (qs @ hs @ cs) \<and> bh_data (bufs s b) \<noteq> None"
    using Cons.prems(3,4) by auto
  obtain s1 qs1 hs1 cs1 where s1: "run_call c p x s = ret (MMAL_SUCCESS, s1)" "port_inv s1 qs1 hs1 cs1"
      "cs1 @ hs1 @ qs1 = (cs @ hs @ qs) @ sent [x]" "same_bufs (set (sent [x]) \<union> set (qs @ hs @ cs)) s s1"
    using call_spec [OF Cons.prems(1) f] by blast
  have all: "set (qs1 @ hs1 @ cs1) = set (qs @ hs @ cs) \<union> set (sent [x])"
    using arg_cong [OF s1(3), of set] by auto
  have d: "distinct (sent [x] @ sent xs)" "(set (sent [x]) \<union> set (sent xs)) \<inter> set (qs @ hs @ cs) = {}"
    using Cons.prems(2,3) by (simp_all add: sent_Cons [of x xs])
  have "\<forall>b\<in>set (sent xs). bh_data (bufs s1 b) \<noteq> None"
  proof
    fix b assume b: "b \<in> set (sent xs)"
    then have "b \<notin> set (sent [x]) \<union> set (qs @ hs @ cs)" using d by auto
    then have "bufs s1 b = bufs s b" using s1(4) by (simp add: same_bufs_def)
    then show "bh_data (bufs s1 b) \<noteq> None" using Cons.prems(4) b by (auto simp: sent_Cons [of x xs])
  qed
  note dd = this
  have "set (sent xs) \<inter> set (sent [x]) = {}" using d(1) by auto
  then have d2: "distinct (sent xs)" "set (sent xs) \<inter> set (qs1 @ hs1 @ cs1) = {}"
    using d unfolding all by auto
  obtain s2 qs2 hs2 cs2 where s2: "port_calls c p xs s1 = ret (replicate (length xs) MMAL_SUCCESS, s2)"
      "port_inv s2 qs2 hs2 cs2" "cs2 @ hs2 @ qs2 = (cs1 @ hs1 @ qs1) @ sent xs"
    using Cons.IH [OF s1(2) d2 dd] by blast
  have "cs2 @ hs2 @ qs2 = (cs @ hs @ qs) @ sent (x # xs)" using s2(3) by (simp add: s1(3) sent_Cons [of x xs])
  with s2(1,2) show ?case by (auto simp: s1(1))
qed

text \<open>Disabling the port after any such sequence gives everything back, in the order it was sent.\<close>

lemma calls_disable_spec:
  assumes "port_inv s [] [] cs" and "distinct (sent xs)" and "set (sent xs) \<inter> set cs = {}"
    and "\<forall>b\<in>set (sent xs). bh_data (bufs s b) \<noteq> None"
  shows "\<exists>s1 s2. port_calls c p xs s = ret (replicate (length xs) MMAL_SUCCESS, s1)
    \<and> mmal_port_disable c (Some p) s1 = ret (MMAL_SUCCESS, s2) \<and> client s2 (cs @ sent xs)
    \<and> po_transit (port_of s2 p) = 0 \<and> \<not> po_is_enabled (port_of s2 p)"
proof -
  obtain s1 qs hs cs' where s1: "port_calls c p xs s = ret (replicate (length xs) MMAL_SUCCESS, s1)"
      "port_inv s1 qs hs cs'" "cs' @ hs @ qs = cs @ sent xs"
    using calls_spec [OF assms(1,2) _ assms(4)] assms(3) by auto
  with disable_spec [OF s1(2)] show ?thesis by auto
qed

end

end
