(* ===== verification/Mmal_Port_Order.thy ===== *)
theory Mmal_Port_Order
  imports Mmal_Port_Client
begin

text \<open>
  The interpretation \<open>copy_conn\<close> of the client contract: ports of the copy component
  (\<^verbatim>\<open>components/copy.c\<close>) enabled by a connection of \<^verbatim>\<open>util/mmal_connection.c\<close>. Headers sent
  to such a port come back once each, in order, processed by the component or not.
\<close>

section \<open>Connections as clients of copy ports\<close>

text \<open>The dispatch of the stored function pointers: the callbacks of connections and the functions of
  the copy component; everything else is left to \<open>base\<close>.\<close>

definition with_callbacks :: "'x port_ops \<Rightarrow> 'x port_ops" where
  "with_callbacks base = base\<lparr>pp_cb := (\<lambda>f.
     if f = CONNECTION_BH_OUT_CB then mmal_connection_bh_out_cb base
     else if f = CONNECTION_BH_IN_CB then mmal_connection_bh_in_cb base else pp_cb base f)\<rparr>"

definition with_copy :: "'x port_ops \<Rightarrow> 'x port_ops" where
  "with_copy base = (let c = with_callbacks base in c\<lparr>
     pp_send := (\<lambda>f. if f = COPY then copy_port_send else pp_send base f),
     pp_flush := (\<lambda>f. if f = COPY then copy_port_flush c else pp_flush base f),
     pp_disable := (\<lambda>f. if f = COPY then copy_port_disable c else pp_disable base f)\<rparr>)"

lemma with_copy_simps [simp]:
  "pp_send (with_copy base) COPY = copy_port_send"
  "pp_cb (with_copy base) CONNECTION_BH_OUT_CB = mmal_connection_bh_out_cb base"
  "pp_collect_stats (with_copy base) = pp_collect_stats base"
  "vcos_getmicrosecs (with_copy base) = vcos_getmicrosecs base"
  by (simp_all add: with_copy_def with_callbacks_def Let_def vcos_getmicrosecs_def fun_eq_iff)

lemma buffer_header_callback_cong:
  assumes "pp_cb c = pp_cb c'" and "pp_time c = pp_time c'" and "pp_collect_stats c = pp_collect_stats c'"
  shows "mmal_port_buffer_header_callback c = mmal_port_buffer_header_callback c'"
proof -
  have "vcos_getmicrosecs c = vcos_getmicrosecs c'" by (simp add: fun_eq_iff vcos_getmicrosecs_def assms(2))
  then have u: "mmal_port_update_port_stats c = mmal_port_update_port_stats c'"
    by (simp add: fun_eq_iff mmal_port_update_port_stats_def)
  show ?thesis unfolding fun_eq_iff mmal_port_buffer_header_callback_def assms(1,3) u by simp
qed

lemma with_copy_callback:
  "mmal_port_buffer_header_callback (with_copy base) = mmal_port_buffer_header_callback (with_callbacks base)"
  by (rule buffer_header_callback_cong) (simp_all add: with_copy_def Let_def)

lemma with_copy_flush:
  "pp_flush (with_copy base) COPY = copy_port_flush (with_copy base)"
  "pp_disable (with_copy base) COPY = copy_port_disable (with_copy base)"
  unfolding copy_port_disable_def copy_port_flush_def fun_eq_iff with_copy_callback
  by (simp_all add: with_copy_def Let_def fun_eq_iff copy_port_flush_def copy_port_disable_def)

text \<open>A notification of the application only changes the application's state.\<close>

definition quiet_notify :: "'x port_ops \<Rightarrow> addr \<Rightarrow> 'x pst \<Rightarrow> bool" where
  "quiet_notify base x s \<longleftrightarrow>
     (\<forall>f. cx_callback (conn_of s x) = Some f \<longrightarrow> (\<forall>t. \<exists>h. pp_connection_cb base f x t = ret (upd_env h t)))"

definition connection_client :: "'x port_ops \<Rightarrow> addr \<Rightarrow> addr \<Rightarrow> 'x pst \<Rightarrow> addr list \<Rightarrow> bool" where
  "connection_client base x p s cs \<longleftrightarrow>
     queue_repr (cx_queue (conn_of s x), s) cs \<and> po_userdata (port_of s p) = Some x \<and> quiet_notify base x s"

lemma connection_client_frame:
  assumes "connection_client base x p s cs" and "conn_of s' x = conn_of s x"
    and "po_userdata (port_of s' p) = po_userdata (port_of s p)" and "\<And>h. h \<in> set cs \<Longrightarrow> bufs s' h = bufs s h"
  shows "connection_client base x p s' cs"
proof -
  have "queue_repr (cx_queue (conn_of s x), s') cs"
    by (rule queue_repr_mem_cong [where m = s]) (use assms in \<open>auto simp: connection_client_def\<close>)
  then show ?thesis using assms(1-3) by (simp add: connection_client_def quiet_notify_def)
qed

lemma connection_out_cb_spec:
  assumes "connection_client base x p s cs" and "b \<notin> set cs"
  shows "\<exists>s'. mmal_connection_bh_out_cb base p b s = ret s' \<and> connection_client base x p s' (cs @ [b])
    \<and> port_of s' p = port_of s p \<and> same_bufs (insert b (set cs)) s s'"
proof -
  have r: "queue_repr (cx_queue (conn_of s x), s) cs" and u: "po_userdata (port_of s p) = Some x"
    and n: "quiet_notify base x s" using assms(1) by (simp_all add: connection_client_def)
  obtain q' s1 where put: "mmal_queue_put (cx_queue (conn_of s x), s) (Some b) = (q', s1)" by fastforce
  note fr = queue_put_same_bufs [OF r put]
  have e: "ps_env s1 = ps_env s" using pstate_more [OF fr(2)] by simp
  have r1: "queue_repr (q', s1) (cs @ [b])" using queue_repr_put [OF r assms(2)] put by simp
  define s2 where "s2 = upd_conn x (\<lambda>X. X\<lparr>cx_queue := q'\<rparr>) s1"
  have "queue_repr (q', s2) (cs @ [b])" by (rule queue_repr_mem_cong [OF r1]) (simp add: s2_def)
  then have c2: "connection_client base x p s2 (cs @ [b])"
    using u n by (simp add: connection_client_def s2_def e quiet_notify_def)
  have put2: "connection_queue_put x b s = s2" by (simp add: connection_queue_put_def put s2_def)
  have fr2: "port_of s2 p = port_of s p" "same_bufs (insert b (set cs)) s s2"
    using fr(1) by (simp_all add: s2_def e same_bufs_def)
  show ?thesis
  proof (cases "cx_callback (conn_of s2 x)")
    case None
    with c2 fr2 show ?thesis by (simp add: mmal_connection_bh_out_cb_def u put2 connection_notify_def)
  next
    case (Some f)
    then obtain h where h: "pp_connection_cb base f x s2 = ret (upd_env h s2)"
      using c2 unfolding connection_client_def quiet_notify_def by blast
    have "connection_client base x p (upd_env h s2) (cs @ [b])"
      by (rule connection_client_frame [OF c2]) simp_all
    with fr2 h Some show ?thesis by (simp add: mmal_connection_bh_out_cb_def u put2 connection_notify_def)
  qed
qed

interpretation copy_conn: copy_port_client "with_copy base" p CONNECTION_BH_OUT_CB "connection_client base x p"
  for base p x
proof unfold_locales
  show "pp_send (with_copy base) COPY = copy_port_send" by simp
  show "pp_flush (with_copy base) COPY = copy_port_flush (with_copy base)" by (rule with_copy_flush)
  show "pp_disable (with_copy base) COPY = copy_port_disable (with_copy base)" by (rule with_copy_flush)
next
  fix s cs b
  assume "connection_client base x p s cs" and "b \<notin> set cs"
  then show "\<exists>s'. pp_cb (with_copy base) CONNECTION_BH_OUT_CB p b s = ret s' \<and> connection_client base x p s' (cs @ [b])
    \<and> port_of s' p = port_of s p \<and> same_bufs (insert b (set cs)) s s'"
    unfolding with_copy_simps by (rule connection_out_cb_spec)
next
  fix s cs and f :: "mmal_port \<Rightarrow> mmal_port"
  assume "connection_client base x p s cs" and "\<And>P. po_userdata (f P) = po_userdata P"
  then show "connection_client base x p (upd_port p f s) cs" by (auto intro: connection_client_frame)
next
  fix s cs a and g :: "mmal_component \<Rightarrow> mmal_component"
  assume "connection_client base x p s cs"
  then show "connection_client base x p (upd_comp a g s) cs" by (auto intro: connection_client_frame)
next
  fix s cs b and h :: "mmal_header \<Rightarrow> mmal_header"
  assume "connection_client base x p s cs" and "b \<notin> set cs"
  then show "connection_client base x p (upd_buf b h s) cs" by (auto intro: connection_client_frame)
next
  fix s cs
  assume "connection_client base x p s cs"
  then show "connection_client base x p (snd (vcos_getmicrosecs (with_copy base) s)) cs"
    by (auto simp: vcos_getmicrosecs_def split: prod.split intro: connection_client_frame)
qed

section \<open>Every header comes back, in order\<close>

text \<open>A port of a copy component that a connection has just enabled: no header under way.\<close>

definition idle_copy_port :: "'x port_ops \<Rightarrow> addr \<Rightarrow> addr \<Rightarrow> 'x pst \<Rightarrow> addr list \<Rightarrow> bool" where
  "idle_copy_port base x p s cs \<longleftrightarrow>
     queue_repr (cx_queue (conn_of s x), s) cs \<and> quiet_notify base x s
     \<and> (let P = port_of s p in
        po_userdata P = Some x \<and> queue_repr (po_module_queue P, s) [] \<and> po_queue_first P = None
        \<and> po_queue_last P = SlotFirst \<and> po_transit P = 0 \<and> po_transit_sema P = 1 \<and> po_is_enabled P
        \<and> po_callback P = Some CONNECTION_BH_OUT_CB \<and> po_pf_send P = Some COPY
        \<and> po_pf_flush P = Some COPY \<and> po_pf_disable P = Some COPY
        \<and> po_pool_for_connection P = None \<and> po_connected P = None)"

lemma idle_copy_port_inv: "idle_copy_port base x p s cs \<Longrightarrow> copy_conn.port_inv p base x s [] [] cs"
  using queue_repr_distinct [of "(cx_queue (conn_of s x), s)" cs]
  by (simp add: idle_copy_port_def copy_conn.port_inv_def copy_conn.port_shape_def copy_conn.transit_ok_def
      connection_client_def module_holds_def Let_def)

text \<open>C3. On a port of a copy component whose client is a connection with the output callback
  (\<^verbatim>\<open>mmal_connection_bh_out_cb\<close>, with no notification or one that only changes the application's own state),
  every sequence of sends of distinct headers with a data pointer, of flushes, pauses and resumes, and of rounds in
  which the component takes the first header waiting at the port, rewrites it and gives it back, succeeds step by
  step. Disabling the port then returns: no header is left in transit, and the connection's queue has received every
  header exactly once, behind what it held, in the order in which the headers were sent. A round is what a
  successful \<^verbatim>\<open>copy_do_processing\<close> does at this port (C10); the rounds that lose a pair that does not fit (C32)
  are not among the steps.\<close>

theorem port_returns_headers_in_order:
  assumes "idle_copy_port base x p s cs"
    and "distinct (sent calls)" and "set (sent calls) \<inter> set cs = {}"
    and "\<forall>b\<in>set (sent calls). bh_data (bufs s b) \<noteq> None"
  shows "\<exists>s1 s2. port_calls (with_copy base) p calls s = ret (replicate (length calls) MMAL_SUCCESS, s1)
    \<and> mmal_port_disable (with_copy base) (Some p) s1 = ret (MMAL_SUCCESS, s2)
    \<and> queue_repr (cx_queue (conn_of s2 x), s2) (cs @ sent calls)
    \<and> po_transit (port_of s2 p) = 0 \<and> \<not> po_is_enabled (port_of s2 p)"
  using copy_conn.calls_disable_spec [OF idle_copy_port_inv [OF assms(1)] assms(2-4)]
  unfolding connection_client_def by blast

definition example_copy_state :: "unit pst" where
  "example_copy_state = empty_world
     \<lparr>bufs := (\<lambda>_. zero_header\<lparr>bh_data := Some 500\<rparr>),
      ps_env := (ps_env empty_world)\<lparr>
        w_port := (\<lambda>_. zero_port\<lparr>po_userdata := Some 200, po_module_queue := mmal_queue_create True VCOS_SUCCESS VCOS_SUCCESS,
          po_queue_last := SlotFirst, po_transit_sema := 1, po_is_enabled := True,
          po_callback := Some CONNECTION_BH_OUT_CB, po_pf_send := Some COPY, po_pf_flush := Some COPY,
          po_pf_disable := Some COPY\<rparr>),
        w_conn := (\<lambda>_. (fresh_connection [] 0 0 0 0)\<lparr>cx_queue := mmal_queue_create True VCOS_SUCCESS VCOS_SUCCESS\<rparr>)\<rparr>\<rparr>"

lemma example_copy_idle: "idle_copy_port base 200 100 example_copy_state []"
  by (simp add: idle_copy_port_def example_copy_state_def quiet_notify_def fresh_connection_def Let_def
      mmal_queue_create_def queue_list_def zero_port_def)

theorem port_returns_headers_in_order_witness:
  "\<forall>base g h. \<exists>s1 s2. port_calls (with_copy base) 100
       [CallSend 300, CallPause, CallSend 301, CallProcess g, CallSend 302, CallResume, CallSend 303, CallProcess h] example_copy_state
       = ret (replicate 8 MMAL_SUCCESS, s1)
    \<and> mmal_port_disable (with_copy base) (Some 100) s1 = ret (MMAL_SUCCESS, s2)
    \<and> queue_repr (cx_queue (conn_of s2 200), s2) [300, 301, 302, 303]
    \<and> po_transit (port_of s2 100) = 0 \<and> \<not> po_is_enabled (port_of s2 100)"
proof (intro allI)
  fix base and g h :: "mmal_header \<Rightarrow> mmal_header"
  have data: "\<forall>b\<in>{300, 301, 302, 303}. bh_data (bufs example_copy_state b) \<noteq> None"
    by (simp add: example_copy_state_def)
  show "\<exists>s1 s2. port_calls (with_copy base) 100
       [CallSend 300, CallPause, CallSend 301, CallProcess g, CallSend 302, CallResume, CallSend 303, CallProcess h] example_copy_state
       = ret (replicate 8 MMAL_SUCCESS, s1)
    \<and> mmal_port_disable (with_copy base) (Some 100) s1 = ret (MMAL_SUCCESS, s2)
    \<and> queue_repr (cx_queue (conn_of s2 200), s2) [300, 301, 302, 303]
    \<and> po_transit (port_of s2 100) = 0 \<and> \<not> po_is_enabled (port_of s2 100)"
    using port_returns_headers_in_order [OF example_copy_idle,
        of "[CallSend 300, CallPause, CallSend 301, CallProcess g, CallSend 302, CallResume, CallSend 303, CallProcess h]" base] data
    by (simp del: queue_repr.simps port_calls.simps add: numeral_eq_Suc)
qed

end
