(* ===== verification/Mmal_Copy_Facts.thy ===== *)
theory Mmal_Copy_Facts
  imports Mmal_Copy Mmal_Port_Order
begin

text \<open>Properties of the copy component (\<^verbatim>\<open>components/copy.c\<close>): what a failed creation frees, what one
  round of processing does with a pair of headers, and what becomes of a pair that does not fit.\<close>

section \<open>A creation that fails\<close>

text \<open>\<open>lg\<close>: what freeing a block does to the heap, the only thing it changes.\<close>

definition frees_by :: "'x port_ops \<Rightarrow> (addr \<Rightarrow> 'x \<Rightarrow> 'x) \<Rightarrow> bool" where
  "frees_by c lg \<longleftrightarrow> op_free (pp_pools c) = (\<lambda>a w. w\<lparr>w_env := lg a (w_env w)\<rparr>)"

lemma free_logged: "frees_by c lg \<Longrightarrow> vcos_free c a s = upd_env (lg a) s"
  by (simp add: frees_by_def vcos_free_def upd_env_def)

text \<open>An input port \<open>p\<close> with its format \<open>f\<close>, in an array \<open>b\<close>, and the module's data \<open>m\<close>; no output port.\<close>

definition half_created :: "addr \<Rightarrow> addr \<Rightarrow> addr \<Rightarrow> addr \<Rightarrow> addr \<Rightarrow> 'x pst \<Rightarrow> bool" where
  "half_created a p f b m s \<longleftrightarrow>
     (let C = comp_of s a in co_input C = [p] \<and> co_input_base C = Some b \<and> co_output C = [] \<and> co_module C = Some m)
     \<and> po_format_copy (port_of s p) = Some f \<and> fp_extradata (fs_private (w_fmt (ps_env s)) f) = None"

lemma copy_destroy_trace:
  assumes l: "frees_by c lg" and h: "half_created a p f b m s"
  shows "\<exists>s'. copy_component_destroy c a s = ret (MMAL_SUCCESS, s')
    \<and> w_env (ps_env s') = fold lg [f, p, b, m] (w_env (ps_env s))
    \<and> w_comp (ps_env s') = w_comp (ps_env s) \<and> w_fmt (ps_env s') = w_fmt (ps_env s)
    \<and> (\<forall>q. po_format_copy (port_of s' q) = po_format_copy (port_of s q))"
  using h by (simp add: copy_component_destroy_def half_created_def destroy_module_queues_def free_ports_of_def
      mmal_ports_free_def mmal_port_free_def world_format_free_def mmal_format_free_def free_logged [OF l]
      free_opt_def Let_def on_fmt_def)

text \<open>C33. When the creation of a copy component fails after its input port exists, the constructor destroys
  what it has allocated and leaves the component's pointers as they are; the core then calls the
  component's \<open>pf_destroy\<close>, which is the same function. The format, the port, the array of ports and the
  module's data are each freed twice before the control port and the component itself are freed.\<close>

theorem failed_copy_frees_twice:
  assumes l: "frees_by c lg" and pf: "pp_comp c COPY a = copy_component_destroy c a"
    and h: "half_created a p f b m s"
    and C: "co_pf_destroy (comp_of s a) = Some COPY" "co_pf_action (comp_of s a) = None"
      "co_event_pool (comp_of s a) = None" "co_port_base (comp_of s a) = None" "co_control (comp_of s a) = Some ctl"
    and ctl: "po_format_copy (port_of s ctl) = Some g" "fp_extradata (fs_private (w_fmt (ps_env s)) g) = None"
    and st: "st \<noteq> MMAL_SUCCESS"
  shows "\<exists>s'. or_else (create_copy_error c a st s) (finish_create c a ctl) (create_error c a) = ret (st, None, s')
    \<and> w_env (ps_env s') = fold lg [f, p, b, m, f, p, b, m, g, ctl, a] (w_env (ps_env s))"
proof -
  obtain s1 where s1: "copy_component_destroy c a s = ret (MMAL_SUCCESS, s1)"
      "w_env (ps_env s1) = fold lg [f, p, b, m] (w_env (ps_env s))" "w_comp (ps_env s1) = w_comp (ps_env s)"
      "w_fmt (ps_env s1) = w_fmt (ps_env s)" "\<forall>q. po_format_copy (port_of s1 q) = po_format_copy (port_of s q)"
    using copy_destroy_trace [OF l h] by blast
  have h1: "half_created a p f b m s1" using h s1 by (simp add: half_created_def)
  obtain s2 where s2: "copy_component_destroy c a s1 = ret (MMAL_SUCCESS, s2)"
      "w_env (ps_env s2) = fold lg [f, p, b, m] (w_env (ps_env s1))" "w_comp (ps_env s2) = w_comp (ps_env s1)"
      "w_fmt (ps_env s2) = w_fmt (ps_env s1)" "\<forall>q. po_format_copy (port_of s2 q) = po_format_copy (port_of s1 q)"
    using copy_destroy_trace [OF l h1] by blast
  have "create_copy_error c a st s = ret (st, s1)" by (simp add: create_copy_error_def s1(1))
  then have "or_else (create_copy_error c a st s) (finish_create c a ctl) (create_error c a) = create_error c a st s1"
    using st by simp
  moreover have "\<exists>s'. create_error c a st s1 = ret (st, None, s')
      \<and> w_env (ps_env s') = lg a (lg ctl (lg g (w_env (ps_env s2))))"
    using C ctl s1(3,4,5) s2(3,4,5)
    by (simp add: create_error_def mmal_component_destroy_internal_def mmal_component_action_deregister_def pf s2(1)
        mmal_port_free_def world_format_free_def mmal_format_free_def free_logged [OF l] free_opt_def on_fmt_def
        mmal_core_deinit_def Let_def)
  ultimately show ?thesis using s1(2) s2(2) by simp
qed

lemma ports_free_loop_cong: "pp_pools c = pp_pools c' \<Longrightarrow> ports_free_loop c ps s = ports_free_loop c' ps s"
proof (induction ps arbitrary: s)
  case (Cons p ps)
  have f: "vcos_free c = vcos_free c'" using Cons.prems by (simp add: vcos_free_def fun_eq_iff)
  have "mmal_port_free c (Some p) s = mmal_port_free c' (Some p) s"
    unfolding mmal_port_free_def world_format_free_def f ..
  moreover have "ports_free_loop c ps = ports_free_loop c' ps" by (rule ext) (rule Cons.IH [OF Cons.prems])
  ultimately show ?case by simp
qed simp

lemma copy_component_destroy_cong:
  assumes "pp_pools c = pp_pools c'"
  shows "copy_component_destroy c = copy_component_destroy c'"
proof -
  have f: "vcos_free c = vcos_free c'" using assms by (simp add: vcos_free_def fun_eq_iff)
  have "free_ports_of c = free_ports_of c'"
    by (simp add: fun_eq_iff free_ports_of_def mmal_ports_free_def f ports_free_loop_cong [OF assms] split: option.split)
  then show ?thesis unfolding copy_component_destroy_def free_opt_def fun_eq_iff f by simp
qed

text \<open>For the example: a heap that lists the freed blocks, and a half created component.\<close>

definition listing_ops :: "addr list port_ops \<Rightarrow> addr list port_ops" where
  "listing_ops base = (let c = base\<lparr>pp_pools := (pp_pools base)\<lparr>op_free := (\<lambda>a w. w\<lparr>w_env := w_env w @ [a]\<rparr>)\<rparr>\<rparr>
     in c\<lparr>pp_comp := (\<lambda>f. copy_component_destroy c)\<rparr>)"

definition half_world :: "addr list pst" where
  "half_world = \<lparr>bufs = (\<lambda>_. zero_header), ps_pool = (\<lambda>_. blank_pool),
     ps_env = \<lparr>w_port = (\<lambda>q. zero_port\<lparr>po_format_copy := Some (q + 1)\<rparr>),
       w_comp = (\<lambda>_. (fresh_component ''copy'')\<lparr>co_control := Some 2, co_module := Some 4, co_pf_destroy := Some COPY,
          co_input_base := Some 5, co_input := [6]\<rparr>),
       w_fmt = \<lparr>fs_format = (\<lambda>_. blank_format),
         fs_private = (\<lambda>_. \<lparr>fp_magic = 0, fp_extradata_size = 0, fp_extradata = None, fp_buffer = []\<rparr>),
         fs_es = (\<lambda>_. []), fs_blocks = (\<lambda>_. None)\<rparr>,
       w_event = (\<lambda>_. EventBytes), w_bytes = (\<lambda>_. 0), w_core_refcount = 1, w_instance_count = 1,
       w_suppliers = [], w_conn = (\<lambda>_. blank_connection), w_env = []\<rparr>\<rparr>"

lemma listing_destroy: "pp_comp (listing_ops base) COPY = copy_component_destroy (listing_ops base)"
  unfolding listing_ops_def Let_def by simp (rule copy_component_destroy_cong, simp)

theorem failed_copy_frees_twice_witness:
  "\<forall>base. \<exists>s'. or_else (create_copy_error (listing_ops base) 1 MMAL_ENOMEM half_world)
      (finish_create (listing_ops base) 1 2) (create_error (listing_ops base) 1) = ret (MMAL_ENOMEM, None, s')
    \<and> w_env (ps_env s') = [7, 6, 5, 4, 7, 6, 5, 4, 3, 2, 1]"
proof
  fix base
  have "frees_by (listing_ops base) (\<lambda>a e. e @ [a])" by (simp add: frees_by_def listing_ops_def Let_def)
  moreover have "pp_comp (listing_ops base) COPY 1 = copy_component_destroy (listing_ops base) 1"
    by (simp add: listing_destroy)
  moreover have "half_created 1 6 7 5 4 half_world" by (simp add: half_created_def half_world_def fresh_component_def zero_component_def Let_def)
  moreover have "co_pf_destroy (comp_of half_world 1) = Some COPY" "co_pf_action (comp_of half_world 1) = None"
      "co_event_pool (comp_of half_world 1) = None" "co_port_base (comp_of half_world 1) = None"
      "co_control (comp_of half_world 1) = Some 2" "po_format_copy (port_of half_world 2) = Some 3"
      "fp_extradata (fs_private (w_fmt (ps_env half_world)) 3) = None" "MMAL_ENOMEM \<noteq> MMAL_SUCCESS"
      "w_env (ps_env half_world) = []"
    by (simp_all add: half_world_def fresh_component_def zero_component_def)
  ultimately show "\<exists>s'. or_else (create_copy_error (listing_ops base) 1 MMAL_ENOMEM half_world)
      (finish_create (listing_ops base) 1 2) (create_error (listing_ops base) 1) = ret (MMAL_ENOMEM, None, s')
    \<and> w_env (ps_env s') = [7, 6, 5, 4, 7, 6, 5, 4, 3, 2, 1]"
    using failed_copy_frees_twice [of "listing_ops base" "\<lambda>a e. e @ [a]" 1 6 7 5 4 half_world 2 3 MMAL_ENOMEM] by simp
qed

section \<open>One round of processing\<close>

text \<open>An input header \<open>i\<close> is first in the queue of port \<open>pin\<close>, an output header \<open>o\<close> first in that of \<open>pout\<close>.\<close>

definition copy_ready :: "addr \<Rightarrow> addr \<Rightarrow> addr \<Rightarrow> addr list \<Rightarrow> addr list \<Rightarrow> 'x pst \<Rightarrow> bool" where
  "copy_ready a pin pout hs ks s \<longleftrightarrow>
     co_input (comp_of s a) = [pin] \<and> co_output (comp_of s a) = [pout] \<and> pin \<noteq> pout
     \<and> co_status (comp_of s a) = MMAL_SUCCESS \<and> \<not> po_needs_configuring (port_of s pout)
     \<and> module_holds pin s hs \<and> module_holds pout s ks \<and> distinct (hs @ ks)"

lemma copy_takes_pair:
  assumes r: "copy_ready a pin pout (i # hs) (k # ks) s" and cmd: "bh_cmd (bufs s i) = 0"
  shows "\<exists>s2. copy_do_processing c a s =
      (if bh_alloc_size (bufs s k) < bh_length (bufs s i)
       then andthen (mmal_event_error_send c (Some a) MMAL_EINVAL (set_status a MMAL_EINVAL s2)) (\<lambda>(_, s3). ret (False, s3))
       else andthen (copy_bytes (bh_data (bufs s k)) (bh_data (bufs s i))
              (unat (bh_offset (bufs s i))) (unat (bh_length (bufs s i))) s2) (\<lambda>s3.
            let s4 = upd_buf k (copy_header (bufs s3 i)) s3; s5 = upd_buf i (\<lambda>B. B\<lparr>bh_length := 0\<rparr>) s4
            in andthen (mmal_port_buffer_header_callback c pin i s5) (\<lambda>s6.
               andthen (mmal_port_buffer_header_callback c pout k s6) (\<lambda>s7. ret (True, s7)))))
    \<and> (\<exists>qi qo. s2 = upd_port pout (\<lambda>P. P\<lparr>po_module_queue := qo\<rparr>) (upd_port pin (\<lambda>P. P\<lparr>po_module_queue := qi\<rparr>) s))
    \<and> module_holds pin s2 hs \<and> module_holds pout s2 ks"
proof -
  have h: "module_holds pin s (i # hs)" "module_holds pout s (k # ks)" "pin \<noteq> pout"
    "co_input (comp_of s a) = [pin]" "co_output (comp_of s a) = [pout]"
    "co_status (comp_of s a) = MMAL_SUCCESS" "\<not> po_needs_configuring (port_of s pout)"
    using r by (simp_all add: copy_ready_def)
  define s1 where "s1 = (\<lambda>qi. upd_port pin (\<lambda>P. P\<lparr>po_module_queue := qi\<rparr>) s)"
  obtain qi where g1: "module_queue_get pin s = ret (Some i, s1 qi)" "module_holds pin (s1 qi) hs"
    using module_get_Cons [OF h(1)] by (auto simp: s1_def)
  have "module_holds pout (s1 qi) (k # ks)" by (rule module_holds_frame [OF h(2)]) (simp_all add: s1_def h(3) h(3) [symmetric])
  from module_get_Cons [OF this] obtain qo where
    g2: "module_queue_get pout (s1 qi) = ret (Some k, upd_port pout (\<lambda>P. P\<lparr>po_module_queue := qo\<rparr>) (s1 qi))"
      "module_holds pout (upd_port pout (\<lambda>P. P\<lparr>po_module_queue := qo\<rparr>) (s1 qi)) ks" by blast
  define s2 where "s2 = upd_port pout (\<lambda>P. P\<lparr>po_module_queue := qo\<rparr>) (s1 qi)"
  have m: "module_holds pin s2 hs" by (rule module_holds_frame [OF g1(2)]) (simp_all add: s2_def h(3) h(3) [symmetric])
  have b: "bufs s2 = bufs s" "bufs (s1 qi) = bufs s" "comp_of (s1 qi) a = comp_of s a"
    by (simp_all add: s2_def s1_def)
  have "copy_do_processing c a s =
      (if bh_alloc_size (bufs s2 k) < bh_length (bufs s2 i)
       then andthen (mmal_event_error_send c (Some a) MMAL_EINVAL (set_status a MMAL_EINVAL s2)) (\<lambda>(_, s3). ret (False, s3))
       else andthen (copy_bytes (bh_data (bufs s2 k)) (bh_data (bufs s2 i))
              (unat (bh_offset (bufs s2 i))) (unat (bh_length (bufs s2 i))) s2) (\<lambda>s3.
            let s4 = upd_buf k (copy_header (bufs s3 i)) s3; s5 = upd_buf i (\<lambda>B. B\<lparr>bh_length := 0\<rparr>) s4
            in andthen (mmal_port_buffer_header_callback c pin i s5) (\<lambda>s6.
               andthen (mmal_port_buffer_header_callback c pout k s6) (\<lambda>s7. ret (True, s7)))))"
    unfolding copy_do_processing_def h(4,5) nth_Cons_0 Let_def
    using h(6,7) cmd by (simp add: g1(1) g2(1) b(2,3) s2_def [symmetric])
  moreover have "\<exists>qi qo. s2 = upd_port pout (\<lambda>P. P\<lparr>po_module_queue := qo\<rparr>) (upd_port pin (\<lambda>P. P\<lparr>po_module_queue := qi\<rparr>) s)"
    unfolding s2_def s1_def by blast
  moreover have "module_holds pout s2 ks" using g2(2) by (simp add: s2_def)
  ultimately show ?thesis using m unfolding b(1) by blast
qed

text \<open>C10. When an input header that is not an event and an output header are waiting, both with a data
  pointer, and the output buffer is big enough, one round of the copy component's action copies exactly
  the input's payload into the output buffer and changes no other byte, gives the output header the
  input's length, flags, timestamps and type with an offset of zero and changes none of its other fields,
  empties the input header, takes both out of their queues, and gives the input header back first and the
  output header second.\<close>

theorem copy_transfers_payload:
  assumes "copy_ready a pin pout (i # hs) (k # ks) s"
    and "bh_cmd (bufs s i) = 0" and "bh_length (bufs s i) \<le> bh_alloc_size (bufs s k)"
    and "bh_data (bufs s i) = Some src" and "bh_data (bufs s k) = Some dst"
  shows "\<exists>s5. copy_do_processing c a s = andthen (mmal_port_buffer_header_callback c pin i s5) (\<lambda>s6.
        andthen (mmal_port_buffer_header_callback c pout k s6) (\<lambda>s7. ret (True, s7)))
    \<and> (let n = unat (bh_length (bufs s i)); off = unat (bh_offset (bufs s i)); B = w_bytes (ps_env s); B' = w_bytes (ps_env s5) in
         (\<forall>j < n. B' (dst + j) = B (src + off + j)) \<and> (\<forall>x. x < dst \<or> dst + n \<le> x \<longrightarrow> B' x = B x))
    \<and> (let I = bufs s i in bufs s5 k = (bufs s k)\<lparr>bh_length := bh_length I, bh_offset := 0,
         bh_flags := bh_flags I, bh_pts := bh_pts I, bh_dts := bh_dts I, bh_type := bh_type I\<rparr>)
    \<and> bufs s5 i = (bufs s i)\<lparr>bh_length := 0\<rparr> \<and> (\<forall>b. b \<noteq> i \<longrightarrow> b \<noteq> k \<longrightarrow> bufs s5 b = bufs s b)
    \<and> module_holds pin s5 hs \<and> module_holds pout s5 ks"
proof -
  have d: "i \<noteq> k" "i \<notin> set hs" "i \<notin> set ks" "k \<notin> set hs" "k \<notin> set ks"
    using assms(1) by (auto simp: copy_ready_def)
  obtain s2 where s2: "copy_do_processing c a s =
      (if bh_alloc_size (bufs s k) < bh_length (bufs s i)
       then andthen (mmal_event_error_send c (Some a) MMAL_EINVAL (set_status a MMAL_EINVAL s2)) (\<lambda>(_, s3). ret (False, s3))
       else andthen (copy_bytes (bh_data (bufs s k)) (bh_data (bufs s i))
              (unat (bh_offset (bufs s i))) (unat (bh_length (bufs s i))) s2) (\<lambda>s3.
            let s4 = upd_buf k (copy_header (bufs s3 i)) s3; s5 = upd_buf i (\<lambda>B. B\<lparr>bh_length := 0\<rparr>) s4
            in andthen (mmal_port_buffer_header_callback c pin i s5) (\<lambda>s6.
               andthen (mmal_port_buffer_header_callback c pout k s6) (\<lambda>s7. ret (True, s7)))))"
      "\<exists>qi qo. s2 = upd_port pout (\<lambda>P. P\<lparr>po_module_queue := qo\<rparr>) (upd_port pin (\<lambda>P. P\<lparr>po_module_queue := qi\<rparr>) s)"
      "module_holds pin s2 hs" "module_holds pout s2 ks"
    using copy_takes_pair [OF assms(1,2), of c] by blast
  define n off where "n = unat (bh_length (bufs s i))" and "off = unat (bh_offset (bufs s i))"
  have b: "bufs s2 = bufs s" "w_bytes (ps_env s2) = w_bytes (ps_env s)" using s2(2) by auto
  obtain s3 where s3: "copy_bytes (Some dst) (Some src) off n s2 = ret s3" "bufs s3 = bufs s"
      "w_port (ps_env s3) = w_port (ps_env s2)"
      "\<forall>x. w_bytes (ps_env s3) x = (if dst \<le> x \<and> x < dst + n then w_bytes (ps_env s) (src + off + (x - dst))
                                  else w_bytes (ps_env s) x)"
  proof (cases "n = 0")
    case True
    then show ?thesis by (intro that [of s2]) (auto simp: copy_bytes_def b)
  qed (simp add: copy_bytes_def b)
  define s5 where "s5 = upd_buf i (\<lambda>B. B\<lparr>bh_length := 0\<rparr>) (upd_buf k (copy_header (bufs s i)) s3)"
  have run: "copy_do_processing c a s = andthen (mmal_port_buffer_header_callback c pin i s5) (\<lambda>s6.
        andthen (mmal_port_buffer_header_callback c pout k s6) (\<lambda>s7. ret (True, s7)))"
    using s2(1) s3(1,2) leD [OF assms(3)] by (simp add: assms(4,5) Let_def s5_def flip: n_def off_def)
  have bytes: "w_bytes (ps_env s5) x = (if dst \<le> x \<and> x < dst + n then w_bytes (ps_env s) (src + off + (x - dst))
      else w_bytes (ps_env s) x)" for x using s3(4) by (simp add: s5_def)
  have hd: "let I = bufs s i in bufs s5 k = (bufs s k)\<lparr>bh_length := bh_length I, bh_offset := 0,
         bh_flags := bh_flags I, bh_pts := bh_pts I, bh_dts := bh_dts I, bh_type := bh_type I\<rparr>"
      "bufs s5 i = (bufs s i)\<lparr>bh_length := 0\<rparr>" "\<forall>b. b \<noteq> i \<longrightarrow> b \<noteq> k \<longrightarrow> bufs s5 b = bufs s b"
    using d s3(2) by (auto simp: s5_def copy_header_def Let_def)
  have q: "module_holds pin s5 hs" "module_holds pout s5 ks"
    by (rule module_holds_frame [OF s2(3)] module_holds_frame [OF s2(4)];
        use d s3(2,3) b in \<open>auto simp: s5_def\<close>)+
  show ?thesis
    by (rule exI [of _ s5]) (use run bytes hd q in \<open>simp add: Let_def flip: n_def off_def\<close>)
qed

text \<open>For the examples: one header waiting on each port, the input holding eight bytes of payload, the
  output having room for \<open>room\<close>; no event header left.\<close>

definition one_waiting :: "addr \<Rightarrow> mmal_queue" where
  "one_waiting b = \<lparr>q_length = 1, q_first = Some b, q_last = SlotNext b, q_sema = 1, q_block = None\<rparr>"

definition copy_example :: "u32 \<Rightarrow> unit pst" where
  "copy_example room = empty_world
     \<lparr>bufs := (\<lambda>b. zero_header\<lparr>bh_data := Some (if b = 300 then 1000 else 2000), bh_alloc_size := room,
         bh_length := (if b = 300 then 8 else 0)\<rparr>),
      ps_pool := (\<lambda>_. blank_pool\<lparr>pl_queue := mmal_queue_create True VCOS_SUCCESS VCOS_SUCCESS\<rparr>),
      ps_env := (ps_env empty_world)\<lparr>
        w_port := (\<lambda>p. zero_port\<lparr>po_module_queue := Some (one_waiting (if p = 10 then 300 else 400)),
          po_component := 1, po_is_enabled := True, po_transit := 1, po_pf_disable := Some COPY\<rparr>),
        w_comp := (\<lambda>_. zero_component\<lparr>co_input := [10], co_output := [20], co_control := Some 5, co_event_pool := Some 50\<rparr>)\<rparr>\<rparr>"

lemma copy_example_ready: "copy_ready 1 10 20 [300] [400] (copy_example room)"
  by (simp add: copy_ready_def copy_example_def module_holds_def queue_list_def one_waiting_def empty_world_def
      zero_header_def zero_port_def zero_component_def nexts_def)

theorem copy_transfers_payload_witness:
  "\<forall>c. \<exists>s5. copy_do_processing c 1 (copy_example 16) = andthen (mmal_port_buffer_header_callback c 10 300 s5) (\<lambda>s6.
        andthen (mmal_port_buffer_header_callback c 20 400 s6) (\<lambda>s7. ret (True, s7)))
    \<and> bh_length (bufs s5 400) = 8 \<and> bh_length (bufs s5 300) = 0"
proof
  fix c :: "unit port_ops"
  have "bh_cmd (bufs (copy_example 16) 300) = 0" "bh_length (bufs (copy_example 16) 300) \<le> bh_alloc_size (bufs (copy_example 16) 400)"
    "bh_data (bufs (copy_example 16) 300) = Some 1000" "bh_data (bufs (copy_example 16) 400) = Some 2000"
    "bh_length (bufs (copy_example 16) 300) = 8"
    by (simp_all add: copy_example_def zero_header_def)
  with copy_transfers_payload [OF copy_example_ready this(1-4), of c]
  show "\<exists>s5. copy_do_processing c 1 (copy_example 16) = andthen (mmal_port_buffer_header_callback c 10 300 s5) (\<lambda>s6.
        andthen (mmal_port_buffer_header_callback c 20 400 s6) (\<lambda>s7. ret (True, s7)))
    \<and> bh_length (bufs s5 400) = 8 \<and> bh_length (bufs s5 300) = 0"
    by (elim exE conjE) (auto simp: Let_def)
qed

section \<open>A pair that does not fit\<close>

lemma empty_event_pool:
  assumes "co_control (comp_of s a) = Some ctl" "po_component (port_of s ctl) = a" "co_event_pool (comp_of s a) = Some pool"
    and "queue_repr (pl_queue (ps_pool s pool), s) []"
  shows "mmal_event_error_send c (Some a) st s = ret (MMAL_ENOSPC, s)"
proof -
  have "upd_pool pool (\<lambda>P. P\<lparr>pl_queue := pl_queue (ps_pool s pool)\<rparr>) s = s" by (simp add: upd_pool_def fun_upd_idem)
  then have "pool_queue_get pool s = Some (None, s)" by (simp add: pool_queue_get_def queue_get_empty [OF assms(4)])
  then show ?thesis using assms(1-3) by (simp add: mmal_event_error_send_def mmal_port_event_get_def)
qed

lemma stuck_disable:
  assumes "po_pf_disable (port_of s p) = Some COPY" "pp_disable c COPY = copy_port_disable c"
    and "po_is_enabled (port_of s p)" "po_connected (port_of s p) = None" "po_pool_for_connection (port_of s p) = None"
    and "module_holds p s []" "po_queue_first (port_of s p) = None" "po_transit_sema (port_of s p) = 0"
  shows "mmal_port_disable c (Some p) s = Some Blocks"
proof -
  let ?s1 = "upd_port p (\<lambda>P. P\<lparr>po_is_enabled := False\<rparr>) s"
  have "module_holds p ?s1 []" by (rule module_holds_frame [OF assms(6)]) simp_all
  from module_get_Nil [OF this] have "copy_port_disable c p ?s1 = ret (MMAL_SUCCESS, ?s1)"
    by (simp add: copy_port_disable_def copy_port_flush_def flush_module_loop.simps)
  then show ?thesis
    using assms by (simp add: mmal_port_disable_def mmal_port_disable_internal_def Let_def flush_loop.simps
        port_queue_reset_def in_transit_wait_def)
qed

text \<open>C32. When the output buffer is too small for the input's payload, both headers are lost: the round
  reports an error (or fails to, here because no event header is left), keeps neither header in a queue
  and gives neither back. They stay counted as in transit, so disabling either port of the component, and
  with it destroying the component, blocks for ever.\<close>

theorem copy_small_output_loses_headers:
  assumes "copy_ready a pin pout [i] [k] s" and "bh_cmd (bufs s i) = 0"
    and small: "bh_alloc_size (bufs s k) < bh_length (bufs s i)"
    and ctl: "co_control (comp_of s a) = Some ctl" "po_component (port_of s ctl) = a" "co_event_pool (comp_of s a) = Some pool"
      "queue_repr (pl_queue (ps_pool s pool), s) []"
    and ports: "\<forall>p\<in>{pin, pout}. po_pf_disable (port_of s p) = Some COPY \<and> po_is_enabled (port_of s p)
      \<and> po_connected (port_of s p) = None \<and> po_pool_for_connection (port_of s p) = None
      \<and> po_queue_first (port_of s p) = None \<and> po_transit_sema (port_of s p) = 0"
    and ops: "pp_disable c COPY = copy_port_disable c"
  shows "\<exists>s'. copy_do_processing c a s = ret (False, s') \<and> co_status (comp_of s' a) = MMAL_EINVAL
    \<and> module_holds pin s' [] \<and> module_holds pout s' []
    \<and> mmal_port_disable c (Some pin) s' = Some Blocks \<and> mmal_port_disable c (Some pout) s' = Some Blocks"
proof -
  obtain s2 qi qo where run: "copy_do_processing c a s =
      andthen (mmal_event_error_send c (Some a) MMAL_EINVAL (set_status a MMAL_EINVAL s2)) (\<lambda>(_, s3). ret (False, s3))"
    and s2: "s2 = upd_port pout (\<lambda>P. P\<lparr>po_module_queue := qo\<rparr>) (upd_port pin (\<lambda>P. P\<lparr>po_module_queue := qi\<rparr>) s)"
      "module_holds pin s2 []" "module_holds pout s2 []"
    using copy_takes_pair [OF assms(1,2), of c] small by auto
  define s3 where "s3 = set_status a MMAL_EINVAL s2"
  have "queue_repr (pl_queue (ps_pool s3 pool), s3) []"
    using queue_repr_mem_cong [OF ctl(4), of s3] by (simp add: s3_def s2(1) set_status_def)
  then have e: "mmal_event_error_send c (Some a) MMAL_EINVAL s3 = ret (MMAL_ENOSPC, s3)"
    by (intro empty_event_pool) (use ctl(1-3) in \<open>auto simp: s3_def s2(1) set_status_def\<close>)
  have m: "module_holds pin s3 []" "module_holds pout s3 []"
    by (rule module_holds_frame [OF s2(2)] module_holds_frame [OF s2(3)]; simp add: s3_def set_status_def)+
  have "mmal_port_disable c (Some p) s3 = Some Blocks" if "p \<in> {pin, pout}" for p
    using that m ports ops by (intro stuck_disable) (auto simp: s3_def s2(1) set_status_def)
  moreover have "copy_do_processing c a s = ret (False, s3)" by (simp add: run e flip: s3_def)
  moreover have "co_status (comp_of s3 a) = MMAL_EINVAL" by (simp add: s3_def set_status_def)
  ultimately show ?thesis using m by blast
qed

theorem copy_small_output_loses_headers_witness:
  "\<forall>base. \<exists>s'. copy_do_processing (with_copy base) 1 (copy_example 4) = ret (False, s')
    \<and> mmal_port_disable (with_copy base) (Some 10) s' = Some Blocks"
proof
  fix base :: "unit port_ops"
  have "pp_disable (with_copy base) COPY = copy_port_disable (with_copy base)" by (rule with_copy_flush(2))
  then show "\<exists>s'. copy_do_processing (with_copy base) 1 (copy_example 4) = ret (False, s')
    \<and> mmal_port_disable (with_copy base) (Some 10) s' = Some Blocks"
    using copy_small_output_loses_headers [OF copy_example_ready, of 4 5 50 "with_copy base"]
    by (auto simp: copy_example_def zero_header_def zero_port_def zero_component_def blank_pool_def
        mmal_queue_create_def queue_list_def)
qed

end
