(* ===== verification/Vcos_Mem.thy ===== *)
theory Vcos_Mem
  imports Mmal_Prelude
begin

text \<open>
  The VCOS allocator over the system's \<open>malloc\<close> (\<^verbatim>\<open>vcos/generic/vcos_mem_from_malloc.c\<close>): a header in
  front of every aligned block remembers the raw pointer. The locale \<open>sys_heap\<close> is what the C
  library documents of \<open>malloc\<close> and \<open>free\<close>; the locale \<open>block_allocator\<close> is what the users of
  \<open>vcos_malloc\<close> rely on, and \<open>vcos_generic_mem_alloc\<close> provides it over any \<open>sys_heap\<close>.
\<close>

section \<open>The system heap\<close>

locale sys_heap =
  fixes smalloc :: "nat \<Rightarrow> 'h \<Rightarrow> ptr \<times> 'h"
    and sfree :: "addr \<Rightarrow> 'h \<Rightarrow> 'h"
    and blocks :: "'h \<Rightarrow> addr \<Rightarrow> nat option"
    and hinv :: "'h \<Rightarrow> bool"
  assumes smalloc_Some: "hinv h \<Longrightarrow> smalloc n h = (Some p, h') \<Longrightarrow>
      hinv h' \<and> blocks h p = None \<and> blocks h' = (blocks h)(p \<mapsto> n)"
    and smalloc_disjoint: "hinv h \<Longrightarrow> smalloc n h = (Some p, h') \<Longrightarrow> blocks h q = Some k \<Longrightarrow>
      p + n \<le> q \<or> q + k \<le> p"
    and smalloc_None: "hinv h \<Longrightarrow> smalloc n h = (None, h') \<Longrightarrow> hinv h' \<and> blocks h' = blocks h"
    and sfree: "hinv h \<Longrightarrow> blocks h p = Some k \<Longrightarrow>
      hinv (sfree p h) \<and> blocks (sfree p h) = (blocks h)(p := None)"
    and block_bound: "hinv h \<Longrightarrow> blocks h p = Some k \<Longrightarrow> p + k < 2 ^ 32"

text \<open>A system heap to evaluate on: blocks are cut from the front of what is left.\<close>

record bump_heap =
  bump_brk :: addr
  bump_limit :: nat
  bump_blocks :: "(addr \<times> nat) list"

definition bump_malloc :: "nat \<Rightarrow> bump_heap \<Rightarrow> ptr \<times> bump_heap" where
  "bump_malloc n h =
     (if n = 0 \<or> bump_limit h < bump_brk h + n then (None, h)
      else (Some (bump_brk h),
            h\<lparr>bump_brk := bump_brk h + n, bump_blocks := (bump_brk h, n) # bump_blocks h\<rparr>))"

definition bump_free :: "addr \<Rightarrow> bump_heap \<Rightarrow> bump_heap" where
  "bump_free p h = h\<lparr>bump_blocks := filter (\<lambda>(q, _). q \<noteq> p) (bump_blocks h)\<rparr>"

definition bump_map :: "bump_heap \<Rightarrow> addr \<Rightarrow> nat option" where
  "bump_map h = map_of (bump_blocks h)"

definition bump_inv :: "bump_heap \<Rightarrow> bool" where
  "bump_inv h \<longleftrightarrow> bump_brk h \<le> bump_limit h \<and> bump_limit h < 2 ^ 32 \<and>
     (\<forall>(q, k) \<in> set (bump_blocks h). 0 < k \<and> q + k \<le> bump_brk h)"

lemma map_of_filter_neq: "map_of (filter (\<lambda>(q, _). q \<noteq> p) xs) = (map_of xs)(p := None)"
  by (induction xs) auto

lemma bump_map_below: "bump_inv h \<Longrightarrow> bump_map h q = Some k \<Longrightarrow> 0 < k \<and> q + k \<le> bump_brk h"
  by (auto simp: bump_inv_def bump_map_def dest: map_of_SomeD)

interpretation bump: sys_heap bump_malloc bump_free bump_map bump_inv
proof unfold_locales
  fix h h' :: bump_heap and n p q k
  show "bump_inv h' \<and> bump_map h p = None \<and> bump_map h' = (bump_map h)(p \<mapsto> n)"
    if inv: "bump_inv h" and m: "bump_malloc n h = (Some p, h')"
  proof -
    have "bump_map h p = None"
      using bump_map_below [OF inv, of p] m
      by (cases "bump_map h p") (auto simp: bump_malloc_def split: if_splits)
    moreover have "bump_inv h'"
      using inv m by (fastforce simp: bump_malloc_def bump_inv_def split: if_splits)
    ultimately show ?thesis
      using m by (auto simp: bump_malloc_def bump_map_def split: if_splits)
  qed
  show "p + n \<le> q \<or> q + k \<le> p"
    if "bump_inv h" "bump_malloc n h = (Some p, h')" "bump_map h q = Some k"
    using bump_map_below [OF that(1,3)] that(2) by (auto simp: bump_malloc_def split: if_splits)
  show "bump_inv h' \<and> bump_map h' = bump_map h"
    if "bump_inv h" "bump_malloc n h = (None, h')"
    using that by (auto simp: bump_malloc_def split: if_splits)
  show "bump_inv (bump_free p h) \<and> bump_map (bump_free p h) = (bump_map h)(p := None)"
    if "bump_inv h" "bump_map h p = Some k"
    using that(1) by (auto simp: bump_free_def bump_map_def bump_inv_def map_of_filter_neq)
  show "p + k < 2 ^ 32" if "bump_inv h" "bump_map h p = Some k"
    using bump_map_below [OF that] that(1) by (simp add: bump_inv_def)
qed

section \<open>The allocator\<close>

record malloc_header =
  mh_guardword :: u32
  mh_size :: u32
  mh_ptr :: addr

definition GUARDWORDHEAP :: u32 where "GUARDWORDHEAP = 0xa55a5aa5"

text \<open>\<open>sizeof(MALLOC_HEADER_T)\<close> and \<open>MIN_ALIGN\<close> on the 32-bit target.\<close>

definition SIZEOF_MALLOC_HEADER :: nat where "SIZEOF_MALLOC_HEADER = 16"

record 'h vmem =
  vm_hdr :: "addr \<Rightarrow> malloc_header"   \<comment> \<open>headers, by their address\<close>
  vm_sys :: 'h

definition align_up :: "addr \<Rightarrow> nat \<Rightarrow> addr" where
  "align_up a n = (a + (n - 1)) div n * n"

text \<open>\<open>required_size\<close> is computed modulo \<open>2 ^ 32\<close>. \<open>align\<close> is a power of two.\<close>

definition vcos_generic_mem_alloc_aligned ::
  "(nat \<Rightarrow> 'h \<Rightarrow> ptr \<times> 'h) \<Rightarrow> u32 \<Rightarrow> u32 \<Rightarrow> 'h vmem \<Rightarrow> ptr \<times> 'h vmem" where
  "vcos_generic_mem_alloc_aligned sm sz align m =
     (let local_align = (if align = 0 then 1 else align);
          required_size = sz + local_align + of_nat SIZEOF_MALLOC_HEADER;
          (p, sys') = sm (unat required_size) (vm_sys m)
      in case p of
           None \<Rightarrow> (None, m\<lparr>vm_sys := sys'\<rparr>)
         | Some raw \<Rightarrow>
             let ret = align_up (raw + SIZEOF_MALLOC_HEADER) (unat local_align);
                 h = \<lparr>mh_guardword = GUARDWORDHEAP, mh_size = sz, mh_ptr = raw\<rparr>
             in (Some ret, m\<lparr>vm_hdr := (vm_hdr m)(ret - SIZEOF_MALLOC_HEADER := h), vm_sys := sys'\<rparr>))"

definition vcos_generic_mem_alloc ::
  "(nat \<Rightarrow> 'h \<Rightarrow> ptr \<times> 'h) \<Rightarrow> u32 \<Rightarrow> 'h vmem \<Rightarrow> ptr \<times> 'h vmem" where
  "vcos_generic_mem_alloc sm sz m =
     vcos_generic_mem_alloc_aligned sm sz (of_nat SIZEOF_MALLOC_HEADER) m"

definition vcos_generic_mem_free :: "(addr \<Rightarrow> 'h \<Rightarrow> 'h) \<Rightarrow> ptr \<Rightarrow> 'h vmem \<Rightarrow> 'h vmem" where
  "vcos_generic_mem_free sf p m =
     (case p of
        None \<Rightarrow> m
      | Some a \<Rightarrow> m\<lparr>vm_sys := sf (mh_ptr (vm_hdr m (a - SIZEOF_MALLOC_HEADER))) (vm_sys m)\<rparr>)"

text \<open>The address \<open>vcos_generic_mem_alloc\<close> hands out for a raw block.\<close>

definition user_ptr :: "addr \<Rightarrow> addr" where
  "user_ptr raw = align_up (raw + SIZEOF_MALLOC_HEADER) SIZEOF_MALLOC_HEADER"

lemma user_ptr_bounds: "raw + 16 \<le> user_ptr raw" "user_ptr raw < raw + 32" "16 dvd user_ptr raw"
proof -
  have e: "user_ptr raw = (raw + 31) div 16 * 16"
    by (simp add: user_ptr_def align_up_def SIZEOF_MALLOC_HEADER_def)
  show "raw + 16 \<le> user_ptr raw" "user_ptr raw < raw + 32"
    unfolding e by presburger+
  show "16 dvd user_ptr raw" unfolding e by simp
qed

lemma alloc_unfold:
  "vcos_generic_mem_alloc sm sz m =
     (case sm (unat (sz + 32)) (vm_sys m) of
        (None, sys') \<Rightarrow> (None, m\<lparr>vm_sys := sys'\<rparr>)
      | (Some raw, sys') \<Rightarrow>
          (Some (user_ptr raw),
           m\<lparr>vm_hdr := (vm_hdr m)(user_ptr raw - 16 :=
               \<lparr>mh_guardword = GUARDWORDHEAP, mh_size = sz, mh_ptr = raw\<rparr>), vm_sys := sys'\<rparr>))"
  by (simp add: vcos_generic_mem_alloc_def vcos_generic_mem_alloc_aligned_def user_ptr_def
      SIZEOF_MALLOC_HEADER_def Let_def add.assoc split: prod.splits option.splits)

definition ok_size :: "u32 \<Rightarrow> bool" where
  "ok_size n \<longleftrightarrow> unat n + 32 < 2 ^ 32"

lemma unat_ok_size: "ok_size n \<Longrightarrow> unat (n + 32) = unat n + 32"
  by (simp add: ok_size_def unat_word_ariths)

section \<open>The allocator contract\<close>

locale block_allocator =
  fixes alloc :: "u32 \<Rightarrow> 'e \<Rightarrow> ptr \<times> 'e"
    and release :: "addr \<Rightarrow> 'e \<Rightarrow> 'e"
    and live :: "'e \<Rightarrow> addr set"
    and einv :: "'e \<Rightarrow> bool"
    and fits :: "u32 \<Rightarrow> bool"
  assumes alloc_Some: "einv e \<Longrightarrow> fits n \<Longrightarrow> alloc n e = (Some p, e') \<Longrightarrow>
      einv e' \<and> p \<notin> live e \<and> live e' = insert p (live e)"
    and alloc_None: "einv e \<Longrightarrow> fits n \<Longrightarrow> alloc n e = (None, e') \<Longrightarrow> einv e' \<and> live e' = live e"
    and release: "einv e \<Longrightarrow> p \<in> live e \<Longrightarrow> einv (release p e) \<and> live (release p e) = live e - {p}"
begin

lemmas allocator_laws = alloc_Some alloc_None release

lemma release_all:
  "einv e \<Longrightarrow> set ps \<subseteq> live e \<Longrightarrow> distinct ps \<Longrightarrow>
   einv (fold release ps e) \<and> live (fold release ps e) = live e - set ps"
proof (induction ps arbitrary: e)
  case Nil
  then show ?case by simp
next
  case (Cons p ps)
  have r: "einv (release p e) \<and> live (release p e) = live e - {p}"
    using Cons.prems by (intro release) auto
  with Cons.prems have "set ps \<subseteq> live (release p e)" by auto
  with r Cons.IH [of "release p e"] Cons.prems show ?case by auto
qed

end

text \<open>Every live raw block has an intact header in front of its user pointer.\<close>

context sys_heap
begin

definition vm_inv :: "'h vmem \<Rightarrow> bool" where
  "vm_inv m \<longleftrightarrow> hinv (vm_sys m) \<and> (\<forall>raw k. blocks (vm_sys m) raw = Some k \<longrightarrow>
     k = unat (mh_size (vm_hdr m (user_ptr raw - 16))) + 32 \<and> mh_ptr (vm_hdr m (user_ptr raw - 16)) = raw)
     \<and> (\<forall>p k q j. blocks (vm_sys m) p = Some k \<longrightarrow> blocks (vm_sys m) q = Some j \<longrightarrow> p \<noteq> q \<longrightarrow>
          p + k \<le> q \<or> q + j \<le> p)"

definition vm_live :: "'h vmem \<Rightarrow> addr set" where
  "vm_live m = user_ptr ` {p. blocks (vm_sys m) p \<noteq> None}"

lemma user_ptr_disjoint:
  assumes "p + k \<le> q \<or> q + j \<le> p" and "32 \<le> k" and "32 \<le> j"
  shows "user_ptr p \<noteq> user_ptr q" and "user_ptr p - 16 \<noteq> user_ptr q - 16"
  using user_ptr_bounds [of p] user_ptr_bounds [of q] assms by linarith+

lemma vm_alloc_Some:
  assumes inv: "vm_inv m" and n: "ok_size n"
    and a: "vcos_generic_mem_alloc smalloc n m = (Some r, m')"
  shows "vm_inv m' \<and> r \<notin> vm_live m \<and> vm_live m' = insert r (vm_live m)"
proof -
  from a obtain raw sys' where s: "smalloc (unat n + 32) (vm_sys m) = (Some raw, sys')"
    and r: "r = user_ptr raw"
    and m': "m' = m\<lparr>vm_hdr := (vm_hdr m)(user_ptr raw - 16 :=
               \<lparr>mh_guardword = GUARDWORDHEAP, mh_size = n, mh_ptr = raw\<rparr>), vm_sys := sys'\<rparr>"
    unfolding alloc_unfold unat_ok_size [OF n] by (auto split: prod.splits option.splits)
  have h: "hinv (vm_sys m)" using inv by (simp add: vm_inv_def)
  note new = smalloc_Some [OF h s] and dis = smalloc_disjoint [OF h s]
  have old: "k = unat (mh_size (vm_hdr m (user_ptr q - 16))) + 32 \<and> mh_ptr (vm_hdr m (user_ptr q - 16)) = q"
    if "blocks (vm_sys m) q = Some k" for q k
    using inv that by (simp add: vm_inv_def)
  have sep: "user_ptr raw \<noteq> user_ptr q \<and> user_ptr raw - 16 \<noteq> user_ptr q - 16"
    if "blocks (vm_sys m) q = Some k" for q k
    using user_ptr_disjoint [OF dis [OF that]] old [OF that] by simp
  have pair: "p + k \<le> q \<or> q + j \<le> p"
    if "blocks (vm_sys m) p = Some k" "blocks (vm_sys m) q = Some j" "p \<noteq> q" for p k q j
    using inv that by (simp add: vm_inv_def)
  have hdr: "vm_hdr m' (user_ptr q - 16) = vm_hdr m (user_ptr q - 16)"
    if "blocks (vm_sys m) q = Some k" for q k
    using sep [OF that] by (simp add: m')
  have bl: "blocks (vm_sys m') = (blocks (vm_sys m))(raw \<mapsto> unat n + 32)"
    using new by (simp add: m')
  have "k = unat (mh_size (vm_hdr m' (user_ptr q - 16))) + 32 \<and> mh_ptr (vm_hdr m' (user_ptr q - 16)) = q"
    if "blocks (vm_sys m') q = Some k" for q k
  proof (cases "q = raw")
    case True
    with that show ?thesis by (simp add: bl) (simp add: m')
  next
    case False
    with that have "blocks (vm_sys m) q = Some k" by (simp add: bl)
    then show ?thesis using hdr old by metis
  qed
  moreover have "p + k \<le> q \<or> q + j \<le> p"
    if pq: "blocks (vm_sys m') p = Some k" "blocks (vm_sys m') q = Some j" "p \<noteq> q" for p k q j
  proof -
    consider "p = raw" "blocks (vm_sys m) q = Some j" | "q = raw" "blocks (vm_sys m) p = Some k"
      | "blocks (vm_sys m) p = Some k" "blocks (vm_sys m) q = Some j"
      using pq by (auto simp: bl split: if_splits)
    then show ?thesis
    proof cases
      case 1
      then show ?thesis using dis pq(1) by (auto simp: bl)
    next
      case 2
      then show ?thesis using dis pq(2) by (auto simp: bl)
    next
      case 3
      then show ?thesis using pair pq(3) by blast
    qed
  qed
  ultimately have "vm_inv m'" using new unfolding vm_inv_def by (simp add: m')
  moreover have "r \<notin> vm_live m" using sep by (auto simp: vm_live_def r)
  moreover have "vm_live m' = insert r (vm_live m)"
    using new by (auto simp: vm_live_def m' r)
  ultimately show ?thesis by blast
qed

lemma vm_alloc_None:
  assumes inv: "vm_inv m" and n: "ok_size n"
    and a: "vcos_generic_mem_alloc smalloc n m = (None, m')"
  shows "vm_inv m' \<and> vm_live m' = vm_live m"
proof -
  from a obtain sys' where s: "smalloc (unat n + 32) (vm_sys m) = (None, sys')"
    and m': "m' = m\<lparr>vm_sys := sys'\<rparr>"
    unfolding alloc_unfold unat_ok_size [OF n] by (auto split: prod.splits option.splits)
  have "hinv (vm_sys m)" using inv by (simp add: vm_inv_def)
  from smalloc_None [OF this s] inv show ?thesis
    by (simp add: vm_inv_def vm_live_def m')
qed

lemma vm_free:
  assumes inv: "vm_inv m" and r: "r \<in> vm_live m"
  shows "vm_inv (vcos_generic_mem_free sfree (Some r) m)
    \<and> vm_live (vcos_generic_mem_free sfree (Some r) m) = vm_live m - {r}"
proof -
  from r obtain raw k where raw: "blocks (vm_sys m) raw = Some k" "r = user_ptr raw"
    by (auto simp: vm_live_def)
  then have p: "mh_ptr (vm_hdr m (r - 16)) = raw" and "hinv (vm_sys m)"
    using inv by (auto simp: vm_inv_def)
  note f = sfree [OF this(2) raw(1)]
  have m': "vcos_generic_mem_free sfree (Some r) m = m\<lparr>vm_sys := sfree raw (vm_sys m)\<rparr>"
    by (simp add: vcos_generic_mem_free_def SIZEOF_MALLOC_HEADER_def p)
  have inj: "q = raw" if "blocks (vm_sys m) q = Some j" "user_ptr q = user_ptr raw" for q j
  proof (rule ccontr)
    assume "q \<noteq> raw"
    then have "q + j \<le> raw \<or> raw + k \<le> q" "32 \<le> j" "32 \<le> k"
      using inv that(1) raw(1) unfolding vm_inv_def by (blast, (metis le_add2)+)
    then show False using user_ptr_disjoint(1) that(2) by blast
  qed
  have "vm_inv (m\<lparr>vm_sys := sfree raw (vm_sys m)\<rparr>)"
    using inv f unfolding vm_inv_def by simp
  moreover have "vm_live (m\<lparr>vm_sys := sfree raw (vm_sys m)\<rparr>) = vm_live m - {r}"
    using f inj by (auto simp: vm_live_def raw(2))
  ultimately show ?thesis unfolding m' by blast
qed

end

text \<open>\<open>vcos_malloc\<close> and \<open>vcos_free\<close> over every system heap provide the allocator contract.\<close>

sublocale sys_heap \<subseteq> vcos: block_allocator "vcos_generic_mem_alloc smalloc"
    "\<lambda>p. vcos_generic_mem_free sfree (Some p)" vm_live vm_inv ok_size
  using vm_alloc_Some vm_alloc_None vm_free by unfold_locales blast+

section \<open>Allocators whose blocks have extents\<close>

text \<open>\<open>region e p\<close> is the size of the live block at \<open>p\<close>: what the users of pointer
  arithmetic inside a block rely on.\<close>

locale region_allocator = block_allocator +
  fixes region :: "'a \<Rightarrow> addr \<Rightarrow> nat"
  assumes region_alloc: "einv e \<Longrightarrow> fits n \<Longrightarrow> alloc n e = (Some p, e') \<Longrightarrow> region e' p = unat n"
    and region_alloc_other: "einv e \<Longrightarrow> fits n \<Longrightarrow> alloc n e = (r, e') \<Longrightarrow> q \<in> live e \<Longrightarrow>
      region e' q = region e q"
    and region_release: "region (release p e) q = region e q"
    and region_disjoint: "einv e \<Longrightarrow> p \<in> live e \<Longrightarrow> q \<in> live e \<Longrightarrow> p \<noteq> q \<Longrightarrow>
      p + region e p \<le> q \<or> q + region e q \<le> p"
    and region_bound: "einv e \<Longrightarrow> p \<in> live e \<Longrightarrow> p + region e p < 2 ^ 32"
begin

lemma fresh_disjoint:
  assumes "einv e" and "fits n" and "alloc n e = (Some p, e')" and "q \<in> live e"
  shows "p + unat n \<le> q \<or> q + region e q \<le> p"
proof -
  have a: "einv e' \<and> p \<notin> live e \<and> live e' = insert p (live e)" by (rule alloc_Some [OF assms(1-3)])
  then have "p + region e' p \<le> q \<or> q + region e' q \<le> p"
    using assms(4) by (intro region_disjoint) auto
  then show ?thesis using region_alloc [OF assms(1-3)] region_alloc_other [OF assms(1-4)] by simp
qed

end

context sys_heap
begin

definition vm_region :: "'h vmem \<Rightarrow> addr \<Rightarrow> nat" where
  "vm_region m r = unat (mh_size (vm_hdr m (r - 16)))"

lemma vm_live_block:
  assumes "vm_inv m" and "r \<in> vm_live m"
  obtains raw where "blocks (vm_sys m) raw = Some (vm_region m r + 32)" "r = user_ptr raw"
  using assms by (fastforce simp: vm_live_def vm_region_def vm_inv_def)

lemma vm_region_alloc_other:
  assumes inv: "vm_inv m" and n: "ok_size n" and a: "vcos_generic_mem_alloc smalloc n m = (r, m')"
    and q: "q \<in> vm_live m"
  shows "vm_region m' q = vm_region m q"
proof -
  obtain raw where raw: "blocks (vm_sys m) raw = Some (vm_region m q + 32)" "q = user_ptr raw"
    by (rule vm_live_block [OF inv q])
  have h: "hinv (vm_sys m)" using inv by (simp add: vm_inv_def)
  show ?thesis
  proof (cases "fst (smalloc (unat n + 32) (vm_sys m))")
    case None
    with a show ?thesis
      unfolding alloc_unfold unat_ok_size [OF n] by (auto simp: vm_region_def split: prod.splits)
  next
    case (Some new)
    then obtain sys' where s: "smalloc (unat n + 32) (vm_sys m) = (Some new, sys')"
      by (cases "smalloc (unat n + 32) (vm_sys m)") auto
    have "user_ptr new - 16 \<noteq> user_ptr raw - 16"
      using user_ptr_disjoint(2) [OF smalloc_disjoint [OF h s raw(1)]] by simp
    with a s raw(2) show ?thesis
      unfolding alloc_unfold unat_ok_size [OF n] by (auto simp: vm_region_def)
  qed
qed

lemma vm_region_alloc:
  assumes "ok_size n" and "vcos_generic_mem_alloc smalloc n m = (Some p, m')"
  shows "vm_region m' p = unat n"
  using assms(2) unfolding alloc_unfold unat_ok_size [OF assms(1)]
  by (auto simp: vm_region_def split: prod.splits option.splits)

lemma vm_region_free: "vm_region (vcos_generic_mem_free sfree p m) q = vm_region m q"
  by (simp add: vm_region_def vcos_generic_mem_free_def split: option.split)

lemma vm_region_disjoint:
  assumes inv: "vm_inv m" and p: "p \<in> vm_live m" and q: "q \<in> vm_live m" and ne: "p \<noteq> q"
  shows "p + vm_region m p \<le> q \<or> q + vm_region m q \<le> p"
proof -
  obtain a where a: "blocks (vm_sys m) a = Some (vm_region m p + 32)" "p = user_ptr a"
    by (rule vm_live_block [OF inv p])
  obtain b where b: "blocks (vm_sys m) b = Some (vm_region m q + 32)" "q = user_ptr b"
    by (rule vm_live_block [OF inv q])
  have "a + (vm_region m p + 32) \<le> b \<or> b + (vm_region m q + 32) \<le> a"
    using inv a b ne unfolding vm_inv_def by metis
  then show ?thesis using user_ptr_bounds [of a] user_ptr_bounds [of b] a(2) b(2) by linarith
qed

lemma vm_region_bound:
  assumes inv: "vm_inv m" and p: "p \<in> vm_live m"
  shows "p + vm_region m p < 2 ^ 32"
proof -
  obtain a where a: "blocks (vm_sys m) a = Some (vm_region m p + 32)" "p = user_ptr a"
    by (rule vm_live_block [OF inv p])
  have "hinv (vm_sys m)" using inv by (simp add: vm_inv_def)
  from block_bound [OF this a(1)] user_ptr_bounds(2) [of a] a(2) show ?thesis by linarith
qed

end

sublocale sys_heap \<subseteq> vcos: region_allocator "vcos_generic_mem_alloc smalloc"
    "\<lambda>p. vcos_generic_mem_free sfree (Some p)" vm_live vm_inv ok_size vm_region
  using vm_region_alloc vm_region_alloc_other vm_region_free vm_region_disjoint vm_region_bound
  by unfold_locales blast+

text \<open>Evaluation on the concrete heap.\<close>

lemma vcos_bump_alloc:
  "vcos_generic_mem_alloc bump_malloc sz m =
    (let n = unat (sz + 32); h = vm_sys m; raw = bump_brk h in
     if n = 0 \<or> bump_limit h < raw + n then (None, m)
     else (Some (user_ptr raw),
           m\<lparr>vm_hdr := (vm_hdr m)(user_ptr raw - 16 :=
               \<lparr>mh_guardword = GUARDWORDHEAP, mh_size = sz, mh_ptr = raw\<rparr>),
             vm_sys := h\<lparr>bump_brk := raw + n, bump_blocks := (raw, n) # bump_blocks h\<rparr>\<rparr>))"
  by (auto simp: alloc_unfold bump_malloc_def Let_def)

lemma user_ptr_value: "user_ptr raw = (raw + 31) div 16 * 16"
  by (simp add: user_ptr_def align_up_def SIZEOF_MALLOC_HEADER_def)

context sys_heap
begin

lemma vm_live_aligned: "p \<in> vm_live m \<Longrightarrow> 16 dvd p"
  using user_ptr_bounds(3) by (auto simp: vm_live_def)

lemma vcos_alloc_facts:
  assumes inv: "vm_inv m" and n: "ok_size n"
    and a: "vcos_generic_mem_alloc smalloc n m = (Some p, m')"
  shows "vm_inv m' \<and> p \<notin> vm_live m \<and> vm_live m' = insert p (vm_live m) \<and> 16 dvd p
    \<and> p + unat n < 2 ^ 32
    \<and> (\<forall>q \<in> vm_live m. vm_region m' q = vm_region m q
         \<and> (p + unat n \<le> q \<or> q + vm_region m q \<le> p))
    \<and> vm_inv (vcos_generic_mem_free sfree (Some p) m')
    \<and> vm_live (vcos_generic_mem_free sfree (Some p) m') = vm_live m"
proof -
  note v = vm_alloc_Some [OF inv n a]
  have p: "p \<in> vm_live m'" using v by blast
  have b: "p + unat n < 2 ^ 32" using vcos.region_bound [of m' p] v vm_region_alloc [OF n a] by auto
  have "vm_live (vcos_generic_mem_free sfree (Some p) m') = vm_live m" using vm_free [of m' p] v by auto
  moreover have "vm_inv (vcos_generic_mem_free sfree (Some p) m')" using vm_free [of m' p] v by blast
  ultimately show ?thesis
    using v b vm_live_aligned [OF p] vcos.region_alloc_other [OF inv n a] vcos.fresh_disjoint [OF inv n a]
    by blast
qed

end

text \<open>The sizes \<open>ok_size\<close> excludes are those for which \<open>required_size\<close> wraps round: then the system is
  asked for fewer than 32 bytes, and a block that small is handed out for a request of almost 4 GB.\<close>

lemma vcos_malloc_size_wraps:
  assumes "\<not> ok_size n" and "sm (unat n + 32 - 2 ^ 32) (vm_sys m) = (Some raw, sys')"
  shows "\<exists>m'. vcos_generic_mem_alloc sm n m = (Some (user_ptr raw), m') \<and> vm_sys m' = sys'"
    and "unat n + 32 - 2 ^ 32 < 32"
proof -
  have lt: "unat n < 2 ^ 32" using unsigned_less [of n] by simp
  have "unat (n + 32) = (unat n + 32) mod 2 ^ 32" by (simp add: unat_word_ariths)
  also have "\<dots> = unat n + 32 - 2 ^ 32" using assms(1) lt by (simp add: ok_size_def le_mod_geq)
  finally have "unat (n + 32) = unat n + 32 - 2 ^ 32" .
  with assms(2) show "\<exists>m'. vcos_generic_mem_alloc sm n m = (Some (user_ptr raw), m') \<and> vm_sys m' = sys'"
    by (simp add: alloc_unfold)
  show "unat n + 32 - 2 ^ 32 < 32" using lt by simp
qed

lemma vcos_malloc_undersized:
  "\<exists>m'. vcos_generic_mem_alloc bump_malloc 0xFFFFFFF0
     \<lparr>vm_hdr = (\<lambda>_. undefined), vm_sys = \<lparr>bump_brk = 4096, bump_limit = 65536, bump_blocks = []\<rparr>\<rparr>
     = (Some 4112, m') \<and> bump_blocks (vm_sys m') = [(4096, 16)]"
  by (simp add: alloc_unfold bump_malloc_def user_ptr_value)

section \<open>Properties\<close>

text \<open>C19. \<open>vcos_malloc\<close> over every system heap, for a size \<open>n\<close> with \<open>n + 32 < 2 ^ 32\<close> (\<open>ok_size\<close>; for a
  larger one the size computation of the source wraps round, \<open>vcos_malloc_size_wraps\<close>): a successful
  allocation returns a fresh block, 16-byte aligned, inside the 32-bit address space and disjoint from
  every live block; the headers of the other blocks are not overwritten; and \<open>vcos_free\<close> of the block
  restores the live set.\<close>

theorem vcos_malloc_disjoint:
  assumes "sys_heap sm sf blocks hinv" and "sys_heap.vm_inv blocks hinv m" and "ok_size n"
    and "vcos_generic_mem_alloc sm n m = (Some p, m')"
  shows "sys_heap.vm_inv blocks hinv m' \<and> p \<notin> sys_heap.vm_live blocks m
    \<and> sys_heap.vm_live blocks m' = insert p (sys_heap.vm_live blocks m) \<and> 16 dvd p
    \<and> p + unat n < 2 ^ 32
    \<and> (\<forall>q \<in> sys_heap.vm_live blocks m. sys_heap.vm_region m' q = sys_heap.vm_region m q
         \<and> (p + unat n \<le> q \<or> q + sys_heap.vm_region m q \<le> p))
    \<and> sys_heap.vm_inv blocks hinv (vcos_generic_mem_free sf (Some p) m')
    \<and> sys_heap.vm_live blocks (vcos_generic_mem_free sf (Some p) m') = sys_heap.vm_live blocks m"
  by (rule sys_heap.vcos_alloc_facts [OF assms])

theorem vcos_malloc_disjoint_witness:
  "\<exists>m'. vcos_generic_mem_alloc bump_malloc 100
     \<lparr>vm_hdr = (\<lambda>_. undefined), vm_sys = \<lparr>bump_brk = 4100, bump_limit = 65536, bump_blocks = []\<rparr>\<rparr>
       = (Some 4128, m') \<and> bump.vm_live m' = {4128}
     \<and> bump.vm_live (vcos_generic_mem_free bump_free (Some 4128) m') = {}"
proof -
  let ?m = "\<lparr>vm_hdr = (\<lambda>_. undefined), vm_sys = \<lparr>bump_brk = 4100, bump_limit = 65536, bump_blocks = []\<rparr>\<rparr>"
  have inv: "bump.vm_inv ?m" "bump.vm_live ?m = {}"
    by (simp_all add: bump.vm_inv_def bump.vm_live_def bump_inv_def bump_map_def)
  have n: "ok_size 100" by (simp add: ok_size_def)
  have "\<exists>m'. vcos_generic_mem_alloc bump_malloc 100 ?m = (Some 4128, m')"
    by (simp add: alloc_unfold bump_malloc_def user_ptr_def align_up_def SIZEOF_MALLOC_HEADER_def)
  then obtain m' where a: "vcos_generic_mem_alloc bump_malloc 100 ?m = (Some 4128, m')" by blast
  from vcos_malloc_disjoint [OF bump.sys_heap_axioms inv(1) n a] a inv(2) show ?thesis by auto
qed

end
