(* ===== verification/Mmal_Pool_Facts.thy ===== *)
theory Mmal_Pool_Facts
  imports Mmal_Pool Vcos_Mem
begin

text \<open>
  What the pool operations do, over any allocator that satisfies the \<open>block_allocator\<close> contract
  (locale \<open>pool_env\<close>): the initialised headers, their order in the queue, and which blocks are
  live after creation and destruction. The VCOS allocator with the pool's default payload
  allocator is the instance.
\<close>

section \<open>Payload sequences\<close>

fun somes :: "'a option list \<Rightarrow> 'a list" where
  "somes [] = []"
| "somes (None # xs) = somes xs"
| "somes (Some x # xs) = x # somes xs"

lemma somes_Cons: "somes (p # ps) = (case p of None \<Rightarrow> somes ps | Some a \<Rightarrow> a # somes ps)"
  by (cases p) auto

lemma empty_range [simp]: "(\<lambda>j::nat. if i \<le> j \<and> j < i then f j else g j) = g"
  by (rule ext) auto

lemma set_somes: "set (somes ps) = {a. Some a \<in> set ps}"
  by (induction ps rule: somes.induct) auto

definition payload_part :: "mmal_header \<Rightarrow> nat option \<times> ptr \<times> ptr \<times> u32" where
  "payload_part b = (bh_pf_payload_free b, bh_payload b, bh_payload_context b, bh_payload_size b)"

lemma payload_part_next [simp]: "payload_part (b\<lparr>bh_next := p\<rparr>) = payload_part b"
  by (simp add: payload_part_def)

lemma free_payload_part: "payload_part b = payload_part b' \<Longrightarrow> free_payload c b e = free_payload c b' e"
  by (auto simp: payload_part_def free_payload_def split: option.split)

section \<open>The environment of a pool\<close>

locale pool_env = malloc: block_allocator "op_malloc c" "op_free c" live einv fits
  for c :: "'e pool_ops" and live einv fits +
  assumes payload: "block_allocator (op_alloc c i x) (op_pfree c j x) live einv fits"
    and abi: "abi_ok (op_abi c)"
begin

lemmas payload_Some = block_allocator.alloc_Some [OF payload]
lemmas payload_None = block_allocator.alloc_None [OF payload]
lemmas payload_free = block_allocator.release [OF payload]

text \<open>The outcome of the initialisation loop, \<open>ps\<close> being the payloads it obtained.\<close>

definition init_result ::
  "addr \<Rightarrow> nat \<Rightarrow> nat \<Rightarrow> addr \<Rightarrow> 'e pstate \<Rightarrow> mmal_status \<Rightarrow> 'e pstate \<Rightarrow> ptr list \<Rightarrow> bool" where
  "init_result pool n i h s st s' ps \<longleftrightarrow>
     (let P = ps_pool s pool; hs = unat (pl_header_size P) in
      length ps \<le> n \<and> st = (if length ps = n then MMAL_SUCCESS else MMAL_ENOMEM)
      \<and> einv (ps_env s') \<and> live (ps_env s') = live (ps_env s) \<union> set (somes ps)
      \<and> distinct (somes ps) \<and> set (somes ps) \<inter> live (ps_env s) = {}
      \<and> (\<forall>j < length ps. bufs s' (h + j * hs) = fill_header pool P (ps ! j) zero_header)
      \<and> (\<forall>a. (\<forall>j < n. a \<noteq> h + j * hs) \<longrightarrow> bufs s' a = bufs s a)
      \<and> (\<forall>q. q \<noteq> pool \<longrightarrow> ps_pool s' q = ps_pool s q)
      \<and> ps_pool s' pool = P\<lparr>pl_header := (\<lambda>j. if i \<le> j \<and> j < i + length ps then h + (j - i) * hs
                                              else pl_header P j),
             pl_headers_num := (if ps = [] then pl_headers_num P else i + length ps)\<rparr>
      \<and> (\<forall>p \<in> set ps. (p = None) = (pl_payload_size P = 0)))"

lemma init_resultD:
  assumes "init_result pool n i h s st s' ps"
  shows "length ps \<le> n" and "st = (if length ps = n then MMAL_SUCCESS else MMAL_ENOMEM)"
    and "einv (ps_env s')" and "live (ps_env s') = live (ps_env s) \<union> set (somes ps)"
    and "distinct (somes ps)" and "set (somes ps) \<inter> live (ps_env s) = {}"
    and "\<And>j. j < length ps \<Longrightarrow> bufs s' (h + j * unat (pl_header_size (ps_pool s pool)))
           = fill_header pool (ps_pool s pool) (ps ! j) zero_header"
    and "\<And>a. (\<forall>j < n. a \<noteq> h + j * unat (pl_header_size (ps_pool s pool))) \<Longrightarrow> bufs s' a = bufs s a"
    and "\<And>q. q \<noteq> pool \<Longrightarrow> ps_pool s' q = ps_pool s q"
    and "ps_pool s' pool = (ps_pool s pool)\<lparr>pl_header := (\<lambda>j. if i \<le> j \<and> j < i + length ps
             then h + (j - i) * unat (pl_header_size (ps_pool s pool)) else pl_header (ps_pool s pool) j),
           pl_headers_num := (if ps = [] then pl_headers_num (ps_pool s pool) else i + length ps)\<rparr>"
    and "\<And>p. p \<in> set ps \<Longrightarrow> (p = None) = (pl_payload_size (ps_pool s pool) = 0)"
  using assms unfolding init_result_def Let_def by blast+

definition good_pool :: "mmal_pool \<Rightarrow> bool" where
  "good_pool P \<longleftrightarrow> mmal_buffer_header_size (op_abi c) \<le> pl_header_size P
     \<and> 0 < unat (pl_header_size P) \<and> pl_allocator_alloc P \<noteq> None \<and> fits (pl_payload_size P)"

text \<open>One round of the loop: the allocation, then the header that is filled in.\<close>

definition one_header :: "addr \<Rightarrow> nat \<Rightarrow> addr \<Rightarrow> ptr \<Rightarrow> 'e \<Rightarrow> 'e pstate \<Rightarrow> 'e pstate" where
  "one_header pool i h p e' s =
     upd_pool pool (\<lambda>P. P\<lparr>pl_header := (pl_header P)(i := h), pl_headers_num := i + 1\<rparr>)
       (upd_buf h (\<lambda>_. fill_header pool (ps_pool s pool) p zero_header) (s\<lparr>ps_env := e'\<rparr>))"

lemma one_header_simps [simp]:
  "ps_pool (one_header pool i h p e' s) q = (if q = pool then
     (ps_pool s pool)\<lparr>pl_header := (pl_header (ps_pool s pool))(i := h), pl_headers_num := i + 1\<rparr>
     else ps_pool s q)"
  "ps_env (one_header pool i h p e' s) = e'"
  "bufs (one_header pool i h p e' s) a =
     (if a = h then fill_header pool (ps_pool s pool) p zero_header else bufs s a)"
  by (simp_all add: one_header_def)

lemma upd_buf_env: "(upd_buf h f s)\<lparr>ps_env := e\<rparr> = upd_buf h f (s\<lparr>ps_env := e\<rparr>)"
  by (simp add: upd_buf_def)

lemma loop_step:
  assumes good: "good_pool (ps_pool s pool)" and inv: "einv (ps_env s)"
  shows "(\<exists>p e'. init_headers_loop c pool True (Suc n) i h s =
        init_headers_loop c pool True n (i + 1) (h + unat (pl_header_size (ps_pool s pool)))
          (one_header pool i h p e' s)
      \<and> einv e' \<and> live e' = live (ps_env s) \<union> set (somes [p]) \<and> set (somes [p]) \<inter> live (ps_env s) = {}
      \<and> (p = None) = (pl_payload_size (ps_pool s pool) = 0))
    \<or> (\<exists>e'. init_headers_loop c pool True (Suc n) i h s =
          Some (MMAL_ENOMEM, upd_buf h (\<lambda>_. zero_header) (s\<lparr>ps_env := e'\<rparr>))
        \<and> einv e' \<and> live e' = live (ps_env s))"
proof -
  let ?P = "ps_pool s pool"
  have init: "mmal_buffer_header_initialise (op_abi c) h (pl_header_size ?P) s
      = (Some h, upd_buf h (\<lambda>_. zero_header) s)"
    using good by (simp add: mmal_buffer_header_initialise_def good_pool_def not_less)
  obtain a where a: "pl_allocator_alloc ?P = Some a" using good by (auto simp: good_pool_def)
  show ?thesis
  proof (cases "pl_payload_size ?P = 0")
    case True
    have z: "free_payload c zero_header e = e" for e
      by (simp add: free_payload_def zero_header_def)
    have "init_headers_loop c pool True (Suc n) i h s =
        init_headers_loop c pool True n (i + 1) (h + unat (pl_header_size ?P))
          (one_header pool i h None (ps_env s) s)"
      by (simp add: init True z one_header_def upd_buf_env o_def Let_def)
    with True inv show ?thesis by (intro disjI1 exI [of _ None] exI [of _ "ps_env s"]) simp
  next
    case False
    obtain pp e' where al: "op_alloc c a (pl_allocator_context ?P) (pl_payload_size ?P) (ps_env s) = (pp, e')"
      by fastforce
    have f: "fits (pl_payload_size ?P)" using good by (simp add: good_pool_def)
    show ?thesis
    proof (cases pp)
      case None
      with payload_None [OF inv f] al False a show ?thesis
        by (intro disjI2 exI [of _ e']) (simp add: init upd_buf_env)
    next
      case (Some q)
      with payload_Some [OF inv f] al False a show ?thesis
        by (intro disjI1 exI [of _ pp] exI [of _ e'])
          (simp add: init upd_buf_env one_header_def o_def Let_def)
    qed
  qed
qed

lemma init_result_Cons:
  assumes one: "einv e'" "live e' = live (ps_env s) \<union> set (somes [p])"
      "set (somes [p]) \<inter> live (ps_env s) = {}" "(p = None) = (pl_payload_size (ps_pool s pool) = 0)"
    and hs: "0 < unat (pl_header_size (ps_pool s pool))"
    and rest: "init_result pool n (i + 1) (h + unat (pl_header_size (ps_pool s pool)))
      (one_header pool i h p e' s) st s' ps"
  shows "init_result pool (Suc n) i h s st s' (p # ps)"
proof -
  let ?P = "ps_pool s pool"
  let ?hs = "unat (pl_header_size ?P)"
  let ?s1 = "one_header pool i h p e' s"
  note r = init_resultD [OF rest]
  have P1: "pl_header_size (ps_pool ?s1 pool) = pl_header_size ?P"
    "pl_payload_size (ps_pool ?s1 pool) = pl_payload_size ?P" by simp_all
  have fill: "fill_header pool (ps_pool ?s1 pool) q = fill_header pool ?P q" for q
    by (rule ext) (simp add: fill_header_def)
  have "bufs s' h = fill_header pool ?P p zero_header"
  proof -
    have "\<forall>j<n. h \<noteq> h + ?hs + j * ?hs" using hs by simp
    then have "bufs s' h = bufs ?s1 h" using r(8) [of h] P1 by simp
    then show ?thesis by simp
  qed
  then have b: "bufs s' (h + j * ?hs) = fill_header pool ?P ((p # ps) ! j) zero_header"
    if "j < length (p # ps)" for j
    using r(7) that unfolding fill P1
    by (cases j) (simp_all add: algebra_simps)
  have other: "bufs s' a = bufs s a" if "\<forall>j < Suc n. a \<noteq> h + j * ?hs" for a
  proof -
    have "a \<noteq> h" using that by (metis add.right_neutral mult_0 zero_less_Suc)
    moreover have "\<forall>j<n. a \<noteq> h + ?hs + j * ?hs"
      using that by (metis Suc_less_eq add.assoc mult_Suc)
    ultimately show ?thesis using r(8) [of a] P1 by simp
  qed
  have pool: "ps_pool s' pool = ?P\<lparr>pl_header := (\<lambda>j. if i \<le> j \<and> j < i + length (p # ps)
      then h + (j - i) * ?hs else pl_header ?P j), pl_headers_num := i + length (p # ps)\<rparr>"
  proof -
    have "(\<lambda>j. if i + 1 \<le> j \<and> j < i + 1 + length ps then h + ?hs + (j - (i + 1)) * ?hs
        else ((pl_header ?P)(i := h)) j)
      = (\<lambda>j. if i \<le> j \<and> j < i + length (p # ps) then h + (j - i) * ?hs else pl_header ?P j)"
    proof
      fix j
      show "(if i + 1 \<le> j \<and> j < i + 1 + length ps then h + ?hs + (j - (i + 1)) * ?hs
          else ((pl_header ?P)(i := h)) j)
        = (if i \<le> j \<and> j < i + length (p # ps) then h + (j - i) * ?hs else pl_header ?P j)"
      proof (cases "i < j")
        case True
        then obtain k where "j = Suc (i + k)" using less_iff_Suc_add by blast
        then show ?thesis by simp
      qed auto
    qed
    then show ?thesis using r(10) by (simp add: P1 cong: if_cong)
  qed
  have lv: "live (ps_env s') = live (ps_env s) \<union> set (somes (p # ps))"
    "distinct (somes (p # ps))" "set (somes (p # ps)) \<inter> live (ps_env s) = {}"
    using r(4,5,6) one by (cases p; auto)+
  show ?thesis
    unfolding init_result_def Let_def
    using r(1,2,3) lv b other pool r(9) r(11) one(4) P1 by (auto simp: P1)
qed

lemma init_loop:
  "good_pool (ps_pool s pool) \<Longrightarrow> einv (ps_env s) \<Longrightarrow>
   \<exists>st s' ps. init_headers_loop c pool True n i h s = Some (st, s') \<and> init_result pool n i h s st s' ps"
proof (induction n arbitrary: i h s)
  case 0
  then have "init_result pool 0 i h s MMAL_SUCCESS s []"
    unfolding init_result_def Let_def by simp
  then show ?case by auto
next
  case (Suc n)
  let ?hs = "unat (pl_header_size (ps_pool s pool))"
  have hs: "0 < ?hs" using Suc.prems by (simp add: good_pool_def)
  from loop_step [OF Suc.prems, of n i h] show ?case
  proof (elim disjE exE conjE)
    fix p e'
    assume eq: "init_headers_loop c pool True (Suc n) i h s =
        init_headers_loop c pool True n (i + 1) (h + ?hs) (one_header pool i h p e' s)"
      and one: "einv e'" "live e' = live (ps_env s) \<union> set (somes [p])"
        "set (somes [p]) \<inter> live (ps_env s) = {}" "(p = None) = (pl_payload_size (ps_pool s pool) = 0)"
    have "good_pool (ps_pool (one_header pool i h p e' s) pool)" "einv (ps_env (one_header pool i h p e' s))"
      using Suc.prems one(1) by (simp_all add: good_pool_def)
    from Suc.IH [OF this, of "i + 1" "h + ?hs"] obtain st s' ps
      where "init_headers_loop c pool True n (i + 1) (h + ?hs) (one_header pool i h p e' s) = Some (st, s')"
        and "init_result pool n (i + 1) (h + ?hs) (one_header pool i h p e' s) st s' ps" by blast
    with init_result_Cons [OF one hs] show ?thesis unfolding eq by blast
  next
    fix e'
    assume eq: "init_headers_loop c pool True (Suc n) i h s =
        Some (MMAL_ENOMEM, upd_buf h (\<lambda>_. zero_header) (s\<lparr>ps_env := e'\<rparr>))"
      and e': "einv e'" "live e' = live (ps_env s)"
    have "init_result pool (Suc n) i h s MMAL_ENOMEM (upd_buf h (\<lambda>_. zero_header) (s\<lparr>ps_env := e'\<rparr>)) []"
      using e' unfolding init_result_def Let_def by auto
    then show ?thesis unfolding eq by blast
  qed
qed

text \<open>Freeing the payloads of the first \<open>n\<close> headers.\<close>

lemma free_payloads_frame [simp]:
  "bufs (free_payloads c pool n i s) = bufs s" "ps_pool (free_payloads c pool n i s) = ps_pool s"
  by (induction n arbitrary: i s) simp_all

lemma free_one:
  assumes "einv e" and "pl_allocator_free P = Some f"
    and "payload_part b = payload_part (fill_header pool P p zero_header)"
    and "pl_payload_size P = 0 \<Longrightarrow> p = None" and "set (somes [p]) \<subseteq> live e"
  shows "einv (free_payload c b e) \<and> live (free_payload c b e) = live e - set (somes [p])"
proof -
  have "free_payload c b e = free_payload c (fill_header pool P p zero_header) e"
    by (rule free_payload_part [OF assms(3)])
  then show ?thesis
    using assms payload_free [OF assms(1)]
    by (cases p) (auto simp: free_payload_def fill_header_def)
qed

lemma free_payloads_live:
  assumes "einv (ps_env s)" and "pl_allocator_free P = Some f"
    and "\<And>j. j < length ps \<Longrightarrow> payload_part (bufs s (pl_header (ps_pool s pool) (i + j)))
           = payload_part (fill_header pool P (ps ! j) zero_header)"
    and "\<And>p. pl_payload_size P = 0 \<Longrightarrow> p \<in> set ps \<Longrightarrow> p = None"
    and "distinct (somes ps)" and "set (somes ps) \<subseteq> live (ps_env s)"
  shows "einv (ps_env (free_payloads c pool (length ps) i s))
    \<and> live (ps_env (free_payloads c pool (length ps) i s)) = live (ps_env s) - set (somes ps)"
  using assms
proof (induction ps arbitrary: i s)
  case Nil
  then show ?case by simp
next
  case (Cons p ps)
  let ?b = "bufs s (pl_header (ps_pool s pool) i)"
  let ?s1 = "s\<lparr>ps_env := free_payload c ?b (ps_env s)\<rparr>"
  have "set (somes [p]) \<subseteq> live (ps_env s)" using Cons.prems(6) by (cases p) auto
  then have one: "einv (ps_env ?s1) \<and> live (ps_env ?s1) = live (ps_env s) - set (somes [p])"
    using free_one [OF Cons.prems(1,2), of ?b pool p] Cons.prems(3) [of 0] Cons.prems(4) by simp
  have sub: "set (somes ps) \<subseteq> live (ps_env ?s1)"
    using one Cons.prems(5,6) by (cases p) auto
  have "einv (ps_env (free_payloads c pool (length ps) (i + 1) ?s1))
      \<and> live (ps_env (free_payloads c pool (length ps) (i + 1) ?s1)) = live (ps_env ?s1) - set (somes ps)"
  proof (rule Cons.IH)
    show "payload_part (bufs ?s1 (pl_header (ps_pool ?s1 pool) (i + 1 + j)))
        = payload_part (fill_header pool P (ps ! j) zero_header)" if "j < length ps" for j
      using Cons.prems(3) [of "Suc j"] that by simp
    show "distinct (somes ps)" using Cons.prems(5) by (cases p) auto
  qed (use one sub Cons.prems in auto)
  then show ?case using one by (cases p) auto
qed

end

section \<open>The pool's queue\<close>

definition pool_queue_repr :: "addr \<Rightarrow> 'e pstate \<Rightarrow> addr list \<Rightarrow> bool" where
  "pool_queue_repr p s xs \<longleftrightarrow> queue_repr (pl_queue (ps_pool s p), s) xs"

lemma same_but_next_pstate:
  fixes m m' :: "'e pstate"
  assumes "same_but_next m m'" shows "ps_pool m' = ps_pool m" and "ps_env m' = ps_env m"
  using assms by (cases m; cases m'; simp add: same_but_next_def)+

lemma pool_queue_put_frame:
  "ps_env (pool_queue_put p h s) = ps_env s"
  "q \<noteq> p \<Longrightarrow> ps_pool (pool_queue_put p h s) q = ps_pool s q"
  "\<exists>qu. ps_pool (pool_queue_put p h s) p = (ps_pool s p)\<lparr>pl_queue := qu\<rparr>"
  "(bufs (pool_queue_put p h s) a)\<lparr>bh_next := None\<rparr> = (bufs s a)\<lparr>bh_next := None\<rparr>"
proof -
  obtain qu s' where e: "mmal_queue_put (pl_queue (ps_pool s p), s) (Some h) = (qu, s')" by fastforce
  have f: "same_but_next s s'"
    using queue_put_frame [of s "pl_queue (ps_pool s p)" "Some h"] by (simp add: e)
  note g = same_but_next_pstate [OF f]
  show "ps_env (pool_queue_put p h s) = ps_env s"
    "q \<noteq> p \<Longrightarrow> ps_pool (pool_queue_put p h s) q = ps_pool s q"
    "\<exists>qu. ps_pool (pool_queue_put p h s) p = (ps_pool s p)\<lparr>pl_queue := qu\<rparr>"
    "(bufs (pool_queue_put p h s) a)\<lparr>bh_next := None\<rparr> = (bufs s a)\<lparr>bh_next := None\<rparr>"
    using f g by (auto simp: pool_queue_put_def e same_but_next_def)
qed

text \<open>The heap block of a pool's queue.\<close>

definition queue_block :: "mmal_pool \<Rightarrow> ptr" where
  "queue_block P = (case pl_queue P of None \<Rightarrow> None | Some q \<Rightarrow> q_block q)"

lemma queue_block_update [simp]:
  "queue_block (P\<lparr>pl_header := h, pl_headers_num := k\<rparr>) = queue_block P"
  by (simp add: queue_block_def)

lemma write_slot_block: "q_block (fst (write_slot sl p (q, m))) = q_block q"
  by (cases sl) simp_all

lemma q_block_length: "q_block (q\<lparr>q_length := n\<rparr>) = q_block q"
  by simp

lemma queue_put_block:
  assumes "mmal_queue_put (Some q, m) (Some h) = (qu, m')"
  shows "\<exists>q'. qu = Some q' \<and> q_block q' = q_block q"
proof -
  obtain q2 m2 where w: "write_slot (q_last q) (Some h) (q\<lparr>q_length := q_length q + 1\<rparr>, m) = (q2, m2)"
    by fastforce
  then have "q_block q2 = q_block q" using write_slot_block by (metis fst_conv q_block_length)
  then show ?thesis using assms w by (auto simp: Let_def)
qed

lemma pool_queue_put_block [simp]: "queue_block (ps_pool (pool_queue_put p h s) p') = queue_block (ps_pool s p')"
proof (cases "pl_queue (ps_pool s p)")
  case None
  then show ?thesis by (simp add: pool_queue_put_def queue_block_def)
next
  case (Some q)
  obtain qu s' where e: "mmal_queue_put (Some q, s) (Some h) = (qu, s')" by fastforce
  obtain q' where q': "qu = Some q'" "q_block q' = q_block q" using queue_put_block [OF e] by blast
  have "same_but_next s s'" using queue_put_frame [of s "Some q" "Some h"] unfolding e by simp
  then have "ps_pool s' = ps_pool s" by (rule same_but_next_pstate)
  then show ?thesis using Some q' by (simp add: pool_queue_put_def queue_block_def e del: mmal_queue_put.simps)
qed

lemma put_headers_block [simp]: "queue_block (ps_pool (put_headers p n i s) p') = queue_block (ps_pool s p')"
  by (induction n arbitrary: i s) simp_all

lemma pool_queue_put_repr [repr_intros]:
  assumes "pool_queue_repr p s xs" and "h \<notin> set xs"
  shows "pool_queue_repr p (pool_queue_put p h s) (xs @ [h])"
proof -
  obtain qu s' where e: "mmal_queue_put (pl_queue (ps_pool s p), s) (Some h) = (qu, s')" by fastforce
  have "queue_repr (qu, s') (xs @ [h])"
    using queue_repr_put [of "(pl_queue (ps_pool s p), s)" xs h] assms
    by (simp add: pool_queue_repr_def e)
  then have "queue_repr (qu, upd_pool p (\<lambda>P. P\<lparr>pl_queue := qu\<rparr>) s') (xs @ [h])"
    by (rule queue_repr_mem_cong) simp
  then show ?thesis by (simp add: pool_queue_repr_def pool_queue_put_def e)
qed

lemma pool_queue_get_repr:
  assumes "pool_queue_repr p s (h # xs)"
  shows "\<exists>s'. pool_queue_get p s = Some (Some h, s') \<and> pool_queue_repr p s' xs
    \<and> bufs s' = bufs s \<and> ps_env s' = ps_env s"
proof -
  obtain qu where e: "mmal_queue_get (pl_queue (ps_pool s p), s) = Some (Some h, (Some qu, s))"
    and r: "queue_repr (Some qu, s) xs"
    using mq.get_Cons [of "(pl_queue (ps_pool s p), s)" h xs] assms
      queue_get_Cons [of "(pl_queue (ps_pool s p), s)" h xs]
    by (auto simp: pool_queue_repr_def)
  have "queue_repr (Some qu, upd_pool p (\<lambda>P. P\<lparr>pl_queue := Some qu\<rparr>) s) xs"
    by (rule queue_repr_mem_cong [OF r]) simp
  then show ?thesis by (simp add: pool_queue_repr_def pool_queue_get_def e)
qed

lemma pool_queue_get_Nil:
  "pool_queue_repr p s [] \<Longrightarrow> \<exists>s'. pool_queue_get p s = Some (None, s') \<and> pool_queue_repr p s' []
    \<and> bufs s' = bufs s \<and> ps_env s' = ps_env s"
  using mq.get_Nil [of "(pl_queue (ps_pool s p), s)"]
  by (auto simp: pool_queue_repr_def pool_queue_get_def intro: queue_repr_mem_cong)

lemma put_headers_frame:
  "ps_env (put_headers p n i s) = ps_env s
   \<and> (\<forall>q. q \<noteq> p \<longrightarrow> ps_pool (put_headers p n i s) q = ps_pool s q)
   \<and> (\<exists>qu. ps_pool (put_headers p n i s) p = (ps_pool s p)\<lparr>pl_queue := qu\<rparr>)
   \<and> (\<forall>a. (bufs (put_headers p n i s) a)\<lparr>bh_next := None\<rparr> = (bufs s a)\<lparr>bh_next := None\<rparr>)"
proof (induction n arbitrary: i s)
  case 0
  have "\<exists>qu. ps_pool s p = (ps_pool s p)\<lparr>pl_queue := qu\<rparr>"
    by (rule exI [of _ "pl_queue (ps_pool s p)"]) simp
  then show ?case by simp
next
  case (Suc n)
  let ?s1 = "pool_queue_put p (pl_header (ps_pool s p) i) s"
  note f = pool_queue_put_frame [where p = p and h = "pl_header (ps_pool s p) i" and s = s]
  obtain qu where "ps_pool ?s1 p = (ps_pool s p)\<lparr>pl_queue := qu\<rparr>" using f(3) by blast
  with Suc.IH [where i = "i + 1" and s = ?s1] f(1,2,4) show ?case by auto
qed

lemma put_headers_repr:
  "pool_queue_repr p s xs \<Longrightarrow>
   distinct (xs @ map (pl_header (ps_pool s p)) [i..<i + n]) \<Longrightarrow>
   pool_queue_repr p (put_headers p n i s) (xs @ map (pl_header (ps_pool s p)) [i..<i + n])"
proof (induction n arbitrary: i s xs)
  case 0
  then show ?case by simp
next
  case (Suc n)
  let ?h = "pl_header (ps_pool s p) i"
  let ?s1 = "pool_queue_put p ?h s"
  have up: "[i..<i + Suc n] = i # [Suc i..<Suc i + n]" by (subst upt_conv_Cons) simp_all
  have "?h \<notin> set xs" using Suc.prems(2) unfolding up by auto
  then have r: "pool_queue_repr p ?s1 (xs @ [?h])"
    by (rule pool_queue_put_repr [OF Suc.prems(1)])
  have hd: "pl_header (ps_pool ?s1 p) = pl_header (ps_pool s p)"
    using pool_queue_put_frame(3) [of p ?h s] by auto
  have "pool_queue_repr p (put_headers p n (Suc i) ?s1)
      ((xs @ [?h]) @ map (pl_header (ps_pool ?s1 p)) [Suc i..<Suc i + n])"
    using Suc.IH [OF r, of "Suc i"] Suc.prems(2) unfolding up hd by simp
  then show ?case unfolding hd up by simp
qed

end
