(* ===== verification/Mmal_Pool_Create.thy ===== *)
theory Mmal_Pool_Create
  imports Mmal_Pool_Facts
begin

text \<open>
  Creation and destruction of a pool over any allocator with the \<open>block_allocator\<close> contract:
  what a created pool holds, and that destroying it, or failing to create it, gives back every block.
\<close>

text \<open>\<open>owned_pool\<close>: pool \<open>pool\<close> owns its block, the block of its queue, the array \<open>arr\<close> and the
  payloads \<open>ps\<close> of its headers, beside the blocks \<open>L\<close> of others.\<close>

definition owned_pool :: "('e \<Rightarrow> addr set) \<Rightarrow> addr set \<Rightarrow> addr \<Rightarrow> addr \<Rightarrow> ptr list \<Rightarrow> 'e pstate \<Rightarrow> bool" where
  "owned_pool live L pool arr ps s \<longleftrightarrow>
     (let P = ps_pool s pool; qb = set (somes [queue_block P]) in
      live (ps_env s) = L \<union> qb \<union> {pool, arr} \<union> set (somes ps) \<and> pool \<noteq> arr
      \<and> qb \<inter> L = {} \<and> pool \<notin> L \<union> qb \<and> arr \<notin> L \<union> qb
      \<and> distinct (somes ps) \<and> set (somes ps) \<inter> (L \<union> qb \<union> {pool, arr}) = {}
      \<and> pl_base P = Some arr \<and> pl_headers_num P = length ps \<and> pl_allocator_free P \<noteq> None
      \<and> (\<forall>p \<in> set ps. (p = None) = (pl_payload_size P = 0))
      \<and> (\<forall>j < length ps. payload_part (bufs s (pl_header P j))
            = payload_part (fill_header pool P (ps ! j) zero_header)))"

lemma owned_poolD:
  assumes "owned_pool live L pool arr ps s"
  shows "live (ps_env s) = L \<union> set (somes [queue_block (ps_pool s pool)]) \<union> {pool, arr} \<union> set (somes ps)"
    and "pool \<noteq> arr" and "pool \<notin> L \<union> set (somes [queue_block (ps_pool s pool)])"
    and "arr \<notin> L \<union> set (somes [queue_block (ps_pool s pool)])" and "distinct (somes ps)"
    and "set (somes ps) \<inter> (L \<union> set (somes [queue_block (ps_pool s pool)]) \<union> {pool, arr}) = {}" and "pl_base (ps_pool s pool) = Some arr"
    and "pl_headers_num (ps_pool s pool) = length ps" and "pl_allocator_free (ps_pool s pool) \<noteq> None"
    and "\<And>p. p \<in> set ps \<Longrightarrow> (p = None) = (pl_payload_size (ps_pool s pool) = 0)"
    and "\<And>j. j < length ps \<Longrightarrow> payload_part (bufs s (pl_header (ps_pool s pool) j))
          = payload_part (fill_header pool (ps_pool s pool) (ps ! j) zero_header)"
    and "set (somes [queue_block (ps_pool s pool)]) \<inter> L = {}"
  using assms unfolding owned_pool_def Let_def by blast+

definition n_headers_queued :: "addr \<Rightarrow> 'e pstate \<Rightarrow> bool" where
  "n_headers_queued pool s \<longleftrightarrow> pool_queue_repr pool s
     (map (pl_header (ps_pool s pool)) [0..<pl_headers_num (ps_pool s pool)])"

definition fresh_header :: "addr \<Rightarrow> mmal_pool \<Rightarrow> ptr \<Rightarrow> mmal_header" where
  "fresh_header pool P p = (fill_header pool P p zero_header)\<lparr>bh_next := None\<rparr>"

lemma payload_part_cong:
  "b\<lparr>bh_next := None\<rparr> = b'\<lparr>bh_next := None\<rparr> \<Longrightarrow> payload_part b = payload_part b'"
  by (metis payload_part_next)

lemma fill_header_queue [simp]:
  "fill_header pool (P\<lparr>pl_queue := q\<rparr>) = fill_header pool P"
  "fill_header pool (P\<lparr>pl_header := h, pl_headers_num := k\<rparr>) = fill_header pool P"
  by (simp_all add: fill_header_def fun_eq_iff)

context pool_env
begin

definition create_fits :: "u32 \<Rightarrow> u32 \<Rightarrow> bool" where
  "create_fits headers payload_size \<longleftrightarrow>
     fits (ROUND_UP (sizeof_pool_private (op_abi c)) 8)
     \<and> fits (ROUND_UP (sizeof_ptr (op_abi c) * headers) 8
              + ROUND_UP (mmal_buffer_header_size (op_abi c)) 8 * headers)
     \<and> fits payload_size \<and> fits (sizeof_queue (op_abi c))"

lemma header_size_ok:
  "mmal_buffer_header_size (op_abi c) \<le> ROUND_UP (mmal_buffer_header_size (op_abi c)) 8"
  "0 < unat (ROUND_UP (mmal_buffer_header_size (op_abi c)) 8)"
proof -
  have "unat (mmal_buffer_header_size (op_abi c)) + 8 < 2 ^ 32"
    using header_size_covers(2) [OF abi] by simp
  from ROUND_UP_8_bounds(1) [OF this]
  show "mmal_buffer_header_size (op_abi c) \<le> ROUND_UP (mmal_buffer_header_size (op_abi c)) 8"
    and "0 < unat (ROUND_UP (mmal_buffer_header_size (op_abi c)) 8)"
    by (simp_all add: word_le_nat_alt)
qed

text \<open>Destroying a queue frees its block, and destroying a pool frees the payloads, the array, the
  queue and the pool.\<close>

lemma queue_destroy_live:
  assumes "einv e" and "live e = L \<union> set (somes [case qu of None \<Rightarrow> None | Some q \<Rightarrow> q_block q])"
    and "set (somes [case qu of None \<Rightarrow> None | Some q \<Rightarrow> q_block q]) \<inter> L = {}"
  shows "einv (mmal_queue_destroy c qu e) \<and> live (mmal_queue_destroy c qu e) = L"
proof (cases "case qu of None \<Rightarrow> None | Some q \<Rightarrow> q_block q")
  case None
  then show ?thesis using assms by (auto simp: mmal_queue_destroy_def split: option.splits)
next
  case (Some b)
  then obtain q where q: "qu = Some q" "q_block q = Some b" by (auto split: option.splits)
  then show ?thesis using assms malloc.release [of e b] by (simp add: mmal_queue_destroy_def)
qed

lemma destroy_live:
  assumes inv: "einv (ps_env s)" and own: "owned_pool live L pool arr ps s"
  shows "einv (ps_env (mmal_pool_destroy c (Some pool) s))
    \<and> live (ps_env (mmal_pool_destroy c (Some pool) s)) = L"
proof -
  note o = owned_poolD [OF own]
  obtain f where f: "pl_allocator_free (ps_pool s pool) = Some f" using o(9) by blast
  let ?s1 = "free_payloads c pool (length ps) 0 s"
  have fp: "einv (ps_env ?s1) \<and> live (ps_env ?s1) = live (ps_env s) - set (somes ps)"
    by (rule free_payloads_live [OF inv f]) (use o in auto)
  define Q where "Q = set (somes [queue_block (ps_pool s pool)])"
  have 1: "einv (ps_env ?s1) \<and> live (ps_env ?s1) = L \<union> Q \<union> {pool, arr}"
    using fp o(1,6) unfolding Q_def by auto
  let ?e2 = "op_free c arr (ps_env ?s1)"
  have 2: "einv ?e2 \<and> live ?e2 = L \<union> Q \<union> {pool}"
    using malloc.release [of "ps_env ?s1" arr] 1 o(2,4) unfolding Q_def by auto
  let ?e3 = "mmal_queue_destroy c (pl_queue (ps_pool s pool)) ?e2"
  have 3: "einv ?e3 \<and> live ?e3 = L \<union> {pool}"
    by (rule queue_destroy_live) (use 2 o(3,12) in \<open>auto simp: Q_def queue_block_def\<close>)
  have 4: "einv (op_free c pool ?e3) \<and> live (op_free c pool ?e3) = L"
    using malloc.release [of ?e3 pool] 3 o(3) by auto
  have "ps_env (mmal_pool_destroy c (Some pool) s) = op_free c pool ?e3"
    using o(7,8) by (simp add: Let_def)
  then show ?thesis using 4 by simp
qed

lemma init_owned:
  assumes r: "init_result pool n 0 h s st s' ps"
    and base: "pl_base (ps_pool s pool) = Some arr" and num: "pl_headers_num (ps_pool s pool) = 0"
    and fr: "pl_allocator_free (ps_pool s pool) \<noteq> None"
    and hs: "0 < unat (pl_header_size (ps_pool s pool))"
    and lv: "live (ps_env s) = L \<union> set (somes [queue_block (ps_pool s pool)]) \<union> {pool, arr}" "pool \<noteq> arr"
      "set (somes [queue_block (ps_pool s pool)]) \<inter> L = {}"
      "pool \<notin> L \<union> set (somes [queue_block (ps_pool s pool)])"
      "arr \<notin> L \<union> set (somes [queue_block (ps_pool s pool)])"
  shows "owned_pool live L pool arr ps s'"
proof -
  note i = init_resultD [OF r]
  have b: "bufs s' (pl_header (ps_pool s' pool) j)
      = fill_header pool (ps_pool s' pool) (ps ! j) zero_header" if "j < length ps" for j
    using i(7) [OF that] that unfolding i(10) by simp
  have num': "pl_headers_num (ps_pool s' pool) = length ps"
    using num by (simp add: i(10))
  have qb: "queue_block (ps_pool s' pool) = queue_block (ps_pool s pool)" by (simp add: i(10))
  show ?thesis
    unfolding owned_pool_def Let_def qb
    using i(4,5,6) lv b num' base fr i(11) by (auto simp: i(10))
qed

lemma put_headers_owned:
  assumes "owned_pool live L pool arr ps s"
  shows "owned_pool live L pool arr ps (put_headers pool n 0 s)"
proof -
  let ?s' = "put_headers pool n 0 s"
  note f = put_headers_frame [of pool n 0 s]
  obtain qu where q: "ps_pool ?s' pool = (ps_pool s pool)\<lparr>pl_queue := qu\<rparr>" using f by blast
  have b: "payload_part (bufs ?s' a) = payload_part (bufs s a)" for a
    using f by (intro payload_part_cong) simp
  have qb: "queue_block (ps_pool ?s' pool) = queue_block (ps_pool s pool)" by simp
  from assms f show ?thesis unfolding owned_pool_def Let_def qb by (simp add: q b)
qed

text \<open>What a successful creation leaves.\<close>

definition created :: "addr \<Rightarrow> addr \<Rightarrow> ptr list \<Rightarrow> u32 \<Rightarrow> u32 \<Rightarrow> 'e pstate \<Rightarrow> bool" where
  "created pool arr ps headers payload_size s \<longleftrightarrow>
     (let P = ps_pool s pool; hs = unat (ROUND_UP (mmal_buffer_header_size (op_abi c)) 8) in
      pl_headers_num P = unat headers \<and> pl_payload_size P = payload_size \<and> length ps = unat headers
      \<and> pl_cb P = None
      \<and> (\<forall>j < unat headers. pl_header P j
            = arr + unat (ROUND_UP (sizeof_ptr (op_abi c) * headers) 8) + j * hs)
      \<and> n_headers_queued pool s
      \<and> (\<forall>j < unat headers. (bufs s (pl_header P j))\<lparr>bh_next := None\<rparr> = fresh_header pool P (ps ! j)))"

lemma init_created:
  assumes r: "init_result pool (unat headers) 0 (first_header c (ps_pool s pool) headers) s MMAL_SUCCESS s' ps"
    and P: "ps_pool s pool = new_pool queue arr (ROUND_UP (mmal_buffer_header_size (op_abi c)) 8)
              payload_size headers aa af ac"
    and q: "queue_repr (Some queue, m) []"
  shows "created pool arr ps headers payload_size (put_headers pool (unat headers) 0 s')"
proof -
  let ?hs = "unat (ROUND_UP (mmal_buffer_header_size (op_abi c)) 8)"
  let ?h0 = "arr + unat (ROUND_UP (sizeof_ptr (op_abi c) * headers) 8)"
  let ?t = "put_headers pool (unat headers) 0 s'"
  note i = init_resultD [OF r] and f = put_headers_frame [of pool "unat headers" 0 s']
  have len: "length ps = unat headers" using i(1,2) by (auto split: if_splits)
  have Ps: "pl_header_size (ps_pool s pool) = ROUND_UP (mmal_buffer_header_size (op_abi c)) 8"
    "pl_payload_size (ps_pool s pool) = payload_size" "pl_queue (ps_pool s pool) = Some queue"
    "pl_headers_num (ps_pool s pool) = 0" "pl_cb (ps_pool s pool) = None" and h0: "first_header c (ps_pool s pool) headers = ?h0"
    by (simp_all add: P new_pool_def first_header_def Let_def)
  have hdr: "pl_header (ps_pool s' pool) j = ?h0 + j * ?hs" if "j < unat headers" for j
    using that len by (simp add: i(10) Ps h0)
  have num: "pl_headers_num (ps_pool s' pool) = unat headers"
    using len Ps(4) by (auto simp: i(10))
  have q0: "pool_queue_repr pool s' []"
    using queue_repr_mem_cong [OF q, of s'] by (simp add: pool_queue_repr_def i(10) Ps)
  have "distinct ([] @ map (pl_header (ps_pool s' pool)) [0..<0 + unat headers])"
    using header_size_ok(2) by (auto simp: distinct_map inj_on_def hdr)
  from put_headers_repr [OF q0 this]
  have qr: "pool_queue_repr pool ?t (map (pl_header (ps_pool s' pool)) [0..<unat headers])" by simp
  obtain qu where P': "ps_pool ?t pool = (ps_pool s' pool)\<lparr>pl_queue := qu\<rparr>" using f by blast
  have b: "(bufs ?t (pl_header (ps_pool s' pool) j))\<lparr>bh_next := None\<rparr>
      = fresh_header pool (ps_pool ?t pool) (ps ! j)" if j: "j < unat headers" for j
  proof -
    have "bufs s' (pl_header (ps_pool s' pool) j)
        = fill_header pool (ps_pool s' pool) (ps ! j) zero_header"
      using i(7) [of j] j len unfolding hdr [OF j] Ps h0 by (simp add: i(10))
    then show ?thesis using f by (simp add: P' fresh_header_def)
  qed
  show ?thesis
    unfolding created_def Let_def n_headers_queued_def
    using num len hdr qr b Ps(2,5) by (simp add: P' i(10))
qed

lemma new_pool_good:
  assumes "fits payload_size"
  shows "good_pool (new_pool queue arr (ROUND_UP (mmal_buffer_header_size (op_abi c)) 8)
           payload_size headers aa af ac)"
  using assms header_size_ok by (simp add: good_pool_def new_pool_def Let_def)

text \<open>What creation leaves beside the blocks \<open>L\<close> of others, \<open>b\<close> being the block of the queue.\<close>

definition create_post :: "addr set \<Rightarrow> ptr \<Rightarrow> u32 \<Rightarrow> u32 \<Rightarrow> ptr \<Rightarrow> 'e pstate \<Rightarrow> bool" where
  "create_post L b headers payload_size r s' \<longleftrightarrow> einv (ps_env s')
     \<and> (case r of
          None \<Rightarrow> live (ps_env s') = L
        | Some pool \<Rightarrow> \<exists>arr ps. owned_pool live L pool arr ps s' \<and> queue_block (ps_pool s' pool) = b
                          \<and> created pool arr ps headers payload_size s')"

lemma malloc_somes:
  assumes "einv e" and "fits n" and "op_malloc c n e = (p, e')"
  shows "einv e' \<and> live e' = live e \<union> set (somes [p]) \<and> set (somes [p]) \<inter> live e = {}"
proof (cases p)
  case None
  with malloc.alloc_None [OF assms(1,2)] assms(3) show ?thesis by simp
next
  case (Some a)
  with malloc.alloc_Some [OF assms(1,2)] assms(3) show ?thesis by simp
qed

lemma create_blocks:
  assumes inv: "einv e" and P: "op_malloc c n1 e = (p, e1)" and A: "op_malloc c n2 e1 = (a, e2)"
    and f: "fits n1" "fits n2"
  shows "einv e2" and "live e2 = live e \<union> set (somes [p, a])" and "distinct (somes [p, a])"
    and "set (somes [p, a]) \<inter> live e = {}"
proof -
  note 1 = malloc_somes [OF inv f(1) P]
  then have "einv e1" by blast
  note 2 = malloc_somes [OF this f(2) A]
  show "einv e2" using 2 by blast
  show "live e2 = live e \<union> set (somes [p, a])" using 1 2 by (cases p; cases a) auto
  show "distinct (somes [p, a])" using 1 2 by (cases p; cases a) auto
  show "set (somes [p, a]) \<inter> live e = {}" using 1 2 by (cases p; cases a) auto
qed

lemma create_spec:
  assumes q: "queue_repr (Some queue, m) []" and inv: "einv (ps_env s)"
    and fits: "create_fits headers payload_size"
    and lv: "live (ps_env s) = L \<union> set (somes [q_block queue])" and dis: "set (somes [q_block queue]) \<inter> L = {}"
  shows "\<exists>r s'. mmal_pool_create_with_allocator c (Some queue) headers payload_size ac aa af s = Some (r, s')
    \<and> create_post L (q_block queue) headers payload_size r s'"
proof -
  let ?hsz = "ROUND_UP (mmal_buffer_header_size (op_abi c)) 8"
  let ?n1 = "ROUND_UP (sizeof_pool_private (op_abi c)) 8"
  let ?n2 = "ROUND_UP (sizeof_ptr (op_abi c) * headers) 8 + ?hsz * headers"
  obtain p e1 a e2 where P: "op_malloc c ?n1 (ps_env s) = (p, e1)" and A: "op_malloc c ?n2 e1 = (a, e2)"
    by (metis surj_pair)
  have f: "fits ?n1" "fits ?n2" using fits by (simp_all add: create_fits_def)
  note b = create_blocks [OF inv P A f]
  show ?thesis
  proof (cases "p = None \<or> a = None")
    case True
    then have r: "\<exists>s'. mmal_pool_create_with_allocator c (Some queue) headers payload_size ac aa af s
        = Some (None, s') \<and> ps_env s' = (let e3 = (case p of None \<Rightarrow> e2 | Some p \<Rightarrow> op_free c p e2)
             in mmal_queue_destroy c (Some queue) (case a of None \<Rightarrow> e3 | Some a \<Rightarrow> op_free c a e3))"
      by (auto simp: P A Let_def split: option.split)
    define e4 where "e4 = (let e3 = (case p of None \<Rightarrow> e2 | Some p \<Rightarrow> op_free c p e2)
      in case a of None \<Rightarrow> e3 | Some a \<Rightarrow> op_free c a e3)"
    have "einv e4 \<and> live e4 = L \<union> set (somes [q_block queue])"
      unfolding e4_def using True b malloc.release [of e2] lv by (cases p; cases a) fastforce+
    with queue_destroy_live [of e4 L "Some queue"] dis
    have "einv (mmal_queue_destroy c (Some queue) e4) \<and> live (mmal_queue_destroy c (Some queue) e4) = L"
      by simp
    with r show ?thesis unfolding e4_def Let_def create_post_def by fastforce
  next
    case False
    then obtain pool arr where pa: "p = Some pool" "a = Some arr" by auto
    let ?N = "new_pool queue arr ?hsz payload_size headers aa af ac"
    let ?s1 = "upd_pool pool (\<lambda>_. ?N) (s\<lparr>ps_env := e2\<rparr>)"
    have N: "ps_pool ?s1 pool = ?N" "ps_env ?s1 = e2" by simp_all
    have "good_pool (ps_pool ?s1 pool)"
      unfolding N using new_pool_good fits by (simp add: create_fits_def)
    from init_loop [OF this, of "unat headers" 0 "first_header c (ps_pool ?s1 pool) headers"]
    obtain st s2 ps where l: "mmal_pool_initialise_buffer_headers c pool headers True ?s1 = Some (st, s2)"
      and r: "init_result pool (unat headers) 0 (first_header c (ps_pool ?s1 pool) headers) ?s1 st s2 ps"
      unfolding mmal_pool_initialise_buffer_headers_def N using b(1) by blast
    have Q: "queue_block (ps_pool ?s1 pool) = q_block queue"
      by (simp add: queue_block_def new_pool_def Let_def)
    have own: "owned_pool live L pool arr ps s2"
      by (rule init_owned [OF r], unfold Q) (use N b header_size_ok pa lv dis in \<open>auto simp: new_pool_def Let_def\<close>)
    note i = init_resultD [OF r]
    have num: "pl_headers_num (ps_pool s2 pool) = length ps" using owned_poolD(8) [OF own] .
    show ?thesis
    proof (cases "st = MMAL_SUCCESS")
      case False
      then have "mmal_pool_create_with_allocator c (Some queue) headers payload_size ac aa af s
          = Some (None, mmal_pool_destroy c (Some pool) s2)"
        by (simp add: P A pa l Let_def del: mmal_pool_destroy.simps)
      then show ?thesis using destroy_live [OF i(3) own] by (simp add: create_post_def)
    next
      case True
      then have len: "length ps = unat headers" using i(1,2) by (auto split: if_splits)
      have c: "mmal_pool_create_with_allocator c (Some queue) headers payload_size ac aa af s
          = Some (Some pool, put_headers pool (unat headers) 0 s2)"
        by (simp add: P A pa l True num len Let_def)
      have "created pool arr ps headers payload_size (put_headers pool (unat headers) 0 s2)"
        by (rule init_created [OF r [unfolded True] N(1) q])
      moreover have "einv (ps_env (put_headers pool (unat headers) 0 s2))"
        using i(3) put_headers_frame by metis
      moreover have "queue_block (ps_pool (put_headers pool (unat headers) 0 s2) pool) = q_block queue"
        using Q i(10) by simp
      ultimately show ?thesis
        unfolding c create_post_def using put_headers_owned [OF own] by auto
    qed
  qed
qed

text \<open>The queue's block, and the whole function.\<close>

lemma queue_create_spec:
  assumes "einv e" and "fits (sizeof_queue (op_abi c))"
    and "queue_create_on_heap c mst sst e = (qu, e1)"
  shows "einv e1 \<and> (case qu of
      None \<Rightarrow> live e1 = live e
    | Some q \<Rightarrow> queue_repr (Some q, m) [] \<and> (\<exists>b. q_block q = Some b \<and> b \<notin> live e \<and> live e1 = insert b (live e)))"
proof (cases "op_malloc c (sizeof_queue (op_abi c)) e")
  case (Pair p e2)
  show ?thesis
  proof (cases p)
    case None
    with Pair malloc.alloc_None [OF assms(1,2)] assms(3) show ?thesis
      by (auto simp: queue_create_on_heap_def mmal_queue_create_def)
  next
    case (Some b)
    with Pair have a: "einv e2 \<and> b \<notin> live e \<and> live e2 = insert b (live e)"
      using malloc.alloc_Some [OF assms(1,2)] by simp
    show ?thesis
    proof (cases "mmal_queue_create True mst sst")
      case None
      with a Pair Some assms(3) malloc.release [of e2 b] show ?thesis
        by (auto simp: queue_create_on_heap_def)
    next
      case (Some q)
      then have "queue_list (q\<lparr>q_block := Some b\<rparr>) m [] \<and> q_sema q = 0"
        by (auto simp: mmal_queue_create_def queue_list_def split: if_splits)
      then show ?thesis
        using Some a Pair \<open>p = Some b\<close> assms(3) by (auto simp: queue_create_on_heap_def)
    qed
  qed
qed

lemma create_with_queue_spec:
  assumes inv: "einv (ps_env s)" and fits: "create_fits headers payload_size"
  shows "\<exists>b r s'. pool_create_with_queue c mst sst headers payload_size ac aa af s = Some (r, s')
    \<and> create_post (live (ps_env s)) b headers payload_size r s'
    \<and> (r \<noteq> None \<longrightarrow> (\<exists>a. b = Some a))"
proof (cases "queue_create_on_heap c mst sst (ps_env s)")
  case (Pair qu e1)
  have f: "fits (sizeof_queue (op_abi c))" using fits by (simp add: create_fits_def)
  note q = queue_create_spec [OF inv f Pair, of undefined]
  show ?thesis
  proof (cases qu)
    case None
    with q Pair show ?thesis by (simp add: pool_create_with_queue_def create_post_def)
  next
    case (Some q')
    then obtain b where b: "queue_repr (Some q', undefined) []" "q_block q' = Some b" "einv e1"
        "b \<notin> live (ps_env s)" "live e1 = insert b (live (ps_env s))" using q by auto
    from create_spec [OF b(1) _ fits, of "s\<lparr>ps_env := e1\<rparr>" "live (ps_env s)" ac aa af] b Some Pair
    show ?thesis by (auto simp: pool_create_with_queue_def simp del: mmal_pool_create_with_allocator.simps)
  qed
qed

text \<open>A pool that is created and destroyed leaves the blocks of the others.\<close>

lemma create_destroy:
  assumes "einv (ps_env s)" and "create_fits headers payload_size"
  shows "\<exists>r s'. pool_create_with_queue c mst sst headers payload_size ac aa af s = Some (r, s')
    \<and> live (ps_env (mmal_pool_destroy c r s')) = live (ps_env s)"
proof -
  obtain b r s' where c: "pool_create_with_queue c mst sst headers payload_size ac aa af s = Some (r, s')"
    and p: "create_post (live (ps_env s)) b headers payload_size r s'"
    using create_with_queue_spec [OF assms] by blast
  have "live (ps_env (mmal_pool_destroy c r s')) = live (ps_env s)"
    using p destroy_live
    by (cases r) (auto simp: create_post_def simp del: mmal_pool_destroy.simps(2))
  with c show ?thesis by blast
qed

end

end
