(* ===== verification/Mmal_Pool_Cycle.thy ===== *)
theory Mmal_Pool_Cycle
  imports Mmal_Pool_Create "HOL-Library.Multiset"
begin

text \<open>
  The life of a pool's headers: taken from the queue, acquired, released. Whatever the clients do,
  no header is lost and none is handed out twice; the reference counts are those of the clients'
  references. Also the resizing of a pool whose payload allocator fails.
\<close>

section \<open>Recycling\<close>

definition home_header :: "addr \<Rightarrow> mmal_header \<Rightarrow> bool" where
  "home_header pool b \<longleftrightarrow> bh_owner b = Some pool \<and> bh_pf_release b = Some POOL_RELEASE
     \<and> bh_reference b = None \<and> bh_pf_pre_release b = None"

lemma home_header_simps [simp]:
  "home_header pool (b\<lparr>bh_refcount := n\<rparr>) = home_header pool b"
  "home_header pool (b\<lparr>bh_next := q\<rparr>) = home_header pool b"
  "home_header pool (reset_fields b) = home_header pool b"
  by (simp_all add: home_header_def reset_fields_def)

lemma home_header_fill [simp]: "home_header pool (fill_header pool P p zero_header)"
  by (simp add: home_header_def fill_header_def zero_header_def)

lemma fill_count [simp]: "bh_refcount (fill_header pool P p b) = 1"
  by (simp add: fill_header_def)

lemma next_fields:
  assumes "b'\<lparr>bh_next := None\<rparr> = b\<lparr>bh_next := None\<rparr>"
  shows "bh_refcount b' = bh_refcount b" and "home_header p b' = home_header p b"
proof -
  show "bh_refcount b' = bh_refcount b" using arg_cong [OF assms, of bh_refcount] by simp
  show "home_header p b' = home_header p b" using arg_cong [OF assms, of "home_header p"] by simp
qed

text \<open>What the release of the last reference writes before the header is queued.\<close>

definition recycled :: "mmal_header \<Rightarrow> mmal_header" where
  "recycled b = (reset_fields b)\<lparr>bh_reference := None, bh_refcount := 1\<rparr>"

lemma recycled_simps [simp]:
  "bh_refcount (recycled b) = 1" "bh_length (recycled b) = 0"
  "home_header p b \<Longrightarrow> home_header p (recycled b)"
  by (simp_all add: recycled_def reset_fields_def home_header_def)

lemma upd_upd_pstate: "upd_buf a g (upd_buf a f s) = upd_buf a (\<lambda>b. g (f b)) s"
  by (simp add: o_def)

lemma pool_release_last:
  assumes "home_header pool (bufs s h)" and "bh_refcount (bufs s h) = 1"
  shows "pool_header_release c pre h s =
    (let s1 = upd_buf h recycled s in
     case pl_cb (ps_pool s pool) of
       None \<Rightarrow> Some (pool_queue_put pool h s1)
     | Some cb \<Rightarrow> (case op_cb c cb pool h (pl_userdata (ps_pool s pool)) s1 of
         (queue, s2) \<Rightarrow> Some (if queue then pool_queue_put pool h s2 else s2)))"
proof -
  let ?s0 = "upd_buf h (\<lambda>b. (reset_fields b)\<lparr>bh_reference := None\<rparr>)
    (upd_buf h (\<lambda>b. b\<lparr>bh_refcount := bh_refcount b - 1\<rparr>) s)"
  have r: "pool_header_release c pre h s = mmal_pool_buffer_header_release c h ?s0"
    using assms unfolding pool_header_release_def home_header_def
    by (simp add: release_last continue_no_reference pool_rel_def)
  have rec: "upd_buf h (\<lambda>b. b\<lparr>bh_refcount := 1\<rparr>) ?s0 = upd_buf h recycled s"
    by (simp add: upd_buf_def recycled_def reset_fields_def)
  have own: "bh_owner (bufs ?s0 h) = Some pool"
    using assms by (simp add: home_header_def reset_fields_def)
  show ?thesis
    unfolding r mmal_pool_buffer_header_release_def own
    by (simp add: rec Let_def del: upd_buf_twice split: option.split prod.split)
qed

lemma pool_release_shared:
  assumes "bh_refcount (bufs s h) \<noteq> 1"
  shows "pool_header_release c pre h s =
    Some (upd_buf h (\<lambda>b. b\<lparr>bh_refcount := bh_refcount b - 1\<rparr>) s)"
  using assms by (simp add: pool_header_release_def release_shared)

lemma pool_queue_repr_cong:
  assumes "pool_queue_repr p s xs" and "pl_queue (ps_pool s' p) = pl_queue (ps_pool s p)"
    and "\<And>a. a \<in> set xs \<Longrightarrow> bh_next (bufs s' a) = bh_next (bufs s a)"
  shows "pool_queue_repr p s' xs"
  using assms queue_repr_mem_cong unfolding pool_queue_repr_def by metis

lemma pool_queue_repr_upd_buf:
  "pool_queue_repr p s xs \<Longrightarrow> h \<notin> set xs \<Longrightarrow> pool_queue_repr p (upd_buf h f s) xs"
  by (erule pool_queue_repr_cong) auto

text \<open>The last release of a header queues it again, at the end, with one reference.\<close>

lemma pool_release_recycles:
  assumes "home_header pool (bufs s h)" and "bh_refcount (bufs s h) = 1"
    and "pl_cb (ps_pool s pool) = None" and "pool_queue_repr pool s xs" and "h \<notin> set xs"
  shows "\<exists>s'. pool_header_release c pre h s = Some s' \<and> pool_queue_repr pool s' (xs @ [h])
    \<and> bh_refcount (bufs s' h) = 1 \<and> home_header pool (bufs s' h)
    \<and> pl_cb (ps_pool s' pool) = None
    \<and> (\<forall>a. a \<noteq> h \<longrightarrow> (bufs s' a)\<lparr>bh_next := None\<rparr> = (bufs s a)\<lparr>bh_next := None\<rparr>)"
proof -
  let ?s1 = "upd_buf h recycled s"
  let ?s' = "pool_queue_put pool h ?s1"
  note f = pool_queue_put_frame [where p = pool and h = h and s = ?s1]
  have "pool_header_release c pre h s = Some ?s'"
    using pool_release_last [OF assms(1,2)] assms(3) by (simp add: Let_def)
  moreover have "pool_queue_repr pool ?s' (xs @ [h])"
    by (rule pool_queue_put_repr [OF pool_queue_repr_upd_buf]) (use assms in auto)
  moreover have "bh_refcount (bufs ?s' h) = 1" "home_header pool (bufs ?s' h)"
    using next_fields [OF f(4) [where a = h]] assms(1) by simp_all
  moreover have "pl_cb (ps_pool ?s' pool) = None" using f(3) assms(3) by auto
  moreover have "(bufs ?s' a)\<lparr>bh_next := None\<rparr> = (bufs s a)\<lparr>bh_next := None\<rparr>" if "a \<noteq> h" for a
    using f(4) [where a = a] that by simp
  ultimately show ?thesis by blast
qed

section \<open>No header is lost\<close>

text \<open>\<open>held\<close> is the multiset of the references that clients hold.\<close>

type_synonym 'e client_state = "'e pstate \<times> addr multiset"

inductive pool_step ::
  "'e pool_ops \<Rightarrow> (nat \<Rightarrow> addr \<Rightarrow> ptr \<Rightarrow> 'e pstate \<Rightarrow> bool \<times> 'e pstate) \<Rightarrow> addr \<Rightarrow>
   'e client_state \<Rightarrow> 'e client_state \<Rightarrow> bool"
  for c pre pool where
  step_get: "pool_queue_get pool s = Some (Some h, s') \<Longrightarrow>
     pool_step c pre pool (s, held) (s', add_mset h held)"
| step_get_none: "pool_queue_get pool s = Some (None, s') \<Longrightarrow>
     pool_step c pre pool (s, held) (s', held)"
| step_acquire: "h \<in># held \<Longrightarrow>
     pool_step c pre pool (s, held) (mmal_buffer_header_acquire h s, add_mset h held)"
| step_release: "h \<in># held \<Longrightarrow> pool_header_release c pre h s = Some s' \<Longrightarrow>
     pool_step c pre pool (s, held) (s', held - {#h#})"

definition references :: "addr multiset \<Rightarrow> addr \<Rightarrow> int" where
  "references held h = (if h \<in># held then int (count held h) else 1)"

definition cycle_inv :: "addr \<Rightarrow> addr set \<Rightarrow> 'e client_state \<Rightarrow> bool" where
  "cycle_inv pool hs st \<longleftrightarrow>
     (let (s, held) = st in
      (\<exists>xs. pool_queue_repr pool s xs \<and> set xs \<inter> set_mset held = {} \<and> set xs \<union> set_mset held = hs)
      \<and> (\<forall>h \<in> hs. home_header pool (bufs s h) \<and> bh_refcount (bufs s h) = references held h)
      \<and> pl_cb (ps_pool s pool) = None)"

lemma cycle_invI:
  assumes "pool_queue_repr pool s xs" and "set xs \<inter> set_mset held = {}" and "set xs \<union> set_mset held = hs"
    and "\<And>h. h \<in> hs \<Longrightarrow> home_header pool (bufs s h)"
    and "\<And>h. h \<in> hs \<Longrightarrow> bh_refcount (bufs s h) = references held h"
    and "pl_cb (ps_pool s pool) = None"
  shows "cycle_inv pool hs (s, held)"
  using assms unfolding cycle_inv_def by auto

lemma pool_queue_get_cb: "pool_queue_get p s = Some (r, s') \<Longrightarrow> pl_cb (ps_pool s' q) = pl_cb (ps_pool s q)
    \<and> bufs s' = bufs s"
  by (cases "pl_queue (ps_pool s p)")
    (auto simp: pool_queue_get_def Let_def split: option.splits if_splits)

lemma cycle_inv_get:
  assumes inv: "cycle_inv pool hs (s, held)" and g: "pool_queue_get pool s = Some (Some h, s')"
  shows "cycle_inv pool hs (s', add_mset h held)"
proof -
  from inv obtain xs where xs: "pool_queue_repr pool s xs" "set xs \<inter> set_mset held = {}"
    "set xs \<union> set_mset held = hs"
    and b: "\<And>h. h \<in> hs \<Longrightarrow> home_header pool (bufs s h) \<and> bh_refcount (bufs s h) = references held h"
    and cb: "pl_cb (ps_pool s pool) = None"
    by (auto simp: cycle_inv_def)
  obtain ys where ys: "xs = h # ys" "pool_queue_repr pool s' ys"
  proof (cases xs)
    case Nil
    with xs(1) pool_queue_get_Nil [of pool s] g show ?thesis by auto
  next
    case (Cons x ys)
    with xs(1) pool_queue_get_repr [of pool s x ys] g that show ?thesis by auto
  qed
  have d: "h \<notin> set ys"
    using queue_repr_distinct xs(1) ys(1) unfolding pool_queue_repr_def by fastforce
  have "h \<notin># held" using xs(2) ys(1) by auto
  then have refs: "references (add_mset h held) a = references held a" for a
    by (auto simp: references_def not_in_iff)
  show ?thesis
    using xs ys d b cb refs pool_queue_get_cb [OF g] by (intro cycle_invI [of pool s' ys]) auto
qed

lemma cycle_inv_get_none:
  assumes inv: "cycle_inv pool hs (s, held)" and g: "pool_queue_get pool s = Some (None, s')"
  shows "cycle_inv pool hs (s', held)"
proof -
  from inv obtain xs where xs: "pool_queue_repr pool s xs" "set xs \<inter> set_mset held = {}"
    "set xs \<union> set_mset held = hs"
    and b: "\<And>h. h \<in> hs \<Longrightarrow> home_header pool (bufs s h) \<and> bh_refcount (bufs s h) = references held h"
    and cb: "pl_cb (ps_pool s pool) = None"
    by (auto simp: cycle_inv_def)
  have "xs = []" using pool_queue_get_repr [of pool s] xs(1) g by (cases xs) fastforce+
  then have "pool_queue_repr pool s' xs" using pool_queue_get_Nil [of pool s] xs(1) g by auto
  then show ?thesis
    using xs b cb pool_queue_get_cb [OF g] by (intro cycle_invI [of pool s' xs]) auto
qed

lemma cycle_inv_acquire:
  assumes inv: "cycle_inv pool hs (s, held)" and h: "h \<in># held"
  shows "cycle_inv pool hs (mmal_buffer_header_acquire h s, add_mset h held)"
proof -
  from inv obtain xs where xs: "pool_queue_repr pool s xs" "set xs \<inter> set_mset held = {}"
    "set xs \<union> set_mset held = hs"
    and b: "\<And>h. h \<in> hs \<Longrightarrow> home_header pool (bufs s h) \<and> bh_refcount (bufs s h) = references held h"
    and cb: "pl_cb (ps_pool s pool) = None"
    by (auto simp: cycle_inv_def)
  have "pool_queue_repr pool (mmal_buffer_header_acquire h s) xs"
    unfolding mmal_buffer_header_acquire_def by (rule pool_queue_repr_upd_buf) (use xs h in auto)
  then show ?thesis
    using xs h b cb by (intro cycle_invI [of pool _ xs]) (auto simp: mmal_buffer_header_acquire_def references_def)
qed

lemma cycle_inv_release:
  assumes inv: "cycle_inv pool hs (s, held)" and h: "h \<in># held"
  shows "\<exists>s'. pool_header_release c pre h s = Some s' \<and> cycle_inv pool hs (s', held - {#h#})"
proof -
  from inv obtain xs where xs: "pool_queue_repr pool s xs" "set xs \<inter> set_mset held = {}"
    "set xs \<union> set_mset held = hs"
    and b: "\<And>h. h \<in> hs \<Longrightarrow> home_header pool (bufs s h)"
    and n: "\<And>h. h \<in> hs \<Longrightarrow> bh_refcount (bufs s h) = references held h"
    and cb: "pl_cb (ps_pool s pool) = None"
    by (auto simp: cycle_inv_def)
  have hx: "h \<notin> set xs" "h \<in> hs" using xs h by auto
  show ?thesis
  proof (cases "count held h = 1")
    case False
    then have r: "bh_refcount (bufs s h) \<noteq> 1" using n [OF hx(2)] h by (simp add: references_def)
    have "Suc 0 < count held h" using False h count_greater_zero_iff [of held h] by linarith
    then have k: "h \<in># held - {#h#}" by (simp add: in_diff_count)
    have cnt: "int (count held h) - 1 = int (count (held - {#h#}) h)" using h
      by (simp add: Suc_le_eq of_nat_diff)
    let ?s' = "upd_buf h (\<lambda>b. b\<lparr>bh_refcount := bh_refcount b - 1\<rparr>) s"
    have "cycle_inv pool hs (?s', held - {#h#})"
    proof (rule cycle_invI [of pool ?s' xs])
      show "pool_queue_repr pool ?s' xs" by (rule pool_queue_repr_upd_buf [OF xs(1) hx(1)])
      have s: "set_mset (held - {#h#}) = set_mset held"
        using k h by (auto simp: in_diff_count split: if_splits)
      show "set xs \<inter> set_mset (held - {#h#}) = {}" "set xs \<union> set_mset (held - {#h#}) = hs"
        using xs s by auto
      show "home_header pool (bufs ?s' a)" if "a \<in> hs" for a
        using b [OF that] by (cases "a = h") simp_all
      show "bh_refcount (bufs ?s' a) = references (held - {#h#}) a" if "a \<in> hs" for a
        using n [OF that] k cnt h by (auto simp: references_def in_diff_count)
      show "pl_cb (ps_pool ?s' pool) = None" using cb by simp
    qed
    then show ?thesis using pool_release_shared [OF r] by simp
  next
    case True
    then have r: "bh_refcount (bufs s h) = 1" using n [OF hx(2)] h by (simp add: references_def)
    have k: "h \<notin># held - {#h#}" using True by (simp add: in_diff_count)
    obtain s' where s': "pool_header_release c pre h s = Some s'" "pool_queue_repr pool s' (xs @ [h])"
      "bh_refcount (bufs s' h) = 1" "home_header pool (bufs s' h)" "pl_cb (ps_pool s' pool) = None"
      "\<And>a. a \<noteq> h \<Longrightarrow> (bufs s' a)\<lparr>bh_next := None\<rparr> = (bufs s a)\<lparr>bh_next := None\<rparr>"
      using pool_release_recycles [OF b [OF hx(2)] r cb xs(1) hx(1)] by blast
    have sm: "set_mset (held - {#h#}) = set_mset held - {h}"
      using k h by (auto simp: in_diff_count split: if_splits)
    have "cycle_inv pool hs (s', held - {#h#})"
    proof (rule cycle_invI [of pool s' "xs @ [h]"])
      show "set (xs @ [h]) \<inter> set_mset (held - {#h#}) = {}" "set (xs @ [h]) \<union> set_mset (held - {#h#}) = hs"
        using xs h sm by auto
      show "home_header pool (bufs s' a)" if "a \<in> hs" for a
        using b [OF that] s'(4) next_fields(2) [OF s'(6)] by (cases "a = h") auto
      show "bh_refcount (bufs s' a) = references (held - {#h#}) a" if "a \<in> hs" for a
        using n [OF that] s'(3) next_fields(1) [OF s'(6)] k
        by (cases "a = h") (auto simp: references_def in_diff_count)
    qed (rule s')+
    then show ?thesis using s'(1) by blast
  qed
qed

lemma cycle_inv_step:
  assumes "pool_step c pre pool st st'" and "cycle_inv pool hs st"
  shows "cycle_inv pool hs st'"
  using assms(1)
proof cases
  case (step_release h held s s')
  with assms(2) cycle_inv_release [of pool hs s held h c pre] show ?thesis by auto
qed (use assms(2) cycle_inv_get cycle_inv_get_none cycle_inv_acquire in blast)+

lemma cycle_inv_steps:
  "(pool_step c pre pool)\<^sup>*\<^sup>* st st' \<Longrightarrow> cycle_inv pool hs st \<Longrightarrow> cycle_inv pool hs st'"
  by (induction rule: rtranclp_induct) (auto intro: cycle_inv_step)

text \<open>When the clients hold nothing, every header is back in the queue.\<close>

lemma cycle_inv_idle:
  "cycle_inv pool hs (s, {#}) \<Longrightarrow> \<exists>xs. pool_queue_repr pool s xs \<and> set xs = hs \<and> distinct xs"
  using queue_repr_distinct by (fastforce simp: cycle_inv_def pool_queue_repr_def)

text \<open>A created pool satisfies the invariant.\<close>

context pool_env
begin

lemma created_cycle_inv:
  assumes "created pool arr ps headers payload_size s"
  shows "cycle_inv pool (pl_header (ps_pool s pool) ` {..< unat headers}) (s, {#})"
proof -
  have P: "pl_headers_num (ps_pool s pool) = unat headers" "pl_cb (ps_pool s pool) = None"
    and q: "pool_queue_repr pool s (map (pl_header (ps_pool s pool)) [0..<unat headers])"
    and b: "\<And>j. j < unat headers \<Longrightarrow> (bufs s (pl_header (ps_pool s pool) j))\<lparr>bh_next := None\<rparr>
        = (fill_header pool (ps_pool s pool) (ps ! j) zero_header)\<lparr>bh_next := None\<rparr>"
    using assms unfolding created_def Let_def n_headers_queued_def fresh_header_def by metis+
  have "home_header pool (bufs s (pl_header (ps_pool s pool) j))
      \<and> bh_refcount (bufs s (pl_header (ps_pool s pool) j)) = 1" if "j < unat headers" for j
    using next_fields [OF b [OF that]]
    by simp
  then show ?thesis
    using P q by (intro cycle_invI [OF q]) (auto simp: references_def lessThan_atLeast0)
qed

end

end
