(* ===== verification/Mmal_Pool_Vcos.thy ===== *)
theory Mmal_Pool_Vcos
  imports Mmal_Pool_Cycle
begin

text \<open>
  Pools over the VCOS allocator: the default payload allocator of \<^verbatim>\<open>core/mmal_pool.c\<close> is
  \<open>vcos_malloc\<close> and \<open>vcos_free\<close>, so that the contract of the C library's heap gives the contract
  the pool relies on.
\<close>

text \<open>\<open>mmal_pool_allocator_default_alloc\<close> and \<open>mmal_pool_allocator_default_free\<close>; the context
  is unused.\<close>

definition mmal_pool_allocator_default_alloc ::
  "(nat \<Rightarrow> 'h \<Rightarrow> ptr \<times> 'h) \<Rightarrow> ptr \<Rightarrow> u32 \<Rightarrow> 'h vmem \<Rightarrow> ptr \<times> 'h vmem" where
  "mmal_pool_allocator_default_alloc sm context sz m = vcos_generic_mem_alloc sm sz m"

definition mmal_pool_allocator_default_free ::
  "(addr \<Rightarrow> 'h \<Rightarrow> 'h) \<Rightarrow> ptr \<Rightarrow> addr \<Rightarrow> 'h vmem \<Rightarrow> 'h vmem" where
  "mmal_pool_allocator_default_free sf context mem m = vcos_generic_mem_free sf (Some mem) m"

definition vcos_pool_ops ::
  "(nat \<Rightarrow> 'h \<Rightarrow> ptr \<times> 'h) \<Rightarrow> (addr \<Rightarrow> 'h \<Rightarrow> 'h) \<Rightarrow>
   (nat \<Rightarrow> addr \<Rightarrow> addr \<Rightarrow> ptr \<Rightarrow> 'h vmem pstate \<Rightarrow> bool \<times> 'h vmem pstate) \<Rightarrow> 'h vmem pool_ops" where
  "vcos_pool_ops sm sf cb = \<lparr>op_abi = arm32, op_malloc = vcos_generic_mem_alloc sm,
     op_free = (\<lambda>a. vcos_generic_mem_free sf (Some a)),
     op_alloc = (\<lambda>_. mmal_pool_allocator_default_alloc sm),
     op_pfree = (\<lambda>_. mmal_pool_allocator_default_free sf), op_cb = cb\<rparr>"

lemma vcos_pool_ops_simps [simp]:
  "op_abi (vcos_pool_ops sm sf cb) = arm32" "op_malloc (vcos_pool_ops sm sf cb) = vcos_generic_mem_alloc sm"
  "op_free (vcos_pool_ops sm sf cb) = (\<lambda>a. vcos_generic_mem_free sf (Some a))"
  "op_alloc (vcos_pool_ops sm sf cb) i x = vcos_generic_mem_alloc sm"
  "op_pfree (vcos_pool_ops sm sf cb) i x = (\<lambda>a. vcos_generic_mem_free sf (Some a))"
  by (simp_all add: vcos_pool_ops_def fun_eq_iff mmal_pool_allocator_default_alloc_def
      mmal_pool_allocator_default_free_def)

sublocale sys_heap \<subseteq> vpool: pool_env "vcos_pool_ops smalloc sfree cb" vm_live vm_inv ok_size for cb
proof -
  have b: "block_allocator (vcos_generic_mem_alloc smalloc) (\<lambda>a. vcos_generic_mem_free sfree (Some a))
      vm_live vm_inv ok_size"
    by (rule vcos.block_allocator_axioms)
  show "pool_env (vcos_pool_ops smalloc sfree cb) vm_live vm_inv ok_size"
    by (simp add: pool_env_def pool_env_axioms_def b abi_ok_arm32)
qed

interpretation bpool: pool_env "vcos_pool_ops bump_malloc bump_free cb" bump.vm_live bump.vm_inv ok_size for cb
  by (rule bump.vpool.pool_env_axioms)

section \<open>A pool on a concrete heap\<close>

definition example_heap :: "bump_heap vmem pstate" where
  "example_heap = \<lparr>bufs = (\<lambda>_. zero_header), ps_pool = (\<lambda>_. undefined),
     ps_env = \<lparr>vm_hdr = (\<lambda>_. undefined),
       vm_sys = \<lparr>bump_brk = 4096, bump_limit = 65536, bump_blocks = []\<rparr>\<rparr>\<rparr>"

lemma example_heap_inv: "bump.vm_inv (ps_env example_heap)" "bump.vm_live (ps_env example_heap) = {}"
  by (simp_all add: bump.vm_inv_def bump.vm_live_def example_heap_def bump_inv_def bump_map_def)

lemma round_up_values: "ROUND_UP 464 8 = 472" "ROUND_UP 48 8 = 56" "ROUND_UP 4 8 = 8" "ROUND_UP 8 8 = 16"
  by (simp_all add: ROUND_UP_def)

lemma example_pool:
  "\<exists>s'. pool_create_with_queue (vcos_pool_ops bump_malloc bump_free cb) VCOS_SUCCESS VCOS_SUCCESS 2 100
     None (Some DEFAULT_ALLOCATOR) (Some DEFAULT_ALLOCATOR) example_heap = Some (Some 4208, s')"
proof -
  have a: "sizeof_ptr arm32 = 4" "sizeof_pool_private arm32 = 48" "sizeof_queue arm32 = 52"
    by (simp_all add: arm32_def)
  have n: "init_headers_loop c p r 2 i h s = init_headers_loop c p r (Suc (Suc 0)) i h s" for c p r i h and s :: "'a pstate"
    by (simp add: numeral_2_eq_2)
  show ?thesis
    by (simp add: a n round_up_values header_size_arm32 vcos_bump_alloc user_ptr_value example_heap_def
        mmal_pool_initialise_buffer_headers_def new_pool_def first_header_def
        mmal_buffer_header_initialise_def vcos_pool_ops_simps pool_create_with_queue_def
        queue_create_on_heap_def mmal_queue_create_def Let_def)
qed

text \<open>Sizes for which no 32-bit size computation of the creation wraps round.\<close>

definition small_pool :: "u32 \<Rightarrow> u32 \<Rightarrow> bool" where
  "small_pool headers payload_size \<longleftrightarrow> unat headers < 9000000 \<and> unat payload_size + 32 < 2 ^ 32"

lemma small_pool_array:
  assumes "unat headers < 9000000"
  shows "unat (ROUND_UP (4 * headers) 8 + 472 * headers) = unat headers div 2 * 8 + 8 + 472 * unat headers"
proof -
  have e: "unat (4 * headers) = 4 * unat headers" "unat (472 * headers) = 472 * unat headers"
    using assms by (simp_all add: unat_word_ariths)
  have r: "unat (ROUND_UP (4 * headers) 8) = unat headers div 2 * 8 + 8"
    using ROUND_UP_8 [of "4 * headers"] assms by (simp add: e)
  have "unat headers div 2 * 8 \<le> 4 * unat headers" by simp
  then show ?thesis using assms by (simp add: unat_word_ariths(1) e r)
qed


lemma small_pool_fits:
  assumes "small_pool headers payload_size"
  shows "ok_size (ROUND_UP 48 8)" and "ok_size (ROUND_UP (4 * headers) 8 + ROUND_UP 464 8 * headers)"
    and "ok_size payload_size" and "ok_size 52"
proof -
  have "unat headers div 2 * 8 + 472 * unat headers \<le> 476 * unat headers" by presburger
  moreover have "unat headers < 9000000" using assms by (simp add: small_pool_def)
  ultimately have "unat headers div 2 * 8 + 472 * unat headers < 4294967256" by linarith
  then show "ok_size (ROUND_UP 48 8)" and "ok_size payload_size" and "ok_size 52"
    and "ok_size (ROUND_UP (4 * headers) 8 + ROUND_UP 464 8 * headers)"
    using assms small_pool_array [of headers]
    by (simp_all add: small_pool_def ok_size_def round_up_values)
qed

context sys_heap
begin

lemma vpool_fits:
  assumes "small_pool headers payload_size"
  shows "vpool.create_fits cb headers payload_size"
proof -
  have "sizeof_ptr arm32 = 4" and "sizeof_pool_private arm32 = 48" and "sizeof_queue arm32 = 52"
    by (simp_all add: arm32_def)
  then show ?thesis
    using small_pool_fits [OF assms] by (simp add: vpool.create_fits_def header_size_arm32)
qed

lemma created_injective:
  assumes "vpool.created cb pool arr ps headers payload_size s"
  shows "inj_on (pl_header (ps_pool s pool)) {..< unat headers}"
  using assms by (auto simp: vpool.created_def Let_def inj_on_def header_size_arm32 round_up_values)

lemma vcos_pool_create_post:
  assumes "vm_inv (ps_env s)" and "small_pool headers payload_size"
  shows "\<exists>b r s'. pool_create_with_queue (vcos_pool_ops smalloc sfree cb) mst sst
      headers payload_size ac aa af s = Some (r, s')
    \<and> vpool.create_post cb (vm_live (ps_env s)) b headers payload_size r s'
    \<and> (r \<noteq> None \<longrightarrow> (\<exists>a. b = Some a))"
  using assms vpool.create_with_queue_spec vpool_fits by blast

lemma vcos_pool_cycle:
  assumes "vm_inv (ps_env s)" and "small_pool headers payload_size"
    and "pool_create_with_queue (vcos_pool_ops smalloc sfree cb) mst sst
      headers payload_size ac aa af s = Some (Some pool, s1)"
    and "(pool_step (vcos_pool_ops smalloc sfree cb) pre pool)\<^sup>*\<^sup>* (s1, {#}) st"
  shows "\<exists>hs. card hs = unat headers \<and> cycle_inv pool hs st"
proof -
  obtain arr ps where c: "vpool.created cb pool arr ps headers payload_size s1"
    using vcos_pool_create_post [OF assms(1,2), of cb mst sst ac aa af] assms(3)
    by (auto simp: vpool.create_post_def)
  have "card (pl_header (ps_pool s1 pool) ` {..< unat headers}) = unat headers"
    using created_injective [OF c] by (simp add: card_image)
  with cycle_inv_steps [OF assms(4) vpool.created_cycle_inv [OF c]] show ?thesis by blast
qed

lemma vcos_pool_create:
  assumes "vm_inv (ps_env s)" and "small_pool headers payload_size"
  shows "\<exists>r s'. pool_create_with_queue (vcos_pool_ops smalloc sfree cb) mst sst
       headers payload_size ac aa af s = Some (r, s')
     \<and> vm_inv (ps_env s')
     \<and> (case r of
          None \<Rightarrow> vm_live (ps_env s') = vm_live (ps_env s)
        | Some pool \<Rightarrow> (\<exists>qb arr ps. queue_block (ps_pool s' pool) = Some qb \<and> length ps = unat headers
            \<and> owned_pool vm_live (vm_live (ps_env s)) pool arr ps s'
            \<and> pl_headers_num (ps_pool s' pool) = unat headers \<and> n_headers_queued pool s'
            \<and> (\<forall>j < unat headers. (bufs s' (pl_header (ps_pool s' pool) j))\<lparr>bh_next := None\<rparr>
                 = fresh_header pool (ps_pool s' pool) (ps ! j))))"
proof -
  obtain b r s' where c: "pool_create_with_queue (vcos_pool_ops smalloc sfree cb) mst sst
      headers payload_size ac aa af s = Some (r, s')"
    and p: "vpool.create_post cb (vm_live (ps_env s)) b headers payload_size r s'"
    and b: "r \<noteq> None \<longrightarrow> (\<exists>a. b = Some a)"
    using vcos_pool_create_post [OF assms] by blast
  show ?thesis
    unfolding c using p b
    by (cases r) (auto simp: vpool.create_post_def vpool.created_def Let_def)
qed

lemma vcos_pool_destroy:
  assumes "vm_inv (ps_env s)" and "small_pool headers payload_size"
    and "pool_create_with_queue (vcos_pool_ops smalloc sfree cb) mst sst
       headers payload_size ac aa af s = Some (r, s')"
  shows "vm_live (ps_env (mmal_pool_destroy (vcos_pool_ops smalloc sfree cb) r s')) = vm_live (ps_env s)"
  using vpool.create_destroy [OF assms(1) vpool_fits [OF assms(2)], of cb mst sst ac aa af]
    assms(3) by (auto simp del: mmal_pool_destroy.simps)

end

section \<open>Properties\<close>

text \<open>C20. Pool creation is all or nothing, over every system heap and for every outcome of the
  allocations (the queue's block, the pool, the header array, each payload) and of the creation of
  the queue's lock and semaphore: \<open>mmal_pool_create_with_allocator\<close> returns; when it returns null, no
  block stays allocated; when it returns a pool, the blocks it holds are the queue, the pool, the
  header array and one payload per header, all headers are queued in index order with one reference,
  and each refers to its own payload. The payload allocator is \<open>vcos_malloc\<close> and \<open>vcos_free\<close>, and
  \<open>small_pool\<close> asks for fewer than 9000000 headers and for a payload size whose
  block size does not wrap modulo \<open>2 ^ 32\<close>.\<close>

theorem pool_create_all_or_nothing:
  assumes "sys_heap sm sf blocks hinv" and "sys_heap.vm_inv blocks hinv (ps_env s)"
    and "small_pool headers payload_size"
  shows "\<exists>r s'. pool_create_with_queue (vcos_pool_ops sm sf cb) mutex_st sema_st
       headers payload_size context aalloc afree s = Some (r, s')
     \<and> sys_heap.vm_inv blocks hinv (ps_env s')
     \<and> (case r of
          None \<Rightarrow> sys_heap.vm_live blocks (ps_env s') = sys_heap.vm_live blocks (ps_env s)
        | Some pool \<Rightarrow> (\<exists>qb arr ps. queue_block (ps_pool s' pool) = Some qb \<and> length ps = unat headers
            \<and> owned_pool (sys_heap.vm_live blocks) (sys_heap.vm_live blocks (ps_env s)) pool arr ps s'
            \<and> pl_headers_num (ps_pool s' pool) = unat headers \<and> n_headers_queued pool s'
            \<and> (\<forall>j < unat headers. (bufs s' (pl_header (ps_pool s' pool) j))\<lparr>bh_next := None\<rparr>
                 = fresh_header pool (ps_pool s' pool) (ps ! j))))"
  by (rule sys_heap.vcos_pool_create [OF assms])

theorem pool_create_all_or_nothing_witness:
  "\<exists>s' qb arr ps. pool_create_with_queue (vcos_pool_ops bump_malloc bump_free (\<lambda>_ _ _ _ s. (True, s)))
     VCOS_SUCCESS VCOS_SUCCESS 2 100 None (Some DEFAULT_ALLOCATOR) (Some DEFAULT_ALLOCATOR) example_heap
       = Some (Some 4208, s')
     \<and> queue_block (ps_pool s' 4208) = Some qb
     \<and> length ps = 2 \<and> owned_pool bump.vm_live {} 4208 arr ps s' \<and> n_headers_queued 4208 s'"
proof -
  have n: "small_pool 2 100" by (simp add: small_pool_def)
  define cb :: "nat \<Rightarrow> addr \<Rightarrow> addr \<Rightarrow> ptr \<Rightarrow> bump_heap vmem pstate \<Rightarrow> bool \<times> bump_heap vmem pstate"
    where "cb = (\<lambda>_ _ _ _ s. (True, s))"
  obtain s' where c: "pool_create_with_queue (vcos_pool_ops bump_malloc bump_free cb)
      VCOS_SUCCESS VCOS_SUCCESS 2 100 None (Some DEFAULT_ALLOCATOR) (Some DEFAULT_ALLOCATOR) example_heap
      = Some (Some 4208, s')"
    using example_pool by blast
  have "\<exists>qb arr ps. queue_block (ps_pool s' 4208) = Some qb \<and> length ps = 2
      \<and> owned_pool bump.vm_live {} 4208 arr ps s' \<and> n_headers_queued 4208 s'"
    using pool_create_all_or_nothing [OF bump.sys_heap_axioms example_heap_inv(1) n, of cb VCOS_SUCCESS
      VCOS_SUCCESS None "Some DEFAULT_ALLOCATOR" "Some DEFAULT_ALLOCATOR"]
    unfolding c example_heap_inv(2) by auto
  with c show ?thesis unfolding cb_def by blast
qed

text \<open>C21. Destroying a pool that was just created gives back every block, the block of its queue
  included: the live blocks are those from before the creation, for every system heap, every outcome of
  the allocations and every size that \<open>small_pool\<close> admits (destroying the null pool of a failed creation
  does nothing).\<close>

theorem pool_create_destroy_leaks_nothing:
  assumes "sys_heap sm sf blocks hinv" and "sys_heap.vm_inv blocks hinv (ps_env s)"
    and "small_pool headers payload_size"
    and "pool_create_with_queue (vcos_pool_ops sm sf cb) mutex_st sema_st
       headers payload_size acontext aalloc afree s = Some (r, s')"
  shows "sys_heap.vm_live blocks (ps_env (mmal_pool_destroy (vcos_pool_ops sm sf cb) r s'))
     = sys_heap.vm_live blocks (ps_env s)"
  by (rule sys_heap.vcos_pool_destroy [OF assms])

theorem pool_create_destroy_leaks_nothing_witness:
  "\<exists>s'. pool_create_with_queue (vcos_pool_ops bump_malloc bump_free (\<lambda>_ _ _ _ s. (True, s)))
     VCOS_SUCCESS VCOS_SUCCESS 2 100 None (Some DEFAULT_ALLOCATOR) (Some DEFAULT_ALLOCATOR) example_heap
       = Some (Some 4208, s')
     \<and> bump.vm_live (ps_env (mmal_pool_destroy
         (vcos_pool_ops bump_malloc bump_free (\<lambda>_ _ _ _ s. (True, s))) (Some 4208) s')) = {}"
proof -
  have n: "small_pool 2 100" by (simp add: small_pool_def)
  obtain s' where c: "pool_create_with_queue
      (vcos_pool_ops bump_malloc bump_free (\<lambda>_ _ _ _ s. (True, s))) VCOS_SUCCESS VCOS_SUCCESS 2 100
      None (Some DEFAULT_ALLOCATOR) (Some DEFAULT_ALLOCATOR) example_heap = Some (Some 4208, s')"
    using example_pool by blast
  from pool_create_destroy_leaks_nothing [OF bump.sys_heap_axioms example_heap_inv(1) n c]
    c example_heap_inv(2) show ?thesis by blast
qed

text \<open>C2. No header of a pool is lost or handed out twice: after a successful creation and any
  sequence of gets from its queue, acquires and releases of held references by clients, the queued
  and the held headers are disjoint and together are all headers of the pool; the reference count of a
  held header is the number of references held; and releasing any held reference returns.\<close>

theorem pool_headers_conserved:
  assumes "sys_heap sm sf blocks hinv" and "sys_heap.vm_inv blocks hinv (ps_env s)"
    and "small_pool headers payload_size"
    and "pool_create_with_queue (vcos_pool_ops sm sf cb) mutex_st sema_st
       headers payload_size acontext aalloc afree s = Some (Some pool, s1)"
    and "(pool_step (vcos_pool_ops sm sf cb) pre pool)\<^sup>*\<^sup>* (s1, {#}) (t, held)"
  shows "(\<exists>xs. pool_queue_repr pool t xs \<and> distinct xs \<and> set xs \<inter> set_mset held = {}
      \<and> card (set xs \<union> set_mset held) = unat headers)
    \<and> (\<forall>h \<in># held. bh_refcount (bufs t h) = int (count held h)
        \<and> (\<exists>t'. pool_header_release (vcos_pool_ops sm sf cb) pre h t = Some t'))"
proof -
  obtain hs where hs: "card hs = unat headers" and inv: "cycle_inv pool hs (t, held)"
    using sys_heap.vcos_pool_cycle [OF assms] by blast
  have "\<exists>t'. pool_header_release (vcos_pool_ops sm sf cb) pre h t = Some t'" if "h \<in># held" for h
    using cycle_inv_release [OF inv that] by blast
  moreover have "\<exists>xs. pool_queue_repr pool t xs \<and> distinct xs \<and> set xs \<inter> set_mset held = {}
      \<and> card (set xs \<union> set_mset held) = unat headers"
    using inv hs queue_repr_distinct by (fastforce simp: cycle_inv_def pool_queue_repr_def)
  moreover have "bh_refcount (bufs t h) = int (count held h)" if "h \<in># held" for h
    using inv that by (auto simp: cycle_inv_def references_def)
  ultimately show ?thesis by blast
qed

lemma example_pool_run:
  "\<exists>s' t h. pool_create_with_queue (vcos_pool_ops bump_malloc bump_free cb) VCOS_SUCCESS VCOS_SUCCESS 2 100
       None (Some DEFAULT_ALLOCATOR) (Some DEFAULT_ALLOCATOR) example_heap = Some (Some 4208, s')
     \<and> (pool_step (vcos_pool_ops bump_malloc bump_free cb) pre 4208)\<^sup>*\<^sup>* (s', {#}) (t, {#h#})"
proof -
  have n: "small_pool 2 100" by (simp add: small_pool_def)
  obtain s' where c: "pool_create_with_queue (vcos_pool_ops bump_malloc bump_free cb)
      VCOS_SUCCESS VCOS_SUCCESS 2 100 None (Some DEFAULT_ALLOCATOR) (Some DEFAULT_ALLOCATOR) example_heap
      = Some (Some 4208, s')"
    using example_pool by blast
  have "n_headers_queued 4208 s'" and "pl_headers_num (ps_pool s' 4208) = 2"
    using bump.vcos_pool_create [OF example_heap_inv(1) n, of cb VCOS_SUCCESS VCOS_SUCCESS None
      "Some DEFAULT_ALLOCATOR" "Some DEFAULT_ALLOCATOR"] c by auto
  then obtain h xs where "pool_queue_repr 4208 s' (h # xs)"
    by (simp add: n_headers_queued_def numeral_2_eq_2 upt_conv_Cons)
  then obtain t where "pool_queue_get 4208 s' = Some (Some h, t)"
    using pool_queue_get_repr by blast
  then have "pool_step (vcos_pool_ops bump_malloc bump_free cb) pre 4208 (s', {#}) (t, {#h#})"
    by (rule step_get)
  with c show ?thesis by blast
qed

theorem pool_headers_conserved_witness:
  "\<exists>t h xs t'. pool_queue_repr 4208 t xs \<and> h \<notin> set xs \<and> length xs = 1 \<and> bh_refcount (bufs t h) = 1
     \<and> pool_header_release (vcos_pool_ops bump_malloc bump_free (\<lambda>_ _ _ _ s. (True, s)))
         (\<lambda>_ _ _ s. (False, s)) h t = Some t'"
proof -
  have n: "small_pool 2 100" by (simp add: small_pool_def)
  obtain s' t h where c: "pool_create_with_queue
      (vcos_pool_ops bump_malloc bump_free (\<lambda>_ _ _ _ s. (True, s))) VCOS_SUCCESS VCOS_SUCCESS 2 100
      None (Some DEFAULT_ALLOCATOR) (Some DEFAULT_ALLOCATOR) example_heap = Some (Some 4208, s')"
    and r: "(pool_step (vcos_pool_ops bump_malloc bump_free (\<lambda>_ _ _ _ s. (True, s)))
      (\<lambda>_ _ _ s. (False, s)) 4208)\<^sup>*\<^sup>* (s', {#}) (t, {#h#})"
    using example_pool_run [of "\<lambda>_ _ _ _ s. (True, s)" "\<lambda>_ _ _ s. (False, s)"] by blast
  from pool_headers_conserved [OF bump.sys_heap_axioms example_heap_inv(1) n c r]
  obtain xs t' where "pool_queue_repr 4208 t xs" and d: "distinct xs" "h \<notin> set xs"
    and k: "card (insert h (set xs)) = 2" and "bh_refcount (bufs t h) = 1"
    and "pool_header_release (vcos_pool_ops bump_malloc bump_free (\<lambda>_ _ _ _ s. (True, s)))
         (\<lambda>_ _ _ s. (False, s)) h t = Some t'"
    by auto
  moreover have "length xs = 1" using k d by (simp add: distinct_card)
  ultimately show ?thesis by blast
qed

end
