(* ===== verification/Mmal_Port_Clock.thy ===== *)
theory Mmal_Port_Clock
  imports Mmal_Port_Connect
begin

text \<open>
  Clock ports (\<^verbatim>\<open>core/mmal_port_clock.c\<close>): a port with a clock of its own. Updates of a reference port
  are written into an empty event buffer that waits in the port's queue and are given to the port it is
  connected to, which applies them to its clock. The operations of the clock are those of \<open>Mmal_Clock\<close>,
  with the state of all the ports as the rest of the world.
\<close>

section \<open>Parameters of the model\<close>

text \<open>
  Sizes of structures, what an uninitialised event holds, the bytes of another event read as a clock
  event, the resources a clock acquires to schedule requests, and the client's functions by identifier.
\<close>

record 'x clock_clients =
  kc_sizeof_event :: u32
  kc_sizeof_clock :: u32
  kc_sizeof_port_clock :: u32
  kc_stack_buffer :: ptr
  kc_stack :: "u32 list"
  kc_read :: "event_data \<Rightarrow> clock_event"
  kc_sched :: "'x \<Rightarrow> sched_results"
  kc_sched_taken :: "'x \<Rightarrow> 'x"
  kc_event :: "nat \<Rightarrow> addr \<Rightarrow> clock_event \<Rightarrow> 'x pst \<Rightarrow> 'x pst outcome"
  kc_request :: "nat \<Rightarrow> addr \<Rightarrow> int \<Rightarrow> nat \<Rightarrow> 'x pst \<Rightarrow> 'x pst outcome"

section \<open>Events\<close>

definition MMAL_CLOCK_EVENT_MAGIC :: u32 where "MMAL_CLOCK_EVENT_MAGIC = fourcc ''CKLM''"
definition MMAL_CLOCK_EVENT_REFERENCE :: u32 where "MMAL_CLOCK_EVENT_REFERENCE = fourcc ''CREF''"
definition MMAL_CLOCK_EVENT_ACTIVE :: u32 where "MMAL_CLOCK_EVENT_ACTIVE = fourcc ''CACT''"
definition MMAL_CLOCK_EVENT_SCALE :: u32 where "MMAL_CLOCK_EVENT_SCALE = fourcc ''CSCA''"
definition MMAL_CLOCK_EVENT_TIME :: u32 where "MMAL_CLOCK_EVENT_TIME = fourcc ''CTIM''"
definition MMAL_CLOCK_EVENT_UPDATE_THRESHOLD :: u32 where "MMAL_CLOCK_EVENT_UPDATE_THRESHOLD = fourcc ''CUTH''"
definition MMAL_CLOCK_EVENT_DISCONT_THRESHOLD :: u32 where "MMAL_CLOCK_EVENT_DISCONT_THRESHOLD = fourcc ''CDTH''"
definition MMAL_CLOCK_EVENT_REQUEST_THRESHOLD :: u32 where "MMAL_CLOCK_EVENT_REQUEST_THRESHOLD = fourcc ''CRTH''"
definition MMAL_CLOCK_EVENT_INPUT_BUFFER_INFO :: u32 where "MMAL_CLOCK_EVENT_INPUT_BUFFER_INFO = fourcc ''CIBI''"
definition MMAL_CLOCK_EVENT_OUTPUT_BUFFER_INFO :: u32 where "MMAL_CLOCK_EVENT_OUTPUT_BUFFER_INFO = fourcc ''COBI''"
definition MMAL_CLOCK_EVENT_INVALID :: u32 where "MMAL_CLOCK_EVENT_INVALID = 0"

definition MMAL_CLOCK_EVENT_INIT :: "u32 \<Rightarrow> clock_event" where
  "MMAL_CLOCK_EVENT_INIT i = \<lparr>ce_id = i, ce_magic = MMAL_CLOCK_EVENT_MAGIC, ce_buffer = None,
     ce_data = replicate 6 0\<rparr>"

text \<open>Members of the union: the words of a value, written over the beginning of the data and read from
  it. An \<open>MMAL_BOOL_T\<close> is true when it is not zero.\<close>

definition i64_words :: "int \<Rightarrow> u32 list" where "i64_words v = words_of_u64 (word_of_int v)"
definition i64_of :: "u32 list \<Rightarrow> int" where "i64_of ws = sint (u64_of_words ws)"
definition rational_words :: "mmal_rational \<Rightarrow> u32 list" where
  "rational_words r = [word_of_int (num r), word_of_int (den r)]"
definition rational_of :: "u32 list \<Rightarrow> mmal_rational" where
  "rational_of ws = \<lparr>num = sint (ws ! 0), den = sint (ws ! 1)\<rparr>"
definition bool_word :: "bool \<Rightarrow> u32" where "bool_word b = (if b then 1 else 0)"
definition pair_words :: "int \<times> int \<Rightarrow> u32 list" where "pair_words t = i64_words (fst t) @ i64_words (snd t)"
definition pair_of :: "u32 list \<Rightarrow> int \<times> int" where "pair_of ws = (i64_of ws, i64_of (drop 2 ws))"
definition request_words :: "int \<times> bool \<Rightarrow> u32 list" where
  "request_words t = i64_words (fst t) @ [bool_word (snd t)]"
definition request_of :: "u32 list \<Rightarrow> int \<times> bool" where "request_of ws = (i64_of ws, ws ! 2 \<noteq> 0)"
definition write_words :: "u32 list \<Rightarrow> u32 list \<Rightarrow> u32 list" where
  "write_words ws d = ws @ drop (length ws) d"

text \<open>\<open>memcpy\<close> of the event out of the data of a header.\<close>

definition event_in :: "'x clock_clients \<Rightarrow> addr \<Rightarrow> 'x pst \<Rightarrow> clock_event" where
  "event_in k d s = (case w_event (ps_env s) d of EventClock e \<Rightarrow> e | x \<Rightarrow> kc_read k x)"

section \<open>The clock of a port\<close>

definition upd_clock :: "addr \<Rightarrow> (clock_port \<Rightarrow> clock_port) \<Rightarrow> 'x pst \<Rightarrow> 'x pst" where
  "upd_clock p f = upd_port p (\<lambda>P. P\<lparr>po_clock := map_option f (po_clock P)\<rparr>)"

definition zero_clock_port :: clock_port where
  "zero_clock_port = \<lparr>cp_event_cb = None, cp_queue = None, cp_clock = None, cp_busy = False, cp_calls = [],
     cp_is_reference = 0, cp_buffer_info_reporting = 0\<rparr>"

text \<open>The callback that the clock module invokes gets the client's callback in \<open>priv\<close>; the port is
  the \<open>user_data\<close> of the clock.\<close>

definition mmal_port_clock_request_cb :: "'x clock_clients \<Rightarrow> addr \<Rightarrow> int \<Rightarrow> nat \<Rightarrow> nat \<Rightarrow> 'x pst \<Rightarrow> 'x pst outcome" where
  "mmal_port_clock_request_cb k p media_time cb_data cb s = kc_request k cb p media_time cb_data s"

definition clock_ops_of :: "'x port_ops \<Rightarrow> 'x clock_clients \<Rightarrow> addr \<Rightarrow> 'x pst clock_ops" where
  "clock_ops_of c k p = \<lparr>ko_now = vcos_getmicrosecs c,
     ko_callback = (\<lambda>r t. mmal_port_clock_request_cb k p t (cq_cb_data r) (cq_priv r))\<rparr>"

definition clock_in :: "clock_core \<Rightarrow> 'x \<Rightarrow> 'x mmal_clock" where
  "clock_in core s = clock_core.extend core (mmal_clock.fields s)"

definition core_of :: "'x mmal_clock \<Rightarrow> clock_core" where
  "core_of m = clock_core.truncate m"

text \<open>The calls of \<open>mmal_clock_active_set\<close> that came while the lock was held.\<close>

fun late_calls :: "bool list \<Rightarrow> 'x clock_step" where
  "late_calls [] m = ret m"
| "late_calls (a # as) m = andthen (mmal_clock_active_set a m) (late_calls as)"

definition calls_of :: "addr \<Rightarrow> 'x pst \<Rightarrow> bool list" where
  "calls_of p s = (case po_clock (port_of s p) of None \<Rightarrow> [] | Some q \<Rightarrow> cp_calls q)"

text \<open>
  An operation that takes the lock of the port's clock, which is not recursive: a callback of the
  client that comes back to the same clock waits for ever.
\<close>

definition on_clock ::
  "addr \<Rightarrow> ('x pst mmal_clock \<Rightarrow> ('a \<times> 'x pst mmal_clock) outcome) \<Rightarrow> 'x pst \<Rightarrow> ('a \<times> 'x pst) outcome" where
  "on_clock p f s =
     (case po_clock (port_of s p) of
        None \<Rightarrow> Some Faults
      | Some q \<Rightarrow>
          if cp_busy q then Some Blocks
          else case cp_clock q of
            None \<Rightarrow> Some Faults
          | Some (a, core) \<Rightarrow>
              andthen (f (clock_in core (upd_clock p (\<lambda>q. q\<lparr>cp_busy := True\<rparr>) s))) (\<lambda>(r, m).
              andthen (late_calls (calls_of p (ck_env m)) m) (\<lambda>m1.
              ret (r, upd_clock p (\<lambda>q. q\<lparr>cp_clock := Some (a, core_of m1), cp_busy := False, cp_calls := []\<rparr>)
                        (ck_env m1)))))"

definition clock_step_on :: "addr \<Rightarrow> 'x pst clock_step \<Rightarrow> 'x status_op" where
  "clock_step_on p f = on_clock p (\<lambda>m. andthen (f m) (\<lambda>m'. ret (MMAL_SUCCESS, m')))"

text \<open>Reading the clock, which changes nothing but the time read.\<close>

definition clock_value :: "addr \<Rightarrow> ('x pst mmal_clock \<Rightarrow> 'a) \<Rightarrow> 'x pst \<Rightarrow> ('a \<times> 'x pst) outcome" where
  "clock_value p f = on_clock p (\<lambda>m. ret (f m, m))"

text \<open>\<open>mmal_clock_active_set\<close> and \<open>mmal_clock_is_active\<close> on the port's clock.\<close>

definition clock_active_set :: "addr \<Rightarrow> bool \<Rightarrow> 'x status_op" where
  "clock_active_set p active s =
     (case po_clock (port_of s p) of
        None \<Rightarrow> Some Faults
      | Some q \<Rightarrow>
          if cp_busy q then ret (MMAL_SUCCESS, upd_clock p (\<lambda>q. q\<lparr>cp_calls := cp_calls q @ [active]\<rparr>) s)
          else clock_step_on p (mmal_clock_active_set active) s)"

definition clock_is_active :: "addr \<Rightarrow> 'x pst \<Rightarrow> bool outcome" where
  "clock_is_active p s =
     (case po_clock (port_of s p) of
        None \<Rightarrow> Some Faults
      | Some q \<Rightarrow>
          (case cp_clock q of
             None \<Rightarrow> Some Faults
           | Some (_, core) \<Rightarrow> ret (if cp_calls q = [] then mmal_clock_is_active (clock_in core s) else List.last (cp_calls q))))"

section \<open>Forwarding updates to the connected port\<close>

definition clock_queue_put :: "addr \<Rightarrow> addr \<Rightarrow> 'x pst \<Rightarrow> 'x pst outcome" where
  "clock_queue_put p b s =
     (case po_clock (port_of s p) of
        None \<Rightarrow> Some Faults
      | Some q \<Rightarrow> (case mmal_queue_put (cp_queue q, s) (Some b) of
                    (q', s') \<Rightarrow> ret (upd_clock p (\<lambda>k. k\<lparr>cp_queue := q'\<rparr>) s')))"

definition clock_queue_get :: "addr \<Rightarrow> 'x pst \<Rightarrow> (ptr \<times> 'x pst) outcome" where
  "clock_queue_get p s =
     (case po_clock (port_of s p) of
        None \<Rightarrow> Some Faults
      | Some q \<Rightarrow> or_blocks (map_option (\<lambda>(r, (q', s')). (r, upd_clock p (\<lambda>k. k\<lparr>cp_queue := q'\<rparr>) s'))
                    (mmal_queue_get (cp_queue q, s))))"

text \<open>Locking the memory of a header succeeds and does nothing off the VideoCore.\<close>

definition mmal_port_clock_forward_event ::
  "'x port_ops \<Rightarrow> 'x clock_clients \<Rightarrow> addr \<Rightarrow> clock_event \<Rightarrow> 'x status_op" where
  "mmal_port_clock_forward_event c k p event s =
     andthen (clock_queue_get p s) (\<lambda>(buffer, s1).
       case buffer of
         None \<Rightarrow> ret (MMAL_ENOSPC, s1)
       | Some b \<Rightarrow>
           andthen (write_event b (kc_sizeof_event k) (EventClock event) s1) (\<lambda>s2.
           andthen (mmal_port_buffer_header_callback c p b s2) (\<lambda>s3. ret (MMAL_SUCCESS, s3))))"

text \<open>An event on the stack, of which the identifier, the magic and one member of the data are set.\<close>

definition stack_event :: "'x clock_clients \<Rightarrow> u32 \<Rightarrow> u32 list \<Rightarrow> clock_event" where
  "stack_event k i ws = \<lparr>ce_id = i, ce_magic = MMAL_CLOCK_EVENT_MAGIC, ce_buffer = kc_stack_buffer k,
     ce_data = write_words ws (kc_stack k)\<rparr>"

definition mmal_port_clock_forward_active_state :: "'x port_ops \<Rightarrow> 'x clock_clients \<Rightarrow> addr \<Rightarrow> u32 \<Rightarrow> 'x status_op" where
  "mmal_port_clock_forward_active_state c k p active =
     mmal_port_clock_forward_event c k p (stack_event k MMAL_CLOCK_EVENT_ACTIVE [active])"

definition mmal_port_clock_forward_scale :: "'x port_ops \<Rightarrow> 'x clock_clients \<Rightarrow> addr \<Rightarrow> mmal_rational \<Rightarrow> 'x status_op" where
  "mmal_port_clock_forward_scale c k p scale =
     mmal_port_clock_forward_event c k p (stack_event k MMAL_CLOCK_EVENT_SCALE (rational_words scale))"

definition mmal_port_clock_forward_media_time :: "'x port_ops \<Rightarrow> 'x clock_clients \<Rightarrow> addr \<Rightarrow> int \<Rightarrow> 'x status_op" where
  "mmal_port_clock_forward_media_time c k p media_time =
     mmal_port_clock_forward_event c k p (stack_event k MMAL_CLOCK_EVENT_TIME (i64_words media_time))"

definition mmal_port_clock_forward_update_threshold :: "'x port_ops \<Rightarrow> 'x clock_clients \<Rightarrow> addr \<Rightarrow> int \<times> int \<Rightarrow> 'x status_op" where
  "mmal_port_clock_forward_update_threshold c k p t =
     mmal_port_clock_forward_event c k p (stack_event k MMAL_CLOCK_EVENT_UPDATE_THRESHOLD (pair_words t))"

definition mmal_port_clock_forward_discont_threshold :: "'x port_ops \<Rightarrow> 'x clock_clients \<Rightarrow> addr \<Rightarrow> int \<times> int \<Rightarrow> 'x status_op" where
  "mmal_port_clock_forward_discont_threshold c k p t =
     mmal_port_clock_forward_event c k p (stack_event k MMAL_CLOCK_EVENT_DISCONT_THRESHOLD (pair_words t))"

definition mmal_port_clock_forward_request_threshold :: "'x port_ops \<Rightarrow> 'x clock_clients \<Rightarrow> addr \<Rightarrow> int \<times> bool \<Rightarrow> 'x status_op" where
  "mmal_port_clock_forward_request_threshold c k p t =
     mmal_port_clock_forward_event c k p (stack_event k MMAL_CLOCK_EVENT_REQUEST_THRESHOLD (request_words t))"

text \<open>\<open>MMAL_CLOCK_BUFFER_INFO_T\<close>: the time stamp and the arrival time.\<close>

definition info_words :: "int \<times> u32 \<Rightarrow> u32 list" where "info_words i = i64_words (fst i) @ [snd i]"

definition mmal_port_clock_forward_input_buffer_info :: "'x port_ops \<Rightarrow> 'x clock_clients \<Rightarrow> addr \<Rightarrow> int \<times> u32 \<Rightarrow> 'x status_op" where
  "mmal_port_clock_forward_input_buffer_info c k p info =
     mmal_port_clock_forward_event c k p (stack_event k MMAL_CLOCK_EVENT_INPUT_BUFFER_INFO (info_words info))"

definition mmal_port_clock_forward_output_buffer_info :: "'x port_ops \<Rightarrow> 'x clock_clients \<Rightarrow> addr \<Rightarrow> int \<times> u32 \<Rightarrow> 'x status_op" where
  "mmal_port_clock_forward_output_buffer_info c k p info =
     mmal_port_clock_forward_event c k p (stack_event k MMAL_CLOCK_EVENT_OUTPUT_BUFFER_INFO (info_words info))"

section \<open>Public functions\<close>

text \<open>The port's flags, read with \<open>cf\<close>.\<close>

definition clock_field :: "addr \<Rightarrow> (clock_port \<Rightarrow> 'a) \<Rightarrow> 'x pst \<Rightarrow> 'a outcome" where
  "clock_field p cf s = or_faults (map_option cf (po_clock (port_of s p)))"

definition mmal_port_clock_reference_set :: "addr \<Rightarrow> u32 \<Rightarrow> 'x status_op" where
  "mmal_port_clock_reference_set p reference s =
     andthen (clock_field p id s) (\<lambda>_.
       ret (MMAL_SUCCESS, upd_clock p (\<lambda>q. q\<lparr>cp_is_reference := reference\<rparr>) s))"

definition mmal_port_clock_reference_get :: "addr \<Rightarrow> 'x pst \<Rightarrow> u32 outcome" where
  "mmal_port_clock_reference_get p = clock_field p cp_is_reference"

text \<open>What every setter does: set the clock, and when the port is a reference forward the update.\<close>

definition set_and_forward :: "addr \<Rightarrow> 'x status_op \<Rightarrow> 'x status_op \<Rightarrow> 'x status_op" where
  "set_and_forward p set_op forward s =
     andthen (set_op s) (\<lambda>(status, s1).
       if status \<noteq> MMAL_SUCCESS then ret (status, s1)
       else andthen (clock_field p cp_is_reference s1) (\<lambda>r.
         if r \<noteq> 0 then forward s1 else ret (status, s1)))"

definition mmal_port_clock_active_set :: "'x port_ops \<Rightarrow> 'x clock_clients \<Rightarrow> addr \<Rightarrow> u32 \<Rightarrow> 'x status_op" where
  "mmal_port_clock_active_set c k p active =
     set_and_forward p (clock_active_set p (active \<noteq> 0)) (mmal_port_clock_forward_active_state c k p active)"

definition mmal_port_clock_active_get :: "addr \<Rightarrow> 'x pst \<Rightarrow> bool outcome" where
  "mmal_port_clock_active_get p = clock_is_active p"

definition mmal_port_clock_scale_set :: "'x port_ops \<Rightarrow> 'x clock_clients \<Rightarrow> addr \<Rightarrow> mmal_rational \<Rightarrow> 'x status_op" where
  "mmal_port_clock_scale_set c k p scale =
     set_and_forward p (clock_step_on p (mmal_clock_scale_set (clock_ops_of c k p) scale))
       (mmal_port_clock_forward_scale c k p scale)"

definition mmal_port_clock_scale_get :: "addr \<Rightarrow> 'x pst \<Rightarrow> (mmal_rational \<times> 'x pst) outcome" where
  "mmal_port_clock_scale_get p = clock_value p mmal_clock_scale_get"

definition mmal_port_clock_media_time_set :: "'x port_ops \<Rightarrow> 'x clock_clients \<Rightarrow> addr \<Rightarrow> int \<Rightarrow> 'x status_op" where
  "mmal_port_clock_media_time_set c k p media_time =
     set_and_forward p (clock_step_on p (mmal_clock_media_time_set (clock_ops_of c k p) media_time))
       (mmal_port_clock_forward_media_time c k p media_time)"

definition mmal_port_clock_media_time_get :: "'x port_ops \<Rightarrow> 'x clock_clients \<Rightarrow> addr \<Rightarrow> 'x pst \<Rightarrow> (int \<times> 'x pst) outcome" where
  "mmal_port_clock_media_time_get c k p = on_clock p (mmal_clock_media_time_get (clock_ops_of c k p))"

definition clock_update_on :: "addr \<Rightarrow> ('x pst mmal_clock \<Rightarrow> 'x pst mmal_clock) \<Rightarrow> 'x status_op" where
  "clock_update_on p f = clock_step_on p (\<lambda>m. ret (f m))"

definition mmal_port_clock_update_threshold_set :: "'x port_ops \<Rightarrow> 'x clock_clients \<Rightarrow> addr \<Rightarrow> int \<times> int \<Rightarrow> 'x status_op" where
  "mmal_port_clock_update_threshold_set c k p t =
     set_and_forward p (clock_update_on p (mmal_clock_update_threshold_set t))
       (mmal_port_clock_forward_update_threshold c k p t)"

definition mmal_port_clock_update_threshold_get :: "addr \<Rightarrow> 'x pst \<Rightarrow> ((int \<times> int) \<times> 'x pst) outcome" where
  "mmal_port_clock_update_threshold_get p = clock_value p mmal_clock_update_threshold_get"

definition mmal_port_clock_discont_threshold_set :: "'x port_ops \<Rightarrow> 'x clock_clients \<Rightarrow> addr \<Rightarrow> int \<times> int \<Rightarrow> 'x status_op" where
  "mmal_port_clock_discont_threshold_set c k p t =
     set_and_forward p (clock_update_on p (mmal_clock_discont_threshold_set t))
       (mmal_port_clock_forward_discont_threshold c k p t)"

definition mmal_port_clock_discont_threshold_get :: "addr \<Rightarrow> 'x pst \<Rightarrow> ((int \<times> int) \<times> 'x pst) outcome" where
  "mmal_port_clock_discont_threshold_get p = clock_value p mmal_clock_discont_threshold_get"

definition mmal_port_clock_request_threshold_set :: "'x port_ops \<Rightarrow> 'x clock_clients \<Rightarrow> addr \<Rightarrow> int \<times> bool \<Rightarrow> 'x status_op" where
  "mmal_port_clock_request_threshold_set c k p t =
     set_and_forward p (clock_update_on p (mmal_clock_request_threshold_set t))
       (mmal_port_clock_forward_request_threshold c k p t)"

definition mmal_port_clock_request_threshold_get :: "addr \<Rightarrow> 'x pst \<Rightarrow> ((int \<times> bool) \<times> 'x pst) outcome" where
  "mmal_port_clock_request_threshold_get p = clock_value p mmal_clock_request_threshold_get"

definition mmal_port_clock_input_buffer_info :: "'x port_ops \<Rightarrow> 'x clock_clients \<Rightarrow> addr \<Rightarrow> int \<times> u32 \<Rightarrow> 'x pst \<Rightarrow> 'x pst outcome" where
  "mmal_port_clock_input_buffer_info c k p info s =
     andthen (clock_field p cp_buffer_info_reporting s) (\<lambda>r.
       if r \<noteq> 0 then andthen (mmal_port_clock_forward_input_buffer_info c k p info s) (\<lambda>(_, s1). ret s1)
       else ret s)"

definition mmal_port_clock_output_buffer_info :: "'x port_ops \<Rightarrow> 'x clock_clients \<Rightarrow> addr \<Rightarrow> int \<times> u32 \<Rightarrow> 'x pst \<Rightarrow> 'x pst outcome" where
  "mmal_port_clock_output_buffer_info c k p info s =
     andthen (clock_field p cp_buffer_info_reporting s) (\<lambda>r.
       if r \<noteq> 0 then andthen (mmal_port_clock_forward_output_buffer_info c k p info s) (\<lambda>(_, s1). ret s1)
       else ret s)"

text \<open>A request: the callback of the client travels as the private pointer of the clock's request.
  The resources for scheduling are acquired by the first request that is not dropped.\<close>

definition CLOCK_REQUEST_CB :: nat where "CLOCK_REQUEST_CB = 0"

definition port_scheduling :: "addr \<Rightarrow> 'x pst \<Rightarrow> bool" where
  "port_scheduling p s =
     (case Option.bind (po_clock (port_of s p)) cp_clock of None \<Rightarrow> False | Some (_, core) \<Rightarrow> ck_scheduling core)"

definition mmal_port_clock_request_add ::
  "'x port_ops \<Rightarrow> 'x clock_clients \<Rightarrow> addr \<Rightarrow> int \<Rightarrow> nat \<Rightarrow> nat \<Rightarrow> 'x status_op" where
  "mmal_port_clock_request_add c k p media_time cb cb_data s =
     (let res = kc_sched k (w_env (ps_env s)); had = port_scheduling p s
      in andthen (on_clock p (mmal_clock_request_add (clock_ops_of c k p) res media_time CLOCK_REQUEST_CB cb_data cb) s)
           (\<lambda>(status, s1).
             ret (status, if \<not> had \<and> status \<noteq> MMAL_ECORRUPT then upd_env (kc_sched_taken k) s1 else s1)))"

definition mmal_port_clock_request_flush :: "'x port_ops \<Rightarrow> 'x clock_clients \<Rightarrow> addr \<Rightarrow> 'x status_op" where
  "mmal_port_clock_request_flush c k p = clock_step_on p (mmal_clock_request_flush (clock_ops_of c k p))"

text \<open>A round of the worker thread of the port's clock and the expiry of its timer.\<close>

definition port_clock_worker :: "'x port_ops \<Rightarrow> 'x clock_clients \<Rightarrow> addr \<Rightarrow> 'x pst \<Rightarrow> (bool \<times> 'x pst) outcome" where
  "port_clock_worker c k p = on_clock p (mmal_clock_worker_thread (clock_ops_of c k p))"

definition port_clock_timer :: "addr \<Rightarrow> 'x status_op" where
  "port_clock_timer p = clock_step_on p mmal_clock_timer_cb"

section \<open>Events received from another clock port\<close>

text \<open>The switch on the identifier: what the event does to the clock.\<close>

definition apply_event :: "'x port_ops \<Rightarrow> 'x clock_clients \<Rightarrow> addr \<Rightarrow> clock_event \<Rightarrow> 'x status_op" where
  "apply_event c k p event s =
     (let d = ce_data event; i = ce_id event in
      if i = MMAL_CLOCK_EVENT_ACTIVE then clock_active_set p (d ! 0 \<noteq> 0) s
      else if i = MMAL_CLOCK_EVENT_TIME
      then clock_step_on p (mmal_clock_media_time_set (clock_ops_of c k p) (i64_of d)) s
      else if i = MMAL_CLOCK_EVENT_SCALE
      then clock_step_on p (mmal_clock_scale_set (clock_ops_of c k p) (rational_of d)) s
      else if i = MMAL_CLOCK_EVENT_UPDATE_THRESHOLD
      then clock_update_on p (mmal_clock_update_threshold_set (pair_of d)) s
      else if i = MMAL_CLOCK_EVENT_DISCONT_THRESHOLD
      then clock_update_on p (mmal_clock_discont_threshold_set (pair_of d)) s
      else if i = MMAL_CLOCK_EVENT_REQUEST_THRESHOLD
      then clock_update_on p (mmal_clock_request_threshold_set (request_of d)) s
      else if i = MMAL_CLOCK_EVENT_INPUT_BUFFER_INFO \<or> i = MMAL_CLOCK_EVENT_OUTPUT_BUFFER_INFO
      then ret (MMAL_SUCCESS, s)
      else ret (MMAL_EINVAL, s))"

text \<open>\<open>buffer->length = 0; mmal_port_buffer_header_callback(port, buffer)\<close>\<close>

definition return_empty :: "'x port_ops \<Rightarrow> addr \<Rightarrow> addr \<Rightarrow> 'x pst \<Rightarrow> 'x pst outcome" where
  "return_empty c p b s = mmal_port_buffer_header_callback c p b (upd_buf b (\<lambda>B. B\<lparr>bh_length := 0\<rparr>) s)"

definition mmal_port_clock_process_buffer ::
  "'x port_ops \<Rightarrow> 'x clock_clients \<Rightarrow> addr \<Rightarrow> addr \<Rightarrow> 'x status_op" where
  "mmal_port_clock_process_buffer c k p buffer s =
     (if bh_length (bufs s buffer) \<noteq> kc_sizeof_event k then ret (MMAL_EINVAL, s)
      else case bh_data (bufs s buffer) of
        None \<Rightarrow> Some Faults
      | Some d \<Rightarrow>
          let event = event_in k d s in
          if ce_magic event \<noteq> MMAL_CLOCK_EVENT_MAGIC
          then andthen (return_empty c p buffer s) (\<lambda>s1. ret (MMAL_EINVAL, s1))
          else andthen (apply_event c k p event s) (\<lambda>(status, s1).
               andthen (clock_field p cp_event_cb s1) (\<lambda>cb.
               case cb of
                 Some f \<Rightarrow>
                   if status = MMAL_SUCCESS
                   then andthen (kc_event k f p (event\<lparr>ce_buffer := Some buffer\<rparr>) s1) (\<lambda>s2. ret (status, s2))
                   else andthen (return_empty c p buffer s1) (\<lambda>s2. ret (status, s2))
               | None \<Rightarrow> andthen (return_empty c p buffer s1) (\<lambda>s2. ret (status, s2)))))"

definition mmal_port_clock_send :: "'x port_ops \<Rightarrow> 'x clock_clients \<Rightarrow> addr \<Rightarrow> addr \<Rightarrow> 'x status_op" where
  "mmal_port_clock_send c k p buffer s =
     (if bh_length (bufs s buffer) \<noteq> 0 then mmal_port_clock_process_buffer c k p buffer s
      else andthen (clock_queue_put p buffer s) (\<lambda>s1. ret (MMAL_SUCCESS, s1)))"

partial_function (option) clock_flush_loop :: "'x port_ops \<Rightarrow> addr \<Rightarrow> 'x pst \<Rightarrow> 'x pst outcome" where
  "clock_flush_loop c p s =
     andthen (clock_queue_get p s) (\<lambda>r.
       case fst r of
         None \<Rightarrow> ret (snd r)
       | Some b \<Rightarrow> andthen (mmal_port_buffer_header_callback c p b (snd r)) (clock_flush_loop c p))"

definition mmal_port_clock_flush :: "'x port_ops \<Rightarrow> addr \<Rightarrow> 'x status_op" where
  "mmal_port_clock_flush c p s = andthen (clock_flush_loop c p s) (\<lambda>s1. ret (MMAL_SUCCESS, s1))"

section \<open>Parameters\<close>

definition MMAL_PARAMETER_GROUP_CLOCK :: u32 where "MMAL_PARAMETER_GROUP_CLOCK = push_bit 16 4"
definition MMAL_PARAMETER_CLOCK_REFERENCE :: u32 where "MMAL_PARAMETER_CLOCK_REFERENCE = MMAL_PARAMETER_GROUP_CLOCK"
definition MMAL_PARAMETER_CLOCK_ACTIVE :: u32 where "MMAL_PARAMETER_CLOCK_ACTIVE = MMAL_PARAMETER_GROUP_CLOCK + 1"
definition MMAL_PARAMETER_CLOCK_SCALE :: u32 where "MMAL_PARAMETER_CLOCK_SCALE = MMAL_PARAMETER_GROUP_CLOCK + 2"
definition MMAL_PARAMETER_CLOCK_TIME :: u32 where "MMAL_PARAMETER_CLOCK_TIME = MMAL_PARAMETER_GROUP_CLOCK + 3"
definition MMAL_PARAMETER_CLOCK_UPDATE_THRESHOLD :: u32 where "MMAL_PARAMETER_CLOCK_UPDATE_THRESHOLD = MMAL_PARAMETER_GROUP_CLOCK + 4"
definition MMAL_PARAMETER_CLOCK_DISCONT_THRESHOLD :: u32 where "MMAL_PARAMETER_CLOCK_DISCONT_THRESHOLD = MMAL_PARAMETER_GROUP_CLOCK + 5"
definition MMAL_PARAMETER_CLOCK_REQUEST_THRESHOLD :: u32 where "MMAL_PARAMETER_CLOCK_REQUEST_THRESHOLD = MMAL_PARAMETER_GROUP_CLOCK + 6"
definition MMAL_PARAMETER_CLOCK_ENABLE_BUFFER_INFO :: u32 where "MMAL_PARAMETER_CLOCK_ENABLE_BUFFER_INFO = MMAL_PARAMETER_GROUP_CLOCK + 7"

text \<open>What \<open>set\<close> does for the parameters that have an event: the status, and the event that tells the
  component. \<open>MMAL_CLOCK_EVENT_INIT\<close> clears the data.\<close>

definition set_event_of :: "u32 \<Rightarrow> u32 list \<Rightarrow> clock_event" where
  "set_event_of i ws = (MMAL_CLOCK_EVENT_INIT i)\<lparr>ce_data := write_words ws (replicate 6 0)\<rparr>"

definition notify_component ::
  "'x clock_clients \<Rightarrow> addr \<Rightarrow> clock_event \<Rightarrow> (mmal_status \<times> 'x pst) outcome \<Rightarrow> (mmal_status \<times> 'x pst) outcome" where
  "notify_component k p event r =
     andthen r (\<lambda>(status, s1).
     andthen (clock_field p cp_event_cb s1) (\<lambda>cb.
       case cb of
         Some f \<Rightarrow> if status = MMAL_SUCCESS then andthen (kc_event k f p event s1) (\<lambda>s2. ret (status, s2))
                   else ret (status, s1)
       | None \<Rightarrow> ret (status, s1)))"

definition mmal_port_clock_parameter_set ::
  "'x port_ops \<Rightarrow> 'x clock_clients \<Rightarrow> addr \<Rightarrow> parameter \<Rightarrow> 'x status_op" where
  "mmal_port_clock_parameter_set c k p param s =
     (let i = pm_id param; d = pm_data param in
      if i = MMAL_PARAMETER_CLOCK_REFERENCE
      then notify_component k p (set_event_of MMAL_CLOCK_EVENT_REFERENCE [d ! 0])
             (mmal_port_clock_reference_set p (d ! 0) s)
      else if i = MMAL_PARAMETER_CLOCK_ACTIVE
      then notify_component k p (set_event_of MMAL_CLOCK_EVENT_ACTIVE [d ! 0])
             (mmal_port_clock_active_set c k p (d ! 0) s)
      else if i = MMAL_PARAMETER_CLOCK_SCALE
      then notify_component k p (set_event_of MMAL_CLOCK_EVENT_SCALE (rational_words (rational_of d)))
             (mmal_port_clock_scale_set c k p (rational_of d) s)
      else if i = MMAL_PARAMETER_CLOCK_TIME
      then notify_component k p (set_event_of MMAL_CLOCK_EVENT_TIME (i64_words (i64_of d)))
             (mmal_port_clock_media_time_set c k p (i64_of d) s)
      else if i = MMAL_PARAMETER_CLOCK_UPDATE_THRESHOLD
      then notify_component k p (set_event_of MMAL_CLOCK_EVENT_UPDATE_THRESHOLD (pair_words (pair_of d)))
             (mmal_port_clock_update_threshold_set c k p (pair_of d) s)
      else if i = MMAL_PARAMETER_CLOCK_DISCONT_THRESHOLD
      then notify_component k p (set_event_of MMAL_CLOCK_EVENT_DISCONT_THRESHOLD (pair_words (pair_of d)))
             (mmal_port_clock_discont_threshold_set c k p (pair_of d) s)
      else if i = MMAL_PARAMETER_CLOCK_REQUEST_THRESHOLD
      then notify_component k p (set_event_of MMAL_CLOCK_EVENT_REQUEST_THRESHOLD (request_words (request_of d)))
             (mmal_port_clock_request_threshold_set c k p (request_of d) s)
      else if i = MMAL_PARAMETER_CLOCK_ENABLE_BUFFER_INFO
      then andthen (clock_field p id s) (\<lambda>_.
             ret (MMAL_SUCCESS, upd_clock p (\<lambda>q. q\<lparr>cp_buffer_info_reporting := d ! 0\<rparr>) s))
      else ret (MMAL_ENOSYS, s))"

text \<open>A value read from the clock, written into the words of the parameter.\<close>

definition put_value ::
  "parameter \<Rightarrow> ('a \<Rightarrow> u32 list) \<Rightarrow> ('a \<times> 'x pst) outcome \<Rightarrow> (mmal_status \<times> parameter \<times> 'x pst) outcome" where
  "put_value param words r =
     andthen r (\<lambda>(v, s1).
       ret (MMAL_SUCCESS, param\<lparr>pm_data := write_words (words v) (pm_data param)\<rparr>, s1))"

definition pure_value :: "'a outcome \<Rightarrow> 'x pst \<Rightarrow> ('a \<times> 'x pst) outcome" where
  "pure_value r s = andthen r (\<lambda>v. ret (v, s))"

definition mmal_port_clock_parameter_get ::
  "'x port_ops \<Rightarrow> 'x clock_clients \<Rightarrow> addr \<Rightarrow> parameter \<Rightarrow> 'x pst \<Rightarrow> (mmal_status \<times> parameter \<times> 'x pst) outcome" where
  "mmal_port_clock_parameter_get c k p param s =
     (let i = pm_id param in
      if i = MMAL_PARAMETER_CLOCK_REFERENCE
      then put_value param (\<lambda>v. [v]) (pure_value (clock_field p cp_is_reference s) s)
      else if i = MMAL_PARAMETER_CLOCK_ACTIVE
      then put_value param (\<lambda>v. [bool_word v]) (pure_value (clock_is_active p s) s)
      else if i = MMAL_PARAMETER_CLOCK_SCALE
      then put_value param rational_words (clock_value p mmal_clock_scale_get s)
      else if i = MMAL_PARAMETER_CLOCK_TIME
      then put_value param i64_words (on_clock p (mmal_clock_media_time_get (clock_ops_of c k p)) s)
      else if i = MMAL_PARAMETER_CLOCK_UPDATE_THRESHOLD
      then put_value param pair_words (clock_value p mmal_clock_update_threshold_get s)
      else if i = MMAL_PARAMETER_CLOCK_DISCONT_THRESHOLD
      then put_value param pair_words (clock_value p mmal_clock_discont_threshold_get s)
      else if i = MMAL_PARAMETER_CLOCK_REQUEST_THRESHOLD
      then put_value param request_words (clock_value p mmal_clock_request_threshold_get s)
      else if i = MMAL_PARAMETER_CLOCK_ENABLE_BUFFER_INFO
      then put_value param (\<lambda>v. [v]) (pure_value (clock_field p cp_buffer_info_reporting s) s)
      else ret (MMAL_ENOSYS, param, s))"

section \<open>Enabling, disabling, connecting\<close>

definition mmal_port_clock_enable :: "addr \<Rightarrow> nat option \<Rightarrow> 'x status_op" where
  "mmal_port_clock_enable p cb s = ret (MMAL_SUCCESS, s)"

definition mmal_port_clock_disable :: "'x port_ops \<Rightarrow> addr \<Rightarrow> 'x status_op" where
  "mmal_port_clock_disable c p s =
     andthen (clock_is_active p s) (\<lambda>active.
     andthen (if active then clock_active_set p False s else ret (MMAL_SUCCESS, s)) (\<lambda>(_, s1).
     andthen (mmal_port_clock_flush c p s1) (\<lambda>(_, s2). ret (MMAL_SUCCESS, s2))))"

definition mmal_port_clock_set_format :: "addr \<Rightarrow> 'x status_op" where
  "mmal_port_clock_set_format p s = ret (MMAL_SUCCESS, s)"

definition mmal_port_clock_connect :: "addr \<Rightarrow> ptr \<Rightarrow> 'x status_op" where
  "mmal_port_clock_connect p other s = ret (MMAL_ENOSYS, s)"

section \<open>Allocation\<close>

definition CLOCK_PORT :: nat where "CLOCK_PORT = 6"
definition MMAL_PORT_CLOCK_BUFFERS_MIN :: u32 where "MMAL_PORT_CLOCK_BUFFERS_MIN = 16"

text \<open>\<open>mmal_clock_create\<close> with its block and its mutex.\<close>

definition port_clock_create :: "'x port_ops \<Rightarrow> 'x clock_clients \<Rightarrow> addr \<Rightarrow> 'x status_op" where
  "port_clock_create c k p s =
     (let (block, s1) = vcos_malloc c (kc_sizeof_clock k) s;
          (lock, s2) = (if block \<noteq> None then vcos_sync_create c s1 else (False, s1))
      in andthen (mmal_clock_create (clock_ops_of c k p) True (block \<noteq> None)
                    (if lock then VCOS_SUCCESS else VCOS_ENOMEM) s2) (\<lambda>(status, clock).
         ret (status, case (block, clock) of
            (Some a, Some m) \<Rightarrow> upd_clock p (\<lambda>q. q\<lparr>cp_clock := Some (a, core_of m)\<rparr>) (ck_env m)
          | (Some a, None) \<Rightarrow> vcos_free c a s2
          | _ \<Rightarrow> s2)))"

text \<open>\<open>mmal_clock_destroy\<close> with the block.\<close>

definition port_clock_destroy :: "'x port_ops \<Rightarrow> 'x clock_clients \<Rightarrow> addr \<Rightarrow> 'x pst \<Rightarrow> 'x pst outcome" where
  "port_clock_destroy c k p s =
     (case Option.bind (po_clock (port_of s p)) cp_clock of
        None \<Rightarrow> Some Faults
      | Some (a, _) \<Rightarrow>
          andthen (clock_step_on p (mmal_clock_destroy (clock_ops_of c k p)) s) (\<lambda>(_, s1).
          ret (vcos_free c a (upd_clock p (\<lambda>q. q\<lparr>cp_clock := None\<rparr>) s1))))"

definition clock_functions :: "mmal_port \<Rightarrow> mmal_port" where
  "clock_functions P = P\<lparr>po_pf_set_format := Some CLOCK_PORT, po_pf_enable := Some CLOCK_PORT,
     po_pf_disable := Some CLOCK_PORT, po_pf_send := Some CLOCK_PORT, po_pf_flush := Some CLOCK_PORT,
     po_pf_parameter_set := Some CLOCK_PORT, po_pf_parameter_get := Some CLOCK_PORT,
     po_pf_connect := Some CLOCK_PORT\<rparr>"

definition clock_buffers :: "u32 \<Rightarrow> mmal_port \<Rightarrow> mmal_port" where
  "clock_buffers n P = P\<lparr>po_buffer_size := n, po_buffer_size_min := n,
     po_buffer_num_min := MMAL_PORT_CLOCK_BUFFERS_MIN,
     po_buffer_num_recommended := MMAL_PORT_CLOCK_BUFFERS_MIN\<rparr>"

definition mmal_port_clock_setup :: "'x port_ops \<Rightarrow> 'x clock_clients \<Rightarrow> addr \<Rightarrow> nat option \<Rightarrow> 'x status_op" where
  "mmal_port_clock_setup c k p event_cb s =
     or_else (port_clock_create c k p (upd_port p (\<lambda>P. P\<lparr>po_clock := Some zero_clock_port\<rparr>) s))
       (\<lambda>s1. let s2 = upd_clock p (\<lambda>q. q\<lparr>cp_event_cb := event_cb\<rparr>)
                        (upd_port p (clock_buffers (kc_sizeof_event k)) s1);
                (queue, s3) = world_queue_create c s2
            in case queue of
                 None \<Rightarrow> andthen (port_clock_destroy c k p s3) (\<lambda>s4. ret (MMAL_ENOMEM, s4))
               | Some q0 \<Rightarrow>
                   ret (MMAL_SUCCESS, upd_port p clock_functions
                          (upd_clock p (\<lambda>q. q\<lparr>cp_queue := Some q0\<rparr>) s3)))
       (\<lambda>status s1. ret (status, s1))"

definition mmal_port_clock_teardown :: "'x port_ops \<Rightarrow> 'x clock_clients \<Rightarrow> ptr \<Rightarrow> 'x pst \<Rightarrow> 'x pst outcome" where
  "mmal_port_clock_teardown c k port s =
     (case port of
        None \<Rightarrow> ret s
      | Some p \<Rightarrow> port_clock_destroy c k p (upd_clock p (\<lambda>q. q\<lparr>cp_queue := None\<rparr>) s))"

definition mmal_port_clock_alloc ::
  "'x port_ops \<Rightarrow> 'x clock_clients \<Rightarrow> addr \<Rightarrow> u32 \<Rightarrow> nat option \<Rightarrow> 'x pst \<Rightarrow> (ptr \<times> 'x pst) outcome" where
  "mmal_port_clock_alloc c k component extra_size event_cb s =
     (let (port, s1) = mmal_port_alloc c component MMAL_PORT_TYPE_CLOCK (extra_size + kc_sizeof_port_clock k) s
      in case port of
           None \<Rightarrow> ret (None, s1)
         | Some p \<Rightarrow>
             or_else (mmal_port_clock_setup c k p event_cb s1)
               (\<lambda>s2. ret (Some p, s2))
               (\<lambda>_ s2. andthen (mmal_port_free c (Some p) s2) (\<lambda>s3. ret (None, s3))))"

definition mmal_port_clock_free :: "'x port_ops \<Rightarrow> 'x clock_clients \<Rightarrow> ptr \<Rightarrow> 'x pst \<Rightarrow> 'x pst outcome" where
  "mmal_port_clock_free c k port s =
     andthen (mmal_port_clock_teardown c k port s) (mmal_port_free c port)"

text \<open>The loop that sets up the ports: how many were set up.\<close>

fun clock_setup_loop ::
  "'x port_ops \<Rightarrow> 'x clock_clients \<Rightarrow> nat option \<Rightarrow> nat \<Rightarrow> addr list \<Rightarrow> 'x pst \<Rightarrow> (nat \<times> 'x pst) outcome" where
  "clock_setup_loop c k event_cb i [] s = ret (i, s)"
| "clock_setup_loop c k event_cb i (p # ps) s =
     or_else (mmal_port_clock_setup c k p event_cb s)
       (clock_setup_loop c k event_cb (i + 1) ps) (\<lambda>_ s1. ret (i, s1))"

fun clock_free_loop :: "'x port_ops \<Rightarrow> 'x clock_clients \<Rightarrow> addr list \<Rightarrow> 'x pst \<Rightarrow> 'x pst outcome" where
  "clock_free_loop c k [] s = ret s"
| "clock_free_loop c k (p # ps) s = andthen (mmal_port_clock_free c k (Some p) s) (clock_free_loop c k ps)"

definition mmal_ports_clock_alloc ::
  "'x port_ops \<Rightarrow> 'x clock_clients \<Rightarrow> addr \<Rightarrow> u32 \<Rightarrow> u32 \<Rightarrow> nat option \<Rightarrow> 'x pst
     \<Rightarrow> ((addr \<times> addr list) option \<times> 'x pst) outcome" where
  "mmal_ports_clock_alloc c k component ports_num extra_size event_cb s =
     andthen (mmal_ports_alloc c component ports_num MMAL_PORT_TYPE_CLOCK
                (extra_size + kc_sizeof_port_clock k) s) (\<lambda>(ports, s1).
       case ports of
         None \<Rightarrow> ret (None, s1)
       | Some (base, ps) \<Rightarrow>
           andthen (clock_setup_loop c k event_cb 0 ps s1) (\<lambda>(i, s2).
             if i \<noteq> unat ports_num
             then andthen (clock_free_loop c k (take i ps) s2) (\<lambda>s3. ret (None, vcos_free c base s3))
             else ret (Some (base, ps), s2)))"

definition mmal_ports_clock_free ::
  "'x port_ops \<Rightarrow> 'x clock_clients \<Rightarrow> addr \<Rightarrow> addr list \<Rightarrow> 'x pst \<Rightarrow> 'x pst outcome" where
  "mmal_ports_clock_free c k base ports s =
     andthen (clock_free_loop c k ports s) (\<lambda>s1. ret (vcos_free c base s1))"

end
