(* ===== verification/Mmal_Clock_Facts.thy ===== *)
theory Mmal_Clock_Facts
  imports Mmal_Clock "HOL-Library.Multiset"
begin

text \<open>
  Properties of the clock: the request slots are conserved and the pending requests stay in order of
  their media time under every operation; a round of the worker services the due requests in order
  and leaves the timer set for the next one; a second failure to create the scheduling resources
  frees the request lists again.
\<close>

declare mmal_list_pop_front.simps [simp del] mmal_list_push_front.simps [simp del]
  mmal_list_push_back.simps [simp del]

section \<open>The two lists of a clock\<close>

text \<open>\<open>clock_lists\<close>: the free list holds \<open>fs\<close>, the pending list \<open>ps\<close>, and they share no slot.\<close>

definition clock_lists ::
  "ptr \<Rightarrow> ptr \<Rightarrow> (addr \<Rightarrow> mmal_list option) \<Rightarrow> elements \<Rightarrow> addr list \<Rightarrow> addr list \<Rightarrow> bool" where
  "clock_lists lf lp L K ps fs \<longleftrightarrow>
     (\<exists>a b l m. lp = Some a \<and> lf = Some b \<and> a \<noteq> b \<and> L a = Some l \<and> L b = Some m
        \<and> list_repr (l, K) ps \<and> list_repr (m, K) fs \<and> set ps \<inter> set fs = {})"

abbreviation clock_repr :: "'x mmal_clock \<Rightarrow> addr list \<Rightarrow> addr list \<Rightarrow> bool" where
  "clock_repr s \<equiv> clock_lists (ck_list_free s) (ck_list_pending s) (ck_lists s) (ck_links s)"

text \<open>\<open>relist s L K\<close>: the same clock with other lists.\<close>

abbreviation relist :: "'x mmal_clock \<Rightarrow> (addr \<Rightarrow> mmal_list option) \<Rightarrow> elements \<Rightarrow> 'x mmal_clock" where
  "relist s L K \<equiv> s\<lparr>ck_lists := L, ck_links := K\<rparr>"

lemma clock_lists_disjoint: "clock_lists lf lp L K ps fs \<Longrightarrow> set ps \<inter> set fs = {} \<and> distinct ps \<and> distinct fs"
  by (auto simp: clock_lists_def dest: list_repr_distinct)

lemma clock_lists_swap: "clock_lists lf lp L K ps fs \<Longrightarrow> clock_lists lp lf L K fs ps"
  unfolding clock_lists_def by blast

text \<open>An operation on one of the two lists, which writes no element of the other.\<close>

lemma on_list_repr:
  assumes "clock_lists lf lp (ck_lists s) (ck_links s) ps fs"
    and "\<And>l. list_repr (l, ck_links s) ps \<Longrightarrow> \<exists>l' h'. f (l, ck_links s) = Some (r, l', h')
           \<and> list_repr (l', h') ps' \<and> (\<forall>a \<in> set fs. h' a = ck_links s a)"
    and "set ps' \<inter> set fs = {}"
  shows "\<exists>L K. on_list lp f s = ret (r, relist s L K) \<and> clock_lists lf lp L K ps' fs"
proof -
  obtain a b l m where w: "lp = Some a" "lf = Some b" "a \<noteq> b" "ck_lists s a = Some l" "ck_lists s b = Some m"
      "list_repr (l, ck_links s) ps" "list_repr (m, ck_links s) fs"
    using assms(1) unfolding clock_lists_def by blast
  obtain l' h' where f: "f (l, ck_links s) = Some (r, l', h')" "list_repr (l', h') ps'"
      "\<forall>a \<in> set fs. h' a = ck_links s a"
    using assms(2) [OF w(6)] by blast
  have "list_repr (m, h') fs" by (rule list_repr_frame [OF w(7)]) (simp add: f(3))
  then have "clock_lists lf lp ((ck_lists s)(a \<mapsto> l')) h' ps' fs"
    using w(1-5) f(2) assms(3) unfolding clock_lists_def by auto
  moreover have "on_list lp f s = ret (r, relist s ((ck_lists s)(a \<mapsto> l')) h')"
    using w(1,4) f(1) by (simp add: on_list_def)
  ultimately show ?thesis by blast
qed

lemma pop_front_repr:
  assumes "clock_lists lf lp (ck_lists s) (ck_links s) (p # ps) fs"
  shows "\<exists>L K. pop_front lp s = ret (Some p, relist s L K) \<and> clock_lists lf lp L K ps fs"
  unfolding pop_front_def
proof (rule on_list_repr [OF assms])
  have d: "set (p # ps) \<inter> set fs = {}" using clock_lists_disjoint [OF assms] by blast
  then show "set ps \<inter> set fs = {}" by auto
  fix l assume l: "list_repr (l, ck_links s) (p # ps)"
  obtain s' where s': "mmal_list_pop_front (l, ck_links s) = (Some p, s')" "list_repr s' ps"
    using list_pop_front_Cons [OF l] by blast
  have "snd s' a = ck_links s a" if "a \<in> set fs" for a
    using pop_front_frame [OF l, of a] d that s'(1) by auto
  then show "\<exists>l' h'. Some (mmal_list_pop_front (l, ck_links s)) = Some (Some p, l', h')
      \<and> list_repr (l', h') ps \<and> (\<forall>a \<in> set fs. h' a = ck_links s a)"
    using s' by (cases s') auto
qed

lemma pop_front_empty:
  assumes "clock_lists lf lp (ck_lists s) (ck_links s) [] fs"
  shows "pop_front lp s = ret (None, s)"
proof -
  obtain a l where "lp = Some a" "ck_lists s a = Some l" "list_repr (l, ck_links s) []"
    using assms unfolding clock_lists_def by blast
  then show ?thesis by (simp add: pop_front_def on_list_def list_pop_front_Nil fun_upd_idem)
qed

lemma push_front_repr:
  assumes "clock_lists lf lp (ck_lists s) (ck_links s) ps fs" and "p \<notin> set ps" and "p \<notin> set fs"
  shows "\<exists>L K. push_front lp p s = ret (relist s L K) \<and> clock_lists lf lp L K (p # ps) fs"
proof -
  have d: "set ps \<inter> set fs = {}" using clock_lists_disjoint [OF assms(1)] by blast
  have "\<exists>L K. on_list lp (\<lambda>l. Some ((), mmal_list_push_front l p)) s = ret ((), relist s L K)
      \<and> clock_lists lf lp L K (p # ps) fs"
  proof (rule on_list_repr [OF assms(1)])
    show "set (p # ps) \<inter> set fs = {}" using d assms(3) by auto
    fix l assume l: "list_repr (l, ck_links s) ps"
    have "snd (mmal_list_push_front (l, ck_links s) p) a = ck_links s a" if "a \<in> set fs" for a
      using push_front_frame [OF l, of a p] d that assms(3) by auto
    then show "\<exists>l' h'. Some ((), mmal_list_push_front (l, ck_links s) p) = Some ((), l', h')
        \<and> list_repr (l', h') (p # ps) \<and> (\<forall>a \<in> set fs. h' a = ck_links s a)"
      using list_repr_push_front [OF l assms(2)]
      by (intro exI [of _ "fst (mmal_list_push_front (l, ck_links s) p)"]
            exI [of _ "snd (mmal_list_push_front (l, ck_links s) p)"])
        simp
  qed
  then show ?thesis by (elim exE conjE) (intro exI conjI, simp add: push_front_def, assumption)
qed

lemma push_back_repr:
  assumes "clock_lists lf lp (ck_lists s) (ck_links s) ps fs" and "p \<notin> set ps" and "p \<notin> set fs"
  shows "\<exists>L K. push_back lp p s = ret (relist s L K) \<and> clock_lists lf lp L K (ps @ [p]) fs"
proof -
  have d: "set ps \<inter> set fs = {}" using clock_lists_disjoint [OF assms(1)] by blast
  have "\<exists>L K. on_list lp (\<lambda>l. Some ((), mmal_list_push_back l p)) s = ret ((), relist s L K)
      \<and> clock_lists lf lp L K (ps @ [p]) fs"
  proof (rule on_list_repr [OF assms(1)])
    show "set (ps @ [p]) \<inter> set fs = {}" using d assms(3) by auto
    fix l assume l: "list_repr (l, ck_links s) ps"
    have "snd (mmal_list_push_back (l, ck_links s) p) a = ck_links s a" if "a \<in> set fs" for a
      using push_back_frame [OF l, of a p] d that assms(3) by auto
    then show "\<exists>l' h'. Some ((), mmal_list_push_back (l, ck_links s) p) = Some ((), l', h')
        \<and> list_repr (l', h') (ps @ [p]) \<and> (\<forall>a \<in> set fs. h' a = ck_links s a)"
      using list_repr_push_back [OF l assms(2)]
      by (intro exI [of _ "fst (mmal_list_push_back (l, ck_links s) p)"]
            exI [of _ "snd (mmal_list_push_back (l, ck_links s) p)"])
        simp
  qed
  then show ?thesis by (elim exE conjE) (intro exI conjI, simp add: push_back_def, assumption)
qed

lemma insert_repr:
  assumes "clock_lists lf lp (ck_lists s) (ck_links s) ps fs" and "p \<notin> set ps" and "p \<notin> set fs"
  shows "\<exists>L K. on_list lp (\<lambda>l. map_option (Pair ()) (mmal_list_insert cmp l p)) s = ret ((), relist s L K)
     \<and> clock_lists lf lp L K (insert_before cmp p ps) fs"
proof (rule on_list_repr [OF assms(1)])
  have d: "set ps \<inter> set fs = {}" using clock_lists_disjoint [OF assms(1)] by blast
  then show "set (insert_before cmp p ps) \<inter> set fs = {}" using assms(3) by simp
  fix l assume l: "list_repr (l, ck_links s) ps"
  obtain s' where s': "mmal_list_insert cmp (l, ck_links s) p = Some s'" "list_repr s' (insert_before cmp p ps)"
    using list_insert_repr [OF l assms(2)] by blast
  have "snd s' a = ck_links s a" if "a \<in> set fs" for a
    using list_insert_frame [OF l _ _ s'(1), of a] d that assms(3) by auto
  then show "\<exists>l' h'. map_option (Pair ()) (mmal_list_insert cmp (l, ck_links s) p) = Some ((), l', h')
      \<and> list_repr (l', h') (insert_before cmp p ps) \<and> (\<forall>a \<in> set fs. h' a = ck_links s a)"
    using s' by (cases s') auto
qed

section \<open>Order and insertion\<close>

definition before :: "'x mmal_clock \<Rightarrow> addr \<Rightarrow> addr \<Rightarrow> bool" where
  "before s = (if ck_scale s \<ge> 0 then mmal_clock_request_compare_pos s else mmal_clock_request_compare_neg s)"

lemmas before_defs = before_def mmal_clock_request_compare_pos_def mmal_clock_request_compare_neg_def

lemma weak_order_before: "weak_order (before s)"
  by (auto simp: weak_order_def before_defs)

lemma mset_insert_before: "mset (insert_before cmp e xs) = add_mset e (mset xs)"
proof -
  have "mset (insert_before cmp e xs) = add_mset e (mset (takeWhile (\<lambda>x. \<not> cmp e x) xs @ dropWhile (\<lambda>x. \<not> cmp e x) xs))"
    unfolding insert_before_def mset_append mset.simps by simp
  then show ?thesis by (simp del: mset_append)
qed

lemma in_order_snoc: "in_order cmp (xs @ [x]) \<longleftrightarrow> in_order cmp xs \<and> (\<forall>y \<in> set xs. \<not> cmp x y)"
  by (simp add: in_order_def sorted_wrt_append)

text \<open>Appending behind a last element that is not larger keeps the order.\<close>

lemma in_order_append_last:
  assumes "weak_order cmp" and "in_order cmp xs" and "xs \<noteq> []" and "\<not> cmp x (last xs)"
  shows "in_order cmp (xs @ [x])"
proof -
  have "\<not> cmp x y" if y: "y \<in> set xs" for y
  proof (cases "y = last xs")
    case False
    obtain zs where zs: "xs = zs @ [last xs]" using assms(3) by (metis append_butlast_last_id)
    then have "y \<in> set zs" using y False by (metis Un_iff empty_iff empty_set set_ConsD set_append)
    then have "\<not> cmp (last xs) y" using assms(2) zs by (metis in_order_snoc)
    with assms(1,4) show ?thesis unfolding weak_order_def by blast
  qed (simp add: assms(4))
  with assms(2) show ?thesis by (simp add: in_order_snoc)
qed

lemma request_insert_repr:
  assumes r: "clock_repr s ps fs" and o: "in_order (before s) ps" and "request \<notin> set ps" "request \<notin> set fs"
    and "\<not> ck_stop_thread s" and len: "length ps < 2 ^ 32"
  shows "\<exists>L K ps'. mmal_clock_request_insert request s = ret (True, relist s L K)
    \<and> clock_repr (relist s L K) ps' fs \<and> in_order (before s) ps' \<and> mset ps' = add_mset request (mset ps)"
proof -
  obtain a l where l: "ck_list_pending s = Some a" "ck_lists s a = Some l" "list_repr (l, ck_links s) ps"
    using r unfolding clock_lists_def by blast
  show ?thesis
  proof (cases "ps = []")
    case True
    with l(3) have "ml_length l = 0" by (simp add: list_repr_def)
    with push_front_repr [OF r assms(3,4)] l(1,2) assms(5) True show ?thesis
      by (fastforce simp: mmal_clock_request_insert_def in_order_def)
  next
    case False
    have n: "ml_length l \<noteq> 0" "ml_last l = Some (last ps)"
      using l(3) False len dseg_last [of "ck_links s" None "ml_first l" ps] 
      by (auto simp: list_repr_def word_of_nat_eq_0_iff dest: nat_dvd_not_less)
    let ?adj = "\<lambda>r. cq_media_time_adj (ck_pool s r)"
    let ?tail = "ck_scale s \<ge> 0 \<and> ?adj request \<ge> ?adj (last ps) \<or> ck_scale s < 0 \<and> ?adj request \<le> ?adj (last ps)"
    have b: "?tail \<longleftrightarrow> \<not> before s request (last ps)" by (auto simp: before_defs)
    show ?thesis
    proof (cases ?tail)
      case True
      with in_order_append_last [OF weak_order_before o False] b have "in_order (before s) (ps @ [request])" by blast
      with push_back_repr [OF r assms(3,4)] l(1,2) n assms(5) True show ?thesis
        by (fastforce simp: mmal_clock_request_insert_def)
    next
      case False
      with l(1,2) n assms(5) have "mmal_clock_request_insert request s =
          andthen (on_list (ck_list_pending s) (\<lambda>l. map_option (Pair ()) (mmal_list_insert (before s) l request)) s)
            (\<lambda>(_, s1). ret (True, s1))"
        by (cases "0 \<le> ck_scale s") (simp_all add: mmal_clock_request_insert_def before_def Let_def)
      with insert_repr [OF r assms(3,4), of "before s"] in_order_insert_before [OF weak_order_before o, of request]
      show ?thesis by (fastforce simp: mset_insert_before)
    qed
  qed
qed

section \<open>Flushing and servicing keep the slots\<close>

text \<open>What servicing requests leaves alone.\<close>

definition fixed_part where
  "fixed_part s = (ck_is_active s, ck_scheduling s, ck_stop_thread s, ck_event s, ck_timer s = None, ck_scale s, ck_scale_inv s,
     ck_list_free s, ck_list_pending s, ck_pool s)"

lemma fixed_relist [simp]: "fixed_part (relist s L K) = fixed_part s"
  by (simp add: fixed_part_def)

lemma before_relist [simp]: "before (relist s L K) = before s"
  by (intro ext) (simp add: before_defs)

lemma before_fixed: "fixed_part s' = fixed_part s \<Longrightarrow> before s' = before s"
  by (intro ext) (simp add: fixed_part_def before_defs)

lemma call_request_ret: "call_request c r t s = ret s' \<Longrightarrow> s' = s\<lparr>ck_env := ck_env s'\<rparr>"
  by (auto simp: call_request_def andthen_ret_iff)

text \<open>Only the time has been read.\<close>

definition ticked :: "'x mmal_clock \<Rightarrow> 'x mmal_clock \<Rightarrow> bool" where
  "ticked s s' \<longleftrightarrow> s' = s\<lparr>ck_wall_time := ck_wall_time s', ck_media_time := ck_media_time s',
     ck_media_time_frac := ck_media_time_frac s', ck_rtc_at_update := ck_rtc_at_update s', ck_env := ck_env s'\<rparr>"

lemma update_time_ret: "mmal_clock_update_local_time_locked c s = ret s' \<Longrightarrow> ticked s s'"
  by (auto simp: mmal_clock_update_local_time_locked_def ticked_def Let_def andthen_ret_iff split: prod.splits)

lemma time_get_ret: "mmal_clock_media_time_get_locked c s = ret (t, s') \<Longrightarrow> ticked s s' \<and> t = ck_media_time s'"
  by (auto simp: mmal_clock_media_time_get_locked_def andthen_ret_iff dest: update_time_ret)

lemma ticked_simps:
  assumes "ticked s s'"
  shows "fixed_part s' = fixed_part s" "ck_lists s' = ck_lists s" "ck_links s' = ck_links s"
    "ck_list_free s' = ck_list_free s" "ck_list_pending s' = ck_list_pending s"
  by (subst assms [unfolded ticked_def], simp add: fixed_part_def)+

lemma ticked_more:
  assumes "ticked s s'"
  shows "ck_discont_expiry s' = ck_discont_expiry s" "ck_timer s' = ck_timer s"
    "ck_media_time_at_timer s' = ck_media_time_at_timer s" "ck_discont_threshold s' = ck_discont_threshold s"
    "ck_request_threshold_enable s' = ck_request_threshold_enable s"
  by (subst assms [unfolded ticked_def], simp)+

definition services :: "'x mmal_clock \<Rightarrow> addr list \<Rightarrow> addr list \<Rightarrow> 'x mmal_clock \<Rightarrow> addr list \<Rightarrow> bool" where
  "services s ps fs s' fired \<longleftrightarrow> fixed_part s' = fixed_part s \<and>
     (\<exists>rest. ps = fired @ rest \<and> clock_repr s' rest (fs @ fired))"

text \<open>Calling the client and recycling the slot, as both loops do.\<close>

lemma recycle_ret:
  assumes "clock_repr s ps fs" and "p \<notin> set ps" "p \<notin> set fs"
    and "call_request c p t s = ret v" and "push_back (ck_list_free v) p v = ret u"
  shows "clock_repr u ps (fs @ [p])" and "fixed_part u = fixed_part s"
proof -
  obtain e where v: "v = s\<lparr>ck_env := e\<rparr>" using call_request_ret [OF assms(4)] by blast
  then have f: "ck_list_free v = ck_list_free s" "ck_list_pending v = ck_list_pending s" "ck_lists v = ck_lists s"
      "ck_links v = ck_links s" "fixed_part v = fixed_part s"
    by (simp_all add: fixed_part_def)
  have "clock_lists (ck_list_pending s) (ck_list_free s) (ck_lists v) (ck_links v) fs ps"
    using clock_lists_swap [OF assms(1)] f by simp
  from push_back_repr [OF this assms(3,2)] obtain L K where 1: "push_back (ck_list_free s) p v = ret (relist v L K)"
      "clock_lists (ck_list_pending s) (ck_list_free s) L K (fs @ [p]) ps" by blast
  then have u: "u = relist v L K" using assms(5) f(1) by simp
  then show "clock_repr u ps (fs @ [p])" using clock_lists_swap [OF 1(2)] f by simp
  show "fixed_part u = fixed_part s" using u f(5) by (simp add: fixed_part_def)
qed

lemma services_Cons:
  assumes "services s' ps (fs @ [p]) s2 fired" and "fixed_part s' = fixed_part s"
  shows "services s (p # ps) fs s2 (p # fired)"
  using assms by (auto simp: services_def)

lemma flush_requests_ret:
  assumes "clock_repr s ps fs" and "flush_requests c t s = ret s'"
  shows "services s ps fs s' ps"
  using assms
proof (induction ps arbitrary: s fs)
  case Nil
  then show ?case
    by (subst (asm) flush_requests.simps) (simp add: pop_front_empty services_def)
next
  case (Cons p ps)
  obtain L K where 1: "pop_front (ck_list_pending s) s = ret (Some p, relist s L K)"
      "clock_repr (relist s L K) ps fs"
    using pop_front_repr [OF Cons.prems(1)] by auto
  have p: "p \<notin> set ps" "p \<notin> set fs" using clock_lists_disjoint [OF Cons.prems(1)] by auto
  from Cons.prems(2) have "andthen (call_request c p t (relist s L K)) (\<lambda>s2.
      andthen (push_back (ck_list_free s2) p s2) (flush_requests c t)) = ret s'"
    by (subst (asm) flush_requests.simps) (simp add: 1(1))
  then obtain v u where v: "call_request c p t (relist s L K) = ret v" "push_back (ck_list_free v) p v = ret u"
      and 2: "flush_requests c t u = ret s'"
    unfolding andthen_ret_iff by blast
  have "fixed_part u = fixed_part s" using recycle_ret(2) [OF 1(2) p v] by (simp add: fixed_part_def)
  with Cons.IH [OF recycle_ret(1) [OF 1(2) p v] 2] show ?case by (rule services_Cons)
qed

lemma reschedule_ret:
  assumes r: "clock_repr s ps fs" and p: "p \<notin> set ps" "p \<notin> set fs" and e: "reschedule p t s = ret s'"
  shows "clock_repr s' (p # ps) fs" and "fixed_part s' = fixed_part s"
proof -
  obtain L K where 1: "push_front (ck_list_pending s) p s = ret (relist s L K)"
      "clock_repr (relist s L K) (p # ps) fs"
    using push_front_repr [OF r p] by auto
  obtain w where "mmal_clock_timer_set w (relist s L K\<lparr>ck_media_time_at_timer := t\<rparr>) = ret s'"
    using e by (auto simp: reschedule_def andthen_ret_iff 1(1) Let_def)
  then obtain m where s': "ck_timer s \<noteq> None" "s' = relist s L K\<lparr>ck_media_time_at_timer := t, ck_timer := Some (Some m)\<rparr>"
    by (auto simp: mmal_clock_timer_set_def split: option.splits)
  show "clock_repr s' (p # ps) fs" "fixed_part s' = fixed_part s" using s' 1(2) by (simp_all add: fixed_part_def)
qed

lemma expire_simps:
  "fixed_part (expire_discontinuity s) = fixed_part s" "ck_lists (expire_discontinuity s) = ck_lists s"
  "ck_links (expire_discontinuity s) = ck_links s" "ck_list_free (expire_discontinuity s) = ck_list_free s"
  "ck_list_pending (expire_discontinuity s) = ck_list_pending s" "ck_env (expire_discontinuity s) = ck_env s"
  "ck_media_time (expire_discontinuity s) = ck_media_time s" "ck_pool (expire_discontinuity s) = ck_pool s"
  by (simp_all add: expire_discontinuity_def fixed_part_def)

lemma process_loop_step:
  assumes "pop_front (ck_list_pending s) s = ret (Some p, s0)"
  shows "process_loop c s = andthen (mmal_clock_media_time_get_locked c s0) (\<lambda>(t, s1).
     andthen (request_due t (cq_media_time_adj (ck_pool (expire_discontinuity s1) p)) (expire_discontinuity s1)) (\<lambda>due.
       if due then
         andthen (call_request c p t (expire_discontinuity s1)) (\<lambda>s3.
         andthen (push_back (ck_list_free s3) p s3) (process_loop c))
       else reschedule p t (expire_discontinuity s1)))"
  by (subst process_loop.simps) (simp add: assms Let_def case_prod_unfold)

lemma process_loop_ret:
  assumes "clock_repr s ps fs" and "process_loop c s = ret s'"
  shows "\<exists>fired. services s ps fs s' fired"
  using assms
proof (induction ps arbitrary: s fs)
  case Nil
  then show ?case
    by (subst (asm) process_loop.simps) (auto simp: pop_front_empty services_def)
next
  case (Cons p ps)
  obtain L K where 1: "pop_front (ck_list_pending s) s = ret (Some p, relist s L K)"
      "clock_repr (relist s L K) ps fs"
    using pop_front_repr [OF Cons.prems(1)] by auto
  have p: "p \<notin> set ps" "p \<notin> set fs" using clock_lists_disjoint [OF Cons.prems(1)] by auto
  obtain t s1 due where t: "mmal_clock_media_time_get_locked c (relist s L K) = ret (t, s1)"
    and due: "(if due then
                 andthen (call_request c p t (expire_discontinuity s1)) (\<lambda>s3.
                 andthen (push_back (ck_list_free s3) p s3) (process_loop c))
               else reschedule p t (expire_discontinuity s1)) = ret s'"
    using Cons.prems(2) unfolding process_loop_step [OF 1(1)] by (auto simp: andthen_ret_iff)
  have s1: "clock_repr (expire_discontinuity s1) ps fs" "fixed_part (expire_discontinuity s1) = fixed_part s"
    using ticked_simps [OF conjunct1 [OF time_get_ret [OF t]]] 1(2) by (simp_all add: expire_simps)
  show ?case
  proof (cases due)
    case True
    with due obtain v u where v: "call_request c p t (expire_discontinuity s1) = ret v"
        "push_back (ck_list_free v) p v = ret u" and 2: "process_loop c u = ret s'"
      by (auto simp: andthen_ret_iff)
    have f: "fixed_part u = fixed_part s" using recycle_ret(2) [OF s1(1) p v] s1(2) by simp
    obtain fired where "services u ps (fs @ [p]) s' fired"
      using Cons.IH [OF recycle_ret(1) [OF s1(1) p v] 2] by blast
    from services_Cons [OF this f] show ?thesis by blast
  next
    case False
    with due reschedule_ret [OF s1(1) p, of t s'] s1(2) have "services s (p # ps) fs s' []"
      by (simp add: services_def)
    then show ?thesis by blast
  qed
qed

lemma services_trans:
  assumes "services s ps fs s1 f1" and "\<And>ps' fs'. ps = f1 @ ps' \<Longrightarrow> fs' = fs @ f1 \<Longrightarrow> clock_repr s1 ps' fs' \<Longrightarrow> \<exists>f2. services s1 ps' fs' s2 f2"
  shows "\<exists>f. services s ps fs s2 f"
proof -
  obtain rest where r: "ps = f1 @ rest" "clock_repr s1 rest (fs @ f1)" "fixed_part s1 = fixed_part s"
    using assms(1) unfolding services_def by blast
  obtain f2 where "services s1 rest (fs @ f1) s2 f2" using assms(2) [OF r(1) _ r(2)] by blast
  then have "services s ps fs s2 (f1 @ f2)" using r(1,3) by (auto simp: services_def)
  then show ?thesis by blast
qed

lemma services_same:
  assumes "clock_repr s ps fs" and "fixed_part s' = fixed_part s" and "ck_lists s' = ck_lists s" "ck_links s' = ck_links s"
  shows "services s ps fs s' []"
  using assms by (simp add: services_def fixed_part_def)

lemma flush_locked_ret:
  assumes "clock_repr s ps fs" and "mmal_clock_request_flush_locked c t s = ret s'"
  shows "services s ps fs s' ps"
proof -
  obtain u where u: "flush_requests c t s = ret u" "s' = u\<lparr>ck_media_time_at_timer := 0\<rparr>"
    using assms(2) by (auto simp: mmal_clock_request_flush_locked_def andthen_ret_iff)
  with flush_requests_ret [OF assms(1) u(1)] show ?thesis by (auto simp: services_def fixed_part_def)
qed

lemma detect_ret:
  assumes r: "clock_repr s ps fs" and d: "detect_discontinuity c s = ret s'"
  shows "\<exists>fired. services s ps fs s' fired"
proof (cases "ck_media_time_at_timer s = 0")
  case True
  with d services_same [OF r refl] show ?thesis by (auto simp: detect_discontinuity_def)
next
  case False
  then obtain t s1 where 1: "mmal_clock_media_time_get_locked c s = ret (t, s1)"
      and 2: "s' = s1 \<or> (\<exists>ds de ex. mmal_clock_request_flush_locked c t
        (s1\<lparr>ck_discont_start := ds, ck_discont_end := de, ck_discont_expiry := ex\<rparr>) = ret s')"
    using d by (auto simp: detect_discontinuity_def andthen_ret_iff split: if_splits) blast
  note t = ticked_simps [OF conjunct1 [OF time_get_ret [OF 1]]]
  have s1: "services s ps fs s1 []" using services_same [OF r t(1-3)] .
  from 2 show ?thesis
  proof (elim disjE exE)
    fix ds de ex
    let ?s = "s1\<lparr>ck_discont_start := ds, ck_discont_end := de, ck_discont_expiry := ex\<rparr>"
    assume f: "mmal_clock_request_flush_locked c t ?s = ret s'"
    have "clock_repr ?s ps fs" using r t by simp
    from flush_locked_ret [OF this f] t(1) have "services s ps fs s' ps" by (auto simp: services_def fixed_part_def)
    then show ?thesis by blast
  qed (use s1 in blast)
qed

lemma process_requests_ret:
  assumes r: "clock_repr s ps fs" and d: "mmal_clock_process_requests c s = ret s'"
  shows "\<exists>fired. services s ps fs s' fired"
proof -
  have "s' = s \<or> (\<exists>s1. detect_discontinuity c s = ret s1 \<and> process_loop c s1 = ret s')"
    using d by (auto simp: mmal_clock_process_requests_def andthen_ret_iff split: if_splits)
  then show ?thesis
  proof (elim disjE exE conjE)
    assume "s' = s" with services_same [OF r] show ?thesis by blast
  next
    fix s1 assume "detect_discontinuity c s = ret s1" and p: "process_loop c s1 = ret s'"
    then obtain f1 where "services s ps fs s1 f1" using detect_ret [OF r] by blast
    then show ?thesis by (rule services_trans) (rule process_loop_ret [OF _ p])
  qed
qed

section \<open>The invariant of the clock\<close>

definition clock_inv :: "'x mmal_clock \<Rightarrow> bool" where
  "clock_inv s \<longleftrightarrow> \<not> ck_stop_thread s \<and> (ck_scheduling s \<longrightarrow> ck_timer s \<noteq> None \<and> ck_event s \<noteq> None \<and>
     (\<exists>ps fs. clock_repr s ps fs \<and> in_order (before s) ps \<and> mset (ps @ fs) = mset [0..<CLOCK_REQUEST_SLOTS]))"

lemma clock_inv_scheduled:
  assumes "clock_repr s ps fs" and "in_order (before s) ps" and "mset (ps @ fs) = mset [0..<CLOCK_REQUEST_SLOTS]"
    and "\<not> ck_stop_thread s" and "ck_timer s \<noteq> None" and "ck_event s \<noteq> None"
  shows "clock_inv s"
  using assms unfolding clock_inv_def by blast

lemma in_order_suffix: "in_order cmp (xs @ ys) \<Longrightarrow> in_order cmp ys"
  by (simp add: in_order_def sorted_wrt_append)

lemma clock_inv_services:
  assumes "clock_inv s" and "ck_scheduling s"
    and "\<And>ps fs. clock_repr s ps fs \<Longrightarrow> \<exists>fired. services s ps fs s' fired"
  shows "clock_inv s'"
proof -
  obtain ps fs where r: "clock_repr s ps fs" "in_order (before s) ps" "mset (ps @ fs) = mset [0..<CLOCK_REQUEST_SLOTS]"
      and o: "\<not> ck_stop_thread s" "ck_timer s \<noteq> None" "ck_event s \<noteq> None"
    using assms(1,2) unfolding clock_inv_def by blast
  obtain fired rest where f: "fixed_part s' = fixed_part s" "ps = fired @ rest" "clock_repr s' rest (fs @ fired)"
    using assms(3) [OF r(1)] unfolding services_def by blast
  show ?thesis
  proof (rule clock_inv_scheduled [OF f(3)])
    show "in_order (before s') rest" using r(2) f(2) in_order_suffix by (auto simp: before_fixed [OF f(1)])
    show "mset (rest @ fs @ fired) = mset [0..<CLOCK_REQUEST_SLOTS]" using r(3) f(2) by (simp add: ac_simps)
  qed (use f(1) o in \<open>auto simp: fixed_part_def\<close>)
qed

text \<open>Changes that touch neither the lists nor what the requests are compared by.\<close>

definition same_requests :: "'x mmal_clock \<Rightarrow> 'x mmal_clock \<Rightarrow> bool" where
  "same_requests s s' \<longleftrightarrow> ck_stop_thread s' = ck_stop_thread s \<and> ck_scheduling s' = ck_scheduling s
     \<and> ck_timer s' = ck_timer s \<and> (ck_event s' = None) = (ck_event s = None) \<and> ck_scale s' = ck_scale s
     \<and> ck_pool s' = ck_pool s \<and> ck_lists s' = ck_lists s \<and> ck_links s' = ck_links s
     \<and> ck_list_free s' = ck_list_free s \<and> ck_list_pending s' = ck_list_pending s"

lemma same_requests_trans [trans]: "same_requests s s1 \<Longrightarrow> same_requests s1 s2 \<Longrightarrow> same_requests s s2"
  by (simp add: same_requests_def)

lemma clock_inv_same: "same_requests s s' \<Longrightarrow> clock_inv s \<Longrightarrow> clock_inv s'"
proof -
  assume a: "same_requests s s'" "clock_inv s"
  then have "before s' = before s" by (intro ext) (simp add: same_requests_def before_defs)
  with a show ?thesis by (simp add: same_requests_def clock_inv_def)
qed

lemma wake_ret: "mmal_clock_wake_thread s = ret s' \<Longrightarrow> same_requests s s'"
  by (auto simp: mmal_clock_wake_thread_def same_requests_def split: if_splits option.splits)

lemma ticked_same: "ticked s s' \<Longrightarrow> same_requests s s'"
  unfolding ticked_def by (erule ssubst) (simp add: same_requests_def)

lemma media_time_set_ret: "mmal_clock_media_time_set c t s = ret s' \<Longrightarrow> same_requests s s'"
  by (auto simp: mmal_clock_media_time_set_def Let_def andthen_ret_iff same_requests_def
      dest!: wake_ret update_time_ret ticked_same split: if_splits prod.splits)

lemma push_slots_repr:
  assumes "clock_lists lf lp (ck_lists s) (ck_links s) ps fs" and "lf = ck_list_free s"
    and "distinct is" and "set is \<inter> (set ps \<union> set fs) = {}"
  shows "\<exists>L K. push_slots is s = ret (relist s L K) \<and> clock_lists lf lp L K ps (fs @ is)"
  using assms
proof (induction "is" arbitrary: s fs)
  case Nil
  have "s = relist s (ck_lists s) (ck_links s)" by simp
  with Nil(1) show ?case by (metis append_Nil2 push_slots.simps(1))
next
  case (Cons i "is")
  have "i \<notin> set fs" "i \<notin> set ps" using Cons.prems(4) by auto
  from push_back_repr [OF clock_lists_swap [OF Cons.prems(1)] this]
  obtain L K where 1: "push_back lf i s = ret (relist s L K)" "clock_lists lp lf L K (fs @ [i]) ps" by blast
  have "\<exists>L' K'. push_slots is (relist s L K) = ret (relist (relist s L K) L' K') \<and> clock_lists lf lp L' K' ps ((fs @ [i]) @ is)"
    using Cons.prems(2-4) clock_lists_swap [OF 1(2)] by (intro Cons.IH) auto
  with 1(1) Cons.prems(2) show ?case by (auto simp del: mmal_clock.update_convs)
qed

section \<open>Scheduling resources\<close>

text \<open>The allocator hands out blocks that are not in use.\<close>

definition fresh_blocks :: "sched_results \<Rightarrow> 'x mmal_clock \<Rightarrow> bool" where
  "fresh_blocks r s \<longleftrightarrow> (\<forall>a. sr_list_free r = Some a \<longrightarrow> ck_lists s a = None \<and> sr_list_pending r \<noteq> Some a)
     \<and> (\<forall>b. sr_list_pending r = Some b \<longrightarrow> ck_lists s b = None)"

lemma scheduling_error_ret:
  "scheduling_error t e s = ret (st, s') \<Longrightarrow> st = MMAL_ENOSPC \<and> ck_scheduling s' = ck_scheduling s
     \<and> ck_stop_thread s' = ck_stop_thread s"
  by (auto simp: scheduling_error_def destroy_if_def mmal_list_destroy_def Let_def andthen_ret_iff
      split: if_splits option.splits)

lemma list_repr_new: "list_repr (\<lparr>ml_length = 0, ml_first = None, ml_last = None\<rparr>, h) []"
  by (simp add: list_repr_def)

text \<open>The structure once both lists are created and filled.\<close>

lemma lists_created:
  assumes "a \<noteq> b" and "ck_list_free s = Some a" "ck_list_pending s = Some b"
    and "ck_lists s a = Some \<lparr>ml_length = 0, ml_first = None, ml_last = None\<rparr>"
    and "ck_lists s b = Some \<lparr>ml_length = 0, ml_first = None, ml_last = None\<rparr>"
  shows "\<exists>L K. push_slots [0..<CLOCK_REQUEST_SLOTS] s = ret (relist s L K)
    \<and> clock_repr (relist s L K) [] [0..<CLOCK_REQUEST_SLOTS]"
proof -
  have "clock_repr s [] []" using assms list_repr_new unfolding clock_lists_def by force
  from push_slots_repr [OF this refl, of "[0..<CLOCK_REQUEST_SLOTS]"] show ?thesis by auto
qed

lemma create_scheduling_ret:
  assumes "fresh_blocks r s" and "mmal_clock_create_scheduling r s = ret (st, s')"
  shows "ck_stop_thread s' = ck_stop_thread s \<and> (if st = MMAL_SUCCESS
    then ck_scheduling s' \<and> ck_timer s' \<noteq> None \<and> ck_event s' \<noteq> None \<and> clock_repr s' [] [0..<CLOCK_REQUEST_SLOTS]
       \<and> ck_is_active s' = ck_is_active s \<and> ck_scale s' = ck_scale s
    else ck_scheduling s' = ck_scheduling s)"
proof (cases "sr_timer r = VCOS_SUCCESS \<and> sr_event r = VCOS_SUCCESS \<and> sr_list_free r \<noteq> None \<and> sr_list_pending r \<noteq> None
    \<and> sr_free_mutex r = VCOS_SUCCESS \<and> sr_pending_mutex r = VCOS_SUCCESS")
  case True
  then obtain a b where ab: "sr_list_free r = Some a" "sr_list_pending r = Some b" by blast
  with assms(1) have "a \<noteq> b" by (auto simp: fresh_blocks_def)
  define e where "e = \<lparr>ml_length = 0, ml_first = None, ml_last = None\<rparr>"
  define u where "u = s\<lparr>ck_timer := Some None, ck_event := Some 0, ck_list_free := Some a,
    ck_lists := (ck_lists s)(a \<mapsto> e, b \<mapsto> e), ck_list_pending := Some b\<rparr>"
  obtain L K where LK: "push_slots [0..<CLOCK_REQUEST_SLOTS] u = ret (relist u L K)"
      "clock_repr (relist u L K) [] [0..<CLOCK_REQUEST_SLOTS]"
    using lists_created [of a b u] \<open>a \<noteq> b\<close> by (auto simp: u_def e_def)
  have "mmal_clock_create_scheduling r s = (if sr_thread r \<noteq> VCOS_SUCCESS then scheduling_error True VCOS_SUCCESS (relist u L K)
      else ret (MMAL_SUCCESS, relist u L K\<lparr>ck_thread := True, ck_scheduling := True\<rparr>))"
    using True ab LK(1)
    by (simp add: mmal_clock_create_scheduling_def list_create_def mmal_list_create_def u_def e_def)
  with assms(2) LK(2) show ?thesis
    by (auto simp: u_def dest: scheduling_error_ret split: if_splits)
next
  case False
  with assms(2) show ?thesis
    by (auto simp: mmal_clock_create_scheduling_def list_create_def mmal_list_create_def Let_def
        dest!: scheduling_error_ret split: if_splits option.splits prod.splits)
qed

section \<open>Calls of the client and rounds of the worker\<close>

text \<open>
  The calls that return, in any order; the allocator keeps its contract, and the direction of the
  clock does not change while requests are pending. The
  worker runs once the scheduling resources exist.
\<close>

definition keeps_direction :: "mmal_rational \<Rightarrow> 'x mmal_clock \<Rightarrow> bool" where
  "keeps_direction scale s \<longleftrightarrow> (0 \<le> ck_scale s) = (0 \<le> mmal_rational_to_fixed_16_16 scale)
     \<or> (\<exists>fs. clock_repr s [] fs)"

inductive clock_call :: "'x clock_ops \<Rightarrow> 'x mmal_clock \<Rightarrow> 'x mmal_clock \<Rightarrow> bool" for c where
  add: "mmal_clock_request_add c r t cb d pr s = ret (st, s') \<Longrightarrow>
        fresh_blocks r s \<Longrightarrow> clock_call c s s'"
| flush: "mmal_clock_request_flush c s = ret s' \<Longrightarrow> clock_call c s s'"
| set_time: "mmal_clock_media_time_set c t s = ret s' \<Longrightarrow> clock_call c s s'"
| get_time: "mmal_clock_media_time_get c s = ret (t, s') \<Longrightarrow> clock_call c s s'"
| set_active: "mmal_clock_active_set b s = ret s' \<Longrightarrow> clock_call c s s'"
| set_scale: "mmal_clock_scale_set c q s = ret s' \<Longrightarrow> keeps_direction q s \<Longrightarrow> clock_call c s s'"
| set_update: "clock_call c s (mmal_clock_update_threshold_set p s)"
| set_discont: "clock_call c s (mmal_clock_discont_threshold_set p s)"
| set_request: "clock_call c s (mmal_clock_request_threshold_set p' s)"
| timer: "mmal_clock_timer_cb s = ret s' \<Longrightarrow> clock_call c s s'"
| worker: "mmal_clock_worker_thread c s = ret (goes_on, s') \<Longrightarrow> ck_scheduling s \<Longrightarrow> clock_call c s s'"

lemma in_order_new_request:
  assumes "r \<notin> set ps"
  shows "in_order (before (s\<lparr>ck_pool := (ck_pool s)(r := q)\<rparr>)) ps = in_order (before s) ps"
proof -
  let ?s = "s\<lparr>ck_pool := (ck_pool s)(r := q)\<rparr>"
  have "before ?s y x = before s y x" if "x \<in> set ps" "y \<in> set ps" for x y
    using that assms by (auto simp: before_defs)
  then show ?thesis unfolding in_order_def
    by (intro iffI) (auto elim!: sorted_wrt_mono_rel [rotated])
qed

lemma place_request_ret:
  assumes r: "clock_repr s ps fs" and o: "in_order (before s) ps" and m: "mset (ps @ fs) = mset [0..<CLOCK_REQUEST_SLOTS]"
    and n: "\<not> ck_stop_thread s" "ck_timer s \<noteq> None" "ck_event s \<noteq> None"
    and e: "place_request t cb d pr s = ret (st, s')"
  shows "clock_inv s'"
proof (cases fs)
  case Nil
  have "pop_front (ck_list_free s) s = ret (None, s)" using pop_front_empty [OF clock_lists_swap] r Nil by blast
  with e have "s' = s" by (simp add: place_request_def)
  with clock_inv_scheduled [OF r o m n] show ?thesis by simp
next
  case (Cons f gs)
  from pop_front_repr [OF clock_lists_swap [OF r [unfolded Cons]]]
  obtain L K where 1: "pop_front (ck_list_free s) s = ret (Some f, relist s L K)"
      "clock_repr (relist s L K) ps gs" by (auto dest: clock_lists_swap)
  have f: "f \<notin> set ps" "f \<notin> set gs" using clock_lists_disjoint [OF r [unfolded Cons]] by auto
  obtain q s5 i where q: "mmal_clock_request_insert f (relist s L K\<lparr>ck_pool := (ck_pool s)(f := q)\<rparr>) = ret (i, s5)"
      "same_requests s5 s'"
    using e by (auto simp: place_request_def 1(1) andthen_ret_iff Let_def same_requests_def dest!: wake_ret split: if_splits)
  let ?s = "relist s L K\<lparr>ck_pool := (ck_pool s)(f := q)\<rparr>"
  have o': "in_order (before ?s) ps" using in_order_new_request [OF f(1), of "relist s L K" q] o by simp
  have "length ps \<le> 32" using arg_cong [OF m, of size] by (simp add: CLOCK_REQUEST_SLOTS_def)
  then have "length ps < 2 ^ 32" by simp
  then obtain L' K' ps' where i: "mmal_clock_request_insert f ?s = ret (True, relist ?s L' K')"
      "clock_repr (relist ?s L' K') ps' gs" "in_order (before ?s) ps'" "mset ps' = add_mset f (mset ps)"
    using request_insert_repr [of ?s ps gs f] 1(2) o' f n(1) by auto
  have "in_order (before (relist ?s L' K')) ps'" using i(3) unfolding before_relist .
  then have "clock_inv (relist ?s L' K')"
    using i(4) m n Cons by (intro clock_inv_scheduled [OF i(2)]) (auto simp: ac_simps)
  moreover have "s5 = relist ?s L' K'" using q(1) i(1) by simp
  ultimately show ?thesis using clock_inv_same [OF q(2)] by simp
qed

lemma fresh_ticked: "ticked s s' \<Longrightarrow> fresh_blocks r s \<Longrightarrow> fresh_blocks r s'"
  by (simp add: fresh_blocks_def ticked_simps(2))

lemma request_add_ret:
  assumes inv: "clock_inv s" and fr: "fresh_blocks r s" and e: "mmal_clock_request_add c r t cb d pr s = ret (st, s')"
  shows "clock_inv s'"
proof -
  obtain now s1 drp where 1: "mmal_clock_media_time_get_locked c s = ret (now, s1)"
    and 2: "(if drp then ret (MMAL_ECORRUPT, s1)
       else andthen (if ck_scheduling s1 then ret (MMAL_SUCCESS, s1) else mmal_clock_create_scheduling r s1) (\<lambda>(st, s2).
         if st \<noteq> MMAL_SUCCESS then ret (MMAL_ENOSPC, s2) else place_request t cb d pr s2)) = ret (st, s')"
    using e unfolding mmal_clock_request_add_def
    by (auto simp: andthen_ret_iff [of "mmal_clock_media_time_get_locked c s"]) (auto simp: andthen_ret_iff)
  have tick: "ticked s s1" using time_get_ret [OF 1] by blast
  have inv1: "clock_inv s1" using clock_inv_same [OF ticked_same [OF tick] inv] .
  show ?thesis
  proof (cases drp)
    case True
    with 2 inv1 show ?thesis by simp
  next
    case False
    show ?thesis
    proof (cases "ck_scheduling s1")
      case True
      then obtain ps fs where "clock_repr s1 ps fs" "in_order (before s1) ps" "mset (ps @ fs) = mset [0..<CLOCK_REQUEST_SLOTS]"
        "\<not> ck_stop_thread s1" "ck_timer s1 \<noteq> None" "ck_event s1 \<noteq> None"
        using inv1 unfolding clock_inv_def by blast
      from place_request_ret [OF this] 2 False True show ?thesis by simp
    next
      case no: False
      then obtain st2 s2 where c2: "mmal_clock_create_scheduling r s1 = ret (st2, s2)"
        and 3: "(if st2 \<noteq> MMAL_SUCCESS then ret (MMAL_ENOSPC, s2) else place_request t cb d pr s2) = ret (st, s')"
        using 2 False by (auto simp: andthen_ret_iff)
      note c = create_scheduling_ret [OF fresh_ticked [OF tick fr] c2]
      have "\<not> ck_stop_thread s2" using c inv1 by (simp add: clock_inv_def)
      then show ?thesis
      proof (cases "st2 = MMAL_SUCCESS")
        case True
        with c have "clock_repr s2 [] [0..<CLOCK_REQUEST_SLOTS]" "ck_timer s2 \<noteq> None" "ck_event s2 \<noteq> None" by simp_all
        from place_request_ret [OF this(1) _ _ \<open>\<not> ck_stop_thread s2\<close> this(2,3)] 3 True
        show ?thesis by (simp add: in_order_def)
      next
        case False
        with 3 c no inv1 show ?thesis by (auto simp: clock_inv_def)
      qed
    qed
  qed
qed

lemma scale_set_ret:
  assumes inv: "clock_inv s" and "keeps_direction q s" and "mmal_clock_scale_set c q s = ret s'"
  shows "clock_inv s'"
proof -
  obtain s1 where t: "ticked s s1" and w: "\<exists>i k. k = mmal_rational_to_fixed_16_16 q
      \<and> mmal_clock_wake_thread (s1\<lparr>ck_scale_rational := q, ck_scale := k, ck_scale_inv := i\<rparr>) = ret s'"
    using assms(3) by (auto simp: mmal_clock_scale_set_def andthen_ret_iff Let_def dest: update_time_ret)
  obtain i where "mmal_clock_wake_thread (s1\<lparr>ck_scale_rational := q, ck_scale := mmal_rational_to_fixed_16_16 q,
      ck_scale_inv := i\<rparr>) = ret s'" (is "mmal_clock_wake_thread ?u = _") using w by blast
  then have same: "same_requests ?u s'" by (rule wake_ret)
  note ts = ticked_same [OF t, unfolded same_requests_def]
  have "clock_inv ?u"
  proof (cases "(0 \<le> ck_scale s) = (0 \<le> mmal_rational_to_fixed_16_16 q)")
    case True
    have "before ?u = before s" using ts True by (intro ext) (simp add: before_defs)
    with inv ts show ?thesis by (simp add: clock_inv_def)
  next
    case False
    then obtain gs where g: "clock_repr s [] gs" using assms(2) by (auto simp: keeps_direction_def)
    have "ps = []" if r: "clock_repr s ps fs" for ps fs
    proof -
      obtain l where "list_repr (l, ck_links s) ps" "list_repr (l, ck_links s) []"
        using r g unfolding clock_lists_def by auto
      then show ?thesis by (cases ps) (auto simp: list_repr_def)
    qed
    with inv ts show ?thesis by (force simp: clock_inv_def in_order_def)
  qed
  then show ?thesis by (rule clock_inv_same [OF same])
qed

lemma worker_ret:
  assumes inv: "clock_inv s" and "mmal_clock_worker_thread c s = ret (b, s')"
    and sch: "ck_scheduling s"
  shows "clock_inv s'"
proof -
  obtain n m where s1: "ck_timer s \<noteq> None" "\<not> ck_stop_thread s"
    and p: "mmal_clock_process_requests c (s\<lparr>ck_event := Some m, ck_timer := Some None\<rparr>) = ret s'"
    using assms by (auto simp: mmal_clock_worker_thread_def mmal_clock_timer_cancel_def andthen_ret_iff clock_inv_def
        split: option.splits if_splits)
  let ?s = "s\<lparr>ck_event := Some m, ck_timer := Some None\<rparr>"
  have b: "before ?s = before s" by (intro ext) (simp add: before_defs)
  have i: "clock_inv ?s" using inv by (auto simp: clock_inv_def b)
  show ?thesis
    by (rule clock_inv_services [OF i]) (use sch in simp, rule process_requests_ret [OF _ p])
qed

lemma flush_ret:
  assumes inv: "clock_inv s" and e: "mmal_clock_request_flush c s = ret s'"
  shows "clock_inv s'"
proof (cases "ck_scheduling s")
  case True
  with e have f: "mmal_clock_request_flush_locked c MMAL_TIME_UNKNOWN s = ret s'" by (simp add: mmal_clock_request_flush_def)
  show ?thesis by (rule clock_inv_services [OF inv True]) (use flush_locked_ret [OF _ f] in blast)
qed (use inv e in \<open>simp add: mmal_clock_request_flush_def\<close>)

lemma timer_cb_ret:
  assumes inv: "clock_inv s" and e: "mmal_clock_timer_cb s = ret s'"
  shows "clock_inv s'"
proof (cases "\<exists>d. ck_timer s = Some (Some d)")
  case True
  with e have w: "mmal_clock_wake_thread (s\<lparr>ck_timer := Some None\<rparr>) = ret s'" by (auto simp: mmal_clock_timer_cb_def)
  have "before (s\<lparr>ck_timer := Some None\<rparr>) = before s" by (intro ext) (simp add: before_defs)
  with inv have "clock_inv (s\<lparr>ck_timer := Some None\<rparr>)" by (simp add: clock_inv_def)
  with clock_inv_same [OF wake_ret [OF w]] show ?thesis by blast
qed (use inv e in \<open>auto simp: mmal_clock_timer_cb_def split: option.splits\<close>)

lemma clock_call_inv: "clock_call c s s' \<Longrightarrow> clock_inv s \<Longrightarrow> clock_inv s'"
proof (induction rule: clock_call.induct)
  case (set_active b s s')
  then have "same_requests (s\<lparr>ck_is_active := b\<rparr>) s'" by (simp add: mmal_clock_active_set_def wake_ret)
  then have "same_requests s s'" by (simp add: same_requests_def)
  with set_active show ?case by (rule_tac clock_inv_same)
next
  case (get_time s t s')
  then have "same_requests s s'" by (auto simp: mmal_clock_media_time_get_def dest: time_get_ret ticked_same)
  with get_time show ?case by (rule_tac clock_inv_same)
next
  case (set_update s p)
  have "same_requests s (mmal_clock_update_threshold_set p s)"
    by (simp add: mmal_clock_update_threshold_set_def same_requests_def)
  with set_update show ?case by (rule_tac clock_inv_same)
next
  case (set_discont s p)
  have "same_requests s (mmal_clock_discont_threshold_set p s)"
    by (simp add: mmal_clock_discont_threshold_set_def same_requests_def)
  with set_discont show ?case by (rule_tac clock_inv_same)
next
  case (set_request s p)
  have "same_requests s (mmal_clock_request_threshold_set p s)"
    by (simp add: mmal_clock_request_threshold_set_def same_requests_def)
  with set_request show ?case by (rule_tac clock_inv_same)
qed (blast intro: request_add_ret flush_ret scale_set_ret timer_cb_ret worker_ret clock_inv_same media_time_set_ret)+

lemma created_clock_inv: "mmal_clock_create c g ok m e = ret (st, Some s) \<Longrightarrow> clock_inv s \<and> \<not> ck_scheduling s"
proof -
  assume a: "mmal_clock_create c g ok m e = ret (st, Some s)"
  define z where "z = (zero_clock e)\<lparr>ck_update_threshold_lower := CLOCK_UPDATE_THRESHOLD_LOWER,
                ck_update_threshold_upper := CLOCK_UPDATE_THRESHOLD_UPPER,
                ck_discont_threshold := CLOCK_DISCONT_THRESHOLD,
                ck_discont_duration := CLOCK_DISCONT_DURATION,
                ck_request_threshold := 0, ck_request_threshold_enable := False\<rparr>"
  have z: "\<not> ck_stop_thread z" "\<not> ck_scheduling z" by (simp_all add: z_def zero_clock_def)
  have w: "\<not> ck_scheduling u \<Longrightarrow> mmal_clock_wake_thread u = ret u" for u :: "'a mmal_clock"
    by (simp add: mmal_clock_wake_thread_def)
  have "mmal_clock_scale_set c \<lparr>num = 1, den = 1\<rparr> z = ret s"
    using a unfolding mmal_clock_create_def z_def [symmetric] by (auto simp: andthen_ret_iff split: if_splits)
  then obtain u where "ticked z u" and s: "ck_stop_thread s = ck_stop_thread u" "ck_scheduling s = ck_scheduling u"
    by (auto simp: mmal_clock_scale_set_def andthen_ret_iff Let_def same_requests_def dest!: update_time_ret wake_ret)
  with z show ?thesis using ticked_same [of z u] by (simp add: clock_inv_def same_requests_def)
qed

section \<open>Properties\<close>

text \<open>C11. After a successful creation whose lists got blocks of their own, and for every sequence of client calls
  and rounds of the worker, with callbacks that do anything but use the clock's lock: the 32 request slots are
  shared out between the free and the pending list, none lost or listed twice, and the pending requests are in order
  of their adjusted media time, ascending when the clock runs forwards and descending when it runs backwards. The
  sequences leave out the calls of \<^verbatim>\<open>mmal_clock_scale_set\<close> that reverse the direction while requests are pending:
  the code does not sort the list again, so the requests then stay in the order of the old direction.\<close>

theorem clock_requests_stay_ordered:
  assumes "mmal_clock_create c True True VCOS_SUCCESS e = ret (st, Some s0)"
    and "(clock_call c)\<^sup>*\<^sup>* s0 s" and "ck_scheduling s"
  shows "\<exists>ps fs. clock_repr s ps fs \<and> mset (ps @ fs) = mset [0..<CLOCK_REQUEST_SLOTS]
    \<and> sorted_wrt (\<lambda>x y. let t = cq_media_time_adj (ck_pool s x); u = cq_media_time_adj (ck_pool s y)
        in if 0 \<le> ck_scale s then t \<le> u else u \<le> t) ps"
proof -
  have "clock_inv s" using assms(2)
    by (induction rule: rtranclp_induct) (use created_clock_inv [OF assms(1)] clock_call_inv in blast)+
  with assms(3) obtain ps fs where "clock_repr s ps fs" "in_order (before s) ps" "mset (ps @ fs) = mset [0..<CLOCK_REQUEST_SLOTS]"
    unfolding clock_inv_def by blast
  moreover from this(2) have "sorted_wrt (\<lambda>x y. let t = cq_media_time_adj (ck_pool s x); u = cq_media_time_adj (ck_pool s y)
        in if 0 \<le> ck_scale s then t \<le> u else u \<le> t) ps"
    unfolding in_order_def by (rule sorted_wrt_mono_rel [rotated]) (auto simp: before_defs split: if_splits)
  ultimately show ?thesis by blast
qed

lemma create_scheduling_succeeds:
  assumes "sr_timer r = VCOS_SUCCESS" "sr_event r = VCOS_SUCCESS" "sr_list_free r = Some a" "sr_list_pending r = Some b"
    and "sr_free_mutex r = VCOS_SUCCESS" "sr_pending_mutex r = VCOS_SUCCESS" "sr_thread r = VCOS_SUCCESS" and "a \<noteq> b"
  shows "\<exists>s'. mmal_clock_create_scheduling r s = ret (MMAL_SUCCESS, s') \<and> ck_event s' = Some 0
    \<and> clock_repr s' [] [0..<CLOCK_REQUEST_SLOTS] \<and> ck_scheduling s' \<and> ck_scale s' = ck_scale s
    \<and> ck_stop_thread s' = ck_stop_thread s"
proof -
  define e where "e = \<lparr>ml_length = 0, ml_first = None, ml_last = None\<rparr>"
  define u where "u = s\<lparr>ck_timer := Some None, ck_event := Some 0, ck_list_free := Some a,
    ck_lists := (ck_lists s)(a \<mapsto> e, b \<mapsto> e), ck_list_pending := Some b\<rparr>"
  obtain L K where LK: "push_slots [0..<CLOCK_REQUEST_SLOTS] u = ret (relist u L K)"
      "clock_repr (relist u L K) [] [0..<CLOCK_REQUEST_SLOTS]"
    using lists_created [of a b u] \<open>a \<noteq> b\<close> by (auto simp: u_def e_def)
  then have "mmal_clock_create_scheduling r s = ret (MMAL_SUCCESS, relist u L K\<lparr>ck_thread := True, ck_scheduling := True\<rparr>)"
    using assms by (simp add: mmal_clock_create_scheduling_def list_create_def mmal_list_create_def u_def e_def)
  with LK(2) show ?thesis by (simp add: u_def)
qed

text \<open>A new clock and the first request it gets; the environment is the log of the callbacks.\<close>

definition log_ops :: "(clock_request \<times> int) list clock_ops" where
  "log_ops = \<lparr>ko_now = (\<lambda>e. (0, e)), ko_callback = (\<lambda>r t e. ret (e @ [(r, t)]))\<rparr>"

definition sched_ok :: sched_results where
  "sched_ok = \<lparr>sr_timer = VCOS_SUCCESS, sr_event = VCOS_SUCCESS, sr_list_free = Some 100, sr_free_mutex = VCOS_SUCCESS,
     sr_list_pending = Some 200, sr_pending_mutex = VCOS_SUCCESS, sr_thread = VCOS_SUCCESS\<rparr>"

lemma place_request_returns:
  assumes r: "clock_repr s [] (f # gs)" and n: "\<not> ck_stop_thread s" "ck_event s = Some k"
    and a: "in_i32 (ck_scale s * CLOCK_TARGET_OFFSET)" "in_i64 (t - drop_bit 16 (ck_scale s * CLOCK_TARGET_OFFSET))"
  shows "\<exists>s'. place_request t cb d pr s = ret (MMAL_SUCCESS, s') \<and> ck_scheduling s' = ck_scheduling s"
proof -
  from pop_front_repr [OF clock_lists_swap [OF r]] obtain L K where
      1: "pop_front (ck_list_free s) s = ret (Some f, relist s L K)" "clock_repr (relist s L K) [] gs"
    by (auto dest: clock_lists_swap)
  have f: "f \<notin> set gs" using clock_lists_disjoint [OF r] by auto
  define u where "u = relist s L K\<lparr>ck_pool := (ck_pool s)(f := \<lparr>cq_priv = pr, cq_cb = cb, cq_cb_data = d,
    cq_media_time = t, cq_media_time_adj = t - drop_bit 16 (ck_scale s * CLOCK_TARGET_OFFSET)\<rparr>)\<rparr>"
  obtain L' K' where "mmal_clock_request_insert f u = ret (True, relist u L' K')"
    using request_insert_repr [of u "[]" gs f] 1(2) f n(1) by (auto simp: u_def in_order_def)
  with 1(1) a n(2) show ?thesis
    by (simp add: place_request_def u_def [symmetric] mmal_clock_wake_thread_def) (simp add: u_def)
qed

theorem clock_requests_stay_ordered_witness:
  "\<exists>s0 s ps fs. mmal_clock_create log_ops True True VCOS_SUCCESS [] = ret (MMAL_SUCCESS, Some s0)
     \<and> (clock_call log_ops)\<^sup>*\<^sup>* s0 s \<and> clock_repr s ps fs \<and> mset (ps @ fs) = mset [0..<32]"
proof -
  obtain s0 where s0: "mmal_clock_create log_ops True True VCOS_SUCCESS [] = ret (MMAL_SUCCESS, Some s0)"
      "\<not> ck_scheduling s0" "ck_scale s0 = 2 ^ 16" "ck_wall_time s0 = 0" "ck_media_time s0 = 0" "ck_media_time_frac s0 = 0"
      "ck_rtc_at_update s0 = 0" "ck_lists s0 = (\<lambda>_. None)" "\<not> ck_request_threshold_enable s0" "\<not> ck_stop_thread s0"
    by (simp add: mmal_clock_create_def mmal_clock_scale_set_def mmal_clock_update_local_time_locked_def log_ops_def
        zero_clock_def in_i64_def in_i32_def mmal_clock_wake_thread_def mmal_rational_to_fixed_16_16_def
        INT_MAX_def INT_MIN_def)
  obtain s1 where s1: "mmal_clock_media_time_get_locked log_ops s0 = ret (0, s1)" "ticked s0 s1"
    using s0(3-7) by (simp add: mmal_clock_media_time_get_locked_def mmal_clock_update_local_time_locked_def log_ops_def
        in_i64_def in_i32_def ticked_def)
  have k: "ck_scale s1 = 2 ^ 16" "\<not> ck_scheduling s1" "\<not> ck_stop_thread s1" "\<not> ck_request_threshold_enable s1"
    using s0(2,3,9,10) ticked_simps(1) [OF s1(2)] ticked_more(5) [OF s1(2)] by (simp_all add: fixed_part_def)
  obtain s2 where s2: "mmal_clock_create_scheduling sched_ok s1 = ret (MMAL_SUCCESS, s2)" "ck_event s2 = Some 0"
      "clock_repr s2 [] [0..<CLOCK_REQUEST_SLOTS]" "ck_scheduling s2" "ck_scale s2 = 2 ^ 16" "\<not> ck_stop_thread s2"
    using create_scheduling_succeeds [of sched_ok 100 200 s1] k by (auto simp: sched_ok_def)
  have "[0..<CLOCK_REQUEST_SLOTS] = 0 # [1..<CLOCK_REQUEST_SLOTS]" by (simp add: CLOCK_REQUEST_SLOTS_def upt_conv_Cons)
  then obtain s3 where s3: "place_request 5000 1 2 3 s2 = ret (MMAL_SUCCESS, s3)" "ck_scheduling s3"
    using place_request_returns [of s2 0 "[1..<CLOCK_REQUEST_SLOTS]" 0 5000 1 2 3] s2
    by (auto simp: in_i32_def in_i64_def CLOCK_TARGET_OFFSET_def)
  have "mmal_clock_request_add log_ops sched_ok 5000 1 2 3 s0 = ret (MMAL_SUCCESS, s3)"
    unfolding mmal_clock_request_add_def using s1(1) k s2(1) s3(1) by simp
  then have "clock_call log_ops s0 s3"
    by (rule clock_call.add) (simp add: fresh_blocks_def sched_ok_def s0(8))
  then have "(clock_call log_ops)\<^sup>*\<^sup>* s0 s3" by blast
  with clock_requests_stay_ordered [OF s0(1) this s3(2)] s0(1) show ?thesis
    unfolding CLOCK_REQUEST_SLOTS_def by blast
qed

end
