(* ===== verification/Mmal_Clock_Service.thy ===== *)
theory Mmal_Clock_Service
  imports Mmal_Clock_Facts
begin

text \<open>
  What a round of the clock's worker does for its client: it fires exactly the requests whose time
  has come, in order, and sets the timer for the next one. The client is observed through a log of
  the callbacks; times stay within \<open>2 ^ 46\<close> microseconds, so that no signed addition overflows.
\<close>

section \<open>Reading the time\<close>

text \<open>\<open>lg\<close> observes the calls: a callback adds its request and the time it is told, reading the real
  time adds nothing.\<close>

definition logs :: "'x clock_ops \<Rightarrow> ('x \<Rightarrow> (clock_request \<times> int) list) \<Rightarrow> bool" where
  "logs c lg \<longleftrightarrow> (\<forall>r t e. \<exists>e'. ko_callback c r t e = ret e' \<and> lg e' = lg e @ [(r, t)])
     \<and> (\<forall>e. lg (snd (ko_now c e)) = lg e)"

text \<open>\<open>n\<close> more readings of the time cannot overflow it.\<close>

definition times_ok :: "nat \<Rightarrow> 'x mmal_clock \<Rightarrow> bool" where
  "times_ok n s \<longleftrightarrow> \<bar>ck_media_time s\<bar> + int n * 2 ^ 40 \<le> 2 ^ 46 \<and> \<bar>ck_wall_time s\<bar> + int n * 2 ^ 40 \<le> 2 ^ 46
     \<and> uint (ck_media_time_frac s) < 2 ^ 24"

lemma drop_bit_bounds:
  assumes "0 \<le> d" and "d < 2 ^ 63"
  shows "0 \<le> drop_bit 24 (d :: int)" and "drop_bit 24 d < 2 ^ 39"
  using assms by (simp_all add: drop_bit_eq_div div_less_iff_less_mult)

lemma in_i64_small: "\<bar>x\<bar> \<le> 2 ^ 62 \<Longrightarrow> in_i64 x"
  by (auto simp: in_i64_def abs_le_iff)

lemma media_diff_bounds:
  fixes t f :: u32
  assumes "0 < k" and "k < 2 ^ 23" and "uint f < 2 ^ 24"
  shows "0 \<le> uint t * (k * 2 ^ 8)" and "uint t * (k * 2 ^ 8) + uint f < 2 ^ 63" and "uint t * (k * 2 ^ 8) < 2 ^ 63"
proof -
  have t: "0 \<le> uint t" "uint t \<le> 2 ^ 32 - 1" using uint_lt2p [of t] by simp_all
  have k: "0 \<le> k * 2 ^ 8" "k * 2 ^ 8 \<le> 2 ^ 31 - 2 ^ 8" using assms(1,2) by simp_all
  show "0 \<le> uint t * (k * 2 ^ 8)" using t k by simp
  have "uint t * (k * 2 ^ 8) \<le> (2 ^ 32 - 1) * (2 ^ 31 - 2 ^ 8)" using t k by (intro mult_mono) simp_all
  also have "\<dots> < 2 ^ 63 - 2 ^ 25" by simp
  finally have x: "uint t * (k * 2 ^ 8) < 2 ^ 63 - 2 ^ 25" .
  have y: "y < 2 ^ 63 - 2 ^ 25 \<Longrightarrow> y < 2 ^ 63" "y < 2 ^ 63 - 2 ^ 25 \<Longrightarrow> uint f < 2 ^ 24 \<Longrightarrow> y + uint f < 2 ^ 63" for y :: int
    by simp_all
  show "uint t * (k * 2 ^ 8) + uint f < 2 ^ 63" by (rule y(2) [OF x assms(3)])
  show "uint t * (k * 2 ^ 8) < 2 ^ 63" by (rule y(1) [OF x])
qed

lemma frac_bound: "uint (of_int (d AND (2 ^ 24 - 1)) :: u32) < 2 ^ 24"
proof -
  have "d AND (2 ^ 24 - 1) = d mod 2 ^ 24" by (metis mask_eq_exp_minus_1 take_bit_eq_mask take_bit_eq_mod)
  then have "0 \<le> d AND (2 ^ 24 - 1)" "d AND (2 ^ 24 - 1) < 2 ^ 24" by simp_all
  then show ?thesis by (simp add: uint_word_of_int_eq take_bit_int_eq_self)
qed

text \<open>The clock brought up to the time \<open>now\<close>.\<close>

definition at_time :: "u32 \<Rightarrow> 'r clock_core_scheme \<Rightarrow> 'r clock_core_scheme" where
  "at_time now s =
     (let diff = (if ck_rtc_at_update s < now then now - ck_rtc_at_update s else 0);
          d = uint diff * (ck_scale s * 2 ^ 8) + uint (ck_media_time_frac s)
      in s\<lparr>ck_wall_time := ck_wall_time s + uint diff, ck_media_time := ck_media_time s + drop_bit 24 d,
           ck_media_time_frac := of_int (d AND (2 ^ 24 - 1)), ck_rtc_at_update := now\<rparr>)"

lemma update_time_at:
  assumes k: "0 < ck_scale s" "ck_scale s < 2 ^ 23" and t: "times_ok (Suc n) s"
  shows "mmal_clock_update_local_time_locked c s
    = ret ((at_time (fst (ko_now c (ck_env s))) s)\<lparr>ck_env := snd (ko_now c (ck_env s))\<rparr>)"
proof -
  obtain now e where now: "ko_now c (ck_env s) = (now, e)" by force
  define diff where "diff = (if ck_rtc_at_update s < now then now - ck_rtc_at_update s else 0)"
  define d where "d = uint diff * (ck_scale s * 2 ^ 8) + uint (ck_media_time_frac s)"
  have f: "uint (ck_media_time_frac s) < 2 ^ 24" using t by (simp add: times_ok_def)
  note b = media_diff_bounds [OF k f, of diff, folded d_def]
  have d: "0 \<le> d" using b(1) by (simp add: d_def)
  note m = drop_bit_bounds [OF d b(2)]
  have u: "0 \<le> uint diff" "uint diff < 2 ^ 32" using uint_lt2p [of diff] by simp_all
  have r: "in_i64 (ck_wall_time s + uint diff)" "in_i64 (ck_media_time s + drop_bit 24 d)"
    using t m u by (intro in_i64_small; simp add: times_ok_def; arith)+
  have "in_i32 (ck_scale s * 2 ^ 8)" using k by (simp add: in_i32_def)
  moreover have "in_i64 (uint diff * (ck_scale s * 2 ^ 8))" "in_i64 d" using b d by (auto simp: in_i64_def)
  ultimately show ?thesis
    using r unfolding mmal_clock_update_local_time_locked_def at_time_def now diff_def [symmetric] Let_def prod.case fst_conv snd_conv
    by (simp add: d_def diff_def [symmetric] del: power.simps power_numeral)
qed

lemma at_time_fields [simp]:
  "ck_scale (at_time now s) = ck_scale s" "ck_scheduling (at_time now s) = ck_scheduling s"
  "ck_event (at_time now s) = ck_event s" "ck_is_active (at_time now s) = ck_is_active s"
  by (simp_all add: at_time_def Let_def)

lemma at_time_bounds:
  assumes k: "0 < ck_scale s" "ck_scale s < 2 ^ 23" and t: "times_ok (Suc n) s"
  shows "ck_media_time s \<le> ck_media_time (at_time now s)" and "times_ok n (at_time now s)"
proof -
  define diff where "diff = (if ck_rtc_at_update s < now then now - ck_rtc_at_update s else 0)"
  define d where "d = uint diff * (ck_scale s * 2 ^ 8) + uint (ck_media_time_frac s)"
  have f: "uint (ck_media_time_frac s) < 2 ^ 24" using t by (simp add: times_ok_def)
  note b = media_diff_bounds [OF k f, of diff, folded d_def]
  have d: "0 \<le> d" using b(1) by (simp add: d_def)
  note m = drop_bit_bounds [OF d b(2)]
  have u: "0 \<le> uint diff" "uint diff < 2 ^ 32" using uint_lt2p [of diff] by simp_all
  show "ck_media_time s \<le> ck_media_time (at_time now s)"
    using m(1) unfolding at_time_def Let_def diff_def [symmetric] d_def [symmetric] by simp
  show "times_ok n (at_time now s)"
    using t m u frac_bound [of d] unfolding at_time_def Let_def diff_def [symmetric] d_def [symmetric]
    by (simp add: times_ok_def; arith)
qed

lemma update_time_returns:
  assumes k: "0 < ck_scale s" "ck_scale s < 2 ^ 23" and t: "times_ok (Suc n) s" and l: "logs c lg"
  shows "\<exists>s'. mmal_clock_update_local_time_locked c s = ret s' \<and> ticked s s' \<and> ck_media_time s \<le> ck_media_time s'
    \<and> times_ok n s' \<and> lg (ck_env s') = lg (ck_env s)"
proof -
  obtain now e where now: "ko_now c (ck_env s) = (now, e)" by force
  have lg: "lg e = lg (ck_env s)" using l now unfolding logs_def by (metis snd_conv)
  let ?s = "(at_time now s)\<lparr>ck_env := e\<rparr>"
  have "ticked s ?s" by (simp add: ticked_def at_time_def Let_def)
  moreover have "times_ok n ?s" using at_time_bounds(2) [OF k t, of now] by (simp add: times_ok_def)
  ultimately show ?thesis
    using update_time_at [OF k t, of c] at_time_bounds(1) [OF k t, of now] lg by (simp add: now)
qed

lemma time_get_returns:
  assumes "0 < ck_scale s" "ck_scale s < 2 ^ 23" "times_ok (Suc n) s" "logs c lg"
  shows "\<exists>s'. mmal_clock_media_time_get_locked c s = ret (ck_media_time s', s') \<and> ticked s s'
    \<and> ck_media_time s \<le> ck_media_time s' \<and> times_ok n s' \<and> lg (ck_env s') = lg (ck_env s)"
  using update_time_returns [OF assms] by (auto simp: mmal_clock_media_time_get_locked_def)

section \<open>One round\<close>

text \<open>\<open>ready n s\<close>: the clock runs forwards at normal speed or faster, no discontinuity is in effect,
  and \<open>n\<close> readings of the time are safe.\<close>

definition ready :: "nat \<Rightarrow> 'x mmal_clock \<Rightarrow> bool" where
  "ready n s \<longleftrightarrow> 0 < ck_scale s \<and> ck_scale s < 2 ^ 23 \<and> 0 \<le> ck_scale_inv s \<and> ck_scale_inv s \<le> 2 ^ 16
     \<and> ck_discont_expiry s = 0 \<and> ck_timer s \<noteq> None \<and> times_ok n s"

definition adj_time :: "'x mmal_clock \<Rightarrow> addr \<Rightarrow> int" where
  "adj_time s r = cq_media_time_adj (ck_pool s r)"

text \<open>The outcome of a round that starts with \<open>ps\<close> pending and \<open>fs\<close> free.\<close>

definition serviced ::
  "('x \<Rightarrow> (clock_request \<times> int) list) \<Rightarrow> 'x mmal_clock \<Rightarrow> addr list \<Rightarrow> addr list \<Rightarrow> 'x mmal_clock \<Rightarrow> addr list \<Rightarrow> addr list \<Rightarrow> bool" where
  "serviced lg s ps fs s' fired rest \<longleftrightarrow> ps = fired @ rest \<and> clock_repr s' rest (fs @ fired)
     \<and> (\<exists>calls. lg (ck_env s') = lg (ck_env s) @ calls \<and> map fst calls = map (ck_pool s) fired
          \<and> (\<forall>(r, t) \<in> set calls. cq_media_time_adj r \<le> t + MIN_TIMER_DELAY))
     \<and> (rest \<noteq> [] \<longrightarrow> ck_media_time s' + MIN_TIMER_DELAY < adj_time s (hd rest)
          \<and> ck_timer s' = Some (Some (of_int (c_div
               (drop_bit 16 (ck_scale_inv s * (adj_time s (hd rest) - ck_media_time s'))) 1000))))"

lemma reschedule_returns:
  assumes r: "clock_repr s ps fs" "p \<notin> set ps" "p \<notin> set fs" and rd: "ready n s"
    and t: "ck_media_time s + MIN_TIMER_DELAY < adj_time s p" and b: "\<bar>adj_time s p\<bar> \<le> 2 ^ 45"
  shows "\<exists>s'. reschedule p (ck_media_time s) s = ret s' \<and> clock_repr s' (p # ps) fs
    \<and> ck_media_time s' = ck_media_time s \<and> ck_env s' = ck_env s \<and> ck_timer s' = Some (Some (of_int (c_div
               (drop_bit 16 (ck_scale_inv s * (adj_time s p - ck_media_time s))) 1000)))"
proof -
  obtain L K where 1: "push_front (ck_list_pending s) p s = ret (relist s L K)"
      "clock_repr (relist s L K) (p # ps) fs"
    using push_front_repr [OF r] by auto
  define d where "d = adj_time s p - ck_media_time s"
  have m: "\<bar>ck_media_time s\<bar> \<le> 2 ^ 46" using rd by (simp add: ready_def times_ok_def; arith)
  have d: "0 < d" "d \<le> 2 ^ 45 + 2 ^ 46" using t b m by (simp_all add: d_def MIN_TIMER_DELAY_def; arith)+
  have "ck_scale_inv s * d \<le> 2 ^ 16 * (2 ^ 45 + 2 ^ 46)" "0 \<le> ck_scale_inv s * d"
    using rd d by (intro mult_mono, simp_all add: ready_def)
  then have p: "in_i64 (ck_scale_inv s * d)" "\<not> ck_scale_inv s * d < 0" by (simp_all add: in_i64_def)
  have "in_i64 (- d)" "in_i64 d" using d by (simp_all add: in_i64_def)
  with p d(1) have "reschedule p (ck_media_time s) s = mmal_clock_timer_set (drop_bit 16 (ck_scale_inv s * d))
      (relist s L K\<lparr>ck_media_time_at_timer := ck_media_time s\<rparr>)"
    using rd 1(1) by (simp add: reschedule_def d_def adj_time_def ready_def abs_if)
  with rd 1(2) show ?thesis by (auto simp: mmal_clock_timer_set_def ready_def d_def)
qed

lemma serviced_Cons:
  assumes "serviced lg u ps (fs @ [p]) s' fired rest" and "fixed_part u = fixed_part s"
    and "lg (ck_env u) = lg (ck_env s) @ [(ck_pool s p, t)]" and "adj_time s p \<le> t + MIN_TIMER_DELAY"
  shows "serviced lg s (p # ps) fs s' (p # fired) rest"
proof -
  have f: "ck_pool u = ck_pool s" "ck_scale_inv u = ck_scale_inv s" using assms(2) by (simp_all add: fixed_part_def)
  obtain calls where "lg (ck_env s') = lg (ck_env u) @ calls" "map fst calls = map (ck_pool s) fired"
      "\<forall>(r, t) \<in> set calls. cq_media_time_adj r \<le> t + MIN_TIMER_DELAY"
    using assms(1) f unfolding serviced_def by auto
  then have "lg (ck_env s') = lg (ck_env s) @ (ck_pool s p, t) # calls"
      "map fst ((ck_pool s p, t) # calls) = map (ck_pool s) (p # fired)"
      "\<forall>(r, t) \<in> set ((ck_pool s p, t) # calls). cq_media_time_adj r \<le> t + MIN_TIMER_DELAY"
    using assms(3,4) by (auto simp: adj_time_def)
  with assms(1) f show ?thesis unfolding serviced_def adj_time_def by (auto intro!: exI [of _ "(ck_pool s p, t) # calls"])
qed

lemma process_loop_services:
  assumes "clock_repr s ps fs" and "ready (length ps) s" and "\<forall>p \<in> set ps. \<bar>adj_time s p\<bar> \<le> 2 ^ 45" and "logs c lg"
  shows "\<exists>s' fired rest. process_loop c s = ret s' \<and> serviced lg s ps fs s' fired rest"
  using assms
proof (induction ps arbitrary: s fs)
  case Nil
  have "process_loop c s = ret s" by (subst process_loop.simps) (simp add: pop_front_empty [OF Nil(1)])
  with Nil(1) show ?case by (auto simp: serviced_def)
next
  case (Cons p ps)
  obtain L K where 1: "pop_front (ck_list_pending s) s = ret (Some p, relist s L K)" "clock_repr (relist s L K) ps fs"
    using pop_front_repr [OF Cons.prems(1)] by auto
  have p: "p \<notin> set ps" "p \<notin> set fs" using clock_lists_disjoint [OF Cons.prems(1)] by auto
  have "0 < ck_scale (relist s L K)" "ck_scale (relist s L K) < 2 ^ 23" "times_ok (Suc (length ps)) (relist s L K)"
    using Cons.prems(2) by (auto simp: ready_def times_ok_def)
  from time_get_returns [OF this Cons.prems(4)] obtain s1 where t: "ticked (relist s L K) s1"
      and g: "mmal_clock_media_time_get_locked c (relist s L K) = ret (ck_media_time s1, s1)"
      and s1: "times_ok (length ps) s1" "lg (ck_env s1) = lg (ck_env s)" by auto
  have same: "fixed_part s1 = fixed_part s" "clock_repr s1 ps fs" using ticked_simps [OF t] 1(2) by simp_all
  have rd: "ready (length ps) s1" using Cons.prems(2) s1(1) same(1) ticked_more [OF t] by (simp add: ready_def fixed_part_def)
  then have ex: "expire_discontinuity s1 = s1" by (simp add: expire_discontinuity_def ready_def)
  have adj: "adj_time s1 = adj_time s" using same(1) by (auto simp: adj_time_def fixed_part_def)
  have "\<bar>ck_media_time s1\<bar> \<le> 2 ^ 46" using s1(1) by (simp add: times_ok_def; arith)
  then have "in_i64 (ck_media_time s1 + MIN_TIMER_DELAY)" by (intro in_i64_small) (simp add: MIN_TIMER_DELAY_def; arith)
  then have due: "request_due (ck_media_time s1) (cq_media_time_adj (ck_pool s1 p)) s1 =
      ret (adj_time s p \<le> ck_media_time s1 + MIN_TIMER_DELAY)"
    using rd adj by (simp add: request_due_def ready_def adj_time_def fun_eq_iff)
  note step = process_loop_step [OF 1(1), of c]
  show ?case
  proof (cases "adj_time s p \<le> ck_media_time s1 + MIN_TIMER_DELAY")
    case True
    obtain e where e: "ko_callback c (ck_pool s1 p) (ck_media_time s1) (ck_env s1) = ret e"
        "lg e = lg (ck_env s) @ [(ck_pool s p, ck_media_time s1)]"
      using Cons.prems(4) s1(2) same(1) unfolding logs_def fixed_part_def by fastforce
    let ?v = "s1\<lparr>ck_env := e\<rparr>"
    have v: "call_request c p (ck_media_time s1) s1 = ret ?v" using e(1) by (simp add: call_request_def)
    have "clock_lists (ck_list_pending s1) (ck_list_free s1) (ck_lists ?v) (ck_links ?v) fs ps"
      using clock_lists_swap [OF same(2)] by simp
    from push_back_repr [OF this p(2,1)] obtain L' K' where
        u: "push_back (ck_list_free ?v) p ?v = ret (relist ?v L' K')" by auto
    let ?u = "relist ?v L' K'"
    have f: "fixed_part ?u = fixed_part s" using same(1) by (simp add: fixed_part_def)
    have "ready (length ps) ?u" using rd by (simp add: ready_def times_ok_def)
    moreover have "\<forall>p \<in> set ps. \<bar>adj_time ?u p\<bar> \<le> 2 ^ 45" using Cons.prems(3) f by (simp add: adj_time_def fixed_part_def)
    ultimately obtain s' fired rest where
        s': "process_loop c ?u = ret s'" "serviced lg ?u ps (fs @ [p]) s' fired rest"
      using Cons.IH [OF recycle_ret(1) [OF same(2) p v u]] Cons.prems(4) by blast
    have "process_loop c s = ret s'" using step g due True v u s'(1) by (simp add: ex)
    moreover have "serviced lg s (p # ps) fs s' (p # fired) rest"
      by (rule serviced_Cons [OF s'(2) f _ True]) (simp add: e(2))
    ultimately show ?thesis by blast
  next
    case False
    then have nd: "ck_media_time s1 + MIN_TIMER_DELAY < adj_time s1 p" "\<bar>adj_time s1 p\<bar> \<le> 2 ^ 45"
      using adj Cons.prems(3) by simp_all
    from reschedule_returns [OF same(2) p rd nd] obtain s' where s': "reschedule p (ck_media_time s1) s1 = ret s'"
      "clock_repr s' (p # ps) fs" "ck_media_time s' = ck_media_time s1" "ck_env s' = ck_env s1"
      "ck_timer s' = Some (Some (of_int (c_div (drop_bit 16 (ck_scale_inv s1 * (adj_time s1 p - ck_media_time s1))) 1000)))"
      by blast
    have "process_loop c s = ret s'" using step g due False s'(1) by (simp add: ex)
    moreover have "serviced lg s (p # ps) fs s' [] (p # ps)"
      using s' nd(1) s1(2) same(1) adj by (simp add: serviced_def fixed_part_def)
    ultimately show ?thesis by blast
  qed
qed

lemma ready_mono: "ready n s \<Longrightarrow> m \<le> n \<Longrightarrow> ready m s"
proof -
  assume a: "ready n s" "m \<le> n"
  have "int m * 2 ^ 40 \<le> int n * 2 ^ 40" using a(2) by (intro mult_right_mono) simp_all
  with a(1) show ?thesis unfolding ready_def times_ok_def by (elim conjE) (intro conjI; (assumption | linarith))
qed

text \<open>Without a backward jump the detection only reads the time.\<close>

lemma detect_none:
  assumes "ready (Suc n) s" and l: "logs c lg" and "ck_media_time_at_timer s \<le> ck_media_time s"
    and thr: "0 \<le> ck_discont_threshold s" "ck_discont_threshold s \<le> 2 ^ 45"
  shows "\<exists>s'. detect_discontinuity c s = ret s' \<and> ticked s s' \<and> ready n s' \<and> lg (ck_env s') = lg (ck_env s)"
proof (cases "ck_media_time_at_timer s = 0")
  case True
  moreover have "ticked s s" by (simp add: ticked_def)
  moreover have "ready n s" using ready_mono [OF assms(1)] by simp
  ultimately show ?thesis by (intro exI [of _ s]) (simp add: detect_discontinuity_def)
next
  case False
  have k: "0 < ck_scale s" "ck_scale s < 2 ^ 23" "times_ok (Suc n) s" using assms(1) by (auto simp: ready_def)
  obtain s1 where g: "mmal_clock_media_time_get_locked c s = ret (ck_media_time s1, s1)"
      and t: "ticked s s1" "ck_media_time s \<le> ck_media_time s1" "times_ok n s1" "lg (ck_env s1) = lg (ck_env s)"
    using time_get_returns [OF k l] by blast
  note m = ticked_more [OF t(1)]
  have f: "fixed_part s1 = fixed_part s" using ticked_simps [OF t(1)] by simp
  have "ready n s1" using assms(1) t(3) m f by (simp add: ready_def fixed_part_def)
  moreover have "detect_discontinuity c s = ret s1"
  proof -
    have "\<bar>ck_media_time s1\<bar> \<le> 2 ^ 46" using t(3) by (simp add: times_ok_def; arith)
    then have "in_i64 (ck_media_time s1 + ck_discont_threshold s1)" using thr m(4)
      by (intro in_i64_small) (simp; arith)
    moreover have "\<not> ck_media_time s1 + ck_discont_threshold s1 < ck_media_time_at_timer s1"
      using assms(3) t(2) thr(1) m by simp
    ultimately show ?thesis using g False by (simp add: detect_discontinuity_def)
  qed
  ultimately show ?thesis using t by blast
qed

lemma serviced_ticked:
  assumes "serviced lg s1 ps fs s' fired rest" and "fixed_part s1 = fixed_part s" and "lg (ck_env s1) = lg (ck_env s)"
  shows "serviced lg s ps fs s' fired rest"
  using assms by (simp add: serviced_def fixed_part_def adj_time_def)

section \<open>Properties\<close>

text \<open>C12. A round of the worker on an active clock with callbacks that return returns, whatever the real time does
  meanwhile, provided that the clock runs forwards at normal speed or up to 128 times as fast, that at most 32 requests are pending, that no
  discontinuity is in effect and none is found (the media time is not behind the one when the timer was set), and
  that times and thresholds stay within \<open>2 ^ 45\<close> microseconds. It has called the client for a prefix of the pending
  requests, in order, each at a media time at most 10 ms before the one asked for, and recycled their slots. The first
  request that stays pending is more than 10 ms in the future, and the timer is armed with the real time until then.
  During a discontinuity, which is left out, the code fires requests without regard to their time.\<close>

theorem clock_services_due_requests:
  assumes "clock_repr s ps fs" and "length ps \<le> CLOCK_REQUEST_SLOTS" and "ck_is_active s" and "ready 33 s"
    and "\<forall>p \<in> set ps. \<bar>adj_time s p\<bar> \<le> 2 ^ 45" and "logs c lg"
    and "ck_media_time_at_timer s \<le> ck_media_time s" and "0 \<le> ck_discont_threshold s" "ck_discont_threshold s \<le> 2 ^ 45"
  shows "\<exists>s' fired rest calls. mmal_clock_process_requests c s = ret s' \<and> ps = fired @ rest
     \<and> clock_repr s' rest (fs @ fired)
     \<and> lg (ck_env s') = lg (ck_env s) @ calls \<and> map fst calls = map (ck_pool s) fired
     \<and> (\<forall>(r, t) \<in> set calls. cq_media_time_adj r \<le> t + MIN_TIMER_DELAY)
     \<and> (rest \<noteq> [] \<longrightarrow> ck_media_time s' + MIN_TIMER_DELAY < adj_time s (hd rest)
          \<and> ck_timer s' = Some (Some (of_int (c_div
               (drop_bit 16 (ck_scale_inv s * (adj_time s (hd rest) - ck_media_time s'))) 1000))))"
proof (cases "ps = []")
  case True
  with assms(1) have "list_length (ck_list_pending s) s = ret 0"
    by (auto simp: clock_lists_def list_length_def list_repr_def)
  then have "mmal_clock_process_requests c s = ret s" by (simp add: mmal_clock_process_requests_def)
  with assms(1) True show ?thesis by auto
next
  case False
  obtain l where "list_length (ck_list_pending s) s = ret l" "l = of_nat (length ps)"
    using assms(1) by (auto simp: clock_lists_def list_length_def list_repr_def)
  moreover have "(of_nat (length ps) :: u32) \<noteq> 0"
    using False assms(2) by (auto simp: word_of_nat_eq_0_iff CLOCK_REQUEST_SLOTS_def dest!: dvd_imp_le)
  ultimately have p: "mmal_clock_process_requests c s = andthen (detect_discontinuity c s) (process_loop c)"
    using assms(3) by (simp add: mmal_clock_process_requests_def)
  have "ready (Suc 32) s" using assms(4) by simp
  from detect_none [OF this assms(6-9)] obtain s1 where d: "detect_discontinuity c s = ret s1" "ticked s s1" "ready 32 s1"
      "lg (ck_env s1) = lg (ck_env s)" by blast
  note t = ticked_simps [OF d(2)]
  have "clock_repr s1 ps fs" using assms(1) t by simp
  moreover have "ready (length ps) s1" using ready_mono [OF d(3)] assms(2) by (simp add: CLOCK_REQUEST_SLOTS_def)
  moreover have "\<forall>p \<in> set ps. \<bar>adj_time s1 p\<bar> \<le> 2 ^ 45" using assms(5) t(1) by (simp add: adj_time_def fixed_part_def)
  ultimately obtain s' fired rest where s': "process_loop c s1 = ret s'" "serviced lg s1 ps fs s' fired rest"
    using process_loop_services assms(6) by blast
  from serviced_ticked [OF s'(2) t(1) d(4)] p d(1) s'(1) show ?thesis
    unfolding serviced_def by (simp, blast)
qed

text \<open>A clock at normal speed whose media time is 0, with two requests pending, for 5 ms and for 1 s.
  The environment is the log; the real time stands still.\<close>

definition two_requests :: "(clock_request \<times> int) list mmal_clock" where
  "two_requests = (zero_clock [])\<lparr>ck_is_active := True, ck_scheduling := True, ck_event := Some 0, ck_thread := True,
     ck_timer := Some None, ck_scale := 2 ^ 16, ck_scale_inv := 2 ^ 16,
     ck_discont_threshold := CLOCK_DISCONT_THRESHOLD, ck_list_free := Some 100, ck_list_pending := Some 200,
     ck_lists := [100 \<mapsto> \<lparr>ml_length = 0, ml_first = None, ml_last = None\<rparr>,
                  200 \<mapsto> \<lparr>ml_length = 2, ml_first = Some 0, ml_last = Some 1\<rparr>],
     ck_links := (\<lambda>_. \<lparr>le_next = None, le_prev = None\<rparr>)(0 := \<lparr>le_next = Some 1, le_prev = None\<rparr>,
        1 := \<lparr>le_next = None, le_prev = Some 0\<rparr>),
     ck_pool := (\<lambda>r. \<lparr>cq_priv = 0, cq_cb = 0, cq_cb_data = 0, cq_media_time = 0,
        cq_media_time_adj = (if r = 0 then 5000 else 1000000)\<rparr>)\<rparr>"

lemma two_requests_repr: "clock_repr two_requests [0, 1] []"
  by (simp add: clock_lists_def two_requests_def list_repr_def)

theorem clock_services_due_requests_witness:
  "\<exists>s' fired rest. mmal_clock_process_requests log_ops two_requests = ret s' \<and> [0, 1] = fired @ rest
     \<and> clock_repr s' rest fired \<and> length (ck_env s') = length fired"
proof -
  have l: "length [0, 1 :: addr] \<le> CLOCK_REQUEST_SLOTS" by (simp add: CLOCK_REQUEST_SLOTS_def)
  have a: "ck_is_active two_requests" "ready 33 two_requests"
      "\<forall>p \<in> set [0, 1]. \<bar>adj_time two_requests p\<bar> \<le> 2 ^ 45" "logs log_ops id"
      "ck_media_time_at_timer two_requests \<le> ck_media_time two_requests"
      "0 \<le> ck_discont_threshold two_requests" "ck_discont_threshold two_requests \<le> 2 ^ 45"
    by (simp_all add: two_requests_def zero_clock_def ready_def times_ok_def adj_time_def logs_def log_ops_def
        CLOCK_DISCONT_THRESHOLD_def)
  obtain s' fired rest calls where s': "mmal_clock_process_requests log_ops two_requests = ret s'" "[0, 1] = fired @ rest"
      "clock_repr s' rest ([] @ fired)" "ck_env s' = ck_env two_requests @ calls"
      "map fst calls = map (ck_pool two_requests) fired"
    using clock_services_due_requests [OF two_requests_repr l a] unfolding id_def by blast
  have "length (ck_env s') = length fired"
    using s'(4) arg_cong [OF s'(5), of length] by (simp add: two_requests_def zero_clock_def)
  with s'(1-3) show ?thesis by (intro exI [of _ s'] exI [of _ fired] exI [of _ rest]) simp
qed

section \<open>Failures and limits\<close>

text \<open>When the worker thread cannot be created, everything acquired for scheduling is released and
  the call reports \<open>MMAL_ENOSPC\<close>, but the structure keeps the addresses of the freed lists. If a later
  request fails already at the timer or the semaphore, the error path frees these lists once more.\<close>

lemma second_failure_frees_lists_twice:
  assumes "fresh_blocks r s" and "sr_timer r = VCOS_SUCCESS" "sr_event r = VCOS_SUCCESS"
    and "sr_list_free r = Some a" "sr_free_mutex r = VCOS_SUCCESS"
    and "sr_list_pending r = Some b" "sr_pending_mutex r = VCOS_SUCCESS"
    and "sr_thread r \<noteq> VCOS_SUCCESS"
    and "sr_timer r2 \<noteq> VCOS_SUCCESS \<or> sr_event r2 \<noteq> VCOS_SUCCESS"
  shows "\<exists>s1. mmal_clock_create_scheduling r s = ret (MMAL_ENOSPC, s1) \<and> ck_lists s1 a = None \<and> ck_lists s1 b = None
    \<and> ck_timer s1 = None \<and> ck_event s1 = None \<and> ck_list_free s1 = Some a
    \<and> mmal_clock_create_scheduling r2 s1 = Some Faults"
proof -
  have "a \<noteq> b" using assms(1,4,6) by (auto simp: fresh_blocks_def)
  define e where "e = \<lparr>ml_length = 0, ml_first = None, ml_last = None\<rparr>"
  define u where "u = s\<lparr>ck_timer := Some None, ck_event := Some 0, ck_list_free := Some a,
    ck_lists := (ck_lists s)(a \<mapsto> e, b \<mapsto> e), ck_list_pending := Some b\<rparr>"
  obtain L K where LK: "push_slots [0..<CLOCK_REQUEST_SLOTS] u = ret (relist u L K)"
      "clock_repr (relist u L K) [] [0..<CLOCK_REQUEST_SLOTS]"
    using lists_created [of a b u] \<open>a \<noteq> b\<close> by (auto simp: u_def e_def)
  obtain x y where live: "L a = Some x" "L b = Some y" using LK(2) by (auto simp: clock_lists_def u_def)
  have "mmal_clock_create_scheduling r s = scheduling_error True VCOS_SUCCESS (relist u L K)"
    using assms LK(1) by (simp add: mmal_clock_create_scheduling_def list_create_def mmal_list_create_def u_def e_def)
  also have "\<dots> = ret (MMAL_ENOSPC, relist u (L(a := None, b := None)) K\<lparr>ck_event := None, ck_timer := None\<rparr>)"
    using live \<open>a \<noteq> b\<close> by (auto simp: scheduling_error_def destroy_if_def mmal_list_destroy_def u_def Let_def)
  finally have c: "mmal_clock_create_scheduling r s =
      ret (MMAL_ENOSPC, relist u (L(a := None, b := None)) K\<lparr>ck_event := None, ck_timer := None\<rparr>)" (is "_ = ret (_, ?s1)") .
  have "mmal_clock_create_scheduling r2 ?s1 = Some Faults"
    using assms(9) by (auto simp: mmal_clock_create_scheduling_def scheduling_error_def destroy_if_def mmal_list_destroy_def
        Let_def u_def)
  with c show ?thesis by (intro exI [of _ ?s1]) (simp add: u_def)
qed

lemma second_failure_frees_lists_twice_witness:
  "\<exists>s1. mmal_clock_create_scheduling (sched_ok\<lparr>sr_thread := VCOS_ENOMEM\<rparr>) (zero_clock ()) = ret (MMAL_ENOSPC, s1)
     \<and> mmal_clock_create_scheduling (sched_ok\<lparr>sr_timer := VCOS_ENOMEM\<rparr>) s1 = Some Faults"
  using second_failure_frees_lists_twice [of "sched_ok\<lparr>sr_thread := VCOS_ENOMEM\<rparr>" "zero_clock ()" 100 200
      "sched_ok\<lparr>sr_timer := VCOS_ENOMEM\<rparr>"]
  by (auto simp: sched_ok_def fresh_blocks_def zero_clock_def)

text \<open>At a scale of 128 or more the shift of the scale overflows \<open>int32_t\<close> whenever the time is read.\<close>

lemma fast_clock_overflows:
  "mmal_rational_to_fixed_16_16 \<lparr>num = 128, den = 1\<rparr> = 2 ^ 23"
  "2 ^ 23 \<le> ck_scale s \<Longrightarrow> mmal_clock_media_time_get c s = Some Faults"
proof -
  show "mmal_rational_to_fixed_16_16 \<lparr>num = 128, den = 1\<rparr> = 2 ^ 23"
    by (simp add: mmal_rational_to_fixed_16_16_def INT_MAX_def INT_MIN_def)
  assume "2 ^ 23 \<le> ck_scale s"
  then have "as_i32 (ck_scale s * 2 ^ 8) = Some Faults" by (simp add: as_i32_def i32_def in_i32_def)
  then show "mmal_clock_media_time_get c s = Some Faults"
    by (simp add: mmal_clock_media_time_get_def mmal_clock_media_time_get_locked_def
        mmal_clock_update_local_time_locked_def as_i64_def i64_def Let_def split: prod.split)
qed

text \<open>Changing the direction does not reorder the pending list: a request behind one that is not due
  backwards waits although its time has come.\<close>

lemma reversed_clock_blocks_due_request:
  assumes "ck_scale s < 0" and "ck_discont_expiry s = 0" and "\<bar>t\<bar> \<le> 2 ^ 45"
    and "adj_time s p < t - MIN_TIMER_DELAY" and "t - MIN_TIMER_DELAY \<le> adj_time s q"
  shows "request_due t (adj_time s p) s = ret False" and "request_due t (adj_time s q) s = ret True"
proof -
  have "in_i64 (t - MIN_TIMER_DELAY)" using assms(3) by (intro in_i64_small) (simp add: MIN_TIMER_DELAY_def; arith)
  with assms show "request_due t (adj_time s p) s = ret False" "request_due t (adj_time s q) s = ret True"
    by (simp_all add: request_due_def)
qed

end
