(* ===== verification/Mmal_Splitter.thy ===== *)
theory Mmal_Splitter
  imports Mmal_Passthrough
begin

text \<open>
  The splitter component (\<^verbatim>\<open>components/splitter.c\<close>): a header sent to the input port is replicated
  into a header of every output port, without copying the payload. The module's data are the flags of
  the enabled outputs and of those that got the current input.
\<close>

section \<open>The functions of the ports\<close>

definition SPLITTER_OUTPUT_PORTS_NUM :: u32 where "SPLITTER_OUTPUT_PORTS_NUM = 4"

definition flag_bit :: "nat \<Rightarrow> u32" where "flag_bit i = push_bit i 1"

definition splitter_port_enable :: "addr \<Rightarrow> nat option \<Rightarrow> 'x status_op" where
  "splitter_port_enable p cb s =
     (let P = port_of s p in
      ret (MMAL_SUCCESS,
        if po_buffer_size P \<noteq> 0 \<and> po_type P = MMAL_PORT_TYPE_OUTPUT
        then upd_comp (po_component P)
               (\<lambda>C. C\<lparr>co_enabled_flags := co_enabled_flags C OR flag_bit (unat (po_index P))\<rparr>) s
        else s))"

definition splitter_port_flush :: "'x port_ops \<Rightarrow> addr \<Rightarrow> 'x status_op" where
  "splitter_port_flush c p s =
     andthen (flush_module_loop (mmal_port_buffer_header_callback c p) p s) (\<lambda>s1.
       ret (MMAL_SUCCESS,
         if po_type (port_of s1 p) = MMAL_PORT_TYPE_INPUT
         then upd_comp (po_component (port_of s1 p)) (\<lambda>C. C\<lparr>co_sent_flags := 0\<rparr>) s1 else s1))"

definition splitter_port_disable :: "'x port_ops \<Rightarrow> addr \<Rightarrow> 'x status_op" where
  "splitter_port_disable c p s =
     (let P = port_of s p in
      splitter_port_flush c p
        (if po_type P = MMAL_PORT_TYPE_OUTPUT
         then upd_comp (po_component P)
                (\<lambda>C. C\<lparr>co_enabled_flags := co_enabled_flags C AND NOT (flag_bit (unat (po_index P)))\<rparr>) s
         else s))"

definition splitter_send_output :: "'x port_ops \<Rightarrow> addr \<Rightarrow> addr \<Rightarrow> 'x status_op" where
  "splitter_send_output c buffer out_port s =
     andthen (module_queue_get out_port s) (\<lambda>(r, s1).
       case r of
         None \<Rightarrow> ret (MMAL_EAGAIN, s1)
       | Some outb \<Rightarrow>
           (case mmal_buffer_header_replicate (Some outb) (Some buffer) s1 of
              (st, s2) \<Rightarrow>
                if st \<noteq> MMAL_SUCCESS then ret (st, module_queue_put_back out_port outb s2)
                else andthen (mmal_port_buffer_header_callback c out_port outb s2) (\<lambda>s3. ret (MMAL_SUCCESS, s3))))"

text \<open>The loop over the outputs, from the output \<open>i\<close>.\<close>

fun send_to_outputs :: "'x port_ops \<Rightarrow> addr \<Rightarrow> addr \<Rightarrow> nat \<Rightarrow> addr list \<Rightarrow> 'x status_op" where
  "send_to_outputs c a inb i [] s = ret (MMAL_SUCCESS, s)"
| "send_to_outputs c a inb i (out # outs) s =
     andthen (splitter_send_output c inb out s) (\<lambda>(st, s1).
       if st \<noteq> MMAL_SUCCESS \<and> st \<noteq> MMAL_EAGAIN then ret (st, s1)
       else send_to_outputs c a inb (i + 1) outs
              (if st = MMAL_SUCCESS
               then upd_comp a (\<lambda>C. C\<lparr>co_sent_flags := co_sent_flags C OR flag_bit i\<rparr>) s1 else s1))"

definition splitter_error :: "'x port_ops \<Rightarrow> addr \<Rightarrow> addr \<Rightarrow> addr \<Rightarrow> mmal_status \<Rightarrow> 'x status_op" where
  "splitter_error c a in_port inb st s =
     andthen (mmal_event_error_send c (Some a) st (module_queue_put in_port inb s)) (\<lambda>(st', s1).
       if st' \<noteq> MMAL_SUCCESS then ret (MMAL_SUCCESS, s1)
       else ret (MMAL_SUCCESS, upd_comp a (\<lambda>C. C\<lparr>co_error := True\<rparr>) s1))"

definition splitter_port_send :: "'x port_ops \<Rightarrow> addr \<Rightarrow> addr \<Rightarrow> 'x status_op" where
  "splitter_port_send c p b s =
     (let a = po_component (port_of s p); s1 = module_queue_put p b s in
      if co_error (comp_of s1 a) then ret (MMAL_SUCCESS, s1)
      else
        let in_port = co_input (comp_of s1 a) ! 0 in
        andthen (module_queue_get in_port s1) (\<lambda>(r, s2).
          case r of
            None \<Rightarrow> ret (MMAL_SUCCESS, s2)
          | Some inb \<Rightarrow>
              andthen (send_to_outputs c a inb 0 (co_output (comp_of s2 a)) s2) (\<lambda>(st, s3).
                if st \<noteq> MMAL_SUCCESS then splitter_error c a in_port inb st s3
                else if co_sent_flags (comp_of s3 a) AND co_enabled_flags (comp_of s3 a)
                          = co_enabled_flags (comp_of s3 a)
                then andthen (mmal_port_buffer_header_callback c in_port inb
                                (upd_buf inb (\<lambda>B. B\<lparr>bh_length := 0\<rparr>) s3)) (\<lambda>s4.
                     ret (MMAL_SUCCESS, upd_comp a (\<lambda>C. C\<lparr>co_sent_flags := 0\<rparr>) s4))
                else ret (MMAL_SUCCESS, module_queue_put in_port inb s3))))"

text \<open>The loop of \<open>splitter_port_format_commit\<close>.\<close>

fun commit_outputs :: "'x port_ops \<Rightarrow> addr \<Rightarrow> addr list \<Rightarrow> 'x status_op" where
  "commit_outputs c p [] s = ret (MMAL_SUCCESS, s)"
| "commit_outputs c p (out # outs) s =
     (case (po_format (port_of s out), po_format (port_of s p)) of
        (Some dst, Some src) \<Rightarrow>
          andthen (world_format_full_copy c dst src s) (\<lambda>(st, s1).
            if st \<noteq> MMAL_SUCCESS then ret (st, s1) else commit_outputs c p outs s1)
      | _ \<Rightarrow> Some Faults)"

definition splitter_port_format_commit :: "'x port_ops \<Rightarrow> addr \<Rightarrow> 'x status_op" where
  "splitter_port_format_commit c p s =
     (if is_output p s then ret (MMAL_EINVAL, s)
      else commit_outputs c p (co_output (comp_of s (po_component (port_of s p)))) s)"

definition splitter_port_parameter_set :: "addr \<Rightarrow> parameter \<Rightarrow> 'x status_op" where
  "splitter_port_parameter_set p param s =
     (let a = po_component (port_of s p); P = port_of s p; d = pm_data param in
      if pm_id param = MMAL_PARAMETER_BUFFER_REQUIREMENTS then
        let ws = [max (po_buffer_num_min P) (d ! 0), max (po_buffer_num_recommended P) (d ! 3),
                  max (po_buffer_size_min P) (d ! 1), max (po_buffer_size_recommended P) (d ! 4)]
        in ret (MMAL_SUCCESS, fold (\<lambda>q. upd_port q (require ws)) (co_output (comp_of s a))
                  (upd_port (co_input (comp_of s a) ! 0) (require ws) s))
      else ret (MMAL_ENOSYS, s))"

section \<open>Creation and destruction\<close>

definition SPLITTER :: nat where "SPLITTER = 5"

definition splitter_component_destroy :: "'x port_ops \<Rightarrow> addr \<Rightarrow> 'x status_op" where
  "splitter_component_destroy c a s =
     andthen (free_ports_of c (co_input_base (comp_of s a)) (co_input (comp_of s a))
                (destroy_module_queues (co_input (comp_of s a)) s)) (\<lambda>s1.
     andthen (free_ports_of c (co_output_base (comp_of s1 a)) (co_output (comp_of s1 a))
                (destroy_module_queues (co_output (comp_of s1 a)) s1)) (\<lambda>s2.
     ret (MMAL_SUCCESS, free_opt c (co_module (comp_of s2 a)) s2)))"

definition splitter_port :: "u32 \<Rightarrow> mmal_port \<Rightarrow> mmal_port" where
  "splitter_port caps P = P\<lparr>po_pf_enable := Some SPLITTER, po_pf_disable := Some SPLITTER,
     po_pf_flush := Some SPLITTER, po_pf_send := Some SPLITTER,
     po_pf_set_format := Some SPLITTER, po_pf_parameter_set := Some SPLITTER,
     po_buffer_num_min := 1, po_buffer_num_recommended := 0, po_capabilities := caps\<rparr>"

definition create_splitter_error :: "'x port_ops \<Rightarrow> addr \<Rightarrow> 'x status_op" where
  "create_splitter_error c a s =
     andthen (splitter_component_destroy c a s) (\<lambda>(_, s1). ret (MMAL_ENOMEM, s1))"

text \<open>The loop that sets up the outputs; false: a queue is missing.\<close>

fun setup_outputs :: "'x port_ops \<Rightarrow> addr list \<Rightarrow> 'x pst \<Rightarrow> bool \<times> 'x pst" where
  "setup_outputs c [] s = (True, s)"
| "setup_outputs c (p # ps) s =
     (case setup_port c (splitter_port CAPABILITY_PASSTHROUGH) p s of
        (False, s1) \<Rightarrow> (False, s1) | (True, s1) \<Rightarrow> setup_outputs c ps s1)"

definition create_splitter_outputs :: "'x port_ops \<Rightarrow> addr \<Rightarrow> 'x status_op" where
  "create_splitter_outputs c a s =
     andthen (mmal_ports_alloc c a SPLITTER_OUTPUT_PORTS_NUM MMAL_PORT_TYPE_OUTPUT
                (sizeof_port_module (pp_sizes c)) s) (\<lambda>(ports, s1).
       case ports of
         None \<Rightarrow> create_splitter_error c a s1
       | Some (base, ps) \<Rightarrow>
           (case setup_outputs c ps (upd_comp a (\<lambda>C. C\<lparr>co_output_base := Some base, co_output := ps\<rparr>) s1) of
              (False, s2) \<Rightarrow> create_splitter_error c a s2
            | (True, s2) \<Rightarrow> ret (MMAL_SUCCESS, s2)))"

definition mmal_component_create_splitter :: "'x port_ops \<Rightarrow> addr \<Rightarrow> 'x status_op" where
  "mmal_component_create_splitter c a s =
     (let (modul, s1) = vcos_malloc c (sizeof_module (pp_sizes c)) s;
          s2 = upd_comp a (\<lambda>C. C\<lparr>co_module := modul\<rparr>) s1
      in if modul = None then ret (MMAL_ENOMEM, s2)
         else andthen (mmal_ports_alloc c a 1 MMAL_PORT_TYPE_INPUT (sizeof_port_module (pp_sizes c))
                (upd_comp a (\<lambda>C. C\<lparr>co_enabled_flags := 0, co_sent_flags := 0, co_error := False,
                                  co_pf_destroy := Some SPLITTER\<rparr>) s2)) (\<lambda>(ports, s3).
           case ports of
             None \<Rightarrow> create_splitter_error c a s3
           | Some (base, ps) \<Rightarrow>
               (case setup_port c (splitter_port 0) (ps ! 0)
                       (upd_comp a (\<lambda>C. C\<lparr>co_input_base := Some base, co_input := ps\<rparr>) s3) of
                  (False, s4) \<Rightarrow> create_splitter_error c a s4
                | (True, s4) \<Rightarrow> create_splitter_outputs c a s4)))"

end
