(* ===== verification/Mmal_Splitter_Facts.thy ===== *)
theory Mmal_Splitter_Facts
  imports Mmal_Splitter Mmal_Port_Order
begin

text \<open>
  Properties of the splitter (\<^verbatim>\<open>components/splitter.c\<close>): an input goes to every enabled output that
  has a header waiting, and what becomes of an input that only some of the outputs have taken. The
  client is one that records the headers it is given and does nothing else at once.
\<close>

section \<open>One output\<close>

definition records :: "'x port_ops \<Rightarrow> (addr \<Rightarrow> addr \<Rightarrow> 'x \<Rightarrow> 'x) \<Rightarrow> bool" where
  "records c lg \<longleftrightarrow> \<not> pp_collect_stats c \<and> (\<forall>f p b s. pp_cb c f p b s = ret (upd_env (lg p b) s))"

lemma callback_records:
  assumes "records c lg" and "po_callback (port_of s p) \<noteq> None"
  shows "mmal_port_buffer_header_callback c p b s = ret (in_transit_decrement p (upd_env (lg p b) s))"
  using assms by (auto simp: mmal_port_buffer_header_callback_def records_def)

lemma in_transit_decrement_frame:
  "bufs (in_transit_decrement p s) = bufs s" "w_comp (ps_env (in_transit_decrement p s)) = w_comp (ps_env s)"
  "w_env (ps_env (in_transit_decrement p s)) = w_env (ps_env s)"
  "po_module_queue (port_of (in_transit_decrement p s) q) = po_module_queue (port_of s q)"
  "po_callback (port_of (in_transit_decrement p s) q) = po_callback (port_of s q)"
  "po_component (port_of (in_transit_decrement p s) q) = po_component (port_of s q)"
  by (simp_all add: in_transit_decrement_def Let_def)

text \<open>The header of an output that becomes a replica.\<close>

definition replica_of :: "addr \<Rightarrow> mmal_header \<Rightarrow> mmal_header \<Rightarrow> mmal_header" where
  "replica_of src S d = copy_public S (d\<lparr>bh_reference := Some src\<rparr>)"

definition ports_same :: "'x pst \<Rightarrow> 'x pst \<Rightarrow> bool" where
  "ports_same s s' \<longleftrightarrow> (\<forall>q. po_callback (port_of s' q) = po_callback (port_of s q)
     \<and> po_component (port_of s' q) = po_component (port_of s q))"

lemma send_output_replicates:
  assumes h: "module_holds out s (h # hs)" and r: "bh_reference (bufs s h) = None" and cb: "po_callback (port_of s out) \<noteq> None"
    and rec: "records c lg" and n: "h \<noteq> i" "i \<notin> set hs"
  shows "\<exists>s'. splitter_send_output c i out s = ret (MMAL_SUCCESS, s') \<and> module_holds out s' hs
    \<and> w_env (ps_env s') = lg out h (w_env (ps_env s)) \<and> w_comp (ps_env s') = w_comp (ps_env s)
    \<and> bufs s' = (bufs s)(i := (bufs s i)\<lparr>bh_refcount := bh_refcount (bufs s i) + 1\<rparr>,
                          h := replica_of i (bufs s i) (bufs s h))
    \<and> ports_same s s' \<and> (\<forall>q. q \<noteq> out \<longrightarrow> po_module_queue (port_of s' q) = po_module_queue (port_of s q))"
proof -
  have d: "h \<notin> set hs" using h by (auto simp: module_holds_def dest: queue_repr_distinct)
  obtain q' where g: "module_queue_get out s = ret (Some h, upd_port out (\<lambda>P. P\<lparr>po_module_queue := q'\<rparr>) s)"
      "module_holds out (upd_port out (\<lambda>P. P\<lparr>po_module_queue := q'\<rparr>) s) hs"
    using module_get_Cons [OF h] by blast
  define s1 where "s1 = upd_port out (\<lambda>P. P\<lparr>po_module_queue := q'\<rparr>) s"
  define s2 where "s2 = upd_buf h (\<lambda>b. copy_public (bufs s1 i) (b\<lparr>bh_reference := Some i\<rparr>)) (mmal_buffer_header_acquire i s1)"
  define s' where "s' = in_transit_decrement out (upd_env (lg out h) s2)"
  have rp: "mmal_buffer_header_replicate (Some h) (Some i) s1 = (MMAL_SUCCESS, s2)"
    unfolding s2_def by (rule replicate_success) (simp_all add: s1_def r n)
  have e2: "ps_env s2 = ps_env s1" by (simp add: s2_def mmal_buffer_header_acquire_def upd_buf_def)
  have cb2: "mmal_port_buffer_header_callback c out h s2 = ret s'"
    unfolding s'_def by (rule callback_records [OF rec]) (use cb in \<open>simp add: e2 s1_def\<close>)
  have "splitter_send_output c i out s = ret (MMAL_SUCCESS, s')"
    by (simp add: splitter_send_output_def g(1) rp [unfolded s1_def] cb2)
  moreover have b: "bufs s' = (bufs s)(i := (bufs s i)\<lparr>bh_refcount := bh_refcount (bufs s i) + 1\<rparr>,
                          h := replica_of i (bufs s i) (bufs s h))"
    using n by (auto simp: s'_def in_transit_decrement_frame s2_def mmal_buffer_header_acquire_def s1_def replica_of_def fun_eq_iff)
  moreover have "module_holds out s' hs"
  proof (rule module_holds_frame [OF g(2)])
    show "po_module_queue (port_of s' out) = po_module_queue (port_of (upd_port out (\<lambda>P. P\<lparr>po_module_queue := q'\<rparr>) s) out)"
      by (simp add: s'_def in_transit_decrement_frame e2 s1_def)
    fix x assume "x \<in> set hs"
    then have "x \<noteq> h" "x \<noteq> i" using d n by auto
    then show "bufs s' x = bufs (upd_port out (\<lambda>P. P\<lparr>po_module_queue := q'\<rparr>) s) x" unfolding b by simp
  qed
  moreover have "w_env (ps_env s') = lg out h (w_env (ps_env s))" "w_comp (ps_env s') = w_comp (ps_env s)"
      "ports_same s s'" "\<forall>q. q \<noteq> out \<longrightarrow> po_module_queue (port_of s' q) = po_module_queue (port_of s q)"
    by (simp_all add: s'_def in_transit_decrement_frame e2 s1_def ports_same_def)
  ultimately show ?thesis by blast
qed

section \<open>All outputs\<close>

text \<open>\<open>H\<close> gives the headers that wait on each output; none of them is a replica yet.\<close>

definition outputs_ready :: "'x pst \<Rightarrow> addr \<Rightarrow> addr list \<Rightarrow> (addr \<Rightarrow> addr list) \<Rightarrow> bool" where
  "outputs_ready s i outs H \<longleftrightarrow> distinct outs
     \<and> (\<forall>q \<in> set outs. module_holds q s (H q) \<and> po_callback (port_of s q) \<noteq> None \<and> i \<notin> set (H q)
          \<and> (H q \<noteq> [] \<longrightarrow> bh_reference (bufs s (hd (H q))) = None))
     \<and> (\<forall>q \<in> set outs. \<forall>r \<in> set outs. q \<noteq> r \<longrightarrow> set (H q) \<inter> set (H r) = {})"

text \<open>The flags of the outputs that have a header, numbered from \<open>n\<close>.\<close>

fun output_flags :: "(addr \<Rightarrow> addr list) \<Rightarrow> nat \<Rightarrow> addr list \<Rightarrow> u32" where
  "output_flags H n [] = 0"
| "output_flags H n (q # qs) = (if H q = [] then 0 else flag_bit n) OR output_flags H (n + 1) qs"

definition served :: "(addr \<Rightarrow> addr list) \<Rightarrow> addr list \<Rightarrow> addr list" where
  "served H outs = filter (\<lambda>q. H q \<noteq> []) outs"

text \<open>What the loop over the outputs has done.\<close>

definition replicated ::
  "(addr \<Rightarrow> addr \<Rightarrow> 'x \<Rightarrow> 'x) \<Rightarrow> (addr \<Rightarrow> addr list) \<Rightarrow> addr \<Rightarrow> addr list \<Rightarrow> 'x pst \<Rightarrow> 'x pst \<Rightarrow> bool" where
  "replicated lg H i outs s s' \<longleftrightarrow>
     (\<forall>q \<in> set outs. module_holds q s' (tl (H q)))
     \<and> w_env (ps_env s') = fold (\<lambda>q. lg q (hd (H q))) (served H outs) (w_env (ps_env s))
     \<and> bufs s' i = (bufs s i)\<lparr>bh_refcount := bh_refcount (bufs s i) + int (length (served H outs))\<rparr>
     \<and> (\<forall>q \<in> set (served H outs). bufs s' (hd (H q)) = replica_of i (bufs s i) (bufs s (hd (H q))))
     \<and> (\<forall>x. x \<noteq> i \<longrightarrow> x \<notin> (\<lambda>q. hd (H q)) ` set (served H outs) \<longrightarrow> bufs s' x = bufs s x)
     \<and> ports_same s s' \<and> (\<forall>q. q \<notin> set outs \<longrightarrow> po_module_queue (port_of s' q) = po_module_queue (port_of s q))"

lemma ready_module_holds: "outputs_ready s i outs H \<Longrightarrow> q \<in> set outs \<Longrightarrow> module_holds q s (H q)"
  by (simp add: outputs_ready_def)

lemma replica_of_refcount [simp]: "replica_of i (S\<lparr>bh_refcount := n\<rparr>) d = replica_of i S d"
  by (simp add: replica_of_def copy_public_def)

lemma ready_Cons_rest:
  assumes r: "outputs_ready s i (q # qs) H" and "ports_same s s1"
    and "\<And>r. r \<noteq> q \<Longrightarrow> po_module_queue (port_of s1 r) = po_module_queue (port_of s r)"
    and b: "\<And>x. x \<noteq> i \<Longrightarrow> x \<notin> set (H q) \<Longrightarrow> bufs s1 x = bufs s x"
  shows "outputs_ready s1 i qs H"
proof -
  have "module_holds r s1 (H r) \<and> po_callback (port_of s1 r) \<noteq> None \<and> i \<notin> set (H r)
      \<and> (H r \<noteq> [] \<longrightarrow> bh_reference (bufs s1 (hd (H r))) = None)" if r': "r \<in> set qs" for r
  proof -
    have n: "r \<noteq> q" "set (H r) \<inter> set (H q) = {}" "i \<notin> set (H r)" using r r' by (auto simp: outputs_ready_def)
    have e: "bufs s1 x = bufs s x" if "x \<in> set (H r)" for x using b [of x] that n by blast
    have "module_holds r s1 (H r)"
      using module_holds_frame [of r s "H r" s1] r r' assms(3) [OF n(1)] e by (simp add: outputs_ready_def)
    moreover have "H r \<noteq> [] \<Longrightarrow> bufs s1 (hd (H r)) = bufs s (hd (H r))" using e [of "hd (H r)"] by simp
    ultimately show ?thesis using r r' assms(2) by (auto simp: outputs_ready_def ports_same_def)
  qed
  with r show ?thesis by (simp add: outputs_ready_def)
qed

lemma send_to_outputs_replicates:
  assumes "outputs_ready s i outs H" and "records c lg"
  shows "\<exists>s'. send_to_outputs c a i n outs s = ret (MMAL_SUCCESS, s') \<and> replicated lg H i outs s s'
    \<and> w_comp (ps_env s') = (w_comp (ps_env s))
        (a := (comp_of s a)\<lparr>co_sent_flags := co_sent_flags (comp_of s a) OR output_flags H n outs\<rparr>)"
  using assms(1)
proof (induction outs arbitrary: n s)
  case Nil
  then show ?case by (simp add: replicated_def served_def ports_same_def)
next
  case (Cons q qs)
  note pr = Cons.prems and IH = Cons.IH
  have d: "q \<notin> set qs" using Cons.prems by (simp add: outputs_ready_def)
  show ?case
  proof (cases "H q")
    case Nil
    have m: "module_holds q s []" using Cons.prems Nil by (simp add: outputs_ready_def)
    have "outputs_ready s i qs H" by (rule ready_Cons_rest [OF Cons.prems]) (simp_all add: ports_same_def)
    from Cons.IH [OF this, of "n + 1"] obtain s' where
      s': "send_to_outputs c a i (n + 1) qs s = ret (MMAL_SUCCESS, s')" "replicated lg H i qs s s'"
        "w_comp (ps_env s') = (w_comp (ps_env s))
          (a := (comp_of s a)\<lparr>co_sent_flags := co_sent_flags (comp_of s a) OR output_flags H (n + 1) qs\<rparr>)" by blast
    have "send_to_outputs c a i n (q # qs) s = ret (MMAL_SUCCESS, s')"
      using s'(1) by (simp add: splitter_send_output_def module_get_Nil [OF m])
    moreover have "module_holds q s' []"
      by (rule module_holds_frame [OF m]) (use s'(2) d in \<open>simp_all add: replicated_def\<close>)
    ultimately show ?thesis using s'(2,3) Nil d
      by (intro exI [of _ s']) (simp add: replicated_def served_def)
  next
    case (Cons h hs)
    have h: "module_holds q s (h # hs)" "bh_reference (bufs s h) = None" "po_callback (port_of s q) \<noteq> None"
        "h \<noteq> i" "i \<notin> set hs"
      using pr Cons by (auto simp: outputs_ready_def)
    have dis: "x \<noteq> hd (H r)" if "x \<in> set (h # hs)" "r \<in> set (served H qs)" for x r
    proof -
      have "hd (H r) \<in> set (H r)" "r \<in> set qs" using that(2) by (simp_all add: served_def)
      moreover have "set (H q) \<inter> set (H r) = {}" using pr d \<open>r \<in> set qs\<close> by (auto simp: outputs_ready_def)
      ultimately show ?thesis using that(1) Cons by auto
    qed
    obtain s1 where s1: "splitter_send_output c i q s = ret (MMAL_SUCCESS, s1)" "module_holds q s1 hs"
        "w_env (ps_env s1) = lg q h (w_env (ps_env s))" "w_comp (ps_env s1) = w_comp (ps_env s)"
        "bufs s1 = (bufs s)(i := (bufs s i)\<lparr>bh_refcount := bh_refcount (bufs s i) + 1\<rparr>,
                          h := replica_of i (bufs s i) (bufs s h))"
        "ports_same s s1" "\<forall>r. r \<noteq> q \<longrightarrow> po_module_queue (port_of s1 r) = po_module_queue (port_of s r)"
      using send_output_replicates [OF h(1-3) assms(2) h(4,5)] by blast
    define s2 where "s2 = upd_comp a (\<lambda>C. C\<lparr>co_sent_flags := co_sent_flags C OR flag_bit n\<rparr>) s1"
    have e2: "bufs s2 = bufs s1" "w_port (ps_env s2) = w_port (ps_env s1)" "w_env (ps_env s2) = w_env (ps_env s1)"
      by (simp_all add: s2_def)
    have "outputs_ready s2 i qs H"
      by (rule ready_Cons_rest [OF pr]) (use s1(5-7) Cons e2 in \<open>auto simp: ports_same_def\<close>)
    from IH [OF this, of "n + 1"] obtain s' where
      s': "send_to_outputs c a i (n + 1) qs s2 = ret (MMAL_SUCCESS, s')" and rp: "replicated lg H i qs s2 s'"
        and comp': "w_comp (ps_env s') = (w_comp (ps_env s2))
          (a := (comp_of s2 a)\<lparr>co_sent_flags := co_sent_flags (comp_of s2 a) OR output_flags H (n + 1) qs\<rparr>)" by blast
    have same: "bufs s' x = bufs s2 x" if "x \<in> set (h # hs)" for x
    proof -
      have "x \<noteq> i" "x \<notin> (\<lambda>q. hd (H q)) ` set (served H qs)" using dis [OF that] that h(4,5) by auto
      with rp show ?thesis by (simp add: replicated_def)
    qed
    have sv: "served H (q # qs) = q # served H qs" using Cons by (simp add: served_def)
    have "send_to_outputs c a i n (q # qs) s = ret (MMAL_SUCCESS, s')"
      using s'(1) by (simp add: s1(1) s2_def)
    moreover have "w_comp (ps_env s') = (w_comp (ps_env s))
        (a := (comp_of s a)\<lparr>co_sent_flags := co_sent_flags (comp_of s a) OR output_flags H n (q # qs)\<rparr>)"
      using comp' Cons by (simp add: s2_def upd_comp_def s1(4) or.assoc)
    moreover have "replicated lg H i (q # qs) s s'"
      unfolding replicated_def sv
    proof (intro conjI ballI allI impI)
      fix r assume r: "r \<in> set (q # qs)"
      show "module_holds r s' (tl (H r))"
      proof (cases "r = q")
        case True
        have "module_holds q s' hs"
          by (rule module_holds_frame [OF s1(2)]) (use rp d e2 same in \<open>auto simp: replicated_def\<close>)
        with True Cons show ?thesis by simp
      next
        case False
        with r rp show ?thesis by (simp add: replicated_def)
      qed
    next
      show "w_env (ps_env s') = fold (\<lambda>q. lg q (hd (H q))) (q # served H qs) (w_env (ps_env s))"
        using rp Cons s1(3) e2(3) by (simp add: replicated_def)
    next
      show "bufs s' i = (bufs s i)\<lparr>bh_refcount := bh_refcount (bufs s i) + int (length (q # served H qs))\<rparr>"
        using rp s1(5) e2(1) h(4) by (simp add: replicated_def)
    next
      fix r assume r: "r \<in> set (q # served H qs)"
      show "bufs s' (hd (H r)) = replica_of i (bufs s i) (bufs s (hd (H r)))"
      proof (cases "r = q")
        case True
        then show ?thesis using same [of h] Cons s1(5) e2(1) h(4) by simp
      next
        case False
        then have m: "r \<in> set (served H qs)" using r by simp
        have "hd (H r) \<noteq> h" "hd (H r) \<noteq> i"
          using dis [of h r] m pr by (auto simp: served_def outputs_ready_def dest: hd_in_set)
        with rp m s1(5) e2(1) h(4) show ?thesis by (simp add: replicated_def)
      qed
    next
      fix x assume "x \<noteq> i" and "x \<notin> (\<lambda>q. hd (H q)) ` set (q # served H qs)"
      then show "bufs s' x = bufs s x" using rp s1(5) e2(1) Cons by (simp add: replicated_def)
    next
      show "ports_same s s'" using rp s1(6) e2(2) by (simp add: replicated_def ports_same_def)
    next
      fix r assume "r \<notin> set (q # qs)"
      then show "po_module_queue (port_of s' r) = po_module_queue (port_of s r)"
        using rp s1(7) e2(2) by (simp add: replicated_def)
    qed
    ultimately show ?thesis by blast
  qed
qed

section \<open>A header is sent\<close>

lemma module_put_next:
  "bufs (module_queue_put p b s) x = (bufs s x)\<lparr>bh_next := bh_next (bufs (module_queue_put p b s) x)\<rparr>"
proof (cases "po_module_queue (port_of s p)")
  case None
  then show ?thesis by (simp add: module_queue_put_def)
next
  case (Some q)
  show ?thesis
  proof (cases "q_last q")
    case SlotFirst
    then show ?thesis by (simp add: module_queue_put_def Some Let_def set_next_def)
  next
    case (SlotNext l)
    then show ?thesis by (simp add: module_queue_put_def Some Let_def set_next_def)
  qed
qed

lemma module_put_same:
  assumes "module_holds p s hs" and "b \<notin> set hs"
  shows "w_env (ps_env (module_queue_put p b s)) = w_env (ps_env s)"
    and "w_comp (ps_env (module_queue_put p b s)) = w_comp (ps_env s)"
    and "ports_same s (module_queue_put p b s)"
    and "q \<noteq> p \<Longrightarrow> po_module_queue (port_of (module_queue_put p b s) q) = po_module_queue (port_of s q)"
    and "x \<noteq> b \<Longrightarrow> x \<notin> set hs \<Longrightarrow> bufs (module_queue_put p b s) x = bufs s x"
proof -
  obtain Q where e: "ps_env (module_queue_put p b s) =
      (ps_env s)\<lparr>w_port := (w_port (ps_env s))(p := (port_of s p)\<lparr>po_module_queue := Q\<rparr>)\<rparr>"
    using module_put(6) [OF assms] by blast
  show "w_env (ps_env (module_queue_put p b s)) = w_env (ps_env s)"
    "w_comp (ps_env (module_queue_put p b s)) = w_comp (ps_env s)" "ports_same s (module_queue_put p b s)"
    "q \<noteq> p \<Longrightarrow> po_module_queue (port_of (module_queue_put p b s) q) = po_module_queue (port_of s q)"
    by (simp_all add: e ports_same_def)
  show "x \<noteq> b \<Longrightarrow> x \<notin> set hs \<Longrightarrow> bufs (module_queue_put p b s) x = bufs s x"
    using module_put(2) [OF assms] by (simp add: same_bufs_def)
qed

text \<open>After the header \<open>b\<close> has been queued, the input \<open>i\<close> at the head is sent to the outputs.\<close>

lemma splitter_send_core:
  assumes "po_component (port_of s p0) = a" and s1: "s1 = module_queue_put p0 b s"
    and C: "\<not> co_error (comp_of s1 a)" "co_input (comp_of s1 a) ! 0 = p" "co_output (comp_of s1 a) = outs"
    and m: "module_holds p s1 (i # js)" and p: "p \<notin> set outs" and r: "outputs_ready s1 i outs H"
    and dj: "\<forall>q \<in> set outs. set (H q) \<inter> set js = {}" and rec: "records c lg" and cb: "po_callback (port_of s1 p) \<noteq> None"
  shows "\<exists>s2 s3. bufs s2 = bufs s1 \<and> w_env (ps_env s2) = w_env (ps_env s1) \<and> replicated lg H i outs s2 s3
    \<and> module_holds p s3 js \<and> ports_same s1 s3
    \<and> w_comp (ps_env s3) = (w_comp (ps_env s1))(a := (comp_of s1 a)\<lparr>co_sent_flags :=
         co_sent_flags (comp_of s1 a) OR output_flags H 0 outs\<rparr>)
    \<and> splitter_port_send c p0 b s =
       (if (co_sent_flags (comp_of s1 a) OR output_flags H 0 outs) AND co_enabled_flags (comp_of s1 a)
            = co_enabled_flags (comp_of s1 a)
        then ret (MMAL_SUCCESS, upd_comp a (\<lambda>C. C\<lparr>co_sent_flags := 0\<rparr>)
               (in_transit_decrement p (upd_env (lg p i) (upd_buf i (\<lambda>B. B\<lparr>bh_length := 0\<rparr>) s3))))
        else ret (MMAL_SUCCESS, module_queue_put p i s3))"
proof -
  obtain q' where g: "module_queue_get p s1 = ret (Some i, upd_port p (\<lambda>P. P\<lparr>po_module_queue := q'\<rparr>) s1)"
      "module_holds p (upd_port p (\<lambda>P. P\<lparr>po_module_queue := q'\<rparr>) s1) js"
    using module_get_Cons [OF m] by blast
  define s2 where "s2 = upd_port p (\<lambda>P. P\<lparr>po_module_queue := q'\<rparr>) s1"
  have e: "bufs s2 = bufs s1" "w_env (ps_env s2) = w_env (ps_env s1)" "w_comp (ps_env s2) = w_comp (ps_env s1)"
      "ports_same s1 s2" by (simp_all add: s2_def ports_same_def)
  have ij: "i \<notin> set js" using m by (auto simp: module_holds_def dest: queue_repr_distinct)
  have "outputs_ready s2 i outs H"
  proof -
    have "module_holds q s2 (H q)" if "q \<in> set outs" for q
      by (rule module_holds_frame [OF ready_module_holds [OF r that]]) (use that p in \<open>auto simp: s2_def\<close>)
    then show ?thesis using r e by (simp add: outputs_ready_def ports_same_def)
  qed
  from send_to_outputs_replicates [OF this rec, of a 0] obtain s3 where
    s3: "send_to_outputs c a i 0 outs s2 = ret (MMAL_SUCCESS, s3)" "replicated lg H i outs s2 s3"
      "w_comp (ps_env s3) = (w_comp (ps_env s2))
        (a := (comp_of s2 a)\<lparr>co_sent_flags := co_sent_flags (comp_of s2 a) OR output_flags H 0 outs\<rparr>)" by blast
  have m3: "module_holds p s3 js"
  proof (rule module_holds_frame [OF g(2) [folded s2_def]])
    show "po_module_queue (port_of s3 p) = po_module_queue (port_of s2 p)" using s3(2) p by (simp add: replicated_def)
    fix x assume x: "x \<in> set js"
    have "x \<noteq> hd (H q)" if "q \<in> set (served H outs)" for q
    proof -
      have "q \<in> set outs" "hd (H q) \<in> set (H q)" using that by (simp_all add: served_def)
      with dj x show ?thesis by blast
    qed
    then have "x \<notin> (\<lambda>q. hd (H q)) ` set (served H outs)" by blast
    with x ij s3(2) show "bufs s3 x = bufs s2 x" by (auto simp: replicated_def)
  qed
  have ps: "ports_same s1 s3" using s3(2) e(4) by (simp add: replicated_def ports_same_def)
  have "po_callback (port_of (upd_buf i (\<lambda>B. B\<lparr>bh_length := 0\<rparr>) s3) p) \<noteq> None" using ps cb by (simp add: ports_same_def)
  note cbk = callback_records [OF rec this]
  have "splitter_port_send c p0 b s =
       (if (co_sent_flags (comp_of s1 a) OR output_flags H 0 outs) AND co_enabled_flags (comp_of s1 a)
            = co_enabled_flags (comp_of s1 a)
        then ret (MMAL_SUCCESS, upd_comp a (\<lambda>C. C\<lparr>co_sent_flags := 0\<rparr>)
               (in_transit_decrement p (upd_env (lg p i) (upd_buf i (\<lambda>B. B\<lparr>bh_length := 0\<rparr>) s3))))
        else ret (MMAL_SUCCESS, module_queue_put p i s3))"
    unfolding splitter_port_send_def assms(1) s1 [symmetric] Let_def
    using C e s3(3) by (simp add: g(1) s2_def [symmetric] s3(1) cbk)
  then show ?thesis using e s3(2,3) m3 ps by (intro exI [of _ s2] exI [of _ s3]) simp
qed

lemma ready_frame:
  assumes r: "outputs_ready s i outs H" and "ports_same s s1"
    and "\<And>q. q \<in> set outs \<Longrightarrow> po_module_queue (port_of s1 q) = po_module_queue (port_of s q)"
    and b: "\<And>q x. q \<in> set outs \<Longrightarrow> x \<in> set (H q) \<Longrightarrow> bufs s1 x = bufs s x"
  shows "outputs_ready s1 i outs H"
proof -
  have "module_holds q s1 (H q) \<and> (H q \<noteq> [] \<longrightarrow> bh_reference (bufs s1 (hd (H q))) = None)" if q: "q \<in> set outs" for q
  proof -
    have "module_holds q s1 (H q)"
      using module_holds_frame [of q s "H q" s1] r q assms(3) b by (simp add: outputs_ready_def)
    then show ?thesis using r q b [OF q, of "hd (H q)"] by (simp add: outputs_ready_def)
  qed
  with r assms(2) show ?thesis by (simp add: outputs_ready_def ports_same_def)
qed

lemma replica_of_next [simp]: "replica_of i (S\<lparr>bh_next := n\<rparr>) d = replica_of i S d"
  by (simp add: replica_of_def copy_public_def)

section \<open>Properties\<close>

text \<open>\<open>splitter_state\<close>: a splitter \<open>a\<close> with input port \<open>p\<close>, outputs \<open>outs\<close>, and the flags of the module.\<close>

definition splitter_state :: "addr \<Rightarrow> addr \<Rightarrow> addr list \<Rightarrow> u32 \<Rightarrow> u32 \<Rightarrow> 'x pst \<Rightarrow> bool" where
  "splitter_state a p outs en sn s \<longleftrightarrow> co_input (comp_of s a) = [p] \<and> co_output (comp_of s a) = outs
     \<and> \<not> co_error (comp_of s a) \<and> co_enabled_flags (comp_of s a) = en \<and> co_sent_flags (comp_of s a) = sn
     \<and> (\<forall>q \<in> set (p # outs). po_component (port_of s q) = a \<and> po_callback (port_of s q) \<noteq> None) \<and> distinct (p # outs)"

text \<open>C14. When every enabled output of an idle splitter has a header waiting, a header sent to the input
  goes to all of them: in the order of the outputs each gets back its first waiting header, now a
  replica of the input, which holds one more reference for each; then the input is given back, empty,
  and the module's state is that of an idle splitter again.\<close>

theorem splitter_replicates_to_all:
  assumes st: "splitter_state a p outs (output_flags H 0 outs) 0 s" and m: "module_holds p s []"
    and r: "outputs_ready s i outs H" and rec: "records c lg"
  shows "\<exists>s'. splitter_port_send c p i s = ret (MMAL_SUCCESS, s')
    \<and> w_env (ps_env s') = lg p i (fold (\<lambda>q. lg q (hd (H q))) (served H outs) (w_env (ps_env s)))
    \<and> (\<forall>q \<in> set (served H outs). bufs s' (hd (H q)) = replica_of i (bufs s i) (bufs s (hd (H q))))
    \<and> bh_refcount (bufs s' i) = bh_refcount (bufs s i) + int (length (served H outs)) \<and> bh_length (bufs s' i) = 0
    \<and> module_holds p s' [] \<and> (\<forall>q \<in> set outs. module_holds q s' (tl (H q)))
    \<and> splitter_state a p outs (output_flags H 0 outs) 0 s'"
proof -
  define s1 where "s1 = module_queue_put p i s"
  have m1: "module_holds p s1 [i]" using module_put(1) [OF m] by (simp add: s1_def)
  note e = module_put_same [OF m, of i, folded s1_def, simplified]
  have p: "p \<notin> set outs" using st by (simp add: splitter_state_def)
  have r1: "outputs_ready s1 i outs H"
  proof (rule ready_frame [OF r e(3)])
    show "po_module_queue (port_of s1 q) = po_module_queue (port_of s q)" if "q \<in> set outs" for q
      using e(4) [of q] that p by auto
    show "bufs s1 x = bufs s x" if "q \<in> set outs" "x \<in> set (H q)" for q x
      using e(5) [of x] that r by (auto simp: outputs_ready_def)
  qed
  have c: "po_component (port_of s p) = a" "\<not> co_error (comp_of s1 a)" "co_input (comp_of s1 a) ! 0 = p"
      "co_output (comp_of s1 a) = outs" "co_sent_flags (comp_of s1 a) = 0"
      "co_enabled_flags (comp_of s1 a) = output_flags H 0 outs" "po_callback (port_of s1 p) \<noteq> None"
    using st e(2,3) by (simp_all add: splitter_state_def ports_same_def)
  obtain s2 s3 where s: "bufs s2 = bufs s1" "w_env (ps_env s2) = w_env (ps_env s1)" "replicated lg H i outs s2 s3"
      "module_holds p s3 []" "ports_same s1 s3"
      "w_comp (ps_env s3) = (w_comp (ps_env s1))(a := (comp_of s1 a)\<lparr>co_sent_flags := output_flags H 0 outs\<rparr>)"
      "splitter_port_send c p i s = ret (MMAL_SUCCESS, upd_comp a (\<lambda>C. C\<lparr>co_sent_flags := 0\<rparr>)
               (in_transit_decrement p (upd_env (lg p i) (upd_buf i (\<lambda>B. B\<lparr>bh_length := 0\<rparr>) s3))))"
    using splitter_send_core [OF c(1) s1_def c(2-4) m1 p r1 _ rec c(7)] c(5,6) by auto
  define s' where "s' = upd_comp a (\<lambda>C. C\<lparr>co_sent_flags := 0\<rparr>)
               (in_transit_decrement p (upd_env (lg p i) (upd_buf i (\<lambda>B. B\<lparr>bh_length := 0\<rparr>) s3)))"
  have b: "bufs s' = (bufs s3)(i := (bufs s3 i)\<lparr>bh_length := 0\<rparr>)"
    by (simp add: s'_def in_transit_decrement_frame fun_eq_iff)
  have q: "po_module_queue (port_of s' q) = po_module_queue (port_of s3 q)" for q
    by (simp add: s'_def in_transit_decrement_frame)
  have i: "i \<notin> set (H q)" if "q \<in> set outs" for q using r that by (simp add: outputs_ready_def)
  have si: "bufs s1 i = (bufs s i)\<lparr>bh_next := bh_next (bufs s1 i)\<rparr>"
    using module_put_next [of p i s i] by (simp add: s1_def)
  have hd: "hd (H q) \<noteq> i" "bufs s1 (hd (H q)) = bufs s (hd (H q))" if "q \<in> set (served H outs)" for q
  proof -
    have "q \<in> set outs" "hd (H q) \<in> set (H q)" using that by (simp_all add: served_def)
    then show "hd (H q) \<noteq> i" using i by blast
    then show "bufs s1 (hd (H q)) = bufs s (hd (H q))" using e(5) by blast
  qed
  have "\<forall>q \<in> set (served H outs). bufs s' (hd (H q)) = replica_of i (bufs s i) (bufs s (hd (H q)))"
  proof
    fix q assume "q \<in> set (served H outs)"
    then have "bufs s' (hd (H q)) = replica_of i (bufs s1 i) (bufs s (hd (H q)))"
      using s(1,3) hd [of q] by (simp add: b replicated_def)
    then show "bufs s' (hd (H q)) = replica_of i (bufs s i) (bufs s (hd (H q)))" by (subst (asm) si) simp
  qed
  moreover have "bh_refcount (bufs s1 i) = bh_refcount (bufs s i)" by (subst si) simp
  then have "bh_refcount (bufs s' i) = bh_refcount (bufs s i) + int (length (served H outs))" "bh_length (bufs s' i) = 0"
    using s(1,3) by (simp_all add: b replicated_def)
  moreover have "module_holds p s' []" by (rule module_holds_frame [OF s(4)]) (simp_all add: q)
  moreover have "\<forall>q \<in> set outs. module_holds q s' (tl (H q))"
  proof
    fix o' assume o': "o' \<in> set outs"
    have m': "module_holds o' s3 (tl (H o'))" using s(3) o' by (simp add: replicated_def)
    have "i \<notin> set (tl (H o'))" using i [OF o'] list.set_sel(2) by (metis tl_Nil)
    then show "module_holds o' s' (tl (H o'))" by (intro module_holds_frame [OF m']) (auto simp: q b)
  qed
  moreover have "splitter_state a p outs (output_flags H 0 outs) 0 s'"
    using st s(5) e(2,3) by (simp add: splitter_state_def s'_def in_transit_decrement_frame s(6) ports_same_def)
  moreover have "w_env (ps_env s') = lg p i (fold (\<lambda>q. lg q (hd (H q))) (served H outs) (w_env (ps_env s)))"
    using s(2,3) e(1) by (simp add: s'_def in_transit_decrement_frame replicated_def)
  ultimately show ?thesis using s(7) unfolding s'_def [symmetric] by blast
qed

text \<open>For the example: two outputs, of which the first is enabled and has the header 400 waiting; the client's
  log lists what it is given.\<close>

definition recording :: "(addr \<times> addr) list port_ops \<Rightarrow> (addr \<times> addr) list port_ops" where
  "recording base = base\<lparr>pp_collect_stats := False, pp_cb := (\<lambda>f p b s. ret (upd_env (\<lambda>e. e @ [(p, b)]) s))\<rparr>"

lemma recording_records: "records (recording base) (\<lambda>p b e. e @ [(p, b)])"
  by (simp add: records_def recording_def)

definition queue_of :: "addr list \<Rightarrow> mmal_queue" where
  "queue_of bs = (case bs of [] \<Rightarrow> \<lparr>q_length = 0, q_first = None, q_last = SlotFirst, q_sema = 0, q_block = None\<rparr>
     | b # _ \<Rightarrow> \<lparr>q_length = 1, q_first = Some b, q_last = SlotNext b, q_sema = 1, q_block = None\<rparr>)"

definition splitter_example :: "u32 \<Rightarrow> u32 \<Rightarrow> (addr \<Rightarrow> addr list) \<Rightarrow> (addr \<times> addr) list pst" where
  "splitter_example en sn H = \<lparr>bufs = (\<lambda>_. zero_header), ps_pool = (\<lambda>_. blank_pool),
     ps_env = \<lparr>w_port = (\<lambda>q. zero_port\<lparr>po_module_queue := Some (queue_of (H q)), po_component := 1, po_callback := Some 0\<rparr>),
       w_comp = (\<lambda>_. zero_component\<lparr>co_input := [10], co_output := [20, 21], co_enabled_flags := en, co_sent_flags := sn\<rparr>),
       w_fmt = \<lparr>fs_format = (\<lambda>_. blank_format),
         fs_private = (\<lambda>_. \<lparr>fp_magic = 0, fp_extradata_size = 0, fp_extradata = None, fp_buffer = []\<rparr>),
         fs_es = (\<lambda>_. []), fs_blocks = (\<lambda>_. None)\<rparr>,
       w_event = (\<lambda>_. EventBytes), w_bytes = (\<lambda>_. 0), w_core_refcount = 0, w_instance_count = 0,
       w_suppliers = [], w_conn = (\<lambda>_. blank_connection), w_env = []\<rparr>\<rparr>"

lemma splitter_example_state: "splitter_state 1 10 [20, 21] en sn (splitter_example en sn H)"
  by (simp add: splitter_state_def splitter_example_def zero_component_def)

lemma splitter_example_holds: "length (H q) \<le> 1 \<Longrightarrow> module_holds q (splitter_example en sn H) (H q)"
  by (cases "H q") (auto simp: module_holds_def splitter_example_def queue_of_def queue_list_def zero_header_def nexts_def)

theorem splitter_replicates_to_all_witness:
  "\<forall>base. \<exists>s'. splitter_port_send (recording base) 10 300 (splitter_example 1 0 ((\<lambda>_. [])(20 := [400]))) = ret (MMAL_SUCCESS, s')
     \<and> w_env (ps_env s') = [(20, 400), (10, 300)] \<and> bh_reference (bufs s' 400) = Some 300"
proof
  fix base :: "(addr \<times> addr) list port_ops"
  let ?H = "(\<lambda>_. [])(20 := [400]) :: addr \<Rightarrow> addr list"
  let ?s = "splitter_example 1 0 ?H"
  have f: "output_flags ?H 0 [20, 21] = 1" "served ?H [20, 21] = [20]" by (simp_all add: flag_bit_def served_def)
  have h: "module_holds q ?s (?H q)" for q by (rule splitter_example_holds) simp
  have r: "outputs_ready ?s 300 [20, 21] ?H"
    using h [of 20] h [of 21] by (simp add: outputs_ready_def) (simp add: splitter_example_def zero_header_def)
  have "module_holds 10 ?s []" using h [of 10] by simp
  from splitter_replicates_to_all [OF splitter_example_state [of 1 0 ?H, folded f(1)] _ _ recording_records, unfolded f, OF this r]
  obtain s' where s': "splitter_port_send (recording base) 10 300 ?s = ret (MMAL_SUCCESS, s')"
      "w_env (ps_env s') = fold (\<lambda>q e. e @ [(q, hd (?H q))]) [20] (w_env (ps_env ?s)) @ [(10, 300)]"
      "\<forall>q \<in> set [20]. bufs s' (hd (?H q)) = replica_of 300 (bufs ?s 300) (bufs ?s (hd (?H q)))" by blast
  have "w_env (ps_env ?s) = []" by (simp add: splitter_example_def)
  with s' show "\<exists>s'. splitter_port_send (recording base) 10 300 ?s = ret (MMAL_SUCCESS, s')
     \<and> w_env (ps_env s') = [(20, 400), (10, 300)] \<and> bh_reference (bufs s' 400) = Some 300"
    by (intro exI [of _ s']) (simp add: replica_of_def copy_public_def)
qed

lemma output_flags_none: "\<forall>q \<in> set qs. H q = [] \<Longrightarrow> output_flags H n qs = 0"
  by (induction qs arbitrary: n) simp_all

text \<open>C36. An input that only some of the enabled outputs have taken is put back at the end of the input queue,
  but the record of who has taken it stays. Here \<open>x\<close> has gone to the first of two enabled outputs; when
  \<open>y\<close> is sent to the input and then a header to the second output, that output gets \<open>y\<close> before \<open>x\<close>, and
  \<open>y\<close> is given back to the client as consumed although the first output never got it.\<close>

theorem splitter_skips_an_output:
  assumes st: "splitter_state a p (q0 # q1 # qs) (flag_bit 0 OR flag_bit 1) (flag_bit 0) s"
    and m: "module_holds p s [x]" and e: "\<forall>q \<in> set (q0 # q1 # qs). module_holds q s []"
    and d: "distinct [x, y, h]" and h: "bh_reference (bufs s h) = None" and rec: "records c lg"
  shows "\<exists>s1 s2. splitter_port_send c p y s = ret (MMAL_SUCCESS, s1)
    \<and> splitter_port_send c q1 h s1 = ret (MMAL_SUCCESS, s2)
    \<and> w_env (ps_env s2) = lg p y (lg q1 h (w_env (ps_env s))) \<and> bh_reference (bufs s2 h) = Some y
    \<and> module_holds p s2 [x] \<and> co_sent_flags (comp_of s2 a) = 0"
proof -
  let ?N = "(\<lambda>_. []) :: addr \<Rightarrow> addr list"
  let ?outs = "q0 # q1 # qs"
  let ?en = "flag_bit 0 OR flag_bit 1"
  have p: "p \<notin> set ?outs" and q1: "q1 \<noteq> p" "q1 \<notin> set qs" "q1 \<noteq> q0" using st by (auto simp: splitter_state_def)
  have qp: "q \<noteq> p" if "q \<in> set ?outs" for q using p that by metis
  have yx: "y \<notin> set [x]" "h \<noteq> x" "h \<noteq> y" "x \<noteq> y" using d by auto
  define s1' where "s1' = module_queue_put p y s"
  note e1 = module_put_same [OF m yx(1), folded s1'_def]
  have c1: "po_component (port_of s p) = a" "\<not> co_error (comp_of s1' a)" "co_input (comp_of s1' a) ! 0 = p"
      "co_output (comp_of s1' a) = ?outs" "co_sent_flags (comp_of s1' a) = flag_bit 0"
      "co_enabled_flags (comp_of s1' a) = ?en" "po_callback (port_of s1' p) \<noteq> None"
    using st e1(2,3) by (simp_all add: splitter_state_def ports_same_def)
  have m1: "module_holds p s1' ([x] @ [y])" using module_put(1) [OF m yx(1)] by (simp add: s1'_def)
  have "outputs_ready s x ?outs ?N" using st e by (simp add: outputs_ready_def splitter_state_def)
  then have r1: "outputs_ready s1' x ?outs ?N"
    by (rule ready_frame [OF _ e1(3)]) (simp_all add: e1(4) qp)
  have n1: "(flag_bit 0 OR output_flags ?N 0 ?outs) AND ?en \<noteq> ?en"
    by (simp add: output_flags_none flag_bit_def)
  obtain s2 s3 where s3: "bufs s2 = bufs s1'" "w_env (ps_env s2) = w_env (ps_env s1')" "replicated lg ?N x ?outs s2 s3"
      "module_holds p s3 [y]" "ports_same s1' s3"
      "w_comp (ps_env s3) = (w_comp (ps_env s1'))(a := (comp_of s1' a)\<lparr>co_sent_flags := flag_bit 0 OR output_flags ?N 0 ?outs\<rparr>)"
      "splitter_port_send c p y s = ret (MMAL_SUCCESS, module_queue_put p x s3)"
    using splitter_send_core [OF c1(1) s1'_def c1(2-4) m1 [simplified] p r1 _ rec c1(7)] c1(5,6) n1 by auto
  have sv: "served ?N ?outs = []" by (simp add: served_def)
  have b3: "bufs s3 h = bufs s h" using s3(1,3) yx e1(5) [of h] by (simp add: replicated_def sv)
  have "x \<notin> set [y]" using yx by simp
  note e4 = module_put_same [OF s3(4) this] and m4 = module_put(1) [OF s3(4) this]
  define s4 where "s4 = module_queue_put p x s3"
  have b4: "bufs s4 h = bufs s h" using e4(5) [of h] yx b3 by (simp add: s4_def)
  have m4': "module_holds q s4 []" if "q \<in> set ?outs" for q
  proof (rule module_holds_frame [of q s3])
    show "module_holds q s3 []" using s3(3) that by (auto simp: replicated_def)
    show "po_module_queue (port_of s4 q) = po_module_queue (port_of s3 q)" using e4(4) [of q] that p by (auto simp: s4_def)
  qed simp
  have m4p: "module_holds p s4 [y, x]" using m4 by (simp add: s4_def)
  have comp4: "w_comp (ps_env s4) = (w_comp (ps_env s))(a := (comp_of s a)\<lparr>co_sent_flags := flag_bit 0\<rparr>)"
    using e4(2) s3(6) e1(2) by (simp add: s4_def output_flags_none)
  have port4: "ports_same s s4" using e1(3) s3(5) e4(3) by (simp add: ports_same_def s4_def)
  have env4: "w_env (ps_env s4) = w_env (ps_env s)" using e4(1) s3(2,3) e1(1) by (simp add: s4_def replicated_def sv)
  let ?H = "?N(q1 := [h])"
  define s5 where "s5 = module_queue_put q1 h s4"
  have n5: "h \<notin> set []" by simp
  have m5q: "module_holds q1 s5 [h]" using module_put(1) [OF m4' n5, of q1] by (simp add: s5_def)
  note e5 = module_put_same [OF m4' n5, of q1, folded s5_def, simplified]
  have m5: "module_holds p s5 [y, x]"
    by (rule module_holds_frame [OF m4p]) (use e5(4) [of p] e5(5) q1(1) yx in auto)
  have b5: "bh_reference (bufs s5 h) = None"
  proof -
    have "bufs s5 h = (bufs s4 h)\<lparr>bh_next := bh_next (bufs s5 h)\<rparr>" unfolding s5_def by (rule module_put_next)
    then show ?thesis by (rule ssubst) (simp add: b4 h)
  qed
  have c5: "po_component (port_of s4 q1) = a" "\<not> co_error (comp_of s5 a)" "co_input (comp_of s5 a) ! 0 = p"
      "co_output (comp_of s5 a) = ?outs" "co_sent_flags (comp_of s5 a) = flag_bit 0"
      "co_enabled_flags (comp_of s5 a) = ?en" "po_callback (port_of s5 p) \<noteq> None"
    using st port4 comp4 e5(2,3) by (simp_all add: splitter_state_def ports_same_def)
  have q5: "module_holds q s5 (?H q) \<and> po_callback (port_of s5 q) \<noteq> None" if "q \<in> set ?outs" for q
  proof (cases "q = q1")
    case True
    with m5q st port4 e5(3) show ?thesis by (simp add: splitter_state_def ports_same_def)
  next
    case False
    have "module_holds q s5 []" by (rule module_holds_frame [OF m4' [OF that]]) (use e5(4) False in auto)
    with False that st port4 e5(3) show ?thesis by (auto simp: splitter_state_def ports_same_def)
  qed
  have "distinct ?outs" using st by (simp add: splitter_state_def)
  with q5 b5 yx have r5: "outputs_ready s5 y ?outs ?H" by (auto simp: outputs_ready_def)
  have "\<forall>q \<in> set qs. ?H q = []" using q1(2) by auto
  then have f5: "output_flags ?H 0 ?outs = flag_bit 1" using q1(3) by (simp add: output_flags_none)
  have sv5: "served ?H ?outs = [q1]" using q1 by (auto simp: served_def filter_empty_conv)
  have dj: "\<forall>q \<in> set ?outs. set (?H q) \<inter> set [x] = {}" using yx by simp
  obtain s6 s7 where s7: "bufs s6 = bufs s5" "w_env (ps_env s6) = w_env (ps_env s5)" "replicated lg ?H y ?outs s6 s7"
      "module_holds p s7 [x]"
      "splitter_port_send c q1 h s4 = ret (MMAL_SUCCESS, upd_comp a (\<lambda>C. C\<lparr>co_sent_flags := 0\<rparr>)
               (in_transit_decrement p (upd_env (lg p y) (upd_buf y (\<lambda>B. B\<lparr>bh_length := 0\<rparr>) s7))))"
    using splitter_send_core [OF c5(1) s5_def c5(2-4) m5 p r5 dj rec c5(7)]
    unfolding f5 c5(5,6) and.idem simp_thms if_True by blast
  define s8 where "s8 = upd_comp a (\<lambda>C. C\<lparr>co_sent_flags := 0\<rparr>)
               (in_transit_decrement p (upd_env (lg p y) (upd_buf y (\<lambda>B. B\<lparr>bh_length := 0\<rparr>) s7)))"
  have b8: "bufs s8 = (bufs s7)(y := (bufs s7 y)\<lparr>bh_length := 0\<rparr>)"
    by (simp add: s8_def in_transit_decrement_frame fun_eq_iff)
  have "w_env (ps_env s8) = lg p y (lg q1 h (w_env (ps_env s)))"
    using s7(2,3) e5(1) env4 by (simp add: s8_def in_transit_decrement_frame replicated_def sv5)
  moreover have "bh_reference (bufs s8 h) = Some y"
    using s7(3) yx by (simp add: b8 replicated_def sv5 replica_of_def copy_public_def)
  moreover have "module_holds p s8 [x]"
    by (rule module_holds_frame [OF s7(4)]) (use yx in \<open>simp_all add: b8\<close>, simp add: s8_def in_transit_decrement_frame)
  moreover have "co_sent_flags (comp_of s8 a) = 0" by (simp add: s8_def)
  ultimately show ?thesis using s3(7) s7(5) unfolding s4_def [symmetric] s8_def [symmetric] by blast
qed

theorem splitter_skips_an_output_witness:
  "\<forall>base. \<exists>s1 s2. splitter_port_send (recording base) 10 301 (splitter_example 3 1 ((\<lambda>_. [])(10 := [300]))) = ret (MMAL_SUCCESS, s1)
     \<and> splitter_port_send (recording base) 21 400 s1 = ret (MMAL_SUCCESS, s2)
     \<and> w_env (ps_env s2) = [(21, 400), (10, 301)] \<and> module_holds 10 s2 [300]"
proof
  fix base :: "(addr \<times> addr) list port_ops"
  let ?H = "(\<lambda>_. [])(10 := [300]) :: addr \<Rightarrow> addr list"
  let ?s = "splitter_example 3 1 ?H"
  have f: "flag_bit 0 OR flag_bit 1 = 3" "flag_bit 0 = 1" by (simp_all add: flag_bit_def)
  have h: "module_holds q ?s (?H q)" for q by (rule splitter_example_holds) simp
  have st: "splitter_state 1 10 (20 # 21 # []) (flag_bit 0 OR flag_bit 1) (flag_bit 0) ?s"
    unfolding f(1) unfolding f(2) by (rule splitter_example_state)
  have m: "module_holds 10 ?s [300]" "\<forall>q \<in> set (20 # 21 # []). module_holds q ?s []" using h [of 10] h [of 20] h [of 21] by auto
  have d: "distinct [300, 301, 400 :: addr]" "bh_reference (bufs ?s 400) = None" "w_env (ps_env ?s) = []"
    by (simp_all add: splitter_example_def zero_header_def)
  from splitter_skips_an_output [OF st m d(1,2) recording_records [of base]] d(3)
  show "\<exists>s1 s2. splitter_port_send (recording base) 10 301 ?s = ret (MMAL_SUCCESS, s1)
     \<and> splitter_port_send (recording base) 21 400 s1 = ret (MMAL_SUCCESS, s2)
     \<and> w_env (ps_env s2) = [(21, 400), (10, 301)] \<and> module_holds 10 s2 [300]" by auto
qed

end
