(* ===== verification/Mmal_Port_Clock_Facts.thy ===== *)
theory Mmal_Port_Clock_Facts
  imports Mmal_Port_Clock Mmal_Clock_Service Mmal_Splitter_Facts
begin

text \<open>
  Properties of clock ports (\<^verbatim>\<open>core/mmal_port_clock.c\<close>): how an update travels from a reference port to
  the clock of the port it is connected to and the event buffer comes back, what becomes of an event that
  is refused, and the parameters.
\<close>

section \<open>A clock inside the state of the ports\<close>

lemma clock_in_simps [simp]:
  "core_of (clock_in core x) = core" "ck_env (clock_in core x) = x"
  "ck_is_active (clock_in core x) = ck_is_active core" "ck_scheduling (clock_in core x) = ck_scheduling core"
  "ck_scale (clock_in core x) = ck_scale core" "ck_scale_rational (clock_in core x) = ck_scale_rational core"
  "core_of (m\<lparr>ck_env := y\<rparr>) = core_of m"
  by (simp_all add: clock_in_def core_of_def clock_core.defs mmal_clock.defs)

lemma clock_in_core_of: "clock_in (core_of m) (ck_env m) = m"
  by (cases m) (simp add: clock_in_def core_of_def clock_core.defs mmal_clock.defs)

lemma upd_clock_port [simp]:
  "port_of (upd_clock p f s) q = (if q = p then (port_of s p)\<lparr>po_clock := map_option f (po_clock (port_of s p))\<rparr> else port_of s q)"
  "bufs (upd_clock p f s) = bufs s" "ps_pool (upd_clock p f s) = ps_pool s"
  "w_comp (ps_env (upd_clock p f s)) = w_comp (ps_env s)" "w_fmt (ps_env (upd_clock p f s)) = w_fmt (ps_env s)"
  "w_event (ps_env (upd_clock p f s)) = w_event (ps_env s)" "w_bytes (ps_env (upd_clock p f s)) = w_bytes (ps_env s)"
  "w_env (ps_env (upd_clock p f s)) = w_env (ps_env s)"
  by (simp_all add: upd_clock_def)

text \<open>\<open>clock_at\<close>: the port has this context, whose clock nobody has locked.\<close>

definition clock_at :: "addr \<Rightarrow> addr \<Rightarrow> clock_core \<Rightarrow> clock_port \<Rightarrow> 'x pst \<Rightarrow> bool" where
  "clock_at p a core q s \<longleftrightarrow> po_clock (port_of s p) = Some q \<and> \<not> cp_busy q \<and> cp_calls q = []
     \<and> cp_clock q = Some (a, core)"

definition set_core :: "addr \<Rightarrow> addr \<Rightarrow> clock_core \<Rightarrow> 'x pst \<Rightarrow> 'x pst" where
  "set_core p a core = upd_clock p (\<lambda>q. q\<lparr>cp_clock := Some (a, core)\<rparr>)"

lemma upd_clock_upd_clock: "upd_clock p f (upd_clock p g s) = upd_clock p (f \<circ> g) s"
  by (simp add: upd_clock_def upd_port_def upd_world_def option.map_comp)

lemma upd_clock_env: "upd_clock p f (upd_env h s) = upd_env h (upd_clock p f s)"
  by (simp add: upd_clock_def upd_port_def upd_world_def upd_env_def)

lemma upd_clock_cong: "po_clock (port_of s p) = Some q \<Longrightarrow> f q = g q \<Longrightarrow> upd_clock p f s = upd_clock p g s"
  by (simp add: upd_clock_def upd_port_def upd_world_def)

text \<open>An operation of the clock that leaves the rest of the world alone but for the time it read.\<close>

lemma on_clock_runs:
  assumes "clock_at p a core q s"
    and "\<And>x. w_env (ps_env x) = w_env (ps_env s) \<Longrightarrow> f (clock_in core x) = ret (r, clock_in core' (upd_env h x))"
  shows "on_clock p f s = ret (r, set_core p a core' (upd_env h s))"
proof -
  let ?b = "upd_clock p (\<lambda>q. q\<lparr>cp_busy := True\<rparr>) s"
  have "f (clock_in core ?b) = ret (r, clock_in core' (upd_env h ?b))" by (rule assms(2)) simp
  moreover have "calls_of p (upd_env h ?b) = []" using assms(1) by (simp add: calls_of_def clock_at_def)
  moreover have "upd_clock p (\<lambda>q. q\<lparr>cp_clock := Some (a, core'), cp_busy := False, cp_calls := []\<rparr>) (upd_env h ?b)
      = set_core p a core' (upd_env h s)"
    using assms(1) unfolding set_core_def upd_clock_env upd_clock_upd_clock
    by (intro arg_cong [of _ _ "upd_env h"] upd_clock_cong) (auto simp: clock_at_def)
  ultimately show ?thesis using assms(1) by (simp add: on_clock_def clock_at_def)
qed

section \<open>Setting the scale\<close>

text \<open>The clock after \<open>mmal_clock_scale_set\<close> at the time \<open>now\<close>.\<close>

definition scaled :: "u32 \<Rightarrow> mmal_rational \<Rightarrow> clock_core \<Rightarrow> clock_core" where
  "scaled now r core =
     (let k = mmal_rational_to_fixed_16_16 r; s = at_time now core
      in s\<lparr>ck_scale_rational := r, ck_scale := k,
           ck_scale_inv := (if k \<noteq> 0 then signed_take_bit 31 (c_div (2 ^ 32) k) else Q16_ONE),
           ck_event := (if ck_scheduling s then map_option sem_post (ck_event s) else ck_event s)\<rparr>)"

definition usable :: "clock_core \<Rightarrow> bool" where
  "usable core \<longleftrightarrow> 0 < ck_scale core \<and> ck_scale core < 2 ^ 23 \<and> times_ok 1 (clock_in core ())
     \<and> (ck_scheduling core \<longrightarrow> ck_event core \<noteq> None)"

lemma scale_set_scales:
  assumes "usable core"
  shows "mmal_clock_scale_set (clock_ops_of c k p) r (clock_in core x)
    = ret (clock_in (scaled (fst (pp_time c (w_env (ps_env x)))) r core) (upd_env (\<lambda>_. snd (pp_time c (w_env (ps_env x)))) x))"
proof -
  obtain now e where now: "pp_time c (w_env (ps_env x)) = (now, e)" by force
  have u: "mmal_clock_update_local_time_locked (clock_ops_of c k p) (clock_in core x)
      = ret (clock_in (at_time now core) (upd_env (\<lambda>_. e) x))"
    using assms now
    by (subst update_time_at [where n = 0])
       (simp_all add: usable_def times_ok_def clock_in_def clock_core.defs mmal_clock.defs clock_ops_of_def vcos_getmicrosecs_def at_time_def Let_def)
  show ?thesis
    using assms unfolding mmal_clock_scale_set_def u
    by (auto simp: now scaled_def usable_def mmal_clock_wake_thread_def Let_def clock_in_def clock_core.defs mmal_clock.defs at_time_def)
qed

section \<open>The queue of event buffers\<close>

definition clock_holds :: "addr \<Rightarrow> 'x pst \<Rightarrow> addr list \<Rightarrow> bool" where
  "clock_holds p s xs \<longleftrightarrow> (\<exists>q. po_clock (port_of s p) = Some q \<and> queue_repr (cp_queue q, s) xs)"

definition set_queue :: "addr \<Rightarrow> mmal_queue option \<Rightarrow> 'x pst \<Rightarrow> 'x pst" where
  "set_queue p qo = upd_clock p (\<lambda>q. q\<lparr>cp_queue := qo\<rparr>)"

lemma clock_get_Cons:
  assumes "clock_holds p s (b # bs)"
  shows "\<exists>qo. clock_queue_get p s = ret (Some b, set_queue p qo s) \<and> queue_repr (qo, s) bs"
proof -
  obtain q where q: "po_clock (port_of s p) = Some q" "queue_repr (cp_queue q, s) (b # bs)"
    using assms by (auto simp: clock_holds_def)
  from queue_get_Cons [OF q(2)] obtain q' where
      "mmal_queue_get (cp_queue q, s) = Some (Some b, (Some q', s))" "queue_repr (Some q', s) bs" by auto
  with q(1) show ?thesis by (auto simp: clock_queue_get_def set_queue_def)
qed

lemma clock_put_snoc:
  assumes "po_clock (port_of s p) = Some q" and "queue_repr (cp_queue q, s) xs" and "b \<notin> set xs"
  shows "\<exists>qo B. clock_queue_put p b s = ret (set_queue p qo (s\<lparr>bufs := B\<rparr>)) \<and> queue_repr (qo, s\<lparr>bufs := B\<rparr>) (xs @ [b])
    \<and> (\<forall>x. (B x)\<lparr>bh_next := None\<rparr> = (bufs s x)\<lparr>bh_next := None\<rparr>)"
proof -
  obtain qo s' where p: "mmal_queue_put (cp_queue q, s) (Some b) = (qo, s')" by force
  have r: "queue_repr (qo, s') (xs @ [b])" using queue_repr_put [OF assms(2,3)] p by simp
  have f: "same_but_next s s'" using queue_put_frame [of s "cp_queue q" "Some b"] p by simp
  then have "s' = s\<lparr>bufs := bufs s'\<rparr>" by (intro mmal_mem.equality) (simp_all add: same_but_next_def)
  then show ?thesis using p r f assms(1)
    by (intro exI [of _ qo] exI [of _ "bufs s'"]) (auto simp: clock_queue_put_def set_queue_def same_but_next_def)
qed

section \<open>An event sent to the connected port\<close>

text \<open>
  The functions of the ports are reached through the table \<open>c\<close> and call through a table themselves;
  \<open>dispatches k c c'\<close>: those behind the pointers of \<open>c\<close> call through \<open>c'\<close>, which has the same clock of
  the system.
\<close>

definition dispatches :: "'x clock_clients \<Rightarrow> 'x port_ops \<Rightarrow> 'x port_ops \<Rightarrow> bool" where
  "dispatches k c c' \<longleftrightarrow> pp_send c CLOCK_PORT = mmal_port_clock_send c' k
     \<and> pp_cb c CONNECTED_INPUT_CB = mmal_port_connected_input_cb c'
     \<and> pp_cb c CONNECTED_OUTPUT_CB = mmal_port_connected_output_cb c'
     \<and> pp_time c' = pp_time c \<and> pp_collect_stats c' = pp_collect_stats c"

fun nested :: "'x clock_clients \<Rightarrow> 'x port_ops list \<Rightarrow> bool" where
  "nested k (c # c' # cs) \<longleftrightarrow> dispatches k c c' \<and> nested k (c' # cs)"
| "nested k _ \<longleftrightarrow> True"

text \<open>A clock port that is enabled, takes headers and is connected to \<open>q\<close>.\<close>

definition running_clock_port :: "addr \<Rightarrow> addr \<Rightarrow> nat \<Rightarrow> mmal_port \<Rightarrow> bool" where
  "running_clock_port p q cb P \<longleftrightarrow> po_type P = MMAL_PORT_TYPE_CLOCK \<and> po_is_enabled P \<and> \<not> po_is_paused P
     \<and> po_pf_send P = Some CLOCK_PORT \<and> po_connected P = Some q \<and> po_callback P = Some cb
     \<and> (po_transit P = 0 \<longrightarrow> po_transit_sema P = 1) \<and> 0 \<le> po_transit P"

lemma clock_send_queues:
  assumes P: "running_clock_port p q cb (port_of s p)" and d: "bh_data (bufs s b) \<noteq> None" and n: "0 < po_transit (port_of s p)"
    and l: "bh_length (bufs s b) = 0" and c: "dispatches k c c'"
    and h: "po_clock (port_of s p) = Some Q" "queue_repr (cp_queue Q, s) xs" "b \<notin> set xs"
  shows "\<exists>qo B h. mmal_port_send_buffer c (Some p) b s
      = ret (MMAL_SUCCESS, upd_port p (\<lambda>P. P\<lparr>po_transit := po_transit P + 1, po_stats_rx := update_stats (fst (pp_time c (w_env (ps_env s)))) (po_stats_rx P)\<rparr>)
          (set_queue p qo (upd_env h (s\<lparr>bufs := B\<rparr>))))
    \<and> queue_repr (qo, s\<lparr>bufs := B\<rparr>) (xs @ [b]) \<and> (\<forall>x. (B x)\<lparr>bh_next := None\<rparr> = (bufs s x)\<lparr>bh_next := None\<rparr>)"
proof -
  define s1 where "s1 = upd_port p (\<lambda>P. P\<lparr>po_transit := po_transit (port_of s p) + 1\<rparr>) s"
  have i: "in_transit_increment p s = ret s1" using n by (simp add: in_transit_increment_def s1_def Let_def)
  have "queue_repr (cp_queue Q, s1) xs" by (rule queue_repr_mem_cong [OF h(2)]) (simp add: s1_def)
  from clock_put_snoc [of s1 p Q, OF _ this h(3)] h(1) obtain qo B where
    p: "clock_queue_put p b s1 = ret (set_queue p qo (s1\<lparr>bufs := B\<rparr>))" "queue_repr (qo, s1\<lparr>bufs := B\<rparr>) (xs @ [b])"
      "\<And>x. (B x)\<lparr>bh_next := None\<rparr> = (bufs s1 x)\<lparr>bh_next := None\<rparr>"
    by (auto simp: s1_def)
  obtain t e where te: "pp_time c (w_env (ps_env s)) = (t, e)" by force
  have w: "w_env (ps_env (s1\<lparr>bufs := B\<rparr>)) = w_env (ps_env s)" by (simp add: s1_def)
  have send: "pp_send c CLOCK_PORT p b s1 = ret (MMAL_SUCCESS, set_queue p qo (s1\<lparr>bufs := B\<rparr>))"
    using c l p(1) by (simp add: dispatches_def mmal_port_clock_send_def s1_def)
  have "mmal_port_send_buffer c (Some p) b s = ret (MMAL_SUCCESS, mmal_port_update_port_stats c p True (set_queue p qo (s1\<lparr>bufs := B\<rparr>)))"
    using P d send by (simp add: mmal_port_send_buffer_def running_clock_port_def i) (simp add: s1_def)
  moreover have "mmal_port_update_port_stats c p True (set_queue p qo (s1\<lparr>bufs := B\<rparr>))
      = upd_port p (\<lambda>P. P\<lparr>po_transit := po_transit P + 1, po_stats_rx := update_stats t (po_stats_rx P)\<rparr>)
          (set_queue p qo (upd_env (\<lambda>_. e) (s\<lparr>bufs := B\<rparr>)))"
    using te by (simp add: mmal_port_update_port_stats_def vcos_getmicrosecs_def set_queue_def upd_clock_def s1_def upd_port_def upd_env_def upd_world_def Let_def fun_eq_iff)
  moreover have "queue_repr (qo, s\<lparr>bufs := B\<rparr>) (xs @ [b])" by (rule queue_repr_mem_cong [OF p(2)]) simp
  ultimately show ?thesis using te p(3) by (intro exI [of _ qo] exI [of _ B] exI [of _ "\<lambda>_. e"]) (simp add: s1_def)
qed

definition core_at :: "addr \<Rightarrow> 'x pst \<Rightarrow> clock_core option" where
  "core_at p s = map_option snd (Option.bind (po_clock (port_of s p)) cp_clock)"

lemma core_at_simps [simp]:
  "core_at p (upd_port x f s) = (if x = p then map_option snd (Option.bind (po_clock (f (port_of s p))) cp_clock) else core_at p s)"
  "core_at p (set_queue x qo s) = core_at p s" "core_at p (upd_env h s) = core_at p s"
  "core_at p (s\<lparr>bufs := B\<rparr>) = core_at p s"
  "core_at p (upd_buf b g s) = core_at p s"
  by (auto simp: core_at_def set_queue_def upd_buf_def split: option.splits bind_splits)

lemma core_at_set_core [simp]:
  "core_at p (set_core x a core s) = (if x = p then map_option (\<lambda>_. core) (po_clock (port_of s p)) else core_at p s)"
  by (cases "po_clock (port_of s p)") (auto simp: core_at_def set_core_def)

text \<open>What the exchange leaves: the header empty again at the end of the queue of \<open>p\<close>, the clock of
  \<open>q\<close> changed, and no other header in transit than before.\<close>

definition exchanged :: "addr \<Rightarrow> addr \<Rightarrow> addr \<Rightarrow> addr list \<Rightarrow> clock_core \<Rightarrow> 'x pst \<Rightarrow> 'x pst \<Rightarrow> bool" where
  "exchanged p q b bs core s s' \<longleftrightarrow>
     clock_holds p s' (bs @ [b]) \<and> bh_length (bufs s' b) = 0
     \<and> core_at q s' = Some core \<and> core_at p s' = core_at p s
     \<and> (\<forall>x \<in> {p, q}. po_transit (port_of s' x) = po_transit (port_of s x)
          \<and> po_transit_sema (port_of s' x) = po_transit_sema (port_of s x))"

lemma transit_round_trip:
  fixes s :: "'x pst"
  assumes "running_clock_port q p cb (port_of s q)"
  shows "\<exists>n. in_transit_increment q s = ret (upd_port q (\<lambda>P. P\<lparr>po_transit := po_transit P + 1, po_transit_sema := n\<rparr>) s)
    \<and> (\<forall>s' :: 'x pst. po_transit (port_of s' q) = po_transit (port_of s q) + 1 \<longrightarrow> po_transit_sema (port_of s' q) = n \<longrightarrow>
         in_transit_decrement q s' = upd_port q (\<lambda>P. P\<lparr>po_transit := po_transit (port_of s q), po_transit_sema := po_transit_sema (port_of s q)\<rparr>) s')"
proof (cases "po_transit (port_of s q) = 0")
  case True
  then show ?thesis using assms
    by (intro exI [of _ 0]) (auto simp: running_clock_port_def in_transit_increment_def in_transit_decrement_def sem_wait_def sem_post_def upd_port_def upd_world_def Let_def fun_eq_iff)
next
  case False
  then show ?thesis using assms
    by (intro exI [of _ "po_transit_sema (port_of s q)"]) (auto simp: running_clock_port_def in_transit_increment_def in_transit_decrement_def upd_port_def upd_world_def Let_def fun_eq_iff)
qed

lemma clock_event_processed:
  fixes s :: "'x pst"
  assumes q: "running_clock_port q p CONNECTED_OUTPUT_CB (port_of s q)" and p: "running_clock_port p q CONNECTED_INPUT_CB (port_of s p)"
    and pq: "p \<noteq> q" and n: "0 < po_transit (port_of s p)" and c: "nested k [c1, c2, c3, c4]" "\<not> pp_collect_stats c1"
    and h: "po_clock (port_of s p) = Some P" "queue_repr (cp_queue P, s) bs" "b \<notin> set bs"
    and b: "bh_data (bufs s b) = Some d" "bh_cmd (bufs s b) = 0" "bh_length (bufs s b) = kc_sizeof_event k" "kc_sizeof_event k \<noteq> 0"
    and e: "event_in k d s = e" "ce_magic e = MMAL_CLOCK_EVENT_MAGIC"
    and Q: "po_clock (port_of s q) = Some Q" "cp_event_cb Q = None"
    and a: "\<And>x. po_clock (port_of x q) = Some Q \<Longrightarrow> w_env (ps_env x) = w_env (ps_env s)
      \<Longrightarrow> apply_event c2 k q e x = ret (MMAL_SUCCESS, set_core q a' core (upd_env h x))"
  shows "\<exists>s'. mmal_port_send_buffer c1 (Some q) b s = ret (MMAL_SUCCESS, s')
    \<and> clock_holds p s' (bs @ [b]) \<and> bh_length (bufs s' b) = 0 \<and> core_at q s' = Some core \<and> core_at p s' = core_at p s
    \<and> po_transit (port_of s' p) = po_transit (port_of s p) + 1 \<and> po_transit_sema (port_of s' p) = po_transit_sema (port_of s p)
    \<and> po_transit (port_of s' q) = po_transit (port_of s q) \<and> po_transit_sema (port_of s' q) = po_transit_sema (port_of s q)"
proof -
  from transit_round_trip [OF q] obtain m where
    i: "in_transit_increment q s = ret (upd_port q (\<lambda>P. P\<lparr>po_transit := po_transit P + 1, po_transit_sema := m\<rparr>) s)"
    and dec: "\<And>s' :: 'x pst. po_transit (port_of s' q) = po_transit (port_of s q) + 1 \<Longrightarrow> po_transit_sema (port_of s' q) = m \<Longrightarrow>
       in_transit_decrement q s' = upd_port q (\<lambda>P. P\<lparr>po_transit := po_transit (port_of s q), po_transit_sema := po_transit_sema (port_of s q)\<rparr>) s'"
    by blast
  define s1 where "s1 = upd_port q (\<lambda>P. P\<lparr>po_transit := po_transit P + 1, po_transit_sema := m\<rparr>) s"
  define s2 where "s2 = set_core q a' core (upd_env h s1)"
  define s3 where "s3 = upd_buf b (\<lambda>B. B\<lparr>bh_length := 0\<rparr>) s2"
  have ap: "apply_event c2 k q e s1 = ret (MMAL_SUCCESS, s2)" unfolding s2_def by (rule a) (simp_all add: s1_def Q)
  have ev: "event_in k d s1 = e" using e(1) by (simp add: s1_def event_in_def)
  have bufs3: "bufs s3 x = (if x = b then (bufs s b)\<lparr>bh_length := 0\<rparr> else bufs s x)" for x
    by (simp add: s3_def s2_def s1_def set_core_def)
  have port3: "port_of s3 p = port_of s p" using pq by (simp add: s3_def s2_def s1_def set_core_def)
  have "queue_repr (cp_queue P, s3) bs" by (rule queue_repr_mem_cong [OF h(2)]) (use h(3) in \<open>auto simp: bufs3\<close>)
  moreover have "running_clock_port p q CONNECTED_INPUT_CB (port_of s3 p)" "0 < po_transit (port_of s3 p)"
      "po_clock (port_of s3 p) = Some P" "bh_data (bufs s3 b) \<noteq> None" "bh_length (bufs s3 b) = 0" "dispatches k c3 c4"
    using p n h(1) b c by (simp_all add: port3 bufs3)
  ultimately obtain qo B g where
    snd: "mmal_port_send_buffer c3 (Some p) b s3 = ret (MMAL_SUCCESS, upd_port p (\<lambda>P. P\<lparr>po_transit := po_transit P + 1,
        po_stats_rx := update_stats (fst (pp_time c3 (w_env (ps_env s3)))) (po_stats_rx P)\<rparr>) (set_queue p qo (upd_env g (s3\<lparr>bufs := B\<rparr>))))"
    and qr: "queue_repr (qo, s3\<lparr>bufs := B\<rparr>) (bs @ [b])" and B: "\<forall>x. (B x)\<lparr>bh_next := None\<rparr> = (bufs s3 x)\<lparr>bh_next := None\<rparr>"
    using clock_send_queues [of p q CONNECTED_INPUT_CB s3 b k c3 c4 P bs] h(3) by blast
  define s4 where "s4 = upd_port p (\<lambda>P. P\<lparr>po_transit := po_transit P + 1,
        po_stats_rx := update_stats (fst (pp_time c3 (w_env (ps_env s3)))) (po_stats_rx P)\<rparr>) (set_queue p qo (upd_env g (s3\<lparr>bufs := B\<rparr>)))"
  have out: "mmal_port_connected_output_cb c3 q b s3 = ret s4"
    using q b pq snd by (simp add: mmal_port_connected_output_cb_def bufs3 s3_def s2_def s1_def set_core_def running_clock_port_def s4_def)
  have q4: "port_of s4 q = port_of s3 q" "port_of s3 q = (port_of s q)\<lparr>po_transit := po_transit (port_of s q) + 1,
      po_transit_sema := m, po_clock := Some (Q\<lparr>cp_clock := Some (a', core)\<rparr>)\<rparr>"
    using pq Q by (simp_all add: s4_def set_queue_def s3_def s2_def s1_def set_core_def)
  define s5 where "s5 = in_transit_decrement q s4"
  have s5: "s5 = upd_port q (\<lambda>P. P\<lparr>po_transit := po_transit (port_of s q), po_transit_sema := po_transit_sema (port_of s q)\<rparr>) s4"
    unfolding s5_def by (rule dec) (simp_all add: q4)
  have given: "return_empty c2 q b s2 = ret s5"
    using c q out unfolding return_empty_def s3_def [symmetric]
    by (simp add: mmal_port_buffer_header_callback_def q4(2) running_clock_port_def dispatches_def s5_def)
  have "mmal_port_clock_process_buffer c2 k q b s1 = ret (MMAL_SUCCESS, s5)"
    using b ev e(2) ap given Q
    by (simp add: mmal_port_clock_process_buffer_def s1_def) (simp add: s1_def s2_def set_core_def clock_field_def)
  then have "mmal_port_clock_send c2 k q b s1 = ret (MMAL_SUCCESS, s5)" using b by (simp add: mmal_port_clock_send_def s1_def)
  define s' where "s' = mmal_port_update_port_stats c1 q True s5"
  from \<open>mmal_port_clock_send c2 k q b s1 = ret (MMAL_SUCCESS, s5)\<close>
  have run: "mmal_port_send_buffer c1 (Some q) b s = ret (MMAL_SUCCESS, s')" unfolding s'_def
    using q b c i by (simp add: mmal_port_send_buffer_def running_clock_port_def dispatches_def) (simp add: s1_def)
  obtain t u where tu: "pp_time c1 (w_env (ps_env s5)) = (t, u)" by force
  then have s': "s' = upd_port q (\<lambda>P. P\<lparr>po_stats_rx := update_stats t (po_stats_rx P)\<rparr>) (upd_env (\<lambda>_. u) s5)"
    by (simp add: s'_def mmal_port_update_port_stats_def vcos_getmicrosecs_def)
  have p': "port_of s' p = (port_of s p)\<lparr>po_transit := po_transit (port_of s p) + 1,
      po_stats_rx := update_stats (fst (pp_time c3 (w_env (ps_env s3)))) (po_stats_rx (port_of s p)),
      po_clock := Some (P\<lparr>cp_queue := qo\<rparr>)\<rparr>"
    using pq h(1) by (simp add: s' s5 s4_def set_queue_def port3)
  have b': "bufs s' = B" by (simp add: s' s5 s4_def set_queue_def)
  have "clock_holds p s' (bs @ [b])"
    unfolding clock_holds_def using queue_repr_mem_cong [OF qr, of s'] by (simp add: p' b')
  moreover have "bh_length (B b) = 0" using arg_cong [of _ _ bh_length, OF B [THEN spec, of b]] by (simp add: bufs3)
  moreover have "core_at q s' = Some core" "po_transit (port_of s' q) = po_transit (port_of s q)"
      "po_transit_sema (port_of s' q) = po_transit_sema (port_of s q)"
    by (simp_all add: s' s5 q4 core_at_def)
  moreover have "core_at p s' = core_at p s" using h(1) by (simp add: p' core_at_def)
  ultimately show ?thesis using run p' b' by (intro exI [of _ s']) simp
qed

text \<open>The event that a port forwards.\<close>

lemma forward_exchanges:
  fixes s :: "'x pst"
  assumes q: "running_clock_port q p CONNECTED_OUTPUT_CB (port_of s q)" and p: "running_clock_port p q CONNECTED_INPUT_CB (port_of s p)"
    and pq: "p \<noteq> q" and n: "0 < po_transit (port_of s p)" and c: "nested k [c, c1, c2, c3, c4]" "\<not> pp_collect_stats c"
    and h: "clock_holds p s (b # bs)"
    and b: "bh_data (bufs s b) = Some d" "bh_cmd (bufs s b) = 0" "kc_sizeof_event k \<noteq> 0"
    and e: "ce_magic e = MMAL_CLOCK_EVENT_MAGIC"
    and Q: "po_clock (port_of s q) = Some Q" "cp_event_cb Q = None"
    and a: "\<And>x. po_clock (port_of x q) = Some Q \<Longrightarrow> w_env (ps_env x) = w_env (ps_env s)
      \<Longrightarrow> apply_event c2 k q e x = ret (MMAL_SUCCESS, set_core q a' core (upd_env g x))"
  shows "\<exists>s'. mmal_port_clock_forward_event c k p e s = ret (MMAL_SUCCESS, s') \<and> exchanged p q b bs core s s'"
proof -
  obtain qo where g: "clock_queue_get p s = ret (Some b, set_queue p qo s)" and qr: "queue_repr (qo, s) bs"
    using clock_get_Cons [OF h] by blast
  obtain P where P: "po_clock (port_of s p) = Some P" using h by (auto simp: clock_holds_def)
  have nb: "b \<notin> set bs" using h queue_repr_distinct by (fastforce simp: clock_holds_def)
  define s1 where "s1 = set_event d (EventClock e) (upd_buf b (\<lambda>B. B\<lparr>bh_length := kc_sizeof_event k\<rparr>) (set_queue p qo s))"
  have wr: "write_event b (kc_sizeof_event k) (EventClock e) (set_queue p qo s) = ret s1"
    using b(1) by (simp add: write_event_def s1_def set_queue_def)
  have ports: "port_of s1 x = port_of (set_queue p qo s) x" for x by (simp add: s1_def set_event_def upd_buf_def)
  have bufs1: "bufs s1 x = (if x = b then (bufs s b)\<lparr>bh_length := kc_sizeof_event k\<rparr> else bufs s x)" for x
    by (simp add: s1_def set_event_def set_queue_def)
  have "queue_repr (qo, s1) bs" by (rule queue_repr_mem_cong [OF qr]) (use nb in \<open>auto simp: bufs1\<close>)
  moreover have ev: "event_in k d s1 = e" by (simp add: event_in_def s1_def set_event_def)
  moreover have w: "w_env (ps_env s1) = w_env (ps_env s)" by (simp add: s1_def set_event_def set_queue_def upd_buf_def)
  moreover have c': "nested k [c1, c2, c3, c4]" "\<not> pp_collect_stats c1" using c by (auto simp: dispatches_def)
  ultimately obtain s2 where snd: "mmal_port_send_buffer c1 (Some q) b s1 = ret (MMAL_SUCCESS, s2)"
    "clock_holds p s2 (bs @ [b])" "bh_length (bufs s2 b) = 0" "core_at q s2 = Some core" "core_at p s2 = core_at p s1"
    "po_transit (port_of s2 p) = po_transit (port_of s1 p) + 1" "po_transit_sema (port_of s2 p) = po_transit_sema (port_of s1 p)"
    "po_transit (port_of s2 q) = po_transit (port_of s1 q)" "po_transit_sema (port_of s2 q) = po_transit_sema (port_of s1 q)"
    using clock_event_processed [of q p s1 k c1 c2 c3 c4 "P\<lparr>cp_queue := qo\<rparr>" bs b d e Q a' core g] p q pq n b P nb e Q a
    by (auto simp: ports bufs1 set_queue_def running_clock_port_def simp del: nested.simps)
  define s3 where "s3 = in_transit_decrement p s2"
  have cb: "mmal_port_connected_input_cb c1 p b s1 = ret s2"
    using p b snd(1) by (simp add: mmal_port_connected_input_cb_def ports set_queue_def bufs1 running_clock_port_def)
  have "mmal_port_clock_forward_event c k p e s = ret (MMAL_SUCCESS, s3)"
    using p c cb wr
    by (simp add: mmal_port_clock_forward_event_def g mmal_port_buffer_header_callback_def ports [unfolded set_queue_def] set_queue_def
          running_clock_port_def dispatches_def s3_def)
  moreover have "exchanged p q b bs core s s3"
  proof -
    have t: "po_transit (port_of s2 p) - 1 = po_transit (port_of s p)" "po_transit (port_of s p) \<noteq> 0"
      using snd(6) n by (simp_all add: ports set_queue_def)
    have d3: "s3 = upd_port p (\<lambda>P. P\<lparr>po_transit := po_transit (port_of s p)\<rparr>) s2"
      using t by (simp add: s3_def in_transit_decrement_def Let_def upd_port_def upd_world_def fun_eq_iff)
    have "clock_holds p s3 (bs @ [b])"
      using snd(2) queue_repr_mem_cong [where m = s2 and m' = s3] by (auto simp: clock_holds_def d3)
    then show ?thesis
      using snd pq by (simp add: exchanged_def d3 ports set_queue_def core_at_def) (auto simp: ports set_queue_def P)
  qed
  ultimately show ?thesis by blast
qed

section \<open>Two clocks in step\<close>

lemma running_clock_port_clock [simp]: "running_clock_port p q cb (P\<lparr>po_clock := x\<rparr>) = running_clock_port p q cb P"
  by (simp add: running_clock_port_def)

lemma set_core_port [simp]:
  "port_of (set_core p a core s) x = (if x = p then (port_of s p)\<lparr>po_clock := map_option (\<lambda>q. q\<lparr>cp_clock := Some (a, core)\<rparr>) (po_clock (port_of s p))\<rparr> else port_of s x)"
  "bufs (set_core p a core s) = bufs s" "w_env (ps_env (set_core p a core s)) = w_env (ps_env s)"
  by (simp_all add: set_core_def)

lemma clock_holds_set_core [simp]: "clock_holds p (set_core x a core s) xs = clock_holds p s xs"
proof -
  have "queue_repr (qo, set_core x a core s) xs = queue_repr (qo, s) xs" for qo
    using queue_repr_mem_cong [where m = s and m' = "set_core x a core s"] queue_repr_mem_cong [where m = "set_core x a core s" and m' = s]
    by fastforce
  then show ?thesis by (auto simp: clock_holds_def)
qed

lemma clock_holds_upd_env [simp]: "clock_holds p (upd_env h s) xs = clock_holds p s xs"
proof -
  have "queue_repr (qo, upd_env h s) xs = queue_repr (qo, s) xs" for qo
    using queue_repr_mem_cong [where m = s and m' = "upd_env h s"] queue_repr_mem_cong [where m = "upd_env h s" and m' = s]
    by fastforce
  then show ?thesis by (simp add: clock_holds_def)
qed

lemma rational_words_roundtrip:
  "in_i32 (num r) \<Longrightarrow> in_i32 (den r) \<Longrightarrow> rational_of (write_words (rational_words r) ws) = r"
  by (cases r) (simp add: rational_of_def rational_words_def write_words_def in_i32_def signed_take_bit_int_eq_self signed_of_int)

lemma scale_step_on:
  assumes "clock_at p a core q s" and "usable core" and t: "pp_time c (w_env (ps_env s)) = (t, e)"
  shows "clock_step_on p (mmal_clock_scale_set (clock_ops_of c k p) r) s
    = ret (MMAL_SUCCESS, set_core p a (scaled t r core) (upd_env (\<lambda>_. e) s))"
  unfolding clock_step_on_def
  by (rule on_clock_runs [OF assms(1)]) (simp add: scale_set_scales [OF assms(2)] t)

definition linked_clocks :: "addr \<Rightarrow> addr \<Rightarrow> 'x pst \<Rightarrow> bool" where
  "linked_clocks p q s \<longleftrightarrow> p \<noteq> q \<and> running_clock_port p q CONNECTED_INPUT_CB (port_of s p)
     \<and> running_clock_port q p CONNECTED_OUTPUT_CB (port_of s q) \<and> 0 < po_transit (port_of s p)"

text \<open>C13. A change of the scale on a reference clock port reaches the clock port it is connected to, when the
  component of that port has no callback for events (with one, the callback gets the buffer and has to give
  it back). Both ports are enabled and not paused, both clocks run forwards at less than 128 times the
  normal speed and nobody has them locked, at least one header is in transit on the reference port, and the
  functions of the ports are reached through the stored pointers (\<open>nested\<close>; no statistics of the core are
  collected). While an empty event buffer waits on the reference port, \<open>mmal_port_clock_scale_set\<close> succeeds, both clocks have
  taken over the scale, each at the time of the system when it did, the buffer is back at the end of the
  queue of the reference port, and as many headers are in transit on either port as before.\<close>

theorem scale_reaches_connected_clock:
  fixes s :: "'x pst"
  assumes "nested k [c, c1, c2, c3, c4]" and "\<not> pp_collect_stats c" and l: "linked_clocks p q s"
    and P: "clock_at p a corep P s" "cp_is_reference P \<noteq> 0" "usable corep"
    and Q: "clock_at q a' coreq Q s" "cp_event_cb Q = None" "usable coreq"
    and b: "clock_holds p s (b # bs)" "bh_data (bufs s b) = Some d" "bh_cmd (bufs s b) = 0"
    and n: "kc_sizeof_event k \<noteq> 0" and r: "in_i32 (num r)" "in_i32 (den r)"
    and t: "pp_time c (w_env (ps_env s)) = (t, e)" "pp_time c e = (t', e')"
  shows "\<exists>s'. mmal_port_clock_scale_set c k p r s = ret (MMAL_SUCCESS, s')
    \<and> core_at p s' = Some (scaled t r corep) \<and> core_at q s' = Some (scaled t' r coreq)
    \<and> clock_holds p s' (bs @ [b]) \<and> bh_length (bufs s' b) = 0
    \<and> po_transit (port_of s' p) = po_transit (port_of s p) \<and> po_transit (port_of s' q) = po_transit (port_of s q)"
proof -
  define s1 where "s1 = set_core p a (scaled t r corep) (upd_env (\<lambda>_. e) s)"
  define ev where "ev = stack_event k MMAL_CLOCK_EVENT_SCALE (rational_words r)"
  have set1: "clock_step_on p (mmal_clock_scale_set (clock_ops_of c k p) r) s = ret (MMAL_SUCCESS, s1)"
    unfolding s1_def by (rule scale_step_on [OF P(1,3) t(1)])
  have pt: "pp_time c2 = pp_time c" using assms(1) by (simp add: dispatches_def)
  have ids: "MMAL_CLOCK_EVENT_SCALE \<noteq> MMAL_CLOCK_EVENT_ACTIVE" "MMAL_CLOCK_EVENT_SCALE \<noteq> MMAL_CLOCK_EVENT_TIME"
    by code_simp+
  have "\<exists>s'. mmal_port_clock_forward_event c k p ev s1 = ret (MMAL_SUCCESS, s') \<and> exchanged p q b bs (scaled t' r coreq) s1 s'"
  proof (rule forward_exchanges [where d = d and Q = Q])
    fix x :: "'x pst"
    assume x: "po_clock (port_of x q) = Some Q" "w_env (ps_env x) = w_env (ps_env s1)"
    have "clock_at q a' coreq Q x" using Q(1) x(1) by (simp add: clock_at_def)
    from scale_step_on [OF this Q(3), of c2 t' e' k r] x(2) t(2)
    show "apply_event c2 k q ev x = ret (MMAL_SUCCESS, set_core q a' (scaled t' r coreq) (upd_env (\<lambda>_. e') x))"
      using r by (simp add: apply_event_def ev_def stack_event_def ids rational_words_roundtrip pt s1_def)
  qed (use assms in \<open>simp_all add: s1_def linked_clocks_def ev_def stack_event_def clock_at_def del: nested.simps\<close>)
  then obtain s' where s': "mmal_port_clock_forward_event c k p ev s1 = ret (MMAL_SUCCESS, s')"
    "exchanged p q b bs (scaled t' r coreq) s1 s'" by blast
  have "mmal_port_clock_scale_set c k p r s = ret (MMAL_SUCCESS, s')"
    using P s'(1) by (simp add: mmal_port_clock_scale_set_def set_and_forward_def set1 mmal_port_clock_forward_scale_def ev_def
        clock_field_def s1_def clock_at_def)
  moreover have "core_at p s1 = Some (scaled t r corep)" using P(1) by (simp add: s1_def clock_at_def)
  ultimately show ?thesis using s'(2) by (auto simp: exchanged_def s1_def)
qed

text \<open>Two ports of unscheduled clocks that run at normal speed.\<close>

definition wire :: "'x clock_clients \<Rightarrow> 'x port_ops \<Rightarrow> 'x port_ops" where
  "wire k c = c\<lparr>pp_send := (pp_send c)(CLOCK_PORT := mmal_port_clock_send c k),
     pp_cb := (pp_cb c)(CONNECTED_INPUT_CB := mmal_port_connected_input_cb c,
                        CONNECTED_OUTPUT_CB := mmal_port_connected_output_cb c)\<rparr>"

lemma dispatches_wire: "dispatches k (wire k c) c"
  by (simp add: dispatches_def wire_def CONNECTED_INPUT_CB_def CONNECTED_OUTPUT_CB_def)

definition example_core :: clock_core where
  "example_core = (core_of (zero_clock ()))\<lparr>ck_scale := 2 ^ 16, ck_scale_inv := 2 ^ 16\<rparr>"

definition example_clock_port :: "mmal_queue option \<Rightarrow> u32 \<Rightarrow> clock_port" where
  "example_clock_port qo r = zero_clock_port\<lparr>cp_clock := Some (1, example_core), cp_queue := qo, cp_is_reference := r\<rparr>"

definition example_linked_port :: "addr \<Rightarrow> nat \<Rightarrow> int \<Rightarrow> nat \<Rightarrow> clock_port \<Rightarrow> mmal_port" where
  "example_linked_port q cb n sema k = zero_port\<lparr>po_type := MMAL_PORT_TYPE_CLOCK, po_is_enabled := True,
     po_pf_send := Some CLOCK_PORT, po_connected := Some q, po_callback := Some cb, po_transit := n,
     po_transit_sema := sema, po_clock := Some k\<rparr>"

definition example_linked :: "unit pst" where
  "example_linked = empty_world\<lparr>bufs := (\<lambda>_. zero_header\<lparr>bh_data := Some 500\<rparr>),
     ps_env := (ps_env empty_world)\<lparr>w_port := (\<lambda>_. zero_port)(
       10 := example_linked_port 20 CONNECTED_INPUT_CB 1 0
               (example_clock_port (Some \<lparr>q_length = 1, q_first = Some 300, q_last = SlotNext 300, q_sema = 1, q_block = None\<rparr>) 1),
       20 := example_linked_port 10 CONNECTED_OUTPUT_CB 0 1 (example_clock_port None 0))\<rparr>\<rparr>"

definition example_clients :: "'x clock_clients" where
  "example_clients = \<lparr>kc_sizeof_event = 56, kc_sizeof_clock = 4096, kc_sizeof_port_clock = 32,
     kc_stack_buffer = None, kc_stack = replicate 6 7, kc_read = (\<lambda>_. MMAL_CLOCK_EVENT_INIT 0),
     kc_sched = (\<lambda>_. \<lparr>sr_timer = VCOS_SUCCESS, sr_event = VCOS_SUCCESS, sr_list_free = Some 1, sr_free_mutex = VCOS_SUCCESS,
       sr_list_pending = Some 2, sr_pending_mutex = VCOS_SUCCESS, sr_thread = VCOS_SUCCESS\<rparr>),
     kc_sched_taken = (\<lambda>e. e), kc_event = (\<lambda>_ _ _ s. ret s), kc_request = (\<lambda>_ _ _ _ s. ret s)\<rparr>"

lemma example_core_usable: "usable example_core"
  by (simp add: usable_def example_core_def core_of_def zero_clock_def times_ok_def clock_in_def clock_core.defs mmal_clock.defs)

theorem scale_reaches_connected_clock_witness:
  "\<forall>base. \<exists>s'. mmal_port_clock_scale_set
       (wire example_clients (wire example_clients (wire example_clients (wire example_clients
          (base\<lparr>pp_time := \<lambda>_. (5, ()), pp_collect_stats := False\<rparr>)))))
       example_clients 10 \<lparr>num = 3, den = 2\<rparr> example_linked = ret (MMAL_SUCCESS, s')
     \<and> core_at 20 s' = Some (scaled 5 \<lparr>num = 3, den = 2\<rparr> example_core)"
proof
  fix base :: "unit port_ops"
  define w :: "unit port_ops \<Rightarrow> unit port_ops" where "w = wire example_clients"
  define c4 where "c4 = base\<lparr>pp_time := \<lambda>_. (5, ()), pp_collect_stats := False\<rparr>"
  have d: "nested example_clients [w (w (w (w c4))), w (w (w c4)), w (w c4), w c4, c4]"
    by (simp add: w_def dispatches_wire)
  have q: "clock_holds 10 example_linked [300]"
    by (simp add: clock_holds_def example_linked_def example_linked_port_def example_clock_port_def queue_list_def nexts_def zero_header_def)
  have t: "pp_time (w (w (w (w c4)))) = (\<lambda>_. (5, ()))" by (simp add: w_def wire_def c4_def)
  show "\<exists>s'. mmal_port_clock_scale_set
       (wire example_clients (wire example_clients (wire example_clients (wire example_clients
          (base\<lparr>pp_time := \<lambda>_. (5, ()), pp_collect_stats := False\<rparr>)))))
       example_clients 10 \<lparr>num = 3, den = 2\<rparr> example_linked = ret (MMAL_SUCCESS, s')
     \<and> core_at 20 s' = Some (scaled 5 \<lparr>num = 3, den = 2\<rparr> example_core)"
    unfolding w_def [symmetric] c4_def [symmetric]
    using scale_reaches_connected_clock [OF d _ _ _ _ example_core_usable _ _ example_core_usable q,
        of 20 1 "example_clock_port (Some \<lparr>q_length = 1, q_first = Some 300, q_last = SlotNext 300, q_sema = 1, q_block = None\<rparr>) 1"
           1 "example_clock_port None 0" 500 "\<lparr>num = 3, den = 2\<rparr>" 5 "()" 5 "()"]
    by (auto simp: t linked_clocks_def running_clock_port_def example_linked_def example_linked_port_def example_clock_port_def
        clock_at_def zero_clock_port_def zero_port_def zero_header_def example_clients_def in_i32_def w_def wire_def c4_def)
qed

section \<open>Events that are refused\<close>

definition clock_event_ids :: "u32 list" where
  "clock_event_ids = [MMAL_CLOCK_EVENT_ACTIVE, MMAL_CLOCK_EVENT_TIME, MMAL_CLOCK_EVENT_SCALE,
     MMAL_CLOCK_EVENT_UPDATE_THRESHOLD, MMAL_CLOCK_EVENT_DISCONT_THRESHOLD, MMAL_CLOCK_EVENT_REQUEST_THRESHOLD,
     MMAL_CLOCK_EVENT_INPUT_BUFFER_INFO, MMAL_CLOCK_EVENT_OUTPUT_BUFFER_INFO]"

definition refused :: "clock_event \<Rightarrow> bool" where
  "refused e \<longleftrightarrow> ce_magic e \<noteq> MMAL_CLOCK_EVENT_MAGIC \<or> ce_id e \<notin> set clock_event_ids"

lemma upd_port_idem: "f (port_of s p) = port_of s p \<Longrightarrow> upd_port p f s = s"
  by (simp add: upd_port_def upd_world_def)

lemma free_semaphore_passes: "po_transit_sema (port_of s p) = 1 \<Longrightarrow> in_transit_wait p s = ret s"
  by (simp add: in_transit_wait_def sem_wait_def sem_post_def) (rule upd_port_idem, cases "port_of s p", simp)

lemma refused_given_back:
  assumes "refused (event_in k d s)" and "bh_data (bufs s b) = Some d" and "bh_length (bufs s b) = kc_sizeof_event k"
    and "po_clock (port_of s p) \<noteq> None" and "return_empty c p b s = ret s'"
  shows "mmal_port_clock_process_buffer c k p b s = ret (MMAL_EINVAL, s')"
  using assms by (auto simp: mmal_port_clock_process_buffer_def refused_def apply_event_def clock_event_ids_def clock_field_def Let_def
      split: option.splits)

text \<open>C35. An event that a clock port refuses, because its magic or its identifier is wrong, is given
  back to the client and reported as an error as well, and \<open>mmal_port_send_buffer\<close> counts it out of
  transit a second time: the count ends one below its value before the call. With no other header in
  transit it is \<open>-1\<close> and the semaphore is free, so that the next header sent is not waited for when the
  port is disabled.\<close>

theorem refused_event_counted_twice:
  fixes s :: "'x pst"
  assumes c: "pp_send c CLOCK_PORT = mmal_port_clock_send c' k" "records c' lg"
    and P: "po_pf_send (port_of s p) = Some CLOCK_PORT" "po_type (port_of s p) \<noteq> MMAL_PORT_TYPE_OUTPUT"
      "po_is_enabled (port_of s p)" "\<not> po_is_paused (port_of s p)" "po_callback (port_of s p) \<noteq> None"
      "po_clock (port_of s p) \<noteq> None"
    and t: "po_transit (port_of s p) = 0" "po_transit_sema (port_of s p) = 1"
    and b: "bh_data (bufs s b) = Some d" "bh_length (bufs s b) = kc_sizeof_event k" "kc_sizeof_event k \<noteq> 0"
    and r: "refused (event_in k d s)"
  shows "\<exists>s'. mmal_port_send_buffer c (Some p) b s = ret (MMAL_EINVAL, s') \<and> w_env (ps_env s') = lg p b (w_env (ps_env s))
    \<and> po_transit (port_of s' p) = - 1 \<and> in_transit_wait p s' = ret s'
    \<and> (\<exists>s''. in_transit_increment p s' = ret s'' \<and> po_transit (port_of s'' p) = 0 \<and> in_transit_wait p s'' = ret s'')"
proof -
  define s1 where "s1 = upd_port p (\<lambda>P. P\<lparr>po_transit := 1, po_transit_sema := 0\<rparr>) s"
  have i: "in_transit_increment p s = ret s1"
    using t by (simp add: in_transit_increment_def s1_def Let_def upd_port_def upd_world_def fun_eq_iff sem_wait_def)
  define s2 where "s2 = in_transit_decrement p (upd_env (lg p b) (upd_buf b (\<lambda>B. B\<lparr>bh_length := 0\<rparr>) s1))"
  have e: "return_empty c' p b s1 = ret s2"
    unfolding return_empty_def s2_def by (rule callback_records [OF c(2)]) (simp add: s1_def upd_buf_def P)
  have "mmal_port_clock_process_buffer c' k p b s1 = ret (MMAL_EINVAL, s2)"
    by (rule refused_given_back [OF _ _ _ _ e]) (use r b P in \<open>simp_all add: s1_def event_in_def\<close>)
  then have "mmal_port_clock_send c' k p b s1 = ret (MMAL_EINVAL, s2)" using b by (simp add: mmal_port_clock_send_def s1_def)
  then have "mmal_port_send_buffer c (Some p) b s = ret (MMAL_EINVAL, in_transit_decrement p s2)"
    using P b c i by (simp add: mmal_port_send_buffer_def) (simp add: s1_def)
  moreover define s' where "s' = in_transit_decrement p s2"
  have p': "po_transit (port_of s' p) = - 1" "po_transit_sema (port_of s' p) = 1" "w_env (ps_env s') = lg p b (w_env (ps_env s))"
    by (simp_all add: s'_def s2_def s1_def in_transit_decrement_def upd_buf_def sem_post_def Let_def)
  have "in_transit_increment p s' = ret (upd_port p (\<lambda>P. P\<lparr>po_transit := 0\<rparr>) s')"
    using p' by (simp add: in_transit_increment_def Let_def)
  then show ?thesis
    using calculation p' by (simp add: s'_def free_semaphore_passes)
qed

definition refusing_port :: "(addr \<times> addr) list pst" where
  "refusing_port = (splitter_example 0 0 (\<lambda>_. []))\<lparr>
     bufs := (\<lambda>_. zero_header\<lparr>bh_data := Some 500, bh_length := 56\<rparr>),
     ps_env := (ps_env (splitter_example 0 0 (\<lambda>_. [])))\<lparr>w_port :=
       (\<lambda>_. example_linked_port 20 0 0 1 (example_clock_port None 0))\<rparr>\<rparr>"

theorem refused_event_counted_twice_witness:
  "\<forall>base. \<exists>s'. mmal_port_send_buffer (base\<lparr>pp_send := (\<lambda>_. mmal_port_clock_send (recording base) example_clients)\<rparr>) (Some 10) 300
       refusing_port = ret (MMAL_EINVAL, s')
     \<and> w_env (ps_env s') = [(10, 300)] \<and> po_transit (port_of s' 10) = - 1"
proof
  fix base :: "(addr \<times> addr) list port_ops"
  let ?c = "base\<lparr>pp_send := (\<lambda>_. mmal_port_clock_send (recording base) example_clients)\<rparr>"
  have "refused (event_in example_clients 500 refusing_port)"
  proof -
    have "refused (MMAL_CLOCK_EVENT_INIT 0)" by code_simp
    then show ?thesis by (simp add: event_in_def refusing_port_def splitter_example_def example_clients_def)
  qed
  then show "\<exists>s'. mmal_port_send_buffer ?c (Some 10) 300 refusing_port = ret (MMAL_EINVAL, s')
     \<and> w_env (ps_env s') = [(10, 300)] \<and> po_transit (port_of s' 10) = - 1"
    using refused_event_counted_twice [of ?c "recording base" example_clients "\<lambda>p b e. e @ [(p, b)]" refusing_port 10 300 500]
    by (auto simp: recording_records refusing_port_def example_linked_port_def example_clients_def splitter_example_def
        example_clock_port_def zero_port_def)
qed

section \<open>Parameters\<close>

lemma words_u64_roundtrip: "words_of_u64 (u64_of_words (lo # hi # ws)) = [lo, hi]"
  by (auto simp: words_of_u64_def intro!: bit_word_eqI) (auto simp: bit_simps dest: bit_imp_le_length)

lemma i64_words_of: "i64_words (i64_of (lo # hi # ws)) = [lo, hi]"
  by (simp add: i64_words_def i64_of_def words_u64_roundtrip del: u64_of_words.simps)

lemma pair_words_of: "length d = 4 \<Longrightarrow> pair_words (pair_of d) = d"
  by (auto simp: pair_words_def pair_of_def i64_words_of numeral_eq_Suc length_Suc_conv)

lemma rational_words_of: "length d = 2 \<Longrightarrow> rational_words (rational_of d) = d"
  by (auto simp: rational_words_def rational_of_def numeral_eq_Suc length_Suc_conv)

lemma core_of_update_threshold [simp]:
  "core_of (mmal_clock_update_threshold_set t m) = (core_of m)\<lparr>ck_update_threshold_lower := fst t, ck_update_threshold_upper := snd t\<rparr>"
  "core_of (mmal_clock_discont_threshold_set t m) = (core_of m)\<lparr>ck_discont_threshold := fst t, ck_discont_duration := snd t\<rparr>"
  by (simp_all add: core_of_def clock_core.defs mmal_clock_update_threshold_set_def mmal_clock_discont_threshold_set_def)

lemma clock_update_runs:
  assumes "clock_at p a core q s" and "\<And>x. f (clock_in core x) = clock_in core' x"
  shows "clock_update_on p f s = ret (MMAL_SUCCESS, set_core p a core' s)"
proof -
  have "on_clock p (\<lambda>m. andthen (ret (f m)) (\<lambda>m'. ret (MMAL_SUCCESS, m'))) s = ret (MMAL_SUCCESS, set_core p a core' (upd_env (\<lambda>e. e) s))"
    by (rule on_clock_runs [OF assms(1)]) (simp add: assms(2) upd_env_def upd_world_def)
  then show ?thesis by (simp add: clock_update_on_def clock_step_on_def upd_env_def upd_world_def)
qed

lemma clock_value_runs:
  assumes "clock_at p a core q s"
  shows "clock_value p f s = ret (f (clock_in core (upd_clock p (\<lambda>q. q\<lparr>cp_busy := True\<rparr>) s)), set_core p a core s)"
proof -
  have "core_of (clock_in core x) = core" for x :: "'a pst" by simp
  have "upd_clock p (\<lambda>q. q\<lparr>cp_clock := Some (a, core), cp_busy := False, cp_calls := []\<rparr>) (upd_clock p (\<lambda>q. q\<lparr>cp_busy := True\<rparr>) s) = set_core p a core s"
    using assms unfolding set_core_def upd_clock_upd_clock
    by (intro upd_clock_cong) (auto simp: clock_at_def)
  then show ?thesis using assms by (simp add: clock_value_def on_clock_def clock_at_def calls_of_def)
qed

lemma clock_at_set_core: "clock_at p a core q s \<Longrightarrow> clock_at p a core' (q\<lparr>cp_clock := Some (a, core')\<rparr>) (set_core p a core' s)"
  by (simp add: clock_at_def)

lemma clock_at_upd_env [simp]: "clock_at p a core q (upd_env h s) = clock_at p a core q s"
  by (simp add: clock_at_def)

text \<open>The parameters whose value is kept, with the number of their words.\<close>

definition kept_parameters :: "(u32 \<times> nat) list" where
  "kept_parameters = [(MMAL_PARAMETER_CLOCK_REFERENCE, 1), (MMAL_PARAMETER_CLOCK_SCALE, 2),
     (MMAL_PARAMETER_CLOCK_UPDATE_THRESHOLD, 4), (MMAL_PARAMETER_CLOCK_DISCONT_THRESHOLD, 4),
     (MMAL_PARAMETER_CLOCK_ENABLE_BUFFER_INFO, 1)]"

definition reads_as :: "'x port_ops \<Rightarrow> 'x clock_clients \<Rightarrow> addr \<Rightarrow> parameter \<Rightarrow> 'x pst \<Rightarrow> bool" where
  "reads_as c k p pm s \<longleftrightarrow> (\<forall>pm'. pm_id pm' = pm_id pm \<longrightarrow> length (pm_data pm') = length (pm_data pm) \<longrightarrow>
     (\<exists>s'. mmal_port_clock_parameter_get c k p pm' s = ret (MMAL_SUCCESS, pm'\<lparr>pm_data := pm_data pm\<rparr>, s')))"

lemma clock_parameter_ids_distinct:
  "distinct [MMAL_PARAMETER_CLOCK_REFERENCE, MMAL_PARAMETER_CLOCK_ACTIVE, MMAL_PARAMETER_CLOCK_SCALE,
     MMAL_PARAMETER_CLOCK_TIME, MMAL_PARAMETER_CLOCK_UPDATE_THRESHOLD, MMAL_PARAMETER_CLOCK_DISCONT_THRESHOLD,
     MMAL_PARAMETER_CLOCK_REQUEST_THRESHOLD, MMAL_PARAMETER_CLOCK_ENABLE_BUFFER_INFO]"
  by code_simp

lemma clock_parameter_ids_distinct_rev:
  "distinct [MMAL_PARAMETER_CLOCK_ENABLE_BUFFER_INFO, MMAL_PARAMETER_CLOCK_REQUEST_THRESHOLD,
     MMAL_PARAMETER_CLOCK_DISCONT_THRESHOLD, MMAL_PARAMETER_CLOCK_UPDATE_THRESHOLD, MMAL_PARAMETER_CLOCK_TIME,
     MMAL_PARAMETER_CLOCK_SCALE, MMAL_PARAMETER_CLOCK_ACTIVE, MMAL_PARAMETER_CLOCK_REFERENCE]"
  by code_simp

lemmas clock_ids = clock_parameter_ids_distinct [simplified] clock_parameter_ids_distinct_rev [simplified]

lemma clock_parameter_set_simps:
  "pm_id pm = MMAL_PARAMETER_CLOCK_REFERENCE \<Longrightarrow> mmal_port_clock_parameter_set c k p pm s
     = notify_component k p (set_event_of MMAL_CLOCK_EVENT_REFERENCE [pm_data pm ! 0]) (mmal_port_clock_reference_set p (pm_data pm ! 0) s)"
  "pm_id pm = MMAL_PARAMETER_CLOCK_SCALE \<Longrightarrow> mmal_port_clock_parameter_set c k p pm s
     = notify_component k p (set_event_of MMAL_CLOCK_EVENT_SCALE (rational_words (rational_of (pm_data pm))))
         (mmal_port_clock_scale_set c k p (rational_of (pm_data pm)) s)"
  "pm_id pm = MMAL_PARAMETER_CLOCK_UPDATE_THRESHOLD \<Longrightarrow> mmal_port_clock_parameter_set c k p pm s
     = notify_component k p (set_event_of MMAL_CLOCK_EVENT_UPDATE_THRESHOLD (pair_words (pair_of (pm_data pm))))
         (mmal_port_clock_update_threshold_set c k p (pair_of (pm_data pm)) s)"
  "pm_id pm = MMAL_PARAMETER_CLOCK_DISCONT_THRESHOLD \<Longrightarrow> mmal_port_clock_parameter_set c k p pm s
     = notify_component k p (set_event_of MMAL_CLOCK_EVENT_DISCONT_THRESHOLD (pair_words (pair_of (pm_data pm))))
         (mmal_port_clock_discont_threshold_set c k p (pair_of (pm_data pm)) s)"
  "pm_id pm = MMAL_PARAMETER_CLOCK_ENABLE_BUFFER_INFO \<Longrightarrow> mmal_port_clock_parameter_set c k p pm s
     = andthen (clock_field p id s) (\<lambda>_.
         ret (MMAL_SUCCESS, upd_clock p (\<lambda>q. q\<lparr>cp_buffer_info_reporting := pm_data pm ! 0\<rparr>) s))"
  by (simp_all add: mmal_port_clock_parameter_set_def clock_ids Let_def)

lemma clock_parameter_get_simps:
  "pm_id pm = MMAL_PARAMETER_CLOCK_REFERENCE \<Longrightarrow> mmal_port_clock_parameter_get c k p pm s
     = put_value pm (\<lambda>v. [v]) (pure_value (clock_field p cp_is_reference s) s)"
  "pm_id pm = MMAL_PARAMETER_CLOCK_SCALE \<Longrightarrow> mmal_port_clock_parameter_get c k p pm s
     = put_value pm rational_words (clock_value p mmal_clock_scale_get s)"
  "pm_id pm = MMAL_PARAMETER_CLOCK_UPDATE_THRESHOLD \<Longrightarrow> mmal_port_clock_parameter_get c k p pm s
     = put_value pm pair_words (clock_value p mmal_clock_update_threshold_get s)"
  "pm_id pm = MMAL_PARAMETER_CLOCK_DISCONT_THRESHOLD \<Longrightarrow> mmal_port_clock_parameter_get c k p pm s
     = put_value pm pair_words (clock_value p mmal_clock_discont_threshold_get s)"
  "pm_id pm = MMAL_PARAMETER_CLOCK_ENABLE_BUFFER_INFO \<Longrightarrow> mmal_port_clock_parameter_get c k p pm s
     = put_value pm (\<lambda>v. [v]) (pure_value (clock_field p cp_buffer_info_reporting s) s)"
  by (simp_all add: mmal_port_clock_parameter_get_def clock_ids Let_def)

lemma put_value_reads:
  assumes "length (pm_data pm') = length (pm_data pm)" and "words v = pm_data pm"
  shows "put_value pm' words (ret (v, s)) = ret (MMAL_SUCCESS, pm'\<lparr>pm_data := pm_data pm\<rparr>, s)"
  using assms by (simp add: put_value_def write_words_def)

lemma reads_as_flag:
  assumes "po_clock (port_of s p) = Some q" and "length (pm_data pm) = 1"
    and "pm_id pm = MMAL_PARAMETER_CLOCK_REFERENCE \<and> cp_is_reference q = pm_data pm ! 0
      \<or> pm_id pm = MMAL_PARAMETER_CLOCK_ENABLE_BUFFER_INFO \<and> cp_buffer_info_reporting q = pm_data pm ! 0"
  shows "reads_as c k p pm s"
proof -
  have "[pm_data pm ! 0] = pm_data pm" using assms(2) by (cases "pm_data pm") auto
  then show ?thesis
    using assms unfolding reads_as_def
    by (auto simp: clock_parameter_get_simps pure_value_def clock_field_def put_value_def write_words_def)
qed

lemma clock_in_thresholds:
  "ck_update_threshold_lower (clock_in core x) = ck_update_threshold_lower core"
  "ck_update_threshold_upper (clock_in core x) = ck_update_threshold_upper core"
  "ck_discont_threshold (clock_in core x) = ck_discont_threshold core"
  "ck_discont_duration (clock_in core x) = ck_discont_duration core"
  by (simp_all add: clock_in_def clock_core.defs mmal_clock.defs)

lemma reads_as_scale:
  assumes "clock_at p a core q s" and "pm_id pm = MMAL_PARAMETER_CLOCK_SCALE" "length (pm_data pm) = 2"
    and "ck_scale_rational core = rational_of (pm_data pm)"
  shows "reads_as c k p pm s"
  using assms unfolding reads_as_def
  by (auto simp: clock_parameter_get_simps clock_value_runs [OF assms(1)] mmal_clock_scale_get_def put_value_reads rational_words_of)

lemma reads_as_threshold:
  assumes "clock_at p a core q s" and "length (pm_data pm) = 4"
    and "pm_id pm = MMAL_PARAMETER_CLOCK_UPDATE_THRESHOLD
        \<and> (ck_update_threshold_lower core, ck_update_threshold_upper core) = pair_of (pm_data pm)
      \<or> pm_id pm = MMAL_PARAMETER_CLOCK_DISCONT_THRESHOLD
        \<and> (ck_discont_threshold core, ck_discont_duration core) = pair_of (pm_data pm)"
  shows "reads_as c k p pm s"
  using assms(2,3) unfolding reads_as_def
  by (auto simp: clock_parameter_get_simps clock_value_runs [OF assms(1)] mmal_clock_update_threshold_get_def
      mmal_clock_discont_threshold_get_def clock_in_thresholds put_value_reads pair_words_of)

text \<open>The component's callback for events of the port, if it has one, returns and leaves the context of
  the port's clock alone.\<close>

definition quiet_events :: "'x clock_clients \<Rightarrow> addr \<Rightarrow> nat option \<Rightarrow> bool" where
  "quiet_events k p cb \<longleftrightarrow> (\<forall>f e x. cb = Some f \<longrightarrow>
     (\<exists>s'. kc_event k f p e x = ret s' \<and> po_clock (port_of s' p) = po_clock (port_of x p)))"

lemma upd_env_id: "upd_env id s = s"
  by (simp add: upd_env_def)

lemma notify_returns:
  assumes "po_clock (port_of s p) = Some q" and "quiet_events k p (cp_event_cb q)"
  shows "\<exists>s'. notify_component k p e (ret (MMAL_SUCCESS, s)) = ret (MMAL_SUCCESS, s')
    \<and> po_clock (port_of s' p) = Some q"
proof (cases "cp_event_cb q")
  case (Some f)
  with assms obtain s' where "kc_event k f p e s = ret s'" "po_clock (port_of s' p) = Some q"
    unfolding quiet_events_def by metis
  with Some assms(1) show ?thesis by (auto simp: notify_component_def clock_field_def)
qed (use assms(1) in \<open>simp add: notify_component_def clock_field_def\<close>)

text \<open>C27. On a clock port that is not a reference and whose clock runs forwards at less than 128 times
  the normal speed and is not locked, the scale, the two thresholds, the reference flag and the reporting
  flag can be set, whether or not the component is notified of events, as long as its callback returns
  and leaves the clock alone; a parameter of the same size then reads back the very words that were set.\<close>

theorem clock_parameters_read_back:
  fixes s :: "'x pst"
  assumes "clock_at p a core q s" and "usable core" and "quiet_events k p (cp_event_cb q)" and "cp_is_reference q = 0"
    and "(pm_id pm, length (pm_data pm)) \<in> set kept_parameters"
  shows "\<exists>s'. mmal_port_clock_parameter_set c k p pm s = ret (MMAL_SUCCESS, s') \<and> reads_as c k p pm s'"
proof -
  note kept = assms(5) [unfolded kept_parameters_def, simplified]
  have q: "po_clock (port_of s p) = Some q" "\<not> cp_busy q" "cp_calls q = []" "cp_clock q = Some (a, core)"
    using assms(1) by (auto simp: clock_at_def)
  let ?d = "pm_data pm"
  let ?set = "\<lambda>s'. mmal_port_clock_parameter_set c k p pm s = ret (MMAL_SUCCESS, s')"
  obtain t e where te: "pp_time c (w_env (ps_env s)) = (t, e)" by force
  let ?u = "core\<lparr>ck_update_threshold_lower := fst (pair_of ?d), ck_update_threshold_upper := snd (pair_of ?d)\<rparr>"
  let ?v = "core\<lparr>ck_discont_threshold := fst (pair_of ?d), ck_discont_duration := snd (pair_of ?d)\<rparr>"
  have notified: "\<exists>s2. ?set s2 \<and> po_clock (port_of s2 p) = Some q1"
    if "mmal_port_clock_parameter_set c k p pm s = notify_component k p ev (ret (MMAL_SUCCESS, s1))"
      "po_clock (port_of s1 p) = Some q1" "cp_event_cb q1 = cp_event_cb q" for ev s1 q1
    using notify_returns [OF that(2), of k ev] that(1,3) assms(3) by auto
  have stepped: "\<exists>s2. ?set s2 \<and> clock_at p a core' (q\<lparr>cp_clock := Some (a, core')\<rparr>) s2"
    if "mmal_port_clock_parameter_set c k p pm s = notify_component k p ev (ret (MMAL_SUCCESS, set_core p a core' (upd_env h s)))"
    for ev core' h
    using notified [OF that, of "q\<lparr>cp_clock := Some (a, core')\<rparr>"] q by (auto simp: clock_at_def)
  consider "pm_id pm = MMAL_PARAMETER_CLOCK_REFERENCE" "length ?d = 1" | "pm_id pm = MMAL_PARAMETER_CLOCK_ENABLE_BUFFER_INFO" "length ?d = 1"
    | "pm_id pm = MMAL_PARAMETER_CLOCK_SCALE" "length ?d = 2" | "pm_id pm = MMAL_PARAMETER_CLOCK_UPDATE_THRESHOLD" "length ?d = 4"
    | "pm_id pm = MMAL_PARAMETER_CLOCK_DISCONT_THRESHOLD" "length ?d = 4" using kept by auto
  then show ?thesis
  proof cases
    case 1
    let ?f = "\<lambda>q. q\<lparr>cp_is_reference := ?d ! 0\<rparr>"
    have "mmal_port_clock_parameter_set c k p pm s = notify_component k p (set_event_of MMAL_CLOCK_EVENT_REFERENCE [?d ! 0])
        (ret (MMAL_SUCCESS, upd_clock p ?f s))"
      using 1 q by (simp add: clock_parameter_set_simps mmal_port_clock_reference_set_def clock_field_def)
    from notified [OF this, of "?f q"] q(1) obtain s2 where s2: "?set s2" "po_clock (port_of s2 p) = Some (?f q)" by auto
    from s2(2) have "reads_as c k p pm s2" by (rule reads_as_flag) (use 1 in simp_all)
    with s2(1) show ?thesis by blast
  next
    case 2
    let ?f = "\<lambda>q. q\<lparr>cp_buffer_info_reporting := ?d ! 0\<rparr>"
    have "?set (upd_clock p ?f s)" using 2 q(1) by (simp add: clock_parameter_set_simps clock_field_def)
    moreover have "reads_as c k p pm (upd_clock p ?f s)" by (rule reads_as_flag [where q = "?f q"]) (use 2 q(1) in simp_all)
    ultimately show ?thesis by blast
  next
    case 3
    have "mmal_port_clock_parameter_set c k p pm s = notify_component k p
        (set_event_of MMAL_CLOCK_EVENT_SCALE (rational_words (rational_of ?d)))
        (ret (MMAL_SUCCESS, set_core p a (scaled t (rational_of ?d) core) (upd_env (\<lambda>_. e) s)))"
      using 3 assms(4) q(1) by (simp add: clock_parameter_set_simps set_and_forward_def clock_field_def
          mmal_port_clock_scale_set_def scale_step_on [OF assms(1,2) te])
    from stepped [OF this] obtain s2 where "?set s2"
      "clock_at p a (scaled t (rational_of ?d) core) (q\<lparr>cp_clock := Some (a, scaled t (rational_of ?d) core)\<rparr>) s2" by blast
    moreover from this(2) have "reads_as c k p pm s2"
      by (rule reads_as_scale) (use 3 in \<open>simp_all add: scaled_def Let_def\<close>)
    ultimately show ?thesis by blast
  next
    case 4
    have "clock_update_on p (mmal_clock_update_threshold_set (pair_of ?d)) s = ret (MMAL_SUCCESS, set_core p a ?u s)"
      by (rule clock_update_runs [OF assms(1)]) (simp add: mmal_clock_update_threshold_set_def clock_in_def clock_core.defs mmal_clock.defs)
    then have "mmal_port_clock_parameter_set c k p pm s = notify_component k p
        (set_event_of MMAL_CLOCK_EVENT_UPDATE_THRESHOLD (pair_words (pair_of ?d))) (ret (MMAL_SUCCESS, set_core p a ?u (upd_env id s)))"
      using 4 assms(4) q(1) by (simp add: clock_parameter_set_simps set_and_forward_def clock_field_def
          mmal_port_clock_update_threshold_set_def upd_env_id)
    from stepped [OF this] obtain s2 where "?set s2" "clock_at p a ?u (q\<lparr>cp_clock := Some (a, ?u)\<rparr>) s2" by blast
    moreover from this(2) have "reads_as c k p pm s2" by (rule reads_as_threshold) (use 4 in simp_all)
    ultimately show ?thesis by blast
  next
    case 5
    have "clock_update_on p (mmal_clock_discont_threshold_set (pair_of ?d)) s = ret (MMAL_SUCCESS, set_core p a ?v s)"
      by (rule clock_update_runs [OF assms(1)]) (simp add: mmal_clock_discont_threshold_set_def clock_in_def clock_core.defs mmal_clock.defs)
    then have "mmal_port_clock_parameter_set c k p pm s = notify_component k p
        (set_event_of MMAL_CLOCK_EVENT_DISCONT_THRESHOLD (pair_words (pair_of ?d))) (ret (MMAL_SUCCESS, set_core p a ?v (upd_env id s)))"
      using 5 assms(4) q(1) by (simp add: clock_parameter_set_simps set_and_forward_def clock_field_def
          mmal_port_clock_discont_threshold_set_def upd_env_id)
    from stepped [OF this] obtain s2 where "?set s2" "clock_at p a ?v (q\<lparr>cp_clock := Some (a, ?v)\<rparr>) s2" by blast
    moreover from this(2) have "reads_as c k p pm s2" by (rule reads_as_threshold) (use 5 in simp_all)
    ultimately show ?thesis by blast
  qed
qed

theorem clock_parameters_read_back_witness:
  "\<forall>c k. \<exists>s'. mmal_port_clock_parameter_set c k 20 \<lparr>pm_id = MMAL_PARAMETER_CLOCK_UPDATE_THRESHOLD, pm_size = 24,
       pm_data = [1000, 0, 2000, 1]\<rparr> example_linked = ret (MMAL_SUCCESS, s')
     \<and> reads_as c k 20 \<lparr>pm_id = MMAL_PARAMETER_CLOCK_UPDATE_THRESHOLD, pm_size = 24, pm_data = [1000, 0, 2000, 1]\<rparr> s'"
  using clock_parameters_read_back [of 20 1 example_core "example_clock_port None 0" example_linked _
      "\<lparr>pm_id = MMAL_PARAMETER_CLOCK_UPDATE_THRESHOLD, pm_size = 24, pm_data = [1000, 0, 2000, 1]\<rparr>"]
  by (auto simp: example_core_usable clock_at_def example_linked_def example_linked_port_def example_clock_port_def
      zero_clock_port_def kept_parameters_def quiet_events_def)

end
