(* ===== verification/Mmal_Queue_Threads.thy ===== *)
theory Mmal_Queue_Threads
  imports Mmal_Queue
begin

text \<open>
  Threads that share one buffer queue. \<open>mmal_queue_wait\<close> is three atomic sections (wait on the
  semaphore, post it back, \<open>mmal_queue_get\<close>), between which other threads may run. The invariant
  says that a header is queued for every count of the semaphore and for every thread that has
  taken a count and not yet posted it back.
\<close>

datatype wait_pc = Idle | Taken | Posted

record 'a qsys =
  sys_q :: mmal_queue
  sys_m :: "'a mmal_mem_scheme"
  sys_pc :: "nat \<Rightarrow> wait_pc"

datatype qevent = EvPut addr | EvPutBack addr | EvSemWait nat | EvSemPost nat | EvGet nat ptr | EvWaitReturn nat ptr

inductive qstep :: "'a qsys \<Rightarrow> qevent \<Rightarrow> 'a qsys \<Rightarrow> bool" where
  put: "mmal_queue_put (Some (sys_q s), sys_m s) (Some b) = (Some q', m') \<Longrightarrow>
    (\<forall>xs. queue_list (sys_q s) (sys_m s) xs \<longrightarrow> b \<notin> set xs) \<Longrightarrow>
    qstep s (EvPut b) (s\<lparr>sys_q := q', sys_m := m'\<rparr>)"
| put_back: "mmal_queue_put_back (Some (sys_q s), sys_m s) (Some b) = (Some q', m') \<Longrightarrow>
    (\<forall>xs. queue_list (sys_q s) (sys_m s) xs \<longrightarrow> b \<notin> set xs) \<Longrightarrow>
    qstep s (EvPutBack b) (s\<lparr>sys_q := q', sys_m := m'\<rparr>)"
| get: "sys_pc s i = Idle \<Longrightarrow>
    mmal_queue_get (Some (sys_q s), sys_m s) = Some (r, (Some q', m')) \<Longrightarrow>
    qstep s (EvGet i r) (s\<lparr>sys_q := q', sys_m := m'\<rparr>)"
| wait_sem: "sys_pc s i = Idle \<Longrightarrow> sem_wait (q_sema (sys_q s)) = Some n \<Longrightarrow>
    qstep s (EvSemWait i)
      (s\<lparr>sys_q := (sys_q s)\<lparr>q_sema := n\<rparr>, sys_pc := (sys_pc s)(i := Taken)\<rparr>)"
| wait_post: "sys_pc s i = Taken \<Longrightarrow>
    qstep s (EvSemPost i)
      (s\<lparr>sys_q := (sys_q s)\<lparr>q_sema := sem_post (q_sema (sys_q s))\<rparr>,
         sys_pc := (sys_pc s)(i := Posted)\<rparr>)"
| wait_get: "sys_pc s i = Posted \<Longrightarrow>
    mmal_queue_get (Some (sys_q s), sys_m s) = Some (r, (Some q', m')) \<Longrightarrow>
    qstep s (EvWaitReturn i r)
      (s\<lparr>sys_q := q', sys_m := m', sys_pc := (sys_pc s)(i := Idle)\<rparr>)"

inductive_cases qstep_wait_returnE: "qstep s (EvWaitReturn i r) t"

definition qsys_init :: "'a mmal_mem_scheme \<Rightarrow> 'a qsys" where
  "qsys_init m = \<lparr>sys_q = \<lparr>q_length = 0, q_first = None, q_last = SlotFirst, q_sema = 0, q_block = None\<rparr>,
     sys_m = m, sys_pc = (\<lambda>_. Idle)\<rparr>"

inductive qreach :: "'a qsys \<Rightarrow> qevent list \<Rightarrow> bool" where
  init: "qreach (qsys_init m) []"
| step: "qreach s es \<Longrightarrow> qstep s e t \<Longrightarrow> qreach t (es @ [e])"

definition takers :: "'a qsys \<Rightarrow> nat set" where
  "takers s = {i. sys_pc s i = Taken}"

definition qsys_inv :: "'a qsys \<Rightarrow> bool" where
  "qsys_inv s \<longleftrightarrow> (\<exists>xs. queue_list (sys_q s) (sys_m s) xs \<and> finite (takers s)
     \<and> q_sema (sys_q s) + card (takers s) = length xs)"

lemma queue_list_sema [simp]: "queue_list (q\<lparr>q_sema := n\<rparr>) m xs = queue_list q m xs"
  by (simp add: queue_list_def)

lemma takers_upd [simp]:
  "takers (s\<lparr>sys_q := q, sys_m := m\<rparr>) = takers s"
  by (simp add: takers_def)

lemma takers_take:
  "sys_pc s i = Idle \<Longrightarrow> takers (s\<lparr>sys_q := q, sys_pc := (sys_pc s)(i := Taken)\<rparr>) = insert i (takers s)
   \<and> i \<notin> takers s"
  by (auto simp: takers_def)

lemma takers_post:
  "sys_pc s i = Taken \<Longrightarrow> takers (s\<lparr>sys_q := q, sys_pc := (sys_pc s)(i := Posted)\<rparr>) = takers s - {i}
   \<and> i \<in> takers s"
  by (auto simp: takers_def)

lemma takers_return:
  "sys_pc s i = Posted \<Longrightarrow>
   takers (s\<lparr>sys_q := q, sys_m := m, sys_pc := (sys_pc s)(i := Idle)\<rparr>) = takers s"
  by (auto simp: takers_def)

lemma get_keeps_balance:
  assumes "queue_list q m xs" and "q_sema q + k = length xs"
    and "mmal_queue_get (Some q, m) = Some (r, (Some q', m'))"
  shows "\<exists>ys. queue_list q' m' ys \<and> q_sema q' + k = length ys"
proof (cases xs)
  case Nil
  with assms queue_list_get_Nil [of q m] show ?thesis by auto
next
  case (Cons b ys)
  with assms queue_list_get_Cons [of q m b ys] show ?thesis by auto
qed

lemma qstep_inv [inv_intros]: "qstep s e t \<Longrightarrow> qsys_inv s \<Longrightarrow> qsys_inv t"
proof (induction rule: qstep.induct)
  case (put s b q' m')
  then obtain xs where xs: "queue_list (sys_q s) (sys_m s) xs" "finite (takers s)"
    "q_sema (sys_q s) + card (takers s) = length xs" by (auto simp: qsys_inv_def)
  with put queue_list_put [OF xs(1), of b] show ?case
    by (auto simp: qsys_inv_def intro!: exI [of _ "xs @ [b]"])
next
  case (put_back s b q' m')
  then obtain xs where xs: "queue_list (sys_q s) (sys_m s) xs" "finite (takers s)"
    "q_sema (sys_q s) + card (takers s) = length xs" by (auto simp: qsys_inv_def)
  with put_back queue_list_put_back [OF xs(1), of b] show ?case
    by (auto simp: qsys_inv_def intro!: exI [of _ "b # xs"])
next
  case (get s i r q' m')
  then show ?case using get_keeps_balance by (fastforce simp: qsys_inv_def)
next
  case (wait_sem s i n)
  then obtain xs where xs: "queue_list (sys_q s) (sys_m s) xs" "finite (takers s)"
    "q_sema (sys_q s) + card (takers s) = length xs" by (auto simp: qsys_inv_def)
  with wait_sem takers_take [of s i] show ?case
    by (auto simp: qsys_inv_def sem_wait_Some_iff intro!: exI [of _ xs])
next
  case (wait_post s i)
  then obtain xs where xs: "queue_list (sys_q s) (sys_m s) xs" "finite (takers s)"
    "q_sema (sys_q s) + card (takers s) = length xs" by (auto simp: qsys_inv_def)
  moreover have "card (takers s) > 0"
    using takers_post [OF wait_post.hyps] xs(2) by (auto simp: card_gt_0_iff)
  ultimately show ?case using takers_post [OF wait_post.hyps]
    by (auto simp: qsys_inv_def sem_post_def intro!: exI [of _ xs])
next
  case (wait_get s i r q' m')
  then obtain xs where xs: "queue_list (sys_q s) (sys_m s) xs" "finite (takers s)"
    "q_sema (sys_q s) + card (takers s) = length xs" by (auto simp: qsys_inv_def)
  from get_keeps_balance [OF xs(1,3) wait_get.hyps(2)] takers_return [OF wait_get.hyps(1)] xs(2)
  show ?case by (auto simp: qsys_inv_def)
qed

lemma qreach_inv: "qreach s es \<Longrightarrow> qsys_inv s"
proof (induction rule: qreach.induct)
  case (init m)
  have "queue_list (sys_q (qsys_init m)) (sys_m (qsys_init m)) [] \<and> takers (qsys_init m) = {}"
    by (simp add: qsys_init_def queue_list_def takers_def)
  then show ?case by (auto simp: qsys_inv_def qsys_init_def intro!: exI [of _ "[]"])
qed (rule qstep_inv)

text \<open>A blocked \<open>mmal_queue_get\<close> is waiting for a thread that is about to post.\<close>

lemma blocked_get_has_taker:
  assumes "qreach s es" and "mmal_queue_get (Some (sys_q s), sys_m s) = None"
  shows "\<exists>i. sys_pc s i = Taken"
proof -
  obtain xs where xs: "queue_list (sys_q s) (sys_m s) xs" "finite (takers s)"
    "q_sema (sys_q s) + card (takers s) = length xs"
    using qreach_inv [OF assms(1)] by (auto simp: qsys_inv_def)
  then have "q_sema (sys_q s) = 0" and "xs \<noteq> []"
    using assms(2) queue_list_get_Nil queue_list_get_Cons by (cases xs; fastforce)+
  with xs have "takers s \<noteq> {}" by auto
  then show ?thesis by (auto simp: takers_def)
qed

text \<open>
  Two threads that wait on a queue holding one header: both see the count, one takes the header,
  and the other returns a null pointer although the queue never timed out.
\<close>

lemma two_waiters_run:
  fixes m :: mmal_mem
  shows "\<exists>s :: unit qsys. qreach s [EvPut 7, EvSemWait 0, EvSemPost 0, EvSemWait 1, EvSemPost 1,
           EvWaitReturn 0 (Some 7), EvWaitReturn 1 None]"
proof -
  let ?s0 = "qsys_init m"
  obtain q1 m1 where p: "mmal_queue_put (Some (sys_q ?s0), sys_m ?s0) (Some 7) = (Some q1, m1)"
    and l1: "queue_list q1 m1 [7]" and n1: "q_sema q1 = 1"
    using queue_list_put [of "sys_q ?s0" "sys_m ?s0" "[]" 7]
    by (auto simp: qsys_init_def queue_list_def)
  let ?s1 = "?s0\<lparr>sys_q := q1, sys_m := m1\<rparr>"
  have "queue_list (sys_q ?s0) (sys_m ?s0) xs \<longrightarrow> 7 \<notin> set xs" for xs
    by (cases xs) (auto simp: qsys_init_def queue_list_def)
  then have r1: "qreach ?s1 [EvPut 7]"
    using qreach.step [OF qreach.init qstep.put [OF p]] by simp
  let ?q0 = "q1\<lparr>q_sema := 0\<rparr>"
  let ?q1 = "q1\<lparr>q_sema := 1\<rparr>"
  define S where "S q a b = \<lparr>sys_q = q, sys_m = m1, sys_pc = (\<lambda>_. Idle)(0 := a, 1 := b)\<rparr>"
    for q :: mmal_queue and a b :: wait_pc
  have s1: "?s1 = S ?q1 Idle Idle"
    using n1 by (auto simp: S_def qsys_init_def)
  have e1: "qstep (S ?q1 Idle Idle) (EvSemWait 0) (S ?q0 Taken Idle)"
    using qstep.wait_sem [of "S ?q1 Idle Idle" 0 0] by (simp add: S_def fun_upd_twist)
  have e2: "qstep (S ?q0 Taken Idle) (EvSemPost 0) (S ?q1 Posted Idle)"
    using qstep.wait_post [of "S ?q0 Taken Idle" 0] by (simp add: S_def sem_post_def fun_upd_twist)
  have e3: "qstep (S ?q1 Posted Idle) (EvSemWait 1) (S ?q0 Posted Taken)"
    using qstep.wait_sem [of "S ?q1 Posted Idle" 1 0] by (simp add: S_def)
  have e4: "qstep (S ?q0 Posted Taken) (EvSemPost 1) (S ?q1 Posted Posted)"
    using qstep.wait_post [of "S ?q0 Posted Taken" 1] by (simp add: S_def sem_post_def)
  have l: "queue_list ?q1 m1 [7]" using l1 by simp
  obtain q2 where g1: "mmal_queue_get (Some ?q1, m1) = Some (Some 7, (Some q2, m1))"
    and l2: "queue_list q2 m1 []"
    using queue_list_get_Cons [OF l] by auto
  have e5: "qstep (S ?q1 Posted Posted) (EvWaitReturn 0 (Some 7)) (S q2 Idle Posted)"
    using qstep.wait_get [of "S ?q1 Posted Posted" 0 "Some 7" q2 m1] g1
    by (simp add: S_def fun_upd_twist)
  have e6: "qstep (S q2 Idle Posted) (EvWaitReturn 1 None) (S q2 Idle Idle)"
    using qstep.wait_get [of "S q2 Idle Posted" 1 None q2 m1] queue_list_get_Nil [OF l2]
    by (simp add: S_def)
  have "qreach (S ?q1 Idle Idle) [EvPut 7]" using r1 unfolding s1 .
  note r5 = qreach.step [OF qreach.step [OF qreach.step [OF qreach.step
    [OF qreach.step [OF this e1] e2] e3] e4] e5]
  from qreach.step [OF r5 e6] show ?thesis by auto
qed

section \<open>Properties\<close>

text \<open>Threads sharing a queue: in every reachable state, a thread that would block on the
  semaphore inside the critical section of \<open>mmal_queue_get\<close> does so only while some other
  thread is between the wait and the post of \<open>mmal_queue_wait\<close>, which does not need the lock;
  so the critical section is left again.\<close>

lemma queue_get_blocks_only_behind_taker:
  assumes "qreach s es" and "mmal_queue_get (Some (sys_q s), sys_m s) = None"
  shows "\<exists>i t. sys_pc s i = Taken \<and> qstep s (EvSemPost i) t
    \<and> mmal_queue_get (Some (sys_q t), sys_m t) \<noteq> None"
proof -
  obtain i where i: "sys_pc s i = Taken" using blocked_get_has_taker [OF assms] by blast
  let ?t = "s\<lparr>sys_q := (sys_q s)\<lparr>q_sema := sem_post (q_sema (sys_q s))\<rparr>,
         sys_pc := (sys_pc s)(i := Posted)\<rparr>"
  have "mmal_queue_get (Some (sys_q ?t), sys_m ?t) \<noteq> None"
    by (auto simp: sem_post_def Let_def split: option.splits)
  with i qstep.wait_post [OF i] show ?thesis by blast
qed

lemma queue_get_blocks_only_behind_taker_witness:
  "\<exists>s :: unit qsys. \<exists>es i. qreach s es \<and> mmal_queue_get (Some (sys_q s), sys_m s) = None
     \<and> sys_pc s i = Taken"
proof -
  let ?m = "\<lparr>bufs = (\<lambda>_. zero_header)\<rparr>"
  let ?s0 = "qsys_init ?m"
  obtain q1 m1 where p: "mmal_queue_put (Some (sys_q ?s0), sys_m ?s0) (Some 7) = (Some q1, m1)"
    and l1: "queue_list q1 m1 [7]" and n1: "q_sema q1 = 1"
    using queue_list_put [of "sys_q ?s0" "sys_m ?s0" "[]" 7]
    by (auto simp: qsys_init_def queue_list_def)
  let ?s1 = "?s0\<lparr>sys_q := q1, sys_m := m1\<rparr>"
  have "queue_list (sys_q ?s0) (sys_m ?s0) xs \<longrightarrow> 7 \<notin> set xs" for xs
    by (cases xs) (auto simp: qsys_init_def queue_list_def)
  then have r1: "qreach ?s1 [EvPut 7]"
    using qreach.step [OF qreach.init qstep.put [OF p]] by simp
  let ?s2 = "?s1\<lparr>sys_q := q1\<lparr>q_sema := 0\<rparr>, sys_pc := (sys_pc ?s1)(0 := Taken)\<rparr>"
  have "qstep ?s1 (EvSemWait 0) ?s2"
    using qstep.wait_sem [of ?s1 0 0] n1 by (simp add: qsys_init_def)
  then have r2: "qreach ?s2 ([EvPut 7] @ [EvSemWait 0])" by (rule qreach.step [OF r1])
  have b: "mmal_queue_get (Some (sys_q ?s2), sys_m ?s2) = None"
    using l1 by (simp add: queue_list_def)
  obtain i where "sys_pc ?s2 i = Taken"
    using queue_get_blocks_only_behind_taker [OF r2 b] by blast
  with r2 b show ?thesis by blast
qed

text \<open>\<open>mmal_queue_wait\<close> can return a null pointer without any timeout: with one queued header
  and two waiting threads there is a run in which both pass the semaphore, the first takes the
  header and the second returns null.\<close>

theorem two_waiters_one_null:
  "\<exists>s :: unit qsys. qreach s [EvPut 7, EvSemWait 0, EvSemPost 0, EvSemWait 1, EvSemPost 1,
     EvWaitReturn 0 (Some 7), EvWaitReturn 1 None]"
  by (rule two_waiters_run)

end
