(* ===== verification/Mmal_Scheduler.thy ===== *)
theory Mmal_Scheduler
  imports Mmal_Passthrough Mmal_Port_Clock
begin

text \<open>
  The scheduler component (\<^verbatim>\<open>components/scheduler.c\<close>): a header of the input port is moved to the output
  port, by reference or by copying the payload, and leaves when the clock of the component's clock port
  has reached its time stamp.
\<close>

section \<open>Events\<close>

definition SCHEDULER :: nat where "SCHEDULER = 7"
definition SCHEDULER_OUTPUT_FORMAT :: nat where "SCHEDULER_OUTPUT_FORMAT = 8"

definition scheduler_event_process :: "'x port_ops \<Rightarrow> addr \<Rightarrow> addr \<Rightarrow> 'x status_op" where
  "scheduler_event_process c p buffer s =
     andthen
       (if bh_cmd (bufs s buffer) = MMAL_EVENT_FORMAT_CHANGED then
          andthen (mmal_event_format_changed_get c (Some buffer) s) (\<lambda>(event, s1).
            case event of
              None \<Rightarrow> ret (MMAL_EINVAL, s1)
            | Some d \<Rightarrow>
                (case (po_format (port_of s1 p), fc_format (as_format_event (w_event (ps_env s1) d))) of
                   (Some dst, Some src) \<Rightarrow>
                     or_else (world_format_full_copy c dst src s1)
                       (mmal_port_format_commit c (Some p)) (\<lambda>st s2. ret (st, s2))
                 | _ \<Rightarrow> Some Faults))
        else mmal_event_forward c buffer
               (Some (co_output (comp_of s (po_component (port_of s p))) ! unat (po_index (port_of s p)))) s)
       (\<lambda>(status, s3). andthen (return_empty c p buffer s3) (\<lambda>s4. ret (status, s4)))"

text \<open>Invoked by the clock when the time of the header in \<open>cb_data\<close> has come.\<close>

definition scheduler_component_clock_port_request_cb ::
  "'x port_ops \<Rightarrow> addr \<Rightarrow> int \<Rightarrow> addr \<Rightarrow> 'x pst \<Rightarrow> 'x pst outcome" where
  "scheduler_component_clock_port_request_cb c p media_time buffer s =
     (let a = po_component (port_of s p);
          port_in = co_input (comp_of s a) ! 0; port_out = co_output (comp_of s a) ! 0
      in if bh_cmd (bufs s buffer) \<noteq> 0
         then andthen (scheduler_event_process c port_in buffer s) (\<lambda>(_, s1). ret s1)
         else mmal_port_buffer_header_callback c port_out buffer s)"

section \<open>Processing\<close>

text \<open>\<open>if (in) mmal_queue_put_back(queue_in, in); if (out) mmal_queue_put_back(queue_out, out);\<close>\<close>

definition put_back_opt :: "addr \<Rightarrow> ptr \<Rightarrow> 'x pst \<Rightarrow> 'x pst" where
  "put_back_opt p b s = (case b of None \<Rightarrow> s | Some b \<Rightarrow> module_queue_put_back p b s)"

definition both_waiting :: "addr \<Rightarrow> addr \<Rightarrow> 'x pst \<Rightarrow> bool" where
  "both_waiting port_in port_out s \<longleftrightarrow>
     mmal_queue_length (po_module_queue (port_of s port_in), s) \<noteq> 0
     \<and> mmal_queue_length (po_module_queue (port_of s port_out), s) \<noteq> 0"

definition scheduler_end :: "addr \<Rightarrow> addr \<Rightarrow> ptr \<Rightarrow> ptr \<Rightarrow> 'x pst \<Rightarrow> (bool \<times> 'x pst) outcome" where
  "scheduler_end port_in port_out i out s =
     (let s1 = put_back_opt port_out out (put_back_opt port_in i s)
      in ret (both_waiting port_in port_out s1, s1))"

text \<open>A header with a command: it is scheduled after the last time stamp seen.\<close>

definition scheduler_command :: "'x port_ops \<Rightarrow> 'x clock_clients \<Rightarrow> addr \<Rightarrow> addr \<Rightarrow> addr \<Rightarrow> 'x pst \<Rightarrow> (bool \<times> 'x pst) outcome" where
  "scheduler_command c k clock port_in i s =
     andthen (as_i64 (po_last_ts (port_of s port_in) + 1000)) (\<lambda>pts.
       let s1 = upd_buf i (\<lambda>B. B\<lparr>bh_pts := pts\<rparr>) s in
       andthen (if pts \<noteq> MMAL_TIME_UNKNOWN then mmal_port_clock_request_add c k clock pts SCHEDULER i s1
                else ret (MMAL_EINVAL, s1)) (\<lambda>(cb_status, s2).
         if cb_status \<noteq> MMAL_SUCCESS
         then andthen (scheduler_event_process c port_in i s2) (\<lambda>(_, s3). ret (True, s3))
         else ret (True, s2)))"

text \<open>The request for the output header; a request that the threshold drops is not an error.\<close>

definition scheduler_request ::
  "'x port_ops \<Rightarrow> 'x clock_clients \<Rightarrow> addr \<Rightarrow> addr \<Rightarrow> addr \<Rightarrow> addr \<Rightarrow> addr \<Rightarrow> 'x pst \<Rightarrow> (bool \<times> 'x pst) outcome" where
  "scheduler_request c k a clock port_in port_out out s =
     (let pts = bh_pts (bufs s out); s1 = upd_port port_in (\<lambda>P. P\<lparr>po_last_ts := pts\<rparr>) s in
      andthen (mmal_port_clock_request_add c k clock pts SCHEDULER out s1) (\<lambda>(cb_status, s2).
        if cb_status = MMAL_SUCCESS then scheduler_end port_in port_out None None s2
        else andthen (return_empty c port_out out s2) (\<lambda>s3.
          scheduler_end port_in port_out None None
            (if cb_status \<noteq> MMAL_ECORRUPT then set_status a cb_status s3 else s3))))"

text \<open>Moving the input to the output header: the status, or none when the output is too small.\<close>

definition scheduler_move :: "addr \<Rightarrow> addr \<Rightarrow> addr \<Rightarrow> 'x pst \<Rightarrow> (mmal_status option \<times> 'x pst) outcome" where
  "scheduler_move port_out i out s =
     (if po_capabilities (port_of s port_out) AND CAPABILITY_PASSTHROUGH \<noteq> 0
      then (case mmal_buffer_header_replicate (Some out) (Some i) s of (st, s1) \<Rightarrow> ret (Some st, s1))
      else if bh_alloc_size (bufs s out) < bh_length (bufs s i) then ret (None, s)
      else andthen (copy_bytes (bh_data (bufs s out)) (bh_data (bufs s i))
                      (unat (bh_offset (bufs s i))) (unat (bh_length (bufs s i))) s) (\<lambda>s1.
           ret (Some MMAL_SUCCESS, upd_buf out (copy_header (bufs s1 i)) s1)))"

text \<open>True: process again.\<close>

definition scheduler_component_process_buffers ::
  "'x port_ops \<Rightarrow> 'x clock_clients \<Rightarrow> addr \<Rightarrow> 'x pst \<Rightarrow> (bool \<times> 'x pst) outcome" where
  "scheduler_component_process_buffers c k a s =
     (let port_in = co_input (comp_of s a) ! 0; port_out = co_output (comp_of s a) ! 0;
          clock = co_clock (comp_of s a) ! 0 in
      if co_status (comp_of s a) \<noteq> MMAL_SUCCESS then ret (False, s)
      else andthen (module_queue_get port_in s) (\<lambda>(i, s1).
        case i of
          Some b \<Rightarrow>
            if bh_cmd (bufs s1 b) \<noteq> 0 then scheduler_command c k clock port_in b s1
            else andthen (module_queue_get port_out s1) (\<lambda>(out, s2).
              case out of
                None \<Rightarrow> scheduler_end port_in port_out i None s2
              | Some ob \<Rightarrow>
                  andthen (scheduler_move port_out b ob s2) (\<lambda>(moved, s3).
                  case moved of
                    None \<Rightarrow> andthen (mmal_event_error_send c (Some a) MMAL_EINVAL (set_status a MMAL_EINVAL s3))
                              (\<lambda>(_, s4). scheduler_end port_in port_out i out s4)
                  | Some st \<Rightarrow>
                      let s4 = (if po_capabilities (port_of s2 port_out) AND CAPABILITY_PASSTHROUGH \<noteq> 0
                                then set_status a st s3 else s3) in
                      andthen (return_empty c port_in b s4) (\<lambda>s5.
                        if co_status (comp_of s5 a) \<noteq> MMAL_SUCCESS then scheduler_end port_in port_out None out s5
                        else scheduler_request c k a clock port_in port_out ob s5)))
        | None \<Rightarrow>
            andthen (module_queue_get port_out s1) (\<lambda>(out, s2). scheduler_end port_in port_out None out s2)))"

partial_function (option) scheduler_component_action ::
  "'x port_ops \<Rightarrow> 'x clock_clients \<Rightarrow> addr \<Rightarrow> 'x pst \<Rightarrow> 'x pst outcome" where
  "scheduler_component_action c k a s =
     andthen (scheduler_component_process_buffers c k a s) (\<lambda>r.
       if fst r then scheduler_component_action c k a (snd r) else ret (snd r))"

section \<open>The functions of the ports\<close>

definition scheduler_port_enable :: "addr \<Rightarrow> nat option \<Rightarrow> 'x status_op" where
  "scheduler_port_enable p cb s = ret (MMAL_SUCCESS, s)"

definition scheduler_clock :: "addr \<Rightarrow> 'x pst \<Rightarrow> addr" where
  "scheduler_clock p s = co_clock (comp_of s (po_component (port_of s p))) ! 0"

definition scheduler_port_flush :: "'x port_ops \<Rightarrow> 'x clock_clients \<Rightarrow> addr \<Rightarrow> 'x status_op" where
  "scheduler_port_flush c k p s =
     andthen (mmal_port_clock_request_flush c k (scheduler_clock p s) s) (\<lambda>(_, s1).
     andthen (flush_module_loop (mmal_port_buffer_header_callback c p) p s1) (\<lambda>s2.
     ret (MMAL_SUCCESS, upd_port p (\<lambda>P. P\<lparr>po_last_ts := MMAL_TIME_UNKNOWN\<rparr>) s2)))"

definition scheduler_port_disable :: "'x port_ops \<Rightarrow> 'x clock_clients \<Rightarrow> addr \<Rightarrow> 'x status_op" where
  "scheduler_port_disable c k p s = scheduler_port_flush c k p s"

definition scheduler_port_send :: "'x port_ops \<Rightarrow> 'x clock_clients \<Rightarrow> addr \<Rightarrow> addr \<Rightarrow> 'x status_op" where
  "scheduler_port_send c k p buffer s =
     andthen (if is_input p s \<and> bh_cmd (bufs s buffer) = 0
              then let (now, s1) = vcos_getmicrosecs c s
                   in mmal_port_clock_input_buffer_info c k (scheduler_clock p s) (bh_pts (bufs s buffer), now) s1
              else ret s) (\<lambda>s2.
       ret (mmal_component_action_trigger (po_component (port_of s2 p)) (module_queue_put p buffer s2)))"

text \<open>The format-changed event of the output port.\<close>

definition scheduler_send_format_event :: "'x port_ops \<Rightarrow> addr \<Rightarrow> addr \<Rightarrow> 'x status_op" where
  "scheduler_send_format_event c inp out s =
     andthen (mmal_port_event_get c (Some out) MMAL_EVENT_FORMAT_CHANGED s) (\<lambda>(st, buffer, s1).
       if st \<noteq> MMAL_SUCCESS then ret (st, s1)
       else case buffer of
         None \<Rightarrow> Some Faults
       | Some b \<Rightarrow>
           andthen (mmal_event_format_changed_get c (Some b) s1) (\<lambda>(event, s2).
             case event of
               None \<Rightarrow> andthen (header_release c b s2) (\<lambda>s3. ret (MMAL_EINVAL, s3))
             | Some d \<Rightarrow>
                 let e = as_format_event (w_event (ps_env s2) d); I = port_of s2 inp;
                     s3 = (case (fc_format e, po_format I) of
                             (Some f, Some g) \<Rightarrow> on_fmt (mmal_format_copy f g (w_fmt (ps_env s2))) s2 | _ \<Rightarrow> s2);
                     s4 = set_event d (EventFormat (e\<lparr>fc_buffer_num_min := po_buffer_num_min I,
                            fc_buffer_size_min := po_buffer_size_min I,
                            fc_buffer_num_recommended := po_buffer_num_recommended I,
                            fc_buffer_size_recommended := po_buffer_size_recommended I\<rparr>)) s3;
                     target = co_output (comp_of s4 (po_component I)) ! unat (po_index I)
                 in andthen (mmal_port_event_send c target b s4) (\<lambda>s5. ret (MMAL_SUCCESS, s5))))"

definition scheduler_input_port_format_commit :: "'x port_ops \<Rightarrow> addr \<Rightarrow> 'x status_op" where
  "scheduler_input_port_format_commit c inp s =
     (let out = co_output (comp_of s (po_component (port_of s inp))) ! 0 in
      if \<not> po_is_enabled (port_of s out)
      then (case (po_format (port_of s out), po_format (port_of s inp)) of
              (Some dst, Some src) \<Rightarrow> world_format_full_copy c dst src s | _ \<Rightarrow> Some Faults)
      else scheduler_send_format_event c inp out s)"

text \<open>The comparison of the two formats only decides whether a line is logged.\<close>

definition scheduler_output_port_format_commit :: "addr \<Rightarrow> 'x status_op" where
  "scheduler_output_port_format_commit out s = ret (MMAL_SUCCESS, s)"

text \<open>Both of \<open>in\<close> and \<open>out\<close> are the input port, as in the code.\<close>

definition scheduler_port_parameter_set :: "addr \<Rightarrow> parameter \<Rightarrow> 'x status_op" where
  "scheduler_port_parameter_set p param s =
     (let P = port_of s p; C = comp_of s (po_component P); d = pm_data param;
          inp = co_input C ! unat (po_index P); out = co_input C ! unat (po_index P) in
      if pm_id param = MMAL_PARAMETER_BUFFER_REQUIREMENTS then
        let ws = [max (po_buffer_num_min P) (d ! 0), max (po_buffer_num_recommended P) (d ! 3),
                  max (po_buffer_size_min P) (d ! 1), max (po_buffer_size_recommended P) (d ! 4)]
        in ret (MMAL_SUCCESS, upd_port out (require ws) (upd_port inp (require ws) s))
      else ret (MMAL_ENOSYS, s))"

section \<open>Creation and destruction\<close>

definition scheduler_component_destroy :: "'x port_ops \<Rightarrow> 'x clock_clients \<Rightarrow> addr \<Rightarrow> 'x status_op" where
  "scheduler_component_destroy c k a s =
     andthen (free_ports_of c (co_input_base (comp_of s a)) (co_input (comp_of s a))
                (destroy_module_queues (co_input (comp_of s a)) s)) (\<lambda>s1.
     andthen (free_ports_of c (co_output_base (comp_of s1 a)) (co_output (comp_of s1 a))
                (destroy_module_queues (co_output (comp_of s1 a)) s1)) (\<lambda>s2.
     andthen (if co_clock (comp_of s2 a) = [] then ret s2
              else case co_clock_base (comp_of s2 a) of
                None \<Rightarrow> Some Faults
              | Some base \<Rightarrow> mmal_ports_clock_free c k base (co_clock (comp_of s2 a)) s2) (\<lambda>s3.
     ret (MMAL_SUCCESS, free_opt c (co_module (comp_of s3 a)) s3))))"

definition scheduler_port :: "nat \<Rightarrow> u32 \<Rightarrow> mmal_port \<Rightarrow> mmal_port" where
  "scheduler_port fmt caps P = P\<lparr>po_pf_enable := Some SCHEDULER, po_pf_disable := Some SCHEDULER,
     po_pf_flush := Some SCHEDULER, po_pf_send := Some SCHEDULER, po_pf_set_format := Some fmt,
     po_pf_parameter_set := Some SCHEDULER, po_buffer_num_min := 1, po_buffer_num_recommended := 0,
     po_capabilities := caps\<rparr>"

fun contains_string :: "string \<Rightarrow> string \<Rightarrow> bool" where
  "contains_string w [] = (w = [])"
| "contains_string w (x # xs) = (take (length w) (x # xs) = w \<or> contains_string w xs)"

definition create_scheduler_error :: "'x port_ops \<Rightarrow> 'x clock_clients \<Rightarrow> addr \<Rightarrow> mmal_status \<Rightarrow> 'x status_op" where
  "create_scheduler_error c k a status s =
     andthen (scheduler_component_destroy c k a s) (\<lambda>(_, s1). ret (status, s1))"

definition create_scheduler_clock :: "'x port_ops \<Rightarrow> 'x clock_clients \<Rightarrow> addr \<Rightarrow> 'x status_op" where
  "create_scheduler_clock c k a s =
     andthen (mmal_ports_clock_alloc c k a 1 0 None s) (\<lambda>(ports, s1).
       case ports of
         None \<Rightarrow> create_scheduler_error c k a MMAL_ENOMEM s1
       | Some (base, ps) \<Rightarrow>
           (case mmal_component_action_register c a SCHEDULER
                   (upd_comp a (\<lambda>C. C\<lparr>co_clock_base := Some base, co_clock := ps\<rparr>) s1) of
              (st, s2) \<Rightarrow> if st \<noteq> MMAL_SUCCESS then create_scheduler_error c k a st s2
                           else ret (MMAL_SUCCESS, s2)))"

definition create_scheduler_output :: "'x port_ops \<Rightarrow> 'x clock_clients \<Rightarrow> string \<Rightarrow> addr \<Rightarrow> 'x status_op" where
  "create_scheduler_output c k name a s =
     andthen (mmal_ports_alloc c a 1 MMAL_PORT_TYPE_OUTPUT (sizeof_port_module (pp_sizes c)) s) (\<lambda>(ports, s1).
       case ports of
         None \<Rightarrow> create_scheduler_error c k a MMAL_ENOMEM s1
       | Some (base, ps) \<Rightarrow>
           (case setup_port c (scheduler_port SCHEDULER_OUTPUT_FORMAT
                     (if contains_string ''.copy'' name then 0 else CAPABILITY_PASSTHROUGH)) (ps ! 0)
                   (upd_comp a (\<lambda>C. C\<lparr>co_output_base := Some base, co_output := ps\<rparr>) s1) of
              (False, s2) \<Rightarrow> create_scheduler_error c k a MMAL_ENOMEM s2
            | (True, s2) \<Rightarrow> create_scheduler_clock c k a s2))"

definition mmal_component_create_scheduler ::
  "'x port_ops \<Rightarrow> 'x clock_clients \<Rightarrow> string \<Rightarrow> addr \<Rightarrow> 'x status_op" where
  "mmal_component_create_scheduler c k name a s =
     (let (modul, s1) = vcos_malloc c (sizeof_module (pp_sizes c)) s;
          s2 = upd_comp a (\<lambda>C. C\<lparr>co_module := modul\<rparr>) s1
      in if modul = None then ret (MMAL_ENOMEM, s2)
         else andthen (mmal_ports_alloc c a 1 MMAL_PORT_TYPE_INPUT (sizeof_port_module (pp_sizes c))
                (upd_comp a (\<lambda>C. C\<lparr>co_status := MMAL_SUCCESS, co_pf_destroy := Some SCHEDULER\<rparr>) s2)) (\<lambda>(ports, s3).
           case ports of
             None \<Rightarrow> create_scheduler_error c k a MMAL_ENOMEM s3
           | Some (base, ps) \<Rightarrow>
               (case setup_port c (scheduler_port SCHEDULER CAPABILITY_SUPPORTS_EVENT_FORMAT_CHANGE) (ps ! 0)
                       (upd_comp a (\<lambda>C. C\<lparr>co_input_base := Some base, co_input := ps\<rparr>) s3) of
                  (False, s4) \<Rightarrow> create_scheduler_error c k a MMAL_ENOMEM s4
                | (True, s4) \<Rightarrow>
                    create_scheduler_output c k name a
                      (upd_port (ps ! 0) (\<lambda>P. P\<lparr>po_last_ts := MMAL_TIME_UNKNOWN\<rparr>) s4))))"

end
