(* ===== verification/Raspicam_Types.thy ===== *)
theory Raspicam_Types
  imports Mmal_World
begin

text \<open>
  The settings of the camera library (\<^verbatim>\<open>src/raspicamtypes.h\<close>, \<^verbatim>\<open>src/private/private_types.h\<close>), the
  enumerations of the camera's parameters (\<^verbatim>\<open>mmal_parameters_camera.h\<close>), and the conversions between the
  two that \<^verbatim>\<open>src/private/private_impl.cpp\<close> and \<^verbatim>\<open>src/private_still/private_still_impl.cpp\<close> have in common.
\<close>

section \<open>Enumerations of the library\<close>

datatype raspicam_format =
    RASPICAM_FORMAT_YUV420 | RASPICAM_FORMAT_GRAY | RASPICAM_FORMAT_BGR | RASPICAM_FORMAT_RGB
  | RASPICAM_FORMAT_IGNORE

datatype raspicam_exposure =
    RASPICAM_EXPOSURE_OFF | RASPICAM_EXPOSURE_AUTO | RASPICAM_EXPOSURE_NIGHT
  | RASPICAM_EXPOSURE_NIGHTPREVIEW | RASPICAM_EXPOSURE_BACKLIGHT | RASPICAM_EXPOSURE_SPOTLIGHT
  | RASPICAM_EXPOSURE_SPORTS | RASPICAM_EXPOSURE_SNOW | RASPICAM_EXPOSURE_BEACH
  | RASPICAM_EXPOSURE_VERYLONG | RASPICAM_EXPOSURE_FIXEDFPS | RASPICAM_EXPOSURE_ANTISHAKE
  | RASPICAM_EXPOSURE_FIREWORKS

datatype raspicam_awb =
    RASPICAM_AWB_OFF | RASPICAM_AWB_AUTO | RASPICAM_AWB_SUNLIGHT | RASPICAM_AWB_CLOUDY
  | RASPICAM_AWB_SHADE | RASPICAM_AWB_TUNGSTEN | RASPICAM_AWB_FLUORESCENT | RASPICAM_AWB_INCANDESCENT
  | RASPICAM_AWB_FLASH | RASPICAM_AWB_HORIZON

datatype raspicam_image_effect =
    RASPICAM_IMAGE_EFFECT_NONE | RASPICAM_IMAGE_EFFECT_NEGATIVE | RASPICAM_IMAGE_EFFECT_SOLARIZE
  | RASPICAM_IMAGE_EFFECT_SKETCH | RASPICAM_IMAGE_EFFECT_DENOISE | RASPICAM_IMAGE_EFFECT_EMBOSS
  | RASPICAM_IMAGE_EFFECT_OILPAINT | RASPICAM_IMAGE_EFFECT_HATCH | RASPICAM_IMAGE_EFFECT_GPEN
  | RASPICAM_IMAGE_EFFECT_PASTEL | RASPICAM_IMAGE_EFFECT_WATERCOLOR | RASPICAM_IMAGE_EFFECT_FILM
  | RASPICAM_IMAGE_EFFECT_BLUR | RASPICAM_IMAGE_EFFECT_SATURATION | RASPICAM_IMAGE_EFFECT_COLORSWAP
  | RASPICAM_IMAGE_EFFECT_WASHEDOUT | RASPICAM_IMAGE_EFFECT_POSTERISE | RASPICAM_IMAGE_EFFECT_COLORPOINT
  | RASPICAM_IMAGE_EFFECT_COLORBALANCE | RASPICAM_IMAGE_EFFECT_CARTOON

datatype raspicam_metering =
    RASPICAM_METERING_AVERAGE | RASPICAM_METERING_SPOT | RASPICAM_METERING_BACKLIT
  | RASPICAM_METERING_MATRIX

datatype raspicam_encoding =
    RASPICAM_ENCODING_JPEG | RASPICAM_ENCODING_BMP | RASPICAM_ENCODING_GIF | RASPICAM_ENCODING_PNG
  | RASPICAM_ENCODING_RGB

section \<open>Enumerations of the camera component\<close>

datatype exposure_mode =
    MMAL_PARAM_EXPOSUREMODE_OFF | MMAL_PARAM_EXPOSUREMODE_AUTO | MMAL_PARAM_EXPOSUREMODE_NIGHT
  | MMAL_PARAM_EXPOSUREMODE_NIGHTPREVIEW | MMAL_PARAM_EXPOSUREMODE_BACKLIGHT
  | MMAL_PARAM_EXPOSUREMODE_SPOTLIGHT | MMAL_PARAM_EXPOSUREMODE_SPORTS | MMAL_PARAM_EXPOSUREMODE_SNOW
  | MMAL_PARAM_EXPOSUREMODE_BEACH | MMAL_PARAM_EXPOSUREMODE_VERYLONG | MMAL_PARAM_EXPOSUREMODE_FIXEDFPS
  | MMAL_PARAM_EXPOSUREMODE_ANTISHAKE | MMAL_PARAM_EXPOSUREMODE_FIREWORKS

datatype metering_mode =
    MMAL_PARAM_EXPOSUREMETERINGMODE_AVERAGE | MMAL_PARAM_EXPOSUREMETERINGMODE_SPOT
  | MMAL_PARAM_EXPOSUREMETERINGMODE_BACKLIT | MMAL_PARAM_EXPOSUREMETERINGMODE_MATRIX

datatype awb_mode =
    MMAL_PARAM_AWBMODE_OFF | MMAL_PARAM_AWBMODE_AUTO | MMAL_PARAM_AWBMODE_SUNLIGHT
  | MMAL_PARAM_AWBMODE_CLOUDY | MMAL_PARAM_AWBMODE_SHADE | MMAL_PARAM_AWBMODE_TUNGSTEN
  | MMAL_PARAM_AWBMODE_FLUORESCENT | MMAL_PARAM_AWBMODE_INCANDESCENT | MMAL_PARAM_AWBMODE_FLASH
  | MMAL_PARAM_AWBMODE_HORIZON

datatype imagefx =
    MMAL_PARAM_IMAGEFX_NONE | MMAL_PARAM_IMAGEFX_NEGATIVE | MMAL_PARAM_IMAGEFX_SOLARIZE
  | MMAL_PARAM_IMAGEFX_POSTERIZE | MMAL_PARAM_IMAGEFX_WHITEBOARD | MMAL_PARAM_IMAGEFX_BLACKBOARD
  | MMAL_PARAM_IMAGEFX_SKETCH | MMAL_PARAM_IMAGEFX_DENOISE | MMAL_PARAM_IMAGEFX_EMBOSS
  | MMAL_PARAM_IMAGEFX_OILPAINT | MMAL_PARAM_IMAGEFX_HATCH | MMAL_PARAM_IMAGEFX_GPEN
  | MMAL_PARAM_IMAGEFX_PASTEL | MMAL_PARAM_IMAGEFX_WATERCOLOUR | MMAL_PARAM_IMAGEFX_FILM
  | MMAL_PARAM_IMAGEFX_BLUR | MMAL_PARAM_IMAGEFX_SATURATION | MMAL_PARAM_IMAGEFX_COLOURSWAP
  | MMAL_PARAM_IMAGEFX_WASHEDOUT | MMAL_PARAM_IMAGEFX_POSTERISE | MMAL_PARAM_IMAGEFX_COLOURPOINT
  | MMAL_PARAM_IMAGEFX_COLOURBALANCE | MMAL_PARAM_IMAGEFX_CARTOON
  | MMAL_PARAM_IMAGEFX_DEINTERLACE_DOUBLE | MMAL_PARAM_IMAGEFX_DEINTERLACE_ADV
  | MMAL_PARAM_IMAGEFX_DEINTERLACE_FAST

datatype mirror_mode =
    MMAL_PARAM_MIRROR_NONE | MMAL_PARAM_MIRROR_VERTICAL | MMAL_PARAM_MIRROR_HORIZONTAL
  | MMAL_PARAM_MIRROR_BOTH

text \<open>The values of the enumerations.\<close>

fun exposure_mode_value :: "exposure_mode \<Rightarrow> u32" where
  "exposure_mode_value MMAL_PARAM_EXPOSUREMODE_OFF = 0"
| "exposure_mode_value MMAL_PARAM_EXPOSUREMODE_AUTO = 1"
| "exposure_mode_value MMAL_PARAM_EXPOSUREMODE_NIGHT = 2"
| "exposure_mode_value MMAL_PARAM_EXPOSUREMODE_NIGHTPREVIEW = 3"
| "exposure_mode_value MMAL_PARAM_EXPOSUREMODE_BACKLIGHT = 4"
| "exposure_mode_value MMAL_PARAM_EXPOSUREMODE_SPOTLIGHT = 5"
| "exposure_mode_value MMAL_PARAM_EXPOSUREMODE_SPORTS = 6"
| "exposure_mode_value MMAL_PARAM_EXPOSUREMODE_SNOW = 7"
| "exposure_mode_value MMAL_PARAM_EXPOSUREMODE_BEACH = 8"
| "exposure_mode_value MMAL_PARAM_EXPOSUREMODE_VERYLONG = 9"
| "exposure_mode_value MMAL_PARAM_EXPOSUREMODE_FIXEDFPS = 10"
| "exposure_mode_value MMAL_PARAM_EXPOSUREMODE_ANTISHAKE = 11"
| "exposure_mode_value MMAL_PARAM_EXPOSUREMODE_FIREWORKS = 12"

fun metering_mode_value :: "metering_mode \<Rightarrow> u32" where
  "metering_mode_value MMAL_PARAM_EXPOSUREMETERINGMODE_AVERAGE = 0"
| "metering_mode_value MMAL_PARAM_EXPOSUREMETERINGMODE_SPOT = 1"
| "metering_mode_value MMAL_PARAM_EXPOSUREMETERINGMODE_BACKLIT = 2"
| "metering_mode_value MMAL_PARAM_EXPOSUREMETERINGMODE_MATRIX = 3"

fun awb_mode_value :: "awb_mode \<Rightarrow> u32" where
  "awb_mode_value MMAL_PARAM_AWBMODE_OFF = 0"
| "awb_mode_value MMAL_PARAM_AWBMODE_AUTO = 1"
| "awb_mode_value MMAL_PARAM_AWBMODE_SUNLIGHT = 2"
| "awb_mode_value MMAL_PARAM_AWBMODE_CLOUDY = 3"
| "awb_mode_value MMAL_PARAM_AWBMODE_SHADE = 4"
| "awb_mode_value MMAL_PARAM_AWBMODE_TUNGSTEN = 5"
| "awb_mode_value MMAL_PARAM_AWBMODE_FLUORESCENT = 6"
| "awb_mode_value MMAL_PARAM_AWBMODE_INCANDESCENT = 7"
| "awb_mode_value MMAL_PARAM_AWBMODE_FLASH = 8"
| "awb_mode_value MMAL_PARAM_AWBMODE_HORIZON = 9"

fun imagefx_value :: "imagefx \<Rightarrow> u32" where
  "imagefx_value MMAL_PARAM_IMAGEFX_NONE = 0"
| "imagefx_value MMAL_PARAM_IMAGEFX_NEGATIVE = 1"
| "imagefx_value MMAL_PARAM_IMAGEFX_SOLARIZE = 2"
| "imagefx_value MMAL_PARAM_IMAGEFX_POSTERIZE = 3"
| "imagefx_value MMAL_PARAM_IMAGEFX_WHITEBOARD = 4"
| "imagefx_value MMAL_PARAM_IMAGEFX_BLACKBOARD = 5"
| "imagefx_value MMAL_PARAM_IMAGEFX_SKETCH = 6"
| "imagefx_value MMAL_PARAM_IMAGEFX_DENOISE = 7"
| "imagefx_value MMAL_PARAM_IMAGEFX_EMBOSS = 8"
| "imagefx_value MMAL_PARAM_IMAGEFX_OILPAINT = 9"
| "imagefx_value MMAL_PARAM_IMAGEFX_HATCH = 10"
| "imagefx_value MMAL_PARAM_IMAGEFX_GPEN = 11"
| "imagefx_value MMAL_PARAM_IMAGEFX_PASTEL = 12"
| "imagefx_value MMAL_PARAM_IMAGEFX_WATERCOLOUR = 13"
| "imagefx_value MMAL_PARAM_IMAGEFX_FILM = 14"
| "imagefx_value MMAL_PARAM_IMAGEFX_BLUR = 15"
| "imagefx_value MMAL_PARAM_IMAGEFX_SATURATION = 16"
| "imagefx_value MMAL_PARAM_IMAGEFX_COLOURSWAP = 17"
| "imagefx_value MMAL_PARAM_IMAGEFX_WASHEDOUT = 18"
| "imagefx_value MMAL_PARAM_IMAGEFX_POSTERISE = 19"
| "imagefx_value MMAL_PARAM_IMAGEFX_COLOURPOINT = 20"
| "imagefx_value MMAL_PARAM_IMAGEFX_COLOURBALANCE = 21"
| "imagefx_value MMAL_PARAM_IMAGEFX_CARTOON = 22"
| "imagefx_value MMAL_PARAM_IMAGEFX_DEINTERLACE_DOUBLE = 23"
| "imagefx_value MMAL_PARAM_IMAGEFX_DEINTERLACE_ADV = 24"
| "imagefx_value MMAL_PARAM_IMAGEFX_DEINTERLACE_FAST = 25"

fun mirror_mode_value :: "mirror_mode \<Rightarrow> u32" where
  "mirror_mode_value MMAL_PARAM_MIRROR_NONE = 0"
| "mirror_mode_value MMAL_PARAM_MIRROR_VERTICAL = 1"
| "mirror_mode_value MMAL_PARAM_MIRROR_HORIZONTAL = 2"
| "mirror_mode_value MMAL_PARAM_MIRROR_BOTH = 3"

section \<open>Conversions\<close>

fun convertMetering :: "raspicam_metering \<Rightarrow> metering_mode" where
  "convertMetering RASPICAM_METERING_AVERAGE = MMAL_PARAM_EXPOSUREMETERINGMODE_AVERAGE"
| "convertMetering RASPICAM_METERING_SPOT = MMAL_PARAM_EXPOSUREMETERINGMODE_SPOT"
| "convertMetering RASPICAM_METERING_BACKLIT = MMAL_PARAM_EXPOSUREMETERINGMODE_BACKLIT"
| "convertMetering RASPICAM_METERING_MATRIX = MMAL_PARAM_EXPOSUREMETERINGMODE_MATRIX"

fun convertExposure :: "raspicam_exposure \<Rightarrow> exposure_mode" where
  "convertExposure RASPICAM_EXPOSURE_OFF = MMAL_PARAM_EXPOSUREMODE_OFF"
| "convertExposure RASPICAM_EXPOSURE_AUTO = MMAL_PARAM_EXPOSUREMODE_AUTO"
| "convertExposure RASPICAM_EXPOSURE_NIGHT = MMAL_PARAM_EXPOSUREMODE_NIGHT"
| "convertExposure RASPICAM_EXPOSURE_NIGHTPREVIEW = MMAL_PARAM_EXPOSUREMODE_NIGHTPREVIEW"
| "convertExposure RASPICAM_EXPOSURE_BACKLIGHT = MMAL_PARAM_EXPOSUREMODE_BACKLIGHT"
| "convertExposure RASPICAM_EXPOSURE_SPOTLIGHT = MMAL_PARAM_EXPOSUREMODE_SPOTLIGHT"
| "convertExposure RASPICAM_EXPOSURE_SPORTS = MMAL_PARAM_EXPOSUREMODE_SPORTS"
| "convertExposure RASPICAM_EXPOSURE_SNOW = MMAL_PARAM_EXPOSUREMODE_SNOW"
| "convertExposure RASPICAM_EXPOSURE_BEACH = MMAL_PARAM_EXPOSUREMODE_BEACH"
| "convertExposure RASPICAM_EXPOSURE_VERYLONG = MMAL_PARAM_EXPOSUREMODE_VERYLONG"
| "convertExposure RASPICAM_EXPOSURE_FIXEDFPS = MMAL_PARAM_EXPOSUREMODE_FIXEDFPS"
| "convertExposure RASPICAM_EXPOSURE_ANTISHAKE = MMAL_PARAM_EXPOSUREMODE_ANTISHAKE"
| "convertExposure RASPICAM_EXPOSURE_FIREWORKS = MMAL_PARAM_EXPOSUREMODE_FIREWORKS"

fun convertAWB :: "raspicam_awb \<Rightarrow> awb_mode" where
  "convertAWB RASPICAM_AWB_OFF = MMAL_PARAM_AWBMODE_OFF"
| "convertAWB RASPICAM_AWB_AUTO = MMAL_PARAM_AWBMODE_AUTO"
| "convertAWB RASPICAM_AWB_SUNLIGHT = MMAL_PARAM_AWBMODE_SUNLIGHT"
| "convertAWB RASPICAM_AWB_CLOUDY = MMAL_PARAM_AWBMODE_CLOUDY"
| "convertAWB RASPICAM_AWB_SHADE = MMAL_PARAM_AWBMODE_SHADE"
| "convertAWB RASPICAM_AWB_TUNGSTEN = MMAL_PARAM_AWBMODE_TUNGSTEN"
| "convertAWB RASPICAM_AWB_FLUORESCENT = MMAL_PARAM_AWBMODE_FLUORESCENT"
| "convertAWB RASPICAM_AWB_INCANDESCENT = MMAL_PARAM_AWBMODE_INCANDESCENT"
| "convertAWB RASPICAM_AWB_FLASH = MMAL_PARAM_AWBMODE_FLASH"
| "convertAWB RASPICAM_AWB_HORIZON = MMAL_PARAM_AWBMODE_HORIZON"

fun convertImageEffect :: "raspicam_image_effect \<Rightarrow> imagefx" where
  "convertImageEffect RASPICAM_IMAGE_EFFECT_NONE = MMAL_PARAM_IMAGEFX_NONE"
| "convertImageEffect RASPICAM_IMAGE_EFFECT_NEGATIVE = MMAL_PARAM_IMAGEFX_NEGATIVE"
| "convertImageEffect RASPICAM_IMAGE_EFFECT_SOLARIZE = MMAL_PARAM_IMAGEFX_SOLARIZE"
| "convertImageEffect RASPICAM_IMAGE_EFFECT_SKETCH = MMAL_PARAM_IMAGEFX_SKETCH"
| "convertImageEffect RASPICAM_IMAGE_EFFECT_DENOISE = MMAL_PARAM_IMAGEFX_DENOISE"
| "convertImageEffect RASPICAM_IMAGE_EFFECT_EMBOSS = MMAL_PARAM_IMAGEFX_EMBOSS"
| "convertImageEffect RASPICAM_IMAGE_EFFECT_OILPAINT = MMAL_PARAM_IMAGEFX_OILPAINT"
| "convertImageEffect RASPICAM_IMAGE_EFFECT_HATCH = MMAL_PARAM_IMAGEFX_HATCH"
| "convertImageEffect RASPICAM_IMAGE_EFFECT_GPEN = MMAL_PARAM_IMAGEFX_GPEN"
| "convertImageEffect RASPICAM_IMAGE_EFFECT_PASTEL = MMAL_PARAM_IMAGEFX_PASTEL"
| "convertImageEffect RASPICAM_IMAGE_EFFECT_WATERCOLOR = MMAL_PARAM_IMAGEFX_WATERCOLOUR"
| "convertImageEffect RASPICAM_IMAGE_EFFECT_FILM = MMAL_PARAM_IMAGEFX_FILM"
| "convertImageEffect RASPICAM_IMAGE_EFFECT_BLUR = MMAL_PARAM_IMAGEFX_BLUR"
| "convertImageEffect RASPICAM_IMAGE_EFFECT_SATURATION = MMAL_PARAM_IMAGEFX_SATURATION"
| "convertImageEffect RASPICAM_IMAGE_EFFECT_COLORSWAP = MMAL_PARAM_IMAGEFX_COLOURSWAP"
| "convertImageEffect RASPICAM_IMAGE_EFFECT_WASHEDOUT = MMAL_PARAM_IMAGEFX_WASHEDOUT"
| "convertImageEffect RASPICAM_IMAGE_EFFECT_POSTERISE = MMAL_PARAM_IMAGEFX_POSTERISE"
| "convertImageEffect RASPICAM_IMAGE_EFFECT_COLORPOINT = MMAL_PARAM_IMAGEFX_COLOURPOINT"
| "convertImageEffect RASPICAM_IMAGE_EFFECT_COLORBALANCE = MMAL_PARAM_IMAGEFX_COLOURBALANCE"
| "convertImageEffect RASPICAM_IMAGE_EFFECT_CARTOON = MMAL_PARAM_IMAGEFX_CARTOON"

section \<open>Settings\<close>

text \<open>
  \<open>RASPIVID_STATE\<close>. The members that nothing reads (\<open>roi\<close>, \<open>colourEffects\<close>,
  \<open>imageEffectsParameters\<close>) are left out. \<open>'f\<close> is the type \<open>float\<close>, of which the code only uses the
  constant 1, a quotient of integers and a multiple converted to an integer (\<open>float_ops\<close>).
\<close>

record 'f raspivid_state =
  rs_sensor_mode :: int
  rs_width :: int
  rs_height :: int
  rs_framerate :: int
  rs_camera_component :: ptr
  rs_video_pool :: ptr
  rs_sharpness :: int
  rs_contrast :: int
  rs_brightness :: int
  rs_saturation :: int
  rs_ISO :: int
  rs_videoStabilisation :: bool
  rs_exposureCompensation :: int
  rs_shutterSpeed :: int
  rs_captureFtm :: raspicam_format
  rs_exposureMode :: raspicam_exposure
  rs_exposureMeterMode :: raspicam_metering
  rs_awbMode :: raspicam_awb
  rs_imageEffect :: raspicam_image_effect
  rs_rotation :: int
  rs_hflip :: bool
  rs_vflip :: bool
  rs_awbg_red :: 'f
  rs_awbg_blue :: 'f

record 'f float_ops =
  float_one :: 'f
  float_quot :: "int \<Rightarrow> int \<Rightarrow> 'f"      \<comment> \<open>\<open>float(n) / d\<close>\<close>
  float_fixed :: "'f \<Rightarrow> u32"            \<comment> \<open>\<open>(unsigned int)(x * 65536)\<close>\<close>

definition setDefaultStateParams :: "'f float_ops \<Rightarrow> 'f raspivid_state" where
  "setDefaultStateParams k = \<lparr>rs_sensor_mode = 0, rs_width = 1280, rs_height = 960, rs_framerate = 10,
     rs_camera_component = None, rs_video_pool = None, rs_sharpness = 0, rs_contrast = 0,
     rs_brightness = 50, rs_saturation = 0, rs_ISO = 400, rs_videoStabilisation = False,
     rs_exposureCompensation = 0, rs_shutterSpeed = 0, rs_captureFtm = RASPICAM_FORMAT_RGB,
     rs_exposureMode = RASPICAM_EXPOSURE_AUTO, rs_exposureMeterMode = RASPICAM_METERING_AVERAGE,
     rs_awbMode = RASPICAM_AWB_AUTO, rs_imageEffect = RASPICAM_IMAGE_EFFECT_NONE, rs_rotation = 0,
     rs_hflip = False, rs_vflip = False, rs_awbg_red = float_one k, rs_awbg_blue = float_one k\<rparr>"

text \<open>An \<open>unsigned int\<close> stored in an \<open>int\<close>, and back.\<close>

abbreviation int_of_uint :: "u32 \<Rightarrow> int" where "int_of_uint w \<equiv> sint w"
abbreviation uint_of_int :: "int \<Rightarrow> u32" where "uint_of_int i \<equiv> word_of_int i"

section \<open>Sizes of images\<close>

text \<open>\<open>VCOS_ALIGN_UP\<close> for a power of two, on the 32-bit \<open>ptrdiff_t\<close>; \<open>None\<close> is an overflow.\<close>

definition VCOS_ALIGN_UP :: "int \<Rightarrow> int \<Rightarrow> int option" where
  "VCOS_ALIGN_UP p n = map_option (\<lambda>x. x AND NOT (n - 1)) (i32 (p + n - 1))"

definition getImageTypeSize :: "u32 \<Rightarrow> u32 \<Rightarrow> raspicam_format \<Rightarrow> u32" where
  "getImageTypeSize width height fmt =
     (case fmt of
        RASPICAM_FORMAT_YUV420 \<Rightarrow> width * height + 2 * (width div 2 * height div 2)
      | RASPICAM_FORMAT_GRAY \<Rightarrow> width * height
      | RASPICAM_FORMAT_BGR \<Rightarrow> 3 * width * height
      | RASPICAM_FORMAT_RGB \<Rightarrow> 3 * width * height
      | RASPICAM_FORMAT_IGNORE \<Rightarrow> 0)"

lemma in_i32_nat: "n < 2 ^ 31 \<Longrightarrow> in_i32 (int n)"
  by (simp add: in_i32_def)

lemma align_mask:
  fixes x :: int
  shows "x AND NOT 31 = x div 32 * 32" and "x AND NOT 15 = x div 16 * 16"
proof -
  have "x AND NOT (mask n) = push_bit n (drop_bit n x)" for n
    by (rule bit_eqI) (auto simp: bit_simps)
  from this [of 5] this [of 4] show "x AND NOT 31 = x div 32 * 32" and "x AND NOT 15 = x div 16 * 16"
    by (simp_all add: mask_eq_exp_minus_1 push_bit_eq_mult drop_bit_eq_div)
qed

lemma VCOS_ALIGN_UP_eq:
  "in_i32 (p + 31) \<Longrightarrow> VCOS_ALIGN_UP p 32 = Some ((p + 31) div 32 * 32)"
  "in_i32 (p + 15) \<Longrightarrow> VCOS_ALIGN_UP p 16 = Some ((p + 15) div 16 * 16)"
  by (simp_all add: VCOS_ALIGN_UP_def i32_def align_mask [symmetric] add.commute add_diff_eq [symmetric])

section \<open>Turning an angle into the first full turn\<close>

text \<open>\<open>while (rotation < 0) rotation += 360; if (rotation >= 360) rotation = rotation % 360;\<close>\<close>

function add_turns :: "int \<Rightarrow> int" where
  "add_turns r = (if r < 0 then add_turns (r + 360) else r)"
  by auto
termination by (relation "measure (\<lambda>r. nat (- r))") auto

declare add_turns.simps [simp del]

definition first_turn :: "int \<Rightarrow> int" where
  "first_turn rotation = (let r = add_turns rotation in if r \<ge> 360 then r mod 360 else r)"

lemma add_turns_cong: "0 \<le> add_turns r \<and> add_turns r mod 360 = r mod 360"
proof (induction r rule: add_turns.induct)
  case (1 r)
  then show ?case by (subst (1 2) add_turns.simps) auto
qed

lemma first_turn_eq: "first_turn r = r mod 360"
  using add_turns_cong [of r] by (auto simp: first_turn_def Let_def)

text \<open>\<open>int(rotation / 90) * 90\<close>\<close>

definition quarter_turns :: "int \<Rightarrow> int" where "quarter_turns rotation = c_div rotation 90 * 90"

end
