(* ===== verification/Raspicam.thy ===== *)
theory Raspicam
  imports Raspicam_Types Mmal_Component
begin

text \<open>
  The camera of the library (\<^verbatim>\<open>src/private/private_impl.cpp\<close>, \<^verbatim>\<open>src/private/private_types.h\<close>,
  \<^verbatim>\<open>src/private/threadcondition.cpp\<close>, the class behind \<^verbatim>\<open>src/raspicam.cpp\<close>): its settings, the
  parameters it sends to the camera component, opening, capturing and releasing, and the callback that
  takes a frame out of a buffer of the video port.
\<close>

section \<open>The object\<close>

text \<open>
  \<open>Private_Impl\<close>. The array of \<open>_buffData\<close> is a list of bytes, whose length is its size, and the object
  is \<open>callback_data.inst\<close>, its \<open>State\<close> \<open>callback_data.pstate\<close>. \<open>rc_locked\<close>: a thread is inside a
  critical section of \<open>callback_data._mutex\<close>; \<open>rc_ready\<close> is the flag of \<open>ThreadCondition\<close>. The rest of
  the world is \<open>rc_env\<close>.
\<close>

record ('f, 'y) raspicam =
  rc_state :: "'f raspivid_state"
  rc_video_port :: ptr
  rc_wantToGrab :: bool
  rc_buffData :: "8 word list"
  rc_userCallback :: "nat option"
  rc_userCallbackData :: ptr
  rc_ready :: bool
  rc_locked :: bool
  rc_isOpened :: bool
  rc_isCapturing :: bool
  rc_rgb_bgr_fixed :: bool
  rc_env :: 'y

type_synonym ('f, 'y) cam = "('f, 'y) raspicam pst"
type_synonym ('f, 'y) cam_step = "('f, 'y) cam \<Rightarrow> ('f, 'y) cam outcome"

text \<open>
  Where \<open>callback_data\<close> lies, what a fresh array holds, the bytes of another event read as a
  parameter, the callbacks of the user by identifier, and
  \<open>mmal_util_rgb_order_fixed\<close>, which the repository declares only.
\<close>

record ('f, 'y) cam_ops = "'f float_ops" +
  cm_callback_data :: addr
  cm_fresh :: "nat \<Rightarrow> 8 word"
  cm_read :: "event_data \<Rightarrow> parameter"
  cm_user :: "nat \<Rightarrow> ptr \<Rightarrow> ('f, 'y) cam_step"
  cm_rgb_order_fixed :: "addr \<Rightarrow> ('f, 'y) cam \<Rightarrow> (int \<times> ('f, 'y) cam) outcome"

abbreviation cam_of :: "('f, 'y) cam \<Rightarrow> ('f, 'y) raspicam" where "cam_of s \<equiv> w_env (ps_env s)"
abbreviation state_of :: "('f, 'y) cam \<Rightarrow> 'f raspivid_state" where "state_of s \<equiv> rc_state (cam_of s)"

definition upd_state :: "('f raspivid_state \<Rightarrow> 'f raspivid_state) \<Rightarrow> ('f, 'y) cam \<Rightarrow> ('f, 'y) cam" where
  "upd_state f = upd_env (\<lambda>r. r\<lparr>rc_state := f (rc_state r)\<rparr>)"

definition Private_Impl :: "('f, 'y) cam_ops \<Rightarrow> 'y \<Rightarrow> ('f, 'y) raspicam" where
  "Private_Impl k y = \<lparr>rc_state = setDefaultStateParams (float_ops.truncate k), rc_video_port = None,
     rc_wantToGrab = False, rc_buffData = [], rc_userCallback = None, rc_userCallbackData = None,
     rc_ready = False, rc_locked = False, rc_isOpened = False, rc_isCapturing = False,
     rc_rgb_bgr_fixed = False, rc_env = y\<rparr>"

section \<open>Parameters sent to the camera\<close>

definition MMAL_PARAMETER_GROUP_CAMERA :: u32 where "MMAL_PARAMETER_GROUP_CAMERA = push_bit 16 1"
definition MMAL_PARAMETER_CHANGE_EVENT_REQUEST :: u32 where "MMAL_PARAMETER_CHANGE_EVENT_REQUEST = 3"
definition MMAL_PARAMETER_ROTATION :: u32 where "MMAL_PARAMETER_ROTATION = MMAL_PARAMETER_GROUP_CAMERA + 0x02"
definition MMAL_PARAMETER_AWB_MODE :: u32 where "MMAL_PARAMETER_AWB_MODE = MMAL_PARAMETER_GROUP_CAMERA + 0x05"
definition MMAL_PARAMETER_IMAGE_EFFECT :: u32 where "MMAL_PARAMETER_IMAGE_EFFECT = MMAL_PARAMETER_GROUP_CAMERA + 0x06"
definition MMAL_PARAMETER_EXPOSURE_COMP :: u32 where "MMAL_PARAMETER_EXPOSURE_COMP = MMAL_PARAMETER_GROUP_CAMERA + 0x0d"
definition MMAL_PARAMETER_MIRROR :: u32 where "MMAL_PARAMETER_MIRROR = MMAL_PARAMETER_GROUP_CAMERA + 0x0f"
definition MMAL_PARAMETER_CAPTURE :: u32 where "MMAL_PARAMETER_CAPTURE = MMAL_PARAMETER_GROUP_CAMERA + 0x11"
definition MMAL_PARAMETER_EXPOSURE_MODE :: u32 where "MMAL_PARAMETER_EXPOSURE_MODE = MMAL_PARAMETER_GROUP_CAMERA + 0x12"
definition MMAL_PARAMETER_EXP_METERING_MODE :: u32 where "MMAL_PARAMETER_EXP_METERING_MODE = MMAL_PARAMETER_GROUP_CAMERA + 0x13"
definition MMAL_PARAMETER_CAMERA_CONFIG :: u32 where "MMAL_PARAMETER_CAMERA_CONFIG = MMAL_PARAMETER_GROUP_CAMERA + 0x15"
definition MMAL_PARAMETER_JPEG_Q_FACTOR :: u32 where "MMAL_PARAMETER_JPEG_Q_FACTOR = MMAL_PARAMETER_GROUP_CAMERA + 0x19"
definition MMAL_PARAMETER_VIDEO_STABILISATION :: u32 where "MMAL_PARAMETER_VIDEO_STABILISATION = MMAL_PARAMETER_GROUP_CAMERA + 0x1d"
definition MMAL_PARAMETER_SHARPNESS :: u32 where "MMAL_PARAMETER_SHARPNESS = MMAL_PARAMETER_GROUP_CAMERA + 0x2c"
definition MMAL_PARAMETER_CONTRAST :: u32 where "MMAL_PARAMETER_CONTRAST = MMAL_PARAMETER_GROUP_CAMERA + 0x2d"
definition MMAL_PARAMETER_BRIGHTNESS :: u32 where "MMAL_PARAMETER_BRIGHTNESS = MMAL_PARAMETER_GROUP_CAMERA + 0x2e"
definition MMAL_PARAMETER_SATURATION :: u32 where "MMAL_PARAMETER_SATURATION = MMAL_PARAMETER_GROUP_CAMERA + 0x2f"
definition MMAL_PARAMETER_ISO :: u32 where "MMAL_PARAMETER_ISO = MMAL_PARAMETER_GROUP_CAMERA + 0x30"
definition MMAL_PARAMETER_CAMERA_CUSTOM_SENSOR_CONFIG :: u32 where
  "MMAL_PARAMETER_CAMERA_CUSTOM_SENSOR_CONFIG = MMAL_PARAMETER_GROUP_CAMERA + 0x37"
definition MMAL_PARAMETER_SHUTTER_SPEED :: u32 where "MMAL_PARAMETER_SHUTTER_SPEED = MMAL_PARAMETER_GROUP_CAMERA + 0x43"
definition MMAL_PARAMETER_CUSTOM_AWB_GAINS :: u32 where "MMAL_PARAMETER_CUSTOM_AWB_GAINS = MMAL_PARAMETER_GROUP_CAMERA + 0x44"
definition MMAL_PARAMETER_CAMERA_SETTINGS :: u32 where "MMAL_PARAMETER_CAMERA_SETTINGS = MMAL_PARAMETER_GROUP_CAMERA + 0x45"

text \<open>
  A parameter of the words \<open>ws\<close> sent to the control port or to an output port of the component. The
  component's pointer is followed, and so is the entry of the array of ports.
\<close>

definition control_set :: "'x port_ops \<Rightarrow> ptr \<Rightarrow> u32 \<Rightarrow> u32 list \<Rightarrow> 'x status_op" where
  "control_set c component i ws s =
     (case component of
        None \<Rightarrow> Some Faults
      | Some a \<Rightarrow> mmal_port_parameter_set c (co_control (comp_of s a)) (Some (words_param i ws)) s)"

definition output_port :: "ptr \<Rightarrow> nat \<Rightarrow> 'x pst \<Rightarrow> addr option" where
  "output_port component n s =
     (case component of
        None \<Rightarrow> None
      | Some a \<Rightarrow> (let ports = co_output (comp_of s a) in if n < length ports then Some (ports ! n) else None))"

definition output_set :: "'x port_ops \<Rightarrow> ptr \<Rightarrow> nat \<Rightarrow> u32 \<Rightarrow> u32 list \<Rightarrow> 'x status_op" where
  "output_set c component n i ws s =
     andthen (or_faults (output_port component n s)) (\<lambda>p.
       mmal_port_parameter_set c (Some p) (Some (words_param i ws)) s)"

text \<open>A call whose status is only reported to the user.\<close>

definition void :: "('a \<times> 's) outcome \<Rightarrow> 's outcome" where
  "void r = andthen r (\<lambda>(_, s). ret s)"

definition control_commit :: "('f, 'y) raspicam port_ops \<Rightarrow> u32 \<Rightarrow> ('f raspivid_state \<Rightarrow> u32 list) \<Rightarrow> ('f, 'y) cam_step" where
  "control_commit c i value s =
     void (control_set c (rs_camera_component (state_of s)) i (value (state_of s)) s)"

definition commitBrightness :: "('f, 'y) raspicam port_ops \<Rightarrow> ('f, 'y) cam_step" where
  "commitBrightness c = control_commit c MMAL_PARAMETER_BRIGHTNESS (\<lambda>S. [uint_of_int (rs_brightness S), 100])"

definition commitRotation :: "('f, 'y) raspicam port_ops \<Rightarrow> ('f, 'y) cam_step" where
  "commitRotation c s =
     (let cam = rs_camera_component (state_of s);
          v = [uint_of_int (quarter_turns (rs_rotation (state_of s)))]
      in andthen (void (output_set c cam 0 MMAL_PARAMETER_ROTATION v s)) (\<lambda>s1.
         andthen (void (output_set c cam 1 MMAL_PARAMETER_ROTATION v s1)) (\<lambda>s2.
         void (output_set c cam 2 MMAL_PARAMETER_ROTATION v s2))))"

definition commitISO :: "('f, 'y) raspicam port_ops \<Rightarrow> ('f, 'y) cam_step" where
  "commitISO c = control_commit c MMAL_PARAMETER_ISO (\<lambda>S. [uint_of_int (rs_ISO S)])"

definition commitSharpness :: "('f, 'y) raspicam port_ops \<Rightarrow> ('f, 'y) cam_step" where
  "commitSharpness c = control_commit c MMAL_PARAMETER_SHARPNESS (\<lambda>S. [uint_of_int (rs_sharpness S), 100])"

definition commitShutterSpeed :: "('f, 'y) raspicam port_ops \<Rightarrow> ('f, 'y) cam_step" where
  "commitShutterSpeed c = control_commit c MMAL_PARAMETER_SHUTTER_SPEED (\<lambda>S. [uint_of_int (rs_shutterSpeed S)])"

definition commitContrast :: "('f, 'y) raspicam port_ops \<Rightarrow> ('f, 'y) cam_step" where
  "commitContrast c = control_commit c MMAL_PARAMETER_CONTRAST (\<lambda>S. [uint_of_int (rs_contrast S), 100])"

definition commitSaturation :: "('f, 'y) raspicam port_ops \<Rightarrow> ('f, 'y) cam_step" where
  "commitSaturation c = control_commit c MMAL_PARAMETER_SATURATION (\<lambda>S. [uint_of_int (rs_saturation S), 100])"

definition commitExposure :: "('f, 'y) raspicam port_ops \<Rightarrow> ('f, 'y) cam_step" where
  "commitExposure c = control_commit c MMAL_PARAMETER_EXPOSURE_MODE
     (\<lambda>S. [exposure_mode_value (convertExposure (rs_exposureMode S))])"

definition commitExposureCompensation :: "('f, 'y) raspicam port_ops \<Rightarrow> ('f, 'y) cam_step" where
  "commitExposureCompensation c = control_commit c MMAL_PARAMETER_EXPOSURE_COMP
     (\<lambda>S. [uint_of_int (rs_exposureCompensation S)])"

definition commitAWB :: "('f, 'y) raspicam port_ops \<Rightarrow> ('f, 'y) cam_step" where
  "commitAWB c = control_commit c MMAL_PARAMETER_AWB_MODE (\<lambda>S. [awb_mode_value (convertAWB (rs_awbMode S))])"

definition commitImageEffect :: "('f, 'y) raspicam port_ops \<Rightarrow> ('f, 'y) cam_step" where
  "commitImageEffect c = control_commit c MMAL_PARAMETER_IMAGE_EFFECT
     (\<lambda>S. [imagefx_value (convertImageEffect (rs_imageEffect S))])"

definition commitMetering :: "('f, 'y) raspicam port_ops \<Rightarrow> ('f, 'y) cam_step" where
  "commitMetering c = control_commit c MMAL_PARAMETER_EXP_METERING_MODE
     (\<lambda>S. [metering_mode_value (convertMetering (rs_exposureMeterMode S))])"

definition commitVideoStabilization :: "('f, 'y) raspicam port_ops \<Rightarrow> ('f, 'y) cam_step" where
  "commitVideoStabilization c = control_commit c MMAL_PARAMETER_VIDEO_STABILISATION
     (\<lambda>S. [if rs_videoStabilisation S then 1 else 0])"

definition commitAWB_RB :: "('f, 'y) raspicam port_ops \<Rightarrow> ('f, 'y) cam_ops \<Rightarrow> ('f, 'y) cam_step" where
  "commitAWB_RB c k = control_commit c MMAL_PARAMETER_CUSTOM_AWB_GAINS
     (\<lambda>S. [float_fixed k (rs_awbg_red S), 65536, float_fixed k (rs_awbg_blue S), 65536])"

definition mirror_of :: "bool \<Rightarrow> bool \<Rightarrow> mirror_mode" where
  "mirror_of hflip vflip =
     (if hflip \<and> vflip then MMAL_PARAM_MIRROR_BOTH else if hflip then MMAL_PARAM_MIRROR_HORIZONTAL
      else if vflip then MMAL_PARAM_MIRROR_VERTICAL else MMAL_PARAM_MIRROR_NONE)"

text \<open>The ports are set one after the other as long as that succeeds.\<close>

definition set_three_outputs :: "'x port_ops \<Rightarrow> ptr \<Rightarrow> u32 \<Rightarrow> u32 list \<Rightarrow> 'x pst \<Rightarrow> 'x pst outcome" where
  "set_three_outputs c cam i v s =
     or_else (output_set c cam 0 i v s)
       (\<lambda>s1. or_else (output_set c cam 1 i v s1) (\<lambda>s2. void (output_set c cam 2 i v s2)) (\<lambda>_ s2. ret s2))
       (\<lambda>_ s1. ret s1)"

definition commitFlips :: "('f, 'y) raspicam port_ops \<Rightarrow> ('f, 'y) cam_step" where
  "commitFlips c s =
     set_three_outputs c (rs_camera_component (state_of s)) MMAL_PARAMETER_MIRROR
       [mirror_mode_value (mirror_of (rs_hflip (state_of s)) (rs_vflip (state_of s)))] s"

text \<open>The calls of \<open>commitParameters\<close> in their order; the shutter speed switches the exposure mode.\<close>

fun steps :: "('s \<Rightarrow> 's outcome) list \<Rightarrow> 's \<Rightarrow> 's outcome" where
  "steps [] s = ret s"
| "steps (f # fs) s = andthen (f s) (steps fs)"

definition commit_exposure_settings :: "('f, 'y) raspicam port_ops \<Rightarrow> ('f, 'y) cam_step" where
  "commit_exposure_settings c s =
     (if rs_shutterSpeed (state_of s) \<noteq> 0
      then andthen (commitShutterSpeed c s) (\<lambda>s1.
             commitExposure c (upd_state (\<lambda>S. S\<lparr>rs_exposureMode := RASPICAM_EXPOSURE_FIXEDFPS\<rparr>) s1))
      else commitExposure c s)"

definition commitParameters :: "('f, 'y) raspicam port_ops \<Rightarrow> ('f, 'y) cam_ops \<Rightarrow> ('f, 'y) cam_step" where
  "commitParameters c k s =
     (if rs_camera_component (state_of s) = None then Some Faults
      else steps [commitSaturation c, commitSharpness c, commitContrast c, commitBrightness c, commitISO c,
        commit_exposure_settings c, commitExposureCompensation c, commitMetering c, commitImageEffect c,
        commitRotation c, commitFlips c, commitVideoStabilization c, commitAWB c, commitAWB_RB c k] s)"

section \<open>Setters\<close>

text \<open>Change the state, and when the camera is open send the parameter.\<close>

definition set_and_commit :: "('f raspivid_state \<Rightarrow> 'f raspivid_state) \<Rightarrow> ('f, 'y) cam_step \<Rightarrow> ('f, 'y) cam_step" where
  "set_and_commit f commit s =
     (let s1 = upd_state f s in if rc_isOpened (cam_of s1) then commit s1 else ret s1)"

definition clamp :: "int \<Rightarrow> int \<Rightarrow> int \<Rightarrow> int" where
  "clamp lo hi v = (let w = (if v < lo then lo else v) in if w > hi then hi else w)"

definition setWidth :: "u32 \<Rightarrow> ('f, 'y) cam_step" where
  "setWidth w s = ret (upd_state (\<lambda>S. S\<lparr>rs_width := int_of_uint w\<rparr>) s)"

definition setHeight :: "u32 \<Rightarrow> ('f, 'y) cam_step" where
  "setHeight h s = ret (upd_state (\<lambda>S. S\<lparr>rs_height := int_of_uint h\<rparr>) s)"

definition setCaptureSize :: "u32 \<Rightarrow> u32 \<Rightarrow> ('f, 'y) cam_step" where
  "setCaptureSize w h s = andthen (setWidth w s) (setHeight h)"

definition setFormat :: "raspicam_format \<Rightarrow> ('f, 'y) cam_step" where
  "setFormat fmt s =
     (if rc_isOpened (cam_of s) then ret s else ret (upd_state (\<lambda>S. S\<lparr>rs_captureFtm := fmt\<rparr>) s))"

definition setSensorMode :: "int \<Rightarrow> ('f, 'y) cam_step" where
  "setSensorMode mode s =
     (if rc_isOpened (cam_of s) then ret s else ret (upd_state (\<lambda>S. S\<lparr>rs_sensor_mode := mode\<rparr>) s))"

definition setFrameRate :: "int \<Rightarrow> ('f, 'y) cam_step" where
  "setFrameRate fps s = ret (upd_state (\<lambda>S. S\<lparr>rs_framerate := fps\<rparr>) s)"

definition setVideoStabilization :: "('f, 'y) raspicam port_ops \<Rightarrow> bool \<Rightarrow> ('f, 'y) cam_step" where
  "setVideoStabilization c v = set_and_commit (\<lambda>S. S\<lparr>rs_videoStabilisation := v\<rparr>) (commitVideoStabilization c)"

definition setBrightness :: "('f, 'y) raspicam port_ops \<Rightarrow> u32 \<Rightarrow> ('f, 'y) cam_step" where
  "setBrightness c brightness =
     (let b = (if brightness > 100 then 100 else brightness)
      in set_and_commit (\<lambda>S. S\<lparr>rs_brightness := int_of_uint b\<rparr>) (commitBrightness c))"

definition setShutterSpeed :: "('f, 'y) raspicam port_ops \<Rightarrow> u32 \<Rightarrow> ('f, 'y) cam_step" where
  "setShutterSpeed c shutter =
     (let v = (if shutter > 330000 then 330000 else shutter)
      in set_and_commit (\<lambda>S. S\<lparr>rs_shutterSpeed := int_of_uint v\<rparr>) (commitShutterSpeed c))"

definition setRotation :: "('f, 'y) raspicam port_ops \<Rightarrow> int \<Rightarrow> ('f, 'y) cam_step" where
  "setRotation c rotation = set_and_commit (\<lambda>S. S\<lparr>rs_rotation := first_turn rotation\<rparr>) (commitRotation c)"

definition setISO :: "('f, 'y) raspicam port_ops \<Rightarrow> int \<Rightarrow> ('f, 'y) cam_step" where
  "setISO c v = set_and_commit (\<lambda>S. S\<lparr>rs_ISO := v\<rparr>) (commitISO c)"

definition setSharpness :: "('f, 'y) raspicam port_ops \<Rightarrow> int \<Rightarrow> ('f, 'y) cam_step" where
  "setSharpness c v = set_and_commit (\<lambda>S. S\<lparr>rs_sharpness := clamp (- 100) 100 v\<rparr>) (commitSharpness c)"

definition setContrast :: "('f, 'y) raspicam port_ops \<Rightarrow> int \<Rightarrow> ('f, 'y) cam_step" where
  "setContrast c v = set_and_commit (\<lambda>S. S\<lparr>rs_contrast := clamp (- 100) 100 v\<rparr>) (commitContrast c)"

definition setSaturation :: "('f, 'y) raspicam port_ops \<Rightarrow> int \<Rightarrow> ('f, 'y) cam_step" where
  "setSaturation c v = set_and_commit (\<lambda>S. S\<lparr>rs_saturation := clamp (- 100) 100 v\<rparr>) (commitSaturation c)"

definition setAWB_RB :: "('f, 'y) raspicam port_ops \<Rightarrow> ('f, 'y) cam_ops \<Rightarrow> 'f \<Rightarrow> 'f \<Rightarrow> ('f, 'y) cam_step" where
  "setAWB_RB c k red blue = set_and_commit (\<lambda>S. S\<lparr>rs_awbg_blue := blue, rs_awbg_red := red\<rparr>) (commitAWB_RB c k)"

definition setExposure :: "('f, 'y) raspicam port_ops \<Rightarrow> raspicam_exposure \<Rightarrow> ('f, 'y) cam_step" where
  "setExposure c v = set_and_commit (\<lambda>S. S\<lparr>rs_exposureMode := v\<rparr>) (commitExposure c)"

definition setAWB :: "('f, 'y) raspicam port_ops \<Rightarrow> raspicam_awb \<Rightarrow> ('f, 'y) cam_step" where
  "setAWB c v = set_and_commit (\<lambda>S. S\<lparr>rs_awbMode := v\<rparr>) (commitAWB c)"

definition setImageEffect :: "('f, 'y) raspicam port_ops \<Rightarrow> raspicam_image_effect \<Rightarrow> ('f, 'y) cam_step" where
  "setImageEffect c v = set_and_commit (\<lambda>S. S\<lparr>rs_imageEffect := v\<rparr>) (commitImageEffect c)"

definition setMetering :: "('f, 'y) raspicam port_ops \<Rightarrow> raspicam_metering \<Rightarrow> ('f, 'y) cam_step" where
  "setMetering c v = set_and_commit (\<lambda>S. S\<lparr>rs_exposureMeterMode := v\<rparr>) (commitMetering c)"

definition setExposureCompensation :: "('f, 'y) raspicam port_ops \<Rightarrow> int \<Rightarrow> ('f, 'y) cam_step" where
  "setExposureCompensation c v =
     set_and_commit (\<lambda>S. S\<lparr>rs_exposureCompensation := clamp (- 10) 10 v\<rparr>) (commitExposureCompensation c)"

definition setHorizontalFlip :: "('f, 'y) raspicam port_ops \<Rightarrow> bool \<Rightarrow> ('f, 'y) cam_step" where
  "setHorizontalFlip c v = set_and_commit (\<lambda>S. S\<lparr>rs_hflip := v\<rparr>) (commitFlips c)"

definition setVerticalFlip :: "('f, 'y) raspicam port_ops \<Rightarrow> bool \<Rightarrow> ('f, 'y) cam_step" where
  "setVerticalFlip c v = set_and_commit (\<lambda>S. S\<lparr>rs_vflip := v\<rparr>) (commitFlips c)"

definition setUserCallback :: "nat option \<Rightarrow> ptr \<Rightarrow> ('f, 'y) cam_step" where
  "setUserCallback cb data s =
     ret (upd_env (\<lambda>r. r\<lparr>rc_userCallbackData := data, rc_userCallback := cb\<rparr>) s)"

text \<open>\<open>convertFormat\<close>: the order of the colours depends on the firmware.\<close>

definition MMAL_ENCODING_I420 :: u32 where "MMAL_ENCODING_I420 = fourcc ''I420''"
definition MMAL_ENCODING_RGB24 :: u32 where "MMAL_ENCODING_RGB24 = fourcc ''RGB3''"
definition MMAL_ENCODING_BGR24 :: u32 where "MMAL_ENCODING_BGR24 = fourcc ''BGR3''"

fun convertFormat :: "bool \<Rightarrow> raspicam_format \<Rightarrow> u32" where
  "convertFormat fixed RASPICAM_FORMAT_RGB = (if fixed then MMAL_ENCODING_RGB24 else MMAL_ENCODING_BGR24)"
| "convertFormat fixed RASPICAM_FORMAT_BGR = (if fixed then MMAL_ENCODING_BGR24 else MMAL_ENCODING_RGB24)"
| "convertFormat fixed RASPICAM_FORMAT_GRAY = MMAL_ENCODING_I420"
| "convertFormat fixed RASPICAM_FORMAT_YUV420 = MMAL_ENCODING_I420"
| "convertFormat fixed RASPICAM_FORMAT_IGNORE = MMAL_ENCODING_I420"

end
