(* ===== verification/Mmal_Port_Recycle.thy ===== *)
theory Mmal_Port_Recycle
  imports Mmal_Port_Connect Mmal_Pool_Cycle
begin

text \<open>
  A buffer goes round: what the callback of a client does when a port gives back a header of its pool,
  releasing the header and sending the next one of the pool to the port. Shared by the camera and the
  still camera.
\<close>

section \<open>Sending\<close>

text \<open>The component behind the port takes every buffer.\<close>

definition port_takes :: "'x port_ops \<Rightarrow> addr \<Rightarrow> 'x pst \<Rightarrow> bool" where
  "port_takes c p s \<longleftrightarrow> (\<exists>f. po_pf_send (port_of s p) = Some f \<and> (\<forall>b s. pp_send c f p b s = ret (MMAL_SUCCESS, s)))
     \<and> po_is_enabled (port_of s p) \<and> \<not> po_is_paused (port_of s p) \<and> 0 < po_transit (port_of s p) \<and> \<not> pp_collect_stats c"

text \<open>A header has gone to the port: one more is in transit, and the time has been read.\<close>

definition port_sent :: "'x port_ops \<Rightarrow> addr \<Rightarrow> 'x pst \<Rightarrow> 'x pst \<Rightarrow> bool" where
  "port_sent c p s s' \<longleftrightarrow> w_env (ps_env s') = snd (pp_time c (w_env (ps_env s))) \<and> w_comp (ps_env s') = w_comp (ps_env s)
     \<and> w_bytes (ps_env s') = w_bytes (ps_env s)
     \<and> (\<exists>st. port_of s' = (port_of s)(p := (port_of s p)\<lparr>po_transit := po_transit (port_of s p) + 1, po_stats_rx := st\<rparr>))"

text \<open>The header \<open>b\<close> is outside the pool, whose queue holds \<open>xs\<close>, with one reference.\<close>

definition header_out :: "addr \<Rightarrow> addr list \<Rightarrow> addr \<Rightarrow> 'x pst \<Rightarrow> bool" where
  "header_out pool xs b s \<longleftrightarrow> pool_queue_repr pool s xs \<and> b \<notin> set xs \<and> pl_cb (ps_pool s pool) = None
     \<and> home_header pool (bufs s b) \<and> bh_refcount (bufs s b) = 1 \<and> (\<forall>a\<in>insert b (set xs). bh_data (bufs s a) \<noteq> None)"

lemma bh_data_cong: "x\<lparr>bh_next := None\<rparr> = y\<lparr>bh_next := None\<rparr> \<Longrightarrow> bh_data x = bh_data y"
  by (drule arg_cong [of _ _ bh_data]) simp

lemma pool_repr_upd:
  "pool_queue_repr q (upd_port p f s) xs = pool_queue_repr q s xs"
  "pool_queue_repr q (upd_env h s) xs = pool_queue_repr q s xs"
  "pool_queue_repr q (upd_world g s) xs = pool_queue_repr q s xs"
  by (auto simp: upd_port_def upd_env_def upd_world_def intro: pool_queue_repr_cong)

lemma header_out_upd [simp]:
  "header_out pool xs b (upd_env h s) = header_out pool xs b s"
  "header_out pool xs b (upd_world g s) = header_out pool xs b s"
  by (simp_all add: header_out_def pool_repr_upd)

lemma send_runs:
  assumes c: "port_takes c p s" and "bh_data (bufs s b) \<noteq> None" and "pool_queue_repr q s xs" and "b \<notin> set xs"
  shows "\<exists>s'. mmal_port_send_buffer c (Some p) b s = ret (MMAL_SUCCESS, s') \<and> pool_queue_repr q s' xs \<and> port_sent c p s s'"
proof -
  let ?s1 = "if po_type (port_of s p) = MMAL_PORT_TYPE_OUTPUT \<and> bh_length (bufs s b) \<noteq> 0 then upd_buf b (\<lambda>B. B\<lparr>bh_length := 0\<rparr>) s else s"
  let ?s2 = "upd_port p (\<lambda>P. P\<lparr>po_transit := po_transit (port_of s p) + 1\<rparr>) ?s1"
  have i: "in_transit_increment p ?s1 = ret ?s2" using c by (auto simp: in_transit_increment_def port_takes_def Let_def)
  have q: "pool_queue_repr q ?s1 xs" using assms(3,4) by (auto intro: pool_queue_repr_upd_buf)
  obtain t y where t: "pp_time c (w_env (ps_env s)) = (t, y)" by force
  let ?s3 = "upd_port p (\<lambda>P. P\<lparr>po_stats_rx := update_stats t (po_stats_rx P)\<rparr>) (upd_env (\<lambda>_. y) ?s2)"
  have "mmal_port_send_buffer c (Some p) b s = ret (MMAL_SUCCESS, ?s3)"
    using c assms(2) i t
    by (auto simp: mmal_port_send_buffer_def port_takes_def mmal_port_update_port_stats_def vcos_getmicrosecs_def Let_def)
  moreover have "port_of ?s3 = (port_of s)(p := (port_of s p)\<lparr>po_transit := po_transit (port_of s p) + 1,
      po_stats_rx := update_stats t (po_stats_rx (port_of s p))\<rparr>)"
    by (rule ext) simp
  ultimately show ?thesis using q t by (intro exI [of _ ?s3]) (auto simp: pool_repr_upd port_sent_def)
qed

section \<open>Releasing a header and sending the next\<close>

lemma recycle_runs:
  assumes "port_takes c p s" and v: "header_out pool xs b s"
  shows "\<exists>s1 s2 s' nb ys. header_release c b s = ret s1 \<and> ps_env s1 = ps_env s
    \<and> pool_queue_get pool s1 = Some (Some nb, s2) \<and> mmal_port_send_buffer c (Some p) nb s2 = ret (MMAL_SUCCESS, s')
    \<and> xs @ [b] = nb # ys \<and> pool_queue_repr pool s' ys \<and> port_sent c p s s'"
proof -
  define s1 where "s1 = pool_queue_put pool b (upd_buf b recycled s)"
  have r: "header_release c b s = ret s1"
    using pool_release_last [of pool s b "pp_pools c" "pp_pre c"] v by (simp add: header_release_def header_out_def s1_def Let_def)
  have e: "ps_env s1 = ps_env s" by (simp add: s1_def pool_queue_put_frame)
  have q: "pool_queue_repr pool s1 (xs @ [b])"
    unfolding s1_def by (rule pool_queue_put_repr [OF pool_queue_repr_upd_buf]) (use v in \<open>auto simp: header_out_def\<close>)
  obtain nb ys where xs: "xs @ [b] = nb # ys" by (cases xs) auto
  obtain s2 where g: "pool_queue_get pool s1 = Some (Some nb, s2)" "pool_queue_repr pool s2 ys" "bufs s2 = bufs s1" "ps_env s2 = ps_env s1"
    using pool_queue_get_repr q unfolding xs by blast
  have "distinct (xs @ [b])" using q unfolding pool_queue_repr_def by (auto dest: queue_repr_distinct)
  then have nb: "nb \<notin> set ys" unfolding xs by simp
  have "bh_data (bufs s1 a) = bh_data (bufs (upd_buf b recycled s) a)" for a
    unfolding s1_def by (rule bh_data_cong) (rule pool_queue_put_frame(4))
  moreover have "nb \<in> insert b (set xs)" using arg_cong [OF xs, of set] by auto
  ultimately have d: "bh_data (bufs s2 nb) \<noteq> None"
    using v g(3) by (auto simp: header_out_def recycled_def reset_fields_def)
  have "port_takes c p s2" using assms(1) g(4) e by (simp add: port_takes_def)
  from send_runs [OF this d g(2) nb] obtain s' where s': "mmal_port_send_buffer c (Some p) nb s2 = ret (MMAL_SUCCESS, s')"
    "pool_queue_repr pool s' ys" "port_sent c p s2 s'" by blast
  moreover have "port_sent c p s s'" using s'(3) g(4) e by (simp add: port_sent_def)
  ultimately show ?thesis using r e g(1) xs by blast
qed

section \<open>A small world\<close>

text \<open>For the examples: a component with the control port 2 and the outputs 10, 11 and 12, whose pool 50
  has no header in its queue; the headers are outside it, with a payload of 1536 bytes at 1000.\<close>

definition small_world :: "'x \<Rightarrow> 'x pst" where
  "small_world e = \<lparr>bufs = (\<lambda>_. zero_header\<lparr>bh_owner := Some 50, bh_pf_release := Some POOL_RELEASE, bh_refcount := 1,
       bh_data := Some 1000, bh_alloc_size := 1536, bh_length := 1536\<rparr>),
     ps_pool = (\<lambda>_. blank_pool\<lparr>pl_queue := mmal_queue_create True VCOS_SUCCESS VCOS_SUCCESS\<rparr>),
     ps_env = \<lparr>w_port = (\<lambda>_. zero_port\<lparr>po_is_enabled := True, po_userdata := Some 99, po_transit := 1,
         po_pf_send := Some 7, po_pf_parameter_set := Some 7, po_callback := Some 5\<rparr>),
       w_comp = (\<lambda>_. zero_component\<lparr>co_control := Some 2, co_output := [10, 11, 12]\<rparr>),
       w_fmt = \<lparr>fs_format = (\<lambda>_. blank_format),
         fs_private = (\<lambda>_. \<lparr>fp_magic = 0, fp_extradata_size = 0, fp_extradata = None, fp_buffer = []\<rparr>),
         fs_es = (\<lambda>_. []), fs_blocks = (\<lambda>_. None)\<rparr>,
       w_event = (\<lambda>_. EventBytes), w_bytes = word_of_nat, w_core_refcount = 0, w_instance_count = 0,
       w_suppliers = [], w_conn = (\<lambda>_. blank_connection), w_env = e\<rparr>\<rparr>"

lemma small_world_simps [simp]:
  "w_env (ps_env (small_world e)) = e"
  "co_control (comp_of (small_world e) a) = Some 2" "co_output (comp_of (small_world e) a) = [10, 11, 12]"
  "po_pf_parameter_set (port_of (small_world e) p) = Some 7" "po_pf_send (port_of (small_world e) p) = Some 7"
  "po_is_enabled (port_of (small_world e) p)" "po_userdata (port_of (small_world e) p) = Some 99"
  "po_transit (port_of (small_world e) p) = 1" "po_callback (port_of (small_world e) p) = Some 5"
  "\<not> po_is_paused (port_of (small_world e) p)" "po_type (port_of (small_world e) p) = MMAL_PORT_TYPE_UNKNOWN"
  "bh_data (bufs (small_world e) b) = Some 1000" "bh_alloc_size (bufs (small_world e) b) = 1536"
  "bh_length (bufs (small_world e) b) = 1536" "bh_refcount (bufs (small_world e) b) = 1" "bh_flags (bufs (small_world e) b) = 0"
  "bh_owner (bufs (small_world e) b) = Some 50" "w_bytes (ps_env (small_world e)) = word_of_nat"
  "pl_cb (ps_pool (small_world e) pool) = None" "bh_pf_release (bufs (small_world e) b) = Some POOL_RELEASE"
  "bh_reference (bufs (small_world e) b) = None" "bh_pf_pre_release (bufs (small_world e) b) = None"
  "pl_queue (ps_pool (small_world e) pool) = mmal_queue_create True VCOS_SUCCESS VCOS_SUCCESS"
  by (simp_all add: small_world_def zero_port_def zero_component_def zero_header_def blank_pool_def)

lemma created_empty: "queue_repr (mmal_queue_create True VCOS_SUCCESS VCOS_SUCCESS, s) []"
  by (simp add: mmal_queue_create_def queue_list_def nexts_def)

text \<open>Components that take every buffer; the clock stands still.\<close>

definition taking :: "'x port_ops \<Rightarrow> 'x port_ops" where
  "taking base = base\<lparr>pp_send := (\<lambda>_ _ _ s. ret (MMAL_SUCCESS, s)), pp_time := (\<lambda>r. (0, r)), pp_collect_stats := False\<rparr>"

lemma small_world_takes: "port_takes (taking base) p (small_world e)"
  by (simp add: port_takes_def taking_def)

lemma small_world_out: "header_out 50 [] b (small_world e)"
  by (simp add: header_out_def pool_queue_repr_def home_header_def created_empty)

end
