(* ===== verification/Raspicam_Capture.thy ===== *)
theory Raspicam_Capture
  imports Raspicam Mmal_Port_Recycle
begin

text \<open>
  Opening the camera, capturing and releasing it, and the callbacks of its ports
  (\<^verbatim>\<open>src/private/private_impl.cpp\<close>): the frame that the callback of the video port copies out of a
  buffer, what the user then reads, and the critical sections of a thread that waits for a frame.
\<close>

section \<open>Creating and destroying the camera component\<close>

definition MMAL_CAMERA_VIDEO_PORT :: nat where "MMAL_CAMERA_VIDEO_PORT = 1"
definition VIDEO_OUTPUT_BUFFERS_NUM :: u32 where "VIDEO_OUTPUT_BUFFERS_NUM = 3"
definition VIDEO_FRAME_RATE_DEN :: int where "VIDEO_FRAME_RATE_DEN = 1"
definition MMAL_PARAM_TIMESTAMP_MODE_RESET_STC :: u32 where "MMAL_PARAM_TIMESTAMP_MODE_RESET_STC = 2"
definition MMAL_COMPONENT_DEFAULT_CAMERA :: string where "MMAL_COMPONENT_DEFAULT_CAMERA = ''vc.ril.camera''"

definition CAMERA_CONTROL_CB :: nat where "CAMERA_CONTROL_CB = 4"
definition VIDEO_BUFFER_CB :: nat where "VIDEO_BUFFER_CB = 5"

definition mmal_port_pool_destroy :: "'x port_ops \<Rightarrow> ptr \<Rightarrow> ptr \<Rightarrow> 'x pst \<Rightarrow> 'x pst outcome" where
  "mmal_port_pool_destroy c port pool s =
     (case (port, pool) of
        (Some p, Some pl) \<Rightarrow>
          andthen (if po_is_enabled (port_of s p) then mmal_port_disable c (Some p) s else ret (MMAL_SUCCESS, s))
            (\<lambda>(_, s1). ret (mmal_pool_destroy (pp_pools c) (Some pl) s1))
      | _ \<Rightarrow> ret s)"

definition destroy_camera_component :: "('f, 'y) raspicam port_ops \<Rightarrow> ('f, 'y) cam_step" where
  "destroy_camera_component c s =
     (let cam = rs_camera_component (state_of s) in
      andthen (case rs_video_pool (state_of s) of
                 None \<Rightarrow> ret s
               | Some pool \<Rightarrow> andthen (or_faults (output_port cam MMAL_CAMERA_VIDEO_PORT s)) (\<lambda>p.
                   mmal_port_pool_destroy c (Some p) (Some pool) s)) (\<lambda>s1.
      case cam of
        None \<Rightarrow> ret s1
      | Some a \<Rightarrow> andthen (mmal_component_destroy c (Some a) s1) (\<lambda>(_, s2).
          ret (upd_state (\<lambda>S. S\<lparr>rs_camera_component := None\<rparr>) s2))))"

text \<open>Every error of \<open>create_camera_component\<close> destroys the component and returns null.\<close>

definition camera_error :: "'x port_ops \<Rightarrow> addr \<Rightarrow> 'x pst \<Rightarrow> (ptr \<times> 'x pst) outcome" where
  "camera_error c a s = andthen (mmal_component_destroy c (Some a) s) (\<lambda>(_, s1). ret (None, s1))"

definition camera_config :: "u32 \<Rightarrow> u32 \<Rightarrow> u32 list" where
  "camera_config w h = [w, h, 0, 0, w, h, 3, 0, 0, MMAL_PARAM_TIMESTAMP_MODE_RESET_STC]"

text \<open>The words of a video format: its size, the crop rectangle and the frame rate.\<close>

definition video_words :: "u32 \<Rightarrow> u32 \<Rightarrow> u32 \<Rightarrow> u32 \<Rightarrow> u32 \<Rightarrow> u32 \<Rightarrow> u32 list" where
  "video_words w h crop_w crop_h rate_num rate_den = [w, h, 0, 0, crop_w, crop_h, rate_num, rate_den]"

definition set_video_format :: "addr \<Rightarrow> (es_format \<Rightarrow> es_format) \<Rightarrow> u32 list \<Rightarrow> 'x pst \<Rightarrow> 'x pst" where
  "set_video_format f g ws s =
     (let st = upd_fmt f g (w_fmt (ps_env s)); e = ef_es (fs_format st f)
      in on_fmt (st\<lparr>fs_es := (fs_es st)(e := ws @ drop (length ws) (fs_es st e))\<rparr>) s)"

definition configure_video_port :: "('f, 'y) raspicam port_ops \<Rightarrow> addr \<Rightarrow> ('f, 'y) cam_step" where
  "configure_video_port c p s =
     (let S = state_of s; e = convertFormat (rc_rgb_bgr_fixed (cam_of s)) (rs_captureFtm S) in
      andthen (or_faults (po_format (port_of s p))) (\<lambda>f.
      andthen (or_faults (VCOS_ALIGN_UP (rs_width S) 32)) (\<lambda>w.
      andthen (or_faults (VCOS_ALIGN_UP (rs_height S) 16)) (\<lambda>h.
        ret (set_video_format f (\<lambda>x. x\<lparr>ef_encoding_variant := e, ef_encoding := e\<rparr>)
               (video_words (word_of_int w) (word_of_int h) (uint_of_int (rs_width S)) (uint_of_int (rs_height S))
                  (uint_of_int (rs_framerate S)) (word_of_int VIDEO_FRAME_RATE_DEN)) s)))))"

text \<open>The part after the format has been committed and the port has been enabled. A missing pool is
  only reported.\<close>

definition finish_camera :: "('f, 'y) raspicam port_ops \<Rightarrow> addr \<Rightarrow> addr \<Rightarrow> ('f, 'y) cam \<Rightarrow> (ptr \<times> ('f, 'y) cam) outcome" where
  "finish_camera c a p s =
     (let s1 = upd_port p (\<lambda>P. P\<lparr>po_buffer_num := (if po_buffer_num P < VIDEO_OUTPUT_BUFFERS_NUM
                                   then VIDEO_OUTPUT_BUFFERS_NUM else po_buffer_num P)\<rparr>) s;
          s2 = upd_port p (\<lambda>P. P\<lparr>po_buffer_size := po_buffer_size_recommended P,
                                po_buffer_num := po_buffer_num_recommended P\<rparr>) s1 in
      andthen (mmal_port_pool_create c (Some p) (po_buffer_num (port_of s2 p)) (po_buffer_size (port_of s2 p)) s2)
        (\<lambda>(pool, s3).
      or_else (mmal_component_enable c (Some a) (upd_state (\<lambda>S. S\<lparr>rs_video_pool := pool\<rparr>) s3))
        (\<lambda>s4. ret (Some a, upd_state (\<lambda>S. S\<lparr>rs_camera_component := Some a\<rparr>) s4))
        (\<lambda>_ s4. camera_error c a s4)))"

definition configure_camera ::
  "('f, 'y) raspicam port_ops \<Rightarrow> ('f, 'y) cam_ops \<Rightarrow> addr \<Rightarrow> addr \<Rightarrow> ('f, 'y) cam \<Rightarrow> (ptr \<times> ('f, 'y) cam) outcome" where
  "configure_camera c k a p s =
     (let S = state_of s; err = (\<lambda>_ s. camera_error c a s) in
      andthen (if rs_sensor_mode S \<noteq> 0
               then void (control_set c (Some a) MMAL_PARAMETER_CAMERA_CUSTOM_SENSOR_CONFIG [uint_of_int (rs_sensor_mode S)] s)
               else ret s) (\<lambda>s1.
      andthen (cm_rgb_order_fixed k p s1) (\<lambda>(fixed, s2).
      andthen (void (control_set c (Some a) MMAL_PARAMETER_CAMERA_CONFIG
                 (camera_config (uint_of_int (rs_width S)) (uint_of_int (rs_height S)))
                 (upd_env (\<lambda>r. r\<lparr>rc_rgb_bgr_fixed := (fixed = 0)\<rparr>) s2))) (\<lambda>s3.
      or_else (control_set c (Some a) MMAL_PARAMETER_CHANGE_EVENT_REQUEST [MMAL_PARAMETER_CAMERA_SETTINGS, 1] s3) (\<lambda>s4.
      or_else (mmal_port_enable c (co_control (comp_of s4 a)) (Some CAMERA_CONTROL_CB) s4) (\<lambda>s5.
      andthen (configure_video_port c p s5) (\<lambda>s6.
      or_else (mmal_port_format_commit c (Some p) s6) (\<lambda>s7.
      or_else (mmal_port_enable c (Some p) (Some VIDEO_BUFFER_CB) s7) (finish_camera c a p) err) err)) err) err))))"

definition create_camera_component ::
  "('f, 'y) raspicam port_ops \<Rightarrow> ('f, 'y) cam_ops \<Rightarrow> ('f, 'y) cam \<Rightarrow> (ptr \<times> ('f, 'y) cam) outcome" where
  "create_camera_component c k s =
     andthen (mmal_component_create c MMAL_COMPONENT_DEFAULT_CAMERA True s) (\<lambda>(status, camera, s1).
       if status \<noteq> MMAL_SUCCESS then ret (None, s1)
       else case camera of
         None \<Rightarrow> Some Faults
       | Some a \<Rightarrow>
           if co_output (comp_of s1 a) = [] then camera_error c a s1
           else andthen (or_faults (output_port (Some a) MMAL_CAMERA_VIDEO_PORT s1)) (\<lambda>p.
             configure_camera c k a p s1))"

section \<open>Opening, capturing, releasing\<close>

definition release :: "('f, 'y) raspicam port_ops \<Rightarrow> ('f, 'y) cam_step" where
  "release c s =
     (if \<not> rc_isOpened (cam_of s) then ret s
      else
        andthen (case rc_video_port (cam_of s) of
                   None \<Rightarrow> ret s
                 | Some p \<Rightarrow>
                     if po_is_enabled (port_of s p)
                     then andthen (mmal_port_disable c (Some p) s) (\<lambda>(_, s1).
                            ret (upd_env (\<lambda>r. r\<lparr>rc_video_port := None\<rparr>) s1))
                     else ret s) (\<lambda>s1.
        andthen (case rs_camera_component (state_of s1) of
                   None \<Rightarrow> ret s1 | Some a \<Rightarrow> void (mmal_component_disable c (Some a) s1)) (\<lambda>s2.
        andthen (destroy_camera_component c s2) (\<lambda>s3.
        ret (upd_env (\<lambda>r. r\<lparr>rc_isOpened := False, rc_isCapturing := False\<rparr>) s3)))))"

text \<open>Sending the \<open>num\<close> headers of the pool; the header is used also when there is none.\<close>

fun send_all_buffers :: "'x port_ops \<Rightarrow> addr \<Rightarrow> addr \<Rightarrow> nat \<Rightarrow> 'x pst \<Rightarrow> 'x pst outcome" where
  "send_all_buffers c p pool 0 s = ret s"
| "send_all_buffers c p pool (Suc n) s =
     andthen (or_blocks (pool_queue_get pool s)) (\<lambda>(b, s1).
     andthen (or_faults b) (\<lambda>b.
     andthen (mmal_port_send_buffer c (Some p) b s1) (\<lambda>(_, s2). send_all_buffers c p pool n s2)))"

definition startCapture :: "('f, 'y) raspicam port_ops \<Rightarrow> ('f, 'y) cam \<Rightarrow> (bool \<times> ('f, 'y) cam) outcome" where
  "startCapture c s =
     (if \<not> rc_isOpened (cam_of s) then ret (False, s)
      else or_else (mmal_port_parameter_set c (rc_video_port (cam_of s)) (Some (words_param MMAL_PARAMETER_CAPTURE [1])) s)
        (\<lambda>s1. andthen (or_faults (rs_video_pool (state_of s1))) (\<lambda>pool.
              andthen (or_faults (rc_video_port (cam_of s1))) (\<lambda>p.
              andthen (send_all_buffers c p pool (unat (mmal_queue_length (pl_queue (ps_pool s1 pool), s1))) s1) (\<lambda>s2.
              ret (True, upd_env (\<lambda>r. r\<lparr>rc_isCapturing := True\<rparr>) s2)))))
        (\<lambda>_ s1. andthen (release c s1) (\<lambda>s2. ret (False, s2))))"

definition set_userdata :: "('f, 'y) cam_ops \<Rightarrow> ptr \<Rightarrow> ('f, 'y) cam_step" where
  "set_userdata k port s =
     andthen (or_faults port) (\<lambda>p. ret (upd_port p (\<lambda>P. P\<lparr>po_userdata := Some (cm_callback_data k)\<rparr>) s))"

definition open_camera ::
  "('f, 'y) raspicam port_ops \<Rightarrow> ('f, 'y) cam_ops \<Rightarrow> bool \<Rightarrow> ('f, 'y) cam \<Rightarrow> (bool \<times> ('f, 'y) cam) outcome" where
  "open_camera c k StartCapture s =
     (if rc_isOpened (cam_of s) then ret (False, s)
      else andthen (create_camera_component c k s) (\<lambda>(camera, s1).
        case camera of
          None \<Rightarrow> ret (False, s1)
        | Some _ \<Rightarrow>
            andthen (commitParameters c k s1) (\<lambda>s2.
            let cam = rs_camera_component (state_of s2) in
            andthen (or_faults (output_port cam MMAL_CAMERA_VIDEO_PORT s2)) (\<lambda>p.
            andthen (set_userdata k (Some p) (upd_env (\<lambda>r. r\<lparr>rc_video_port := Some p\<rparr>) s2)) (\<lambda>s3.
            andthen (set_userdata k (Option.bind cam (\<lambda>a. co_control (comp_of s3 a))) s3) (\<lambda>s4.
            let s5 = upd_env (\<lambda>r. r\<lparr>rc_isOpened := True\<rparr>) s4 in
            if StartCapture then startCapture c s5 else ret (True, s5)))))))"

section \<open>Taking a frame out of a buffer\<close>

text \<open>\<open>membuf::resize\<close>: another array when the size changes.\<close>

definition membuf_resize :: "('f, 'y) cam_ops \<Rightarrow> nat \<Rightarrow> 8 word list \<Rightarrow> 8 word list" where
  "membuf_resize k n data = (if n \<noteq> length data then map (cm_fresh k) [0..<n] else data)"

text \<open>The source and the destination of a \<open>memcpy\<close>; \<open>None\<close> when it leaves the payload or the array.\<close>

definition payload_bytes :: "addr \<Rightarrow> 'x pst \<Rightarrow> int \<Rightarrow> int \<Rightarrow> 8 word list option" where
  "payload_bytes b s off n =
     (case bh_data (bufs s b) of
        None \<Rightarrow> None
      | Some a \<Rightarrow>
          if 0 \<le> off \<and> 0 \<le> n \<and> off + n \<le> uint (bh_alloc_size (bufs s b))
          then Some (map (\<lambda>i. w_bytes (ps_env s) (a + nat off + i)) [0..<nat n]) else None)"

definition write_at :: "int \<Rightarrow> 'a list \<Rightarrow> 'a list \<Rightarrow> 'a list option" where
  "write_at off bs data =
     (if 0 \<le> off \<and> off + int (length bs) \<le> int (length data)
      then Some (take (nat off) data @ bs @ drop (nat off + length bs) data) else None)"

text \<open>\<open>for (i = 0; i < n; i++) memcpy(to + i * width, from + i * stride, width)\<close>\<close>

fun copy_rows ::
  "(int \<Rightarrow> int \<Rightarrow> 'a list option) \<Rightarrow> int \<Rightarrow> int \<Rightarrow> int \<Rightarrow> int \<Rightarrow> int \<Rightarrow> nat \<Rightarrow> 'a list \<Rightarrow> 'a list option" where
  "copy_rows src from stride to width i 0 data = Some data"
| "copy_rows src from stride to width i (Suc n) data =
     Option.bind (i32 (i * stride)) (\<lambda>a.
     Option.bind (i32 (i * width)) (\<lambda>b.
     Option.bind (src (from + a) width) (\<lambda>bs.
     Option.bind (write_at (to + b) bs data) (copy_rows src from stride to width (i + 1) n))))"

text \<open>The branch for a padded buffer: the rows of the image, and for YUV the rows of both planes of
  colours.\<close>

definition copy_image ::
  "(int \<Rightarrow> int \<Rightarrow> 'a list option) \<Rightarrow> raspicam_format \<Rightarrow> int \<Rightarrow> int \<Rightarrow> int \<Rightarrow> int \<Rightarrow> 'a list \<Rightarrow> 'a list option" where
  "copy_image src fmt width height bufferWidth bufferHeight data =
     (let bpp = (if fmt = RASPICAM_FORMAT_RGB \<or> fmt = RASPICAM_FORMAT_BGR then 3 else 1) in
      Option.bind (copy_rows src 0 (bufferWidth * bpp) 0 (width * bpp) 0 (nat height) data) (\<lambda>data1.
      if fmt = RASPICAM_FORMAT_YUV420
      then
        Option.bind (i32 (width * height)) (\<lambda>outUV.
        Option.bind (i32 (bufferHeight * bufferWidth)) (\<lambda>bufferUV.
        let w = c_div width 2; h = c_div height 2; bw = c_div bufferWidth 2; bh = c_div bufferHeight 2 in
        Option.bind (copy_rows src bufferUV bw outUV w 0 (nat h) data1)
          (copy_rows src (bufferUV + bw * bh) bw (outUV + w * h) w 0 (nat h))))
      else Some data1))"

definition imageTypeSize :: "'f raspivid_state \<Rightarrow> raspicam_format \<Rightarrow> u32" where
  "imageTypeSize S fmt = getImageTypeSize (uint_of_int (rs_width S)) (uint_of_int (rs_height S)) fmt"

text \<open>What the callback leaves in \<open>_buffData\<close>.\<close>

definition frame_of :: "('f, 'y) cam_ops \<Rightarrow> addr \<Rightarrow> ('f, 'y) cam \<Rightarrow> 8 word list option" where
  "frame_of k b s =
     (let S = state_of s; fmt = rs_captureFtm S; n = bh_length (bufs s b); data = rc_buffData (cam_of s) in
      Option.bind (VCOS_ALIGN_UP (rs_width S) 32) (\<lambda>bufferWidth.
      Option.bind (VCOS_ALIGN_UP (rs_height S) 16) (\<lambda>bufferHeight.
      if bufferWidth = rs_width S
      then Option.bind (payload_bytes b s 0 (uint n)) (\<lambda>bs. write_at 0 bs (membuf_resize k (unat n) data))
      else copy_image (payload_bytes b s) fmt (rs_width S) (rs_height S) bufferWidth bufferHeight
             (membuf_resize k (unat (imageTypeSize S fmt)) data))))"

definition grab_frame :: "('f, 'y) cam_ops \<Rightarrow> addr \<Rightarrow> ('f, 'y) cam_step" where
  "grab_frame k b s =
     andthen (or_faults (frame_of k b s)) (\<lambda>data.
       ret (upd_env (\<lambda>r. r\<lparr>rc_buffData := data, rc_wantToGrab := False\<rparr>) s))"

section \<open>The callback of the video port\<close>

text \<open>The buffer goes back to its pool and the next one of the pool to the port.\<close>

definition recycle_buffer :: "('f, 'y) raspicam port_ops \<Rightarrow> addr \<Rightarrow> addr \<Rightarrow> ('f, 'y) cam_step" where
  "recycle_buffer c p b s =
     andthen (header_release c b s) (\<lambda>s1.
       if po_is_enabled (port_of s1 p)
       then andthen (or_faults (rs_video_pool (state_of s1))) (\<lambda>pool.
            andthen (or_blocks (pool_queue_get pool s1)) (\<lambda>(new_buffer, s2).
            case new_buffer of
              None \<Rightarrow> ret s2
            | Some nb \<Rightarrow> void (mmal_port_send_buffer c (Some p) nb s2)))
       else ret s1)"

definition keep_shutter_speed :: "('f, 'y) raspicam port_ops \<Rightarrow> ('f, 'y) cam_step" where
  "keep_shutter_speed c s =
     (if rs_shutterSpeed (state_of s) \<noteq> 0 \<and> rs_exposureMode (state_of s) = RASPICAM_EXPOSURE_FIXEDFPS
      then commitShutterSpeed c s else ret s)"

definition call_user :: "('f, 'y) cam_ops \<Rightarrow> ('f, 'y) cam_step" where
  "call_user k s =
     (case rc_userCallback (cam_of s) of None \<Rightarrow> ret s | Some f \<Rightarrow> cm_user k f (rc_userCallbackData (cam_of s)) s)"

text \<open>\<open>ThreadCondition::BroadCast\<close>; the waiting threads look at the flag once the lock is free.\<close>

definition BroadCast :: "('f, 'y) cam \<Rightarrow> ('f, 'y) cam" where
  "BroadCast = upd_env (\<lambda>r. r\<lparr>rc_ready := True\<rparr>)"

definition with_lock :: "('f, 'y) cam_step \<Rightarrow> ('f, 'y) cam_step" where
  "with_lock f s =
     (if rc_locked (cam_of s) then Some Blocks
      else andthen (f (upd_env (\<lambda>r. r\<lparr>rc_locked := True\<rparr>) s)) (\<lambda>s1. ret (upd_env (\<lambda>r. r\<lparr>rc_locked := False\<rparr>) s1)))"

definition wants_frame :: "addr \<Rightarrow> ('f, 'y) cam \<Rightarrow> bool" where
  "wants_frame b s \<longleftrightarrow> bh_length (bufs s b) \<noteq> 0
     \<and> (rc_userCallback (cam_of s) \<noteq> None \<or> rc_wantToGrab (cam_of s))"

definition video_buffer_body ::
  "('f, 'y) raspicam port_ops \<Rightarrow> ('f, 'y) cam_ops \<Rightarrow> addr \<Rightarrow> addr \<Rightarrow> ('f, 'y) cam_step" where
  "video_buffer_body c k p b s =
     (let hasGrabbed = wants_frame b s in
      andthen (if hasGrabbed then grab_frame k b s else ret s) (\<lambda>s1.
      andthen (recycle_buffer c p b s1) (\<lambda>s2.
      andthen (keep_shutter_speed c s2) (\<lambda>s3.
      if hasGrabbed then andthen (call_user k s3) (\<lambda>s4. ret (BroadCast s4)) else ret s3))))"

definition video_buffer_callback ::
  "('f, 'y) raspicam port_ops \<Rightarrow> ('f, 'y) cam_ops \<Rightarrow> addr \<Rightarrow> addr \<Rightarrow> ('f, 'y) cam_step" where
  "video_buffer_callback c k p b s =
     (case po_userdata (port_of s p) of
        None \<Rightarrow> Some Faults
      | Some _ \<Rightarrow> with_lock (video_buffer_body c k p b) s)"

section \<open>The callback of the control port\<close>

text \<open>The words of \<open>MMAL_PARAMETER_CAMERA_SETTINGS_T\<close>: the exposure, four gains and the focus.\<close>

definition apply_settings :: "('f, 'y) cam_ops \<Rightarrow> u32 list \<Rightarrow> 'f raspivid_state \<Rightarrow> 'f raspivid_state" where
  "apply_settings k ws S = S\<lparr>rs_shutterSpeed := int_of_uint (ws ! 0),
     rs_awbg_red := float_quot k (sint (ws ! 5)) (sint (ws ! 6)),
     rs_awbg_blue := float_quot k (sint (ws ! 7)) (sint (ws ! 8))\<rparr>"

definition camera_control_callback ::
  "('f, 'y) raspicam port_ops \<Rightarrow> ('f, 'y) cam_ops \<Rightarrow> addr \<Rightarrow> addr \<Rightarrow> ('f, 'y) cam_step" where
  "camera_control_callback c k p b s =
     (case po_userdata (port_of s p) of
        None \<Rightarrow> Some Faults
      | Some _ \<Rightarrow> with_lock (\<lambda>s1.
          if bh_cmd (bufs s1 b) = MMAL_EVENT_PARAMETER_CHANGED
          then andthen (or_faults (bh_data (bufs s1 b))) (\<lambda>d.
               let param = (case w_event (ps_env s1) d of EventParameter x \<Rightarrow> x | e \<Rightarrow> cm_read k e) in
               header_release c b
                 (if pm_id param = MMAL_PARAMETER_CAMERA_SETTINGS then upd_state (apply_settings k (pm_data param)) s1
                  else s1))
          else header_release c b s1) s)"

section \<open>Waiting for a frame and reading it\<close>

text \<open>The two critical sections of \<open>grab\<close>: the request, and the look at the flag of a thread that has
  been woken up. A thread that finds the flag false waits again.\<close>

definition grab_request :: "('f, 'y) cam \<Rightarrow> (bool \<times> ('f, 'y) cam) outcome" where
  "grab_request s =
     (if \<not> rc_isCapturing (cam_of s) then ret (False, s)
      else andthen (with_lock (\<lambda>s1. ret (upd_env (\<lambda>r. r\<lparr>rc_wantToGrab := True, rc_ready := False\<rparr>) s1)) s)
             (\<lambda>s1. ret (True, s1)))"

definition grab_look :: "('f, 'y) cam \<Rightarrow> bool outcome" where
  "grab_look s = (if rc_locked (cam_of s) then Some Blocks else ret (rc_ready (cam_of s)))"

text \<open>The bytes that \<open>retrieve\<close> writes to the memory of the user.\<close>

definition retrieve :: "('f, 'y) cam \<Rightarrow> 8 word list option outcome" where
  "retrieve s =
     (let data = rc_buffData (cam_of s); n = unat (imageTypeSize (state_of s) (rs_captureFtm (state_of s))) in
      if data = [] then ret None
      else if n \<le> length data then ret (Some (take n data)) else Some Faults)"

definition getImageBufferSize :: "('f, 'y) cam \<Rightarrow> u32" where
  "getImageBufferSize s = imageTypeSize (state_of s) (rs_captureFtm (state_of s))"

section \<open>A small camera\<close>

definition small_camera :: "('f, 'y) raspicam \<Rightarrow> ('f, 'y) cam" where
  "small_camera r = small_world (r\<lparr>rc_state := (rc_state r)\<lparr>rs_camera_component := Some 1, rs_video_pool := Some 50\<rparr>\<rparr>)"

lemma small_camera_simps [simp]:
  "cam_of (small_camera r) = r\<lparr>rc_state := (rc_state r)\<lparr>rs_camera_component := Some 1, rs_video_pool := Some 50\<rparr>\<rparr>"
  "w_port (ps_env (small_camera r)) = w_port (ps_env (small_world r))" "w_comp (ps_env (small_camera r)) = w_comp (ps_env (small_world r))"
  "w_bytes (ps_env (small_camera r)) = word_of_nat" "bufs (small_camera r) = bufs (small_world r)"
  "ps_pool (small_camera r) = ps_pool (small_world r)"
  by (simp_all add: small_camera_def) (simp_all add: small_world_def)

end
