(* ===== verification/Raspicam_Image.thy ===== *)
theory Raspicam_Image
  imports Raspicam_Capture
begin

text \<open>
  The image that the callback of the video port takes out of a padded buffer: the loops of \<open>memcpy\<close>
  against a definition by rows, and the case in which the planes of a YUV image end up in the wrong place.
\<close>

section \<open>The image in a padded buffer\<close>

text \<open>The rows of a plane that starts at \<open>from\<close> of \<open>f\<close>, without their padding.\<close>

definition plane_row :: "(nat \<Rightarrow> 'a) \<Rightarrow> nat \<Rightarrow> nat \<Rightarrow> 'a list" where
  "plane_row f a n = map (\<lambda>x. f (a + x)) [0..<n]"

definition plane :: "(nat \<Rightarrow> 'a) \<Rightarrow> nat \<Rightarrow> nat \<Rightarrow> nat \<Rightarrow> nat \<Rightarrow> 'a list" where
  "plane f from stride width height = concat (map (\<lambda>y. plane_row f (from + y * stride) width) [0..<height])"

lemma length_plane_row [simp]: "length (plane_row f a n) = n"
  by (simp add: plane_row_def)

lemma length_plane [simp]: "length (plane f from stride width height) = height * width"
  by (simp add: plane_def length_concat o_def sum_list_triv)

lemma nth_plane:
  assumes "x < width" and "y < height"
  shows "plane f from stride width height ! (y * width + x) = f (from + y * stride + x)"
  using assms(2)
proof (induction height)
  case (Suc h)
  have s: "plane f from stride width (Suc h) = plane f from stride width h @ plane_row f (from + h * stride) width"
    by (simp add: plane_def)
  show ?case
  proof (cases "y < h")
    case True
    have "y * width + x < h * width"
      using True assms(1) by (metis add.commute add_less_cancel_left less_le_trans mult_Suc mult_le_mono1 Suc_leI)
    then show ?thesis using Suc.IH True by (simp add: s nth_append)
  next
    case False
    then have "y = h" using Suc.prems by simp
    then show ?thesis using assms(1) by (simp add: s nth_append plane_row_def)
  qed
qed simp

definition padded_width :: "nat \<Rightarrow> nat" where "padded_width w = (w + 31) div 32 * 32"
definition padded_height :: "nat \<Rightarrow> nat" where "padded_height h = (h + 15) div 16 * 16"

text \<open>What a user of the camera expects of an image of \<open>w\<close> by \<open>h\<close>: the rows of a packed format; for
  YUV the luminance followed by the two planes of colours, which have half the size.\<close>

definition image_of :: "(nat \<Rightarrow> 'a) \<Rightarrow> raspicam_format \<Rightarrow> nat \<Rightarrow> nat \<Rightarrow> 'a list" where
  "image_of f fmt w h =
     (let bw = padded_width w; bh = padded_height h in
      case fmt of
        RASPICAM_FORMAT_YUV420 \<Rightarrow> plane f 0 bw w h @ plane f (bw * bh) (bw div 2) (w div 2) (h div 2)
          @ plane f (bw * bh + bw div 2 * (bh div 2)) (bw div 2) (w div 2) (h div 2)
      | RASPICAM_FORMAT_GRAY \<Rightarrow> plane f 0 bw w h
      | RASPICAM_FORMAT_IGNORE \<Rightarrow> []
      | _ \<Rightarrow> plane f 0 (3 * bw) (3 * w) h)"

text \<open>The bytes of a buffer of that size.\<close>

definition padded_size :: "raspicam_format \<Rightarrow> nat \<Rightarrow> nat \<Rightarrow> nat" where
  "padded_size fmt w h =
     (let n = padded_width w * padded_height h in
      if fmt = RASPICAM_FORMAT_RGB \<or> fmt = RASPICAM_FORMAT_BGR then 3 * n else n + 2 * (padded_width w div 2 * (padded_height h div 2)))"

section \<open>The loops\<close>

lemma write_at_middle:
  "length mid = length bs \<Longrightarrow> off = int (length pre) \<Longrightarrow> write_at off bs (pre @ mid @ post) = Some (pre @ bs @ post)"
  by (simp add: write_at_def)

definition reads :: "(int \<Rightarrow> int \<Rightarrow> 'a list option) \<Rightarrow> (nat \<Rightarrow> 'a) \<Rightarrow> nat \<Rightarrow> bool" where
  "reads src f m \<longleftrightarrow> (\<forall>a n. a + n \<le> m \<longrightarrow> src (int a) (int n) = Some (plane_row f a n))"

lemma readsD: "reads src f m \<Longrightarrow> a + n \<le> m \<Longrightarrow> src (int a) (int n) = Some (plane_row f a n)"
  by (simp add: reads_def)

lemma copy_rows_rows:
  assumes src: "reads src f m"
    and "from + (i + n) * stride \<le> m" and "width \<le> stride" and "(i + n) * stride < 2 ^ 31"
    and "length pre = to + i * width" and "length mid = n * width"
  shows "copy_rows src (int from) (int stride) (int to) (int width) (int i) n (pre @ mid @ post)
    = Some (pre @ concat (map (\<lambda>y. plane_row f (from + y * stride) width) [i..<i + n]) @ post)"
  using assms(2,4-)
proof (induction n arbitrary: i pre mid)
  case (Suc n)
  obtain row rest where mid: "mid = row @ rest" "length row = width" "length rest = n * width"
    using Suc.prems(4) by (metis append_take_drop_id length_drop length_take min_absorb2 le_add1 mult_Suc diff_add_inverse)
  have step: "(i + Suc n) * stride = i * stride + stride + n * stride" by (simp add: algebra_simps)
  have le: "i * width \<le> i * stride" using assms(3) by simp
  have r: "src (int (from + i * stride)) (int width) = Some (plane_row f (from + i * stride) width)"
  proof -
    have "from + i * stride + width \<le> m" using assms(3) Suc.prems(1) step by linarith
    then show ?thesis using src by (rule readsD [rotated])
  qed
  have i: "in_i32 (int (i * stride))" "in_i32 (int (i * width))"
    using Suc.prems(2) step le by (intro in_i32_nat; linarith)+
  have w: "write_at (int (to + i * width)) (plane_row f (from + i * stride) width) (pre @ row @ rest @ post)
      = Some (pre @ plane_row f (from + i * stride) width @ rest @ post)"
    using mid(2) Suc.prems(3) by (intro write_at_middle) simp_all
  have IH: "copy_rows src (int from) (int stride) (int to) (int width) (int (Suc i)) n
        ((pre @ plane_row f (from + i * stride) width) @ rest @ post)
      = Some ((pre @ plane_row f (from + i * stride) width)
          @ concat (map (\<lambda>y. plane_row f (from + y * stride) width) [Suc i..<Suc i + n]) @ post)"
    by (rule Suc.IH) (use Suc.prems mid in \<open>simp_all add: algebra_simps\<close>)
  have "[i..<i + Suc n] = i # [Suc i..<Suc i + n]" by (simp add: upt_conv_Cons)
  with r i w IH show ?case by (simp add: mid(1) i32_def add.commute [of 1])
qed simp

lemma copy_rows_plane:
  assumes "reads src f m" and "from + n * stride \<le> m" and "width \<le> stride" and "n * stride < 2 ^ 31"
    and "length pre = to" and "length mid = n * width"
  shows "copy_rows src (int from) (int stride) (int to) (int width) 0 n (pre @ mid @ post)
    = Some (pre @ plane f from stride width n @ post)"
  using copy_rows_rows [OF assms(1), where i = 0 and n = n] assms(2-) by (simp add: plane_def)

section \<open>The image as a whole\<close>

lemma c_div_int: "c_div (int a) (int b) = int (a div b)"
  by (auto simp: c_div_def zdiv_int sgn_if)

lemma padded_bounds: "w \<le> padded_width w" "h \<le> padded_height h" "2 dvd padded_width w" "2 dvd padded_height h"
  unfolding padded_width_def padded_height_def by presburger+

lemma half_product: "2 dvd a \<Longrightarrow> 2 dvd b \<Longrightarrow> 4 * (a div 2 * (b div 2)) = a * (b :: nat)"
  by (auto elim!: dvdE)

definition image_size :: "raspicam_format \<Rightarrow> nat \<Rightarrow> nat \<Rightarrow> nat" where
  "image_size fmt w h =
     (case fmt of RASPICAM_FORMAT_YUV420 \<Rightarrow> w * h + 2 * (w div 2 * (h div 2))
      | RASPICAM_FORMAT_GRAY \<Rightarrow> w * h | RASPICAM_FORMAT_IGNORE \<Rightarrow> 0 | _ \<Rightarrow> 3 * w * h)"

lemma length_image_of [simp]: "length (image_of f fmt w h) = image_size fmt w h"
  by (cases fmt) (simp_all add: image_of_def image_size_def Let_def algebra_simps)

lemma split_list_at: "n \<le> length xs \<Longrightarrow> \<exists>ys zs. xs = ys @ zs \<and> length ys = n"
  by (metis append_take_drop_id length_take min_absorb2)

lemma copy_first_plane:
  assumes "reads src f m" and "padded_height h * stride \<le> m" and "width \<le> stride"
    and "padded_height h * stride < 2 ^ 31" and "length mid = h * width"
  shows "copy_rows src 0 (int stride) 0 (int width) 0 h (mid @ post) = Some (plane f 0 stride width h @ post)"
proof -
  have "h * stride \<le> padded_height h * stride" by (intro mult_le_mono1 padded_bounds)
  with assms have b: "0 + h * stride \<le> m" "h * stride < 2 ^ 31" by linarith+
  show ?thesis using copy_rows_plane [OF assms(1) b(1) assms(3) b(2) _ assms(5), of "[]" 0] by simp
qed

lemma copy_image_packed:
  assumes "reads src f m" and "padded_size fmt w h \<le> m" and "padded_size fmt w h < 2 ^ 31"
    and "fmt \<in> {RASPICAM_FORMAT_RGB, RASPICAM_FORMAT_BGR, RASPICAM_FORMAT_GRAY}" and "length data = image_size fmt w h"
  shows "copy_image src fmt (int w) (int h) (int (padded_width w)) (int (padded_height h)) data = Some (image_of f fmt w h)"
proof -
  obtain bpp :: nat where bpp: "bpp = (if fmt = RASPICAM_FORMAT_GRAY then 1 else 3)" by blast
  have sz: "padded_height h * (padded_width w * bpp) \<le> padded_size fmt w h"
    using assms(4) bpp by (auto simp: padded_size_def Let_def)
  have len: "length data = h * (w * bpp)" using assms(4,5) bpp by (auto simp: image_size_def)
  have "copy_rows src 0 (int (padded_width w * bpp)) 0 (int (w * bpp)) 0 h (data @ [])
      = Some (plane f 0 (padded_width w * bpp) (w * bpp) h @ [])"
    by (rule copy_first_plane [OF assms(1)]) (use sz assms(2,3) len padded_bounds(1) in \<open>auto intro: mult_le_mono1\<close>)
  then show ?thesis
    using assms(4) bpp by (auto simp: copy_image_def image_of_def Let_def mult.commute)
qed

lemma copy_image_yuv:
  assumes "reads src f m" and sz: "padded_size RASPICAM_FORMAT_YUV420 w h \<le> m" "padded_size RASPICAM_FORMAT_YUV420 w h < 2 ^ 31"
    and "length data = image_size RASPICAM_FORMAT_YUV420 w h"
  shows "copy_image src RASPICAM_FORMAT_YUV420 (int w) (int h) (int (padded_width w)) (int (padded_height h)) data
    = Some (image_of f RASPICAM_FORMAT_YUV420 w h)"
proof -
  let ?bw = "padded_width w" and ?bh = "padded_height h"
  let ?q = "?bw div 2 * (?bh div 2)" and ?o = "w div 2 * (h div 2)"
  have n: "?bw * ?bh + 2 * ?q \<le> m" "?bw * ?bh + 2 * ?q < 2 ^ 31"
    using sz by (simp_all add: padded_size_def Let_def)
  obtain Y U V where data: "data = Y @ U @ V" "length Y = h * w" "length U = h div 2 * (w div 2)" "length V = h div 2 * (w div 2)"
  proof -
    have "length data = h * w + (h div 2 * (w div 2) + h div 2 * (w div 2))"
      using assms(4) by (simp add: image_size_def algebra_simps)
    then obtain Y R where Y: "data = Y @ R" "length Y = h * w" "length R = h div 2 * (w div 2) + h div 2 * (w div 2)"
      using split_list_at [of "h * w" data] by auto
    then obtain U V where "R = U @ V" "length U = h div 2 * (w div 2)" "length V = h div 2 * (w div 2)"
      using split_list_at [of "h div 2 * (w div 2)" R] by auto
    with Y show ?thesis using that by blast
  qed
  have wh: "w * h \<le> ?bw * ?bh" by (intro mult_le_mono padded_bounds)
  have rows: "h div 2 * (?bw div 2) \<le> ?q" "w div 2 \<le> ?bw div 2"
    using padded_bounds [of h] padded_bounds [of w] by (simp_all add: div_le_mono mult.commute mult_le_mono1)
  have 1: "copy_rows src 0 (int ?bw) 0 (int w) 0 h (Y @ U @ V) = Some (plane f 0 ?bw w h @ U @ V)"
    by (rule copy_first_plane [OF assms(1)]) (use n data padded_bounds(1) in \<open>auto simp: mult.commute\<close>)
  have 2: "copy_rows src (int (?bw * ?bh)) (int (?bw div 2)) (int (w * h)) (int (w div 2)) 0 (h div 2) (plane f 0 ?bw w h @ U @ V)
      = Some (plane f 0 ?bw w h @ plane f (?bw * ?bh) (?bw div 2) (w div 2) (h div 2) @ V)"
    by (rule copy_rows_plane [OF assms(1)]) ((use n rows in linarith)+, simp_all add: data(2-4) algebra_simps)
  have 3: "copy_rows src (int (?bw * ?bh + ?q)) (int (?bw div 2)) (int (w * h + ?o)) (int (w div 2)) 0 (h div 2)
        ((plane f 0 ?bw w h @ plane f (?bw * ?bh) (?bw div 2) (w div 2) (h div 2)) @ V @ [])
      = Some ((plane f 0 ?bw w h @ plane f (?bw * ?bh) (?bw div 2) (w div 2) (h div 2))
          @ plane f (?bw * ?bh + ?q) (?bw div 2) (w div 2) (h div 2) @ [])"
    by (rule copy_rows_plane [OF assms(1)]) ((use n rows in linarith)+, simp_all add: data(2-4) algebra_simps)
  have i: "in_i32 (int (w * h))" "in_i32 (int (?bh * ?bw))"
    using wh n by (intro in_i32_nat; simp add: mult.commute)+
  have d: "c_div (int a) 2 = int (a div 2)" for a using c_div_int [of a 2] by simp
  show ?thesis
    using 1 2 3 i by (simp add: copy_image_def image_of_def data(1) d i32_def Let_def
        mult.commute [of "int ?bh" "int ?bw"])
qed

section \<open>The frame that the callback keeps\<close>

text \<open>The sizes the camera is set to, as natural numbers, and a buffer that holds an image of them.\<close>

definition sized :: "nat \<Rightarrow> nat \<Rightarrow> ('f, 'y) cam \<Rightarrow> bool" where
  "sized w h s \<longleftrightarrow> rs_width (state_of s) = int w \<and> rs_height (state_of s) = int h
     \<and> 0 < w \<and> 0 < h \<and> padded_size (rs_captureFtm (state_of s)) w h < 2 ^ 31 \<and> w < 2 ^ 30 \<and> h < 2 ^ 30"

definition payload_of :: "('f, 'y) cam \<Rightarrow> addr \<Rightarrow> nat \<Rightarrow> 8 word" where
  "payload_of s b = (\<lambda>i. w_bytes (ps_env s) (the (bh_data (bufs s b)) + i))"

definition holds_frame :: "nat \<Rightarrow> nat \<Rightarrow> addr \<Rightarrow> ('f, 'y) cam \<Rightarrow> bool" where
  "holds_frame w h b s \<longleftrightarrow> bh_data (bufs s b) \<noteq> None \<and> bh_length (bufs s b) \<le> bh_alloc_size (bufs s b)
     \<and> padded_size (rs_captureFtm (state_of s)) w h \<le> unat (bh_length (bufs s b))"

lemma payload_reads:
  assumes "bh_data (bufs s b) \<noteq> None" and "m \<le> unat (bh_alloc_size (bufs s b))"
  shows "reads (payload_bytes b s) (payload_of s b) m"
proof -
  obtain a where a: "bh_data (bufs s b) = Some a" using assms(1) by blast
  have "payload_bytes b s (int i) (int n) = Some (plane_row (payload_of s b) i n)" if "i + n \<le> m" for i n
  proof -
    have "int i + int n \<le> uint (bh_alloc_size (bufs s b))"
      using that assms(2) unfolding uint_nat by linarith
    then have "payload_bytes b s (int i) (int n) = Some (map (\<lambda>j. w_bytes (ps_env s) (a + i + j)) [0..<n])"
      unfolding payload_bytes_def a by (simp only: option.case nat_int of_nat_0_le_iff simp_thms if_True)
    then show ?thesis by (simp add: payload_of_def plane_row_def a add.assoc)
  qed
  then show ?thesis unfolding reads_def by blast
qed

lemma sized_bounds:
  assumes "sized w h s"
  shows "VCOS_ALIGN_UP (rs_width (state_of s)) 32 = Some (int (padded_width w))"
    and "VCOS_ALIGN_UP (rs_height (state_of s)) 16 = Some (int (padded_height h))"
    and "image_size (rs_captureFtm (state_of s)) w h \<le> padded_size (rs_captureFtm (state_of s)) w h"
proof -
  have "in_i32 (int w + 31)" "in_i32 (int h + 15)" using assms by (simp_all add: sized_def in_i32_def)
  then show "VCOS_ALIGN_UP (rs_width (state_of s)) 32 = Some (int (padded_width w))"
    "VCOS_ALIGN_UP (rs_height (state_of s)) 16 = Some (int (padded_height h))"
    using assms by (simp_all add: sized_def VCOS_ALIGN_UP_eq padded_width_def padded_height_def zdiv_int)
  have "w * h \<le> padded_width w * padded_height h" "w div 2 * (h div 2) \<le> padded_width w div 2 * (padded_height h div 2)"
    by (intro mult_le_mono div_le_mono padded_bounds)+
  then show "image_size (rs_captureFtm (state_of s)) w h \<le> padded_size (rs_captureFtm (state_of s)) w h"
    by (cases "rs_captureFtm (state_of s)") (simp_all add: image_size_def padded_size_def Let_def)
qed

text \<open>The size that the program computes, for which the height of a YUV image has to be even.\<close>

definition whole_rows :: "raspicam_format \<Rightarrow> nat \<Rightarrow> bool" where
  "whole_rows fmt h \<longleftrightarrow> fmt \<noteq> RASPICAM_FORMAT_IGNORE \<and> (fmt = RASPICAM_FORMAT_YUV420 \<longrightarrow> even h)"

lemma unat_image_size:
  assumes "sized w h s" and "whole_rows (rs_captureFtm (state_of s)) h"
  shows "unat (imageTypeSize (state_of s) (rs_captureFtm (state_of s))) = image_size (rs_captureFtm (state_of s)) w h"
proof -
  let ?fmt = "rs_captureFtm (state_of s)"
  have lt: "image_size ?fmt w h < 2 ^ 32" using sized_bounds(3) [OF assms(1)] assms(1) by (simp add: sized_def)
  have S: "uint_of_int (rs_width (state_of s)) = word_of_nat w" "uint_of_int (rs_height (state_of s)) = word_of_nat h"
    "w < 2 ^ 32" "h < 2 ^ 32" using assms(1) by (simp_all add: sized_def)
  have half: "(word_of_nat x :: u32) div 2 = word_of_nat (x div 2)" if "x < 2 ^ 32" for x
    using that by (simp add: word_arith_nat_div unat_of_nat)
  have "imageTypeSize (state_of s) ?fmt = word_of_nat (image_size ?fmt w h)"
  proof (cases ?fmt)
    case RASPICAM_FORMAT_YUV420
    then obtain n where n: "h = 2 * n" using assms(2) by (auto simp: whole_rows_def elim: evenE)
    have "w div 2 * h \<le> w * h" by (rule mult_le_mono1 [OF div_le_dividend])
    moreover have "w * h < 2 ^ 32" using lt RASPICAM_FORMAT_YUV420 by (simp add: image_size_def)
    ultimately have "w div 2 * h < 2 ^ 32" by linarith
    then have "(word_of_nat (w div 2) * word_of_nat h :: u32) div 2 = word_of_nat (w div 2 * h div 2)"
      by (simp only: half flip: of_nat_mult)
    moreover have "w div 2 * h div 2 = w div 2 * (h div 2)" by (simp add: n)
    ultimately show ?thesis
      using RASPICAM_FORMAT_YUV420 S by (simp add: imageTypeSize_def getImageTypeSize_def half image_size_def)
  qed (use assms(2) in \<open>simp_all add: imageTypeSize_def getImageTypeSize_def S image_size_def whole_rows_def\<close>)
  then show ?thesis using lt by (simp add: unat_of_nat)
qed

lemma plane_row_append: "plane_row f a (n + m) = plane_row f a n @ plane_row f (a + n) m"
  by (rule nth_equalityI) (auto simp: plane_row_def nth_append)

lemma plane_contiguous: "plane f from w w h = plane_row f from (h * w)"
proof (induction h)
  case (Suc h)
  have "plane f from w w (Suc h) = plane f from w w h @ plane_row f (from + h * w) w" by (simp add: plane_def)
  then show ?case using Suc by (simp add: plane_row_append [symmetric] add.commute)
qed (simp add: plane_def plane_row_def)

text \<open>A YUV image whose rows need no padding is copied as it is, so that there must be no padding below
  the planes either.\<close>

definition unpadded_height :: "raspicam_format \<Rightarrow> nat \<Rightarrow> nat \<Rightarrow> bool" where
  "unpadded_height fmt w h \<longleftrightarrow> (fmt = RASPICAM_FORMAT_YUV420 \<and> padded_width w = w \<longrightarrow> padded_height h = h)"

lemma image_contiguous:
  assumes "padded_width w = w" and "unpadded_height fmt w h"
  shows "image_of f fmt w h = plane_row f 0 (image_size fmt w h)"
proof (cases fmt)
  case RASPICAM_FORMAT_YUV420
  then have "padded_height h = h" using assms by (simp add: unpadded_height_def)
  then show ?thesis
    using assms(1) RASPICAM_FORMAT_YUV420
    by (simp add: image_of_def image_size_def plane_contiguous plane_row_append mult.commute [of h] mult.commute [of "h div 2"]
        mult_2 add.assoc Let_def)
qed (use assms(1) in \<open>simp_all add: image_of_def image_size_def plane_contiguous plane_row_append mult_ac Let_def\<close>,
     simp add: plane_row_def)

lemma length_membuf [simp]: "length (membuf_resize k n data) = n"
  by (simp add: membuf_resize_def)

lemma whole_frame:
  assumes "sized w h s" and "padded_width w = w" and "holds_frame w h b s"
  shows "frame_of k b s = Some (plane_row (payload_of s b) 0 (unat (bh_length (bufs s b))))"
proof -
  let ?n = "unat (bh_length (bufs s b))"
  have r: "reads (payload_bytes b s) (payload_of s b) ?n"
    using assms(3) by (intro payload_reads) (auto simp: holds_frame_def word_le_nat_alt)
  have "payload_bytes b s 0 (int ?n) = Some (plane_row (payload_of s b) 0 ?n)" using readsD [OF r, of 0 ?n] by simp
  moreover have "write_at 0 (plane_row (payload_of s b) 0 ?n) (membuf_resize k ?n (rc_buffData (cam_of s)))
      = Some (plane_row (payload_of s b) 0 ?n)" by (simp add: write_at_def)
  moreover have "rs_width (state_of s) = int w" using assms(1) by (simp add: sized_def)
  ultimately show ?thesis
    using assms(2) sized_bounds(1,2) [OF assms(1)] by (simp add: frame_of_def Let_def)
qed

lemma frame_cropped:
  assumes s: "sized w h s" and b: "holds_frame w h b s" and ok: "whole_rows (rs_captureFtm (state_of s)) h"
    "unpadded_height (rs_captureFtm (state_of s)) w h"
  shows "\<exists>data. frame_of k b s = Some data \<and> image_size (rs_captureFtm (state_of s)) w h \<le> length data
    \<and> take (image_size (rs_captureFtm (state_of s)) w h) data = image_of (payload_of s b) (rs_captureFtm (state_of s)) w h"
proof -
  let ?fmt = "rs_captureFtm (state_of s)" and ?f = "payload_of s b" and ?n = "unat (bh_length (bufs s b))"
  note le = sized_bounds(3) [OF s]
  show ?thesis
  proof (cases "padded_width w = w")
    case True
    have "image_size ?fmt w h \<le> ?n" using le b by (simp add: holds_frame_def)
    then obtain r where r: "?n = image_size ?fmt w h + r" using le_Suc_ex by blast
    have "image_of ?f ?fmt w h = plane_row ?f 0 (image_size ?fmt w h)" by (rule image_contiguous [OF True ok(2)])
    then show ?thesis using whole_frame [OF s True b] by (simp add: r plane_row_append)
  next
    case False
    have rd: "reads (payload_bytes b s) ?f (padded_size ?fmt w h)"
      using b by (intro payload_reads) (auto simp: holds_frame_def word_le_nat_alt)
    have lt: "padded_size ?fmt w h < 2 ^ 31" using s by (simp add: sized_def)
    let ?data = "membuf_resize k (image_size ?fmt w h) (rc_buffData (cam_of s))"
    have "copy_image (payload_bytes b s) ?fmt (int w) (int h) (int (padded_width w)) (int (padded_height h)) ?data
        = Some (image_of ?f ?fmt w h)"
      using copy_image_packed [OF rd order_refl lt, of ?data] ok(1)
      by (cases ?fmt) (use copy_image_yuv [of _ _ _ w h ?data] rd lt in \<open>auto simp: whole_rows_def\<close>)
    then have "frame_of k b s = Some (image_of ?f ?fmt w h)"
      using False s sized_bounds(1,2) [OF s] unat_image_size [OF s ok(1)] by (simp add: frame_of_def Let_def sized_def)
    then show ?thesis by simp
  qed
qed

end
