(* ===== verification/Raspicam_Settings.thy ===== *)
theory Raspicam_Settings
  imports Raspicam_Capture
begin

text \<open>
  The settings of the camera and the parameters the camera component holds
  (\<^verbatim>\<open>src/private/private_impl.cpp\<close>): the setters keep their values in range and the component in step
  with the object, and what a report of the camera about its settings does to the next opening.
\<close>

section \<open>A component that keeps its parameters\<close>

text \<open>Its store has the words of each parameter by port and identifier; it is the rest of the world.\<close>

type_synonym param_store = "addr \<times> u32 \<Rightarrow> u32 list option"

definition CAMERA_PARAMETER_SET :: nat where "CAMERA_PARAMETER_SET = 7"

definition store :: "addr \<Rightarrow> u32 \<Rightarrow> u32 list \<Rightarrow> ('f, param_store) cam \<Rightarrow> ('f, param_store) cam" where
  "store q i ws = upd_env (\<lambda>r. r\<lparr>rc_env := (rc_env r)((q, i) \<mapsto> ws)\<rparr>)"

definition keeps_parameters :: "('f, param_store) raspicam port_ops \<Rightarrow> bool" where
  "keeps_parameters c \<longleftrightarrow> (\<forall>q pm s. pp_parameter_set c CAMERA_PARAMETER_SET q pm s
     = ret (MMAL_SUCCESS, store q (pm_id pm) (pm_data pm) s))"

text \<open>The ports of the component \<open>a\<close>.\<close>

definition camera_board :: "addr \<Rightarrow> addr \<Rightarrow> addr list \<Rightarrow> ('f, param_store) cam \<Rightarrow> bool" where
  "camera_board a ctl outs s \<longleftrightarrow> rs_camera_component (state_of s) = Some a \<and> co_control (comp_of s a) = Some ctl
     \<and> co_output (comp_of s a) = outs \<and> length outs = 3
     \<and> (\<forall>q\<in>set (ctl # outs). po_pf_parameter_set (port_of s q) = Some CAMERA_PARAMETER_SET)"

lemma store_simps [simp]:
  "camera_board a ctl outs (store q i ws s) = camera_board a ctl outs s" "state_of (store q i ws s) = state_of s"
  "rc_env (cam_of (store q i ws s)) = (rc_env (cam_of s))((q, i) \<mapsto> ws)"
  "rc_isOpened (cam_of (store q i ws s)) = rc_isOpened (cam_of s)"
  by (simp_all add: store_def camera_board_def)

definition same_camera :: "('f raspivid_state \<Rightarrow> 'f raspivid_state) \<Rightarrow> bool" where
  "same_camera f \<longleftrightarrow> (\<forall>S. rs_camera_component (f S) = rs_camera_component S)"

lemma upd_state_simps [simp]:
  "state_of (upd_state f s) = f (state_of s)" "rc_env (cam_of (upd_state f s)) = rc_env (cam_of s)"
  "rc_isOpened (cam_of (upd_state f s)) = rc_isOpened (cam_of s)"
  "same_camera f \<Longrightarrow> camera_board a ctl outs (upd_state f s) = camera_board a ctl outs s"
  by (simp_all add: upd_state_def camera_board_def same_camera_def)

lemma control_set_stores:
  assumes "keeps_parameters c" and "camera_board a ctl outs s"
  shows "control_set c (Some a) i ws s = ret (MMAL_SUCCESS, store ctl i ws s)"
  using assms by (simp add: control_set_def camera_board_def mmal_port_parameter_set_def keeps_parameters_def words_param_def)

lemma output_set_stores:
  assumes "keeps_parameters c" and "camera_board a ctl outs s" and "n < 3"
  shows "output_set c (Some a) n i ws s = ret (MMAL_SUCCESS, store (outs ! n) i ws s)"
proof -
  have "output_port (Some a) n s = Some (outs ! n)" "po_pf_parameter_set (port_of s (outs ! n)) = Some CAMERA_PARAMETER_SET"
    using assms(2,3) by (auto simp: camera_board_def output_port_def Let_def)
  then show ?thesis
    using assms(1) by (simp add: output_set_def mmal_port_parameter_set_def keeps_parameters_def words_param_def)
qed

section \<open>The parameters in step with the settings\<close>

text \<open>The parameters of the control port and those of the three outputs, with their words.\<close>

definition control_params :: "('f, param_store) cam_ops \<Rightarrow> (u32 \<times> ('f raspivid_state \<Rightarrow> u32 list)) list" where
  "control_params k =
    [(MMAL_PARAMETER_SATURATION, \<lambda>S. [uint_of_int (rs_saturation S), 100]),
     (MMAL_PARAMETER_SHARPNESS, \<lambda>S. [uint_of_int (rs_sharpness S), 100]),
     (MMAL_PARAMETER_CONTRAST, \<lambda>S. [uint_of_int (rs_contrast S), 100]),
     (MMAL_PARAMETER_BRIGHTNESS, \<lambda>S. [uint_of_int (rs_brightness S), 100]),
     (MMAL_PARAMETER_ISO, \<lambda>S. [uint_of_int (rs_ISO S)]),
     (MMAL_PARAMETER_EXPOSURE_MODE, \<lambda>S. [exposure_mode_value (convertExposure (rs_exposureMode S))]),
     (MMAL_PARAMETER_EXPOSURE_COMP, \<lambda>S. [uint_of_int (rs_exposureCompensation S)]),
     (MMAL_PARAMETER_EXP_METERING_MODE, \<lambda>S. [metering_mode_value (convertMetering (rs_exposureMeterMode S))]),
     (MMAL_PARAMETER_IMAGE_EFFECT, \<lambda>S. [imagefx_value (convertImageEffect (rs_imageEffect S))]),
     (MMAL_PARAMETER_VIDEO_STABILISATION, \<lambda>S. [if rs_videoStabilisation S then 1 else 0]),
     (MMAL_PARAMETER_AWB_MODE, \<lambda>S. [awb_mode_value (convertAWB (rs_awbMode S))]),
     (MMAL_PARAMETER_CUSTOM_AWB_GAINS, \<lambda>S. [float_fixed k (rs_awbg_red S), 65536, float_fixed k (rs_awbg_blue S), 65536])]"

definition output_params :: "(u32 \<times> ('f raspivid_state \<Rightarrow> u32 list)) list" where
  "output_params =
    [(MMAL_PARAMETER_ROTATION, \<lambda>S. [uint_of_int (quarter_turns (rs_rotation S))]),
     (MMAL_PARAMETER_MIRROR, \<lambda>S. [mirror_mode_value (mirror_of (rs_hflip S) (rs_vflip S))])]"

text \<open>A shutter speed of zero is not sent when the camera is opened.\<close>

definition in_step :: "('f, param_store) cam_ops \<Rightarrow> addr \<Rightarrow> addr list \<Rightarrow> ('f, param_store) cam \<Rightarrow> bool" where
  "in_step k ctl outs s \<longleftrightarrow>
     (\<forall>(i, v)\<in>set (control_params k). rc_env (cam_of s) (ctl, i) = Some (v (state_of s)))
     \<and> (\<forall>(i, v)\<in>set output_params. \<forall>q\<in>set outs. rc_env (cam_of s) (q, i) = Some (v (state_of s)))
     \<and> (rs_shutterSpeed (state_of s) \<noteq> 0
        \<longrightarrow> rc_env (cam_of s) (ctl, MMAL_PARAMETER_SHUTTER_SPEED) = Some [uint_of_int (rs_shutterSpeed (state_of s))])"

text \<open>The ranges of the settings in \<^verbatim>\<open>private_types.h\<close>.\<close>

definition in_range :: "'f raspivid_state \<Rightarrow> bool" where
  "in_range S \<longleftrightarrow> 0 \<le> rs_brightness S \<and> rs_brightness S \<le> 100 \<and> \<bar>rs_sharpness S\<bar> \<le> 100 \<and> \<bar>rs_contrast S\<bar> \<le> 100
     \<and> \<bar>rs_saturation S\<bar> \<le> 100 \<and> \<bar>rs_exposureCompensation S\<bar> \<le> 10 \<and> 0 \<le> rs_rotation S \<and> rs_rotation S < 360
     \<and> 0 \<le> rs_shutterSpeed S \<and> rs_shutterSpeed S \<le> 330000"

definition param_ids :: "u32 list" where
  "param_ids = [MMAL_PARAMETER_SATURATION, MMAL_PARAMETER_SHARPNESS, MMAL_PARAMETER_CONTRAST, MMAL_PARAMETER_BRIGHTNESS,
     MMAL_PARAMETER_ISO, MMAL_PARAMETER_EXPOSURE_MODE, MMAL_PARAMETER_EXPOSURE_COMP, MMAL_PARAMETER_EXP_METERING_MODE,
     MMAL_PARAMETER_IMAGE_EFFECT, MMAL_PARAMETER_VIDEO_STABILISATION, MMAL_PARAMETER_AWB_MODE, MMAL_PARAMETER_CUSTOM_AWB_GAINS,
     MMAL_PARAMETER_ROTATION, MMAL_PARAMETER_MIRROR, MMAL_PARAMETER_SHUTTER_SPEED]"

lemma param_ids_distinct: "distinct param_ids"
  by code_simp

lemmas param_ids_differ =
  param_ids_distinct [unfolded param_ids_def, simplified]
  param_ids_distinct [folded distinct_rev [of param_ids], unfolded param_ids_def rev.simps append.simps, simplified]

section \<open>Setters\<close>

datatype 'f setter =
    SetBrightness u32 | SetShutterSpeed u32 | SetRotation int | SetISO int | SetSharpness int | SetContrast int
  | SetSaturation int | SetExposure raspicam_exposure | SetAWB raspicam_awb | SetAWB_RB 'f 'f
  | SetImageEffect raspicam_image_effect | SetMetering raspicam_metering | SetExposureCompensation int
  | SetHorizontalFlip bool | SetVerticalFlip bool | SetVideoStabilization bool | SetFrameRate int
  | SetFormat raspicam_format | SetSensorMode int | SetCaptureSize u32 u32

fun run_setter :: "('f, 'y) raspicam port_ops \<Rightarrow> ('f, 'y) cam_ops \<Rightarrow> 'f setter \<Rightarrow> ('f, 'y) cam_step" where
  "run_setter c k (SetBrightness v) = setBrightness c v"
| "run_setter c k (SetShutterSpeed v) = setShutterSpeed c v"
| "run_setter c k (SetRotation v) = setRotation c v"
| "run_setter c k (SetISO v) = setISO c v"
| "run_setter c k (SetSharpness v) = setSharpness c v"
| "run_setter c k (SetContrast v) = setContrast c v"
| "run_setter c k (SetSaturation v) = setSaturation c v"
| "run_setter c k (SetExposure v) = setExposure c v"
| "run_setter c k (SetAWB v) = setAWB c v"
| "run_setter c k (SetAWB_RB r b) = setAWB_RB c k r b"
| "run_setter c k (SetImageEffect v) = setImageEffect c v"
| "run_setter c k (SetMetering v) = setMetering c v"
| "run_setter c k (SetExposureCompensation v) = setExposureCompensation c v"
| "run_setter c k (SetHorizontalFlip v) = setHorizontalFlip c v"
| "run_setter c k (SetVerticalFlip v) = setVerticalFlip c v"
| "run_setter c k (SetVideoStabilization v) = setVideoStabilization c v"
| "run_setter c k (SetFrameRate v) = setFrameRate v"
| "run_setter c k (SetFormat v) = setFormat v"
| "run_setter c k (SetSensorMode v) = setSensorMode v"
| "run_setter c k (SetCaptureSize w h) = setCaptureSize w h"

text \<open>Either the call changes the state only, or it sends one parameter to the control port, or one to the
  three outputs.\<close>

definition setter_change :: "('f, param_store) cam_ops \<Rightarrow> 'f setter \<Rightarrow> 'f raspivid_state \<Rightarrow> 'f raspivid_state" where
  "setter_change k x S =
     (case x of
        SetBrightness v \<Rightarrow> S\<lparr>rs_brightness := int_of_uint (if v > 100 then 100 else v)\<rparr>
      | SetShutterSpeed v \<Rightarrow> S\<lparr>rs_shutterSpeed := int_of_uint (if v > 330000 then 330000 else v)\<rparr>
      | SetRotation v \<Rightarrow> S\<lparr>rs_rotation := first_turn v\<rparr>
      | SetISO v \<Rightarrow> S\<lparr>rs_ISO := v\<rparr>
      | SetSharpness v \<Rightarrow> S\<lparr>rs_sharpness := clamp (- 100) 100 v\<rparr>
      | SetContrast v \<Rightarrow> S\<lparr>rs_contrast := clamp (- 100) 100 v\<rparr>
      | SetSaturation v \<Rightarrow> S\<lparr>rs_saturation := clamp (- 100) 100 v\<rparr>
      | SetExposure v \<Rightarrow> S\<lparr>rs_exposureMode := v\<rparr>
      | SetAWB v \<Rightarrow> S\<lparr>rs_awbMode := v\<rparr>
      | SetAWB_RB r b \<Rightarrow> S\<lparr>rs_awbg_blue := b, rs_awbg_red := r\<rparr>
      | SetImageEffect v \<Rightarrow> S\<lparr>rs_imageEffect := v\<rparr>
      | SetMetering v \<Rightarrow> S\<lparr>rs_exposureMeterMode := v\<rparr>
      | SetExposureCompensation v \<Rightarrow> S\<lparr>rs_exposureCompensation := clamp (- 10) 10 v\<rparr>
      | SetHorizontalFlip v \<Rightarrow> S\<lparr>rs_hflip := v\<rparr>
      | SetVerticalFlip v \<Rightarrow> S\<lparr>rs_vflip := v\<rparr>
      | SetVideoStabilization v \<Rightarrow> S\<lparr>rs_videoStabilisation := v\<rparr>
      | SetFrameRate v \<Rightarrow> S\<lparr>rs_framerate := v\<rparr>
      | SetFormat v \<Rightarrow> S
      | SetSensorMode v \<Rightarrow> S
      | SetCaptureSize w h \<Rightarrow> S\<lparr>rs_width := int_of_uint w, rs_height := int_of_uint h\<rparr>)"

lemma set_control_runs:
  assumes "keeps_parameters c" and "camera_board a ctl outs s" and "rc_isOpened (cam_of s)" and "same_camera f"
  shows "set_and_commit f (control_commit c i v) s = ret (store ctl i (v (f (state_of s))) (upd_state f s))"
proof -
  have b: "camera_board a ctl outs (upd_state f s)" using assms(2,4) by simp
  then have "rs_camera_component (state_of (upd_state f s)) = Some a" by (simp add: camera_board_def)
  then show ?thesis
    using control_set_stores [OF assms(1) b] assms(3) by (simp add: set_and_commit_def control_commit_def void_def Let_def)
qed

text \<open>The three outputs get the same words.\<close>

definition store_outputs :: "addr list \<Rightarrow> u32 \<Rightarrow> u32 list \<Rightarrow> ('f, param_store) cam \<Rightarrow> ('f, param_store) cam" where
  "store_outputs outs i ws s = store (outs ! 2) i ws (store (outs ! 1) i ws (store (outs ! 0) i ws s))"

lemma store_outputs_simps [simp]:
  "camera_board a ctl outs' (store_outputs outs i ws s) = camera_board a ctl outs' s"
  "state_of (store_outputs outs i ws s) = state_of s"
  "rc_isOpened (cam_of (store_outputs outs i ws s)) = rc_isOpened (cam_of s)"
  "length outs = 3 \<Longrightarrow> rc_env (cam_of (store_outputs outs i ws s)) (q, j)
     = (if q \<in> set outs \<and> j = i then Some ws else rc_env (cam_of s) (q, j))"
proof -
  assume "length outs = 3"
  then obtain x y z where "outs = [x, y, z]" by (auto simp: length_Suc_conv numeral_3_eq_3)
  then show "rc_env (cam_of (store_outputs outs i ws s)) (q, j)
     = (if q \<in> set outs \<and> j = i then Some ws else rc_env (cam_of s) (q, j))" by (auto simp: store_outputs_def numeral_2_eq_2)
qed (simp_all add: store_outputs_def)

lemma commit_outputs_run:
  assumes "keeps_parameters c" and "camera_board a ctl outs s"
  shows "commitRotation c s = ret (store_outputs outs MMAL_PARAMETER_ROTATION [uint_of_int (quarter_turns (rs_rotation (state_of s)))] s)"
    and "commitFlips c s = ret (store_outputs outs MMAL_PARAMETER_MIRROR
      [mirror_mode_value (mirror_of (rs_hflip (state_of s)) (rs_vflip (state_of s)))] s)"
proof -
  have "rs_camera_component (state_of s) = Some a" using assms(2) by (simp add: camera_board_def)
  then show "commitRotation c s = ret (store_outputs outs MMAL_PARAMETER_ROTATION [uint_of_int (quarter_turns (rs_rotation (state_of s)))] s)"
    and "commitFlips c s = ret (store_outputs outs MMAL_PARAMETER_MIRROR
      [mirror_mode_value (mirror_of (rs_hflip (state_of s)) (rs_vflip (state_of s)))] s)"
    using assms
    by (simp_all add: commitRotation_def commitFlips_def set_three_outputs_def output_set_stores [OF assms(1), of a ctl outs]
        void_def store_outputs_def Let_def)
qed

lemma clamp_bounds: "lo \<le> hi \<Longrightarrow> lo \<le> clamp lo hi v \<and> clamp lo hi v \<le> hi"
  by (simp add: clamp_def Let_def)

lemma clamp_abs: "0 \<le> hi \<Longrightarrow> \<bar>clamp (- hi) hi v\<bar> \<le> hi"
  using clamp_bounds [of "- hi" hi v] by linarith

lemma sint_small: "v \<le> word_of_nat m \<Longrightarrow> m < 2 ^ 31 \<Longrightarrow> 0 \<le> sint (v :: u32) \<and> sint v \<le> int m"
proof -
  assume v: "v \<le> word_of_nat m" and m: "m < 2 ^ 31"
  have le: "unat v \<le> m" using v m by (simp add: word_le_nat_alt unat_of_nat)
  then have "sint (word_of_int (int (unat v)) :: u32) = int (unat v)" using m by (intro sint_i32 in_i32_nat) simp
  moreover have "word_of_int (int (unat v)) = v" by simp
  ultimately have "sint v = int (unat v)" by (simp only:)
  then show ?thesis using le by (simp only: of_nat_0_le_iff of_nat_le_iff simp_thms)
qed

lemma setter_keeps_range:
  assumes "in_range S"
  shows "in_range (setter_change k x S)"
  using assms sint_small [of _ 100] sint_small [of _ 330000]
  by (cases x) (simp_all add: setter_change_def in_range_def first_turn_eq clamp_abs not_less)

lemma same_camera_change [simp]: "same_camera (setter_change k x)"
  by (cases x) (simp_all add: same_camera_def setter_change_def)

lemma in_stepD:
  "in_step k ctl outs s \<Longrightarrow> (j, u) \<in> set (control_params k) \<Longrightarrow> rc_env (cam_of s) (ctl, j) = Some (u (state_of s))"
  "in_step k ctl outs s \<Longrightarrow> (j, u) \<in> set output_params \<Longrightarrow> q \<in> set outs \<Longrightarrow> rc_env (cam_of s) (q, j) = Some (u (state_of s))"
  unfolding in_step_def by blast+

lemma in_stepI:
  assumes "\<And>j u. (j, u) \<in> set (control_params k) \<Longrightarrow> rc_env (cam_of s) (ctl, j) = Some (u (state_of s))"
    and "\<And>j u q. (j, u) \<in> set output_params \<Longrightarrow> q \<in> set outs \<Longrightarrow> rc_env (cam_of s) (q, j) = Some (u (state_of s))"
    and "rs_shutterSpeed (state_of s) \<noteq> 0
      \<Longrightarrow> rc_env (cam_of s) (ctl, MMAL_PARAMETER_SHUTTER_SPEED) = Some [uint_of_int (rs_shutterSpeed (state_of s))]"
  shows "in_step k ctl outs s"
  using assms unfolding in_step_def by blast

lemma in_step_control:
  assumes "in_step k ctl outs s" and "(i, v) \<in> set (control_params k)" and "length outs = 3"
    and "\<And>j u S. (j, u) \<in> set (control_params k) \<Longrightarrow> j \<noteq> i \<Longrightarrow> u (f S) = u S"
    and "\<And>j u S. (j, u) \<in> set output_params \<Longrightarrow> u (f S) = u S" and "\<And>S. rs_shutterSpeed (f S) = rs_shutterSpeed S"
  shows "in_step k ctl outs (store ctl i (v (f (state_of s))) (upd_state f s))"
proof -
  have d: "distinct (map fst (control_params k))" "MMAL_PARAMETER_SHUTTER_SPEED \<notin> fst ` set (control_params k)"
    "fst ` set (control_params k) \<inter> fst ` set (output_params :: (u32 \<times> ('a raspivid_state \<Rightarrow> u32 list)) list) = {}"
    by (simp_all add: control_params_def output_params_def param_ids_differ)
  have "u (f (state_of s)) = v (f (state_of s))" if "(i, u) \<in> set (control_params k)" for u
    using d(1) that assms(2) by (metis eq_key_imp_eq_value)
  moreover have "i \<noteq> MMAL_PARAMETER_SHUTTER_SPEED" using d(2) assms(2) by force
  moreover have "j \<noteq> i" if "(j, u) \<in> set (output_params :: (u32 \<times> ('a raspivid_state \<Rightarrow> u32 list)) list)" for j u
    using d(3) that assms(2) by force
  ultimately have ids: "\<And>u. (i, u) \<in> set (control_params k) \<Longrightarrow> u (f (state_of s)) = v (f (state_of s))"
    "i \<noteq> MMAL_PARAMETER_SHUTTER_SPEED"
    "\<And>j u. (j, u) \<in> set (output_params :: (u32 \<times> ('a raspivid_state \<Rightarrow> u32 list)) list) \<Longrightarrow> j \<noteq> i" by blast+
  note s = assms(1) [unfolded in_step_def]
  let ?s = "store ctl i (v (f (state_of s))) (upd_state f s)"
  have "rc_env (cam_of ?s) (ctl, j) = Some (u (state_of ?s))" if "(j, u) \<in> set (control_params k)" for j u
    using in_stepD(1) [OF assms(1) that] ids(1) assms(4) [OF that] that by (cases "j = i") simp_all
  moreover have "rc_env (cam_of ?s) (q, j) = Some (u (state_of ?s))" if "(j, u) \<in> set output_params" "q \<in> set outs" for j u q
    using in_stepD(2) [OF assms(1) that] ids(3) [OF that(1)] assms(5) [OF that(1)] by simp
  ultimately show ?thesis by (rule in_stepI) (use s ids(2) assms(6) in simp_all)
qed

lemma setter_stays_in_step:
  fixes s :: "('f, param_store) cam"
  assumes c: "keeps_parameters c" and b: "camera_board a ctl outs s" and o: "rc_isOpened (cam_of s)"
    and st: "in_step k ctl outs s"
  shows "\<exists>s'. run_setter c k x s = ret s' \<and> camera_board a ctl outs s' \<and> rc_isOpened (cam_of s')
    \<and> in_step k ctl outs s' \<and> state_of s' = setter_change k x (state_of s)"
proof -
  have l: "length outs = 3" using b by (simp add: camera_board_def)
  have ctl: ?thesis if "run_setter c k x = set_and_commit (setter_change k x) (control_commit c i v)"
    "(i, v) \<in> set (control_params k)"
    "\<And>j u S. (j, u) \<in> set (control_params k) \<Longrightarrow> j \<noteq> i \<Longrightarrow> u (setter_change k x S) = u S"
    "\<And>j u S. (j, u) \<in> set output_params \<Longrightarrow> u (setter_change k x S) = u S"
    "\<And>S. rs_shutterSpeed (setter_change k x S) = rs_shutterSpeed S" for i v
    using that(1) set_control_runs [OF c b o same_camera_change, of k x i v] in_step_control [OF st that(2) l that(3-5)] b o by simp
  have out: ?thesis if "run_setter c k x s = ret (store_outputs outs i (v (setter_change k x (state_of s))) (upd_state (setter_change k x) s))"
    "(i, v) \<in> set output_params"
    "\<And>j u S. (j, u) \<in> set (control_params k) \<Longrightarrow> j \<noteq> i \<and> u (setter_change k x S) = u S"
    "\<And>j u S. (j, u) \<in> set output_params \<Longrightarrow> (j = i \<longrightarrow> u = v) \<and> (j \<noteq> i \<longrightarrow> u (setter_change k x S) = u S)"
    "\<And>S. rs_shutterSpeed (setter_change k x S) = rs_shutterSpeed S" "i \<noteq> MMAL_PARAMETER_SHUTTER_SPEED" for i v
  proof -
    let ?s = "store_outputs outs i (v (setter_change k x (state_of s))) (upd_state (setter_change k x) s)"
    have "in_step k ctl outs ?s"
    proof (rule in_stepI)
      fix j u assume m: "(j, u) \<in> set (control_params k)"
      show "rc_env (cam_of ?s) (ctl, j) = Some (u (state_of ?s))" using in_stepD(1) [OF st m] that(3) [OF m] l by simp
    next
      fix j q and u :: "'f raspivid_state \<Rightarrow> u32 list" assume m: "(j, u) \<in> set output_params" "q \<in> set outs"
      show "rc_env (cam_of ?s) (q, j) = Some (u (state_of ?s))"
        using in_stepD(2) [OF st m] that(4) [OF m(1)] m(2) l by (cases "j = i") simp_all
    qed (use st that(5,6) l in \<open>simp add: in_step_def\<close>)
    with that(1) b o show ?thesis by simp
  qed
  have same: ?thesis if "run_setter c k x s = ret s'" "cam_of s' = (cam_of s)\<lparr>rc_state := setter_change k x (state_of s)\<rparr>"
    "w_comp (ps_env s') = w_comp (ps_env s)" "w_port (ps_env s') = w_port (ps_env s)"
    "\<And>j u S. (j, u) \<in> set (control_params k) \<Longrightarrow> u (setter_change k x S) = u S"
    "\<And>j u S. (j, u) \<in> set output_params \<Longrightarrow> u (setter_change k x S) = u S"
    "\<And>S. rs_shutterSpeed (setter_change k x S) = rs_shutterSpeed S" for s'
  proof -
    have "in_step k ctl outs s'"
    proof (rule in_stepI)
      fix j u assume m: "(j, u) \<in> set (control_params k)"
      show "rc_env (cam_of s') (ctl, j) = Some (u (state_of s'))" using in_stepD(1) [OF st m] that(2) that(5) [OF m] by simp
    next
      fix j q and u :: "'f raspivid_state \<Rightarrow> u32 list" assume m: "(j, u) \<in> set output_params" "q \<in> set outs"
      show "rc_env (cam_of s') (q, j) = Some (u (state_of s'))" using in_stepD(2) [OF st m] that(2) that(6) [OF m(1)] by simp
    qed (use st that(2,7) in \<open>simp add: in_step_def\<close>)
    moreover have "camera_board a ctl outs s'"
      using b that(2-4) same_camera_change [of k x] by (simp add: camera_board_def same_camera_def)
    ultimately show ?thesis using that(1,2) o by auto
  qed
  note out_runs = commit_outputs_run [OF c, of a ctl outs] same_camera_def b o
  note params = control_params_def output_params_def setter_change_def [abs_def]
  show ?thesis
  proof (cases x)
    case (SetBrightness v)
    then show ?thesis
      by (intro ctl [of MMAL_PARAMETER_BRIGHTNESS "\<lambda>S. [uint_of_int (rs_brightness S), 100]"]) (auto simp: params setBrightness_def commitBrightness_def Let_def)
  next
    case (SetISO v)
    then show ?thesis
      by (intro ctl [of MMAL_PARAMETER_ISO "\<lambda>S. [uint_of_int (rs_ISO S)]"]) (auto simp: params setISO_def commitISO_def Let_def)
  next
    case (SetSharpness v)
    then show ?thesis
      by (intro ctl [of MMAL_PARAMETER_SHARPNESS "\<lambda>S. [uint_of_int (rs_sharpness S), 100]"]) (auto simp: params setSharpness_def commitSharpness_def Let_def)
  next
    case (SetContrast v)
    then show ?thesis
      by (intro ctl [of MMAL_PARAMETER_CONTRAST "\<lambda>S. [uint_of_int (rs_contrast S), 100]"]) (auto simp: params setContrast_def commitContrast_def Let_def)
  next
    case (SetSaturation v)
    then show ?thesis
      by (intro ctl [of MMAL_PARAMETER_SATURATION "\<lambda>S. [uint_of_int (rs_saturation S), 100]"]) (auto simp: params setSaturation_def commitSaturation_def Let_def)
  next
    case (SetExposure v)
    then show ?thesis
      by (intro ctl [of MMAL_PARAMETER_EXPOSURE_MODE "\<lambda>S. [exposure_mode_value (convertExposure (rs_exposureMode S))]"]) (auto simp: params setExposure_def commitExposure_def Let_def)
  next
    case (SetAWB v)
    then show ?thesis
      by (intro ctl [of MMAL_PARAMETER_AWB_MODE "\<lambda>S. [awb_mode_value (convertAWB (rs_awbMode S))]"]) (auto simp: params setAWB_def commitAWB_def Let_def)
  next
    case (SetAWB_RB r b)
    then show ?thesis
      by (intro ctl [of MMAL_PARAMETER_CUSTOM_AWB_GAINS "\<lambda>S. [float_fixed k (rs_awbg_red S), 65536, float_fixed k (rs_awbg_blue S), 65536]"]) (auto simp: params setAWB_RB_def commitAWB_RB_def Let_def)
  next
    case (SetImageEffect v)
    then show ?thesis
      by (intro ctl [of MMAL_PARAMETER_IMAGE_EFFECT "\<lambda>S. [imagefx_value (convertImageEffect (rs_imageEffect S))]"]) (auto simp: params setImageEffect_def commitImageEffect_def Let_def)
  next
    case (SetMetering v)
    then show ?thesis
      by (intro ctl [of MMAL_PARAMETER_EXP_METERING_MODE "\<lambda>S. [metering_mode_value (convertMetering (rs_exposureMeterMode S))]"]) (auto simp: params setMetering_def commitMetering_def Let_def)
  next
    case (SetExposureCompensation v)
    then show ?thesis
      by (intro ctl [of MMAL_PARAMETER_EXPOSURE_COMP "\<lambda>S. [uint_of_int (rs_exposureCompensation S)]"]) (auto simp: params setExposureCompensation_def commitExposureCompensation_def Let_def)
  next
    case (SetVideoStabilization v)
    then show ?thesis
      by (intro ctl [of MMAL_PARAMETER_VIDEO_STABILISATION "\<lambda>S. [if rs_videoStabilisation S then 1 else 0]"]) (auto simp: params setVideoStabilization_def commitVideoStabilization_def Let_def)
  next
    case (SetRotation v)
    then show ?thesis
      by (intro out [of MMAL_PARAMETER_ROTATION "\<lambda>S. [uint_of_int (quarter_turns (rs_rotation S))]"])
        (auto simp: params setRotation_def out_runs param_ids_differ set_and_commit_def Let_def)
  next
    case (SetHorizontalFlip v)
    then show ?thesis
      by (intro out [of MMAL_PARAMETER_MIRROR "\<lambda>S. [mirror_mode_value (mirror_of (rs_hflip S) (rs_vflip S))]"])
        (auto simp: params setHorizontalFlip_def out_runs param_ids_differ set_and_commit_def Let_def)
  next
    case (SetVerticalFlip v)
    then show ?thesis
      by (intro out [of MMAL_PARAMETER_MIRROR "\<lambda>S. [mirror_mode_value (mirror_of (rs_hflip S) (rs_vflip S))]"])
        (auto simp: params setVerticalFlip_def out_runs param_ids_differ set_and_commit_def Let_def)
  next
    case (SetFrameRate v)
    then show ?thesis by (intro same [of "upd_state (setter_change k x) s"]) (auto simp: params setFrameRate_def o upd_state_def)
  next
    case (SetFormat v)
    then show ?thesis by (intro same [of s]) (auto simp: params setFormat_def o upd_state_def)
  next
    case (SetSensorMode v)
    then show ?thesis by (intro same [of s]) (auto simp: params setSensorMode_def o upd_state_def)
  next
    case (SetCaptureSize w h)
    then show ?thesis by (intro same [of "upd_state (setter_change k x) s"]) (auto simp: params setCaptureSize_def setWidth_def setHeight_def o upd_state_def upd_env_def upd_world_def)
  next
    case (SetShutterSpeed v)
    let ?v = "\<lambda>S. [uint_of_int (rs_shutterSpeed S)]"
    let ?s = "store ctl MMAL_PARAMETER_SHUTTER_SPEED (?v (setter_change k x (state_of s))) (upd_state (setter_change k x) s)"
    have "run_setter c k x = set_and_commit (setter_change k x) (control_commit c MMAL_PARAMETER_SHUTTER_SPEED ?v)"
      by (simp add: SetShutterSpeed setter_change_def [abs_def] setShutterSpeed_def commitShutterSpeed_def Let_def)
    then have "run_setter c k x s = ret ?s" using set_control_runs [OF c b o same_camera_change] by simp
    moreover have "in_step k ctl outs ?s"
    proof (rule in_stepI)
      fix j u assume m: "(j, u) \<in> set (control_params k)"
      then have "u (setter_change k x (state_of s)) = u (state_of s)" "j \<noteq> MMAL_PARAMETER_SHUTTER_SPEED"
        by (auto simp: params SetShutterSpeed param_ids_differ)
      then show "rc_env (cam_of ?s) (ctl, j) = Some (u (state_of ?s))" using in_stepD(1) [OF st m] by simp
    next
      fix j q and u :: "'f raspivid_state \<Rightarrow> u32 list" assume m: "(j, u) \<in> set output_params" "q \<in> set outs"
      then have "u (setter_change k x (state_of s)) = u (state_of s)" "j \<noteq> MMAL_PARAMETER_SHUTTER_SPEED"
        by (auto simp: params SetShutterSpeed param_ids_differ)
      then show "rc_env (cam_of ?s) (q, j) = Some (u (state_of ?s))" using in_stepD(2) [OF st m] by simp
    qed simp
    ultimately show ?thesis using b o by (intro exI [of _ ?s]) simp
  qed
qed

section \<open>Opening\<close>

lemma control_commit_runs:
  assumes "keeps_parameters c" and "camera_board a ctl outs s"
  shows "control_commit c i v s = ret (store ctl i (v (state_of s)) s)"
proof -
  have "rs_camera_component (state_of s) = Some a" using assms(2) by (simp add: camera_board_def)
  then show ?thesis using control_set_stores [OF assms] by (simp add: control_commit_def void_def)
qed

lemma same_camera_exposure [simp]: "same_camera (\<lambda>S. S\<lparr>rs_exposureMode := v\<rparr>)"
  by (simp add: same_camera_def)

definition opened_exposure :: "'f raspivid_state \<Rightarrow> 'f raspivid_state" where
  "opened_exposure S = (if rs_shutterSpeed S \<noteq> 0 then S\<lparr>rs_exposureMode := RASPICAM_EXPOSURE_FIXEDFPS\<rparr> else S)"

lemma exposure_settings_run:
  assumes "keeps_parameters c" and "camera_board a ctl outs s"
  shows "\<exists>s'. commit_exposure_settings c s = ret s' \<and> camera_board a ctl outs s' \<and> state_of s' = opened_exposure (state_of s)
    \<and> rc_isOpened (cam_of s') = rc_isOpened (cam_of s)
    \<and> (\<forall>q j. rc_env (cam_of s') (q, j) =
        (if q = ctl \<and> j = MMAL_PARAMETER_EXPOSURE_MODE
         then Some [exposure_mode_value (convertExposure (rs_exposureMode (opened_exposure (state_of s))))]
         else if q = ctl \<and> j = MMAL_PARAMETER_SHUTTER_SPEED \<and> rs_shutterSpeed (state_of s) \<noteq> 0
         then Some [uint_of_int (rs_shutterSpeed (state_of s))] else rc_env (cam_of s) (q, j)))"
  using assms control_commit_runs [OF assms(1), of a ctl outs]
  by (auto simp: commit_exposure_settings_def commitShutterSpeed_def commitExposure_def opened_exposure_def param_ids_differ)

text \<open>A list of parameters with different identifiers sent to the control port.\<close>

abbreviation control_commits :: "('f, param_store) raspicam port_ops \<Rightarrow> (u32 \<times> ('f raspivid_state \<Rightarrow> u32 list)) list
    \<Rightarrow> ('f, param_store) cam_step list" where
  "control_commits c ps \<equiv> map (\<lambda>(i, v). control_commit c i v) ps"

lemma andthen_assoc: "andthen (andthen r f) g = andthen r (\<lambda>x. andthen (f x) g)"
  by (auto simp: andthen_def split: bind_splits run.splits)

lemma steps_append: "steps (fs @ gs) = (\<lambda>s. andthen (steps fs s) (steps gs))"
proof (induction fs)
  case (Cons f fs)
  show ?case by (rule ext) (simp add: Cons.IH andthen_assoc)
qed simp

lemma control_commits_run:
  fixes s :: "('f, param_store) cam"
  assumes "keeps_parameters c" and "camera_board a ctl outs s" and "distinct (map fst ps)"
  shows "\<exists>s'. steps (control_commits c ps) s = ret s' \<and> camera_board a ctl outs s' \<and> state_of s' = state_of s
    \<and> rc_isOpened (cam_of s') = rc_isOpened (cam_of s)
    \<and> (\<forall>q j. rc_env (cam_of s') (q, j) =
        (case map_of ps j of Some v \<Rightarrow> if q = ctl then Some (v (state_of s)) else rc_env (cam_of s) (q, j)
         | None \<Rightarrow> rc_env (cam_of s) (q, j)))"
  using assms(2,3)
proof (induction ps arbitrary: s)
  case (Cons p ps)
  obtain i v where p: "p = (i, v)" by (cases p)
  let ?s = "store ctl i (v (state_of s)) s"
  have r: "control_commit c i v s = ret ?s" by (rule control_commit_runs [OF assms(1) Cons.prems(1)])
  obtain s' where s': "steps (control_commits c ps) ?s = ret s'" "camera_board a ctl outs s'" "state_of s' = state_of s"
    "rc_isOpened (cam_of s') = rc_isOpened (cam_of s)"
    "\<And>q j. rc_env (cam_of s') (q, j) =
        (case map_of ps j of Some u \<Rightarrow> if q = ctl then Some (u (state_of s)) else ((rc_env (cam_of s))((ctl, i) \<mapsto> v (state_of s))) (q, j)
         | None \<Rightarrow> ((rc_env (cam_of s))((ctl, i) \<mapsto> v (state_of s))) (q, j))"
    using Cons.IH [of ?s, unfolded store_simps] Cons.prems(1) Cons.prems(2) by auto
  have "map_of ps i = None" using Cons.prems(2) p by (simp add: map_of_eq_None_iff)
  then show ?case using r s' p by (auto split: option.splits)
qed simp

lemma in_step_of_maps:
  fixes t :: "('f, param_store) cam"
  assumes "\<And>j u. (j, u) \<in> set (control_params k) \<Longrightarrow> rc_env (cam_of t) (ctl, j) = Some (u (state_of t))"
    and "\<And>q. q \<in> set outs \<Longrightarrow> rc_env (cam_of t) (q, MMAL_PARAMETER_ROTATION) = Some [uint_of_int (quarter_turns (rs_rotation (state_of t)))]
      \<and> rc_env (cam_of t) (q, MMAL_PARAMETER_MIRROR) = Some [mirror_mode_value (mirror_of (rs_hflip (state_of t)) (rs_vflip (state_of t)))]"
    and "rs_shutterSpeed (state_of t) \<noteq> 0
      \<Longrightarrow> rc_env (cam_of t) (ctl, MMAL_PARAMETER_SHUTTER_SPEED) = Some [uint_of_int (rs_shutterSpeed (state_of t))]"
  shows "in_step k ctl outs t"
  by (rule in_stepI) (use assms in \<open>auto simp: output_params_def\<close>)

lemma opened_exposure_frame [simp]:
  "rs_saturation (opened_exposure S) = rs_saturation S" "rs_sharpness (opened_exposure S) = rs_sharpness S"
  "rs_contrast (opened_exposure S) = rs_contrast S" "rs_brightness (opened_exposure S) = rs_brightness S"
  "rs_ISO (opened_exposure S) = rs_ISO S" "rs_shutterSpeed (opened_exposure S) = rs_shutterSpeed S"
  "rs_camera_component (opened_exposure S) = rs_camera_component S"
  by (simp_all add: opened_exposure_def)

lemma commitParameters_runs:
  fixes s :: "('f, param_store) cam"
  assumes c: "keeps_parameters c" and b: "camera_board a ctl outs s"
  shows "\<exists>s'. commitParameters c k s = ret s' \<and> camera_board a ctl outs s' \<and> in_step k ctl outs s'
    \<and> state_of s' = opened_exposure (state_of s)"
proof -
  let ?A = "take 5 (control_params k)"
    and ?B = "[control_params k ! 6, control_params k ! 7, control_params k ! 8]"
    and ?C = "[control_params k ! 9, control_params k ! 10, control_params k ! 11]"
  note defs = commitSaturation_def commitSharpness_def commitContrast_def commitBrightness_def commitISO_def
    commitExposureCompensation_def commitMetering_def commitImageEffect_def commitVideoStabilization_def commitAWB_def commitAWB_RB_def
  have l: "length outs = 3" and cam: "rs_camera_component (state_of s) = Some a" using b by (simp_all add: camera_board_def)
  have all: "commitParameters c k s = steps (control_commits c ?A @ [commit_exposure_settings c] @ control_commits c ?B
      @ [commitRotation c, commitFlips c] @ control_commits c ?C) s"
    unfolding commitParameters_def defs cam control_params_def by simp
  have d: "distinct (map fst ?A)" "distinct (map fst ?B)" "distinct (map fst ?C)"
    by (simp_all add: control_params_def param_ids_differ)
  obtain s1 where s1: "steps (control_commits c ?A) s = ret s1" "camera_board a ctl outs s1" "state_of s1 = state_of s"
    "\<And>q j. rc_env (cam_of s1) (q, j) = (case map_of ?A j of Some v \<Rightarrow> if q = ctl then Some (v (state_of s)) else rc_env (cam_of s) (q, j)
         | None \<Rightarrow> rc_env (cam_of s) (q, j))"
    using control_commits_run [OF c b d(1)] by auto
  obtain s2 where s2: "commit_exposure_settings c s1 = ret s2" "camera_board a ctl outs s2" "state_of s2 = opened_exposure (state_of s)"
    "\<And>q j. rc_env (cam_of s2) (q, j) =
        (if q = ctl \<and> j = MMAL_PARAMETER_EXPOSURE_MODE
         then Some [exposure_mode_value (convertExposure (rs_exposureMode (opened_exposure (state_of s))))]
         else if q = ctl \<and> j = MMAL_PARAMETER_SHUTTER_SPEED \<and> rs_shutterSpeed (state_of s) \<noteq> 0
         then Some [uint_of_int (rs_shutterSpeed (state_of s))] else rc_env (cam_of s1) (q, j))"
    using exposure_settings_run [OF c s1(2)] unfolding s1(3) by blast
  have s2': "steps [commit_exposure_settings c] s1 = ret s2" using s2(1) by simp
  obtain s3 where s3: "steps (control_commits c ?B) s2 = ret s3" "camera_board a ctl outs s3" "state_of s3 = state_of s2"
    "\<And>q j. rc_env (cam_of s3) (q, j) = (case map_of ?B j of Some v \<Rightarrow> if q = ctl then Some (v (state_of s2)) else rc_env (cam_of s2) (q, j)
         | None \<Rightarrow> rc_env (cam_of s2) (q, j))"
    using control_commits_run [OF c s2(2) d(2)] by auto
  let ?s4 = "store_outputs outs MMAL_PARAMETER_MIRROR [mirror_mode_value (mirror_of (rs_hflip (state_of s2)) (rs_vflip (state_of s2)))]
    (store_outputs outs MMAL_PARAMETER_ROTATION [uint_of_int (quarter_turns (rs_rotation (state_of s2)))] s3)"
  have s4: "steps [commitRotation c, commitFlips c] s3 = ret ?s4"
    using s3(2,3) by (simp add: commit_outputs_run [OF c, of a ctl outs])
  obtain s5 where s5: "steps (control_commits c ?C) ?s4 = ret s5" "camera_board a ctl outs s5" "state_of s5 = state_of s2"
    "\<And>q j. rc_env (cam_of s5) (q, j) = (case map_of ?C j of Some v \<Rightarrow> if q = ctl then Some (v (state_of s2)) else rc_env (cam_of ?s4) (q, j)
         | None \<Rightarrow> rc_env (cam_of ?s4) (q, j))"
    using control_commits_run [OF c _ d(3), of a ctl outs ?s4] s3(2,3) by auto
  have "commitParameters c k s = ret s5"
    unfolding all steps_append by (simp only: s1(1) s2' s3(1) s4 s5(1) andthen_simps)
  moreover have "in_step k ctl outs s5"
  proof (rule in_step_of_maps)
    fix j u assume "(j, u) \<in> set (control_params k)"
    then show "rc_env (cam_of s5) (ctl, j) = Some (u (state_of s5))"
      unfolding control_params_def
      by (auto simp: s5(3,4) s3(4) s2(3,4) s1(4) l control_params_def param_ids_differ)
  qed (simp_all add: s5(3,4) s3(4) s2(3,4) l control_params_def param_ids_differ)
  ultimately show ?thesis using s5(2,3) s2(3) by auto
qed

section \<open>Every setter reaches the camera\<close>

lemma setters_stay_in_step:
  fixes s :: "('f, param_store) cam"
  assumes "keeps_parameters c" and "camera_board a ctl outs s" and "rc_isOpened (cam_of s)" and "in_step k ctl outs s"
  shows "\<exists>s'. steps (map (run_setter c k) xs) s = ret s' \<and> in_step k ctl outs s' \<and> camera_board a ctl outs s'
    \<and> state_of s' = fold (setter_change k) xs (state_of s)"
  using assms(2-4)
proof (induction xs arbitrary: s)
  case (Cons x xs)
  obtain s1 where s1: "run_setter c k x s = ret s1" "camera_board a ctl outs s1" "rc_isOpened (cam_of s1)"
    "in_step k ctl outs s1" "state_of s1 = setter_change k x (state_of s)"
    using setter_stays_in_step [OF assms(1) Cons.prems] by blast
  then show ?case using Cons.IH [OF s1(2-4)] by simp
qed simp

lemma setters_keep_range: "in_range S \<Longrightarrow> in_range (fold (setter_change k) xs S)"
  by (induction xs arbitrary: S) (simp_all add: setter_keeps_range)

lemma opened_in_range: "in_range S \<Longrightarrow> in_range (opened_exposure S)"
  by (simp add: in_range_def opened_exposure_def)

lemma in_step_opened [simp]:
  "in_step k ctl outs (upd_env (\<lambda>r. r\<lparr>rc_isOpened := x\<rparr>) s) = in_step k ctl outs s"
  "camera_board a ctl outs (upd_env (\<lambda>r. r\<lparr>rc_isOpened := x\<rparr>) s) = camera_board a ctl outs s"
  by (simp_all add: in_step_def camera_board_def)

text \<open>C16. The camera component holds what the object says. With a component that keeps the parameters
  it is sent, \<open>commitParameters\<close> returns, and so does then every sequence of setters of the open camera;
  after it each parameter of the control port and of the three output ports is the one the settings
  stand for, clamped or converted by the program, and the settings are the result of the changes one after
  the other. Those that the program limits are in their range: brightness, sharpness, contrast, saturation,
  exposure compensation, rotation and shutter speed. The ISO, the gains of the white balance and the frame
  rate are taken as they are. The setters of format and sensor mode change nothing on the open camera; size
  and frame rate do change, which \<^verbatim>\<open>private_impl.h\<close> says they do not.\<close>

theorem settings_reach_camera:
  fixes s :: "('f, param_store) cam"
  assumes "keeps_parameters c" and "camera_board a ctl outs s" and "in_range (state_of s)"
  shows "\<exists>s1 s2. commitParameters c k s = ret s1
    \<and> steps (map (run_setter c k) xs) (upd_env (\<lambda>r. r\<lparr>rc_isOpened := True\<rparr>) s1) = ret s2
    \<and> in_step k ctl outs s2 \<and> in_range (state_of s2)
    \<and> state_of s2 = fold (setter_change k) xs (opened_exposure (state_of s))"
proof -
  obtain s1 where s1: "commitParameters c k s = ret s1" "camera_board a ctl outs s1" "in_step k ctl outs s1"
    "state_of s1 = opened_exposure (state_of s)" using commitParameters_runs [OF assms(1,2)] by blast
  then obtain s2 where "steps (map (run_setter c k) xs) (upd_env (\<lambda>r. r\<lparr>rc_isOpened := True\<rparr>) s1) = ret s2"
    "in_step k ctl outs s2" "state_of s2 = fold (setter_change k) xs (opened_exposure (state_of s))"
    using setters_stay_in_step [OF assms(1), of a ctl outs "upd_env (\<lambda>r. r\<lparr>rc_isOpened := True\<rparr>) s1" k xs] by auto
  then show ?thesis using s1(1) setters_keep_range [OF opened_in_range [OF assms(3)], of k xs] by auto
qed

text \<open>A component that keeps its parameters, and floating point numbers that are integers.\<close>

definition keeping :: "('f, param_store) raspicam port_ops \<Rightarrow> ('f, param_store) raspicam port_ops" where
  "keeping base = base\<lparr>pp_parameter_set := (\<lambda>_ q pm s. ret (MMAL_SUCCESS, store q (pm_id pm) (pm_data pm) s))\<rparr>"

lemma keeping_keeps: "keeps_parameters (keeping base)"
  by (simp add: keeps_parameters_def keeping_def)

lemma small_camera_board: "camera_board 1 2 [10, 11, 12] (small_camera r :: ('f, param_store) cam)"
  by (simp add: camera_board_def CAMERA_PARAMETER_SET_def)

lemma defaults_in_range: "in_range (rc_state (Private_Impl k y))"
  by (simp add: in_range_def Private_Impl_def setDefaultStateParams_def)

theorem settings_reach_camera_witness:
  "\<forall>base (k :: (int, param_store) cam_ops). \<exists>s1 s2.
     commitParameters (keeping base) k (small_camera (Private_Impl k (\<lambda>_. None))) = ret s1
   \<and> steps (map (run_setter (keeping base) k) [SetBrightness 300, SetRotation (- 90)]) (upd_env (\<lambda>r. r\<lparr>rc_isOpened := True\<rparr>) s1) = ret s2
   \<and> rc_env (cam_of s2) (2, MMAL_PARAMETER_BRIGHTNESS) = Some [100, 100]
   \<and> rc_env (cam_of s2) (11, MMAL_PARAMETER_ROTATION) = Some [270]"
proof (intro allI)
  fix base and k :: "(int, param_store) cam_ops"
  let ?s = "small_camera (Private_Impl k (\<lambda>_. None))" and ?xs = "[SetBrightness 300, SetRotation (- 90)] :: int setter list"
  have "in_range (state_of ?s)" using defaults_in_range [of k "\<lambda>_. None"] by (simp add: in_range_def)
  from settings_reach_camera [OF keeping_keeps small_camera_board this, of base k ?xs]
  obtain s1 s2 where s: "commitParameters (keeping base) k ?s = ret s1"
    "steps (map (run_setter (keeping base) k) ?xs) (upd_env (\<lambda>r. r\<lparr>rc_isOpened := True\<rparr>) s1) = ret s2"
    "in_step k 2 [10, 11, 12] s2" "state_of s2 = fold (setter_change k) ?xs (opened_exposure (state_of ?s))" by blast
  have v: "rs_brightness (state_of s2) = 100" "rs_rotation (state_of s2) = 270"
    using s(4) by (simp_all add: setter_change_def first_turn_eq)
  have "rc_env (cam_of s2) (2, MMAL_PARAMETER_BRIGHTNESS) = Some [100, 100]"
    using in_stepD(1) [OF s(3), of MMAL_PARAMETER_BRIGHTNESS] v(1) by (force simp: control_params_def)
  moreover have "rc_env (cam_of s2) (11, MMAL_PARAMETER_ROTATION) = Some [270]"
    using in_stepD(2) [OF s(3), of MMAL_PARAMETER_ROTATION _ 11] v(2) by (force simp: output_params_def quarter_turns_def c_div_def)
  ultimately show "\<exists>s1 s2. commitParameters (keeping base) k ?s = ret s1
     \<and> steps (map (run_setter (keeping base) k) ?xs) (upd_env (\<lambda>r. r\<lparr>rc_isOpened := True\<rparr>) s1) = ret s2
     \<and> rc_env (cam_of s2) (2, MMAL_PARAMETER_BRIGHTNESS) = Some [100, 100]
     \<and> rc_env (cam_of s2) (11, MMAL_PARAMETER_ROTATION) = Some [270]" using s(1,2) by blast
qed

end
