(* ===== verification/Raspicam_Facts.thy ===== *)
theory Raspicam_Facts
  imports Raspicam_Image Raspicam_Settings Mmal_Port_Recycle
begin

text \<open>
  Properties of the camera (\<^verbatim>\<open>src/private/private_impl.cpp\<close>): the frame that reaches the user and the
  buffer that goes back to the camera, the parameters the camera component holds after any calls of the
  setters, and the states in which the program misbehaves.
\<close>

section \<open>A buffer goes round\<close>

text \<open>Reading the time leaves the object alone.\<close>

definition outside_clock :: "('f, 'y) raspicam port_ops \<Rightarrow> bool" where
  "outside_clock c \<longleftrightarrow> (\<forall>r. \<exists>t y. pp_time c r = (t, r\<lparr>rc_env := y\<rparr>))"

definition camera_sends :: "('f, 'y) raspicam port_ops \<Rightarrow> addr \<Rightarrow> ('f, 'y) cam \<Rightarrow> bool" where
  "camera_sends c p s \<longleftrightarrow> port_takes c p s \<and> outside_clock c"

definition header_sent :: "addr \<Rightarrow> ('f, 'y) cam \<Rightarrow> ('f, 'y) cam \<Rightarrow> bool" where
  "header_sent p s s' \<longleftrightarrow> (\<exists>y. cam_of s' = (cam_of s)\<lparr>rc_env := y\<rparr>)
     \<and> (\<exists>st. port_of s' = (port_of s)(p := (port_of s p)\<lparr>po_transit := po_transit (port_of s p) + 1, po_stats_rx := st\<rparr>))"

lemma camera_sends_env [simp]: "camera_sends c p (upd_env h s) = camera_sends c p s"
  by (simp add: camera_sends_def port_takes_def)

lemma recycle_next:
  assumes "camera_sends c p s" and v: "header_out pool xs b s" and "rs_video_pool (state_of s) = Some pool"
  shows "\<exists>s' nb ys. recycle_buffer c p b s = ret s' \<and> xs @ [b] = nb # ys \<and> pool_queue_repr pool s' ys \<and> header_sent p s s'"
proof -
  have c: "port_takes c p s" "outside_clock c" using assms(1) by (simp_all add: camera_sends_def)
  obtain s1 s2 s' nb ys where r: "header_release c b s = ret s1" "ps_env s1 = ps_env s" "pool_queue_get pool s1 = Some (Some nb, s2)"
    "mmal_port_send_buffer c (Some p) nb s2 = ret (MMAL_SUCCESS, s')" "xs @ [b] = nb # ys" "pool_queue_repr pool s' ys" "port_sent c p s s'"
    using recycle_runs [OF c(1) v] by blast
  have "recycle_buffer c p b s = ret s'"
    using r c(1) assms(3) by (simp add: recycle_buffer_def port_takes_def void_def)
  moreover obtain t y where "pp_time c (cam_of s) = (t, (cam_of s)\<lparr>rc_env := y\<rparr>)" using c(2) unfolding outside_clock_def by metis
  then have "header_sent p s s'" using r(7) by (auto simp: header_sent_def port_sent_def)
  ultimately show ?thesis using r(5,6) by blast
qed

section \<open>The frame that reaches the user\<close>

lemma image_size_pos: "0 < w \<Longrightarrow> 0 < h \<Longrightarrow> fmt \<noteq> RASPICAM_FORMAT_IGNORE \<Longrightarrow> 0 < image_size fmt w h"
  by (cases fmt) (simp_all add: image_size_def)

lemma retrieves:
  assumes "sized w h s" and "whole_rows (rs_captureFtm (state_of s)) h"
    and "image_size (rs_captureFtm (state_of s)) w h \<le> length (rc_buffData (cam_of s))"
  shows "retrieve s = ret (Some (take (image_size (rs_captureFtm (state_of s)) w h) (rc_buffData (cam_of s))))"
proof -
  have "rc_buffData (cam_of s) \<noteq> []"
    using assms image_size_pos [of w h "rs_captureFtm (state_of s)"] by (auto simp: sized_def whole_rows_def)
  then show ?thesis using assms(3) unat_image_size [OF assms(1,2)] by (simp add: retrieve_def Let_def)
qed

text \<open>The callback runs in an object that is idle but for a thread that waits for a frame.\<close>

definition waiting_object :: "addr \<Rightarrow> ('f, 'y) cam \<Rightarrow> bool" where
  "waiting_object p s \<longleftrightarrow> po_userdata (port_of s p) \<noteq> None \<and> \<not> rc_locked (cam_of s) \<and> rc_userCallback (cam_of s) = None
     \<and> rc_wantToGrab (cam_of s)
     \<and> \<not> (rs_shutterSpeed (state_of s) \<noteq> 0 \<and> rs_exposureMode (state_of s) = RASPICAM_EXPOSURE_FIXEDFPS)"

lemma callback_grabs:
  assumes o: "waiting_object p s" and c: "camera_sends c p s"
    and pool: "rs_video_pool (state_of s) = Some pool" "header_out pool xs b s"
    and f: "frame_of k b s = Some data" and n: "bh_length (bufs s b) \<noteq> 0"
  shows "\<exists>s' nb ys y. video_buffer_callback c k p b s = ret s' \<and> xs @ [b] = nb # ys \<and> pool_queue_repr pool s' ys
    \<and> cam_of s' = (cam_of s)\<lparr>rc_buffData := data, rc_wantToGrab := False, rc_ready := True, rc_env := y\<rparr>
    \<and> po_transit (port_of s' p) = po_transit (port_of s p) + 1 \<and> po_callback (port_of s' p) = po_callback (port_of s p)"
proof -
  let ?s0 = "upd_env (\<lambda>r. r\<lparr>rc_locked := True\<rparr>) s"
  let ?s1 = "upd_env (\<lambda>r. r\<lparr>rc_buffData := data, rc_wantToGrab := False\<rparr>) ?s0"
  have w: "wants_frame b ?s0" using o n by (simp add: wants_frame_def waiting_object_def)
  have "payload_bytes b ?s0 = payload_bytes b s" by (intro ext) (simp add: payload_bytes_def cong: option.case_cong if_cong)
  then have "frame_of k b ?s0 = Some data" using f by (simp add: frame_of_def Let_def cong: if_cong)
  then have g: "grab_frame k b ?s0 = ret ?s1" by (simp add: grab_frame_def)
  obtain s2 nb ys where r: "recycle_buffer c p b ?s1 = ret s2" "xs @ [b] = nb # ys" "pool_queue_repr pool s2 ys"
    "header_sent p ?s1 s2" using recycle_next [of c p ?s1 pool xs b] c pool by auto
  then obtain y st where y: "cam_of s2 = (cam_of ?s1)\<lparr>rc_env := y\<rparr>"
    "port_of s2 = (port_of s)(p := (port_of s p)\<lparr>po_transit := po_transit (port_of s p) + 1, po_stats_rx := st\<rparr>)"
    by (auto simp: header_sent_def)
  have k: "keep_shutter_speed c s2 = ret s2" "call_user k s2 = ret s2"
    using o y(1) by (auto simp: keep_shutter_speed_def call_user_def waiting_object_def)
  have "video_buffer_callback c k p b s = ret (upd_env (\<lambda>r. r\<lparr>rc_locked := False\<rparr>) (BroadCast s2))"
    using o w g r(1) k by (auto simp: video_buffer_callback_def video_buffer_body_def with_lock_def waiting_object_def)
  moreover have "cam_of (upd_env (\<lambda>r. r\<lparr>rc_locked := False\<rparr>) (BroadCast s2))
      = (cam_of s)\<lparr>rc_buffData := data, rc_wantToGrab := False, rc_ready := True, rc_env := y\<rparr>"
    using y(1) o by (simp add: BroadCast_def waiting_object_def)
  ultimately show ?thesis
    using r(2,3) y(2) by (intro exI [of _ "upd_env (\<lambda>r. r\<lparr>rc_locked := False\<rparr>) (BroadCast s2)"] exI [of _ nb] exI [of _ ys] exI [of _ y])
      (simp add: BroadCast_def pool_repr_upd)
qed

text \<open>C15. A thread that waits in \<open>grab\<close> gets the image of the buffer that the camera gives back. When the
  video port returns a filled buffer the callback succeeds; afterwards \<open>retrieve\<close> writes exactly the rows
  of the image without their padding, for a packed or grey image of any size and for a YUV image with an
  even height whose planes have padding on both sides or on neither; the waiting thread is allowed to
  go on; the buffer is at the end of the pool's queue but for the first header of the pool, which is at the port
  in its place. The user has set no callback, and the callback has no shutter speed to set again in the fixed
  exposure mode.\<close>

theorem frame_reaches_user:
  fixes s :: "('f, 'y) cam"
  assumes cb: "po_callback (port_of s p) = Some VIDEO_BUFFER_CB" "pp_cb c VIDEO_BUFFER_CB = video_buffer_callback c' k"
    and "\<not> pp_collect_stats c" and c: "camera_sends c' p s" and o: "waiting_object p s"
    and pool: "rs_video_pool (state_of s) = Some pool" "header_out pool xs b s"
    and img: "sized w h s" "holds_frame w h b s" "whole_rows (rs_captureFtm (state_of s)) h"
      "unpadded_height (rs_captureFtm (state_of s)) w h"
  shows "\<exists>s' nb ys. mmal_port_buffer_header_callback c p b s = ret s'
    \<and> retrieve s' = ret (Some (image_of (payload_of s b) (rs_captureFtm (state_of s)) w h))
    \<and> grab_look s' = ret True \<and> \<not> rc_wantToGrab (cam_of s')
    \<and> xs @ [b] = nb # ys \<and> pool_queue_repr pool s' ys \<and> po_transit (port_of s' p) = po_transit (port_of s p)"
proof -
  let ?fmt = "rs_captureFtm (state_of s)"
  obtain data where d: "frame_of k b s = Some data" "image_size ?fmt w h \<le> length data"
    "take (image_size ?fmt w h) data = image_of (payload_of s b) ?fmt w h" using frame_cropped [OF img] by blast
  have "0 < image_size ?fmt w h" using img by (intro image_size_pos) (auto simp: sized_def whole_rows_def)
  then have n: "bh_length (bufs s b) \<noteq> 0" using img(2) sized_bounds(3) [OF img(1)] by (auto simp: holds_frame_def)
  obtain s1 nb ys y where v: "video_buffer_callback c' k p b s = ret s1" "xs @ [b] = nb # ys" "pool_queue_repr pool s1 ys"
    "cam_of s1 = (cam_of s)\<lparr>rc_buffData := data, rc_wantToGrab := False, rc_ready := True, rc_env := y\<rparr>"
    "po_transit (port_of s1 p) = po_transit (port_of s p) + 1"
    using callback_grabs [OF o c pool d(1) n] by blast
  let ?s' = "in_transit_decrement p s1"
  have "mmal_port_buffer_header_callback c p b s = ret ?s'"
    using cb assms(3) v(1) by (simp add: mmal_port_buffer_header_callback_def)
  moreover have e: "cam_of ?s' = (cam_of s)\<lparr>rc_buffData := data, rc_wantToGrab := False, rc_ready := True, rc_env := y\<rparr>"
    using v(4) by (simp add: in_transit_decrement_def Let_def)
  moreover have "sized w h ?s'" using img(1) by (simp add: sized_def e)
  moreover have "po_transit (port_of ?s' p) = po_transit (port_of s p)" using v(5) by (simp add: in_transit_decrement_def Let_def)
  moreover have "pool_queue_repr pool ?s' ys" using v(3) by (simp add: in_transit_decrement_def Let_def pool_repr_upd)
  moreover have "grab_look ?s' = ret True" using o e by (simp add: grab_look_def waiting_object_def)
  ultimately show ?thesis
    using v(2) d retrieves [of w h ?s'] img(3) by (intro exI [of _ ?s'] exI [of _ nb] exI [of _ ys]) simp
qed

section \<open>Frames that are wrong\<close>

lemma grab_frame_runs:
  "frame_of k b s = Some data \<Longrightarrow> grab_frame k b s = ret (upd_env (\<lambda>r. r\<lparr>rc_buffData := data, rc_wantToGrab := False\<rparr>) s)"
  by (simp add: grab_frame_def)

text \<open>C37. A YUV image whose width is a multiple of 32 and whose height is not one of 16, such as 1920 by
  1080, is copied with the padding rows between its planes, while the user is given as many bytes as the
  image without padding has: where the first row of the plane of the first colour belongs, \<open>retrieve\<close>
  writes the first row of the padding below the luminance, whatever the buffer holds.\<close>

theorem yuv_planes_misplaced:
  fixes s :: "('f, 'y) cam"
  assumes fmt: "rs_captureFtm (state_of s) = RASPICAM_FORMAT_YUV420" "even h"
    and s: "sized w h s" "holds_frame w h b s" and pad: "padded_width w = w" "padded_height h \<noteq> h" and h: "2 \<le> h"
  shows "\<exists>s' img. grab_frame k b s = ret s' \<and> retrieve s' = ret (Some img)
    \<and> (\<forall>i < w div 2. img ! (w * h + i) = payload_of s b (w * h + i)
        \<and> image_of (payload_of s b) RASPICAM_FORMAT_YUV420 w h ! (w * h + i) = payload_of s b (w * padded_height h + i))"
proof -
  let ?f = "payload_of s b" and ?n = "unat (bh_length (bufs s b))" and ?m = "image_size RASPICAM_FORMAT_YUV420 w h"
  let ?s' = "upd_env (\<lambda>r. r\<lparr>rc_buffData := plane_row ?f 0 ?n, rc_wantToGrab := False\<rparr>) s"
  have le: "?m \<le> ?n" using sized_bounds(3) [OF s(1)] s(2) fmt(1) by (simp add: holds_frame_def)
  have "grab_frame k b s = ret ?s'" by (rule grab_frame_runs [OF whole_frame [OF s(1) pad(1) s(2)]])
  moreover have "retrieve ?s' = ret (Some (take ?m (plane_row ?f 0 ?n)))"
    using retrieves [of w h ?s'] s(1) fmt le by (simp add: sized_def whole_rows_def)
  moreover have "take ?m (plane_row ?f 0 ?n) ! (w * h + i) = ?f (w * h + i)" if "i < w div 2" for i
  proof -
    have "1 * (w div 2) \<le> h div 2 * (w div 2)" using h by (intro mult_le_mono1) simp
    then have "w * h + i < w * h + 2 * (w div 2 * (h div 2))" using that mult.commute [of "w div 2" "h div 2"] by linarith
    then have "w * h + i < ?m" by (simp add: image_size_def)
    then show ?thesis using le by (simp add: plane_row_def)
  qed
  moreover have "image_of ?f RASPICAM_FORMAT_YUV420 w h ! (w * h + i) = ?f (w * padded_height h + i)" if "i < w div 2" for i
  proof -
    have "plane ?f (w * padded_height h) (w div 2) (w div 2) (h div 2) ! (0 * (w div 2) + i) = ?f (w * padded_height h + 0 * (w div 2) + i)"
      by (rule nth_plane) (use that h in simp_all)
    moreover have "i < h div 2 * (w div 2)"
    proof -
      have "1 * (w div 2) \<le> h div 2 * (w div 2)" using h by (intro mult_le_mono1) simp
      then show ?thesis using that by linarith
    qed
    ultimately show ?thesis using pad(1) by (simp add: image_of_def Let_def nth_append mult.commute [of w])
  qed
  ultimately show ?thesis by blast
qed

text \<open>The width and the height can be changed while the camera is open, although the interface says
  they cannot. When the image of the new size is larger than the frame that was kept, \<open>retrieve\<close> reads
  past the end of its array.\<close>

lemma resized_while_open_overreads:
  fixes s :: "('f, 'y) cam"
  assumes "rc_isOpened (cam_of s)" and "retrieve s = ret (Some img)"
    and "length (rc_buffData (cam_of s)) < unat (getImageTypeSize w h (rs_captureFtm (state_of s)))"
  shows "\<exists>s'. setCaptureSize w h s = ret s' \<and> rc_isOpened (cam_of s') \<and> retrieve s' = Some Faults"
proof -
  let ?s' = "upd_state (\<lambda>S. S\<lparr>rs_height := int_of_uint h\<rparr>) (upd_state (\<lambda>S. S\<lparr>rs_width := int_of_uint w\<rparr>) s)"
  have "rc_buffData (cam_of s) \<noteq> []" using assms(2) by (auto simp: retrieve_def Let_def split: if_splits)
  then have "retrieve ?s' = Some Faults" using assms(3) by (simp add: retrieve_def upd_state_def imageTypeSize_def Let_def)
  then show ?thesis
    using assms(1) by (intro exI [of _ ?s']) (simp add: setCaptureSize_def setWidth_def setHeight_def upd_state_def)
qed

text \<open>The report of a settings event, and the settings when the camera has been opened again.\<close>

definition settings_event :: "addr \<Rightarrow> u32 list \<Rightarrow> ('f, 'y) cam \<Rightarrow> bool" where
  "settings_event b ws s \<longleftrightarrow> bh_cmd (bufs s b) = MMAL_EVENT_PARAMETER_CHANGED
     \<and> (\<exists>d. bh_data (bufs s b) = Some d
          \<and> w_event (ps_env s) d = EventParameter (words_param MMAL_PARAMETER_CAMERA_SETTINGS ws))"

definition reopened :: "addr \<Rightarrow> 'f raspivid_state \<Rightarrow> 'f raspivid_state \<Rightarrow> bool" where
  "reopened a S T \<longleftrightarrow> (\<exists>pool. T = S\<lparr>rs_camera_component := Some a, rs_video_pool := pool\<rparr>)"

text \<open>C38. Automatic exposure does not survive a reopening. The camera reports the exposure it has chosen
  in an event; its handler stores it as the shutter speed, which it succeeds in doing. When the
  camera is opened again, \<open>commitParameters\<close> takes it for a shutter speed that the user has set: it
  switches the automatic exposure mode to the one of a fixed frame rate and sends the reported exposure as
  the shutter speed.\<close>

theorem auto_exposure_lost:
  fixes s :: "('f, param_store) cam"
  assumes c: "keeps_parameters c" and o: "\<not> rc_locked (cam_of s)" "po_userdata (port_of s ctl) \<noteq> None"
    and b: "settings_event b ws s" "header_out pool xs b s" and ws: "sint (ws ! 0) \<noteq> 0"
    and auto: "rs_exposureMode (state_of s) = RASPICAM_EXPOSURE_AUTO"
  shows "\<exists>s1. camera_control_callback c k ctl b s = ret s1 \<and> rs_exposureMode (state_of s1) = RASPICAM_EXPOSURE_AUTO
    \<and> (\<forall>a ctl2 outs t. camera_board a ctl2 outs t \<and> reopened a (state_of s1) (state_of t) \<longrightarrow>
        (\<exists>t1. commitParameters c k t = ret t1 \<and> rs_exposureMode (state_of t1) = RASPICAM_EXPOSURE_FIXEDFPS
          \<and> rc_env (cam_of t1) (ctl2, MMAL_PARAMETER_EXPOSURE_MODE) = Some [exposure_mode_value MMAL_PARAM_EXPOSUREMODE_FIXEDFPS]
          \<and> rc_env (cam_of t1) (ctl2, MMAL_PARAMETER_SHUTTER_SPEED) = Some [ws ! 0]))"
proof -
  let ?s0 = "upd_state (apply_settings k ws) (upd_env (\<lambda>r. r\<lparr>rc_locked := True\<rparr>) s)"
  have "header_out pool xs b ?s0" using b(2) by (simp add: upd_state_def)
  then obtain s1 where r: "header_release c b ?s0 = ret s1" "ps_env s1 = ps_env ?s0"
    using pool_release_last [of pool ?s0 b "pp_pools c" "pp_pre c"]
    by (auto simp: header_release_def header_out_def Let_def pool_queue_put_frame)
  let ?s1 = "upd_env (\<lambda>r. r\<lparr>rc_locked := False\<rparr>) s1"
  have cb: "camera_control_callback c k ctl b s = ret ?s1"
    using o b(1) r(1) by (auto simp: camera_control_callback_def with_lock_def settings_event_def words_param_def Let_def)
  have S: "state_of ?s1 = apply_settings k ws (state_of s)" using r(2) by (simp add: upd_state_def)
  have "\<exists>t1. commitParameters c k t = ret t1 \<and> rs_exposureMode (state_of t1) = RASPICAM_EXPOSURE_FIXEDFPS
      \<and> rc_env (cam_of t1) (ctl2, MMAL_PARAMETER_EXPOSURE_MODE) = Some [exposure_mode_value MMAL_PARAM_EXPOSUREMODE_FIXEDFPS]
      \<and> rc_env (cam_of t1) (ctl2, MMAL_PARAMETER_SHUTTER_SPEED) = Some [ws ! 0]"
    if t: "camera_board a ctl2 outs t" "reopened a (state_of ?s1) (state_of t)" for a ctl2 outs t
  proof -
    have sh: "rs_shutterSpeed (state_of t) = sint (ws ! 0)" using t(2) S by (auto simp: reopened_def apply_settings_def)
    obtain t1 where t1: "commitParameters c k t = ret t1" "in_step k ctl2 outs t1" "state_of t1 = opened_exposure (state_of t)"
      using commitParameters_runs [OF c t(1)] by blast
    have T: "rs_exposureMode (state_of t1) = RASPICAM_EXPOSURE_FIXEDFPS" "rs_shutterSpeed (state_of t1) = sint (ws ! 0)"
      using t1(3) sh ws by (simp_all add: opened_exposure_def)
    then show ?thesis using t1(1,2) ws by (auto simp: in_step_def control_params_def)
  qed
  then have "\<forall>a ctl2 outs t. camera_board a ctl2 outs t \<and> reopened a (state_of ?s1) (state_of t) \<longrightarrow>
      (\<exists>t1. commitParameters c k t = ret t1 \<and> rs_exposureMode (state_of t1) = RASPICAM_EXPOSURE_FIXEDFPS
        \<and> rc_env (cam_of t1) (ctl2, MMAL_PARAMETER_EXPOSURE_MODE) = Some [exposure_mode_value MMAL_PARAM_EXPOSUREMODE_FIXEDFPS]
        \<and> rc_env (cam_of t1) (ctl2, MMAL_PARAMETER_SHUTTER_SPEED) = Some [ws ! 0])" by blast
  moreover have "rs_exposureMode (state_of ?s1) = RASPICAM_EXPOSURE_AUTO" using S auto by (simp add: apply_settings_def)
  ultimately show ?thesis using cb by blast
qed

section \<open>The small camera\<close>

definition calling :: "('f, 'y) cam_ops \<Rightarrow> ('f, 'y) raspicam port_ops \<Rightarrow> ('f, 'y) raspicam port_ops" where
  "calling k base = (taking base)\<lparr>pp_cb := (\<lambda>_. video_buffer_callback (taking base) k)\<rparr>"

definition frame_object :: "('f, 'y) cam_ops \<Rightarrow> raspicam_format \<Rightarrow> int \<Rightarrow> int \<Rightarrow> 'y \<Rightarrow> ('f, 'y) raspicam" where
  "frame_object k fmt w h y = (let r = Private_Impl k y in r\<lparr>rc_wantToGrab := True, rc_isOpened := True,
     rc_state := (rc_state r)\<lparr>rs_captureFtm := fmt, rs_width := w, rs_height := h\<rparr>\<rparr>)"

lemma taking_sends: "camera_sends (taking base :: ('f, 'y) raspicam port_ops) p (small_camera r)"
proof -
  have "\<exists>y. r = r\<lparr>rc_env := y\<rparr>" for r :: "('f, 'y) raspicam" by (rule exI [of _ "rc_env r"]) simp
  then show ?thesis by (simp add: camera_sends_def port_takes_def outside_clock_def taking_def)
qed

lemma small_pool: "header_out 50 [] b (small_camera r)"
  by (simp add: header_out_def pool_queue_repr_def home_header_def created_empty)

theorem frame_reaches_user_witness:
  "\<forall>base (k :: (int, unit) cam_ops). \<exists>s'.
     mmal_port_buffer_header_callback (calling k base) 11 20 (small_camera (frame_object k RASPICAM_FORMAT_RGB 2 1 ())) = ret s'
   \<and> retrieve s' = ret (Some [232, 233, 234, 235, 236, 237])"
proof (intro allI)
  fix base and k :: "(int, unit) cam_ops"
  let ?s = "small_camera (frame_object k RASPICAM_FORMAT_RGB 2 1 ())"
  have o: "waiting_object 11 ?s"
    by (simp add: waiting_object_def frame_object_def Private_Impl_def setDefaultStateParams_def Let_def)
  have img: "sized 2 1 ?s" "holds_frame 2 1 20 ?s" "whole_rows (rs_captureFtm (state_of ?s)) 1"
    "unpadded_height (rs_captureFtm (state_of ?s)) 2 1"
    by (simp_all add: sized_def holds_frame_def whole_rows_def unpadded_height_def frame_object_def padded_size_def
        padded_width_def padded_height_def Let_def)
  have f: "rs_captureFtm (state_of ?s) = RASPICAM_FORMAT_RGB" by (simp add: frame_object_def Let_def)
  have i: "image_of (payload_of ?s 20) RASPICAM_FORMAT_RGB 2 1 = [232, 233, 234, 235, 236, 237]"
    by (simp add: image_of_def plane_def plane_row_def payload_of_def padded_width_def upt_rec Let_def)
  show "\<exists>s'. mmal_port_buffer_header_callback (calling k base) 11 20 ?s = ret s'
      \<and> retrieve s' = ret (Some [232, 233, 234, 235, 236, 237])"
    using frame_reaches_user [of ?s 11 "calling k base" "taking base" k 50 "[]" 20 2 1, OF _ _ _ taking_sends o _ small_pool img]
    unfolding f i by (auto simp: calling_def taking_def VIDEO_BUFFER_CB_def)
qed

theorem yuv_planes_misplaced_witness:
  "\<forall>k :: (int, unit) cam_ops. \<exists>s' img.
     grab_frame k 20 (small_camera (frame_object k RASPICAM_FORMAT_YUV420 32 2 ())) = ret s'
   \<and> retrieve s' = ret (Some img) \<and> img ! 64 = 40
   \<and> image_of (payload_of (small_camera (frame_object k RASPICAM_FORMAT_YUV420 32 2 ())) 20) RASPICAM_FORMAT_YUV420 32 2 ! 64 = 232"
proof
  fix k :: "(int, unit) cam_ops"
  let ?s = "small_camera (frame_object k RASPICAM_FORMAT_YUV420 32 2 ())"
  have "rs_captureFtm (state_of ?s) = RASPICAM_FORMAT_YUV420" "even (2 :: nat)" "sized 32 2 ?s" "holds_frame 32 2 20 ?s"
    "padded_width 32 = 32" "padded_height 2 \<noteq> 2" "(2 :: nat) \<le> 2"
    by (simp_all add: sized_def holds_frame_def frame_object_def padded_size_def padded_width_def padded_height_def Let_def)
  from yuv_planes_misplaced [OF this] show "\<exists>s' img. grab_frame k 20 ?s = ret s' \<and> retrieve s' = ret (Some img)
      \<and> img ! 64 = 40 \<and> image_of (payload_of ?s 20) RASPICAM_FORMAT_YUV420 32 2 ! 64 = 232"
    by (force simp: payload_of_def padded_height_def dest: spec [of _ 0])
qed

lemma resized_while_open_overreads_witness:
  "\<forall>k :: (int, unit) cam_ops. \<exists>s'. setCaptureSize 4 4
      (small_camera ((frame_object k RASPICAM_FORMAT_GRAY 2 2 ())\<lparr>rc_buffData := [1, 2, 3, 4]\<rparr>)) = ret s'
    \<and> retrieve s' = Some Faults"
proof
  fix k :: "(int, unit) cam_ops"
  let ?s = "small_camera ((frame_object k RASPICAM_FORMAT_GRAY 2 2 ())\<lparr>rc_buffData := [1, 2, 3, 4]\<rparr>)"
  have "rc_isOpened (cam_of ?s)" "retrieve ?s = ret (Some [1, 2, 3, 4])"
    "length (rc_buffData (cam_of ?s)) < unat (getImageTypeSize 4 4 (rs_captureFtm (state_of ?s)))"
    by (simp_all add: frame_object_def retrieve_def imageTypeSize_def getImageTypeSize_def Let_def)
  from resized_while_open_overreads [OF this] show "\<exists>s'. setCaptureSize 4 4 ?s = ret s' \<and> retrieve s' = Some Faults"
    by blast
qed

definition settings_report :: "(int, param_store) cam_ops \<Rightarrow> (int, param_store) cam" where
  "settings_report k = (let s = small_camera (Private_Impl k (\<lambda>_. None)) in
     s\<lparr>bufs := (\<lambda>b. (bufs s b)\<lparr>bh_cmd := MMAL_EVENT_PARAMETER_CHANGED\<rparr>),
       ps_env := (ps_env s)\<lparr>w_event := (\<lambda>_. EventParameter (words_param MMAL_PARAMETER_CAMERA_SETTINGS [20000, 1, 1, 1, 1, 1, 1, 1, 1, 0]))\<rparr>\<rparr>)"

lemma reopened_small: "reopened 1 S (state_of (small_camera (r\<lparr>rc_state := S\<rparr>)))"
  by (auto simp: reopened_def)

theorem auto_exposure_lost_witness:
  "\<forall>base k. \<exists>s1. camera_control_callback (keeping base) k 2 20 (settings_report k) = ret s1
    \<and> rs_exposureMode (state_of s1) = RASPICAM_EXPOSURE_AUTO
    \<and> (\<exists>t1. commitParameters (keeping base) k (small_camera ((Private_Impl k (\<lambda>_. None))\<lparr>rc_state := state_of s1\<rparr>)) = ret t1
        \<and> rs_exposureMode (state_of t1) = RASPICAM_EXPOSURE_FIXEDFPS
        \<and> rc_env (cam_of t1) (2, MMAL_PARAMETER_SHUTTER_SPEED) = Some [20000])"
proof (intro allI)
  fix base and k :: "(int, param_store) cam_ops"
  let ?ws = "[20000, 1, 1, 1, 1, 1, 1, 1, 1, 0] :: u32 list" and ?s = "settings_report k"
  let ?t = "\<lambda>s1. small_camera ((Private_Impl k (\<lambda>_. None))\<lparr>rc_state := state_of s1\<rparr>)"
  have "settings_event 20 ?ws ?s" by (simp add: settings_event_def settings_report_def Let_def)
  moreover have "header_out 50 [] 20 ?s"
    using small_pool [of 20 "Private_Impl k (\<lambda>_. None)"]
    by (simp add: settings_report_def header_out_def pool_queue_repr_def home_header_def created_empty Let_def)
  moreover have "\<not> rc_locked (cam_of ?s)" "po_userdata (port_of ?s 2) \<noteq> None" "rs_exposureMode (state_of ?s) = RASPICAM_EXPOSURE_AUTO"
    by (simp_all add: settings_report_def Private_Impl_def setDefaultStateParams_def Let_def)
  ultimately obtain s1 where s1: "camera_control_callback (keeping base) k 2 20 ?s = ret s1" "rs_exposureMode (state_of s1) = RASPICAM_EXPOSURE_AUTO"
    "\<And>a ctl2 outs t. camera_board a ctl2 outs t \<and> reopened a (state_of s1) (state_of t) \<longrightarrow>
        (\<exists>t1. commitParameters (keeping base) k t = ret t1 \<and> rs_exposureMode (state_of t1) = RASPICAM_EXPOSURE_FIXEDFPS
          \<and> rc_env (cam_of t1) (ctl2, MMAL_PARAMETER_EXPOSURE_MODE) = Some [exposure_mode_value MMAL_PARAM_EXPOSUREMODE_FIXEDFPS]
          \<and> rc_env (cam_of t1) (ctl2, MMAL_PARAMETER_SHUTTER_SPEED) = Some [?ws ! 0])"
    using auto_exposure_lost [OF keeping_keeps, of ?s 2 20 ?ws 50 "[]" base k] by auto
  have "camera_board 1 2 [10, 11, 12] (?t s1) \<and> reopened 1 (state_of s1) (state_of (?t s1))"
    by (simp only: small_camera_board reopened_small simp_thms)
  with s1 show "\<exists>s1. camera_control_callback (keeping base) k 2 20 ?s = ret s1 \<and> rs_exposureMode (state_of s1) = RASPICAM_EXPOSURE_AUTO
    \<and> (\<exists>t1. commitParameters (keeping base) k (?t s1) = ret t1 \<and> rs_exposureMode (state_of t1) = RASPICAM_EXPOSURE_FIXEDFPS
        \<and> rc_env (cam_of t1) (2, MMAL_PARAMETER_SHUTTER_SPEED) = Some [20000])"
    by (metis nth_Cons_0)
qed

end
