(* ===== verification/Raspicam_Grab.thy ===== *)
theory Raspicam_Grab
  imports Raspicam_Facts
begin

text \<open>
  Threads that wait for a frame (\<open>waitForFrame\<close> in \<^verbatim>\<open>src/private/private_impl.h\<close> and
  \<^verbatim>\<open>src/private/threadcondition.cpp\<close>), interleaved with the callbacks of the video port: the critical
  sections of any number of threads and of the callback in any order.
\<close>

section \<open>Threads and frames\<close>

text \<open>The object, the number of frames stored when each waiting thread made its request, and the number
  of frames stored so far.\<close>

type_synonym ('f, 'y) grabbing = "('f, 'y) cam \<times> (nat \<Rightarrow> nat option) \<times> nat"

text \<open>The camera gives back the buffer \<open>b\<close> of the pool.\<close>

definition gives_back :: "('f, 'y) raspicam port_ops \<Rightarrow> addr \<Rightarrow> addr \<Rightarrow> ('f, 'y) cam \<Rightarrow> bool" where
  "gives_back c p b s \<longleftrightarrow> camera_sends c p s \<and> (\<exists>pool xs. rs_video_pool (state_of s) = Some pool \<and> header_out pool xs b s)
     \<and> \<not> (rs_shutterSpeed (state_of s) \<noteq> 0 \<and> rs_exposureMode (state_of s) = RASPICAM_EXPOSURE_FIXEDFPS)"

definition same_flags :: "('f, 'y) cam \<Rightarrow> ('f, 'y) cam \<Rightarrow> bool" where
  "same_flags s s' \<longleftrightarrow> rc_ready (cam_of s') = rc_ready (cam_of s) \<and> rc_wantToGrab (cam_of s') = rc_wantToGrab (cam_of s)
     \<and> rc_locked (cam_of s') = rc_locked (cam_of s) \<and> rc_userCallback (cam_of s') = rc_userCallback (cam_of s)"

text \<open>A request, a look that finds the flag true and makes \<open>grab\<close> return, a look that finds it false and
  makes the thread wait again, a callback, and any other call that leaves the flags alone.\<close>

inductive grab_step :: "('f, 'y) raspicam port_ops \<Rightarrow> ('f, 'y) cam_ops \<Rightarrow> addr \<Rightarrow> ('f, 'y) grabbing \<Rightarrow> ('f, 'y) grabbing \<Rightarrow> bool"
  for c k p where
  step_request: "W t = None \<Longrightarrow> grab_request s = ret (True, s') \<Longrightarrow> grab_step c k p (s, W, n) (s', W(t \<mapsto> n), n)"
| step_return: "W t = Some m \<Longrightarrow> grab_look s = ret True \<Longrightarrow> grab_step c k p (s, W, n) (s, W(t := None), n)"
| step_again: "W t = Some m \<Longrightarrow> grab_look s = ret False \<Longrightarrow> grab_step c k p (s, W, n) (s, W, n)"
| step_buffer: "gives_back c p b s \<Longrightarrow> video_buffer_callback c k p b s = ret s'
    \<Longrightarrow> grab_step c k p (s, W, n) (s', W, if wants_frame b s then Suc n else n)"
| step_other: "same_flags s s' \<Longrightarrow> grab_step c k p (s, W, n) (s', W, n)"

inductive_cases grab_stepE: "grab_step c k p (s, W, n) (s', W', n')"

inductive grabs :: "('f, 'y) raspicam port_ops \<Rightarrow> ('f, 'y) cam_ops \<Rightarrow> addr \<Rightarrow> ('f, 'y) grabbing \<Rightarrow> bool" for c k p where
  grabs_start: "rc_userCallback (cam_of s) = None \<Longrightarrow> \<not> rc_locked (cam_of s) \<Longrightarrow> grabs c k p (s, Map.empty, 0)"
| grabs_step: "grabs c k p x \<Longrightarrow> grab_step c k p x y \<Longrightarrow> grabs c k p y"

text \<open>A thread that has not been served since its request finds the flag false, and then a frame is
  wanted.\<close>

fun grab_inv :: "('f, 'y) grabbing \<Rightarrow> bool" where
  "grab_inv (s, W, n) \<longleftrightarrow> rc_userCallback (cam_of s) = None \<and> \<not> rc_locked (cam_of s)
     \<and> (\<forall>t m. W t = Some m \<longrightarrow> (m < n \<or> m = n \<and> \<not> rc_ready (cam_of s)) \<and> (rc_ready (cam_of s) \<or> rc_wantToGrab (cam_of s)))"

lemma same_flags_inv: "same_flags s s' \<Longrightarrow> grab_inv (s, W, n) \<Longrightarrow> grab_inv (s', W, n)"
  by (simp add: same_flags_def)

lemma callback_skips:
  assumes g: "gives_back c p b s" and w: "\<not> wants_frame b s" and r: "video_buffer_callback c k p b s = ret s'"
  shows "same_flags s s'"
proof -
  let ?s0 = "upd_env (\<lambda>r. r\<lparr>rc_locked := True\<rparr>) s"
  have w': "\<not> wants_frame b ?s0" using w by (simp add: wants_frame_def)
  obtain pool xs where pool: "rs_video_pool (state_of ?s0) = Some pool" "header_out pool xs b ?s0"
    using g by (auto simp: gives_back_def)
  obtain s2 where s2: "recycle_buffer c p b ?s0 = ret s2" "header_sent p ?s0 s2"
    using recycle_next [OF _ pool(2,1)] g by (force simp: gives_back_def)
  then obtain y where y: "cam_of s2 = (cam_of ?s0)\<lparr>rc_env := y\<rparr>" by (auto simp: header_sent_def)
  have "keep_shutter_speed c s2 = ret s2" using g y by (auto simp: keep_shutter_speed_def gives_back_def)
  then have b: "video_buffer_body c k p b ?s0 = ret s2" using w' s2(1) by (simp add: video_buffer_body_def)
  have l: "\<not> rc_locked (cam_of s)" using r by (auto simp: video_buffer_callback_def with_lock_def split: option.splits if_splits)
  have "s' = upd_env (\<lambda>r. r\<lparr>rc_locked := False\<rparr>) s2"
    using r b l by (auto simp: video_buffer_callback_def with_lock_def split: option.splits)
  then show ?thesis using y l by (simp add: same_flags_def)
qed

lemma gives_back_grabs:
  assumes g: "gives_back c p b s" and l: "\<not> rc_locked (cam_of s)" "rc_userCallback (cam_of s) = None"
    and w: "wants_frame b s" and u: "po_userdata (port_of s p) \<noteq> None" and f: "frame_of k b s = Some data"
  shows "\<exists>s'. video_buffer_callback c k p b s = ret s' \<and> rc_buffData (cam_of s') = data \<and> rc_ready (cam_of s')
    \<and> \<not> rc_locked (cam_of s') \<and> rc_userCallback (cam_of s') = None"
proof -
  have o: "waiting_object p s" using g l w u by (simp add: waiting_object_def gives_back_def wants_frame_def)
  obtain pool xs where pool: "rs_video_pool (state_of s) = Some pool" "header_out pool xs b s" using g by (auto simp: gives_back_def)
  have n: "bh_length (bufs s b) \<noteq> 0" using w by (simp add: wants_frame_def)
  show ?thesis using callback_grabs [OF o _ pool f n] g l by (force simp: gives_back_def)
qed

lemma callback_needs:
  assumes "video_buffer_callback c k p b s = ret s'" and "wants_frame b s"
  shows "po_userdata (port_of s p) \<noteq> None" and "\<exists>data. frame_of k b s = Some data"
proof -
  let ?s0 = "upd_env (\<lambda>r. r\<lparr>rc_locked := True\<rparr>) s"
  show "po_userdata (port_of s p) \<noteq> None" using assms(1) by (auto simp: video_buffer_callback_def split: option.splits)
  have "payload_bytes b ?s0 = payload_bytes b s" by (intro ext) (simp add: payload_bytes_def cong: option.case_cong if_cong)
  then have f: "frame_of k b ?s0 = frame_of k b s" by (simp add: frame_of_def Let_def cong: if_cong)
  have "wants_frame b ?s0" using assms(2) by (simp add: wants_frame_def)
  then have "\<exists>s1. grab_frame k b ?s0 = ret s1"
    using assms(1) by (auto simp: video_buffer_callback_def with_lock_def video_buffer_body_def andthen_ret_iff split: option.splits if_splits)
  then show "\<exists>data. frame_of k b s = Some data" using f by (cases "frame_of k b s") (auto simp: grab_frame_def)
qed

lemma grab_step_inv:
  assumes "grab_step c k p x y" and "grab_inv x"
  shows "grab_inv y"
  using assms
proof (induction rule: grab_step.induct)
  case (step_request W t s s' n)
  then have "cam_of s' = (cam_of s)\<lparr>rc_wantToGrab := True, rc_ready := False, rc_locked := False\<rparr>"
    by (auto simp: grab_request_def with_lock_def split: if_splits)
  then show ?case using step_request.prems by (fastforce split: if_splits)
next
  case (step_buffer b s s' W n)
  show ?case
  proof (cases "wants_frame b s")
    case True
    obtain data where "frame_of k b s = Some data" using callback_needs(2) [OF step_buffer.hyps(2) True] by blast
    then have "rc_ready (cam_of s') \<and> \<not> rc_locked (cam_of s') \<and> rc_userCallback (cam_of s') = None"
      using gives_back_grabs [OF step_buffer.hyps(1) _ _ True callback_needs(1) [OF step_buffer.hyps(2) True], of k data] step_buffer.hyps(2)
        step_buffer.prems by auto
    then show ?thesis using step_buffer.prems True by (auto simp: less_Suc_eq)
  next
    case False
    have "grab_inv (s', W, n)"
      by (rule same_flags_inv [OF callback_skips [OF step_buffer.hyps(1) False step_buffer.hyps(2)] step_buffer.prems])
    then show ?thesis using False by simp
  qed
qed (auto simp: same_flags_def split: if_splits)

lemma grabs_inv: "grabs c k p x \<Longrightarrow> grab_inv x"
  by (induction rule: grabs.induct) (auto intro: grab_step_inv)

text \<open>A step that is not a request: no thread starts to wait.\<close>

definition step_without_request ::
  "('f, 'y) raspicam port_ops \<Rightarrow> ('f, 'y) cam_ops \<Rightarrow> addr \<Rightarrow> ('f, 'y) grabbing \<Rightarrow> ('f, 'y) grabbing \<Rightarrow> bool" where
  "step_without_request c k p x y \<longleftrightarrow> grab_step c k p x y \<and> fst (snd y) \<subseteq>\<^sub>m fst (snd x)"

lemma step_keeps_ready:
  assumes "step_without_request c k p x y" and "grab_inv x" and "grab_look (fst x) = ret True"
  shows "grab_look (fst y) = ret True"
proof -
  obtain s W n s' W' n' where xy: "x = (s, W, n)" "y = (s', W', n')" by (metis prod_cases3)
  have step: "grab_step c k p (s, W, n) (s', W', n')" and sub: "W' \<subseteq>\<^sub>m W" and l: "grab_look s = ret True"
    and inv: "grab_inv (s, W, n)" using assms by (simp_all add: xy step_without_request_def)
  from step have "grab_look s' = ret True"
  proof (cases rule: grab_step.cases)
    case (step_request t)
    then have "W' t = Some n" "W t = None" by simp_all
    with sub show ?thesis by (force simp: map_le_def dom_def)
  next
    case (step_buffer b)
    show ?thesis
    proof (cases "wants_frame b s")
      case True
      obtain data where "frame_of k b s = Some data" using callback_needs(2) [OF step_buffer(4) True] by blast
      then show ?thesis using gives_back_grabs [OF step_buffer(3) _ _ True callback_needs(1) [OF step_buffer(4) True], of k data] step_buffer(4) inv
        by (auto simp: grab_look_def)
    next
      case False
      from callback_skips [OF step_buffer(3) False step_buffer(4)] l show ?thesis by (auto simp: grab_look_def same_flags_def)
    qed
  qed (use l in \<open>auto simp: grab_look_def same_flags_def\<close>)
  then show ?thesis by (simp add: xy)
qed

lemma looks_return_until_request:
  assumes "(step_without_request c k p)\<^sup>*\<^sup>* x y" and "grab_inv x" and "grab_look (fst x) = ret True"
  shows "grab_inv y \<and> grab_look (fst y) = ret True"
  using assms
proof (induction rule: rtranclp_induct)
  case (step y z)
  have "grab_inv y" "grab_look (fst y) = ret True" using step.IH step.prems by simp_all
  moreover have "grab_step c k p y z" using step.hyps(2) by (simp add: step_without_request_def)
  ultimately show ?case using step_keeps_ready [OF step.hyps(2)] grab_step_inv [of c k p y z] by blast
qed simp

text \<open>A request takes the flag back: a thread that has not looked since the frame was stored waits
  again, although the frame is newer than its own request.\<close>

lemma request_hides_frame:
  "grab_request s = ret (True, s') \<Longrightarrow> grab_look s' = ret False"
  by (auto simp: grab_request_def grab_look_def with_lock_def split: if_splits)

text \<open>C17. \<open>grab\<close> gives every thread a frame that is newer than its request. In every interleaving of
  requests, looks and callbacks by any number of threads, with no callback of the user and no shutter
  speed that the callback has to set again in the fixed exposure mode, a thread whose look makes
  \<open>grab\<close> return has seen a frame stored after its request; and when the camera gives back a filled buffer
  while a thread waits, the callback returns, the frame of that buffer is the one that is kept, and every
  thread that looks before somebody makes another request returns. (A request resets the flag, so that
  a thread that has not looked by then waits for another frame: \<open>request_hides_frame\<close>.)\<close>

theorem grab_returns_new_frame:
  assumes "grabs c k p (s, W, n)" and "W t = Some m"
  shows "(grab_look s = ret True \<longrightarrow> m < n)
    \<and> (gives_back c p b s \<and> bh_length (bufs s b) \<noteq> 0 \<and> po_userdata (port_of s p) \<noteq> None \<and> frame_of k b s = Some data
        \<and> grab_look s = ret False \<longrightarrow>
       (\<exists>s'. video_buffer_callback c k p b s = ret s' \<and> grabs c k p (s', W, Suc n) \<and> rc_buffData (cam_of s') = data
          \<and> (\<forall>y. (step_without_request c k p)\<^sup>*\<^sup>* (s', W, Suc n) y \<longrightarrow> grab_look (fst y) = ret True)))"
proof -
  have i: "rc_userCallback (cam_of s) = None" "\<not> rc_locked (cam_of s)" "m < n \<or> m = n \<and> \<not> rc_ready (cam_of s)"
    "rc_ready (cam_of s) \<or> rc_wantToGrab (cam_of s)" using grabs_inv [OF assms(1)] assms(2) by auto
  have "\<exists>s'. video_buffer_callback c k p b s = ret s' \<and> grabs c k p (s', W, Suc n) \<and> rc_buffData (cam_of s') = data
      \<and> (\<forall>y. (step_without_request c k p)\<^sup>*\<^sup>* (s', W, Suc n) y \<longrightarrow> grab_look (fst y) = ret True)"
    if g: "gives_back c p b s" "bh_length (bufs s b) \<noteq> 0" "po_userdata (port_of s p) \<noteq> None" "frame_of k b s = Some data"
      "grab_look s = ret False"
  proof -
    have w: "wants_frame b s" using g(2,5) i by (auto simp: wants_frame_def grab_look_def)
    obtain s' where s': "video_buffer_callback c k p b s = ret s'" "rc_buffData (cam_of s') = data" "rc_ready (cam_of s')"
      "\<not> rc_locked (cam_of s')" using gives_back_grabs [OF g(1) i(2,1) w g(3,4)] by blast
    moreover have gr: "grabs c k p (s', W, Suc n)" using grabs_step [OF assms(1) step_buffer [OF g(1) s'(1)]] w by simp
    moreover have "grab_look (fst (s', W, Suc n)) = ret True" using s' by (simp add: grab_look_def)
    ultimately show ?thesis using looks_return_until_request [OF _ grabs_inv [OF gr]] by blast
  qed
  then show ?thesis using i by (auto simp: grab_look_def)
qed

theorem grab_returns_new_frame_witness:
  "\<forall>base (k :: (int, unit) cam_ops). \<exists>s s'. grab_request (small_camera ((frame_object k RASPICAM_FORMAT_RGB 2 1 ())\<lparr>rc_isCapturing := True\<rparr>)) = ret (True, s)
    \<and> video_buffer_callback (taking base) k 11 20 s = ret s' \<and> grab_look s' = ret True
    \<and> grabs (taking base) k 11 (s', [7 \<mapsto> 0], 1)"
proof (intro allI)
  fix base and k :: "(int, unit) cam_ops"
  let ?r = "(frame_object k RASPICAM_FORMAT_RGB 2 1 ())\<lparr>rc_isCapturing := True\<rparr>"
  let ?s = "small_camera (?r\<lparr>rc_wantToGrab := True, rc_ready := False, rc_locked := False\<rparr>)"
  have q: "grab_request (small_camera ?r) = ret (True, ?s)"
    by (simp add: grab_request_def with_lock_def frame_object_def Private_Impl_def small_camera_def small_world_def upd_env_def upd_world_def Let_def)
  have r: "grabs (taking base) k 11 (?s, [7 \<mapsto> 0], 0)"
    by (rule grabs_step [OF grabs_start step_request [OF _ q]]) (simp_all add: frame_object_def Private_Impl_def Let_def)
  have img: "sized 2 1 ?s" "holds_frame 2 1 20 ?s" "whole_rows (rs_captureFtm (state_of ?s)) 1"
    "unpadded_height (rs_captureFtm (state_of ?s)) 2 1"
    by (simp_all add: sized_def holds_frame_def whole_rows_def unpadded_height_def frame_object_def padded_size_def
        padded_width_def padded_height_def Let_def)
  obtain data where d: "frame_of k 20 ?s = Some data" using frame_cropped [OF img] by blast
  have g: "gives_back (taking base) 11 20 ?s"
    by (auto simp: gives_back_def taking_sends frame_object_def Private_Impl_def setDefaultStateParams_def Let_def
        intro: exI [of _ "[]"] small_pool)
  have f: "bh_length (bufs ?s 20) \<noteq> 0" "po_userdata (port_of ?s 11) \<noteq> None" "grab_look ?s = ret False"
    by (simp_all add: grab_look_def)
  have "\<exists>s'. video_buffer_callback (taking base) k 11 20 ?s = ret s' \<and> grabs (taking base) k 11 (s', [7 \<mapsto> 0], Suc 0)
      \<and> rc_buffData (cam_of s') = data \<and> grab_look s' = ret True"
    using grab_returns_new_frame [OF r, of 7 0 20 data] g f d by fastforce
  then show "\<exists>s s'. grab_request (small_camera ?r) = ret (True, s) \<and> video_buffer_callback (taking base) k 11 20 s = ret s'
      \<and> grab_look s' = ret True \<and> grabs (taking base) k 11 (s', [7 \<mapsto> 0], 1)" using q by auto
qed

end
