(* ===== verification/Raspicam_Still.thy ===== *)
theory Raspicam_Still
  imports Raspicam_Capture Mmal_Connection
begin

text \<open>
  The still camera (\<^verbatim>\<open>src/private_still/private_still_impl.cpp\<close> and its header): settings, the camera
  and encoder components with the connection between them, taking a picture, and the callback that
  puts together the picture from the buffers of the encoder.
\<close>

section \<open>The object\<close>

text \<open>
  \<open>RASPICAM_USERDATA\<close>; \<open>ud_cameraBoard\<close>: the pointer to the object is not null. \<open>ud_mutex\<close> says whether
  there is a semaphore; it is a local variable of \<open>takePicture\<close>, counted in \<open>st_sem\<close> under the address
  of the user data. Freed user data are \<open>None\<close> in the store.
\<close>

record still_userdata =
  ud_cameraBoard :: bool
  ud_encoderPool :: ptr
  ud_imageCallback :: "nat option"
  ud_mutex :: bool
  ud_data :: addr
  ud_bufferPosition :: u32
  ud_startingOffset :: u32
  ud_offset :: u32
  ud_length :: u32

record 'y still =
  st_camera :: ptr
  st_encoder :: ptr
  st_encoder_connection :: ptr
  st_encoder_pool :: ptr
  st_camera_still_port :: ptr
  st_encoder_input_port :: ptr
  st_encoder_output_port :: ptr
  st_width :: u32
  st_height :: u32
  st_rotation :: u32
  st_brightness :: u32
  st_quality :: u32
  st_iso :: int
  st_sharpness :: int
  st_contrast :: int
  st_saturation :: int
  st_encoding :: raspicam_encoding
  st_exposure :: raspicam_exposure
  st_awb :: raspicam_awb
  st_imageEffect :: raspicam_image_effect
  st_metering :: raspicam_metering
  st_changedSettings :: bool
  st_horizontalFlip :: bool
  st_verticalFlip :: bool
  st_isInitialized :: bool
  st_userdata :: "addr \<Rightarrow> still_userdata option"
  st_sem :: "addr \<Rightarrow> nat option"
  st_env :: 'y

type_synonym 'y scam = "'y still pst"
type_synonym 'y scam_step = "'y scam \<Rightarrow> 'y scam outcome"

text \<open>Where \<open>new\<close> puts user data, the user's callback for a picture, and the size of a connection.\<close>

record 'y still_ops =
  so_new :: "'y scam \<Rightarrow> addr"
  so_imageCallback :: "nat \<Rightarrow> addr \<Rightarrow> u32 \<Rightarrow> u32 \<Rightarrow> 'y scam_step"
  so_sizeof_connection :: u32

abbreviation still_of :: "'y scam \<Rightarrow> 'y still" where "still_of s \<equiv> w_env (ps_env s)"

definition setDefaults :: "'y still \<Rightarrow> 'y still" where
  "setDefaults r = r\<lparr>st_width := 640, st_height := 480, st_encoding := RASPICAM_ENCODING_BMP, st_encoder := None,
     st_encoder_connection := None, st_sharpness := 0, st_contrast := 0, st_brightness := 50, st_quality := 85,
     st_saturation := 0, st_iso := 400, st_exposure := RASPICAM_EXPOSURE_AUTO, st_metering := RASPICAM_METERING_AVERAGE,
     st_awb := RASPICAM_AWB_AUTO, st_imageEffect := RASPICAM_IMAGE_EFFECT_NONE, st_rotation := 0,
     st_changedSettings := True, st_horizontalFlip := False, st_verticalFlip := False\<rparr>"

definition Private_Impl_Still :: "'y \<Rightarrow> 'y still" where
  "Private_Impl_Still y = setDefaults \<lparr>st_camera = None, st_encoder = None, st_encoder_connection = None,
     st_encoder_pool = None, st_camera_still_port = None, st_encoder_input_port = None, st_encoder_output_port = None,
     st_width = 0, st_height = 0, st_rotation = 0, st_brightness = 0, st_quality = 0, st_iso = 0, st_sharpness = 0,
     st_contrast = 0, st_saturation = 0, st_encoding = RASPICAM_ENCODING_JPEG, st_exposure = RASPICAM_EXPOSURE_OFF,
     st_awb = RASPICAM_AWB_OFF, st_imageEffect = RASPICAM_IMAGE_EFFECT_NONE, st_metering = RASPICAM_METERING_AVERAGE,
     st_changedSettings = False, st_horizontalFlip = False, st_verticalFlip = False, st_isInitialized = False,
     st_userdata = (\<lambda>_. None), st_sem = (\<lambda>_. None), st_env = y\<rparr>"

section \<open>Setters\<close>

definition change_setting :: "('y still \<Rightarrow> 'y still) \<Rightarrow> 'y scam_step" where
  "change_setting f s = ret (upd_env (\<lambda>r. (f r)\<lparr>st_changedSettings := True\<rparr>) s)"

definition still_setWidth :: "u32 \<Rightarrow> 'y scam_step" where
  "still_setWidth v = change_setting (\<lambda>r. r\<lparr>st_width := v\<rparr>)"

definition still_setHeight :: "u32 \<Rightarrow> 'y scam_step" where
  "still_setHeight v = change_setting (\<lambda>r. r\<lparr>st_height := v\<rparr>)"

definition still_setCaptureSize :: "u32 \<Rightarrow> u32 \<Rightarrow> 'y scam_step" where
  "still_setCaptureSize w h s = andthen (still_setWidth w s) (still_setHeight h)"

definition still_setBrightness :: "u32 \<Rightarrow> 'y scam_step" where
  "still_setBrightness v = change_setting (\<lambda>r. r\<lparr>st_brightness := (if v > 100 then v mod 100 else v)\<rparr>)"

definition still_setQuality :: "u32 \<Rightarrow> 'y scam_step" where
  "still_setQuality v = change_setting (\<lambda>r. r\<lparr>st_quality := (if v > 100 then 100 else v)\<rparr>)"

definition still_setRotation :: "int \<Rightarrow> 'y scam_step" where
  "still_setRotation v = change_setting (\<lambda>r. r\<lparr>st_rotation := uint_of_int (first_turn v)\<rparr>)"

definition still_setISO :: "int \<Rightarrow> 'y scam_step" where
  "still_setISO v = change_setting (\<lambda>r. r\<lparr>st_iso := v\<rparr>)"

definition still_setSharpness :: "int \<Rightarrow> 'y scam_step" where
  "still_setSharpness v = change_setting (\<lambda>r. r\<lparr>st_sharpness := clamp (- 100) 100 v\<rparr>)"

definition still_setContrast :: "int \<Rightarrow> 'y scam_step" where
  "still_setContrast v = change_setting (\<lambda>r. r\<lparr>st_contrast := clamp (- 100) 100 v\<rparr>)"

definition still_setSaturation :: "int \<Rightarrow> 'y scam_step" where
  "still_setSaturation v = change_setting (\<lambda>r. r\<lparr>st_saturation := clamp (- 100) 100 v\<rparr>)"

definition still_setEncoding :: "raspicam_encoding \<Rightarrow> 'y scam_step" where
  "still_setEncoding v = change_setting (\<lambda>r. r\<lparr>st_encoding := v\<rparr>)"

definition still_setExposure :: "raspicam_exposure \<Rightarrow> 'y scam_step" where
  "still_setExposure v = change_setting (\<lambda>r. r\<lparr>st_exposure := v\<rparr>)"

definition still_setAWB :: "raspicam_awb \<Rightarrow> 'y scam_step" where
  "still_setAWB v = change_setting (\<lambda>r. r\<lparr>st_awb := v\<rparr>)"

definition still_setImageEffect :: "raspicam_image_effect \<Rightarrow> 'y scam_step" where
  "still_setImageEffect v = change_setting (\<lambda>r. r\<lparr>st_imageEffect := v\<rparr>)"

definition still_setMetering :: "raspicam_metering \<Rightarrow> 'y scam_step" where
  "still_setMetering v = change_setting (\<lambda>r. r\<lparr>st_metering := v\<rparr>)"

definition still_setHorizontalFlip :: "bool \<Rightarrow> 'y scam_step" where
  "still_setHorizontalFlip v = change_setting (\<lambda>r. r\<lparr>st_horizontalFlip := v\<rparr>)"

definition still_setVerticalFlip :: "bool \<Rightarrow> 'y scam_step" where
  "still_setVerticalFlip v = change_setting (\<lambda>r. r\<lparr>st_verticalFlip := v\<rparr>)"

section \<open>Parameters\<close>

definition MMAL_PARAMETER_COLOUR_EFFECT :: u32 where "MMAL_PARAMETER_COLOUR_EFFECT = MMAL_PARAMETER_GROUP_CAMERA + 0x07"
definition MMAL_PARAMETER_INPUT_CROP :: u32 where "MMAL_PARAMETER_INPUT_CROP = MMAL_PARAMETER_GROUP_CAMERA + 0x25"
definition MMAL_ENCODING_JPEG :: u32 where "MMAL_ENCODING_JPEG = fourcc ''JPEG''"
definition MMAL_ENCODING_GIF :: u32 where "MMAL_ENCODING_GIF = fourcc ''GIF ''"
definition MMAL_ENCODING_PNG :: u32 where "MMAL_ENCODING_PNG = fourcc ''PNG ''"
definition MMAL_ENCODING_BMP :: u32 where "MMAL_ENCODING_BMP = fourcc ''BMP ''"
definition MMAL_ENCODING_OPAQUE :: u32 where "MMAL_ENCODING_OPAQUE = fourcc ''OPQV''"

fun convertEncoding :: "raspicam_encoding \<Rightarrow> u32" where
  "convertEncoding RASPICAM_ENCODING_JPEG = MMAL_ENCODING_JPEG"
| "convertEncoding RASPICAM_ENCODING_BMP = MMAL_ENCODING_BMP"
| "convertEncoding RASPICAM_ENCODING_GIF = MMAL_ENCODING_GIF"
| "convertEncoding RASPICAM_ENCODING_PNG = MMAL_ENCODING_PNG"
| "convertEncoding RASPICAM_ENCODING_RGB = MMAL_ENCODING_BMP"

text \<open>One parameter of the control port, whose status is only reported.\<close>

definition still_control :: "'y still port_ops \<Rightarrow> u32 \<Rightarrow> ('y still \<Rightarrow> u32 list) \<Rightarrow> 'y scam_step" where
  "still_control c i v s = void (control_set c (st_camera (still_of s)) i (v (still_of s)) s)"

definition still_commitSharpness :: "'y still port_ops \<Rightarrow> 'y scam_step" where
  "still_commitSharpness c = still_control c MMAL_PARAMETER_SHARPNESS (\<lambda>r. [uint_of_int (st_sharpness r), 100])"

definition still_commitContrast :: "'y still port_ops \<Rightarrow> 'y scam_step" where
  "still_commitContrast c = still_control c MMAL_PARAMETER_CONTRAST (\<lambda>r. [uint_of_int (st_contrast r), 100])"

definition still_commitBrightness :: "'y still port_ops \<Rightarrow> 'y scam_step" where
  "still_commitBrightness c = still_control c MMAL_PARAMETER_BRIGHTNESS (\<lambda>r. [st_brightness r, 100])"

definition still_commitQuality :: "'y still port_ops \<Rightarrow> 'y scam_step" where
  "still_commitQuality c s =
     (case st_encoder_output_port (still_of s) of
        None \<Rightarrow> ret s
      | Some p \<Rightarrow> void (mmal_port_parameter_set c (Some p)
          (Some (words_param MMAL_PARAMETER_JPEG_Q_FACTOR [st_quality (still_of s)])) s))"

definition still_commitSaturation :: "'y still port_ops \<Rightarrow> 'y scam_step" where
  "still_commitSaturation c = still_control c MMAL_PARAMETER_SATURATION (\<lambda>r. [uint_of_int (st_saturation r), 100])"

definition still_commitISO :: "'y still port_ops \<Rightarrow> 'y scam_step" where
  "still_commitISO c = still_control c MMAL_PARAMETER_ISO (\<lambda>r. [uint_of_int (st_iso r)])"

definition still_commitExposure :: "'y still port_ops \<Rightarrow> 'y scam_step" where
  "still_commitExposure c = still_control c MMAL_PARAMETER_EXPOSURE_MODE
     (\<lambda>r. [exposure_mode_value (convertExposure (st_exposure r))])"

definition still_commitMetering :: "'y still port_ops \<Rightarrow> 'y scam_step" where
  "still_commitMetering c = still_control c MMAL_PARAMETER_EXP_METERING_MODE
     (\<lambda>r. [metering_mode_value (convertMetering (st_metering r))])"

definition still_commitAWB :: "'y still port_ops \<Rightarrow> 'y scam_step" where
  "still_commitAWB c = still_control c MMAL_PARAMETER_AWB_MODE (\<lambda>r. [awb_mode_value (convertAWB (st_awb r))])"

definition still_commitImageEffect :: "'y still port_ops \<Rightarrow> 'y scam_step" where
  "still_commitImageEffect c = still_control c MMAL_PARAMETER_IMAGE_EFFECT
     (\<lambda>r. [imagefx_value (convertImageEffect (st_imageEffect r))])"

definition still_commitRotation :: "'y still port_ops \<Rightarrow> 'y scam_step" where
  "still_commitRotation c s =
     (let cam = st_camera (still_of s); v = [st_rotation (still_of s) div 90 * 90]
      in andthen (void (output_set c cam 0 MMAL_PARAMETER_ROTATION v s)) (\<lambda>s1.
         andthen (void (output_set c cam 1 MMAL_PARAMETER_ROTATION v s1)) (\<lambda>s2.
         void (output_set c cam 2 MMAL_PARAMETER_ROTATION v s2))))"

definition still_commitFlips :: "'y still port_ops \<Rightarrow> 'y scam_step" where
  "still_commitFlips c s =
     set_three_outputs c (st_camera (still_of s)) MMAL_PARAMETER_MIRROR
       [mirror_mode_value (mirror_of (st_horizontalFlip (still_of s)) (st_verticalFlip (still_of s)))] s"

definition set_encoding :: "addr \<Rightarrow> u32 \<Rightarrow> 'x pst \<Rightarrow> 'x pst outcome" where
  "set_encoding p e s =
     andthen (or_faults (po_format (port_of s p))) (\<lambda>f.
       ret (on_fmt (upd_fmt f (\<lambda>x. x\<lparr>ef_encoding := e\<rparr>) (w_fmt (ps_env s))) s))"

definition commit_encoding :: "'y still port_ops \<Rightarrow> 'y scam_step" where
  "commit_encoding c s =
     (case st_encoder_output_port (still_of s) of
        None \<Rightarrow> ret s
      | Some p \<Rightarrow> andthen (set_encoding p (convertEncoding (st_encoding (still_of s))) s) (\<lambda>s1.
          void (mmal_port_format_commit c (Some p) s1)))"

definition still_commitParameters :: "'y still port_ops \<Rightarrow> 'y scam_step" where
  "still_commitParameters c s =
     (if \<not> st_changedSettings (still_of s) then ret s
      else steps [still_commitSharpness c, still_commitContrast c, still_commitBrightness c, still_commitQuality c,
        still_commitSaturation c, still_commitISO c, still_commitExposure c, still_commitMetering c, still_commitAWB c,
        still_commitImageEffect c, still_commitRotation c, still_commitFlips c,
        still_control c MMAL_PARAMETER_VIDEO_STABILISATION (\<lambda>_. [0]),
        still_control c MMAL_PARAMETER_EXPOSURE_COMP (\<lambda>_. [0]),
        still_control c MMAL_PARAMETER_COLOUR_EFFECT (\<lambda>_. [0, 128, 128]),
        still_control c MMAL_PARAMETER_INPUT_CROP (\<lambda>_. [0, 0, 65536, 65536]),
        commit_encoding c, (\<lambda>s. ret (upd_env (\<lambda>r. r\<lparr>st_changedSettings := False\<rparr>) s))] s)"

section \<open>Components\<close>

definition MMAL_CAMERA_CAPTURE_PORT :: nat where "MMAL_CAMERA_CAPTURE_PORT = 2"
definition STILLS_FRAME_RATE_NUM :: u32 where "STILLS_FRAME_RATE_NUM = 3"
definition STILLS_FRAME_RATE_DEN :: u32 where "STILLS_FRAME_RATE_DEN = 1"
definition MMAL_COMPONENT_DEFAULT_IMAGE_ENCODER :: string where
  "MMAL_COMPONENT_DEFAULT_IMAGE_ENCODER = ''vc.ril.image_encode''"

definition STILL_CONTROL_CB :: nat where "STILL_CONTROL_CB = 6"
definition STILL_BUFFER_CB :: nat where "STILL_BUFFER_CB = 7"

definition destroyCamera :: "'y still port_ops \<Rightarrow> 'y scam_step" where
  "destroyCamera c s =
     (case st_camera (still_of s) of
        None \<Rightarrow> ret s
      | Some a \<Rightarrow> andthen (mmal_component_destroy c (Some a) s) (\<lambda>(_, s1). ret (upd_env (\<lambda>r. r\<lparr>st_camera := None\<rparr>) s1)))"

text \<open>The pool is destroyed through a port of the encoder; the pointer to it stays.\<close>

definition destroyEncoder :: "'y still port_ops \<Rightarrow> 'y scam_step" where
  "destroyEncoder c s =
     andthen (case st_encoder_pool (still_of s) of
                None \<Rightarrow> ret s
              | Some pool \<Rightarrow> andthen (or_faults (output_port (st_encoder (still_of s)) 0 s)) (\<lambda>p.
                  mmal_port_pool_destroy c (Some p) (Some pool) s)) (\<lambda>s1.
       case st_encoder (still_of s1) of
         None \<Rightarrow> ret s1
       | Some a \<Rightarrow> andthen (mmal_component_destroy c (Some a) s1) (\<lambda>(_, s2). ret (upd_env (\<lambda>r. r\<lparr>st_encoder := None\<rparr>) s2)))"

definition fails_after :: "('y scam \<Rightarrow> 'y scam outcome) \<Rightarrow> 'y scam \<Rightarrow> (int \<times> 'y scam) outcome" where
  "fails_after f s = andthen (f s) (\<lambda>s1. ret (- 1, s1))"

definition still_camera_config :: "u32 \<Rightarrow> u32 \<Rightarrow> u32 list" where
  "still_camera_config w h = [w, h, 0, 1, w, h, 3, 0, 0, MMAL_PARAM_TIMESTAMP_MODE_RESET_STC]"

definition configure_still_port :: "addr \<Rightarrow> 'y scam_step" where
  "configure_still_port p s =
     andthen (or_faults (po_format (port_of s p))) (\<lambda>f.
       let w = st_width (still_of s); h = st_height (still_of s);
           s1 = set_video_format f (\<lambda>x. x\<lparr>ef_encoding := MMAL_ENCODING_OPAQUE\<rparr>)
                  (video_words w h w h STILLS_FRAME_RATE_NUM STILLS_FRAME_RATE_DEN) s
       in ret (upd_port p (\<lambda>P. P\<lparr>po_buffer_size := (if po_buffer_size P < po_buffer_size_min P
                                   then po_buffer_size_min P else po_buffer_size P),
                 po_buffer_num := po_buffer_num_recommended P\<rparr>) s1))"

text \<open>The pool of the camera's port, which ends up in \<open>encoder_pool\<close>.\<close>

definition create_still_pool ::
  "'y still port_ops \<Rightarrow> addr \<Rightarrow> 'y scam_step \<Rightarrow> 'y scam \<Rightarrow> (int \<times> 'y scam) outcome" where
  "create_still_pool c p cleanup s =
     andthen (mmal_port_pool_create c (Some p) (po_buffer_num (port_of s p)) (po_buffer_size (port_of s p)) s) (\<lambda>(pool, s1).
       let s2 = upd_env (\<lambda>r. r\<lparr>st_encoder_pool := pool\<rparr>) s1
       in if pool = None then fails_after cleanup s2 else ret (0, s2))"

definition createCamera :: "'y still port_ops \<Rightarrow> 'y scam \<Rightarrow> (int \<times> 'y scam) outcome" where
  "createCamera c s =
     (let fail = fails_after (destroyCamera c); err = (\<lambda>_. fail) in
      andthen (mmal_component_create c MMAL_COMPONENT_DEFAULT_CAMERA True s) (\<lambda>(status, camera, s0).
      let s1 = upd_env (\<lambda>r. r\<lparr>st_camera := camera\<rparr>) s0 in
      if status \<noteq> MMAL_SUCCESS then fail s1
      else andthen (or_faults camera) (\<lambda>a.
      if co_output (comp_of s1 a) = [] then fail s1
      else andthen (or_faults (output_port (Some a) MMAL_CAMERA_CAPTURE_PORT s1)) (\<lambda>p.
      or_else (mmal_port_enable c (co_control (comp_of s1 a)) (Some STILL_CONTROL_CB)
                 (upd_env (\<lambda>r. r\<lparr>st_camera_still_port := Some p\<rparr>) s1)) (\<lambda>s2.
      andthen (still_control c MMAL_PARAMETER_CAMERA_CONFIG (\<lambda>r. still_camera_config (st_width r) (st_height r)) s2) (\<lambda>s3.
      andthen (still_commitParameters c s3) (\<lambda>s4.
      andthen (configure_still_port p s4) (\<lambda>s5.
      or_else (mmal_port_format_commit c (Some p) s5) (\<lambda>s6.
      or_else (mmal_component_enable c (Some a) s6) (create_still_pool c p (destroyCamera c)) err) err)))) err))))"

definition configure_encoder_port :: "addr \<Rightarrow> addr \<Rightarrow> 'y scam_step" where
  "configure_encoder_port inp out s =
     andthen (or_faults (po_format (port_of s out))) (\<lambda>fo.
     andthen (or_faults (po_format (port_of s inp))) (\<lambda>fi.
     andthen (set_encoding out (convertEncoding (st_encoding (still_of s))) (on_fmt (mmal_format_copy fo fi (w_fmt (ps_env s))) s)) (\<lambda>s1.
     ret (upd_port out (\<lambda>P. P\<lparr>
       po_buffer_size := (if po_buffer_size_recommended P < po_buffer_size_min P then po_buffer_size_min P
                          else po_buffer_size_recommended P),
       po_buffer_num := (if po_buffer_num_recommended P < po_buffer_num_min P then po_buffer_num_min P
                         else po_buffer_num_recommended P)\<rparr>) s1))))"

definition createEncoder :: "'y still port_ops \<Rightarrow> 'y scam \<Rightarrow> (int \<times> 'y scam) outcome" where
  "createEncoder c s =
     (let fail = fails_after (destroyEncoder c); err = (\<lambda>_. fail) in
      andthen (mmal_component_create c MMAL_COMPONENT_DEFAULT_IMAGE_ENCODER True s) (\<lambda>(status, encoder, s0).
      let s1 = upd_env (\<lambda>r. r\<lparr>st_encoder := encoder\<rparr>) s0 in
      if status \<noteq> MMAL_SUCCESS then fail s1
      else andthen (or_faults encoder) (\<lambda>a.
      case (co_input (comp_of s1 a), co_output (comp_of s1 a)) of
        (inp # _, out # _) \<Rightarrow>
          andthen (configure_encoder_port inp out
              (upd_env (\<lambda>r. r\<lparr>st_encoder_input_port := Some inp, st_encoder_output_port := Some out\<rparr>) s1)) (\<lambda>s2.
          or_else (mmal_port_format_commit c (Some out) s2) (\<lambda>s3.
          or_else (mmal_component_enable c (Some a) s3) (create_still_pool c out (destroyEncoder c)) err) err)
      | _ \<Rightarrow> fail s1)))"

definition connectPorts :: "'y still port_ops \<Rightarrow> 'y still_ops \<Rightarrow> addr \<Rightarrow> addr \<Rightarrow> 'y still status_op" where
  "connectPorts c k out inp s =
     andthen (mmal_connection_create c (so_sizeof_connection k) True out inp (FLAG_TUNNELLING OR FLAG_ALLOCATION_ON_INPUT) s)
       (\<lambda>(status, connection, s0).
       let s1 = (if connection = None then s0 else upd_env (\<lambda>r. r\<lparr>st_encoder_connection := connection\<rparr>) s0) in
       if status \<noteq> MMAL_SUCCESS then ret (status, s1)
       else andthen (or_faults connection) (\<lambda>x.
         or_else (mmal_connection_enable c x s1) (\<lambda>s2. ret (MMAL_SUCCESS, s2))
           (\<lambda>status s2. andthen (mmal_connection_destroy c x s2) (\<lambda>(_, s3). ret (status, s3)))))"

definition initialize :: "'y still port_ops \<Rightarrow> 'y still_ops \<Rightarrow> 'y scam \<Rightarrow> (int \<times> 'y scam) outcome" where
  "initialize c k s =
     (if st_isInitialized (still_of s) then ret (0, s)
      else andthen (createCamera c s) (\<lambda>(r, s1).
        if r \<noteq> 0 then fails_after (destroyCamera c) s1
        else andthen (createEncoder c s1) (\<lambda>(r, s2).
        if r \<noteq> 0 then fails_after (destroyCamera c) s2
        else andthen (or_faults (output_port (st_camera (still_of s2)) MMAL_CAMERA_CAPTURE_PORT s2)) (\<lambda>still_port.
        andthen (or_faults (st_encoder (still_of s2))) (\<lambda>a.
        andthen (or_faults (case co_input (comp_of s2 a) of [] \<Rightarrow> None | p # _ \<Rightarrow> Some p)) (\<lambda>inp.
        andthen (or_faults (output_port (Some a) 0 s2)) (\<lambda>out.
        or_else (connectPorts c k still_port inp (upd_env (\<lambda>r. r\<lparr>st_camera_still_port := Some still_port,
                   st_encoder_input_port := Some inp, st_encoder_output_port := Some out\<rparr>) s2))
          (\<lambda>s3. ret (0, upd_env (\<lambda>r. r\<lparr>st_isInitialized := True\<rparr>) s3)) (\<lambda>_ s3. ret (- 1, s3)))))))))"

section \<open>Taking a picture\<close>

definition upd_userdata :: "addr \<Rightarrow> still_userdata option \<Rightarrow> 'y scam \<Rightarrow> 'y scam" where
  "upd_userdata u x = upd_env (\<lambda>r. r\<lparr>st_userdata := (st_userdata r)(u := x)\<rparr>)"

definition delete_userdata :: "ptr \<Rightarrow> 'y scam_step" where
  "delete_userdata u s =
     (case u of None \<Rightarrow> ret s
      | Some a \<Rightarrow> if st_userdata (still_of s) a = None then Some Faults else ret (upd_userdata a None s))"

text \<open>The user data of a picture, stored at the encoder's output port; the port's pointer is followed.\<close>

definition new_userdata ::
  "'y still_ops \<Rightarrow> nat option \<Rightarrow> bool \<Rightarrow> addr \<Rightarrow> u32 \<Rightarrow> u32 \<Rightarrow> 'y scam \<Rightarrow> (addr \<times> 'y scam) outcome" where
  "new_userdata k cb sem data off len s =
     (let u = so_new k s;
          s1 = upd_userdata u (Some \<lparr>ud_cameraBoard = True, ud_encoderPool = st_encoder_pool (still_of s),
                 ud_imageCallback = cb, ud_mutex = sem, ud_data = data, ud_bufferPosition = 0, ud_startingOffset = off,
                 ud_offset = off, ud_length = len\<rparr>) s
      in andthen (or_faults (st_encoder_output_port (still_of s))) (\<lambda>p.
           ret (u, upd_port p (\<lambda>P. P\<lparr>po_userdata := Some u\<rparr>) s1)))"

definition still_startCapture :: "'y still port_ops \<Rightarrow> 'y scam \<Rightarrow> (int \<times> 'y scam) outcome" where
  "still_startCapture c s =
     andthen (still_commitParameters c s) (\<lambda>s1.
     andthen (or_faults (st_encoder_output_port (still_of s1))) (\<lambda>p.
     if po_is_enabled (port_of s1 p) then ret (- 1, s1)
     else or_else (mmal_port_enable c (Some p) (Some STILL_BUFFER_CB) s1) (\<lambda>s2.
       andthen (or_faults (st_encoder_pool (still_of s2))) (\<lambda>pool.
       andthen (send_all_buffers c p pool (unat (mmal_queue_length (pl_queue (ps_pool s2 pool), s2))) s2) (\<lambda>s3.
       or_else (mmal_port_parameter_set c (st_camera_still_port (still_of s3)) (Some (words_param MMAL_PARAMETER_CAPTURE [1])) s3)
         (\<lambda>s4. ret (0, s4)) (\<lambda>_ s4. ret (- 1, s4)))))
       (\<lambda>_ s2. ret (- 1, s2))))"

definition startCapture_callback ::
  "'y still port_ops \<Rightarrow> 'y still_ops \<Rightarrow> nat \<Rightarrow> addr \<Rightarrow> u32 \<Rightarrow> u32 \<Rightarrow> 'y scam \<Rightarrow> (int \<times> 'y scam) outcome" where
  "startCapture_callback c k cb data off len s =
     andthen (new_userdata k (Some cb) False data off len s) (\<lambda>(_, s1).
     andthen (still_startCapture c s1) (\<lambda>(_, s2). ret (0, s2)))"

definition stopCapture :: "'y still port_ops \<Rightarrow> 'y scam_step" where
  "stopCapture c s =
     andthen (or_faults (st_encoder_output_port (still_of s))) (\<lambda>p.
       if \<not> po_is_enabled (port_of s p) then ret s
       else andthen (mmal_port_disable c (Some p) s) (\<lambda>(status, s1).
         if status \<noteq> MMAL_SUCCESS then delete_userdata (po_userdata (port_of s1 p)) s1 else ret s1))"

text \<open>\<open>takePicture\<close> up to \<open>sem_wait\<close>, and from there on; \<open>None\<close>: it has returned false.\<close>

definition takePicture_start ::
  "'y still port_ops \<Rightarrow> 'y still_ops \<Rightarrow> addr \<Rightarrow> u32 \<Rightarrow> 'y scam \<Rightarrow> (ptr \<times> 'y scam) outcome" where
  "takePicture_start c k data len s =
     andthen (initialize c k s) (\<lambda>(_, s1).
     andthen (new_userdata k None True data 0 len s1) (\<lambda>(u, s2).
     andthen (still_startCapture c (upd_env (\<lambda>r. r\<lparr>st_sem := (st_sem r)(u \<mapsto> 0)\<rparr>) s2)) (\<lambda>(r, s3).
     if r \<noteq> 0 then andthen (delete_userdata (Some u) s3) (\<lambda>s4. ret (None, s4)) else ret (Some u, s3))))"

definition takePicture_finish :: "'y still port_ops \<Rightarrow> addr \<Rightarrow> 'y scam_step" where
  "takePicture_finish c u s =
     (case st_sem (still_of s) u of
        None \<Rightarrow> Some Faults
      | Some 0 \<Rightarrow> Some Blocks
      | Some (Suc n) \<Rightarrow>
          andthen (stopCapture c (upd_env (\<lambda>r. r\<lparr>st_sem := (st_sem r)(u := None)\<rparr>) s)) (delete_userdata (Some u)))"

definition still_getImageBufferSize :: "'y scam \<Rightarrow> u32" where
  "still_getImageBufferSize s = st_width (still_of s) * st_height (still_of s) * 3 + 54"

section \<open>The callbacks\<close>

definition control_callback :: "'y still port_ops \<Rightarrow> addr \<Rightarrow> addr \<Rightarrow> 'y scam_step" where
  "control_callback c p b s = header_release c b s"

text \<open>The loop over the \<open>n\<close> bytes from \<open>src\<close> on: the user data and the memory.\<close>

fun take_bytes ::
  "raspicam_encoding \<Rightarrow> addr \<Rightarrow> nat \<Rightarrow> still_userdata \<times> (addr \<Rightarrow> 8 word) \<Rightarrow> still_userdata \<times> (addr \<Rightarrow> 8 word)" where
  "take_bytes enc src 0 (u, m) = (u, m)"
| "take_bytes enc src (Suc n) (u, m) =
     (if ud_offset u \<ge> ud_length u then (u\<lparr>ud_cameraBoard := False\<rparr>, m)
      else take_bytes enc (src + 1) n
        (if enc = RASPICAM_ENCODING_RGB \<and> ud_bufferPosition u < 54
         then (u\<lparr>ud_bufferPosition := ud_bufferPosition u + 1\<rparr>, m)
         else (u\<lparr>ud_offset := ud_offset u + 1, ud_bufferPosition := ud_bufferPosition u + 1\<rparr>,
               m(ud_data u + unat (ud_offset u) := m src))))"

definition MMAL_BUFFER_HEADER_FLAG_FRAME_END :: u32 where "MMAL_BUFFER_HEADER_FLAG_FRAME_END = 4"
definition MMAL_BUFFER_HEADER_FLAG_TRANSMISSION_FAILED :: u32 where "MMAL_BUFFER_HEADER_FLAG_TRANSMISSION_FAILED = 1024"

definition ends_picture :: "u32 \<Rightarrow> bool" where
  "ends_picture flags \<longleftrightarrow>
     (MMAL_BUFFER_HEADER_FLAG_FRAME_END OR MMAL_BUFFER_HEADER_FLAG_TRANSMISSION_FAILED) AND flags \<noteq> 0"

definition sem_post_at :: "addr \<Rightarrow> 'y scam_step" where
  "sem_post_at a s =
     andthen (or_faults (st_sem (still_of s) a)) (\<lambda>n. ret (upd_env (\<lambda>r. r\<lparr>st_sem := (st_sem r)(a \<mapsto> Suc n)\<rparr>) s))"

definition picture_taken :: "'y still_ops \<Rightarrow> addr \<Rightarrow> still_userdata \<Rightarrow> 'y scam_step" where
  "picture_taken k a u s =
     (if ud_mutex u then sem_post_at a s
      else andthen (or_faults (ud_imageCallback u)) (\<lambda>f.
        so_imageCallback k f (ud_data u) (ud_startingOffset u) (ud_length u - ud_startingOffset u) s))"

definition take_buffer :: "'y still_ops \<Rightarrow> addr \<Rightarrow> addr \<Rightarrow> still_userdata \<Rightarrow> 'y scam_step" where
  "take_buffer k b a u s =
     (let B = bufs s b; n = unat (bh_length B) in
      andthen (if n = 0 then ret (u, w_bytes (ps_env s))
               else andthen (or_faults (bh_data B)) (\<lambda>d.
                 ret (take_bytes (st_encoding (still_of s)) d n (u, w_bytes (ps_env s))))) (\<lambda>(u1, m).
      let s1 = upd_userdata a (Some u1) (upd_world (\<lambda>w. w\<lparr>w_bytes := m\<rparr>) s) in
      if ends_picture (bh_flags B) then picture_taken k a u1 s1 else ret s1))"

text \<open>User data that have been freed are followed all the same.\<close>

definition next_buffer :: "'y still port_ops \<Rightarrow> addr \<Rightarrow> ptr \<Rightarrow> 'y scam_step" where
  "next_buffer c p ud s =
     (if \<not> po_is_enabled (port_of s p) then ret s
      else andthen (or_faults (Option.bind ud (st_userdata (still_of s)))) (\<lambda>u.
        andthen (or_faults (ud_encoderPool u)) (\<lambda>pool.
        andthen (or_blocks (pool_queue_get pool s)) (\<lambda>(new_buffer, s1).
        case new_buffer of None \<Rightarrow> ret s1 | Some nb \<Rightarrow> void (mmal_port_send_buffer c (Some p) nb s1)))))"

definition buffer_callback :: "'y still port_ops \<Rightarrow> 'y still_ops \<Rightarrow> addr \<Rightarrow> addr \<Rightarrow> 'y scam_step" where
  "buffer_callback c k p b s =
     andthen (case po_userdata (port_of s p) of
                None \<Rightarrow> ret s
              | Some a \<Rightarrow> andthen (or_faults (st_userdata (still_of s) a)) (\<lambda>u.
                  if \<not> ud_cameraBoard u then ret s else take_buffer k b a u s)) (\<lambda>s1.
     andthen (header_release c b s1) (next_buffer c p (po_userdata (port_of s p))))"

end
