(* ===== verification/Mmal_Component_Facts.thy ===== *)
theory Mmal_Component_Facts
  imports Mmal_Module_Queue Mmal_Pool_Facts
begin

text \<open>Properties of the creation of components in \<^verbatim>\<open>core/mmal_component.c\<close>: how the ports are numbered,
  and what a failed creation leaves behind.\<close>

section \<open>Numbering the ports\<close>

lemma number_ports_comp [simp]: "w_comp (ps_env (number_ports t i ps s)) = w_comp (ps_env s)"
  by (induction ps arbitrary: i s) simp_all

lemma number_all_comp [simp]: "w_comp (ps_env (number_all i ps s)) = w_comp (ps_env s)"
  by (induction ps arbitrary: i s) simp_all

lemma sensible_comp [simp]: "w_comp (ps_env (fold sensible_buffers ps s)) = w_comp (ps_env s)"
  by (induction ps arbitrary: s) (simp_all add: sensible_buffers_def)

lemma sensible_comp1 [simp]: "w_comp (ps_env (sensible_buffers p s)) = w_comp (ps_env s)"
  by (simp add: sensible_buffers_def)

lemma number_ports_other: "q \<notin> set ps \<Longrightarrow> port_of (number_ports t i ps s) q = port_of s q"
  by (induction ps arbitrary: i s) simp_all

lemma number_all_other: "q \<notin> set ps \<Longrightarrow> port_of (number_all i ps s) q = port_of s q"
  by (induction ps arbitrary: i s) simp_all

lemma number_ports_nth:
  "distinct ps \<Longrightarrow> j < length ps \<Longrightarrow>
    port_of (number_ports t i ps s) (ps ! j) = (port_of s (ps ! j))\<lparr>po_type := t, po_index := of_nat (i + j)\<rparr>"
proof (induction ps arbitrary: i j s)
  case (Cons p ps)
  show ?case
  proof (cases j)
    case 0
    then show ?thesis using Cons.prems by (simp add: number_ports_other)
  next
    case (Suc k)
    then have "ps ! k \<noteq> p" using Cons.prems by (auto simp: in_set_conv_nth)
    then show ?thesis using Cons Suc by simp
  qed
qed simp

lemma number_all_nth:
  "distinct ps \<Longrightarrow> j < length ps \<Longrightarrow>
    port_of (number_all i ps s) (ps ! j) = (port_of s (ps ! j))\<lparr>po_index_all := of_nat (i + j)\<rparr>"
proof (induction ps arbitrary: i j s)
  case (Cons p ps)
  show ?case
  proof (cases j)
    case 0
    then show ?thesis using Cons.prems by (simp add: number_all_other)
  next
    case (Suc k)
    then have "ps ! k \<noteq> p" using Cons.prems by (auto simp: in_set_conv_nth)
    then show ?thesis using Cons Suc by simp
  qed
qed simp

definition sensible :: "mmal_port \<Rightarrow> bool" where
  "sensible P \<longleftrightarrow> po_buffer_size_min P \<le> po_buffer_size P \<and> po_buffer_num_min P \<le> po_buffer_num P"

lemma sensible_fields:
  "po_type (port_of (fold sensible_buffers ps s) q) = po_type (port_of s q)"
  "po_index (port_of (fold sensible_buffers ps s) q) = po_index (port_of s q)"
  "po_index_all (port_of (fold sensible_buffers ps s) q) = po_index_all (port_of s q)"
  by (induction ps arbitrary: s) (simp_all add: sensible_buffers_def)

lemma sensible_one: "sensible (port_of (sensible_buffers p s) p)"
  by (auto simp: sensible_def sensible_buffers_def)

lemma sensible_step: "sensible (port_of s q) \<Longrightarrow> sensible (port_of (sensible_buffers p s) q)"
  by (auto simp: sensible_buffers_def sensible_def)

lemma sensible_kept: "sensible (port_of s q) \<Longrightarrow> sensible (port_of (fold sensible_buffers ps s) q)"
  by (induction ps arbitrary: s) (simp_all add: sensible_step)

lemma sensible_all: "q \<in> set ps \<Longrightarrow> sensible (port_of (fold sensible_buffers ps s) q)"
  by (induction ps arbitrary: s) (auto intro: sensible_kept sensible_one)

text \<open>The ports of one array carry its type and their place in it.\<close>

definition ports_typed :: "port_type \<Rightarrow> addr list \<Rightarrow> 'x pst \<Rightarrow> bool" where
  "ports_typed t ps s \<longleftrightarrow> (\<forall>i < length ps. po_type (port_of s (ps ! i)) = t \<and> po_index (port_of s (ps ! i)) = of_nat i)"

lemma ports_typed_number: "distinct ps \<Longrightarrow> ports_typed t ps (number_ports t 0 ps s)"
  by (simp add: ports_typed_def number_ports_nth)

lemma ports_typed_other: "set ps \<inter> set qs = {} \<Longrightarrow> ports_typed t ps s \<Longrightarrow> ports_typed t ps (number_ports u i qs s)"
  unfolding ports_typed_def by (metis disjoint_iff nth_mem number_ports_other)

lemma ports_typed_sensible: "ports_typed t ps (fold sensible_buffers qs s) = ports_typed t ps s"
  by (simp add: ports_typed_def sensible_fields)

definition component_typed :: "addr \<Rightarrow> 'x pst \<Rightarrow> bool" where
  "component_typed a s \<longleftrightarrow> (let C = comp_of s a in
     (\<exists>ctl. co_port C = ctl # co_input C @ co_output C @ co_clock C \<and> ports_typed MMAL_PORT_TYPE_CONTROL [ctl] s)
     \<and> ports_typed MMAL_PORT_TYPE_INPUT (co_input C) s \<and> ports_typed MMAL_PORT_TYPE_OUTPUT (co_output C) s
     \<and> ports_typed MMAL_PORT_TYPE_CLOCK (co_clock C) s
     \<and> (\<forall>i < length (co_port C). po_index_all (port_of s (co_port C ! i)) = of_nat i)
     \<and> (\<forall>p \<in> set (co_port C). sensible (port_of s p)))"

lemma index_all_number_ports [simp]: "po_index_all (port_of (number_ports t i ps s) q) = po_index_all (port_of s q)"
  by (induction ps arbitrary: i s) simp_all

lemma list_ports_typed:
  assumes "distinct (ctl # co_input (comp_of s a) @ co_output (comp_of s a) @ co_clock (comp_of s a))"
  shows "component_typed a (list_ports a ctl base s)"
proof -
  define C ports where "C = comp_of s a" and "ports = ctl # co_input C @ co_output C @ co_clock C"
  define s1 where "s1 = number_all 0 ports (upd_comp a (\<lambda>C. C\<lparr>co_port_base := Some base, co_port := ports\<rparr>) s)"
  define s2 where "s2 = upd_port ctl (\<lambda>P. P\<lparr>po_type := MMAL_PORT_TYPE_CONTROL, po_index := 0\<rparr>) s1"
  define s3 where "s3 = number_ports MMAL_PORT_TYPE_INPUT 0 (co_input C) s2"
  define s4 where "s4 = number_ports MMAL_PORT_TYPE_OUTPUT 0 (co_output C) s3"
  define s5 where "s5 = number_ports MMAL_PORT_TYPE_CLOCK 0 (co_clock C) s4"
  have d: "distinct ports" using assms by (simp add: ports_def C_def)
  have l: "list_ports a ctl base s = fold sensible_buffers ports s5"
    by (simp add: list_ports_def Let_def s5_def s4_def s3_def s2_def s1_def ports_def C_def)
  have co: "comp_of s5 a = C\<lparr>co_port_base := Some base, co_port := ports\<rparr>"
    by (simp add: s5_def s4_def s3_def s2_def s1_def C_def)
  have "ports_typed MMAL_PORT_TYPE_CONTROL [ctl] s2" by (simp add: ports_typed_def s2_def)
  then have t: "ports_typed MMAL_PORT_TYPE_CONTROL [ctl] s5" "ports_typed MMAL_PORT_TYPE_INPUT (co_input C) s5"
    "ports_typed MMAL_PORT_TYPE_OUTPUT (co_output C) s5" "ports_typed MMAL_PORT_TYPE_CLOCK (co_clock C) s5"
    using d unfolding s5_def s4_def s3_def ports_def
    by (auto intro!: ports_typed_other ports_typed_number)
  have n: "po_index_all (port_of s5 (ports ! i)) = of_nat i" if "i < length ports" for i
  proof -
    have "po_index_all (port_of s2 q) = po_index_all (port_of s1 q)" for q by (simp add: s2_def)
    then show ?thesis
      using number_all_nth [OF d that, of 0 "upd_comp a (\<lambda>C. C\<lparr>co_port_base := Some base, co_port := ports\<rparr>) s"]
      by (simp add: s5_def s4_def s3_def s1_def)
  qed
  define s6 where "s6 = fold sensible_buffers ports s5"
  have "ports_typed MMAL_PORT_TYPE_CONTROL [ctl] s6" "ports_typed MMAL_PORT_TYPE_INPUT (co_input C) s6"
    "ports_typed MMAL_PORT_TYPE_OUTPUT (co_output C) s6" "ports_typed MMAL_PORT_TYPE_CLOCK (co_clock C) s6"
    "\<And>i. i < length ports \<Longrightarrow> po_index_all (port_of s6 (ports ! i)) = of_nat i"
    "\<And>q. q \<in> set ports \<Longrightarrow> sensible (port_of s6 q)"
    unfolding s6_def using t n by (simp_all add: ports_typed_sensible sensible_fields sensible_all)
  moreover have "comp_of s6 a = C\<lparr>co_port_base := Some base, co_port := ports\<rparr>"
    unfolding s6_def sensible_comp by (rule co)
  ultimately show ?thesis
    unfolding l component_typed_def Let_def s6_def [symmetric] by (auto simp: ports_def)
qed

section \<open>A created component\<close>

lemma or_else_retD:
  assumes "or_else r k h = ret y"
  obtains s where "r = ret (MMAL_SUCCESS, s)" "k s = ret y"
  | st s where "r = ret (st, s)" "st \<noteq> MMAL_SUCCESS" "h st s = ret y"
proof -
  from assms obtain st s where r: "r = ret (st, s)" and "(if st = MMAL_SUCCESS then k s else h st s) = ret y"
    unfolding or_else_def andthen_ret_iff by auto
  with that show thesis by (cases "st = MMAL_SUCCESS") auto
qed

lemma create_error_status: "create_error c a st s = ret (st', x, s') \<Longrightarrow> st' = st \<and> x = None"
  unfolding create_error_def andthen_ret_iff by auto

lemma finish_create_lists:
  assumes "finish_create c a ctl s = ret (MMAL_SUCCESS, x, s')"
  shows "\<exists>b s0. s' = list_ports a ctl b s0 \<and> x = Some a"
proof -
  obtain queue s2 where q: "world_queue_create c (control_requirements c ctl s) = (queue, s2)"
    by (cases "world_queue_create c (control_requirements c ctl s)")
  obtain pool s3 where p: "(case pool of
          None \<Rightarrow> create_error c a MMAL_ENOMEM s3
        | Some pl \<Rightarrow>
            let s4 = upd_comp a (\<lambda>C. C\<lparr>co_event_pool := Some pl\<rparr>) s3;
                C = comp_of s4 a;
                port_num = of_nat (length (co_input C) + length (co_output C) + length (co_clock C) + 1);
                (base, s5) = vcos_malloc c (port_num * sizeof_ptr (op_abi (pp_pools c))) s4
            in case base of
                 None \<Rightarrow> create_error c a MMAL_ENOMEM s5
               | Some b \<Rightarrow> ret (MMAL_SUCCESS, Some a, list_ports a ctl b s5)) = ret (MMAL_SUCCESS, x, s')"
    using assms by (auto simp only: finish_create_def Let_def q andthen_ret_iff prod.case)
  show ?thesis
  proof (cases pool)
    case None
    with p show ?thesis by (auto dest: create_error_status)
  next
    case (Some pl)
    show ?thesis
      using p unfolding Some option.case Let_def
      by (cases "fst (vcos_malloc c (of_nat (length (co_input (comp_of (upd_comp a (\<lambda>C. C\<lparr>co_event_pool := Some pl\<rparr>) s3) a))
            + length (co_output (comp_of (upd_comp a (\<lambda>C. C\<lparr>co_event_pool := Some pl\<rparr>) s3) a))
            + length (co_clock (comp_of (upd_comp a (\<lambda>C. C\<lparr>co_event_pool := Some pl\<rparr>) s3) a)) + 1)
            * sizeof_ptr (op_abi (pp_pools c))) (upd_comp a (\<lambda>C. C\<lparr>co_event_pool := Some pl\<rparr>) s3))")
        (auto simp: prod.case_eq_if dest: create_error_status)
  qed
qed

lemma create_core_lists:
  assumes "mmal_component_create_core c name constr modul given s = ret (MMAL_SUCCESS, x, s')"
  shows "\<exists>a ctl b s0. s' = list_ports a ctl b s0 \<and> x = Some a"
  using assms unfolding mmal_component_create_core_def Let_def
  by (auto split: prod.splits option.splits if_splits elim!: or_else_retD
      dest!: create_error_status finish_create_lists)

lemma list_ports_lists: "co_port (comp_of (list_ports a ctl b s) a) =
    ctl # co_input (comp_of s a) @ co_output (comp_of s a) @ co_clock (comp_of s a)"
  by (simp add: list_ports_def Let_def)

text \<open>C7. A created component is well typed, whatever its constructor did with the types and indexes
  of the ports: its list of ports is the control port, then the input, output and clock ports; each port
  has the type of the array it is in, its place there as \<open>index\<close> and its place in the list of all ports as
  \<open>index_all\<close>; and no port asks for fewer or smaller buffers than its minimum. The ports only have to be
  distinct.\<close>

theorem created_component_well_typed:
  assumes "mmal_component_create_core c name constr modul given s = ret (MMAL_SUCCESS, Some a, s')"
    and "distinct (co_port (comp_of s' a))"
  shows "component_typed a s'"
proof -
  obtain ctl b s0 where s': "s' = list_ports a ctl b s0" using create_core_lists [OF assms(1)] by auto
  with assms(2) show ?thesis by (auto simp: list_ports_lists intro: list_ports_typed)
qed

section \<open>Creating a null sink\<close>

text \<open>An allocator that hands out the next address, for the example.\<close>

definition bump :: "u32 \<Rightarrow> nat world \<Rightarrow> ptr \<times> nat world" where
  "bump n w = (Some (w_env w), w\<lparr>w_env := w_env w + 1\<rparr>)"

definition bumping :: "nat port_ops \<Rightarrow> bool" where
  "bumping c \<longleftrightarrow> op_malloc (pp_pools c) = bump \<and> op_alloc (pp_pools c) = (\<lambda>f x. bump)
     \<and> op_abi (pp_pools c) = arm32 \<and> pp_sync c = Pair True"

lemma bump_malloc: "bumping c \<Longrightarrow> vcos_malloc c n s = (Some (w_env (ps_env s)), upd_env Suc s)"
  by (simp add: vcos_malloc_def bumping_def bump_def upd_env_def upd_world_def)

lemma bump_sync: "bumping c \<Longrightarrow> vcos_sync_create c s = (True, upd_env id s)"
  by (simp add: vcos_sync_create_def bumping_def upd_env_def upd_world_def)

definition same_comps :: "nat pst \<Rightarrow> nat pst \<Rightarrow> bool" where
  "same_comps s s' \<longleftrightarrow> w_comp (ps_env s') = w_comp (ps_env s)"

lemma bump_port_alloc:
  assumes "bumping c"
  shows "\<exists>s'. mmal_port_alloc c a t e s = (Some (w_env (ps_env s)), s') \<and> same_comps s s'
    \<and> w_env (ps_env s') = w_env (ps_env s) + 2"
  by (simp add: mmal_port_alloc_def bump_malloc [OF assms] bump_sync [OF assms] world_format_alloc_def
      mmal_format_alloc_def on_fmt_def same_comps_def mmal_port_name_update_def Let_def)

lemma bump_pool_loop:
  assumes "bumping c" and "\<not> pl_header_size (ps_pool s pool) < mmal_buffer_header_size arm32"
    and "pl_payload_size (ps_pool s pool) \<noteq> 0" "pl_allocator_alloc (ps_pool s pool) \<noteq> None"
  shows "\<exists>s'. init_headers_loop (pp_pools c) pool True n i h s = Some (MMAL_SUCCESS, s') \<and> same_comps s s'"
  using assms(2-)
proof (induction n arbitrary: i h s)
  case (Suc n)
  let ?P = "ps_pool s pool"
  let ?s1 = "upd_buf h (\<lambda>_. zero_header) s"
  define s2 where "s2 = ?s1\<lparr>ps_env := (ps_env s)\<lparr>w_env := w_env (ps_env s) + 1\<rparr>\<rparr>"
  define s4 where "s4 = upd_pool pool (\<lambda>P. P\<lparr>pl_header := (pl_header P)(i := h), pl_headers_num := i + 1\<rparr>)
    (upd_buf h (fill_header pool ?P (Some (w_env (ps_env s)))) s2)"
  have P: "ps_pool s2 = ps_pool s" by (simp add: s2_def)
  have step: "init_headers_loop (pp_pools c) pool True (Suc n) i h s
    = init_headers_loop (pp_pools c) pool True n (i + 1) (h + unat (pl_header_size ?P)) s4"
    using Suc.prems assms(1)
    by (simp add: bumping_def bump_def mmal_buffer_header_initialise_def Let_def s4_def s2_def)
  have same: "same_comps s s4" by (simp add: same_comps_def s4_def s2_def)
  have "\<not> pl_header_size (ps_pool s4 pool) < mmal_buffer_header_size arm32"
    "pl_payload_size (ps_pool s4 pool) \<noteq> 0" "pl_allocator_alloc (ps_pool s4 pool) \<noteq> None"
    using Suc.prems by (simp_all add: s4_def P)
  from Suc.IH [OF this, of "i + 1" "h + unat (pl_header_size ?P)"] same show ?case
    unfolding step by (auto simp: same_comps_def)
qed (simp add: same_comps_def)

lemma bump_pool_create:
  assumes b: "bumping c" and sz: "payload_size \<noteq> 0"
  shows "\<exists>pl s'. mmal_pool_create (pp_pools c) (Some queue) headers payload_size s = Some (Some pl, s') \<and> same_comps s s'"
proof -
  let ?pl = "w_env (ps_env s)"
  define s1 where "s1 = upd_pool ?pl (\<lambda>_. new_pool queue (?pl + 1) (ROUND_UP (mmal_buffer_header_size arm32) 8) payload_size
      headers (Some DEFAULT_ALLOCATOR) (Some DEFAULT_ALLOCATOR) None) (upd_env (\<lambda>n. n + 2) s)"
  have "\<not> pl_header_size (ps_pool s1 ?pl) < mmal_buffer_header_size arm32"
    "pl_payload_size (ps_pool s1 ?pl) \<noteq> 0" "pl_allocator_alloc (ps_pool s1 ?pl) \<noteq> None"
    using sz by (simp_all add: s1_def new_pool_def header_size_arm32 ROUND_UP_def)
  from bump_pool_loop [OF b this, of "unat headers" 0 "first_header (pp_pools c) (ps_pool s1 ?pl) headers"]
  obtain s2 where s2: "mmal_pool_initialise_buffer_headers (pp_pools c) ?pl headers True s1 = Some (MMAL_SUCCESS, s2)"
      "same_comps s1 s2"
    by (auto simp: mmal_pool_initialise_buffer_headers_def)
  have "same_comps s1 (put_headers ?pl (pl_headers_num (ps_pool s2 ?pl)) 0 s2)"
    using s2(2) by (simp add: same_comps_def put_headers_frame)
  then show ?thesis
    using b s2(1) by (simp add: mmal_pool_create_def bumping_def bump_def Let_def s1_def same_comps_def
        upd_env_def upd_world_def upd_pool_def numeral_2_eq_2)
qed

lemma bump_null_sink:
  assumes b: "bumping c"
  shows "\<exists>s'. mmal_component_create_null_sink c a s = ret (MMAL_SUCCESS, s')
    \<and> comp_of s' a = (comp_of s a)\<lparr>co_pf_destroy := Some NULL_SINK, co_input_base := Some (w_env (ps_env s)),
        co_input := [w_env (ps_env s) + 1]\<rparr>"
proof -
  define s1 where "s1 = upd_env Suc (upd_comp a (\<lambda>C. C\<lparr>co_pf_destroy := Some NULL_SINK\<rparr>) s)"
  obtain s2 where s2: "mmal_port_alloc c a MMAL_PORT_TYPE_INPUT 0 s1 = (Some (w_env (ps_env s1)), s2)" "same_comps s1 s2"
    using bump_port_alloc [OF b] by blast
  show ?thesis
    using s2 by (simp add: mmal_component_create_null_sink_def mmal_ports_alloc_def bump_malloc [OF b] s1_def
      same_comps_def mmal_port_name_update_def Let_def)
qed

definition with_null_sink :: "'x port_ops \<Rightarrow> 'x port_ops" where
  "with_null_sink base = base\<lparr>pp_construct := (\<lambda>f name a s.
     if f = NULL_SINK then mmal_component_create_null_sink base a s else pp_construct base f name a s)\<rparr>"

lemma bump_finish:
  assumes b: "bumping c" and sz: "event_format_size c \<noteq> 0"
  shows "\<exists>s0 base. finish_create c a ctl s = ret (MMAL_SUCCESS, Some a, list_ports a ctl base s0)
    \<and> co_input (comp_of s0 a) = co_input (comp_of s a) \<and> co_output (comp_of s0 a) = co_output (comp_of s a)
    \<and> co_clock (comp_of s0 a) = co_clock (comp_of s a)"
proof -
  define s1 where "s1 = control_requirements c ctl s"
  define s2 where "s2 = upd_env id (upd_env id (upd_env id s1))"
  obtain queue where q: "mmal_queue_create True VCOS_SUCCESS VCOS_SUCCESS = Some queue"
    by (cases "mmal_queue_create True VCOS_SUCCESS VCOS_SUCCESS") (simp_all add: mmal_queue_create_def)
  have w: "world_queue_create c s1 = (Some queue, s2)"
    by (simp add: world_queue_create_def bump_sync [OF b] q s2_def Let_def)
  have "po_buffer_size_min (port_of s2 ctl) \<noteq> 0"
    using sz by (auto simp: s2_def s1_def control_requirements_def word_gt_0)
  from bump_pool_create [OF b this] obtain pl s3 where
    p: "mmal_pool_create (pp_pools c) (Some queue) (po_buffer_num_min (port_of s2 ctl))
          (po_buffer_size_min (port_of s2 ctl)) s2 = Some (Some pl, s3)" "same_comps s2 s3" by blast
  have "w_comp (ps_env s3) = w_comp (ps_env s)"
    using p(2) by (simp add: same_comps_def s2_def s1_def control_requirements_def)
  moreover define s0 where "s0 = upd_env Suc (upd_comp a (\<lambda>C. C\<lparr>co_event_pool := Some pl\<rparr>) s3)"
  ultimately have "co_input (comp_of s0 a) = co_input (comp_of s a)" "co_output (comp_of s0 a) = co_output (comp_of s a)"
    "co_clock (comp_of s0 a) = co_clock (comp_of s a)" by simp_all
  moreover have "finish_create c a ctl s = ret (MMAL_SUCCESS, Some a, list_ports a ctl (w_env (ps_env s3)) s0)"
    unfolding finish_create_def Let_def s1_def [symmetric] w prod.case p(1)
    by (simp add: bump_malloc [OF b] s0_def)
  ultimately show ?thesis by blast
qed

lemma bump_create:
  assumes b: "bumping base" and sz: "event_format_size base \<noteq> 0"
  shows "\<exists>a ctl inp s'. mmal_component_create_core (with_null_sink base) name (Some NULL_SINK) None True s
      = ret (MMAL_SUCCESS, Some a, s') \<and> co_port (comp_of s' a) = [ctl, inp] \<and> ctl \<noteq> inp"
proof -
  let ?c = "with_null_sink base"
  have c: "bumping ?c" "event_format_size ?c \<noteq> 0"
    using b sz by (simp_all add: with_null_sink_def bumping_def event_format_size_def)
  define s1 where "s1 = mmal_core_init s"
  define a where "a = w_env (ps_env s1)"
  define s3 where "s3 = upd_env id (upd_comp a (\<lambda>_. fresh_component name) (upd_env Suc s1))"
  define s4 where "s4 = upd_world (\<lambda>w. w\<lparr>w_instance_count := w_instance_count w + 1\<rparr>)
    (upd_comp a (\<lambda>C. C\<lparr>co_id := w_instance_count (ps_env s3)\<rparr>) s3)"
  define ctl where "ctl = w_env (ps_env s4)"
  obtain s5 where s5: "mmal_port_alloc ?c a MMAL_PORT_TYPE_CONTROL 0 s4 = (Some ctl, s5)" "same_comps s4 s5"
      "w_env (ps_env s5) = ctl + 2"
    using bump_port_alloc [OF c(1)] unfolding ctl_def by blast
  define s7 where "s7 = upd_comp a (\<lambda>C. C\<lparr>co_module := None\<rparr>)
    (mmal_component_init_control_port ?c ctl (upd_comp a (\<lambda>C. C\<lparr>co_control := Some ctl\<rparr>) s5))"
  have e7: "w_env (ps_env s7) = ctl + 2"
    using s5(3) by (simp add: s7_def mmal_component_init_control_port_def Let_def on_fmt_def split: option.split)
  have l7: "co_output (comp_of s7 a) = []" "co_clock (comp_of s7 a) = []"
    using s5(2) by (simp_all add: s7_def mmal_component_init_control_port_def Let_def on_fmt_def same_comps_def
      s4_def s3_def fresh_component_def zero_component_def split: option.split)
  obtain s8 where s8: "mmal_component_create_null_sink base a s7 = ret (MMAL_SUCCESS, s8)"
      "co_input (comp_of s8 a) = [ctl + 3]" "co_output (comp_of s8 a) = []" "co_clock (comp_of s8 a) = []"
    using bump_null_sink [OF b, of a s7] l7 by (auto simp: e7)
  have con: "pp_construct ?c NULL_SINK name a s7 = ret (MMAL_SUCCESS, s8)"
    by (simp add: with_null_sink_def s8(1))
  obtain s0 ba where f: "finish_create ?c a ctl s8 = ret (MMAL_SUCCESS, Some a, list_ports a ctl ba s0)"
      "co_input (comp_of s0 a) = [ctl + 3]" "co_output (comp_of s0 a) = []" "co_clock (comp_of s0 a) = []"
    using bump_finish [OF c, of a ctl s8] s8 by auto
  have "mmal_component_create_core ?c name (Some NULL_SINK) None True s = ret (MMAL_SUCCESS, Some a, list_ports a ctl ba s0)"
    unfolding mmal_component_create_core_def Let_def
    using con f(1) s5(1)
    by (simp add: bump_malloc [OF c(1)] bump_sync [OF c(1)] s1_def [symmetric] a_def [symmetric] s3_def [symmetric]
        s4_def [symmetric] s7_def [symmetric])
  then show ?thesis using f(2-4) by (auto simp: list_ports_lists)
qed

definition bump_ops :: "nat port_ops \<Rightarrow> nat port_ops" where
  "bump_ops base = base\<lparr>pp_pools := (pp_pools base)\<lparr>op_abi := arm32, op_malloc := bump, op_alloc := (\<lambda>f x. bump)\<rparr>,
     pp_sync := Pair True, pp_sizes := \<lparr>sizeof_port = 200, sizeof_event_format_changed = 20, sizeof_es_format = 32,
       sizeof_es_format_private = 80, sizeof_es_specific = 44, sizeof_component = 150, sizeof_module = 8,
       sizeof_port_module = 8\<rparr>\<rparr>"

theorem created_component_well_typed_witness:
  "\<forall>base s. \<exists>a s'. mmal_component_create_core (with_null_sink (bump_ops base)) ''null_sink'' (Some NULL_SINK) None True s
      = ret (MMAL_SUCCESS, Some a, s') \<and> length (co_port (comp_of s' a)) = 2 \<and> component_typed a s'"
proof (intro allI)
  fix base s
  have "bumping (bump_ops base)" "event_format_size (bump_ops base) \<noteq> 0"
    by (simp_all add: bumping_def bump_ops_def event_format_size_def)
  from bump_create [OF this, of "''null_sink''" s] obtain a ctl inp s' where
    c: "mmal_component_create_core (with_null_sink (bump_ops base)) ''null_sink'' (Some NULL_SINK) None True s
        = ret (MMAL_SUCCESS, Some a, s')" and p: "co_port (comp_of s' a) = [ctl, inp]" "ctl \<noteq> inp" by blast
  have "component_typed a s'" using created_component_well_typed [OF c] p by simp
  with c p show "\<exists>a s'. mmal_component_create_core (with_null_sink (bump_ops base)) ''null_sink'' (Some NULL_SINK) None True s
      = ret (MMAL_SUCCESS, Some a, s') \<and> length (co_port (comp_of s' a)) = 2 \<and> component_typed a s'" by auto
qed

end
