(* ===== verification/Raspicam_Still_Facts.thy ===== *)
theory Raspicam_Still_Facts
  imports Raspicam_Still Mmal_Port_Recycle Mmal_Component_Facts
begin

text \<open>
  Pictures of the still camera (\<^verbatim>\<open>src/private_still/private_still_impl.cpp\<close>): the bytes the callback puts
  together from any sequence of buffers, when \<open>takePicture\<close> returns and when it waits for ever, and a
  null pointer that is followed when there is no encoder.
\<close>

section \<open>The bytes of a picture\<close>

text \<open>Of a picture asked for as RGB the encoder sends a BMP file, whose header of 54 bytes is left out.\<close>

definition picture_bytes :: "raspicam_encoding \<Rightarrow> 'a list \<Rightarrow> 'a list" where
  "picture_bytes enc acc = (if enc = RASPICAM_ENCODING_RGB then drop 54 acc else acc)"

text \<open>The user's memory: \<open>len\<close> bytes at \<open>d\<close>, of which the first \<open>off\<close> are not used.\<close>

record room =
  rm_data :: addr
  rm_off :: nat
  rm_len :: nat

definition room_ok :: "room \<Rightarrow> bool" where
  "room_ok R \<longleftrightarrow> rm_off R < rm_len R \<and> rm_len R + 54 < 2 ^ 32"

definition capacity :: "room \<Rightarrow> nat" where "capacity R = rm_len R - rm_off R"

definition region :: "room \<Rightarrow> addr set" where "region R = {rm_data R + rm_off R..<rm_data R + rm_len R}"

definition fits :: "room \<Rightarrow> raspicam_encoding \<Rightarrow> 8 word list \<Rightarrow> bool" where
  "fits R enc acc \<longleftrightarrow> length (picture_bytes enc acc) \<le> capacity R"

text \<open>The user data and the memory after the bytes \<open>acc\<close> have been taken.\<close>

definition taken :: "room \<Rightarrow> raspicam_encoding \<Rightarrow> 8 word list \<Rightarrow> still_userdata \<Rightarrow> (addr \<Rightarrow> 8 word) \<Rightarrow> bool" where
  "taken R enc acc u m \<longleftrightarrow> ud_data u = rm_data R \<and> unat (ud_length u) = rm_len R \<and> ud_cameraBoard u = fits R enc acc
     \<and> (fits R enc acc \<longrightarrow> unat (ud_offset u) = rm_off R + length (picture_bytes enc acc) \<and> unat (ud_bufferPosition u) = length acc)
     \<and> (\<forall>j < min (length (picture_bytes enc acc)) (capacity R). m (rm_data R + rm_off R + j) = picture_bytes enc acc ! j)"

lemma picture_bytes_snoc:
  "picture_bytes enc (acc @ [x]) =
     (if enc = RASPICAM_ENCODING_RGB \<and> length acc < 54 then [] else picture_bytes enc acc @ [x])"
  by (auto simp: picture_bytes_def)

lemma picture_bytes_append: "\<exists>zs. picture_bytes enc (acc @ bs) = picture_bytes enc acc @ zs"
  by (simp add: picture_bytes_def)

lemma fits_prefix: "fits R enc (acc @ bs) \<Longrightarrow> fits R enc acc"
  using picture_bytes_append [of enc acc bs] by (auto simp: fits_def)

lemma taken_length:
  assumes "room_ok R" and "fits R enc acc"
  shows "length acc < 2 ^ 32" and "rm_off R + length (picture_bytes enc acc) \<le> rm_len R"
  using assms by (auto simp: room_ok_def fits_def capacity_def picture_bytes_def split: if_splits)

lemma unat_Suc: "Suc (unat (x :: u32)) < 2 ^ 32 \<Longrightarrow> unat (x + 1) = Suc (unat x)"
  by (simp add: unat_plus_if')

text \<open>One byte, while there is room for it.\<close>

lemma taken_byte:
  assumes R: "room_ok R" and t: "taken R enc acc u m" and f: "fits R enc acc" and r: "ud_offset u < ud_length u"
    and s: "src \<notin> region R"
  shows "taken R enc (acc @ [m src])
      (fst (if enc = RASPICAM_ENCODING_RGB \<and> ud_bufferPosition u < 54
         then (u\<lparr>ud_bufferPosition := ud_bufferPosition u + 1\<rparr>, m)
         else (u\<lparr>ud_offset := ud_offset u + 1, ud_bufferPosition := ud_bufferPosition u + 1\<rparr>, m(ud_data u + unat (ud_offset u) := m src))))
      (snd (if enc = RASPICAM_ENCODING_RGB \<and> ud_bufferPosition u < 54
         then (u\<lparr>ud_bufferPosition := ud_bufferPosition u + 1\<rparr>, m)
         else (u\<lparr>ud_offset := ud_offset u + 1, ud_bufferPosition := ud_bufferPosition u + 1\<rparr>, m(ud_data u + unat (ud_offset u) := m src))))"
proof -
  let ?img = "picture_bytes enc acc"
  have o: "unat (ud_offset u) = rm_off R + length ?img" "unat (ud_bufferPosition u) = length acc" "ud_data u = rm_data R"
    "unat (ud_length u) = rm_len R" "ud_cameraBoard u" "\<And>j. j < length ?img \<Longrightarrow> j < capacity R \<Longrightarrow> m (rm_data R + rm_off R + j) = ?img ! j"
    using t f by (auto simp: taken_def)
  have lt: "rm_off R + length ?img < rm_len R" using r o(1,4) by (simp add: word_less_nat_alt)
  have small: "ud_bufferPosition u < 54 \<longleftrightarrow> length acc < 54" using o(2) by (simp add: word_less_nat_alt)
  have acc: "Suc (length acc) < 2 ^ 32"
  proof -
    have "length acc \<le> length ?img + 54" by (auto simp: picture_bytes_def)
    then show ?thesis using lt R by (simp add: room_ok_def)
  qed
  then have p: "unat (ud_bufferPosition u + 1) = Suc (length acc)" using unat_Suc [of "ud_bufferPosition u"] o(2) by simp
  show ?thesis
  proof (cases "enc = RASPICAM_ENCODING_RGB \<and> length acc < 54")
    case True
    then have e: "?img = []" by (simp add: picture_bytes_def)
    have "picture_bytes enc (acc @ [m src]) = []" using True by (simp add: picture_bytes_snoc)
    then show ?thesis using True o p small e by (simp add: taken_def fits_def)
  next
    case False
    then have img: "picture_bytes enc (acc @ [m src]) = ?img @ [m src]" by (simp only: picture_bytes_snoc if_False)
    have q: "unat (ud_offset u + 1) = Suc (rm_off R + length ?img)"
      using unat_Suc [of "ud_offset u"] o(1) lt R by (simp add: room_ok_def)
    have c: "fits R enc (acc @ [m src])" using lt by (simp add: fits_def img capacity_def)
    have "(m(rm_data R + unat (ud_offset u) := m src)) (rm_data R + rm_off R + j) = (?img @ [m src]) ! j"
      if "j < Suc (length ?img)" "j < capacity R" for j
      using that o(1,6) by (cases "j = length ?img") (auto simp: nth_append add.assoc)
    then show ?thesis using False small o p q c by (simp add: taken_def img)
  qed
qed

lemma take_bytes_keeps:
  "take_bytes enc src n (u, m) = (u', m') \<Longrightarrow> ud_encoderPool u' = ud_encoderPool u \<and> ud_mutex u' = ud_mutex u"
  by (induction enc src n "(u, m)" arbitrary: u m rule: take_bytes.induct) (auto split: if_splits)

lemma taken_overflow:
  assumes R: "room_ok R" and t: "taken R enc acc u m" and f: "fits R enc acc" and r: "\<not> ud_offset u < ud_length u"
  shows "taken R enc (acc @ x # xs) (u\<lparr>ud_cameraBoard := False\<rparr>) m"
proof -
  let ?img = "picture_bytes enc acc"
  have o: "unat (ud_offset u) = rm_off R + length ?img" "unat (ud_length u) = rm_len R" using t f by (auto simp: taken_def)
  have full: "length ?img = capacity R"
    using r o f by (simp add: word_less_nat_alt fits_def capacity_def)
  then have "?img \<noteq> []" using R by (auto simp: room_ok_def capacity_def)
  then have img: "picture_bytes enc (acc @ x # xs) = ?img @ x # xs" by (auto simp: picture_bytes_def split: if_splits)
  then have "\<not> fits R enc (acc @ x # xs)" using full by (simp add: fits_def)
  then show ?thesis using t full by (simp add: taken_def img nth_append)
qed

text \<open>The loop over a buffer.\<close>

lemma take_bytes_taken:
  assumes R: "room_ok R" and "taken R enc acc u m" and "fits R enc acc" and "\<forall>i<n. src + i \<notin> region R"
    and "take_bytes enc src n (u, m) = (u', m')"
  shows "taken R enc (acc @ map (\<lambda>i. m (src + i)) [0..<n]) u' m' \<and> (\<forall>x. x \<notin> region R \<longrightarrow> m' x = m x)"
  using assms(2-)
proof (induction n arbitrary: acc src u m)
  case (Suc n)
  have bs: "map (\<lambda>i. m (src + i)) [0..<Suc n] = m src # map (\<lambda>i. m (src + 1 + i)) [0..<n]"
    by (simp add: upt_conv_Cons map_Suc_upt [symmetric] del: upt_Suc)
  show ?case
  proof (cases "ud_offset u < ud_length u")
    case False
    then have "u' = u\<lparr>ud_cameraBoard := False\<rparr>" "m' = m" using Suc.prems(4) by (auto simp: not_less)
    then show ?thesis using taken_overflow [OF R Suc.prems(1,2) False] by (simp add: bs del: upt_Suc)
  next
    case True
    define um where "um = (if enc = RASPICAM_ENCODING_RGB \<and> ud_bufferPosition u < 54
         then (u\<lparr>ud_bufferPosition := ud_bufferPosition u + 1\<rparr>, m)
         else (u\<lparr>ud_offset := ud_offset u + 1, ud_bufferPosition := ud_bufferPosition u + 1\<rparr>, m(ud_data u + unat (ud_offset u) := m src)))"
    have src: "src \<notin> region R" "\<forall>i<n. src + 1 + i \<notin> region R" using Suc.prems(3) by (auto simp: less_Suc_eq_0_disj)
    have t: "taken R enc (acc @ [m src]) (fst um) (snd um)"
      unfolding um_def by (rule taken_byte [OF R Suc.prems(1,2) True src(1)])
    have c: "(ud_length u \<le> ud_offset u) = False" using True by simp
    have run: "take_bytes enc (src + 1) n (fst um, snd um) = (u', m')"
      using Suc.prems(4) unfolding prod.collapse um_def by (simp only: take_bytes.simps(2) c if_False)
    have o: "unat (ud_offset u) < rm_len R" "rm_off R \<le> unat (ud_offset u)" "ud_data u = rm_data R"
      using Suc.prems(1,2) True by (auto simp: taken_def word_less_nat_alt)
    then have "ud_data u + unat (ud_offset u) \<in> region R" by (simp add: region_def)
    then have frame: "snd um x = m x" if "x \<notin> region R" for x using that by (auto simp: um_def)
    have f: "fits R enc (acc @ [m src])"
    proof -
      have "length (picture_bytes enc (acc @ [m src])) \<le> Suc (length (picture_bytes enc acc))" by (simp add: picture_bytes_snoc)
      moreover have "length (picture_bytes enc acc) < capacity R"
        using o(1) Suc.prems(1,2) by (auto simp: taken_def capacity_def)
      ultimately show ?thesis by (simp add: fits_def)
    qed
    have e: "map (\<lambda>i. snd um (src + 1 + i)) [0..<n] = map (\<lambda>i. m (src + 1 + i)) [0..<n]" using frame src(2) by simp
    show ?thesis using Suc.IH [OF t f src(2) run, unfolded e] frame unfolding bs by (simp del: upt_Suc)
  qed
qed simp

section \<open>Buffers of the encoder\<close>

text \<open>The bytes of a buffer, and a buffer that the encoder gives back while a picture is taken: it is
  outside its pool, and its payload is not in the user's memory.\<close>

definition payload_list :: "addr \<Rightarrow> 'x pst \<Rightarrow> 8 word list" where
  "payload_list b s = map (\<lambda>i. w_bytes (ps_env s) (the (bh_data (bufs s b)) + i)) [0..<unat (bh_length (bufs s b))]"

definition still_clock :: "'y still port_ops \<Rightarrow> bool" where
  "still_clock c \<longleftrightarrow> (\<forall>r. \<exists>t y. pp_time c r = (t, r\<lparr>st_env := y\<rparr>))"

definition encoder_gives :: "'y still port_ops \<Rightarrow> addr \<Rightarrow> addr \<Rightarrow> room \<Rightarrow> addr \<Rightarrow> 'y scam \<Rightarrow> bool" where
  "encoder_gives c p u R b s \<longleftrightarrow> port_takes c p s \<and> still_clock c
     \<and> (\<exists>pool xs. map_option ud_encoderPool (st_userdata (still_of s) u) = Some (Some pool) \<and> header_out pool xs b s)
     \<and> (\<forall>i<unat (bh_length (bufs s b)). the (bh_data (bufs s b)) + i \<notin> region R)"

text \<open>A picture being taken: the bytes that have arrived, and how many of the buffers that arrived
  while there was room for everything ended a picture.\<close>

type_synonym 'y taking_picture = "'y scam \<times> 8 word list \<times> nat"

fun picture_inv :: "addr \<Rightarrow> addr \<Rightarrow> room \<Rightarrow> raspicam_encoding \<Rightarrow> 'y taking_picture \<Rightarrow> bool" where
  "picture_inv p u R enc (s, acc, n) \<longleftrightarrow> po_userdata (port_of s p) = Some u \<and> st_encoding (still_of s) = enc
     \<and> st_sem (still_of s) u = Some n
     \<and> (\<exists>U. st_userdata (still_of s) u = Some U \<and> ud_mutex U \<and> taken R enc acc U (w_bytes (ps_env s)))"

text \<open>What other threads and components do leaves the user data, the semaphore and the user's memory
  alone.\<close>

definition same_picture :: "addr \<Rightarrow> addr \<Rightarrow> room \<Rightarrow> 'y scam \<Rightarrow> 'y scam \<Rightarrow> bool" where
  "same_picture p u R s s' \<longleftrightarrow> po_userdata (port_of s' p) = po_userdata (port_of s p)
     \<and> st_encoding (still_of s') = st_encoding (still_of s) \<and> st_sem (still_of s') u = st_sem (still_of s) u
     \<and> st_userdata (still_of s') u = st_userdata (still_of s) u
     \<and> (\<forall>x\<in>region R. w_bytes (ps_env s') x = w_bytes (ps_env s) x)"

inductive picture_step :: "'y still port_ops \<Rightarrow> 'y still_ops \<Rightarrow> addr \<Rightarrow> addr \<Rightarrow> room \<Rightarrow> raspicam_encoding
    \<Rightarrow> 'y taking_picture \<Rightarrow> 'y taking_picture \<Rightarrow> bool" for c k p u R enc where
  picture_buffer: "encoder_gives c p u R b s \<Longrightarrow> buffer_callback c k p b s = ret s'
    \<Longrightarrow> picture_step c k p u R enc (s, acc, n)
      (s', acc @ payload_list b s, if fits R enc acc \<and> ends_picture (bh_flags (bufs s b)) then Suc n else n)"
| picture_other: "same_picture p u R s s' \<Longrightarrow> picture_step c k p u R enc (s, acc, n) (s', acc, n)"

text \<open>The state in which \<open>takePicture\<close> starts to wait.\<close>

definition picture_starts :: "addr \<Rightarrow> addr \<Rightarrow> room \<Rightarrow> raspicam_encoding \<Rightarrow> 'y scam \<Rightarrow> bool" where
  "picture_starts p u R enc s \<longleftrightarrow> room_ok R \<and> picture_inv p u R enc (s, [], 0)"

lemma room_in_region: "j < min x (capacity R) \<Longrightarrow> rm_data R + rm_off R + j \<in> region R"
  by (auto simp: capacity_def region_def)

lemma taken_memory:
  assumes "taken R enc acc U m" and "\<forall>x\<in>region R. m' x = m x"
  shows "taken R enc acc U m'"
  using assms room_in_region unfolding taken_def by metis

lemma taken_ignores:
  assumes R: "room_ok R" and t: "taken R enc acc U m" and "\<not> fits R enc acc"
  shows "taken R enc (acc @ bs) U m"
proof -
  obtain zs where z: "picture_bytes enc (acc @ bs) = picture_bytes enc acc @ zs" using picture_bytes_append by blast
  have n: "\<not> fits R enc (acc @ bs)" using assms(3) fits_prefix by blast
  have "capacity R < length (picture_bytes enc acc)" using assms(3) by (simp add: fits_def)
  then show ?thesis using t n assms(3) by (simp add: taken_def z nth_append)
qed

lemma take_buffer_runs:
  assumes R: "room_ok R" and i: "picture_inv p u R enc (s, acc, n)" and U: "st_userdata (still_of s) u = Some U"
    and f: "fits R enc acc" and d: "bh_data (bufs s b) \<noteq> None"
    and src: "\<forall>i<unat (bh_length (bufs s b)). the (bh_data (bufs s b)) + i \<notin> region R"
  shows "\<exists>U' m y. take_buffer k b u U s = ret (upd_env (\<lambda>r. r\<lparr>st_userdata := (st_userdata r)(u \<mapsto> U'), st_sem := y\<rparr>)
      (upd_world (\<lambda>w. w\<lparr>w_bytes := m\<rparr>) s))
    \<and> taken R enc (acc @ payload_list b s) U' m \<and> (\<forall>x. x \<notin> region R \<longrightarrow> m x = w_bytes (ps_env s) x)
    \<and> ud_mutex U' \<and> ud_encoderPool U' = ud_encoderPool U
    \<and> y u = Some (if ends_picture (bh_flags (bufs s b)) then Suc n else n)"
proof -
  obtain a where a: "bh_data (bufs s b) = Some a" using d by blast
  let ?n = "unat (bh_length (bufs s b))"
  obtain U' m where t: "take_bytes enc a ?n (U, w_bytes (ps_env s)) = (U', m)" by (cases "take_bytes enc a ?n (U, w_bytes (ps_env s))")
  have inv: "taken R enc acc U (w_bytes (ps_env s))" "ud_mutex U" "st_sem (still_of s) u = Some n" "st_encoding (still_of s) = enc"
    using i U by auto
  have T: "taken R enc (acc @ payload_list b s) U' m" "\<forall>x. x \<notin> region R \<longrightarrow> m x = w_bytes (ps_env s) x"
    using take_bytes_taken [OF R inv(1) f _ t] src a by (simp_all add: payload_list_def)
  have k: "ud_mutex U'" "ud_encoderPool U' = ud_encoderPool U" using take_bytes_keeps [OF t] inv(2) by auto
  let ?s1 = "upd_userdata u (Some U') (upd_world (\<lambda>w. w\<lparr>w_bytes := m\<rparr>) s)"
  have "take_buffer k b u U s = (if ends_picture (bh_flags (bufs s b)) then picture_taken k u U' ?s1 else ret ?s1)"
    using t a inv(4) by (cases "?n = 0") (auto simp: take_buffer_def Let_def)
  moreover have "picture_taken k u U' ?s1 = ret (upd_env (\<lambda>r. r\<lparr>st_sem := (st_sem r)(u \<mapsto> Suc n)\<rparr>) ?s1)"
    using k(1) inv(3) by (simp add: picture_taken_def sem_post_at_def upd_userdata_def)
  moreover have "upd_env (\<lambda>r. r\<lparr>st_sem := (st_sem r)(u \<mapsto> Suc n)\<rparr>) ?s1
      = upd_env (\<lambda>r. r\<lparr>st_userdata := (st_userdata r)(u \<mapsto> U'), st_sem := (st_sem (still_of s))(u \<mapsto> Suc n)\<rparr>) (upd_world (\<lambda>w. w\<lparr>w_bytes := m\<rparr>) s)"
    "?s1 = upd_env (\<lambda>r. r\<lparr>st_userdata := (st_userdata r)(u \<mapsto> U'), st_sem := st_sem (still_of s)\<rparr>) (upd_world (\<lambda>w. w\<lparr>w_bytes := m\<rparr>) s)"
    by (simp_all add: upd_userdata_def upd_env_def upd_world_def)
  ultimately show ?thesis using T k inv(3)
    by (intro exI [of _ U'] exI [of _ m] exI [of _ "if ends_picture (bh_flags (bufs s b)) then (st_sem (still_of s))(u \<mapsto> Suc n) else st_sem (still_of s)"])
      auto
qed

lemma next_buffer_runs:
  assumes g: "port_takes c p s" "still_clock c" "header_out pool xs b s" and U: "st_userdata (still_of s) u = Some U" "ud_encoderPool U = Some pool"
  shows "\<exists>s' y. andthen (header_release c b s) (next_buffer c p (Some u)) = ret s' \<and> still_of s' = (still_of s)\<lparr>st_env := y\<rparr>
    \<and> w_bytes (ps_env s') = w_bytes (ps_env s) \<and> po_userdata (port_of s' p) = po_userdata (port_of s p)"
proof -
  obtain s1 s2 s' nb where r: "header_release c b s = ret s1" "ps_env s1 = ps_env s" "pool_queue_get pool s1 = Some (Some nb, s2)"
    "mmal_port_send_buffer c (Some p) nb s2 = ret (MMAL_SUCCESS, s')" "port_sent c p s s'"
    using recycle_runs [OF g(1,3)] by blast
  have "andthen (header_release c b s) (next_buffer c p (Some u)) = ret s'"
    using r g(1) U by (simp add: next_buffer_def void_def port_takes_def)
  moreover obtain t y where "pp_time c (still_of s) = (t, (still_of s)\<lparr>st_env := y\<rparr>)" using g(2) unfolding still_clock_def by metis
  ultimately show ?thesis using r(5) by (auto simp: port_sent_def)
qed

lemma callback_takes:
  assumes R: "room_ok R" and i: "picture_inv p u R enc (s, acc, n)" and g: "encoder_gives c p u R b s"
  shows "\<exists>s'. buffer_callback c k p b s = ret s'
    \<and> picture_inv p u R enc (s', acc @ payload_list b s, if fits R enc acc \<and> ends_picture (bh_flags (bufs s b)) then Suc n else n)
    \<and> (\<forall>x. x \<notin> region R \<longrightarrow> w_bytes (ps_env s') x = w_bytes (ps_env s) x)"
proof -
  obtain pool xs U where U: "st_userdata (still_of s) u = Some U" "ud_encoderPool U = Some pool" "header_out pool xs b s"
    using g by (auto simp: encoder_gives_def)
  have c: "port_takes c p s" "still_clock c" using g by (simp_all add: encoder_gives_def)
  have inv: "po_userdata (port_of s p) = Some u" "taken R enc acc U (w_bytes (ps_env s))" "ud_cameraBoard U = fits R enc acc"
    using i U(1) by (auto simp: taken_def)
  show ?thesis
  proof (cases "fits R enc acc")
    case True
    obtain U' m y where t: "take_buffer k b u U s = ret (upd_env (\<lambda>r. r\<lparr>st_userdata := (st_userdata r)(u \<mapsto> U'), st_sem := y\<rparr>)
        (upd_world (\<lambda>w. w\<lparr>w_bytes := m\<rparr>) s))" "taken R enc (acc @ payload_list b s) U' m"
      "\<forall>x. x \<notin> region R \<longrightarrow> m x = w_bytes (ps_env s) x" "ud_mutex U'" "ud_encoderPool U' = ud_encoderPool U"
      "y u = Some (if ends_picture (bh_flags (bufs s b)) then Suc n else n)"
      using take_buffer_runs [OF R i U(1) True, of b k] U(3) g by (auto simp: header_out_def encoder_gives_def)
    let ?s1 = "upd_env (\<lambda>r. r\<lparr>st_userdata := (st_userdata r)(u \<mapsto> U'), st_sem := y\<rparr>) (upd_world (\<lambda>w. w\<lparr>w_bytes := m\<rparr>) s)"
    have "port_takes c p ?s1" using c(1) by (simp add: port_takes_def)
    moreover have "header_out pool xs b ?s1" using U(3) by simp
    ultimately obtain s' z where s': "andthen (header_release c b ?s1) (next_buffer c p (Some u)) = ret s'"
      "still_of s' = (still_of ?s1)\<lparr>st_env := z\<rparr>" "w_bytes (ps_env s') = w_bytes (ps_env ?s1)" "po_userdata (port_of s' p) = po_userdata (port_of ?s1 p)"
      using next_buffer_runs [of c p ?s1 pool xs b u U'] c(2) t(5) U(2) by auto
    have "buffer_callback c k p b s = ret s'" using inv(1,3) U(1) True t(1) s'(1) by (simp add: buffer_callback_def)
    then show ?thesis using s' t inv(1) i True by (intro exI [of _ s']) auto
  next
    case False
    obtain s' z where s': "andthen (header_release c b s) (next_buffer c p (Some u)) = ret s'"
      "still_of s' = (still_of s)\<lparr>st_env := z\<rparr>" "w_bytes (ps_env s') = w_bytes (ps_env s)" "po_userdata (port_of s' p) = po_userdata (port_of s p)"
      using next_buffer_runs [OF c U(3,1,2)] by blast
    have "buffer_callback c k p b s = ret s'" using inv(1,3) U(1) False s'(1) by (simp add: buffer_callback_def)
    then show ?thesis using s' inv(1) i False taken_ignores [OF R inv(2) False] U(1) by (intro exI [of _ s']) auto
  qed
qed

lemma picture_step_inv:
  assumes "room_ok R" and "picture_step c k p u R enc x y" and "picture_inv p u R enc x"
  shows "picture_inv p u R enc y"
  using assms(2,3)
proof (induction rule: picture_step.induct)
  case (picture_buffer b s s' acc n)
  then show ?case using callback_takes [OF assms(1) picture_buffer.prems picture_buffer.hyps(1), of k] by auto
next
  case (picture_other s s' acc n)
  then show ?case using taken_memory by (auto simp: same_picture_def) 
qed

lemma picture_steps_inv:
  assumes "picture_starts p u R enc s0" and "(picture_step c k p u R enc)\<^sup>*\<^sup>* (s0, [], 0) x"
  shows "picture_inv p u R enc x"
  using assms(2)
proof (induction rule: rtranclp_induct)
  case base
  then show ?case using assms(1) by (simp only: picture_starts_def)
next
  case (step y z)
  have "room_ok R" using assms(1) by (simp add: picture_starts_def)
  from picture_step_inv [OF this step.hyps(2) step.IH] show ?case .
qed

text \<open>C18. The picture that \<open>takePicture\<close> waits for is put together without losing or misplacing a byte. The
  user's memory has room for at least one byte. After any sequence of buffers of the encoder, interleaved with anything that leaves the user data, the semaphore
  and the user's memory alone, that memory holds the bytes that have arrived, one buffer after the other
  and without the BMP header when RGB was asked for, as far as there is room; the semaphore has been posted
  once for each buffer that ended a picture and arrived while everything had fitted, and \<open>takePicture\<close> goes on
  waiting as long as there was none. The callback returns for every further buffer, keeps this
  state and writes no byte outside the user's memory.\<close>

theorem picture_assembled:
  assumes "picture_starts p u R enc s0" and "(picture_step c k p u R enc)\<^sup>*\<^sup>* (s0, [], 0) (s, acc, n)"
  shows "(\<forall>j < min (length (picture_bytes enc acc)) (capacity R).
            w_bytes (ps_env s) (rm_data R + rm_off R + j) = picture_bytes enc acc ! j)
    \<and> st_sem (still_of s) u = Some n \<and> (n = 0 \<longrightarrow> takePicture_finish c u s = Some Blocks)
    \<and> (encoder_gives c p u R b s \<longrightarrow>
        (\<exists>s'. buffer_callback c k p b s = ret s' \<and> (\<forall>x. x \<notin> region R \<longrightarrow> w_bytes (ps_env s') x = w_bytes (ps_env s) x)
          \<and> (picture_step c k p u R enc)\<^sup>*\<^sup>* (s0, [], 0) (s', acc @ payload_list b s,
               if fits R enc acc \<and> ends_picture (bh_flags (bufs s b)) then Suc n else n)))"
proof -
  have R: "room_ok R" using assms(1) by (simp add: picture_starts_def)
  have i: "picture_inv p u R enc (s, acc, n)" by (rule picture_steps_inv [OF assms])
  have "takePicture_finish c u s = Some Blocks" if "n = 0" using i that by (simp add: takePicture_finish_def)
  moreover have "\<exists>s'. buffer_callback c k p b s = ret s' \<and> (\<forall>x. x \<notin> region R \<longrightarrow> w_bytes (ps_env s') x = w_bytes (ps_env s) x)
      \<and> (picture_step c k p u R enc)\<^sup>*\<^sup>* (s0, [], 0) (s', acc @ payload_list b s,
           if fits R enc acc \<and> ends_picture (bh_flags (bufs s b)) then Suc n else n)" if g: "encoder_gives c p u R b s"
  proof -
    obtain s' where s': "buffer_callback c k p b s = ret s'" "\<forall>x. x \<notin> region R \<longrightarrow> w_bytes (ps_env s') x = w_bytes (ps_env s) x"
      using callback_takes [OF R i g] by blast
    show ?thesis using rtranclp.rtrancl_into_rtrancl [OF assms(2) picture_buffer [OF g s'(1)]] s' by blast
  qed
  ultimately show ?thesis using i by (auto simp: taken_def)
qed

section \<open>A memory that is too small\<close>

lemma too_small_stays:
  assumes "(picture_step c k p u R enc)\<^sup>*\<^sup>* x y" and "\<not> fits R enc (fst (snd x))"
  shows "\<not> fits R enc (fst (snd y)) \<and> snd (snd y) = snd (snd x)"
  using assms(1)
proof (induction rule: rtranclp_induct)
  case base
  then show ?case using assms(2) by simp
next
  case (step y z)
  from step.hyps(2) step.IH show ?case
    by (induction rule: picture_step.induct) (use fits_prefix in auto)
qed

text \<open>C39. Memory that is too small makes \<open>takePicture\<close> wait for ever. Once more bytes have arrived than fit,
  and no buffer until then had ended the picture, no sequence of further buffers, the end of the picture
  among them, ever posts the semaphore: the message that the memory is too small is printed, and the callback
  then ignores every buffer.\<close>

theorem small_memory_waits_for_ever:
  assumes "picture_starts p u R enc s0" and "(picture_step c k p u R enc)\<^sup>*\<^sup>* (s0, [], 0) (s, acc, 0)"
    and "\<not> fits R enc acc" and "(picture_step c k p u R enc)\<^sup>*\<^sup>* (s, acc, 0) (s', acc', n')"
  shows "n' = 0 \<and> takePicture_finish c u s' = Some Blocks"
proof -
  have n: "n' = 0" using too_small_stays [OF assms(4)] assms(3) by simp
  have "picture_inv p u R enc (s', acc', n')" by (rule picture_steps_inv [OF assms(1) rtranclp_trans [OF assms(2,4)]])
  then show ?thesis using n by (simp add: takePicture_finish_def)
qed

section \<open>No encoder\<close>

lemma fails_after_not_zero: "fails_after f s = ret (r, s') \<Longrightarrow> r \<noteq> 0"
  by (auto simp: fails_after_def andthen_ret_iff)

text \<open>When the creation of the camera succeeds, its pool is in \<open>encoder_pool\<close>.\<close>

lemma created_pool: "create_still_pool c p f s = ret (0, s') \<Longrightarrow> st_encoder_pool (still_of s') \<noteq> None"
  by (auto simp: create_still_pool_def andthen_ret_iff Let_def fails_after_def split: if_splits)

lemma or_else_ret_iff:
  "or_else r k h = ret y \<longleftrightarrow> (\<exists>st s. r = ret (st, s) \<and> (if st = MMAL_SUCCESS then k s else h st s) = ret y)"
  by (auto simp: or_else_def andthen_ret_iff)

lemma created_camera_pool:
  assumes "createCamera c s = ret (0, s')"
  shows "st_encoder_pool (still_of s') \<noteq> None"
  using assms
  by (auto simp: createCamera_def andthen_ret_iff or_else_ret_iff Let_def split: if_splits
      dest: fails_after_not_zero created_pool)

text \<open>C40. Without an encoder component the program crashes instead of reporting it. When the camera could be
  created and the encoder cannot, \<open>createEncoder\<close> wants to destroy the pool that \<open>createCamera\<close> left in
  \<open>encoder_pool\<close> through a port of the missing encoder and follows a null pointer, and with it \<open>initialize\<close>
  and \<open>takePicture\<close>. Of the refused creation it is only used that it gives no component and an error, and that
  it leaves the fields of the camera object as they are.\<close>

theorem missing_encoder_faults:
  assumes "\<not> st_isInitialized (still_of s0)" and "createCamera c s0 = ret (0, s)"
    and "mmal_component_create c MMAL_COMPONENT_DEFAULT_IMAGE_ENCODER True s = ret (st, None, s1)" and "st \<noteq> MMAL_SUCCESS"
    and "still_of s1 = (still_of s)\<lparr>st_env := y\<rparr>"
  shows "createEncoder c s = Some Faults \<and> initialize c k s0 = Some Faults
    \<and> takePicture_start c k data len s0 = Some Faults"
proof -
  obtain pool where "st_encoder_pool (still_of s) = Some pool" using created_camera_pool [OF assms(2)] by blast
  then have "createEncoder c s = Some Faults"
    using assms(3-5) by (simp add: createEncoder_def fails_after_def destroyEncoder_def output_port_def Let_def)
  then show ?thesis using assms(1,2) by (simp add: initialize_def takePicture_start_def)
qed

section \<open>A small picture\<close>

text \<open>For the examples: the port 11 of the small world takes a picture into \<open>n\<close> bytes at 5000.\<close>

definition small_still :: "u32 \<Rightarrow> unit scam" where
  "small_still n = small_world ((Private_Impl_Still ())\<lparr>st_encoder_pool := Some 50, st_sem := [99 \<mapsto> 0],
     st_userdata := [99 \<mapsto> \<lparr>ud_cameraBoard = True, ud_encoderPool = Some 50, ud_imageCallback = None, ud_mutex = True,
       ud_data = 5000, ud_bufferPosition = 0, ud_startingOffset = 0, ud_offset = 0, ud_length = n\<rparr>]\<rparr>)"

definition small_room :: "nat \<Rightarrow> room" where "small_room n = \<lparr>rm_data = 5000, rm_off = 0, rm_len = n\<rparr>"

lemma still_taking_clock: "still_clock (taking base :: 'y still port_ops)"
proof -
  have "\<exists>y. r = r\<lparr>st_env := y\<rparr>" for r :: "'y still" by (rule exI [of _ "st_env r"]) simp
  then show ?thesis by (simp add: still_clock_def taking_def)
qed

lemma small_still_starts:
  assumes "0 < n" "n < 10000"
  shows "picture_starts 11 99 (small_room n) RASPICAM_ENCODING_BMP (small_still (word_of_nat n))"
  using assms by (simp add: picture_starts_def room_ok_def small_room_def small_still_def taken_def fits_def picture_bytes_def
      Private_Impl_Still_def setDefaults_def unat_of_nat)

lemma small_still_gives:
  "encoder_gives (taking base) 11 99 (small_room n) 20 (small_still (word_of_nat n))"
  by (auto simp: encoder_gives_def still_taking_clock small_still_def small_world_takes small_world_out region_def small_room_def
      intro!: exI [of _ "[]"])

lemma small_still_payload: "payload_list 20 (small_still n) = map (\<lambda>i. word_of_nat (1000 + i)) [0..<1536]"
  "bh_flags (bufs (small_still n) 20) = 0"
  by (simp_all add: payload_list_def small_still_def)

theorem picture_assembled_witness:
  "\<forall>base k. \<exists>s'. buffer_callback (taking base) k 11 20 (small_still 2000) = ret s'
    \<and> w_bytes (ps_env s') 5000 = 232 \<and> st_sem (still_of s') 99 = Some 0 \<and> takePicture_finish (taking base) 99 s' = Some Blocks"
proof (intro allI)
  fix base :: "unit still port_ops" and k
  let ?R = "small_room 2000" and ?s = "small_still 2000" and ?c = "taking base"
  have st: "picture_starts 11 99 ?R RASPICAM_ENCODING_BMP ?s" using small_still_starts [of 2000] by simp
  have g: "encoder_gives ?c 11 99 ?R 20 ?s" using small_still_gives [of base 2000] by simp
  have e: "\<not> ends_picture (bh_flags (bufs ?s 20))" by (simp add: small_still_payload ends_picture_def)
  let ?acc = "map (\<lambda>i. word_of_nat (1000 + i)) [0..<1536] :: 8 word list"
  obtain s' where s': "buffer_callback ?c k 11 20 ?s = ret s'"
    "(picture_step ?c k 11 99 ?R RASPICAM_ENCODING_BMP)\<^sup>*\<^sup>* (?s, [], 0) (s', ?acc, 0)"
    using picture_assembled [where c = ?c and k = k and b = 20, OF st rtranclp.rtrancl_refl] g e by (auto simp: small_still_payload)
  have "w_bytes (ps_env s') 5000 = ?acc ! 0" "st_sem (still_of s') 99 = Some 0" "takePicture_finish ?c 99 s' = Some Blocks"
    using picture_assembled [OF st s'(2)] by (force simp: picture_bytes_def small_room_def capacity_def dest: spec [of _ 0])+
  then show "\<exists>s'. buffer_callback ?c k 11 20 ?s = ret s' \<and> w_bytes (ps_env s') 5000 = 232
      \<and> st_sem (still_of s') 99 = Some 0 \<and> takePicture_finish ?c 99 s' = Some Blocks"
    using s'(1) by (intro exI [of _ s']) simp
qed

text \<open>The next buffer ends the picture.\<close>

definition ending :: "'x pst \<Rightarrow> 'x pst" where
  "ending s = s\<lparr>bufs := (\<lambda>b. (bufs s b)\<lparr>bh_flags := MMAL_BUFFER_HEADER_FLAG_FRAME_END\<rparr>)\<rparr>"

theorem small_memory_waits_for_ever_witness:
  "\<forall>base k. \<exists>s'. buffer_callback (taking base) k 11 20 (small_still 100) = ret s'
    \<and> takePicture_finish (taking base) 99 (ending s') = Some Blocks"
proof (intro allI)
  fix base :: "unit still port_ops" and k
  let ?R = "small_room 100" and ?s = "small_still 100" and ?c = "taking base"
  have st: "picture_starts 11 99 ?R RASPICAM_ENCODING_BMP ?s" using small_still_starts [of 100] by simp
  have g: "encoder_gives ?c 11 99 ?R 20 ?s" using small_still_gives [of base 100] by simp
  have e: "\<not> ends_picture (bh_flags (bufs ?s 20))" by (simp add: small_still_payload ends_picture_def)
  let ?acc = "payload_list 20 ?s"
  have R: "room_ok ?R" "picture_inv 11 99 ?R RASPICAM_ENCODING_BMP (?s, [], 0)" using st by (simp_all only: picture_starts_def)
  obtain s' where s': "buffer_callback ?c k 11 20 ?s = ret s'" using callback_takes [OF R g, of k] by blast
  have run: "(picture_step ?c k 11 99 ?R RASPICAM_ENCODING_BMP)\<^sup>*\<^sup>* (?s, [], 0) (s', ?acc, 0)"
    using picture_buffer [OF g s', where acc = "[]" and n = 0 and enc = RASPICAM_ENCODING_BMP] e by auto
  have f: "\<not> fits ?R RASPICAM_ENCODING_BMP ?acc"
    by (simp add: small_still_payload fits_def picture_bytes_def small_room_def capacity_def)
  have "picture_step ?c k 11 99 ?R RASPICAM_ENCODING_BMP (s', ?acc, 0) (ending s', ?acc, 0)"
    by (rule picture_other) (simp add: same_picture_def ending_def)
  then have "takePicture_finish ?c 99 (ending s') = Some Blocks"
    using small_memory_waits_for_ever [OF st run f r_into_rtranclp] by blast
  with s' show "\<exists>s'. buffer_callback ?c k 11 20 ?s = ret s' \<and> takePicture_finish ?c 99 (ending s') = Some Blocks" by blast
qed

section \<open>A camera without an encoder\<close>

text \<open>For the example: memory is handed out from increasing addresses, except for the 170 bytes of the encoder's
  component; the camera's constructor gives it the output ports 10, 11 and 12.\<close>

definition tight :: "u32 \<Rightarrow> nat still world \<Rightarrow> ptr \<times> nat still world" where
  "tight n w = (if n = 170 then (None, w)
     else (Some (st_env (w_env w)), w\<lparr>w_env := (w_env w)\<lparr>st_env := st_env (w_env w) + unat n\<rparr>\<rparr>))"

definition without_encoder :: "nat still port_ops \<Rightarrow> nat still port_ops" where
  "without_encoder base = base\<lparr>pp_pools := (pp_pools base)\<lparr>op_abi := arm32, op_malloc := tight, op_alloc := (\<lambda>_ _. tight)\<rparr>,
     pp_sync := Pair True, pp_sizes := \<lparr>sizeof_port = 200, sizeof_event_format_changed = 20, sizeof_es_format = 32,
       sizeof_es_format_private = 80, sizeof_es_specific = 44, sizeof_component = 150, sizeof_module = 8,
       sizeof_port_module = 8\<rparr>,
     pp_construct := (\<lambda>_ _ a s. ret (MMAL_SUCCESS, upd_comp a (\<lambda>C. C\<lparr>co_output := [10, 11, 12], co_is_enabled := True\<rparr>) s)),
     pp_enable := (\<lambda>_ _ _ s. ret (MMAL_SUCCESS, s)), pp_set_format := (\<lambda>_ _ s. ret (MMAL_SUCCESS, s)),
     pp_parameter_set := (\<lambda>_ _ _ s. ret (MMAL_SUCCESS, s))\<rparr>"

text \<open>The world after some allocations.\<close>

definition advanced :: "nat still pst \<Rightarrow> nat still pst \<Rightarrow> bool" where
  "advanced s s' \<longleftrightarrow> w_port (ps_env s') = w_port (ps_env s) \<and> w_comp (ps_env s') = w_comp (ps_env s)
     \<and> w_fmt (ps_env s') = w_fmt (ps_env s) \<and> w_suppliers (ps_env s') = w_suppliers (ps_env s)
     \<and> (\<exists>y\<ge>st_env (still_of s). still_of s' = (still_of s)\<lparr>st_env := y\<rparr>)"

lemma advanced_refl [simp]: "advanced s s"
  unfolding advanced_def by (auto intro!: exI [of _ "st_env (still_of s)"])

lemma advanced_trans: "advanced s t \<Longrightarrow> advanced t u \<Longrightarrow> advanced s u"
proof -
  assume a: "advanced s t" and b: "advanced t u"
  obtain y where y: "st_env (still_of s) \<le> y" "still_of t = (still_of s)\<lparr>st_env := y\<rparr>" using a unfolding advanced_def by blast
  obtain z where z: "st_env (still_of t) \<le> z" "still_of u = (still_of t)\<lparr>st_env := z\<rparr>" using b unfolding advanced_def by blast
  have "st_env (still_of s) \<le> z" "still_of u = (still_of s)\<lparr>st_env := z\<rparr>" using y z by simp_all
  then show "advanced s u" using a b unfolding advanced_def by (intro conjI exI [of _ z]) simp_all
qed

lemma advanced_env: "w_port (ps_env s') = w_port (ps_env s) \<Longrightarrow> w_comp (ps_env s') = w_comp (ps_env s)
   \<Longrightarrow> w_fmt (ps_env s') = w_fmt (ps_env s) \<Longrightarrow> w_suppliers (ps_env s') = w_suppliers (ps_env s)
   \<Longrightarrow> still_of s' = (still_of s)\<lparr>st_env := st_env (still_of s) + n\<rparr> \<Longrightarrow> advanced s s'"
  unfolding advanced_def by (auto intro!: exI [of _ "st_env (still_of s) + n"])

lemma upd_suppliers [simp]: "w_suppliers (ps_env (upd_env f s)) = w_suppliers (ps_env s)"
   "w_suppliers (ps_env (upd_port p g s)) = w_suppliers (ps_env s)"
   "w_suppliers (ps_env (upd_comp a h s)) = w_suppliers (ps_env s)"
  by (simp_all add: upd_env_def upd_port_def upd_comp_def)

lemma tight_malloc: "n \<noteq> 170 \<Longrightarrow>
  vcos_malloc (without_encoder base) n s = (Some (st_env (still_of s)), upd_env (\<lambda>r. r\<lparr>st_env := st_env r + unat n\<rparr>) s)"
  by (simp add: vcos_malloc_def without_encoder_def tight_def upd_env_def upd_world_def)

lemma tight_sync: "vcos_sync_create (without_encoder base) s = (True, s)"
  by (simp add: vcos_sync_create_def without_encoder_def upd_env_def upd_world_def)

lemma tight_queue: "\<exists>q. world_queue_create (without_encoder base) s = (Some q, s)"
  by (simp add: world_queue_create_def tight_sync mmal_queue_create_def)

lemma tight_loop:
  assumes "\<not> pl_header_size (ps_pool s pool) < mmal_buffer_header_size arm32" "pl_payload_size (ps_pool s pool) \<noteq> 170"
  shows "\<exists>s'. init_headers_loop (pp_pools (without_encoder base)) pool True n i h s = Some (MMAL_SUCCESS, s') \<and> advanced s s'"
  using assms
proof (induction n arbitrary: i h s)
  case (Suc n)
  let ?P = "ps_pool s pool" and ?c = "pp_pools (without_encoder base)"
  define a where "a = (if pl_payload_size ?P \<noteq> 0 \<and> pl_allocator_alloc ?P \<noteq> None
      then (case tight (pl_payload_size ?P) (ps_env s) of (pp, e') \<Rightarrow> (pp, pp \<noteq> None, e')) else (None, True, ps_env s))"
  obtain payload e where e: "a = (payload, True, e)" "advanced s (s\<lparr>ps_env := e\<rparr>)"
  proof (cases "pl_payload_size ?P \<noteq> 0 \<and> pl_allocator_alloc ?P \<noteq> None")
    case True
    then show ?thesis using Suc.prems
      by (intro that [of "Some (st_env (still_of s))" "(ps_env s)\<lparr>w_env := (still_of s)\<lparr>st_env := st_env (still_of s)
            + unat (pl_payload_size ?P)\<rparr>\<rparr>"]) (auto simp: a_def tight_def intro!: advanced_env)
  next
    case False
    then show ?thesis by (intro that [of None "ps_env s"]) (auto simp: a_def)
  qed
  define s2 where "s2 = (upd_buf h (\<lambda>_. zero_header) s)\<lparr>ps_env := e\<rparr>"
  define s4 where "s4 = upd_pool pool (\<lambda>P. P\<lparr>pl_header := (pl_header P)(i := h), pl_headers_num := i + 1\<rparr>)
    (upd_buf h (fill_header pool ?P payload) s2)"
  have P: "ps_pool s2 = ps_pool s" by (simp add: s2_def)
  have same: "advanced s s4" using e(2) by (simp add: advanced_def s4_def s2_def)
  have step: "init_headers_loop ?c pool True (Suc n) i h s
    = init_headers_loop ?c pool True n (i + 1) (h + unat (pl_header_size ?P)) s4"
    using Suc.prems e(1) unfolding a_def
    by (auto simp: mmal_buffer_header_initialise_def Let_def s4_def s2_def without_encoder_def free_payload_def
        zero_header_def split: if_splits prod.splits)
  have "\<not> pl_header_size (ps_pool s4 pool) < mmal_buffer_header_size arm32" "pl_payload_size (ps_pool s4 pool) \<noteq> 170"
    using Suc.prems by (simp_all add: s4_def P)
  from Suc.IH [OF this, of "i + 1" "h + unat (pl_header_size ?P)"] same show ?case
    unfolding step by (blast intro: advanced_trans)
qed simp

lemma tight_pool:
  assumes "payload_size \<noteq> 170" "ROUND_UP (4 * headers) 8 + 472 * headers \<noteq> 170"
  shows "\<exists>pl s'. mmal_pool_create_with_allocator (pp_pools (without_encoder base)) (Some queue) headers payload_size cx
     (Some f) (Some g) s = Some (Some pl, s') \<and> advanced s s'"
proof -
  let ?c = "pp_pools (without_encoder base)" and ?pl = "st_env (still_of s)"
  define n where "n = ROUND_UP (4 * headers) 8 + 472 * headers"
  define s1 where "s1 = upd_pool ?pl (\<lambda>_. new_pool queue (?pl + 56) 472 payload_size headers (Some f) (Some g) cx)
    (upd_env (\<lambda>r. r\<lparr>st_env := st_env r + 56 + unat n\<rparr>) s)"
  have "\<not> pl_header_size (ps_pool s1 ?pl) < mmal_buffer_header_size arm32" "pl_payload_size (ps_pool s1 ?pl) \<noteq> 170"
    using assms by (simp_all add: s1_def new_pool_def header_size_arm32)
  from tight_loop [OF this, of base "unat headers" 0 "first_header ?c (ps_pool s1 ?pl) headers"]
  obtain s2 where s2: "mmal_pool_initialise_buffer_headers ?c ?pl headers True s1 = Some (MMAL_SUCCESS, s2)" "advanced s1 s2"
    by (auto simp: mmal_pool_initialise_buffer_headers_def)
  have "advanced s s1" by (rule advanced_env [where n = "56 + unat n"]) (simp_all add: s1_def)
  moreover have "advanced s2 (put_headers ?pl (pl_headers_num (ps_pool s2 ?pl)) 0 s2)"
    by (rule advanced_env [where n = 0]) (simp_all add: put_headers_frame)
  moreover have "mmal_pool_create_with_allocator ?c (Some queue) headers payload_size cx (Some f) (Some g) s
      = Some (Some ?pl, put_headers ?pl (pl_headers_num (ps_pool s2 ?pl)) 0 s2)"
  proof -
    have z: "ROUND_UP (sizeof_pool_private arm32) 8 = 56" "sizeof_ptr arm32 = 4" "ROUND_UP (mmal_buffer_header_size arm32) 8 = 472"
      unfolding header_size_arm32 by (simp_all add: ROUND_UP_def) (simp_all add: arm32_def)
    have o: "op_abi ?c = arm32" "op_malloc ?c = tight" by (simp_all add: without_encoder_def)
    show ?thesis using s2(1) assms
      by (simp add: o z tight_def Let_def s1_def upd_env_def upd_world_def upd_pool_def n_def add.assoc)
  qed
  ultimately show ?thesis using s2(2) by (blast intro: advanced_trans)
qed

text \<open>What the creation of the camera's component leaves for \<open>createCamera\<close>.\<close>

definition camera_made :: "addr \<Rightarrow> nat still pst \<Rightarrow> bool" where
  "camera_made a s \<longleftrightarrow> (\<exists>ctl. co_control (comp_of s a) = Some ctl \<and> 12 < ctl
     \<and> co_output (comp_of s a) = [10, 11, 12] \<and> co_is_enabled (comp_of s a)
     \<and> (let P = port_of s ctl in po_pf_enable P \<noteq> None \<and> \<not> po_is_enabled P \<and> po_connected P = None \<and> po_pf_parameter_set P \<noteq> None
        \<and> po_buffer_num_min P \<le> po_buffer_num P \<and> po_buffer_size_min P \<le> po_buffer_size P)
     \<and> (let P = port_of s 12 in po_format P \<noteq> None \<and> po_format_copy P = po_format P \<and> po_pf_set_format P \<noteq> None
        \<and> po_type P = MMAL_PORT_TYPE_OUTPUT \<and> po_buffer_num_recommended P = 1 \<and> po_buffer_num_min P = 1
        \<and> po_buffer_size_min P = 1536 \<and> po_buffer_size P = 1536))"

lemma without_encoder_sizes: "pp_sizes (without_encoder base) = \<lparr>sizeof_port = 200, sizeof_event_format_changed = 20,
    sizeof_es_format = 32, sizeof_es_format_private = 80, sizeof_es_specific = 44, sizeof_component = 150,
    sizeof_module = 8, sizeof_port_module = 8\<rparr>"
  by (simp add: without_encoder_def)

lemma tight_port_alloc:
  assumes "length (co_name (comp_of s a)) = 13"
  shows "\<exists>s'. mmal_port_alloc (without_encoder base) a t 0 s = (Some (st_env (still_of s)), s')
     \<and> (\<forall>q. q \<noteq> st_env (still_of s) \<longrightarrow> port_of s' q = port_of s q)
     \<and> \<not> po_is_enabled (port_of s' (st_env (still_of s))) \<and> po_connected (port_of s' (st_env (still_of s))) = None
     \<and> w_comp (ps_env s') = w_comp (ps_env s) \<and> w_suppliers (ps_env s') = w_suppliers (ps_env s)
     \<and> (\<exists>y\<ge>st_env (still_of s). still_of s' = (still_of s)\<lparr>st_env := y\<rparr>)"
proof -
  show ?thesis using assms
    by (simp add: mmal_port_alloc_def without_encoder_sizes SIZEOF_PORT_NAME_FORMAT_def tight_malloc tight_sync world_format_alloc_def
      mmal_format_alloc_def on_fmt_def mmal_port_name_update_def fresh_port_def zero_port_def Let_def
        exI [of _ "315 + st_env (still_of s)"])
qed

text \<open>The end of the creation, and the control port before it.\<close>

lemma tight_finish:
  fixes s :: "nat still pst" and base :: "nat still port_ops"
  assumes "po_buffer_num_min (port_of s ctl) = 4" "po_buffer_size_min (port_of s ctl) = 76"
    and "length (co_input (comp_of s a)) = 0" "length (co_output (comp_of s a)) = 3" "length (co_clock (comp_of s a)) = 0"
  shows "\<exists>b s0. finish_create (without_encoder base) a ctl s = ret (MMAL_SUCCESS, Some a, list_ports a ctl b s0)
    \<and> (\<forall>q. q \<noteq> ctl \<longrightarrow> port_of s0 q = port_of s q) \<and> po_is_enabled (port_of s0 ctl) = po_is_enabled (port_of s ctl)
    \<and> po_connected (port_of s0 ctl) = po_connected (port_of s ctl) \<and> po_pf_enable (port_of s0 ctl) = po_pf_enable (port_of s ctl)
    \<and> po_pf_parameter_set (port_of s0 ctl) = po_pf_parameter_set (port_of s ctl)
    \<and> (\<exists>pl. comp_of s0 a = (comp_of s a)\<lparr>co_event_pool := pl\<rparr>) \<and> (\<exists>y. still_of s0 = (still_of s)\<lparr>st_env := y\<rparr>)"
proof -
  let ?c = "without_encoder base"
  define t1 where "t1 = control_requirements ?c ctl s"
  have p: "po_buffer_num_min (port_of t1 ctl) = 4" "po_buffer_size_min (port_of t1 ctl) = 96"
    using assms(1,2) by (simp_all add: t1_def control_requirements_def event_format_size_def without_encoder_sizes
        MMAL_CONTROL_PORT_BUFFERS_MIN_def)
  obtain queue where q: "world_queue_create ?c t1 = (Some queue, t1)" using tight_queue by blast
  have r: "ROUND_UP (4 * 4) 8 + 472 * 4 \<noteq> (170 :: u32)" by (simp add: ROUND_UP_def)
  obtain pl t3 where t3: "mmal_pool_create (pp_pools ?c) (Some queue) 4 96 t1 = Some (Some pl, t3)" "advanced t1 t3"
    using tight_pool [of 96 4] r unfolding mmal_pool_create_def by fastforce
  have a: "op_abi (pp_pools ?c) = arm32" by (simp add: without_encoder_def)
  have w: "w_port (ps_env t3) = w_port (ps_env t1)" "w_comp (ps_env t3) = w_comp (ps_env s)"
      "\<exists>y. still_of t3 = (still_of s)\<lparr>st_env := y\<rparr>"
    using t3(2) by (auto simp: advanced_def t1_def control_requirements_def)
  define s0 where "s0 = upd_env (\<lambda>r. r\<lparr>st_env := st_env r + 16\<rparr>) (upd_comp a (\<lambda>C. C\<lparr>co_event_pool := Some pl\<rparr>) t3)"
  have "finish_create ?c a ctl s = ret (MMAL_SUCCESS, Some a, list_ports a ctl (st_env (still_of t3)) s0)"
    unfolding finish_create_def Let_def t1_def [symmetric] q prod.case p t3(1) or_simps andthen_ret
    using w(2) assms(3-) by (simp add: a arm32_def tight_malloc s0_def)
  then show ?thesis
    using w by (intro exI [of _ "st_env (still_of t3)"] exI [of _ s0]) (auto simp: s0_def t1_def control_requirements_def)
qed

lemma tight_create:
  fixes s :: "nat still pst" and base :: "nat still port_ops"
  assumes "w_suppliers (ps_env s) = [(''vc'', k)]" "12 < st_env (still_of s)"
    and "po_format (port_of s 12) = Some f \<and> po_format_copy (port_of s 12) = Some f \<and> po_pf_set_format (port_of s 12) = Some g"
    and "po_buffer_num_recommended (port_of s 12) = 1" "po_buffer_num_min (port_of s 12) = 1"
    and "po_buffer_size_min (port_of s 12) = 1536" "po_buffer_size (port_of s 12) = 1536"
  shows "\<exists>a s'. mmal_component_create (without_encoder base) MMAL_COMPONENT_DEFAULT_CAMERA True s = ret (MMAL_SUCCESS, Some a, s')
    \<and> camera_made a s' \<and> (\<exists>y. still_of s' = (still_of s)\<lparr>st_env := y\<rparr>)"
proof -
  let ?c = "without_encoder base"
  have k: "pp_construct ?c = (\<lambda>_ _ a s. ret (MMAL_SUCCESS, upd_comp a (\<lambda>C. C\<lparr>co_output := [10, 11, 12], co_is_enabled := True\<rparr>) s))"
    by (simp add: without_encoder_def)
  note z = without_encoder_sizes
  define a where "a = st_env (still_of s)"
  have len: "length MMAL_COMPONENT_DEFAULT_CAMERA = 13" by (simp add: MMAL_COMPONENT_DEFAULT_CAMERA_def)
  have mal: "vcos_malloc ?c 164 (mmal_core_init s) = (Some a, upd_env (\<lambda>r. r\<lparr>st_env := st_env r + 164\<rparr>) (mmal_core_init s))"
    by (simp add: tight_malloc a_def mmal_core_init_def)
  define s3 where "s3 = upd_comp a (\<lambda>_. fresh_component MMAL_COMPONENT_DEFAULT_CAMERA)
    (upd_env (\<lambda>r. r\<lparr>st_env := st_env r + 164\<rparr>) (mmal_core_init s))"
  define s4 where "s4 = upd_world (\<lambda>w. w\<lparr>w_instance_count := w_instance_count w + 1\<rparr>)
    (upd_comp a (\<lambda>C. C\<lparr>co_id := w_instance_count (ps_env s3)\<rparr>) s3)"
  have s4: "w_port (ps_env s4) = w_port (ps_env s)" "w_suppliers (ps_env s4) = w_suppliers (ps_env s)"
    "co_name (comp_of s4 a) = MMAL_COMPONENT_DEFAULT_CAMERA" "still_of s4 = (still_of s)\<lparr>st_env := a + 164\<rparr>"
    "co_input (comp_of s4 a) = []" "co_clock (comp_of s4 a) = []"
    by (simp_all add: s4_def s3_def mmal_core_init_def fresh_component_def zero_component_def a_def)
  define ctl where "ctl = st_env (still_of s4)"
  have ctl: "12 < ctl" using assms(2) by (simp add: ctl_def s4 a_def)
  obtain s5 where s5: "mmal_port_alloc ?c a MMAL_PORT_TYPE_CONTROL 0 s4 = (Some ctl, s5)"
      "\<forall>q. q \<noteq> ctl \<longrightarrow> port_of s5 q = port_of s q" "\<not> po_is_enabled (port_of s5 ctl)" "po_connected (port_of s5 ctl) = None"
      "w_comp (ps_env s5) = w_comp (ps_env s4)" "w_suppliers (ps_env s5) = w_suppliers (ps_env s4)"
      "\<exists>y\<ge>ctl. still_of s5 = (still_of s4)\<lparr>st_env := y\<rparr>"
    using tight_port_alloc [of s4 a base MMAL_PORT_TYPE_CONTROL] s4(1,3) unfolding ctl_def
    by (auto simp: MMAL_COMPONENT_DEFAULT_CAMERA_def)
  define s7 where "s7 = upd_comp a (\<lambda>C. C\<lparr>co_module := None\<rparr>)
    (mmal_component_init_control_port ?c ctl (upd_comp a (\<lambda>C. C\<lparr>co_control := Some ctl\<rparr>) s5))"
  define s8 where "s8 = upd_comp a (\<lambda>C. C\<lparr>co_output := [10, 11, 12], co_is_enabled := True\<rparr>) s7"
  have s8: "\<forall>q. q \<noteq> ctl \<longrightarrow> port_of s8 q = port_of s q" "\<not> po_is_enabled (port_of s8 ctl)" "po_connected (port_of s8 ctl) = None"
     "po_pf_enable (port_of s8 ctl) = Some CONTROL_PORT_ENABLE" "po_pf_parameter_set (port_of s8 ctl) = Some CONTROL_PARAMETER_SET"
     "po_buffer_num_min (port_of s8 ctl) = 4" "po_buffer_size_min (port_of s8 ctl) = 76"
     "co_control (comp_of s8 a) = Some ctl" "co_output (comp_of s8 a) = [10, 11, 12]" "co_is_enabled (comp_of s8 a)"
     "co_input (comp_of s8 a) = []" "co_clock (comp_of s8 a) = []"
     "w_suppliers (ps_env s8) = w_suppliers (ps_env s)" "\<exists>y\<ge>ctl. still_of s8 = (still_of s)\<lparr>st_env := y\<rparr>"
    using s5 s4 unfolding s8_def s7_def mmal_component_init_control_port_def Let_def z on_fmt_def
    by (auto split: option.splits simp: upd_world_def MMAL_CONTROL_PORT_BUFFERS_MIN_def)
  have sup: "mmal_component_supplier_create ?c MMAL_COMPONENT_DEFAULT_CAMERA a s7 = ret (MMAL_SUCCESS, s8)"
    using s8(13) assms(1) by (simp add: mmal_component_supplier_create_def MMAL_COMPONENT_DEFAULT_CAMERA_def k s8_def)
  obtain s0 b where f: "finish_create ?c a ctl s8 = ret (MMAL_SUCCESS, Some a, list_ports a ctl b s0)"
     "\<forall>q. q \<noteq> ctl \<longrightarrow> port_of s0 q = port_of s8 q" "po_is_enabled (port_of s0 ctl) = po_is_enabled (port_of s8 ctl)"
     "po_connected (port_of s0 ctl) = po_connected (port_of s8 ctl)" "po_pf_enable (port_of s0 ctl) = po_pf_enable (port_of s8 ctl)"
     "po_pf_parameter_set (port_of s0 ctl) = po_pf_parameter_set (port_of s8 ctl)"
     "\<exists>pl. comp_of s0 a = (comp_of s8 a)\<lparr>co_event_pool := pl\<rparr>" "\<exists>y. still_of s0 = (still_of s8)\<lparr>st_env := y\<rparr>"
    using tight_finish [OF s8(6,7), of a base] s8(9,11,12) by auto
  have "camera_made a (list_ports a ctl b s0)"
    using f(2-7) s8 ctl assms(3-) by (auto simp: camera_made_def list_ports_def Let_def sensible_buffers_def not_less)
  moreover have "\<exists>y. still_of (list_ports a ctl b s0) = (still_of s)\<lparr>st_env := y\<rparr>"
    using f(7,8) s8(9,11,12,14) by (auto simp: list_ports_def Let_def sensible_buffers_def)
  moreover have "mmal_component_create ?c MMAL_COMPONENT_DEFAULT_CAMERA True s = ret (MMAL_SUCCESS, Some a, list_ports a ctl b s0)"
    unfolding mmal_component_create_def mmal_component_create_core_def Let_def
    using f(1) s5(1) sup len mal
    by (simp add: z tight_sync s3_def [symmetric] s4_def [symmetric] s7_def [symmetric])
  ultimately show ?thesis by blast
qed

lemma tight_camera:
  fixes s :: "nat still pst" and base :: "nat still port_ops"
  assumes "w_suppliers (ps_env s) = [(''vc'', k)]" "12 < st_env (still_of s)"
    and "po_format (port_of s 12) = Some f \<and> po_format_copy (port_of s 12) = Some f \<and> po_pf_set_format (port_of s 12) = Some g"
    and "po_buffer_num_recommended (port_of s 12) = 1" "po_buffer_num_min (port_of s 12) = 1"
    and "po_buffer_size_min (port_of s 12) = 1536" "po_buffer_size (port_of s 12) = 1536"
    and settled: "\<not> st_changedSettings (still_of s)"
  shows "\<exists>s'. createCamera (without_encoder base) s = ret (0, s')"
proof -
  let ?c = "without_encoder base"
  obtain a s1 where s1: "mmal_component_create ?c MMAL_COMPONENT_DEFAULT_CAMERA True s = ret (MMAL_SUCCESS, Some a, s1)"
     "camera_made a s1" "\<exists>y. still_of s1 = (still_of s)\<lparr>st_env := y\<rparr>"
    using tight_create [OF assms(1-7), of base] by blast
  obtain ctl where ctl: "co_control (comp_of s1 a) = Some ctl" "12 < ctl" using s1(2) by (auto simp: camera_made_def)
  have c: "pp_enable ?c = (\<lambda>_ _ _ s. ret (MMAL_SUCCESS, s))" "pp_set_format ?c = (\<lambda>_ _ s. ret (MMAL_SUCCESS, s))"
     "pp_parameter_set ?c = (\<lambda>_ _ _ s. ret (MMAL_SUCCESS, s))" by (simp_all add: without_encoder_def)
  have r: "ROUND_UP (4 * 1) 8 + 472 * 1 \<noteq> (170 :: u32)" by (simp add: ROUND_UP_def)
  have pool: "\<exists>pl t'. mmal_port_pool_create ?c (Some 12) 1 1536 t = ret (Some pl, t')" for t
  proof -
    obtain q where "world_queue_create ?c t = (Some q, t)" using tight_queue by blast
    moreover obtain pl t' where "mmal_pool_create_with_allocator (pp_pools ?c) (Some q) 1 1536 (Some 12)
       (Some PORT_PAYLOAD_ALLOC) (Some PORT_PAYLOAD_FREE) t = Some (Some pl, t')"
      using tight_pool [of 1536 1] r by fastforce
    ultimately show ?thesis by (simp add: mmal_port_pool_create_def)
  qed
  then have still_pool: "po_buffer_num (port_of t 12) = 1 \<Longrightarrow> po_buffer_size (port_of t 12) = 1536
      \<Longrightarrow> \<exists>s'. create_still_pool ?c 12 cleanup t = ret (0, s')" for t cleanup
  proof -
    assume n: "po_buffer_num (port_of t 12) = 1" "po_buffer_size (port_of t 12) = 1536"
    obtain pl t' where "mmal_port_pool_create ?c (Some 12) 1 1536 t = ret (Some pl, t')" using pool by blast
    then show ?thesis by (simp add: create_still_pool_def n)
  qed
  show ?thesis
    using s1(2,3) ctl settled
    by (auto simp: createCamera_def s1(1) Let_def camera_made_def output_port_def MMAL_CAMERA_CAPTURE_PORT_def
        mmal_port_enable_def mmal_port_enable_internal_def c still_control_def control_set_def mmal_port_parameter_set_def
        void_def still_commitParameters_def configure_still_port_def set_video_format_def on_fmt_def
        mmal_port_format_commit_def sensible_buffers_def mmal_port_name_update_def mmal_component_enable_def not_less
        intro!: still_pool)
qed

text \<open>The camera object, with nothing created and its settings sent before, in a world whose supplier is the
  camera firmware.\<close>

definition camera_only :: "nat still pst" where
  "camera_only = (let s = small_world ((Private_Impl_Still 5000)\<lparr>st_changedSettings := False\<rparr>) in
     s\<lparr>ps_env := (ps_env s)\<lparr>w_suppliers := [(''vc'', 0)], w_port := (\<lambda>_. zero_port\<lparr>po_format := Some 5, po_format_copy := Some 5,
       po_pf_set_format := Some 7, po_buffer_num_recommended := 1, po_buffer_num_min := 1, po_buffer_size_min := 1536,
       po_buffer_size := 1536\<rparr>)\<rparr>\<rparr>)"

theorem missing_encoder_faults_witness:
  "\<forall>base k. initialize (without_encoder base) k camera_only = Some Faults
     \<and> takePicture_start (without_encoder base) k 5000 100 camera_only = Some Faults"
proof (intro allI)
  fix base :: "nat still port_ops" and k :: "nat still_ops"
  let ?c = "without_encoder base"
  have still: "still_of camera_only = (Private_Impl_Still 5000)\<lparr>st_changedSettings := False\<rparr>"
    by (simp add: camera_only_def Let_def)
  obtain s where s: "createCamera ?c camera_only = ret (0, s)"
    using tight_camera [of camera_only 0 5 7 base] unfolding still
    by (auto simp: camera_only_def Let_def Private_Impl_Still_def setDefaults_def)
  have encoder: "mmal_component_create ?c MMAL_COMPONENT_DEFAULT_IMAGE_ENCODER True s = ret (MMAL_ENOMEM, None, mmal_core_init s)"
    by (simp add: mmal_component_create_def mmal_component_create_core_def MMAL_COMPONENT_DEFAULT_IMAGE_ENCODER_def
        vcos_malloc_def without_encoder_def tight_def upd_world_def)
  have "still_of (mmal_core_init s) = (still_of s)\<lparr>st_env := st_env (still_of s)\<rparr>" by (simp add: mmal_core_init_def)
  from missing_encoder_faults [OF _ s encoder _ this]
  show "initialize ?c k camera_only = Some Faults \<and> takePicture_start ?c k 5000 100 camera_only = Some Faults"
    by (simp add: still Private_Impl_Still_def setDefaults_def)
qed

end
