(* ===== verification/Vcos_Event_Flags.thy ===== *)
theory Vcos_Event_Flags
  imports Heap_List
begin

text \<open>
  Event flags (\<^verbatim>\<open>vcos/generic/vcos_generic_event_flags.c\<close>): a word of flags and a queue of waiting
  threads. Each waiter is a structure on the stack of its thread, linked by address; the thread
  sleeps on its own semaphore and may set a timer. The lock makes the queue operations atomic.
\<close>

section \<open>The structures\<close>

record event_waiter =
  ew_requested_events :: u32
  ew_actual_events :: u32
  ew_op :: u32
  ew_return_status :: vcos_status
  ew_thread :: nat
  ew_next :: ptr

record event_flags =
  ev_events :: u32
  ev_head :: ptr
  ev_tail :: ptr
  ev_waiter :: "addr \<Rightarrow> event_waiter"
  ev_sem :: "nat \<Rightarrow> nat"    \<comment> \<open>the semaphore of each thread\<close>

definition VCOS_OR :: u32 where "VCOS_OR = 1"
definition VCOS_AND :: u32 where "VCOS_AND = 2"
definition VCOS_CONSUME :: u32 where "VCOS_CONSUME = 4"
definition VCOS_EVENT_FLAG_OP_MASK :: u32 where "VCOS_EVENT_FLAG_OP_MASK = VCOS_OR OR VCOS_AND"

definition upd_waiter :: "addr \<Rightarrow> (event_waiter \<Rightarrow> event_waiter) \<Rightarrow> event_flags \<Rightarrow> event_flags" where
  "upd_waiter a f s = s\<lparr>ev_waiter := (ev_waiter s)(a := f (ev_waiter s a))\<rparr>"

definition thread_sem_post :: "nat \<Rightarrow> event_flags \<Rightarrow> event_flags" where
  "thread_sem_post t s = s\<lparr>ev_sem := (ev_sem s)(t := sem_post (ev_sem s t))\<rparr>"

lemma upd_waiter_simps [simp]:
  "ev_waiter (upd_waiter a f s) b = (if b = a then f (ev_waiter s a) else ev_waiter s b)"
  "ev_events (upd_waiter a f s) = ev_events s" "ev_head (upd_waiter a f s) = ev_head s"
  "ev_tail (upd_waiter a f s) = ev_tail s" "ev_sem (upd_waiter a f s) = ev_sem s"
  by (simp_all add: upd_waiter_def)

lemma thread_sem_post_simps [simp]:
  "ev_waiter (thread_sem_post t s) = ev_waiter s" "ev_events (thread_sem_post t s) = ev_events s"
  "ev_head (thread_sem_post t s) = ev_head s" "ev_tail (thread_sem_post t s) = ev_tail s"
  "ev_sem (thread_sem_post t s) = (ev_sem s)(t := Suc (ev_sem s t))"
  by (simp_all add: thread_sem_post_def sem_post_def)

fun read_ev_slot :: "slot \<Rightarrow> event_flags \<Rightarrow> ptr" where
  "read_ev_slot SlotFirst s = ev_head s"
| "read_ev_slot (SlotNext a) s = ew_next (ev_waiter s a)"

fun write_ev_slot :: "slot \<Rightarrow> ptr \<Rightarrow> event_flags \<Rightarrow> event_flags" where
  "write_ev_slot SlotFirst p s = s\<lparr>ev_head := p\<rparr>"
| "write_ev_slot (SlotNext a) p s = upd_waiter a (\<lambda>w. w\<lparr>ew_next := p\<rparr>) s"

section \<open>Operations\<close>

definition vcos_generic_event_flags_create :: "vcos_status \<Rightarrow> event_flags \<Rightarrow> vcos_status \<times> event_flags" where
  "vcos_generic_event_flags_create mutex_st s =
     (if mutex_st \<noteq> VCOS_SUCCESS then (mutex_st, s)
      else (mutex_st, s\<lparr>ev_events := 0, ev_head := None, ev_tail := None\<rparr>))"

definition waiter_satisfied :: "u32 \<Rightarrow> event_waiter \<Rightarrow> bool" where
  "waiter_satisfied events w =
     (let common = events AND ew_requested_events w in
      if ew_op w AND VCOS_AND \<noteq> 0 then common = ew_requested_events w else common \<noteq> 0)"

text \<open>The walk over the waiters in \<open>vcos_generic_event_flags_set\<close>; \<open>slot\<close> is
  \<open>pcurrent_waiter\<close>. The result is the set of consumed events.\<close>

partial_function (option) set_loop ::
  "slot \<Rightarrow> ptr \<Rightarrow> u32 \<Rightarrow> event_flags \<Rightarrow> (u32 \<times> event_flags) option" where
  "set_loop slot prev consumed s =
     (case read_ev_slot slot s of
        None \<Rightarrow> Some (consumed, s)
      | Some cur \<Rightarrow>
          let w = ev_waiter s cur in
          if waiter_satisfied (ev_events s) w then
            let consumed = (if ew_op w AND VCOS_CONSUME \<noteq> 0 then consumed OR ew_requested_events w else consumed);
                s1 = write_ev_slot slot (ew_next w) s;
                s2 = (if ew_next w = None then s1\<lparr>ev_tail := prev\<rparr> else s1);
                s3 = upd_waiter cur (\<lambda>w. w\<lparr>ew_return_status := VCOS_SUCCESS,
                       ew_actual_events := ev_events s2\<rparr>) s2
            in set_loop slot prev consumed (thread_sem_post (ew_thread (ev_waiter s3 cur)) s3)
          else set_loop (SlotNext cur) (Some cur) consumed s)"

definition vcos_generic_event_flags_set :: "u32 \<Rightarrow> u32 \<Rightarrow> event_flags \<Rightarrow> event_flags option" where
  "vcos_generic_event_flags_set bitmask op s =
     (let s1 = (if op = VCOS_OR then s\<lparr>ev_events := ev_events s OR bitmask\<rparr>
                else if op = VCOS_AND then s\<lparr>ev_events := ev_events s AND bitmask\<rparr>
                else s)
      in if ev_head s1 = None then Some s1
         else map_option (\<lambda>(consumed, s2). s2\<lparr>ev_events := ev_events s2 AND NOT consumed\<rparr>)
                (set_loop SlotFirst None 0 s1))"

text \<open>\<open>VCOS_QUEUE_APPEND_TAIL\<close>\<close>

definition queue_append_tail :: "addr \<Rightarrow> event_flags \<Rightarrow> event_flags option" where
  "queue_append_tail w s =
     (let s1 = upd_waiter w (\<lambda>x. x\<lparr>ew_next := None\<rparr>) s in
      if ev_head s1 = None then Some (s1\<lparr>ev_head := Some w, ev_tail := Some w\<rparr>)
      else map_option (\<lambda>t. (upd_waiter t (\<lambda>x. x\<lparr>ew_next := Some w\<rparr>) s1)\<lparr>ev_tail := Some w\<rparr>) (ev_tail s1))"

text \<open>
  \<open>vcos_generic_event_flags_get\<close> by thread \<open>thread\<close>, whose waiter structure is at \<open>w\<close>, up
  to the point where it returns (\<open>Inl\<close> status and retrieved bits) or sleeps (\<open>Inr\<close>, whether
  a timer is set).
\<close>

definition vcos_generic_event_flags_get ::
  "nat \<Rightarrow> addr \<Rightarrow> u32 \<Rightarrow> u32 \<Rightarrow> u32 \<Rightarrow> event_flags \<Rightarrow>
   (((vcos_status \<times> u32) + bool) \<times> event_flags) option" where
  "vcos_generic_event_flags_get thread w bitmask op suspend s =
     (let opm = op AND VCOS_EVENT_FLAG_OP_MASK;
          satisfied = (if opm = VCOS_AND then ev_events s AND bitmask = bitmask
                       else if opm = VCOS_OR then ev_events s AND bitmask \<noteq> 0 else False);
          rc = (if satisfied then VCOS_SUCCESS
                else if opm = VCOS_AND \<or> opm = VCOS_OR then VCOS_EAGAIN else VCOS_EINVAL)
      in if satisfied then
           Some (Inl (rc, ev_events s),
             if op AND VCOS_CONSUME \<noteq> 0 then s\<lparr>ev_events := ev_events s AND NOT bitmask\<rparr> else s)
         else if suspend \<noteq> 0 then
           map_option (Pair (Inr (suspend \<noteq> -1)))
             (queue_append_tail w (upd_waiter w (\<lambda>_. \<lparr>ew_requested_events = bitmask, ew_actual_events = 0,
                ew_op = op, ew_return_status = VCOS_EAGAIN, ew_thread = thread, ew_next = None\<rparr>) s))
         else Some (Inl (rc, 0), s))"

text \<open>The rest of the call, once the thread's semaphore was posted: \<open>None\<close> while it sleeps.\<close>

definition event_flags_get_wakeup :: "nat \<Rightarrow> addr \<Rightarrow> event_flags \<Rightarrow> ((vcos_status \<times> u32) \<times> event_flags) option" where
  "event_flags_get_wakeup thread w s =
     map_option (\<lambda>n. ((ew_return_status (ev_waiter s w), ew_actual_events (ev_waiter s w)),
                       s\<lparr>ev_sem := (ev_sem s)(thread := n)\<rparr>))
       (sem_wait (ev_sem s thread))"

text \<open>The search loop of \<open>event_flags_timer_expired\<close>; the result says whether the waiter was found.\<close>

partial_function (option) timer_loop ::
  "addr \<Rightarrow> slot \<Rightarrow> ptr \<Rightarrow> event_flags \<Rightarrow> (nat option \<times> event_flags) option" where
  "timer_loop waitreq slot prev s =
     (case read_ev_slot slot s of
        None \<Rightarrow> Some (None, s)
      | Some cur \<Rightarrow>
          if cur = waitreq then
            let w = ev_waiter s cur;
                s1 = write_ev_slot slot (ew_next w) s
            in Some (Some (ew_thread w), if ew_next w = None then s1\<lparr>ev_tail := prev\<rparr> else s1)
          else timer_loop waitreq (SlotNext cur) (Some cur) s)"

text \<open>The source unlocks between taking the waiter out and posting its thread's semaphore; here both are one step.
  Until its semaphore is posted the thread only sleeps on; the semaphore is its own, and the waiter is out of the queue
  already, so that a \<open>set\<close> in between neither finds it nor posts it.\<close>

definition event_flags_timer_expired :: "addr \<Rightarrow> event_flags \<Rightarrow> event_flags option" where
  "event_flags_timer_expired waitreq s =
     map_option (\<lambda>(thread, s'). case thread of None \<Rightarrow> s' | Some t \<Rightarrow> thread_sem_post t s')
       (timer_loop waitreq SlotFirst None s)"

section \<open>The queue of waiters\<close>

definition ew_nexts :: "event_flags \<Rightarrow> addr \<Rightarrow> ptr" where
  "ew_nexts s a = ew_next (ev_waiter s a)"

lemma ew_nexts_simps [simp]:
  "ew_nexts (s\<lparr>ev_head := p\<rparr>) = ew_nexts s" "ew_nexts (s\<lparr>ev_tail := p\<rparr>) = ew_nexts s"
  "ew_nexts (s\<lparr>ev_events := e\<rparr>) = ew_nexts s" "ew_nexts (thread_sem_post t s) = ew_nexts s"
  "ew_nexts (upd_waiter b (\<lambda>w. w\<lparr>ew_next := p\<rparr>) s) = (ew_nexts s)(b := p)"
  by (auto simp: ew_nexts_def)

definition last_ptr :: "addr list \<Rightarrow> ptr" where
  "last_ptr xs = (if xs = [] then None else Some (last xs))"

definition last_slot :: "addr list \<Rightarrow> slot" where
  "last_slot xs = (if xs = [] then SlotFirst else SlotNext (last xs))"

definition waiters :: "event_flags \<Rightarrow> addr list \<Rightarrow> bool" where
  "waiters s xs \<longleftrightarrow> lpath (ew_nexts s) (ev_head s) xs None \<and> distinct xs \<and> ev_tail s = last_ptr xs"

lemma last_ptr_simps [simp]: "last_ptr [] = None" "last_ptr (xs @ [x]) = Some x"
  by (simp_all add: last_ptr_def)

lemma last_slot_simps [simp]: "last_slot [] = SlotFirst" "last_slot (xs @ [x]) = SlotNext x"
  by (simp_all add: last_slot_def)

lemma waiters_read_slot:
  assumes "waiters s (ks @ ws)"
  shows "read_ev_slot (last_slot ks) s = (case ws of [] \<Rightarrow> None | w # _ \<Rightarrow> Some w)"
  using assms by (cases ks rule: rev_cases; cases ws) (auto simp: waiters_def ew_nexts_def)

text \<open>Unlinking the waiter behind \<open>ks\<close>, as both walks do.\<close>

definition unlink :: "addr list \<Rightarrow> addr \<Rightarrow> event_flags \<Rightarrow> event_flags" where
  "unlink ks w s =
     (let s1 = write_ev_slot (last_slot ks) (ew_next (ev_waiter s w)) s
      in if ew_next (ev_waiter s w) = None then s1\<lparr>ev_tail := last_ptr ks\<rparr> else s1)"

lemma unlink_simps [simp]:
  "ev_events (unlink ks w s) = ev_events s" "ev_sem (unlink ks w s) = ev_sem s"
  "(ev_waiter (unlink ks w s) a)\<lparr>ew_next := p\<rparr> = (ev_waiter s a)\<lparr>ew_next := p\<rparr>"
  by (cases ks rule: rev_cases; simp add: unlink_def Let_def)+

lemma waiters_unlink:
  assumes "waiters s (ks @ w # ws)"
  shows "waiters (unlink ks w s) (ks @ ws)"
proof (cases ks rule: rev_cases)
  case Nil
  with assms show ?thesis
    by (cases ws) (auto simp: waiters_def unlink_def last_ptr_def Let_def simp flip: ew_nexts_def)
next
  case (snoc ls l)
  with assms show ?thesis
    by (cases ws) (auto simp: waiters_def unlink_def last_ptr_def Let_def simp flip: ew_nexts_def)
qed

lemma waiters_cong:
  assumes "waiters s xs" and "ev_head s' = ev_head s" and "ev_tail s' = ev_tail s"
    and "\<And>a. a \<in> set xs \<Longrightarrow> ew_next (ev_waiter s' a) = ew_next (ev_waiter s a)"
  shows "waiters s' xs"
proof -
  have "lpath (ew_nexts s') (ev_head s) xs None = lpath (ew_nexts s) (ev_head s) xs None"
    by (rule lpath_cong) (simp add: ew_nexts_def assms(4))
  with assms show ?thesis by (simp add: waiters_def)
qed

lemma waiters_head: "waiters s xs \<Longrightarrow> ev_head s = None \<longleftrightarrow> xs = []"
  by (cases xs) (auto simp: waiters_def)

lemma waiters_append:
  assumes "waiters s xs" and "w \<notin> set xs"
  shows "\<exists>s'. queue_append_tail w s = Some s' \<and> waiters s' (xs @ [w])
    \<and> ev_events s' = ev_events s \<and> ev_sem s' = ev_sem s
    \<and> (\<forall>a. (ev_waiter s' a)\<lparr>ew_next := None\<rparr> = (ev_waiter s a)\<lparr>ew_next := None\<rparr>)"
proof (cases xs rule: rev_cases)
  case Nil
  with assms show ?thesis by (simp add: queue_append_tail_def Let_def waiters_def last_ptr_def)
next
  case (snoc ys y)
  have "ev_head s \<noteq> None" using waiters_head [OF assms(1)] snoc by simp
  moreover have t: "ev_tail s = Some y" using assms(1) snoc by (simp add: waiters_def)
  ultimately have q: "queue_append_tail w s = Some ((upd_waiter y (\<lambda>x. x\<lparr>ew_next := Some w\<rparr>)
      (upd_waiter w (\<lambda>x. x\<lparr>ew_next := None\<rparr>) s))\<lparr>ev_tail := Some w\<rparr>)" (is "_ = Some ?s'")
    by (auto simp: queue_append_tail_def Let_def)
  have "y \<noteq> w" using assms(2) snoc by auto
  moreover have "lpath ((ew_nexts s)(y := Some w, w := None)) (ev_head s) (xs @ [w]) None"
    using lpath_snoc [of "ew_nexts s" "ev_head s" xs w] assms snoc by (simp add: waiters_def)
  ultimately have "waiters ?s' (xs @ [w])"
    using assms by (simp add: waiters_def fun_upd_twist)
  moreover have "(ev_waiter ?s' a)\<lparr>ew_next := None\<rparr> = (ev_waiter s a)\<lparr>ew_next := None\<rparr>" for a by simp
  ultimately show ?thesis using q by simp
qed

section \<open>Setting flags\<close>

definition body :: "event_waiter \<Rightarrow> event_waiter" where
  "body w = w\<lparr>ew_next := None\<rparr>"

text \<open>The effect of \<open>set\<close> on one waiter.\<close>

definition wake_waiter :: "u32 \<Rightarrow> event_waiter \<Rightarrow> event_waiter" where
  "wake_waiter e w = (if waiter_satisfied e w
     then w\<lparr>ew_return_status := VCOS_SUCCESS, ew_actual_events := e\<rparr> else w)"

definition consumed_by :: "u32 \<Rightarrow> event_waiter \<Rightarrow> u32 \<Rightarrow> u32" where
  "consumed_by e w c = (if waiter_satisfied e w \<and> ew_op w AND VCOS_CONSUME \<noteq> 0
     then c OR ew_requested_events w else c)"

lemma unsatisfied [simp]:
  "\<not> waiter_satisfied e w \<Longrightarrow> wake_waiter e w = w" "\<not> waiter_satisfied e w \<Longrightarrow> consumed_by e w c = c"
  by (simp_all add: wake_waiter_def consumed_by_def)

lemma body_simps [simp]:
  "ew_requested_events (body w) = ew_requested_events w" "ew_op (body w) = ew_op w"
  "ew_thread (body w) = ew_thread w" "ew_return_status (body w) = ew_return_status w"
  "ew_actual_events (body w) = ew_actual_events w"
  "body (w\<lparr>ew_next := p\<rparr>) = body w" "waiter_satisfied e (body w) = waiter_satisfied e w"
  "wake_waiter e (body w) = body (wake_waiter e w)" "consumed_by e (body w) = consumed_by e w"
  by (auto simp: body_def waiter_satisfied_def wake_waiter_def consumed_by_def)

lemma body_fields:
  assumes "body w = body w'"
  shows "waiter_satisfied e w = waiter_satisfied e w'" and "ew_thread w = ew_thread w'"
    and "consumed_by e w = consumed_by e w'" and "body (wake_waiter e w) = body (wake_waiter e w')"
    and "ew_return_status w = ew_return_status w'" and "ew_actual_events w = ew_actual_events w'"
  using assms body_simps by metis+

lemma body_update:
  "body w = body w' \<Longrightarrow> body (w\<lparr>ew_return_status := st, ew_actual_events := e\<rparr>)
    = body (w'\<lparr>ew_return_status := st, ew_actual_events := e\<rparr>)"
proof -
  have "body (w\<lparr>ew_return_status := st, ew_actual_events := e\<rparr>)
      = (body w)\<lparr>ew_return_status := st, ew_actual_events := e\<rparr>" for w
    by (simp add: body_def)
  then show "body w = body w' \<Longrightarrow> ?thesis" by simp
qed

lemma body_unlink [simp]: "body (ev_waiter (unlink ks w s) a) = body (ev_waiter s a)"
  by (simp add: body_def)

lemma set_loop_spec:
  "waiters s (ks @ ws) \<Longrightarrow> e = ev_events s \<Longrightarrow>
   \<exists>s'. set_loop (last_slot ks) (last_ptr ks) c s
       = Some (fold (\<lambda>w. consumed_by e (ev_waiter s w)) ws c, s')
     \<and> waiters s' (ks @ filter (\<lambda>w. \<not> waiter_satisfied e (ev_waiter s w)) ws) \<and> ev_events s' = e
     \<and> (\<forall>t. ev_sem s' t = ev_sem s t
          + length (filter (\<lambda>w. waiter_satisfied e (ev_waiter s w) \<and> ew_thread (ev_waiter s w) = t) ws))
     \<and> (\<forall>a. body (ev_waiter s' a) = body (if a \<in> set ws then wake_waiter e (ev_waiter s a) else ev_waiter s a))"
proof (induction ws arbitrary: ks c s)
  case Nil
  have "read_ev_slot (last_slot ks) s = None" using waiters_read_slot [of s ks "[]"] Nil by simp
  then show ?case using Nil by (subst set_loop.simps) simp
next
  case (Cons w ws)
  have r: "read_ev_slot (last_slot ks) s = Some w" using waiters_read_slot [OF Cons.prems(1)] by simp
  have dis: "w \<notin> set ws" "w \<notin> set ks" using Cons.prems(1) by (auto simp: waiters_def)
  show ?case
  proof (cases "waiter_satisfied e (ev_waiter s w)")
    case False
    have "waiters s ((ks @ [w]) @ ws)" using Cons.prems(1) by simp
    from Cons.IH [OF this Cons.prems(2), of c] show ?thesis
      using False r Cons.prems(2)
      by (subst set_loop.simps) auto
  next
    case True
    let ?s2 = "unlink ks w s"
    let ?s3 = "upd_waiter w (\<lambda>x. x\<lparr>ew_return_status := VCOS_SUCCESS, ew_actual_events := ev_events ?s2\<rparr>) ?s2"
    define s4 where "s4 = thread_sem_post (ew_thread (ev_waiter s w)) ?s3"
    have th: "ew_thread (ev_waiter ?s2 w) = ew_thread (ev_waiter s w)"
      by (rule body_fields(2)) simp
    have step: "set_loop (last_slot ks) (last_ptr ks) c s
        = set_loop (last_slot ks) (last_ptr ks) (consumed_by e (ev_waiter s w) c) s4"
      using r True Cons.prems(2) th
      by (subst set_loop.simps) (simp add: Let_def consumed_by_def unlink_def s4_def)
    have "waiters s4 (ks @ ws)"
      by (rule waiters_cong [OF waiters_unlink [OF Cons.prems(1)]]) (auto simp: s4_def)
    moreover have b4: "body (ev_waiter s4 a) = body (if a = w then wake_waiter e (ev_waiter s w) else ev_waiter s a)" for a
      using True Cons.prems(2) body_update [OF body_unlink [of ks w s w]]
      by (simp add: wake_waiter_def s4_def)
    moreover have e4: "e = ev_events s4" using Cons.prems(2) by (simp add: s4_def)
    ultimately obtain s' where s': "set_loop (last_slot ks) (last_ptr ks) (consumed_by e (ev_waiter s w) c) s4
         = Some (fold (\<lambda>w. consumed_by e (ev_waiter s4 w)) ws (consumed_by e (ev_waiter s w) c), s')"
      "waiters s' (ks @ filter (\<lambda>w. \<not> waiter_satisfied e (ev_waiter s4 w)) ws)" "ev_events s' = e"
      "\<forall>t. ev_sem s' t = ev_sem s4 t
          + length (filter (\<lambda>w. waiter_satisfied e (ev_waiter s4 w) \<and> ew_thread (ev_waiter s4 w) = t) ws)"
      "\<forall>a. body (ev_waiter s' a) = body (if a \<in> set ws then wake_waiter e (ev_waiter s4 a) else ev_waiter s4 a)"
      using Cons.IH [of s4 ks] by blast
    have same: "body (ev_waiter s4 a) = body (ev_waiter s a)" if "a \<in> set ws" for a
      using b4 [of a] that dis by auto
    note F = body_fields [OF same]
    have 1: "fold (\<lambda>w. consumed_by e (ev_waiter s4 w)) ws x = fold (\<lambda>w. consumed_by e (ev_waiter s w)) ws x" for x
      by (rule fold_cong) (use F(3) in auto)
    have 2: "filter (\<lambda>w. \<not> waiter_satisfied e (ev_waiter s4 w)) ws = filter (\<lambda>w. \<not> waiter_satisfied e (ev_waiter s w)) ws"
      by (rule filter_cong) (use F(1) in auto)
    have 3: "filter (\<lambda>w. waiter_satisfied e (ev_waiter s4 w) \<and> ew_thread (ev_waiter s4 w) = t) ws
        = filter (\<lambda>w. waiter_satisfied e (ev_waiter s w) \<and> ew_thread (ev_waiter s w) = t) ws" for t
      by (rule filter_cong) (use F(1,2) in auto)
    have sem: "ev_sem s' t = ev_sem s t + length (filter (\<lambda>x. waiter_satisfied e (ev_waiter s x)
        \<and> ew_thread (ev_waiter s x) = t) (w # ws))" for t
      using s'(4) True unfolding 3 by (simp add: s4_def)
    have bod: "body (ev_waiter s' a) = body (if a \<in> set (w # ws) then wake_waiter e (ev_waiter s a) else ev_waiter s a)" for a
      using s'(5) b4 [of a] F(4) [of a] dis by auto
    show ?thesis
      unfolding step s'(1) using s'(2,3) sem bod True by (simp add: 1 2)
  qed
qed

definition flags_after :: "u32 \<Rightarrow> u32 \<Rightarrow> u32 \<Rightarrow> u32" where
  "flags_after bitmask op e =
     (if op = VCOS_OR then e OR bitmask else if op = VCOS_AND then e AND bitmask else e)"

lemma waiters_Nil: "waiters s [] \<longleftrightarrow> ev_head s = None \<and> ev_tail s = None"
  by (simp add: waiters_def)

text \<open>\<open>set\<close>: the satisfied waiters are woken, each once, with the flags as they were before any of
  them consumed; the others stay in order; then the consumed flags are cleared.\<close>

lemma set_spec:
  assumes "waiters s ws" and e: "e = flags_after bitmask op (ev_events s)"
  shows "\<exists>s'. vcos_generic_event_flags_set bitmask op s = Some s'
    \<and> waiters s' (filter (\<lambda>w. \<not> waiter_satisfied e (ev_waiter s w)) ws)
    \<and> ev_events s' = e AND NOT (fold (\<lambda>w. consumed_by e (ev_waiter s w)) ws 0)
    \<and> (\<forall>t. ev_sem s' t = ev_sem s t
         + length (filter (\<lambda>w. waiter_satisfied e (ev_waiter s w) \<and> ew_thread (ev_waiter s w) = t) ws))
    \<and> (\<forall>a. body (ev_waiter s' a) = body (if a \<in> set ws then wake_waiter e (ev_waiter s a) else ev_waiter s a))"
proof -
  let ?s1 = "s\<lparr>ev_events := e\<rparr>"
  have s1: "(if op = VCOS_OR then s\<lparr>ev_events := ev_events s OR bitmask\<rparr>
      else if op = VCOS_AND then s\<lparr>ev_events := ev_events s AND bitmask\<rparr> else s) = ?s1"
    by (simp add: e flags_after_def)
  have w1: "waiters ?s1 ([] @ ws)"
    using waiters_cong [OF assms(1), of ?s1] by simp
  show ?thesis
  proof (cases "ws = []")
    case True
    then have "ev_head s = None" using assms(1) by (simp add: waiters_Nil)
    then have "vcos_generic_event_flags_set bitmask op s = Some ?s1"
      unfolding vcos_generic_event_flags_set_def Let_def s1 by simp
    then show ?thesis using True w1 by (intro exI [of _ ?s1]) simp
  next
    case False
    then have h: "ev_head s \<noteq> None" using waiters_head [OF assms(1)] by simp
    have e1: "e = ev_events ?s1" by simp
    have same: "ev_waiter ?s1 = ev_waiter s" "ev_sem ?s1 = ev_sem s" by simp_all
    from set_loop_spec [OF w1 e1, of 0, unfolded append_Nil last_slot_simps last_ptr_simps same] obtain s' where
      s': "set_loop SlotFirst None 0 ?s1 = Some (fold (\<lambda>w. consumed_by e (ev_waiter s w)) ws 0, s')"
      "waiters s' (filter (\<lambda>w. \<not> waiter_satisfied e (ev_waiter s w)) ws)" "ev_events s' = e"
      "\<forall>t. ev_sem s' t = ev_sem s t
          + length (filter (\<lambda>w. waiter_satisfied e (ev_waiter s w) \<and> ew_thread (ev_waiter s w) = t) ws)"
      "\<forall>a. body (ev_waiter s' a) = body (if a \<in> set ws then wake_waiter e (ev_waiter s a) else ev_waiter s a)"
      by blast
    let ?c = "fold (\<lambda>w. consumed_by e (ev_waiter s w)) ws 0"
    have "vcos_generic_event_flags_set bitmask op s = Some (s'\<lparr>ev_events := ev_events s' AND NOT ?c\<rparr>)"
      unfolding vcos_generic_event_flags_set_def Let_def s1 using h s'(1) by auto
    moreover have "waiters (s'\<lparr>ev_events := ev_events s' AND NOT ?c\<rparr>)
        (filter (\<lambda>w. \<not> waiter_satisfied e (ev_waiter s w)) ws)"
      by (rule waiters_cong [OF s'(2)]) simp_all
    ultimately show ?thesis using s' by simp
  qed
qed

section \<open>Timeouts\<close>

lemma timer_loop_spec:
  "waiters s (ks @ ws) \<Longrightarrow> w \<notin> set ks \<Longrightarrow>
   timer_loop w (last_slot ks) (last_ptr ks) s =
     (if w \<in> set ws then Some (Some (ew_thread (ev_waiter s w)), unlink (ks @ takeWhile (\<lambda>x. x \<noteq> w) ws) w s)
      else Some (None, s))"
proof (induction ws arbitrary: ks)
  case Nil
  have "read_ev_slot (last_slot ks) s = None" using waiters_read_slot [of s ks "[]"] Nil by simp
  then show ?case by (subst timer_loop.simps) simp
next
  case (Cons x ws)
  have r: "read_ev_slot (last_slot ks) s = Some x" using waiters_read_slot [OF Cons.prems(1)] by simp
  show ?case
  proof (cases "x = w")
    case True
    then show ?thesis using r by (subst timer_loop.simps) (simp add: Let_def unlink_def)
  next
    case False
    have "waiters s ((ks @ [x]) @ ws)" using Cons.prems(1) by simp
    from Cons.IH [OF this] False Cons.prems(2) r show ?thesis
      by (subst timer_loop.simps) auto
  qed
qed

lemma timer_spec:
  assumes "waiters s ws"
  shows "w \<notin> set ws \<Longrightarrow> event_flags_timer_expired w s = Some s"
    and "w \<in> set ws \<Longrightarrow> \<exists>s'. event_flags_timer_expired w s = Some (thread_sem_post (ew_thread (ev_waiter s w)) s')
      \<and> waiters s' (filter (\<lambda>x. x \<noteq> w) ws) \<and> ev_events s' = ev_events s \<and> ev_sem s' = ev_sem s
      \<and> (\<forall>a. body (ev_waiter s' a) = body (ev_waiter s a))"
proof -
  have l: "timer_loop w SlotFirst None s = (if w \<in> set ws
      then Some (Some (ew_thread (ev_waiter s w)), unlink (takeWhile (\<lambda>x. x \<noteq> w) ws) w s) else Some (None, s))"
    using timer_loop_spec [of s "[]" ws w] assms by simp
  then show "w \<notin> set ws \<Longrightarrow> event_flags_timer_expired w s = Some s"
    by (simp add: event_flags_timer_expired_def)
  assume w: "w \<in> set ws"
  then obtain ks rs where ws: "ws = ks @ w # rs" "w \<notin> set ks" by (meson split_list_first)
  have "w \<notin> set rs" using assms ws by (auto simp: waiters_def)
  then have f: "filter (\<lambda>x. x \<noteq> w) ws = ks @ rs" "takeWhile (\<lambda>x. x \<noteq> w) ws = ks"
  proof -
    have "filter (\<lambda>x. x \<noteq> w) ks = ks" "filter (\<lambda>x. x \<noteq> w) rs = rs"
      using \<open>w \<notin> set rs\<close> ws(2) by (auto intro!: filter_True)
    then show "filter (\<lambda>x. x \<noteq> w) ws = ks @ rs" by (simp add: ws(1))
    have "\<forall>x \<in> set ks. x \<noteq> w" using ws(2) by auto
    then show "takeWhile (\<lambda>x. x \<noteq> w) ws = ks" by (simp add: ws(1) takeWhile_append2)
  qed
  have "waiters (unlink ks w s) (ks @ rs)" using assms ws(1) waiters_unlink by blast
  with l w f show "\<exists>s'. event_flags_timer_expired w s = Some (thread_sem_post (ew_thread (ev_waiter s w)) s')
      \<and> waiters s' (filter (\<lambda>x. x \<noteq> w) ws) \<and> ev_events s' = ev_events s \<and> ev_sem s' = ev_sem s
      \<and> (\<forall>a. body (ev_waiter s' a) = body (ev_waiter s a))"
    by (intro exI [of _ "unlink ks w s"]) (simp add: event_flags_timer_expired_def)
qed

section \<open>Threads\<close>

text \<open>
  The callers: \<open>b t\<close> is the waiter structure of thread \<open>t\<close> while it is inside
  \<open>get\<close>. A thread calls \<open>get\<close> with the operation and or or (consuming or not).
\<close>

type_synonym ev_sys = "event_flags \<times> (nat \<Rightarrow> addr option)"

inductive ev_step :: "ev_sys \<Rightarrow> ev_sys \<Rightarrow> bool" where
  ev_set: "vcos_generic_event_flags_set bitmask op s = Some s' \<Longrightarrow> ev_step (s, b) (s', b)"
| ev_get: "b t = None \<Longrightarrow> vcos_generic_event_flags_get t w bitmask op suspend s = Some (Inl r, s') \<Longrightarrow>
    ev_step (s, b) (s', b)"
| ev_sleep: "b t = None \<Longrightarrow> w \<notin> ran b \<Longrightarrow> op AND VCOS_EVENT_FLAG_OP_MASK \<in> {VCOS_AND, VCOS_OR} \<Longrightarrow>
    vcos_generic_event_flags_get t w bitmask op suspend s = Some (Inr timer, s') \<Longrightarrow>
    ev_step (s, b) (s', b(t \<mapsto> w))"
| ev_timeout: "b t = Some w \<Longrightarrow> event_flags_timer_expired w s = Some s' \<Longrightarrow> ev_step (s, b) (s', b)"
| ev_wakeup: "b t = Some w \<Longrightarrow> event_flags_get_wakeup t w s = Some (r, s') \<Longrightarrow>
    ev_step (s, b) (s', b(t := None))"

inductive_cases ev_stepE: "ev_step st st'"

text \<open>
  A sleeping thread is queued exactly as long as its semaphore has not been posted, and no queued
  waiter is satisfied by the flags.
\<close>

definition ev_ok :: "event_flags \<Rightarrow> (nat \<Rightarrow> addr option) \<Rightarrow> addr list \<Rightarrow> bool" where
  "ev_ok s b ws \<longleftrightarrow> waiters s ws
     \<and> (\<forall>t w. b t = Some w \<longrightarrow> ew_thread (ev_waiter s w) = t)
     \<and> (\<forall>t w. b t = Some w \<longrightarrow> ev_sem s t = (if w \<in> set ws then 0 else 1))
     \<and> (\<forall>t. b t = None \<longrightarrow> ev_sem s t = 0)
     \<and> (\<forall>w \<in> set ws. \<exists>t. b t = Some w)
     \<and> (\<forall>w \<in> set ws. \<not> waiter_satisfied (ev_events s) (ev_waiter s w))"

definition ev_inv :: "ev_sys \<Rightarrow> bool" where
  "ev_inv st \<longleftrightarrow> (\<exists>ws. ev_ok (fst st) (snd st) ws)"

lemma ev_okD:
  assumes "ev_ok s b ws"
  shows "waiters s ws" and "\<And>t w. b t = Some w \<Longrightarrow> ew_thread (ev_waiter s w) = t"
    and "\<And>t w. b t = Some w \<Longrightarrow> ev_sem s t = (if w \<in> set ws then 0 else 1)"
    and "\<And>t. b t = None \<Longrightarrow> ev_sem s t = 0" and "\<And>w. w \<in> set ws \<Longrightarrow> \<exists>t. b t = Some w"
    and "\<And>w. w \<in> set ws \<Longrightarrow> \<not> waiter_satisfied (ev_events s) (ev_waiter s w)"
  using assms unfolding ev_ok_def by blast+

lemma ev_okI:
  assumes "waiters s ws" and "\<And>t w. b t = Some w \<Longrightarrow> ew_thread (ev_waiter s w) = t"
    and "\<And>t w. b t = Some w \<Longrightarrow> ev_sem s t = (if w \<in> set ws then 0 else 1)"
    and "\<And>t. b t = None \<Longrightarrow> ev_sem s t = 0" and "\<And>w. w \<in> set ws \<Longrightarrow> \<exists>t. b t = Some w"
    and "\<And>w. w \<in> set ws \<Longrightarrow> \<not> waiter_satisfied (ev_events s) (ev_waiter s w)"
  shows "ev_ok s b ws"
  using assms unfolding ev_ok_def by blast

text \<open>Clearing flags satisfies nobody.\<close>

lemma unsatisfied_clear: "\<not> waiter_satisfied e w \<Longrightarrow> \<not> waiter_satisfied (e AND m) w"
proof -
  have 1: "(e AND m) AND r = r \<Longrightarrow> e AND r = r" and 2: "e AND r = 0 \<Longrightarrow> (e AND m) AND r = 0" for r :: u32
    by (auto simp: bit_eq_iff bit_and_iff)
  show "\<not> waiter_satisfied e w \<Longrightarrow> \<not> waiter_satisfied (e AND m) w"
    using 1 [of "ew_requested_events w"] 2 [of "ew_requested_events w"]
    unfolding waiter_satisfied_def Let_def by (simp only: split: if_split_asm if_split) blast+
qed

lemma ev_ok_set:
  assumes ok: "ev_ok s b ws" and st: "vcos_generic_event_flags_set bitmask op s = Some s'"
  shows "ev_ok s' b (filter (\<lambda>w. \<not> waiter_satisfied (flags_after bitmask op (ev_events s)) (ev_waiter s w)) ws)"
proof -
  note I = ev_okD [OF ok]
  let ?e = "flags_after bitmask op (ev_events s)"
  let ?sat = "\<lambda>w. waiter_satisfied ?e (ev_waiter s w)"
  have S: "waiters s' (filter (\<lambda>w. \<not> ?sat w) ws)"
    "ev_events s' = ?e AND NOT (fold (\<lambda>w. consumed_by ?e (ev_waiter s w)) ws 0)"
    "\<And>t. ev_sem s' t = ev_sem s t + length (filter (\<lambda>w. ?sat w \<and> ew_thread (ev_waiter s w) = t) ws)"
    "\<And>a. body (ev_waiter s' a) = body (if a \<in> set ws then wake_waiter ?e (ev_waiter s a) else ev_waiter s a)"
    using set_spec [OF I(1) refl, of bitmask op] st by auto
  have th: "ew_thread (ev_waiter s' a) = ew_thread (ev_waiter s a)" for a
    using body_fields(2) [OF S(4) [of a]] by (simp add: wake_waiter_def split: if_splits)
  have d: "distinct ws" using I(1) by (simp add: waiters_def)
  have cnt: "length (filter (\<lambda>w. ?sat w \<and> ew_thread (ev_waiter s w) = t) ws)
      = (if w \<in> set ws \<and> ?sat w then 1 else 0)" if t: "b t = Some w" for t w
  proof -
    have "ew_thread (ev_waiter s x) = t \<longleftrightarrow> x = w" if x: "x \<in> set ws" for x
    proof -
      obtain u where u: "b u = Some x" using I(5) [OF x] by blast
      show ?thesis using I(2) [OF u] I(2) [OF t] u t by (metis option.inject)
    qed
    then have "filter (\<lambda>w. ?sat w \<and> ew_thread (ev_waiter s w) = t) ws = filter (\<lambda>x. ?sat x \<and> x = w) ws"
      by (intro filter_cong) auto
    moreover have "length (filter (\<lambda>x. ?sat x \<and> x = w) ws) = card {x \<in> set ws. ?sat x \<and> x = w}"
      using distinct_card [OF distinct_filter [OF d], of "\<lambda>x. ?sat x \<and> x = w"] by simp
    moreover have "{x \<in> set ws. ?sat x \<and> x = w} = (if w \<in> set ws \<and> ?sat w then {w} else {})" by auto
    ultimately show ?thesis by simp
  qed
  have cnt0: "filter (\<lambda>w. ?sat w \<and> ew_thread (ev_waiter s w) = t) ws = []" if t: "b t = None" for t
  proof -
    have "ew_thread (ev_waiter s x) \<noteq> t" if x: "x \<in> set ws" for x
    proof -
      obtain u where u: "b u = Some x" using I(5) [OF x] by blast
      show ?thesis using I(2) [OF u] u t by (metis option.distinct(1))
    qed
    then show ?thesis by (simp add: filter_empty_conv)
  qed
  show ?thesis
  proof (rule ev_okI [OF S(1)])
    show "ew_thread (ev_waiter s' w) = t" if "b t = Some w" for t w using th I(2) [OF that] by simp
    show "ev_sem s' t = (if w \<in> set (filter (\<lambda>w. \<not> ?sat w) ws) then 0 else 1)" if "b t = Some w" for t w
      using S(3) [of t] cnt [OF that] I(3) [OF that] by (auto split: if_splits)
    show "ev_sem s' t = 0" if "b t = None" for t using S(3) [of t] cnt0 [OF that] I(4) [OF that] by simp
    show "\<exists>t. b t = Some w" if "w \<in> set (filter (\<lambda>w. \<not> ?sat w) ws)" for w using I(5) that by simp
    show "\<not> waiter_satisfied (ev_events s') (ev_waiter s' w)" if w: "w \<in> set (filter (\<lambda>w. \<not> ?sat w) ws)" for w
    proof -
      have "\<not> ?sat w" "w \<in> set ws" using w by auto
      then have "body (ev_waiter s' w) = body (ev_waiter s w)" using S(4) [of w] by simp
      from body_fields(1) [OF this] show ?thesis
        unfolding S(2) using unsatisfied_clear [OF \<open>\<not> ?sat w\<close>] by blast
    qed
  qed
qed

lemma op_bits:
  fixes op :: u32
  shows "op AND VCOS_EVENT_FLAG_OP_MASK = VCOS_AND \<Longrightarrow> op AND VCOS_AND \<noteq> 0"
    and "op AND VCOS_EVENT_FLAG_OP_MASK = VCOS_OR \<Longrightarrow> op AND VCOS_AND = 0"
proof -
  have "op AND VCOS_AND = (op AND VCOS_EVENT_FLAG_OP_MASK) AND VCOS_AND"
    by (simp add: VCOS_AND_def VCOS_OR_def VCOS_EVENT_FLAG_OP_MASK_def and.assoc)
  then show "op AND VCOS_EVENT_FLAG_OP_MASK = VCOS_AND \<Longrightarrow> op AND VCOS_AND \<noteq> 0"
    and "op AND VCOS_EVENT_FLAG_OP_MASK = VCOS_OR \<Longrightarrow> op AND VCOS_AND = 0"
    by (simp_all add: VCOS_AND_def VCOS_OR_def)
qed

lemma ev_ok_clear:
  "ev_ok s b ws \<Longrightarrow> ev_ok (s\<lparr>ev_events := ev_events s AND m\<rparr>) b ws"
  unfolding ev_ok_def using unsatisfied_clear waiters_cong [of s ws "s\<lparr>ev_events := ev_events s AND m\<rparr>"] by simp

lemma ev_ok_get:
  assumes ok: "ev_ok s b ws" and g: "vcos_generic_event_flags_get t w bitmask op suspend s = Some (Inl r, s')"
  shows "ev_ok s' b ws"
proof -
  from g have "s' = s \<or> s' = s\<lparr>ev_events := ev_events s AND NOT bitmask\<rparr>"
    by (auto simp: vcos_generic_event_flags_get_def Let_def split: if_splits)
  then show ?thesis using ok ev_ok_clear [OF ok] by blast
qed

lemma ev_ok_sleep:
  assumes ok: "ev_ok s b ws" and t: "b t = None" and w: "w \<notin> ran b"
    and op: "op AND VCOS_EVENT_FLAG_OP_MASK \<in> {VCOS_AND, VCOS_OR}"
    and g: "vcos_generic_event_flags_get t w bitmask op suspend s = Some (Inr timer, s')"
  shows "ev_ok s' (b(t \<mapsto> w)) (ws @ [w])"
proof -
  note I = ev_okD [OF ok]
  let ?new = "\<lparr>ew_requested_events = bitmask, ew_actual_events = 0, ew_op = op,
    ew_return_status = VCOS_EAGAIN, ew_thread = t, ew_next = None\<rparr>"
  let ?s1 = "upd_waiter w (\<lambda>_. ?new) s"
  have nw: "w \<notin> set ws" using I(5) w by (meson ranI)
  have w1: "waiters ?s1 ws" by (rule waiters_cong [OF I(1)]) (use nw in auto)
  from g have q: "queue_append_tail w ?s1 = Some s'"
    and uns: "op AND VCOS_EVENT_FLAG_OP_MASK = VCOS_AND \<Longrightarrow> ev_events s AND bitmask \<noteq> bitmask"
      "op AND VCOS_EVENT_FLAG_OP_MASK = VCOS_OR \<Longrightarrow> ev_events s AND bitmask = 0"
    by (auto simp: vcos_generic_event_flags_get_def Let_def VCOS_AND_def VCOS_OR_def split: if_splits)
  have s': "waiters s' (ws @ [w])" "ev_events s' = ev_events s" "ev_sem s' = ev_sem s"
    "\<And>a. body (ev_waiter s' a) = body (if a = w then ?new else ev_waiter s a)"
    using waiters_append [OF w1 nw] q by (auto simp: body_def)
  note B = body_fields [OF s'(4)]
  have bw: "b u \<noteq> Some w" for u using w by (meson ranI)
  show ?thesis
  proof (rule ev_okI [OF s'(1)])
    show "ew_thread (ev_waiter s' x) = u" if "(b(t \<mapsto> w)) u = Some x" for u x
      using that I(2) [of u x] bw [of u] B(2) [of x] by (auto split: if_splits)
    show "ev_sem s' u = (if x \<in> set (ws @ [w]) then 0 else 1)" if "(b(t \<mapsto> w)) u = Some x" for u x
      using that I(3) [of u x] I(4) [OF t] bw [of u] s'(3) by (auto split: if_splits)
    show "ev_sem s' u = 0" if "(b(t \<mapsto> w)) u = None" for u
      using that I(4) s'(3) by (auto split: if_splits)
    show "\<exists>u. (b(t \<mapsto> w)) u = Some x" if x: "x \<in> set (ws @ [w])" for x
    proof (cases "x = w")
      case False
      then obtain u where "b u = Some x" using x I(5) by auto
      then have "(b(t \<mapsto> w)) u = Some x" using t by auto
      then show ?thesis by blast
    qed auto
    show "\<not> waiter_satisfied (ev_events s') (ev_waiter s' x)" if x: "x \<in> set (ws @ [w])" for x
    proof (cases "x = w")
      case True
      have "\<not> waiter_satisfied (ev_events s) ?new"
        using uns op op_bits [of op] by (auto simp: waiter_satisfied_def Let_def)
      then show ?thesis using B(1) [of _ w] s'(2) True by simp
    next
      case False
      then show ?thesis using x I(6) [of x] B(1) [of _ x] s'(2) by simp
    qed
  qed
qed

lemma ev_ok_timeout:
  assumes ok: "ev_ok s b ws" and t: "b t = Some w" and e: "event_flags_timer_expired w s = Some s'"
  shows "ev_ok s' b (filter (\<lambda>x. x \<noteq> w) ws)"
proof -
  note I = ev_okD [OF ok]
  show ?thesis
  proof (cases "w \<in> set ws")
    case False
    then have "filter (\<lambda>x. x \<noteq> w) ws = ws" by (auto intro!: filter_True)
    then show ?thesis using timer_spec(1) [OF I(1) False] e ok by simp
  next
    case True
    then obtain s1 where s1: "s' = thread_sem_post t s1" "waiters s1 (filter (\<lambda>x. x \<noteq> w) ws)"
      "ev_events s1 = ev_events s" "ev_sem s1 = ev_sem s" "\<And>a. body (ev_waiter s1 a) = body (ev_waiter s a)"
      using timer_spec(2) [OF I(1) True] e I(2) [OF t] by auto
    note B = body_fields [OF s1(5)]
    have other: "x \<noteq> w" if "b u = Some x" "u \<noteq> t" for u x using I(2) [OF that(1)] I(2) [OF t] that(2) by auto
    show ?thesis
    proof (rule ev_okI)
      show "waiters s' (filter (\<lambda>x. x \<noteq> w) ws)"
        by (rule waiters_cong [OF s1(2)]) (simp_all add: s1(1))
      show "ew_thread (ev_waiter s' x) = u" if "b u = Some x" for u x
        using I(2) [OF that] B(2) by (simp add: s1(1))
      show "ev_sem s' u = (if x \<in> set (filter (\<lambda>x. x \<noteq> w) ws) then 0 else 1)" if "b u = Some x" for u x
        using I(3) [OF that] other [OF that] True t that by (auto simp: s1(1,4))
      show "ev_sem s' u = 0" if "b u = None" for u using I(4) [OF that] that t by (auto simp: s1(1,4))
    qed (use I(5,6) B(1) s1 in auto)
  qed
qed

lemma ev_ok_wakeup:
  assumes ok: "ev_ok s b ws" and t: "b t = Some w" and e: "event_flags_get_wakeup t w s = Some (r, s')"
  shows "ev_ok s' (b(t := None)) ws" and "w \<notin> set ws"
proof -
  note I = ev_okD [OF ok]
  from e obtain n where n: "ev_sem s t = Suc n" and s': "s' = s\<lparr>ev_sem := (ev_sem s)(t := n)\<rparr>"
    by (auto simp: event_flags_get_wakeup_def sem_wait_Some_iff)
  with I(3) [OF t] have 0: "n = 0" and w: "w \<notin> set ws" by (auto split: if_splits)
  then show "w \<notin> set ws" by blast
  show "ev_ok s' (b(t := None)) ws"
  proof (rule ev_okI)
    show "waiters s' ws" by (rule waiters_cong [OF I(1)]) (simp_all add: s')
    show "\<exists>u. (b(t := None)) u = Some x" if x: "x \<in> set ws" for x
    proof -
      obtain u where "b u = Some x" using I(5) [OF x] by blast
      moreover have "u \<noteq> t" using calculation t w x by auto
      ultimately show ?thesis by auto
    qed
  qed (use I 0 in \<open>auto simp: s' split: if_splits\<close>)
qed

lemma ev_inv_step:
  assumes "ev_step st st'" and "ev_inv st"
  shows "ev_inv st'"
proof -
  obtain ws where ok: "ev_ok (fst st) (snd st) ws" using assms(2) unfolding ev_inv_def by blast
  have "\<exists>ws'. ev_ok (fst st') (snd st') ws'"
    using assms(1)
  proof cases
    case (ev_set bitmask op s s' b)
    with ok have "ev_ok s b ws" by simp
    from ev_ok_set [OF this ev_set(3)] show ?thesis unfolding ev_set(2) by auto
  next
    case (ev_get b t w bitmask op suspend s r s')
    with ok have "ev_ok s b ws" by simp
    from ev_ok_get [OF this ev_get(4)] show ?thesis unfolding ev_get(2) by auto
  next
    case (ev_sleep b t w op bitmask suspend s timer s')
    with ok have "ev_ok s b ws" by simp
    from ev_ok_sleep [OF this ev_sleep(3-6)] show ?thesis unfolding ev_sleep(2) by auto
  next
    case (ev_timeout b t w s s')
    with ok have "ev_ok s b ws" by simp
    from ev_ok_timeout [OF this ev_timeout(3,4)] show ?thesis unfolding ev_timeout(2) by auto
  next
    case (ev_wakeup b t w s r s')
    with ok have "ev_ok s b ws" by simp
    from ev_ok_wakeup(1) [OF this ev_wakeup(3,4)] show ?thesis unfolding ev_wakeup(2) by auto
  qed
  then show ?thesis unfolding ev_inv_def .
qed

lemma ev_inv_steps: "ev_step\<^sup>*\<^sup>* st st' \<Longrightarrow> ev_inv st \<Longrightarrow> ev_inv st'"
  by (induction rule: rtranclp_induct) (auto intro: ev_inv_step)

lemma ev_inv_create:
  assumes "vcos_generic_event_flags_create VCOS_SUCCESS s = (st, s')" and "\<And>t. ev_sem s t = 0"
  shows "ev_inv (s', \<lambda>_. None)"
  using assms by (auto simp: vcos_generic_event_flags_create_def ev_inv_def ev_ok_def waiters_Nil)

section \<open>Properties\<close>

text \<open>\<open>vcos_generic_event_flags_set\<close> walks any queue of waiters and returns: exactly the waiters
  that the new flags satisfy leave the queue, each with one post of its semaphore, success as its
  status and the flags before consumption as its result; the others keep their order; and the flags
  left are the new ones without those that satisfied consuming waiters asked for.\<close>

lemma event_set_wakes_satisfied:
  assumes "waiters s ws" and "e = flags_after bitmask op (ev_events s)"
  shows "\<exists>s'. vcos_generic_event_flags_set bitmask op s = Some s'
    \<and> waiters s' (filter (\<lambda>w. \<not> waiter_satisfied e (ev_waiter s w)) ws)
    \<and> ev_events s' = e AND NOT (fold (\<lambda>w. consumed_by e (ev_waiter s w)) ws 0)
    \<and> (\<forall>t. ev_sem s' t = ev_sem s t
         + length (filter (\<lambda>w. waiter_satisfied e (ev_waiter s w) \<and> ew_thread (ev_waiter s w) = t) ws))
    \<and> (\<forall>w \<in> set ws. waiter_satisfied e (ev_waiter s w) \<longrightarrow>
         ew_return_status (ev_waiter s' w) = VCOS_SUCCESS \<and> ew_actual_events (ev_waiter s' w) = e)"
proof -
  obtain s' where s': "vcos_generic_event_flags_set bitmask op s = Some s'"
    "waiters s' (filter (\<lambda>w. \<not> waiter_satisfied e (ev_waiter s w)) ws)"
    "ev_events s' = e AND NOT (fold (\<lambda>w. consumed_by e (ev_waiter s w)) ws 0)"
    "\<forall>t. ev_sem s' t = ev_sem s t
         + length (filter (\<lambda>w. waiter_satisfied e (ev_waiter s w) \<and> ew_thread (ev_waiter s w) = t) ws)"
    and b: "\<forall>a. body (ev_waiter s' a) = body (if a \<in> set ws then wake_waiter e (ev_waiter s a) else ev_waiter s a)"
    using set_spec [OF assms] by blast
  have "ew_return_status (ev_waiter s' w) = VCOS_SUCCESS \<and> ew_actual_events (ev_waiter s' w) = e"
    if "w \<in> set ws" "waiter_satisfied e (ev_waiter s w)" for w
  proof -
    have "body (ev_waiter s' w) = body (wake_waiter e (ev_waiter s w))" using b that(1) by simp
    from body_fields(5,6) [OF this] that(2) show ?thesis by (simp add: wake_waiter_def)
  qed
  with s' show ?thesis by blast
qed

definition example_events :: event_flags where
  "example_events = \<lparr>ev_events = 0, ev_head = Some 40, ev_tail = Some 80,
     ev_waiter = (\<lambda>a. if a = 40
       then \<lparr>ew_requested_events = 3, ew_actual_events = 0, ew_op = 2, ew_return_status = VCOS_EAGAIN,
             ew_thread = 1, ew_next = Some 80\<rparr>
       else \<lparr>ew_requested_events = 1, ew_actual_events = 0, ew_op = 5, ew_return_status = VCOS_EAGAIN,
             ew_thread = 2, ew_next = None\<rparr>),
     ev_sem = (\<lambda>_. 0)\<rparr>"

lemma event_set_wakes_satisfied_witness:
  "\<exists>s'. vcos_generic_event_flags_set 1 VCOS_OR example_events = Some s' \<and> waiters s' [40]
     \<and> ev_events s' = 0 \<and> ev_sem s' 2 = 1 \<and> ev_sem s' 1 = 0"
proof -
  have w: "waiters example_events [40, 80]"
    by (simp add: waiters_def example_events_def ew_nexts_def last_ptr_def)
  have sat: "\<not> waiter_satisfied 1 (ev_waiter example_events 40)" "waiter_satisfied 1 (ev_waiter example_events 80)"
    "ev_events example_events = 0" "ew_thread (ev_waiter example_events 80) = 2"
    "ew_op (ev_waiter example_events 80) = 5" "ew_requested_events (ev_waiter example_events 80) = 1"
    "ev_sem example_events = (\<lambda>_. 0)"
    by (simp_all add: waiter_satisfied_def example_events_def VCOS_AND_def)
  have e: "1 = flags_after 1 VCOS_OR (ev_events example_events)"
    by (simp add: flags_after_def sat)
  from event_set_wakes_satisfied [OF w e] show ?thesis
    by (auto simp: sat consumed_by_def VCOS_CONSUME_def)
qed

text \<open>C9. No wake-up of an event-flags group is lost or doubled, for any number of threads and any
  order of sets, gets, sleeps, timeouts and wake-ups: in every reachable state the queue is well
  formed and \<open>set\<close> returns; a thread inside \<open>get\<close> is either queued, and then its semaphore is not
  posted and the current flags do not satisfy it, or it is not queued, and then its wait returns.\<close>

theorem event_flags_no_lost_wakeup:
  assumes "vcos_generic_event_flags_create VCOS_SUCCESS s0 = (st, s1)" and "\<forall>t. ev_sem s0 t = 0"
    and "ev_step\<^sup>*\<^sup>* (s1, \<lambda>_. None) (s, b)"
  shows "(\<exists>ws. waiters s ws \<and> (\<forall>t w. b t = Some w \<longrightarrow>
      (if w \<in> set ws then event_flags_get_wakeup t w s = None \<and> \<not> waiter_satisfied (ev_events s) (ev_waiter s w)
       else event_flags_get_wakeup t w s \<noteq> None)))
    \<and> vcos_generic_event_flags_set bitmask op s \<noteq> None"
proof -
  have "ev_inv (s1, \<lambda>_. None)" using ev_inv_create [OF assms(1)] assms(2) by blast
  from ev_inv_steps [OF assms(3) this] obtain ws where ok: "ev_ok s b ws" by (auto simp: ev_inv_def)
  note o = ev_okD [OF ok]
  have "\<forall>t w. b t = Some w \<longrightarrow>
      (if w \<in> set ws then event_flags_get_wakeup t w s = None \<and> \<not> waiter_satisfied (ev_events s) (ev_waiter s w)
       else event_flags_get_wakeup t w s \<noteq> None)"
    using o(3,6) by (auto simp: event_flags_get_wakeup_def sem_wait_def)
  moreover have "vcos_generic_event_flags_set bitmask op s \<noteq> None"
    using set_spec [OF o(1) refl, of bitmask op] by auto
  ultimately show ?thesis using o(1) by blast
qed

theorem event_flags_no_lost_wakeup_witness:
  "\<exists>s b. b 1 = Some 40 \<and> event_flags_get_wakeup 1 40 s \<noteq> None
     \<and> ev_step\<^sup>*\<^sup>* (snd (vcos_generic_event_flags_create VCOS_SUCCESS (example_events\<lparr>ev_sem := \<lambda>_. 0\<rparr>)), \<lambda>_. None) (s, b)"
proof -
  let ?s0 = "example_events\<lparr>ev_sem := \<lambda>_. 0\<rparr>"
  let ?s1 = "snd (vcos_generic_event_flags_create VCOS_SUCCESS ?s0)"
  have c: "vcos_generic_event_flags_create VCOS_SUCCESS ?s0 = (VCOS_SUCCESS, ?s1)"
    by (simp add: vcos_generic_event_flags_create_def)
  have w1: "waiters ?s1 []" by (simp add: waiters_def vcos_generic_event_flags_create_def)
  have "\<exists>s2. vcos_generic_event_flags_get 1 40 1 VCOS_OR (- 1) ?s1 = Some (Inr False, s2)"
    by (simp add: vcos_generic_event_flags_get_def vcos_generic_event_flags_create_def Let_def
        queue_append_tail_def VCOS_OR_def VCOS_AND_def VCOS_EVENT_FLAG_OP_MASK_def)
  then obtain s2 where g: "vcos_generic_event_flags_get 1 40 1 VCOS_OR (- 1) ?s1 = Some (Inr False, s2)" by blast
  have e1: "ev_step (?s1, \<lambda>_. None) (s2, (\<lambda>_. None)(1 \<mapsto> 40))"
    by (rule ev_sleep [OF _ _ _ g]) (auto simp: VCOS_OR_def VCOS_AND_def VCOS_EVENT_FLAG_OP_MASK_def)
  have "\<forall>t. ev_sem ?s0 t = 0" by simp
  note p = event_flags_no_lost_wakeup [OF c this]
  have "vcos_generic_event_flags_set 1 VCOS_OR s2 \<noteq> None"
    using p [OF r_into_rtranclp [of ev_step, OF e1]] by blast
  then obtain s3 where st: "vcos_generic_event_flags_set 1 VCOS_OR s2 = Some s3" by blast
  then have e2: "ev_step (s2, (\<lambda>_. None)(1 \<mapsto> 40)) (s3, (\<lambda>_. None)(1 \<mapsto> 40))" by (rule ev_set)
  have r: "ev_step\<^sup>*\<^sup>* (?s1, \<lambda>_. None) (s3, (\<lambda>_. None)(1 \<mapsto> 40))" using e1 e2 by auto
  have "ev_sem s3 1 = 1"
    using st g by (auto simp: vcos_generic_event_flags_get_def vcos_generic_event_flags_create_def Let_def
        queue_append_tail_def VCOS_OR_def VCOS_AND_def VCOS_EVENT_FLAG_OP_MASK_def
        vcos_generic_event_flags_set_def set_loop.simps waiter_satisfied_def)
  then have "event_flags_get_wakeup 1 40 s3 \<noteq> None" by (simp add: event_flags_get_wakeup_def)
  moreover have "((\<lambda>_. None)(1 \<mapsto> 40)) 1 = Some (40 :: addr)" by simp
  ultimately show ?thesis using r by blast
qed

end
