(* ===== verification/Vcos_Blockpool.thy ===== *)
theory Vcos_Blockpool
  imports Heap_List Vcos_Mem
begin

text \<open>
  Block pools (\<^verbatim>\<open>vcos/generic/vcos_generic_blockpool.c\<close> and \<^verbatim>\<open>.h\<close>): fixed-size blocks cut from a
  buffer, free lists threaded through the block headers, extension by subpools that are allocated on
  demand, and the integer handles of blocks. One pool is modelled, with the headers of its blocks by
  address; the pool's mutex makes each operation atomic. A failed \<open>vcos_demand\<close> aborts the
  program and is \<open>None\<close>; \<open>vcos_assert\<close> is empty in a release build.
\<close>

section \<open>The structures\<close>

text \<open>\<open>VCOS_BLOCKPOOL_HEADER_T\<close>: a free block refers to the next one, an allocated block to its
  subpool, given by its index in the pool's array.\<close>

datatype owner = OwnerNext ptr | OwnerSubpool nat

record subpool =
  sp_magic :: u32
  sp_free_list :: ptr
  sp_mem :: ptr
  sp_start :: ptr
  sp_end :: addr
  sp_num_blocks :: u32
  sp_available_blocks :: u32
  sp_flags :: u32

record 'e blockpool =
  bp_magic :: u32
  bp_align :: u32
  bp_block_data_size :: u32
  bp_block_size :: u32
  bp_num_subpools :: nat
  bp_num_extension_blocks :: u32
  bp_subpools :: "nat \<Rightarrow> subpool"
  bp_owner :: "addr \<Rightarrow> owner"
  bp_env :: 'e

definition BLOCKPOOL_MAGIC :: u32 where "BLOCKPOOL_MAGIC = 0x6c706276"
definition SUBPOOL_MAGIC :: u32 where "SUBPOOL_MAGIC = 0x6c707376"
definition FLAG_OWNS_MEM :: u32 where "FLAG_OWNS_MEM = 1"
definition FLAG_EXTENSION :: u32 where "FLAG_EXTENSION = 2"
definition BLOCKPOOL_ALIGN_DEFAULT :: u32 where "BLOCKPOOL_ALIGN_DEFAULT = 4"
definition BLOCKPOOL_MAX_SUBPOOLS :: nat where "BLOCKPOOL_MAX_SUBPOOLS = 8"

text \<open>\<open>sizeof(VCOS_BLOCKPOOL_HEADER_T)\<close>: one pointer.\<close>

definition SIZEOF_BLOCK_HEADER :: nat where "SIZEOF_BLOCK_HEADER = 4"

definition block_size_of :: "u32 \<Rightarrow> u32 \<Rightarrow> u32" where
  "block_size_of block_size align =
     BLOCKPOOL_ROUND_UP (block_size + (if align \<ge> 4096 then 32 else 0) + of_nat SIZEOF_BLOCK_HEADER) align"

definition BLOCKPOOL_SIZE :: "u32 \<Rightarrow> u32 \<Rightarrow> u32 \<Rightarrow> u32" where
  "BLOCKPOOL_SIZE num_blocks block_size align = block_size_of block_size align * num_blocks + align"

definition upd_sub :: "nat \<Rightarrow> (subpool \<Rightarrow> subpool) \<Rightarrow> 'e blockpool \<Rightarrow> 'e blockpool" where
  "upd_sub i f p = p\<lparr>bp_subpools := (bp_subpools p)(i := f (bp_subpools p i))\<rparr>"

definition set_owner :: "addr \<Rightarrow> owner \<Rightarrow> 'e blockpool \<Rightarrow> 'e blockpool" where
  "set_owner a x p = p\<lparr>bp_owner := (bp_owner p)(a := x)\<rparr>"

lemma upd_sub_simps [simp]:
  "bp_subpools (upd_sub i f p) j = (if j = i then f (bp_subpools p i) else bp_subpools p j)"
  "bp_owner (upd_sub i f p) = bp_owner p" "bp_env (upd_sub i f p) = bp_env p"
  "bp_num_subpools (upd_sub i f p) = bp_num_subpools p" "bp_block_size (upd_sub i f p) = bp_block_size p"
  "bp_magic (upd_sub i f p) = bp_magic p" "bp_align (upd_sub i f p) = bp_align p"
  "bp_block_data_size (upd_sub i f p) = bp_block_data_size p"
  "bp_num_extension_blocks (upd_sub i f p) = bp_num_extension_blocks p"
  by (simp_all add: upd_sub_def)

lemma set_owner_simps [simp]:
  "bp_owner (set_owner a x p) = (bp_owner p)(a := x)" "bp_subpools (set_owner a x p) = bp_subpools p"
  "bp_env (set_owner a x p) = bp_env p" "bp_num_subpools (set_owner a x p) = bp_num_subpools p"
  "bp_block_size (set_owner a x p) = bp_block_size p" "bp_magic (set_owner a x p) = bp_magic p"
  "bp_align (set_owner a x p) = bp_align p"
  "bp_block_data_size (set_owner a x p) = bp_block_data_size p"
  "bp_num_extension_blocks (set_owner a x p) = bp_num_extension_blocks p"
  by (simp_all add: set_owner_def)

text \<open>\<open>ASSERT_SUBPOOL\<close>\<close>

definition ptr_le :: "ptr \<Rightarrow> ptr \<Rightarrow> bool" where
  "ptr_le p q \<longleftrightarrow> (case p of None \<Rightarrow> True | Some a \<Rightarrow> (case q of None \<Rightarrow> False | Some b \<Rightarrow> a \<le> b))"

definition subpool_ok :: "subpool \<Rightarrow> bool" where
  "subpool_ok s \<longleftrightarrow> sp_magic s = SUBPOOL_MAGIC \<and> ptr_le (sp_mem s) (sp_start s)"

section \<open>Initialisation\<close>

text \<open>The loop that builds the free list, from \<open>block\<close> up to \<open>end\<close>; \<open>None\<close> if it does not end.\<close>

partial_function (option) free_list_loop ::
  "nat \<Rightarrow> addr \<Rightarrow> addr \<Rightarrow> ptr \<Rightarrow> (addr \<Rightarrow> owner) \<Rightarrow> (ptr \<times> (addr \<Rightarrow> owner)) option" where
  "free_list_loop bs block end fl hdr =
     (if block < end then free_list_loop bs (block + bs) end (Some block) (hdr(block := OwnerNext fl))
      else Some (fl, hdr))"

definition first_block :: "addr \<Rightarrow> u32 \<Rightarrow> addr" where
  "first_block mem align =
     unat (BLOCKPOOL_ROUND_UP (of_nat (mem + SIZEOF_BLOCK_HEADER)) align) - SIZEOF_BLOCK_HEADER"

text \<open>The \<open>flags\<close> argument is unused in the code; the subpool keeps the flags it has.\<close>

definition vcos_generic_blockpool_subpool_init ::
  "'e blockpool \<Rightarrow> nat \<Rightarrow> addr \<Rightarrow> u32 \<Rightarrow> u32 \<Rightarrow> u32 \<Rightarrow> 'e blockpool option" where
  "vcos_generic_blockpool_subpool_init pool i mem num_blocks align flags =
     (let start = first_block mem align;
          end = start + unat (bp_block_size pool * num_blocks)
      in map_option (\<lambda>(fl, hdr).
           upd_sub i (\<lambda>s. s\<lparr>sp_magic := SUBPOOL_MAGIC, sp_mem := Some mem, sp_start := Some start,
             sp_num_blocks := num_blocks, sp_available_blocks := num_blocks, sp_free_list := fl,
             sp_end := end\<rparr>) (pool\<lparr>bp_owner := hdr\<rparr>))
         (free_list_loop (unat (bp_block_size pool)) start end None (bp_owner pool)))"

definition zero_subpool :: subpool where
  "zero_subpool = \<lparr>sp_magic = 0, sp_free_list = None, sp_mem = None, sp_start = None, sp_end = 0,
     sp_num_blocks = 0, sp_available_blocks = 0, sp_flags = 0\<rparr>"

text \<open>\<open>mutex_st\<close>: the outcome of the mutex creation.\<close>

definition vcos_generic_blockpool_init ::
  "vcos_status \<Rightarrow> 'e blockpool \<Rightarrow> u32 \<Rightarrow> u32 \<Rightarrow> ptr \<Rightarrow> u32 \<Rightarrow> u32 \<Rightarrow> (vcos_status \<times> 'e blockpool) option" where
  "vcos_generic_blockpool_init mutex_st pool num_blocks block_size start pool_size align =
     (case start of
        None \<Rightarrow> None
      | Some mem \<Rightarrow>
          let align = (if align = 0 then BLOCKPOOL_ALIGN_DEFAULT else align) in
          if align AND 3 \<noteq> 0 then Some (VCOS_EINVAL, pool)
          else if BLOCKPOOL_SIZE num_blocks block_size align > pool_size then Some (VCOS_ENOMEM, pool)
          else if mutex_st \<noteq> VCOS_SUCCESS then Some (mutex_st, pool)
          else
            let pool1 = pool\<lparr>bp_block_data_size := block_size, bp_block_size := block_size_of block_size align,
                  bp_magic := BLOCKPOOL_MAGIC, bp_num_subpools := 1, bp_num_extension_blocks := 0,
                  bp_align := align, bp_subpools := (\<lambda>_. zero_subpool)\<rparr>
            in map_option (Pair VCOS_SUCCESS)
                 (vcos_generic_blockpool_subpool_init pool1 0 mem num_blocks align 0))"

definition vcos_generic_blockpool_create_on_heap ::
  "(u32 \<Rightarrow> 'e \<Rightarrow> ptr \<times> 'e) \<Rightarrow> (addr \<Rightarrow> 'e \<Rightarrow> 'e) \<Rightarrow> vcos_status \<Rightarrow> 'e blockpool \<Rightarrow> u32 \<Rightarrow> u32 \<Rightarrow> u32 \<Rightarrow>
   (vcos_status \<times> 'e blockpool) option" where
  "vcos_generic_blockpool_create_on_heap alloc release mutex_st pool num_blocks block_size align =
     (let sz = BLOCKPOOL_SIZE num_blocks block_size align;
          (mem, e') = alloc sz (bp_env pool);
          pool1 = pool\<lparr>bp_env := e'\<rparr>
      in case mem of
           None \<Rightarrow> Some (VCOS_ENOMEM, pool1)
         | Some m \<Rightarrow>
             map_option (\<lambda>(st, pool2).
               if st \<noteq> VCOS_SUCCESS then (st, pool2\<lparr>bp_env := release m (bp_env pool2)\<rparr>)
               else (st, upd_sub 0 (\<lambda>s. s\<lparr>sp_flags := sp_flags s OR FLAG_OWNS_MEM\<rparr>) pool2))
             (vcos_generic_blockpool_init mutex_st pool1 num_blocks block_size mem sz align))"

definition mark_subpools :: "nat \<Rightarrow> (nat \<Rightarrow> subpool) \<Rightarrow> nat \<Rightarrow> subpool" where
  "mark_subpools n subs i =
     (if 1 \<le> i \<and> i < n then (subs i)\<lparr>sp_magic := SUBPOOL_MAGIC, sp_start := None, sp_mem := None\<rparr>
      else subs i)"

definition vcos_generic_blockpool_extend ::
  "'e blockpool \<Rightarrow> u32 \<Rightarrow> u32 \<Rightarrow> (vcos_status \<times> 'e blockpool) option" where
  "vcos_generic_blockpool_extend pool num_extensions num_blocks =
     (if bp_magic pool \<noteq> BLOCKPOOL_MAGIC then None
      else if bp_num_subpools pool > 1 then Some (VCOS_EACCESS, pool)
      else if num_extensions < 1 \<or> num_extensions > of_nat (BLOCKPOOL_MAX_SUBPOOLS - 1)
      then Some (VCOS_EINVAL, pool)
      else if num_blocks < 1 then Some (VCOS_EINVAL, pool)
      else
        let n = bp_num_subpools pool + unat num_extensions in
        Some (VCOS_SUCCESS, pool\<lparr>bp_num_subpools := n, bp_num_extension_blocks := num_blocks,
          bp_subpools := mark_subpools n (bp_subpools pool)\<rparr>))"

section \<open>Allocation\<close>

fun find_subpool :: "'e blockpool \<Rightarrow> nat list \<Rightarrow> nat option" where
  "find_subpool pool [] = None"
| "find_subpool pool (i # is) =
     (if sp_start (bp_subpools pool i) \<noteq> None \<and> sp_available_blocks (bp_subpools pool i) > 0 then Some i
      else find_subpool pool is)"

text \<open>The loop over the unallocated subpools; a failed allocation goes on to the next.\<close>

fun extend_loop ::
  "(u32 \<Rightarrow> 'e \<Rightarrow> ptr \<times> 'e) \<Rightarrow> nat list \<Rightarrow> 'e blockpool \<Rightarrow> (nat option \<times> 'e blockpool) option" where
  "extend_loop alloc [] pool = Some (None, pool)"
| "extend_loop alloc (i # is) pool =
     (if sp_start (bp_subpools pool i) = None then
        case alloc (BLOCKPOOL_SIZE (bp_num_extension_blocks pool) (bp_block_data_size pool) (bp_align pool))
               (bp_env pool) of
          (None, e') \<Rightarrow> extend_loop alloc is (pool\<lparr>bp_env := e'\<rparr>)
        | (Some mem, e') \<Rightarrow>
            map_option (Pair (Some i))
              (vcos_generic_blockpool_subpool_init (pool\<lparr>bp_env := e'\<rparr>) i mem (bp_num_extension_blocks pool)
                 (bp_align pool) (FLAG_OWNS_MEM OR FLAG_EXTENSION))
      else extend_loop alloc is pool)"

definition take_block :: "nat \<Rightarrow> 'e blockpool \<Rightarrow> (ptr \<times> 'e blockpool) option" where
  "take_block i pool =
     (case sp_free_list (bp_subpools pool i) of
        None \<Rightarrow> None
      | Some nb \<Rightarrow>
          (case bp_owner pool nb of
             OwnerSubpool _ \<Rightarrow> None
           | OwnerNext nx \<Rightarrow>
               Some (Some (nb + SIZEOF_BLOCK_HEADER),
                 set_owner nb (OwnerSubpool i)
                   (upd_sub i (\<lambda>s. s\<lparr>sp_free_list := nx,
                      sp_available_blocks := sp_available_blocks s - 1\<rparr>) pool))))"

definition vcos_generic_blockpool_alloc ::
  "(u32 \<Rightarrow> 'e \<Rightarrow> ptr \<times> 'e) \<Rightarrow> 'e blockpool \<Rightarrow> (ptr \<times> 'e blockpool) option" where
  "vcos_generic_blockpool_alloc alloc pool =
     (if bp_magic pool \<noteq> BLOCKPOOL_MAGIC then None
      else
        case find_subpool pool [0..<bp_num_subpools pool] of
          Some i \<Rightarrow> take_block i pool
        | None \<Rightarrow>
            (case extend_loop alloc [1..<bp_num_subpools pool] pool of
               None \<Rightarrow> None
             | Some (None, pool') \<Rightarrow> Some (None, pool')
             | Some (Some i, pool') \<Rightarrow> take_block i pool'))"

section \<open>Release\<close>

definition vcos_generic_blockpool_free ::
  "(addr \<Rightarrow> 'e \<Rightarrow> 'e) \<Rightarrow> ptr \<Rightarrow> 'e blockpool \<Rightarrow> 'e blockpool option" where
  "vcos_generic_blockpool_free release block pool =
     (case block of
        None \<Rightarrow> Some pool
      | Some b \<Rightarrow>
          let hdr = b - SIZEOF_BLOCK_HEADER in
          (case bp_owner pool hdr of
             OwnerNext _ \<Rightarrow> None
           | OwnerSubpool i \<Rightarrow>
               if \<not> subpool_ok (bp_subpools pool i) \<or> bp_magic pool \<noteq> BLOCKPOOL_MAGIC then None
               else
                 let p1 = set_owner hdr (OwnerNext (sp_free_list (bp_subpools pool i))) pool;
                     p2 = upd_sub i (\<lambda>s. s\<lparr>sp_free_list := Some hdr,
                            sp_available_blocks := sp_available_blocks s + 1\<rparr>) p1;
                     s2 = bp_subpools p2 i
                 in Some (if sp_flags s2 AND FLAG_EXTENSION \<noteq> 0 \<and> sp_available_blocks s2 = sp_num_blocks s2
                          then upd_sub i (\<lambda>s. s\<lparr>sp_mem := None, sp_start := None\<rparr>)
                                 (p2\<lparr>bp_env := (case sp_mem s2 of None \<Rightarrow> bp_env p2
                                               | Some m \<Rightarrow> release m (bp_env p2))\<rparr>)
                          else p2)))"

section \<open>Counts, deletion, handles\<close>

definition all_subpools_ok :: "'e blockpool \<Rightarrow> bool" where
  "all_subpools_ok pool \<longleftrightarrow> (\<forall>i \<in> set [0..<bp_num_subpools pool]. subpool_ok (bp_subpools pool i))"

definition vcos_generic_blockpool_available_count :: "'e blockpool \<Rightarrow> u32 option" where
  "vcos_generic_blockpool_available_count pool =
     (if bp_magic pool \<noteq> BLOCKPOOL_MAGIC \<or> \<not> all_subpools_ok pool then None
      else Some (sum_list (map (\<lambda>i.
        if sp_start (bp_subpools pool i) \<noteq> None then sp_available_blocks (bp_subpools pool i)
        else bp_num_extension_blocks pool) [0..<bp_num_subpools pool])))"

definition vcos_generic_blockpool_used_count :: "'e blockpool \<Rightarrow> u32 option" where
  "vcos_generic_blockpool_used_count pool =
     (if bp_magic pool \<noteq> BLOCKPOOL_MAGIC \<or> \<not> all_subpools_ok pool then None
      else Some (sum_list (map (\<lambda>i.
        if sp_start (bp_subpools pool i) \<noteq> None
        then sp_num_blocks (bp_subpools pool i) - sp_available_blocks (bp_subpools pool i) else 0)
        [0..<bp_num_subpools pool])))"

fun delete_loop :: "(addr \<Rightarrow> 'e \<Rightarrow> 'e) \<Rightarrow> nat list \<Rightarrow> 'e blockpool \<Rightarrow> 'e blockpool option" where
  "delete_loop release [] pool = Some pool"
| "delete_loop release (i # is) pool =
     (let s = bp_subpools pool i in
      if \<not> subpool_ok s then None
      else delete_loop release is
        (case sp_mem s of
           None \<Rightarrow> pool
         | Some m \<Rightarrow>
             upd_sub i (\<lambda>s. s\<lparr>sp_mem := None, sp_start := None\<rparr>)
               (if sp_flags s AND FLAG_OWNS_MEM \<noteq> 0 then pool\<lparr>bp_env := release m (bp_env pool)\<rparr>
                else pool)))"

definition vcos_generic_blockpool_delete :: "(addr \<Rightarrow> 'e \<Rightarrow> 'e) \<Rightarrow> 'e blockpool \<Rightarrow> 'e blockpool option" where
  "vcos_generic_blockpool_delete release pool =
     (if bp_magic pool \<noteq> BLOCKPOOL_MAGIC then None
      else map_option (\<lambda>p. p\<lparr>bp_magic := 0xBEBEBEBE\<rparr>) (delete_loop release [0..<bp_num_subpools pool] pool))"

definition BLOCKPOOL_HANDLE_CREATE :: "u32 \<Rightarrow> u32 \<Rightarrow> u32" where
  "BLOCKPOOL_HANDLE_CREATE i s = push_bit 3 (i + 1) OR s"

definition BLOCKPOOL_HANDLE_GET_INDEX :: "u32 \<Rightarrow> u32" where
  "BLOCKPOOL_HANDLE_GET_INDEX h = drop_bit 3 h - 1"

definition BLOCKPOOL_HANDLE_GET_SUBPOOL :: "u32 \<Rightarrow> u32" where
  "BLOCKPOOL_HANDLE_GET_SUBPOOL h = h AND (push_bit 3 1 - 1)"

definition vcos_generic_blockpool_elem_to_handle :: "addr \<Rightarrow> 'e blockpool \<Rightarrow> u32 option" where
  "vcos_generic_blockpool_elem_to_handle block pool =
     (let hdr = block - SIZEOF_BLOCK_HEADER in
      case bp_owner pool hdr of
        OwnerNext _ \<Rightarrow> None
      | OwnerSubpool i \<Rightarrow>
          (case sp_start (bp_subpools pool i) of
             None \<Rightarrow> None
           | Some start \<Rightarrow>
               if \<not> subpool_ok (bp_subpools pool i) \<or> bp_magic pool \<noteq> BLOCKPOOL_MAGIC then None
               else Some (BLOCKPOOL_HANDLE_CREATE
                      (of_nat ((hdr - start) div unat (bp_block_size pool))) (of_nat i))))"

definition vcos_generic_blockpool_elem_from_handle :: "u32 \<Rightarrow> 'e blockpool \<Rightarrow> ptr option" where
  "vcos_generic_blockpool_elem_from_handle handle pool =
     (if bp_magic pool \<noteq> BLOCKPOOL_MAGIC then None
      else
        let i = unat (BLOCKPOOL_HANDLE_GET_SUBPOOL handle);
            index = BLOCKPOOL_HANDLE_GET_INDEX handle;
            s = bp_subpools pool i
        in Some (if i < bp_num_subpools pool \<and> sp_magic s = SUBPOOL_MAGIC \<and> sp_mem s \<noteq> None
                      \<and> index < sp_num_blocks s
                 then (case sp_start s of
                         None \<Rightarrow> None
                       | Some start \<Rightarrow>
                           let hdr = start + unat (index * bp_block_size pool) in
                           if bp_owner pool hdr = OwnerSubpool i then Some (hdr + SIZEOF_BLOCK_HEADER) else None)
                 else None))"

fun valid_elem_loop :: "'e blockpool \<Rightarrow> addr \<Rightarrow> nat list \<Rightarrow> bool option" where
  "valid_elem_loop pool block [] = Some False"
| "valid_elem_loop pool block (i # is) =
     (let s = bp_subpools pool i in
      if \<not> subpool_ok s then None
      else case (sp_mem s, sp_start s) of
             (Some _, Some start) \<Rightarrow>
               if start < block \<and> block < start + unat (sp_num_blocks s * bp_block_size pool)
               then Some (bp_owner pool (block - SIZEOF_BLOCK_HEADER) = OwnerSubpool i)
               else valid_elem_loop pool block is
           | _ \<Rightarrow> valid_elem_loop pool block is)"

definition vcos_generic_blockpool_is_valid_elem :: "'e blockpool \<Rightarrow> addr \<Rightarrow> bool option" where
  "vcos_generic_blockpool_is_valid_elem pool block =
     (if bp_magic pool \<noteq> BLOCKPOOL_MAGIC then None
      else if block mod 4 \<noteq> 0 then Some False
      else valid_elem_loop pool block [0..<bp_num_subpools pool])"

end
