(* ===== verification/Vcos_Msgqueue.thy ===== *)
theory Vcos_Msgqueue
  imports Fifo Heap_List Vcos_Blockpool
begin

text \<open>
  Message queues and message pools (\<^verbatim>\<open>vcos/generic/vcos_msgqueue.c\<close>): messages are linked through
  their \<open>next\<close> field, a queue counts its messages with a semaphore, and the reply to a message goes
  to its waiter, which is a queue, a semaphore on the sender's stack, or the pool the message was
  allocated from. The queue provides the locale \<open>fifo\<close> (interpretation \<open>vq\<close>); a message that is
  replied to a queue is appended with whatever \<open>next\<close> pointer it still has.
\<close>

section \<open>State\<close>

text \<open>\<open>VCOS_MSG_WAITER_T\<close> holds a function pointer; its three targets are the constructors.\<close>

datatype waiter = WaiterQueue addr | WaiterSimple addr | WaiterPool addr

record msg =
  msg_magic :: u32
  msg_code :: u32
  msg_next :: ptr
  msg_src_thread :: ptr
  msg_waiter :: "waiter option"
  msg_pool :: ptr

record msgqueue =
  mq_head :: ptr
  mq_tail :: ptr
  mq_sem :: nat

record 'e msgq_pool =
  mp_blockpool :: "'e blockpool"
  mp_sem :: nat
  mp_magic :: u32

record 'e mstate =
  ms_msg :: "addr \<Rightarrow> msg"
  ms_queue :: "addr \<Rightarrow> msgqueue"
  ms_simple :: "addr \<Rightarrow> nat"          \<comment> \<open>the semaphores of the simple waiters\<close>
  ms_pool :: "addr \<Rightarrow> 'e msgq_pool"

definition VCOS_MSGQ_MAGIC :: u32 where "VCOS_MSGQ_MAGIC = 0x5147534d"
definition MSG_REPLY_BIT :: u32 where "MSG_REPLY_BIT = push_bit 31 1"
definition SIZEOF_MSG :: u32 where "SIZEOF_MSG = 24"

definition upd_msg :: "addr \<Rightarrow> (msg \<Rightarrow> msg) \<Rightarrow> 'e mstate \<Rightarrow> 'e mstate" where
  "upd_msg b f s = s\<lparr>ms_msg := (ms_msg s)(b := f (ms_msg s b))\<rparr>"

definition upd_mq :: "addr \<Rightarrow> (msgqueue \<Rightarrow> msgqueue) \<Rightarrow> 'e mstate \<Rightarrow> 'e mstate" where
  "upd_mq q f s = s\<lparr>ms_queue := (ms_queue s)(q := f (ms_queue s q))\<rparr>"

definition upd_mp :: "addr \<Rightarrow> ('e msgq_pool \<Rightarrow> 'e msgq_pool) \<Rightarrow> 'e mstate \<Rightarrow> 'e mstate" where
  "upd_mp p f s = s\<lparr>ms_pool := (ms_pool s)(p := f (ms_pool s p))\<rparr>"

definition upd_simple :: "addr \<Rightarrow> (nat \<Rightarrow> nat) \<Rightarrow> 'e mstate \<Rightarrow> 'e mstate" where
  "upd_simple w f s = s\<lparr>ms_simple := (ms_simple s)(w := f (ms_simple s w))\<rparr>"

lemma upd_simps [simp]:
  "ms_msg (upd_msg b f s) = (ms_msg s)(b := f (ms_msg s b))"
  "ms_queue (upd_msg b f s) = ms_queue s" "ms_simple (upd_msg b f s) = ms_simple s"
  "ms_pool (upd_msg b f s) = ms_pool s"
  "ms_queue (upd_mq q g s) = (ms_queue s)(q := g (ms_queue s q))"
  "ms_msg (upd_mq q g s) = ms_msg s" "ms_simple (upd_mq q g s) = ms_simple s"
  "ms_pool (upd_mq q g s) = ms_pool s"
  "ms_pool (upd_mp p h s) = (ms_pool s)(p := h (ms_pool s p))"
  "ms_msg (upd_mp p h s) = ms_msg s" "ms_queue (upd_mp p h s) = ms_queue s"
  "ms_simple (upd_mp p h s) = ms_simple s"
  "ms_simple (upd_simple w k s) = (ms_simple s)(w := k (ms_simple s w))"
  "ms_msg (upd_simple w k s) = ms_msg s" "ms_queue (upd_simple w k s) = ms_queue s"
  "ms_pool (upd_simple w k s) = ms_pool s"
  by (simp_all add: upd_msg_def upd_mq_def upd_mp_def upd_simple_def)

section \<open>Queues\<close>

text \<open>\<open>sem_st\<close>, \<open>mutex_st\<close>: the outcomes of the semaphore and mutex creation.\<close>

definition vcos_msgq_create ::
  "vcos_status \<Rightarrow> vcos_status \<Rightarrow> addr \<Rightarrow> 'e mstate \<Rightarrow> vcos_status \<times> 'e mstate" where
  "vcos_msgq_create sem_st mutex_st q s =
     (if sem_st \<noteq> VCOS_SUCCESS then sem_st else mutex_st,
      upd_mq q (\<lambda>_. \<lparr>mq_head = None, mq_tail = None, mq_sem = 0\<rparr>) s)"

text \<open>\<open>head\<close> and \<open>tail\<close> are null together (\<open>null_together_ops\<close> below), so the branch of a
  null \<open>tail\<close> under a non-null \<open>head\<close> is never taken.\<close>

definition msgq_append :: "addr \<Rightarrow> addr \<Rightarrow> 'e mstate \<Rightarrow> 'e mstate" where
  "msgq_append q m s =
     (if mq_head (ms_queue s q) = None
      then upd_mq q (\<lambda>Q. Q\<lparr>mq_head := Some m, mq_tail := Some m\<rparr>) s
      else case mq_tail (ms_queue s q) of
             None \<Rightarrow> s
           | Some t \<Rightarrow> upd_mq q (\<lambda>Q. Q\<lparr>mq_tail := Some m\<rparr>) (upd_msg t (\<lambda>M. M\<lparr>msg_next := Some m\<rparr>) s))"

definition msgq_post :: "addr \<Rightarrow> 'e mstate \<Rightarrow> 'e mstate" where
  "msgq_post q s = upd_mq q (\<lambda>Q. Q\<lparr>mq_sem := sem_post (mq_sem Q)\<rparr>) s"

definition vcos_msgq_queue_waiter_on_reply :: "addr \<Rightarrow> addr \<Rightarrow> 'e mstate \<Rightarrow> 'e mstate" where
  "vcos_msgq_queue_waiter_on_reply q m s = msgq_post q (msgq_append q m s)"

text \<open>The fields a sender fills in before it takes the lock.\<close>

definition msg_prepare :: "waiter option \<Rightarrow> ptr \<Rightarrow> u32 \<Rightarrow> addr \<Rightarrow> 'e mstate \<Rightarrow> 'e mstate" where
  "msg_prepare w thread code m s =
     upd_msg m (\<lambda>M. M\<lparr>msg_code := code, msg_waiter := (if w \<noteq> None then w else msg_waiter M),
       msg_next := None, msg_src_thread := thread\<rparr>) s"

definition vcos_msg_send_helper ::
  "waiter option \<Rightarrow> ptr \<Rightarrow> addr \<Rightarrow> u32 \<Rightarrow> addr \<Rightarrow> 'e mstate \<Rightarrow> 'e mstate" where
  "vcos_msg_send_helper w thread dest code m s =
     msgq_post dest (msgq_append dest m (msg_prepare w thread code m s))"

definition vcos_msg_send :: "ptr \<Rightarrow> addr \<Rightarrow> u32 \<Rightarrow> addr \<Rightarrow> 'e mstate \<Rightarrow> 'e mstate" where
  "vcos_msg_send thread dest code m s = vcos_msg_send_helper None thread dest code m s"

text \<open>Unlinking the head, as \<open>vcos_msg_wait\<close> and \<open>vcos_msg_peek\<close> do under the lock.\<close>

definition msgq_take :: "addr \<Rightarrow> addr \<Rightarrow> 'e mstate \<Rightarrow> 'e mstate" where
  "msgq_take q m s =
     (let nx = msg_next (ms_msg s m) in
      upd_mq q (\<lambda>Q. Q\<lparr>mq_head := nx, mq_tail := (if nx = None then None else mq_tail Q)\<rparr>) s)"

definition vcos_msg_wait :: "addr \<Rightarrow> 'e mstate \<Rightarrow> (addr \<times> 'e mstate) run" where
  "vcos_msg_wait q s =
     (case sem_wait (mq_sem (ms_queue s q)) of
        None \<Rightarrow> Blocks
      | Some n \<Rightarrow>
          let s1 = upd_mq q (\<lambda>Q. Q\<lparr>mq_sem := n\<rparr>) s
          in case mq_head (ms_queue s1 q) of
               None \<Rightarrow> Faults
             | Some m \<Rightarrow> Returns (m, msgq_take q m s1))"

definition vcos_msg_peek :: "addr \<Rightarrow> 'e mstate \<Rightarrow> (ptr \<times> 'e mstate) run" where
  "vcos_msg_peek q s =
     (case mq_head (ms_queue s q) of
        None \<Rightarrow> Returns (None, s)
      | Some m \<Rightarrow>
          let s1 = msgq_take q m s
          in case sem_wait (mq_sem (ms_queue s1 q)) of
               None \<Rightarrow> Blocks
             | Some n \<Rightarrow> Returns (Some m, upd_mq q (\<lambda>Q. Q\<lparr>mq_sem := n\<rparr>) s1))"

text \<open>\<open>vcos_msg_sendwait\<close> up to its wait, with the waiter at \<open>w\<close> on the stack; and its wait.\<close>

definition vcos_msg_sendwait_start ::
  "vcos_status \<Rightarrow> addr \<Rightarrow> ptr \<Rightarrow> addr \<Rightarrow> u32 \<Rightarrow> addr \<Rightarrow> 'e mstate \<Rightarrow> vcos_status \<times> 'e mstate" where
  "vcos_msg_sendwait_start sem_st w thread dest code m s =
     (if sem_st \<noteq> VCOS_SUCCESS then (sem_st, s)
      else (VCOS_SUCCESS, vcos_msg_send_helper (Some (WaiterSimple w)) thread dest code m
                            (upd_simple w (\<lambda>_. 0) s)))"

definition vcos_msg_sendwait_finish :: "addr \<Rightarrow> 'e mstate \<Rightarrow> 'e mstate run" where
  "vcos_msg_sendwait_finish w s =
     (case sem_wait (ms_simple s w) of
        None \<Rightarrow> Blocks
      | Some n \<Rightarrow> Returns (upd_simple w (\<lambda>_. n) s))"

section \<open>Pools and replies\<close>

text \<open>\<open>release\<close> is \<open>vcos_free\<close>.\<close>

definition vcos_msgq_pool_free ::
  "(addr \<Rightarrow> 'e \<Rightarrow> 'e) \<Rightarrow> ptr \<Rightarrow> 'e mstate \<Rightarrow> 'e mstate run" where
  "vcos_msgq_pool_free release msg s =
     (case msg of
        None \<Rightarrow> Returns s
      | Some m \<Rightarrow>
          (case msg_pool (ms_msg s m) of
             None \<Rightarrow> Faults
           | Some p \<Rightarrow>
               (case vcos_generic_blockpool_free release (Some m) (mp_blockpool (ms_pool s p)) of
                  None \<Rightarrow> Faults
                | Some bp \<Rightarrow>
                    Returns (upd_mp p (\<lambda>P. P\<lparr>mp_blockpool := bp, mp_sem := sem_post (mp_sem P)\<rparr>) s))))"

text \<open>For a message without a waiter the source has \<open>vcos_assert(0)\<close>, which is empty in a release build
  (\<^verbatim>\<open>NDEBUG\<close>, \<^verbatim>\<open>CMakeLists.txt\<close>): the call returns.\<close>

definition vcos_msg_reply :: "(addr \<Rightarrow> 'e \<Rightarrow> 'e) \<Rightarrow> addr \<Rightarrow> 'e mstate \<Rightarrow> 'e mstate run" where
  "vcos_msg_reply release m s =
     (let s1 = upd_msg m (\<lambda>M. M\<lparr>msg_code := msg_code M OR MSG_REPLY_BIT\<rparr>) s
      in case msg_waiter (ms_msg s1 m) of
           None \<Rightarrow> Returns s1
         | Some (WaiterQueue q) \<Rightarrow> Returns (vcos_msgq_queue_waiter_on_reply q m s1)
         | Some (WaiterSimple w) \<Rightarrow> Returns (upd_simple w sem_post s1)
         | Some (WaiterPool _) \<Rightarrow> vcos_msgq_pool_free release (Some m) s1)"

definition vcos_msg_set_source :: "addr \<Rightarrow> addr \<Rightarrow> 'e mstate \<Rightarrow> 'e mstate" where
  "vcos_msg_set_source m q s = upd_msg m (\<lambda>M. M\<lparr>msg_waiter := Some (WaiterQueue q)\<rparr>) s"

definition vcos_msg_init :: "addr \<Rightarrow> 'e mstate \<Rightarrow> 'e mstate" where
  "vcos_msg_init m s =
     upd_msg m (\<lambda>M. M\<lparr>msg_magic := VCOS_MSGQ_MAGIC, msg_next := None, msg_waiter := None, msg_pool := None\<rparr>) s"

definition vcos_msgq_pool_create ::
  "(u32 \<Rightarrow> 'e \<Rightarrow> ptr \<times> 'e) \<Rightarrow> (addr \<Rightarrow> 'e \<Rightarrow> 'e) \<Rightarrow> vcos_status \<Rightarrow> vcos_status \<Rightarrow>
   addr \<Rightarrow> u32 \<Rightarrow> u32 \<Rightarrow> 'e mstate \<Rightarrow> (vcos_status \<times> 'e mstate) run" where
  "vcos_msgq_pool_create alloc release mutex_st sem_st p count payload_size s =
     (case vcos_generic_blockpool_create_on_heap alloc release mutex_st (mp_blockpool (ms_pool s p))
             count (payload_size + SIZEOF_MSG) BLOCKPOOL_ALIGN_DEFAULT of
        None \<Rightarrow> Faults
      | Some (st, bp) \<Rightarrow>
          let s1 = upd_mp p (\<lambda>P. P\<lparr>mp_blockpool := bp\<rparr>) s in
          if st \<noteq> VCOS_SUCCESS then Returns (st, s1)
          else if sem_st \<noteq> VCOS_SUCCESS then
            (case vcos_generic_blockpool_delete release bp of
               None \<Rightarrow> Faults
             | Some bp' \<Rightarrow> Returns (sem_st, upd_mp p (\<lambda>P. P\<lparr>mp_blockpool := bp'\<rparr>) s1))
          else Returns (VCOS_SUCCESS,
                 upd_mp p (\<lambda>P. P\<lparr>mp_sem := unat count, mp_magic := VCOS_MSGQ_MAGIC\<rparr>) s1))"

definition vcos_msgq_pool_delete :: "(addr \<Rightarrow> 'e \<Rightarrow> 'e) \<Rightarrow> addr \<Rightarrow> 'e mstate \<Rightarrow> 'e mstate run" where
  "vcos_msgq_pool_delete release p s =
     (case vcos_generic_blockpool_delete release (mp_blockpool (ms_pool s p)) of
        None \<Rightarrow> Faults
      | Some bp \<Rightarrow> Returns (upd_mp p (\<lambda>P. P\<lparr>mp_blockpool := bp\<rparr>) s))"

text \<open>After the semaphore: \<open>vcos_blockpool_calloc\<close>, then the message's fields.\<close>

definition pool_calloc ::
  "(u32 \<Rightarrow> 'e \<Rightarrow> ptr \<times> 'e) \<Rightarrow> addr \<Rightarrow> 'e mstate \<Rightarrow> (addr \<times> 'e mstate) run" where
  "pool_calloc alloc p s =
     (case vcos_generic_blockpool_alloc alloc (mp_blockpool (ms_pool s p)) of
        None \<Rightarrow> Faults
      | Some (None, bp) \<Rightarrow> Faults
      | Some (Some m, bp) \<Rightarrow>
          Returns (m, upd_msg m (\<lambda>_. \<lparr>msg_magic = VCOS_MSGQ_MAGIC, msg_code = 0, msg_next = None,
              msg_src_thread = None, msg_waiter = Some (WaiterPool p), msg_pool = Some p\<rparr>)
            (upd_mp p (\<lambda>P. P\<lparr>mp_blockpool := bp\<rparr>) s)))"

definition vcos_msgq_pool_alloc ::
  "(u32 \<Rightarrow> 'e \<Rightarrow> ptr \<times> 'e) \<Rightarrow> addr \<Rightarrow> 'e mstate \<Rightarrow> (ptr \<times> 'e mstate) run" where
  "vcos_msgq_pool_alloc alloc p s =
     (case sem_wait (mp_sem (ms_pool s p)) of
        None \<Rightarrow> Returns (None, s)
      | Some n \<Rightarrow>
          (case pool_calloc alloc p (upd_mp p (\<lambda>P. P\<lparr>mp_sem := n\<rparr>) s) of
             Returns (m, s') \<Rightarrow> Returns (Some m, s')
           | Blocks \<Rightarrow> Blocks
           | Faults \<Rightarrow> Faults))"

definition vcos_msgq_pool_wait ::
  "(u32 \<Rightarrow> 'e \<Rightarrow> ptr \<times> 'e) \<Rightarrow> addr \<Rightarrow> 'e mstate \<Rightarrow> (addr \<times> 'e mstate) run" where
  "vcos_msgq_pool_wait alloc p s =
     (case sem_wait (mp_sem (ms_pool s p)) of
        None \<Rightarrow> Blocks
      | Some n \<Rightarrow> pool_calloc alloc p (upd_mp p (\<lambda>P. P\<lparr>mp_sem := n\<rparr>) s))"

definition null_together :: "'e mstate \<Rightarrow> bool" where
  "null_together s \<longleftrightarrow> (\<forall>q. mq_head (ms_queue s q) = None \<longleftrightarrow> mq_tail (ms_queue s q) = None)"

lemma null_together_append [inv_intros]: "null_together s \<Longrightarrow> null_together (msgq_append q m s)"
  by (auto simp: null_together_def msgq_append_def split: option.split)

lemma null_together_take [inv_intros]:
  "null_together s \<Longrightarrow> mq_head (ms_queue s q) \<noteq> None \<Longrightarrow> null_together (msgq_take q m s)"
  by (auto simp: null_together_def msgq_take_def Let_def)

lemma null_together_ops [inv_intros]:
  "null_together s \<Longrightarrow> null_together (vcos_msg_send_helper w t q code m s)"
  "null_together s \<Longrightarrow> vcos_msg_wait q s = Returns (m, s') \<Longrightarrow> null_together s'"
  "null_together s \<Longrightarrow> vcos_msg_peek q s = Returns (r, s') \<Longrightarrow> null_together s'"
proof -
  have post: "null_together (upd_mq q (\<lambda>Q. Q\<lparr>mq_sem := f Q\<rparr>) s) = null_together s" for f and s :: "'e mstate"
    unfolding null_together_def by (rule all_cong1) simp
  have post': "null_together (upd_mq q (mq_sem_update g) s) = null_together s" for g and s :: "'e mstate"
    unfolding null_together_def by (rule all_cong1) simp
  assume n: "null_together s"
  then have "null_together (msg_prepare w t code m s)" by (simp add: null_together_def msg_prepare_def)
  then show "null_together (vcos_msg_send_helper w t q code m s)"
    unfolding vcos_msg_send_helper_def msgq_post_def post by (rule null_together_append)
  show "null_together s'" if "vcos_msg_wait q s = Returns (m, s')"
    using that n post' by (auto simp: vcos_msg_wait_def Let_def intro!: null_together_take split: option.splits)
  show "null_together s'" if "vcos_msg_peek q s = Returns (r, s')"
  proof (cases "mq_head (ms_queue s q)")
    case None
    then show ?thesis using that n by (simp add: vcos_msg_peek_def)
  next
    case (Some m)
    then have "null_together (msgq_take q m s)" using null_together_take [OF n] by simp
    then show ?thesis using that Some
      by (auto simp: vcos_msg_peek_def Let_def post' split: option.splits)
  qed
qed

section \<open>The queue as a sequence of messages\<close>

definition msg_nexts :: "'e mstate \<Rightarrow> addr \<Rightarrow> ptr" where
  "msg_nexts s b = msg_next (ms_msg s b)"

text \<open>\<open>msgq_list\<close>: the links; \<open>msgq_repr\<close>: moreover the semaphore counts the messages.\<close>

definition msgq_list :: "addr \<Rightarrow> 'e mstate \<Rightarrow> addr list \<Rightarrow> bool" where
  "msgq_list q s xs \<longleftrightarrow> lpath (msg_nexts s) (mq_head (ms_queue s q)) xs None \<and> distinct xs
     \<and> mq_tail (ms_queue s q) = (if xs = [] then None else Some (last xs))"

definition msgq_repr :: "addr \<Rightarrow> 'e mstate \<Rightarrow> addr list \<Rightarrow> bool" where
  "msgq_repr q s xs \<longleftrightarrow> msgq_list q s xs \<and> mq_sem (ms_queue s q) = length xs"

lemma msg_nexts_upd [simp]:
  "msg_nexts (upd_msg b f s) = (msg_nexts s)(b := msg_next (f (ms_msg s b)))"
  "msg_nexts (upd_mq q g s) = msg_nexts s" "msg_nexts (upd_simple w k s) = msg_nexts s"
  "msg_nexts (upd_mp p h s) = msg_nexts s"
  by (auto simp: msg_nexts_def)

lemma msgq_append_list:
  assumes "msgq_list q s xs" and "b \<notin> set xs" and "msg_next (ms_msg s b) = None"
  shows "msgq_list q (msgq_append q b s) (xs @ [b])"
    and "mq_sem (ms_queue (msgq_append q b s) q) = mq_sem (ms_queue s q)"
proof -
  have b: "msg_nexts s b = None" by (simp add: msg_nexts_def assms(3))
  show "msgq_list q (msgq_append q b s) (xs @ [b])"
  proof (cases "xs = []")
    case True
    with assms b show ?thesis by (simp add: msgq_list_def msgq_append_def)
  next
    case False
    then have h: "mq_head (ms_queue s q) \<noteq> None" and t: "mq_tail (ms_queue s q) = Some (last xs)"
      using assms(1) by (cases xs; simp add: msgq_list_def)+
    have bl: "b \<noteq> last xs" using False assms(2) by auto
    then have "(msg_nexts s)(last xs := Some b, b := None) = (msg_nexts s)(last xs := Some b)"
      using b by (intro ext) auto
    with lpath_snoc [of "msg_nexts s" "mq_head (ms_queue s q)" xs b] False assms
    have "lpath ((msg_nexts s)(last xs := Some b)) (mq_head (ms_queue s q)) (xs @ [b]) None"
      by (simp add: msgq_list_def del: lpath_append)
    moreover obtain y where "mq_head (ms_queue s q) = Some y" using h by blast
    ultimately show ?thesis
      using t assms by (simp add: msgq_list_def msgq_append_def del: lpath_append)
  qed
  show "mq_sem (ms_queue (msgq_append q b s) q) = mq_sem (ms_queue s q)"
    by (auto simp: msgq_append_def split: option.split)
qed

lemma msgq_post_list [simp]:
  "msgq_list q (msgq_post r s) xs = msgq_list q s xs"
  "mq_sem (ms_queue (msgq_post r s) q) = (if r = q then Suc (mq_sem (ms_queue s q)) else mq_sem (ms_queue s q))"
  by (auto simp: msgq_list_def msgq_post_def sem_post_def)

lemma msg_prepare_list:
  assumes "msgq_list q s xs" and "b \<notin> set xs"
  shows "msgq_list q (msg_prepare w t code b s) xs" and "msg_next (ms_msg (msg_prepare w t code b s) b) = None"
    and "ms_queue (msg_prepare w t code b s) = ms_queue s"
  using assms by (auto simp: msgq_list_def msg_prepare_def)

lemma msgq_take_list:
  assumes "msgq_list q s (b # xs)"
  shows "msgq_list q (msgq_take q b s) xs"
    and "mq_sem (ms_queue (msgq_take q b s) q) = mq_sem (ms_queue s q)"
  using assms lpath_head [of "msg_nexts s" "msg_nexts s b" xs]
  by (auto simp: msgq_list_def msgq_take_def Let_def msg_nexts_def)

lemma msgq_repr_send [repr_intros]:
  assumes "msgq_repr q s xs" and "b \<notin> set xs"
  shows "msgq_repr q (vcos_msg_send_helper w t q code b s) (xs @ [b])"
proof -
  note p = msg_prepare_list [of q s xs b w t code]
  have "msgq_list q (msg_prepare w t code b s) xs" using assms p(1) by (simp add: msgq_repr_def)
  note a = msgq_append_list [OF this assms(2)]
  show ?thesis using a assms p(2,3) by (simp add: vcos_msg_send_helper_def msgq_repr_def)
qed

lemma msgq_peek_Nil: "msgq_repr q s [] \<Longrightarrow> vcos_msg_peek q s = Returns (None, s)"
  by (simp add: msgq_repr_def msgq_list_def vcos_msg_peek_def)

lemma sem_mq_list: "msgq_list q (upd_mq q (\<lambda>Q. Q\<lparr>mq_sem := n\<rparr>) s) xs = msgq_list q s xs"
  by (simp add: msgq_list_def)

lemma msgq_peek_Cons:
  assumes "msgq_repr q s (b # xs)"
  shows "\<exists>s'. vcos_msg_peek q s = Returns (Some b, s') \<and> msgq_repr q s' xs"
proof -
  have r: "msgq_list q s (b # xs)" "mq_sem (ms_queue s q) = Suc (length xs)"
    using assms by (simp_all add: msgq_repr_def)
  then have "mq_head (ms_queue s q) = Some b" by (simp add: msgq_list_def)
  then show ?thesis
    using msgq_take_list [OF r(1)] r(2)
    by (simp add: vcos_msg_peek_def msgq_repr_def sem_wait_def sem_mq_list)
qed

lemma msgq_wait_Cons:
  assumes "msgq_repr q s (b # xs)"
  shows "\<exists>s'. vcos_msg_wait q s = Returns (b, s') \<and> msgq_repr q s' xs"
proof -
  have r: "msgq_list q s (b # xs)" "mq_sem (ms_queue s q) = Suc (length xs)"
    using assms by (simp_all add: msgq_repr_def)
  let ?s1 = "upd_mq q (\<lambda>Q. Q\<lparr>mq_sem := length xs\<rparr>) s"
  have "msgq_list q ?s1 (b # xs)" using r(1) by (simp add: sem_mq_list)
  from msgq_take_list [OF this] have "msgq_repr q (msgq_take q b ?s1) xs"
    by (simp add: msgq_repr_def)
  moreover have "mq_head (ms_queue s q) = Some b" using r(1) by (simp add: msgq_list_def)
  ultimately show ?thesis using r(2) by (simp add: vcos_msg_wait_def sem_wait_def)
qed

lemma msgq_wait_Nil: "msgq_repr q s [] \<Longrightarrow> vcos_msg_wait q s = Blocks"
  by (simp add: msgq_repr_def vcos_msg_wait_def sem_wait_def)

definition msg_peeked :: "addr \<Rightarrow> 'e mstate \<Rightarrow> (ptr \<times> 'e mstate) option" where
  "msg_peeked q s = returned (vcos_msg_peek q s)"

definition msg_sent :: "ptr \<Rightarrow> u32 \<Rightarrow> addr \<Rightarrow> 'e mstate \<Rightarrow> addr \<Rightarrow> 'e mstate" where
  "msg_sent t code q s b = vcos_msg_send t q code b s"

interpretation vq: fifo "msgq_repr q" "msg_sent t code q" "msg_peeked q" for q t code
proof unfold_locales
  fix s :: "'a mstate" and xs b
  show "msgq_repr q s xs \<Longrightarrow> distinct xs" by (simp add: msgq_repr_def msgq_list_def)
  show "msgq_repr q s xs \<Longrightarrow> b \<notin> set xs \<Longrightarrow> msgq_repr q (msg_sent t code q s b) (xs @ [b])"
    by (simp add: msg_sent_def vcos_msg_send_def msgq_repr_send)
  show "msgq_repr q s [] \<Longrightarrow> msg_peeked q s = Some (None, s)"
    by (simp add: msg_peeked_def msgq_peek_Nil)
  show "msgq_repr q s (b # xs) \<Longrightarrow> \<exists>s'. msg_peeked q s = Some (Some b, s') \<and> msgq_repr q s' xs"
    using msgq_peek_Cons [of q s b xs] by (auto simp: msg_peeked_def)
qed

section \<open>Properties\<close>

fun wait_n :: "addr \<Rightarrow> nat \<Rightarrow> 'e mstate \<Rightarrow> (addr list \<times> 'e mstate) run" where
  "wait_n q 0 s = Returns ([], s)"
| "wait_n q (Suc n) s =
     (case vcos_msg_wait q s of
        Returns (m, s1) \<Rightarrow>
          (case wait_n q n s1 of
             Returns (ms, s2) \<Rightarrow> Returns (m # ms, s2)
           | Blocks \<Rightarrow> Blocks
           | Faults \<Rightarrow> Faults)
      | Blocks \<Rightarrow> Blocks
      | Faults \<Rightarrow> Faults)"

lemma wait_n_repr:
  "msgq_repr q s xs \<Longrightarrow> n \<le> length xs \<Longrightarrow>
   \<exists>s'. wait_n q n s = Returns (take n xs, s') \<and> msgq_repr q s' (drop n xs)"
proof (induction n arbitrary: s xs)
  case 0
  then show ?case by simp
next
  case (Suc n)
  then obtain m ys where xs: "xs = m # ys" by (cases xs) auto
  obtain s1 where "vcos_msg_wait q s = Returns (m, s1)" "msgq_repr q s1 ys"
    using msgq_wait_Cons Suc.prems(1) unfolding xs by blast
  with Suc.IH [of s1 ys] Suc.prems(2) xs show ?case by auto
qed

text \<open>Messages arrive in order: sending any distinct messages to an empty queue and then waiting
  that many times returns all of them, in the order they were sent, without blocking; one more
  \<open>vcos_msg_peek\<close> then finds the queue empty, and one more \<open>vcos_msg_wait\<close> blocks.\<close>

lemma messages_arrive_in_order:
  assumes "msgq_repr q s []" and "distinct ms"
  shows "\<exists>s'. wait_n q (length ms) (fold (\<lambda>m s. vcos_msg_send t q code m s) ms s) = Returns (ms, s')
    \<and> vcos_msg_peek q s' = Returns (None, s') \<and> vcos_msg_wait q s' = Blocks"
proof -
  have "msgq_repr q (fold (\<lambda>m s. msg_sent t code q s m) ms s) ([] @ ms)"
    using vq.repr_put_all [of q s "[]" ms t code] assms by simp
  then have r: "msgq_repr q (fold (\<lambda>m s. vcos_msg_send t q code m s) ms s) ms"
    by (simp add: msg_sent_def)
  from wait_n_repr [OF r, of "length ms"] msgq_peek_Nil msgq_wait_Nil show ?thesis by fastforce
qed

definition example_msgs :: "unit mstate" where
  "example_msgs = \<lparr>ms_msg = (\<lambda>_. \<lparr>msg_magic = 0, msg_code = 0, msg_next = None, msg_src_thread = None,
       msg_waiter = None, msg_pool = None\<rparr>),
     ms_queue = (\<lambda>_. \<lparr>mq_head = None, mq_tail = None, mq_sem = 0\<rparr>), ms_simple = (\<lambda>_. 0), ms_pool = (\<lambda>_. undefined)\<rparr>"

lemma example_msgs_repr: "msgq_repr q example_msgs []"
  by (simp add: msgq_repr_def msgq_list_def example_msgs_def)

lemma messages_arrive_in_order_witness:
  "\<exists>s'. wait_n 1 3 (fold (\<lambda>m s. vcos_msg_send None 1 5 m s) [30, 10, 20] example_msgs)
     = Returns ([30, 10, 20], s') \<and> vcos_msg_wait 1 s' = Blocks"
proof -
  have "distinct [30, 10, 20 :: addr]" by simp
  from messages_arrive_in_order [OF example_msgs_repr [of 1] this, of None 5]
  show ?thesis by (auto simp: numeral_3_eq_3 simp del: wait_n.simps)
qed

end
