(* ===== verification/Vcos_Msg_Reply.thy ===== *)
theory Vcos_Msg_Reply
  imports Vcos_Msgqueue
begin

text \<open>
  Replies (\<^verbatim>\<open>vcos_msgqueue.c\<close>): the send-and-wait protocol between a client on a simple waiter and
  a server that answers the messages of a queue in order, and replies that go to another queue.
\<close>

section \<open>Send and wait\<close>

text \<open>A server that takes and answers \<open>n\<close> messages of queue \<open>q\<close>.\<close>

fun serve :: "(addr \<Rightarrow> 'e \<Rightarrow> 'e) \<Rightarrow> addr \<Rightarrow> nat \<Rightarrow> 'e mstate \<Rightarrow> 'e mstate run" where
  "serve release q 0 s = Returns s"
| "serve release q (Suc n) s =
     (case vcos_msg_wait q s of
        Returns (m, s1) \<Rightarrow>
          (case vcos_msg_reply release m s1 of
             Returns s2 \<Rightarrow> serve release q n s2
           | Blocks \<Rightarrow> Blocks
           | Faults \<Rightarrow> Faults)
      | Blocks \<Rightarrow> Blocks
      | Faults \<Rightarrow> Faults)"

definition simple_waiter :: "'e mstate \<Rightarrow> addr \<Rightarrow> addr \<Rightarrow> bool" where
  "simple_waiter s m v \<longleftrightarrow> msg_waiter (ms_msg s m) = Some (WaiterSimple v)"

lemma wait_frame:
  assumes "vcos_msg_wait q s = Returns (m, s')"
  shows "ms_msg s' = ms_msg s" and "ms_simple s' = ms_simple s"
  using assms by (auto simp: vcos_msg_wait_def msgq_take_def Let_def split: option.splits)

lemma msgq_repr_cong:
  "msg_nexts s' = msg_nexts s \<Longrightarrow> ms_queue s' q = ms_queue s q \<Longrightarrow> msgq_repr q s' xs = msgq_repr q s xs"
  by (simp add: msgq_repr_def msgq_list_def)

lemma msgq_repr_simple [simp]: "msgq_repr q (upd_simple w f s) xs = msgq_repr q s xs"
  by (rule msgq_repr_cong) simp_all

lemma reply_simple:
  assumes "simple_waiter s m v"
  shows "\<exists>s'. vcos_msg_reply release m s = Returns s' \<and> ms_simple s' = (ms_simple s)(v := Suc (ms_simple s v))
    \<and> ms_queue s' = ms_queue s \<and> msg_nexts s' = msg_nexts s
    \<and> (\<forall>b. msg_waiter (ms_msg s' b) = msg_waiter (ms_msg s b))
    \<and> msg_code (ms_msg s' m) = msg_code (ms_msg s m) OR MSG_REPLY_BIT
    \<and> (\<forall>b. b \<noteq> m \<longrightarrow> ms_msg s' b = ms_msg s b)"
  using assms
  by (auto simp: simple_waiter_def vcos_msg_reply_def Let_def sem_post_def msg_nexts_def)

text \<open>One round of the server.\<close>

lemma serve_one:
  assumes r: "msgq_repr q s (m # xs)" and w: "simple_waiter s m v"
  shows "\<exists>s'. (\<forall>n. serve release q (Suc n) s = serve release q n s') \<and> msgq_repr q s' xs
    \<and> ms_simple s' = (ms_simple s)(v := Suc (ms_simple s v))
    \<and> (\<forall>b u. simple_waiter s' b u = simple_waiter s b u)
    \<and> msg_code (ms_msg s' m) = msg_code (ms_msg s m) OR MSG_REPLY_BIT
    \<and> (\<forall>b. b \<noteq> m \<longrightarrow> ms_msg s' b = ms_msg s b)"
proof -
  obtain s1 where s1: "vcos_msg_wait q s = Returns (m, s1)" "msgq_repr q s1 xs"
    using msgq_wait_Cons [OF r] by blast
  note f = wait_frame [OF s1(1)]
  have "simple_waiter s1 m v" using w f by (simp add: simple_waiter_def)
  then obtain s2 where s2: "vcos_msg_reply release m s1 = Returns s2"
    "ms_simple s2 = (ms_simple s1)(v := Suc (ms_simple s1 v))"
    "ms_queue s2 = ms_queue s1" "msg_nexts s2 = msg_nexts s1"
    "\<forall>b. msg_waiter (ms_msg s2 b) = msg_waiter (ms_msg s1 b)"
    "msg_code (ms_msg s2 m) = msg_code (ms_msg s1 m) OR MSG_REPLY_BIT"
    "\<forall>b. b \<noteq> m \<longrightarrow> ms_msg s2 b = ms_msg s1 b"
    using reply_simple by blast
  have "msgq_repr q s2 xs" using s1(2) s2(3,4) msgq_repr_cong by metis
  with s1 s2 f show ?thesis by (intro exI [of _ s2]) (simp add: simple_waiter_def)
qed

lemma serve_others:
  assumes "msgq_repr q s (xs @ ys)" and "\<And>m. m \<in> set xs \<Longrightarrow> \<exists>v. v \<noteq> w \<and> simple_waiter s m v"
  shows "\<exists>s'. serve release q (length xs) s = Returns s'
    \<and> (\<forall>n. serve release q (length xs + n) s = serve release q n s')
    \<and> msgq_repr q s' ys \<and> ms_simple s' w = ms_simple s w
    \<and> (\<forall>b u. simple_waiter s' b u = simple_waiter s b u)
    \<and> (\<forall>b. b \<notin> set xs \<longrightarrow> ms_msg s' b = ms_msg s b)"
  using assms
proof (induction xs arbitrary: s)
  case Nil
  then show ?case by (intro exI [of _ s]) simp
next
  case (Cons m xs)
  then obtain v where v: "v \<noteq> w" "simple_waiter s m v" by force
  from Cons.prems(1) have "msgq_repr q s (m # (xs @ ys))" by simp
  from serve_one [OF this v(2), of release] obtain s1
    where step: "\<forall>n. serve release q (Suc n) s = serve release q n s1"
      and s1: "msgq_repr q s1 (xs @ ys)" "ms_simple s1 = (ms_simple s)(v := Suc (ms_simple s v))"
        "\<forall>b u. simple_waiter s1 b u = simple_waiter s b u" "\<forall>b. b \<noteq> m \<longrightarrow> ms_msg s1 b = ms_msg s b"
    by blast
  have "\<exists>v. v \<noteq> w \<and> simple_waiter s1 b v" if "b \<in> set xs" for b
    using Cons.prems(2) [of b] that s1(3) by simp
  from Cons.IH [OF s1(1) this] obtain s' where "serve release q (length xs) s1 = Returns s'"
    "\<forall>n. serve release q (length xs + n) s1 = serve release q n s'" "msgq_repr q s' ys"
    "ms_simple s' w = ms_simple s1 w" "\<forall>b u. simple_waiter s' b u = simple_waiter s1 b u"
    "\<forall>b. b \<notin> set xs \<longrightarrow> ms_msg s' b = ms_msg s1 b"
    by blast
  with step s1 v(1) show ?case by (intro exI [of _ s']) (simp del: serve.simps)
qed

text \<open>
  The client's wait ends exactly with the reply to its own message: it blocks while the server
  works through the messages that were queued before, and returns once the server has answered
  one message more, whose code then carries the reply bit.
\<close>

lemma append_waiters:
  "msg_waiter (ms_msg (msgq_append q b s) m) = msg_waiter (ms_msg s m)"
  "msg_code (ms_msg (msgq_append q b s) m) = msg_code (ms_msg s m)"
  "ms_simple (msgq_append q b s) = ms_simple s"
  by (auto simp: msgq_append_def split: option.split)

lemma send_helper_fields:
  "ms_simple (vcos_msg_send_helper wt t q code b s) = ms_simple s"
  "msg_code (ms_msg (vcos_msg_send_helper wt t q code b s) b) = code"
  "simple_waiter (vcos_msg_send_helper (Some (WaiterSimple w)) t q code b s) m v =
     (if m = b then v = w else simple_waiter s m v)"
  by (auto simp: vcos_msg_send_helper_def msgq_post_def append_waiters msg_prepare_def simple_waiter_def)

lemma sendwait_reply:
  assumes r: "msgq_repr q s xs" and b: "b \<notin> set xs"
    and ws: "\<And>m. m \<in> set xs \<Longrightarrow> \<exists>v. v \<noteq> w \<and> simple_waiter s m v"
  shows "\<exists>s1 s2 s3 s4. vcos_msg_sendwait_start VCOS_SUCCESS w t q code b s = (VCOS_SUCCESS, s1)
    \<and> serve release q (length xs) s1 = Returns s2 \<and> vcos_msg_sendwait_finish w s2 = Blocks
    \<and> serve release q (length xs + 1) s1 = Returns s3 \<and> vcos_msg_sendwait_finish w s3 = Returns s4
    \<and> msg_code (ms_msg s4 b) = code OR MSG_REPLY_BIT \<and> msgq_repr q s4 []"
proof -
  let ?s0 = "upd_simple w (\<lambda>_. 0) s"
  let ?s1 = "vcos_msg_send_helper (Some (WaiterSimple w)) t q code b ?s0"
  have "msgq_repr q ?s0 xs" using r by simp
  then have r1: "msgq_repr q ?s1 (xs @ [b])" by (rule msgq_repr_send [OF _ b])
  have w1: "\<exists>v. v \<noteq> w \<and> simple_waiter ?s1 m v" if "m \<in> set xs" for m
    using ws [OF that] that b by (auto simp: send_helper_fields) (auto simp: simple_waiter_def)
  obtain s2 where s2: "serve release q (length xs) ?s1 = Returns s2"
    "\<forall>n. serve release q (length xs + n) ?s1 = serve release q n s2" "msgq_repr q s2 [b]"
    "ms_simple s2 w = 0" "\<forall>m v. simple_waiter s2 m v = simple_waiter ?s1 m v" "ms_msg s2 b = ms_msg ?s1 b"
    using serve_others [OF r1 w1, of release] b by (auto simp: send_helper_fields(1))
  have "simple_waiter s2 b w" using s2(5) by (simp add: send_helper_fields)
  from serve_one [OF s2(3) this, of release] obtain s3 where s3: "\<forall>n. serve release q (Suc n) s2 = serve release q n s3"
    "msgq_repr q s3 []" "ms_simple s3 = (ms_simple s2)(w := Suc (ms_simple s2 w))"
    "msg_code (ms_msg s3 b) = msg_code (ms_msg s2 b) OR MSG_REPLY_BIT"
    by blast
  have "serve release q (length xs + 1) ?s1 = Returns s3" 
  proof -
    have "serve release q (length xs + 1) ?s1 = serve release q (Suc 0) s2"
      unfolding One_nat_def using s2(2) by (rule spec)
    also have "\<dots> = serve release q 0 s3" using s3(1) by blast
    finally show ?thesis by simp
  qed
  moreover have "msgq_repr q (upd_simple w (\<lambda>_. 0) s3) []" using s3(2) by simp
  ultimately show ?thesis
    using s2(1,4,6) s3 by (auto simp: vcos_msg_sendwait_start_def vcos_msg_sendwait_finish_def send_helper_fields)
qed

section \<open>Replies to a queue\<close>

text \<open>A message whose \<open>next\<close> pointer is null is appended to its reply queue.\<close>

lemma reply_queue:
  assumes "msgq_repr r s ys" and "b \<notin> set ys" and "msg_next (ms_msg s b) = None"
    and "msg_waiter (ms_msg s b) = Some (WaiterQueue r)"
  shows "\<exists>s'. vcos_msg_reply release b s = Returns s' \<and> msgq_repr r s' (ys @ [b])"
proof -
  let ?s1 = "upd_msg b (\<lambda>M. M\<lparr>msg_code := msg_code M OR MSG_REPLY_BIT\<rparr>) s"
  have nx: "msg_nexts ?s1 = msg_nexts s" by (auto simp: msg_nexts_def)
  then have "msgq_list r ?s1 ys" using assms(1) by (simp add: msgq_repr_def msgq_list_def)
  note a = msgq_append_list [OF this assms(2)]
  have "msg_next (ms_msg ?s1 b) = None" using assms(3) by simp
  with a assms(1) have "msgq_repr r (vcos_msgq_queue_waiter_on_reply r b ?s1) (ys @ [b])"
    by (simp add: vcos_msgq_queue_waiter_on_reply_def msgq_repr_def)
  with assms(4) show ?thesis by (simp add: vcos_msg_reply_def Let_def)
qed

text \<open>
  But a message that was taken while others were queued behind it still points to the next one,
  and the reply does not clear that pointer: the receiver of the reply finds the server's queued
  message \<open>n\<close> at the head of its own queue, and its next wait returns \<open>n\<close> instead of the message
  \<open>k\<close> that was sent to it.
\<close>

lemma stale_reply:
  assumes A: "msgq_repr a s (m # n # xs)" and B: "msgq_repr b s []" and ab: "a \<noteq> b"
    and w: "msg_waiter (ms_msg s m) = Some (WaiterQueue b)" and k: "k \<notin> {m, n}"
  shows "\<exists>s1 s2 s3 s4 s5. vcos_msg_wait a s = Returns (m, s1) \<and> vcos_msg_reply release m s1 = Returns s2
    \<and> vcos_msg_wait b s2 = Returns (m, s3) \<and> s4 = vcos_msg_send t b code k s3
    \<and> vcos_msg_wait b s4 = Returns (n, s5) \<and> mq_head (ms_queue s5 a) = Some n"
proof -
  have a: "mq_head (ms_queue s a) = Some m" "msg_next (ms_msg s m) = Some n" "m \<noteq> n"
    "mq_sem (ms_queue s a) = Suc (Suc (length xs))"
    using A by (auto simp: msgq_repr_def msgq_list_def msg_nexts_def)
  have b: "mq_head (ms_queue s b) = None" "mq_sem (ms_queue s b) = 0"
    using B by (auto simp: msgq_repr_def msgq_list_def)
  show ?thesis
    using a b ab w k
    by (simp add: vcos_msg_wait_def msgq_take_def vcos_msg_reply_def vcos_msgq_queue_waiter_on_reply_def
        msgq_append_def msgq_post_def sem_post_def vcos_msg_send_def vcos_msg_send_helper_def msg_prepare_def Let_def)
qed

section \<open>Properties\<close>

text \<open>C24. Send and wait: when the messages queued before it are those of other clients that wait in the
  same way (each with a simple waiter of its own) and its waiter could be created, a client's
  \<open>vcos_msg_sendwait\<close> stays blocked while the server answers those, and returns as soon as the server
  has answered one message more; its own message then carries the reply bit and the queue is empty.\<close>

theorem sendwait_returns_with_reply:
  assumes "msgq_repr q s xs" and "b \<notin> set xs"
    and "\<forall>m \<in> set xs. \<exists>v. v \<noteq> w \<and> simple_waiter s m v"
  shows "\<exists>s1 s2 s3 s4. vcos_msg_sendwait_start VCOS_SUCCESS w t q code b s = (VCOS_SUCCESS, s1)
    \<and> serve release q (length xs) s1 = Returns s2 \<and> vcos_msg_sendwait_finish w s2 = Blocks
    \<and> serve release q (length xs + 1) s1 = Returns s3 \<and> vcos_msg_sendwait_finish w s3 = Returns s4
    \<and> msg_code (ms_msg s4 b) = code OR MSG_REPLY_BIT \<and> msgq_repr q s4 []"
  using sendwait_reply [OF assms(1,2)] assms(3) by blast

theorem sendwait_returns_with_reply_witness:
  "\<exists>s0 s1 s2 s3 s4. vcos_msg_sendwait_start VCOS_SUCCESS 500 None 100 5 10 example_msgs = (VCOS_SUCCESS, s0)
    \<and> vcos_msg_sendwait_start VCOS_SUCCESS 600 None 100 7 20 s0 = (VCOS_SUCCESS, s1)
    \<and> serve (\<lambda>_ e. e) 100 1 s1 = Returns s2 \<and> vcos_msg_sendwait_finish 600 s2 = Blocks
    \<and> serve (\<lambda>_ e. e) 100 2 s1 = Returns s3 \<and> vcos_msg_sendwait_finish 600 s3 = Returns s4
    \<and> msg_code (ms_msg s4 20) = 7 OR MSG_REPLY_BIT"
proof -
  let ?s0 = "snd (vcos_msg_sendwait_start VCOS_SUCCESS 500 None 100 5 10 example_msgs)"
  have e: "?s0 = vcos_msg_send_helper (Some (WaiterSimple 500)) None 100 5 10 (upd_simple 500 (\<lambda>_. 0) example_msgs)"
    by (simp add: vcos_msg_sendwait_start_def)
  have r: "msgq_repr 100 ?s0 ([] @ [10])" unfolding e
    by (rule msgq_repr_send) (simp_all add: example_msgs_repr)
  have "simple_waiter ?s0 10 500" unfolding e by (simp add: send_helper_fields)
  then have "\<forall>m \<in> set ([] @ [10]). \<exists>v. v \<noteq> 600 \<and> simple_waiter ?s0 m v" by (auto intro!: exI [of _ 500])
  moreover have "20 \<notin> set ([] @ [10 :: addr])" by simp
  ultimately obtain s1 s2 s3 s4 where
    "vcos_msg_sendwait_start VCOS_SUCCESS 600 None 100 7 20 ?s0 = (VCOS_SUCCESS, s1)"
    "serve (\<lambda>_ e. e) 100 1 s1 = Returns s2" "vcos_msg_sendwait_finish 600 s2 = Blocks"
    "serve (\<lambda>_ e. e) 100 2 s1 = Returns s3" "vcos_msg_sendwait_finish 600 s3 = Returns s4"
    "msg_code (ms_msg s4 20) = 7 OR MSG_REPLY_BIT"
    using sendwait_returns_with_reply [OF r, of 20 600 None 7 "\<lambda>_ e. e"] by (auto simp: numeral_2_eq_2)
  moreover have "vcos_msg_sendwait_start VCOS_SUCCESS 500 None 100 5 10 example_msgs = (VCOS_SUCCESS, ?s0)"
    by (simp add: vcos_msg_sendwait_start_def)
  ultimately show ?thesis by blast
qed

text \<open>Replying to a queue loses messages: \<open>vcos_msg_reply\<close> appends a message without clearing its
  \<open>next\<close> pointer, which after \<open>vcos_msg_wait\<close> still points at the message \<open>n\<close> that was queued behind
  it. When the client takes the reply from its own queue and another thread then sends it \<open>k\<close>, its
  next wait returns the server's message \<open>n\<close>, which the server's queue still holds, and not \<open>k\<close>.\<close>

lemma reply_with_stale_next:
  assumes "msgq_repr a s (m # n # xs)" and "msgq_repr b s []" and "a \<noteq> b"
    and "msg_waiter (ms_msg s m) = Some (WaiterQueue b)" and "k \<notin> {m, n}"
  shows "\<exists>s1 s2 s3 s4 s5. vcos_msg_wait a s = Returns (m, s1) \<and> vcos_msg_reply release m s1 = Returns s2
    \<and> vcos_msg_wait b s2 = Returns (m, s3) \<and> s4 = vcos_msg_send t b code k s3
    \<and> vcos_msg_wait b s4 = Returns (n, s5) \<and> mq_head (ms_queue s5 a) = Some n"
  using stale_reply [OF assms] .

lemma reply_with_stale_next_witness:
  "\<exists>s s1 s2 s3 s5. s = vcos_msg_send None 100 6 20 (vcos_msg_send None 100 5 10 (vcos_msg_set_source 10 200 example_msgs))
    \<and> vcos_msg_wait 100 s = Returns (10, s1) \<and> vcos_msg_reply (\<lambda>_ e. e) 10 s1 = Returns s2
    \<and> vcos_msg_wait 200 s2 = Returns (10, s3) \<and> vcos_msg_wait 200 (vcos_msg_send None 200 9 30 s3) = Returns (20, s5)"
proof -
  let ?s = "vcos_msg_send None 100 6 20 (vcos_msg_send None 100 5 10 (vcos_msg_set_source 10 200 example_msgs))"
  have c: "msg_waiter (ms_msg ?s 10) = Some (WaiterQueue 200)"
    "ms_queue ?s 100 = \<lparr>mq_head = Some 10, mq_tail = Some 20, mq_sem = 2\<rparr>" "msg_nexts ?s 10 = Some 20"
    "msg_nexts ?s 20 = None" "ms_queue ?s 200 = \<lparr>mq_head = None, mq_tail = None, mq_sem = 0\<rparr>"
    by (simp_all add: vcos_msg_send_def vcos_msg_send_helper_def msg_prepare_def msgq_append_def msgq_post_def
        vcos_msg_set_source_def example_msgs_def sem_post_def msg_nexts_def)
  have a: "msgq_repr 100 ?s [10, 20]" and b: "msgq_repr 200 ?s []"
    by (simp_all add: msgq_repr_def msgq_list_def c)
  from reply_with_stale_next [OF a b _ c(1), of 30 "\<lambda>_ e. e" None 9] show ?thesis by auto
qed

end
