(* ===== verification/Vcos_Blockpool_Facts.thy ===== *)
theory Vcos_Blockpool_Facts
  imports Vcos_Blockpool
begin

text \<open>
  Correctness of the block pools over any \<open>region_allocator\<close>: the invariant that ties the free
  lists, the owner words and the counts together, what allocation and release do to the set of
  allocated blocks, alignment, the handles, and which memory deletion gives back.
\<close>

section \<open>Alignment arithmetic\<close>

definition align_ok :: "u32 \<Rightarrow> bool" where
  "align_ok al \<longleftrightarrow> (\<exists>k. 2 \<le> k \<and> k < 32 \<and> al = 2 ^ k)"

lemma unat_of_nat_small: "n < 2 ^ 32 \<Longrightarrow> unat (of_nat n :: u32) = n"
  unfolding unat_of_nat by simp

lemma unat_pow2: "k < 32 \<Longrightarrow> unat ((2 :: u32) ^ k) = 2 ^ k"
proof -
  assume "k < 32"
  then have "(2 :: nat) ^ k < 2 ^ 32" by (intro power_strict_increasing) simp_all
  then have "unat (of_nat (2 ^ k) :: u32) = 2 ^ k" by (rule unat_of_nat_small)
  then show ?thesis by simp
qed

lemma round_up_pow2:
  fixes x :: u32
  assumes "k < 32" and "unat x + 2 ^ k \<le> 2 ^ 32"
  shows "unat (BLOCKPOOL_ROUND_UP x (2 ^ k)) = (unat x + (2 ^ k - 1)) div 2 ^ k * 2 ^ k"
proof -
  have p: "unat ((2 :: u32) ^ k) = 2 ^ k" using assms(1) by (simp add: unat_pow2)
  have p1: "unat ((2 :: u32) ^ k - 1) = 2 ^ k - 1"
    using assms(1) p by (simp add: unat_minus_one)
  have s: "unat (x + (2 ^ k - 1)) = unat x + (2 ^ k - 1)"
    using assms(2) p1 by (simp add: unat_word_ariths)
  let ?y = "x + (2 ^ k - 1)"
  have "?y AND NOT (2 ^ k - 1) = push_bit k (drop_bit k ?y)"
    using and_not_mask [of ?y k] by (simp add: mask_eq_exp_minus_1)
  moreover have d: "unat (drop_bit k ?y) = unat ?y div 2 ^ k"
    unfolding drop_bit_eq_div by (simp add: unat_div_distrib p)
  moreover have "unat ?y div 2 ^ k * 2 ^ k < 2 ^ 32"
  proof -
    have "unat ?y < 2 ^ 32" using unsigned_less [of ?y, where ?'a = nat] by simp
    then show ?thesis by (rule le_less_trans [OF div_times_less_eq_dividend])
  qed
  ultimately have "unat (?y AND NOT (2 ^ k - 1)) = unat ?y div 2 ^ k * 2 ^ k"
    using assms(1) by (simp add: push_bit_eq_mult unat_word_ariths p mult.commute)
  then show ?thesis by (simp add: BLOCKPOOL_ROUND_UP_def s)
qed

lemma round_up_bounds:
  assumes al: "align_ok al" and fit: "unat x + unat al \<le> 2 ^ 32"
  shows "unat x \<le> unat (BLOCKPOOL_ROUND_UP x al)"
    and "unat (BLOCKPOOL_ROUND_UP x al) < unat x + unat al"
    and "unat al dvd unat (BLOCKPOOL_ROUND_UP x al)"
proof -
  from al obtain k where k: "k < 32" "al = 2 ^ k" by (auto simp: align_ok_def)
  have p: "unat al = 2 ^ k" using k by (simp add: unat_pow2)
  have e: "unat (BLOCKPOOL_ROUND_UP x al) = (unat x + (2 ^ k - 1)) div 2 ^ k * 2 ^ k"
    using round_up_pow2 [of k x] fit k p by simp
  let ?n = "(2 :: nat) ^ k"
  have n: "0 < ?n" by simp
  have m: "(unat x + (?n - 1)) div ?n * ?n + (unat x + (?n - 1)) mod ?n = unat x + (?n - 1)"
    by (rule div_mult_mod_eq)
  have "(unat x + (?n - 1)) mod ?n < ?n" using n by (rule mod_less_divisor)
  with m show "unat x \<le> unat (BLOCKPOOL_ROUND_UP x al)" unfolding e using n by linarith
  show "unat (BLOCKPOOL_ROUND_UP x al) < unat x + unat al"
    unfolding e p using m n by linarith
  show "unat al dvd unat (BLOCKPOOL_ROUND_UP x al)" unfolding e p by simp
qed

lemma align_ok_4: "align_ok al \<Longrightarrow> 4 dvd unat al" "align_ok al \<Longrightarrow> 4 \<le> unat al"
proof -
  assume "align_ok al"
  then obtain k where k: "2 \<le> k" "k < 32" "al = 2 ^ k" by (auto simp: align_ok_def)
  then have p: "unat al = 2 ^ k" by (simp add: unat_pow2)
  then show "4 dvd unat al" using le_imp_power_dvd [OF k(1), of "2 :: nat"] by simp
  then show "4 \<le> unat al" using p dvd_imp_le [of 4 "unat al"] by simp
qed

lemma align_and_3: "align_ok al \<Longrightarrow> al AND 3 = 0"
proof -
  assume "align_ok al"
  then obtain k where k: "2 \<le> k" "al = 2 ^ k" by (auto simp: align_ok_def)
  have "(2 ^ k :: u32) AND mask 2 = 0"
    by (rule bit_word_eqI) (use k(1) in \<open>auto simp: bit_simps\<close>)
  then show ?thesis using k(2) by (simp add: mask_eq_exp_minus_1)
qed

lemma first_block_bounds:
  assumes al: "align_ok al" and fit: "m + 4 + unat al \<le> 2 ^ 32"
  shows "m \<le> first_block m al" and "first_block m al < m + unat al"
    and "unat al dvd first_block m al + 4"
proof -
  have u: "unat (of_nat (m + 4) :: u32) = m + 4"
    using fit align_ok_4 [OF al] by (intro unat_of_nat_small) simp
  have f: "first_block m al = unat (BLOCKPOOL_ROUND_UP (of_nat (m + 4)) al) - 4"
    by (simp add: first_block_def SIZEOF_BLOCK_HEADER_def)
  note b = round_up_bounds [OF al, of "of_nat (m + 4)", unfolded u, OF fit]
  show "m \<le> first_block m al" and "first_block m al < m + unat al"
    and "unat al dvd first_block m al + 4"
    using b by (simp_all add: f)
qed

text \<open>A block's size is a multiple of the alignment and covers the header and the data.\<close>

definition sizes_fit :: "u32 \<Rightarrow> u32 \<Rightarrow> u32 \<Rightarrow> bool" where
  "sizes_fit num_blocks block_size al \<longleftrightarrow> align_ok al \<and> 0 < block_size
     \<and> unat block_size + 36 + unat al < 2 ^ 32
     \<and> unat (block_size_of block_size al) * unat num_blocks + unat al < 2 ^ 32"

lemma block_size_of_bounds:
  assumes "align_ok al" and "unat block_size + 36 + unat al < 2 ^ 32"
  shows "unat block_size + 4 \<le> unat (block_size_of block_size al)"
    and "unat al dvd unat (block_size_of block_size al)"
proof -
  let ?x = "block_size + (if al \<ge> 4096 then 32 else 0) + of_nat SIZEOF_BLOCK_HEADER"
  have u: "unat ?x = unat block_size + (if al \<ge> 4096 then 32 else 0) + 4"
    using assms(2) by (simp add: SIZEOF_BLOCK_HEADER_def unat_word_ariths)
  have fit: "unat ?x + unat al \<le> 2 ^ 32" using assms(2) u by (auto split: if_splits)
  note b = round_up_bounds [OF assms(1) fit]
  show "unat block_size + 4 \<le> unat (block_size_of block_size al)"
    using b(1) u by (simp add: block_size_of_def)
  show "unat al dvd unat (block_size_of block_size al)" using b(3) by (simp add: block_size_of_def)
qed

lemma sizes_fit_8:
  assumes "sizes_fit n block_size al"
  shows "8 \<le> unat (block_size_of block_size al)"
proof -
  have al: "align_ok al" and pos: "0 < unat block_size" and f: "unat block_size + 36 + unat al < 2 ^ 32"
    using assms by (auto simp: sizes_fit_def word_less_nat_alt)
  note b = block_size_of_bounds [OF al f]
  have "4 dvd unat (block_size_of block_size al)" using align_ok_4(1) [OF al] b(2) by (rule dvd_trans)
  then obtain c where "unat (block_size_of block_size al) = 4 * c" by (rule dvdE)
  with b(1) pos show ?thesis by simp
qed

lemma unat_BLOCKPOOL_SIZE:
  "sizes_fit n block_size al \<Longrightarrow>
   unat (BLOCKPOOL_SIZE n block_size al) = unat (block_size_of block_size al) * unat n + unat al"
  by (simp add: sizes_fit_def BLOCKPOOL_SIZE_def unat_word_ariths)

section \<open>The free list\<close>

definition next_of :: "(addr \<Rightarrow> owner) \<Rightarrow> addr \<Rightarrow> ptr" where
  "next_of hdr a = (case hdr a of OwnerNext p \<Rightarrow> p | OwnerSubpool _ \<Rightarrow> None)"

lemma next_of_upd [simp]: "next_of (hdr(a := OwnerNext p)) = (next_of hdr)(a := p)"
  by (auto simp: next_of_def)

definition blocks_from :: "addr \<Rightarrow> nat \<Rightarrow> nat \<Rightarrow> addr list" where
  "blocks_from s bs n = map (\<lambda>k. s + k * bs) [0..<n]"

lemma blocks_from_Suc: "blocks_from s bs (Suc n) = s # blocks_from (s + bs) bs n"
proof -
  have "[0..<Suc n] = 0 # map Suc [0..<n]" by (simp add: upt_conv_Cons map_Suc_upt)
  then show ?thesis by (simp add: blocks_from_def add.assoc)
qed

lemma set_blocks_from: "a \<in> set (blocks_from s bs n) \<longleftrightarrow> (\<exists>k < n. a = s + k * bs)"
  by (auto simp: blocks_from_def)

lemma distinct_blocks_from: "0 < bs \<Longrightarrow> distinct (blocks_from s bs n)"
  by (auto simp: blocks_from_def distinct_map inj_on_def)

lemma length_blocks_from [simp]: "length (blocks_from s bs n) = n"
  by (simp add: blocks_from_def)

lemma blocks_from_range:
  assumes "a \<in> set (blocks_from s bs n)" shows "s \<le> a" and "a + bs \<le> s + n * bs"
proof -
  obtain k where k: "k < n" "a = s + k * bs" using assms by (auto simp: set_blocks_from)
  have "Suc k * bs \<le> n * bs" using k(1) by (intro mult_le_mono1) simp
  then show "s \<le> a" and "a + bs \<le> s + n * bs" using k(2) by simp_all
qed

lemma blocks_from_disjoint:
  assumes "s + n * bs \<le> t \<or> t + m * bs \<le> s" and "0 < bs"
  shows "set (blocks_from s bs n) \<inter> set (blocks_from t bs m) = {}"
proof -
  have False if "a \<in> set (blocks_from s bs n)" "a \<in> set (blocks_from t bs m)" for a
    using blocks_from_range [OF that(1)] blocks_from_range [OF that(2)] assms by linarith
  then show ?thesis by blast
qed

lemma free_list_loop_result:
  assumes "0 < bs" and "lpath (next_of hdr) fl xs None" and "set xs \<inter> set (blocks_from s bs n) = {}"
  shows "\<exists>fl' hdr'. free_list_loop bs s (s + n * bs) fl hdr = Some (fl', hdr')
    \<and> lpath (next_of hdr') fl' (rev (blocks_from s bs n) @ xs) None
    \<and> (\<forall>a \<in> set (blocks_from s bs n). \<exists>q. hdr' a = OwnerNext q)
    \<and> (\<forall>a. a \<notin> set (blocks_from s bs n) \<longrightarrow> hdr' a = hdr a)"
  using assms(2,3)
proof (induction n arbitrary: s fl hdr xs)
  case 0
  then show ?case by (subst free_list_loop.simps) (simp add: blocks_from_def)
next
  case (Suc n)
  let ?hdr = "hdr(s := OwnerNext fl)"
  let ?bl = "blocks_from (s + bs) bs n"
  have s: "s \<notin> set xs" "s \<notin> set ?bl"
    using Suc.prems(2) assms(1) by (auto simp: blocks_from_Suc set_blocks_from)
  have "lpath (next_of ?hdr) (Some s) (s # xs) None" using Suc.prems(1) s(1) by simp
  moreover have "set (s # xs) \<inter> set ?bl = {}" using Suc.prems(2) s by (auto simp: blocks_from_Suc)
  ultimately obtain fl' hdr' where r: "free_list_loop bs (s + bs) (s + bs + n * bs) (Some s) ?hdr = Some (fl', hdr')"
      "lpath (next_of hdr') fl' (rev ?bl @ s # xs) None" "\<forall>a \<in> set ?bl. \<exists>q. hdr' a = OwnerNext q"
      "\<forall>a. a \<notin> set ?bl \<longrightarrow> hdr' a = ?hdr a"
    using Suc.IH [of ?hdr "Some s" "s # xs" "s + bs"] by blast
  have "free_list_loop bs s (s + Suc n * bs) fl hdr = Some (fl', hdr')"
    using r(1) assms(1) by (subst free_list_loop.simps) (simp add: add.assoc)
  moreover have "\<forall>a \<in> set (blocks_from s bs (Suc n)). \<exists>q. hdr' a = OwnerNext q"
    using r(3,4) s(2) by (auto simp: blocks_from_Suc)
  ultimately show ?case using r(2,4) by (auto simp: blocks_from_Suc)
qed

section \<open>The invariant\<close>

definition sub_blocks :: "'e blockpool \<Rightarrow> nat \<Rightarrow> addr list" where
  "sub_blocks p i = (case sp_start (bp_subpools p i) of
     None \<Rightarrow> []
   | Some s \<Rightarrow> blocks_from s (unat (bp_block_size p)) (unat (sp_num_blocks (bp_subpools p i))))"

text \<open>The free list of a subpool holds its free blocks, in number what the count says.\<close>

definition free_list_inv :: "'e blockpool \<Rightarrow> nat \<Rightarrow> bool" where
  "free_list_inv p i \<longleftrightarrow>
     (\<exists>fl. lpath (next_of (bp_owner p)) (sp_free_list (bp_subpools p i)) fl None \<and> distinct fl
        \<and> length fl = unat (sp_available_blocks (bp_subpools p i))
        \<and> set fl = {a \<in> set (sub_blocks p i). \<exists>q. bp_owner p a = OwnerNext q})
     \<and> (\<forall>a \<in> set (sub_blocks p i). bp_owner p a = OwnerSubpool i \<or> (\<exists>q. bp_owner p a = OwnerNext q))"

definition extent_inv :: "('e \<Rightarrow> addr set) \<Rightarrow> ('e \<Rightarrow> addr \<Rightarrow> nat) \<Rightarrow> 'e blockpool \<Rightarrow> nat \<Rightarrow> bool" where
  "extent_inv live region p i \<longleftrightarrow>
     (let s = bp_subpools p i in
      case (sp_mem s, sp_start s) of
        (None, None) \<Rightarrow> True
      | (Some m, Some st) \<Rightarrow> m \<in> live (bp_env p) \<and> m \<le> st
          \<and> st + unat (sp_num_blocks s) * unat (bp_block_size p) < m + region (bp_env p) m
          \<and> unat (bp_align p) dvd st + 4
      | _ \<Rightarrow> False)"

definition sub_inv :: "('e \<Rightarrow> addr set) \<Rightarrow> ('e \<Rightarrow> addr \<Rightarrow> nat) \<Rightarrow> 'e blockpool \<Rightarrow> nat \<Rightarrow> bool" where
  "sub_inv live region p i \<longleftrightarrow> sp_magic (bp_subpools p i) = SUBPOOL_MAGIC
     \<and> sp_flags (bp_subpools p i) AND FLAG_EXTENSION = 0 \<and> extent_inv live region p i
     \<and> (sp_start (bp_subpools p i) \<noteq> None \<longrightarrow> free_list_inv p i)"

definition bp_inv ::
  "('e \<Rightarrow> addr set) \<Rightarrow> ('e \<Rightarrow> bool) \<Rightarrow> (u32 \<Rightarrow> bool) \<Rightarrow> ('e \<Rightarrow> addr \<Rightarrow> nat) \<Rightarrow> 'e blockpool \<Rightarrow> bool" where
  "bp_inv live einv fits region p \<longleftrightarrow> bp_magic p = BLOCKPOOL_MAGIC \<and> einv (bp_env p)
     \<and> 1 \<le> bp_num_subpools p \<and> bp_num_subpools p \<le> 8
     \<and> 8 \<le> unat (bp_block_size p) \<and> align_ok (bp_align p) \<and> unat (bp_align p) dvd unat (bp_block_size p)
     \<and> (\<forall>i < bp_num_subpools p. sub_inv live region p i)
     \<and> (\<forall>i < bp_num_subpools p. \<forall>j < bp_num_subpools p. i \<noteq> j \<longrightarrow>
          sp_mem (bp_subpools p i) = sp_mem (bp_subpools p j) \<longrightarrow> sp_mem (bp_subpools p i) = None)
     \<and> (1 < bp_num_subpools p \<longrightarrow> 0 < bp_num_extension_blocks p
          \<and> bp_block_size p = block_size_of (bp_block_data_size p) (bp_align p)
          \<and> sizes_fit (bp_num_extension_blocks p) (bp_block_data_size p) (bp_align p)
          \<and> fits (BLOCKPOOL_SIZE (bp_num_extension_blocks p) (bp_block_data_size p) (bp_align p)))"

text \<open>The headers of the allocated blocks.\<close>

definition used :: "'e blockpool \<Rightarrow> addr set" where
  "used p = {a. \<exists>i < bp_num_subpools p. a \<in> set (sub_blocks p i) \<and> bp_owner p a = OwnerSubpool i}"

definition all_blocks :: "'b blockpool \<Rightarrow> addr set" where
  "all_blocks p = (\<Union>i \<in> {..< bp_num_subpools p}. set (sub_blocks p i))"

lemma sub_blocks_None [simp]: "sp_start (bp_subpools p i) = None \<Longrightarrow> sub_blocks p i = []"
  by (simp add: sub_blocks_def)

lemma sub_blocks_Some:
  "sp_start (bp_subpools p i) = Some s \<Longrightarrow>
   sub_blocks p i = blocks_from s (unat (bp_block_size p)) (unat (sp_num_blocks (bp_subpools p i)))"
  by (simp add: sub_blocks_def)

lemma sub_blocks_cong:
  "sp_start (bp_subpools p' i) = sp_start (bp_subpools p i) \<Longrightarrow>
   sp_num_blocks (bp_subpools p' i) = sp_num_blocks (bp_subpools p i) \<Longrightarrow>
   bp_block_size p' = bp_block_size p \<Longrightarrow> sub_blocks p' i = sub_blocks p i"
  by (simp add: sub_blocks_def cong: option.case_cong)

lemma free_list_inv_cong:
  assumes "bp_subpools p' i = bp_subpools p i" and "bp_block_size p' = bp_block_size p"
    and "\<And>a. a \<in> set (sub_blocks p i) \<Longrightarrow> bp_owner p' a = bp_owner p a"
    and "free_list_inv p i"
  shows "free_list_inv p' i"
proof -
  have b: "sub_blocks p' i = sub_blocks p i" by (rule sub_blocks_cong) (simp_all add: assms)
  from assms(4) obtain fl where fl: "lpath (next_of (bp_owner p)) (sp_free_list (bp_subpools p i)) fl None"
    "distinct fl" "length fl = unat (sp_available_blocks (bp_subpools p i))"
    "set fl = {a \<in> set (sub_blocks p i). \<exists>q. bp_owner p a = OwnerNext q}"
    unfolding free_list_inv_def by blast
  have "lpath (next_of (bp_owner p')) (sp_free_list (bp_subpools p i)) fl None"
    using fl(1,4) assms(3) by (subst lpath_cong [of fl _ "next_of (bp_owner p)"]) (auto simp: next_of_def)
  moreover have "set fl = {a \<in> set (sub_blocks p i). \<exists>q. bp_owner p' a = OwnerNext q}"
    using fl(4) assms(3) by auto
  ultimately show ?thesis
    using assms(4) fl(2,3) assms(3) unfolding free_list_inv_def b assms(1) by auto
qed

lemma bp_invD:
  assumes "bp_inv live einv fits region p"
  shows "bp_magic p = BLOCKPOOL_MAGIC" and "einv (bp_env p)" and "1 \<le> bp_num_subpools p"
    and "bp_num_subpools p \<le> 8" and "8 \<le> unat (bp_block_size p)" and "align_ok (bp_align p)"
    and "unat (bp_align p) dvd unat (bp_block_size p)"
    and "\<And>i. i < bp_num_subpools p \<Longrightarrow> sub_inv live region p i"
    and "\<And>i j. i < bp_num_subpools p \<Longrightarrow> j < bp_num_subpools p \<Longrightarrow> i \<noteq> j \<Longrightarrow>
          sp_mem (bp_subpools p i) = sp_mem (bp_subpools p j) \<Longrightarrow> sp_mem (bp_subpools p i) = None"
    and "1 < bp_num_subpools p \<Longrightarrow> 0 < bp_num_extension_blocks p
          \<and> bp_block_size p = block_size_of (bp_block_data_size p) (bp_align p)
          \<and> sizes_fit (bp_num_extension_blocks p) (bp_block_data_size p) (bp_align p)
          \<and> fits (BLOCKPOOL_SIZE (bp_num_extension_blocks p) (bp_block_data_size p) (bp_align p))"
  using assms unfolding bp_inv_def by blast+

lemma sub_invD:
  assumes "sub_inv live region p i"
  shows "sp_magic (bp_subpools p i) = SUBPOOL_MAGIC"
    and "sp_flags (bp_subpools p i) AND FLAG_EXTENSION = 0" and "extent_inv live region p i"
    and "sp_start (bp_subpools p i) = Some s \<Longrightarrow> free_list_inv p i"
  using assms unfolding sub_inv_def by auto

lemma extent_Some:
  assumes "extent_inv live region p i" and "sp_start (bp_subpools p i) = Some st"
  obtains m where "sp_mem (bp_subpools p i) = Some m" "m \<in> live (bp_env p)" "m \<le> st"
    "st + unat (sp_num_blocks (bp_subpools p i)) * unat (bp_block_size p) < m + region (bp_env p) m"
    "unat (bp_align p) dvd st + 4"
  using assms unfolding extent_inv_def Let_def by (auto split: option.splits)

lemma extent_inv_cong:
  assumes "sp_mem (bp_subpools p' i) = sp_mem (bp_subpools p i)"
    and "sp_start (bp_subpools p' i) = sp_start (bp_subpools p i)"
    and "sp_num_blocks (bp_subpools p' i) = sp_num_blocks (bp_subpools p i)"
    and "bp_env p' = bp_env p" and "bp_block_size p' = bp_block_size p" and "bp_align p' = bp_align p"
  shows "extent_inv live region p' i = extent_inv live region p i"
  unfolding extent_inv_def Let_def assms by (rule refl)

lemma extent_ok: "extent_inv live region p i \<Longrightarrow> sp_magic (bp_subpools p i) = SUBPOOL_MAGIC \<Longrightarrow>
    subpool_ok (bp_subpools p i)"
  unfolding extent_inv_def Let_def subpool_ok_def ptr_le_def by (auto split: option.splits)

context region_allocator
begin

lemma sub_blocks_disjoint:
  assumes inv: "bp_inv live einv fits region p" and i: "i < bp_num_subpools p" "j < bp_num_subpools p" "i \<noteq> j"
  shows "set (sub_blocks p i) \<inter> set (sub_blocks p j) = {}"
proof (cases "sp_start (bp_subpools p i) = None \<or> sp_start (bp_subpools p j) = None")
  case False
  then obtain s t where st: "sp_start (bp_subpools p i) = Some s" "sp_start (bp_subpools p j) = Some t" by auto
  note I = bp_invD [OF inv]
  obtain m where m: "sp_mem (bp_subpools p i) = Some m" "m \<in> live (bp_env p)" "m \<le> s"
    "s + unat (sp_num_blocks (bp_subpools p i)) * unat (bp_block_size p) < m + region (bp_env p) m"
    using extent_Some [OF sub_invD(3) [OF I(8) [OF i(1)]] st(1)] by blast
  obtain n where n: "sp_mem (bp_subpools p j) = Some n" "n \<in> live (bp_env p)" "n \<le> t"
    "t + unat (sp_num_blocks (bp_subpools p j)) * unat (bp_block_size p) < n + region (bp_env p) n"
    using extent_Some [OF sub_invD(3) [OF I(8) [OF i(2)]] st(2)] by blast
  have "m \<noteq> n" using I(9) [OF i] m(1) n(1) by auto
  then have "m + region (bp_env p) m \<le> n \<or> n + region (bp_env p) n \<le> m"
    using region_disjoint [OF I(2) m(2) n(2)] by blast
  then have "s + unat (sp_num_blocks (bp_subpools p i)) * unat (bp_block_size p) \<le> t
      \<or> t + unat (sp_num_blocks (bp_subpools p j)) * unat (bp_block_size p) \<le> s"
    using m(3,4) n(3,4) by linarith
  moreover have "0 < unat (bp_block_size p)" using I(5) by simp
  ultimately show ?thesis
    unfolding sub_blocks_Some [OF st(1)] sub_blocks_Some [OF st(2)]
    by (intro blocks_from_disjoint)
qed auto

text \<open>Taking the first free block of a subpool.\<close>

lemma bp_inv_one_sub:
  assumes inv: "bp_inv live einv fits region p" and i: "i < bp_num_subpools p"
    and st: "sp_start (bp_subpools p i) = Some s"
    and p': "p' = set_owner a w (upd_sub i (\<lambda>s. s\<lparr>sp_free_list := fl, sp_available_blocks := n\<rparr>) p)"
    and a: "a \<in> set (sub_blocks p i)" and fl: "free_list_inv p' i"
  shows "bp_inv live einv fits region p'"
    and "\<And>j. sub_blocks p' j = sub_blocks p j"
proof -
  note I = bp_invD [OF inv]
  show b: "sub_blocks p' j = sub_blocks p j" for j
    by (rule sub_blocks_cong) (simp_all add: p')
  have ext: "extent_inv live region p' j = extent_inv live region p j" for j
    by (rule extent_inv_cong) (simp_all add: p')
  have "sub_inv live region p' j" if j: "j < bp_num_subpools p" for j
  proof (cases "j = i")
    case True
    then show ?thesis using sub_invD [OF I(8) [OF i]] fl ext by (simp add: sub_inv_def p')
  next
    case False
    note S = I(8) [OF j]
    have "free_list_inv p' j" if "sp_start (bp_subpools p j) \<noteq> None"
    proof (rule free_list_inv_cong [of p' j p])
      show "free_list_inv p j" using S that unfolding sub_inv_def by blast
      show "bp_owner p' x = bp_owner p x" if "x \<in> set (sub_blocks p j)" for x
        using sub_blocks_disjoint [OF inv j i False] a that by (auto simp: p')
    qed (use False in \<open>simp_all add: p'\<close>)
    then show ?thesis using S ext False unfolding sub_inv_def by (simp add: p')
  qed
  then show "bp_inv live einv fits region p'"
    using inv unfolding bp_inv_def by (simp add: p')
qed

lemma used_set_owner:
  assumes inv: "bp_inv live einv fits region p" and i: "i < bp_num_subpools p"
    and a: "a \<in> set (sub_blocks p i)"
    and p': "bp_owner p' = (bp_owner p)(a := w)" "\<And>j. sub_blocks p' j = sub_blocks p j"
      "bp_num_subpools p' = bp_num_subpools p"
    and w: "w = OwnerSubpool i \<or> (\<exists>q. w = OwnerNext q)"
  shows "used p' = (if w = OwnerSubpool i then insert a (used p) else used p - {a})"
proof -
  have only: "j = i" if "j < bp_num_subpools p" "a \<in> set (sub_blocks p j)" for j
    using sub_blocks_disjoint [OF inv that(1) i] a that(2) by blast
  have other: "x \<in> used p' \<longleftrightarrow> x \<in> used p" if "x \<noteq> a" for x
    using that by (simp add: used_def p')
  have "a \<in> used p' \<longleftrightarrow> w = OwnerSubpool i"
  proof
    assume "a \<in> used p'"
    then obtain j where "j < bp_num_subpools p" "a \<in> set (sub_blocks p j)" "w = OwnerSubpool j"
      by (auto simp: used_def p')
    with only show "w = OwnerSubpool i" by blast
  next
    assume "w = OwnerSubpool i"
    with i a show "a \<in> used p'" by (auto simp: used_def p')
  qed
  note at = this
  show ?thesis
  proof (rule set_eqI)
    fix x
    show "x \<in> used p' \<longleftrightarrow> x \<in> (if w = OwnerSubpool i then insert a (used p) else used p - {a})"
      using at other [of x] by (cases "x = a") simp_all
  qed
qed

lemma take_block_spec:
  assumes inv: "bp_inv live einv fits region p" and i: "i < bp_num_subpools p"
    and st: "sp_start (bp_subpools p i) = Some s" and av: "0 < sp_available_blocks (bp_subpools p i)"
  shows "\<exists>a p'. take_block i p = Some (Some (a + 4), p') \<and> bp_inv live einv fits region p'
    \<and> a \<in> set (sub_blocks p i) \<and> a \<notin> used p \<and> used p' = insert a (used p) \<and> bp_env p' = bp_env p"
proof -
  note I = bp_invD [OF inv]
  note S = sub_invD [OF I(8) [OF i]]
  from S(4) [OF st] obtain fl where fl: "lpath (next_of (bp_owner p)) (sp_free_list (bp_subpools p i)) fl None"
    "distinct fl" "length fl = unat (sp_available_blocks (bp_subpools p i))"
    "set fl = {a \<in> set (sub_blocks p i). \<exists>q. bp_owner p a = OwnerNext q}"
    and all: "\<forall>a \<in> set (sub_blocks p i). bp_owner p a = OwnerSubpool i \<or> (\<exists>q. bp_owner p a = OwnerNext q)"
    unfolding free_list_inv_def by blast
  have "0 < length fl" using av fl(3) by (simp add: word_less_nat_alt)
  then obtain a fs where f: "fl = a # fs" by (cases fl) auto
  with fl(1) have hd: "sp_free_list (bp_subpools p i) = Some a" by simp
  have a: "a \<in> set (sub_blocks p i)" "\<exists>q. bp_owner p a = OwnerNext q" using fl(4) f by auto
  then obtain q where q: "bp_owner p a = OwnerNext q" by blast
  let ?n = "sp_available_blocks (bp_subpools p i) - 1"
  let ?p' = "set_owner a (OwnerSubpool i) (upd_sub i (\<lambda>s. s\<lparr>sp_free_list := q, sp_available_blocks := ?n\<rparr>) p)"
  have b: "sub_blocks ?p' j = sub_blocks p j" for j by (rule sub_blocks_cong) simp_all
  have take: "take_block i p = Some (Some (a + 4), ?p')"
    by (simp add: take_block_def hd q SIZEOF_BLOCK_HEADER_def upd_sub_def)
  have "lpath (next_of (bp_owner ?p')) q fs None"
    using fl(1,2) f q by (subst lpath_cong [of fs _ "next_of (bp_owner p)"]) (auto simp: next_of_def)
  moreover have "length fs = unat ?n" 
  proof -
    have "sp_available_blocks (bp_subpools p i) \<noteq> 0" using av by auto
    from unat_minus_one [OF this] show ?thesis using fl(3) f by simp
  qed
  moreover have "set fs = {x \<in> set (sub_blocks p i). \<exists>q. bp_owner ?p' x = OwnerNext q}"
    using fl(2,4) f by auto
  ultimately have "free_list_inv ?p' i"
    unfolding free_list_inv_def b using fl(2) f all by auto
  then have inv': "bp_inv live einv fits region ?p'" by (rule bp_inv_one_sub(1) [OF inv i st refl a(1)])
  have "a \<notin> used p" using q by (auto simp: used_def)
  moreover have "used ?p' = insert a (used p)"
    using used_set_owner [OF inv i a(1), of ?p' "OwnerSubpool i"] b by simp
  ultimately show ?thesis using take inv' a(1) by auto
qed

text \<open>Returning a block.\<close>

lemma free_spec:
  assumes inv: "bp_inv live einv fits region p" and a: "a \<in> used p"
  shows "\<exists>p'. vcos_generic_blockpool_free release (Some (a + 4)) p = Some p'
    \<and> bp_inv live einv fits region p' \<and> used p' = used p - {a} \<and> bp_env p' = bp_env p"
proof -
  note I = bp_invD [OF inv]
  from a obtain i where i: "i < bp_num_subpools p" "a \<in> set (sub_blocks p i)" "bp_owner p a = OwnerSubpool i"
    unfolding used_def by blast
  then obtain s where st: "sp_start (bp_subpools p i) = Some s"
    by (cases "sp_start (bp_subpools p i)") auto
  note S = sub_invD [OF I(8) [OF i(1)]]
  from S(4) [OF st] obtain fl where fl: "lpath (next_of (bp_owner p)) (sp_free_list (bp_subpools p i)) fl None"
    "distinct fl" "length fl = unat (sp_available_blocks (bp_subpools p i))"
    "set fl = {a \<in> set (sub_blocks p i). \<exists>q. bp_owner p a = OwnerNext q}"
    and all: "\<forall>a \<in> set (sub_blocks p i). bp_owner p a = OwnerSubpool i \<or> (\<exists>q. bp_owner p a = OwnerNext q)"
    unfolding free_list_inv_def by blast
  have af: "a \<notin> set fl" using fl(4) i(3) by auto
  let ?n = "sp_available_blocks (bp_subpools p i) + 1"
  let ?p' = "set_owner a (OwnerNext (sp_free_list (bp_subpools p i)))
    (upd_sub i (\<lambda>s. s\<lparr>sp_free_list := Some a, sp_available_blocks := ?n\<rparr>) p)"
  have b: "sub_blocks ?p' j = sub_blocks p j" for j by (rule sub_blocks_cong) simp_all
  have "free_list_inv ?p' i"
  proof -
    have "lpath (next_of (bp_owner ?p')) (Some a) (a # fl) None" using fl(1) af by simp
    moreover have "length (a # fl) = unat ?n"
    proof -
      have "set (a # fl) \<subseteq> set (sub_blocks p i)" using fl(4) i(2) by auto
      then have "length (a # fl) \<le> length (sub_blocks p i)"
        using card_mono [of "set (sub_blocks p i)" "set (a # fl)"] distinct_card [of "a # fl"] fl(2) af
          card_length [of "sub_blocks p i"] by simp
      also have "\<dots> = unat (sp_num_blocks (bp_subpools p i))" by (simp add: sub_blocks_Some [OF st])
      finally have "unat (sp_available_blocks (bp_subpools p i)) + 1 < 2 ^ 32"
        using fl(3) unsigned_less [of "sp_num_blocks (bp_subpools p i)", where ?'a = nat] by simp
      then show ?thesis using fl(3) by (simp add: unat_word_ariths)
    qed
    moreover have "set (a # fl) = {x \<in> set (sub_blocks p i). \<exists>q. bp_owner ?p' x = OwnerNext q}"
      using fl(4) i(2) by auto
    ultimately show ?thesis
      unfolding free_list_inv_def b using fl(2) af all by (auto intro!: exI [of _ "a # fl"])
  qed
  then have inv': "bp_inv live einv fits region ?p'" by (rule bp_inv_one_sub(1) [OF inv i(1) st refl i(2)])
  have u: "used ?p' = used p - {a}"
    using used_set_owner [OF inv i(1,2), of ?p' "OwnerNext (sp_free_list (bp_subpools p i))"] b by simp
  have "subpool_ok (bp_subpools p i)" by (rule extent_ok [OF S(3,1)])
  then have "vcos_generic_blockpool_free release (Some (a + 4)) p = Some ?p'"
    using i(3) S(2) I(1)
    by (simp add: vcos_generic_blockpool_free_def SIZEOF_BLOCK_HEADER_def Let_def)
      (simp add: upd_sub_def set_owner_def)
  then show ?thesis using inv' u by auto
qed

section \<open>A new subpool\<close>

lemma find_subpool_Some:
  "find_subpool p is = Some i \<Longrightarrow> i \<in> set is \<and> sp_start (bp_subpools p i) \<noteq> None
     \<and> 0 < sp_available_blocks (bp_subpools p i)"
  by (induction "is") (auto split: if_splits)

lemma find_subpool_None:
  "find_subpool p is = None \<Longrightarrow> i \<in> set is \<Longrightarrow> sp_start (bp_subpools p i) \<noteq> None \<Longrightarrow>
   sp_available_blocks (bp_subpools p i) = 0"
  by (induction "is") (auto split: if_splits simp: word_greater_zero_iff)

text \<open>What initialising subpool \<open>i\<close> on a block of memory does.\<close>

lemma subpool_init_spec:
  assumes al: "align_ok al" "bp_align p = al" and bs: "8 \<le> unat (bp_block_size p)"
    and dv: "unat al dvd unat (bp_block_size p)"
    and fit: "unat (bp_block_size p) * unat num + unat al < 2 ^ 32"
    and mem: "m \<in> live (bp_env p)" "unat (bp_block_size p) * unat num + unat al \<le> region (bp_env p) m"
    and inv: "einv (bp_env p)" and sz: "4 < unat (bp_block_size p) * unat num"
    and fl: "sp_flags (bp_subpools p i) AND FLAG_EXTENSION = 0"
  shows "\<exists>p' st. vcos_generic_blockpool_subpool_init p i m num al flags = Some p'
    \<and> (\<exists>f e. bp_subpools p' = (bp_subpools p)(i := (bp_subpools p i)\<lparr>sp_magic := SUBPOOL_MAGIC,
         sp_mem := Some m, sp_start := Some st, sp_num_blocks := num, sp_available_blocks := num,
         sp_free_list := f, sp_end := e\<rparr>))
    \<and> (\<exists>hdr. p' = (p\<lparr>bp_owner := hdr, bp_subpools := bp_subpools p'\<rparr>))
    \<and> sub_inv live region p' i \<and> m \<le> st \<and> st + unat (bp_block_size p) * unat num < m + region (bp_env p) m
    \<and> (\<forall>a \<in> set (sub_blocks p' i). \<exists>q. bp_owner p' a = OwnerNext q)
    \<and> (\<forall>a. a \<notin> set (sub_blocks p' i) \<longrightarrow> bp_owner p' a = bp_owner p a)"
proof -
  let ?bs = "unat (bp_block_size p)" and ?n = "unat num"
  let ?st = "first_block m al"
  have bound: "m + region (bp_env p) m < 2 ^ 32" by (rule region_bound [OF inv mem(1)])
  have mfit: "m + 4 + unat al \<le> 2 ^ 32" using bound mem(2) sz by linarith
  note f = first_block_bounds [OF al(1) mfit]
  have end': "?st + ?bs * ?n < m + region (bp_env p) m" using f(2) mem(2) by linarith
  have mul: "unat (bp_block_size p * num) = ?n * ?bs"
    using fit by (simp add: unat_word_ariths mult.commute)
  have pos: "0 < ?bs" using bs by simp
  obtain fl' hdr' where loop: "free_list_loop ?bs ?st (?st + ?n * ?bs) None (bp_owner p) = Some (fl', hdr')"
    and lp: "lpath (next_of hdr') fl' (rev (blocks_from ?st ?bs ?n)) None"
    and free: "\<forall>a \<in> set (blocks_from ?st ?bs ?n). \<exists>q. hdr' a = OwnerNext q"
    and other: "\<forall>a. a \<notin> set (blocks_from ?st ?bs ?n) \<longrightarrow> hdr' a = bp_owner p a"
    using free_list_loop_result [OF pos, of "bp_owner p" None "[]" ?st ?n] by auto
  let ?p' = "upd_sub i (\<lambda>s. s\<lparr>sp_magic := SUBPOOL_MAGIC, sp_mem := Some m, sp_start := Some ?st,
             sp_num_blocks := num, sp_available_blocks := num, sp_free_list := fl',
             sp_end := ?st + ?n * ?bs\<rparr>) (p\<lparr>bp_owner := hdr'\<rparr>)"
  have init: "vcos_generic_blockpool_subpool_init p i m num al flags = Some ?p'"
    by (simp add: vcos_generic_blockpool_subpool_init_def Let_def mul loop)
  have b: "sub_blocks ?p' i = blocks_from ?st ?bs ?n"
    by (simp add: sub_blocks_def)
  have "free_list_inv ?p' i"
    unfolding free_list_inv_def b
    using lp free pos
    by (intro conjI exI [of _ "rev (blocks_from ?st ?bs ?n)"])
      (auto simp: distinct_blocks_from)
  moreover have "extent_inv live region ?p' i"
    using mem(1) f(1,3) end' al(2) by (simp add: extent_inv_def mult.commute)
  ultimately have "sub_inv live region ?p' i"
    using fl by (simp add: sub_inv_def)
  moreover have "bp_subpools ?p' = (bp_subpools p)(i := (bp_subpools p i)\<lparr>sp_magic := SUBPOOL_MAGIC,
         sp_mem := Some m, sp_start := Some ?st, sp_num_blocks := num, sp_available_blocks := num,
         sp_free_list := fl', sp_end := ?st + ?n * ?bs\<rparr>)"
    by (rule ext) simp
  moreover have "?p' = p\<lparr>bp_owner := hdr', bp_subpools := bp_subpools ?p'\<rparr>"
    by (simp add: upd_sub_def)
  moreover have "\<forall>a \<in> set (sub_blocks ?p' i). \<exists>q. bp_owner ?p' a = OwnerNext q" using free unfolding b by simp
  moreover have "\<forall>a. a \<notin> set (sub_blocks ?p' i) \<longrightarrow> bp_owner ?p' a = bp_owner p a"
    using other unfolding b by simp
  ultimately show ?thesis using init f(1) end' by blast
qed

lemma env_change_inv:
  assumes inv: "bp_inv live einv fits region p" and e: "einv e'" "live (bp_env p) \<subseteq> live e'"
    "\<And>m. m \<in> live (bp_env p) \<Longrightarrow> region e' m = region (bp_env p) m"
  shows "bp_inv live einv fits region (p\<lparr>bp_env := e'\<rparr>)"
    and "used (p\<lparr>bp_env := e'\<rparr>) = used p" and "sub_blocks (p\<lparr>bp_env := e'\<rparr>) i = sub_blocks p i"
proof -
  let ?p' = "p\<lparr>bp_env := e'\<rparr>"
  show b: "sub_blocks ?p' i = sub_blocks p i" for i by (rule sub_blocks_cong) simp_all
  show "used ?p' = used p" by (simp add: used_def b)
  have "sub_inv live region ?p' j" if j: "j < bp_num_subpools p" for j
  proof -
    note S = bp_invD(8) [OF inv j]
    have "extent_inv live region ?p' j"
    proof (cases "sp_start (bp_subpools p j)")
      case None
      then show ?thesis using sub_invD(3) [OF S] by (auto simp: extent_inv_def split: option.splits)
    next
      case (Some st)
      obtain m where "sp_mem (bp_subpools p j) = Some m" "m \<in> live (bp_env p)" "m \<le> st"
        "st + unat (sp_num_blocks (bp_subpools p j)) * unat (bp_block_size p) < m + region (bp_env p) m"
        "unat (bp_align p) dvd st + 4"
        by (rule extent_Some [OF sub_invD(3) [OF S] Some])
      with Some e show ?thesis by (auto simp: extent_inv_def)
    qed
    moreover have "free_list_inv ?p' j" if "free_list_inv p j"
      by (rule free_list_inv_cong [OF _ _ _ that]) simp_all
    ultimately show ?thesis using S unfolding sub_inv_def by auto
  qed
  then show "bp_inv live einv fits region ?p'" using inv e(1) unfolding bp_inv_def by simp
qed

lemma alloc_env:
  assumes inv: "bp_inv live einv fits region p" and f: "fits n" and a: "alloc n (bp_env p) = (r, e')"
  shows "bp_inv live einv fits region (p\<lparr>bp_env := e'\<rparr>)" and "used (p\<lparr>bp_env := e'\<rparr>) = used p"
proof -
  note e = bp_invD(2) [OF inv]
  have "einv e' \<and> live (bp_env p) \<subseteq> live e'"
    using alloc_Some [OF e f] alloc_None [OF e f] a by (cases r) auto
  then show "bp_inv live einv fits region (p\<lparr>bp_env := e'\<rparr>)" and "used (p\<lparr>bp_env := e'\<rparr>) = used p"
    using env_change_inv [OF inv, of e'] region_alloc_other [OF e f a] by auto
qed

lemma new_subpool:
  assumes inv: "bp_inv live einv fits region p" and i: "1 \<le> i" "i < bp_num_subpools p"
    and none: "sp_start (bp_subpools p i) = None"
    and m: "m \<in> live (bp_env p)" "\<And>j. j < bp_num_subpools p \<Longrightarrow> sp_mem (bp_subpools p j) \<noteq> Some m"
    and sz: "region (bp_env p) m
      = unat (BLOCKPOOL_SIZE (bp_num_extension_blocks p) (bp_block_data_size p) (bp_align p))"
  shows "\<exists>p'. vcos_generic_blockpool_subpool_init p i m (bp_num_extension_blocks p) (bp_align p) flags = Some p'
    \<and> bp_inv live einv fits region p' \<and> used p' = used p \<and> sp_start (bp_subpools p' i) \<noteq> None
    \<and> 0 < sp_available_blocks (bp_subpools p' i) \<and> bp_num_subpools p' = bp_num_subpools p
    \<and> bp_env p' = bp_env p"
proof -
  note I = bp_invD [OF inv]
  have "1 < bp_num_subpools p" using i by simp
  note X = I(10) [OF this]
  let ?num = "bp_num_extension_blocks p"
  have fit: "unat (bp_block_size p) * unat ?num + unat (bp_align p) < 2 ^ 32"
    and reg: "region (bp_env p) m = unat (bp_block_size p) * unat ?num + unat (bp_align p)"
    using X unat_BLOCKPOOL_SIZE [of ?num "bp_block_data_size p" "bp_align p"] sz
    by (simp_all add: sizes_fit_def)
  have n1: "1 \<le> unat ?num" using X by (simp add: word_less_nat_alt)
  have s4: "4 < unat (bp_block_size p) * unat ?num"
    using mult_le_mono [OF I(5) n1] by simp
  note S = I(8) [OF i(2)]
  obtain p' st f e hdr where init: "vcos_generic_blockpool_subpool_init p i m ?num (bp_align p) flags = Some p'"
    and subs: "bp_subpools p' = (bp_subpools p)(i := (bp_subpools p i)\<lparr>sp_magic := SUBPOOL_MAGIC,
         sp_mem := Some m, sp_start := Some st, sp_num_blocks := ?num, sp_available_blocks := ?num,
         sp_free_list := f, sp_end := e\<rparr>)"
    and rest: "p' = p\<lparr>bp_owner := hdr, bp_subpools := bp_subpools p'\<rparr>"
    and si: "sub_inv live region p' i"
    and rng: "m \<le> st" "st + unat (bp_block_size p) * unat ?num < m + region (bp_env p) m"
    and nx: "\<forall>a \<in> set (sub_blocks p' i). \<exists>q. bp_owner p' a = OwnerNext q"
    and ot: "\<forall>a. a \<notin> set (sub_blocks p' i) \<longrightarrow> bp_owner p' a = bp_owner p a"
    using subpool_init_spec [OF I(6) refl I(5,7) fit m(1) _ I(2) s4 sub_invD(2) [OF S], of flags] reg by auto
  have same: "bp_env p' = bp_env p" "bp_num_subpools p' = bp_num_subpools p" "bp_block_size p' = bp_block_size p"
    "bp_align p' = bp_align p" "bp_magic p' = bp_magic p" "bp_block_data_size p' = bp_block_data_size p"
    "bp_num_extension_blocks p' = ?num"
    by (subst rest, simp)+
  have b: "sub_blocks p' j = sub_blocks p j" if "j \<noteq> i" for j
    by (rule sub_blocks_cong) (simp_all add: subs that same)
  have bi: "sub_blocks p' i = blocks_from st (unat (bp_block_size p)) (unat ?num)"
    by (simp add: sub_blocks_def subs same)
  have dis: "set (sub_blocks p j) \<inter> set (sub_blocks p' i) = {}" if j: "j < bp_num_subpools p" "j \<noteq> i" for j
  proof (cases "sp_start (bp_subpools p j)")
    case (Some t)
    obtain n where n: "sp_mem (bp_subpools p j) = Some n" "n \<in> live (bp_env p)" "n \<le> t"
      "t + unat (sp_num_blocks (bp_subpools p j)) * unat (bp_block_size p) < n + region (bp_env p) n"
      using extent_Some [OF sub_invD(3) [OF I(8) [OF j(1)]] Some] by blast
    have "n \<noteq> m" using m(2) [OF j(1)] n(1) by auto
    then have "n + region (bp_env p) n \<le> m \<or> m + region (bp_env p) m \<le> n"
      using region_disjoint [OF I(2) n(2) m(1)] by blast
    then show ?thesis
      unfolding sub_blocks_Some [OF Some] bi using n(3,4) rng I(5)
      by (intro blocks_from_disjoint) (auto simp: mult.commute)
  qed simp
  have sj: "sub_inv live region p' j" if j: "j < bp_num_subpools p" for j
  proof (cases "j = i")
    case True
    with si show ?thesis by simp
  next
    case False
    have eq: "bp_subpools p' j = bp_subpools p j" using subs False by simp
    have "free_list_inv p' j" if "free_list_inv p j"
      by (rule free_list_inv_cong [OF eq same(3) _ that]) (use ot dis [OF j False] in blast)
    moreover have "extent_inv live region p' j = extent_inv live region p j"
      by (rule extent_inv_cong) (simp_all add: eq same)
    ultimately show ?thesis using I(8) [OF j] unfolding sub_inv_def eq by blast
  qed
  have mems: "sp_mem (bp_subpools p' j) = None"
    if "j < bp_num_subpools p" "k < bp_num_subpools p" "j \<noteq> k"
      "sp_mem (bp_subpools p' j) = sp_mem (bp_subpools p' k)" for j k
    using that m(2) [OF that(1)] m(2) [OF that(2)] I(9) [OF that(1-3)]
    by (cases "j = i"; cases "k = i") (auto simp: subs)
  have "bp_inv live einv fits region p'"
    unfolding bp_inv_def same using I(1-7) sj mems X by blast
  moreover have "used p' = used p"
  proof (rule set_eqI)
    fix a
    have "a \<notin> set (sub_blocks p' i) \<or> bp_owner p' a \<noteq> OwnerSubpool i" using nx by fastforce
    moreover have "sub_blocks p i = []" using none by simp
    moreover have "a \<in> set (sub_blocks p' j) \<and> bp_owner p' a = OwnerSubpool j
        \<longleftrightarrow> a \<in> set (sub_blocks p j) \<and> bp_owner p a = OwnerSubpool j"
      if "j < bp_num_subpools p" "j \<noteq> i" for j
      using b [OF that(2)] ot dis [OF that] by fastforce
    ultimately show "a \<in> used p' \<longleftrightarrow> a \<in> used p"
      unfolding used_def same(2) by (auto, (metis (full_types) empty_iff list.set(1))+)
  qed
  ultimately show ?thesis using init same X by (auto simp: subs)
qed

lemma extend_loop_spec:
  assumes "bp_inv live einv fits region p" and "\<And>i. i \<in> set is \<Longrightarrow> 1 \<le> i \<and> i < bp_num_subpools p"
  shows "\<exists>r p'. extend_loop alloc is p = Some (r, p') \<and> bp_inv live einv fits region p' \<and> used p' = used p
    \<and> bp_num_subpools p' = bp_num_subpools p
    \<and> (case r of None \<Rightarrow> True | Some i \<Rightarrow> i < bp_num_subpools p \<and> sp_start (bp_subpools p' i) \<noteq> None
          \<and> 0 < sp_available_blocks (bp_subpools p' i))"
  using assms
proof (induction "is" arbitrary: p)
  case Nil
  then show ?case by simp
next
  case (Cons i "is")
  note inv = Cons.prems(1)
  have i: "1 \<le> i" "i < bp_num_subpools p" using Cons.prems(2) by auto
  show ?case
  proof (cases "sp_start (bp_subpools p i)")
    case (Some st)
    then show ?thesis using Cons.IH [OF inv] Cons.prems(2) by auto
  next
    case None
    note start = None
    let ?sz = "BLOCKPOOL_SIZE (bp_num_extension_blocks p) (bp_block_data_size p) (bp_align p)"
    obtain r e' where a: "alloc ?sz (bp_env p) = (r, e')" by fastforce
    have f: "fits ?sz" using bp_invD(10) [OF inv] i by simp
    note env = alloc_env [OF inv f a]
    let ?p1 = "p\<lparr>bp_env := e'\<rparr>"
    show ?thesis
    proof (cases r)
      case None
      have "\<And>j. j \<in> set is \<Longrightarrow> 1 \<le> j \<and> j < bp_num_subpools ?p1" using Cons.prems(2) by simp
      from Cons.IH [OF env(1) this] show ?thesis
        using start a None env(2) by (simp cong: option.case_cong)
    next
      case (Some m)
      note al = alloc_Some [OF bp_invD(2) [OF inv] f a [unfolded Some]]
      have nm: "sp_mem (bp_subpools ?p1 j) \<noteq> Some m" if j: "j < bp_num_subpools ?p1" for j
      proof
        assume mm: "sp_mem (bp_subpools ?p1 j) = Some m"
        then have "m \<in> live (bp_env p)"
          using sub_invD(3) [OF bp_invD(8) [OF inv, of j]] j
          unfolding extent_inv_def Let_def by (auto split: option.splits)
        with al show False by blast
      qed
      have reg: "region (bp_env ?p1) m = unat ?sz"
        using region_alloc [OF bp_invD(2) [OF inv] f a [unfolded Some]] by simp
      obtain p' where p': "vcos_generic_blockpool_subpool_init ?p1 i m (bp_num_extension_blocks ?p1)
            (bp_align ?p1) (FLAG_OWNS_MEM OR FLAG_EXTENSION) = Some p'"
          "bp_inv live einv fits region p'" "used p' = used ?p1" "sp_start (bp_subpools p' i) \<noteq> None"
          "0 < sp_available_blocks (bp_subpools p' i)" "bp_num_subpools p' = bp_num_subpools ?p1"
        using new_subpool [OF env(1) i(1), of m "FLAG_OWNS_MEM OR FLAG_EXTENSION"] i(2) start nm reg al
        by auto
      then show ?thesis
        using start a Some env(2) i(2) by simp
    qed
  qed
qed

section \<open>Allocation and release\<close>

lemma full_subpools:
  assumes inv: "bp_inv live einv fits region p"
    and none: "\<And>i. i < bp_num_subpools p \<Longrightarrow> sp_start (bp_subpools p i) \<noteq> None \<Longrightarrow>
      sp_available_blocks (bp_subpools p i) = 0"
  shows "used p = all_blocks p"
proof -
  have "bp_owner p a = OwnerSubpool i" if i: "i < bp_num_subpools p" and a: "a \<in> set (sub_blocks p i)" for a i
  proof -
    obtain st where st: "sp_start (bp_subpools p i) = Some st"
      using a by (cases "sp_start (bp_subpools p i)") auto
    have "free_list_inv p i" by (rule sub_invD(4) [OF bp_invD(8) [OF inv i] st])
    then obtain fl where "length fl = unat (sp_available_blocks (bp_subpools p i))"
      "set fl = {a \<in> set (sub_blocks p i). \<exists>q. bp_owner p a = OwnerNext q}"
      "bp_owner p a = OwnerSubpool i \<or> (\<exists>q. bp_owner p a = OwnerNext q)"
      using a unfolding free_list_inv_def by blast
    moreover have "sp_available_blocks (bp_subpools p i) = 0" using none [OF i] st by simp
    ultimately show ?thesis using a by auto
  qed
  then show ?thesis by (auto simp: used_def all_blocks_def)
qed

lemma block_aligned:
  assumes inv: "bp_inv live einv fits region p" and i: "i < bp_num_subpools p" and a: "a \<in> set (sub_blocks p i)"
  shows "unat (bp_align p) dvd a + 4"
proof -
  obtain st where st: "sp_start (bp_subpools p i) = Some st"
    using a by (cases "sp_start (bp_subpools p i)") auto
  obtain k where k: "a = st + k * unat (bp_block_size p)"
    using a by (auto simp: sub_blocks_Some [OF st] set_blocks_from)
  have "unat (bp_align p) dvd st + 4"
    using extent_Some [OF sub_invD(3) [OF bp_invD(8) [OF inv i]] st] by blast
  moreover have "unat (bp_align p) dvd k * unat (bp_block_size p)"
    using bp_invD(7) [OF inv] by (rule dvd_mult)
  ultimately have "unat (bp_align p) dvd (st + 4) + k * unat (bp_block_size p)" by (rule dvd_add)
  moreover have "a + 4 = (st + 4) + k * unat (bp_block_size p)" using k by simp
  ultimately show ?thesis by (simp only:)
qed

definition alloc_post :: "'a blockpool \<Rightarrow> ptr \<Rightarrow> 'a blockpool \<Rightarrow> bool" where
  "alloc_post p r p' \<longleftrightarrow> bp_inv live einv fits region p' \<and>
     (case r of
        None \<Rightarrow> used p' = used p \<and> used p = all_blocks p
      | Some b \<Rightarrow> \<exists>a. b = a + 4 \<and> a \<notin> used p \<and> used p' = insert a (used p) \<and> unat (bp_align p') dvd b)"

lemma alloc_spec:
  assumes inv: "bp_inv live einv fits region p"
  shows "\<exists>r p'. vcos_generic_blockpool_alloc alloc p = Some (r, p') \<and> alloc_post p r p'"
proof -
  note I = bp_invD [OF inv]
  have take: "\<exists>r p''. take_block i p' = Some (r, p'') \<and> alloc_post p r p''"
    if inv': "bp_inv live einv fits region p'" and u: "used p' = used p" and i: "i < bp_num_subpools p'"
      and st: "sp_start (bp_subpools p' i) \<noteq> None" and av: "0 < sp_available_blocks (bp_subpools p' i)" for i p'
  proof -
    obtain st' where st': "sp_start (bp_subpools p' i) = Some st'" using st by blast
    obtain a q where t: "take_block i p' = Some (Some (a + 4), q)" "bp_inv live einv fits region q"
      "a \<in> set (sub_blocks p' i)" "a \<notin> used p'" "used q = insert a (used p')" "bp_env q = bp_env p'"
      using take_block_spec [OF inv' i st' av] by blast
    have "a \<in> used q" using t(5) by simp
    then obtain j where "j < bp_num_subpools q" "a \<in> set (sub_blocks q j)" unfolding used_def by blast
    then have "unat (bp_align q) dvd a + 4" by (rule block_aligned [OF t(2)])
    with t u show ?thesis by (auto simp: alloc_post_def)
  qed
  show ?thesis
  proof (cases "find_subpool p [0..<bp_num_subpools p]")
    case (Some i)
    then have "i < bp_num_subpools p" "sp_start (bp_subpools p i) \<noteq> None" "0 < sp_available_blocks (bp_subpools p i)"
      using find_subpool_Some [OF Some] by auto
    from take [OF inv refl this] show ?thesis
      using I(1) Some by (simp add: vcos_generic_blockpool_alloc_def)
  next
    case None
    have full: "used p = all_blocks p"
      by (rule full_subpools [OF inv]) (use find_subpool_None [OF None] in auto)
    obtain r p' where e: "extend_loop alloc [1..<bp_num_subpools p] p = Some (r, p')"
      "bp_inv live einv fits region p'" "used p' = used p" "bp_num_subpools p' = bp_num_subpools p"
      "case r of None \<Rightarrow> True | Some i \<Rightarrow> i < bp_num_subpools p \<and> sp_start (bp_subpools p' i) \<noteq> None
          \<and> 0 < sp_available_blocks (bp_subpools p' i)"
      using extend_loop_spec [OF inv, of "[1..<bp_num_subpools p]"] by auto
    show ?thesis
    proof (cases r)
      case r: None
      then show ?thesis
        using I(1) None e full by (simp add: vcos_generic_blockpool_alloc_def alloc_post_def)
    next
      case (Some i)
      with e(4,5) have "i < bp_num_subpools p'" "sp_start (bp_subpools p' i) \<noteq> None"
        "0 < sp_available_blocks (bp_subpools p' i)" by simp_all
      from take [OF e(2,3) this] show ?thesis
        using I(1) None e(1) Some by (simp add: vcos_generic_blockpool_alloc_def)
    qed
  qed
qed

section \<open>Initialisation\<close>

lemma init_spec:
  assumes inv: "einv (bp_env p)" and m: "m \<in> live (bp_env p)"
    and al: "al = (if align = 0 then BLOCKPOOL_ALIGN_DEFAULT else align)"
    and fit: "sizes_fit num block_size al" and n: "0 < num"
    and sz: "BLOCKPOOL_SIZE num block_size al \<le> pool_size" "unat pool_size \<le> region (bp_env p) m"
  shows "\<exists>p'. vcos_generic_blockpool_init VCOS_SUCCESS p num block_size (Some m) pool_size align
      = Some (VCOS_SUCCESS, p') \<and> bp_inv live einv fits region p' \<and> used p' = {}
    \<and> card (all_blocks p') = unat num \<and> bp_num_subpools p' = 1"
proof -
  have alo: "align_ok al" using fit by (simp add: sizes_fit_def)
  have f: "unat block_size + 36 + unat al < 2 ^ 32"
    "unat (block_size_of block_size al) * unat num + unat al < 2 ^ 32"
    using fit by (simp_all add: sizes_fit_def)
  let ?p1 = "p\<lparr>bp_block_data_size := block_size, bp_block_size := block_size_of block_size al,
                  bp_magic := BLOCKPOOL_MAGIC, bp_num_subpools := 1, bp_num_extension_blocks := 0,
                  bp_align := al, bp_subpools := (\<lambda>_. zero_subpool)\<rparr>"
  note bs = sizes_fit_8 [OF fit] and dv = block_size_of_bounds(2) [OF alo f(1)]
  have n1: "1 \<le> unat num" using n by (simp add: word_less_nat_alt)
  have s4: "4 < unat (block_size_of block_size al) * unat num" using mult_le_mono [OF bs n1] by simp
  have reg: "unat (block_size_of block_size al) * unat num + unat al \<le> region (bp_env p) m"
    using sz unat_BLOCKPOOL_SIZE [OF fit] by (simp add: word_le_nat_alt)
  obtain p' st ff e hdr where init: "vcos_generic_blockpool_subpool_init ?p1 0 m num al 0 = Some p'"
    and subs: "bp_subpools p' = (\<lambda>_. zero_subpool)(0 := zero_subpool\<lparr>sp_magic := SUBPOOL_MAGIC,
         sp_mem := Some m, sp_start := Some st, sp_num_blocks := num, sp_available_blocks := num,
         sp_free_list := ff, sp_end := e\<rparr>)"
    and rest: "p' = ?p1\<lparr>bp_owner := hdr, bp_subpools := bp_subpools p'\<rparr>"
    and si: "sub_inv live region p' 0"
    and nx: "\<forall>a \<in> set (sub_blocks p' 0). \<exists>q. bp_owner p' a = OwnerNext q"
    using subpool_init_spec [of al ?p1 num m 0 0] alo bs dv f(2) m reg inv s4
    by (auto simp: zero_subpool_def)
  have same: "bp_env p' = bp_env p" "bp_num_subpools p' = 1" "bp_block_size p' = block_size_of block_size al"
    "bp_align p' = al" "bp_magic p' = BLOCKPOOL_MAGIC"
    by (subst rest, simp)+
  have b: "sub_blocks p' 0 = blocks_from st (unat (block_size_of block_size al)) (unat num)"
    by (simp add: sub_blocks_def subs same)
  have "bp_inv live einv fits region p'"
    unfolding bp_inv_def same using inv bs alo dv si by simp
  moreover have "used p' = {}" using nx by (fastforce simp: used_def same)
  moreover have "card (all_blocks p') = unat num"
    using bs distinct_card [OF distinct_blocks_from] by (simp add: all_blocks_def same b lessThan_Suc)
  moreover have "al AND 3 = 0" by (rule align_and_3 [OF alo])
  moreover have "(if align = 0 then BLOCKPOOL_ALIGN_DEFAULT else align) = al" using al by simp
  moreover have "\<not> pool_size < BLOCKPOOL_SIZE num block_size al" using sz(1) by (rule leD)
  ultimately show ?thesis
    using init same(2) unfolding vcos_generic_blockpool_init_def Let_def option.case by auto
qed

end

end
