(* ===== verification/Vcos_Blockpool_Handles.thy ===== *)
theory Vcos_Blockpool_Handles
  imports Vcos_Blockpool_Facts
begin

text \<open>
  The observers of a block pool: the counts, the handles of allocated blocks, the validity test, and
  what deletion gives back to the allocator.
\<close>

section \<open>Counts\<close>

definition sub_used :: "'e blockpool \<Rightarrow> nat \<Rightarrow> addr set" where
  "sub_used p i = {a \<in> set (sub_blocks p i). bp_owner p a = OwnerSubpool i}"

lemma used_Union: "used p = (\<Union>i \<in> {..< bp_num_subpools p}. sub_used p i)"
  by (auto simp: used_def sub_used_def)

lemma finite_sub_used [simp]: "finite (sub_used p i)"
  by (simp add: sub_used_def)

lemma card_Union_sum_list:
  "(\<And>i. i < n \<Longrightarrow> finite (A i)) \<Longrightarrow> (\<And>i j. i < n \<Longrightarrow> j < n \<Longrightarrow> i \<noteq> j \<Longrightarrow> A i \<inter> A j = {}) \<Longrightarrow>
   of_nat (card (\<Union>i \<in> {..<n}. A i)) = (sum_list (map (\<lambda>i. of_nat (card (A i))) [0..<n]) :: u32)"
proof (induction n)
  case 0
  then show ?case by simp
next
  case (Suc n)
  have "A n \<inter> A i = {}" if "i < n" for i using Suc.prems(2) [of n i] that by simp
  then have "A n \<inter> (\<Union>i \<in> {..<n}. A i) = {}" by blast
  then have "card (\<Union>i \<in> {..<Suc n}. A i) = card (A n) + card (\<Union>i \<in> {..<n}. A i)"
    using Suc.prems(1) by (simp add: lessThan_Suc card_Un_disjoint)
  with Suc show ?case by (simp add: add.commute)
qed

context region_allocator
begin

lemma inv_subpools_ok: "bp_inv live einv fits region p \<Longrightarrow> all_subpools_ok p"
  unfolding all_subpools_ok_def using extent_ok sub_invD(1,3) bp_invD(8) by fastforce

lemma card_sub_used:
  assumes inv: "bp_inv live einv fits region p" and i: "i < bp_num_subpools p"
    and st: "sp_start (bp_subpools p i) = Some s"
  shows "of_nat (card (sub_used p i)) = sp_num_blocks (bp_subpools p i) - sp_available_blocks (bp_subpools p i)"
proof -
  have "free_list_inv p i" by (rule sub_invD(4) [OF bp_invD(8) [OF inv i] st])
  then obtain fl where fl: "distinct fl" "length fl = unat (sp_available_blocks (bp_subpools p i))"
      "set fl = {a \<in> set (sub_blocks p i). \<exists>q. bp_owner p a = OwnerNext q}"
    and all: "\<forall>a \<in> set (sub_blocks p i). bp_owner p a = OwnerSubpool i \<or> (\<exists>q. bp_owner p a = OwnerNext q)"
    unfolding free_list_inv_def by blast
  have d: "distinct (sub_blocks p i)"
    using bp_invD(5) [OF inv] by (simp add: sub_blocks_Some [OF st] distinct_blocks_from)
  have u: "set (sub_blocks p i) = sub_used p i \<union> set fl" "sub_used p i \<inter> set fl = {}"
    using fl(3) all by (auto simp: sub_used_def)
  have "card (set (sub_blocks p i)) = card (sub_used p i) + card (set fl)"
    unfolding u(1) using u(2) by (intro card_Un_disjoint) simp_all
  then have "unat (sp_num_blocks (bp_subpools p i)) = card (sub_used p i) + unat (sp_available_blocks (bp_subpools p i))"
    using distinct_card [OF d] distinct_card [OF fl(1)] fl(2) by (simp add: sub_blocks_Some [OF st])
  then have "sp_num_blocks (bp_subpools p i)
      = of_nat (card (sub_used p i) + unat (sp_available_blocks (bp_subpools p i)))"
    by (metis of_nat_unat ucast_id)
  then show ?thesis by simp
qed

lemma used_count_spec:
  assumes inv: "bp_inv live einv fits region p"
  shows "vcos_generic_blockpool_used_count p = Some (of_nat (card (used p)))"
proof -
  let ?n = "bp_num_subpools p"
  have "sub_used p i \<inter> sub_used p j = {}" if "i < ?n" "j < ?n" "i \<noteq> j" for i j
    using sub_blocks_disjoint [OF inv that] by (auto simp: sub_used_def)
  from card_Union_sum_list [of ?n "sub_used p", OF finite_sub_used this]
  have "of_nat (card (used p)) = (sum_list (map (\<lambda>i. of_nat (card (sub_used p i))) [0..<?n]) :: u32)"
    unfolding used_Union by simp
  also have "map (\<lambda>i. of_nat (card (sub_used p i)) :: u32) [0..<?n]
      = map (\<lambda>i. if sp_start (bp_subpools p i) \<noteq> None
        then sp_num_blocks (bp_subpools p i) - sp_available_blocks (bp_subpools p i) else 0) [0..<?n]"
  proof (rule map_cong [OF refl])
    fix i assume "i \<in> set [0..<?n]"
    then have i: "i < ?n" by simp
    show "of_nat (card (sub_used p i)) = (if sp_start (bp_subpools p i) \<noteq> None
        then sp_num_blocks (bp_subpools p i) - sp_available_blocks (bp_subpools p i) else 0)"
      using card_sub_used [OF inv i]
      by (cases "sp_start (bp_subpools p i)") (auto simp: sub_used_def)
  qed
  finally show ?thesis
    using inv_subpools_ok [OF inv] bp_invD(1) [OF inv]
    by (simp add: vcos_generic_blockpool_used_count_def)
qed

section \<open>Handles\<close>

lemma used_start:
  assumes inv: "bp_inv live einv fits region p" and a: "a \<in> used p"
  obtains i st k where "i < bp_num_subpools p" "i < 8" "sp_start (bp_subpools p i) = Some st"
    "k < unat (sp_num_blocks (bp_subpools p i))" "a = st + k * unat (bp_block_size p)"
    "bp_owner p a = OwnerSubpool i" "sp_mem (bp_subpools p i) \<noteq> None"
    "(k + 1) * unat (bp_block_size p) < 2 ^ 32" "k + 1 < 2 ^ 29" "subpool_ok (bp_subpools p i)"
    "sp_magic (bp_subpools p i) = SUBPOOL_MAGIC"
proof -
  note I = bp_invD [OF inv]
  from a obtain i where i: "i < bp_num_subpools p" "a \<in> set (sub_blocks p i)" "bp_owner p a = OwnerSubpool i"
    unfolding used_def by blast
  then obtain st where st: "sp_start (bp_subpools p i) = Some st"
    by (cases "sp_start (bp_subpools p i)") auto
  obtain k where k: "k < unat (sp_num_blocks (bp_subpools p i))" "a = st + k * unat (bp_block_size p)"
    using i(2) by (auto simp: sub_blocks_Some [OF st] set_blocks_from)
  note S = sub_invD [OF I(8) [OF i(1)]]
  obtain m where m: "sp_mem (bp_subpools p i) = Some m" "m \<in> live (bp_env p)"
    "st + unat (sp_num_blocks (bp_subpools p i)) * unat (bp_block_size p) < m + region (bp_env p) m"
    using extent_Some [OF S(3) st] by blast
  have "(k + 1) * unat (bp_block_size p) \<le> unat (sp_num_blocks (bp_subpools p i)) * unat (bp_block_size p)"
    using k(1) by (intro mult_le_mono1) simp
  then have lt: "(k + 1) * unat (bp_block_size p) < 2 ^ 32"
    using m(3) region_bound [OF I(2) m(2)] by linarith
  have "(k + 1) * 8 \<le> (k + 1) * unat (bp_block_size p)" using I(5) by (intro mult_le_mono2)
  then have "k + 1 < 2 ^ 29" using lt by simp
  moreover have "i < 8" using i(1) I(4) by simp
  moreover have "subpool_ok (bp_subpools p i)" by (rule extent_ok [OF S(3,1)])
  ultimately show ?thesis using that [of i st k] i st k m(1) lt S(1) by simp
qed

end

text \<open>The two parts of a handle do not overlap.\<close>

lemma handle_bits:
  fixes x i :: u32
  assumes x: "\<And>n. bit x n \<Longrightarrow> n < 29" and i: "\<And>n. bit i n \<Longrightarrow> n < 3"
  shows "drop_bit 3 (push_bit 3 x OR i) = x" and "(push_bit 3 x OR i) AND mask 3 = i"
proof -
  have no: "\<not> bit i (3 + n)" for n using i [of "3 + n"] by auto
  show "drop_bit 3 (push_bit 3 x OR i) = x"
  proof (rule bit_word_eqI)
    fix n
    show "bit (drop_bit 3 (push_bit 3 x OR i)) n = bit x n"
      using x [of n] no [of n] by (auto simp: bit_simps)
  qed
  show "(push_bit 3 x OR i) AND mask 3 = i"
    by (rule bit_word_eqI) (use i in \<open>auto simp: bit_simps\<close>)
qed

lemma handle_parts:
  assumes "k + 1 < 2 ^ 29" and "i < 8"
  shows "BLOCKPOOL_HANDLE_GET_INDEX (BLOCKPOOL_HANDLE_CREATE (of_nat k) (of_nat i)) = of_nat k"
    and "unat (BLOCKPOOL_HANDLE_GET_SUBPOOL (BLOCKPOOL_HANDLE_CREATE (of_nat k) (of_nat i))) = i"
    and "BLOCKPOOL_HANDLE_CREATE (of_nat k) (of_nat i) \<noteq> 0"
proof -
  let ?x = "of_nat (k + 1) :: u32" and ?i = "of_nat i :: u32"
  have i: "?i = take_bit 3 ?i"
    using assms(2) by (simp add: take_bit_of_nat take_bit_nat_eq_self)
  have x: "?x = take_bit 29 ?x"
    using assms(1) by (simp add: take_bit_of_nat take_bit_nat_eq_self del: of_nat_add of_nat_Suc)
  have ib: "bit ?i n \<Longrightarrow> n < 3" for n by (subst (asm) i) (simp add: bit_take_bit_iff)
  have xb: "bit ?x n \<Longrightarrow> n < 29" for n by (subst (asm) x) (simp add: bit_take_bit_iff)
  have h: "BLOCKPOOL_HANDLE_CREATE (of_nat k) ?i = push_bit 3 ?x OR ?i"
    by (simp add: BLOCKPOOL_HANDLE_CREATE_def add.commute)
  note d = handle_bits(1) [of ?x ?i, OF xb ib]
  show "BLOCKPOOL_HANDLE_GET_INDEX (BLOCKPOOL_HANDLE_CREATE (of_nat k) ?i) = of_nat k"
  proof -
    have "BLOCKPOOL_HANDLE_GET_INDEX (push_bit 3 ?x OR ?i) = ?x - 1"
      unfolding BLOCKPOOL_HANDLE_GET_INDEX_def by (rule arg_cong [OF d])
    also have "\<dots> = of_nat k" by simp
    finally show ?thesis unfolding h .
  qed
  have "BLOCKPOOL_HANDLE_GET_SUBPOOL (push_bit 3 ?x OR ?i) = ?i"
    using handle_bits(2) [of ?x ?i, OF xb ib]
    by (simp add: BLOCKPOOL_HANDLE_GET_SUBPOOL_def mask_eq_exp_minus_1)
  then show "unat (BLOCKPOOL_HANDLE_GET_SUBPOOL (BLOCKPOOL_HANDLE_CREATE (of_nat k) ?i)) = i"
    unfolding h using assms(2) by (simp add: unat_of_nat_small)
  have "unat ?x = k + 1" using assms(1) by (intro unat_of_nat_small) simp
  then have "?x \<noteq> 0" by (metis add_is_0 one_neq_zero unat_0)
  moreover have "?x = 0" if z: "push_bit 3 ?x OR ?i = 0"
    using trans [OF arg_cong [OF z [symmetric], of "drop_bit 3"] d] by simp
  ultimately show "BLOCKPOOL_HANDLE_CREATE (of_nat k) ?i \<noteq> 0" unfolding h by blast
qed

context region_allocator
begin

lemma handle_roundtrip:
  assumes inv: "bp_inv live einv fits region p" and a: "a \<in> used p"
  shows "\<exists>h. vcos_generic_blockpool_elem_to_handle (a + 4) p = Some h \<and> h \<noteq> 0
    \<and> vcos_generic_blockpool_elem_from_handle h p = Some (Some (a + 4))"
proof -
  note I = bp_invD [OF inv]
  obtain i st k where i: "i < bp_num_subpools p" "i < 8" "sp_start (bp_subpools p i) = Some st"
    "k < unat (sp_num_blocks (bp_subpools p i))" "a = st + k * unat (bp_block_size p)"
    "bp_owner p a = OwnerSubpool i" "sp_mem (bp_subpools p i) \<noteq> None"
    "(k + 1) * unat (bp_block_size p) < 2 ^ 32" "k + 1 < 2 ^ 29" "subpool_ok (bp_subpools p i)"
    "sp_magic (bp_subpools p i) = SUBPOOL_MAGIC"
    by (rule used_start [OF inv a])
  let ?h = "BLOCKPOOL_HANDLE_CREATE (of_nat k) (of_nat i)"
  note H = handle_parts [OF i(9,2)]
  have "(a - st) div unat (bp_block_size p) = k" using i(5) I(5) by simp
  then have to: "vcos_generic_blockpool_elem_to_handle (a + 4) p = Some ?h"
    using i I(1) by (simp add: vcos_generic_blockpool_elem_to_handle_def SIZEOF_BLOCK_HEADER_def)
  have ku: "unat (of_nat k :: u32) = k" using i(9) by (intro unat_of_nat_small) simp
  have lt: "(of_nat k :: u32) < sp_num_blocks (bp_subpools p i)"
    using ku i(4) by (simp add: word_less_nat_alt)
  have "k * unat (bp_block_size p) < 2 ^ 32" using i(8) by simp
  then have mul: "unat (of_nat k * bp_block_size p) = k * unat (bp_block_size p)"
    by (simp add: unat_word_ariths ku)
  have "vcos_generic_blockpool_elem_from_handle ?h p = Some (Some (a + 4))"
    using i I(1) lt mul
    by (simp add: vcos_generic_blockpool_elem_from_handle_def H Let_def SIZEOF_BLOCK_HEADER_def)
  with to H(3) show ?thesis by blast
qed

text \<open>The handle of a block that has been freed is rejected.\<close>

lemma stale_handle:
  assumes inv: "bp_inv live einv fits region p" and a: "a \<in> used p"
    and h: "vcos_generic_blockpool_elem_to_handle (a + 4) p = Some h"
    and f: "vcos_generic_blockpool_free release (Some (a + 4)) p = Some p'"
  shows "vcos_generic_blockpool_elem_from_handle h p' = Some None"
proof -
  note I = bp_invD [OF inv]
  obtain i st k where i: "i < bp_num_subpools p" "i < 8" "sp_start (bp_subpools p i) = Some st"
    "k < unat (sp_num_blocks (bp_subpools p i))" "a = st + k * unat (bp_block_size p)"
    "bp_owner p a = OwnerSubpool i" "sp_mem (bp_subpools p i) \<noteq> None"
    "(k + 1) * unat (bp_block_size p) < 2 ^ 32" "k + 1 < 2 ^ 29" "subpool_ok (bp_subpools p i)"
    "sp_magic (bp_subpools p i) = SUBPOOL_MAGIC"
    by (rule used_start [OF inv a])
  note H = handle_parts [OF i(9,2)]
  have "(a - st) div unat (bp_block_size p) = k" using i(5) I(5) by simp
  then have hh: "h = BLOCKPOOL_HANDLE_CREATE (of_nat k) (of_nat i)"
    using h i I(1) by (simp add: vcos_generic_blockpool_elem_to_handle_def SIZEOF_BLOCK_HEADER_def)
  have ku: "unat (of_nat k :: u32) = k" using i(9) by (intro unat_of_nat_small) simp
  have "k * unat (bp_block_size p) < 2 ^ 32" using i(8) by simp
  then have mul: "unat (of_nat k * bp_block_size p) = k * unat (bp_block_size p)"
    by (simp add: unat_word_ariths ku)
  have fl: "sp_flags (bp_subpools p i) AND FLAG_EXTENSION = 0" by (rule sub_invD(2) [OF I(8) [OF i(1)]])
  have p': "p' = upd_sub i (\<lambda>s. s\<lparr>sp_free_list := Some a, sp_available_blocks := sp_available_blocks s + 1\<rparr>)
      (set_owner a (OwnerNext (sp_free_list (bp_subpools p i))) p)"
    using f i(6,10) I(1) fl
    by (simp add: vcos_generic_blockpool_free_def SIZEOF_BLOCK_HEADER_def Let_def)
  show ?thesis
    using i(3) I(1) mul i(5) unfolding hh p'
    by (simp add: vcos_generic_blockpool_elem_from_handle_def H Let_def)
qed

section \<open>Deletion\<close>

lemma delete_loop_live:
  assumes "\<And>i. i \<in> set is \<Longrightarrow> subpool_ok (bp_subpools p i)" and "distinct is"
    and "einv (bp_env p)"
    and "\<And>i m. i \<in> set is \<Longrightarrow> sp_mem (bp_subpools p i) = Some m \<Longrightarrow> m \<in> live (bp_env p)"
    and "\<And>i j. i \<in> set is \<Longrightarrow> j \<in> set is \<Longrightarrow> i \<noteq> j \<Longrightarrow>
          sp_mem (bp_subpools p i) = sp_mem (bp_subpools p j) \<Longrightarrow> sp_mem (bp_subpools p i) = None"
  shows "\<exists>p'. delete_loop release is p = Some p' \<and> einv (bp_env p') \<and> live (bp_env p') = live (bp_env p)
    - {m. \<exists>i \<in> set is. sp_mem (bp_subpools p i) = Some m \<and> sp_flags (bp_subpools p i) AND FLAG_OWNS_MEM \<noteq> 0}"
  using assms
proof (induction "is" arbitrary: p)
  case Nil
  then show ?case by simp
next
  case (Cons i "is")
  let ?s = "bp_subpools p i"
  let ?p1 = "case sp_mem ?s of
           None \<Rightarrow> p
         | Some m \<Rightarrow>
             upd_sub i (\<lambda>s. s\<lparr>sp_mem := None, sp_start := None\<rparr>)
               (if sp_flags ?s AND FLAG_OWNS_MEM \<noteq> 0 then p\<lparr>bp_env := release m (bp_env p)\<rparr> else p)"
  let ?gone = "\<lambda>i. {m. sp_mem (bp_subpools p i) = Some m \<and> sp_flags (bp_subpools p i) AND FLAG_OWNS_MEM \<noteq> 0}"
  have step: "delete_loop release (i # is) p = delete_loop release is ?p1"
    using Cons.prems(1) by (simp add: Let_def)
  have same: "bp_subpools ?p1 j = bp_subpools p j" if "j \<in> set is" for j
    using that Cons.prems(2) by (auto split: option.split)
  have env: "einv (bp_env ?p1) \<and> live (bp_env ?p1) = live (bp_env p) - ?gone i"
    using Cons.prems(3) Cons.prems(4) [of i] release [of "bp_env p"]
    by (auto split: option.split)
  have IH: "\<exists>p'. delete_loop release is ?p1 = Some p' \<and> einv (bp_env p') \<and> live (bp_env p') = live (bp_env ?p1)
    - {m. \<exists>j \<in> set is. sp_mem (bp_subpools ?p1 j) = Some m \<and> sp_flags (bp_subpools ?p1 j) AND FLAG_OWNS_MEM \<noteq> 0}"
  proof (rule Cons.IH)
    show "m \<in> live (bp_env ?p1)" if j: "j \<in> set is" and m: "sp_mem (bp_subpools ?p1 j) = Some m" for j m
    proof -
      have "j \<noteq> i" using j Cons.prems(2) by auto
      moreover have mj: "sp_mem (bp_subpools p j) = Some m" using m same [OF j] by simp
      ultimately have "sp_mem (bp_subpools p i) \<noteq> Some m" using Cons.prems(5) [of i j] j by auto
      moreover have "m \<in> live (bp_env p)" using Cons.prems(4) [of j] j mj by simp
      ultimately show ?thesis using env by auto
    qed
    show "sp_mem (bp_subpools ?p1 j) = None" if "j \<in> set is" "k \<in> set is" "j \<noteq> k"
      "sp_mem (bp_subpools ?p1 j) = sp_mem (bp_subpools ?p1 k)" for j k
      using Cons.prems(5) [of j k] that same by simp
  qed (use Cons.prems(1,2) same env in auto)
  then show ?case unfolding step using env same by fastforce
qed

text \<open>Only the memory of the first subpool can be given back: the flags of the others are never set.\<close>

lemma delete_live:
  assumes inv: "bp_inv live einv fits region p"
    and ext: "\<And>i. 1 \<le> i \<Longrightarrow> i < bp_num_subpools p \<Longrightarrow> sp_flags (bp_subpools p i) = 0"
  shows "\<exists>p'. vcos_generic_blockpool_delete release p = Some p' \<and> live (bp_env p') = live (bp_env p)
    - {m. sp_mem (bp_subpools p 0) = Some m \<and> sp_flags (bp_subpools p 0) AND FLAG_OWNS_MEM \<noteq> 0}"
proof -
  note I = bp_invD [OF inv]
  have mem: "m \<in> live (bp_env p)" if i: "i < bp_num_subpools p" and m: "sp_mem (bp_subpools p i) = Some m" for i m
    using sub_invD(3) [OF I(8) [OF i]] m unfolding extent_inv_def Let_def by (auto split: option.splits)
  have "\<exists>p'. delete_loop release [0..<bp_num_subpools p] p = Some p' \<and> einv (bp_env p')
    \<and> live (bp_env p') = live (bp_env p) - {m. \<exists>i \<in> set [0..<bp_num_subpools p].
        sp_mem (bp_subpools p i) = Some m \<and> sp_flags (bp_subpools p i) AND FLAG_OWNS_MEM \<noteq> 0}"
    by (rule delete_loop_live)
      (use inv_subpools_ok [OF inv] I(2) mem I(9) in \<open>auto simp: all_subpools_ok_def\<close>)
  then obtain p' where p': "delete_loop release [0..<bp_num_subpools p] p = Some p'"
    "live (bp_env p') = live (bp_env p) - {m. \<exists>i \<in> set [0..<bp_num_subpools p].
        sp_mem (bp_subpools p i) = Some m \<and> sp_flags (bp_subpools p i) AND FLAG_OWNS_MEM \<noteq> 0}" by blast
  have "(\<exists>i \<in> set [0..<bp_num_subpools p].
        sp_mem (bp_subpools p i) = Some m \<and> sp_flags (bp_subpools p i) AND FLAG_OWNS_MEM \<noteq> 0)
    \<longleftrightarrow> sp_mem (bp_subpools p 0) = Some m \<and> sp_flags (bp_subpools p 0) AND FLAG_OWNS_MEM \<noteq> 0" for m
  proof -
    have "i = 0" if "i < bp_num_subpools p" "sp_flags (bp_subpools p i) AND FLAG_OWNS_MEM \<noteq> 0" for i
      using ext [of i] that by (cases "i = 0") auto
    with I(3) show ?thesis by fastforce
  qed
  with p' show ?thesis using I(1) by (auto simp: vcos_generic_blockpool_delete_def)
qed

end

end
