(* ===== verification/Vcos_Blockpool_Life.thy ===== *)
theory Vcos_Blockpool_Life
  imports Vcos_Blockpool_Handles
begin

text \<open>
  The life of a block pool: creation on the heap, extension, and any sequence of allocations and
  releases keep the invariant \<open>bp_inv\<close>; and what the properties of the block pool say.
\<close>

lemma extension_flag: "(f OR FLAG_OWNS_MEM) AND FLAG_EXTENSION = f AND FLAG_EXTENSION"
  by (simp add: FLAG_OWNS_MEM_def FLAG_EXTENSION_def bit.conj_disj_distrib2)

lemma finite_all_blocks [simp]: "finite (all_blocks B)"
  by (simp add: all_blocks_def)

lemma used_subset: "used B \<subseteq> all_blocks B"
  by (auto simp: used_def all_blocks_def)

lemma finite_used [simp]: "finite (used B)"
  using used_subset finite_all_blocks by (rule finite_subset)

lemma all_blocks_cong:
  "bp_num_subpools p' = bp_num_subpools p \<Longrightarrow> bp_block_size p' = bp_block_size p \<Longrightarrow>
   (\<And>i. sp_start (bp_subpools p' i) = sp_start (bp_subpools p i)
      \<and> sp_num_blocks (bp_subpools p' i) = sp_num_blocks (bp_subpools p i)) \<Longrightarrow>
   all_blocks p' = all_blocks p"
  by (simp add: all_blocks_def sub_blocks_def cong: option.case_cong)

section \<open>What the operations leave alone\<close>

definition same_layout :: "'e blockpool \<Rightarrow> 'e blockpool \<Rightarrow> bool" where
  "same_layout p p' \<longleftrightarrow> bp_block_size p' = bp_block_size p \<and> bp_block_data_size p' = bp_block_data_size p
     \<and> bp_align p' = bp_align p \<and> bp_num_subpools p' = bp_num_subpools p
     \<and> (\<forall>i. sp_flags (bp_subpools p' i) = sp_flags (bp_subpools p i))"

lemma same_layout_trans: "same_layout p p' \<Longrightarrow> same_layout p' p'' \<Longrightarrow> same_layout p p''"
  by (simp add: same_layout_def)

lemma same_layout_env [simp]: "same_layout p (p\<lparr>bp_env := e\<rparr>)"
  by (simp add: same_layout_def)

lemma subpool_init_layout:
  "vcos_generic_blockpool_subpool_init p i m n al flags = Some p' \<Longrightarrow> same_layout p p'"
  by (auto simp: vcos_generic_blockpool_subpool_init_def same_layout_def Let_def)

lemma take_block_layout: "take_block i p = Some (r, p') \<Longrightarrow> same_layout p p'"
  by (auto simp: take_block_def same_layout_def split: option.splits owner.splits)

lemma extend_loop_layout: "extend_loop alloc is p = Some (r, p') \<Longrightarrow> same_layout p p'"
proof (induction "is" arbitrary: p)
  case Nil
  then show ?case by (simp add: same_layout_def)
next
  case (Cons i "is")
  obtain mem e' where a: "alloc (BLOCKPOOL_SIZE (bp_num_extension_blocks p) (bp_block_data_size p)
      (bp_align p)) (bp_env p) = (mem, e')" by fastforce
  consider "extend_loop alloc is p = Some (r, p')" | "extend_loop alloc is (p\<lparr>bp_env := e'\<rparr>) = Some (r, p')"
    | m where "vcos_generic_blockpool_subpool_init (p\<lparr>bp_env := e'\<rparr>) i m (bp_num_extension_blocks p)
        (bp_align p) (FLAG_OWNS_MEM OR FLAG_EXTENSION) = Some p'"
    using Cons.prems a by (auto split: if_splits option.splits)
  then show ?case
  proof cases
    case 1
    then show ?thesis by (rule Cons.IH)
  next
    case 2
    then show ?thesis by (rule same_layout_trans [OF same_layout_env Cons.IH])
  next
    case 3
    then show ?thesis by (rule same_layout_trans [OF same_layout_env subpool_init_layout])
  qed
qed

lemma alloc_layout: "vcos_generic_blockpool_alloc alloc p = Some (r, p') \<Longrightarrow> same_layout p p'"
proof -
  assume a: "vcos_generic_blockpool_alloc alloc p = Some (r, p')"
  consider i where "take_block i p = Some (r, p')"
    | "extend_loop alloc [1..<bp_num_subpools p] p = Some (None, p')"
    | i q where "extend_loop alloc [1..<bp_num_subpools p] p = Some (Some i, q)" "take_block i q = Some (r, p')"
    using a by (auto simp: vcos_generic_blockpool_alloc_def split: if_splits option.splits)
  then show ?thesis
    using take_block_layout extend_loop_layout same_layout_trans by cases blast+
qed

lemma free_layout: "vcos_generic_blockpool_free release b p = Some p' \<Longrightarrow> same_layout p p'"
  by (cases b) (auto simp: vcos_generic_blockpool_free_def same_layout_def Let_def
      split: owner.splits if_splits)

section \<open>Creation on the heap and extension\<close>

lemma init_layout:
  assumes "vcos_generic_blockpool_init st p num bs start psize al = Some (VCOS_SUCCESS, p')" and "al \<noteq> 0"
    and "bp_inv live einv fits region p'" and "st = VCOS_SUCCESS"
  shows "bp_block_size p' = block_size_of bs al \<and> bp_block_data_size p' = bs \<and> bp_align p' = al
    \<and> (\<forall>i. sp_flags (bp_subpools p' i) = 0)"
proof -
  let ?p1 = "p\<lparr>bp_block_data_size := bs, bp_block_size := block_size_of bs al,
                  bp_magic := BLOCKPOOL_MAGIC, bp_num_subpools := 1, bp_num_extension_blocks := 0,
                  bp_align := al, bp_subpools := (\<lambda>_. zero_subpool)\<rparr>"
  obtain m where "vcos_generic_blockpool_subpool_init ?p1 0 m num al 0 = Some p'"
    using assms by (auto simp: vcos_generic_blockpool_init_def Let_def split: option.splits if_splits)
  from subpool_init_layout [OF this] show ?thesis by (simp add: same_layout_def zero_subpool_def)
qed

text \<open>The flags of the subpools after the first are never set.\<close>

definition bp_life ::
  "('e \<Rightarrow> addr set) \<Rightarrow> ('e \<Rightarrow> bool) \<Rightarrow> (u32 \<Rightarrow> bool) \<Rightarrow> ('e \<Rightarrow> addr \<Rightarrow> nat) \<Rightarrow> 'e blockpool \<Rightarrow> bool" where
  "bp_life live einv fits region p \<longleftrightarrow> bp_inv live einv fits region p
     \<and> bp_block_size p = block_size_of (bp_block_data_size p) (bp_align p)
     \<and> (\<forall>i \<ge> 1. sp_flags (bp_subpools p i) = 0)"

lemma bp_life_layout:
  "bp_life live einv fits region p \<Longrightarrow> same_layout p p' \<Longrightarrow> bp_inv live einv fits region p' \<Longrightarrow>
   bp_life live einv fits region p'"
  by (simp add: bp_life_def same_layout_def)

context region_allocator
begin

lemma owns_mem_inv:
  assumes "bp_inv live einv fits region p"
  shows "bp_inv live einv fits region (upd_sub 0 (\<lambda>s. s\<lparr>sp_flags := sp_flags s OR FLAG_OWNS_MEM\<rparr>) p)"
proof -
  let ?p' = "upd_sub 0 (\<lambda>s. s\<lparr>sp_flags := sp_flags s OR FLAG_OWNS_MEM\<rparr>) p"
  have "sub_inv live region ?p' i" if i: "sub_inv live region p i" for i
  proof -
    have b: "sub_blocks ?p' i = sub_blocks p i" by (rule sub_blocks_cong) simp_all
    have "extent_inv live region ?p' i = extent_inv live region p i"
      by (rule extent_inv_cong) simp_all
    then show ?thesis using i unfolding sub_inv_def free_list_inv_def b
      by (cases "i = 0") (auto simp: extension_flag)
  qed
  moreover have "sp_mem (bp_subpools ?p' i) = sp_mem (bp_subpools p i)" for i by simp
  ultimately show ?thesis using assms unfolding bp_inv_def by simp
qed

lemma create_on_heap_life:
  assumes e: "einv (bp_env p)" and fit: "sizes_fit num bs al" and n: "0 < num"
    and f: "fits (BLOCKPOOL_SIZE num bs al)"
  shows "\<exists>st p'. vcos_generic_blockpool_create_on_heap alloc release VCOS_SUCCESS p num bs al = Some (st, p')
    \<and> (st = VCOS_SUCCESS \<and> bp_life live einv fits region p' \<and> used p' = {}
         \<and> card (all_blocks p') = unat num \<and> bp_num_subpools p' = 1
       \<or> st = VCOS_ENOMEM \<and> fst (alloc (BLOCKPOOL_SIZE num bs al) (bp_env p)) = None \<and> einv (bp_env p') \<and> live (bp_env p') = live (bp_env p))"
proof -
  let ?sz = "BLOCKPOOL_SIZE num bs al"
  have "align_ok al" using fit by (simp add: sizes_fit_def)
  then have al: "al \<noteq> 0" by (auto simp: align_ok_def)
  obtain mem e' where a: "alloc ?sz (bp_env p) = (mem, e')" by fastforce
  show ?thesis
  proof (cases mem)
    case None
    with alloc_None [OF e f] a show ?thesis
      by (simp add: vcos_generic_blockpool_create_on_heap_def)
  next
    case (Some m)
    note A = alloc_Some [OF e f a [unfolded Some]] and R = region_alloc [OF e f a [unfolded Some]]
    obtain p' where p': "vcos_generic_blockpool_init VCOS_SUCCESS (p\<lparr>bp_env := e'\<rparr>) num bs (Some m) ?sz al
        = Some (VCOS_SUCCESS, p')" "bp_inv live einv fits region p'" "used p' = {}"
      "card (all_blocks p') = unat num" "bp_num_subpools p' = 1"
      using init_spec [of "p\<lparr>bp_env := e'\<rparr>" m al al num bs ?sz] A R fit n al by auto
    let ?q = "upd_sub 0 (\<lambda>s. s\<lparr>sp_flags := sp_flags s OR FLAG_OWNS_MEM\<rparr>) p'"
    have "sub_blocks ?q i = sub_blocks p' i" for i by (rule sub_blocks_cong) simp_all
    then have "used ?q = used p'" "all_blocks ?q = all_blocks p'" by (simp_all add: used_def all_blocks_def)
    moreover have "bp_life live einv fits region ?q"
      using owns_mem_inv [OF p'(2)] init_layout [OF p'(1) al p'(2)] by (simp add: bp_life_def)
    ultimately show ?thesis
      using p' a Some by (simp add: vcos_generic_blockpool_create_on_heap_def)
  qed
qed

lemma create_on_heap_spec:
  assumes "einv (bp_env p)" and "sizes_fit num bs BLOCKPOOL_ALIGN_DEFAULT" and "0 < num"
    and "fits (BLOCKPOOL_SIZE num bs BLOCKPOOL_ALIGN_DEFAULT)"
  shows "\<exists>st p'. vcos_generic_blockpool_create_on_heap alloc release VCOS_SUCCESS p num bs BLOCKPOOL_ALIGN_DEFAULT
      = Some (st, p')
    \<and> (st = VCOS_SUCCESS \<and> bp_inv live einv fits region p' \<and> used p' = {} \<and> card (all_blocks p') = unat num
         \<and> bp_num_subpools p' = 1
       \<or> st = VCOS_ENOMEM \<and> einv (bp_env p') \<and> live (bp_env p') = live (bp_env p))"
  using create_on_heap_life [OF assms] unfolding bp_life_def by blast

lemma extend_life:
  assumes life: "bp_life live einv fits region p"
    and ext: "vcos_generic_blockpool_extend p num_ext num = Some (VCOS_SUCCESS, p')"
    and fit: "sizes_fit num (bp_block_data_size p) (bp_align p)"
    and f: "fits (BLOCKPOOL_SIZE num (bp_block_data_size p) (bp_align p))"
  shows "bp_life live einv fits region p' \<and> used p' = used p \<and> bp_num_subpools p' = 1 + unat num_ext
    \<and> bp_env p' = bp_env p"
proof -
  have inv: "bp_inv live einv fits region p" using life by (simp add: bp_life_def)
  let ?n = "1 + unat num_ext"
  have one: "bp_num_subpools p = 1"
    using ext bp_invD(3) [OF inv] by (auto simp: vcos_generic_blockpool_extend_def split: if_splits)
  have g: "bp_num_subpools p = 1" "1 \<le> unat num_ext" "unat num_ext \<le> 7" "0 < num"
    and p': "p' = p\<lparr>bp_num_subpools := ?n, bp_num_extension_blocks := num,
      bp_subpools := mark_subpools ?n (bp_subpools p)\<rparr>"
    using ext unfolding vcos_generic_blockpool_extend_def one
    by (simp_all add: BLOCKPOOL_MAX_SUBPOOLS_def Let_def one
        word_le_nat_alt word_less_nat_alt split: if_splits)
  have s0: "bp_subpools p' 0 = bp_subpools p 0" by (simp add: p' mark_subpools_def)
  have si: "bp_subpools p' i = (bp_subpools p i)\<lparr>sp_magic := SUBPOOL_MAGIC, sp_start := None, sp_mem := None\<rparr>"
    if "1 \<le> i" "i < ?n" for i using that by (simp add: p' mark_subpools_def)
  have fl: "sp_flags (bp_subpools p' i) = sp_flags (bp_subpools p i)" for i
    by (simp add: p' mark_subpools_def)
  have rest: "bp_owner p' = bp_owner p" "bp_env p' = bp_env p" "bp_block_size p' = bp_block_size p"
    "bp_align p' = bp_align p" "bp_magic p' = bp_magic p" "bp_num_subpools p' = ?n"
    "bp_block_data_size p' = bp_block_data_size p" "bp_num_extension_blocks p' = num"
    by (simp_all add: p')
  have b0: "sub_blocks p' 0 = sub_blocks p 0" by (rule sub_blocks_cong) (simp_all add: s0 rest)
  have "sub_inv live region p 0" using bp_invD(8) [OF inv, of 0] g(1) by simp
  then have i0: "sub_inv live region p' 0"
    unfolding sub_inv_def free_list_inv_def extent_inv_def b0 s0 rest .
  have ii: "sub_inv live region p' i" if "1 \<le> i" "i < ?n" for i
    using life that by (simp add: sub_inv_def extent_inv_def si [OF that] bp_life_def)
  have all: "sub_inv live region p' i" if "i < ?n" for i
    using i0 ii that by (cases "i = 0") auto
  have mem: "sp_mem (bp_subpools p' i) = None" if "1 \<le> i" "i < ?n" for i using si [OF that] by simp
  have "bp_inv live einv fits region p'"
    unfolding bp_inv_def rest
    using bp_invD(1,2,5,6,7) [OF inv] g all mem fit f life
    by (auto simp: bp_life_def) (metis One_nat_def Suc_leI neq0_conv)+
  moreover have "used p' = used p"
  proof -
    have none: "sub_blocks p' i = []" if "1 \<le> i" "i < ?n" for i using si [OF that] by simp
    have "(\<exists>i < ?n. a \<in> set (sub_blocks p' i) \<and> bp_owner p a = OwnerSubpool i)
        \<longleftrightarrow> a \<in> set (sub_blocks p' 0) \<and> bp_owner p a = OwnerSubpool 0" for a
      using none by (metis One_nat_def Suc_leI empty_iff list.set(1) neq0_conv zero_less_Suc plus_1_eq_Suc)
    then show ?thesis unfolding used_def rest g(1) by (simp add: b0)
  qed
  moreover have "bp_life live einv fits region p'"
    using calculation(1) life fl by (simp add: bp_life_def rest)
  ultimately show ?thesis by (simp add: rest)
qed

end

section \<open>Reachable pools\<close>

text \<open>The states of a pool that is created on the heap and then used in any order; only a block
  that is allocated is freed.\<close>

inductive bp_reach ::
  "(u32 \<Rightarrow> 'e \<Rightarrow> ptr \<times> 'e) \<Rightarrow> (addr \<Rightarrow> 'e \<Rightarrow> 'e) \<Rightarrow> ('e \<Rightarrow> bool) \<Rightarrow> (u32 \<Rightarrow> bool) \<Rightarrow> 'e blockpool \<Rightarrow> bool"
  for alloc release einv fits where
  create: "einv (bp_env p0) \<Longrightarrow> 0 < num \<Longrightarrow> sizes_fit num bs al \<Longrightarrow> fits (BLOCKPOOL_SIZE num bs al) \<Longrightarrow>
    vcos_generic_blockpool_create_on_heap alloc release VCOS_SUCCESS p0 num bs al = Some (VCOS_SUCCESS, p) \<Longrightarrow>
    bp_reach alloc release einv fits p"
| extend: "bp_reach alloc release einv fits p \<Longrightarrow>
    sizes_fit num (bp_block_data_size p) (bp_align p) \<Longrightarrow>
    fits (BLOCKPOOL_SIZE num (bp_block_data_size p) (bp_align p)) \<Longrightarrow>
    vcos_generic_blockpool_extend p num_ext num = Some (VCOS_SUCCESS, p') \<Longrightarrow>
    bp_reach alloc release einv fits p'"
| alloc: "bp_reach alloc release einv fits p \<Longrightarrow> vcos_generic_blockpool_alloc alloc p = Some (r, p') \<Longrightarrow>
    bp_reach alloc release einv fits p'"
| free: "bp_reach alloc release einv fits p \<Longrightarrow> a \<in> used p \<Longrightarrow>
    vcos_generic_blockpool_free release (Some (a + 4)) p = Some p' \<Longrightarrow>
    bp_reach alloc release einv fits p'"

context region_allocator
begin

lemma alloc_life:
  assumes life: "bp_life live einv fits region p" and a: "vcos_generic_blockpool_alloc alloc p = Some (r, p')"
  shows "bp_life live einv fits region p' \<and> alloc_post p r p'"
proof -
  have "alloc_post p r p'" using alloc_spec [of p] life a by (auto simp: bp_life_def)
  moreover from this have "bp_inv live einv fits region p'" by (simp add: alloc_post_def)
  ultimately show ?thesis using bp_life_layout [OF life alloc_layout [OF a]] by blast
qed

lemma free_life:
  assumes life: "bp_life live einv fits region p" and a: "a \<in> used p"
  shows "\<exists>p'. vcos_generic_blockpool_free release (Some (a + 4)) p = Some p'
    \<and> bp_life live einv fits region p' \<and> used p' = used p - {a}"
proof -
  obtain p' where p': "vcos_generic_blockpool_free release (Some (a + 4)) p = Some p'"
    "bp_inv live einv fits region p'" "used p' = used p - {a}"
    using free_spec [of p a] life a by (auto simp: bp_life_def)
  with bp_life_layout [OF life free_layout [OF p'(1)]] show ?thesis by blast
qed

lemma reach_life: "bp_reach alloc release einv fits p \<Longrightarrow> bp_life live einv fits region p"
proof (induction rule: bp_reach.induct)
  case (create p0 num bs al p)
  then show ?case using create_on_heap_life [of p0 num bs al] by auto
next
  case (extend p num num_ext p')
  then show ?case using extend_life by blast
next
  case (alloc p r p')
  then show ?case using alloc_life by blast
next
  case (free p a p')
  then show ?case using free_life [of p a] by auto
qed

lemma reach_inv: "bp_reach alloc release einv fits p \<Longrightarrow> bp_inv live einv fits region p"
  using reach_life by (simp add: bp_life_def)

lemma reach_alloc:
  assumes r: "bp_reach alloc release einv fits p"
  shows "\<exists>b p'. vcos_generic_blockpool_alloc alloc p = Some (b, p')
    \<and> (case b of
         None \<Rightarrow> used p' = used p \<and> used p = all_blocks p
       | Some b \<Rightarrow> b - 4 \<notin> used p \<and> used p' = insert (b - 4) (used p) \<and> unat (bp_align p) dvd b
           \<and> vcos_generic_blockpool_used_count p' = Some (of_nat (card (used p) + 1))
           \<and> (\<exists>p''. vcos_generic_blockpool_free release (Some b) p' = Some p'' \<and> used p'' = used p))"
proof -
  obtain b p' where a: "vcos_generic_blockpool_alloc alloc p = Some (b, p')" "alloc_post p b p'"
    using alloc_spec [OF reach_inv [OF r]] by blast
  note life = alloc_life [OF reach_life [OF r] a(1)]
  have al: "bp_align p' = bp_align p" using alloc_layout [OF a(1)] by (simp add: same_layout_def)
  show ?thesis
  proof (cases b)
    case None
    with a show ?thesis by (intro exI [of _ b] exI [of _ p']) (simp add: alloc_post_def)
  next
    case (Some c)
    then obtain h where h: "c = h + 4" "h \<notin> used p" "used p' = insert h (used p)" "unat (bp_align p') dvd c"
      and inv: "bp_inv live einv fits region p'"
      using a(2) by (auto simp: alloc_post_def)
    obtain p'' where "vcos_generic_blockpool_free release (Some (h + 4)) p' = Some p''"
      "used p'' = used p' - {h}"
      using free_spec [OF inv, of h] h(3) by blast
    moreover have "vcos_generic_blockpool_used_count p' = Some (of_nat (card (used p) + 1))"
      using used_count_spec [OF inv] h(2,3) by simp
    ultimately show ?thesis
      using a(1) Some h al by (intro exI [of _ b] exI [of _ p']) auto
  qed
qed

lemma reach_handle:
  assumes r: "bp_reach alloc release einv fits p" and a: "a \<in> used p"
  shows "\<exists>h p'. vcos_generic_blockpool_elem_to_handle (a + 4) p = Some h \<and> h \<noteq> 0
    \<and> vcos_generic_blockpool_elem_from_handle h p = Some (Some (a + 4))
    \<and> vcos_generic_blockpool_free release (Some (a + 4)) p = Some p'
    \<and> vcos_generic_blockpool_elem_from_handle h p' = Some None"
proof -
  note inv = reach_inv [OF r]
  obtain h where h: "vcos_generic_blockpool_elem_to_handle (a + 4) p = Some h" "h \<noteq> 0"
    "vcos_generic_blockpool_elem_from_handle h p = Some (Some (a + 4))"
    using handle_roundtrip [OF inv a] by blast
  obtain p' where p': "vcos_generic_blockpool_free release (Some (a + 4)) p = Some p'"
    using free_spec [OF inv a] by blast
  from stale_handle [OF inv a h(1) p'] h p' show ?thesis by blast
qed

lemma reach_delete:
  assumes r: "bp_reach alloc release einv fits p"
  shows "\<exists>p'. vcos_generic_blockpool_delete release p = Some p'
    \<and> (\<forall>i m. 1 \<le> i \<and> i < bp_num_subpools p \<and> sp_mem (bp_subpools p i) = Some m \<longrightarrow> m \<in> live (bp_env p'))"
proof -
  note life = reach_life [OF r] and inv = reach_inv [OF r]
  have "\<And>i. 1 \<le> i \<Longrightarrow> i < bp_num_subpools p \<Longrightarrow> sp_flags (bp_subpools p i) = 0"
    using life by (simp add: bp_life_def)
  from delete_live [OF inv this] obtain p' where d: "vcos_generic_blockpool_delete release p = Some p'"
    and lv: "live (bp_env p') = live (bp_env p)
      - {m. sp_mem (bp_subpools p 0) = Some m \<and> sp_flags (bp_subpools p 0) AND FLAG_OWNS_MEM \<noteq> 0}" by blast
  have "m \<in> live (bp_env p')" if i: "1 \<le> i" "i < bp_num_subpools p" "sp_mem (bp_subpools p i) = Some m" for i m
  proof -
    have "extent_inv live region p i" using sub_invD(3) [OF bp_invD(8) [OF inv i(2)]] .
    then have "m \<in> live (bp_env p)" using i(3) by (auto simp: extent_inv_def Let_def split: option.splits)
    moreover have "sp_mem (bp_subpools p 0) \<noteq> Some m"
      using bp_invD(9) [OF inv i(2), of 0] i by auto
    ultimately show ?thesis by (simp add: lv)
  qed
  with d show ?thesis by blast
qed

end

section \<open>A pool on a concrete heap\<close>

definition example_bp :: "bump_heap vmem blockpool" where
  "example_bp = \<lparr>bp_magic = 0, bp_align = 0, bp_block_data_size = 0, bp_block_size = 0, bp_num_subpools = 0,
     bp_num_extension_blocks = 0, bp_subpools = (\<lambda>_. zero_subpool), bp_owner = (\<lambda>_. OwnerNext None),
     bp_env = \<lparr>vm_hdr = (\<lambda>_. undefined),
       vm_sys = \<lparr>bump_brk = 4096, bump_limit = 65536, bump_blocks = []\<rparr>\<rparr>\<rparr>"

lemma free_list_step: "block < end \<Longrightarrow> free_list_loop bs block end fl hdr =
    free_list_loop bs (block + bs) end (Some block) (hdr(block := OwnerNext fl))"
  and free_list_stop: "\<not> block < end \<Longrightarrow> free_list_loop bs block end fl hdr = Some (fl, hdr)"
  by (subst free_list_loop.simps, simp)+

abbreviation bump_vmalloc :: "u32 \<Rightarrow> bump_heap vmem \<Rightarrow> ptr \<times> bump_heap vmem" where
  "bump_vmalloc \<equiv> vcos_generic_mem_alloc bump_malloc"

abbreviation bump_vfree :: "addr \<Rightarrow> bump_heap vmem \<Rightarrow> bump_heap vmem" where
  "bump_vfree \<equiv> \<lambda>a. vcos_generic_mem_free bump_free (Some a)"

lemmas bp_values = example_bp_def vcos_bump_alloc user_ptr_value vcos_generic_blockpool_create_on_heap_def
  vcos_generic_blockpool_init_def vcos_generic_blockpool_subpool_init_def BLOCKPOOL_SIZE_def block_size_of_def
  BLOCKPOOL_ROUND_UP_def SIZEOF_BLOCK_HEADER_def first_block_def free_list_step free_list_stop Let_def
  vcos_generic_blockpool_extend_def BLOCKPOOL_MAX_SUBPOOLS_def mark_subpools_def upt_rec
  vcos_generic_blockpool_alloc_def take_block_def zero_subpool_def

text \<open>One block in the first subpool and one in an extension, both allocated.\<close>

lemma example_run:
  "\<exists>p1 p2 p3 p4. vcos_generic_blockpool_create_on_heap bump_vmalloc bump_vfree VCOS_SUCCESS example_bp 1 20 4
      = Some (VCOS_SUCCESS, p1)
    \<and> vcos_generic_blockpool_extend p1 1 1 = Some (VCOS_SUCCESS, p2)
    \<and> bp_block_data_size p1 = 20 \<and> bp_align p1 = 4
    \<and> vcos_generic_blockpool_alloc bump_vmalloc p2 = Some (Some 4116, p3)
    \<and> vcos_generic_blockpool_alloc bump_vmalloc p3 = Some (Some 4180, p4)
    \<and> bp_num_subpools p4 = 2 \<and> sp_mem (bp_subpools p4 1) = Some 4176"
  by (simp add: bp_values)

lemma example_reach:
  "\<exists>p. bp_reach bump_vmalloc bump_vfree bump.vm_inv ok_size p \<and> 4112 \<in> used p \<and> bp_num_subpools p = 2
     \<and> sp_mem (bp_subpools p 1) = Some 4176"
proof -
  obtain p1 p2 p3 p4 where c: "vcos_generic_blockpool_create_on_heap bump_vmalloc bump_vfree VCOS_SUCCESS
      example_bp 1 20 4 = Some (VCOS_SUCCESS, p1)"
    and e: "vcos_generic_blockpool_extend p1 1 1 = Some (VCOS_SUCCESS, p2)"
    and l: "bp_block_data_size p1 = 20" "bp_align p1 = 4"
    and a1: "vcos_generic_blockpool_alloc bump_vmalloc p2 = Some (Some 4116, p3)"
    and a2: "vcos_generic_blockpool_alloc bump_vmalloc p3 = Some (Some 4180, p4)"
    and f: "bp_num_subpools p4 = 2" "sp_mem (bp_subpools p4 1) = Some 4176"
    using example_run by blast
  have inv: "bump.vm_inv (bp_env example_bp)"
    by (simp add: bump.vm_inv_def bump_inv_def bump_map_def example_bp_def)
  have al: "align_ok 4" unfolding align_ok_def by (rule exI [of _ 2]) simp
  have z: "block_size_of 20 4 = 24" "BLOCKPOOL_SIZE 1 20 4 = 28" by (simp_all add: bp_values)
  have fit: "sizes_fit 1 20 4" using al by (simp add: sizes_fit_def z)
  have ok: "ok_size (BLOCKPOOL_SIZE 1 20 4)" by (simp add: ok_size_def z)
  have r1: "bp_reach bump_vmalloc bump_vfree bump.vm_inv ok_size p1"
    by (rule bp_reach.create [where einv = bump.vm_inv and fits = ok_size, OF inv _ fit ok c]) simp
  have r2: "bp_reach bump_vmalloc bump_vfree bump.vm_inv ok_size p2"
    by (rule bp_reach.extend [where einv = bump.vm_inv and fits = ok_size, OF r1 _ _ e]) (simp_all add: l fit ok)
  note r3 = bp_reach.alloc [OF r2 a1]
  note r4 = bp_reach.alloc [OF r3 a2]
  have "4116 - 4 \<in> used p3 \<and> used p4 = insert (4180 - 4) (used p3)"
    using bump.vcos.reach_alloc [OF r2] bump.vcos.reach_alloc [OF r3] a1 a2 by auto
  then have "4112 \<in> used p4" by simp
  with r4 f show ?thesis by blast
qed

section \<open>Properties\<close>

text \<open>C22. In every state of a block pool reachable by creation on the heap, extension, allocation and
  release, over every allocator: \<open>vcos_generic_blockpool_alloc\<close> returns; it fails only when every
  block of every subpool is allocated; a block it returns was free, is aligned, and is the only one
  to change; the count of used blocks is right; and freeing the block restores the set.\<close>

theorem blockpool_alloc_free:
  assumes "region_allocator alloc release live einv fits region" and "bp_reach alloc release einv fits p"
  shows "\<exists>b p'. vcos_generic_blockpool_alloc alloc p = Some (b, p')
    \<and> (case b of
         None \<Rightarrow> used p' = used p \<and> used p = all_blocks p
       | Some b \<Rightarrow> b - 4 \<notin> used p \<and> used p' = insert (b - 4) (used p) \<and> unat (bp_align p) dvd b
           \<and> vcos_generic_blockpool_used_count p' = Some (of_nat (card (used p) + 1))
           \<and> (\<exists>p''. vcos_generic_blockpool_free release (Some b) p' = Some p'' \<and> used p'' = used p))"
  by (rule region_allocator.reach_alloc [OF assms])

theorem blockpool_alloc_free_witness:
  "\<exists>p b p'. bp_reach bump_vmalloc bump_vfree bump.vm_inv ok_size p
     \<and> vcos_generic_blockpool_alloc bump_vmalloc p = Some (b, p') \<and> 4112 \<in> used p'"
proof -
  obtain p where p: "bp_reach bump_vmalloc bump_vfree bump.vm_inv ok_size p" "4112 \<in> used p"
    using example_reach by blast
  obtain b p' where a: "vcos_generic_blockpool_alloc bump_vmalloc p = Some (b, p')"
    and u: "case b of
         None \<Rightarrow> used p' = used p \<and> used p = all_blocks p
       | Some b \<Rightarrow> b - 4 \<notin> used p \<and> used p' = insert (b - 4) (used p) \<and> unat (bp_align p) dvd b
           \<and> vcos_generic_blockpool_used_count p' = Some (of_nat (card (used p) + 1))
           \<and> (\<exists>p''. vcos_generic_blockpool_free bump_vfree (Some b) p' = Some p'' \<and> used p'' = used p)"
    using blockpool_alloc_free [OF bump.vcos.region_allocator_axioms p(1)] by blast
  have "4112 \<in> used p'" using u p(2) by (cases b) auto
  with p(1) a show ?thesis by blast
qed

text \<open>C30. Handles: for every allocated block of a reachable pool, \<open>elem_to_handle\<close> gives a nonzero
  handle that \<open>elem_from_handle\<close> maps back to the block; once the block is freed the handle is
  rejected.\<close>

theorem blockpool_handle_roundtrip:
  assumes "region_allocator alloc release live einv fits region" and "bp_reach alloc release einv fits p"
    and "a \<in> used p"
  shows "\<exists>h p'. vcos_generic_blockpool_elem_to_handle (a + 4) p = Some h \<and> h \<noteq> 0
    \<and> vcos_generic_blockpool_elem_from_handle h p = Some (Some (a + 4))
    \<and> vcos_generic_blockpool_free release (Some (a + 4)) p = Some p'
    \<and> vcos_generic_blockpool_elem_from_handle h p' = Some None"
  by (rule region_allocator.reach_handle [OF assms])

theorem blockpool_handle_roundtrip_witness:
  "\<exists>p h p'. vcos_generic_blockpool_elem_to_handle 4116 p = Some h
     \<and> vcos_generic_blockpool_elem_from_handle h p = Some (Some 4116)
     \<and> vcos_generic_blockpool_free bump_vfree (Some 4116) p = Some p'
     \<and> vcos_generic_blockpool_elem_from_handle h p' = Some None"
proof -
  obtain p where p: "bp_reach bump_vmalloc bump_vfree bump.vm_inv ok_size p" "4112 \<in> used p"
    using example_reach by blast
  from blockpool_handle_roundtrip [OF bump.vcos.region_allocator_axioms p] show ?thesis by auto
qed

text \<open>\<open>vcos_generic_blockpool_delete\<close> returns on every reachable pool, but the memory of every
  extension subpool stays allocated after it, because the flags that say the pool owns the memory are
  never stored for extensions.\<close>

lemma blockpool_delete_leaks_extensions:
  assumes "region_allocator alloc release live einv fits region" and "bp_reach alloc release einv fits p"
  shows "\<exists>p'. vcos_generic_blockpool_delete release p = Some p'
    \<and> (\<forall>i m. 1 \<le> i \<and> i < bp_num_subpools p \<and> sp_mem (bp_subpools p i) = Some m \<longrightarrow> m \<in> live (bp_env p'))"
  by (rule region_allocator.reach_delete [OF assms])

lemma blockpool_delete_leaks_extensions_witness:
  "\<exists>p p'. bp_reach bump_vmalloc bump_vfree bump.vm_inv ok_size p
     \<and> vcos_generic_blockpool_delete bump_vfree p = Some p' \<and> 4176 \<in> bump.vm_live (bp_env p')"
proof -
  obtain p where p: "bp_reach bump_vmalloc bump_vfree bump.vm_inv ok_size p" "bp_num_subpools p = 2"
    "sp_mem (bp_subpools p 1) = Some 4176"
    using example_reach by blast
  obtain p' where d: "vcos_generic_blockpool_delete bump_vfree p = Some p'"
    and l: "\<forall>i m. 1 \<le> i \<and> i < bp_num_subpools p \<and> sp_mem (bp_subpools p i) = Some m
      \<longrightarrow> m \<in> bump.vm_live (bp_env p')"
    using blockpool_delete_leaks_extensions [OF bump.vcos.region_allocator_axioms p(1)] by blast
  have "4176 \<in> bump.vm_live (bp_env p')" using l [rule_format, of 1 4176] p(2,3) by simp
  with p(1) d show ?thesis by blast
qed

end
