(* ===== verification/Vcos_Msgq_Pool.thy ===== *)
theory Vcos_Msgq_Pool
  imports Vcos_Msgqueue Vcos_Blockpool_Life
begin

text \<open>
  Message pools (\<^verbatim>\<open>vcos_msgqueue.c\<close>) over block pools: the semaphore of a message pool and the
  used blocks of its block pool add up to the capacity, whatever the interleaving of allocations
  and releases, so the block allocation that follows the semaphore never fails.
\<close>

text \<open>\<open>k\<close> threads have taken a count and not yet a block, \<open>j\<close> have returned a block and not yet
  posted.\<close>

definition msgp_inv ::
  "('e \<Rightarrow> addr set) \<Rightarrow> ('e \<Rightarrow> bool) \<Rightarrow> (u32 \<Rightarrow> bool) \<Rightarrow> ('e \<Rightarrow> addr \<Rightarrow> nat) \<Rightarrow>
   addr \<Rightarrow> nat \<Rightarrow> nat \<Rightarrow> 'e mstate \<Rightarrow> bool" where
  "msgp_inv live einv fits region p k j s \<longleftrightarrow>
     (let P = ms_pool s p; B = mp_blockpool P in
      bp_inv live einv fits region B \<and> bp_num_subpools B = 1
      \<and> mp_sem P + k + j + card (used B) = card (all_blocks B)
      \<and> (\<forall>a \<in> used B. msg_pool (ms_msg s (a + 4)) = Some p))"

definition msg_blocks :: "addr \<Rightarrow> 'e mstate \<Rightarrow> addr set" where
  "msg_blocks p s = used (mp_blockpool (ms_pool s p))"

definition msg_capacity :: "addr \<Rightarrow> 'e mstate \<Rightarrow> nat" where
  "msg_capacity p s = card (all_blocks (mp_blockpool (ms_pool s p)))"

lemma take_block_all:
  assumes "take_block i p = Some (r, p')"
  shows "all_blocks p' = all_blocks p \<and> bp_num_subpools p' = bp_num_subpools p"
proof -
  obtain nb nx where p': "p' = set_owner nb (OwnerSubpool i) (upd_sub i (\<lambda>s. s\<lparr>sp_free_list := nx,
      sp_available_blocks := sp_available_blocks s - 1\<rparr>) p)"
    using assms by (auto simp: take_block_def split: option.splits owner.splits)
  have "all_blocks p' = all_blocks p" unfolding p' by (rule all_blocks_cong) auto
  then show ?thesis by (simp add: p')
qed

lemma alloc_all_blocks:
  assumes one: "bp_num_subpools p = 1" and a: "vcos_generic_blockpool_alloc alloc p = Some (r, p')"
  shows "all_blocks p' = all_blocks p" and "bp_num_subpools p' = 1"
proof -
  have "take_block 0 p = Some (r, p') \<or> p' = p"
    using a one by (auto simp: vcos_generic_blockpool_alloc_def split: if_splits option.splits)
  with take_block_all [of 0 p r p'] one
  show "all_blocks p' = all_blocks p" and "bp_num_subpools p' = 1" by auto
qed

lemma free_all_blocks:
  assumes inv: "bp_inv live einv fits region p" and one: "bp_num_subpools p = 1" and a: "a \<in> used p"
    and f: "vcos_generic_blockpool_free release (Some (a + 4)) p = Some p'"
  shows "all_blocks p' = all_blocks p" and "bp_num_subpools p' = 1"
proof -
  have o: "bp_owner p a = OwnerSubpool 0" using a one by (auto simp: used_def)
  have fl: "sp_flags (bp_subpools p 0) AND FLAG_EXTENSION = 0"
    using inv one by (simp add: bp_inv_def sub_inv_def)
  from f o fl have p': "p' = set_owner a (OwnerNext (sp_free_list (bp_subpools p 0)))
      (upd_sub 0 (\<lambda>s. s\<lparr>sp_free_list := Some a, sp_available_blocks := sp_available_blocks s + 1\<rparr>) p)"
    by (simp add: vcos_generic_blockpool_free_def SIZEOF_BLOCK_HEADER_def Let_def split: if_splits)
      (auto simp: upd_sub_def set_owner_def)
  show "all_blocks p' = all_blocks p" unfolding p' by (rule all_blocks_cong) auto
  show "bp_num_subpools p' = 1" unfolding p' using one by simp
qed

text \<open>Threads at a message pool: taking a count, taking a block, returning a block, posting. A thread
  returns only a block that is allocated.\<close>

inductive pool_thread_step ::
  "(u32 \<Rightarrow> 'e \<Rightarrow> ptr \<times> 'e) \<Rightarrow> (addr \<Rightarrow> 'e \<Rightarrow> 'e) \<Rightarrow> addr \<Rightarrow>
   nat \<times> nat \<times> 'e mstate \<Rightarrow> nat \<times> nat \<times> 'e mstate \<Rightarrow> bool" for alloc release p where
  take: "sem_wait (mp_sem (ms_pool s p)) = Some n \<Longrightarrow>
    pool_thread_step alloc release p (k, j, s) (Suc k, j, upd_mp p (\<lambda>P. P\<lparr>mp_sem := n\<rparr>) s)"
| calloc: "pool_calloc alloc p s = Returns (m, s') \<Longrightarrow>
    pool_thread_step alloc release p (Suc k, j, s) (k, j, s')"
| release: "a \<in> msg_blocks p s \<Longrightarrow>
    vcos_generic_blockpool_free release (Some (a + 4)) (mp_blockpool (ms_pool s p)) = Some B \<Longrightarrow>
    pool_thread_step alloc release p (k, j, s) (k, Suc j, upd_mp p (\<lambda>P. P\<lparr>mp_blockpool := B\<rparr>) s)"
| post: "pool_thread_step alloc release p (k, Suc j, s) (k, j, upd_mp p (\<lambda>P. P\<lparr>mp_sem := sem_post (mp_sem P)\<rparr>) s)"

inductive pool_thread_steps ::
  "(u32 \<Rightarrow> 'e \<Rightarrow> ptr \<times> 'e) \<Rightarrow> (addr \<Rightarrow> 'e \<Rightarrow> 'e) \<Rightarrow> addr \<Rightarrow>
   nat \<times> nat \<times> 'e mstate \<Rightarrow> nat \<times> nat \<times> 'e mstate \<Rightarrow> bool" for alloc release p where
  refl: "pool_thread_steps alloc release p x x"
| step: "pool_thread_steps alloc release p x y \<Longrightarrow> pool_thread_step alloc release p y z \<Longrightarrow>
    pool_thread_steps alloc release p x z"

context region_allocator
begin

abbreviation minv :: "addr \<Rightarrow> nat \<Rightarrow> nat \<Rightarrow> 'a mstate \<Rightarrow> bool" where
  "minv \<equiv> msgp_inv live einv fits region"

lemma pool_create_spec:
  assumes "einv (bp_env (mp_blockpool (ms_pool s p)))" and "0 < count"
    and "sizes_fit count (payload + SIZEOF_MSG) BLOCKPOOL_ALIGN_DEFAULT"
    and "fits (BLOCKPOOL_SIZE count (payload + SIZEOF_MSG) BLOCKPOOL_ALIGN_DEFAULT)"
  shows "\<exists>st s'. vcos_msgq_pool_create alloc release VCOS_SUCCESS VCOS_SUCCESS p count payload s = Returns (st, s')
    \<and> (st = VCOS_SUCCESS \<and> minv p 0 0 s' \<and> mp_sem (ms_pool s' p) = unat count \<and> msg_blocks p s' = {}
       \<or> st = VCOS_ENOMEM)"
proof -
  obtain st B where B: "vcos_generic_blockpool_create_on_heap alloc release VCOS_SUCCESS (mp_blockpool (ms_pool s p))
      count (payload + SIZEOF_MSG) BLOCKPOOL_ALIGN_DEFAULT = Some (st, B)"
    "st = VCOS_SUCCESS \<and> bp_inv live einv fits region B \<and> used B = {} \<and> card (all_blocks B) = unat count
       \<and> bp_num_subpools B = 1 \<or> st = VCOS_ENOMEM"
    using create_on_heap_spec [OF assms(1,3,2,4)] by blast
  from B(2) show ?thesis
    by (elim disjE) (simp_all add: vcos_msgq_pool_create_def B(1) msgp_inv_def msg_blocks_def)
qed

text \<open>A thread that holds a count gets a block.\<close>

lemma pool_calloc_spec:
  assumes inv: "minv p (Suc k) j s"
  shows "\<exists>a s'. pool_calloc alloc p s = Returns (a + 4, s') \<and> minv p k j s' \<and> a \<notin> msg_blocks p s
    \<and> msg_blocks p s' = insert a (msg_blocks p s) \<and> msg_capacity p s' = msg_capacity p s
    \<and> mp_sem (ms_pool s' p) = mp_sem (ms_pool s p)
    \<and> msg_waiter (ms_msg s' (a + 4)) = Some (WaiterPool p) \<and> msg_magic (ms_msg s' (a + 4)) = VCOS_MSGQ_MAGIC
    \<and> msg_next (ms_msg s' (a + 4)) = None"
proof -
  let ?B = "mp_blockpool (ms_pool s p)"
  have B: "bp_inv live einv fits region ?B" "bp_num_subpools ?B = 1"
    "mp_sem (ms_pool s p) + Suc k + j + card (used ?B) = card (all_blocks ?B)"
    "\<And>a. a \<in> used ?B \<Longrightarrow> msg_pool (ms_msg s (a + 4)) = Some p"
    using inv by (auto simp: msgp_inv_def Let_def)
  obtain r B' where a: "vcos_generic_blockpool_alloc alloc ?B = Some (r, B')" and post: "alloc_post ?B r B'"
    using alloc_spec [OF B(1)] by blast
  note all = alloc_all_blocks [OF B(2) a]
  have "r \<noteq> None" using post B(3) by (cases r) (auto simp: alloc_post_def)
  then obtain x where x: "r = Some (x + 4)" "x \<notin> used ?B" "used B' = insert x (used ?B)"
    "bp_inv live einv fits region B'"
    using post by (auto simp: alloc_post_def split: option.splits)
  show ?thesis
    by (rule exI [of _ x]) (use a x all B in \<open>simp add: pool_calloc_def msgp_inv_def msg_blocks_def msg_capacity_def\<close>)
qed

lemma take_count:
  assumes "minv p k j s" and "sem_wait (mp_sem (ms_pool s p)) = Some n"
  shows "minv p (Suc k) j (upd_mp p (\<lambda>P. P\<lparr>mp_sem := n\<rparr>) s)"
  using assms by (auto simp: msgp_inv_def Let_def sem_wait_Some_iff)

lemma pool_alloc_spec:
  assumes inv: "minv p k j s"
  shows "(mp_sem (ms_pool s p) = 0 \<longrightarrow> vcos_msgq_pool_alloc alloc p s = Returns (None, s))
    \<and> (0 < mp_sem (ms_pool s p) \<longrightarrow> (\<exists>a s'. vcos_msgq_pool_alloc alloc p s = Returns (Some (a + 4), s')
         \<and> vcos_msgq_pool_wait alloc p s = Returns (a + 4, s') \<and> minv p k j s'
         \<and> a \<notin> msg_blocks p s \<and> msg_blocks p s' = insert a (msg_blocks p s)
         \<and> msg_waiter (ms_msg s' (a + 4)) = Some (WaiterPool p)))"
proof (cases "mp_sem (ms_pool s p)")
  case 0
  then show ?thesis by (simp add: vcos_msgq_pool_alloc_def)
next
  case (Suc n)
  then have n: "sem_wait (mp_sem (ms_pool s p)) = Some n" by simp
  let ?s1 = "upd_mp p (\<lambda>P. P\<lparr>mp_sem := n\<rparr>) s"
  have b: "msg_blocks p ?s1 = msg_blocks p s" by (simp add: msg_blocks_def)
  obtain a s' where "pool_calloc alloc p ?s1 = Returns (a + 4, s')" "minv p k j s'" "a \<notin> msg_blocks p s"
    "msg_blocks p s' = insert a (msg_blocks p s)" "msg_waiter (ms_msg s' (a + 4)) = Some (WaiterPool p)"
    using pool_calloc_spec [OF take_count [OF inv n]] unfolding b by blast
  then show ?thesis using n Suc by (simp add: vcos_msgq_pool_alloc_def vcos_msgq_pool_wait_def)
qed

lemma block_free_spec:
  assumes inv: "minv p k j s" and a: "a \<in> msg_blocks p s"
  shows "\<exists>B. vcos_generic_blockpool_free release (Some (a + 4)) (mp_blockpool (ms_pool s p)) = Some B
    \<and> minv p k (Suc j) (upd_mp p (\<lambda>P. P\<lparr>mp_blockpool := B\<rparr>) s)
    \<and> msg_blocks p (upd_mp p (\<lambda>P. P\<lparr>mp_blockpool := B\<rparr>) s) = msg_blocks p s - {a}
    \<and> msg_capacity p (upd_mp p (\<lambda>P. P\<lparr>mp_blockpool := B\<rparr>) s) = msg_capacity p s"
proof -
  let ?B = "mp_blockpool (ms_pool s p)"
  have B: "bp_inv live einv fits region ?B" "bp_num_subpools ?B = 1"
    "mp_sem (ms_pool s p) + k + j + card (used ?B) = card (all_blocks ?B)"
    "\<And>a. a \<in> used ?B \<Longrightarrow> msg_pool (ms_msg s (a + 4)) = Some p"
    using inv by (auto simp: msgp_inv_def Let_def)
  have u: "a \<in> used ?B" using a by (simp add: msg_blocks_def)
  obtain B' where f: "vcos_generic_blockpool_free release (Some (a + 4)) ?B = Some B'"
    "bp_inv live einv fits region B'" "used B' = used ?B - {a}"
    using free_spec [OF B(1) u] by blast
  note all = free_all_blocks [OF B(1,2) u f(1)]
  have "card (used ?B) = Suc (card (used ?B - {a}))" using u by (simp only: card_Suc_Diff1 finite_used)
  then show ?thesis using f all B by (simp add: msgp_inv_def msg_blocks_def msg_capacity_def)
qed

lemma pool_free_spec:
  assumes inv: "minv p k j s" and a: "a \<in> msg_blocks p s"
  shows "\<exists>s'. vcos_msgq_pool_free release (Some (a + 4)) s = Returns s' \<and> minv p k j s'
    \<and> msg_blocks p s' = msg_blocks p s - {a} \<and> mp_sem (ms_pool s' p) = Suc (mp_sem (ms_pool s p))"
proof -
  have o: "msg_pool (ms_msg s (a + 4)) = Some p"
    using inv a by (simp add: msgp_inv_def msg_blocks_def Let_def)
  obtain B where "vcos_generic_blockpool_free release (Some (a + 4)) (mp_blockpool (ms_pool s p)) = Some B"
    "minv p k (Suc j) (upd_mp p (\<lambda>P. P\<lparr>mp_blockpool := B\<rparr>) s)"
    "msg_blocks p (upd_mp p (\<lambda>P. P\<lparr>mp_blockpool := B\<rparr>) s) = msg_blocks p s - {a}"
    using block_free_spec [OF inv a] by blast
  then show ?thesis using o
    by (simp add: vcos_msgq_pool_free_def msgp_inv_def msg_blocks_def sem_post_def)
qed

text \<open>Replying to a message that still has the pool as its waiter gives its block back.\<close>

lemma reply_returns_block:
  assumes inv: "minv p k j s" and a: "a \<in> msg_blocks p s"
    and w: "msg_waiter (ms_msg s (a + 4)) = Some (WaiterPool p)"
  shows "\<exists>s'. vcos_msg_reply release (a + 4) s = Returns s' \<and> minv p k j s'
    \<and> msg_blocks p s' = msg_blocks p s - {a}"
proof -
  let ?s1 = "upd_msg (a + 4) (\<lambda>M. M\<lparr>msg_code := msg_code M OR MSG_REPLY_BIT\<rparr>) s"
  have b: "msg_blocks p ?s1 = msg_blocks p s" by (simp add: msg_blocks_def)
  have "minv p k j ?s1" using inv by (auto simp: msgp_inv_def Let_def)
  from pool_free_spec [OF this] a w show ?thesis
    unfolding b by (auto simp: vcos_msg_reply_def Let_def)
qed

lemma pool_thread_step_inv:
  assumes "pool_thread_step alloc release p x y" and "case x of (k, j, s) \<Rightarrow> minv p k j s"
  shows "case y of (k, j, s) \<Rightarrow> minv p k j s"
  using assms
proof (induction rule: pool_thread_step.induct)
  case (take s n k j)
  then show ?case using take_count by simp
next
  case (calloc s m s' k j)
  then have "minv p (Suc k) j s" by simp
  from pool_calloc_spec [OF this] calloc show ?case by auto
next
  case (release a s B k j)
  then have "minv p k j s" by simp
  from block_free_spec [OF this release(1)] release show ?case by auto
next
  case (post k j s)
  then show ?case by (auto simp: msgp_inv_def Let_def sem_post_def)
qed

end

context region_allocator
begin

lemma pool_thread_step_capacity:
  assumes "pool_thread_step alloc release p x y" and "case x of (k, j, s) \<Rightarrow> minv p k j s"
  shows "msg_capacity p (snd (snd y)) = msg_capacity p (snd (snd x))"
  using assms
proof (induction rule: pool_thread_step.induct)
  case (calloc s m s' k j)
  then show ?case using pool_calloc_spec [of p k j s] by auto
next
  case (release a s B k j)
  then show ?case using block_free_spec [of p k j s a] by auto
qed (simp_all add: msg_capacity_def)

lemma pool_thread_steps_inv:
  "pool_thread_steps alloc release p x y \<Longrightarrow> case x of (k, j, s) \<Rightarrow> minv p k j s \<Longrightarrow>
   (case y of (k, j, s) \<Rightarrow> minv p k j s) \<and> msg_capacity p (snd (snd y)) = msg_capacity p (snd (snd x))"
proof (induction rule: pool_thread_steps.induct)
  case (step x y z)
  then show ?case using pool_thread_step_inv [OF step.hyps(2)] pool_thread_step_capacity [OF step.hyps(2)]
    by simp
qed simp

lemma message_pool_counts:
  assumes "einv (bp_env (mp_blockpool (ms_pool s p)))" and "0 < count"
    and "sizes_fit count (payload + SIZEOF_MSG) BLOCKPOOL_ALIGN_DEFAULT"
    and "fits (BLOCKPOOL_SIZE count (payload + SIZEOF_MSG) BLOCKPOOL_ALIGN_DEFAULT)"
    and "vcos_msgq_pool_create alloc release VCOS_SUCCESS VCOS_SUCCESS p count payload s = Returns (VCOS_SUCCESS, s1)"
    and "pool_thread_steps alloc release p (0, 0, s1) (k, j, t)"
  shows "mp_sem (ms_pool t p) + k + j + card (msg_blocks p t) = unat count
    \<and> (0 < k \<longrightarrow> (\<exists>a t'. pool_calloc alloc p t = Returns (a + 4, t') \<and> a \<notin> msg_blocks p t))
    \<and> (\<forall>a \<in> msg_blocks p t. msg_waiter (ms_msg t (a + 4)) = Some (WaiterPool p) \<longrightarrow>
         (\<exists>t'. vcos_msg_reply release (a + 4) t = Returns t' \<and> msg_blocks p t' = msg_blocks p t - {a}
            \<and> mp_sem (ms_pool t' p) + k + j + card (msg_blocks p t') = unat count))"
proof -
  have c: "minv p 0 0 s1" "mp_sem (ms_pool s1 p) = unat count" "msg_blocks p s1 = {}"
    using pool_create_spec [OF assms(1-4)] assms(5) by auto
  have cap: "msg_capacity p s1 = unat count"
    using c by (simp add: msgp_inv_def Let_def msg_capacity_def msg_blocks_def)
  have inv: "minv p k j t" and capt: "msg_capacity p t = unat count"
    using pool_thread_steps_inv [OF assms(6)] c(1) cap by simp_all
  have sum: "mp_sem (ms_pool t p) + k + j + card (msg_blocks p t) = unat count"
    using inv capt by (simp add: msgp_inv_def Let_def msg_capacity_def msg_blocks_def)
  have get: "\<exists>a t'. pool_calloc alloc p t = Returns (a + 4, t') \<and> a \<notin> msg_blocks p t" if "0 < k"
    using pool_calloc_spec [of p "k - 1" j t] inv that by auto
  have "\<exists>t'. vcos_msg_reply release (a + 4) t = Returns t' \<and> msg_blocks p t' = msg_blocks p t - {a}
      \<and> mp_sem (ms_pool t' p) + k + j + card (msg_blocks p t') = unat count"
    if a: "a \<in> msg_blocks p t" and w: "msg_waiter (ms_msg t (a + 4)) = Some (WaiterPool p)" for a
  proof -
    obtain t' where t': "vcos_msg_reply release (a + 4) t = Returns t'" "minv p k j t'"
      "msg_blocks p t' = msg_blocks p t - {a}"
      using reply_returns_block [OF inv a w] by blast
    let ?t1 = "upd_msg (a + 4) (\<lambda>M. M\<lparr>msg_code := msg_code M OR MSG_REPLY_BIT\<rparr>) t"
    have f: "vcos_msgq_pool_free release (Some (a + 4)) ?t1 = Returns t'"
      using t'(1) w by (simp add: vcos_msg_reply_def Let_def)
    have "minv p k j ?t1" using inv by (simp add: msgp_inv_def Let_def)
    moreover have "a \<in> msg_blocks p ?t1" using a by (simp add: msg_blocks_def)
    ultimately have "mp_sem (ms_pool t' p) = Suc (mp_sem (ms_pool t p))"
      using pool_free_spec [of p k j ?t1 a] f by auto
    moreover have "0 < card (msg_blocks p t)" using a by (auto simp: card_gt_0_iff msg_blocks_def)
    ultimately show ?thesis using t' sum a by (auto simp: card_Diff_singleton_if)
  qed
  with sum get show ?thesis by blast
qed

end

section \<open>Properties\<close>

text \<open>C6. A message pool never runs dry behind its semaphore and loses no message, over every allocator:
  after a successful creation, for any interleaving of threads, the semaphore, the threads between
  the semaphore and the block pool, and the allocated messages add up to the capacity; a thread that
  has passed the semaphore gets a fresh message, so the null check that \<open>vcos_msgq_pool_alloc\<close> leaves
  to an assertion never fails; and replying to a message whose waiter is the pool gives it back.\<close>

theorem message_pool_conserved:
  assumes "region_allocator alloc release live einv fits region"
    and "einv (bp_env (mp_blockpool (ms_pool s p)))" and "0 < count"
    and "sizes_fit count (payload + SIZEOF_MSG) BLOCKPOOL_ALIGN_DEFAULT"
    and "fits (BLOCKPOOL_SIZE count (payload + SIZEOF_MSG) BLOCKPOOL_ALIGN_DEFAULT)"
    and "vcos_msgq_pool_create alloc release VCOS_SUCCESS VCOS_SUCCESS p count payload s = Returns (VCOS_SUCCESS, s1)"
    and "pool_thread_steps alloc release p (0, 0, s1) (k, j, t)"
  shows "mp_sem (ms_pool t p) + k + j + card (msg_blocks p t) = unat count
    \<and> (0 < k \<longrightarrow> (\<exists>a t'. pool_calloc alloc p t = Returns (a + 4, t') \<and> a \<notin> msg_blocks p t))
    \<and> (\<forall>a \<in> msg_blocks p t. msg_waiter (ms_msg t (a + 4)) = Some (WaiterPool p) \<longrightarrow>
         (\<exists>t'. vcos_msg_reply release (a + 4) t = Returns t' \<and> msg_blocks p t' = msg_blocks p t - {a}
            \<and> mp_sem (ms_pool t' p) + k + j + card (msg_blocks p t') = unat count))"
  by (rule region_allocator.message_pool_counts [OF assms])

definition example_pools :: "bump_heap vmem mstate" where
  "example_pools = \<lparr>ms_msg = (\<lambda>_. undefined), ms_queue = (\<lambda>_. undefined), ms_simple = (\<lambda>_. 0),
     ms_pool = (\<lambda>_. \<lparr>mp_blockpool = example_bp, mp_sem = 0, mp_magic = 0\<rparr>)\<rparr>"

theorem message_pool_conserved_witness:
  "\<exists>s1 s2 a t. vcos_msgq_pool_create bump_vmalloc bump_vfree VCOS_SUCCESS VCOS_SUCCESS 50 2 8 example_pools
       = Returns (VCOS_SUCCESS, s1)
     \<and> pool_thread_steps bump_vmalloc bump_vfree 50 (0, 0, s1) (1, 0, s2)
     \<and> pool_calloc bump_vmalloc 50 s2 = Returns (a + 4, t)"
proof -
  have inv: "bump.vm_inv (bp_env (mp_blockpool (ms_pool example_pools 50)))"
    by (simp add: bump.vm_inv_def bump_inv_def bump_map_def example_bp_def example_pools_def)
  have al: "align_ok 4" unfolding align_ok_def by (rule exI [of _ 2]) simp
  have z: "block_size_of 32 4 = 36" "BLOCKPOOL_SIZE 2 32 4 = 76" "8 + SIZEOF_MSG = 32" "BLOCKPOOL_ALIGN_DEFAULT = 4"
    by (simp_all add: bp_values SIZEOF_MSG_def BLOCKPOOL_ALIGN_DEFAULT_def)
  have fit: "sizes_fit 2 (8 + SIZEOF_MSG) BLOCKPOOL_ALIGN_DEFAULT"
    using al by (simp add: sizes_fit_def z)
  have ok: "ok_size (BLOCKPOOL_SIZE 2 (8 + SIZEOF_MSG) BLOCKPOOL_ALIGN_DEFAULT)" by (simp add: ok_size_def z)
  have "\<exists>s1. vcos_msgq_pool_create bump_vmalloc bump_vfree VCOS_SUCCESS VCOS_SUCCESS 50 2 8 example_pools
       = Returns (VCOS_SUCCESS, s1) \<and> mp_sem (ms_pool s1 50) = 2"
    unfolding vcos_msgq_pool_create_def z by (simp add: bp_values example_pools_def)
  then obtain s1 where c: "vcos_msgq_pool_create bump_vmalloc bump_vfree VCOS_SUCCESS VCOS_SUCCESS 50 2 8
      example_pools = Returns (VCOS_SUCCESS, s1)" and "mp_sem (ms_pool s1 50) = 2" by blast
  then have "sem_wait (mp_sem (ms_pool s1 50)) = Some 1" by (simp add: sem_wait_def)
  then have st: "pool_thread_steps bump_vmalloc bump_vfree 50 (0, 0, s1)
      (Suc 0, 0, upd_mp 50 (\<lambda>P. P\<lparr>mp_sem := 1\<rparr>) s1)"
    by (rule pool_thread_steps.step [OF pool_thread_steps.refl pool_thread_step.take])
  from message_pool_conserved [OF bump.vcos.region_allocator_axioms inv _ fit ok c st] c st
  show ?thesis by auto
qed

end
