(* ===== verification/Vcos_Msgqueue_Threads.thy ===== *)
theory Vcos_Msgqueue_Threads
  imports Vcos_Msgqueue
begin

text \<open>
  Threads that share one message queue (\<^verbatim>\<open>vcos_msgqueue.c\<close>). The critical sections of
  \<open>vcos_msg_wait\<close> and \<open>msgq_append\<close> do not block and are one step each; \<open>vcos_msg_peek\<close> waits on
  the semaphore inside its critical section and is two. The invariant shows that a thread that has
  taken a count of the semaphore finds a message; the last section shows that a peek can block for
  ever with the lock held.
\<close>

section \<open>Steps\<close>

datatype mpc = MIdle | MWaitLock | MPeekSem addr | MSendLock addr | MSendPost

record 'e tsys =
  ts_st :: "'e mstate"
  ts_lock :: "nat option"
  ts_pc :: "mpc list"
  ts_free :: "addr set"    \<comment> \<open>the messages the threads hold outside the calls\<close>

definition goto :: "nat \<Rightarrow> mpc \<Rightarrow> 'e tsys \<Rightarrow> 'e tsys" where
  "goto t c y = y\<lparr>ts_pc := (ts_pc y)[t := c]\<rparr>"

definition at :: "'e tsys \<Rightarrow> nat \<Rightarrow> mpc \<Rightarrow> bool" where
  "at y t c \<longleftrightarrow> t < length (ts_pc y) \<and> ts_pc y ! t = c"

definition set_sem :: "addr \<Rightarrow> nat \<Rightarrow> 'e mstate \<Rightarrow> 'e mstate" where
  "set_sem q n s = upd_mq q (\<lambda>Q. Q\<lparr>mq_sem := n\<rparr>) s"

inductive mstep :: "addr \<Rightarrow> 'e tsys \<Rightarrow> 'e tsys \<Rightarrow> bool" for q where
  wait_sem: "at y t MIdle \<Longrightarrow> sem_wait (mq_sem (ms_queue (ts_st y) q)) = Some n \<Longrightarrow>
    mstep q y (goto t MWaitLock (y\<lparr>ts_st := set_sem q n (ts_st y)\<rparr>))"
| wait_take: "at y t MWaitLock \<Longrightarrow> ts_lock y = None \<Longrightarrow> mq_head (ms_queue (ts_st y) q) = Some m \<Longrightarrow>
    mstep q y (goto t MIdle (y\<lparr>ts_st := msgq_take q m (ts_st y), ts_free := insert m (ts_free y)\<rparr>))"
| peek_empty: "at y t MIdle \<Longrightarrow> ts_lock y = None \<Longrightarrow> mq_head (ms_queue (ts_st y) q) = None \<Longrightarrow>
    mstep q y y"
| peek_take: "at y t MIdle \<Longrightarrow> ts_lock y = None \<Longrightarrow> mq_head (ms_queue (ts_st y) q) = Some m \<Longrightarrow>
    mstep q y (goto t (MPeekSem m) (y\<lparr>ts_st := msgq_take q m (ts_st y), ts_lock := Some t\<rparr>))"
| peek_sem: "at y t (MPeekSem m) \<Longrightarrow> sem_wait (mq_sem (ms_queue (ts_st y) q)) = Some n \<Longrightarrow>
    mstep q y (goto t MIdle (y\<lparr>ts_st := set_sem q n (ts_st y), ts_lock := None, ts_free := insert m (ts_free y)\<rparr>))"
| send_begin: "at y t MIdle \<Longrightarrow> m \<in> ts_free y \<Longrightarrow>
    mstep q y (goto t (MSendLock m) (y\<lparr>ts_st := msg_prepare None thread code m (ts_st y), ts_free := ts_free y - {m}\<rparr>))"
| send_append: "at y t (MSendLock m) \<Longrightarrow> ts_lock y = None \<Longrightarrow>
    mstep q y (goto t MSendPost (y\<lparr>ts_st := msgq_append q m (ts_st y)\<rparr>))"
| send_post: "at y t MSendPost \<Longrightarrow>
    mstep q y (goto t MIdle (y\<lparr>ts_st := msgq_post q (ts_st y)\<rparr>))"

inductive msteps :: "addr \<Rightarrow> 'e tsys \<Rightarrow> 'e tsys \<Rightarrow> bool" for q where
  refl: "msteps q y y"
| step: "msteps q y z \<Longrightarrow> mstep q z w \<Longrightarrow> msteps q y w"

section \<open>The invariant\<close>

definition cnt :: "(mpc \<Rightarrow> bool) \<Rightarrow> mpc list \<Rightarrow> nat" where
  "cnt P cs = length (filter P cs)"

lemma cnt_update:
  "t < length cs \<Longrightarrow> cnt P (cs[t := c]) + (if P (cs ! t) then 1 else 0) = cnt P cs + (if P c then 1 else 0)"
proof (induction cs arbitrary: t)
  case Nil
  then show ?case by simp
next
  case (Cons d cs)
  then show ?case by (cases t) (auto simp: cnt_def)
qed

fun is_peek :: "mpc \<Rightarrow> bool" where
  "is_peek (MPeekSem _) = True"
| "is_peek _ = False"

fun held :: "mpc \<Rightarrow> ptr" where
  "held (MPeekSem m) = Some m"
| "held (MSendLock m) = Some m"
| "held _ = None"

text \<open>\<open>balance\<close>: every queued message, and the one a peek has taken, is matched by a count of the
  semaphore, by a waiter that has taken the count, or by a sender that has not yet posted it.\<close>

definition balance :: "nat \<Rightarrow> nat \<Rightarrow> mpc list \<Rightarrow> bool" where
  "balance n sem cs \<longleftrightarrow> n + cnt is_peek cs = sem + cnt ((=) MWaitLock) cs + cnt ((=) MSendPost) cs"

definition holds_lock :: "mpc list \<Rightarrow> nat option \<Rightarrow> bool" where
  "holds_lock cs l \<longleftrightarrow> (\<forall>t < length cs. is_peek (cs ! t) \<longleftrightarrow> l = Some t) \<and> (\<forall>t. l = Some t \<longrightarrow> t < length cs)"

text \<open>No message is in two places.\<close>

definition separate :: "mpc list \<Rightarrow> addr list \<Rightarrow> addr set \<Rightarrow> bool" where
  "separate cs xs fr \<longleftrightarrow> set xs \<inter> fr = {}
     \<and> (\<forall>t < length cs. \<forall>m. held (cs ! t) = Some m \<longrightarrow> m \<notin> set xs \<and> m \<notin> fr
          \<and> (\<forall>u < length cs. held (cs ! u) = Some m \<longrightarrow> u = t))"

definition pending_null :: "'e mstate \<Rightarrow> mpc list \<Rightarrow> bool" where
  "pending_null s cs \<longleftrightarrow> (\<forall>m. MSendLock m \<in> set cs \<longrightarrow> msg_next (ms_msg s m) = None)"

definition ts_repr :: "addr \<Rightarrow> 'e tsys \<Rightarrow> addr list \<Rightarrow> bool" where
  "ts_repr q y xs \<longleftrightarrow> msgq_list q (ts_st y) xs
     \<and> balance (length xs) (mq_sem (ms_queue (ts_st y) q)) (ts_pc y)
     \<and> holds_lock (ts_pc y) (ts_lock y) \<and> separate (ts_pc y) xs (ts_free y)
     \<and> pending_null (ts_st y) (ts_pc y)"

definition ts_inv :: "addr \<Rightarrow> 'e tsys \<Rightarrow> bool" where
  "ts_inv q y \<longleftrightarrow> (\<exists>xs. ts_repr q y xs)"

lemma ts_inv_init: "msgq_repr q s [] \<Longrightarrow>
  ts_inv q \<lparr>ts_st = s, ts_lock = None, ts_pc = replicate n MIdle, ts_free = fr\<rparr>"
  by (auto simp: ts_inv_def ts_repr_def msgq_repr_def balance_def cnt_def holds_lock_def separate_def
      pending_null_def intro!: exI [of _ "[]"])

lemma at_goto: "at (goto t c y) u d \<longleftrightarrow> u < length (ts_pc y) \<and> (if u = t then d = c else at y u d)"
  by (auto simp: at_def goto_def nth_list_update)

text \<open>How one thread's move changes the parts of the invariant.\<close>

lemma balance_move:
  assumes "balance n sem cs" and "t < length cs"
    and "int n' + (if is_peek c then 1 else 0) - (if is_peek (cs ! t) then 1 else 0)
         - int sem' - (if c = MWaitLock then 1 else 0) + (if cs ! t = MWaitLock then 1 else 0)
         - (if c = MSendPost then 1 else 0) + (if cs ! t = MSendPost then 1 else 0) = int n - int sem"
  shows "balance n' sem' (cs[t := c])"
proof -
  note u = cnt_update [OF assms(2), where c = c]
  have a: "int (cnt P (cs[t := c])) = int (cnt P cs) + (if P c then 1 else 0) - (if P (cs ! t) then 1 else 0)" for P
    using u [of P] by (simp split: if_splits)
  have "int n + int (cnt is_peek cs) = int sem + int (cnt ((=) MWaitLock) cs) + int (cnt ((=) MSendPost) cs)"
    using assms(1) unfolding balance_def by linarith
  then have "int n' + int (cnt is_peek (cs[t := c]))
      = int sem' + int (cnt ((=) MWaitLock) (cs[t := c])) + int (cnt ((=) MSendPost) (cs[t := c]))"
    using assms(3) unfolding a by (simp split: if_splits)
  then show ?thesis unfolding balance_def by linarith
qed

lemma holds_lock_move:
  assumes "holds_lock cs l" and "t < length cs"
    and "is_peek c \<longleftrightarrow> l' = Some t" and "\<And>u. u \<noteq> t \<Longrightarrow> (l' = Some u) = (l = Some u)"
  shows "holds_lock (cs[t := c]) l'"
  using assms unfolding holds_lock_def
  by (metis length_list_update nth_list_update_eq nth_list_update_neq)

lemma separate_move:
  assumes "separate cs xs fr" and "t < length cs" and "set xs' \<inter> fr' = {}"
    and "set xs' \<union> fr' \<union> set_option (held c) \<subseteq> set xs \<union> fr \<union> set_option (held (cs ! t))"
    and "set_option (held c) \<inter> (set xs' \<union> fr') = {}"
  shows "separate (cs[t := c]) xs' fr'"
proof -
  have own: "m \<notin> set xs \<and> m \<notin> fr \<and> (\<forall>u < length cs. held (cs ! u) = Some m \<longrightarrow> u = v)"
    if "v < length cs" "held (cs ! v) = Some m" for v m
    using assms(1) that unfolding separate_def by blast
  have "m \<notin> set xs' \<and> m \<notin> fr' \<and> (\<forall>u < length cs. held (cs[t := c] ! u) = Some m \<longrightarrow> u = v)"
    if v: "v < length cs" "held (cs[t := c] ! v) = Some m" for v m
  proof (cases "v = t")
    case True
    with v assms(2) have c: "held c = Some m" by simp
    then have m: "m \<in> set xs \<union> fr \<union> set_option (held (cs ! t))" using assms(4) by auto
    have "u = t" if u: "u < length cs" "held (cs[t := c] ! u) = Some m" for u
    proof (rule ccontr)
      assume ut: "u \<noteq> t"
      then have "held (cs ! u) = Some m" using u by simp
      with own [OF u(1)] m assms(2) ut show False by auto
    qed
    with True c assms(5) show ?thesis by auto
  next
    case False
    then have h: "held (cs ! v) = Some m" using v by simp
    note o = own [OF v(1) h]
    have "held (cs ! t) \<noteq> Some m" using o assms(2) False by auto
    then have "m \<notin> set xs \<union> fr \<union> set_option (held (cs ! t))" using o by auto
    then have "m \<notin> set xs' \<union> fr' \<union> set_option (held c)" using assms(4) by blast
    moreover have "u = v" if u: "u < length cs" "held (cs[t := c] ! u) = Some m" for u
      using o u calculation by (cases "u = t") auto
    ultimately show ?thesis by blast
  qed
  then show ?thesis using assms(3) unfolding separate_def length_list_update by blast
qed

lemma pending_null_move:
  assumes "pending_null s cs"
    and "\<And>m. msg_next (ms_msg s m) = None \<Longrightarrow> MSendLock m \<in> set (cs[t := c]) \<Longrightarrow> msg_next (ms_msg s' m) = None"
    and "\<And>m. c = MSendLock m \<Longrightarrow> msg_next (ms_msg s' m) = None"
  shows "pending_null s' (cs[t := c])"
  using assms set_update_subset_insert [of cs t c] unfolding pending_null_def by blast

section \<open>Every interleaving keeps the invariant\<close>

lemma goto_simps [simp]:
  "ts_st (goto t c y) = ts_st y" "ts_lock (goto t c y) = ts_lock y" "ts_free (goto t c y) = ts_free y"
  "ts_pc (goto t c y) = (ts_pc y)[t := c]"
  by (simp_all add: goto_def)

lemma ts_reprI:
  assumes "at y t d" and "msgq_list q s' xs'"
    and "balance (length xs') (mq_sem (ms_queue s' q)) ((ts_pc y)[t := c])"
    and "holds_lock ((ts_pc y)[t := c]) l'" and "separate ((ts_pc y)[t := c]) xs' fr'"
    and "pending_null s' ((ts_pc y)[t := c])"
    and "ts_st z = s' \<and> ts_lock z = l' \<and> ts_free z = fr' \<and> ts_pc z = ts_pc y"
  shows "ts_inv q (goto t c z)"
  using assms unfolding ts_inv_def ts_repr_def by (intro exI [of _ xs']) simp

lemma set_sem_list [simp]: "msgq_list q (set_sem r n s) xs = msgq_list q s xs"
  "mq_sem (ms_queue (set_sem q n s) q) = n" "ms_msg (set_sem r n s) = ms_msg s"
  by (simp_all add: set_sem_def msgq_list_def)

lemma head_Cons: "msgq_list q s xs \<Longrightarrow> mq_head (ms_queue s q) = Some m \<Longrightarrow> \<exists>ys. xs = m # ys"
  by (cases xs) (auto simp: msgq_list_def)

lemma ms_msg_frames [simp]: "ms_msg (msgq_take q m s) = ms_msg s" "ms_msg (msgq_post q s) = ms_msg s"
  by (simp_all add: msgq_take_def msgq_post_def Let_def)

lemma append_next:
  assumes "msgq_list q s xs" and "m \<notin> set xs"
  shows "msg_next (ms_msg (msgq_append q b s) m) = msg_next (ms_msg s m)"
  using assms by (auto simp: msgq_append_def msgq_list_def lpath_head split: option.split if_splits)

lemma ts_reprD:
  assumes "ts_repr q y xs" and "at y t c"
  shows "msgq_list q (ts_st y) xs" and "balance (length xs) (mq_sem (ms_queue (ts_st y) q)) (ts_pc y)"
    and "holds_lock (ts_pc y) (ts_lock y)" and "separate (ts_pc y) xs (ts_free y)"
    and "pending_null (ts_st y) (ts_pc y)" and "t < length (ts_pc y)" and "ts_pc y ! t = c"
  using assms by (simp_all add: ts_repr_def at_def)

lemma pending_same:
  "pending_null s cs \<Longrightarrow> ms_msg s' = ms_msg s \<Longrightarrow> (\<And>m. c \<noteq> MSendLock m) \<Longrightarrow> pending_null s' (cs[t := c])"
  by (rule pending_null_move) auto

lemma inv_wait_sem:
  assumes r: "ts_repr q y xs" and a: "at y t MIdle" and n: "sem_wait (mq_sem (ms_queue (ts_st y) q)) = Some n"
  shows "ts_inv q (goto t MWaitLock (y\<lparr>ts_st := set_sem q n (ts_st y)\<rparr>))"
proof -
  note d = ts_reprD [OF r a]
  have n': "mq_sem (ms_queue (ts_st y) q) = Suc n" using n by (simp add: sem_wait_Some_iff)
  show ?thesis
  proof (rule ts_reprI [OF a, where xs' = xs])
    show "msgq_list q (set_sem q n (ts_st y)) xs" using d(1) by simp
    show "balance (length xs) (mq_sem (ms_queue (set_sem q n (ts_st y)) q)) ((ts_pc y)[t := MWaitLock])"
      by (rule balance_move [OF d(2,6)]) (simp add: d(7) n')
    show "holds_lock ((ts_pc y)[t := MWaitLock]) (ts_lock y)"
      using d(3,6,7) by (intro holds_lock_move [OF d(3,6)]) (auto simp: holds_lock_def)
    show "separate ((ts_pc y)[t := MWaitLock]) xs (ts_free y)"
      using d(4) by (intro separate_move [OF d(4,6)]) (auto simp: separate_def)
    show "pending_null (set_sem q n (ts_st y)) ((ts_pc y)[t := MWaitLock])"
      by (rule pending_same [OF d(5)]) simp_all
  qed simp
qed

lemma inv_wait_take:
  assumes r: "ts_repr q y xs" and a: "at y t MWaitLock" and l: "ts_lock y = None"
    and h: "mq_head (ms_queue (ts_st y) q) = Some m"
  shows "ts_inv q (goto t MIdle (y\<lparr>ts_st := msgq_take q m (ts_st y), ts_free := insert m (ts_free y)\<rparr>))"
proof -
  note d = ts_reprD [OF r a]
  obtain ys where ys: "xs = m # ys" using head_Cons [OF d(1) h] by blast
  note t = msgq_take_list [OF d(1) [unfolded ys]]
  have m: "m \<notin> set ys" using d(1) ys by (simp add: msgq_list_def)
  show ?thesis
  proof (rule ts_reprI [OF a, where xs' = ys])
    show "msgq_list q (msgq_take q m (ts_st y)) ys" by (rule t(1))
    show "balance (length ys) (mq_sem (ms_queue (msgq_take q m (ts_st y)) q)) ((ts_pc y)[t := MIdle])"
      by (rule balance_move [OF d(2,6)]) (simp add: d(7) t(2) ys)
    show "holds_lock ((ts_pc y)[t := MIdle]) (ts_lock y)"
      using d(3,6,7) by (intro holds_lock_move [OF d(3,6)]) (auto simp: holds_lock_def)
    show "separate ((ts_pc y)[t := MIdle]) ys (insert m (ts_free y))"
      using d(4) m ys by (intro separate_move [OF d(4,6)]) (auto simp: separate_def)
    show "pending_null (msgq_take q m (ts_st y)) ((ts_pc y)[t := MIdle])"
      by (rule pending_same [OF d(5)]) simp_all
  qed simp
qed

lemma inv_peek_take:
  assumes r: "ts_repr q y xs" and a: "at y t MIdle" and l: "ts_lock y = None"
    and h: "mq_head (ms_queue (ts_st y) q) = Some m"
  shows "ts_inv q (goto t (MPeekSem m) (y\<lparr>ts_st := msgq_take q m (ts_st y), ts_lock := Some t\<rparr>))"
proof -
  note d = ts_reprD [OF r a]
  obtain ys where ys: "xs = m # ys" using head_Cons [OF d(1) h] by blast
  note t = msgq_take_list [OF d(1) [unfolded ys]]
  have m: "m \<notin> set ys" using d(1) ys by (simp add: msgq_list_def)
  show ?thesis
  proof (rule ts_reprI [OF a, where xs' = ys])
    show "msgq_list q (msgq_take q m (ts_st y)) ys" by (rule t(1))
    show "balance (length ys) (mq_sem (ms_queue (msgq_take q m (ts_st y)) q)) ((ts_pc y)[t := MPeekSem m])"
      by (rule balance_move [OF d(2,6)]) (simp add: d(7) t(2) ys)
    show "holds_lock ((ts_pc y)[t := MPeekSem m]) (Some t)"
      using d(6) l by (intro holds_lock_move [OF d(3,6)]) auto
    show "separate ((ts_pc y)[t := MPeekSem m]) ys (ts_free y)"
      using d(4) m ys by (intro separate_move [OF d(4,6)]) (auto simp: separate_def)
    show "pending_null (msgq_take q m (ts_st y)) ((ts_pc y)[t := MPeekSem m])"
      by (rule pending_same [OF d(5)]) simp_all
  qed simp
qed

lemma inv_peek_sem:
  assumes r: "ts_repr q y xs" and a: "at y t (MPeekSem m)" and n: "sem_wait (mq_sem (ms_queue (ts_st y) q)) = Some n"
  shows "ts_inv q (goto t MIdle (y\<lparr>ts_st := set_sem q n (ts_st y), ts_lock := None, ts_free := insert m (ts_free y)\<rparr>))"
proof -
  note d = ts_reprD [OF r a]
  have n': "mq_sem (ms_queue (ts_st y) q) = Suc n" using n by (simp add: sem_wait_Some_iff)
  have l: "ts_lock y = Some t" using d(3,6,7) by (auto simp: holds_lock_def)
  show ?thesis
  proof (rule ts_reprI [OF a, where xs' = xs])
    show "msgq_list q (set_sem q n (ts_st y)) xs" using d(1) by simp
    show "balance (length xs) (mq_sem (ms_queue (set_sem q n (ts_st y)) q)) ((ts_pc y)[t := MIdle])"
      by (rule balance_move [OF d(2,6)]) (simp add: d(7) n')
    show "holds_lock ((ts_pc y)[t := MIdle]) None"
      using l by (intro holds_lock_move [OF d(3,6)]) auto
    show "separate ((ts_pc y)[t := MIdle]) xs (insert m (ts_free y))"
      using d(4,6,7) by (intro separate_move [OF d(4,6)]) (auto simp: separate_def)
    show "pending_null (set_sem q n (ts_st y)) ((ts_pc y)[t := MIdle])"
      by (rule pending_same [OF d(5)]) simp_all
  qed simp
qed

lemma inv_send_begin:
  assumes r: "ts_repr q y xs" and a: "at y t MIdle" and m: "m \<in> ts_free y"
  shows "ts_inv q (goto t (MSendLock m)
    (y\<lparr>ts_st := msg_prepare None thread code m (ts_st y), ts_free := ts_free y - {m}\<rparr>))"
proof -
  note d = ts_reprD [OF r a]
  have mx: "m \<notin> set xs" using d(4) m by (auto simp: separate_def)
  note p = msg_prepare_list [OF d(1) mx, of None thread code]
  show ?thesis
  proof (rule ts_reprI [OF a, where xs' = xs])
    show "msgq_list q (msg_prepare None thread code m (ts_st y)) xs" by (rule p(1))
    show "balance (length xs) (mq_sem (ms_queue (msg_prepare None thread code m (ts_st y)) q)) ((ts_pc y)[t := MSendLock m])"
      by (rule balance_move [OF d(2,6)]) (simp add: d(7) p(3))
    show "holds_lock ((ts_pc y)[t := MSendLock m]) (ts_lock y)"
      using d(3,6,7) by (intro holds_lock_move [OF d(3,6)]) (auto simp: holds_lock_def)
    show "separate ((ts_pc y)[t := MSendLock m]) xs (ts_free y - {m})"
      using d(4) m mx by (intro separate_move [OF d(4,6)]) (auto simp: separate_def)
    show "pending_null (msg_prepare None thread code m (ts_st y)) ((ts_pc y)[t := MSendLock m])"
      by (rule pending_null_move [OF d(5)]) (auto simp: msg_prepare_def)
  qed simp
qed

lemma inv_send_append:
  assumes r: "ts_repr q y xs" and a: "at y t (MSendLock m)" and l: "ts_lock y = None"
  shows "ts_inv q (goto t MSendPost (y\<lparr>ts_st := msgq_append q m (ts_st y)\<rparr>))"
proof -
  note d = ts_reprD [OF r a]
  have mx: "m \<notin> set xs" "m \<notin> ts_free y" using d(4,6,7) by (auto simp: separate_def)
  have "MSendLock m \<in> set (ts_pc y)" using d(6,7) by (metis nth_mem)
  then have nx: "msg_next (ms_msg (ts_st y) m) = None" using d(5) by (simp add: pending_null_def)
  note p = msgq_append_list [OF d(1) mx(1) nx]
  have other: "b \<notin> set xs" if "MSendLock b \<in> set ((ts_pc y)[t := MSendPost])" for b
  proof -
    have "MSendLock b \<in> set (ts_pc y)" using that set_update_subset_insert [of "ts_pc y" t MSendPost] by auto
    then obtain u where "u < length (ts_pc y)" "held (ts_pc y ! u) = Some b" 
      unfolding in_set_conv_nth by fastforce
    then show ?thesis using d(4) unfolding separate_def by blast
  qed
  show ?thesis
  proof (rule ts_reprI [OF a, where xs' = "xs @ [m]"])
    show "msgq_list q (msgq_append q m (ts_st y)) (xs @ [m])" by (rule p(1))
    show "balance (length (xs @ [m])) (mq_sem (ms_queue (msgq_append q m (ts_st y)) q)) ((ts_pc y)[t := MSendPost])"
      by (rule balance_move [OF d(2,6)]) (simp add: d(7) p(2))
    show "holds_lock ((ts_pc y)[t := MSendPost]) (ts_lock y)"
      using d(3,6,7) by (intro holds_lock_move [OF d(3,6)]) (auto simp: holds_lock_def)
    show "separate ((ts_pc y)[t := MSendPost]) (xs @ [m]) (ts_free y)"
      using d(4) d(7) mx by (intro separate_move [OF d(4,6)]) (auto simp: separate_def)
    show "pending_null (msgq_append q m (ts_st y)) ((ts_pc y)[t := MSendPost])"
      using other append_next [OF d(1)] by (intro pending_null_move [OF d(5)]) auto
  qed simp
qed

lemma inv_send_post:
  assumes r: "ts_repr q y xs" and a: "at y t MSendPost"
  shows "ts_inv q (goto t MIdle (y\<lparr>ts_st := msgq_post q (ts_st y)\<rparr>))"
proof -
  note d = ts_reprD [OF r a]
  show ?thesis
  proof (rule ts_reprI [OF a, where xs' = xs])
    show "msgq_list q (msgq_post q (ts_st y)) xs" using d(1) by simp
    show "balance (length xs) (mq_sem (ms_queue (msgq_post q (ts_st y)) q)) ((ts_pc y)[t := MIdle])"
      by (rule balance_move [OF d(2,6)]) (simp add: d(7))
    show "holds_lock ((ts_pc y)[t := MIdle]) (ts_lock y)"
      using d(3,6,7) by (intro holds_lock_move [OF d(3,6)]) (auto simp: holds_lock_def)
    show "separate ((ts_pc y)[t := MIdle]) xs (ts_free y)"
      using d(4) by (intro separate_move [OF d(4,6)]) (auto simp: separate_def)
    show "pending_null (msgq_post q (ts_st y)) ((ts_pc y)[t := MIdle])"
      by (rule pending_same [OF d(5)]) simp_all
  qed simp
qed

lemma mstep_inv [inv_intros]: "mstep q y z \<Longrightarrow> ts_inv q y \<Longrightarrow> ts_inv q z"
proof (induction rule: mstep.induct)
  case (wait_sem y t n)
  then show ?case unfolding ts_inv_def [of q y] using inv_wait_sem by blast
next
  case (wait_take y t m)
  then show ?case unfolding ts_inv_def [of q y] using inv_wait_take by blast
next
  case (peek_take y t m)
  then show ?case unfolding ts_inv_def [of q y] using inv_peek_take by blast
next
  case (peek_sem y t m n)
  then show ?case unfolding ts_inv_def [of q y] using inv_peek_sem by blast
next
  case (send_begin y t m thread code)
  then show ?case unfolding ts_inv_def [of q y] using inv_send_begin by blast
next
  case (send_append y t m)
  then show ?case unfolding ts_inv_def [of q y] using inv_send_append by blast
next
  case (send_post y t)
  then show ?case unfolding ts_inv_def [of q y] using inv_send_post by blast
qed

lemma msteps_inv [inv_intros]: "msteps q y z \<Longrightarrow> ts_inv q y \<Longrightarrow> ts_inv q z"
  by (induction rule: msteps.induct) (auto intro: mstep_inv)

section \<open>A waiter that has taken a count finds a message\<close>

lemma cnt_pos: "t < length cs \<Longrightarrow> P (cs ! t) \<Longrightarrow> 0 < cnt P cs"
  unfolding cnt_def by (metis filter_empty_conv length_greater_0_conv nth_mem)

lemma cnt_zero: "(\<And>t. t < length cs \<Longrightarrow> \<not> P (cs ! t)) \<Longrightarrow> cnt P cs = 0"
  by (auto simp: cnt_def filter_empty_conv in_set_conv_nth)

lemma waiter_finds_message:
  assumes "ts_inv q y" and a: "at y t MWaitLock" and l: "ts_lock y = None"
  shows "mq_head (ms_queue (ts_st y) q) \<noteq> None"
proof -
  obtain xs where r: "ts_repr q y xs" using assms(1) by (auto simp: ts_inv_def)
  note d = ts_reprD [OF r a]
  have "cnt is_peek (ts_pc y) = 0" using d(3) l by (intro cnt_zero) (auto simp: holds_lock_def)
  moreover have "0 < cnt ((=) MWaitLock) (ts_pc y)" using d(6,7) by (intro cnt_pos) auto
  ultimately have "xs \<noteq> []" using d(2) by (auto simp: balance_def)
  then show ?thesis using d(1) by (cases xs) (auto simp: msgq_list_def)
qed

section \<open>A peek that never returns\<close>

text \<open>The peeking thread \<open>t\<close> holds the lock and waits on a semaphore whose count is 0, and no
  sender is about to post.\<close>

definition peek_stuck :: "addr \<Rightarrow> 'e tsys \<Rightarrow> nat \<Rightarrow> bool" where
  "peek_stuck q y t \<longleftrightarrow> (\<exists>m. at y t (MPeekSem m)) \<and> ts_lock y = Some t
     \<and> mq_sem (ms_queue (ts_st y) q) = 0 \<and> (\<forall>u. \<not> at y u MSendPost)
     \<and> (\<forall>u m. at y u (MPeekSem m) \<longrightarrow> u = t)"

lemma stuck_step:
  assumes "mstep q y z" and "peek_stuck q y t"
  shows "peek_stuck q z t \<and> (\<forall>u. at y u MWaitLock \<longrightarrow> at z u MWaitLock)"
  using assms
proof (induction rule: mstep.induct)
  case (send_begin y u m thread code)
  then have "u \<noteq> t" by (auto simp: peek_stuck_def at_def)
  with send_begin show ?case
    by (auto simp: peek_stuck_def at_def nth_list_update msg_prepare_def)
qed (auto simp: peek_stuck_def at_def sem_wait_def)

lemma stuck_steps:
  "msteps q y z \<Longrightarrow> peek_stuck q y t \<Longrightarrow> peek_stuck q z t \<and> (\<forall>u. at y u MWaitLock \<longrightarrow> at z u MWaitLock)"
proof (induction rule: msteps.induct)
  case (step y z w)
  then show ?case using stuck_step by blast
qed simp

text \<open>One queued message, a thread that waits and a thread that peeks are enough.\<close>

lemma peek_deadlock:
  assumes r: "ts_repr q y [m]" and l: "ts_lock y = None" and s: "mq_sem (ms_queue (ts_st y) q) = 1"
    and t: "at y t MIdle" and u: "at y u MIdle" and tu: "t \<noteq> u" and np: "\<And>v. \<not> at y v MSendPost"
  shows "\<exists>z. msteps q y z \<and> peek_stuck q z t \<and> at z u MWaitLock"
proof -
  let ?y1 = "goto u MWaitLock (y\<lparr>ts_st := set_sem q 0 (ts_st y)\<rparr>)"
  have 1: "mstep q y ?y1" using u s by (intro mstep.wait_sem) simp_all
  have h: "mq_head (ms_queue (ts_st ?y1) q) = Some m"
    using r by (simp add: ts_repr_def msgq_list_def set_sem_def)
  have t1: "at ?y1 t MIdle" using t tu by (simp add: at_def)
  let ?z = "goto t (MPeekSem m) (?y1\<lparr>ts_st := msgq_take q m (ts_st ?y1), ts_lock := Some t\<rparr>)"
  have 2: "mstep q ?y1 ?z" using t1 l h by (intro mstep.peek_take) simp_all
  have "msteps q y ?z" by (rule msteps.step [OF msteps.step [OF msteps.refl 1] 2])
  moreover have "\<not> is_peek (ts_pc y ! v)" if "v < length (ts_pc y)" for v
    using r l that by (simp add: ts_repr_def holds_lock_def)
  then have "at y v (MPeekSem b) \<Longrightarrow> False" for v b by (metis at_def is_peek.simps(1))
  then have "peek_stuck q ?z t"
    using t u tu np by (auto simp: peek_stuck_def at_def nth_list_update msgq_take_def set_sem_def Let_def)
  moreover have "at ?z u MWaitLock" using u tu by (simp add: at_def)
  ultimately show ?thesis by blast
qed

section \<open>Properties\<close>

text \<open>C5. For any number of threads that wait on, peek at and send to one queue, in every interleaving
  of their critical sections: the queue stays well formed, no message is in two places, and a thread
  that has passed the semaphore of \<open>vcos_msg_wait\<close> and gets the lock finds a message, so the null
  dereference behind \<open>vcos_demand\<close> cannot happen.\<close>

theorem waiting_thread_finds_message:
  assumes "msgq_repr q s []" and "msteps q \<lparr>ts_st = s, ts_lock = None, ts_pc = replicate n MIdle, ts_free = fr\<rparr> y"
    and "at y t MWaitLock" and "ts_lock y = None"
  shows "\<exists>m xs z. msgq_list q (ts_st y) (m # xs) \<and> separate (ts_pc y) (m # xs) (ts_free y)
    \<and> mq_head (ms_queue (ts_st y) q) = Some m \<and> mstep q y z \<and> at z t MIdle \<and> m \<in> ts_free z"
proof -
  have inv: "ts_inv q y" using msteps_inv [OF assms(2) ts_inv_init [OF assms(1)]] .
  then obtain xs where xs: "ts_repr q y xs" by (auto simp: ts_inv_def)
  obtain m where m: "mq_head (ms_queue (ts_st y) q) = Some m"
    using waiter_finds_message [OF inv assms(3,4)] by blast
  note d = ts_reprD [OF xs assms(3)]
  obtain ys where ys: "xs = m # ys" using head_Cons [OF d(1) m] by blast
  note z = mstep.wait_take [OF assms(3,4) m]
  have "at (goto t MIdle (y\<lparr>ts_st := msgq_take q m (ts_st y), ts_free := insert m (ts_free y)\<rparr>)) t MIdle"
    using d(6) by (simp add: at_goto)
  moreover have "m \<in> ts_free (goto t MIdle (y\<lparr>ts_st := msgq_take q m (ts_st y), ts_free := insert m (ts_free y)\<rparr>))"
    by simp
  ultimately show ?thesis using d(1,4) m z ys by blast
qed

lemma example_threads_run:
  "\<exists>y. msteps 100 \<lparr>ts_st = example_msgs, ts_lock = None, ts_pc = replicate 2 MIdle, ts_free = {30}\<rparr> y
     \<and> at y 0 MIdle \<and> at y 1 MIdle \<and> ts_lock y = None \<and> ts_repr 100 y [30] \<and> mq_sem (ms_queue (ts_st y) 100) = 1
     \<and> (\<forall>v. \<not> at y v MSendPost)"
proof -
  let ?y0 = "\<lparr>ts_st = example_msgs, ts_lock = None, ts_pc = replicate 2 MIdle, ts_free = {30}\<rparr>"
  define y1 where "y1 = goto 0 (MSendLock 30) (?y0\<lparr>ts_st := msg_prepare None None 5 30 (ts_st ?y0),
    ts_free := ts_free ?y0 - {30}\<rparr>)"
  define y2 where "y2 = goto 0 MSendPost (y1\<lparr>ts_st := msgq_append 100 30 (ts_st y1)\<rparr>)"
  define y3 where "y3 = goto 0 MIdle (y2\<lparr>ts_st := msgq_post 100 (ts_st y2)\<rparr>)"
  have s1: "mstep 100 ?y0 y1" unfolding y1_def by (rule mstep.send_begin) (simp_all add: at_def)
  have s2: "mstep 100 y1 y2" unfolding y2_def by (rule mstep.send_append) (simp_all add: at_def y1_def)
  have s3: "mstep 100 y2 y3" unfolding y3_def by (rule mstep.send_post) (simp add: at_def y2_def y1_def)
  have ms: "msteps 100 ?y0 y3" using msteps.step [OF msteps.step [OF msteps.step [OF msteps.refl s1] s2] s3] .
  have pc: "ts_pc y3 = [MIdle, MIdle]" by (simp add: y3_def y2_def y1_def numeral_2_eq_2)
  have q: "ms_queue (ts_st y3) 100 = \<lparr>mq_head = Some 30, mq_tail = Some 30, mq_sem = 1\<rparr>"
    "msg_nexts (ts_st y3) 30 = None" "ts_free y3 = {}" "ts_lock y3 = None"
    by (simp_all add: y3_def y2_def y1_def msg_prepare_def msgq_append_def msgq_post_def example_msgs_def
        sem_post_def msg_nexts_def)
  have "ts_repr 100 y3 [30]"
    by (simp add: ts_repr_def msgq_list_def q pc balance_def cnt_def holds_lock_def separate_def
        pending_null_def less_Suc_eq)
  with ms pc q show ?thesis by (auto simp: at_def less_Suc_eq intro!: exI [of _ y3])
qed

theorem waiting_thread_finds_message_witness:
  "\<exists>y m xs. msteps 100 \<lparr>ts_st = example_msgs, ts_lock = None, ts_pc = replicate 2 MIdle, ts_free = {30}\<rparr> y
     \<and> at y 0 MWaitLock \<and> msgq_list 100 (ts_st y) (m # xs)"
proof -
  obtain y where y: "msteps 100 \<lparr>ts_st = example_msgs, ts_lock = None, ts_pc = replicate 2 MIdle, ts_free = {30}\<rparr> y"
    "at y 0 MIdle" "ts_lock y = None" "mq_sem (ms_queue (ts_st y) 100) = 1"
    using example_threads_run by blast
  let ?z = "goto 0 MWaitLock (y\<lparr>ts_st := set_sem 100 0 (ts_st y)\<rparr>)"
  have "mstep 100 y ?z" by (rule mstep.wait_sem [OF y(2)]) (simp add: y(4))
  then have z: "msteps 100 \<lparr>ts_st = example_msgs, ts_lock = None, ts_pc = replicate 2 MIdle, ts_free = {30}\<rparr> ?z"
    by (rule msteps.step [OF y(1)])
  have "at ?z 0 MWaitLock" "ts_lock ?z = None" using y(2,3) by (simp_all add: at_def)
  from waiting_thread_finds_message [OF example_msgs_repr z this] z this(1) show ?thesis by blast
qed

text \<open>C31. \<open>vcos_msg_peek\<close> can block for ever, and with it the queue: with one queued message, a thread
  that has taken the count for a wait and a thread that peeks reach a state in which the peeking
  thread holds the lock and waits on a semaphore of count 0; no later interleaving of any threads
  ends that.\<close>

theorem peek_blocks_for_ever:
  assumes "ts_repr q y [m]" and "ts_lock y = None" and "mq_sem (ms_queue (ts_st y) q) = 1"
    and "at y t MIdle" and "at y u MIdle" and "t \<noteq> u" and "\<forall>v. \<not> at y v MSendPost"
  shows "\<exists>z. msteps q y z \<and> (\<forall>z'. msteps q z z' \<longrightarrow> (\<exists>m. at z' t (MPeekSem m)) \<and> ts_lock z' = Some t
    \<and> mq_sem (ms_queue (ts_st z') q) = 0 \<and> at z' u MWaitLock)"
proof -
  have "\<And>v. \<not> at y v MSendPost" using assms(7) by blast
  from peek_deadlock [OF assms(1-6) this] obtain z where z: "msteps q y z" "peek_stuck q z t" "at z u MWaitLock"
    by blast
  have "(\<exists>m. at z' t (MPeekSem m)) \<and> ts_lock z' = Some t \<and> mq_sem (ms_queue (ts_st z') q) = 0
      \<and> at z' u MWaitLock" if "msteps q z z'" for z'
    using stuck_steps [OF that z(2)] z(3) unfolding peek_stuck_def by blast
  with z(1) show ?thesis by blast
qed

theorem peek_blocks_for_ever_witness:
  "\<exists>z. msteps 100 \<lparr>ts_st = example_msgs, ts_lock = None, ts_pc = replicate 2 MIdle, ts_free = {30}\<rparr> z
     \<and> (\<forall>z'. msteps 100 z z' \<longrightarrow> ts_lock z' = Some 0 \<and> at z' 1 MWaitLock)"
proof -
  obtain y where y: "msteps 100 \<lparr>ts_st = example_msgs, ts_lock = None, ts_pc = replicate 2 MIdle, ts_free = {30}\<rparr> y"
    "at y 0 MIdle" "at y 1 MIdle" "ts_lock y = None" "ts_repr 100 y [30]" "mq_sem (ms_queue (ts_st y) 100) = 1"
    "\<forall>v. \<not> at y v MSendPost"
    using example_threads_run by blast
  obtain z where z: "msteps 100 y z" "\<forall>z'. msteps 100 z z' \<longrightarrow> ts_lock z' = Some 0 \<and> at z' 1 MWaitLock"
    using peek_blocks_for_ever [OF y(5,4,6,2,3) _ y(7)] by auto
  from z(1) have "msteps 100 \<lparr>ts_st = example_msgs, ts_lock = None, ts_pc = replicate 2 MIdle, ts_free = {30}\<rparr> z"
    using y(1) by (induction rule: msteps.induct) (auto intro: msteps.step)
  with z(2) show ?thesis by blast
qed

end
