(* ===== verification/Vcos_Named_Sem.thy ===== *)
theory Vcos_Named_Sem
  imports Mmal_List Vcos_Blockpool_Facts
begin

text \<open>
  Named semaphores (\<^verbatim>\<open>vcos/generic/vcos_generic_named_sem.c\<close>): reference-counted semaphores in a
  doubly linked list, in descending order of their names, allocated from a block pool. The abstract
  view is a map from names to reference counts.
\<close>

section \<open>The model\<close>

record sem_impl =
  ni_sem :: nat
  ni_name :: string
  ni_refs :: u32
  ni_next :: ptr
  ni_prev :: ptr

record 'e nstate =
  ns_impl :: "addr \<Rightarrow> sem_impl"
  ns_in_use :: ptr           \<comment> \<open>\<open>sems_in_use\<close>\<close>
  ns_count :: int            \<comment> \<open>\<open>sems_in_use_count\<close>\<close>
  ns_total :: int            \<comment> \<open>\<open>sems_total_ref_count\<close>\<close>
  ns_pool :: "'e blockpool"

text \<open>\<open>VCOS_NAMED_SEMAPHORE_T\<close>: the client's handle.\<close>

record named_sem =
  nm_actual :: ptr
  nm_sem :: ptr

definition VCOS_NAMED_SEMAPHORE_NAMELEN :: nat where "VCOS_NAMED_SEMAPHORE_NAMELEN = 64"

text \<open>\<open>strcmp\<close>: only the sign is documented.\<close>

fun strcmp :: "string \<Rightarrow> string \<Rightarrow> int" where
  "strcmp [] [] = 0"
| "strcmp [] (y # ys) = - 1"
| "strcmp (x # xs) [] = 1"
| "strcmp (x # xs) (y # ys) =
     (if x = y then strcmp xs ys else if (of_char x :: nat) < of_char y then - 1 else 1)"

definition upd_impl :: "addr \<Rightarrow> (sem_impl \<Rightarrow> sem_impl) \<Rightarrow> 'e nstate \<Rightarrow> 'e nstate" where
  "upd_impl a f s = s\<lparr>ns_impl := (ns_impl s)(a := f (ns_impl s a))\<rparr>"

lemma upd_impl_simps [simp]:
  "ns_impl (upd_impl a f s) = (ns_impl s)(a := f (ns_impl s a))"
  "ns_in_use (upd_impl a f s) = ns_in_use s" "ns_count (upd_impl a f s) = ns_count s"
  "ns_total (upd_impl a f s) = ns_total s" "ns_pool (upd_impl a f s) = ns_pool s"
  by (simp_all add: upd_impl_def)

text \<open>The search for the name; \<open>None\<close> if the list is circular.\<close>

partial_function (option) find_impl ::
  "string \<Rightarrow> ptr \<Rightarrow> int \<Rightarrow> 'e nstate \<Rightarrow> (ptr \<times> int) option" where
  "find_impl name impl cmp s =
     (case impl of
        None \<Rightarrow> Some (None, cmp)
      | Some a \<Rightarrow>
          let c = strcmp name (ni_name (ns_impl s a)) in
          if c < 0 then find_impl name (ni_next (ns_impl s a)) c s else Some (Some a, c))"

partial_function (option) find_tail :: "ptr \<Rightarrow> 'e nstate \<Rightarrow> ptr option" where
  "find_tail tail s =
     (case tail of
        None \<Rightarrow> Some None
      | Some a \<Rightarrow> if ni_next (ns_impl s a) \<noteq> None then find_tail (ni_next (ns_impl s a)) s else Some tail)"

text \<open>Linking the new element in front of \<open>impl\<close>, or at the end.\<close>

definition link_impl :: "addr \<Rightarrow> ptr \<Rightarrow> 'e nstate \<Rightarrow> 'e nstate option" where
  "link_impl new impl s =
     map_option (\<lambda>s1. if ns_in_use s1 = impl then s1\<lparr>ns_in_use := Some new\<rparr> else s1)
       (case impl of
          Some a \<Rightarrow>
            let s1 = upd_impl new (\<lambda>I. I\<lparr>ni_prev := ni_prev (ns_impl s a)\<rparr>) s;
                s2 = upd_impl a (\<lambda>I. I\<lparr>ni_prev := Some new\<rparr>) s1;
                s3 = upd_impl new (\<lambda>I. I\<lparr>ni_next := Some a\<rparr>) s2
            in Some (case ni_prev (ns_impl s3 new) of
                       None \<Rightarrow> s3
                     | Some p \<Rightarrow> upd_impl p (\<lambda>I. I\<lparr>ni_next := Some new\<rparr>) s3)
        | None \<Rightarrow>
            map_option (\<lambda>tail. case tail of
                None \<Rightarrow> s
              | Some t \<Rightarrow> upd_impl new (\<lambda>I. I\<lparr>ni_prev := Some t\<rparr>)
                            (upd_impl t (\<lambda>I. I\<lparr>ni_next := Some new\<rparr>) s))
              (find_tail (ns_in_use s) s))"

text \<open>\<open>calloc\<close> clears the block; \<open>sem_st\<close> is the outcome of the semaphore creation. \<open>None\<close>: an
  assertion of the block pool fails, a counter overflows, or a loop does not end. The \<open>vcos_assert\<close> for a
  name that is too long is empty in a release build.\<close>

definition vcos_generic_named_semaphore_create ::
  "(u32 \<Rightarrow> 'e \<Rightarrow> ptr \<times> 'e) \<Rightarrow> vcos_status \<Rightarrow> string \<Rightarrow> nat \<Rightarrow> named_sem \<Rightarrow> 'e nstate \<Rightarrow>
   (vcos_status \<times> named_sem \<times> 'e nstate) option" where
  "vcos_generic_named_semaphore_create alloc sem_st name count sem s =
     (if length name \<ge> VCOS_NAMED_SEMAPHORE_NAMELEN then Some (VCOS_EINVAL, sem, s)
      else Option.bind (find_impl name (ns_in_use s) (- 1) s) (\<lambda>(impl, cmp).
        if impl \<noteq> None \<and> cmp = 0 then
          map_option (\<lambda>total.
            (VCOS_SUCCESS, \<lparr>nm_actual = impl, nm_sem = impl\<rparr>,
             (upd_impl (the impl) (\<lambda>I. I\<lparr>ni_refs := ni_refs I + 1\<rparr>) s)\<lparr>ns_total := total\<rparr>))
            (i32 (ns_total s + 1))
        else
          Option.bind (vcos_generic_blockpool_alloc alloc (ns_pool s)) (\<lambda>(blk, pool).
            let s1 = s\<lparr>ns_pool := pool\<rparr> in
            case blk of
              None \<Rightarrow> Some (VCOS_ENOSPC, sem, s1)
            | Some new \<Rightarrow>
                let s2 = upd_impl new (\<lambda>_. \<lparr>ni_sem = 0, ni_name = [], ni_refs = 0, ni_next = None, ni_prev = None\<rparr>) s1
                in if sem_st \<noteq> VCOS_SUCCESS then Some (sem_st, sem, s2)
                   else Option.bind (i32 (ns_total s2 + 1)) (\<lambda>total.
                        Option.bind (i32 (ns_count s2 + 1)) (\<lambda>cnt.
                        map_option (\<lambda>s4. (VCOS_SUCCESS, \<lparr>nm_actual = Some new, nm_sem = Some new\<rparr>, s4))
                          (link_impl new impl
                            ((upd_impl new (\<lambda>I. I\<lparr>ni_sem := count, ni_refs := 1, ni_name := name\<rparr>) s2)
                               \<lparr>ns_total := total, ns_count := cnt\<rparr>)))))))"

definition unlink_impl :: "addr \<Rightarrow> 'e nstate \<Rightarrow> 'e nstate" where
  "unlink_impl a s =
     (let s1 = (case ni_prev (ns_impl s a) of
                  None \<Rightarrow> s | Some p \<Rightarrow> upd_impl p (\<lambda>I. I\<lparr>ni_next := ni_next (ns_impl s a)\<rparr>) s);
          s2 = (case ni_next (ns_impl s1 a) of
                  None \<Rightarrow> s1 | Some n \<Rightarrow> upd_impl n (\<lambda>I. I\<lparr>ni_prev := ni_prev (ns_impl s1 a)\<rparr>) s1)
      in if ns_in_use s2 = Some a then s2\<lparr>ns_in_use := ni_next (ns_impl s2 a)\<rparr> else s2)"

definition vcos_named_semaphore_delete ::
  "(addr \<Rightarrow> 'e \<Rightarrow> 'e) \<Rightarrow> named_sem \<Rightarrow> 'e nstate \<Rightarrow> (named_sem \<times> 'e nstate) option" where
  "vcos_named_semaphore_delete release sem s =
     (case nm_actual sem of
        None \<Rightarrow> None
      | Some a \<Rightarrow>
          Option.bind (i32 (ns_total s - 1)) (\<lambda>total.
            let s1 = upd_impl a (\<lambda>I. I\<lparr>ni_refs := ni_refs I - 1\<rparr>) (s\<lparr>ns_total := total\<rparr>) in
            if ni_refs (ns_impl s1 a) = 0 then
              Option.bind (i32 (ns_count s1 - 1)) (\<lambda>cnt.
                let s2 = unlink_impl a (s1\<lparr>ns_count := cnt\<rparr>) in
                map_option (\<lambda>pool. (\<lparr>nm_actual = None, nm_sem = None\<rparr>, s2\<lparr>ns_pool := pool\<rparr>))
                  (vcos_generic_blockpool_free release (Some a) (ns_pool s2)))
            else Some (sem, s1)))"

section \<open>The list\<close>

definition sem_links :: "'e nstate \<Rightarrow> elements" where
  "sem_links s a = \<lparr>le_next = ni_next (ns_impl s a), le_prev = ni_prev (ns_impl s a)\<rparr>"

definition name_of :: "'e nstate \<Rightarrow> addr \<Rightarrow> string" where
  "name_of s a = ni_name (ns_impl s a)"

definition sem_list :: "'e nstate \<Rightarrow> addr list \<Rightarrow> bool" where
  "sem_list s xs \<longleftrightarrow> (\<exists>e. dseg (sem_links s) None (ns_in_use s) xs e None) \<and> distinct xs"

definition descending :: "'e nstate \<Rightarrow> addr list \<Rightarrow> bool" where
  "descending s xs \<longleftrightarrow> sorted_wrt (\<lambda>a b. strcmp (name_of s b) (name_of s a) < 0) xs"

lemma strcmp_0 [simp]: "strcmp x y = 0 \<longleftrightarrow> x = y"
  by (induction x y rule: strcmp.induct) auto

lemma strcmp_swap: "strcmp x y < 0 \<longleftrightarrow> 0 < strcmp y x"
  by (induction x y rule: strcmp.induct) (auto simp: not_less)

lemma strcmp_trans: "strcmp x y < 0 \<Longrightarrow> strcmp y z < 0 \<Longrightarrow> strcmp x z < 0"
proof (induction x y arbitrary: z rule: strcmp.induct)
  case (4 x xs y ys)
  then show ?case by (cases z) (auto split: if_splits)
next
  case (2 y ys)
  then show ?case by (cases z) auto
qed auto

text \<open>Linking leaves everything but the links alone.\<close>

definition same_sems :: "'e nstate \<Rightarrow> 'e nstate \<Rightarrow> bool" where
  "same_sems s s' \<longleftrightarrow> (\<forall>a. ni_name (ns_impl s' a) = ni_name (ns_impl s a) \<and> ni_refs (ns_impl s' a) = ni_refs (ns_impl s a)
        \<and> ni_sem (ns_impl s' a) = ni_sem (ns_impl s a))
     \<and> ns_count s' = ns_count s \<and> ns_total s' = ns_total s \<and> ns_pool s' = ns_pool s"

definition head_of :: "addr list \<Rightarrow> ptr" where
  "head_of xs = (case xs of [] \<Rightarrow> None | x # _ \<Rightarrow> Some x)"

lemma head_of_simps [simp]: "head_of [] = None" "head_of (x # xs) = Some x"
  by (simp_all add: head_of_def)

lemma sem_links_simps [simp]:
  "le_next (sem_links s a) = ni_next (ns_impl s a)" "le_prev (sem_links s a) = ni_prev (ns_impl s a)"
  by (simp_all add: sem_links_def)

lemma find_tail_spec: "dseg (sem_links s) pv p xs e None \<Longrightarrow>
  find_tail p s = Some (if xs = [] then None else Some (last xs))"
proof (induction xs arbitrary: pv p)
  case Nil
  then show ?case by (subst find_tail.simps) simp
next
  case (Cons x xs)
  then have d: "dseg (sem_links s) (Some x) (ni_next (ns_impl s x)) xs e None" and p: "p = Some x" by simp_all
  have "ni_next (ns_impl s x) = None \<longleftrightarrow> xs = []" using dseg_None_iff [OF d] .
  with Cons.IH [OF d] p show ?case by (subst find_tail.simps) auto
qed

lemma find_impl_spec:
  assumes "dseg (sem_links s) pv p xs e None" and "c0 < 0"
    and "zs = dropWhile (\<lambda>a. strcmp name (name_of s a) < 0) xs"
  shows "\<exists>c. find_impl name p c0 s = Some (head_of zs, c) \<and> (zs = [] \<longrightarrow> c < 0)
    \<and> (\<forall>z zs'. zs = z # zs' \<longrightarrow> c = strcmp name (name_of s z))"
  using assms
proof (induction xs arbitrary: pv p c0 zs)
  case Nil
  then show ?case by (subst find_impl.simps) simp
next
  case (Cons x xs)
  then have p: "p = Some x" and d: "dseg (sem_links s) (Some x) (ni_next (ns_impl s x)) xs e None" by simp_all
  show ?case
  proof (cases "strcmp name (name_of s x) < 0")
    case True
    have e: "find_impl name p c0 s = find_impl name (ni_next (ns_impl s x)) (strcmp name (name_of s x)) s"
      unfolding p using True by (subst find_impl.simps) (simp add: name_of_def Let_def)
    show ?thesis unfolding e using Cons.IH [OF d True refl] True Cons.prems(3) by simp
  next
    case False
    with Cons.prems(3) show ?thesis unfolding p by (subst find_impl.simps) (simp add: name_of_def Let_def)
  qed
qed

lemma link_impl_spec:
  assumes l: "sem_list s (xs @ ys)" and n: "new \<notin> set (xs @ ys)"
    and nul: "ni_next (ns_impl s new) = None" "ni_prev (ns_impl s new) = None"
  shows "\<exists>s'. link_impl new (head_of ys) s = Some s' \<and> sem_list s' (xs @ new # ys) \<and> same_sems s s'"
proof -
  obtain e where d: "dseg (sem_links s) None (ns_in_use s) (xs @ ys) e None" and dis: "distinct (xs @ ys)"
    using l unfolding sem_list_def by blast
  have t: "find_tail (ns_in_use s) s = Some (if xs @ ys = [] then None else Some (last (xs @ ys)))"
    by (rule find_tail_spec [OF d])
  show ?thesis
  proof (cases ys)
    case Nil
    show ?thesis
    proof (cases xs rule: rev_cases)
      case Nil
      with \<open>ys = []\<close> d t nul show ?thesis
        by (simp add: link_impl_def sem_list_def same_sems_def)
    next
      case (snoc zs z)
      have h: "ns_in_use s \<noteq> None" using d snoc by (cases zs) auto
      have dz: "dseg (sem_links s) None (ns_in_use s) (zs @ [z]) e None" using d snoc \<open>ys = []\<close> by simp
      let ?s' = "upd_impl new (\<lambda>I. I\<lparr>ni_prev := Some z\<rparr>) (upd_impl z (\<lambda>I. I\<lparr>ni_next := Some new\<rparr>) s)"
      have lk: "link_impl new (head_of ys) s = Some ?s'"
        using t h snoc \<open>ys = []\<close> by (simp add: link_impl_def)
      have z: "z \<notin> set zs" "new \<notin> set zs" "z \<noteq> new" using dis n snoc by auto
      have lz: "dseg (sem_links ?s') None (ns_in_use ?s') zs (ni_prev (ns_impl s z)) (Some z)"
        using dz z by (subst dseg_cong [of _ "sem_links ?s'" "sem_links s"]) (auto simp: sem_links_def)
      have "dseg (sem_links ?s') None (ns_in_use ?s') (zs @ [z, new]) (Some new) None"
        using lz z nul by auto
      then have "sem_list ?s' (xs @ new # ys)" using dis n snoc \<open>ys = []\<close> by (auto simp: sem_list_def simp del: dseg_append)
      with lk show ?thesis by (auto simp: same_sems_def)
    qed
  next
    case (Cons y zs)
    obtain m where d1: "dseg (sem_links s) None (ns_in_use s) xs m (Some y)"
      and d2: "ni_prev (ns_impl s y) = m" "dseg (sem_links s) (Some y) (ni_next (ns_impl s y)) zs e None"
      using d Cons by auto
    have ny: "y \<noteq> new" "y \<notin> set xs" "y \<notin> set zs" "new \<notin> set xs" "new \<notin> set zs" using dis n Cons by auto
    show ?thesis
    proof (cases xs rule: rev_cases)
      case Nil
      let ?s' = "(upd_impl new (\<lambda>I. I\<lparr>ni_next := Some y\<rparr>) (upd_impl y (\<lambda>I. I\<lparr>ni_prev := Some new\<rparr>)
        (upd_impl new (\<lambda>I. I\<lparr>ni_prev := None\<rparr>) s)))\<lparr>ns_in_use := Some new\<rparr>"
      have m: "m = None" "ns_in_use s = Some y" using d1 Nil by auto
      have lk: "link_impl new (head_of ys) s = Some ?s'"
        using m d2(1) ny(1) Cons by (simp add: link_impl_def Let_def)
      have "dseg (sem_links ?s') (Some y) (ni_next (ns_impl s y)) zs e None"
        using d2(2) ny by (subst dseg_cong [of _ "sem_links ?s'" "sem_links s"]) (auto simp: sem_links_def)
      then have "dseg (sem_links ?s') None (ns_in_use ?s') (new # y # zs) e None"
        using ny by simp
      then have "sem_list ?s' (xs @ new # ys)" using dis n Nil Cons by (auto simp: sem_list_def simp del: dseg.simps)
      with lk show ?thesis by (auto simp: same_sems_def)
    next
      case (snoc ws w)
      have m: "m = Some w" using dseg_last [OF d1] snoc by simp
      have u: "ns_in_use s \<noteq> Some y" using d1 snoc ny(2) by (cases ws) auto
      have nw: "w \<noteq> new" "w \<noteq> y" "w \<notin> set ws" "w \<notin> set zs" "y \<notin> set ws" "new \<notin> set ws" using dis n snoc Cons by auto
      let ?s' = "upd_impl w (\<lambda>I. I\<lparr>ni_next := Some new\<rparr>) (upd_impl new (\<lambda>I. I\<lparr>ni_next := Some y\<rparr>)
        (upd_impl y (\<lambda>I. I\<lparr>ni_prev := Some new\<rparr>) (upd_impl new (\<lambda>I. I\<lparr>ni_prev := Some w\<rparr>) s)))"
      have lk: "link_impl new (head_of ys) s = Some ?s'"
        using m d2(1) ny(1) u nw Cons by (simp add: link_impl_def Let_def)
      have a: "dseg (sem_links ?s') (Some y) (ni_next (ns_impl s y)) zs e None"
        using d2(2) ny nw by (subst dseg_cong [of _ "sem_links ?s'" "sem_links s"]) (auto simp: sem_links_def)
      have b: "dseg (sem_links ?s') None (ns_in_use ?s') ws (ni_prev (ns_impl s w)) (Some w)"
        using d1 snoc ny nw by (subst dseg_cong [of _ "sem_links ?s'" "sem_links s"]) (auto simp: sem_links_def)
      have "dseg (sem_links ?s') None (ns_in_use ?s') (ws @ w # new # y # zs) e None"
        using a b ny nw by auto
      then have "sem_list ?s' (xs @ new # ys)" using dis n snoc Cons by (auto simp: sem_list_def simp del: dseg.simps dseg_append)
      with lk show ?thesis by (auto simp: same_sems_def)
    qed
  qed
qed

lemma sem_links_refs [simp]:
  "sem_links (upd_impl a (\<lambda>I. I\<lparr>ni_refs := r\<rparr>) s) = sem_links s"
  "sem_links (s\<lparr>ns_total := t\<rparr>) = sem_links s" "sem_links (s\<lparr>ns_count := n\<rparr>) = sem_links s"
  "sem_links (s\<lparr>ns_pool := q\<rparr>) = sem_links s"
  by (auto simp: sem_links_def)

lemma unlink_impl_spec:
  assumes "sem_list s (xs @ a # ys)"
  shows "sem_list (unlink_impl a s) (xs @ ys)" and "same_sems s (unlink_impl a s)"
proof -
  obtain e m where d1: "dseg (sem_links s) None (ns_in_use s) xs m (Some a)" and m: "ni_prev (ns_impl s a) = m"
    and d2: "dseg (sem_links s) (Some a) (ni_next (ns_impl s a)) ys e None" and dis: "distinct (xs @ a # ys)"
    using assms by (auto simp: sem_list_def)
  have n: "ni_next (ns_impl s a) = head_of ys" using d2 by (cases ys) auto
  have p: "m = (if xs = [] then None else Some (last xs))"
    using dseg_last [OF d1] d1 by (cases xs) auto
  have u: "(ns_in_use s = Some a) = (xs = [])" using d1 dis by (cases xs) auto
  let ?s1 = "if xs = [] then s else upd_impl (last xs) (\<lambda>I. I\<lparr>ni_next := head_of ys\<rparr>) s"
  let ?s2 = "if ys = [] then ?s1 else upd_impl (hd ys) (\<lambda>I. I\<lparr>ni_prev := m\<rparr>) ?s1"
  let ?s3 = "if xs = [] then ?s2\<lparr>ns_in_use := head_of ys\<rparr> else ?s2"
  have la: "xs \<noteq> [] \<Longrightarrow> last xs \<noteq> a" "ys \<noteq> [] \<Longrightarrow> hd ys \<noteq> a"
    using dis last_in_set [of xs] hd_in_set [of ys] by auto
  have e3: "unlink_impl a s = ?s3"
    using la u n p m by (cases ys; cases "xs = []") (auto simp: unlink_impl_def Let_def)
  have "same_sems s ?s3" by (auto simp: same_sems_def)
  then show "same_sems s (unlink_impl a s)" unfolding e3 .
  have b: "\<exists>e. dseg (sem_links ?s3) m (head_of ys) ys e None"
  proof (cases ys)
    case (Cons y zs)
    have "y \<notin> set zs" "xs \<noteq> [] \<Longrightarrow> last xs \<notin> set (y # zs)" using dis Cons last_in_set [of xs] by (auto simp: disjoint_iff)
    then have "dseg (sem_links ?s3) (Some y) (ni_next (ns_impl s y)) zs e None"
      using d2 Cons by (subst dseg_cong [of _ "sem_links ?s3" "sem_links s"]) (auto simp: sem_links_def)
    moreover have "ni_next (ns_impl ?s3 y) = ni_next (ns_impl s y)" "ni_prev (ns_impl ?s3 y) = m"
      using Cons \<open>xs \<noteq> [] \<Longrightarrow> last xs \<notin> set (y # zs)\<close> by auto
    ultimately show ?thesis using Cons by auto
  qed simp
  have f: "dseg (sem_links ?s3) None (ns_in_use ?s3) xs m (head_of ys)"
  proof (cases xs rule: rev_cases)
    case Nil
    then show ?thesis using p by simp
  next
    case (snoc ws w)
    have pt: "sem_links ?s3 x = sem_links s x" if "x \<in> set ws" for x
      using that dis snoc by (cases ys) (auto simp: sem_links_def)
    have "dseg (sem_links s) None (ns_in_use s) ws (ni_prev (ns_impl s w)) (Some w)"
      using d1 snoc by auto
    then have "dseg (sem_links ?s3) None (ns_in_use s) ws (ni_prev (ns_impl s w)) (Some w)"
      using dseg_cong [of ws "sem_links ?s3" "sem_links s"] pt by blast
    moreover have "ni_prev (ns_impl ?s3 w) = ni_prev (ns_impl s w)" "ni_next (ns_impl ?s3 w) = head_of ys"
      using snoc dis by (cases ys; simp)+
    ultimately show ?thesis using snoc p by auto
  qed
  from b f dis have "sem_list ?s3 (xs @ ys)" unfolding sem_list_def by auto
  then show "sem_list (unlink_impl a s) (xs @ ys)" unfolding e3 .
qed

section \<open>The abstract view\<close>

definition refs_of :: "'e nstate \<Rightarrow> addr \<Rightarrow> nat" where
  "refs_of s a = unat (ni_refs (ns_impl s a))"

definition refs_map :: "'e nstate \<Rightarrow> addr list \<Rightarrow> string \<rightharpoonup> nat" where
  "refs_map s xs = map_of (map (\<lambda>a. (name_of s a, refs_of s a)) xs)"

lemma map_of_change:
  assumes "a \<in> set xs" and "inj_on nm (set xs)"
  shows "map_of (map (\<lambda>b. (nm b, if b = a then v else f b)) xs) = (map_of (map (\<lambda>b. (nm b, f b)) xs))(nm a \<mapsto> v)"
  using assms
proof (induction xs)
  case (Cons x xs)
  show ?case
  proof (cases "a \<in> set xs")
    case True
    with Cons show ?thesis by (auto simp: inj_on_def fun_eq_iff)
  next
    case False
    then have "map (\<lambda>b. (nm b, if b = a then v else f b)) xs = map (\<lambda>b. (nm b, f b)) xs" by auto
    with False Cons.prems show ?thesis by (auto simp: fun_eq_iff simp del: map_eq_conv)
  qed
qed simp

lemma map_of_insert:
  "nm x \<notin> nm ` set (xs @ ys) \<Longrightarrow>
   map_of (map (\<lambda>b. (nm b, f b)) (xs @ x # ys)) = (map_of (map (\<lambda>b. (nm b, f b)) (xs @ ys)))(nm x \<mapsto> f x)"
  by (induction xs) auto

lemma map_of_remove:
  "nm x \<notin> nm ` set (xs @ ys) \<Longrightarrow>
   map_of (map (\<lambda>b. (nm b, f b)) (xs @ ys)) = (map_of (map (\<lambda>b. (nm b, f b)) (xs @ x # ys)))(nm x := None)"
proof (induction xs)
  case Nil
  then have "map_of (map (\<lambda>b. (nm b, f b)) ys) (nm x) = None"
    by (auto simp: map_of_eq_None_iff)
  then show ?case by (auto simp: fun_eq_iff)
next
  case (Cons y xs)
  then show ?case by (auto simp: fun_eq_iff)
qed

lemma descending_names:
  assumes "descending s xs"
  shows "inj_on (name_of s) (set xs)"
  using assms
proof (induction xs)
  case (Cons x xs)
  then have "strcmp (name_of s b) (name_of s x) < 0" if "b \<in> set xs" for b
    using that by (simp add: descending_def)
  then have "name_of s x \<notin> name_of s ` set xs" by (metis imageE less_irrefl strcmp_0)
  moreover have "inj_on (name_of s) (set xs)" using Cons by (simp add: descending_def)
  ultimately show ?case by (simp add: image_iff)
qed simp

definition total_refs :: "'e nstate \<Rightarrow> addr list \<Rightarrow> nat" where
  "total_refs s xs = (\<Sum>a \<leftarrow> xs. refs_of s a)"

definition ns_inv ::
  "('e \<Rightarrow> addr set) \<Rightarrow> ('e \<Rightarrow> bool) \<Rightarrow> (u32 \<Rightarrow> bool) \<Rightarrow> ('e \<Rightarrow> addr \<Rightarrow> nat) \<Rightarrow> 'e nstate \<Rightarrow> addr list \<Rightarrow> bool" where
  "ns_inv live einv fits region s xs \<longleftrightarrow> sem_list s xs \<and> descending s xs
     \<and> bp_inv live einv fits region (ns_pool s)
     \<and> (\<forall>a \<in> set xs. 0 < refs_of s a \<and> 4 \<le> a \<and> a - 4 \<in> used (ns_pool s))
     \<and> ns_count s = int (length xs) \<and> ns_total s = int (total_refs s xs) \<and> in_i32 (ns_total s)"

lemma refs_map_cong:
  assumes "\<And>a. a \<in> set xs \<Longrightarrow> name_of s' a = name_of s a \<and> refs_of s' a = refs_of s a"
  shows "refs_map s' xs = refs_map s xs" and "descending s' xs = descending s xs"
    and "total_refs s' xs = total_refs s xs"
proof -
  have "map (\<lambda>a. (name_of s' a, refs_of s' a)) xs = map (\<lambda>a. (name_of s a, refs_of s a)) xs" using assms by auto
  then show "refs_map s' xs = refs_map s xs" by (simp only: refs_map_def)
  have "map (refs_of s') xs = map (refs_of s) xs" using assms by auto
  then show "total_refs s' xs = total_refs s xs" by (simp only: total_refs_def)
  show "descending s' xs = descending s xs"
    unfolding descending_def using assms by (auto intro: sorted_wrt_mono_rel [rotated])
qed

lemma total_refs_ge: "a \<in> set xs \<Longrightarrow> refs_of s a \<le> total_refs s xs"
  unfolding total_refs_def by (rule member_le_sum_list) auto

lemma total_refs_change:
  assumes "distinct xs" and "a \<in> set xs" and "\<And>b. b \<in> set xs \<Longrightarrow> b \<noteq> a \<Longrightarrow> refs_of s' b = refs_of s b"
  shows "total_refs s' xs + refs_of s a = total_refs s xs + refs_of s' a"
  using assms
proof (induction xs)
  case (Cons x xs)
  show ?case
  proof (cases "a = x")
    case True
    then have "map (refs_of s') xs = map (refs_of s) xs" using Cons.prems by auto
    then have "total_refs s' xs = total_refs s xs" by (simp only: total_refs_def)
    then show ?thesis using True by (simp add: total_refs_def)
  next
    case False
    with Cons show ?thesis by (simp add: total_refs_def)
  qed
qed simp

lemma total_refs_length: "\<forall>a \<in> set xs. 0 < refs_of s a \<Longrightarrow> length xs \<le> total_refs s xs"
proof (induction xs)
  case (Cons x xs)
  then have "1 \<le> refs_of s x" "length xs \<le> total_refs s xs" by auto
  then show ?case by (simp add: total_refs_def)
qed simp

lemma total_refs_append [simp]: "total_refs s (xs @ ys) = total_refs s xs + total_refs s ys"
  "total_refs s (a # xs) = refs_of s a + total_refs s xs"
  by (simp_all add: total_refs_def)

section \<open>Creating and deleting refine the map\<close>

lemma ns_invD:
  assumes "ns_inv live einv fits region s xs"
  shows "sem_list s xs" and "descending s xs" and "bp_inv live einv fits region (ns_pool s)"
    and "\<And>a. a \<in> set xs \<Longrightarrow> 0 < refs_of s a \<and> 4 \<le> a \<and> a - 4 \<in> used (ns_pool s)"
    and "ns_count s = int (length xs)" and "ns_total s = int (total_refs s xs)" and "in_i32 (ns_total s)"
  using assms unfolding ns_inv_def by blast+

lemma refs_map_mem:
  assumes "descending s xs" and "a \<in> set xs"
  shows "refs_map s xs (name_of s a) = Some (refs_of s a)"
proof -
  have "inj_on fst ((\<lambda>a. (name_of s a, refs_of s a)) ` set xs)"
    using descending_names [OF assms(1)] by (auto simp: inj_on_def)
  moreover have "distinct (map fst (map (\<lambda>a. (name_of s a, refs_of s a)) xs))"
    using assms(1)
  proof (induction xs)
    case (Cons x xs)
    then show ?case using descending_names [OF Cons.prems] by (auto simp: descending_def inj_on_def) (metis less_irrefl strcmp_0)
  qed simp
  ultimately show ?thesis unfolding refs_map_def using assms(2) by (intro map_of_is_SomeI) auto
qed

lemma refs_map_None: "refs_map s xs n = None \<longleftrightarrow> n \<notin> name_of s ` set xs"
  by (force simp: refs_map_def map_of_eq_None_iff)

text \<open>Changing the references of one element.\<close>

lemma refs_change:
  assumes d: "descending s xs" "distinct xs" "a \<in> set xs"
    and n: "\<And>b. name_of s' b = name_of s b" and r: "\<And>b. refs_of s' b = (if b = a then v else refs_of s b)"
  shows "refs_map s' xs = (refs_map s xs)(name_of s a \<mapsto> v)" and "descending s' xs"
    and "total_refs s' xs + refs_of s a = total_refs s xs + v"
proof -
  show "refs_map s' xs = (refs_map s xs)(name_of s a \<mapsto> v)"
    unfolding refs_map_def n r by (rule map_of_change [OF d(3) descending_names [OF d(1)]])
  show "descending s' xs" using d(1) by (simp add: descending_def n)
  show "total_refs s' xs + refs_of s a = total_refs s xs + v"
    using total_refs_change [OF d(2,3), of s' s] r by simp
qed

text \<open>The place where a new name goes.\<close>

lemma split_names:
  assumes "descending s xs" and "name \<notin> name_of s ` set xs"
  defines "ys \<equiv> takeWhile (\<lambda>a. strcmp name (name_of s a) < 0) xs"
    and "zs \<equiv> dropWhile (\<lambda>a. strcmp name (name_of s a) < 0) xs"
  shows "xs = ys @ zs" and "\<forall>a \<in> set ys. strcmp name (name_of s a) < 0"
    and "\<forall>a \<in> set zs. strcmp (name_of s a) name < 0"
proof -
  show xs: "xs = ys @ zs" by (simp add: ys_def zs_def)
  show "\<forall>a \<in> set ys. strcmp name (name_of s a) < 0" unfolding ys_def by (auto dest: set_takeWhileD)
  show "\<forall>a \<in> set zs. strcmp (name_of s a) name < 0"
  proof (cases zs)
    case (Cons z zs')
    then have "\<not> strcmp name (name_of s z) < 0" unfolding zs_def by (metis dropWhile_eq_Cons_conv)
    moreover have "z \<in> set xs" using Cons xs by simp
    then have "strcmp name (name_of s z) \<noteq> 0" using assms(2) by auto
    ultimately have z: "strcmp (name_of s z) name < 0" using strcmp_swap by (metis linorder_neqE)
    have "descending s zs" using assms(1) xs by (simp add: descending_def sorted_wrt_append)
    then have "strcmp (name_of s b) (name_of s z) < 0" if "b \<in> set zs'" for b
      using that Cons by (simp add: descending_def)
    then show ?thesis using z Cons strcmp_trans by auto
  qed simp
qed

lemma descending_insert:
  assumes "descending s (ys @ zs)" and "\<forall>a \<in> set ys. strcmp (name_of s n) (name_of s a) < 0"
    and "\<forall>a \<in> set zs. strcmp (name_of s a) (name_of s n) < 0"
  shows "descending s (ys @ n # zs)"
  using assms strcmp_trans by (auto simp: descending_def sorted_wrt_append)

text \<open>The abstract operations.\<close>

definition add_ref :: "string \<Rightarrow> (string \<rightharpoonup> nat) \<Rightarrow> string \<rightharpoonup> nat" where
  "add_ref name m = m(name \<mapsto> (case m name of None \<Rightarrow> 1 | Some k \<Rightarrow> Suc k))"

definition drop_ref :: "string \<Rightarrow> (string \<rightharpoonup> nat) \<Rightarrow> string \<rightharpoonup> nat" where
  "drop_ref name m = m(name := (case m name of Some (Suc (Suc k)) \<Rightarrow> Some (Suc k) | _ \<Rightarrow> None))"

lemma drop_add_ref: "m name \<noteq> Some 0 \<Longrightarrow> drop_ref name (add_ref name m) = m"
  by (auto simp: drop_ref_def add_ref_def fun_eq_iff split: option.split nat.split)

lemma create_existing:
  assumes inv: "ns_inv live einv fits region s xs" and a: "a \<in> set xs"
    and len: "length (name_of s a) < VCOS_NAMED_SEMAPHORE_NAMELEN" and t: "in_i32 (ns_total s + 1)"
  shows "\<exists>s'. vcos_generic_named_semaphore_create alloc sst (name_of s a) cnt sem s
      = Some (VCOS_SUCCESS, \<lparr>nm_actual = Some a, nm_sem = Some a\<rparr>, s')
    \<and> ns_inv live einv fits region s' xs \<and> refs_map s' xs = add_ref (name_of s a) (refs_map s xs)
    \<and> name_of s' = name_of s"
proof -
  note I = ns_invD [OF inv]
  obtain e where d: "dseg (sem_links s) None (ns_in_use s) xs e None" and dis: "distinct xs"
    using I(1) unfolding sem_list_def by blast
  let ?nm = "name_of s a"
  let ?P = "\<lambda>b. strcmp ?nm (name_of s b) < 0"
  obtain us vs where xs: "xs = us @ a # vs" using a by (auto dest: split_list)
  have "\<forall>b \<in> set us. ?P b" using I(2) by (auto simp: xs descending_def sorted_wrt_append)
  moreover have "\<not> ?P a" by (metis less_irrefl strcmp_0)
  ultimately have dw: "dropWhile ?P xs = a # vs" by (simp add: xs)
  obtain c where c: "find_impl ?nm (ns_in_use s) (- 1) s = Some (Some a, c)" "c = strcmp ?nm (name_of s a)"
    using find_impl_spec [OF d, of "- 1" "a # vs" ?nm] dw by auto
  then have c0: "c = 0" by simp
  let ?s' = "(upd_impl a (\<lambda>I. I\<lparr>ni_refs := ni_refs I + 1\<rparr>) s)\<lparr>ns_total := ns_total s + 1\<rparr>"
  have cr: "vcos_generic_named_semaphore_create alloc sst ?nm cnt sem s
      = Some (VCOS_SUCCESS, \<lparr>nm_actual = Some a, nm_sem = Some a\<rparr>, ?s')"
    using c(1) c0 len t by (simp add: vcos_generic_named_semaphore_create_def i32_def)
  have n: "name_of ?s' = name_of s" by (auto simp: name_of_def)
  have "refs_of s a \<le> total_refs s xs" by (rule total_refs_ge [OF a])
  then have "refs_of s a + 1 < 2 ^ 31" using t I(6) by (simp add: in_i32_def)
  then have ra: "unat (ni_refs (ns_impl s a) + 1) = Suc (refs_of s a)"
    by (simp add: refs_of_def unat_word_ariths)
  then have r: "refs_of ?s' b = (if b = a then Suc (refs_of s a) else refs_of s b)" for b
    by (simp add: refs_of_def)
  note ch = refs_change [OF I(2) dis a fun_cong [OF n] r]
  have l: "sem_links ?s' = sem_links s" by (auto simp: sem_links_def)
  have "ns_inv live einv fits region ?s' xs"
    using I ch(2,3) t r unfolding ns_inv_def sem_list_def l by simp
  moreover have "refs_map ?s' xs = add_ref ?nm (refs_map s xs)"
    unfolding ch(1) add_ref_def using refs_map_mem [OF I(2) a] by simp
  ultimately show ?thesis using cr n by blast
qed

context region_allocator
begin

abbreviation sems_inv :: "'a nstate \<Rightarrow> addr list \<Rightarrow> bool" where
  "sems_inv \<equiv> ns_inv live einv fits region"

lemma find_absent:
  assumes inv: "sems_inv s xs" and abs: "name \<notin> name_of s ` set xs"
  shows "\<exists>c. find_impl name (ns_in_use s) (- 1) s
      = Some (head_of (dropWhile (\<lambda>a. strcmp name (name_of s a) < 0) xs), c)
    \<and> (head_of (dropWhile (\<lambda>a. strcmp name (name_of s a) < 0) xs) \<noteq> None \<longrightarrow> c \<noteq> 0)"
proof -
  let ?zs = "dropWhile (\<lambda>a. strcmp name (name_of s a) < 0) xs"
  obtain e where d: "dseg (sem_links s) None (ns_in_use s) xs e None"
    using ns_invD(1) [OF inv] unfolding sem_list_def by blast
  obtain c where c: "find_impl name (ns_in_use s) (- 1) s = Some (head_of ?zs, c)"
    "\<forall>z zs'. ?zs = z # zs' \<longrightarrow> c = strcmp name (name_of s z)"
    using find_impl_spec [OF d _ refl, of "- 1" name] by auto
  have "c \<noteq> 0" if z: "?zs = z # zs'" for z zs'
  proof -
    have "z \<in> set xs" using set_dropWhileD [of z] z by (metis list.set_intros(1))
    then have "name_of s z \<noteq> name" using abs by auto
    then show ?thesis using c(2) z by auto
  qed
  moreover have "?zs = [] \<or> (\<exists>z zs'. ?zs = z # zs')" by (meson neq_Nil_conv)
  ultimately show ?thesis using c(1) head_of_simps(1) by metis
qed

lemma ns_pool_change:
  assumes inv: "sems_inv s xs" and p: "bp_inv live einv fits region p" "used (ns_pool s) \<subseteq> used p"
  shows "sems_inv (s\<lparr>ns_pool := p\<rparr>) xs" and "refs_map (s\<lparr>ns_pool := p\<rparr>) xs = refs_map s xs"
proof -
  let ?s = "s\<lparr>ns_pool := p\<rparr>"
  have n: "name_of ?s = name_of s" "refs_of ?s = refs_of s" by (auto simp: name_of_def refs_of_def)
  note c = refs_map_cong [of xs ?s s]
  show "refs_map ?s xs = refs_map s xs" using c(1) n by simp
  show "sems_inv ?s xs" using ns_invD [OF inv] p c(2,3) n unfolding ns_inv_def by (auto simp: sem_list_def)
qed

lemma create_new_linked:
  assumes inv: "sems_inv s xs" and abs: "name \<notin> name_of s ` set xs"
    and p: "bp_inv live einv fits region p" "a \<notin> used (ns_pool s)" "used p = insert a (used (ns_pool s))"
    and t: "in_i32 (ns_total s + 1)"
    and s2: "s2 = (upd_impl (a + 4) (\<lambda>_. \<lparr>ni_sem = cnt, ni_name = name, ni_refs = 1, ni_next = None, ni_prev = None\<rparr>)
         (s\<lparr>ns_pool := p\<rparr>))\<lparr>ns_total := ns_total s + 1, ns_count := ns_count s + 1\<rparr>"
  shows "\<exists>s' xs'. link_impl (a + 4) (head_of (dropWhile (\<lambda>a. strcmp name (name_of s a) < 0) xs)) s2 = Some s'
    \<and> sems_inv s' xs' \<and> refs_map s' xs' = add_ref name (refs_map s xs) \<and> name_of s' (a + 4) = name \<and> a + 4 \<in> set xs'"
proof -
  note I = ns_invD [OF inv]
  define ys where "ys = takeWhile (\<lambda>a. strcmp name (name_of s a) < 0) xs"
  define zs where "zs = dropWhile (\<lambda>a. strcmp name (name_of s a) < 0) xs"
  note sp = split_names [OF I(2) abs, folded ys_def zs_def]
  have new: "a + 4 \<notin> set xs"
  proof
    assume "a + 4 \<in> set xs"
    then show False using I(4) p(2) by fastforce
  qed
  have n2: "name_of s2 b = (if b = a + 4 then name else name_of s b)"
    "refs_of s2 b = (if b = a + 4 then 1 else refs_of s b)" for b
    by (simp_all add: s2 name_of_def refs_of_def)
  have lk: "sem_links s2 b = sem_links s b" if "b \<noteq> a + 4" for b using that by (simp add: s2 sem_links_def)
  have "sem_list s2 xs"
  proof -
    obtain e where "dseg (sem_links s) None (ns_in_use s) xs e None" "distinct xs"
      using I(1) unfolding sem_list_def by blast
    moreover have "dseg (sem_links s2) None (ns_in_use s) xs e None = dseg (sem_links s) None (ns_in_use s) xs e None"
      by (rule dseg_cong, rule lk) (use new in blast)
    ultimately show ?thesis unfolding sem_list_def by (auto simp: s2)
  qed
  then have "sem_list s2 (ys @ zs)" using sp(1) by simp
  moreover have "a + 4 \<notin> set (ys @ zs)" using new sp(1) by simp
  moreover have "ni_next (ns_impl s2 (a + 4)) = None" "ni_prev (ns_impl s2 (a + 4)) = None" by (simp_all add: s2)
  ultimately obtain s' where s': "link_impl (a + 4) (head_of zs) s2 = Some s'" "sem_list s' (ys @ (a + 4) # zs)"
    "same_sems s2 s'"
    using link_impl_spec by blast
  have n': "name_of s' b = name_of s2 b" "refs_of s' b = refs_of s2 b" for b
    using s'(3) by (simp_all add: same_sems_def name_of_def refs_of_def)
  have o: "name_of s' b = name_of s b \<and> refs_of s' b = refs_of s b" if "b \<in> set (ys @ zs)" for b
    using that new sp(1) by (auto simp: n' n2)
  note c = refs_map_cong [of "ys @ zs" s' s, OF o]
  have abs': "name_of s' (a + 4) \<notin> name_of s' ` set (ys @ zs)"
    using abs o sp(1) n' n2 by (metis (no_types, lifting) image_cong image_iff)
  have m: "refs_map s' (ys @ (a + 4) # zs) = add_ref name (refs_map s xs)"
  proof -
    have "refs_map s' (ys @ (a + 4) # zs) = (refs_map s' (ys @ zs))(name_of s' (a + 4) \<mapsto> refs_of s' (a + 4))"
      unfolding refs_map_def by (rule map_of_insert [OF abs'])
    moreover have "refs_map s xs name = None" using abs refs_map_None by blast
    ultimately show ?thesis using c(1) sp(1) by (simp add: n' n2 add_ref_def)
  qed
  have d: "descending s' (ys @ (a + 4) # zs)"
    using descending_insert [of s' ys zs "a + 4"] c(2) I(2) sp o by (simp add: n' n2)
  have "total_refs s' (ys @ (a + 4) # zs) = Suc (total_refs s xs)"
    using c(3) sp(1) by (simp add: n' n2)
  moreover have "length (ys @ (a + 4) # zs) = Suc (length xs)" using sp(1) by simp
  moreover have "0 < refs_of s' b \<and> 4 \<le> b \<and> b - 4 \<in> used p" if "b \<in> set (ys @ (a + 4) # zs)" for b
    using that I(4) o sp(1) p(3) by (cases "b = a + 4") (auto simp: n' n2)
  moreover have "ns_total s' = ns_total s + 1" "ns_count s' = ns_count s + 1" "ns_pool s' = p"
    using s'(3) by (simp_all add: same_sems_def s2)
  ultimately have "sems_inv s' (ys @ (a + 4) # zs)"
    using s'(2) d p(1) I(5,6) t unfolding ns_inv_def by simp
  then show ?thesis using s'(1) m n' n2 unfolding zs_def by (intro exI [of _ s'] exI [of _ "ys @ (a + 4) # zs"]) (simp add: zs_def)
qed

lemma create_new:
  assumes inv: "sems_inv s xs" and abs: "name \<notin> name_of s ` set xs"
    and len: "length name < VCOS_NAMED_SEMAPHORE_NAMELEN" and t: "in_i32 (ns_total s + 1)"
  shows "\<exists>st sem' s' xs'. vcos_generic_named_semaphore_create alloc VCOS_SUCCESS name cnt sem s = Some (st, sem', s')
    \<and> sems_inv s' xs'
    \<and> (st = VCOS_SUCCESS \<and> refs_map s' xs' = add_ref name (refs_map s xs)
         \<and> (\<exists>a \<in> set xs'. nm_actual sem' = Some a \<and> name_of s' a = name)
       \<or> st = VCOS_ENOSPC \<and> refs_map s' xs' = refs_map s xs \<and> used (ns_pool s) = all_blocks (ns_pool s))"
proof -
  note I = ns_invD [OF inv]
  obtain r p where a: "vcos_generic_blockpool_alloc alloc (ns_pool s) = Some (r, p)" and post: "alloc_post (ns_pool s) r p"
    using alloc_spec [OF I(3)] by blast
  obtain c where f: "find_impl name (ns_in_use s) (- 1) s
      = Some (head_of (dropWhile (\<lambda>a. strcmp name (name_of s a) < 0) xs), c)"
    "head_of (dropWhile (\<lambda>a. strcmp name (name_of s a) < 0) xs) \<noteq> None \<longrightarrow> c \<noteq> 0"
    using find_absent [OF inv abs] by blast
  show ?thesis
  proof (cases r)
    case None
    then have p: "bp_inv live einv fits region p" "used p = used (ns_pool s)" "used (ns_pool s) = all_blocks (ns_pool s)"
      using post by (auto simp: alloc_post_def)
    have "vcos_generic_named_semaphore_create alloc VCOS_SUCCESS name cnt sem s = Some (VCOS_ENOSPC, sem, s\<lparr>ns_pool := p\<rparr>)"
      using f a None len by (auto simp: vcos_generic_named_semaphore_create_def)
    then show ?thesis using ns_pool_change [OF inv p(1)] p by blast
  next
    case (Some b)
    then obtain x where x: "b = x + 4" "x \<notin> used (ns_pool s)" "used p = insert x (used (ns_pool s))"
      "bp_inv live einv fits region p"
      using post by (auto simp: alloc_post_def)
    define s2 where "s2 = (upd_impl (x + 4) (\<lambda>_. \<lparr>ni_sem = cnt, ni_name = name, ni_refs = 1, ni_next = None, ni_prev = None\<rparr>)
         (s\<lparr>ns_pool := p\<rparr>))\<lparr>ns_total := ns_total s + 1, ns_count := ns_count s + 1\<rparr>"
    obtain s' xs' where s': "link_impl (x + 4) (head_of (dropWhile (\<lambda>a. strcmp name (name_of s a) < 0) xs)) s2 = Some s'"
      "sems_inv s' xs'" "refs_map s' xs' = add_ref name (refs_map s xs)" "name_of s' (x + 4) = name" "x + 4 \<in> set xs'"
      using create_new_linked [OF inv abs x(4,2,3) t s2_def] by blast
    have "int (length xs) \<le> int (total_refs s xs)" using total_refs_length [of xs s] I(4) by simp
    then have "in_i32 (ns_count s + 1)" using t I(5,6) by (simp add: in_i32_def)
    then have "vcos_generic_named_semaphore_create alloc VCOS_SUCCESS name cnt sem s
        = Some (VCOS_SUCCESS, \<lparr>nm_actual = Some (x + 4), nm_sem = Some (x + 4)\<rparr>, s')"
      using f a Some x(1) len t s'(1)
      by (auto simp: vcos_generic_named_semaphore_create_def i32_def s2_def upd_impl_def)
    then show ?thesis using s' by force
  qed
qed

lemma delete_spec:
  assumes inv: "sems_inv s xs" and a: "a \<in> set xs" and h: "nm_actual sem = Some a"
  shows "\<exists>sem' s' xs'. vcos_named_semaphore_delete release sem s = Some (sem', s') \<and> sems_inv s' xs'
    \<and> refs_map s' xs' = drop_ref (name_of s a) (refs_map s xs)
    \<and> (refs_of s a = 1 \<longrightarrow> nm_actual sem' = None \<and> used (ns_pool s') = used (ns_pool s) - {a - 4})"
proof -
  note I = ns_invD [OF inv]
  have dis: "distinct xs" using I(1) by (simp add: sem_list_def)
  let ?v = "refs_of s a - 1"
  define s1 where "s1 = upd_impl a (\<lambda>I. I\<lparr>ni_refs := ni_refs I - 1\<rparr>) (s\<lparr>ns_total := ns_total s - 1\<rparr>)"
  have r0: "0 < refs_of s a" using I(4) [OF a] by simp
  then have ra: "unat (ni_refs (ns_impl s a) - 1) = ?v"
    unfolding refs_of_def by (intro unat_minus_one) auto
  have n: "name_of s1 b = name_of s b" and r: "refs_of s1 b = (if b = a then ?v else refs_of s b)" for b
    using ra by (simp_all add: s1_def name_of_def refs_of_def)
  note ch = refs_change [OF I(2) dis a n r]
  have l: "sem_links s1 = sem_links s" by (auto simp: s1_def sem_links_def)
  have list1: "sem_list s1 xs" using I(1) by (simp add: sem_list_def l) (simp add: s1_def)
  have tot: "total_refs s xs = Suc (total_refs s1 xs)" using ch(3) r0 by linarith
  then have t: "in_i32 (ns_total s - 1)" using I(6,7) by (simp add: in_i32_def)
  have z: "ni_refs (ns_impl s1 a) = 0 \<longleftrightarrow> ?v = 0"
  proof -
    have "refs_of s1 a = ?v" by (simp add: r)
    then show ?thesis unfolding refs_of_def [of s1] by (metis unat_eq_zero)
  qed
  have m: "refs_map s xs (name_of s a) = Some (refs_of s a)" by (rule refs_map_mem [OF I(2) a])
  show ?thesis
  proof (cases "?v = 0")
    case False
    then have "vcos_named_semaphore_delete release sem s = Some (sem, s1)"
      using h t z by (simp add: vcos_named_semaphore_delete_def i32_def Let_def s1_def)
    moreover have f1: "ns_pool s1 = ns_pool s" "ns_count s1 = ns_count s" "ns_total s1 = ns_total s - 1"
      by (simp_all add: s1_def)
    have "0 < refs_of s1 b \<and> 4 \<le> b \<and> b - 4 \<in> used (ns_pool s1)" if "b \<in> set xs" for b
      using I(4) [OF that] False f1(1) by (simp add: r)
    moreover have "ns_total s1 = int (total_refs s1 xs)" using f1(3) I(6) tot by simp
    ultimately have "sems_inv s1 xs"
      unfolding ns_inv_def f1(1,2) using list1 ch(2) I(3,5) t by (simp add: f1(3))
    moreover have "vcos_named_semaphore_delete release sem s = Some (sem, s1)"
      using h t z False by (simp add: vcos_named_semaphore_delete_def i32_def Let_def s1_def)
    moreover have "2 \<le> refs_of s a" using False by linarith
    then obtain k where k: "refs_of s a = Suc (Suc k)" by (metis add_2_eq_Suc le_Suc_ex)
    then have "refs_map s1 xs = drop_ref (name_of s a) (refs_map s xs)" unfolding ch(1) drop_ref_def using m by simp
    ultimately show ?thesis using k by auto
  next
    case True
    then have one: "refs_of s a = 1" using r0 by simp
    obtain us vs where xs: "xs = us @ a # vs" using a by (auto dest: split_list)
    define s2 where "s2 = unlink_impl a (s1\<lparr>ns_count := ns_count s - 1\<rparr>)"
    have "sem_list (s1\<lparr>ns_count := ns_count s - 1\<rparr>) (us @ a # vs)" using list1 xs by (simp add: sem_list_def)
    note u = unlink_impl_spec [OF this, folded s2_def]
    have sm: "name_of s2 b = name_of s b" "refs_of s2 b = refs_of s1 b" "ns_pool s2 = ns_pool s"
      "ns_total s2 = ns_total s - 1" "ns_count s2 = ns_count s - 1" for b
      using u(2) by (simp_all add: same_sems_def name_of_def refs_of_def s1_def)
    have a4: "a - 4 \<in> used (ns_pool s)" "a - 4 + 4 = a" using I(4) [OF a] by auto
    obtain p where p: "vcos_generic_blockpool_free release (Some a) (ns_pool s) = Some p"
      "bp_inv live einv fits region p" "used p = used (ns_pool s) - {a - 4}"
      using free_spec [OF I(3) a4(1)] unfolding a4(2) by blast
    let ?s' = "s2\<lparr>ns_pool := p\<rparr>"
    have len: "0 < length xs" using a by (cases xs) auto
    have ci: "in_i32 (ns_count s - 1)"
    proof -
      have "int (length xs) \<le> int (total_refs s xs)" using total_refs_length [of xs s] I(4) by simp
      then show ?thesis using I(5,6,7) len by (simp add: in_i32_def)
    qed
    have del: "vcos_named_semaphore_delete release sem s = Some (\<lparr>nm_actual = None, nm_sem = None\<rparr>, ?s')"
      using h t z True ci p(1) sm(3)
      by (simp add: vcos_named_semaphore_delete_def i32_def Let_def s1_def s2_def)
    have n': "name_of ?s' b = name_of s b" "refs_of ?s' b = refs_of s1 b" for b
      using sm by (simp_all add: name_of_def refs_of_def)
    have o: "name_of ?s' b = name_of s b \<and> refs_of ?s' b = refs_of s b" if "b \<in> set (us @ vs)" for b
      using that dis xs by (auto simp: n' r)
    note c = refs_map_cong [of "us @ vs" ?s' s, OF o]
    have inj: "name_of s a \<notin> name_of s ` set (us @ vs)"
      using descending_names [OF I(2)] xs dis by (auto simp: inj_on_def)
    have "refs_map s (us @ vs) = (refs_map s xs)(name_of s a := None)"
      unfolding refs_map_def xs by (rule map_of_remove [OF inj])
    then have mp: "refs_map ?s' (us @ vs) = drop_ref (name_of s a) (refs_map s xs)"
      using c(1) m one by (simp add: drop_ref_def)
    have "descending ?s' (us @ vs)" using c(2) I(2) xs by (simp add: descending_def sorted_wrt_append)
    moreover have "total_refs ?s' (us @ vs) + 1 = total_refs s xs" using c(3) xs one by simp
    moreover have "sem_list ?s' (us @ vs)" using u(1) by (simp add: sem_list_def)
    moreover have "0 < refs_of ?s' b \<and> 4 \<le> b \<and> b - 4 \<in> used p" if "b \<in> set (us @ vs)" for b
    proof -
      have b: "b \<in> set xs" "b \<noteq> a" using that xs dis by auto
      have "4 \<le> b" "b - 4 \<in> used (ns_pool s)" "0 < refs_of s b" using I(4) [OF b(1)] by auto
      moreover have "b - 4 \<noteq> a - 4" using b(2) \<open>4 \<le> b\<close> I(4) [OF a] by linarith
      ultimately show ?thesis using o [OF that] p(3) by auto
    qed
    ultimately have "sems_inv ?s' (us @ vs)"
      using I(5,6) p(2) t sm xs unfolding ns_inv_def by auto
    then show ?thesis using del mp p(3) by (intro exI [of _ "\<lparr>nm_actual = None, nm_sem = None\<rparr>"] exI [of _ ?s'] exI [of _ "us @ vs"]) simp
  qed
qed

end

end
