(* ===== verification/Vcos_Named_Sem_Pool.thy ===== *)
theory Vcos_Named_Sem_Pool
  imports Vcos_Named_Sem Vcos_Blockpool_Life
begin

text \<open>
  Starting and stopping the named semaphores (\<^verbatim>\<open>vcos/generic/vcos_generic_named_sem.c\<close>): the static
  block pool of 16 semaphores and its extension to at most 512, and the properties of the component.
\<close>

section \<open>Initialisation\<close>

definition NUM_SEMS :: nat where "NUM_SEMS = 16"
definition MAX_SEMS :: nat where "MAX_SEMS = 512"

text \<open>\<open>sizeof(VCOS_NAMED_SEMAPHORE_IMPL_T)\<close> on the 32-bit target.\<close>

definition SIZEOF_SEM_IMPL :: u32 where "SIZEOF_SEM_IMPL = 92"

text \<open>The array \<open>pool_mem\<close>.\<close>

definition SIZEOF_POOL_MEM :: u32 where
  "SIZEOF_POOL_MEM = BLOCKPOOL_SIZE (of_nat NUM_SEMS) SIZEOF_SEM_IMPL BLOCKPOOL_ALIGN_DEFAULT"

text \<open>\<open>pool_st\<close> and \<open>mutex_st\<close> are the outcomes of the two mutex creations, the pool's and the lock's.\<close>

definition vcos_named_semaphore_init ::
  "(addr \<Rightarrow> 'e \<Rightarrow> 'e) \<Rightarrow> vcos_status \<Rightarrow> vcos_status \<Rightarrow> addr \<Rightarrow> 'e nstate \<Rightarrow> (vcos_status \<times> 'e nstate) option" where
  "vcos_named_semaphore_init release pool_st mutex_st pool_mem s =
     Option.bind (vcos_generic_blockpool_init pool_st (ns_pool s) (of_nat NUM_SEMS) SIZEOF_SEM_IMPL
                    (Some pool_mem) SIZEOF_POOL_MEM BLOCKPOOL_ALIGN_DEFAULT) (\<lambda>(st, p1).
       if st \<noteq> VCOS_SUCCESS then Some (st, s\<lparr>ns_pool := p1\<rparr>)
       else Option.bind (vcos_generic_blockpool_extend p1 (of_nat (BLOCKPOOL_MAX_SUBPOOLS - 1))
                           (of_nat ((MAX_SEMS - NUM_SEMS) div (BLOCKPOOL_MAX_SUBPOOLS - 1)))) (\<lambda>(st, p2).
         let st = (if st \<noteq> VCOS_SUCCESS then st else mutex_st) in
         if st \<noteq> VCOS_SUCCESS
         then map_option (\<lambda>p3. (st, s\<lparr>ns_pool := p3\<rparr>)) (vcos_generic_blockpool_delete release p2)
         else Some (st, s\<lparr>ns_pool := p2\<rparr>)))"

definition vcos_named_semaphore_deinit :: "(addr \<Rightarrow> 'e \<Rightarrow> 'e) \<Rightarrow> 'e nstate \<Rightarrow> 'e nstate option" where
  "vcos_named_semaphore_deinit release s =
     map_option (\<lambda>p. s\<lparr>ns_pool := p, ns_in_use := None\<rparr>) (vcos_generic_blockpool_delete release (ns_pool s))"

lemma sem_sizes:
  "block_size_of SIZEOF_SEM_IMPL 4 = 96" "SIZEOF_POOL_MEM = 1540"
  "BLOCKPOOL_SIZE 70 SIZEOF_SEM_IMPL 4 = 6724" "BLOCKPOOL_SIZE 16 SIZEOF_SEM_IMPL 4 = 1540"
  by (simp_all add: block_size_of_def SIZEOF_SEM_IMPL_def SIZEOF_BLOCK_HEADER_def BLOCKPOOL_ROUND_UP_def
      SIZEOF_POOL_MEM_def BLOCKPOOL_SIZE_def NUM_SEMS_def BLOCKPOOL_ALIGN_DEFAULT_def)

lemma sem_fits: "sizes_fit 16 SIZEOF_SEM_IMPL 4" "sizes_fit 70 SIZEOF_SEM_IMPL 4"
proof -
  have "align_ok 4" unfolding align_ok_def by (rule exI [of _ 2]) simp
  then show "sizes_fit 16 SIZEOF_SEM_IMPL 4" "sizes_fit 70 SIZEOF_SEM_IMPL 4"
    unfolding sizes_fit_def sem_sizes by (simp_all add: SIZEOF_SEM_IMPL_def)
qed

context region_allocator
begin

lemma sems_init:
  assumes e: "einv (bp_env (ns_pool s))" and m: "pool_mem \<in> live (bp_env (ns_pool s))"
    "1540 \<le> region (bp_env (ns_pool s)) pool_mem"
    and f: "fits (BLOCKPOOL_SIZE 70 SIZEOF_SEM_IMPL 4)"
    and z: "ns_in_use s = None" "ns_count s = 0" "ns_total s = 0"
  shows "\<exists>s'. vcos_named_semaphore_init release VCOS_SUCCESS VCOS_SUCCESS pool_mem s = Some (VCOS_SUCCESS, s')
    \<and> sems_inv s' [] \<and> refs_map s' [] = Map.empty"
proof -
  obtain p1 where p1: "vcos_generic_blockpool_init VCOS_SUCCESS (ns_pool s) 16 SIZEOF_SEM_IMPL
      (Some pool_mem) SIZEOF_POOL_MEM 4 = Some (VCOS_SUCCESS, p1)"
    "bp_inv live einv fits region p1" "bp_num_subpools p1 = 1"
    using init_spec [OF e m(1) _ sem_fits(1), of 4 SIZEOF_POOL_MEM] m(2) unfolding sem_sizes by auto
  have l: "bp_block_size p1 = block_size_of SIZEOF_SEM_IMPL 4" "bp_block_data_size p1 = SIZEOF_SEM_IMPL"
    "bp_align p1 = 4" "\<forall>i. sp_flags (bp_subpools p1 i) = 0"
    using init_layout [OF p1(1) _ p1(2)] by simp_all
  have life: "bp_life live einv fits region p1" using p1(2) l by (simp add: bp_life_def)
  obtain p2 where p2: "vcos_generic_blockpool_extend p1 7 70 = Some (VCOS_SUCCESS, p2)"
    using bp_invD(1) [OF p1(2)] p1(3)
    by (auto simp: vcos_generic_blockpool_extend_def BLOCKPOOL_MAX_SUBPOOLS_def)
  have "bp_inv live einv fits region p2"
    using extend_life [OF life p2] sem_fits(2) f unfolding l bp_life_def by blast
  then have "sems_inv (s\<lparr>ns_pool := p2\<rparr>) []"
    using z by (simp add: ns_inv_def sem_list_def descending_def total_refs_def in_i32_def)
  moreover have "vcos_named_semaphore_init release VCOS_SUCCESS VCOS_SUCCESS pool_mem s
      = Some (VCOS_SUCCESS, s\<lparr>ns_pool := p2\<rparr>)"
    using p1(1) p2 by (simp add: vcos_named_semaphore_init_def NUM_SEMS_def MAX_SEMS_def
        BLOCKPOOL_MAX_SUBPOOLS_def BLOCKPOOL_ALIGN_DEFAULT_def)
  ultimately show ?thesis by (simp add: refs_map_def)
qed

text \<open>When the semaphore of a new name cannot be created, the block that was taken for it stays
  allocated.\<close>

lemma create_new_fails:
  assumes inv: "sems_inv s xs" and abs: "name \<notin> name_of s ` set xs"
    and len: "length name < VCOS_NAMED_SEMAPHORE_NAMELEN" and st: "sem_st \<noteq> VCOS_SUCCESS"
  shows "\<exists>st s'. vcos_generic_named_semaphore_create alloc sem_st name cnt sem s = Some (st, sem, s')
    \<and> sems_inv s' xs \<and> refs_map s' xs = refs_map s xs
    \<and> (st = sem_st \<and> (\<exists>x. x \<notin> used (ns_pool s) \<and> used (ns_pool s') = insert x (used (ns_pool s)))
       \<or> st = VCOS_ENOSPC \<and> used (ns_pool s) = all_blocks (ns_pool s))"
proof -
  note I = ns_invD [OF inv]
  obtain r p where a: "vcos_generic_blockpool_alloc alloc (ns_pool s) = Some (r, p)" and post: "alloc_post (ns_pool s) r p"
    using alloc_spec [OF I(3)] by blast
  obtain c where f: "find_impl name (ns_in_use s) (- 1) s
      = Some (head_of (dropWhile (\<lambda>a. strcmp name (name_of s a) < 0) xs), c)"
    "head_of (dropWhile (\<lambda>a. strcmp name (name_of s a) < 0) xs) \<noteq> None \<longrightarrow> c \<noteq> 0"
    using find_absent [OF inv abs] by blast
  show ?thesis
  proof (cases r)
    case None
    then have p: "bp_inv live einv fits region p" "used p = used (ns_pool s)" "used (ns_pool s) = all_blocks (ns_pool s)"
      using post by (auto simp: alloc_post_def)
    have "vcos_generic_named_semaphore_create alloc sem_st name cnt sem s = Some (VCOS_ENOSPC, sem, s\<lparr>ns_pool := p\<rparr>)"
      using f a None len by (auto simp: vcos_generic_named_semaphore_create_def)
    then show ?thesis using ns_pool_change [OF inv p(1)] p by blast
  next
    case (Some b)
    then obtain x where x: "b = x + 4" "x \<notin> used (ns_pool s)" "used p = insert x (used (ns_pool s))"
      "bp_inv live einv fits region p"
      using post by (auto simp: alloc_post_def)
    define s1 where "s1 = s\<lparr>ns_pool := p\<rparr>"
    define s2 where "s2 = upd_impl b (\<lambda>_. \<lparr>ni_sem = 0, ni_name = [], ni_refs = 0, ni_next = None, ni_prev = None\<rparr>) s1"
    have c: "vcos_generic_named_semaphore_create alloc sem_st name cnt sem s = Some (sem_st, sem, s2)"
      using f a Some len st by (auto simp: vcos_generic_named_semaphore_create_def s1_def s2_def)
    have "used (ns_pool s) \<subseteq> used p" using x(3) by blast
    note s1 = ns_pool_change [OF inv x(4) this, folded s1_def]
    have new: "b \<notin> set xs" using I(4) x(1,2) by fastforce
    have o: "name_of s2 y = name_of s1 y \<and> refs_of s2 y = refs_of s1 y" if "y \<in> set xs" for y
      using that new by (auto simp: s2_def name_of_def refs_of_def)
    note ch = refs_map_cong [of xs s2 s1, OF o]
    have lk: "dseg (sem_links s2) None i xs e None = dseg (sem_links s1) None i xs e None" for i e
      by (rule dseg_cong) (use new in \<open>auto simp: s2_def sem_links_def\<close>)
    have "sem_list s2 xs" using ns_invD(1) [OF s1(1)] lk by (simp add: sem_list_def s2_def)
    then have "sems_inv s2 xs"
      using ns_invD [OF s1(1)] ch(2,3) o unfolding ns_inv_def by (simp add: s2_def)
    moreover have "refs_map s2 xs = refs_map s xs" using ch(1) s1(2) by simp
    moreover have "used (ns_pool s2) = insert x (used (ns_pool s))" using x(3) by (simp add: s2_def s1_def)
    ultimately show ?thesis using c x(2) by blast
  qed
qed

lemma create_delete_refines:
  assumes inv: "sems_inv s xs" and t: "in_i32 (ns_total s + 1)"
  shows "\<exists>st sem' s' xs'. vcos_generic_named_semaphore_create alloc sem_st name cnt sem s = Some (st, sem', s')
    \<and> sems_inv s' xs'
    \<and> (st = VCOS_SUCCESS \<and> refs_map s' xs' = add_ref name (refs_map s xs)
         \<and> (\<exists>sem'' s'' xs''. vcos_named_semaphore_delete release sem' s' = Some (sem'', s'') \<and> sems_inv s'' xs''
              \<and> refs_map s'' xs'' = refs_map s xs)
       \<or> st = VCOS_EINVAL \<and> VCOS_NAMED_SEMAPHORE_NAMELEN \<le> length name \<and> s' = s \<and> xs' = xs
       \<or> st = VCOS_ENOSPC \<and> refs_map s' xs' = refs_map s xs \<and> refs_map s xs name = None
         \<and> used (ns_pool s) = all_blocks (ns_pool s)
       \<or> st = sem_st \<and> sem_st \<noteq> VCOS_SUCCESS \<and> refs_map s' xs' = refs_map s xs \<and> refs_map s xs name = None
         \<and> (\<exists>b. b \<notin> used (ns_pool s) \<and> used (ns_pool s') = insert b (used (ns_pool s))))"
proof (cases "length name < VCOS_NAMED_SEMAPHORE_NAMELEN")
  case False
  then have "vcos_generic_named_semaphore_create alloc sem_st name cnt sem s = Some (VCOS_EINVAL, sem, s)"
    by (simp add: vcos_generic_named_semaphore_create_def)
  with inv False show ?thesis by (intro exI conjI) (auto simp: not_less)
next
  case len: True
  have pos: "refs_map s xs name \<noteq> Some 0"
    using ns_invD(4) [OF inv] by (fastforce simp: refs_map_def dest: map_of_SomeD)
  have del: "\<exists>sem'' s'' xs''. vcos_named_semaphore_delete release sem' s' = Some (sem'', s'') \<and> sems_inv s'' xs''
        \<and> refs_map s'' xs'' = refs_map s xs"
    if inv': "sems_inv s' xs'" and add: "refs_map s' xs' = add_ref name (refs_map s xs)"
      and a: "a \<in> set xs'" "nm_actual sem' = Some a" "name_of s' a = name" for a s' xs' sem'
  proof -
    from delete_spec [OF inv' a(1,2)] obtain sem'' s'' xs'' where
      "vcos_named_semaphore_delete release sem' s' = Some (sem'', s'')" "sems_inv s'' xs''"
      "refs_map s'' xs'' = drop_ref name (refs_map s' xs')" unfolding a(3) by blast
    moreover have "drop_ref name (refs_map s' xs') = refs_map s xs"
      unfolding add by (rule drop_add_ref [of "refs_map s xs" name, OF pos])
    ultimately show ?thesis by auto
  qed
  consider (old) a where "a \<in> set xs" "name = name_of s a" | (new) "name \<notin> name_of s ` set xs" "sem_st = VCOS_SUCCESS"
    | (failing) "name \<notin> name_of s ` set xs" "sem_st \<noteq> VCOS_SUCCESS" by blast
  then show ?thesis
  proof cases
    case old
    have l: "length (name_of s a) < VCOS_NAMED_SEMAPHORE_NAMELEN" using len old(2) by simp
    obtain s' where c: "vcos_generic_named_semaphore_create alloc sem_st name cnt sem s
        = Some (VCOS_SUCCESS, \<lparr>nm_actual = Some a, nm_sem = Some a\<rparr>, s')"
      and s': "sems_inv s' xs" "refs_map s' xs = add_ref name (refs_map s xs)" "name_of s' = name_of s"
      using create_existing [OF inv old(1) l t, of alloc sem_st cnt sem, folded old(2)] by blast
    from del [OF s'(1,2) old(1), of "\<lparr>nm_actual = Some a, nm_sem = Some a\<rparr>"] s'(3) old(2) have d:
      "\<exists>sem'' s'' xs''. vcos_named_semaphore_delete release \<lparr>nm_actual = Some a, nm_sem = Some a\<rparr> s' = Some (sem'', s'')
        \<and> sems_inv s'' xs'' \<and> refs_map s'' xs'' = refs_map s xs" by simp
    show ?thesis by (rule exI, rule exI, rule exI, rule exI, rule conjI, rule c, rule conjI, rule s'(1), rule disjI1)
      (rule d refl s'(2) conjI)+
  next
    case new
    have n: "refs_map s xs name = None" using new(1) refs_map_None by blast
    from create_new [OF inv new(1) len t, of cnt sem] obtain st sem' s' xs' where
      c: "vcos_generic_named_semaphore_create alloc sem_st name cnt sem s = Some (st, sem', s')" "sems_inv s' xs'"
      and r: "st = VCOS_SUCCESS \<and> refs_map s' xs' = add_ref name (refs_map s xs)
         \<and> (\<exists>a \<in> set xs'. nm_actual sem' = Some a \<and> name_of s' a = name)
       \<or> st = VCOS_ENOSPC \<and> refs_map s' xs' = refs_map s xs \<and> used (ns_pool s) = all_blocks (ns_pool s)"
      unfolding new(2) by blast
    from r show ?thesis
    proof (elim disjE conjE bexE)
      fix a
      assume 1: "st = VCOS_SUCCESS" "refs_map s' xs' = add_ref name (refs_map s xs)" "a \<in> set xs'"
        "nm_actual sem' = Some a" "name_of s' a = name"
      note d = del [OF c(2) 1(2-5)]
      show ?thesis by (rule exI, rule exI, rule exI, rule exI, rule conjI, rule c, rule conjI, rule c(2), rule disjI1)
        (rule d 1(1,2) conjI)+
    next
      assume 1: "st = VCOS_ENOSPC" "refs_map s' xs' = refs_map s xs" "used (ns_pool s) = all_blocks (ns_pool s)"
      show ?thesis by (rule exI, rule exI, rule exI, rule exI, rule conjI, rule c, rule conjI, rule c,
          rule disjI2, rule disjI2, rule disjI1) (intro conjI 1 n)
    qed
  next
    case failing
    have n: "refs_map s xs name = None" using failing(1) refs_map_None by blast
    from create_new_fails [OF inv failing(1) len failing(2), of cnt sem] obtain st s' where
      c: "vcos_generic_named_semaphore_create alloc sem_st name cnt sem s = Some (st, sem, s')" "sems_inv s' xs"
        "refs_map s' xs = refs_map s xs"
      and r: "st = sem_st \<and> (\<exists>x. x \<notin> used (ns_pool s) \<and> used (ns_pool s') = insert x (used (ns_pool s)))
       \<or> st = VCOS_ENOSPC \<and> used (ns_pool s) = all_blocks (ns_pool s)" by blast
    from r show ?thesis
    proof (elim disjE conjE)
      assume 1: "st = sem_st" "\<exists>x. x \<notin> used (ns_pool s) \<and> used (ns_pool s') = insert x (used (ns_pool s))"
      show ?thesis by (rule exI, rule exI, rule exI, rule exI, rule conjI, rule c, rule conjI, rule c,
          rule disjI2, rule disjI2, rule disjI2) (intro conjI 1 n c failing(2))
    next
      assume 1: "st = VCOS_ENOSPC" "used (ns_pool s) = all_blocks (ns_pool s)"
      show ?thesis by (rule exI, rule exI, rule exI, rule exI, rule conjI, rule c, rule conjI, rule c,
          rule disjI2, rule disjI2, rule disjI1) (intro conjI 1 n c)
    qed
  qed
qed

end

section \<open>Properties\<close>

text \<open>C23. Named semaphores implement a map from names to reference counts. In every state with the
  invariant (sorted list, counters, blocks of the pool) with room for one more reference in the total
  count, whatever creating the system's semaphore gives: creating a named semaphore adds a reference to its
  name, whether or not it existed, and deleting the returned handle then restores the map; or it refuses a
  name of 64 characters or more and changes nothing; or it reports \<open>VCOS_ENOSPC\<close>, for a name that did not
  exist and with every block of the pool in use, and changes nothing; or the system's semaphore of a new
  name could not be created, which leaves the map as it was but one more block of the pool in use.\<close>

theorem named_semaphore_refines_map:
  assumes "region_allocator alloc release live einv fits region"
    and "ns_inv live einv fits region s xs" and "in_i32 (ns_total s + 1)"
  shows "\<exists>st sem' s' xs'. vcos_generic_named_semaphore_create alloc sem_st name cnt sem s = Some (st, sem', s')
    \<and> ns_inv live einv fits region s' xs'
    \<and> (st = VCOS_SUCCESS \<and> refs_map s' xs' = add_ref name (refs_map s xs)
         \<and> (\<exists>sem'' s'' xs''. vcos_named_semaphore_delete release sem' s' = Some (sem'', s'')
              \<and> ns_inv live einv fits region s'' xs'' \<and> refs_map s'' xs'' = refs_map s xs)
       \<or> st = VCOS_EINVAL \<and> VCOS_NAMED_SEMAPHORE_NAMELEN \<le> length name \<and> s' = s \<and> xs' = xs
       \<or> st = VCOS_ENOSPC \<and> refs_map s' xs' = refs_map s xs \<and> refs_map s xs name = None
         \<and> used (ns_pool s) = all_blocks (ns_pool s)
       \<or> st = sem_st \<and> sem_st \<noteq> VCOS_SUCCESS \<and> refs_map s' xs' = refs_map s xs \<and> refs_map s xs name = None
         \<and> (\<exists>b. b \<notin> used (ns_pool s) \<and> used (ns_pool s') = insert b (used (ns_pool s))))"
  by (rule region_allocator.create_delete_refines [OF assms])

definition example_sems :: "bump_heap vmem nstate" where
  "example_sems = \<lparr>ns_impl = (\<lambda>_. undefined), ns_in_use = None, ns_count = 0, ns_total = 0,
     ns_pool = example_bp\<lparr>bp_env := snd (bump_vmalloc 1540 (bp_env example_bp))\<rparr>\<rparr>"

lemma example_sems_init:
  "\<exists>s'. vcos_named_semaphore_init bump_vfree VCOS_SUCCESS VCOS_SUCCESS 4112 example_sems = Some (VCOS_SUCCESS, s')
    \<and> ns_inv bump.vm_live bump.vm_inv ok_size bump.vm_region s' [] \<and> refs_map s' [] = Map.empty \<and> ns_total s' = 0"
proof -
  have inv: "bump.vm_inv (bp_env example_bp)"
    by (simp add: bump.vm_inv_def bump_inv_def bump_map_def example_bp_def)
  have ok: "ok_size 1540" "ok_size 6724" by (simp_all add: ok_size_def)
  obtain m where a: "bump_vmalloc 1540 (bp_env example_bp) = (Some 4112, m)"
    by (simp add: example_bp_def vcos_bump_alloc user_ptr_value)
  have "bump.vm_inv m \<and> 4112 \<in> bump.vm_live m" using bump.vm_alloc_Some [OF inv ok(1) a] by blast
  moreover have "bump.vm_region m 4112 = 1540" using bump.vm_region_alloc [OF ok(1) a] by simp
  ultimately show ?thesis
    using bump.vcos.sems_init [of example_sems 4112] a ok(2)
    by (auto simp: example_sems_def sem_sizes ns_inv_def total_refs_def)
qed

theorem named_semaphore_refines_map_witness:
  "\<exists>s st sem' s'. vcos_generic_named_semaphore_create bump_vmalloc VCOS_ENOMEM ''sync'' 1
      \<lparr>nm_actual = None, nm_sem = None\<rparr> s = Some (st, sem', s')
    \<and> ns_inv bump.vm_live bump.vm_inv ok_size bump.vm_region s []"
proof -
  obtain s where s: "ns_inv bump.vm_live bump.vm_inv ok_size bump.vm_region s []" "ns_total s = 0"
    using example_sems_init by blast
  have "in_i32 (ns_total s + 1)" by (simp add: s(2) in_i32_def)
  from named_semaphore_refines_map [OF bump.vcos.region_allocator_axioms s(1) this, of VCOS_ENOMEM "''sync''" 1
      "\<lparr>nm_actual = None, nm_sem = None\<rparr>"] s(1) show ?thesis by blast
qed

end
