(* ===== verification/Spec2Isabelle.thy ===== *)
theory Spec2Isabelle
  imports Mmal_Component_Life
    Mmal_Connection_Facts
    Mmal_Copy_Facts
    Mmal_Pool_Vcos
    Mmal_Port_Clock_Facts
    Mmal_Queue_Threads
    Mmal_Scheduler
    Raspicam_Grab
    Raspicam_Still_Facts
    Vcos_Event_Flags
    Vcos_Msg_Reply
    Vcos_Msgq_Pool
    Vcos_Msgqueue_Threads
    Vcos_Named_Sem_Pool
begin

text \<open>
  A verification library for raspicam: the camera class of \<^verbatim>\<open>src/src/private\<close> and the layers it
  works through, the C code of MMAL and VCOS under \<^verbatim>\<open>src/dependencies/mmal\<close> and
  \<^verbatim>\<open>src/dependencies/vcos\<close>.

  \<^bold>\<open>The program.\<close> VCOS is a portability layer: a heap, block pools, event flags, message queues and
  named semaphores over the primitives of the operating system. MMAL builds a multimedia framework
  on it: buffer headers are reference counted and may replicate one another, queues thread them
  through their \<open>next\<close> fields, pools own a fixed number of headers with payloads and get a header back
  when its last reference is released, and formats describe the elementary streams of a port.
  Lists, rationals and parameter helpers serve the rest. A component has input, output, clock and control
  ports; the client or another component sends headers to a port, the core counts those in transit, and
  the component gives them back through the port's callback. Connections join an output port to an input
  port, by a queue of the client or by the core itself (tunnelling), and events travel in headers of the
  component's event pool. The camera class creates the component \<open>vc.ril.camera\<close>, sends it the settings
  as parameters, and receives frames in the headers of a pool at its video port, whose callback copies
  the image out of the padded buffer for a thread that waits for it;
  the still camera sends its images through an encoder and collects the file.

  \<^bold>\<open>Theories and sources.\<close>
  \<^item> \<open>Mmal_Prelude\<close>: status codes (\<^verbatim>\<open>mmal_types.h\<close>, \<^verbatim>\<open>vcos_types.h\<close>), pointers as addresses or null,
    \<open>uint32_t\<close> as \<open>32 word\<close>, signed arithmetic as \<open>int\<close> under a range check, counting semaphores.
  \<^item> \<open>Heap_List\<close>: singly linked lists in a heap, shared by queues, message queues and free lists.
  \<^item> \<open>Fifo\<close>: the contract of a queue as locales \<open>fifo\<close> and \<open>fifo_put_back\<close>.
  \<^item> \<open>Mmal_Buffer\<close>: \<^verbatim>\<open>core/mmal_buffer.c\<close>; headers live in a store \<open>bufs\<close>, callbacks are identifiers that
    the operations interpret through their arguments.
  \<^item> \<open>Mmal_Queue\<close>, \<open>Mmal_Queue_Threads\<close>: \<^verbatim>\<open>core/mmal_queue.c\<close>; the operations, their refinement of a
    list (interpretation \<open>mq\<close>), and threads that share one queue as a step relation.
  \<^item> \<open>Mmal_Pool\<close>, \<open>Mmal_Pool_Facts\<close>, \<open>Mmal_Pool_Create\<close>, \<open>Mmal_Pool_Cycle\<close>, \<open>Mmal_Pool_Vcos\<close>:
    \<^verbatim>\<open>core/mmal_pool.c\<close>; creation, destruction, resizing and recycling over any allocator (locale
    \<open>pool_env\<close>), the clients' references as a step relation, and the default allocator. With
    \<open>pool_create_with_queue\<close> the queue's own block is on the heap too; the queues of connections, of ports and of
    the pools inside the world of the ports have a block that is not tracked (\<open>q_block = None\<close>).
  \<^item> \<open>Mmal_Format\<close>: \<^verbatim>\<open>core/mmal_format.c\<close>, with a store of blocks so that accesses out of bounds show.
  \<^item> \<open>Mmal_List\<close>, \<open>Mmal_Rational\<close>, \<open>Mmal_Util\<close>: \<^verbatim>\<open>util/mmal_list.c\<close>, \<^verbatim>\<open>util/mmal_util_rational.c\<close>,
    \<^verbatim>\<open>util/mmal_util.c\<close> and \<^verbatim>\<open>util/mmal_util_params.c\<close>.
  \<^item> \<open>Mmal_Clock\<close>, \<open>Mmal_Clock_Facts\<close>, \<open>Mmal_Clock_Service\<close>: \<^verbatim>\<open>core/mmal_clock.c\<close>; the media time, the
    requests in two lists that share the slots, and the rounds of the worker thread. Real time and the
    client's callbacks are arguments. Times are bounded by \<open>2 ^ 46\<close> microseconds where an addition must
    not overflow: a round reads the time at most 33 times, each reading adds less than \<open>2 ^ 40\<close>.
  \<^item> \<open>Mmal_World\<close>: the structures of ports, components, connections and events, the stores that hold
    them, and \<open>port_ops\<close>, the functions that are reached through pointers, by identifier.
  \<^item> \<open>Mmal_Port\<close>, \<open>Mmal_Port_Connect\<close>: \<^verbatim>\<open>core/mmal_port.c\<close>; the operations of one port, then those of
    two connected ports. \<open>Mmal_Events\<close>: \<^verbatim>\<open>core/mmal_events.c\<close>.
  \<^item> \<open>Mmal_Component\<close>, \<open>Mmal_Component_Life\<close>: \<^verbatim>\<open>core/mmal_component.c\<close>; creation, references,
    destruction, suppliers and actions, and the threads that release a component and its ports.
  \<^item> \<open>Mmal_Connection\<close>: \<^verbatim>\<open>util/mmal_connection.c\<close>.
  \<^item> \<open>Mmal_Module_Queue\<close>, \<open>Mmal_Copy\<close>, \<open>Mmal_Passthrough\<close>, \<open>Mmal_Splitter\<close>: the components
    \<^verbatim>\<open>components/null_sink.c\<close>, \<^verbatim>\<open>copy.c\<close>, \<^verbatim>\<open>passthrough.c\<close> and \<^verbatim>\<open>splitter.c\<close>.
  \<^item> \<open>Mmal_Port_Clock\<close>: \<^verbatim>\<open>core/mmal_port_clock.c\<close>; a port that owns a clock (its state without the rest of
    the world), the events between two clock ports, and their parameters. \<open>Mmal_Scheduler\<close>:
    \<^verbatim>\<open>components/scheduler.c\<close>, which holds headers back until the clock reaches their time stamps.
    \<open>Mmal_Port_Clock_Facts\<close>: events and parameters of clock ports, connected as the code connects them.
  \<^item> \<open>Mmal_Component_Facts\<close>, \<open>Mmal_Port_Links\<close>, \<open>Mmal_Connection_Facts\<close>, \<open>Mmal_Copy_Facts\<close>, \<open>Mmal_Splitter_Facts\<close>: the typing of a
    created component, the links of connected ports, destroying a connection, and what the copy and splitter
    components do with the headers.
  \<^item> \<open>Mmal_Port_Frames\<close>, \<open>Mmal_Port_Client\<close>, \<open>Mmal_Port_Order\<close>: what the operations leave alone, the
    contract between a port and its client as locales \<open>port_client\<close> and \<open>copy_port_client\<close>, and its
    interpretation on the copy component with a connection as the client.
  \<^item> \<open>Vcos_Mem\<close>: \<^verbatim>\<open>vcos/generic/vcos_mem_from_malloc.c\<close>. The locale \<open>sys_heap\<close> is what the C library
    documents of \<open>malloc\<close> and \<open>free\<close>; over it \<open>vcos_malloc\<close> provides the locales \<open>block_allocator\<close>
    and \<open>region_allocator\<close>, the contracts its users rely on.
  \<^item> \<open>Vcos_Blockpool\<close>, \<open>Vcos_Blockpool_Facts\<close>, \<open>Vcos_Blockpool_Handles\<close>, \<open>Vcos_Blockpool_Life\<close>:
    \<^verbatim>\<open>vcos/generic/vcos_generic_blockpool.c\<close>; free lists, subpools, handles, and all reachable states.
  \<^item> \<open>Vcos_Event_Flags\<close>: \<^verbatim>\<open>vcos/generic/vcos_generic_event_flags.c\<close>; the queue of waiters and the threads.
  \<^item> \<open>Vcos_Msgqueue\<close>, \<open>Vcos_Msg_Reply\<close>, \<open>Vcos_Msgqueue_Threads\<close>, \<open>Vcos_Msgq_Pool\<close>:
    \<^verbatim>\<open>vcos/generic/vcos_msgqueue.c\<close>; queues (interpretation \<open>vq\<close>), replies, interleavings, message pools.
  \<^item> \<open>Vcos_Named_Sem\<close>, \<open>Vcos_Named_Sem_Pool\<close>: \<^verbatim>\<open>vcos/generic/vcos_generic_named_sem.c\<close>; the sorted list,
    the map of names to reference counts it implements, and its start and stop.
  \<^item> \<open>Raspicam_Types\<close>, \<open>Raspicam\<close>, \<open>Raspicam_Capture\<close>: \<^verbatim>\<open>src/src/private/private_impl.cpp\<close> with
    \<^verbatim>\<open>private_impl.h\<close>, \<^verbatim>\<open>private_types.h\<close>, \<^verbatim>\<open>threadcondition.cpp\<close> and \<^verbatim>\<open>raspicamtypes.h\<close>; the enumerations and their
    translation, the settings with their setters and parameters, opening, capturing, releasing, and the
    callbacks of the video and the control port. The object is the part \<open>w_env\<close> of the world of the ports.
  \<^item> \<open>Raspicam_Image\<close>: the rows that the loops of \<open>memcpy\<close> copy, against an image defined by its planes.
    \<open>Raspicam_Facts\<close>: the way of a frame from a buffer to the user, and two defects.
    \<open>Raspicam_Settings\<close>: the setters against a component that keeps its parameters.
    \<open>Raspicam_Grab\<close>: threads in \<open>grab\<close> and the callback as a step relation.
  \<^item> \<open>Raspicam_Still\<close>, \<open>Raspicam_Still_Facts\<close>: \<^verbatim>\<open>src/src/private_still/private_still_impl.cpp\<close>; the still
    camera with its encoder, and the picture that the callback puts together over any sequence of buffers.
    \<open>takePicture\<close> is split where it waits. \<open>Mmal_Port_Recycle\<close>: a header goes back to its pool and the next
    one to the port, shared by both cameras.

  \<^bold>\<open>How the model corresponds to the code.\<close> A structure is a record with the source's fields, a
  pointer is \<open>addr option\<close> and what it points at is a store from addresses to records, so aliasing is
  the code's. A function takes and returns the state. A call that the source makes through a
  pointer, an allocation, and the creation of a mutex or semaphore are arguments. A loop that might
  not end is a \<open>partial_function\<close>: not returning is \<open>None\<close>, as is a null dereference or a failed
  \<open>vcos_demand\<close>; the properties prove that the operations return. A critical section is one step
  unless it blocks inside, and blocking is a value: an \<open>outcome\<close> is not returning, blocking, a fault, or
  a result. The locks of a port and of a component are not part of the state. In \<open>Vcos_Event_Flags\<close> a timeout
  and its post are one step, although the source unlocks in between. Assertions (\<open>vcos_assert\<close>) are those of a release
  build, empty. There is no fuel: every bound is a measure or the
  length of a list. Sizes of C structures are those of the 32-bit ARM target.

  \<^bold>\<open>What the lemmas show.\<close> Each component has a representation relation or invariant, lemmas that every
  operation keeps it (collections \<open>repr_intros\<close>, \<open>inv_intros\<close>), and a section of properties at the end of
  its last theory, numbered through the whole library. Some theorems state defects: a wait
  that returns null, a peek that blocks for ever, headers that the copy
  component loses, two error paths that free twice, a connection that cannot be destroyed at the second
  attempt, an input that the splitter does not give to one of its outputs, the colour planes of a YUV
  image in the wrong place, an automatic exposure that is lost
  when the camera is opened again, a picture that never ends in memory that is too small, and a missing encoder.

  \<^bold>\<open>Not modelled.\<close> The clock component (\<^verbatim>\<open>components/clock.c\<close>) filters measured latencies by heuristics without a
  contract. Logging, the debug console, dynamic loading and the pthreads wrappers only
  call the C library. The VideoCore client (\<^verbatim>\<open>mmal/vc\<close>) and the JPEG client marshal calls to GPU firmware
  that is not part of the repository, the OpenMAX adapter and the codec components translate to external
  libraries. Of the C++ part, the forwarding classes, the plain getters, the OpenCV
  conversions and the serial number of the board are left out; floating point gains are a parameter of the
  camera model, as are the order of colours of the firmware and the user's callback. The graph helper
  (\<^verbatim>\<open>util/mmal_graph.c\<close>) and the component wrapper call the operations modelled here on the client's behalf.
\<close>

end
